(* ===== verification/Prelude.thy ===== *)
theory Prelude
  imports Main "HOL-Library.Sublist" "HOL-Library.Word"
begin

text \<open>
  Shared vocabulary of the development: C strings as char lists, the documented behaviour of the
  libc and GLib string routines that the sources call on almost every line (\<open>strstr\<close>, \<open>strchr\<close>,
  \<open>g_strsplit\<close>, \<open>g_strjoinv\<close>, \<open>g_strstrip\<close>, the \<open>%d\<close>/\<open>%zu\<close> conversions, \<open>strtol\<close>), and the
  generic lemmas about them that every component uses. A \<open>gchar *\<close> that may be \<open>NULL\<close> is a
  \<open>string option\<close>; a \<open>GString\<close> and a non-null \<open>gchar *\<close> are \<open>string\<close>s without NUL characters.
  A \<open>GList\<close> is a list and a \<open>GHashTable\<close> keyed by string contents is a map.
\<close>

named_theorems string_laws \<open>laws of the string routines\<close>
named_theorems preserves \<open>preservation of a component's invariant by one operation\<close>

type_synonym cstr = "string option"

abbreviation NL :: char where
  "NL \<equiv> CHR 0x0A"

section \<open>Options and lists\<close>

lemma map_option_eq_None_conv [simp]: "(None = map_option f x) = (x = None)"
  by (cases x) auto

definition nonempty_or :: "string \<Rightarrow> cstr \<Rightarrow> string" where
  "nonempty_or d x = (case x of None \<Rightarrow> d | Some s \<Rightarrow> s)"

lemma takeWhile_all_stop: "\<forall>x \<in> set xs. P x \<Longrightarrow> \<not> P y \<Longrightarrow> takeWhile P (xs @ y # ys) = xs"
  by (induction xs) auto

lemma dropWhile_all_stop: "\<forall>x \<in> set xs. P x \<Longrightarrow> \<not> P y \<Longrightarrow> dropWhile P (xs @ y # ys) = y # ys"
  by (induction xs) auto

lemma takeWhile_neq_free: "c \<notin> set s \<Longrightarrow> takeWhile (\<lambda>x. x \<noteq> c) s = s"
  by (induction s) auto

lemma takeWhile_neq_cut: "c \<notin> set a \<Longrightarrow> takeWhile (\<lambda>x. x \<noteq> c) (a @ c # b) = a"
  by (induction a) auto

section \<open>Character classes\<close>

definition code :: "char \<Rightarrow> nat" where
  "code c = of_char c"

definition is_digit :: "char \<Rightarrow> bool" where
  "is_digit c \<longleftrightarrow> 48 \<le> code c \<and> code c \<le> 57"

definition is_lower :: "char \<Rightarrow> bool" where
  "is_lower c \<longleftrightarrow> 97 \<le> code c \<and> code c \<le> 122"

definition is_upper :: "char \<Rightarrow> bool" where
  "is_upper c \<longleftrightarrow> 65 \<le> code c \<and> code c \<le> 90"

definition is_alpha :: "char \<Rightarrow> bool" where
  "is_alpha c \<longleftrightarrow> is_lower c \<or> is_upper c"

definition is_alnum :: "char \<Rightarrow> bool" where
  "is_alnum c \<longleftrightarrow> is_alpha c \<or> is_digit c"

text \<open>\<open>isspace\<close> of the C locale, which is also \<open>g_ascii_isspace\<close>.\<close>

definition is_space :: "char \<Rightarrow> bool" where
  "is_space c \<longleftrightarrow> code c = 32 \<or> (9 \<le> code c \<and> code c \<le> 13)"

text \<open>\<open>g_ascii_ispunct\<close>: printable, not alphanumeric, not a space.\<close>

definition is_punct :: "char \<Rightarrow> bool" where
  "is_punct c \<longleftrightarrow> 33 \<le> code c \<and> code c \<le> 126 \<and> \<not> is_alnum c"

lemmas char_class_defs =
  code_def is_digit_def is_lower_def is_upper_def is_alpha_def is_alnum_def is_space_def is_punct_def

section \<open>Searching and cutting\<close>

text \<open>\<open>strstr\<close>: the offset of the first occurrence, \<open>None\<close> for \<open>NULL\<close>; it
  serves for strings of bytes and of code points.\<close>

fun strstr :: "'a list \<Rightarrow> 'a list \<Rightarrow> nat option" where
  "strstr [] d = (if d = [] then Some 0 else None)"
| "strstr (c # s) d = (if prefix d (c # s) then Some 0 else map_option Suc (strstr s d))"

lemma strstr_bound: "strstr s d = Some i \<Longrightarrow> i + length d \<le> length s"
  by (induction s d arbitrary: i rule: strstr.induct) (auto split: if_splits dest: prefix_length_le)

lemma strstr_split [string_laws]:
  "strstr s d = Some i \<Longrightarrow> take i s @ d @ drop (i + length d) s = s"
proof (induction s d arbitrary: i rule: strstr.induct)
  case (1 d)
  then show ?case by (simp split: if_splits)
next
  case (2 c s d)
  show ?case
  proof (cases "prefix d (c # s)")
    case True
    with "2.prems" show ?thesis by (auto simp: prefix_def)
  next
    case False
    with "2.prems" obtain j where "strstr s d = Some j" "i = Suc j" by auto
    with False "2.IH" show ?thesis by simp
  qed
qed

lemma strstr_None_iff: "strstr s d = None \<longleftrightarrow> (\<forall>a b. s \<noteq> a @ d @ b)"
proof (induction s d rule: strstr.induct)
  case (1 d)
  then show ?case by auto
next
  case (2 c s d)
  show ?case
  proof (cases "prefix d (c # s)")
    case True
    then obtain b where "c # s = [] @ d @ b" by (auto simp: prefix_def)
    with True show ?thesis by (metis option.simps(3) strstr.simps(2))
  next
    case False
    have "(\<exists>a b. c # s = a @ d @ b) \<longleftrightarrow> (\<exists>a b. s = a @ d @ b)" (is "?L \<longleftrightarrow> ?R")
    proof
      assume ?L
      then obtain a b where ab: "c # s = a @ d @ b" by blast
      with False have "a \<noteq> []" by (auto simp: prefix_def)
      with ab show ?R by (auto simp: Cons_eq_append_conv)
    next
      assume ?R
      then show ?L by (metis append_Cons)
    qed
    with False "2.IH" show ?thesis by simp blast
  qed
qed

lemma strstr_char: "strstr s [c] = None \<longleftrightarrow> c \<notin> set s"
  unfolding strstr_None_iff by (auto simp: in_set_conv_decomp)

lemma strstr_char_first: "c \<notin> set a \<Longrightarrow> strstr (a @ c # b) [c] = Some (length a)"
  by (induction a) auto

text \<open>
  \<open>g_strrstr (s, c)\<close> for a one-character needle, with the cut the callers make there: the text
  before and after the last occurrence.
\<close>

definition cut_last :: "char \<Rightarrow> string \<Rightarrow> (string \<times> string) option" where
  "cut_last c s =
     (if c \<in> set s
      then let b = takeWhile (\<lambda>x. x \<noteq> c) (rev s)
           in Some (rev (drop (Suc (length b)) (rev s)), rev b)
      else None)"

lemma cut_last_None: "c \<notin> set s \<Longrightarrow> cut_last c s = None"
  by (simp add: cut_last_def)

lemma cut_last_append:
  assumes "c \<notin> set b"
  shows "cut_last c (a @ c # b) = Some (a, b)"
proof -
  from assms have "takeWhile (\<lambda>x. x \<noteq> c) (rev b @ c # rev a) = rev b"
    by (intro takeWhile_all_stop) auto
  then show ?thesis by (simp add: cut_last_def)
qed

text \<open>\<open>strchr\<close> with a character as a boolean test.\<close>

definition has_char :: "string \<Rightarrow> char \<Rightarrow> bool" where
  "has_char s c \<longleftrightarrow> c \<in> set s"

text \<open>
  \<open>g_strsplit (s, d, max)\<close>: an empty string gives the empty vector; \<open>max < 1\<close> means no limit;
  otherwise at most \<open>max\<close> pieces, the last one holding the rest. \<open>split_cuts k\<close> makes at most
  \<open>k\<close> cuts, and \<open>length s\<close> cuts are always enough for a non-empty delimiter.
\<close>

fun split_cuts :: "nat \<Rightarrow> string \<Rightarrow> string \<Rightarrow> string list" where
  "split_cuts 0 d s = [s]"
| "split_cuts (Suc k) d s =
     (case strstr s d of
        None \<Rightarrow> [s]
      | Some i \<Rightarrow> take i s # split_cuts k d (drop (i + length d) s))"

definition g_strsplit :: "string \<Rightarrow> string \<Rightarrow> int \<Rightarrow> string list" where
  "g_strsplit s d mx =
     (if s = [] \<or> d = [] then []
      else split_cuts (if mx < 1 then length s else nat mx - 1) d s)"

fun g_strjoinv :: "string \<Rightarrow> string list \<Rightarrow> string" where
  "g_strjoinv d [] = []"
| "g_strjoinv d [x] = x"
| "g_strjoinv d (x # y # xs) = x @ d @ g_strjoinv d (y # xs)"

lemma split_cuts_ne [simp]: "split_cuts k d s \<noteq> []"
  by (cases k) (auto split: option.splits)

lemma g_strjoinv_Cons: "xs \<noteq> [] \<Longrightarrow> g_strjoinv d (x # xs) = x @ d @ g_strjoinv d xs"
  by (cases xs) auto

lemma join_split_cuts [string_laws]: "g_strjoinv d (split_cuts k d s) = s"
  by (induction k d s rule: split_cuts.induct)
     (auto simp: g_strjoinv_Cons strstr_split split: option.splits)

lemma join_strsplit [string_laws]: "d \<noteq> [] \<Longrightarrow> g_strjoinv d (g_strsplit s d mx) = s"
  by (simp add: g_strsplit_def join_split_cuts)

lemma join_char_decomp:
  assumes "c \<notin> set x"
  shows "split_cuts (Suc k) [c] (x @ c # s) = x # split_cuts k [c] s"
  using assms by (simp add: strstr_char_first)

lemma split_join_char:
  assumes "\<forall>x \<in> set xs. c \<notin> set x" "xs \<noteq> []" "length xs \<le> Suc k"
  shows "split_cuts k [c] (g_strjoinv [c] xs) = xs"
  using assms
proof (induction xs arbitrary: k)
  case Nil
  then show ?case by simp
next
  case (Cons x xs)
  show ?case
  proof (cases xs)
    case Nil
    with Cons.prems have "strstr x [c] = None" by (simp add: strstr_char)
    with Nil show ?thesis by (cases k) auto
  next
    case (Cons y ys)
    with \<open>length (x # xs) \<le> Suc k\<close> obtain k' where k: "k = Suc k'" by (cases k) auto
    have "split_cuts k' [c] (g_strjoinv [c] xs) = xs"
      using Cons.IH [of k'] \<open>\<forall>x\<in>set (x # xs). c \<notin> set x\<close> \<open>length (x # xs) \<le> Suc k\<close> k Cons by simp
    moreover have "c \<notin> set x" using \<open>\<forall>x\<in>set (x # xs). c \<notin> set x\<close> by simp
    ultimately show ?thesis
      using k Cons by (simp add: g_strjoinv_Cons strstr_char_first)
  qed
qed

lemma length_join_ge: "length xs \<le> Suc (length (g_strjoinv [c] xs))"
  by (induction "[c]" xs rule: g_strjoinv.induct) auto

lemma strsplit_join_char:
  assumes "\<forall>x \<in> set xs. c \<notin> set x" "xs \<noteq> []" "g_strjoinv [c] xs \<noteq> []"
  shows "g_strsplit (g_strjoinv [c] xs) [c] (- 1) = xs"
  using assms split_join_char [OF assms(1,2) length_join_ge] by (simp add: g_strsplit_def)

text \<open>\<open>g_strstrip\<close>: white space removed at both ends.\<close>

definition g_strchug :: "string \<Rightarrow> string" where
  "g_strchug s = dropWhile is_space s"

definition g_strchomp :: "string \<Rightarrow> string" where
  "g_strchomp s = rev (dropWhile is_space (rev s))"

definition g_strstrip :: "string \<Rightarrow> string" where
  "g_strstrip s = g_strchomp (g_strchug s)"

lemma g_strstrip_all_space: "g_strstrip s = [] \<longleftrightarrow> (\<forall>c \<in> set s. is_space c)"
proof -
  have "g_strstrip s = [] \<longleftrightarrow> (\<forall>c \<in> set (dropWhile is_space s). is_space c)"
    by (simp add: g_strstrip_def g_strchomp_def g_strchug_def)
  also have "\<dots> \<longleftrightarrow> (\<forall>c \<in> set s. is_space c)"
    by (induction s) auto
  finally show ?thesis .
qed

section \<open>Decimal numbers\<close>

definition digit_char :: "nat \<Rightarrow> char" where
  "digit_char d = char_of (48 + d)"

text \<open>\<open>%zu\<close>, and \<open>%d\<close> of a value that is not negative.\<close>

fun show_nat :: "nat \<Rightarrow> string" where
  "show_nat n = (if n < 10 then [digit_char n] else show_nat (n div 10) @ [digit_char (n mod 10)])"

declare show_nat.simps [simp del]

text \<open>\<open>%d\<close>.\<close>

definition show_int :: "int \<Rightarrow> string" where
  "show_int i = (if i < 0 then CHR ''-'' # show_nat (nat (- i)) else show_nat (nat i))"

text \<open>The digits at the front of a string, as \<open>strtol\<close>, \<open>atoi\<close> and \<open>sscanf\<close> read them.\<close>

fun read_digits :: "nat \<Rightarrow> string \<Rightarrow> nat \<times> string" where
  "read_digits acc [] = (acc, [])"
| "read_digits acc (c # s) =
     (if is_digit c then read_digits (10 * acc + (code c - 48)) s else (acc, c # s))"

text \<open>
  \<open>strtol (s, &end, 10)\<close> before range clamping: white space, an optional sign, digits. With no
  digits the value is 0.
\<close>

definition strtol10 :: "string \<Rightarrow> int" where
  "strtol10 s =
     (case dropWhile is_space s of
        [] \<Rightarrow> 0
      | c # r \<Rightarrow>
          if c = CHR ''-'' then - int (fst (read_digits 0 r))
          else if c = CHR ''+'' then int (fst (read_digits 0 r))
          else int (fst (read_digits 0 (c # r))))"

lemma code_digit_char: "d < 10 \<Longrightarrow> code (digit_char d) = 48 + d"
  by (simp add: code_def digit_char_def)

lemma is_digit_digit_char [simp]: "d < 10 \<Longrightarrow> is_digit (digit_char d)"
  by (simp add: is_digit_def code_digit_char)

lemma show_nat_ne [simp]: "show_nat n \<noteq> []"
  by (subst show_nat.simps) simp

lemma show_nat_digits: "c \<in> set (show_nat n) \<Longrightarrow> is_digit c"
proof (induction n rule: show_nat.induct)
  case (1 n)
  then show ?case by (subst (asm) (2) show_nat.simps) (auto split: if_splits)
qed

lemma read_digits_append:
  "(\<forall>c \<in> set s. is_digit c) \<Longrightarrow> read_digits a (s @ t) = read_digits (fst (read_digits a s)) t"
  by (induction s arbitrary: a) auto

lemma read_digits_snoc:
  "(\<forall>c \<in> set s. is_digit c) \<Longrightarrow> is_digit c \<Longrightarrow>
   fst (read_digits a (s @ [c])) = 10 * fst (read_digits a s) + (code c - 48)"
  by (simp add: read_digits_append)

lemma fst_read_show_nat: "fst (read_digits 0 (show_nat n)) = n"
proof (induction n rule: show_nat.induct)
  case (1 n)
  show ?case
  proof (cases "n < 10")
    case True
    then show ?thesis
      by (subst show_nat.simps) (simp add: code_digit_char)
  next
    case False
    with "1.IH" have "fst (read_digits 0 (show_nat (n div 10) @ [digit_char (n mod 10)])) = n"
      by (simp add: read_digits_snoc show_nat_digits code_digit_char)
    with False show ?thesis by (subst show_nat.simps) simp
  qed
qed

lemma read_show_nat [string_laws]:
  assumes "t = [] \<or> \<not> is_digit (hd t)"
  shows "read_digits 0 (show_nat n @ t) = (n, t)"
proof -
  have "read_digits 0 (show_nat n @ t) = read_digits n t"
    by (subst read_digits_append) (auto simp: show_nat_digits fst_read_show_nat)
  with assms show ?thesis by (cases t) auto
qed

lemma show_nat_inj: "show_nat m = show_nat n \<Longrightarrow> m = n"
  by (metis fst_read_show_nat)

lemma hd_show_nat: "is_digit (hd (show_nat n))"
  by (rule show_nat_digits [of _ n]) simp

lemma digit_not_space: "is_digit c \<Longrightarrow> \<not> is_space c"
  by (auto simp: is_digit_def is_space_def)

lemma digit_not_sign: "is_digit c \<Longrightarrow> c \<noteq> CHR ''-'' \<and> c \<noteq> CHR ''+''"
  by (auto simp: is_digit_def code_def)

lemma strtol10_show_nat [string_laws]:
  assumes "t = [] \<or> \<not> is_digit (hd t)"
  shows "strtol10 (show_nat n @ t) = int n"
proof -
  obtain c r where cr: "show_nat n = c # r" by (cases "show_nat n") auto
  with hd_show_nat [of n] have c: "is_digit c" by simp
  with read_show_nat [OF assms, of n] cr show ?thesis
    by (auto simp: strtol10_def digit_not_space dest: digit_not_sign)
qed

lemma strtol10_show_nat' [string_laws]: "strtol10 (show_nat n) = int n"
  using strtol10_show_nat [of "[]" n] by simp

lemma strtol10_show_int [string_laws]: "strtol10 (show_int i) = i"
proof (cases "i < 0")
  case True
  have "\<not> is_space (CHR ''-'')" by (simp add: is_space_def code_def)
  with True show ?thesis
    using read_show_nat [of "[]"] by (simp add: show_int_def strtol10_def)
next
  case False
  then show ?thesis by (simp add: show_int_def strtol10_show_nat')
qed

lemma show_int_inj: "show_int i = show_int j \<Longrightarrow> i = j"
  by (metis strtol10_show_int)

lemma show_nat_no_char: "\<not> is_digit c \<Longrightarrow> c \<notin> set (show_nat n)"
  using show_nat_digits by blast

section \<open>32-bit values\<close>

text \<open>
  \<open>g_str_hash\<close>, GLib's documented string hash: start at 5381 and for each (signed) character
  multiply by 33 and add it, modulo $2^{32}$.
\<close>

definition signed_code :: "char \<Rightarrow> int" where
  "signed_code c = (if code c < 128 then int (code c) else int (code c) - 256)"

definition g_str_hash :: "string \<Rightarrow> 32 word" where
  "g_str_hash s = foldl (\<lambda>h c. h * 33 + word_of_int (signed_code c)) 5381 s"

text \<open>\<open>atoi\<close>, whose result fits a \<open>gint\<close> in every use of the sources.\<close>

definition atoi :: "string \<Rightarrow> int" where
  "atoi s = strtol10 s"

section \<open>C arithmetic\<close>

text \<open>Integer division of C truncates towards 0.\<close>

definition c_div :: "int \<Rightarrow> int \<Rightarrow> int" where
  "c_div a b = sgn a * sgn b * (\<bar>a\<bar> div \<bar>b\<bar>)"

end
