(* ===== verification/Comm_Protocol.thy ===== *)
theory Comm_Protocol
  imports Prelude "HOL-Library.While_Combinator"
begin

text \<open>
  The message protocol between GeBR, the maestro and the daemons
  (\<open>libgebr/comm/gebr-comm-protocol.c\<close>): the table of message definitions, the serializer of
  messages and of their length-prefixed arguments, the incremental receiver and the argument
  splitter.
\<close>

section \<open>Message definitions\<close>

record message_def =
  code_hash :: "32 word"
  mcode :: string
  returns :: bool
  arg_number :: int

definition gebr_comm_message_def_create :: "string \<Rightarrow> bool \<Rightarrow> int \<Rightarrow> message_def" where
  "gebr_comm_message_def_create c r n =
     \<lparr>code_hash = g_str_hash c, mcode = c, returns = r, arg_number = n\<rparr>"

abbreviation mk_def :: "string \<Rightarrow> bool \<Rightarrow> int \<Rightarrow> message_def" where
  "mk_def \<equiv> gebr_comm_message_def_create"

definition ret_def :: message_def where
  "ret_def = mk_def ''RET'' False (- 1)"

definition err_def :: message_def where
  "err_def = mk_def ''ERR'' False 1"

definition ini_def :: message_def where
  "ini_def = mk_def ''INI'' True 6"

definition qut_def :: message_def where
  "qut_def = mk_def ''QUT'' False 0"

definition lst_def :: message_def where
  "lst_def = mk_def ''LST'' False 0"

definition job_def :: message_def where
  "job_def = mk_def ''JOB'' False 18"

definition run_def :: message_def where
  "run_def = mk_def ''RUN'' False 5"

definition rnq_def :: message_def where
  "rnq_def = mk_def ''RNQ'' False 2"

definition clr_def :: message_def where
  "clr_def = mk_def ''CLR'' False 1"

definition end_def :: message_def where
  "end_def = mk_def ''END'' False 1"

definition jcl_def :: message_def where
  "jcl_def = mk_def ''JCL'' False 1"

definition kil_def :: message_def where
  "kil_def = mk_def ''KIL'' False 1"

definition out_def :: message_def where
  "out_def = mk_def ''OUT'' False 4"

definition sta_def :: message_def where
  "sta_def = mk_def ''STA'' False 5"

definition prt_def :: message_def where
  "prt_def = mk_def ''PRT'' False 1"

definition cfrm_def :: message_def where
  "cfrm_def = mk_def ''CFRM'' False 1"

definition path_def :: message_def where
  "path_def = mk_def ''PATH'' True 3"

definition home_def :: message_def where
  "home_def = mk_def ''HOME'' False 1"

definition nfsid_def :: message_def where
  "nfsid_def = mk_def ''NFS'' False 1"

definition mpi_def :: message_def where
  "mpi_def = mk_def ''MPI'' False 2"

definition gid_def :: message_def where
  "gid_def = mk_def ''GID'' False 1"

definition ssta_def :: message_def where
  "ssta_def = mk_def ''SST'' False 5"

definition srm_def :: message_def where
  "srm_def = mk_def ''SRM'' False 1"

definition flw_def :: message_def where
  "flw_def = mk_def ''FLW'' True 1"

definition ac_def :: message_def where
  "ac_def = mk_def ''AC'' False 2"

definition agrp_def :: message_def where
  "agrp_def = mk_def ''AGRP'' False 1"

definition dgrp_def :: message_def where
  "dgrp_def = mk_def ''GGRP'' False 1"

definition tsk_def :: message_def where
  "tsk_def = mk_def ''TSK'' False 1"

definition iss_def :: message_def where
  "iss_def = mk_def ''ISS'' False 1"

definition cmd_def :: message_def where
  "cmd_def = mk_def ''CMD'' False 1"

definition pss_def :: message_def where
  "pss_def = mk_def ''PSS'' False 3"

definition qst_def :: message_def where
  "qst_def = mk_def ''QST'' False 3"

definition harakiri_def :: message_def where
  "harakiri_def = mk_def ''HRK'' False 0"

definition dsp_def :: message_def where
  "dsp_def = mk_def ''DSP'' False 0"

definition sftp_def :: message_def where
  "sftp_def = mk_def ''SFTP'' True 0"


lemmas message_defs =
  ret_def_def err_def_def ini_def_def qut_def_def lst_def_def job_def_def run_def_def rnq_def_def
  clr_def_def end_def_def jcl_def_def kil_def_def out_def_def sta_def_def prt_def_def cfrm_def_def
  path_def_def home_def_def nfsid_def_def mpi_def_def gid_def_def ssta_def_def srm_def_def
  flw_def_def ac_def_def agrp_def_def dgrp_def_def tsk_def_def iss_def_def cmd_def_def pss_def_def
  qst_def_def harakiri_def_def dsp_def_def sftp_def_def

text \<open>\<open>gebr_comm_protocol_init\<close>: the definitions in the order they are inserted into both tables.\<close>

definition gebr_comm_protocol_init :: "message_def list" where
  "gebr_comm_protocol_init =
     [ret_def, err_def, ini_def, qut_def, lst_def, job_def, run_def, rnq_def, flw_def, clr_def,
      end_def, jcl_def, kil_def, out_def, sta_def, gid_def, prt_def, ssta_def, srm_def, cfrm_def,
      path_def, home_def, nfsid_def, mpi_def, ac_def, agrp_def, dgrp_def, tsk_def, iss_def,
      cmd_def, pss_def, qst_def, harakiri_def, dsp_def, sftp_def]"

definition hash_table :: "string \<Rightarrow> message_def option" where
  "hash_table = foldl (\<lambda>t d. t(mcode d \<mapsto> d)) Map.empty gebr_comm_protocol_init"

definition code_hash_table :: "32 word \<Rightarrow> message_def option" where
  "code_hash_table = foldl (\<lambda>t d. t(code_hash d \<mapsto> d)) Map.empty gebr_comm_protocol_init"

lemma foldl_upd_other: "k \<notin> f ` set ds \<Longrightarrow> foldl (\<lambda>t d. t(f d \<mapsto> d)) m ds k = m k"
  by (induction ds arbitrary: m) auto

lemma foldl_upd_mem:
  "distinct (map f ds) \<Longrightarrow> d \<in> set ds \<Longrightarrow> foldl (\<lambda>t d. t(f d \<mapsto> d)) m ds (f d) = Some d"
proof (induction ds arbitrary: m)
  case Nil
  then show ?case by simp
next
  case (Cons e ds)
  then show ?case
    by (cases "d = e") (simp_all add: foldl_upd_other fun_upd_same del: fun_upd_apply)
qed

lemma foldl_upd_iff:
  assumes "distinct (map f ds)"
  shows "foldl (\<lambda>t d. t(f d \<mapsto> d)) Map.empty ds k = Some d \<longleftrightarrow> d \<in> set ds \<and> f d = k"
proof (cases "k \<in> f ` set ds")
  case True
  then obtain e where e: "e \<in> set ds" "k = f e" by blast
  have "f d = f e \<longrightarrow> d \<in> set ds \<longrightarrow> d = e"
    using assms e by (auto simp: distinct_map dest: inj_onD)
  with e show ?thesis by (auto simp: foldl_upd_mem [OF assms])
next
  case False
  then show ?thesis by (auto simp: foldl_upd_other)
qed

lemma distinct_codes: "distinct (map mcode gebr_comm_protocol_init)"
  by (simp add: gebr_comm_protocol_init_def message_defs gebr_comm_message_def_create_def)

lemma distinct_code_hashes: "distinct (map code_hash gebr_comm_protocol_init)"
  by (simp add: gebr_comm_protocol_init_def message_defs gebr_comm_message_def_create_def
      g_str_hash_def signed_code_def code_def)

lemma code_hash_nonzero: "d \<in> set gebr_comm_protocol_init \<Longrightarrow> code_hash d \<noteq> 0"
  by (auto simp: gebr_comm_protocol_init_def message_defs gebr_comm_message_def_create_def
      g_str_hash_def signed_code_def code_def)

lemma code_hash_of: "d \<in> set gebr_comm_protocol_init \<Longrightarrow> code_hash d = g_str_hash (mcode d)"
  by (auto simp: gebr_comm_protocol_init_def message_defs gebr_comm_message_def_create_def)

lemma hash_table_iff: "hash_table c = Some d \<longleftrightarrow> d \<in> set gebr_comm_protocol_init \<and> mcode d = c"
  unfolding hash_table_def by (rule foldl_upd_iff [OF distinct_codes])

lemma code_hash_table_iff:
  "code_hash_table h = Some d \<longleftrightarrow> d \<in> set gebr_comm_protocol_init \<and> code_hash d = h"
  unfolding code_hash_table_def by (rule foldl_upd_iff [OF distinct_code_hashes])

lemma known_code_hash:
  "hash_table c = Some d \<Longrightarrow> g_str_hash c = code_hash d \<and> g_str_hash c \<noteq> 0"
  using code_hash_of code_hash_nonzero by (force simp: hash_table_iff)

lemma codes_plain:
  "d \<in> set gebr_comm_protocol_init \<Longrightarrow>
   mcode d \<noteq> [] \<and> CHR '' '' \<notin> set (mcode d) \<and> CHR '':'' \<notin> set (mcode d)"
  by (auto simp: gebr_comm_protocol_init_def message_defs gebr_comm_message_def_create_def)

section \<open>Messages and the receiver\<close>

text \<open>
  \<open>gebr_comm_message_new\<close> leaves \<open>ret_hash\<close> uninitialised: \<open>None\<close> here. The sizes are \<open>gsize\<close>
  values, kept modulo $2^{64}$.
\<close>

record message =
  hash :: "32 word"
  ret_hash :: "32 word option"
  argument_size :: nat
  argument :: string

definition gebr_comm_message_new :: message where
  "gebr_comm_message_new = \<lparr>hash = 0, ret_hash = None, argument_size = 0, argument = []\<rparr>"

record protocol =
  pdata :: string
  message :: message
  messages :: "message list"
  logged :: bool
  hostname :: string

definition gebr_comm_protocol_reset :: "protocol \<Rightarrow> protocol" where
  "gebr_comm_protocol_reset p =
     p\<lparr>pdata := [], logged := False, message := gebr_comm_message_new, messages := []\<rparr>"

definition gebr_comm_protocol_new :: protocol where
  "gebr_comm_protocol_new =
     gebr_comm_protocol_reset
       \<lparr>pdata = [], message = gebr_comm_message_new, messages = [], logged = False, hostname = []\<rparr>"

text \<open>\<open>strtol\<close> clamps to \<open>long\<close> and then reports \<open>ERANGE\<close>; the result is stored in a \<open>gsize\<close>.\<close>

definition strtol_overflows :: "string \<Rightarrow> bool" where
  "strtol_overflows s \<longleftrightarrow> strtol10 s < - (2 ^ 63) \<or> 2 ^ 63 - 1 < strtol10 s"

definition strtol_gsize :: "string \<Rightarrow> nat" where
  "strtol_gsize s = nat (min (2 ^ 63 - 1) (max (- (2 ^ 63)) (strtol10 s)) mod 2 ^ 64)"

text \<open>
  The state of one call of \<open>gebr_comm_protocol_receive_data\<close>: the protocol, the caller's data
  buffer, whether \<open>errno\<close> is \<open>ERANGE\<close> (the function never clears it), the loop flag, and
  whether the error exit was taken.
\<close>

record recv =
  rprot :: protocol
  rdata :: string
  rerange :: bool
  reached_end :: bool
  rfailed :: bool

text \<open>The second half of the loop body: the missing bytes of the argument are taken from the data.\<close>

definition receive_argument :: "protocol \<Rightarrow> nat \<Rightarrow> string \<Rightarrow> recv \<Rightarrow> recv" where
  "receive_argument p missing dt s =
     (if missing < length dt
      then s\<lparr>rprot := p\<lparr>messages := (message p)\<lparr>argument := argument (message p) @ take missing dt\<rparr>
                                    # messages p,
                        message := gebr_comm_message_new\<rparr>,
             rdata := drop (missing + 1) dt, reached_end := True\<rparr>
      else s\<lparr>rprot := p\<lparr>message := (message p)\<lparr>argument := argument (message p) @ dt\<rparr>\<rparr>,
             rdata := [], reached_end := False\<rparr>)"

text \<open>The header tokens: the code, cut at the last colon into the code and the returned code.\<close>

definition split_head :: "string \<Rightarrow> string \<times> cstr" where
  "split_head t = (case cut_last (CHR '':'') t of None \<Rightarrow> (t, None) | Some (a, b) \<Rightarrow> (a, Some b))"

definition receive_header :: "recv \<Rightarrow> recv" where
  "receive_header s =
     (let p = rprot s; m = message p; splits = g_strsplit (rdata s) '' '' 3 in
      if length splits < 2 then s\<lparr>rfailed := True\<rparr>
      else
        let (cd, ret) = split_head (splits ! 0) in
        if hash_table cd = None \<or> (\<exists>r. ret = Some r \<and> hash_table r = None)
        then s\<lparr>rdata := [], rfailed := True\<rparr>
        else
          let m1 = m\<lparr>hash := g_str_hash cd,
                     ret_hash := (case ret of None \<Rightarrow> ret_hash m | Some r \<Rightarrow> Some (g_str_hash r)),
                     argument_size := strtol_gsize (splits ! 1)\<rparr>;
              p1 = p\<lparr>message := m1\<rparr>;
              er = (rerange s \<or> strtol_overflows (splits ! 1));
              erase_len = length cd + 1 + length (splits ! 1) + (if length splits = 2 then 0 else 1)
                          + (case ret of None \<Rightarrow> 0 | Some r \<Rightarrow> length r + 1)
          in if er then s\<lparr>rprot := p1, rerange := er, rfailed := True\<rparr>
             else receive_argument p1 (argument_size m1) (drop erase_len (rdata s)) s)"

definition receive_body :: "recv \<Rightarrow> recv" where
  "receive_body s =
     (let m = message (rprot s) in
      if hash m = 0 then receive_header s
      else receive_argument (rprot s)
             (nat ((int (argument_size m) - int (length (argument m))) mod 2 ^ 64)) (rdata s) s)"

definition receive_continues :: "recv \<Rightarrow> bool" where
  "receive_continues s \<longleftrightarrow> \<not> rfailed s \<and> \<not> reached_end s \<and> rdata s \<noteq> []"

text \<open>
  \<open>gebr_comm_protocol_receive_data\<close>: the \<open>while\<close> loop, as \<open>while_option\<close>, so that not returning
  would be \<open>None\<close>. The result is the return value, the protocol, what is left of the data, and
  \<open>errno\<close>.
\<close>

definition gebr_comm_protocol_receive_data ::
    "bool \<Rightarrow> protocol \<Rightarrow> string \<Rightarrow> (bool \<times> protocol \<times> string \<times> bool) option" where
  "gebr_comm_protocol_receive_data er p dt =
     map_option (\<lambda>s. (\<not> rfailed s, rprot s, rdata s, rerange s))
       (while_option receive_continues receive_body
          \<lparr>rprot = p, rdata = dt, rerange = er, reached_end = False, rfailed = False\<rparr>)"

section \<open>Serializing\<close>

text \<open>The arguments: \<open>length|text\<close>, separated by blanks; a NULL parameter is the empty string.\<close>

definition build_arg :: "string \<Rightarrow> string" where
  "build_arg a = show_nat (length a) @ ''|'' @ a"

fun build_args :: "cstr list \<Rightarrow> string" where
  "build_args [] = []"
| "build_args [a] = build_arg (nonempty_or [] a)"
| "build_args (a # b # as) = build_arg (nonempty_or [] a) @ '' '' @ build_args (b # as)"

definition gebr_comm_protocol_build_any_messagev :: "message_def \<Rightarrow> bool \<Rightarrow> cstr list \<Rightarrow> string" where
  "gebr_comm_protocol_build_any_messagev d is_return params =
     (let dt = build_args params;
          head = (if is_return then mcode ret_def @ '':'' @ mcode d else mcode d)
      in head @ '' '' @ show_nat (length dt) @ '' '' @ dt @ [NL])"

definition gebr_comm_protocol_build_messagev :: "message_def \<Rightarrow> cstr list \<Rightarrow> string" where
  "gebr_comm_protocol_build_messagev d params = gebr_comm_protocol_build_any_messagev d False params"

section \<open>Splitting the arguments\<close>

text \<open>
  \<open>SplitRejected\<close> is the \<open>NULL\<close> return; \<open>SplitUndefined\<close> is C behaviour without a meaning: the
  size variable read uninitialised when no number can be scanned, or \<open>strchr\<close> finding no bar.
\<close>

datatype split_error = SplitRejected | SplitUndefined

text \<open>\<open>sscanf (s, "%zu|", &n)\<close>.\<close>

definition scan_size :: "string \<Rightarrow> nat option" where
  "scan_size s =
     (let t = dropWhile is_space s;
          neg = (t \<noteq> [] \<and> hd t = CHR ''-'');
          u = (if t \<noteq> [] \<and> (hd t = CHR ''-'' \<or> hd t = CHR ''+'') then tl t else t);
          n = fst (read_digits 0 u)
      in if u = [] \<or> \<not> is_digit (hd u) then None
         else if 2 ^ 64 \<le> n then Some (2 ^ 64 - 1)
         else Some (if neg then (2 ^ 64 - n) mod 2 ^ 64 else n))"

text \<open>One argument: its size, the bar, and \<open>size\<close> bytes; the argument and what follows it.\<close>

definition split_arg :: "string \<Rightarrow> split_error + string \<times> string" where
  "split_arg iarg =
     (if dropWhile is_space iarg = [] then Inl SplitRejected
      else case (scan_size iarg, strstr iarg ''|'') of
        (Some n, Some j) \<Rightarrow>
          (let sep = drop (j + 1) iarg in
           if length sep < n then Inl SplitRejected else Inr (take n sep, drop n sep))
      | _ \<Rightarrow> Inl SplitUndefined)"

fun split_loop :: "nat \<Rightarrow> string \<Rightarrow> split_error + string list" where
  "split_loop 0 iarg = Inr []"
| "split_loop (Suc k) iarg =
     (case split_arg iarg of
        Inl e \<Rightarrow> Inl e
      | Inr (arg, rest) \<Rightarrow>
          if k = 0 then Inr [arg]
          else if rest = [] \<or> tl rest = [] then Inl SplitRejected
          else map_sum id (Cons arg) (split_loop k (tl rest)))"

definition gebr_comm_protocol_split_new :: "string \<Rightarrow> nat \<Rightarrow> split_error + string list" where
  "gebr_comm_protocol_split_new arguments parts = split_loop parts arguments"

section \<open>Path options\<close>

datatype path_option = PATH_CREATE | PATH_RENAME | PATH_DELETE

text \<open>\<open>None\<close> is any integer outside the enumeration.\<close>

fun gebr_comm_protocol_path_enum_to_str :: "path_option option \<Rightarrow> cstr" where
  "gebr_comm_protocol_path_enum_to_str (Some PATH_CREATE) = Some ''create''"
| "gebr_comm_protocol_path_enum_to_str (Some PATH_RENAME) = Some ''rename''"
| "gebr_comm_protocol_path_enum_to_str (Some PATH_DELETE) = Some ''delete''"
| "gebr_comm_protocol_path_enum_to_str None = None"

definition gebr_comm_protocol_path_str_to_enum :: "cstr \<Rightarrow> path_option" where
  "gebr_comm_protocol_path_str_to_enum s =
     (if s = Some ''create'' then PATH_CREATE
      else if s = Some ''rename'' then PATH_RENAME
      else if s = Some ''delete'' then PATH_DELETE
      else PATH_CREATE)"

section \<open>Prefix codes\<close>

text \<open>
  The contract between the serializer and the splitter: a decoder that takes one encoded item off
  the front of its input and returns the rest. Its consequence is that the encoding is a prefix
  code, so a sequence of encoded items has one reading only.
\<close>

locale prefix_code =
  fixes enc :: "'a \<Rightarrow> string"
    and dec :: "string \<Rightarrow> 'e + 'a \<times> string"
    and ok :: "'a \<Rightarrow> bool"
  assumes dec_enc: "ok x \<Longrightarrow> dec (enc x @ r) = Inr (x, r)"
begin

lemma unique_reading: "ok x \<Longrightarrow> ok y \<Longrightarrow> enc x @ r = enc y @ r' \<Longrightarrow> x = y \<and> r = r'"
  by (metis dec_enc prod.inject sum.inject(2))

lemma items_unique:
  "list_all ok xs \<Longrightarrow> list_all ok ys \<Longrightarrow> length xs = length ys \<Longrightarrow>
   concat (map enc xs) @ r = concat (map enc ys) @ r' \<Longrightarrow> xs = ys \<and> r = r'"
proof (induction xs arbitrary: ys)
  case Nil
  then show ?case by simp
next
  case (Cons x xs)
  then obtain y ys' where ys: "ys = y # ys'" by (cases ys) auto
  with Cons.prems have "enc x @ concat (map enc xs) @ r = enc y @ concat (map enc ys') @ r'"
    and "ok x" "ok y" by simp_all
  then have "x = y" "concat (map enc xs) @ r = concat (map enc ys') @ r'"
    using unique_reading by blast+
  with Cons.IH [of ys'] Cons.prems ys show ?case by simp
qed

end

definition arg_fits :: "string \<Rightarrow> bool" where
  "arg_fits a \<longleftrightarrow> length a < 2 ^ 63"

lemma bar_facts: "\<not> is_digit (CHR ''|'')" "\<not> is_space (CHR ''|'')"
  by (auto simp: is_digit_def is_space_def code_def)

lemma blank_facts: "\<not> is_digit (CHR '' '')" "\<not> is_digit (CHR '':'')" "\<not> is_digit NL"
  by (auto simp: is_digit_def code_def)

lemma scan_size_show:
  assumes "n < 2 ^ 64" "t = [] \<or> \<not> is_digit (hd t)"
  shows "scan_size (show_nat n @ t) = Some n"
proof -
  obtain c r where cr: "show_nat n = c # r" by (cases "show_nat n") auto
  with hd_show_nat [of n] have "is_digit c" by simp
  with cr read_show_nat [OF assms(2), of n] assms(1) show ?thesis
    by (auto simp: scan_size_def Let_def digit_not_space dest: digit_not_sign)
qed

lemma split_arg_build_arg: "arg_fits a \<Longrightarrow> split_arg (build_arg a @ r) = Inr (a, r)"
proof -
  assume "arg_fits a"
  then have n: "length a < 2 ^ 64" by (simp add: arg_fits_def)
  let ?s = "show_nat (length a) @ CHR ''|'' # a @ r"
  have "dropWhile is_space ?s \<noteq> []"
    using bar_facts(2) by (auto simp: dropWhile_eq_Nil_conv)
  moreover have "scan_size ?s = Some (length a)"
    using n bar_facts(1) by (intro scan_size_show) auto
  moreover have "strstr ?s ''|'' = Some (length (show_nat (length a)))"
    by (intro strstr_char_first show_nat_no_char bar_facts)
  ultimately show ?thesis by (simp add: split_arg_def build_arg_def)
qed

interpretation args: prefix_code build_arg split_arg arg_fits
  by unfold_locales (rule split_arg_build_arg)

lemma build_arg_ne [simp]: "build_arg a \<noteq> []"
  by (simp add: build_arg_def)

lemma build_args_ne: "ps \<noteq> [] \<Longrightarrow> build_args ps \<noteq> []"
  by (cases ps rule: build_args.cases) auto

lemma split_loop_build_args:
  "list_all (\<lambda>p. arg_fits (nonempty_or [] p)) ps \<Longrightarrow>
   split_loop (length ps) (build_args ps) = Inr (map (nonempty_or []) ps)"
proof (induction ps rule: build_args.induct)
  case 1
  then show ?case by simp
next
  case (2 a)
  then show ?case using args.dec_enc [of "nonempty_or [] a" "[]"] by simp
next
  case (3 a b as)
  then show ?case
    using args.dec_enc [of "nonempty_or [] a"] by (simp add: build_args_ne)
qed

section \<open>The receiver's loop\<close>

lemma receive_argument_stops: "\<not> receive_continues (receive_argument p n d s)"
  by (simp add: receive_argument_def receive_continues_def)

lemma failed_stops: "rfailed s \<Longrightarrow> \<not> receive_continues s"
  by (simp add: receive_continues_def)

lemma receive_body_stops: "\<not> receive_continues (receive_body s)"
  by (simp add: receive_body_def receive_header_def receive_argument_stops failed_stops Let_def
      split: prod.split)

text \<open>The loop body runs at most once: it ends a message, uses up the data, or fails.\<close>

definition recv_init :: "bool \<Rightarrow> protocol \<Rightarrow> string \<Rightarrow> recv" where
  "recv_init er p dt = \<lparr>rprot = p, rdata = dt, rerange = er, reached_end = False, rfailed = False\<rparr>"

lemma recv_init_sel [simp]:
  "rprot (recv_init er p dt) = p" "rdata (recv_init er p dt) = dt"
  "rerange (recv_init er p dt) = er" "\<not> reached_end (recv_init er p dt)"
  "\<not> rfailed (recv_init er p dt)"
  by (simp_all add: recv_init_def)

lemma receive_loop_once:
  "while_option receive_continues receive_body (recv_init er p dt) =
     Some (if dt = [] then recv_init er p dt else receive_body (recv_init er p dt))"
proof (cases "dt = []")
  case True
  then have "\<not> receive_continues (recv_init er p dt)" by (simp add: receive_continues_def)
  with True show ?thesis by (simp add: while_option_unfold)
next
  case False
  then have "receive_continues (recv_init er p dt)" by (simp add: receive_continues_def)
  then have "while_option receive_continues receive_body (recv_init er p dt) =
             while_option receive_continues receive_body (receive_body (recv_init er p dt))"
    by (subst while_option_unfold) simp
  also have "\<dots> = Some (receive_body (recv_init er p dt))"
    using receive_body_stops by (subst while_option_unfold) simp
  finally show ?thesis using False by simp
qed

lemma receive_data_once:
  "gebr_comm_protocol_receive_data er p dt =
     Some (if dt = [] then (True, p, [], er)
           else (\<lambda>s. (\<not> rfailed s, rprot s, rdata s, rerange s)) (receive_body (recv_init er p dt)))"
  using receive_loop_once [of er p dt]
  by (simp add: gebr_comm_protocol_receive_data_def recv_init_def)

section \<open>Delivery\<close>

lemma splits3:
  assumes "CHR '' '' \<notin> set h"
  shows "g_strsplit (h @ CHR '' '' # show_nat n @ CHR '' '' # t) '' '' 3 = [h, show_nat n, t]"
proof -
  have "strstr (show_nat n @ CHR '' '' # t) '' '' = Some (length (show_nat n))"
    by (intro strstr_char_first show_nat_no_char blank_facts)
  with assms show ?thesis by (simp add: g_strsplit_def strstr_char_first numeral_2_eq_2)
qed

lemma splits2:
  assumes "CHR '' '' \<notin> set h"
  shows "g_strsplit (h @ CHR '' '' # show_nat n) '' '' 3 = [h, show_nat n]"
proof -
  have "strstr (show_nat n) '' '' = None"
    by (simp add: strstr_char show_nat_no_char blank_facts)
  with assms show ?thesis by (simp add: g_strsplit_def strstr_char_first numeral_2_eq_2)
qed

text \<open>The head of a message on the wire, and what the receiver makes of it.\<close>

definition wire_head :: "message_def \<Rightarrow> bool \<Rightarrow> string" where
  "wire_head d is_return = (if is_return then mcode ret_def @ '':'' @ mcode d else mcode d)"

definition head_message :: "message_def \<Rightarrow> bool \<Rightarrow> message" where
  "head_message d is_return =
     \<lparr>hash = (if is_return then code_hash ret_def else code_hash d),
      ret_hash = (if is_return then Some (code_hash d) else None),
      argument_size = 0, argument = []\<rparr>"

definition known_def :: "message_def \<Rightarrow> bool" where
  "known_def d \<longleftrightarrow> d \<in> set gebr_comm_protocol_init"

lemma ret_def_known: "known_def ret_def"
  by (simp add: known_def_def gebr_comm_protocol_init_def)

lemma known_lookup: "known_def d \<Longrightarrow> hash_table (mcode d) = Some d"
  by (simp add: known_def_def hash_table_iff)

lemma known_hash: "known_def d \<Longrightarrow> g_str_hash (mcode d) = code_hash d"
  by (simp add: known_def_def code_hash_of)

lemma known_plain:
  "known_def d \<Longrightarrow> mcode d \<noteq> []" "known_def d \<Longrightarrow> CHR '' '' \<notin> set (mcode d)"
  "known_def d \<Longrightarrow> CHR '':'' \<notin> set (mcode d)"
  using codes_plain by (auto simp: known_def_def)

lemma head_hash_nonzero: "known_def d \<Longrightarrow> hash (head_message d r) \<noteq> 0"
  using code_hash_nonzero ret_def_known by (auto simp: head_message_def known_def_def)

lemma wire_head_plain: "known_def d \<Longrightarrow> CHR '' '' \<notin> set (wire_head d r)"
  using known_plain(2) [OF ret_def_known] by (auto simp: wire_head_def dest: known_plain(2))

lemma split_wire_head:
  "known_def d \<Longrightarrow> split_head (wire_head d r) =
     (if r then (mcode ret_def, Some (mcode d)) else (mcode d, None))"
  by (simp add: split_head_def wire_head_def cut_last_append cut_last_None known_plain)

lemma length_wire_head:
  "length (wire_head d r) = (if r then Suc (length (mcode ret_def) + length (mcode d)) else length (mcode d))"
  by (simp add: wire_head_def)

lemma strtol_show:
  "n < 2 ^ 63 \<Longrightarrow> \<not> strtol_overflows (show_nat n)"
  "n < 2 ^ 63 \<Longrightarrow> strtol_gsize (show_nat n) = n"
proof -
  assume "n < 2 ^ 63"
  then have "int n < 2 ^ 63" by simp
  then show "\<not> strtol_overflows (show_nat n)" "strtol_gsize (show_nat n) = n"
    by (simp_all add: strtol_overflows_def strtol_gsize_def strtol10_show_nat')
qed

text \<open>A protocol that waits for a new message.\<close>

definition idle :: "protocol \<Rightarrow> bool" where
  "idle p \<longleftrightarrow> message p = gebr_comm_message_new"

definition expecting :: "message_def \<Rightarrow> bool \<Rightarrow> nat \<Rightarrow> protocol \<Rightarrow> protocol" where
  "expecting d r n p = p\<lparr>message := (head_message d r)\<lparr>argument_size := n\<rparr>\<rparr>"

lemma receive_head:
  assumes "known_def d" "idle p" "n < 2 ^ 63"
    and "dt = wire_head d r @ CHR '' '' # show_nat n @ t" and "t = [] \<or> t = CHR '' '' # u"
  shows "receive_body (recv_init False p dt) =
    receive_argument (expecting d r n p) n (if t = [] then [] else u) (recv_init False p dt)"
proof -
  have sp: "g_strsplit dt '' '' 3 = (if t = [] then [wire_head d r, show_nat n]
                                    else [wire_head d r, show_nat n, u])"
    using assms splits2 splits3 wire_head_plain by auto
  have h0: "message p = gebr_comm_message_new" using assms(2) by (simp add: idle_def)
  show ?thesis
    using assms(1,3,4,5) h0 sp ret_def_known
    by (cases r) (auto simp: receive_body_def receive_header_def Let_def split_wire_head
        known_lookup known_hash strtol_show expecting_def head_message_def length_wire_head
        gebr_comm_message_new_def)
qed

text \<open>The message the receiver queues for \<open>build_any_messagev d r ps\<close>.\<close>

definition delivered :: "message_def \<Rightarrow> bool \<Rightarrow> string \<Rightarrow> message" where
  "delivered d r a = (head_message d r)\<lparr>argument_size := length a, argument := a\<rparr>"

lemma receive_argument_whole:
  assumes "length a = n"
  shows "receive_argument (expecting d r n p) n (a @ NL # rest) s =
    s\<lparr>rprot := p\<lparr>messages := delivered d r a # messages p, message := gebr_comm_message_new\<rparr>,
      rdata := rest, reached_end := True\<rparr>"
  using assms by (auto simp: receive_argument_def expecting_def delivered_def head_message_def)

lemma receive_message:
  assumes "known_def d" "idle p" "length (build_args ps) < 2 ^ 63"
  shows "gebr_comm_protocol_receive_data False p
           (gebr_comm_protocol_build_any_messagev d r ps @ rest) =
         Some (True, p\<lparr>messages := delivered d r (build_args ps) # messages p,
                       message := gebr_comm_message_new\<rparr>, rest, False)"
proof -
  let ?a = "build_args ps"
  let ?dt = "gebr_comm_protocol_build_any_messagev d r ps @ rest"
  have dt: "?dt = wire_head d r @ CHR '' '' # show_nat (length ?a) @ CHR '' '' # ?a @ NL # rest"
    by (simp add: gebr_comm_protocol_build_any_messagev_def wire_head_def Let_def)
  then have "?dt \<noteq> []" by simp
  moreover have "receive_body (recv_init False p ?dt) =
      receive_argument (expecting d r (length ?a) p) (length ?a) (?a @ NL # rest) (recv_init False p ?dt)"
    using receive_head [OF assms(1,2,3) dt] by simp
  ultimately show ?thesis
    by (simp add: receive_data_once receive_argument_whole del: append_is_Nil_conv)
qed

text \<open>A message cut inside its argument: the first part is kept, the second completes it.\<close>

lemma receive_cut_argument:
  assumes "known_def d" "idle p" "length (a1 @ a2) < 2 ^ 63"
  shows "gebr_comm_protocol_receive_data False p
           (wire_head d r @ '' '' @ show_nat (length (a1 @ a2)) @ '' '' @ a1) =
         Some (True, p\<lparr>message := (head_message d r)\<lparr>argument_size := length (a1 @ a2), argument := a1\<rparr>\<rparr>,
               [], False)"
proof -
  let ?n = "length (a1 @ a2)"
  let ?dt = "wire_head d r @ '' '' @ show_nat ?n @ '' '' @ a1"
  have "?dt = wire_head d r @ CHR '' '' # show_nat ?n @ CHR '' '' # a1" by simp
  from receive_head [OF assms(1,2,3) this]
  have "receive_body (recv_init False p ?dt) =
      receive_argument (expecting d r ?n p) ?n a1 (recv_init False p ?dt)"
    by simp
  then show ?thesis
    by (simp add: receive_data_once receive_argument_def expecting_def head_message_def)
qed

lemma receive_rest:
  assumes "known_def d" "length (a1 @ a2) < 2 ^ 64"
  shows "gebr_comm_protocol_receive_data er
           (p\<lparr>message := (head_message d r)\<lparr>argument_size := length (a1 @ a2), argument := a1\<rparr>\<rparr>)
           (a2 @ NL # rest) =
         Some (True, p\<lparr>messages := delivered d r (a1 @ a2) # messages p,
                       message := gebr_comm_message_new\<rparr>, rest, er)"
proof -
  let ?m = "(head_message d r)\<lparr>argument_size := length (a1 @ a2), argument := a1\<rparr>"
  have "hash ?m \<noteq> 0" using head_hash_nonzero [OF assms(1)] by simp
  moreover have "nat ((int (length (a1 @ a2)) - int (length a1)) mod 2 ^ 64) = length a2"
  proof -
    have "int (length a2) < 2 ^ 64" using assms(2) by simp
    then show ?thesis by (simp add: nat_mod_distrib)
  qed
  ultimately show ?thesis
    by (simp add: receive_data_once receive_body_def receive_argument_def delivered_def)
qed

section \<open>Properties\<close>

definition def_of_hash :: "message \<Rightarrow> message_def option" where
  "def_of_hash m = code_hash_table (hash m)"

lemma def_of_delivered:
  "known_def d \<Longrightarrow> def_of_hash (delivered d r a) = Some (if r then ret_def else d)"
  using ret_def_known
  by (auto simp: def_of_hash_def delivered_def head_message_def code_hash_table_iff known_def_def)

lemma delivered_sel [simp]:
  "argument (delivered d r a) = a" "argument_size (delivered d r a) = length a"
  "ret_hash (delivered d r a) = (if r then Some (code_hash d) else None)"
  by (simp_all add: delivered_def head_message_def)

lemma new_idle: "idle gebr_comm_protocol_new"
  by (simp add: idle_def gebr_comm_protocol_new_def gebr_comm_protocol_reset_def)

text \<open>
  C27: a message that one side builds is received whole by an idle protocol on the other side,
  whatever follows it on the wire: one message is queued, its hash is dispatched to the
  definition that built it (to RET for a return message, with the definition in the return
  hash), splitting its argument gives the parameters back (NULL as the empty string), the bytes
  after it are left in the buffer, and the protocol waits for the next message.
\<close>

theorem protocol_round_trip:
  assumes "known_def d" "idle p" "length (build_args ps) < 2 ^ 63"
    and "list_all (\<lambda>a. arg_fits (nonempty_or [] a)) ps"
  shows "\<exists>p' m. gebr_comm_protocol_receive_data False p
             (gebr_comm_protocol_build_any_messagev d r ps @ rest) = Some (True, p', rest, False) \<and>
           idle p' \<and> messages p' = m # messages p \<and>
           def_of_hash m = Some (if r then ret_def else d) \<and>
           ret_hash m = (if r then Some (code_hash d) else None) \<and>
           gebr_comm_protocol_split_new (argument m) (length ps) = Inr (map (nonempty_or []) ps)"
  using receive_message [OF assms(1-3)] split_loop_build_args [OF assms(4)] def_of_delivered [OF assms(1)]
  by (simp add: idle_def gebr_comm_protocol_split_new_def)

theorem protocol_round_trip_witness:
  "\<exists>p' m. gebr_comm_protocol_receive_data False gebr_comm_protocol_new
       (gebr_comm_protocol_build_any_messagev mpi_def False [Some ''a|b'', None] @ ''QUT 0'') =
         Some (True, p', ''QUT 0'', False) \<and> idle p' \<and>
       messages p' = m # messages gebr_comm_protocol_new \<and> def_of_hash m = Some mpi_def \<and>
       ret_hash m = None \<and>
       gebr_comm_protocol_split_new (argument m) (Suc (Suc 0)) = Inr [''a|b'', []]"
  using protocol_round_trip [of mpi_def gebr_comm_protocol_new "[Some ''a|b'', None]" False "''QUT 0''"]
    new_idle
  by (simp add: known_def_def gebr_comm_protocol_init_def build_arg_def show_nat.simps arg_fits_def
      nonempty_or_def)

text \<open>
  C28: cutting a message anywhere inside its argument does not change what is delivered: the
  first chunk is consumed, and the second one leaves the same protocol and the same
  remaining bytes as the whole message received at once.
\<close>

theorem protocol_fragmentation:
  assumes "known_def d" "idle p" "length (build_args ps) < 2 ^ 63" "build_args ps = a1 @ a2"
  shows "\<exists>p1. gebr_comm_protocol_receive_data False p
             (wire_head d r @ '' '' @ show_nat (length (build_args ps)) @ '' '' @ a1) =
               Some (True, p1, [], False) \<and>
           gebr_comm_protocol_receive_data False p1 (a2 @ NL # rest) =
             gebr_comm_protocol_receive_data False p
               (gebr_comm_protocol_build_any_messagev d r ps @ rest)"
  using receive_cut_argument [OF assms(1,2), of a1 a2 r] 
    receive_rest [OF assms(1), of a1 a2 False r p rest]
    receive_message [OF assms(1-3), of r rest] assms(3,4) by simp

theorem protocol_fragmentation_witness:
  "\<exists>p1. gebr_comm_protocol_receive_data False gebr_comm_protocol_new
             (wire_head home_def False @ '' '' @ show_nat (length (build_args [Some ''ab''])) @ '' '' @ ''2|'') =
               Some (True, p1, [], False) \<and>
           gebr_comm_protocol_receive_data False p1 (''ab'' @ NL # []) =
             gebr_comm_protocol_receive_data False gebr_comm_protocol_new
               (gebr_comm_protocol_build_any_messagev home_def False [Some ''ab''] @ [])"
proof (rule protocol_fragmentation)
  show "known_def home_def" by (simp add: known_def_def gebr_comm_protocol_init_def)
  show "build_args [Some ''ab''] = ''2|'' @ ''ab''" by code_simp
  then show "length (build_args [Some ''ab'']) < 2 ^ 63" by simp
qed (rule new_idle)

text \<open>
  A chunk that ends right after the digits of the size is read as a complete header, so the
  blank of the next chunk becomes the first byte of the argument: the queued argument lost its
  last byte, and the final newline is left in front of the next message.
\<close>

theorem header_fragmentation_corrupts:
  assumes "known_def d" "idle p" "a \<noteq> []" "length a < 2 ^ 63"
  shows "\<exists>p1. gebr_comm_protocol_receive_data False p (wire_head d r @ '' '' @ show_nat (length a)) =
               Some (True, p1, [], False) \<and>
           gebr_comm_protocol_receive_data False p1 ('' '' @ a @ NL # rest) =
             Some (True, p\<lparr>messages := delivered d r ('' '' @ butlast a) # messages p,
                           message := gebr_comm_message_new\<rparr>, NL # rest, False)"
proof -
  obtain b c where bc: "a = b @ [c]" using assms(3) by (cases a rule: rev_cases) auto
  let ?p1 = "p\<lparr>message := (head_message d r)\<lparr>argument_size := length a, argument := []\<rparr>\<rparr>"
  have "wire_head d r @ '' '' @ show_nat (length a) = wire_head d r @ CHR '' '' # show_nat (length a) @ []"
    by simp
  from receive_head [OF assms(1,2,4) this]
  have "gebr_comm_protocol_receive_data False p (wire_head d r @ '' '' @ show_nat (length a)) =
      Some (True, ?p1, [], False)"
    by (simp add: receive_data_once receive_argument_def expecting_def head_message_def)
  moreover have "gebr_comm_protocol_receive_data False ?p1 (('' '' @ b) @ c # NL # rest) =
      Some (True, p\<lparr>messages := delivered d r ('' '' @ b) # messages p,
                    message := gebr_comm_message_new\<rparr>, NL # rest, False)"
  proof -
    have "nat ((int (length a) - int (length [])) mod 2 ^ 64) = Suc (length b)"
      using assms(4) bc by simp
    moreover have "nat (1 + int (length b)) = Suc (length b)" by simp
    ultimately show ?thesis
      using head_hash_nonzero [OF assms(1), of r] bc
      by (simp add: receive_data_once receive_body_def Let_def receive_argument_def delivered_def)
  qed
  ultimately show ?thesis using bc by simp
qed

theorem header_fragmentation_witness:
  "\<exists>p1. gebr_comm_protocol_receive_data False gebr_comm_protocol_new
               (wire_head home_def False @ '' '' @ show_nat (length ''3|/ab'')) = Some (True, p1, [], False) \<and>
           gebr_comm_protocol_receive_data False p1 ('' '' @ ''3|/ab'' @ NL # []) =
             Some (True, gebr_comm_protocol_new
               \<lparr>messages := delivered home_def False ('' '' @ butlast ''3|/ab'') # messages gebr_comm_protocol_new,
                message := gebr_comm_message_new\<rparr>, NL # [], False)"
  by (rule header_fragmentation_corrupts)
    (simp_all add: known_def_def gebr_comm_protocol_init_def new_idle)

text \<open>The queue of received messages is unchanged, or has one more message in front.\<close>

definition one_more :: "message list \<Rightarrow> message list \<Rightarrow> bool" where
  "one_more ms ms' \<longleftrightarrow> ms' = ms \<or> (\<exists>m. ms' = m # ms)"

lemma one_more_simps [simp]: "one_more ms ms" "one_more ms (m # ms)"
  by (simp_all add: one_more_def)

lemma receive_argument_queue:
  "one_more (messages p) (messages (rprot (receive_argument p n d s)))"
  "suffix (rdata (receive_argument p n d s)) d"
  by (simp_all add: receive_argument_def suffix_drop)

lemma receive_header_queue: "one_more (messages (rprot s)) (messages (rprot (receive_header s)))"
proof -
  have "one_more (messages (rprot s)) (messages (rprot (receive_argument (rprot s\<lparr>message := m\<rparr>) n d t)))"
    for m n d t using receive_argument_queue(1) [of "rprot s\<lparr>message := m\<rparr>" n d t] by simp
  then show ?thesis by (simp add: receive_header_def Let_def split: prod.split)
qed

lemma receive_body_queue: "one_more (messages (rprot s)) (messages (rprot (receive_body s)))"
  by (simp add: receive_body_def Let_def receive_argument_queue(1) receive_header_queue)

lemma receive_body_data: "suffix (rdata (receive_body s)) (rdata s)"
proof -
  have "suffix (rdata (receive_argument p n (drop j d) t)) d" for p n j d t
    using receive_argument_queue(2) suffix_drop suffix_order.trans by blast
  then show ?thesis
    by (simp add: receive_body_def receive_header_def Let_def receive_argument_queue(2)
        split: prod.split)
qed

text \<open>
  C29: whatever the state of the protocol and whatever bytes arrive, the receiver returns: its
  loop ends, the bytes it leaves are a final part of those it was given, and the queue of
  received messages keeps what it held and grows by one message at most.
\<close>

theorem receive_data_returns:
  "\<exists>ok p' rest er'. gebr_comm_protocol_receive_data er p dt = Some (ok, p', rest, er') \<and>
     suffix rest dt \<and> one_more (messages p) (messages p')"
  using receive_body_queue [of "recv_init er p dt"] receive_body_data [of "recv_init er p dt"]
  by (auto simp: receive_data_once)

text \<open>
  When \<open>errno\<close> is \<open>ERANGE\<close> before the call (the function never clears it), a well formed
  header is refused with its bytes still in the buffer, but the pending message already has its
  hash: the protocol is no longer idle, and the same bytes are then read as argument bytes.
\<close>

theorem stale_errno_rejects:
  assumes "known_def d" "idle p"
  shows "\<exists>p'. gebr_comm_protocol_receive_data True p (gebr_comm_protocol_build_any_messagev d r ps) =
             Some (False, p', gebr_comm_protocol_build_any_messagev d r ps, True) \<and>
           hash (message p') = (if r then code_hash ret_def else code_hash d) \<and> \<not> idle p'"
proof -
  have busy: "\<not> idle p'" if "hash (message p') \<noteq> 0" for p'
    using that by (auto simp: idle_def gebr_comm_message_new_def)
  let ?a = "build_args ps"
  let ?dt = "gebr_comm_protocol_build_any_messagev d r ps"
  have dt: "?dt = wire_head d r @ CHR '' '' # show_nat (length ?a) @ CHR '' '' # ?a @ [NL]"
    by (simp add: gebr_comm_protocol_build_any_messagev_def wire_head_def Let_def)
  then have sp: "g_strsplit ?dt '' '' 3 = [wire_head d r, show_nat (length ?a), ?a @ [NL]]"
    using splits3 wire_head_plain [OF assms(1)] by simp
  have "?dt \<noteq> []" using dt by simp
  moreover have "hash (message p) = 0" using assms(2) by (simp add: idle_def gebr_comm_message_new_def)
  ultimately show ?thesis
    using sp assms(1) ret_def_known head_hash_nonzero [OF assms(1), of r]
    by (cases r) (simp_all add: receive_data_once receive_body_def receive_header_def Let_def
        split_wire_head known_lookup known_hash busy head_message_def)
qed

theorem stale_errno_witness:
  "\<exists>p'. gebr_comm_protocol_receive_data True gebr_comm_protocol_new
             (gebr_comm_protocol_build_any_messagev qut_def False []) =
           Some (False, p', gebr_comm_protocol_build_any_messagev qut_def False [], True) \<and>
         hash (message p') = (if False then code_hash ret_def else code_hash qut_def) \<and> \<not> idle p'"
  by (rule stale_errno_rejects) (simp_all add: known_def_def gebr_comm_protocol_init_def new_idle)

text \<open>
  Both dispatch tables hold exactly the definitions of the initialisation, each under its
  own code and under the hash of that code: no definition shadows another, none has the hash 0
  that marks a protocol waiting for a header.
\<close>

theorem dispatch_tables:
  "(hash_table c = Some d \<longleftrightarrow> known_def d \<and> mcode d = c) \<and>
   (code_hash_table h = Some d \<longleftrightarrow> known_def d \<and> g_str_hash (mcode d) = h) \<and>
   code_hash_table 0 = None"
  using code_hash_nonzero code_hash_of
  by (auto simp: hash_table_iff code_hash_table_iff known_def_def not_Some_eq [symmetric]
      simp del: not_Some_eq)

text \<open>
  The argument encoding has one reading: two parameter lists of the same length that are
  written as the same bytes are equal up to NULL being written as the empty string, so a
  parameter that holds bars, blanks or digits is never mistaken for several.
\<close>

theorem arguments_unique:
  assumes "length ps = length qs" "build_args ps = build_args qs"
    and "list_all (\<lambda>a. arg_fits (nonempty_or [] a)) ps" "list_all (\<lambda>a. arg_fits (nonempty_or [] a)) qs"
  shows "map (nonempty_or []) ps = map (nonempty_or []) qs"
  using split_loop_build_args [OF assms(3)] split_loop_build_args [OF assms(4)] assms(1,2) by simp

theorem arguments_unique_witness:
  "map (nonempty_or []) [None, Some ''1|x''] = map (nonempty_or []) [Some [], Some ''1|x'']"
  by (rule arguments_unique) (simp_all add: nonempty_or_def arg_fits_def)

end
