(* ===== verification/Utils.thy ===== *)
theory Utils
  imports Prelude
begin

text \<open>
  The string, path and time helpers of \<open>libgebr/utils.c\<close>. The home directory, the host name and
  the user name are what GLib reports for the process: they are parameters. Path variables are a
  list of pairs (value, name), the C array \<open>pvector[i][0]\<close>, \<open>pvector[i][1]\<close>.
\<close>

section \<open>GString helpers\<close>

text \<open>
  With an empty \<open>oldtext\<close>, \<open>g_strsplit\<close> and \<open>g_strjoinv\<close> refuse their arguments and the string
  stays as it is.
\<close>

definition gebr_g_string_replace :: "string \<Rightarrow> string \<Rightarrow> cstr \<Rightarrow> string" where
  "gebr_g_string_replace s oldtext newtext =
     (if strstr s oldtext = None then s
      else if oldtext = [] then s
      else g_strjoinv (nonempty_or [] newtext) (g_strsplit s oldtext (- 1)))"

definition gebr_g_string_replace_first_ref :: "string \<Rightarrow> string \<Rightarrow> cstr \<Rightarrow> string" where
  "gebr_g_string_replace_first_ref s oldtext newtext =
     (case strstr s oldtext of
        None \<Rightarrow> s
      | Some i \<Rightarrow> take i s @ (case newtext of None \<Rightarrow> [] | Some n \<Rightarrow> n) @ drop (i + length oldtext) s)"

definition gebr_g_string_starts_with :: "string \<Rightarrow> string \<Rightarrow> bool" where
  "gebr_g_string_starts_with s v = prefix v s"

definition gebr_g_string_ends_with :: "string \<Rightarrow> string \<Rightarrow> bool" where
  "gebr_g_string_ends_with s v = suffix v s"

definition gebr_append_filename_extension :: "string \<Rightarrow> string \<Rightarrow> string \<times> bool" where
  "gebr_append_filename_extension f ext = (if \<not> suffix ext f then (f @ ext, True) else (f, False))"

definition gebr_path_is_at_home :: "cstr \<Rightarrow> string \<Rightarrow> bool" where
  "gebr_path_is_at_home home path = (case home of None \<Rightarrow> False | Some h \<Rightarrow> prefix h path)"

definition gebr_path_use_home_variable :: "cstr \<Rightarrow> string \<Rightarrow> string \<times> bool" where
  "gebr_path_use_home_variable home path =
     (if gebr_path_is_at_home home path
      then (gebr_g_string_replace_first_ref path (nonempty_or [] home) (Some ''$HOME''), True)
      else (path, False))"

definition gebr_path_resolve_home_variable :: "cstr \<Rightarrow> string \<Rightarrow> string \<times> bool" where
  "gebr_path_resolve_home_variable home path =
     (if gebr_g_string_starts_with path ''$HOME''
      then (gebr_g_string_replace_first_ref path ''$HOME'' home, True)
      else (path, False))"

definition gebr_path_set_to :: "cstr \<Rightarrow> string \<Rightarrow> bool \<Rightarrow> string" where
  "gebr_path_set_to home path relative =
     (if relative then fst (gebr_path_use_home_variable home path)
      else fst (gebr_path_resolve_home_variable home path))"

lemma strstr_prefix: "prefix d s \<Longrightarrow> strstr s d = Some 0"
  by (cases s) auto

lemma replace_first_prefix:
  "gebr_g_string_replace_first_ref (d @ s) d (Some n) = n @ s"
  by (simp add: gebr_g_string_replace_first_ref_def strstr_prefix)

lemma extension_appended: "suffix ext (fst (gebr_append_filename_extension f ext))"
  by (simp add: gebr_append_filename_extension_def suffix_def)

lemma extension_idem:
  "gebr_append_filename_extension (fst (gebr_append_filename_extension f ext)) ext =
   (fst (gebr_append_filename_extension f ext), False)"
  using extension_appended by (simp add: gebr_append_filename_extension_def)

lemma replace_same: "gebr_g_string_replace s d (Some d) = s"
  by (simp add: gebr_g_string_replace_def nonempty_or_def join_strsplit)

section \<open>Escaping\<close>

text \<open>The \<open>case\<close> labels of the \<open>switch\<close> and the letter written after the backslash.\<close>

definition escape_table :: "(char \<times> char) list" where
  "escape_table =
     [(CHR 0x07, CHR ''a''), (CHR 0x08, CHR ''b''), (CHR 0x09, CHR ''t''), (CHR 0x0A, CHR ''n''),
      (CHR 0x0B, CHR ''v''), (CHR 0x0C, CHR ''f''), (CHR 0x0D, CHR ''r''), (CHR 0x5C, CHR 0x5C),
      (CHR 0x22, CHR 0x22)]"

definition escape_letter :: "char \<Rightarrow> char option" where
  "escape_letter c = map_of escape_table c"

fun str_escape :: "string \<Rightarrow> string" where
  "str_escape [] = []"
| "str_escape (c # s) =
     (case escape_letter c of
        Some l \<Rightarrow> CHR 0x5C # l # str_escape s
      | None \<Rightarrow> c # str_escape s)"

definition gebr_str_escape :: "cstr \<Rightarrow> cstr" where
  "gebr_str_escape str = map_option str_escape str"

text \<open>The reader of C escapes that \<open>str_escape\<close> is the writer for.\<close>

definition letter_code :: "char \<Rightarrow> char" where
  "letter_code l = (case map_of (map prod.swap escape_table) l of Some c \<Rightarrow> c | None \<Rightarrow> l)"

fun str_unescape :: "string \<Rightarrow> string" where
  "str_unescape [] = []"
| "str_unescape [c] = [c]"
| "str_unescape (c # l # s) =
     (if c = CHR 0x5C then letter_code l # str_unescape s else c # str_unescape (l # s))"

lemma letter_of_escape: "escape_letter c = Some l \<Longrightarrow> letter_code l = c"
  unfolding escape_letter_def
  by (drule map_of_SomeD) (auto simp: escape_table_def letter_code_def)

lemma unescaped_not_backslash: "escape_letter c = None \<Longrightarrow> c \<noteq> CHR 0x5C"
  by (auto simp: escape_letter_def escape_table_def)

lemma unescape_Cons: "c \<noteq> CHR 0x5C \<Longrightarrow> str_unescape (c # s) = c # str_unescape s"
  by (cases s) auto

lemma unescape_escape: "str_unescape (str_escape s) = s"
  by (induction s)
     (auto simp: letter_of_escape unescape_Cons unescaped_not_backslash split: option.splits)

lemma escape_length: "length (str_escape s) \<le> 2 * length s"
  by (induction s) (auto split: option.splits)

section \<open>Random identifiers\<close>

text \<open>\<open>gebr_id_random_create\<close>: the \<open>i\<close>-th draw of \<open>g_random_int_range (0, 36)\<close> is \<open>rnd i\<close>.\<close>

definition gebr_id_random_create :: "(nat \<Rightarrow> nat) \<Rightarrow> nat \<Rightarrow> string" where
  "gebr_id_random_create rnd bytes =
     map (\<lambda>i. let n = rnd i in char_of (n + (if n > 9 then 55 else 48))) [0..<bytes]"

lemma id_random_chars:
  assumes "\<forall>i. rnd i < 36" "c \<in> set (gebr_id_random_create rnd bytes)"
  shows "is_digit c \<or> is_upper c"
proof -
  obtain i where c: "c = char_of (rnd i + (if rnd i > 9 then 55 else 48))"
    using assms(2) by (auto simp: gebr_id_random_create_def Let_def)
  have "rnd i < 36" using assms(1) by simp
  then have "code c = rnd i + (if rnd i > 9 then 55 else 48)"
    by (simp add: c code_def)
  with \<open>rnd i < 36\<close> show ?thesis by (auto simp: is_digit_def is_upper_def split: if_splits)
qed

section \<open>Numbers as text and variable names\<close>

text \<open>
  \<open>gebr_str_remove_trailing_zeros\<close> counts the zeros at the end; if anything else is left, a dot
  there is cut too.
\<close>

definition gebr_str_remove_trailing_zeros :: "string \<Rightarrow> string" where
  "gebr_str_remove_trailing_zeros s =
     (let z = length (takeWhile (\<lambda>c. c = CHR ''0'') (rev s)); n = length s
      in if z = n then s
         else if s ! (n - z - 1) = CHR ''.'' then take (n - z - 1) s
         else take (n - z) s)"

text \<open>\<open>g_strcanon\<close>: every character outside the valid set is replaced.\<close>

definition g_strcanon :: "string \<Rightarrow> string \<Rightarrow> char \<Rightarrow> string" where
  "g_strcanon s valid sub = map (\<lambda>c. if c \<in> set valid then c else sub) s"

definition var_chars :: string where
  "var_chars = ''abcdefghijklmnopqrstuvxwyz1234567890_''"

text \<open>\<open>strdown\<close> is \<open>g_utf8_strdown\<close>.\<close>

definition gebr_str_canonical_var_name :: "(string \<Rightarrow> string) \<Rightarrow> string \<Rightarrow> string" where
  "gebr_str_canonical_var_name strdown keyword =
     (let s1 = g_strcanon (strdown keyword) var_chars (CHR '' '');
          s2 = g_strstrip s1;
          s3 = g_strcanon s2 var_chars (CHR ''_'')
      in if s3 = [] \<or> \<not> is_alpha (hd s3) then ''var_'' @ s3 else s3)"

lemma var_chars_all: "list_all (\<lambda>c. is_lower c \<or> is_digit c \<or> c = CHR ''_'') var_chars"
  by code_simp

lemma var_chars_class: "c \<in> set var_chars \<Longrightarrow> is_lower c \<or> is_digit c \<or> c = CHR ''_''"
  using var_chars_all by (simp add: list_all_iff)

lemma strcanon_chars: "c \<in> set (g_strcanon s v u) \<Longrightarrow> c \<in> set v \<or> c = u"
  by (auto simp: g_strcanon_def)

lemma canonical_chars:
  "c \<in> set (gebr_str_canonical_var_name d k) \<Longrightarrow> is_lower c \<or> is_digit c \<or> c = CHR ''_''"
  by (auto simp: gebr_str_canonical_var_name_def Let_def split: if_splits
      dest!: strcanon_chars var_chars_class)
     (simp_all add: is_lower_def code_def)

lemma canonical_head:
  "\<exists>c t. gebr_str_canonical_var_name d k = c # t \<and> is_lower c"
proof (cases "gebr_str_canonical_var_name d k")
  case Nil
  then show ?thesis by (simp add: gebr_str_canonical_var_name_def Let_def split: if_splits)
next
  case (Cons c t)
  then have "is_lower c \<or> is_digit c \<or> c = CHR ''_''"
    using canonical_chars [of c d k] by simp
  moreover have "is_alpha c \<or> c = CHR ''v''"
    using Cons by (auto simp: gebr_str_canonical_var_name_def Let_def split: if_splits)
  ultimately have "is_lower c"
    by (auto simp: is_alpha_def is_digit_def is_upper_def is_lower_def code_def)
  with Cons show ?thesis by blast
qed

section \<open>Properties\<close>

text \<open>
  Reading the C escapes of an escaped string gives the string back, the escaped text fits the
  buffer of twice the length (plus the final 0) that the code allocates, and NULL stays NULL.
\<close>

theorem escape_round_trip:
  "\<exists>e. gebr_str_escape (Some s) = Some e \<and> str_unescape e = s \<and> length e \<le> 2 * length s \<and>
       gebr_str_escape None = None"
  by (simp add: gebr_str_escape_def unescape_escape escape_length)

lemma takeWhile_zeros:
  "fp = [] \<or> last fp \<noteq> z \<Longrightarrow> c \<noteq> z \<Longrightarrow>
   takeWhile (\<lambda>x. x = z) (rev (ip @ c # fp @ replicate k z)) = replicate k z"
proof -
  assume "fp = [] \<or> last fp \<noteq> z" "c \<noteq> z"
  then have "takeWhile (\<lambda>x. x = z) (rev fp @ c # rev ip) = []"
    by (cases fp rule: rev_cases) auto
  then show ?thesis by (simp add: takeWhile_append)
qed

text \<open>
  From a number with a decimal point, exactly the zeros at the end of the fraction are
  removed, and the point with them when no digit of the fraction is left.
\<close>

theorem remove_trailing_zeros_fraction:
  assumes "fp = [] \<or> last fp \<noteq> CHR ''0''"
  shows "gebr_str_remove_trailing_zeros (ip @ ''.'' @ fp @ replicate k (CHR ''0'')) =
         (if fp = [] then ip else if last fp = CHR ''.'' then ip @ ''.'' @ butlast fp else ip @ ''.'' @ fp)"
proof -
  have "takeWhile (\<lambda>c. c = CHR ''0'') (rev (ip @ CHR ''.'' # fp @ replicate k (CHR ''0''))) =
        replicate k (CHR ''0'')"
    using assms by (intro takeWhile_zeros) auto
  then show ?thesis
    by (cases fp rule: rev_cases)
      (simp_all add: gebr_str_remove_trailing_zeros_def Let_def nth_append del: rev_append)
qed

theorem remove_trailing_zeros_witness:
  "gebr_str_remove_trailing_zeros (''10'' @ ''.'' @ ''05'' @ replicate 2 (CHR ''0'')) = ''10.05''"
  using remove_trailing_zeros_fraction [of "''05''" "''10''" 2] by simp

end
