(* ===== verification/Utils_Path.thy ===== *)
theory Utils_Path
  imports Utils
begin

text \<open>
  Path variables and addresses (\<open>libgebr/utils.c\<close>): a path may start with \<open><NAME>\<close>, which stands
  for the value of the path variable NAME. The values may refer to other variables, so resolving
  is a recursion that need not end: it is a \<open>partial_function\<close> with result \<open>None\<close> for a C recursion
  that never returns.
\<close>

type_synonym pvector = "(string \<times> string) list"

definition bracketed :: "string \<Rightarrow> string" where
  "bracketed n = ''<'' @ n @ ''>''"

text \<open>\<open>g_strsplit (path, "/", -1)\<close> and its first element.\<close>

definition dirs :: "string \<Rightarrow> string list" where
  "dirs path = g_strsplit path ''/'' (- 1)"

definition first_dir :: "string \<Rightarrow> cstr" where
  "first_dir path = (case dirs path of [] \<Rightarrow> None | d # _ \<Rightarrow> Some d)"

definition gebr_remove_path_prefix :: "cstr \<Rightarrow> string \<Rightarrow> string" where
  "gebr_remove_path_prefix pre path =
     (case pre of None \<Rightarrow> path | Some p \<Rightarrow> if prefix p path then drop (length p) path else path)"

text \<open>The first variable whose bracketed name is the first directory of the path.\<close>

definition matching_variable :: "string \<Rightarrow> pvector \<Rightarrow> (string \<times> string) option" where
  "matching_variable path pv = find (\<lambda>(v, n). first_dir path = Some (bracketed n)) pv"

partial_function (option) gebr_resolve_relative_path :: "string \<Rightarrow> pvector \<Rightarrow> string option" where
  "gebr_resolve_relative_path path pv =
     (case matching_variable path pv of
        None \<Rightarrow> Some path
      | Some (v, n) \<Rightarrow> gebr_resolve_relative_path (v @ drop (length (bracketed n)) path) pv)"

text \<open>
  The search of \<open>gebr_relativise_path_recursive\<close>: the variable whose directories are the longest
  prefix of the path's directories, the first one among equals; \<open>None\<close> when no variable matches at
  least one directory.
\<close>

definition dir_prefix_length :: "string \<Rightarrow> string \<Rightarrow> nat option" where
  "dir_prefix_length v path =
     (if prefix (dirs v) (dirs path) then Some (length (dirs v)) else None)"

fun longest_variable ::
    "string \<Rightarrow> pvector \<Rightarrow> nat \<Rightarrow> (string \<times> string) option \<Rightarrow> (string \<times> string) option" where
  "longest_variable path [] mx best = best"
| "longest_variable path (vn # pv) mx best =
     (case dir_prefix_length (fst vn) path of
        Some j \<Rightarrow> if mx < j then longest_variable path pv j (Some vn)
                  else longest_variable path pv mx best
      | None \<Rightarrow> longest_variable path pv mx best)"

partial_function (option) relativise_path_recursive :: "string \<Rightarrow> pvector \<Rightarrow> string option" where
  "relativise_path_recursive path pv =
     (case longest_variable path pv 0 None of
        None \<Rightarrow> Some path
      | Some (v, n) \<Rightarrow>
          relativise_path_recursive
            (bracketed n @ drop (if suffix ''/'' v then length v - 1 else length v) path) pv)"

definition gebr_relativise_path :: "string \<Rightarrow> cstr \<Rightarrow> pvector \<Rightarrow> string option" where
  "gebr_relativise_path path_string mount_point pv =
     (if path_string = [] then Some []
      else case gebr_resolve_relative_path path_string pv of
             None \<Rightarrow> None
           | Some path_str \<Rightarrow>
               relativise_path_recursive (gebr_remove_path_prefix mount_point path_str) pv)"

definition gebr_generate_paths_with_home :: "string \<Rightarrow> pvector" where
  "gebr_generate_paths_with_home home = [(home, ''HOME'')]"

definition gebr_relativise_home_path :: "string \<Rightarrow> cstr \<Rightarrow> string \<Rightarrow> string option" where
  "gebr_relativise_home_path path_string mount_point home =
     gebr_relativise_path path_string mount_point [(home, ''HOME'')]"

definition gebr_relativise_old_home_path :: "cstr \<Rightarrow> string \<Rightarrow> string" where
  "gebr_relativise_old_home_path home path_string =
     (let path = fst (gebr_path_use_home_variable home path_string)
      in if prefix ''$HOME'' path
         then gebr_g_string_replace_first_ref path ''$HOME'' (Some ''<HOME>'') else path)"

definition gebr_verify_starting_slash :: "string \<Rightarrow> bool" where
  "gebr_verify_starting_slash s \<longleftrightarrow> s \<noteq> [] \<and> hd s = CHR ''/''"

datatype path_error = PathUnknownVariable | PathNotAnchored

text \<open>\<open>Inr ()\<close> is TRUE; the error is the message chosen when FALSE is returned.\<close>

definition gebr_validate_path :: "cstr \<Rightarrow> pvector \<Rightarrow> path_error + unit" where
  "gebr_validate_path path pv =
     (case path of
        None \<Rightarrow> Inr ()
      | Some [] \<Rightarrow> Inr ()
      | Some (c # s) \<Rightarrow>
          if \<exists>(v, n) \<in> set pv. prefix (bracketed n) (c # s) then Inr ()
          else if c \<noteq> CHR ''/'' then
            Inl (if c = CHR ''<'' then PathUnknownVariable else PathNotAnchored)
          else Inr ())"

definition gebr_paths_get_value_by_key :: "pvector option \<Rightarrow> string \<Rightarrow> cstr" where
  "gebr_paths_get_value_by_key paths key =
     (case paths of None \<Rightarrow> None | Some pv \<Rightarrow> map_option fst (find (\<lambda>(v, n). n = key) pv))"

section \<open>Lists of strings and addresses\<close>

fun strv_indexof_from :: "nat \<Rightarrow> string list \<Rightarrow> string \<Rightarrow> int" where
  "strv_indexof_from i [] x = - 1"
| "strv_indexof_from i (y # ys) x = (if y = x then int i else strv_indexof_from (Suc i) ys x)"

definition gebr_strv_indexof :: "string list \<Rightarrow> string \<Rightarrow> int" where
  "gebr_strv_indexof strv x = strv_indexof_from 0 strv x"

definition gebr_get_user_from_address :: "string \<Rightarrow> cstr \<Rightarrow> cstr" where
  "gebr_get_user_from_address user_name address =
     (case address of
        None \<Rightarrow> None
      | Some [] \<Rightarrow> None
      | Some a \<Rightarrow>
          let at_split = g_strsplit a ''@'' 2
          in Some (if length at_split = 2 then at_split ! 0 else user_name))"

definition gebr_get_host_from_address :: "cstr \<Rightarrow> cstr" where
  "gebr_get_host_from_address address =
     (case address of
        None \<Rightarrow> None
      | Some [] \<Rightarrow> None
      | Some a \<Rightarrow>
          let at_split = g_strsplit a ''@'' (- 1);
              part = (if 2 \<le> length at_split then at_split ! 1 else at_split ! 0)
          in (case g_strsplit part '' '' (- 1) of [] \<Rightarrow> None | h # _ \<Rightarrow> Some h))"

definition gebr_verify_address_without_username :: "cstr \<Rightarrow> bool" where
  "gebr_verify_address_without_username address \<longleftrightarrow> address = gebr_get_host_from_address address"

definition gebr_apply_pattern_on_address :: "string \<Rightarrow> string \<Rightarrow> string" where
  "gebr_apply_pattern_on_address host_name addr =
     (if addr = ''127.0.0.1'' \<or> addr = ''localhost'' then host_name else addr)"

definition gebr_gqueue_push_tail_avoiding_duplicates :: "string list \<Rightarrow> string \<Rightarrow> string list" where
  "gebr_gqueue_push_tail_avoiding_duplicates queue d =
     (if d \<notin> set queue \<and> d \<noteq> [] then queue @ [d] else queue)"

fun gebr_double_list_to_list :: "'a list list \<Rightarrow> 'a list" where
  "gebr_double_list_to_list [] = []"
| "gebr_double_list_to_list (xs # xss) = xs @ gebr_double_list_to_list xss"

section \<open>Directories\<close>

lemma split_cuts_hd: "hd (split_cuts (Suc k) [c] s) = takeWhile (\<lambda>x. x \<noteq> c) s"
proof (cases "c \<in> set s")
  case True
  then obtain a b where "s = a @ c # b" "c \<notin> set a"
    by (metis split_list_first)
  then show ?thesis by (simp add: strstr_char_first takeWhile_neq_cut)
next
  case False
  then have "strstr s [c] = None" by (simp add: strstr_char)
  with False show ?thesis by (simp add: takeWhile_neq_free)
qed

lemma first_dir_eq:
  "first_dir path = (if path = [] then None else Some (takeWhile (\<lambda>x. x \<noteq> CHR ''/'') path))"
proof (cases path)
  case Nil
  then show ?thesis by (simp add: first_dir_def dirs_def g_strsplit_def)
next
  case (Cons c s)
  have "dirs path = split_cuts (Suc (length s)) ''/'' path"
    by (simp add: dirs_def g_strsplit_def Cons)
  then have "dirs path \<noteq> []" "hd (dirs path) = takeWhile (\<lambda>x. x \<noteq> CHR ''/'') path"
    using split_cuts_hd [of "length s" "CHR ''/''" path] by (auto simp del: split_cuts.simps)
  with Cons show ?thesis by (cases "dirs path") (simp_all add: first_dir_def)
qed

definition slash_free :: "string \<Rightarrow> bool" where
  "slash_free n \<longleftrightarrow> CHR ''/'' \<notin> set n"

text \<open>The text after a path variable: empty, or starting with a slash.\<close>

definition path_tail :: "string \<Rightarrow> bool" where
  "path_tail t \<longleftrightarrow> t = [] \<or> hd t = CHR ''/''"

lemma takeWhile_tail:
  "path_tail t \<Longrightarrow> takeWhile (\<lambda>x. x \<noteq> CHR ''/'') (v @ t) = takeWhile (\<lambda>x. x \<noteq> CHR ''/'') v"
  by (induction v) (cases t; auto simp: path_tail_def)+

lemma first_dir_append: "v \<noteq> [] \<Longrightarrow> path_tail t \<Longrightarrow> first_dir (v @ t) = first_dir v"
  by (simp add: first_dir_eq takeWhile_tail)

lemma first_dir_bracketed:
  assumes "slash_free n" "path_tail t"
  shows "first_dir (bracketed n @ t) = Some (bracketed n)"
proof -
  have "CHR ''/'' \<notin> set (bracketed n)" "bracketed n \<noteq> []"
    using assms(1) by (auto simp: slash_free_def bracketed_def)
  with assms(2) show ?thesis by (simp add: first_dir_eq takeWhile_tail takeWhile_neq_free)
qed

lemma bracketed_inj: "bracketed m = bracketed n \<longleftrightarrow> m = n"
  by (simp add: bracketed_def)

lemma bracketed_ne [simp]: "bracketed n \<noteq> []" "[] \<noteq> bracketed n"
  by (simp_all add: bracketed_def)

lemma drop_first_dir:
  "first_dir p = Some d \<Longrightarrow> p = d @ drop (length d) p \<and> path_tail (drop (length d) p)"
proof -
  assume "first_dir p = Some d"
  then have d: "d = takeWhile (\<lambda>x. x \<noteq> CHR ''/'') p" by (simp add: first_dir_eq split: if_splits)
  have "p = d @ dropWhile (\<lambda>x. x \<noteq> CHR ''/'') p" by (simp add: d)
  moreover from this have "drop (length d) p = dropWhile (\<lambda>x. x \<noteq> CHR ''/'') p"
    by (metis append_eq_conv_conj)
  moreover have "path_tail (dropWhile (\<lambda>x. x \<noteq> CHR ''/'') p)"
    using hd_dropWhile [of "\<lambda>x. x \<noteq> CHR ''/''" p] by (auto simp: path_tail_def)
  ultimately show ?thesis by simp
qed

section \<open>Resolving\<close>

lemma matching_variable_Some:
  "matching_variable p pv = Some (v, n) \<Longrightarrow> (v, n) \<in> set pv \<and> first_dir p = Some (bracketed n)"
  by (auto simp: matching_variable_def find_Some_iff dest: nth_mem)

lemma matching_variable_None:
  "(\<forall>(v, n) \<in> set pv. first_dir p \<noteq> Some (bracketed n)) \<Longrightarrow> matching_variable p pv = None"
  by (auto simp: matching_variable_def find_None_iff)

lemma resolve_none: "matching_variable p pv = None \<Longrightarrow> gebr_resolve_relative_path p pv = Some p"
  by (subst gebr_resolve_relative_path.simps) simp

lemma resolve_some:
  "matching_variable p pv = Some (v, n) \<Longrightarrow>
   gebr_resolve_relative_path p pv =
     gebr_resolve_relative_path (v @ drop (length (bracketed n)) p) pv"
  by (subst gebr_resolve_relative_path.simps) simp

lemma resolve_result:
  assumes "gebr_resolve_relative_path p pv = Some r"
  shows "matching_variable r pv = None"
proof (rule gebr_resolve_relative_path.raw_induct [where P = "\<lambda>p pv r. matching_variable r pv = None", OF _ assms])
  fix f p pv r
  assume IH: "\<And>p pv r. f p pv = Some r \<Longrightarrow> matching_variable r pv = None"
    and eq: "(case matching_variable p pv of None \<Rightarrow> Some p
              | Some (v, n) \<Rightarrow> f (v @ drop (length (bracketed n)) p) pv) = Some r"
  show "matching_variable r pv = None"
    using eq IH by (auto split: option.splits)
qed

text \<open>
  The resolver returns when the references among the variables are ranked: a value that starts with
  a variable starts with one of lower rank.
\<close>

definition ranked :: "(string \<Rightarrow> nat) \<Rightarrow> pvector \<Rightarrow> bool" where
  "ranked rk pv \<longleftrightarrow>
     (\<forall>(v, n) \<in> set pv. v \<noteq> [] \<and>
        (\<forall>(v', n') \<in> set pv. first_dir v = Some (bracketed n') \<longrightarrow> rk n' < rk n))"

lemma resolve_ranked:
  assumes "ranked rk pv"
  shows "(v, n) \<in> set pv \<Longrightarrow> path_tail t \<Longrightarrow>
         \<exists>r. gebr_resolve_relative_path (v @ t) pv = Some r"
proof (induction "rk n" arbitrary: v n t rule: less_induct)
  case less
  have v: "v \<noteq> []" using assms less.prems(1) by (auto simp: ranked_def)
  show ?case
  proof (cases "matching_variable (v @ t) pv")
    case None
    then show ?thesis by (simp add: resolve_none)
  next
    case (Some w)
    obtain v' n' where w: "w = (v', n')" by (cases w)
    with Some have m: "(v', n') \<in> set pv" "first_dir (v @ t) = Some (bracketed n')"
      by (auto dest: matching_variable_Some)
    with v less.prems(2) have "first_dir v = Some (bracketed n')" by (simp add: first_dir_append)
    with assms m less.prems(1) have "rk n' < rk n" by (auto simp: ranked_def)
    moreover have "path_tail (drop (length (bracketed n')) (v @ t))"
      using drop_first_dir [OF m(2)] by simp
    ultimately show ?thesis
      using less.hyps [OF _ m(1)] resolve_some [OF Some [unfolded w]] by metis
  qed
qed

text \<open>A variable whose value starts with itself: the recursion never returns.\<close>

lemma resolve_self_reference:
  assumes "slash_free n" "path_tail t" "path_tail u"
  shows "gebr_resolve_relative_path (bracketed n @ u) [(bracketed n @ t, n)] = None"
proof -
  have step: "matching_variable (bracketed n @ u) [(bracketed n @ t, n)] = Some (bracketed n @ t, n)"
    if "path_tail u" for u
    using first_dir_bracketed [OF assms(1) that] by (simp add: matching_variable_def)
  have "matching_variable r [(bracketed n @ t, n)] \<noteq> None \<Longrightarrow> False"
    if "gebr_resolve_relative_path p [(bracketed n @ t, n)] = Some r" for p r
    using resolve_result [OF that] by simp
  have "gebr_resolve_relative_path p pv = Some r \<Longrightarrow>
        \<not> (pv = [(bracketed n @ t, n)] \<and> first_dir p = Some (bracketed n))" for p pv r
  proof (erule gebr_resolve_relative_path.raw_induct
      [where P = "\<lambda>p pv r. \<not> (pv = [(bracketed n @ t, n)] \<and> first_dir p = Some (bracketed n))", rotated])
    fix f p pv r
    assume IH: "\<And>p pv r. f p pv = Some r \<Longrightarrow>
        \<not> (pv = [(bracketed n @ t, n)] \<and> first_dir p = Some (bracketed n))"
      and eq: "(case matching_variable p pv of None \<Rightarrow> Some p
              | Some (v, n) \<Rightarrow> f (v @ drop (length (bracketed n)) p) pv) = Some r"
    show "\<not> (pv = [(bracketed n @ t, n)] \<and> first_dir p = Some (bracketed n))"
    proof
      assume a: "pv = [(bracketed n @ t, n)] \<and> first_dir p = Some (bracketed n)"
      let ?u = "drop (length (bracketed n)) p"
      have "path_tail ?u" using drop_first_dir a by blast
      with assms(2) have "path_tail (t @ ?u)" by (cases t) (auto simp: path_tail_def)
      then have "first_dir ((bracketed n @ t) @ ?u) = Some (bracketed n)"
        using first_dir_bracketed [OF assms(1)] by simp
      moreover have "f ((bracketed n @ t) @ ?u) pv = Some r"
        using eq a by (simp add: matching_variable_def)
      ultimately show False using IH a by blast
    qed
  qed
  then show ?thesis
    using first_dir_bracketed [OF assms(1,3)] by (metis not_Some_eq)
qed

section \<open>Relativising\<close>

lemma longest_variable_Some:
  "longest_variable p pv mx best = Some vn \<Longrightarrow>
   best = Some vn \<or> (vn \<in> set pv \<and> prefix (dirs (fst vn)) (dirs p))"
  by (induction p pv mx best rule: longest_variable.induct)
     (auto simp: dir_prefix_length_def split: option.splits if_splits)

lemma longest_variable_None:
  "(\<forall>vn \<in> set pv. dir_prefix_length (fst vn) p = None) \<Longrightarrow> longest_variable p pv mx best = best"
  by (induction p pv mx best rule: longest_variable.induct) auto

lemma join_dirs: "g_strjoinv ''/'' (dirs p) = p"
  by (simp add: dirs_def join_strsplit)

lemma join_prefix: "xs \<noteq> [] \<Longrightarrow> prefix xs ys \<Longrightarrow>
   \<exists>t. g_strjoinv ''/'' ys = g_strjoinv ''/'' xs @ t \<and> path_tail t"
proof (induction xs arbitrary: ys)
  case Nil
  then show ?case by simp
next
  case (Cons x xs)
  then obtain zs where ys: "ys = x # zs" "prefix xs zs" by (cases ys) auto
  show ?case
  proof (cases xs)
    case Nil
    with ys show ?thesis by (cases zs) (auto simp: path_tail_def)
  next
    case (Cons x' xs')
    then obtain t where "g_strjoinv ''/'' zs = g_strjoinv ''/'' xs @ t" "path_tail t"
      using Cons.IH ys(2) by blast
    moreover have "zs \<noteq> []" using ys(2) Cons by auto
    ultimately show ?thesis using ys(1) Cons by (auto simp: g_strjoinv_Cons)
  qed
qed

lemma dirs_prefix:
  assumes "v \<noteq> []" "prefix (dirs v) (dirs p)"
  shows "\<exists>t. p = v @ t \<and> path_tail t"
proof -
  have "dirs v \<noteq> []" using assms(1) by (auto simp: dirs_def g_strsplit_def)
  from join_prefix [OF this assms(2)] show ?thesis by (simp add: join_dirs)
qed

lemma first_dir_prefix:
  assumes "v \<noteq> []" "prefix (dirs v) (dirs p)"
  shows "first_dir p = first_dir v"
  using dirs_prefix [OF assms] assms(1) first_dir_append by auto

text \<open>Path variables as the line stores them once resolved: absolute, without a final slash.\<close>

definition plain_pvector :: "pvector \<Rightarrow> bool" where
  "plain_pvector pv \<longleftrightarrow> distinct (map snd pv) \<and>
     (\<forall>(v, n) \<in> set pv. slash_free n \<and> prefix ''/'' v \<and> \<not> suffix ''/'' v)"

lemma plain_value:
  "plain_pvector pv \<Longrightarrow> (v, n) \<in> set pv \<Longrightarrow> slash_free n \<and> v \<noteq> [] \<and> first_dir v = Some [] \<and> \<not> suffix ''/'' v"
  by (cases v) (auto simp: plain_pvector_def first_dir_eq)

lemma relativise_step:
  assumes "plain_pvector pv" "(v, n) \<in> set pv" "path_tail t"
  shows "relativise_path_recursive (bracketed n @ t) pv = Some (bracketed n @ t)"
proof -
  have fd: "first_dir (bracketed n @ t) = Some (bracketed n)"
    using plain_value [OF assms(1,2)] assms(3) by (simp add: first_dir_bracketed)
  have "\<forall>vn \<in> set pv. dir_prefix_length (fst vn) (bracketed n @ t) = None"
  proof (intro ballI)
    fix vn assume "vn \<in> set pv"
    then have "fst vn \<noteq> []" "first_dir (fst vn) = Some []"
      using plain_value [OF assms(1), of "fst vn" "snd vn"] by simp_all
    with fd have "\<not> prefix (dirs (fst vn)) (dirs (bracketed n @ t))"
      using first_dir_prefix [of "fst vn" "bracketed n @ t"] by auto
    then show "dir_prefix_length (fst vn) (bracketed n @ t) = None"
      by (simp add: dir_prefix_length_def)
  qed
  then show ?thesis
    by (subst relativise_path_recursive.simps) (simp add: longest_variable_None)
qed

lemma resolve_variable:
  assumes "plain_pvector pv" "(v, n) \<in> set pv" "path_tail t"
  shows "gebr_resolve_relative_path (bracketed n @ t) pv = Some (v @ t)"
proof -
  note p = plain_value [OF assms(1,2)]
  have fd: "first_dir (bracketed n @ t) = Some (bracketed n)"
    using p assms(3) by (simp add: first_dir_bracketed)
  have "matching_variable (bracketed n @ t) pv = Some (v, n)"
  proof (cases "matching_variable (bracketed n @ t) pv")
    case None
    with fd assms(2) show ?thesis by (auto simp: matching_variable_def find_None_iff)
  next
    case (Some w)
    with fd have "w \<in> set pv" "snd w = n"
      by (cases w; auto dest!: matching_variable_Some simp: bracketed_inj)+
    moreover have "inj_on snd (set pv)"
      using assms(1) by (simp add: plain_pvector_def distinct_map)
    ultimately have "w = (v, n)" using assms(2) inj_onD [of snd "set pv" w "(v, n)"] by simp
    with Some show ?thesis by simp
  qed
  moreover have "matching_variable (v @ t) pv = None"
    using p assms(3)
    by (intro matching_variable_None) (auto simp: first_dir_append)
  ultimately show ?thesis by (simp add: resolve_some resolve_none)
qed

section \<open>Properties\<close>

text \<open>
  Resolving a path returns, and what it returns starts with no known variable any more,
  whenever the references among the variables are ranked (the value of a variable starts with a
  variable of lower rank, or with none).
\<close>

theorem resolve_terminates:
  assumes "ranked rk pv"
  shows "\<exists>r. gebr_resolve_relative_path p pv = Some r \<and> matching_variable r pv = None"
proof -
  have "\<exists>r. gebr_resolve_relative_path p pv = Some r"
  proof (cases "matching_variable p pv")
    case None
    then show ?thesis by (simp add: resolve_none)
  next
    case (Some w)
    obtain v n where w: "w = (v, n)" by (cases w)
    with Some have m: "(v, n) \<in> set pv" "first_dir p = Some (bracketed n)"
      by (auto dest: matching_variable_Some)
    have "path_tail (drop (length (bracketed n)) p)" using drop_first_dir [OF m(2)] by simp
    with resolve_ranked [OF assms m(1)] resolve_some [OF Some [unfolded w]] show ?thesis by metis
  qed
  then show ?thesis using resolve_result by blast
qed

theorem resolve_terminates_witness:
  "\<exists>r. gebr_resolve_relative_path ''<DATA>/x''
         [(''/home/u'', ''HOME''), (''<HOME>/d'', ''DATA'')] = Some r \<and>
       matching_variable r [(''/home/u'', ''HOME''), (''<HOME>/d'', ''DATA'')] = None"
  by (rule resolve_terminates [where rk = "\<lambda>n. if n = ''HOME'' then 0 else 1"])
    (simp add: ranked_def first_dir_eq bracketed_def)

text \<open>
  A variable whose value starts with the variable itself makes the resolver recurse for ever
  on every path that starts with it (nothing in the code rules such a value out).
\<close>

theorem resolve_self_reference_diverges:
  assumes "slash_free n" "path_tail t" "path_tail u"
  shows "gebr_resolve_relative_path (bracketed n @ u) [(bracketed n @ t, n)] = None"
  using assms by (rule resolve_self_reference)

theorem resolve_self_reference_witness:
  "gebr_resolve_relative_path (bracketed ''DATA'' @ ''/a'') [(bracketed ''DATA'' @ ''/sub'', ''DATA'')] = None"
  by (rule resolve_self_reference_diverges) (simp_all add: slash_free_def path_tail_def)

text \<open>
  Relativising an absolute path and resolving the result gives the path back, for variables
  with distinct slash-free names and absolute values without a final slash.
\<close>

theorem relativise_resolve_round_trip:
  assumes "plain_pvector pv" "prefix ''/'' p"
  shows "\<exists>r. gebr_relativise_path p None pv = Some r \<and> gebr_resolve_relative_path r pv = Some p"
proof -
  have fp: "first_dir p = Some []" "p \<noteq> []"
    using assms(2) by (auto simp: first_dir_eq prefix_def)
  then have rp: "gebr_resolve_relative_path p pv = Some p"
    by (intro resolve_none matching_variable_None) auto
  have eq: "gebr_relativise_path p None pv = relativise_path_recursive p pv"
    using fp(2) rp by (simp add: gebr_relativise_path_def gebr_remove_path_prefix_def)
  show ?thesis
  proof (cases "longest_variable p pv 0 None")
    case None
    then have "relativise_path_recursive p pv = Some p"
      by (subst relativise_path_recursive.simps) simp
    with eq rp show ?thesis by simp
  next
    case (Some w)
    obtain v n where w: "w = (v, n)" by (cases w)
    with longest_variable_Some [OF Some] have m: "(v, n) \<in> set pv" "prefix (dirs v) (dirs p)"
      by auto
    note pl = plain_value [OF assms(1) m(1)]
    obtain t where t: "p = v @ t" "path_tail t" using dirs_prefix [OF _ m(2)] pl by blast
    have "relativise_path_recursive p pv = relativise_path_recursive (bracketed n @ t) pv"
      using Some w pl t(1) by (subst relativise_path_recursive.simps) simp
    with eq relativise_step [OF assms(1) m(1) t(2)] resolve_variable [OF assms(1) m(1) t(2)] t(1)
    show ?thesis by auto
  qed
qed

theorem relativise_resolve_witness:
  "\<exists>r. gebr_relativise_path ''/home/u/d/x'' None [(''/home/u'', ''HOME''), (''/home/u/d'', ''DATA'')] = Some r \<and>
       gebr_resolve_relative_path r [(''/home/u'', ''HOME''), (''/home/u/d'', ''DATA'')] = Some ''/home/u/d/x''"
  by (rule relativise_resolve_round_trip) (simp_all add: plain_pvector_def slash_free_def suffix_def)

text \<open>
  A path that the validator accepts need not be one that the resolver resolves: a known
  variable followed by more text in the same directory is accepted and left as it is.
\<close>

theorem validate_accepts_unresolved:
  assumes "slash_free n" "slash_free m" "m \<noteq> []"
  shows "gebr_validate_path (Some (bracketed n @ m)) [(v, n)] = Inr () \<and>
         gebr_resolve_relative_path (bracketed n @ m) [(v, n)] = Some (bracketed n @ m)"
proof -
  have "first_dir (bracketed n @ m) = Some (bracketed n @ m)"
    using assms by (auto simp: first_dir_eq slash_free_def bracketed_def takeWhile_neq_free)
  then have "gebr_resolve_relative_path (bracketed n @ m) [(v, n)] = Some (bracketed n @ m)"
    using assms(3) by (intro resolve_none matching_variable_None) auto
  moreover have "prefix (bracketed n) (bracketed n @ m)" by simp
  ultimately show ?thesis by (simp add: gebr_validate_path_def bracketed_def)
qed

theorem validate_accepts_unresolved_witness:
  "gebr_validate_path (Some (bracketed ''HOME'' @ ''x'')) [(''/home/u'', ''HOME'')] = Inr () \<and>
   gebr_resolve_relative_path (bracketed ''HOME'' @ ''x'') [(''/home/u'', ''HOME'')] = Some (bracketed ''HOME'' @ ''x'')"
  by (rule validate_accepts_unresolved) (simp_all add: slash_free_def)

end
