(* ===== verification/Utils_Text.thy ===== *)
theory Utils_Text
  imports Utils
begin

text \<open>
  Relative times and the UTF-8 search of \<open>libgebr/utils.c\<close>. A \<open>GTimeVal\<close> difference, a double in
  the code, is kept as an exact number of microseconds.
\<close>

section \<open>Relative times\<close>

datatype times_type =
  TIME_NONE | TIME_MOMENTS_AGO | TIME_HOURS_AGO | TIME_DAYS_AGO | TIME_WEEKS_AGO | TIME_MONTHS_AGO | TIME_YEARS_AGO

record timeval =
  tv_sec :: int
  tv_usec :: int

fun gebr_get_lower_bound_for_type :: "times_type \<Rightarrow> int" where
  "gebr_get_lower_bound_for_type TIME_NONE = 0"
| "gebr_get_lower_bound_for_type TIME_MOMENTS_AGO = - 100"
| "gebr_get_lower_bound_for_type TIME_HOURS_AGO = 3600"
| "gebr_get_lower_bound_for_type TIME_DAYS_AGO = 86400"
| "gebr_get_lower_bound_for_type TIME_WEEKS_AGO = 86400 * 7"
| "gebr_get_lower_bound_for_type TIME_MONTHS_AGO = 2678400"
| "gebr_get_lower_bound_for_type TIME_YEARS_AGO = 32140800"

fun gebr_get_control_text_for_type :: "times_type \<Rightarrow> cstr" where
  "gebr_get_control_text_for_type TIME_NONE = None"
| "gebr_get_control_text_for_type TIME_MOMENTS_AGO = Some ''Moments ago''"
| "gebr_get_control_text_for_type TIME_HOURS_AGO = Some ''Hours ago''"
| "gebr_get_control_text_for_type TIME_DAYS_AGO = Some ''Days ago''"
| "gebr_get_control_text_for_type TIME_WEEKS_AGO = Some ''Weeks ago''"
| "gebr_get_control_text_for_type TIME_MONTHS_AGO = Some ''Months ago''"
| "gebr_get_control_text_for_type TIME_YEARS_AGO = Some ''Years ago''"

definition micros :: "timeval \<Rightarrow> timeval \<Rightarrow> int" where
  "micros t1 t2 = (tv_sec t2 - tv_sec t1) * 1000000 + (tv_usec t2 - tv_usec t1)"

text \<open>\<open>None\<close> is the \<open>NULL\<close> return; otherwise the text, \<open>*_type\<close> and \<open>*delta\<close> in microseconds.\<close>

definition gebr_calculate_relative_time :: "timeval \<Rightarrow> timeval \<Rightarrow> (cstr \<times> times_type \<times> int) option" where
  "gebr_calculate_relative_time time1 time2 =
     (let us = micros time1 time2 in
      if us < 0 then None
      else
        let ty = (if us < 3600 * 1000000 then TIME_MOMENTS_AGO
                  else if us < 86400 * 1000000 then TIME_HOURS_AGO
                  else if us < 86400 * 7 * 1000000 then TIME_DAYS_AGO
                  else if us < 2678400 * 1000000 then TIME_WEEKS_AGO
                  else if us < 32140800 * 1000000 then TIME_MONTHS_AGO
                  else TIME_YEARS_AGO)
        in Some (gebr_get_control_text_for_type ty, ty, us))"

text \<open>The next type in the order of the enumeration.\<close>

fun next_type :: "times_type \<Rightarrow> times_type option" where
  "next_type TIME_NONE = Some TIME_MOMENTS_AGO"
| "next_type TIME_MOMENTS_AGO = Some TIME_HOURS_AGO"
| "next_type TIME_HOURS_AGO = Some TIME_DAYS_AGO"
| "next_type TIME_DAYS_AGO = Some TIME_WEEKS_AGO"
| "next_type TIME_WEEKS_AGO = Some TIME_MONTHS_AGO"
| "next_type TIME_MONTHS_AGO = Some TIME_YEARS_AGO"
| "next_type TIME_YEARS_AGO = None"

definition within_bounds :: "times_type \<Rightarrow> int \<Rightarrow> bool" where
  "within_bounds ty us \<longleftrightarrow> ty \<noteq> TIME_NONE \<and>
     gebr_get_lower_bound_for_type ty * 1000000 \<le> us \<and>
     (case next_type ty of None \<Rightarrow> True | Some ty' \<Rightarrow> us < gebr_get_lower_bound_for_type ty' * 1000000)"

lemma within_bounds_unique: "within_bounds a us \<Longrightarrow> within_bounds b us \<Longrightarrow> a = b"
  by (cases a; cases b) (simp_all add: within_bounds_def)

lemma relative_time_bounds:
  "gebr_calculate_relative_time t1 t2 = Some (s, ty, us) \<Longrightarrow>
   within_bounds ty us \<and> us = micros t1 t2 \<and> 0 \<le> us \<and> s = gebr_get_control_text_for_type ty"
  by (auto simp: gebr_calculate_relative_time_def within_bounds_def Let_def split: if_splits)

lemma relative_time_defined:
  "gebr_calculate_relative_time t1 t2 = None \<longleftrightarrow> micros t1 t2 < 0"
  by (simp add: gebr_calculate_relative_time_def Let_def)

text \<open>
  \<open>gebr_calculate_detailed_relative_time\<close>: C division truncates; the texts are the untranslated ones,
  and \<open>%ld\<close> is decimal.
\<close>

definition gebr_calculate_detailed_relative_time :: "timeval \<Rightarrow> timeval \<Rightarrow> string" where
  "gebr_calculate_detailed_relative_time time1 time2 =
     (let time_diff = tv_sec time2 - tv_sec time1;
          h = c_div time_diff 3600;
          m = c_div (time_diff - h * 3600) 60;
          s = time_diff - h * 3600 - m * 60;
          micro_s = tv_usec time2 - tv_usec time1;
          ms = c_div micro_s 1000
      in if h = 1 \<and> m = 1 \<and> s = 1 then ''1 hour, 1 minute and 1 second''
         else if h = 1 \<and> m = 1 \<and> s \<noteq> 0 then ''1 hour, 1 minute and '' @ show_int s @ '' seconds''
         else if h = 1 \<and> m \<noteq> 0 \<and> s = 1 then ''1 hour, '' @ show_int m @ '' minute and 1 second''
         else if h = 1 \<and> m \<noteq> 0 \<and> s \<noteq> 0 then
           ''1 hour, '' @ show_int m @ '' minutes and '' @ show_int s @ '' seconds''
         else if h \<noteq> 0 \<and> m \<noteq> 0 \<and> s \<noteq> 0 then
           show_int h @ '' hours, '' @ show_int m @ '' minutes and '' @ show_int s @ '' seconds''
         else if h \<noteq> 0 \<and> m \<noteq> 0 \<and> s = 0 then show_int h @ '' hours and '' @ show_int m @ '' minutes''
         else if h = 0 \<and> m = 1 \<and> s = 1 then ''1 minute and 1 second''
         else if h = 0 \<and> m = 1 \<and> s \<noteq> 0 then ''1 minute and '' @ show_int s @ '' seconds''
         else if h = 0 \<and> m \<noteq> 0 \<and> s = 1 then show_int m @ '' minutes and 1 second''
         else if h = 0 \<and> m \<noteq> 0 \<and> s \<noteq> 0 then show_int m @ '' minutes and '' @ show_int s @ '' seconds''
         else if h = 1 \<and> m = 0 \<and> s \<noteq> 0 then ''1 hour and '' @ show_int s @ '' seconds''
         else if h \<noteq> 0 \<and> m = 0 \<and> s \<noteq> 0 then show_int h @ '' hours and '' @ show_int s @ '' seconds''
         else if h \<noteq> 0 \<and> m = 0 \<and> s = 0 then show_int h @ '' hours''
         else if h = 0 \<and> m = 1 \<and> s = 0 then ''1 minute''
         else if h = 0 \<and> m \<noteq> 0 \<and> s = 0 then show_int m @ '' minutes''
         else if h = 0 \<and> m = 0 \<and> s > 1 then show_int s @ '' seconds''
         else if h = 0 \<and> m = 0 \<and> s \<noteq> 0 then ''1 second''
         else if h = 0 \<and> m = 0 \<and> s = 0 \<and> micro_s < 2000 then ''1 milisecond''
         else show_int ms @ '' miliseconds'')"

text \<open>
  \<open>gebr_compute_diff_iso_times\<close> on the parsed times: the microseconds are computed from the seconds.
\<close>

definition gebr_compute_diff_iso_times :: "timeval \<Rightarrow> timeval \<Rightarrow> timeval" where
  "gebr_compute_diff_iso_times time1 time2 =
     \<lparr>tv_sec = tv_sec time2 - tv_sec time1, tv_usec = tv_sec time2 - tv_sec time1\<rparr>"

section \<open>Searching code points\<close>

text \<open>\<open>g_utf8_get_char\<close> at the end of a string reads the terminating 0.\<close>

fun char_at :: "nat list \<Rightarrow> nat" where
  "char_at [] = 0"
| "char_at (c # s) = c"

datatype inner_result = Mismatch | Found | Exhausted

text \<open>The inner \<open>while (TRUE)\<close>: \<open>k\<close> runs over the text and \<open>j\<close> over the search string.\<close>

fun strstr_inner :: "nat list \<Rightarrow> nat list \<Rightarrow> inner_result" where
  "strstr_inner [] j = (if char_at [] \<noteq> char_at j then Mismatch else if tl j = [] then Found else Exhausted)"
| "strstr_inner (a # k) j =
     (if a \<noteq> char_at j then Mismatch
      else if tl j = [] then Found
      else if k = [] then Exhausted
      else strstr_inner k (tl j))"

fun gebr_utf8_strstr :: "nat list \<Rightarrow> nat list \<Rightarrow> nat option" where
  "gebr_utf8_strstr [] search = None"
| "gebr_utf8_strstr (a # i) search =
     (case strstr_inner (a # i) search of
        Found \<Rightarrow> Some 0
      | Exhausted \<Rightarrow> None
      | Mismatch \<Rightarrow> map_option Suc (gebr_utf8_strstr i search))"

definition gebr_utf8_is_asc_alnum :: "nat list option \<Rightarrow> bool" where
  "gebr_utf8_is_asc_alnum str =
     (case str of
        None \<Rightarrow> True
      | Some s \<Rightarrow> list_all (\<lambda>c. (48 \<le> c \<and> c \<le> 57) \<or> (97 \<le> c \<and> c \<le> 122) \<or> (65 \<le> c \<and> c \<le> 90)) s)"

lemma inner_spec:
  assumes "j \<noteq> []" "0 \<notin> set k" "k \<noteq> []" "0 \<notin> set j"
  shows "(strstr_inner k j = Found \<longleftrightarrow> prefix j k) \<and>
         (strstr_inner k j = Exhausted \<longrightarrow> length k < length j)"
  using assms
proof (induction k j rule: strstr_inner.induct)
  case (1 j)
  then show ?case by simp
next
  case (2 a k j)
  then obtain b j' where j: "j = b # j'" by (cases j) auto
  show ?case
  proof (cases "a = b \<and> j' \<noteq> [] \<and> k \<noteq> []")
    case True
    with "2.IH" "2.prems" j show ?thesis by simp
  next
    case False
    with j show ?thesis by (auto simp: Suc_less_eq2 neq_Nil_conv)
  qed
qed

lemma strstr_too_short: "length s < length d \<Longrightarrow> strstr s d = None"
  using strstr_bound by (metis add_leE le_add2 not_None_eq not_less le_trans)

section \<open>Properties\<close>

text \<open>
  On code points without 0 the search for a non-empty string finds the position that the
  reference search \<open>strstr\<close> finds, and nothing exactly when there is none: giving up as soon as
  the text ends inside a partial match loses no occurrence.
\<close>

theorem utf8_strstr_strstr:
  assumes "search \<noteq> []" "0 \<notin> set search" "0 \<notin> set str"
  shows "gebr_utf8_strstr str search = strstr str search"
  using assms(3)
proof (induction str)
  case Nil
  with assms(1) show ?case by simp
next
  case (Cons a i)
  note spec = inner_spec [of search "a # i", OF assms(1) Cons.prems _ assms(2)]
  show ?case
  proof (cases "strstr_inner (a # i) search")
    case Mismatch
    then show ?thesis using spec Cons by simp
  next
    case Found
    then show ?thesis using spec by simp
  next
    case Exhausted
    with spec have "length (a # i) < length search" by simp
    with Exhausted show ?thesis using strstr_too_short by fastforce
  qed
qed

theorem utf8_strstr_witness:
  "gebr_utf8_strstr [97, 97, 98, 97] [97, 98] = strstr [97, 97, 98, 97] [97, 98 :: nat]"
  by (rule utf8_strstr_strstr) simp_all

text \<open>
  The relative time of two instants is undefined exactly when the first is later than the
  second; otherwise the reported type is the one whose lower bound (as given by
  \<open>gebr_get_lower_bound_for_type\<close>) and whose successor's lower bound enclose the difference, no
  other type does, and the text is that type's text.
\<close>

theorem relative_time_classified:
  "(case gebr_calculate_relative_time t1 t2 of
      None \<Rightarrow> micros t1 t2 < 0
    | Some (txt, ty, us) \<Rightarrow>
        0 \<le> us \<and> us = micros t1 t2 \<and> (\<forall>ty'. within_bounds ty' us \<longleftrightarrow> ty' = ty) \<and>
        txt = gebr_get_control_text_for_type ty)"
  using relative_time_bounds [of t1 t2] relative_time_defined [of t1 t2] within_bounds_unique
  by (auto split: option.split)

end
