(* ===== verification/Comm_Job.thy ===== *)
theory Comm_Job
  imports Prelude
begin

text \<open>
  Jobs as the protocol sees them (\<open>libgebr/comm/gebr-comm-job.c\<close>): the status enumeration with its
  two string conversions, and the job object with the properties its class installs.
\<close>

section \<open>Status\<close>

datatype comm_job_status =
  JOB_STATUS_INITIAL | JOB_STATUS_QUEUED | JOB_STATUS_FAILED | JOB_STATUS_RUNNING
  | JOB_STATUS_FINISHED | JOB_STATUS_CANCELED | JOB_STATUS_REQUEUED | JOB_STATUS_ISSUED

text \<open>The array \<open>enum_to_string\<close>, indexed by the enumeration.\<close>

fun gebr_comm_job_get_string_from_status :: "comm_job_status \<Rightarrow> string" where
  "gebr_comm_job_get_string_from_status JOB_STATUS_INITIAL = ''unknown''"
| "gebr_comm_job_get_string_from_status JOB_STATUS_QUEUED = ''queued''"
| "gebr_comm_job_get_string_from_status JOB_STATUS_FAILED = ''failed''"
| "gebr_comm_job_get_string_from_status JOB_STATUS_RUNNING = ''running''"
| "gebr_comm_job_get_string_from_status JOB_STATUS_FINISHED = ''finished''"
| "gebr_comm_job_get_string_from_status JOB_STATUS_CANCELED = ''canceled''"
| "gebr_comm_job_get_string_from_status JOB_STATUS_REQUEUED = ''requeued''"
| "gebr_comm_job_get_string_from_status JOB_STATUS_ISSUED = ''issued''"

definition gebr_comm_job_get_status_from_string :: "cstr \<Rightarrow> comm_job_status" where
  "gebr_comm_job_get_status_from_string status =
     (if status = Some ''unknown'' then JOB_STATUS_INITIAL
      else if status = Some ''queued'' then JOB_STATUS_QUEUED
      else if status = Some ''failed'' then JOB_STATUS_FAILED
      else if status = Some ''running'' then JOB_STATUS_RUNNING
      else if status = Some ''finished'' then JOB_STATUS_FINISHED
      else if status = Some ''canceled'' then JOB_STATUS_CANCELED
      else if status = Some ''requeued'' then JOB_STATUS_REQUEUED
      else if status = Some ''issued'' then JOB_STATUS_ISSUED
      else JOB_STATUS_INITIAL)"

lemma status_string_inverse:
  "gebr_comm_job_get_status_from_string (Some (gebr_comm_job_get_string_from_status s)) = s"
  by (cases s) (simp_all add: gebr_comm_job_get_status_from_string_def)

section \<open>The object and its properties\<close>

text \<open>The \<open>GString\<close> members, and the property ids with the member each one is stored in.\<close>

datatype job_member =
  CLIENT_HOSTNAME | CLIENT_DISPLAY | RUN_ID | FLOW_XML | MOAB_ACCOUNT | N_PROCESS | QUEUE_ID | JID
  | TITLE | START_DATE | FINISH_DATE | ISSUES | CMD_LINE | OUTPUT | MOAB_JID

record comm_job =
  members :: "job_member \<Rightarrow> string"
  comm_status :: comm_job_status

text \<open>\<open>jid\<close> is the identifier that \<open>gebr_comm_job_generate_id\<close> drew.\<close>

definition gebr_comm_job_init :: "string \<Rightarrow> comm_job" where
  "gebr_comm_job_init jid =
     \<lparr>members = (\<lambda>m. if m = JID then jid else []), comm_status = JOB_STATUS_INITIAL\<rparr>"

text \<open>\<open>gebr_comm_job_class_init\<close>: the installed properties, by name, with the id they get.\<close>

definition gebr_comm_job_class_init :: "(string \<times> job_member) list" where
  "gebr_comm_job_class_init =
     [(''client-hostname'', CLIENT_HOSTNAME), (''client-display'', CLIENT_DISPLAY),
      (''run-id'', RUN_ID), (''flow-xml'', FLOW_XML), (''n_process'', MOAB_ACCOUNT),
      (''queue-id'', N_PROCESS), (''moab-account'', QUEUE_ID), (''jid'', JID), (''title'', TITLE),
      (''start-date'', START_DATE), (''finish-date'', FINISH_DATE), (''issues'', ISSUES),
      (''cmd-line'', CMD_LINE), (''output'', OUTPUT), (''moab-jid'', MOAB_JID)]"

definition gebr_comm_job_set_property :: "string \<Rightarrow> string \<Rightarrow> comm_job \<Rightarrow> comm_job" where
  "gebr_comm_job_set_property name value job =
     (case map_of gebr_comm_job_class_init name of
        Some m \<Rightarrow> job\<lparr>members := (members job)(m := value)\<rparr>
      | None \<Rightarrow> job)"

definition gebr_comm_job_get_property :: "string \<Rightarrow> comm_job \<Rightarrow> cstr" where
  "gebr_comm_job_get_property name job =
     map_option (members job) (map_of gebr_comm_job_class_init name)"

lemma property_members_distinct: "distinct (map snd gebr_comm_job_class_init)"
  by (simp add: gebr_comm_job_class_init_def)

section \<open>Properties\<close>

text \<open>
  Both status conversions are inverse to each other: every status is read back from its
  string, a string is read as the status it names or, when it names none, as the initial status.
\<close>

theorem status_string_round_trip:
  "gebr_comm_job_get_status_from_string (Some (gebr_comm_job_get_string_from_status s)) = s \<and>
   gebr_comm_job_get_string_from_status (gebr_comm_job_get_status_from_string str) =
     (if str \<in> Some ` range gebr_comm_job_get_string_from_status then the str else ''unknown'')"
proof -
  have "gebr_comm_job_get_string_from_status (gebr_comm_job_get_status_from_string str) = ''unknown''"
    if "str \<notin> Some ` range gebr_comm_job_get_string_from_status"
  proof -
    have "str \<noteq> Some (gebr_comm_job_get_string_from_status x)" for x using that by blast
    from this [of JOB_STATUS_QUEUED] this [of JOB_STATUS_FAILED] this [of JOB_STATUS_RUNNING]
      this [of JOB_STATUS_FINISHED] this [of JOB_STATUS_CANCELED] this [of JOB_STATUS_REQUEUED]
      this [of JOB_STATUS_ISSUED]
    show ?thesis by (simp add: gebr_comm_job_get_status_from_string_def)
  qed
  then show ?thesis by (auto simp: status_string_inverse)
qed

text \<open>
  The class installs the queue id, the number of processes and the account under each
  other's ids: setting the property \<open>queue-id\<close> writes the member for the number of processes,
  \<open>n_process\<close> the account, and \<open>moab-account\<close> the queue id, while reading a property by its own name
  still gives back what was set under that name.
\<close>

theorem job_properties_permuted:
  "members (gebr_comm_job_set_property ''queue-id'' v job) = (members job)(N_PROCESS := v) \<and>
   members (gebr_comm_job_set_property ''n_process'' v job) = (members job)(MOAB_ACCOUNT := v) \<and>
   members (gebr_comm_job_set_property ''moab-account'' v job) = (members job)(QUEUE_ID := v) \<and>
   gebr_comm_job_get_property ''queue-id'' (gebr_comm_job_set_property ''queue-id'' v job) = Some v"
  by (simp add: gebr_comm_job_set_property_def gebr_comm_job_get_property_def gebr_comm_job_class_init_def)

end
