(* ===== verification/Gebrm_Task.thy ===== *)
theory Gebrm_Task
  imports Comm_Protocol Comm_Job
begin

text \<open>
  The maestro's view of a task, the part of a job that one daemon runs
  (\<open>maestro/gebrm-task.c\<close>). Tasks, jobs and daemons are objects that point at each other, so the
  state is a heap: references are numbers, and an operation takes the references it is called with
  and the world. What leaves the maestro's objects (signals emitted by a job or a daemon, messages
  sent to a daemon) is appended to a trace.
\<close>

type_synonym task_ref = nat
type_synonym job_ref = nat
type_synonym daemon_ref = nat

record task =
  tdaemon :: daemon_ref
  tstatus :: comm_job_status
  rid :: string
  frac :: int
  start_date :: string
  finish_date :: string
  issues :: string
  cmd_line :: string
  moab_jid :: string
  task_output :: string

text \<open>The callbacks connected to the \<open>status-change\<close> signal of a task.\<close>

datatype listener = DaemonListener daemon_ref | JobListener job_ref

datatype maestro_event =
  JobStatusChange job_ref comm_job_status comm_job_status cstr
  | JobIssued job_ref cstr
  | JobCmdLine job_ref task_ref string
  | JobOutput job_ref task_ref string
  | JobDisconnect job_ref
  | DaemonSend daemon_ref message_def "string list"

record task_world =
  tasks :: "task_ref \<Rightarrow> task"
  tasks_map :: "string \<Rightarrow> task_ref option"
  listeners :: "task_ref \<Rightarrow> listener list"
  uncompleted_tasks :: "daemon_ref \<Rightarrow> int"
  trace :: "maestro_event list"

definition log_event :: "maestro_event \<Rightarrow> 'w task_world_scheme \<Rightarrow> 'w task_world_scheme" where
  "log_event e w = w\<lparr>trace := trace w @ [e]\<rparr>"

definition set_task :: "task_ref \<Rightarrow> task \<Rightarrow> 'w task_world_scheme \<Rightarrow> 'w task_world_scheme" where
  "set_task t tk w = w\<lparr>tasks := (tasks w)(t := tk)\<rparr>"

lemma log_event_sel [simp]:
  "tasks (log_event e w) = tasks w" "tasks_map (log_event e w) = tasks_map w"
  "listeners (log_event e w) = listeners w" "trace (log_event e w) = trace w @ [e]"
  "uncompleted_tasks (log_event e w) = uncompleted_tasks w"
  by (simp_all add: log_event_def)

lemma set_task_sel [simp]:
  "tasks (set_task t tk w) = (tasks w)(t := tk)" "tasks_map (set_task t tk w) = tasks_map w"
  "listeners (set_task t tk w) = listeners w" "trace (set_task t tk w) = trace w"
  "uncompleted_tasks (set_task t tk w) = uncompleted_tasks w"
  by (simp_all add: set_task_def)

section \<open>Identifiers and construction\<close>

definition gebrm_task_build_id :: "string \<Rightarrow> string \<Rightarrow> string" where
  "gebrm_task_build_id r f = r @ '':'' @ f"

definition gebrm_task_get_id :: "task \<Rightarrow> string" where
  "gebrm_task_get_id tk = gebrm_task_build_id (rid tk) (show_int (frac tk))"

text \<open>
  \<open>gebrm_task_init\<close> followed by \<open>gebrm_task_new\<close>; \<open>t\<close> is the address of the new object. The
  table keeps the last task inserted under an id.
\<close>

definition gebrm_task_init :: "daemon_ref \<Rightarrow> string \<Rightarrow> int \<Rightarrow> task" where
  "gebrm_task_init d r f =
     \<lparr>tdaemon = d, tstatus = JOB_STATUS_INITIAL, rid = r, frac = f, start_date = [],
      finish_date = [], issues = [], cmd_line = [], moab_jid = [], task_output = []\<rparr>"

definition gebrm_task_new ::
    "task_ref \<Rightarrow> daemon_ref \<Rightarrow> string \<Rightarrow> string \<Rightarrow> 'w task_world_scheme \<Rightarrow> 'w task_world_scheme" where
  "gebrm_task_new t server r f w =
     (let tk = (gebrm_task_init server r (atoi f))\<lparr>tstatus := JOB_STATUS_RUNNING\<rparr>
      in (set_task t tk w)\<lparr>tasks_map := (tasks_map w)(gebrm_task_get_id tk \<mapsto> t),
                           listeners := (listeners w)(t := [])\<rparr>)"

definition gebrm_task_init_details ::
    "task_ref \<Rightarrow> string \<Rightarrow> string \<Rightarrow> string \<Rightarrow> 'w task_world_scheme \<Rightarrow> 'w task_world_scheme" where
  "gebrm_task_init_details t iss cmd mjid w =
     set_task t ((tasks w t)\<lparr>issues := iss, cmd_line := cmd, moab_jid := mjid\<rparr>) w"

definition gebrm_task_translate_status :: "string \<Rightarrow> comm_job_status" where
  "gebrm_task_translate_status s =
     (if s = ''unknown'' then JOB_STATUS_INITIAL
      else if s = ''queued'' then JOB_STATUS_QUEUED
      else if s = ''failed'' then JOB_STATUS_FAILED
      else if s = ''running'' then JOB_STATUS_RUNNING
      else if s = ''finished'' then JOB_STATUS_FINISHED
      else if s = ''canceled'' then JOB_STATUS_CANCELED
      else if s = ''requeued'' then JOB_STATUS_REQUEUED
      else if s = ''issued'' then JOB_STATUS_ISSUED
      else JOB_STATUS_INITIAL)"

definition gebrm_task_find :: "cstr \<Rightarrow> cstr \<Rightarrow> 'w task_world_scheme \<Rightarrow> task_ref option" where
  "gebrm_task_find r f w =
     (case (r, f) of
        (Some r, Some f) \<Rightarrow> tasks_map w (gebrm_task_build_id r f)
      | _ \<Rightarrow> None)"

text \<open>Getters; \<open>gebrm_task_get_start_date\<close> returns NULL for an empty date.\<close>

definition gebrm_task_get_start_date :: "task \<Rightarrow> cstr" where
  "gebrm_task_get_start_date tk = (if start_date tk = [] then None else Some (start_date tk))"

definition gebrm_task_get_finish_date :: "task \<Rightarrow> cstr" where
  "gebrm_task_get_finish_date tk = Some (finish_date tk)"

definition gebrm_task_get_status :: "task_ref \<Rightarrow> 'w task_world_scheme \<Rightarrow> comm_job_status" where
  "gebrm_task_get_status t w = tstatus (tasks w t)"

definition gebrm_task_get_fraction :: "task_ref \<Rightarrow> 'w task_world_scheme \<Rightarrow> int" where
  "gebrm_task_get_fraction t w = frac (tasks w t)"

section \<open>Signals\<close>

text \<open>The daemon's callback on the status of its tasks (\<open>maestro/gebrm-daemon.c\<close>).\<close>

definition gebrm_daemon_on_task_status_change ::
    "daemon_ref \<Rightarrow> comm_job_status \<Rightarrow> 'w task_world_scheme \<Rightarrow> 'w task_world_scheme" where
  "gebrm_daemon_on_task_status_change d new_status w =
     (case new_status of
        JOB_STATUS_FAILED \<Rightarrow> w\<lparr>uncompleted_tasks := (uncompleted_tasks w)(d := uncompleted_tasks w d - 1)\<rparr>
      | JOB_STATUS_FINISHED \<Rightarrow> w\<lparr>uncompleted_tasks := (uncompleted_tasks w)(d := uncompleted_tasks w d - 1)\<rparr>
      | JOB_STATUS_CANCELED \<Rightarrow> w\<lparr>uncompleted_tasks := (uncompleted_tasks w)(d := uncompleted_tasks w d - 1)\<rparr>
      | _ \<Rightarrow> w)"

text \<open>
  \<open>gebrm_task_emit_status_changed_signal\<close>: the status and the date are stored before the callbacks
  run, in the order they were connected. \<open>run\<close> is the dispatcher of the callbacks and \<open>now\<close> the
  result of \<open>gebr_iso_date\<close>.
\<close>

type_synonym 'w callback =
  "listener \<Rightarrow> task_ref \<Rightarrow> comm_job_status \<Rightarrow> comm_job_status \<Rightarrow> cstr \<Rightarrow> 'w task_world_scheme \<Rightarrow> 'w task_world_scheme"

definition report_status :: "string \<Rightarrow> comm_job_status \<Rightarrow> cstr \<Rightarrow> task \<Rightarrow> task \<times> cstr" where
  "report_status now new_status par tk =
     (case new_status of
        JOB_STATUS_RUNNING \<Rightarrow> (tk\<lparr>tstatus := new_status, start_date := now\<rparr>, Some now)
      | JOB_STATUS_FINISHED \<Rightarrow> (tk\<lparr>tstatus := new_status, finish_date := now\<rparr>, Some now)
      | JOB_STATUS_CANCELED \<Rightarrow> (tk\<lparr>tstatus := new_status, finish_date := now\<rparr>, Some now)
      | JOB_STATUS_FAILED \<Rightarrow> (tk\<lparr>tstatus := new_status, finish_date := now\<rparr>, Some now)
      | _ \<Rightarrow> (tk\<lparr>tstatus := new_status\<rparr>, par))"

definition gebrm_task_emit_status_changed_signal ::
    "'w callback \<Rightarrow> string \<Rightarrow> task_ref \<Rightarrow> comm_job_status \<Rightarrow> cstr \<Rightarrow> 'w task_world_scheme \<Rightarrow> 'w task_world_scheme" where
  "gebrm_task_emit_status_changed_signal run now t new_status par w =
     (let old_status = tstatus (tasks w t);
          (tk, param) = report_status now new_status par (tasks w t)
      in fold (\<lambda>l. run l t old_status new_status param) (listeners w t) (set_task t tk w))"

text \<open>The output signal reaches the jobs only.\<close>

definition gebrm_task_emit_output_signal ::
    "(job_ref \<Rightarrow> task_ref \<Rightarrow> string \<Rightarrow> 'w task_world_scheme \<Rightarrow> 'w task_world_scheme) \<Rightarrow>
     task_ref \<Rightarrow> string \<Rightarrow> 'w task_world_scheme \<Rightarrow> 'w task_world_scheme" where
  "gebrm_task_emit_output_signal on_output t out w =
     fold (\<lambda>l. case l of JobListener j \<Rightarrow> on_output j t out | DaemonListener d \<Rightarrow> id)
       (listeners w t) (set_task t ((tasks w t)\<lparr>task_output := task_output (tasks w t) @ out\<rparr>) w)"

section \<open>Commands to the daemon\<close>

text \<open>\<open>is_logged\<close> is \<open>gebr_comm_server_is_logged\<close> of a daemon's server.\<close>

definition gebrm_task_close ::
    "(daemon_ref \<Rightarrow> bool) \<Rightarrow> task_ref \<Rightarrow> string \<Rightarrow> 'w task_world_scheme \<Rightarrow> 'w task_world_scheme" where
  "gebrm_task_close is_logged t r w =
     (let d = tdaemon (tasks w t);
          w1 = (if is_logged d then log_event (DaemonSend d clr_def [r]) w else w)
      in w1\<lparr>tasks_map := (tasks_map w1)(gebrm_task_get_id (tasks w t) := None)\<rparr>)"

definition gebrm_task_kill :: "task_ref \<Rightarrow> 'w task_world_scheme \<Rightarrow> 'w task_world_scheme" where
  "gebrm_task_kill t w = log_event (DaemonSend (tdaemon (tasks w t)) kil_def [rid (tasks w t)]) w"

lemma gebrm_task_kill_sel [simp]:
  "tasks (gebrm_task_kill t w) = tasks w" "tasks_map (gebrm_task_kill t w) = tasks_map w"
  "listeners (gebrm_task_kill t w) = listeners w"
  "trace (gebrm_task_kill t w) = trace w @ [DaemonSend (tdaemon (tasks w t)) kil_def [rid (tasks w t)]]"
  by (simp_all add: gebrm_task_kill_def)

section \<open>The contract of the callbacks\<close>

text \<open>
  What a task needs from the callbacks it runs: they leave the heap of tasks and the connections
  alone, so all of them see the same task.
\<close>

locale status_callbacks =
  fixes run :: "'w callback"
  assumes run_tasks: "tasks (run l t old new p w) = tasks w"
    and run_listeners: "listeners (run l t old new p w) = listeners w"
    and run_tasks_map: "tasks_map (run l t old new p w) = tasks_map w"
begin

lemma fold_tasks: "tasks (fold (\<lambda>l. run l t old new p) ls w) = tasks w"
  by (induction ls arbitrary: w) (simp_all add: run_tasks)

lemma fold_listeners: "listeners (fold (\<lambda>l. run l t old new p) ls w) = listeners w"
  by (induction ls arbitrary: w) (simp_all add: run_listeners)

lemma fold_tasks_map: "tasks_map (fold (\<lambda>l. run l t old new p) ls w) = tasks_map w"
  by (induction ls arbitrary: w) (simp_all add: run_tasks_map)

lemma emit_tasks:
  "tasks (gebrm_task_emit_status_changed_signal run now t new p w) =
     (tasks w)(t := fst (report_status now new p (tasks w t)))"
  by (simp add: gebrm_task_emit_status_changed_signal_def Let_def fold_tasks split: prod.split)

lemma emit_listeners:
  "listeners (gebrm_task_emit_status_changed_signal run now t new p w) = listeners w"
  by (simp add: gebrm_task_emit_status_changed_signal_def Let_def fold_listeners split: prod.split)

lemma emit_tasks_map:
  "tasks_map (gebrm_task_emit_status_changed_signal run now t new p w) = tasks_map w"
  by (simp add: gebrm_task_emit_status_changed_signal_def Let_def fold_tasks_map split: prod.split)

end

lemma report_status_status [simp]: "tstatus (fst (report_status now new p tk)) = new"
  by (cases new) (simp_all add: report_status_def)

lemma report_status_id [simp]: "gebrm_task_get_id (fst (report_status now new p tk)) = gebrm_task_get_id tk"
  by (cases new) (simp_all add: report_status_def gebrm_task_get_id_def)

lemma translate_status_eq:
  "gebrm_task_translate_status s = gebr_comm_job_get_status_from_string (Some s)"
  by (simp add: gebrm_task_translate_status_def gebr_comm_job_get_status_from_string_def)

end
