(* ===== verification/Gebrm_Job.thy ===== *)
theory Gebrm_Job
  imports Gebrm_Task Utils_Text
begin

text \<open>
  Jobs of the maestro (\<open>maestro/gebrm-job.c\<close>): a job follows the status of its tasks, tells its
  clients about every change by signals, and commands its tasks.
\<close>

section \<open>State\<close>

record job_info =
  info_id :: cstr
  info_temp_id :: cstr
  info_title :: cstr
  info_description :: cstr
  info_flow_id :: cstr
  info_flow_title :: cstr
  info_hostname :: cstr
  info_parent_id :: cstr
  info_nice :: cstr
  info_input :: cstr
  info_output :: cstr
  info_error :: cstr
  info_submit_date :: cstr
  info_group :: cstr
  info_group_type :: cstr
  info_speed :: cstr
  info_snapshot_title :: cstr
  info_snapshot_id :: cstr
  info_job_counter :: cstr

definition no_info :: job_info where
  "no_info =
     \<lparr>info_id = None, info_temp_id = None, info_title = None, info_description = None,
      info_flow_id = None, info_flow_title = None, info_hostname = None, info_parent_id = None,
      info_nice = None, info_input = None, info_output = None, info_error = None,
      info_submit_date = None, info_group = None, info_group_type = None, info_speed = None,
      info_snapshot_title = None, info_snapshot_id = None, info_job_counter = None\<rparr>"

text \<open>A child is a runner (an object of \<open>gebr-comm-runner.c\<close>, by reference) with its job.\<close>

record job =
  info :: job_info
  job_tasks :: "task_ref list"
  servers :: cstr
  nprocs :: cstr
  run_type :: cstr
  mpi_owner :: cstr
  mpi_flavor :: cstr
  total :: int
  status :: comm_job_status
  has_issued :: bool
  children :: "(nat \<times> job_ref) list"

record job_world = task_world +
  jobs :: "job_ref \<Rightarrow> job"
  next_job_id :: int

definition set_job :: "job_ref \<Rightarrow> job \<Rightarrow> 'w job_world_scheme \<Rightarrow> 'w job_world_scheme" where
  "set_job j jb w = w\<lparr>jobs := (jobs w)(j := jb)\<rparr>"

definition set_job_status ::
    "job_ref \<Rightarrow> comm_job_status \<Rightarrow> 'w job_world_scheme \<Rightarrow> 'w job_world_scheme" where
  "set_job_status j s w = set_job j ((jobs w j)\<lparr>status := s\<rparr>) w"

lemma set_job_sel [simp]:
  "jobs (set_job j jb w) = (jobs w)(j := jb)" "tasks (set_job j jb w) = tasks w"
  "listeners (set_job j jb w) = listeners w" "trace (set_job j jb w) = trace w"
  "tasks_map (set_job j jb w) = tasks_map w" "uncompleted_tasks (set_job j jb w) = uncompleted_tasks w"
  by (simp_all add: set_job_def)

lemma set_job_status_sel [simp]:
  "jobs (set_job_status j s w) = (jobs w)(j := (jobs w j)\<lparr>status := s\<rparr>)"
  "tasks (set_job_status j s w) = tasks w" "listeners (set_job_status j s w) = listeners w"
  "trace (set_job_status j s w) = trace w" "tasks_map (set_job_status j s w) = tasks_map w"
  "uncompleted_tasks (set_job_status j s w) = uncompleted_tasks w"
  by (simp_all add: set_job_status_def)

lemma jobs_task_op [simp]:
  "jobs (log_event e w) = jobs w" "jobs (set_task t tk w) = jobs w" "jobs (gebrm_task_kill t w) = jobs w"
  by (simp_all add: log_event_def set_task_def gebrm_task_kill_def)

section \<open>Construction\<close>

definition gebrm_job_init :: job where
  "gebrm_job_init =
     \<lparr>info = no_info, job_tasks = [], servers = Some [], nprocs = Some [], run_type = Some [],
      mpi_owner = Some [], mpi_flavor = Some [], total = 0, status = JOB_STATUS_INITIAL,
      has_issued = False, children = []\<rparr>"

text \<open>\<open>j\<close> is the address of the new object; the id comes from a static counter.\<close>

definition gebrm_job_new :: "job_ref \<Rightarrow> 'w job_world_scheme \<Rightarrow> 'w job_world_scheme" where
  "gebrm_job_new j w =
     (set_job j (gebrm_job_init\<lparr>info := no_info\<lparr>info_id := Some (show_int (next_job_id w))\<rparr>\<rparr>) w)
       \<lparr>next_job_id := next_job_id w + 1\<rparr>"

text \<open>Every field of the given information but the id, which is kept when the job has one.\<close>

definition gebrm_job_init_details :: "job \<Rightarrow> job_info \<Rightarrow> job" where
  "gebrm_job_init_details jb inf0 =
     (let jb1 = jb\<lparr>info := inf0\<lparr>info_id := (case info_id (info jb) of None \<Rightarrow> info_id inf0 | Some k \<Rightarrow> Some k)\<rparr>\<rparr>
      in if info_parent_id inf0 \<noteq> None \<and> info_parent_id inf0 \<noteq> Some []
         then jb1\<lparr>status := JOB_STATUS_QUEUED\<rparr> else jb1)"

section \<open>Status\<close>

definition gebrm_job_is_stopped :: "job \<Rightarrow> bool" where
  "gebrm_job_is_stopped jb \<longleftrightarrow>
     status jb = JOB_STATUS_FINISHED \<or> status jb = JOB_STATUS_FAILED \<or> status jb = JOB_STATUS_CANCELED"

definition gebrm_job_is_queueable :: "job \<Rightarrow> bool" where
  "gebrm_job_is_queueable jb \<longleftrightarrow> status jb = JOB_STATUS_QUEUED \<or> status jb = JOB_STATUS_RUNNING"

definition gebrm_job_get_status :: "job \<Rightarrow> comm_job_status" where
  "gebrm_job_get_status jb = status jb"

text \<open>The loop over the tasks of an incomplete job.\<close>

fun partial_scan :: "comm_job_status list \<Rightarrow> comm_job_status" where
  "partial_scan [] = JOB_STATUS_RUNNING"
| "partial_scan (sta # ss) = (if sta = JOB_STATUS_RUNNING then partial_scan ss else sta)"

definition gebrm_job_get_partial_status :: "job_ref \<Rightarrow> 'w job_world_scheme \<Rightarrow> comm_job_status" where
  "gebrm_job_get_partial_status j w =
     (let jb = jobs w j in
      if status jb = JOB_STATUS_QUEUED then JOB_STATUS_QUEUED
      else if job_tasks jb = [] then JOB_STATUS_INITIAL
      else if int (length (job_tasks jb)) = total jb then gebrm_job_get_status jb
      else partial_scan (map (\<lambda>t. gebrm_task_get_status t w) (job_tasks jb)))"

definition gebrm_job_can_close :: "job_ref \<Rightarrow> 'w job_world_scheme \<Rightarrow> bool" where
  "gebrm_job_can_close j w =
     (let s = gebrm_job_get_partial_status j w
      in s = JOB_STATUS_FINISHED \<or> s = JOB_STATUS_FAILED \<or> s = JOB_STATUS_CANCELED)"

definition gebrm_job_can_kill :: "job_ref \<Rightarrow> 'w job_world_scheme \<Rightarrow> bool" where
  "gebrm_job_can_kill j w =
     (let s = gebrm_job_get_partial_status j w
      in s = JOB_STATUS_QUEUED \<or> s = JOB_STATUS_RUNNING)"

text \<open>Set the status of the job and emit the change.\<close>

definition job_status_to ::
    "job_ref \<Rightarrow> comm_job_status \<Rightarrow> cstr \<Rightarrow> 'w job_world_scheme \<Rightarrow> 'w job_world_scheme" where
  "job_status_to j new par w =
     log_event (JobStatusChange j (status (jobs w j)) new par) (set_job_status j new w)"

definition all_tasks_finished :: "job_ref \<Rightarrow> 'w job_world_scheme \<Rightarrow> bool" where
  "all_tasks_finished j w \<longleftrightarrow>
     list_all (\<lambda>t. gebrm_task_get_status t w = JOB_STATUS_FINISHED) (job_tasks (jobs w j))"

definition gebrm_job_change_task_status ::
    "task_ref \<Rightarrow> comm_job_status \<Rightarrow> comm_job_status \<Rightarrow> cstr \<Rightarrow> job_ref \<Rightarrow>
     'w job_world_scheme \<Rightarrow> 'w job_world_scheme" where
  "gebrm_job_change_task_status t old_status new_status par j w =
     (let jb = jobs w j; ntasks = int (length (job_tasks jb)) in
      if gebrm_job_is_stopped jb then gebrm_task_kill t w
      else if ntasks \<noteq> total jb \<and> new_status \<noteq> JOB_STATUS_CANCELED \<and> new_status \<noteq> JOB_STATUS_FAILED then w
      else case new_status of
        JOB_STATUS_ISSUED \<Rightarrow>
          (if has_issued jb then w
           else log_event (JobIssued j par) (set_job j (jb\<lparr>has_issued := True\<rparr>) w))
      | JOB_STATUS_RUNNING \<Rightarrow> job_status_to j JOB_STATUS_RUNNING par w
      | JOB_STATUS_CANCELED \<Rightarrow> job_status_to j new_status par w
      | JOB_STATUS_FAILED \<Rightarrow> job_status_to j new_status par w
      | JOB_STATUS_FINISHED \<Rightarrow>
          (if ntasks = total jb \<and> all_tasks_finished j w
           then job_status_to j JOB_STATUS_FINISHED par w else w)
      | _ \<Rightarrow> w)"

definition gebrm_job_append_task_output ::
    "job_ref \<Rightarrow> task_ref \<Rightarrow> string \<Rightarrow> 'w task_world_scheme \<Rightarrow> 'w task_world_scheme" where
  "gebrm_job_append_task_output j t out w = (if out = [] then w else log_event (JobOutput j t out) w)"

text \<open>The dispatcher of the \<open>status-change\<close> callbacks.\<close>

fun run_listener ::
    "listener \<Rightarrow> task_ref \<Rightarrow> comm_job_status \<Rightarrow> comm_job_status \<Rightarrow> cstr \<Rightarrow>
     'w job_world_scheme \<Rightarrow> 'w job_world_scheme" where
  "run_listener (DaemonListener d) t old new par w = gebrm_daemon_on_task_status_change d new w"
| "run_listener (JobListener j) t old new par w = gebrm_job_change_task_status t old new par j w"

definition on_task_destroy :: "job_ref \<Rightarrow> task_ref \<Rightarrow> 'w job_world_scheme \<Rightarrow> 'w job_world_scheme" where
  "on_task_destroy j t w =
     (let old_status = status (jobs w j);
          ts = remove1 t (job_tasks (jobs w j));
          w1 = set_job j ((jobs w j)\<lparr>status := JOB_STATUS_INITIAL, job_tasks := ts\<rparr>) w
      in if ts = [] then log_event (JobDisconnect j) w1
         else if old_status \<noteq> JOB_STATUS_INITIAL
         then log_event (JobStatusChange j old_status JOB_STATUS_INITIAL (Some [])) w1
         else w1)"

definition gebrm_job_get_queue :: "job \<Rightarrow> cstr" where
  "gebrm_job_get_queue jb = info_parent_id (info jb)"

definition gebrm_job_append_task ::
    "string \<Rightarrow> job_ref \<Rightarrow> task_ref \<Rightarrow> 'w job_world_scheme \<Rightarrow> 'w job_world_scheme" where
  "gebrm_job_append_task now j t w =
     (let w1 = set_job j ((jobs w j)\<lparr>job_tasks := t # job_tasks (jobs w j)\<rparr>) w;
          iss = issues (tasks w t);
          st = tstatus (tasks w t);
          w2 = w1\<lparr>listeners := (listeners w1)(t := listeners w1 t @ [JobListener j])\<rparr>;
          w3 = log_event (JobCmdLine j t (cmd_line (tasks w t))) w2;
          w4 = log_event (JobOutput j t (task_output (tasks w t))) w3;
          w5 = (if iss \<noteq> []
                then gebrm_job_change_task_status t (status (jobs w4 j)) JOB_STATUS_ISSUED (Some iss) j w4
                else w4);
          old = status (jobs w5 j)
      in case st of
        JOB_STATUS_FAILED \<Rightarrow> gebrm_job_change_task_status t old st (Some now) j w5
      | JOB_STATUS_FINISHED \<Rightarrow>
          gebrm_job_change_task_status t old st (gebrm_task_get_finish_date (tasks w5 t)) j w5
      | JOB_STATUS_CANCELED \<Rightarrow>
          gebrm_job_change_task_status t old st (gebrm_task_get_finish_date (tasks w5 t)) j w5
      | JOB_STATUS_QUEUED \<Rightarrow>
          gebrm_job_change_task_status t old st (gebrm_job_get_queue (jobs w5 j)) j w5
      | JOB_STATUS_RUNNING \<Rightarrow>
          gebrm_job_change_task_status t old st (gebrm_task_get_start_date (tasks w5 t)) j w5
      | _ \<Rightarrow> w5)"

section \<open>Commands\<close>

definition gebrm_job_close ::
    "(daemon_ref \<Rightarrow> bool) \<Rightarrow> job_ref \<Rightarrow> 'w job_world_scheme \<Rightarrow> bool \<times> 'w job_world_scheme" where
  "gebrm_job_close is_logged j w =
     (if \<not> gebrm_job_can_close j w then (False, w)
      else (True, fold (\<lambda>t. gebrm_task_close is_logged t (the (info_id (info (jobs w j)))))
                    (job_tasks (jobs w j)) w))"

definition gebrm_job_kill_tasks :: "job_ref \<Rightarrow> 'w job_world_scheme \<Rightarrow> 'w job_world_scheme" where
  "gebrm_job_kill_tasks j w = fold gebrm_task_kill (job_tasks (jobs w j)) w"

definition gebrm_job_kill :: "job_ref \<Rightarrow> 'w job_world_scheme \<Rightarrow> 'w job_world_scheme" where
  "gebrm_job_kill j w = (if gebrm_job_can_kill j w then gebrm_job_kill_tasks j w else w)"

definition gebrm_job_kill_immediately ::
    "string \<Rightarrow> job_ref \<Rightarrow> 'w job_world_scheme \<Rightarrow> 'w job_world_scheme" where
  "gebrm_job_kill_immediately now j w =
     (let old = status (jobs w j);
          w1 = set_job_status j JOB_STATUS_CANCELED (gebrm_job_kill j w)
      in log_event (JobStatusChange j old JOB_STATUS_CANCELED (Some now)) w1)"

definition gebrm_job_unqueue :: "string \<Rightarrow> job_ref \<Rightarrow> 'w job_world_scheme \<Rightarrow> 'w job_world_scheme" where
  "gebrm_job_unqueue now j w =
     (if status (jobs w j) \<noteq> JOB_STATUS_QUEUED then w
      else log_event (JobStatusChange j JOB_STATUS_QUEUED JOB_STATUS_CANCELED (Some now))
             (set_job_status j JOB_STATUS_CANCELED w))"

definition gebrm_job_set_status :: "job_ref \<Rightarrow> comm_job_status \<Rightarrow> 'w job_world_scheme \<Rightarrow> 'w job_world_scheme" where
  "gebrm_job_set_status j s w = set_job_status j s w"

definition gebrm_job_append_child ::
    "job_ref \<Rightarrow> nat \<Rightarrow> job_ref \<Rightarrow> 'w job_world_scheme \<Rightarrow> 'w job_world_scheme" where
  "gebrm_job_append_child j runner child w =
     (if \<not> gebrm_job_can_kill j w then w
      else set_job j ((jobs w j)\<lparr>children := (runner, child) # children (jobs w j)\<rparr>) w)"

section \<open>Queries\<close>

definition gebrm_job_get_output :: "job_ref \<Rightarrow> 'w job_world_scheme \<Rightarrow> string" where
  "gebrm_job_get_output j w = concat (map (\<lambda>t. task_output (tasks w t)) (job_tasks (jobs w j)))"

text \<open>
  The dates of a job. \<open>parse_date\<close> is \<open>g_time_val_from_iso8601\<close>, on NULL too. The scan keeps the first
  date and replaces it by one that is earlier (later) in seconds.
\<close>

fun date_scan :: "(cstr \<Rightarrow> timeval) \<Rightarrow> (int \<Rightarrow> int \<Rightarrow> bool) \<Rightarrow> cstr list \<Rightarrow> cstr \<Rightarrow> cstr" where
  "date_scan parse_date better [] best = best"
| "date_scan parse_date better (d # ds) best =
     (if best = None then date_scan parse_date better ds d
      else if better (tv_sec (parse_date d)) (tv_sec (parse_date best)) then date_scan parse_date better ds d
      else date_scan parse_date better ds best)"

definition gebrm_job_get_start_date :: "(cstr \<Rightarrow> timeval) \<Rightarrow> job_ref \<Rightarrow> 'w job_world_scheme \<Rightarrow> cstr" where
  "gebrm_job_get_start_date parse_date j w =
     date_scan parse_date (<) (map (\<lambda>t. gebrm_task_get_start_date (tasks w t)) (job_tasks (jobs w j))) None"

definition gebrm_job_get_finish_date :: "(cstr \<Rightarrow> timeval) \<Rightarrow> job_ref \<Rightarrow> 'w job_world_scheme \<Rightarrow> cstr" where
  "gebrm_job_get_finish_date parse_date j w =
     date_scan parse_date (>) (map (\<lambda>t. gebrm_task_get_finish_date (tasks w t)) (job_tasks (jobs w j))) None"

definition gebrm_job_get_elapsed_time :: "(cstr \<Rightarrow> timeval) \<Rightarrow> job_ref \<Rightarrow> 'w job_world_scheme \<Rightarrow> string" where
  "gebrm_job_get_elapsed_time parse_date j w =
     gebr_calculate_detailed_relative_time (parse_date (gebrm_job_get_start_date parse_date j w))
       (parse_date (gebrm_job_get_finish_date parse_date j w))"

definition gebrm_job_get_running_time :: "(cstr \<Rightarrow> timeval) \<Rightarrow> timeval \<Rightarrow> cstr \<Rightarrow> string" where
  "gebrm_job_get_running_time parse_date current start =
     gebr_calculate_detailed_relative_time (parse_date start) current"

definition gebrm_job_get_issues :: "job_ref \<Rightarrow> 'w job_world_scheme \<Rightarrow> cstr" where
  "gebrm_job_get_issues j w =
     (case job_tasks (jobs w j) of [] \<Rightarrow> None | t # _ \<Rightarrow> Some (issues (tasks w t)))"

definition gebrm_job_has_issues :: "job_ref \<Rightarrow> 'w job_world_scheme \<Rightarrow> bool" where
  "gebrm_job_has_issues j w =
     (case job_tasks (jobs w j) of [] \<Rightarrow> False | t # _ \<Rightarrow> issues (tasks w t) \<noteq> [])"

definition gebrm_job_set_io :: "cstr \<Rightarrow> cstr \<Rightarrow> cstr \<Rightarrow> job \<Rightarrow> job" where
  "gebrm_job_set_io inp out log jb =
     jb\<lparr>info := (info jb)\<lparr>info_input := inp, info_output := out, info_error := log\<rparr>\<rparr>"

definition nonblank :: "cstr \<Rightarrow> cstr" where
  "nonblank s = (if s = Some [] then None else s)"

definition gebrm_job_get_io :: "job \<Rightarrow> cstr \<times> cstr \<times> cstr" where
  "gebrm_job_get_io jb =
     (nonblank (info_input (info jb)), nonblank (info_output (info jb)), nonblank (info_error (info jb)))"

definition gebrm_job_get_server_group :: "job \<Rightarrow> string" where
  "gebrm_job_get_server_group jb = nonempty_or [] (info_group (info jb))"

text \<open>\<open>address\<close> is \<open>gebrm_daemon_get_address\<close>.\<close>

definition gebrm_job_get_task_from_server ::
    "(daemon_ref \<Rightarrow> string) \<Rightarrow> job_ref \<Rightarrow> string \<Rightarrow> 'w job_world_scheme \<Rightarrow> task_ref option" where
  "gebrm_job_get_task_from_server address j server w =
     find (\<lambda>t. address (tdaemon (tasks w t)) = server) (job_tasks (jobs w j))"

definition gebrm_job_set_queue :: "cstr \<Rightarrow> job \<Rightarrow> job" where
  "gebrm_job_set_queue parent jb = jb\<lparr>info := (info jb)\<lparr>info_parent_id := parent\<rparr>\<rparr>"

definition gebrm_job_set_servers_list :: "cstr \<Rightarrow> job \<Rightarrow> job" where
  "gebrm_job_set_servers_list s jb = jb\<lparr>servers := s\<rparr>"

definition gebrm_job_set_nprocs :: "cstr \<Rightarrow> job \<Rightarrow> job" where
  "gebrm_job_set_nprocs s jb = jb\<lparr>nprocs := s\<rparr>"

definition gebrm_job_set_total_tasks :: "int \<Rightarrow> job \<Rightarrow> job" where
  "gebrm_job_set_total_tasks n jb = jb\<lparr>total := n\<rparr>"

definition gebrm_job_set_run_type :: "cstr \<Rightarrow> job \<Rightarrow> job" where
  "gebrm_job_set_run_type s jb = jb\<lparr>run_type := s\<rparr>"

definition gebrm_job_set_mpi_owner :: "cstr \<Rightarrow> job \<Rightarrow> job" where
  "gebrm_job_set_mpi_owner s jb = jb\<lparr>mpi_owner := s\<rparr>"

definition gebrm_job_set_mpi_flavor :: "cstr \<Rightarrow> job \<Rightarrow> job" where
  "gebrm_job_set_mpi_flavor s jb = jb\<lparr>mpi_flavor := s\<rparr>"

definition gebrm_job_set_snapshot_title :: "cstr \<Rightarrow> job \<Rightarrow> job" where
  "gebrm_job_set_snapshot_title s jb = jb\<lparr>info := (info jb)\<lparr>info_snapshot_title := s\<rparr>\<rparr>"

definition gebrm_job_set_snapshot_id :: "cstr \<Rightarrow> job \<Rightarrow> job" where
  "gebrm_job_set_snapshot_id s jb = jb\<lparr>info := (info jb)\<lparr>info_snapshot_id := s\<rparr>\<rparr>"

definition gebrm_job_set_job_counter :: "cstr \<Rightarrow> job \<Rightarrow> job" where
  "gebrm_job_set_job_counter s jb = jb\<lparr>info := (info jb)\<lparr>info_job_counter := s\<rparr>\<rparr>"

section \<open>The callbacks\<close>

lemma daemon_callback_sel [simp]:
  "tasks (gebrm_daemon_on_task_status_change d s w) = tasks w"
  "listeners (gebrm_daemon_on_task_status_change d s w) = listeners w"
  "tasks_map (gebrm_daemon_on_task_status_change d s w) = tasks_map w"
  "trace (gebrm_daemon_on_task_status_change d s w) = trace w"
  "jobs (gebrm_daemon_on_task_status_change d s w) = jobs w"
  by (cases s; simp add: gebrm_daemon_on_task_status_change_def)+

lemma job_status_to_sel [simp]:
  "tasks (job_status_to j new p w) = tasks w" "listeners (job_status_to j new p w) = listeners w"
  "tasks_map (job_status_to j new p w) = tasks_map w"
  "uncompleted_tasks (job_status_to j new p w) = uncompleted_tasks w"
  "trace (job_status_to j new p w) = trace w @ [JobStatusChange j (status (jobs w j)) new p]"
  "jobs (job_status_to j new p w) = (jobs w)(j := (jobs w j)\<lparr>status := new\<rparr>)"
  by (simp_all add: job_status_to_def)

lemma change_task_status_sel [simp]:
  "tasks (gebrm_job_change_task_status t old new p j w) = tasks w"
  "listeners (gebrm_job_change_task_status t old new p j w) = listeners w"
  "tasks_map (gebrm_job_change_task_status t old new p j w) = tasks_map w"
  by (cases new; simp add: gebrm_job_change_task_status_def Let_def)+

interpretation job_run: status_callbacks run_listener
proof unfold_locales
  show "tasks (run_listener l t old new p w) = tasks w" for l t old new p w
    by (cases l) simp_all
  show "listeners (run_listener l t old new p w) = listeners w" for l t old new p w
    by (cases l) simp_all
  show "tasks_map (run_listener l t old new p w) = tasks_map w" for l t old new p w
    by (cases l) simp_all
qed

section \<open>What the clients see\<close>

text \<open>
  A client knows a job by its signals. \<open>replay\<close> reads a part of the trace from a known status: a
  change must start from the status known so far, and a disconnected job is unknown again.
\<close>

fun replay :: "job_ref \<Rightarrow> comm_job_status \<Rightarrow> maestro_event list \<Rightarrow> comm_job_status option" where
  "replay j s [] = Some s"
| "replay j s (JobStatusChange i old new p # es) =
     (if i = j then (if old = s then replay j new es else None) else replay j s es)"
| "replay j s (JobDisconnect i # es) = replay j (if i = j then JOB_STATUS_INITIAL else s) es"
| "replay j s (_ # es) = replay j s es"

fun issued_events :: "job_ref \<Rightarrow> maestro_event list \<Rightarrow> nat" where
  "issued_events j [] = 0"
| "issued_events j (JobIssued i p # es) = (if i = j then 1 else 0) + issued_events j es"
| "issued_events j (_ # es) = issued_events j es"

lemma replay_append: "replay j s (es @ fs) = Option.bind (replay j s es) (\<lambda>r. replay j r fs)"
  by (induction j s es rule: replay.induct) auto

lemma issued_append: "issued_events j (es @ fs) = issued_events j es + issued_events j fs"
  by (induction j es rule: issued_events.induct) auto

text \<open>
  The relation between the worlds before and after an operation: the trace grows by events whose
  replay leads every job from its old status to its new one, and that hold as many ISSUED signals of
  a job as its flag allows.
\<close>

definition job_log :: "'w job_world_scheme \<Rightarrow> 'w job_world_scheme \<Rightarrow> bool" where
  "job_log w w' \<longleftrightarrow>
     (\<exists>es. trace w' = trace w @ es \<and>
           (\<forall>j. replay j (status (jobs w j)) es = Some (status (jobs w' j)) \<and>
                of_bool (has_issued (jobs w j)) + issued_events j es
                  = (of_bool (has_issued (jobs w' j)) :: nat)))"

lemma job_log_refl [simp]: "job_log w w"
  unfolding job_log_def by (rule exI [of _ "[]"]) simp

lemma job_log_trans: "job_log u v \<Longrightarrow> job_log v w \<Longrightarrow> job_log u w"
proof -
  assume "job_log u v" "job_log v w"
  then obtain es fs where "trace v = trace u @ es" "trace w = trace v @ fs"
    and es: "\<And>j. replay j (status (jobs u j)) es = Some (status (jobs v j)) \<and>
      of_bool (has_issued (jobs u j)) + issued_events j es = (of_bool (has_issued (jobs v j)) :: nat)"
    and fs: "\<And>j. replay j (status (jobs v j)) fs = Some (status (jobs w j)) \<and>
      of_bool (has_issued (jobs v j)) + issued_events j fs = (of_bool (has_issued (jobs w j)) :: nat)"
    unfolding job_log_def by blast
  then have "trace w = trace u @ (es @ fs)" by simp
  moreover have "replay j (status (jobs u j)) (es @ fs) = Some (status (jobs w j)) \<and>
      of_bool (has_issued (jobs u j)) + issued_events j (es @ fs) = (of_bool (has_issued (jobs w j)) :: nat)" for j
    using es [of j] fs [of j] by (simp add: replay_append issued_append)
  ultimately show ?thesis unfolding job_log_def by blast
qed

text \<open>Steps that leave the status and the flags alone and emit at most one neutral event.\<close>

lemma job_log_same:
  "trace w' = trace w \<Longrightarrow> (\<And>j. status (jobs w' j) = status (jobs w j)) \<Longrightarrow>
   (\<And>j. has_issued (jobs w' j) = has_issued (jobs w j)) \<Longrightarrow> job_log w w'"
  unfolding job_log_def by (rule exI [of _ "[]"]) simp

lemma job_log_one:
  "trace w' = trace w @ [e] \<Longrightarrow>
   (\<And>j. replay j (status (jobs w j)) [e] = Some (status (jobs w' j))) \<Longrightarrow>
   (\<And>j. of_bool (has_issued (jobs w j)) + issued_events j [e] = (of_bool (has_issued (jobs w' j)) :: nat)) \<Longrightarrow>
   job_log w w'"
  unfolding job_log_def by (rule exI [of _ "[e]"]) simp

lemma job_log_kill [intro]: "job_log w (gebrm_task_kill t w)"
  by (rule job_log_one, rule gebrm_task_kill_sel(4)) simp_all

lemma job_log_status_to [intro]: "job_log w (job_status_to j new p w)"
  by (rule job_log_one [OF job_status_to_sel(5)]) simp_all

lemma job_log_fold: "(\<And>x w. job_log w (f x w)) \<Longrightarrow> job_log w (fold f xs w)"
  by (induction xs arbitrary: w) (auto intro: job_log_trans)

lemma job_log_change [intro]: "job_log w (gebrm_job_change_task_status t old new p j w)"
proof -
  have "job_log w (log_event (JobIssued j p) (set_job j ((jobs w j)\<lparr>has_issued := True\<rparr>) w))"
    if "\<not> has_issued (jobs w j)"
    by (rule job_log_one, simp) (use that in auto)
  then show ?thesis
    by (cases new) (auto simp: gebrm_job_change_task_status_def Let_def)
qed

lemma job_log_listener [intro]: "job_log w (run_listener l t old new p w)"
  by (cases l) (auto intro: job_log_same)

lemma job_log_emit [intro]: "job_log w (gebrm_task_emit_status_changed_signal run_listener now t new p w)"
  unfolding gebrm_task_emit_status_changed_signal_def Let_def
  by (auto split: prod.split intro!: job_log_trans [OF job_log_same job_log_fold])

lemma job_log_destroy [intro]: "job_log w (on_task_destroy j t w)"
proof -
  let ?ts = "remove1 t (job_tasks (jobs w j))"
  let ?w1 = "set_job j ((jobs w j)\<lparr>status := JOB_STATUS_INITIAL, job_tasks := ?ts\<rparr>) w"
  have "job_log w (log_event (JobDisconnect j) ?w1)"
    by (rule job_log_one, simp) simp_all
  moreover have "job_log w (log_event (JobStatusChange j (status (jobs w j)) JOB_STATUS_INITIAL (Some [])) ?w1)"
    by (rule job_log_one, simp) simp_all
  moreover have "job_log w ?w1" if "status (jobs w j) = JOB_STATUS_INITIAL"
    using that by (intro job_log_same) simp_all
  ultimately show ?thesis
    by (cases "?ts = []") (simp_all add: on_task_destroy_def Let_def split del: if_split, simp_all)
qed

lemma job_log_kill_tasks [intro]: "job_log w (gebrm_job_kill j w)"
  by (auto simp: gebrm_job_kill_def gebrm_job_kill_tasks_def intro: job_log_fold)

lemma fold_kill_jobs: "jobs (fold gebrm_task_kill ts w) = jobs w"
  by (induction ts arbitrary: w) simp_all

lemma job_kill_jobs [simp]: "jobs (gebrm_job_kill j w) = jobs w"
  by (simp add: gebrm_job_kill_def gebrm_job_kill_tasks_def fold_kill_jobs)

lemma job_log_kill_immediately [intro]: "job_log w (gebrm_job_kill_immediately now j w)"
proof -
  have "job_log (gebrm_job_kill j w) (gebrm_job_kill_immediately now j w)"
    by (rule job_log_one [where e = "JobStatusChange j (status (jobs w j)) JOB_STATUS_CANCELED (Some now)"])
      (simp_all add: gebrm_job_kill_immediately_def Let_def)
  then show ?thesis using job_log_kill_tasks job_log_trans by blast
qed

lemma job_log_unqueue [intro]: "job_log w (gebrm_job_unqueue now j w)"
proof (cases "status (jobs w j) = JOB_STATUS_QUEUED")
  case True
  then show ?thesis
    unfolding gebrm_job_unqueue_def by (simp, intro job_log_one, simp) auto
qed (simp add: gebrm_job_unqueue_def)


lemma job_log_append [intro]: "job_log w (gebrm_job_append_task now j t w)"
proof -
  define w1 where "w1 = set_job j ((jobs w j)\<lparr>job_tasks := t # job_tasks (jobs w j)\<rparr>) w"
  define w2 where "w2 = w1\<lparr>listeners := (listeners w1)(t := listeners w1 t @ [JobListener j])\<rparr>"
  define w3 where "w3 = log_event (JobCmdLine j t (cmd_line (tasks w t))) w2"
  define w4 where "w4 = log_event (JobOutput j t (task_output (tasks w t))) w3"
  define w5 where "w5 = (if issues (tasks w t) \<noteq> []
    then gebrm_job_change_task_status t (status (jobs w4 j)) JOB_STATUS_ISSUED (Some (issues (tasks w t))) j w4
    else w4)"
  have 1: "job_log w w2"
    by (rule job_log_same) (simp_all add: w1_def w2_def)
  have 2: "job_log w2 w3" unfolding w3_def by (rule job_log_one, simp) simp_all
  have 3: "job_log w3 w4" unfolding w4_def by (rule job_log_one, simp) simp_all
  have 4: "job_log w4 w5" by (simp add: w5_def job_log_change)
  have 5: "job_log w5 (gebrm_job_append_task now j t w)"
    unfolding gebrm_job_append_task_def Let_def
    by (fold w1_def, fold w2_def, fold w3_def, fold w4_def, fold w5_def)
      (cases "tstatus (tasks w t)"; simp add: job_log_change)
  show ?thesis using 1 2 3 4 5 job_log_trans by blast
qed

section \<open>The life of the maestro's jobs\<close>

text \<open>
  One step: a daemon reports a status, output arrives, a task is defined, a task object is
  destroyed, or the maestro kills, unqueues or closes a job.
\<close>

inductive job_step :: "'w job_world_scheme \<Rightarrow> 'w job_world_scheme \<Rightarrow> bool" where
  report: "job_step w (gebrm_task_emit_status_changed_signal run_listener now t new p w)"
| report_output: "job_step w (gebrm_task_emit_output_signal gebrm_job_append_task_output t out w)"
| new_task: "job_step w (gebrm_job_append_task now j t w)"
| destroy: "job_step w (on_task_destroy j t w)"
| kill_job: "job_step w (gebrm_job_kill j w)"
| kill_now: "job_step w (gebrm_job_kill_immediately now j w)"
| unqueue: "job_step w (gebrm_job_unqueue now j w)"
| close: "job_step w (snd (gebrm_job_close is_logged j w))"

inductive job_steps :: "'w job_world_scheme \<Rightarrow> 'w job_world_scheme \<Rightarrow> bool" where
  job_steps_refl: "job_steps w w"
| job_steps_step: "job_steps u v \<Longrightarrow> job_step v w \<Longrightarrow> job_steps u w"

inductive_cases job_step_cases: "job_step w w'"

lemma job_log_close_task: "job_log w (gebrm_task_close l t r w)"
proof (cases "l (tdaemon (tasks w t))")
  case True
  then show ?thesis
    unfolding gebrm_task_close_def Let_def
    by (intro job_log_one [where e = "DaemonSend (tdaemon (tasks w t)) clr_def [r]"])
      (simp_all add: log_event_def)
next
  case False
  then show ?thesis unfolding gebrm_task_close_def Let_def by (intro job_log_same) simp_all
qed

lemma job_log_output: "job_log w (gebrm_task_emit_output_signal gebrm_job_append_task_output t out w)"
proof -
  have "job_log v ((case l of JobListener j \<Rightarrow> gebrm_job_append_task_output j t out | DaemonListener d \<Rightarrow> id) v)"
    for l and v :: "'a job_world_scheme"
  proof (cases l)
    case (JobListener j)
    have "job_log v (log_event (JobOutput j t out) v)" by (rule job_log_one, simp) simp_all
    with JobListener show ?thesis by (simp add: gebrm_job_append_task_output_def)
  qed simp
  then show ?thesis
    unfolding gebrm_task_emit_output_signal_def
    by (intro job_log_trans [OF job_log_same job_log_fold]) simp_all
qed

lemma job_log_step: "job_step w w' \<Longrightarrow> job_log w w'"
  by (erule job_step_cases) (auto simp: gebrm_job_close_def intro: job_log_fold job_log_close_task job_log_output)

lemma job_log_steps: "job_steps w w' \<Longrightarrow> job_log w w'"
  by (induction rule: job_steps.induct) (auto intro: job_log_trans job_log_step)


section \<open>Finishing\<close>

text \<open>A job is complete when it has all its tasks and all of them are finished.\<close>

definition job_complete :: "job_ref \<Rightarrow> 'w job_world_scheme \<Rightarrow> bool" where
  "job_complete j w \<longleftrightarrow> int (length (job_tasks (jobs w j))) = total (jobs w j) \<and> all_tasks_finished j w"

text \<open>The callbacks keep what completeness depends on, and finish only complete jobs.\<close>

definition finishing :: "'w job_world_scheme \<Rightarrow> 'w job_world_scheme \<Rightarrow> bool" where
  "finishing w w' \<longleftrightarrow> tasks w' = tasks w \<and>
     (\<forall>j. job_tasks (jobs w' j) = job_tasks (jobs w j) \<and> total (jobs w' j) = total (jobs w j) \<and>
          (status (jobs w' j) = JOB_STATUS_FINISHED \<longrightarrow>
             status (jobs w j) = JOB_STATUS_FINISHED \<or> job_complete j w'))"

lemma complete_cong:
  "tasks w' = tasks w \<Longrightarrow> job_tasks (jobs w' j) = job_tasks (jobs w j) \<Longrightarrow>
   total (jobs w' j) = total (jobs w j) \<Longrightarrow> job_complete j w' = job_complete j w"
  by (simp add: job_complete_def all_tasks_finished_def gebrm_task_get_status_def)

lemma finishing_refl [simp]: "finishing w w"
  by (simp add: finishing_def)

lemma finishing_trans: "finishing u v \<Longrightarrow> finishing v w \<Longrightarrow> finishing u w"
  using complete_cong [of w v] unfolding finishing_def by metis

lemma finishing_fold: "(\<And>x w. finishing w (f x w)) \<Longrightarrow> finishing w (fold f xs w)"
  by (induction xs arbitrary: w) (auto intro: finishing_trans)

lemma finishing_same: "tasks w' = tasks w \<Longrightarrow> jobs w' = jobs w \<Longrightarrow> finishing w w'"
  by (simp add: finishing_def)

lemma finishing_status_to:
  "new \<noteq> JOB_STATUS_FINISHED \<or> job_complete j w \<Longrightarrow> finishing w (job_status_to j new p w)"
  using complete_cong [of "job_status_to j new p w" w j] by (auto simp: finishing_def)

lemma finishing_change: "finishing w (gebrm_job_change_task_status t old new p j w)"
proof -
  have "finishing w (log_event (JobIssued j p) (set_job j ((jobs w j)\<lparr>has_issued := True\<rparr>) w))"
    by (simp add: finishing_def)
  then show ?thesis
    by (cases new) (auto simp: gebrm_job_change_task_status_def Let_def job_complete_def
        intro: finishing_same finishing_status_to)
qed

lemma finishing_listener: "finishing w (run_listener l t old new p w)"
  by (cases l) (simp_all add: finishing_change finishing_same)

lemma finishing_kill: "finishing w (gebrm_task_kill t w)"
  by (rule finishing_same) simp_all

lemma finishing_kill_job: "finishing w (gebrm_job_kill j w)"
  by (auto simp: gebrm_job_kill_def gebrm_job_kill_tasks_def intro: finishing_fold finishing_kill)

lemma finishing_close: "finishing w (gebrm_task_close l t r w)"
  by (rule finishing_same) (simp_all add: gebrm_task_close_def Let_def log_event_def)

text \<open>Only the transition matters when an operation first changes the tasks or the job's list.\<close>

definition finish_step :: "'w job_world_scheme \<Rightarrow> 'w job_world_scheme \<Rightarrow> bool" where
  "finish_step w w' \<longleftrightarrow>
     (\<forall>j. status (jobs w' j) = JOB_STATUS_FINISHED \<longrightarrow>
          status (jobs w j) = JOB_STATUS_FINISHED \<or> job_complete j w')"

lemma finish_step_after:
  "(\<And>j. status (jobs v j) = status (jobs w j)) \<Longrightarrow> finishing v w' \<Longrightarrow> finish_step w w'"
  by (auto simp: finish_step_def finishing_def)

lemma finish_step_finishing: "finishing w w' \<Longrightarrow> finish_step w w'"
  by (auto simp: finish_step_def finishing_def)

lemma finish_step_emit:
  "finish_step w (gebrm_task_emit_status_changed_signal run_listener now t new p w)"
proof -
  let ?v = "set_task t (fst (report_status now new p (tasks w t))) w"
  have "finishing ?v (gebrm_task_emit_status_changed_signal run_listener now t new p w)"
    by (auto simp: gebrm_task_emit_status_changed_signal_def Let_def split: prod.split
        intro: finishing_fold finishing_listener)
  then show ?thesis by (rule finish_step_after [rotated]) simp
qed

lemma finish_step_append: "finish_step w (gebrm_job_append_task now j t w)"
proof -
  define w1 where "w1 = set_job j ((jobs w j)\<lparr>job_tasks := t # job_tasks (jobs w j)\<rparr>) w"
  define w4 where "w4 = log_event (JobOutput j t (task_output (tasks w t)))
    (log_event (JobCmdLine j t (cmd_line (tasks w t)))
      (w1\<lparr>listeners := (listeners w1)(t := listeners w1 t @ [JobListener j])\<rparr>))"
  define w5 where "w5 = (if issues (tasks w t) \<noteq> []
    then gebrm_job_change_task_status t (status (jobs w4 j)) JOB_STATUS_ISSUED (Some (issues (tasks w t))) j w4
    else w4)"
  have "finishing w4 w5" by (simp add: w5_def finishing_change)
  moreover have "finishing w5 (gebrm_job_append_task now j t w)"
    unfolding gebrm_job_append_task_def Let_def
    by (fold w1_def, fold w4_def, fold w5_def) (cases "tstatus (tasks w t)"; simp add: finishing_change)
  ultimately have "finishing w4 (gebrm_job_append_task now j t w)" by (rule finishing_trans)
  then show ?thesis by (rule finish_step_after [rotated]) (simp add: w4_def w1_def)
qed

lemma finish_step_step: "job_step w w' \<Longrightarrow> finish_step w w'"
proof (erule job_step_cases)
  fix now t new p
  assume "w' = gebrm_task_emit_status_changed_signal run_listener now t new p w"
  then show ?thesis by (simp add: finish_step_emit)
next
  fix t out
  assume w': "w' = gebrm_task_emit_output_signal gebrm_job_append_task_output t out w"
  let ?v = "set_task t ((tasks w t)\<lparr>task_output := task_output (tasks w t) @ out\<rparr>) w"
  have "finishing u ((case l of JobListener j \<Rightarrow> gebrm_job_append_task_output j t out | DaemonListener d \<Rightarrow> id) u)"
    for l and u :: "'a job_world_scheme"
    by (cases l) (simp_all add: gebrm_job_append_task_output_def finishing_same)
  then have "finishing ?v w'" unfolding w' gebrm_task_emit_output_signal_def by (intro finishing_fold)
  then show ?thesis by (rule finish_step_after [rotated]) simp
next
  fix now j t
  assume "w' = gebrm_job_append_task now j t w"
  then show ?thesis by (simp add: finish_step_append)
next
  fix j t
  assume "w' = on_task_destroy j t w"
  then show ?thesis by (simp add: finish_step_def on_task_destroy_def Let_def)
next
  fix j
  assume "w' = gebrm_job_kill j w"
  then show ?thesis by (simp add: finish_step_finishing finishing_kill_job)
next
  fix now j
  assume "w' = gebrm_job_kill_immediately now j w"
  then show ?thesis by (simp add: finish_step_def gebrm_job_kill_immediately_def Let_def)
next
  fix now j
  assume "w' = gebrm_job_unqueue now j w"
  then show ?thesis by (simp add: finish_step_def gebrm_job_unqueue_def)
next
  fix l j
  assume "w' = snd (gebrm_job_close l j w)"
  then show ?thesis
    by (auto simp: gebrm_job_close_def intro: finish_step_finishing finishing_fold finishing_close)
qed


section \<open>Properties\<close>

lemma issued_at_most_once: "job_log w w' \<Longrightarrow> trace w' = trace w @ es \<Longrightarrow> issued_events j es \<le> 1"
proof -
  assume "job_log w w'" "trace w' = trace w @ es"
  then have "of_bool (has_issued (jobs w j)) + issued_events j es = (of_bool (has_issued (jobs w' j)) :: nat)"
    unfolding job_log_def by auto
  then show ?thesis by (cases "has_issued (jobs w' j)") simp_all
qed

text \<open>
  C30: along every history of reports, new and destroyed tasks, kills and closes, a client that
  replays the signals of a job from the status it had at the beginning always knows its current
  status, each change starts from the status the client knew, and the ISSUED signal of a job is
  emitted at most once.
\<close>

theorem job_signals_faithful:
  assumes "job_steps w w'"
  shows "\<exists>es. trace w' = trace w @ es \<and>
           replay j (status (jobs w j)) es = Some (status (jobs w' j)) \<and> issued_events j es \<le> 1"
proof -
  have log: "job_log w w'" using assms by (rule job_log_steps)
  then obtain es where es: "trace w' = trace w @ es"
    "replay j (status (jobs w j)) es = Some (status (jobs w' j))"
    unfolding job_log_def by blast
  with issued_at_most_once [OF log] show ?thesis by blast
qed

text \<open>
  C31: a job becomes finished in one step of the maestro only when it has as many tasks as it was
  started with and every one of them is finished.
\<close>

theorem job_finished_only_complete:
  assumes "job_step w w'" "status (jobs w j) \<noteq> JOB_STATUS_FINISHED"
    and "status (jobs w' j) = JOB_STATUS_FINISHED"
  shows "int (length (job_tasks (jobs w' j))) = total (jobs w' j) \<and>
         set (job_tasks (jobs w' j)) \<subseteq> {t. tstatus (tasks w' t) = JOB_STATUS_FINISHED}"
  using finish_step_step [OF assms(1)] assms(2,3)
  by (auto simp: finish_step_def job_complete_def all_tasks_finished_def gebrm_task_get_status_def
      list_all_iff)

text \<open>A small world for the examples: job 0 with the tasks 0 and 1 of the daemon 7.\<close>

definition example_job :: job where
  "example_job = gebrm_job_init\<lparr>job_tasks := [1, 0], total := 2, status := JOB_STATUS_RUNNING\<rparr>"

definition example_world :: job_world where
  "example_world =
     \<lparr>tasks = (\<lambda>t. (gebrm_task_init 7 ''3'' (int t))
        \<lparr>tstatus := (if t = 1 then JOB_STATUS_FINISHED else JOB_STATUS_RUNNING),
         start_date := (if t = 1 then ''2012-01-02'' else ''2012-01-01'')\<rparr>),
      tasks_map = Map.empty, listeners = (\<lambda>t. [DaemonListener 7, JobListener 0]),
      uncompleted_tasks = (\<lambda>d. 1), trace = [], jobs = (\<lambda>j. example_job), next_job_id = 1\<rparr>"

definition example_end :: job_world where
  "example_end =
     gebrm_task_emit_status_changed_signal run_listener ''2012-01-03'' 0 JOB_STATUS_FINISHED None example_world"

lemma example_emit: "job_step example_world example_end"
  unfolding example_end_def by (rule job_step.report)

lemma example_eval:
  "status (jobs example_world 0) = JOB_STATUS_RUNNING" "status (jobs example_end 0) = JOB_STATUS_FINISHED"
  "job_tasks (jobs example_end 0) = [1, 0]" "total (jobs example_end 0) = 2"
  by code_simp+

theorem job_signals_faithful_witness:
  "\<exists>es. trace example_end = trace example_world @ es \<and>
        replay 0 (status (jobs example_world 0)) es = Some (status (jobs example_end 0)) \<and>
        issued_events 0 es \<le> 1"
  by (rule job_signals_faithful [OF job_steps_step [OF job_steps_refl example_emit]])

theorem job_finished_only_complete_witness:
  "int (length (job_tasks (jobs example_end 0))) = total (jobs example_end 0) \<and>
   set (job_tasks (jobs example_end 0)) \<subseteq> {t. tstatus (tasks example_end t) = JOB_STATUS_FINISHED}"
  by (rule job_finished_only_complete [OF example_emit]) (simp_all add: example_eval)

text \<open>
  C32: once the other tasks of a job are finished and none is missing, the report that its last task
  finished makes the job finished, emits that one change with the date of the report, and lowers the
  daemon's count of uncompleted tasks.
\<close>

theorem last_report_finishes:
  assumes "listeners w t = [DaemonListener d, JobListener j]"
    and "t \<in> set (job_tasks (jobs w j))" "int (length (job_tasks (jobs w j))) = total (jobs w j)"
    and "\<not> gebrm_job_is_stopped (jobs w j)"
    and "\<forall>u \<in> set (job_tasks (jobs w j)) - {t}. tstatus (tasks w u) = JOB_STATUS_FINISHED"
  shows "let w' = gebrm_task_emit_status_changed_signal run_listener now t JOB_STATUS_FINISHED p w in
         status (jobs w' j) = JOB_STATUS_FINISHED \<and> finish_date (tasks w' t) = now \<and>
         trace w' = trace w @ [JobStatusChange j (status (jobs w j)) JOB_STATUS_FINISHED (Some now)] \<and>
         uncompleted_tasks w' d = uncompleted_tasks w d - 1"
proof -
  let ?tk = "(tasks w t)\<lparr>tstatus := JOB_STATUS_FINISHED, finish_date := now\<rparr>"
  let ?w1 = "gebrm_daemon_on_task_status_change d JOB_STATUS_FINISHED (set_task t ?tk w)"
  have "all_tasks_finished j ?w1"
    using assms(5) by (auto simp: all_tasks_finished_def gebrm_task_get_status_def list_all_iff)
  then have "gebrm_job_change_task_status t old JOB_STATUS_FINISHED (Some now) j ?w1 =
      job_status_to j JOB_STATUS_FINISHED (Some now) ?w1" for old
    using assms(3,4) by (simp add: gebrm_job_change_task_status_def Let_def)
  then have "gebrm_task_emit_status_changed_signal run_listener now t JOB_STATUS_FINISHED p w =
      job_status_to j JOB_STATUS_FINISHED (Some now) ?w1"
    by (simp add: gebrm_task_emit_status_changed_signal_def report_status_def assms(1))
  then show ?thesis by (simp add: gebrm_daemon_on_task_status_change_def)
qed

theorem last_report_witness:
  "let w' = gebrm_task_emit_status_changed_signal run_listener ''2012-01-03'' 0 JOB_STATUS_FINISHED None example_world in
   status (jobs w' 0) = JOB_STATUS_FINISHED \<and> finish_date (tasks w' 0) = ''2012-01-03'' \<and>
   trace w' = trace example_world @
     [JobStatusChange 0 (status (jobs example_world 0)) JOB_STATUS_FINISHED (Some ''2012-01-03'')] \<and>
   uncompleted_tasks w' 7 = uncompleted_tasks example_world 7 - 1"
  by (rule last_report_finishes)
    (auto simp: example_world_def example_job_def gebrm_job_init_def gebrm_job_is_stopped_def)

text \<open>
  A job that failed, finished or was canceled is not changed by later reports of its tasks: the
  jobs stay as they are and the only reaction is the command to the task's daemon to kill it.
\<close>

theorem stopped_job_kills_reporter:
  assumes "listeners w t = [DaemonListener d, JobListener j]" "gebrm_job_is_stopped (jobs w j)"
  shows "let w' = gebrm_task_emit_status_changed_signal run_listener now t new p w in
         jobs w' = jobs w \<and> tstatus (tasks w' t) = new \<and>
         trace w' = trace w @ [DaemonSend (tdaemon (tasks w t)) kil_def [rid (tasks w t)]]"
proof -
  have *: "jobs (gebrm_job_change_task_status t old new q j v) = jobs v"
    "trace (gebrm_job_change_task_status t old new q j v) =
       trace v @ [DaemonSend (tdaemon (tasks v t)) kil_def [rid (tasks v t)]]"
    if "jobs v = jobs w" for old q v
    using that assms(2) by (simp_all add: gebrm_job_change_task_status_def Let_def)
  have "tdaemon (fst (report_status now new p (tasks w t))) = tdaemon (tasks w t)"
    "rid (fst (report_status now new p (tasks w t))) = rid (tasks w t)"
    by (cases new; simp add: report_status_def)+
  then show ?thesis
    by (simp add: gebrm_task_emit_status_changed_signal_def Let_def assms(1) * split: prod.split)
      (metis fst_conv report_status_status)
qed

theorem stopped_job_kills_reporter_witness:
  "let w = set_job_status 0 JOB_STATUS_FAILED example_world;
       w' = gebrm_task_emit_status_changed_signal run_listener ''2012-01-03'' 0 JOB_STATUS_FINISHED None w in
   jobs w' = jobs w \<and> tstatus (tasks w' 0) = JOB_STATUS_FINISHED \<and>
   trace w' = trace w @ [DaemonSend (tdaemon (tasks w 0)) kil_def [rid (tasks w 0)]]"
  using stopped_job_kills_reporter [of "set_job_status 0 JOB_STATUS_FAILED example_world" 0 7 0
    "''2012-01-03''" JOB_STATUS_FINISHED None]
  by (simp add: example_world_def gebrm_job_is_stopped_def)


lemma fold_kill_trace:
  "trace (fold gebrm_task_kill ts w) =
     trace w @ map (\<lambda>t. DaemonSend (tdaemon (tasks w t)) kil_def [rid (tasks w t)]) ts"
  by (induction ts arbitrary: w) simp_all

lemma fold_close:
  "jobs (fold (\<lambda>t. gebrm_task_close l t r) ts w) = jobs w"
  "tasks (fold (\<lambda>t. gebrm_task_close l t r) ts w) = tasks w"
  "trace (fold (\<lambda>t. gebrm_task_close l t r) ts w) =
     trace w @ map (\<lambda>t. DaemonSend (tdaemon (tasks w t)) clr_def [r]) (filter (\<lambda>t. l (tdaemon (tasks w t))) ts)"
  "tasks_map (fold (\<lambda>t. gebrm_task_close l t r) ts w) i =
     (if i \<in> (\<lambda>t. gebrm_task_get_id (tasks w t)) ` set ts then None else tasks_map w i)"
proof -
  have c: "jobs (gebrm_task_close l t r v) = jobs v" "tasks (gebrm_task_close l t r v) = tasks v"
    "trace (gebrm_task_close l t r v) =
       trace v @ (if l (tdaemon (tasks v t)) then [DaemonSend (tdaemon (tasks v t)) clr_def [r]] else [])"
    "tasks_map (gebrm_task_close l t r v) = (tasks_map v)(gebrm_task_get_id (tasks v t) := None)"
    for t and v :: "'a job_world_scheme"
    by (simp_all add: gebrm_task_close_def Let_def log_event_def)
  show "jobs (fold (\<lambda>t. gebrm_task_close l t r) ts w) = jobs w"
    by (induction ts arbitrary: w) (simp_all add: c)
  show "tasks (fold (\<lambda>t. gebrm_task_close l t r) ts w) = tasks w"
    by (induction ts arbitrary: w) (simp_all add: c)
  show "trace (fold (\<lambda>t. gebrm_task_close l t r) ts w) =
     trace w @ map (\<lambda>t. DaemonSend (tdaemon (tasks w t)) clr_def [r]) (filter (\<lambda>t. l (tdaemon (tasks w t))) ts)"
    by (induction ts arbitrary: w) (simp_all add: c)
  show "tasks_map (fold (\<lambda>t. gebrm_task_close l t r) ts w) i =
     (if i \<in> (\<lambda>t. gebrm_task_get_id (tasks w t)) ` set ts then None else tasks_map w i)"
    by (induction ts arbitrary: w) (auto simp: c)
qed

text \<open>
  A job can never be both closed and killed. Killing a killable job sends one KIL per task, to
  the daemon of the task, and nothing else; closing a closable one sends CLR with the job's id for
  every task whose daemon is logged, forgets the ids of all its tasks and of no others, and changes
  no job; an attempt that is not allowed has no effect.
\<close>

theorem kill_or_close:
  "(if gebrm_job_can_kill j w
    then trace (gebrm_job_kill j w) = trace w @
           map (\<lambda>t. DaemonSend (tdaemon (tasks w t)) kil_def [rid (tasks w t)]) (job_tasks (jobs w j)) \<and>
         gebrm_job_close l j w = (False, w)
    else gebrm_job_kill j w = w \<and>
      (if gebrm_job_can_close j w
       then \<exists>w'. gebrm_job_close l j w = (True, w') \<and> jobs w' = jobs w \<and>
              trace w' = trace w @
                map (\<lambda>t. DaemonSend (tdaemon (tasks w t)) clr_def [the (info_id (info (jobs w j)))])
                  (filter (\<lambda>t. l (tdaemon (tasks w t))) (job_tasks (jobs w j))) \<and>
              dom (tasks_map w') =
                dom (tasks_map w) - (\<lambda>t. gebrm_task_get_id (tasks w t)) ` set (job_tasks (jobs w j))
       else gebrm_job_close l j w = (False, w)))"
proof -
  have "\<not> (gebrm_job_can_kill j w \<and> gebrm_job_can_close j w)"
    by (auto simp: gebrm_job_can_kill_def gebrm_job_can_close_def Let_def)
  moreover have "dom (tasks_map (fold (\<lambda>t. gebrm_task_close l t r) ts w)) =
      dom (tasks_map w) - (\<lambda>t. gebrm_task_get_id (tasks w t)) ` set ts" for r ts
    by (auto simp: dom_def fold_close(4) split: if_splits)
  ultimately show ?thesis
    by (simp add: gebrm_job_kill_def gebrm_job_kill_tasks_def fold_kill_trace gebrm_job_close_def fold_close)
qed

text \<open>The scan over dates returns one of them, and none is better.\<close>

lemma date_scan_best:
  assumes "None \<notin> set ds" "\<And>a b c. \<not> better b a \<Longrightarrow> \<not> better c b \<Longrightarrow> \<not> better c a"
    and "\<And>a b. better a b \<Longrightarrow> \<not> better b a" "\<And>a. \<not> better a a"
  shows "b \<noteq> None \<Longrightarrow> \<exists>d \<in> insert b (set ds). date_scan parse better ds b = d \<and>
           (\<forall>e \<in> insert b (set ds). \<not> better (tv_sec (parse e)) (tv_sec (parse d)))"
  using assms(1)
proof (induction ds arbitrary: b)
  case Nil
  then show ?case using assms(4) by simp
next
  case (Cons e ds)
  show ?case
  proof (cases "better (tv_sec (parse e)) (tv_sec (parse b))")
    case True
    then have nb: "\<not> better (tv_sec (parse b)) (tv_sec (parse e))" by (rule assms(3))
    have "e \<noteq> None" "None \<notin> set ds" using Cons.prems by (cases e; auto)+
    from Cons.IH [OF this] obtain d where d: "d \<in> insert e (set ds)" "date_scan parse better ds e = d"
      "\<forall>x \<in> insert e (set ds). \<not> better (tv_sec (parse x)) (tv_sec (parse d))" by blast
    have "\<not> better (tv_sec (parse b)) (tv_sec (parse d))"
      using assms(2) [OF _ nb] d(3) by blast
    with True d Cons.prems show ?thesis by auto
  next
    case False
    from Cons obtain d where d: "d \<in> insert b (set ds)" "date_scan parse better ds b = d"
      "\<forall>x \<in> insert b (set ds). \<not> better (tv_sec (parse x)) (tv_sec (parse d))" by force
    have "\<not> better (tv_sec (parse e)) (tv_sec (parse d))"
      using assms(2) [OF _ False] d(3) by blast
    with False d Cons.prems show ?thesis by auto
  qed
qed

lemma date_scan_first: "date_scan parse better (d # ds) None = date_scan parse better ds d"
  by simp

text \<open>
  When every task of a job has started, the start date of the job is the date of one of its
  tasks and no task started in an earlier second; likewise no task finished in a later second than
  the job's finish date, which is one of its tasks' dates.
\<close>

theorem job_dates_extreme:
  assumes "job_tasks (jobs w j) = t # ts" "\<forall>u \<in> set (t # ts). start_date (tasks w u) \<noteq> []"
  shows "(\<exists>u \<in> set (t # ts). gebrm_job_get_start_date parse j w = Some (start_date (tasks w u)) \<and>
            (\<forall>v \<in> set (t # ts). tv_sec (parse (Some (start_date (tasks w u))))
                                 \<le> tv_sec (parse (Some (start_date (tasks w v)))))) \<and>
         (\<exists>u \<in> set (t # ts). gebrm_job_get_finish_date parse j w = Some (finish_date (tasks w u)) \<and>
            (\<forall>v \<in> set (t # ts). tv_sec (parse (Some (finish_date (tasks w v))))
                                 \<le> tv_sec (parse (Some (finish_date (tasks w u))))))"
proof
  have sd: "map (\<lambda>u. gebrm_task_get_start_date (tasks w u)) (t # ts) = map (\<lambda>u. Some (start_date (tasks w u))) (t # ts)"
    using assms(2) by (auto simp: gebrm_task_get_start_date_def)
  then have start: "gebrm_job_get_start_date parse j w =
      date_scan parse (<) (map (\<lambda>u. Some (start_date (tasks w u))) ts) (Some (start_date (tasks w t)))"
    by (simp only: gebrm_job_get_start_date_def assms(1) list.map date_scan_first)
  have "\<exists>d \<in> insert (Some (start_date (tasks w t))) (set (map (\<lambda>u. Some (start_date (tasks w u))) ts)).
      date_scan parse (<) (map (\<lambda>u. Some (start_date (tasks w u))) ts) (Some (start_date (tasks w t))) = d \<and>
      (\<forall>e \<in> insert (Some (start_date (tasks w t))) (set (map (\<lambda>u. Some (start_date (tasks w u))) ts)).
         \<not> tv_sec (parse e) < tv_sec (parse d))"
    by (rule date_scan_best) auto
  then show "\<exists>u \<in> set (t # ts). gebrm_job_get_start_date parse j w = Some (start_date (tasks w u)) \<and>
            (\<forall>v \<in> set (t # ts). tv_sec (parse (Some (start_date (tasks w u))))
                                 \<le> tv_sec (parse (Some (start_date (tasks w v)))))"
    unfolding start by (auto simp: not_less)
  have fin: "gebrm_job_get_finish_date parse j w =
      date_scan parse (>) (map (\<lambda>u. Some (finish_date (tasks w u))) ts) (Some (finish_date (tasks w t)))"
    by (simp only: gebrm_job_get_finish_date_def gebrm_task_get_finish_date_def assms(1) list.map date_scan_first)
  have "\<exists>d \<in> insert (Some (finish_date (tasks w t))) (set (map (\<lambda>u. Some (finish_date (tasks w u))) ts)).
      date_scan parse (>) (map (\<lambda>u. Some (finish_date (tasks w u))) ts) (Some (finish_date (tasks w t))) = d \<and>
      (\<forall>e \<in> insert (Some (finish_date (tasks w t))) (set (map (\<lambda>u. Some (finish_date (tasks w u))) ts)).
         \<not> tv_sec (parse e) > tv_sec (parse d))"
    by (rule date_scan_best) auto
  then show "\<exists>u \<in> set (t # ts). gebrm_job_get_finish_date parse j w = Some (finish_date (tasks w u)) \<and>
            (\<forall>v \<in> set (t # ts). tv_sec (parse (Some (finish_date (tasks w v))))
                                 \<le> tv_sec (parse (Some (finish_date (tasks w u)))))"
    unfolding fin by (auto simp: not_less)
qed

theorem job_dates_extreme_witness:
  "let parse = (\<lambda>d. \<lparr>tv_sec = int (length (the d)), tv_usec = 0\<rparr>) in
   (\<exists>u \<in> set [1, 0]. gebrm_job_get_start_date parse 0 example_world = Some (start_date (tasks example_world u)) \<and>
            list_all (\<lambda>v. tv_sec (parse (Some (start_date (tasks example_world u))))
                                 \<le> tv_sec (parse (Some (start_date (tasks example_world v))))) [1, 0]) \<and>
   (\<exists>u \<in> set [1, 0]. gebrm_job_get_finish_date parse 0 example_world = Some (finish_date (tasks example_world u)) \<and>
            list_all (\<lambda>v. tv_sec (parse (Some (finish_date (tasks example_world v))))
                                 \<le> tv_sec (parse (Some (finish_date (tasks example_world u))))) [1, 0])"
  unfolding Let_def list_all_iff
  by (rule job_dates_extreme) (simp_all add: example_world_def example_job_def)

end
