(* ===== verification/Comm_Server.thy ===== *)
theory Comm_Server
  imports Complex_Main Comm_Protocol Utils_Path
begin

text \<open>
  The client side of a connection (\<open>libgebr/comm/gebr-comm-server.c\<close>): a machine that is reached
  through a port provider and a protocol socket. The state machine calls its user back on every
  change; the callback and its data are parameters. Processes, providers, SSH sessions and port
  forwards are outside: what the code asks of them is a list of actions, their answers are steps.
\<close>

section \<open>State\<close>

datatype comm_server_type =
  GEBR_COMM_SERVER_TYPE_MOAB | GEBR_COMM_SERVER_TYPE_REGULAR | GEBR_COMM_SERVER_TYPE_UNKNOWN

datatype server_state =
  SERVER_STATE_DISCONNECTED | SERVER_STATE_RUN | SERVER_STATE_REDIRECT | SERVER_STATE_CONNECT
  | SERVER_STATE_LOGGED

datatype server_error =
  SERVER_ERROR_UNKNOWN | SERVER_ERROR_NONE | SERVER_ERROR_CONNECT | SERVER_ERROR_SERVER
  | SERVER_ERROR_SSH | SERVER_ERROR_PROTOCOL_VERSION | SERVER_ERROR_COOKIE

datatype interactive_state = ISTATE_NONE | ISTATE_PASS | ISTATE_QUESTION

datatype port_type = PORT_TYPE_MAESTRO | PORT_TYPE_DAEMON

datatype provider_error =
  ERROR_REDIRECT | ERROR_SSH | ERROR_NOT_FOUND | ERROR_SPAWN | ERROR_PORT | ERROR_UNKNOWN_TYPE
  | ERROR_SFTP_NOT_REQUIRED

datatype comm_socket_error =
  SOCKET_ERROR_UNKNOWN | SOCKET_ERROR_NONE | SOCKET_ERROR_LOOKUP | SOCKET_ERROR_CONNECTION_REFUSED
  | SOCKET_ERROR_SERVER_TIMED_OUT

type_synonym ssh_ref = nat
type_synonym forward_ref = nat

datatype server_action =
  StateChange server_state server_state
  | StartProvider port_type string bool bool cstr
  | SocketConnect int
  | SocketDisconnect
  | SocketWrite string
  | ForwardClose forward_ref
  | SshSetPassword ssh_ref cstr
  | SshPasswordError ssh_ref
  | SshAnswer ssh_ref bool
  | SshRun string
  | PasswordRequest bool
  | QuestionRequest string string
  | StartChannel int string
  | FreeChannel

record server =
  address :: string
  port :: int
  use_public_key :: bool
  password :: cstr
  x11_forward_unix :: bool
  ncores :: int
  clock_cpu :: real
  memory :: cstr
  model_name :: cstr
  state :: server_state
  error :: server_error
  last_error :: string
  protocol :: Comm_Protocol.protocol
  socket_connected :: bool
  is_maestro :: bool
  gebr_id :: cstr
  cookie :: cstr
  gebr_cookie :: cstr
  connection_forward :: "forward_ref option"
  x11_forward :: "forward_ref option"
  istate :: interactive_state
  accepts_key :: bool
  check_host :: bool
  qa_cache :: "(string \<times> string) list"
  pending_connections :: "ssh_ref list"
  actions :: "server_action list"

definition act :: "server_action \<Rightarrow> server \<Rightarrow> server" where
  "act a s = s\<lparr>actions := actions s @ [a]\<rparr>"

text \<open>\<open>gebr_comm_server_init\<close> and \<open>gebr_comm_server_new\<close>; \<open>host\<close> is the local host name.\<close>

definition gebr_comm_server_new :: "string \<Rightarrow> string \<Rightarrow> cstr \<Rightarrow> server" where
  "gebr_comm_server_new host addr gid =
     \<lparr>address = gebr_apply_pattern_on_address host addr, port = 0, use_public_key = False,
      password = None, x11_forward_unix = False, ncores = 0, clock_cpu = 0, memory = None,
      model_name = None, state = SERVER_STATE_DISCONNECTED, error = SERVER_ERROR_NONE,
      last_error = [], protocol = gebr_comm_protocol_new, socket_connected = False,
      is_maestro = False, gebr_id = gid, cookie = None, gebr_cookie = None,
      connection_forward = None, x11_forward = None, istate = ISTATE_NONE, accepts_key = False,
      check_host = True, qa_cache = [], pending_connections = [], actions = []\<rparr>"

section \<open>Strings\<close>

definition gebr_comm_server_get_user :: "string \<Rightarrow> string" where
  "gebr_comm_server_get_user addr = takeWhile (\<lambda>c. c \<noteq> CHR ''@'') addr"

definition gebr_comm_server_get_id :: "string \<Rightarrow> comm_server_type" where
  "gebr_comm_server_get_id name =
     (if name = ''regular'' then GEBR_COMM_SERVER_TYPE_REGULAR
      else if name = ''moab'' then GEBR_COMM_SERVER_TYPE_MOAB
      else GEBR_COMM_SERVER_TYPE_UNKNOWN)"

definition state_hash :: "(server_state \<times> string) list" where
  "state_hash =
     [(SERVER_STATE_DISCONNECTED, ''disconnected''), (SERVER_STATE_RUN, ''run''),
      (SERVER_STATE_REDIRECT, ''redirect''), (SERVER_STATE_CONNECT, ''connect''),
      (SERVER_STATE_LOGGED, ''logged'')]"

definition gebr_comm_server_state_to_string :: "server_state \<Rightarrow> string" where
  "gebr_comm_server_state_to_string s = the (map_of state_hash s)"

definition gebr_comm_server_state_from_string :: "cstr \<Rightarrow> server_state" where
  "gebr_comm_server_state_from_string str =
     (case find (\<lambda>(s, n). Some n = str) state_hash of
        Some (s, n) \<Rightarrow> s
      | None \<Rightarrow> SERVER_STATE_DISCONNECTED)"

definition gebr_comm_server_is_local :: "server \<Rightarrow> bool" where
  "gebr_comm_server_is_local s \<longleftrightarrow> address s = ''127.0.0.1'' \<or> address s = ''localhost''"

text \<open>\<open>gebr_comm_is_local_address\<close> (\<open>libgebr/comm/gebr-comm-utils.c\<close>).\<close>

definition gebr_comm_is_local_address :: "string \<Rightarrow> string \<Rightarrow> string \<Rightarrow> bool" where
  "gebr_comm_is_local_address user_name host_name addr =
     (let user = gebr_get_user_from_address user_name (Some addr);
          host = gebr_get_host_from_address (Some addr)
      in Some user_name = user \<and>
         (host = Some host_name \<or> host = Some ''localhost'' \<or> host = Some ''127.0.0.1''))"

definition gebr_comm_server_get_last_error :: "server \<Rightarrow> string" where
  "gebr_comm_server_get_last_error s = last_error s"

text \<open>\<open>msg\<close> is the formatted message.\<close>

definition gebr_comm_server_set_last_error :: "server_error \<Rightarrow> string \<Rightarrow> server \<Rightarrow> server" where
  "gebr_comm_server_set_last_error e msg s =
     (if e \<noteq> SERVER_ERROR_UNKNOWN then s\<lparr>error := e, last_error := msg\<rparr> else s)"

definition gebr_comm_server_is_logged :: "server \<Rightarrow> bool" where
  "gebr_comm_server_is_logged s = logged (protocol s)"

text \<open>\<open>gebr_comm_protocol_socket_oldmsg_send\<close>: nothing is written on a socket that is not connected.\<close>

definition gebr_comm_protocol_socket_oldmsg_send :: "message_def \<Rightarrow> cstr list \<Rightarrow> server \<Rightarrow> server" where
  "gebr_comm_protocol_socket_oldmsg_send d ps s =
     (if socket_connected s then act (SocketWrite (gebr_comm_protocol_build_messagev d ps)) s else s)"

section \<open>State changes\<close>

text \<open>The user of a server: its \<open>state_changed\<close> callback works on the server and on its own data.\<close>

type_synonym 'c server_user = "server \<times> 'c"

definition on_server :: "(server \<Rightarrow> server) \<Rightarrow> 'c server_user \<Rightarrow> 'c server_user" where
  "on_server f su = (f (fst su), snd su)"

definition close_forward :: "forward_ref option \<Rightarrow> server \<Rightarrow> server" where
  "close_forward f s = (case f of None \<Rightarrow> s | Some r \<Rightarrow> act (ForwardClose r) s)"

text \<open>The process that serves a local display is killed with its object.\<close>

definition gebr_comm_server_free_x11_forward :: "server \<Rightarrow> server" where
  "gebr_comm_server_free_x11_forward s =
     (if x11_forward_unix s then act FreeChannel (s\<lparr>x11_forward_unix := False\<rparr>) else s)"

definition gebr_comm_server_change_state ::
    "('c server_user \<Rightarrow> 'c server_user) \<Rightarrow> server_state \<Rightarrow> 'c server_user \<Rightarrow> 'c server_user" where
  "gebr_comm_server_change_state changed st su =
     (let s = fst su in
      if st = state s then su
      else
        let s1 = act (StateChange (state s) st) s;
            s2 = (if st = SERVER_STATE_DISCONNECTED
                  then (let a = gebr_comm_server_free_x11_forward s1;
                            b = (close_forward (x11_forward a) a)\<lparr>x11_forward := None\<rparr>
                        in (close_forward (connection_forward b) b)\<lparr>connection_forward := None\<rparr>)
                  else s1)
        in changed (s2\<lparr>state := st\<rparr>, snd su))"

definition set_unlogged :: "server \<Rightarrow> server" where
  "set_unlogged s = s\<lparr>port := 0, protocol := (protocol s)\<lparr>logged := False\<rparr>\<rparr>"

definition gebr_comm_server_disconnected_state ::
    "('c server_user \<Rightarrow> 'c server_user) \<Rightarrow> server_error \<Rightarrow> string \<Rightarrow> 'c server_user \<Rightarrow> 'c server_user" where
  "gebr_comm_server_disconnected_state changed e msg su =
     gebr_comm_server_change_state changed SERVER_STATE_DISCONNECTED
       (on_server (set_unlogged \<circ> gebr_comm_server_set_last_error e msg) su)"

definition gebr_comm_server_free_for_reuse ::
    "('c server_user \<Rightarrow> 'c server_user) \<Rightarrow> 'c server_user \<Rightarrow> 'c server_user" where
  "gebr_comm_server_free_for_reuse changed su =
     on_server (\<lambda>s. s\<lparr>protocol := gebr_comm_protocol_reset (protocol s), qa_cache := []\<rparr>)
       (gebr_comm_server_change_state changed SERVER_STATE_DISCONNECTED (on_server set_unlogged su))"

definition gebr_comm_server_connect ::
    "('c server_user \<Rightarrow> 'c server_user) \<Rightarrow> bool \<Rightarrow> bool \<Rightarrow> 'c server_user \<Rightarrow> 'c server_user" where
  "gebr_comm_server_connect changed maestro force_init su =
     (if state (fst su) \<noteq> SERVER_STATE_DISCONNECTED \<and> state (fst su) \<noteq> SERVER_STATE_REDIRECT then su
      else on_server (\<lambda>s.
             act (StartProvider (if maestro then PORT_TYPE_MAESTRO else PORT_TYPE_DAEMON)
                    (address s) force_init (check_host s) (gebr_cookie s))
               (s\<lparr>is_maestro := maestro\<rparr>))
             (gebr_comm_server_change_state changed SERVER_STATE_RUN su))"

text \<open>The stream socket is closed, and its \<open>disconnected\<close> signal is emitted at once.\<close>

definition gebr_comm_server_socket_disconnected ::
    "('c server_user \<Rightarrow> 'c server_user) \<Rightarrow> 'c server_user \<Rightarrow> 'c server_user" where
  "gebr_comm_server_socket_disconnected changed su =
     gebr_comm_server_free_for_reuse changed (on_server (\<lambda>s. s\<lparr>socket_connected := False\<rparr>) su)"

definition gebr_comm_server_disconnect ::
    "('c server_user \<Rightarrow> 'c server_user) \<Rightarrow> 'c server_user \<Rightarrow> 'c server_user" where
  "gebr_comm_server_disconnect changed su =
     (if state (fst su) = SERVER_STATE_CONNECT \<or> state (fst su) = SERVER_STATE_LOGGED
      then gebr_comm_server_socket_disconnected changed (on_server (act SocketDisconnect) su)
      else gebr_comm_server_change_state changed SERVER_STATE_DISCONNECTED su)"

definition gebr_comm_server_set_logged ::
    "('c server_user \<Rightarrow> 'c server_user) \<Rightarrow> 'c server_user \<Rightarrow> 'c server_user" where
  "gebr_comm_server_set_logged changed su =
     gebr_comm_server_change_state changed SERVER_STATE_LOGGED
       (on_server (\<lambda>s. s\<lparr>protocol := (protocol s)\<lparr>logged := True\<rparr>\<rparr>) su)"

section \<open>Events of the provider and of the socket\<close>

definition on_comm_port_defined :: "int \<Rightarrow> forward_ref option \<Rightarrow> server \<Rightarrow> server" where
  "on_comm_port_defined p fwd s = act (SocketConnect p) (s\<lparr>connection_forward := fwd\<rparr>)"

definition on_comm_ssh_error ::
    "('c server_user \<Rightarrow> 'c server_user) \<Rightarrow> provider_error \<Rightarrow> string \<Rightarrow> 'c server_user \<Rightarrow> 'c server_user" where
  "on_comm_ssh_error changed ec msg su =
     (case ec of
        ERROR_REDIRECT \<Rightarrow>
          gebr_comm_server_connect changed True False
            (on_server (\<lambda>s. s\<lparr>address := msg\<rparr>)
              (gebr_comm_server_change_state changed SERVER_STATE_REDIRECT su))
      | ERROR_UNKNOWN_TYPE \<Rightarrow> su
      | ERROR_SFTP_NOT_REQUIRED \<Rightarrow> su
      | _ \<Rightarrow> on_server (\<lambda>s. s\<lparr>password := None\<rparr>)
               (gebr_comm_server_disconnected_state changed SERVER_ERROR_SSH (g_strstrip msg) su))"

definition on_comm_ssh_password :: "ssh_ref \<Rightarrow> bool \<Rightarrow> server \<Rightarrow> server" where
  "on_comm_ssh_password ssh retry s =
     (let s1 = (if retry then s\<lparr>password := None\<rparr> else s) in
      if password s1 \<noteq> None then act (SshSetPassword ssh (password s1)) s1
      else act (PasswordRequest retry)
             (s1\<lparr>istate := ISTATE_PASS, pending_connections := pending_connections s1 @ [ssh]\<rparr>))"

text \<open>\<open>escape\<close> is \<open>g_markup_printf_escaped\<close> on the (untranslated) title.\<close>

definition on_comm_ssh_question :: "(string \<Rightarrow> string) \<Rightarrow> ssh_ref \<Rightarrow> string \<Rightarrow> server \<Rightarrow> server" where
  "on_comm_ssh_question escape ssh question s =
     act (QuestionRequest (escape ''Do you trust this host?'') question)
       (s\<lparr>istate := ISTATE_QUESTION, pending_connections := pending_connections s @ [ssh]\<rparr>)"

definition on_comm_port_accepts_key :: "bool \<Rightarrow> server \<Rightarrow> server" where
  "on_comm_port_accepts_key b s = s\<lparr>accepts_key := b\<rparr>"

text \<open>
  What the machine tells about itself when the socket connects: host, version, protocol version,
  X cookie, time, and whether \<open>gebrm\<close> and \<open>gebrd\<close> are installed.
\<close>

record local_facts =
  f_host :: string
  f_version :: string
  f_protocol_version :: string
  f_xauth_cookie :: cstr
  f_time :: string
  f_gebrm :: bool
  f_gebrd :: bool

definition gebr_comm_server_socket_connected ::
    "('c server_user \<Rightarrow> 'c server_user) \<Rightarrow> local_facts \<Rightarrow> 'c server_user \<Rightarrow> 'c server_user" where
  "gebr_comm_server_socket_connected changed f su =
     on_server (\<lambda>s.
       if is_maestro s then
         (let s1 = s\<lparr>cookie := f_xauth_cookie f\<rparr> in
          gebr_comm_protocol_socket_oldmsg_send ini_def
            [Some (f_host f), Some (f_version f), cookie s1, gebr_id s1, Some (f_time f),
             Some (if f_gebrm f then ''1'' else ''0''), Some (if f_gebrd f then ''1'' else ''0''),
             gebr_cookie s1] s1)
       else gebr_comm_protocol_socket_oldmsg_send ini_def
              [Some (f_protocol_version f), Some (f_host f), gebr_cookie s] s)
     (gebr_comm_server_change_state changed SERVER_STATE_CONNECT
       (on_server (\<lambda>s. s\<lparr>socket_connected := True\<rparr>) su))"

definition gebr_comm_server_socket_error ::
    "('c server_user \<Rightarrow> 'c server_user) \<Rightarrow> comm_socket_error \<Rightarrow> 'c server_user \<Rightarrow> 'c server_user" where
  "gebr_comm_server_socket_error changed e su =
     (case e of
        SOCKET_ERROR_UNKNOWN \<Rightarrow> su
      | SOCKET_ERROR_NONE \<Rightarrow> su
      | _ \<Rightarrow> gebr_comm_server_disconnected_state changed SERVER_ERROR_CONNECT ''Connection refused'' su)"

section \<open>Commands\<close>

text \<open>\<open>ssh_command\<close> is \<open>gebr_comm_get_ssh_command_with_key\<close>.\<close>

definition gebr_comm_server_kill ::
    "string \<Rightarrow> string \<Rightarrow> (bool \<Rightarrow> string) \<Rightarrow> server \<Rightarrow> server" where
  "gebr_comm_server_kill user_name host_name ssh_command s =
     (let bin = (if is_maestro s then ''gebrm'' else ''gebrd'');
          kill = ''fuser -sk -15 $(cat $HOME/.gebr/'' @ bin @ ''/$HOSTNAME/lock)/tcp'';
          cmd = (if gebr_comm_is_local_address user_name host_name (address s)
                 then ''bash -c '' @ [CHR 0x27] @ kill @ [CHR 0x27]
                 else ssh_command (check_host s) @ '' -x '' @ address s @ '' '' @ [CHR 0x27] @ kill @ [CHR 0x27])
      in act (SshRun cmd) s)"

definition on_x11_port_defined :: "int \<Rightarrow> forward_ref option \<Rightarrow> cstr \<Rightarrow> server \<Rightarrow> server" where
  "on_x11_port_defined p fwd display_host s =
     gebr_comm_protocol_socket_oldmsg_send dsp_def [Some (show_int p), display_host]
       (s\<lparr>x11_forward := fwd\<rparr>)"

text \<open>
  The display of the user: a socket file, or a port and a host. A variable \<open>DISPLAY\<close> without a single colon has none; the
  port is an unsigned number of 32 bits.
\<close>

definition gebr_comm_get_display :: "cstr \<Rightarrow> (string \<Rightarrow> bool) \<Rightarrow> cstr \<times> int \<times> cstr" where
  "gebr_comm_get_display display exists =
     (case display of
        None \<Rightarrow> (None, 0, None)
      | Some d \<Rightarrow>
          (case g_strsplit d '':'' (-1) of
             [addr, numb] \<Rightarrow>
               (let tmp = takeWhile (\<lambda>c. c \<noteq> CHR ''.'') numb; p = (atoi tmp + 6000) mod 2 ^ 32; file = ''/tmp/.X11-unix/X'' @ tmp
                in if addr \<noteq> [] then (None, p, Some addr)
                   else if exists file then (Some file, 0, Some ''127.0.0.1'') else (None, p, Some ''127.0.0.1''))
           | _ \<Rightarrow> (None, 0, None)))"

text \<open>
  A socket file is served on a port that is available by a process of its own; \<open>x11_forward_unix\<close> is that process. One
  that runs already is forgotten.
\<close>

definition gebr_comm_server_get_display_port :: "cstr \<times> int \<times> cstr \<Rightarrow> int \<Rightarrow> server \<Rightarrow> (int \<times> cstr) \<times> server" where
  "gebr_comm_server_get_display_port display available s =
     (case display of
        (Some file, _, host) \<Rightarrow> ((available, host), act (StartChannel available file) (s\<lparr>x11_forward_unix := True\<rparr>))
      | (None, p, host) \<Rightarrow> ((p, host), s))"

definition gebr_comm_server_invalid_password :: "server \<Rightarrow> server" where
  "gebr_comm_server_invalid_password s =
     (fold (\<lambda>c. act (SshPasswordError c)) (pending_connections s) s)\<lparr>pending_connections := []\<rparr>"

definition gebr_comm_server_set_password :: "cstr \<Rightarrow> server \<Rightarrow> server" where
  "gebr_comm_server_set_password pass s =
     (fold (\<lambda>c. act (SshSetPassword c pass)) (pending_connections s) (s\<lparr>password := pass\<rparr>))
       \<lparr>pending_connections := []\<rparr>"

definition gebr_comm_server_answer_question :: "bool \<Rightarrow> server \<Rightarrow> server" where
  "gebr_comm_server_answer_question response s =
     (fold (\<lambda>c. act (SshAnswer c response)) (pending_connections s) s)\<lparr>pending_connections := []\<rparr>"

definition gebr_comm_server_set_x11_cookie :: "cstr \<Rightarrow> server \<Rightarrow> server" where
  "gebr_comm_server_set_x11_cookie c s = s\<lparr>cookie := c\<rparr>"

definition gebr_comm_server_set_use_public_key :: "bool \<Rightarrow> server \<Rightarrow> server" where
  "gebr_comm_server_set_use_public_key b s = s\<lparr>use_public_key := b\<rparr>"

definition gebr_comm_server_set_check_host :: "bool \<Rightarrow> server \<Rightarrow> server" where
  "gebr_comm_server_set_check_host b s = s\<lparr>check_host := b\<rparr>"

definition gebr_comm_server_set_cookie :: "cstr \<Rightarrow> server \<Rightarrow> server" where
  "gebr_comm_server_set_cookie c s = s\<lparr>gebr_cookie := c\<rparr>"

section \<open>The state machine\<close>

text \<open>The changes a connection may go through; it may fail at any time.\<close>

fun allowed :: "server_state \<Rightarrow> server_state \<Rightarrow> bool" where
  "allowed s SERVER_STATE_DISCONNECTED = True"
| "allowed s SERVER_STATE_RUN = (s = SERVER_STATE_DISCONNECTED \<or> s = SERVER_STATE_REDIRECT)"
| "allowed s SERVER_STATE_REDIRECT = (s = SERVER_STATE_RUN)"
| "allowed s SERVER_STATE_CONNECT = (s = SERVER_STATE_RUN)"
| "allowed s SERVER_STATE_LOGGED = (s = SERVER_STATE_CONNECT)"

text \<open>The state after the recorded changes, when each starts where the last one ended and is allowed.\<close>

fun run_changes :: "server_state \<Rightarrow> server_action list \<Rightarrow> server_state option" where
  "run_changes s [] = Some s"
| "run_changes s (StateChange a b # as) = (if a = s \<and> allowed a b then run_changes b as else None)"
| "run_changes s (_ # as) = run_changes s as"

lemma run_changes_append: "run_changes s (as @ bs) = Option.bind (run_changes s as) (\<lambda>r. run_changes r bs)"
  by (induction s as rule: run_changes.induct) auto

definition server_ok :: "server \<Rightarrow> bool" where
  "server_ok s \<longleftrightarrow>
     (logged (protocol s) \<longrightarrow> state s = SERVER_STATE_LOGGED) \<and>
     (state s = SERVER_STATE_DISCONNECTED \<longrightarrow>
        connection_forward s = None \<and> x11_forward s = None \<and> \<not> x11_forward_unix s) \<and>
     run_changes SERVER_STATE_DISCONNECTED (actions s) = Some (state s)"

text \<open>
  One step of a connection: a call of its user, or an answer from outside. The guards say when the
  outside answers: a provider defines a port or redirects while the machine is launched, the socket
  connects then, and the log-in message comes over a connected socket.
\<close>

inductive server_step ::
    "('c server_user \<Rightarrow> 'c server_user) \<Rightarrow> 'c server_user \<Rightarrow> 'c server_user \<Rightarrow> bool"
  for changed where
  connect: "server_step changed su (gebr_comm_server_connect changed m fi su)"
| disconnect: "server_step changed su (gebr_comm_server_disconnect changed su)"
| log_in: "state (fst su) = SERVER_STATE_CONNECT \<or> state (fst su) = SERVER_STATE_LOGGED \<Longrightarrow>
    server_step changed su (gebr_comm_server_set_logged changed su)"
| port_defined: "state (fst su) = SERVER_STATE_RUN \<Longrightarrow>
    server_step changed su (on_server (on_comm_port_defined p fwd) su)"
| ssh_error: "ec \<noteq> ERROR_REDIRECT \<or> state (fst su) = SERVER_STATE_RUN \<Longrightarrow>
    server_step changed su (on_comm_ssh_error changed ec msg su)"
| sock_connected: "state (fst su) = SERVER_STATE_RUN \<Longrightarrow>
    server_step changed su (gebr_comm_server_socket_connected changed f su)"
| sock_error: "server_step changed su (gebr_comm_server_socket_error changed e su)"
| sock_disconnected: "server_step changed su (gebr_comm_server_socket_disconnected changed su)"
| ssh_password: "server_step changed su (on_server (on_comm_ssh_password ssh retry) su)"
| ssh_question: "server_step changed su (on_server (on_comm_ssh_question escape ssh q) su)"
| give_password: "server_step changed su (on_server (gebr_comm_server_set_password pass) su)"
| bad_password: "server_step changed su (on_server gebr_comm_server_invalid_password su)"
| answer: "server_step changed su (on_server (gebr_comm_server_answer_question b) su)"
| x11_port: "state (fst su) \<noteq> SERVER_STATE_DISCONNECTED \<Longrightarrow>
    server_step changed su (on_server (on_x11_port_defined p fwd h) su)"
| display: "state (fst su) \<noteq> SERVER_STATE_DISCONNECTED \<Longrightarrow>
    server_step changed su (on_server (snd \<circ> gebr_comm_server_get_display_port (gebr_comm_get_display d exists) available) su)"
| kill: "server_step changed su (on_server (gebr_comm_server_kill u h c) su)"

inductive server_steps ::
    "('c server_user \<Rightarrow> 'c server_user) \<Rightarrow> 'c server_user \<Rightarrow> 'c server_user \<Rightarrow> bool"
  for changed where
  server_steps_refl: "server_steps changed su su"
| server_steps_step: "server_steps changed a b \<Longrightarrow> server_step changed b c \<Longrightarrow> server_steps changed a c"

inductive_cases server_step_cases: "server_step changed su su'"

text \<open>What a step may do to a server without touching its state, for the invariant.\<close>

definition same_core :: "server \<Rightarrow> server \<Rightarrow> bool" where
  "same_core s s' \<longleftrightarrow> state s' = state s \<and> logged (protocol s') = logged (protocol s) \<and>
     connection_forward s' = connection_forward s \<and> x11_forward s' = x11_forward s \<and>
     x11_forward_unix s' = x11_forward_unix s \<and>
     (\<forall>r. run_changes r (actions s') = run_changes r (actions s))"

lemma same_core_refl [simp]: "same_core s s"
  by (simp add: same_core_def)

lemma same_core_trans: "same_core a b \<Longrightarrow> same_core b c \<Longrightarrow> same_core a c"
  by (simp add: same_core_def)

lemma same_core_ok: "same_core s s' \<Longrightarrow> server_ok s' = server_ok s"
  by (auto simp: same_core_def server_ok_def)

definition quiet :: "server_action \<Rightarrow> bool" where
  "quiet a \<longleftrightarrow> (\<forall>x y. a \<noteq> StateChange x y)"

lemma quiet_run: "quiet a \<Longrightarrow> run_changes s [a] = Some s"
  by (cases a) (simp_all add: quiet_def)

lemma act_core: "quiet a \<Longrightarrow> same_core s (act a s)"
  by (auto simp: same_core_def act_def run_changes_append quiet_run split: bind_split)

lemma act_sel [simp]:
  "state (act a s) = state s" "protocol (act a s) = protocol s" "password (act a s) = password s"
  "connection_forward (act a s) = connection_forward s" "x11_forward (act a s) = x11_forward s"
  "x11_forward_unix (act a s) = x11_forward_unix s" "actions (act a s) = actions s @ [a]"
  "pending_connections (act a s) = pending_connections s" "socket_connected (act a s) = socket_connected s"
  "last_error (act a s) = last_error s"
  by (simp_all add: act_def)

lemma fold_act_core: "(\<And>x. quiet (f x)) \<Longrightarrow> same_core s (fold (\<lambda>x. act (f x)) xs s)"
proof (induction xs arbitrary: s)
  case (Cons x xs)
  have "same_core s (act (f x) s)" using Cons.prems by (rule act_core)
  moreover have "same_core (act (f x) s) (fold (\<lambda>x. act (f x)) xs (act (f x) s))"
    using Cons.IH Cons.prems by blast
  ultimately show ?case using same_core_trans by simp
qed simp

lemma send_core: "same_core s (gebr_comm_protocol_socket_oldmsg_send d ps s)"
  by (simp add: gebr_comm_protocol_socket_oldmsg_send_def act_core quiet_def)

lemma close_forward_sel [simp]:
  "state (close_forward r s) = state s" "protocol (close_forward r s) = protocol s"
  "x11_forward_unix (close_forward r s) = x11_forward_unix s"
  "connection_forward (close_forward r s) = connection_forward s"
  "x11_forward (close_forward r s) = x11_forward s"
  "run_changes q (actions (close_forward r s)) = run_changes q (actions s)"
  by (simp_all add: close_forward_def run_changes_append split: option.split bind_split)

lemma unlogged_ok [simp]: "server_ok s \<Longrightarrow> server_ok (set_unlogged s)" "\<not> logged (protocol (set_unlogged s))"
  by (simp_all add: server_ok_def set_unlogged_def)

lemma last_error_ok [simp]: "server_ok (gebr_comm_server_set_last_error e m s) = server_ok s"
  by (simp add: gebr_comm_server_set_last_error_def server_ok_def)

lemma maestro_ok [simp]: "server_ok (s\<lparr>is_maestro := m\<rparr>) = server_ok s"
  by (simp add: server_ok_def)

lemma cookie_ok [simp]: "server_ok (s\<lparr>cookie := m\<rparr>) = server_ok s"
  by (simp add: server_ok_def)

lemma port_defined_ok:
  "server_ok s \<Longrightarrow> state s = SERVER_STATE_RUN \<Longrightarrow> server_ok (on_comm_port_defined p fwd s)"
  by (simp add: on_comm_port_defined_def same_core_ok [OF act_core] quiet_def) (simp add: server_ok_def)

lemma password_core: "same_core s (on_comm_ssh_password ssh retry s)"
  by (auto simp: on_comm_ssh_password_def Let_def same_core_def run_changes_append split: bind_split)

lemma question_core: "same_core s (on_comm_ssh_question escape ssh q s)"
  by (auto simp: on_comm_ssh_question_def same_core_def run_changes_append split: bind_split)

lemma set_password_core: "same_core s (gebr_comm_server_set_password pass s)"
  using fold_act_core [of "\<lambda>c. SshSetPassword c pass" "s\<lparr>password := pass\<rparr>" "pending_connections s"]
  by (simp add: gebr_comm_server_set_password_def quiet_def) (simp add: same_core_def)

lemma invalid_password_core: "same_core s (gebr_comm_server_invalid_password s)"
  using fold_act_core [of SshPasswordError s "pending_connections s"]
  by (simp add: gebr_comm_server_invalid_password_def quiet_def) (simp add: same_core_def)

lemma answer_core: "same_core s (gebr_comm_server_answer_question b s)"
  using fold_act_core [of "\<lambda>c. SshAnswer c b" s "pending_connections s"]
  by (simp add: gebr_comm_server_answer_question_def quiet_def) (simp add: same_core_def)

lemma kill_core: "same_core s (gebr_comm_server_kill u h c s)"
  by (simp add: gebr_comm_server_kill_def Let_def act_core quiet_def)

lemma free_channel_sel:
  "x11_forward_unix (gebr_comm_server_free_x11_forward s) = False" "state (gebr_comm_server_free_x11_forward s) = state s"
  "protocol (gebr_comm_server_free_x11_forward s) = protocol s" "x11_forward (gebr_comm_server_free_x11_forward s) = x11_forward s"
  "connection_forward (gebr_comm_server_free_x11_forward s) = connection_forward s"
  "run_changes r (actions (gebr_comm_server_free_x11_forward s)) = run_changes r (actions s)"
  using act_core [of FreeChannel s]
  by (auto simp: gebr_comm_server_free_x11_forward_def same_core_def quiet_def)

text \<open>The contract of a user: its callback may replace the error of the server, nothing else.\<close>

locale server_callback =
  fixes changed :: "'c server_user \<Rightarrow> 'c server_user"
  assumes keeps: "\<exists>e m. fst (changed su) = (fst su)\<lparr>error := e, last_error := m\<rparr>"
begin

lemma changed_core [simp]: "same_core (fst su) (fst (changed su))"
  using keeps [of su] by (auto simp: same_core_def)

lemma change_state_core:
  assumes "state (fst su) \<noteq> st"
  shows "state (fst (gebr_comm_server_change_state changed st su)) = st"
    and "logged (protocol (fst (gebr_comm_server_change_state changed st su))) = logged (protocol (fst su))"
    and "run_changes r (actions (fst (gebr_comm_server_change_state changed st su))) =
         run_changes r (actions (fst su) @ [StateChange (state (fst su)) st])"
    and "connection_forward (fst (gebr_comm_server_change_state changed st su)) =
         (if st = SERVER_STATE_DISCONNECTED then None else connection_forward (fst su))"
    and "x11_forward (fst (gebr_comm_server_change_state changed st su)) =
         (if st = SERVER_STATE_DISCONNECTED then None else x11_forward (fst su))"
    and "x11_forward_unix (fst (gebr_comm_server_change_state changed st su)) =
         (st \<noteq> SERVER_STATE_DISCONNECTED \<and> x11_forward_unix (fst su))"
  using assms changed_core
  by (auto simp: gebr_comm_server_change_state_def Let_def same_core_def free_channel_sel)

lemma change_state_same: "state (fst su) = st \<Longrightarrow> gebr_comm_server_change_state changed st su = su"
  by (simp add: gebr_comm_server_change_state_def)

lemma change_state_state [simp]: "state (fst (gebr_comm_server_change_state changed st su)) = st"
  using change_state_core(1) [of su st] change_state_same [of su st] by (cases "state (fst su) = st") simp_all

lemma change_state_logged [simp]:
  "logged (protocol (fst (gebr_comm_server_change_state changed st su))) = logged (protocol (fst su))"
  using change_state_core(2) [of su st] change_state_same [of su st]
  by (cases "state (fst su) = st") simp_all

text \<open>An allowed change of an unlogged server, or the log-in, keeps the invariant.\<close>

lemma change_state_ok:
  assumes "server_ok s" "same_core s (fst su)" "allowed (state s) st \<or> state s = st"
    and "st = SERVER_STATE_LOGGED \<or> \<not> logged (protocol s)"
  shows "server_ok (fst (gebr_comm_server_change_state changed st su))"
proof -
  have ok: "server_ok (fst su)" using assms(1,2) by (simp add: same_core_ok)
  have eq: "state (fst su) = state s" "logged (protocol (fst su)) = logged (protocol s)"
    using assms(2) by (auto simp: same_core_def)
  show ?thesis
  proof (cases "state (fst su) = st")
    case True
    with ok show ?thesis by (simp add: change_state_same)
  next
    case False
    with assms(3) eq have "allowed (state (fst su)) st" by auto
    with ok assms(4) eq change_state_core [OF False] show ?thesis
      by (auto simp: server_ok_def run_changes_append)
  qed
qed

lemma disconnected_ok: "server_ok s \<Longrightarrow> same_core s (fst su) \<Longrightarrow> \<not> logged (protocol s) \<Longrightarrow>
  server_ok (fst (gebr_comm_server_change_state changed SERVER_STATE_DISCONNECTED su))"
  by (rule change_state_ok) simp_all

lemma disconnected_state_ok:
  "server_ok (fst su) \<Longrightarrow> server_ok (fst (gebr_comm_server_disconnected_state changed e msg su))"
  unfolding gebr_comm_server_disconnected_state_def
  by (rule disconnected_ok [where s = "fst (on_server (set_unlogged \<circ> gebr_comm_server_set_last_error e msg) su)"])
    (auto simp: on_server_def unlogged_ok last_error_ok)

lemma free_for_reuse_ok:
  assumes "server_ok (fst su)"
  shows "server_ok (fst (gebr_comm_server_free_for_reuse changed su))"
proof -
  have "server_ok (fst (gebr_comm_server_change_state changed SERVER_STATE_DISCONNECTED (on_server set_unlogged su)))"
    by (rule disconnected_ok [where s = "fst (on_server set_unlogged su)"])
      (simp_all add: assms on_server_def unlogged_ok)
  then show ?thesis
    by (auto simp: gebr_comm_server_free_for_reuse_def on_server_def server_ok_def gebr_comm_protocol_reset_def)
qed

lemma socket_disconnected_ok:
  "server_ok (fst su) \<Longrightarrow> server_ok (fst (gebr_comm_server_socket_disconnected changed su))"
  unfolding gebr_comm_server_socket_disconnected_def
  by (rule free_for_reuse_ok) (simp add: on_server_def server_ok_def)

lemma connect_ok: "server_ok (fst su) \<Longrightarrow> server_ok (fst (gebr_comm_server_connect changed m fi su))"
proof (cases "state (fst su) = SERVER_STATE_DISCONNECTED \<or> state (fst su) = SERVER_STATE_REDIRECT")
  case True
  assume ok: "server_ok (fst su)"
  then have "\<not> logged (protocol (fst su))" using True by (auto simp: server_ok_def)
  then have "server_ok (fst (gebr_comm_server_change_state changed SERVER_STATE_RUN su))"
    using True by (intro change_state_ok [OF ok]) auto
  moreover have "gebr_comm_server_connect changed m fi su = on_server
      (\<lambda>s. act (StartProvider (if m then PORT_TYPE_MAESTRO else PORT_TYPE_DAEMON)
                 (address s) fi (check_host s) (gebr_cookie s)) (s\<lparr>is_maestro := m\<rparr>))
      (gebr_comm_server_change_state changed SERVER_STATE_RUN su)"
    unfolding gebr_comm_server_connect_def using True by auto
  ultimately show ?thesis
    by (simp add: on_server_def same_core_ok [OF act_core] quiet_def maestro_ok)
qed (simp add: gebr_comm_server_connect_def)

lemma disconnect_ok:
  assumes "server_ok (fst su)"
  shows "server_ok (fst (gebr_comm_server_disconnect changed su))"
proof (cases "state (fst su) = SERVER_STATE_CONNECT \<or> state (fst su) = SERVER_STATE_LOGGED")
  case True
  have "server_ok (fst (on_server (act SocketDisconnect) su))"
    using assms by (simp add: on_server_def same_core_ok [OF act_core] quiet_def)
  with True show ?thesis
    unfolding gebr_comm_server_disconnect_def by (simp only: if_True socket_disconnected_ok)
next
  case False
  then have "\<not> logged (protocol (fst su))" using assms by (auto simp: server_ok_def)
  with False assms show ?thesis
    unfolding gebr_comm_server_disconnect_def by (simp add: disconnected_ok [where s = "fst su"])
qed

lemma set_logged_ok:
  assumes "server_ok (fst su)" "state (fst su) = SERVER_STATE_CONNECT \<or> state (fst su) = SERVER_STATE_LOGGED"
  shows "server_ok (fst (gebr_comm_server_set_logged changed su))"
proof -
  let ?v = "on_server (\<lambda>s. s\<lparr>protocol := (protocol s)\<lparr>logged := True\<rparr>\<rparr>) su"
  have v: "state (fst ?v) = state (fst su)" "actions (fst ?v) = actions (fst su)"
    by (simp_all add: on_server_def)
  show ?thesis
  proof (cases "state (fst su) = SERVER_STATE_LOGGED")
    case True
    with assms(1) show ?thesis
      by (simp add: gebr_comm_server_set_logged_def change_state_same v) (simp add: server_ok_def on_server_def)
  next
    case False
    then have "state (fst ?v) \<noteq> SERVER_STATE_LOGGED" using v by simp
    from change_state_core [OF this] assms False v show ?thesis
      by (simp add: gebr_comm_server_set_logged_def server_ok_def run_changes_append)
  qed
qed

lemma socket_connected_ok:
  assumes "server_ok (fst su)" "state (fst su) = SERVER_STATE_RUN"
  shows "server_ok (fst (gebr_comm_server_socket_connected changed f su))"
proof -
  let ?v = "on_server (\<lambda>s. s\<lparr>socket_connected := True\<rparr>) su"
  have "same_core (fst su) (fst ?v)" by (simp add: same_core_def on_server_def)
  then have "server_ok (fst (gebr_comm_server_change_state changed SERVER_STATE_CONNECT ?v))"
    using assms by (intro change_state_ok [OF assms(1)]) (auto simp: server_ok_def)
  then show ?thesis
    by (auto simp: gebr_comm_server_socket_connected_def on_server_def Let_def same_core_ok [OF send_core] cookie_ok)
qed

lemma ssh_error_ok:
  assumes "server_ok (fst su)" "ec \<noteq> ERROR_REDIRECT \<or> state (fst su) = SERVER_STATE_RUN"
  shows "server_ok (fst (on_comm_ssh_error changed ec msg su))"
proof (cases "ec = ERROR_REDIRECT")
  case True
  with assms have "server_ok (fst (gebr_comm_server_change_state changed SERVER_STATE_REDIRECT su))"
    by (intro change_state_ok [OF assms(1)]) (auto simp: server_ok_def)
  then have "server_ok (fst (on_server (\<lambda>s. s\<lparr>address := msg\<rparr>)
      (gebr_comm_server_change_state changed SERVER_STATE_REDIRECT su)))"
    by (simp add: on_server_def server_ok_def)
  with True show ?thesis by (simp add: on_comm_ssh_error_def connect_ok)
next
  case False
  have "server_ok (fst (on_server (\<lambda>s. s\<lparr>password := None\<rparr>)
      (gebr_comm_server_disconnected_state changed SERVER_ERROR_SSH (g_strstrip msg) su)))"
    using disconnected_state_ok [OF assms(1)] by (simp add: on_server_def server_ok_def)
  with False assms(1) show ?thesis by (cases ec) (simp_all add: on_comm_ssh_error_def)
qed

lemma step_ok:
  assumes "server_step changed su su'" "server_ok (fst su)"
  shows "server_ok (fst su')"
  using assms
proof (induction rule: server_step.induct)
  case (sock_error su e)
  then show ?case by (cases e) (simp_all add: gebr_comm_server_socket_error_def disconnected_state_ok)
next
  case (x11_port su p fwd h)
  then have "server_ok ((fst su)\<lparr>x11_forward := fwd\<rparr>)" by (simp add: server_ok_def)
  then show ?case by (simp add: on_server_def on_x11_port_defined_def same_core_ok [OF send_core])
next
  case (display su d exists available)
  then have "server_ok ((fst su)\<lparr>x11_forward_unix := True\<rparr>)" by (simp add: server_ok_def)
  then have "server_ok (act (StartChannel p f) ((fst su)\<lparr>x11_forward_unix := True\<rparr>))" for p f
    using act_core [of "StartChannel p f" "(fst su)\<lparr>x11_forward_unix := True\<rparr>"] by (simp add: same_core_ok quiet_def)
  then show ?case using display
    by (auto simp: on_server_def gebr_comm_server_get_display_port_def split: option.split prod.split)
qed (auto simp: on_server_def connect_ok disconnect_ok set_logged_ok ssh_error_ok socket_connected_ok
    socket_disconnected_ok port_defined_ok same_core_ok [OF password_core] same_core_ok [OF question_core]
    same_core_ok [OF set_password_core] same_core_ok [OF invalid_password_core]
    same_core_ok [OF answer_core] same_core_ok [OF kill_core])

lemma steps_ok: "server_steps changed su su' \<Longrightarrow> server_ok (fst su) \<Longrightarrow> server_ok (fst su')"
  by (induction rule: server_steps.induct) (auto intro: step_ok)

end

end
