(* ===== verification/Gebrm_Daemon.thy ===== *)
theory Gebrm_Daemon
  imports Gebrm_Job Comm_Server "HOL-Library.Char_ord" "HOL-Library.List_Lexorder"
begin

text \<open>
  The maestro's side of a daemon (\<open>maestro/gebrm-daemon.c\<close>): the user of a server connection, the
  interpreter of the messages a daemon sends, and the daemon's tags, errors and tasks.
\<close>

section \<open>State\<close>

type_synonym client_ref = nat

record daemon =
  is_initialized :: bool
  is_disconnecting :: bool
  is_canceled :: bool
  reconnect :: bool
  timeout :: int
  daemon_tasks :: "string \<Rightarrow> task_ref option"
  tags :: "string list"
  client :: "client_ref option"
  autoconnect :: cstr
  nfsid :: cstr
  daemon_id :: cstr
  home :: cstr
  last_error_type :: cstr
  error_type :: cstr
  error_msg :: cstr
  mpi_flavors :: cstr
  has_gebrm :: bool

datatype daemon_event =
  StateChangeSignal daemon_ref server_state
  | DaemonInit daemon_ref cstr cstr bool
  | RetPath daemon_ref string string
  | AppendKey daemon_ref
  | ClientSend client_ref message_def "cstr list"
  | ClientReturn client_ref message_def "cstr list"

text \<open>
  The whole world: the jobs, the daemons with their servers, the table of jobs by id (\<open>app->priv->jobs\<close>
  of \<open>maestro/gebrm-app.c\<close>) and the address of the next task object.
\<close>

record maestro = job_world +
  daemons :: "daemon_ref \<Rightarrow> daemon"
  conns :: "daemon_ref \<Rightarrow> server"
  job_table :: "string \<Rightarrow> job_ref option"
  next_task :: task_ref
  daemon_trace :: "daemon_event list"

definition upd_daemon :: "daemon_ref \<Rightarrow> (daemon \<Rightarrow> daemon) \<Rightarrow> maestro \<Rightarrow> maestro" where
  "upd_daemon d f w = w\<lparr>daemons := (daemons w)(d := f (daemons w d))\<rparr>"

definition upd_conn :: "daemon_ref \<Rightarrow> (server \<Rightarrow> server) \<Rightarrow> maestro \<Rightarrow> maestro" where
  "upd_conn d f w = w\<lparr>conns := (conns w)(d := f (conns w d))\<rparr>"

definition emit :: "daemon_event \<Rightarrow> maestro \<Rightarrow> maestro" where
  "emit e w = w\<lparr>daemon_trace := daemon_trace w @ [e]\<rparr>"

text \<open>An operation of the daemon's server, whose user is the daemon.\<close>

definition with_conn ::
    "daemon_ref \<Rightarrow> (maestro server_user \<Rightarrow> maestro server_user) \<Rightarrow> maestro \<Rightarrow> maestro" where
  "with_conn d f w = (let (s, w') = f (conns w d, w) in w'\<lparr>conns := (conns w')(d := s)\<rparr>)"

lemma upd_sel [simp]:
  "daemons (upd_daemon d f w) = (daemons w)(d := f (daemons w d))" "conns (upd_daemon d f w) = conns w"
  "conns (upd_conn d g w) = (conns w)(d := g (conns w d))" "daemons (upd_conn d g w) = daemons w"
  "daemons (emit e w) = daemons w" "conns (emit e w) = conns w"
  "daemon_trace (emit e w) = daemon_trace w @ [e]" "daemon_trace (upd_daemon d f w) = daemon_trace w"
  "daemon_trace (upd_conn d g w) = daemon_trace w"
  "uncompleted_tasks (emit e w) = uncompleted_tasks w" "uncompleted_tasks (upd_daemon d f w) = uncompleted_tasks w"
  "tasks (emit e w) = tasks w" "tasks (upd_conn d g w) = tasks w" "tasks (upd_daemon d f w) = tasks w"
  by (simp_all add: upd_daemon_def upd_conn_def emit_def)

text \<open>\<open>gebrm_daemon_init\<close>\<close>

definition gebrm_daemon_init :: daemon where
  "gebrm_daemon_init =
     \<lparr>is_initialized = False, is_disconnecting = False, is_canceled = False, reconnect = False,
      timeout = - 1, daemon_tasks = Map.empty, tags = [], client = None, autoconnect = Some ''on'',
      nfsid = None, daemon_id = None, home = None, last_error_type = None, error_type = None,
      error_msg = None, mpi_flavors = None, has_gebrm = False\<rparr>"

text \<open>
  \<open>gebrm_daemon_new\<close> with \<open>gebrm_daemon_set_property\<close>: the server is created with a random cookie
  and without checking the host key.
\<close>

definition gebrm_daemon_new :: "string \<Rightarrow> string \<Rightarrow> string \<Rightarrow> daemon_ref \<Rightarrow> maestro \<Rightarrow> maestro" where
  "gebrm_daemon_new host ck addr d w =
     upd_conn d (\<lambda>_. gebr_comm_server_set_check_host False
                       (gebr_comm_server_set_cookie (Some ck) (gebr_comm_server_new host addr None)))
       (upd_daemon d (\<lambda>_. gebrm_daemon_init) w)"

section \<open>Fields\<close>

definition gebrm_daemon_set_error_type :: "cstr \<Rightarrow> daemon \<Rightarrow> daemon" where
  "gebrm_daemon_set_error_type t dm = dm\<lparr>last_error_type := error_type dm, error_type := t\<rparr>"

definition gebrm_daemon_set_error_msg :: "cstr \<Rightarrow> daemon \<Rightarrow> daemon" where
  "gebrm_daemon_set_error_msg m dm = dm\<lparr>error_msg := m\<rparr>"

definition gebrm_daemon_set_nfsid :: "string \<Rightarrow> daemon \<Rightarrow> daemon" where
  "gebrm_daemon_set_nfsid n dm = (if nfsid dm = None then dm\<lparr>nfsid := Some n\<rparr> else dm)"

definition gebrm_daemon_set_id :: "string \<Rightarrow> daemon \<Rightarrow> daemon" where
  "gebrm_daemon_set_id i dm = (if daemon_id dm = None then dm\<lparr>daemon_id := Some i\<rparr> else dm)"

definition gebrm_daemon_set_home_dir :: "string \<Rightarrow> daemon \<Rightarrow> daemon" where
  "gebrm_daemon_set_home_dir h dm = dm\<lparr>home := Some h\<rparr>"

definition gebrm_daemon_set_mpi_flavors :: "cstr \<Rightarrow> daemon \<Rightarrow> daemon" where
  "gebrm_daemon_set_mpi_flavors f dm = dm\<lparr>mpi_flavors := f\<rparr>"

definition gebrm_daemon_set_has_gebrm :: "bool \<Rightarrow> daemon \<Rightarrow> daemon" where
  "gebrm_daemon_set_has_gebrm b dm = dm\<lparr>has_gebrm := b\<rparr>"

definition gebrm_daemon_set_canceled :: "bool \<Rightarrow> daemon \<Rightarrow> daemon" where
  "gebrm_daemon_set_canceled b dm = dm\<lparr>is_canceled := b\<rparr>"

definition gebrm_daemon_set_disconnecting :: "bool \<Rightarrow> daemon \<Rightarrow> daemon" where
  "gebrm_daemon_set_disconnecting b dm = dm\<lparr>is_disconnecting := b\<rparr>"

definition gebrm_daemon_set_reconnect :: "bool \<Rightarrow> daemon \<Rightarrow> daemon" where
  "gebrm_daemon_set_reconnect b dm = dm\<lparr>reconnect := b\<rparr>"

definition gebrm_daemon_set_autoconnect :: "cstr \<Rightarrow> daemon \<Rightarrow> daemon" where
  "gebrm_daemon_set_autoconnect a dm = dm\<lparr>autoconnect := a\<rparr>"

definition gebrm_daemon_set_timeout :: "int \<Rightarrow> daemon \<Rightarrow> daemon" where
  "gebrm_daemon_set_timeout t dm = dm\<lparr>timeout := t\<rparr>"

definition gebrm_daemon_get_state :: "daemon_ref \<Rightarrow> maestro \<Rightarrow> server_state" where
  "gebrm_daemon_get_state d w = state (conns w d)"

definition gebrm_daemon_get_address :: "daemon_ref \<Rightarrow> maestro \<Rightarrow> string" where
  "gebrm_daemon_get_address d w = address (conns w d)"

definition gebrm_daemon_iface_add_task :: "daemon_ref \<Rightarrow> maestro \<Rightarrow> maestro" where
  "gebrm_daemon_iface_add_task d w =
     w\<lparr>uncompleted_tasks := (uncompleted_tasks w)(d := uncompleted_tasks w d + 1)\<rparr>"

definition gebrm_daemon_iface_can_execute :: "daemon_ref \<Rightarrow> maestro \<Rightarrow> bool" where
  "gebrm_daemon_iface_can_execute d w \<longleftrightarrow>
     \<not> (is_disconnecting (daemons w d) \<or> state (conns w d) \<noteq> SERVER_STATE_LOGGED)"

text \<open>
  \<open>g_hash_table_foreach\<close> hands the same \<open>user_data\<close>, by value, to every call of the callback
  \<open>get_jobs\<close>, which assigns the longer list to its own parameter. \<open>ids\<close> are the job ids of the tasks
  in the order of the traversal.
\<close>

definition get_jobs :: "string \<Rightarrow> string list \<Rightarrow> string list" where
  "get_jobs i user_data = i # user_data"

definition foreach_by_value :: "('a \<Rightarrow> 'b \<Rightarrow> 'b) \<Rightarrow> 'a list \<Rightarrow> 'b \<Rightarrow> 'b" where
  "foreach_by_value callback xs user_data = fold (\<lambda>x d. let parameter = callback x d in d) xs user_data"

definition gebrm_daemon_get_list_of_jobs :: "string list \<Rightarrow> string list" where
  "gebrm_daemon_get_list_of_jobs ids = foreach_by_value get_jobs ids []"

section \<open>Tags and flavors\<close>

text \<open>The balanced tree of tags is a sorted list of distinct strings.\<close>

definition gebrm_daemon_add_tag :: "string \<Rightarrow> daemon \<Rightarrow> daemon" where
  "gebrm_daemon_add_tag t dm = dm\<lparr>tags := insort_insert t (tags dm)\<rparr>"

definition gebrm_daemon_update_tags :: "string list option \<Rightarrow> daemon \<Rightarrow> bool \<times> daemon" where
  "gebrm_daemon_update_tags tagsv dm =
     (case tagsv of
        None \<Rightarrow> (False, dm)
      | Some ts \<Rightarrow> (True, fold gebrm_daemon_add_tag ts (dm\<lparr>tags := []\<rparr>)))"

definition gebrm_daemon_has_tag :: "string \<Rightarrow> daemon \<Rightarrow> bool" where
  "gebrm_daemon_has_tag t dm \<longleftrightarrow> t \<in> set (tags dm)"

definition gebrm_daemon_get_tags :: "daemon \<Rightarrow> string" where
  "gebrm_daemon_get_tags dm =
     (let buf = concat (map (\<lambda>t. t @ '','') (tags dm)) in if buf = [] then [] else butlast buf)"

definition gebrm_daemon_has_group :: "string \<Rightarrow> daemon \<Rightarrow> bool" where
  "gebrm_daemon_has_group grp dm \<longleftrightarrow>
     grp = [] \<or> grp \<in> set (g_strsplit (gebrm_daemon_get_tags dm) '','' (- 1))"

definition gebrm_daemon_accepts_mpi :: "string \<Rightarrow> daemon \<Rightarrow> bool" where
  "gebrm_daemon_accepts_mpi flavor dm \<longleftrightarrow>
     (case mpi_flavors dm of None \<Rightarrow> False | Some f \<Rightarrow> flavor \<in> set (g_strsplit f '','' (- 1)))"

section \<open>The user of the connection\<close>

definition gebrm_server_op_state_changed :: "daemon_ref \<Rightarrow> maestro server_user \<Rightarrow> maestro server_user" where
  "gebrm_server_op_state_changed d su =
     (let (s, w) = su in
      if state s = SERVER_STATE_DISCONNECTED then
        (let w1 = (if last_error s \<noteq> []
                   then upd_daemon d (gebrm_daemon_set_error_msg (Some (last_error s))
                                      \<circ> gebrm_daemon_set_error_type (Some ''error:ssh'')) w
                   else w);
             w2 = (upd_daemon d (\<lambda>dm. dm\<lparr>is_initialized := False\<rparr>) w1)
                    \<lparr>uncompleted_tasks := (uncompleted_tasks w1)(d := 0)\<rparr>
         in (s, emit (StateChangeSignal d (state s)) w2))
      else if state s = SERVER_STATE_CONNECT then
        (gebr_comm_server_set_last_error SERVER_ERROR_NONE [] s,
         emit (StateChangeSignal d (state s))
           (upd_daemon d (gebrm_daemon_set_error_msg None \<circ> gebrm_daemon_set_error_type None) w))
      else (s, emit (StateChangeSignal d (state s)) w))"

interpretation daemon_conn: server_callback "gebrm_server_op_state_changed d" for d
proof
  fix su :: "maestro server_user"
  obtain s w where su: "su = (s, w)" by (cases su)
  have eq: "fst (gebrm_server_op_state_changed d su) =
      (fst su)\<lparr>error := (if state s = SERVER_STATE_CONNECT then SERVER_ERROR_NONE else error s),
        last_error := (if state s = SERVER_STATE_CONNECT then [] else last_error s)\<rparr>"
    by (simp add: su gebrm_server_op_state_changed_def Let_def gebr_comm_server_set_last_error_def)
  show "\<exists>e m. fst (gebrm_server_op_state_changed d su) = (fst su)\<lparr>error := e, last_error := m\<rparr>"
    by (rule exI, rule exI, rule eq)
qed

section \<open>Commands\<close>

definition gebrm_daemon_connect :: "daemon_ref \<Rightarrow> client_ref option \<Rightarrow> maestro \<Rightarrow> maestro" where
  "gebrm_daemon_connect d cl w =
     with_conn d (gebr_comm_server_connect (gebrm_server_op_state_changed d) False False)
       (if cl = None then w else upd_daemon d (\<lambda>dm. dm\<lparr>client := cl\<rparr>) w)"

definition gebrm_daemon_disconnect :: "daemon_ref \<Rightarrow> maestro \<Rightarrow> maestro" where
  "gebrm_daemon_disconnect d w =
     with_conn d (gebr_comm_server_disconnect (gebrm_server_op_state_changed d))
       (upd_conn d (gebr_comm_protocol_socket_oldmsg_send harakiri_def [])
         (upd_daemon d (\<lambda>dm. dm\<lparr>nfsid := None, daemon_id := None\<rparr>) w))"

definition gebrm_daemon_invalid_password :: "daemon_ref \<Rightarrow> maestro \<Rightarrow> maestro" where
  "gebrm_daemon_invalid_password d w =
     gebrm_daemon_disconnect d
       (upd_daemon d (gebrm_daemon_set_canceled True
           \<circ> gebrm_daemon_set_error_msg (Some ''Please, type the password to connect.'')
           \<circ> gebrm_daemon_set_error_type (Some ''error:ssh''))
         (upd_conn d gebr_comm_server_invalid_password w))"

definition gebrm_daemon_set_password :: "daemon_ref \<Rightarrow> cstr \<Rightarrow> maestro \<Rightarrow> maestro" where
  "gebrm_daemon_set_password d pass w =
     (if pass = None then w else upd_conn d (gebr_comm_server_set_password pass) w)"

definition gebrm_daemon_list_tasks_and_forward_x :: "daemon_ref \<Rightarrow> maestro \<Rightarrow> maestro" where
  "gebrm_daemon_list_tasks_and_forward_x d w =
     upd_conn d (gebr_comm_protocol_socket_oldmsg_send lst_def []) w"

definition gebrm_daemon_answer_question :: "daemon_ref \<Rightarrow> cstr \<Rightarrow> maestro \<Rightarrow> maestro" where
  "gebrm_daemon_answer_question d resp w =
     upd_conn d (gebr_comm_server_answer_question (resp = Some ''true'')) w"

definition gebrm_daemon_send_client_info ::
    "daemon_ref \<Rightarrow> cstr \<Rightarrow> cstr \<Rightarrow> cstr \<Rightarrow> int \<Rightarrow> maestro \<Rightarrow> maestro" where
  "gebrm_daemon_send_client_info d i ck host display_port w =
     upd_conn d (gebr_comm_protocol_socket_oldmsg_send gid_def [i, ck, host, Some (show_int display_port)]) w"

definition gebrm_daemon_send_error_message :: "daemon_ref \<Rightarrow> client_ref \<Rightarrow> maestro \<Rightarrow> maestro" where
  "gebrm_daemon_send_error_message d socket w =
     (let st = state (conns w d); et = error_type (daemons w d) in
      if (st = SERVER_STATE_DISCONNECTED \<and> et = Some ''error:ssh'') \<or>
         (st = SERVER_STATE_DISCONNECTED \<and> et = Some ''error:stop'') \<or>
         ((st = SERVER_STATE_CONNECT \<or> st = SERVER_STATE_LOGGED) \<and> et \<noteq> Some ''error:ssh'')
      then emit (ClientSend socket err_def
                   [Some (address (conns w d)), Some ''daemon'', et, error_msg (daemons w d)]) w
      else w)"

definition on_password_request :: "daemon_ref \<Rightarrow> bool \<Rightarrow> maestro \<Rightarrow> maestro" where
  "on_password_request d retry w =
     (case client (daemons w d) of
        None \<Rightarrow> w
      | Some c \<Rightarrow> emit (ClientSend c pss_def
            [Some (address (conns w d)), Some (if accepts_key (conns w d) then ''yes'' else ''no''),
             Some (if retry then ''yes'' else ''no'')]) w)"

definition on_question_request :: "daemon_ref \<Rightarrow> string \<Rightarrow> string \<Rightarrow> maestro \<Rightarrow> maestro" where
  "on_question_request d title question w =
     (case client (daemons w d) of
        None \<Rightarrow> w
      | Some c \<Rightarrow> emit (ClientSend c qst_def [Some (address (conns w d)), Some title, Some question]) w)"

section \<open>Messages of the daemon\<close>

text \<open>
  \<open>MsgError\<close> is the \<open>goto err\<close> of a message whose arguments cannot be split; \<open>MsgCrash\<close> is C behaviour
  without a meaning: the task of an unknown id is NULL and its members are read.
\<close>

datatype msg_error = MsgError | MsgCrash

text \<open>\<open>gebrm_app_job_controller_find\<close> and \<open>gebrm_app_job_controller_on_task_def\<close> (\<open>maestro/gebrm-app.c\<close>).\<close>

definition gebrm_app_job_controller_find :: "string \<Rightarrow> maestro \<Rightarrow> job_ref option" where
  "gebrm_app_job_controller_find i w = job_table w i"

definition gebrm_app_job_controller_on_task_def :: "string \<Rightarrow> task_ref \<Rightarrow> maestro \<Rightarrow> maestro" where
  "gebrm_app_job_controller_on_task_def now t w =
     (case gebrm_app_job_controller_find (rid (tasks w t)) w of
        None \<Rightarrow> w
      | Some j \<Rightarrow> gebrm_job_append_task now j t w)"

text \<open>What the environment supplies: the date, \<open>atof\<close>, and the command that installs the key.\<close>

record environment =
  e_now :: string
  e_atof :: "string \<Rightarrow> real"
  e_append_key_command :: "server \<Rightarrow> string"

definition split_args :: "string \<Rightarrow> nat \<Rightarrow> msg_error + string list" where
  "split_args a n =
     (case gebr_comm_protocol_split_new a n of
        Inr xs \<Rightarrow> Inr xs
      | Inl SplitRejected \<Rightarrow> Inl MsgError
      | Inl SplitUndefined \<Rightarrow> Inl MsgCrash)"

text \<open>The return of INI: the daemon is logged in and describes itself.\<close>

definition daemon_ini :: "environment \<Rightarrow> daemon_ref \<Rightarrow> string list \<Rightarrow> maestro \<Rightarrow> maestro" where
  "daemon_ini env d as w =
     (let w1 = with_conn d (gebr_comm_server_set_logged (gebrm_server_op_state_changed d)) w;
          w2 = upd_daemon d (\<lambda>dm. dm\<lparr>is_initialized := True\<rparr>) w1;
          w3 = upd_conn d (\<lambda>s. s\<lparr>protocol := (protocol s)\<lparr>hostname := as ! 0\<rparr>, model_name := Some (as ! 3),
                                 memory := Some (as ! 4), ncores := atoi (as ! 6),
                                 clock_cpu := e_atof env (as ! 7)\<rparr>) w2;
          w4 = upd_daemon d (gebrm_daemon_set_mpi_flavors (Some (as ! 10))
                 \<circ> gebrm_daemon_set_has_gebrm (atoi (as ! 11) \<noteq> 0)
                 \<circ> gebrm_daemon_set_home_dir (as ! 9)
                 \<circ> gebrm_daemon_set_id (as ! 8)
                 \<circ> gebrm_daemon_set_nfsid (as ! 5)) w3;
          w5 = (if use_public_key (conns w4 d)
                then upd_conn d (\<lambda>s. act (SshRun (e_append_key_command env s)) s) w4 else w4)
      in emit (DaemonInit d None None (has_gebrm (daemons w5 d))) w5)"

definition daemon_task :: "environment \<Rightarrow> daemon_ref \<Rightarrow> string list \<Rightarrow> maestro \<Rightarrow> maestro" where
  "daemon_task env d as w =
     (let t = next_task w;
          w1 = gebrm_task_new t d (as ! 0) (as ! 1) (w\<lparr>next_task := t + 1\<rparr>);
          w2 = w1\<lparr>listeners := (listeners w1)(t := listeners w1 t @ [DaemonListener d])\<rparr>;
          w3 = gebrm_task_init_details t (as ! 2) (as ! 3) (as ! 4) w2;
          w4 = upd_daemon d (\<lambda>dm. dm\<lparr>daemon_tasks :=
                 (daemon_tasks dm)(gebrm_task_build_id (as ! 0) (as ! 1) \<mapsto> t)\<rparr>) w3
      in gebrm_app_job_controller_on_task_def (e_now env) t w4)"

definition daemon_output :: "string list \<Rightarrow> maestro \<Rightarrow> msg_error + maestro" where
  "daemon_output as w =
     (case gebrm_task_find (Some (as ! 2)) (Some (as ! 3)) w of
        None \<Rightarrow> Inl MsgCrash
      | Some t \<Rightarrow> Inr (gebrm_task_emit_output_signal gebrm_job_append_task_output t (as ! 1) w))"

definition daemon_status :: "environment \<Rightarrow> string list \<Rightarrow> maestro \<Rightarrow> msg_error + maestro" where
  "daemon_status env as w =
     (case gebrm_task_find (Some (as ! 3)) (Some (as ! 4)) w of
        None \<Rightarrow> Inl MsgCrash
      | Some t \<Rightarrow> Inr (gebrm_task_emit_status_changed_signal run_listener (e_now env) t
                     (gebrm_task_translate_status (as ! 1)) (Some (as ! 2)) w))"

text \<open>One message of the queue.\<close>

definition handle_message :: "environment \<Rightarrow> daemon_ref \<Rightarrow> message \<Rightarrow> maestro \<Rightarrow> msg_error + maestro" where
  "handle_message env d m w =
     (if hash m = code_hash ret_def then
        if ret_hash m = Some (code_hash ini_def) then
          map_sum id (\<lambda>as. daemon_ini env d as w) (split_args (argument m) 12)
        else if ret_hash m = Some (code_hash path_def) then
          map_sum id (\<lambda>as. emit (RetPath d (as ! 0) (as ! 1)) w) (split_args (argument m) 2)
        else Inr w
      else if hash m = code_hash err_def then
        map_sum id (\<lambda>as. if is_initialized (daemons w d) then w
                         else emit (DaemonInit d (Some (as ! 0)) (Some (as ! 1)) False) w)
          (split_args (argument m) 2)
      else if hash m = code_hash tsk_def then
        map_sum id (\<lambda>as. daemon_task env d as w) (split_args (argument m) 5)
      else if hash m = code_hash out_def then
        (case split_args (argument m) 4 of Inl e \<Rightarrow> Inl e | Inr as \<Rightarrow> daemon_output as w)
      else if hash m = code_hash sta_def then
        (case split_args (argument m) 5 of Inl e \<Rightarrow> Inl e | Inr as \<Rightarrow> daemon_status env as w)
      else Inr w)"

definition drop_message :: "daemon_ref \<Rightarrow> maestro \<Rightarrow> maestro" where
  "drop_message d w =
     upd_conn d (\<lambda>s. s\<lparr>protocol := (protocol s)\<lparr>messages := butlast (messages (protocol s))\<rparr>\<rparr>) w"

text \<open>
  \<open>gebrm_server_op_parse_messages\<close>: the oldest message first; the fuel \<open>n\<close> is the length of the
  queue. \<open>None\<close> is the crash.
\<close>

fun parse_loop :: "environment \<Rightarrow> daemon_ref \<Rightarrow> nat \<Rightarrow> maestro \<Rightarrow> maestro option" where
  "parse_loop env d 0 w = Some w"
| "parse_loop env d (Suc n) w =
     (if messages (protocol (conns w d)) = [] then Some w
      else case handle_message env d (last (messages (protocol (conns w d)))) w of
        Inl MsgCrash \<Rightarrow> None
      | Inl MsgError \<Rightarrow>
          Some (with_conn d (gebr_comm_server_disconnect (gebrm_server_op_state_changed d)) (drop_message d w))
      | Inr w1 \<Rightarrow>
          if gebrm_daemon_get_state d w1 = SERVER_STATE_DISCONNECTED then Some w1
          else parse_loop env d n (drop_message d w1))"

definition gebrm_server_op_parse_messages :: "environment \<Rightarrow> daemon_ref \<Rightarrow> maestro \<Rightarrow> maestro option" where
  "gebrm_server_op_parse_messages env d w = parse_loop env d (length (messages (protocol (conns w d)))) w"

section \<open>The queue of messages\<close>

lemma more_simps [simp]:
  "job_world.more (log_event e (w :: 'w job_world_scheme)) = job_world.more w"
  "job_world.more (set_task t tk w) = job_world.more w"
  "job_world.more (set_job j jb w) = job_world.more w"
  "job_world.more (set_job_status j s w) = job_world.more w"
  "job_world.more (job_status_to j s p w) = job_world.more w"
  "job_world.more (gebrm_task_kill t w) = job_world.more w"
  by (simp_all add: log_event_def set_task_def set_job_def set_job_status_def job_status_to_def
      gebrm_task_kill_def)

lemma more_change [simp]:
  "job_world.more (gebrm_job_change_task_status t old new p j w) = job_world.more w"
  by (cases new) (simp_all add: gebrm_job_change_task_status_def Let_def)

lemma more_listener [simp]: "job_world.more (run_listener l t old new p w) = job_world.more w"
proof (cases l)
  case (DaemonListener d)
  then show ?thesis by (cases new) (simp_all add: gebrm_daemon_on_task_status_change_def)
qed simp

lemma more_fold: "(\<And>x w. job_world.more (f x w) = job_world.more w) \<Longrightarrow> job_world.more (fold f xs w) = job_world.more w"
  by (induction xs arbitrary: w) auto

lemma more_emit [simp]:
  "job_world.more (gebrm_task_emit_status_changed_signal run_listener now t new p w) = job_world.more w"
  by (simp add: gebrm_task_emit_status_changed_signal_def Let_def more_fold split: prod.split)

lemma more_output [simp]:
  "job_world.more (gebrm_task_emit_output_signal gebrm_job_append_task_output t out w) = job_world.more w"
  unfolding gebrm_task_emit_output_signal_def
  by (subst more_fold) (auto simp: gebrm_job_append_task_output_def split: listener.split)

lemma more_append [simp]: "job_world.more (gebrm_job_append_task now j t w) = job_world.more w"
  by (simp add: gebrm_job_append_task_def Let_def split: comm_job_status.split)

lemma more_new [simp]: "job_world.more (gebrm_task_new t d r f (w :: 'w job_world_scheme)) = job_world.more w"
  by (simp add: gebrm_task_new_def Let_def set_task_def)

lemma more_details [simp]: "job_world.more (gebrm_task_init_details t a b c (w :: 'w job_world_scheme)) = job_world.more w"
  by (simp add: gebrm_task_init_details_def)

lemma more_eq_sel:
  "job_world.more w' = job_world.more w \<Longrightarrow>
   conns w' = conns w \<and> daemons w' = daemons w \<and> job_table w' = job_table w \<and>
   next_task w' = next_task w \<and> daemon_trace w' = daemon_trace w"
  by (cases w; cases w') simp


lemma job_op_sel [simp]:
  "conns (gebrm_job_append_task now j t w) = conns w"
  "conns (gebrm_task_emit_output_signal gebrm_job_append_task_output t out w) = conns w"
  "conns (gebrm_task_emit_status_changed_signal run_listener now t new p w) = conns w"
  using more_eq_sel [OF more_append [of now j t w]] more_eq_sel [OF more_output [of t out w]]
    more_eq_sel [OF more_emit [of now t new p w]] by simp_all

lemma close_forward_messages [simp]: "messages (protocol (close_forward r s)) = messages (protocol s)"
  by simp

lemma set_logged_messages:
  "messages (protocol (fst (gebr_comm_server_set_logged (gebrm_server_op_state_changed d) su))) =
     messages (protocol (fst su))"
  by (simp add: gebr_comm_server_set_logged_def gebr_comm_server_change_state_def Let_def on_server_def
      gebrm_server_op_state_changed_def)

lemma with_conn_fst: "conns (with_conn d f w) d = fst (f (conns w d, w))"
  by (simp add: with_conn_def split: prod.split)

lemma daemon_ini_messages:
  "messages (protocol (conns (daemon_ini env d as w) d)) = messages (protocol (conns w d))"
  by (simp add: daemon_ini_def Let_def with_conn_fst set_logged_messages)

lemma on_task_def_conns [simp]: "conns (gebrm_app_job_controller_on_task_def now t w) = conns w"
  by (simp add: gebrm_app_job_controller_on_task_def_def split: option.split)

lemma daemon_task_conns [simp]: "conns (daemon_task env d as w) = conns w"
proof -
  have "conns (gebrm_task_init_details t a b c v) = conns v" for t a b c and v :: maestro
    by (simp add: gebrm_task_init_details_def set_task_def)
  moreover have "conns (gebrm_task_new t d r f v) = conns v" for t r f and v :: maestro
    by (simp add: gebrm_task_new_def Let_def set_task_def)
  ultimately show ?thesis by (simp add: daemon_task_def Let_def)
qed

lemma handle_message_queue:
  assumes "handle_message env d m w = Inr w'"
  shows "messages (protocol (conns w' d)) = messages (protocol (conns w d))"
proof -
  have o: "daemon_output as w = Inr w' \<Longrightarrow> conns w' = conns w" for as
    by (auto simp: daemon_output_def split: option.splits)
  have s: "daemon_status env as w = Inr w' \<Longrightarrow> conns w' = conns w" for as
    by (auto simp: daemon_status_def split: option.splits)
  have m: "map_sum id f r = Inr w' \<Longrightarrow> \<exists>as. w' = f as" for f :: "string list \<Rightarrow> maestro" and r :: "msg_error + string list"
    by (cases r) auto
  show ?thesis
    using assms o s unfolding handle_message_def
    by (auto simp: daemon_ini_messages dest!: m split: if_splits sum.splits)
qed

lemma parse_loop_empties:
  assumes "parse_loop env d n w = Some w'" "length (messages (protocol (conns w d))) \<le> n"
    and "state (conns w' d) \<noteq> SERVER_STATE_DISCONNECTED"
  shows "messages (protocol (conns w' d)) = []"
  using assms
proof (induction n arbitrary: w)
  case (Suc n)
  show ?case
  proof (cases "messages (protocol (conns w d)) = []")
    case True
    with Suc.prems show ?thesis by simp
  next
    case False
    let ?h = "handle_message env d (last (messages (protocol (conns w d)))) w"
    show ?thesis
    proof (cases ?h)
      case (Inl e)
      have "state (conns (with_conn d (gebr_comm_server_disconnect (gebrm_server_op_state_changed d)) v) d) =
          SERVER_STATE_DISCONNECTED" for v
        by (simp add: with_conn_fst gebr_comm_server_disconnect_def gebr_comm_server_socket_disconnected_def
            gebr_comm_server_free_for_reuse_def on_server_def)
      with Inl Suc.prems False show ?thesis by (cases e) auto
    next
      case (Inr w1)
      show ?thesis
      proof (cases "state (conns w1 d) = SERVER_STATE_DISCONNECTED")
        case True
        with Inr Suc.prems False show ?thesis by (auto simp: gebrm_daemon_get_state_def)
      next
        case f: False
        have "length (messages (protocol (conns (drop_message d w1) d))) \<le> n"
          using handle_message_queue [OF Inr] Suc.prems(2) False by (simp add: drop_message_def)
        with Suc.IH [of "drop_message d w1"] Inr f False Suc.prems show ?thesis
          by (simp add: gebrm_daemon_get_state_def)
      qed
    qed
  qed
qed simp


section \<open>Properties\<close>


text \<open>A world with one daemon, for the examples.\<close>

definition daemon_world :: maestro where
  "daemon_world = job_world.extend example_world
     \<lparr>daemons = (\<lambda>d. gebrm_daemon_init), conns = (\<lambda>d. gebr_comm_server_new ''h'' ''node'' None),
      job_table = Map.empty, next_task = 5, daemon_trace = []\<rparr>"

definition running_conn :: "maestro server_user" where
  "running_conn = gebr_comm_server_connect (gebrm_server_op_state_changed 0) False False
     (gebr_comm_server_new ''h'' ''node'' None, daemon_world)"

lemma running_conn_state: "state (fst running_conn) = SERVER_STATE_RUN"
  by (simp add: running_conn_def gebr_comm_server_connect_def gebr_comm_server_new_def on_server_def)

text \<open>The display is served while the machine is launched; then it is disconnected.\<close>

definition served_conn :: "maestro server_user" where
  "served_conn =
     on_server (snd \<circ> gebr_comm_server_get_display_port (gebr_comm_get_display (Some '':0'') (\<lambda>_. True)) 6012) running_conn"

lemma served_conn_channel: "x11_forward_unix (fst served_conn)" "state (fst served_conn) = SERVER_STATE_RUN"
proof -
  have "gebr_comm_get_display (Some '':0'') (\<lambda>_. True) = (Some ''/tmp/.X11-unix/X0'', 0, Some ''127.0.0.1'')"
    by code_simp
  then show "x11_forward_unix (fst served_conn)" "state (fst served_conn) = SERVER_STATE_RUN"
    using running_conn_state by (simp_all add: served_conn_def on_server_def gebr_comm_server_get_display_port_def)
qed


text \<open>
  Disconnecting while the machine is being launched does not stop the port provider, and its
  answer is not checked: a port that is defined after the disconnection still connects the socket,
  and the machine that the user disconnected ends in the state CONNECT with an open forward.
\<close>

theorem late_port_reconnects:
  assumes "state (fst su) = SERVER_STATE_RUN"
  shows "let su1 = gebr_comm_server_disconnect (gebrm_server_op_state_changed d) su;
             su2 = on_server (on_comm_port_defined p fwd) su1;
             su3 = gebr_comm_server_socket_connected (gebrm_server_op_state_changed d) f su2
         in state (fst su1) = SERVER_STATE_DISCONNECTED \<and> SocketConnect p \<in> set (actions (fst su2)) \<and>
            state (fst su3) = SERVER_STATE_CONNECT"
proof -
  have a: "state (act a s) = state s" "state (gebr_comm_protocol_socket_oldmsg_send m ps s) = state s" for a m ps s
    by (simp_all add: gebr_comm_protocol_socket_oldmsg_send_def)
  have "state (fst (gebr_comm_server_socket_connected (gebrm_server_op_state_changed d) f v)) = SERVER_STATE_CONNECT" for v
    unfolding gebr_comm_server_socket_connected_def by (simp add: on_server_def Let_def a)
  moreover have "state (fst (gebr_comm_server_disconnect (gebrm_server_op_state_changed d) su)) = SERVER_STATE_DISCONNECTED"
    using assms by (simp add: gebr_comm_server_disconnect_def)
  ultimately show ?thesis by (simp add: on_server_def on_comm_port_defined_def)
qed

theorem late_port_witness:
  "let su1 = gebr_comm_server_disconnect (gebrm_server_op_state_changed 0) running_conn;
       su2 = on_server (on_comm_port_defined 6010 (Some 3)) su1;
       su3 = gebr_comm_server_socket_connected (gebrm_server_op_state_changed 0)
               (local_facts.make ''h'' ''1'' ''2'' None ''t'' True True) su2
   in state (fst su1) = SERVER_STATE_DISCONNECTED \<and> SocketConnect 6010 \<in> set (actions (fst su2)) \<and>
      state (fst su3) = SERVER_STATE_CONNECT"
  by (rule late_port_reconnects) (rule running_conn_state)

text \<open>
  When the connection of a daemon fails over SSH, the maestro knows it afterwards: the server is
  disconnected, the daemon's error is the SSH error with the stripped text, its password is forgotten
  and its tasks are no longer counted, and a client that asks gets exactly that error.
\<close>

theorem ssh_failure_reported:
  assumes "state (conns w d) \<noteq> SERVER_STATE_DISCONNECTED" "g_strstrip msg \<noteq> []"
  shows "let w' = with_conn d (on_comm_ssh_error (gebrm_server_op_state_changed d) ERROR_SSH msg) w in
         state (conns w' d) = SERVER_STATE_DISCONNECTED \<and> password (conns w' d) = None \<and>
         \<not> gebr_comm_server_is_logged (conns w' d) \<and> uncompleted_tasks w' d = 0 \<and>
         daemon_trace (gebrm_daemon_send_error_message d c w') =
           daemon_trace w' @ [ClientSend c err_def
             [Some (address (conns w d)), Some ''daemon'', Some ''error:ssh'', Some (g_strstrip msg)]]"
  using assms
  by (simp add: with_conn_def on_comm_ssh_error_def gebr_comm_server_disconnected_state_def
      gebr_comm_server_change_state_def Let_def on_server_def set_unlogged_def
      gebr_comm_server_set_last_error_def gebr_comm_server_free_x11_forward_def
      gebrm_server_op_state_changed_def gebrm_daemon_send_error_message_def
      gebrm_daemon_set_error_type_def gebrm_daemon_set_error_msg_def gebr_comm_server_is_logged_def
      close_forward_def act_def split: option.split)


theorem ssh_failure_reported_witness:
  "let w = daemon_world\<lparr>conns := (\<lambda>_. fst running_conn)\<rparr>;
       w' = with_conn 0 (on_comm_ssh_error (gebrm_server_op_state_changed 0) ERROR_SSH '' no route '') w in
   state (conns w' 0) = SERVER_STATE_DISCONNECTED \<and> password (conns w' 0) = None \<and>
   \<not> gebr_comm_server_is_logged (conns w' 0) \<and> uncompleted_tasks w' 0 = 0 \<and>
   daemon_trace (gebrm_daemon_send_error_message 0 9 w') =
     daemon_trace w' @ [ClientSend 9 err_def
       [Some (address (conns w 0)), Some ''daemon'', Some ''error:ssh'', Some (g_strstrip '' no route '')]]"
proof -
  have "g_strstrip '' no route '' \<noteq> []" by code_simp
  then show ?thesis
    using ssh_failure_reported [of "daemon_world\<lparr>conns := (\<lambda>_. fst running_conn)\<rparr>" 0 "'' no route ''" 9]
      running_conn_state by (simp add: Let_def)
qed

text \<open>A message of the daemon in the queue of its connection.\<close>

definition queued :: "daemon_ref \<Rightarrow> message_def \<Rightarrow> string list \<Rightarrow> maestro \<Rightarrow> bool" where
  "queued d m ps w \<longleftrightarrow> list_all arg_fits ps \<and>
     messages (protocol (conns w d)) = [delivered m False (build_args (map Some ps))]"

lemma queued_split:
  assumes "queued d m ps w"
  shows "split_args (build_args (map Some ps)) (length ps) = Inr ps"
proof -
  have "list_all (\<lambda>p. arg_fits (nonempty_or [] p)) (map Some ps)"
    using assms by (simp add: queued_def list_all_iff nonempty_or_def)
  from split_loop_build_args [OF this] show ?thesis
    by (simp add: split_args_def gebr_comm_protocol_split_new_def comp_def nonempty_or_def)
qed

lemma delivered_hash: "hash (delivered m False a) = code_hash m"
  by (simp add: delivered_def head_message_def)

lemma sta_hash:
  "code_hash sta_def \<noteq> code_hash ret_def" "code_hash sta_def \<noteq> code_hash err_def"
  "code_hash sta_def \<noteq> code_hash tsk_def" "code_hash sta_def \<noteq> code_hash out_def"
  by (simp_all add: message_defs gebr_comm_message_def_create_def g_str_hash_def signed_code_def code_def)

lemma handle_status:
  assumes "queued d sta_def [jid, st, par, r, f] w"
  shows "handle_message env d (last (messages (protocol (conns w d)))) w = daemon_status env [jid, st, par, r, f] w"
proof -
  have "split_args (build_args (map Some [jid, st, par, r, f])) 5 = Inr [jid, st, par, r, f]"
    using queued_split [OF assms] by (simp add: numeral_eq_Suc del: build_args.simps)
  then show ?thesis
    using assms by (simp add: queued_def handle_message_def delivered_hash sta_hash del: build_args.simps)
qed

text \<open>
  C33: the status message a daemon sends for a task takes effect end to end: once it is in the queue
  of the connection, the maestro reads it, stores the status that the daemon named in the task with
  that run id and fraction (with the date of the end for a finished one), leaves every other task
  alone and empties the queue.
\<close>

theorem status_message_applied:
  assumes "queued d sta_def [jid, gebr_comm_job_get_string_from_status st, par, r, f] w"
    and "tasks_map w (gebrm_task_build_id r f) = Some t"
    and "state (conns w d) \<noteq> SERVER_STATE_DISCONNECTED"
  shows "\<exists>w'. gebrm_server_op_parse_messages env d w = Some w' \<and> tstatus (tasks w' t) = st \<and>
           tasks w' = (tasks w)(t := fst (report_status (e_now env) st (Some par) (tasks w t))) \<and>
           messages (protocol (conns w' d)) = []"
proof -
  let ?st = "gebr_comm_job_get_string_from_status st"
  let ?w1 = "gebrm_task_emit_status_changed_signal run_listener (e_now env) t st (Some par) w"
  have "gebrm_task_translate_status ?st = st"
    by (simp add: translate_status_eq status_string_inverse)
  then have h: "handle_message env d (last (messages (protocol (conns w d)))) w = Inr ?w1"
    using handle_status [OF assms(1)] assms(2) by (simp add: daemon_status_def gebrm_task_find_def)
  have "length (messages (protocol (conns w d))) = 1" "messages (protocol (conns w d)) \<noteq> []"
    using assms(1) by (auto simp: queued_def)
  with h assms(3) have "gebrm_server_op_parse_messages env d w = Some (drop_message d ?w1)"
    by (simp add: gebrm_server_op_parse_messages_def gebrm_daemon_get_state_def)
  moreover have "tasks (drop_message d ?w1) = (tasks w)(t := fst (report_status (e_now env) st (Some par) (tasks w t)))"
    by (simp add: drop_message_def job_run.emit_tasks)
  moreover have "messages (protocol (conns (drop_message d ?w1) d)) = []"
    using assms(1) by (simp add: drop_message_def queued_def)
  moreover have "finish_date (fst (report_status (e_now env) JOB_STATUS_FINISHED (Some par) (tasks w t))) = e_now env"
    by (simp add: report_status_def)
  ultimately show ?thesis by auto
qed

text \<open>
  C35: after a job is closed, its tasks are no longer known by their ids, so a status message that a
  daemon had already sent for one of them makes the maestro read the members of a NULL task.
\<close>

theorem late_status_crashes:
  assumes "gebrm_job_close l j w = (True, w')" "t \<in> set (job_tasks (jobs w j))"
    and "gebrm_task_get_id (tasks w t) = gebrm_task_build_id r f"
    and "queued d sta_def [jid, st, par, r, f] w'"
  shows "gebrm_server_op_parse_messages env d w' = None"
proof -
  have "w' = fold (\<lambda>t. gebrm_task_close l t (the (info_id (info (jobs w j))))) (job_tasks (jobs w j)) w"
    using assms(1) by (simp add: gebrm_job_close_def split: if_splits)
  then have "tasks_map w' (gebrm_task_build_id r f) = None"
    using assms(2,3) by (simp add: fold_close(4)) (metis imageI)
  then have "handle_message env d (last (messages (protocol (conns w' d)))) w' = Inl MsgCrash"
    using handle_status [OF assms(4)] by (simp add: daemon_status_def gebrm_task_find_def)
  moreover have "length (messages (protocol (conns w' d))) = 1" "messages (protocol (conns w' d)) \<noteq> []"
    using assms(4) by (auto simp: queued_def)
  ultimately show ?thesis by (simp add: gebrm_server_op_parse_messages_def)
qed

text \<open>
  The loop over the queue of a connection never stops early: when it ends with the connection
  still up, no message is left.
\<close>

theorem parse_messages_empties_queue:
  assumes "gebrm_server_op_parse_messages env d w = Some w'" "state (conns w' d) \<noteq> SERVER_STATE_DISCONNECTED"
  shows "messages (protocol (conns w' d)) = []"
  using parse_loop_empties [OF assms(1) [unfolded gebrm_server_op_parse_messages_def] order.refl assms(2)] .

text \<open>
  The list of the jobs of a daemon is empty whatever tasks the daemon has, since the list is
  passed by value to the callback that should fill it.
\<close>

lemma list_of_jobs_empty: "gebrm_daemon_get_list_of_jobs ids = []"
  unfolding gebrm_daemon_get_list_of_jobs_def foreach_by_value_def by (induction ids) simp_all

lemma tags_step: "set (tags (gebrm_daemon_add_tag t dm)) = insert t (set (tags dm))"
  by (simp add: gebrm_daemon_add_tag_def set_insort_insert)

lemma fold_tags: "set (tags (fold gebrm_daemon_add_tag ts dm)) = set ts \<union> set (tags dm)"
  by (induction ts arbitrary: dm) (auto simp: tags_step)

lemma tags_joined: "xs \<noteq> [] \<Longrightarrow> butlast (concat (map (\<lambda>t. t @ '','') xs)) = g_strjoinv '','' xs"
  by (induction xs rule: induct_list012) (simp_all add: butlast_append)

text \<open>
  After an update of its tags, a daemon has exactly the given tags, and belongs to exactly the
  groups with one of these names and to the unnamed group, although membership is decided on the
  comma separated text.
\<close>

theorem tags_and_groups:
  assumes "\<forall>t \<in> set ts. CHR '','' \<notin> set t"
  shows "\<exists>dm'. gebrm_daemon_update_tags (Some ts) dm = (True, dm') \<and>
           (\<forall>g. gebrm_daemon_has_tag g dm' \<longleftrightarrow> g \<in> set ts) \<and>
           (\<forall>g. gebrm_daemon_has_group g dm' \<longleftrightarrow> g = [] \<or> g \<in> set ts)"
proof -
  let ?dm = "fold gebrm_daemon_add_tag ts (dm\<lparr>tags := []\<rparr>)"
  have st: "set (tags ?dm) = set ts" by (simp add: fold_tags)
  have "gebrm_daemon_has_group g ?dm \<longleftrightarrow> g = [] \<or> g \<in> set ts" for g
  proof (cases "tags ?dm = []")
    case True
    with st show ?thesis
      by (simp add: gebrm_daemon_has_group_def gebrm_daemon_get_tags_def g_strsplit_def)
  next
    case False
    then have eq: "gebrm_daemon_get_tags ?dm = g_strjoinv '','' (tags ?dm)"
      using tags_joined [OF False] by (simp add: gebrm_daemon_get_tags_def Let_def)
    show ?thesis
    proof (cases "g_strjoinv '','' (tags ?dm) = []")
      case True
      have "tags ?dm = [[]]"
        using True False by (cases "tags ?dm" rule: remdups_adj.cases) auto
      with st have "set ts = {[]}" by simp
      with True eq show ?thesis by (auto simp: gebrm_daemon_has_group_def g_strsplit_def)
    next
      case f: False
      have "g_strsplit (g_strjoinv '','' (tags ?dm)) '','' (- 1) = tags ?dm"
        using assms st False f by (intro strsplit_join_char) auto
      with eq st show ?thesis by (simp add: gebrm_daemon_has_group_def)
    qed
  qed
  with st show ?thesis
    by (simp add: gebrm_daemon_update_tags_def gebrm_daemon_has_tag_def)
qed


definition sta_world :: "string list \<Rightarrow> maestro" where
  "sta_world ps = daemon_world
     \<lparr>tasks_map := [''3:0'' \<mapsto> 0],
      conns := (\<lambda>_. (fst running_conn)\<lparr>protocol := gebr_comm_protocol_new
        \<lparr>messages := [delivered sta_def False (build_args (map Some ps))]\<rparr>\<rparr>)\<rparr>"

lemma sta_world_queued: "list_all arg_fits ps \<Longrightarrow> queued 0 sta_def ps (sta_world ps)"
  by (simp add: queued_def sta_world_def)

definition sta_params :: "string list" where
  "sta_params = [''j'', ''finished'', ''p'', ''3'', ''0'']"

lemma sta_params_fit: "list_all arg_fits sta_params"
  by (simp add: sta_params_def arg_fits_def)

definition example_env :: environment where
  "example_env = \<lparr>e_now = ''d'', e_atof = (\<lambda>_. 0), e_append_key_command = (\<lambda>_. [])\<rparr>"

theorem status_message_witness:
  "\<exists>w'. gebrm_server_op_parse_messages example_env 0 (sta_world sta_params) = Some w' \<and>
        tstatus (tasks w' 0) = JOB_STATUS_FINISHED \<and>
        tasks w' = (tasks (sta_world sta_params))
          (0 := fst (report_status (e_now example_env) JOB_STATUS_FINISHED (Some ''p'') (tasks (sta_world sta_params) 0))) \<and>
        messages (protocol (conns w' 0)) = []"
proof (rule status_message_applied)
  show "queued 0 sta_def [''j'', gebr_comm_job_get_string_from_status JOB_STATUS_FINISHED, ''p'', ''3'', ''0'']
          (sta_world sta_params)"
    using sta_world_queued [OF sta_params_fit] by (simp add: sta_params_def)
  show "tasks_map (sta_world sta_params) (gebrm_task_build_id ''3'' ''0'') = Some 0"
    by (simp add: sta_world_def gebrm_task_build_id_def)
  show "state (conns (sta_world sta_params) 0) \<noteq> SERVER_STATE_DISCONNECTED"
    by (simp add: sta_world_def running_conn_state)
qed

theorem parse_messages_empties_witness:
  "\<exists>w'. gebrm_server_op_parse_messages example_env 0 (sta_world sta_params) = Some w' \<and>
        messages (protocol (conns w' 0)) = []"
proof -
  let ?w = "sta_world sta_params"
  have "gebrm_task_find (Some ''3'') (Some ''0'') ?w = Some 0"
    by (simp add: gebrm_task_find_def sta_world_def gebrm_task_build_id_def)
  then obtain w1 where h: "handle_message example_env 0 (last (messages (protocol (conns ?w 0)))) ?w = Inr w1"
      "conns w1 = conns ?w"
    using handle_status [OF sta_world_queued [OF sta_params_fit, unfolded sta_params_def]]
    by (simp add: daemon_status_def sta_params_def)
  have st: "state (conns ?w 0) \<noteq> SERVER_STATE_DISCONNECTED" "length (messages (protocol (conns ?w 0))) = 1"
    "messages (protocol (conns ?w 0)) \<noteq> []"
    by (simp_all add: sta_world_def running_conn_state)
  with h have "gebrm_server_op_parse_messages example_env 0 ?w = Some (drop_message 0 w1)"
    by (simp add: gebrm_server_op_parse_messages_def gebrm_daemon_get_state_def)
  moreover have "state (conns (drop_message 0 w1) 0) \<noteq> SERVER_STATE_DISCONNECTED"
    using st(1) h(2) by (simp add: drop_message_def)
  ultimately show ?thesis using parse_messages_empties_queue by blast
qed

definition closed_world :: maestro where
  "closed_world = set_job 0 (example_job\<lparr>status := JOB_STATUS_FAILED, info := no_info\<lparr>info_id := Some ''3''\<rparr>\<rparr>)
     (sta_world sta_params)"

theorem late_status_witness:
  "gebrm_server_op_parse_messages example_env 0 (snd (gebrm_job_close (\<lambda>_. False) 0 closed_world)) = None"
proof (rule late_status_crashes)
  have can: "gebrm_job_can_close 0 closed_world"
    by (simp add: closed_world_def gebrm_job_can_close_def gebrm_job_get_partial_status_def
        gebrm_job_get_status_def example_job_def)
  show "gebrm_job_close (\<lambda>_. False) 0 closed_world =
      (True, snd (gebrm_job_close (\<lambda>_. False) 0 closed_world))"
    using can by (simp add: gebrm_job_close_def)
  show "0 \<in> set (job_tasks (jobs closed_world 0))"
    by (simp add: closed_world_def example_job_def)
  show "gebrm_task_get_id (tasks closed_world 0) = gebrm_task_build_id ''3'' ''0''"
    by (simp add: closed_world_def sta_world_def daemon_world_def job_world.defs example_world_def
        gebrm_task_get_id_def gebrm_task_init_def show_int_def) code_simp
  have "conns (snd (gebrm_job_close (\<lambda>_. False) 0 closed_world)) = conns (sta_world sta_params)"
    using can by (simp add: gebrm_job_close_def closed_world_def set_job_def example_job_def
        gebrm_task_close_def Let_def)
  then show "queued 0 sta_def [''j'', ''finished'', ''p'', ''3'', ''0'']
      (snd (gebrm_job_close (\<lambda>_. False) 0 closed_world))"
    using sta_world_queued [OF sta_params_fit] by (simp add: queued_def sta_params_def)
qed

theorem tags_and_groups_witness:
  "\<exists>dm'. gebrm_daemon_update_tags (Some [''b'', ''a'']) gebrm_daemon_init = (True, dm') \<and>
         (\<forall>g. gebrm_daemon_has_tag g dm' \<longleftrightarrow> g \<in> set [''b'', ''a'']) \<and>
         (\<forall>g. gebrm_daemon_has_group g dm' \<longleftrightarrow> g = [] \<or> g \<in> set [''b'', ''a''])"
  by (rule tags_and_groups) simp

end
