(* ===== verification/Gebr_Expr.thy ===== *)
theory Gebr_Expr
  imports Utils
begin

text \<open>
  Expressions, after \<open>libgebr/gebr-expr.c\<close>: the names that are variables, the table of variables
  of an evaluator, the loop that reads an answer of \<open>bc\<close> by polling its two output channels, and
  the scanner that finds the variables of a text in which \<open>[v]\<close> stands for a variable and
  \<open>[[\<close> and \<open>]]\<close> for the brackets themselves.

  The channels are not blocking, so an answer reaches the loop as a sequence of polls: one poll is
  what one round of the loop can read, a line of the error channel and a line of the output channel
  (\<open>None\<close> when there is no line yet). \<open>g_ascii_strtod\<close> is a parameter.
\<close>

section \<open>Names\<close>

datatype expr_error = GEBR_EXPR_ERROR_NONE | GEBR_EXPR_ERROR_SYNTAX | GEBR_EXPR_ERROR_INVALID_NAME
  | GEBR_EXPR_ERROR_UNDEFINED_VAR | GEBR_EXPR_ERROR_EMPTY_VAR | GEBR_EXPR_ERROR_STATE_UNKNOWN
  | GEBR_EXPR_ERROR_INVALID_ASSIGNMENT

definition reserved_words :: "string list" where
  "reserved_words =
     [''ibase'', ''last'', ''obase'', ''scale'',
      ''length'', ''read'', ''sqrt'',
      ''break'', ''continue'', ''else'', ''for'', ''halt'', ''if'', ''return'', ''while'',
      ''auto'', ''define'', ''limits'', ''print'', ''quit'', ''void'', ''warranty'']"

definition gebr_expr_is_reserved_word :: "string \<Rightarrow> bool" where
  "gebr_expr_is_reserved_word name \<longleftrightarrow> list_ex (\<lambda>w. name = w) reserved_words"

definition name_char :: "char \<Rightarrow> bool" where
  "name_char c \<longleftrightarrow> is_digit c \<or> c = CHR ''_'' \<or> (is_alpha c \<and> is_lower c)"

definition gebr_expr_is_name_valid :: "string \<Rightarrow> bool" where
  "gebr_expr_is_name_valid name \<longleftrightarrow>
     (case name of
        [] \<Rightarrow> False
      | c # s \<Rightarrow> is_alpha c \<and> is_lower c \<and> list_all name_char s \<and> \<not> gebr_expr_is_reserved_word name)"

section \<open>The evaluator\<close>

text \<open>
  The table maps a name to the id of its first key and to its value; \<open>next_var\<close> is the static
  counter of \<open>var_name_new\<close>. \<open>sent\<close> holds the lines written to \<open>bc\<close>.
\<close>

record expr =
  expr_vars :: "string \<Rightarrow> (nat \<times> string) option"
  next_var :: nat
  sent :: "string list"

type_synonym poll = "cstr \<times> cstr"

text \<open>What one evaluation meets: the errors of writing and flushing, and the polls of the answer.\<close>

record exchange =
  write_error :: cstr
  flush_error :: cstr
  polls :: "poll list"

datatype eval_error = ChannelError string | ExprError expr_error string

datatype eval_state = READ_RESULT | READ_STAMP | ERROR_STATE | SET_RESULT

definition EVAL_COOKIE :: string where
  "EVAL_COOKIE = ''GEBR-EVAL-COOKIE'' @ [NL]"

text \<open>
  The loop, \<open>None\<close> when the polls end before the evaluation does: the code then still waits. The
  second argument is \<open>result_str\<close>. In \<open>SET_RESULT\<close> the output channel is not read.
\<close>

fun eval_loop :: "eval_state \<Rightarrow> string \<Rightarrow> poll list \<Rightarrow> (eval_error + string) option" where
  "eval_loop st r [] = None"
| "eval_loop st r ((Some e, out) # ps) = Some (Inl (ExprError GEBR_EXPR_ERROR_SYNTAX ''Invalid expression''))"
| "eval_loop READ_RESULT r ((None, out) # ps) =
     (case out of
        None \<Rightarrow> eval_loop READ_RESULT r ps
      | Some l \<Rightarrow>
          if l = EVAL_COOKIE
          then Some (Inl (ExprError GEBR_EXPR_ERROR_SYNTAX ''Expression does not return a value''))
          else eval_loop READ_STAMP l ps)"
| "eval_loop READ_STAMP r ((None, out) # ps) =
     (case out of
        None \<Rightarrow> eval_loop READ_STAMP r ps
      | Some l \<Rightarrow> if l = EVAL_COOKIE then eval_loop SET_RESULT r ps else eval_loop ERROR_STATE r ps)"
| "eval_loop ERROR_STATE r ((None, out) # ps) =
     (case out of
        None \<Rightarrow> eval_loop ERROR_STATE r ps
      | Some l \<Rightarrow>
          if l = EVAL_COOKIE
          then Some (Inl (ExprError GEBR_EXPR_ERROR_SYNTAX ''Expression returned multiple results''))
          else eval_loop ERROR_STATE r ps)"
| "eval_loop SET_RESULT r ((None, out) # ps) = Some (Inr r)"

text \<open>
  \<open>strtod\<close> is \<open>g_ascii_strtod\<close>; the answer is \<open>None\<close> when the evaluation still waits for \<open>bc\<close>.
\<close>

definition gebr_expr_eval_internal ::
    "(string \<Rightarrow> 'r) \<Rightarrow> string \<Rightarrow> exchange \<Rightarrow> expr \<Rightarrow> (eval_error + 'r) option \<times> expr" where
  "gebr_expr_eval_internal strtod e ex self =
     (let ln = e @ '' ; '' @ [CHR 0x22] @ EVAL_COOKIE @ [CHR 0x22, NL] in
      case write_error ex of
        Some msg \<Rightarrow> (Some (Inl (ChannelError msg)), self)
      | None \<Rightarrow>
          (let self' = self\<lparr>sent := sent self @ [ln]\<rparr> in
           case flush_error ex of
             Some msg \<Rightarrow> (Some (Inl (ChannelError msg)), self')
           | None \<Rightarrow> (map_option (map_sum id strtod) (eval_loop READ_RESULT [] (polls ex)), self')))"

definition gebr_expr_eval ::
    "(string \<Rightarrow> 'r) \<Rightarrow> string \<Rightarrow> exchange \<Rightarrow> expr \<Rightarrow> (eval_error + 'r) option \<times> expr" where
  "gebr_expr_eval strtod e ex self =
     (if has_char e (CHR ''='')
      then (Some (Inl (ExprError GEBR_EXPR_ERROR_INVALID_ASSIGNMENT
              ''Expression might not have an assignment (=)'')), self)
      else gebr_expr_eval_internal strtod e ex self)"

text \<open>
  \<open>var_name_new\<close> takes the next id; \<open>g_hash_table_insert\<close> keeps the key that is in the table, with
  its id, and replaces the value. \<open>gebr_expr_set_var\<close> returns \<open>FALSE\<close> without an error when the
  assignment does not evaluate to 0: \<open>Inr False\<close>.
\<close>

definition insert_var :: "string \<Rightarrow> string \<Rightarrow> expr \<Rightarrow> expr" where
  "insert_var name v self =
     self\<lparr>expr_vars := (expr_vars self)
            (name \<mapsto> (case expr_vars self name of None \<Rightarrow> next_var self | Some (i, _) \<Rightarrow> i, v)),
          next_var := next_var self + 1\<rparr>"

definition gebr_expr_set_var ::
    "(string \<Rightarrow> 'r) \<Rightarrow> 'r \<Rightarrow> string \<Rightarrow> string \<Rightarrow> exchange \<Rightarrow> expr \<Rightarrow> (eval_error + bool) option \<times> expr" where
  "gebr_expr_set_var strtod zero name v ex self =
     (if \<not> gebr_expr_is_name_valid name
      then (Some (Inl (ExprError GEBR_EXPR_ERROR_INVALID_NAME ''Invalid variable name'')), self)
      else map_prod (map_option (map_sum id (\<lambda>r. r = zero))) id
             (gebr_expr_eval_internal strtod (name @ ''='' @ v @ '' ; 0'') ex (insert_var name v self)))"

section \<open>Words of an expression\<close>

text \<open>The matches of the caseless pattern \<open>[a-z][0-9a-z_]*\<close>: leftmost, longest, one after the other.\<close>

definition word_char :: "char \<Rightarrow> bool" where
  "word_char c \<longleftrightarrow> is_alpha c \<or> is_digit c \<or> c = CHR ''_''"

function gebr_expr_extract_vars :: "string \<Rightarrow> string list" where
  "gebr_expr_extract_vars [] = []"
| "gebr_expr_extract_vars (c # s) =
     (if is_alpha c then (c # takeWhile word_char s) # gebr_expr_extract_vars (dropWhile word_char s)
      else gebr_expr_extract_vars s)"
  by pat_completeness auto
termination
  by (relation "measure length") (simp_all add: length_dropWhile_le less_Suc_eq_le)

section \<open>Variables of a text\<close>

datatype scan_state = STATE_STARTING | STATE_OPEN_BRACKET | STATE_READING_VAR | STATE_MATCHED | STATE_FINISHED

text \<open>
  The variables of the loop: the state, the index \<open>i\<close>, the word being read (its length is \<open>j\<close>), the
  list of variables in the order they are found and the error. Reading at the length of the string gives the byte 0.
\<close>

record scanner =
  scan_status :: scan_state
  scan_i :: nat
  scan_word :: string
  scan_vars :: "string list"
  scan_retval :: expr_error

definition char_of_string :: "string \<Rightarrow> nat \<Rightarrow> char" where
  "char_of_string str i = (if i < length str then str ! i else CHR 0x00)"

definition scan_fail :: "expr_error \<Rightarrow> scanner \<Rightarrow> scanner" where
  "scan_fail e s = s\<lparr>scan_retval := e, scan_status := STATE_FINISHED\<rparr>"

definition scan_step :: "string \<Rightarrow> scanner \<Rightarrow> scanner" where
  "scan_step str s =
     (let i = scan_i s; c = char_of_string str i in
      if c \<noteq> CHR 0x00 \<or> scan_status s = STATE_MATCHED
      then
        (case scan_status s of
           STATE_STARTING \<Rightarrow>
             if c = CHR ''['' then s\<lparr>scan_status := STATE_OPEN_BRACKET, scan_i := i + 1\<rparr>
             else if c = CHR '']'' then
               (if char_of_string str (i + 1) \<noteq> CHR '']''
                then (scan_fail GEBR_EXPR_ERROR_SYNTAX s)\<lparr>scan_i := i + 1\<rparr>
                else s\<lparr>scan_i := i + 2\<rparr>)
             else s\<lparr>scan_i := i + 1\<rparr>
         | STATE_OPEN_BRACKET \<Rightarrow>
             if c = CHR ''['' then s\<lparr>scan_status := STATE_STARTING, scan_i := i + 1\<rparr>
             else s\<lparr>scan_status := STATE_READING_VAR, scan_word := []\<rparr>
         | STATE_READING_VAR \<Rightarrow>
             if c = CHR '']'' then s\<lparr>scan_status := STATE_MATCHED\<rparr>
             else if c = CHR ''['' then scan_fail GEBR_EXPR_ERROR_SYNTAX s
             else s\<lparr>scan_word := scan_word s @ [c], scan_i := i + 1\<rparr>
         | STATE_MATCHED \<Rightarrow>
             if scan_word s \<noteq> []
             then s\<lparr>scan_vars := scan_vars s @ [scan_word s], scan_status := STATE_STARTING, scan_i := i + 1\<rparr>
             else scan_fail GEBR_EXPR_ERROR_EMPTY_VAR s
         | STATE_FINISHED \<Rightarrow> scan_fail GEBR_EXPR_ERROR_STATE_UNKNOWN s)
      else if scan_status s = STATE_OPEN_BRACKET \<or> scan_status s = STATE_READING_VAR
           then scan_fail GEBR_EXPR_ERROR_SYNTAX s
           else s\<lparr>scan_status := STATE_FINISHED\<rparr>)"

fun scan_rank :: "scan_state \<Rightarrow> nat" where
  "scan_rank STATE_FINISHED = 0"
| "scan_rank STATE_STARTING = 1"
| "scan_rank STATE_MATCHED = 2"
| "scan_rank STATE_READING_VAR = 3"
| "scan_rank STATE_OPEN_BRACKET = 4"

definition scan_measure :: "string \<Rightarrow> scanner \<Rightarrow> nat" where
  "scan_measure str s = 5 * (length str - scan_i s) + scan_rank (scan_status s)"

lemma scan_step_decreases:
  "scan_status s \<noteq> STATE_FINISHED \<Longrightarrow> scan_measure str (scan_step str s) < scan_measure str s"
  by (cases "scan_status s")
    (auto simp: scan_step_def scan_measure_def scan_fail_def char_of_string_def Let_def split: if_splits)

function scan_loop :: "string \<Rightarrow> scanner \<Rightarrow> scanner" where
  "scan_loop str s = (if scan_status s = STATE_FINISHED then s else scan_loop str (scan_step str s))"
  by pat_completeness auto
termination
  by (relation "measure (\<lambda>(str, s). scan_measure str s)") (simp_all add: scan_step_decreases)

declare scan_loop.simps [simp del]

definition scan_start :: scanner where
  "scan_start = \<lparr>scan_status = STATE_STARTING, scan_i = 0, scan_word = [], scan_vars = [],
     scan_retval = GEBR_EXPR_ERROR_NONE\<rparr>"

definition gebr_str_expr_extract_vars :: "string \<Rightarrow> expr_error \<times> string list" where
  "gebr_str_expr_extract_vars str =
     (let s = scan_loop str scan_start in (scan_retval s, scan_vars s))"

section \<open>What the scanner accepts\<close>

text \<open>
  A text is a sequence of pieces: a character that is not a bracket, an escaped bracket, or a
  variable. \<open>text_vars\<close> are its variables and \<open>print_pieces\<close> writes it.
\<close>

datatype piece = Literal char | OpenBracket | CloseBracket | Variable string

definition plain_char :: "char \<Rightarrow> bool" where
  "plain_char c \<longleftrightarrow> c \<noteq> CHR ''['' \<and> c \<noteq> CHR '']''"

fun good_piece :: "piece \<Rightarrow> bool" where
  "good_piece (Literal c) = plain_char c"
| "good_piece (Variable v) = (v \<noteq> [] \<and> list_all plain_char v)"
| "good_piece _ = True"

fun print_piece :: "piece \<Rightarrow> string" where
  "print_piece (Literal c) = [c]"
| "print_piece OpenBracket = ''[[''"
| "print_piece CloseBracket = '']]''"
| "print_piece (Variable v) = CHR ''['' # v @ '']''"

definition print_pieces :: "piece list \<Rightarrow> string" where
  "print_pieces ps = concat (map print_piece ps)"

fun text_vars :: "piece list \<Rightarrow> string list" where
  "text_vars [] = []"
| "text_vars (Variable v # ps) = v # text_vars ps"
| "text_vars (_ # ps) = text_vars ps"

text \<open>The same scan over the rest of the text, one piece at a time.\<close>

function scan_text :: "string \<Rightarrow> expr_error \<times> string list" where
  "scan_text [] = (GEBR_EXPR_ERROR_NONE, [])"
| "scan_text (c # s) =
     (if c = CHR ''['' then
        (if s = [] then (GEBR_EXPR_ERROR_SYNTAX, [])
         else if hd s = CHR ''['' then scan_text (tl s)
         else (let v = takeWhile plain_char s; r = dropWhile plain_char s in
               if r = [] \<or> hd r = CHR ''['' then (GEBR_EXPR_ERROR_SYNTAX, [])
               else if v = [] then (GEBR_EXPR_ERROR_EMPTY_VAR, [])
               else map_prod id (Cons v) (scan_text (tl r))))
      else if c = CHR '']'' then
        (if s \<noteq> [] \<and> hd s = CHR '']'' then scan_text (tl s) else (GEBR_EXPR_ERROR_SYNTAX, []))
      else scan_text s)"
  by pat_completeness auto
termination
  by (relation "measure length") (simp_all add: less_Suc_eq_le le_SucI length_dropWhile_le diff_le_self
      order_trans [OF diff_le_self length_dropWhile_le])

lemma scan_text_print:
  assumes "list_all good_piece ps"
  shows "scan_text (print_pieces ps) = (GEBR_EXPR_ERROR_NONE, text_vars ps)"
  using assms
proof (induction ps)
  case Nil
  then show ?case by (simp add: print_pieces_def)
next
  case (Cons p ps)
  show ?case
  proof (cases p)
    case (Variable v)
    then have v: "v \<noteq> []" "\<forall>c \<in> set v. plain_char c" using Cons.prems by (auto simp: list_all_iff)
    have "hd (v @ '']'' @ print_pieces ps) \<noteq> CHR ''[''"
      using v by (cases v) (auto simp: plain_char_def)
    moreover have "takeWhile plain_char (v @ CHR '']'' # print_pieces ps) = v"
      "dropWhile plain_char (v @ CHR '']'' # print_pieces ps) = CHR '']'' # print_pieces ps"
      using v(2) takeWhile_all_stop [of v plain_char "CHR '']''"] dropWhile_all_stop [of v plain_char "CHR '']''"]
      by (simp_all add: plain_char_def)
    moreover have "print_pieces (p # ps) = CHR ''['' # v @ CHR '']'' # print_pieces ps"
      by (simp add: print_pieces_def Variable)
    ultimately show ?thesis
      using Cons v(1) Variable by (simp add: Let_def)
  qed (use Cons in \<open>auto simp: print_pieces_def plain_char_def\<close>)
qed

lemma scan_text_pieces:
  assumes "scan_text s = (GEBR_EXPR_ERROR_NONE, vs)"
  shows "\<exists>ps. list_all good_piece ps \<and> s = print_pieces ps \<and> vs = text_vars ps"
  using assms
proof (induction s arbitrary: vs rule: scan_text.induct)
  case 1
  then show ?case by (intro exI [of _ "[]"]) (simp add: print_pieces_def)
next
  case (2 c s)
  consider (esc) t where "c = CHR ''[''" "s = CHR ''['' # t"
    | (var) "c = CHR ''[''" "s \<noteq> []" "hd s \<noteq> CHR ''[''"
    | (close) t where "c = CHR '']''" "s = CHR '']'' # t" | (plain) "plain_char c"
    using 2(5) by (cases s) (auto simp: plain_char_def split: if_splits)
  then show ?case
  proof cases
    case esc
    then obtain ps where "list_all good_piece ps" "t = print_pieces ps" "vs = text_vars ps"
      using 2 by auto
    then show ?thesis using esc by (intro exI [of _ "OpenBracket # ps"]) (simp add: print_pieces_def)
  next
    case close
    then obtain ps where "list_all good_piece ps" "t = print_pieces ps" "vs = text_vars ps"
      using 2 by auto
    then show ?thesis using close by (intro exI [of _ "CloseBracket # ps"]) (simp add: print_pieces_def)
  next
    case plain
    then obtain ps where "list_all good_piece ps" "s = print_pieces ps" "vs = text_vars ps"
      using 2 by (auto simp: plain_char_def)
    then show ?thesis using plain by (intro exI [of _ "Literal c # ps"]) (simp add: print_pieces_def)
  next
    case var
    let ?v = "takeWhile plain_char s" and ?r = "dropWhile plain_char s"
    have r: "?r \<noteq> []" "hd ?r \<noteq> CHR ''[''" "?v \<noteq> []"
      and m: "map_prod id (Cons ?v) (scan_text (tl ?r)) = (GEBR_EXPR_ERROR_NONE, vs)"
      using var 2(5) by (auto simp: Let_def split: if_splits)
    then obtain us where us: "scan_text (tl ?r) = (GEBR_EXPR_ERROR_NONE, us)" "vs = ?v # us"
      by (cases "scan_text (tl ?r)") auto
    with 2(2) var r obtain ps where ps: "list_all good_piece ps" "tl ?r = print_pieces ps" "us = text_vars ps"
      by meson
    have "hd ?r = CHR '']''" using r hd_dropWhile [of plain_char s] by (auto simp: plain_char_def)
    then have "s = ?v @ CHR '']'' # tl ?r"
      using r(1) takeWhile_dropWhile_id [of plain_char s] by (metis list.collapse)
    then show ?thesis using var r(3) ps us(2)
      by (intro exI [of _ "Variable ?v # ps"])
        (auto simp: print_pieces_def list_all_iff dest: set_takeWhileD)
  qed
qed

text \<open>The loop from the index \<open>i\<close> is the scan of the text from there.\<close>

definition no_nul :: "string \<Rightarrow> bool" where
  "no_nul s \<longleftrightarrow> list_all (\<lambda>c. c \<noteq> CHR 0x00) s"

lemma char_at_drop: "char_of_string str i = (case drop i str of [] \<Rightarrow> CHR 0x00 | c # _ \<Rightarrow> c)"
  by (cases "i < length str") (auto simp: char_of_string_def Cons_nth_drop_Suc [symmetric])

lemma drop_step: "drop i str = c # t \<Longrightarrow> drop (Suc i) str = t"
  by (metis drop_Suc list.sel(3) tl_drop)

lemma scan_loop_step:
  "scan_status s \<noteq> STATE_FINISHED \<Longrightarrow> scan_loop str s = scan_loop str (scan_step str s)"
  by (subst scan_loop.simps) simp

lemma scan_loop_finished: "scan_status s = STATE_FINISHED \<Longrightarrow> scan_loop str s = s"
  by (simp add: scan_loop.simps)

definition starting :: "nat \<Rightarrow> string \<Rightarrow> string list \<Rightarrow> scanner" where
  "starting i w vs = \<lparr>scan_status = STATE_STARTING, scan_i = i, scan_word = w, scan_vars = vs,
     scan_retval = GEBR_EXPR_ERROR_NONE\<rparr>"

definition reading :: "nat \<Rightarrow> string \<Rightarrow> string list \<Rightarrow> scanner" where
  "reading i w vs = (starting i w vs)\<lparr>scan_status := STATE_READING_VAR\<rparr>"

lemma scan_loop_stop:
  "scan_status s \<noteq> STATE_FINISHED \<Longrightarrow> scan_status (scan_step str s) = STATE_FINISHED \<Longrightarrow>
   scan_loop str s = scan_step str s"
  by (simp add: scan_loop_step scan_loop_finished)

lemmas scan_unfold = scan_loop_stop scan_step_def starting_def reading_def scan_fail_def
  char_at_drop Let_def

lemma reading_plain:
  assumes "drop i str = v @ r" "list_all plain_char v" "no_nul v"
  shows "scan_loop str (reading i w vs) = scan_loop str (reading (i + length v) (w @ v) vs)"
  using assms
proof (induction v arbitrary: i w)
  case (Cons c v)
  then have "scan_loop str (reading i w vs) = scan_loop str (reading (Suc i) (w @ [c]) vs)"
    by (subst scan_loop_step) (auto simp: scan_unfold no_nul_def plain_char_def)
  then show ?case using Cons.IH [of "Suc i" "w @ [c]"] Cons.prems drop_step [OF Cons.prems(1) [simplified]]
    by (simp add: no_nul_def)
qed simp

text \<open>How a variable that is being read ends.\<close>

lemma reading_fails:
  assumes "drop i str = [] \<or> drop i str = CHR ''['' # t"
  shows "scan_loop str (reading i w vs) = scan_fail GEBR_EXPR_ERROR_SYNTAX (reading i w vs)"
  using assms by (elim disjE) (subst scan_loop_stop; simp add: scan_unfold)+

lemma reading_matched:
  assumes "drop i str = CHR '']'' # t"
  shows "scan_loop str (reading i w vs) =
    (if w = [] then scan_fail GEBR_EXPR_ERROR_EMPTY_VAR ((starting i w vs)\<lparr>scan_status := STATE_MATCHED\<rparr>)
     else scan_loop str (starting (Suc i) w (vs @ [w])))"
proof -
  have "scan_loop str (reading i w vs) = scan_loop str ((starting i w vs)\<lparr>scan_status := STATE_MATCHED\<rparr>)"
    using assms by (subst scan_loop_step) (auto simp: scan_unfold)
  also have "\<dots> = (if w = [] then scan_fail GEBR_EXPR_ERROR_EMPTY_VAR ((starting i w vs)\<lparr>scan_status := STATE_MATCHED\<rparr>)
     else scan_loop str (starting (Suc i) w (vs @ [w])))"
    by (subst scan_loop_step) (auto simp: scan_unfold scan_loop_finished)
  finally show ?thesis .
qed

lemma scan_result:
  assumes "drop i str = s" "no_nul s"
  shows "scan_retval (scan_loop str (starting i w vs)) = fst (scan_text s) \<and>
         scan_vars (scan_loop str (starting i w vs)) = vs @ snd (scan_text s)"
  using assms
proof (induction s arbitrary: i w vs rule: scan_text.induct)
  case 1
  then show ?case by (simp add: scan_unfold)
next
  case (2 c s)
  have c: "c \<noteq> CHR 0x00" and s: "drop (Suc i) str = s" "no_nul s"
    using 2(6) drop_step [OF 2(5)] by (auto simp: no_nul_def)
  consider (esc) t where "c = CHR ''[''" "s = CHR ''['' # t"
    | (var) "c = CHR ''[''" "s \<noteq> []" "hd s \<noteq> CHR ''[''" | (unclosed) "c = CHR ''[''" "s = []"
    | (close) "c = CHR '']''" | (plain) "plain_char c"
    by (cases s) (auto simp: plain_char_def)
  then show ?case
  proof cases
    case plain
    then have "scan_loop str (starting i w vs) = scan_loop str (starting (Suc i) w vs)"
      using 2(5) c by (subst scan_loop_step) (auto simp: scan_unfold plain_char_def)
    then show ?thesis using plain 2(4) s by (simp add: plain_char_def)
  next
    case close
    show ?thesis
    proof (cases "s \<noteq> [] \<and> hd s = CHR '']''")
      case True
      then obtain t where t: "s = CHR '']'' # t" by (cases s) auto
      then have "scan_loop str (starting i w vs) = scan_loop str (starting (Suc (Suc i)) w vs)"
        using 2(5) s close by (subst scan_loop_step) (auto simp: scan_unfold)
      moreover have "drop (Suc (Suc i)) str = t" "no_nul t"
        using drop_step [of "Suc i"] s t by (auto simp: no_nul_def)
      ultimately show ?thesis using close 2(3) True t by simp
    next
      case False
      then show ?thesis using close 2(5) s
        by (cases s) (simp_all add: scan_unfold)
    qed
  next
    case esc
    have "scan_loop str (starting i w vs) =
        scan_loop str ((starting (Suc i) w vs)\<lparr>scan_status := STATE_OPEN_BRACKET\<rparr>)"
      using 2(5) esc by (subst scan_loop_step) (auto simp: scan_unfold)
    also have "\<dots> = scan_loop str (starting (Suc (Suc i)) w vs)"
      using s esc by (subst scan_loop_step) (auto simp: scan_unfold)
    finally have "scan_loop str (starting i w vs) = scan_loop str (starting (Suc (Suc i)) w vs)" .
    moreover have "drop (Suc (Suc i)) str = t" "no_nul t"
      using drop_step [of "Suc i"] s esc by (auto simp: no_nul_def)
    ultimately show ?thesis using esc 2(1) by simp
  next
    case unclosed
    then have "scan_loop str (starting i w vs) =
        scan_loop str ((starting (Suc i) w vs)\<lparr>scan_status := STATE_OPEN_BRACKET\<rparr>)"
      using 2(5) by (subst scan_loop_step) (auto simp: scan_unfold)
    then show ?thesis using unclosed s by (simp add: scan_unfold)
  next
    case var
    let ?v = "takeWhile plain_char s" and ?r = "dropWhile plain_char s"
    let ?j = "Suc i + length ?v"
    have "scan_loop str (starting i w vs) = scan_loop str (reading (Suc i) [] vs)"
    proof -
      have "scan_loop str (starting i w vs) =
          scan_loop str ((starting (Suc i) w vs)\<lparr>scan_status := STATE_OPEN_BRACKET\<rparr>)"
        using 2(5) var by (subst scan_loop_step) (auto simp: scan_unfold)
      also have "\<dots> = scan_loop str (reading (Suc i) [] vs)"
        using s var by (subst scan_loop_step) (cases s; auto simp: scan_unfold no_nul_def)+
      finally show ?thesis .
    qed
    also have "\<dots> = scan_loop str (reading ?j ?v vs)"
      using reading_plain [of "Suc i" str ?v ?r "[]" vs] s
      by (auto simp: no_nul_def list_all_iff dest: set_takeWhileD)
    finally have eq: "scan_loop str (starting i w vs) = scan_loop str (reading ?j ?v vs)" .
    have d: "drop ?j str = ?r"
      using s(1) takeWhile_dropWhile_id [of plain_char s] by (metis add.commute append_eq_conv_conj drop_drop)
    show ?thesis
    proof (cases ?r)
      case Nil
      then show ?thesis using eq d var reading_fails [of ?j str _ ?v vs]
        by (simp add: scan_fail_def reading_def starting_def)
    next
      case (Cons b t)
      have b: "b = CHR ''['' \<or> b = CHR '']''" using hd_dropWhile [of plain_char s] Cons by (auto simp: plain_char_def)
      have t: "drop (Suc ?j) str = t" using d Cons by (intro drop_step) simp
      have "set t \<subseteq> set ?r" using Cons by auto
      then have nul: "no_nul t"
        using s(2) set_dropWhileD [of _ plain_char s] by (auto simp: no_nul_def list_all_iff)
      show ?thesis
      proof (cases "b = CHR '']''")
        case True
        then have r: "scan_loop str (reading ?j ?v vs) =
            (if ?v = [] then scan_fail GEBR_EXPR_ERROR_EMPTY_VAR ((starting ?j ?v vs)\<lparr>scan_status := STATE_MATCHED\<rparr>)
             else scan_loop str (starting (Suc ?j) ?v (vs @ [?v])))"
          using reading_matched d Cons by simp
        show ?thesis
        proof (cases "?v = []")
          case True
          with r have "scan_loop str (starting i w vs) =
              scan_fail GEBR_EXPR_ERROR_EMPTY_VAR ((starting ?j ?v vs)\<lparr>scan_status := STATE_MATCHED\<rparr>)"
            using eq by presburger
          moreover have "scan_text (c # s) = (GEBR_EXPR_ERROR_EMPTY_VAR, [])"
            using True Cons var \<open>b = CHR '']''\<close> by (simp add: Let_def)
          ultimately show ?thesis by (simp only: scan_fail_def starting_def) simp
        next
          case False
          with r have "scan_loop str (starting i w vs) = scan_loop str (starting (Suc ?j) ?v (vs @ [?v]))"
            using eq by presburger
          moreover have "scan_text (c # s) = map_prod id (Cons ?v) (scan_text t)"
            using False Cons var \<open>b = CHR '']''\<close> by (simp add: Let_def)
          moreover have "scan_retval (scan_loop str (starting (Suc ?j) ?v (vs @ [?v]))) = fst (scan_text t) \<and>
              scan_vars (scan_loop str (starting (Suc ?j) ?v (vs @ [?v]))) = (vs @ [?v]) @ snd (scan_text t)"
            using 2(2) [of ?v ?r "Suc ?j" ?v "vs @ [?v]"] var False Cons t nul \<open>b = CHR '']''\<close> by simp
          ultimately show ?thesis by simp
        qed
      next
        case False
        then show ?thesis using eq d var b Cons reading_fails [of ?j str t ?v vs]
          by (simp add: scan_fail_def reading_def starting_def Let_def)
      qed
    qed
  qed
qed

text \<open>
  The scanner accepts exactly the texts made of characters, escaped brackets and non-empty
  variables in brackets, and then returns the variables in the order in which they stand.
\<close>

theorem text_variables_accepted:
  assumes "no_nul str"
  shows "gebr_str_expr_extract_vars str = (GEBR_EXPR_ERROR_NONE, vs) \<longleftrightarrow>
         (\<exists>ps. list_all good_piece ps \<and> str = print_pieces ps \<and> vs = text_vars ps)"
proof -
  have "gebr_str_expr_extract_vars str = scan_text str"
    using scan_result [of 0 str str "[]" "[]"] assms
    by (simp add: gebr_str_expr_extract_vars_def scan_start_def starting_def prod_eq_iff)
  then show ?thesis using scan_text_pieces scan_text_print by auto
qed

theorem text_variables_witness:
  "gebr_str_expr_extract_vars ''a[[0]][xy]+[z]'' = (GEBR_EXPR_ERROR_NONE, [''xy'', ''z''])"
proof -
  let ?ps = "[Literal (CHR ''a''), OpenBracket, Literal (CHR ''0''), CloseBracket, Variable ''xy'',
    Literal (CHR ''+''), Variable ''z'']"
  have "no_nul ''a[[0]][xy]+[z]''" by (simp add: no_nul_def)
  moreover have "list_all good_piece ?ps \<and> ''a[[0]][xy]+[z]'' = print_pieces ?ps \<and> [''xy'', ''z''] = text_vars ?ps"
    by (simp add: plain_char_def print_pieces_def)
  ultimately show ?thesis using text_variables_accepted by metis
qed

section \<open>The answer does not depend on the polling\<close>

definition out_lines :: "poll list \<Rightarrow> string list" where
  "out_lines ps = List.map_filter snd ps"

definition answer_of :: "string list \<Rightarrow> eval_error + string" where
  "answer_of ls =
     (case ls of
        [] \<Rightarrow> Inl (ExprError GEBR_EXPR_ERROR_SYNTAX ''Expression does not return a value'')
      | [l] \<Rightarrow> Inr l
      | _ \<Rightarrow> Inl (ExprError GEBR_EXPR_ERROR_SYNTAX ''Expression returned multiple results''))"

definition until_cookie :: "poll list \<Rightarrow> string list" where
  "until_cookie ps = takeWhile (\<lambda>l. l \<noteq> EVAL_COOKIE) (out_lines ps)"

lemma out_lines_simps [simp]:
  "out_lines [] = []" "out_lines ((e, None) # ps) = out_lines ps" "out_lines ((e, Some l) # ps) = l # out_lines ps"
  by (simp_all add: out_lines_def List.map_filter_def)

lemma eval_error_state:
  "list_all (\<lambda>p. fst p = None) ps \<Longrightarrow> EVAL_COOKIE \<in> set (out_lines ps) \<Longrightarrow>
   eval_loop ERROR_STATE r ps = Some (answer_of [a, b])"
proof (induction ps)
  case (Cons p ps)
  then show ?case by (cases p; cases "snd p") (auto simp: answer_of_def)
qed simp

lemma eval_read_stamp:
  "list_all (\<lambda>p. fst p = None) ps \<Longrightarrow> EVAL_COOKIE \<in> set (out_lines ps) \<Longrightarrow>
   eval_loop READ_STAMP r (ps @ [(None, None)]) = Some (answer_of (r # until_cookie ps))"
proof (induction ps)
  case (Cons p ps)
  obtain o' where p: "p = (None, o')" using Cons.prems(1) by (cases p) auto
  show ?case
  proof (cases o')
    case None
    then show ?thesis using Cons p by (simp add: until_cookie_def)
  next
    case (Some l)
    show ?thesis
    proof (cases "l = EVAL_COOKIE")
      case True
      have "eval_loop SET_RESULT r (ps @ [(None, None)]) = Some (Inr r)"
        using Cons.prems(1) by (cases ps) auto
      then show ?thesis using True Some p by (simp add: until_cookie_def answer_of_def)
    next
      case False
      then have c: "EVAL_COOKIE \<in> set (out_lines (ps @ [(None, None)]))"
        using Cons.prems(2) Some p by (auto simp: out_lines_def List.map_filter_def)
      have "eval_loop ERROR_STATE r (ps @ [(None, None)]) = Some (answer_of (r # until_cookie (p # ps)))"
        using eval_error_state [OF _ c, of r r l] Cons.prems(1) False Some p
        by (simp add: until_cookie_def answer_of_def)
      then show ?thesis using False Some p by simp
    qed
  qed
qed simp

lemma eval_read_result:
  "list_all (\<lambda>p. fst p = None) ps \<Longrightarrow> EVAL_COOKIE \<in> set (out_lines ps) \<Longrightarrow>
   eval_loop READ_RESULT r (ps @ [(None, None)]) = Some (answer_of (until_cookie ps))"
proof (induction ps)
  case (Cons p ps)
  obtain o' where p: "p = (None, o')" using Cons.prems(1) by (cases p) auto
  then show ?case using Cons eval_read_stamp [of ps]
    by (cases o') (auto simp: until_cookie_def answer_of_def)
qed simp

text \<open>
  An evaluation whose command is written and that meets no error line answers from the lines
  before the stamp only, however they are spread over the polls: one line is the result, none and
  several are the two errors.
\<close>

theorem evaluation_independent_of_polling:
  assumes "write_error ex = None" "flush_error ex = None" "polls ex = ps @ [(None, None)]"
    and "list_all (\<lambda>p. fst p = None) ps" "EVAL_COOKIE \<in> set (out_lines ps)"
  shows "fst (gebr_expr_eval_internal strtod e ex self) =
         Some (map_sum id strtod (answer_of (takeWhile (\<lambda>l. l \<noteq> EVAL_COOKIE) (out_lines ps))))"
  using eval_read_result [OF assms(4,5), unfolded until_cookie_def]
  by (simp add: gebr_expr_eval_internal_def Let_def assms(1-3))

theorem evaluation_polling_witness:
  "fst (gebr_expr_eval_internal length ''2+3''
     \<lparr>write_error = None, flush_error = None,
      polls = [(None, None), (None, Some ''5''), (None, None), (None, Some EVAL_COOKIE)] @ [(None, None)]\<rparr>
     \<lparr>expr_vars = Map.empty, next_var = 0, sent = []\<rparr>) = Some (Inr 1)"
proof -
  have "takeWhile (\<lambda>l. l \<noteq> EVAL_COOKIE) (out_lines [(None, None), (None, Some ''5''), (None, None), (None, Some EVAL_COOKIE)])
      = [''5'']"
    by (simp add: EVAL_COOKIE_def)
  then show ?thesis
    using evaluation_independent_of_polling [of "\<lparr>write_error = None, flush_error = None,
      polls = [(None, None), (None, Some ''5''), (None, None), (None, Some EVAL_COOKIE)] @ [(None, None)]\<rparr>"
        "[(None, None), (None, Some ''5''), (None, None), (None, Some EVAL_COOKIE)]" length "''2+3''"
        "\<lparr>expr_vars = Map.empty, next_var = 0, sent = []\<rparr>"]
    by (simp add: answer_of_def)
qed

text \<open>
  The variable name that the program derives from a keyword is accepted as the name of a variable
  unless it is one of the words reserved by \<open>bc\<close>, whatever \<open>g_utf8_strdown\<close> returns.
\<close>

theorem canonical_name_valid:
  "gebr_expr_is_name_valid (gebr_str_canonical_var_name strdown keyword) \<longleftrightarrow>
   gebr_str_canonical_var_name strdown keyword \<notin> set reserved_words"
proof -
  obtain c t where "gebr_str_canonical_var_name strdown keyword = c # t" "is_lower c"
      "list_all (\<lambda>x. is_lower x \<or> is_digit x \<or> x = CHR ''_'') t"
    using canonical_head [of strdown keyword] canonical_chars [of _ strdown keyword]
    by (fastforce simp: list_all_iff)
  then show ?thesis
    by (auto simp: gebr_expr_is_name_valid_def gebr_expr_is_reserved_word_def list_ex_iff list_all_iff
        name_char_def is_alpha_def)
qed

section \<open>The buffer of the scanner\<close>

text \<open>The word being read lies behind the index, by the bracket that opened it at least.\<close>

definition scan_within :: "string \<Rightarrow> scanner \<Rightarrow> bool" where
  "scan_within str s \<longleftrightarrow>
     scan_i s \<le> length str \<and>
     (case scan_status s of
        STATE_OPEN_BRACKET \<Rightarrow> 0 < scan_i s
      | STATE_READING_VAR \<Rightarrow> length (scan_word s) < scan_i s
      | STATE_MATCHED \<Rightarrow> scan_i s < length str
      | _ \<Rightarrow> True)"

lemma char_of_string_inside: "char_of_string str i \<noteq> CHR 0x00 \<Longrightarrow> i < length str"
  by (auto simp: char_of_string_def split: if_splits)

lemma scan_step_within:
  assumes "scan_within str s"
  shows "scan_within str (scan_step str s)"
proof (cases "scan_status s")
  case STATE_STARTING
  then show ?thesis using assms char_of_string_inside [of str "scan_i s"] char_of_string_inside [of str "scan_i s + 1"]
    by (auto simp: scan_within_def scan_step_def scan_fail_def Let_def)
qed (use assms char_of_string_inside [of str "scan_i s"] in
    \<open>auto simp: scan_within_def scan_step_def scan_fail_def Let_def\<close>)

text \<open>
  The scanner never reads behind the end of the text, and stores every character of a word, and the 0 behind
  it, inside the buffer of as many bytes as the text has.
\<close>

theorem scanner_stays_inside:
  "scan_i ((scan_step str ^^ n) scan_start) \<le> length str \<and>
   (scan_status ((scan_step str ^^ n) scan_start) = STATE_READING_VAR \<and>
    char_of_string str (scan_i ((scan_step str ^^ n) scan_start)) \<noteq> CHR 0x00 \<longrightarrow>
    length (scan_word ((scan_step str ^^ n) scan_start)) < length str)"
proof -
  have "scan_within str ((scan_step str ^^ n) scan_start)"
    by (induction n) (simp add: scan_within_def scan_start_def, simp add: scan_step_within)
  then show ?thesis using char_of_string_inside by (fastforce simp: scan_within_def)
qed

theorem scanner_stays_inside_witness: "length (scan_word ((scan_step ''[ab]'' ^^ 3) scan_start)) < length ''[ab]''"
proof -
  have "scan_status ((scan_step ''[ab]'' ^^ 3) scan_start) = STATE_READING_VAR \<and>
      char_of_string ''[ab]'' (scan_i ((scan_step ''[ab]'' ^^ 3) scan_start)) \<noteq> CHR 0x00"
    by (simp add: numeral_3_eq_3 scan_step_def scan_start_def char_of_string_def Let_def)
  then show ?thesis using scanner_stays_inside [of 3 "''[ab]''"] by blast
qed

end
