(* ===== verification/Arith_Expr.thy ===== *)
theory Arith_Expr
  imports Gebr_Expr
begin

text \<open>
  Arithmetic expressions, after \<open>libgebr/gebr-arith-expr.c\<close>: an evaluator sends a line and a stamp
  to one long lived process \<open>bc\<close> and reads the lines of its answer, up to the stamp.

  \<open>bc_out\<close> is what the process will still print, one item per call of
  \<open>read_bc_line\<close>, which repeats a read that answers "again": a line with its newline (the last
  line may lack it), or a failed read. The end of the list is the end of the
  stream, where every further read returns no line. The texts of the errors that quote \<open>bc\<close> are
  kept; the constant texts are left out.
\<close>

section \<open>State and results\<close>

datatype iexpr_error =
    GEBR_IEXPR_ERROR_INITIALIZE | GEBR_IEXPR_ERROR_EMPTY_EXPR | GEBR_IEXPR_ERROR_INVAL_PATH
  | GEBR_IEXPR_ERROR_TOOBIG | GEBR_IEXPR_ERROR_RUNTIME | GEBR_IEXPR_ERROR_SYNTAX
  | GEBR_IEXPR_ERROR_UNDEF_VAR | GEBR_IEXPR_ERROR_UNDEF_REFERENCE | GEBR_IEXPR_ERROR_BAD_REFERENCE
  | GEBR_IEXPR_ERROR_INVAL_VAR | GEBR_IEXPR_ERROR_INVAL_TYPE | GEBR_IEXPR_ERROR_CYCLE
  | GEBR_IEXPR_ERROR_TYPE_MISMATCH | GEBR_IEXPR_ERROR_BAD_MOVE | GEBR_IEXPR_ERROR_PATH

text \<open>A \<open>GError\<close>: of this domain, or one of a channel that is passed on.\<close>

datatype gerror = IExprError iexpr_error string | IOError string

text \<open>\<open>g_set_error\<close> does not replace an error that is already set.\<close>

fun set_error :: "gerror \<Rightarrow> gerror option \<Rightarrow> gerror option" where
  "set_error e None = Some e"
| "set_error e (Some e0) = Some e0"

datatype bc_item = BcLine string | BcFailure string

record arith_expr =
  defined_vars :: "string set"
  bc_in :: "string list"
  bc_out :: "bc_item list"
  initialized :: bool

text \<open>
  A call returns, or reads outside an object (\<open>Crash\<close>), or never returns (\<open>Hang\<close>). What it returns
  is its result and the error it has set.
\<close>

datatype stuck = Crash | Hang

type_synonym 'a outcome = "stuck + 'a \<times> gerror option \<times> arith_expr"

text \<open>The errors that writing and flushing a line meet.\<close>

type_synonym writing = "cstr \<times> cstr"

section \<open>Reading an answer\<close>

text \<open>The text from the first colon without the last character; \<open>None\<close> where \<open>strchr\<close> finds no colon.\<close>

definition colon_message :: "string \<Rightarrow> cstr" where
  "colon_message l =
     (if has_char l (CHR '':'') then Some (butlast (dropWhile (\<lambda>c. c \<noteq> CHR '':'') l)) else None)"

text \<open>
  How the reading loop is left: with the buffer and the number of results, or with an error that
  still has to be flushed up to the stamp.
\<close>

datatype answer =
    AnswerDone string nat "gerror option" "bc_item list"
  | AnswerError "gerror option" "bc_item list"
  | AnswerCrash

definition error_answer :: "iexpr_error \<Rightarrow> string \<Rightarrow> gerror option \<Rightarrow> bc_item list \<Rightarrow> answer" where
  "error_answer k l err ls =
     (case colon_message l of
        None \<Rightarrow> AnswerCrash
      | Some msg \<Rightarrow> AnswerError (set_error (IExprError k msg) err) ls)"

fun read_answer :: "bc_item list \<Rightarrow> string \<Rightarrow> nat \<Rightarrow> gerror option \<Rightarrow> answer" where
  "read_answer [] buf n err = AnswerDone buf n err []"
| "read_answer (BcFailure m # ls) buf n err =
     AnswerDone buf n (set_error (IExprError GEBR_IEXPR_ERROR_INITIALIZE m) err) ls"
| "read_answer (BcLine l # ls) buf n err =
     (if l = EVAL_COOKIE then AnswerDone buf n err ls
      else if prefix ''(standard_in) '' l then error_answer GEBR_IEXPR_ERROR_SYNTAX l err ls
      else if prefix ''Runtime error (func'' l then error_answer GEBR_IEXPR_ERROR_RUNTIME l err ls
      else if prefix ''Runtime warning (func'' l then read_answer ls buf n err
      else if length l < 2 then AnswerCrash
      else if l ! (length l - 2) = CHR 0x5C then read_answer ls (buf @ take (length l - 2) l) n err
      else read_answer ls (buf @ l) (n + 1) err)"

text \<open>The loop after an error: \<open>None\<close> when the stream ends before the stamp, where it turns for ever.\<close>

fun flush_answer :: "bc_item list \<Rightarrow> bc_item list option" where
  "flush_answer [] = None"
| "flush_answer (it # ls) = (if it = BcLine EVAL_COOKIE then Some ls else flush_answer ls)"

definition gebr_arith_expr_eval_internal ::
    "writing \<Rightarrow> string \<Rightarrow> gerror option \<Rightarrow> arith_expr \<Rightarrow> cstr outcome" where
  "gebr_arith_expr_eval_internal wr e err self =
     (if g_strstrip e = [] then Inr (None, set_error (IExprError GEBR_IEXPR_ERROR_EMPTY_EXPR []) err, self)
      else case wr of
        (Some m, _) \<Rightarrow> Inr (None, Some (IOError m), self)
      | (None, fl) \<Rightarrow>
          (let self' = self\<lparr>bc_in := bc_in self @ [e @ [NL, CHR 0x22] @ EVAL_COOKIE @ [CHR 0x22, NL]]\<rparr> in
           case fl of
             Some m \<Rightarrow> Inr (None, Some (IOError m), self')
           | None \<Rightarrow>
               (case read_answer (bc_out self') [] 0 err of
                  AnswerCrash \<Rightarrow> Inl Crash
                | AnswerError err' ls \<Rightarrow>
                    (case flush_answer ls of
                       None \<Rightarrow> Inl Hang
                     | Some ls' \<Rightarrow> Inr (None, err', self'\<lparr>bc_out := ls'\<rparr>))
                | AnswerDone buf n err' ls \<Rightarrow>
                    (let self'' = self'\<lparr>bc_out := ls\<rparr> in
                     if n = 0 \<or> n > 1
                     then Inr (None, set_error (IExprError GEBR_IEXPR_ERROR_SYNTAX []) err', self'')
                     else Inr (Some (butlast buf), err', self'')))))"

section \<open>Evaluation\<close>

text \<open>
  \<open>strtod\<close> is \<open>g_ascii_strtod\<close>; the result is \<open>None\<close> where the code returns \<open>FALSE\<close>. Neither of the
  two refusals of a character touches the process.
\<close>

definition gebr_arith_expr_eval ::
    "(string \<Rightarrow> 'r) \<Rightarrow> writing \<Rightarrow> string \<Rightarrow> gerror option \<Rightarrow> arith_expr \<Rightarrow> 'r option outcome" where
  "gebr_arith_expr_eval strtod wr e err self =
     (if \<not> initialized self then Inr (None, set_error (IExprError GEBR_IEXPR_ERROR_INITIALIZE []) err, self)
      else if has_char e (CHR '';'') then Inr (None, set_error (IExprError GEBR_IEXPR_ERROR_SYNTAX '';'') err, self)
      else if has_char e (CHR 0x22) then Inr (None, set_error (IExprError GEBR_IEXPR_ERROR_SYNTAX [CHR 0x22]) err, self)
      else map_sum id (map_prod (map_option strtod) id) (gebr_arith_expr_eval_internal wr e err self))"

text \<open>
  \<open>gebr_arith_expr_eval_impl\<close> writes a result also when the evaluation failed: that of \<open>zero\<close>.
  \<open>fmt\<close> is \<open>printf\<close> with \<open>%.10lf\<close>.
\<close>

definition gebr_arith_expr_eval_impl ::
    "(string \<Rightarrow> 'r) \<Rightarrow> 'r \<Rightarrow> ('r \<Rightarrow> string) \<Rightarrow> writing \<Rightarrow> string \<Rightarrow> gerror option \<Rightarrow> arith_expr \<Rightarrow>
     (bool \<times> string) outcome" where
  "gebr_arith_expr_eval_impl strtod zero fmt wr e err self =
     map_sum id (map_prod (\<lambda>r. (r \<noteq> None,
         gebr_str_remove_trailing_zeros (fmt (case r of None \<Rightarrow> zero | Some x \<Rightarrow> x)))) id)
       (gebr_arith_expr_eval strtod wr e err self)"

section \<open>Variables of an expression\<close>

text \<open>
  The matches of the caseless pattern \<open>([a-z][0-9a-z_]*)\s*(.?)\<close> in an ASCII text: a word, the blanks after it and
  one more character, which the next match does not see again.
\<close>

function word_matches :: "string \<Rightarrow> (string \<times> string) list" where
  "word_matches [] = []"
| "word_matches (c # s) =
     (if is_alpha c
      then (let r = dropWhile is_space (dropWhile word_char s)
            in (c # takeWhile word_char s, take 1 r) # word_matches (drop 1 r))
      else word_matches s)"
  by pat_completeness auto
termination
  by (relation "measure length")
    (auto simp: less_Suc_eq_le intro!: le_SucI order_trans [OF diff_le_self]
      order_trans [OF length_dropWhile_le length_dropWhile_le])

definition gebr_arith_expr_extract_vars :: "string \<Rightarrow> string list" where
  "gebr_arith_expr_extract_vars e =
     rev (foldl (\<lambda>vs (w, nxt). if \<not> prefix ''('' nxt \<and> w \<notin> set vs then w # vs else vs) [] (word_matches e))"

text \<open>The pattern \<open>^[a-z][a-z0-9_]*$\<close> on a word of an expression.\<close>

definition lower_name :: "string \<Rightarrow> bool" where
  "lower_name w \<longleftrightarrow>
     (case w of [] \<Rightarrow> False
      | c # s \<Rightarrow> is_lower c \<and> list_all (\<lambda>x. is_lower x \<or> is_digit x \<or> x = CHR ''_'') s)"

text \<open>The loop over the variables stops at the first one that is badly named or not defined.\<close>

datatype var_check = VarsFine | InvalidVar string | UndefVar string

fun check_vars :: "string set \<Rightarrow> string list \<Rightarrow> var_check" where
  "check_vars defs [] = VarsFine"
| "check_vars defs (w # ws) =
     (if \<not> lower_name w then InvalidVar w
      else if w \<notin> defs then UndefVar w
      else check_vars defs ws)"

section \<open>The expression interface\<close>

datatype parameter_type =
    GEBR_GEOXML_PARAMETER_TYPE_UNKNOWN | GEBR_GEOXML_PARAMETER_TYPE_STRING
  | GEBR_GEOXML_PARAMETER_TYPE_INT | GEBR_GEOXML_PARAMETER_TYPE_FILE
  | GEBR_GEOXML_PARAMETER_TYPE_FLAG | GEBR_GEOXML_PARAMETER_TYPE_FLOAT
  | GEBR_GEOXML_PARAMETER_TYPE_RANGE | GEBR_GEOXML_PARAMETER_TYPE_ENUM
  | GEBR_GEOXML_PARAMETER_TYPE_GROUP | GEBR_GEOXML_PARAMETER_TYPE_REFERENCE

text \<open>
  When the assignment does not answer 0, \<open>retval\<close> is still \<open>TRUE\<close>: the call sets an error, does not
  keep the variable, and returns \<open>TRUE\<close>.
\<close>

definition gebr_arith_expr_set_var ::
    "writing \<Rightarrow> string \<Rightarrow> parameter_type \<Rightarrow> string \<Rightarrow> gerror option \<Rightarrow> arith_expr \<Rightarrow> bool outcome" where
  "gebr_arith_expr_set_var wr name ty v err self =
     (if \<not> initialized self then Inr (False, set_error (IExprError GEBR_IEXPR_ERROR_INITIALIZE []) err, self)
      else if ty \<noteq> GEBR_GEOXML_PARAMETER_TYPE_FLOAT \<and> ty \<noteq> GEBR_GEOXML_PARAMETER_TYPE_INT
        then Inr (False, set_error (IExprError GEBR_IEXPR_ERROR_INVAL_TYPE []) err, self)
      else case check_vars (defined_vars self) (gebr_arith_expr_extract_vars v) of
        InvalidVar w \<Rightarrow> Inr (False, set_error (IExprError GEBR_IEXPR_ERROR_INVAL_VAR w) err, self)
      | UndefVar w \<Rightarrow> Inr (False, set_error (IExprError GEBR_IEXPR_ERROR_UNDEF_VAR w) err, self)
      | VarsFine \<Rightarrow>
          (let asgn = name @ ''='' @ v @ '';0'' in
           case gebr_arith_expr_eval_internal wr asgn err self of
             Inl st \<Rightarrow> Inl st
           | Inr (None, err', self') \<Rightarrow> Inr (False, err', self')
           | Inr (Some r, err', self') \<Rightarrow>
               if r \<noteq> ''0'' then Inr (True, set_error (IExprError GEBR_IEXPR_ERROR_SYNTAX asgn) err', self')
               else Inr (True, err', self'\<lparr>defined_vars := insert name (defined_vars self')\<rparr>)))"

definition gebr_arith_expr_is_valid ::
    "writing \<Rightarrow> string \<Rightarrow> gerror option \<Rightarrow> arith_expr \<Rightarrow> bool outcome" where
  "gebr_arith_expr_is_valid wr e err self =
     (let chk = check_vars (defined_vars self) (gebr_arith_expr_extract_vars e) in
      case chk of
        InvalidVar w \<Rightarrow> Inr (False, set_error (IExprError GEBR_IEXPR_ERROR_INVAL_VAR w) err, self)
      | _ \<Rightarrow>
          (case gebr_arith_expr_eval id wr e err self of
             Inl st \<Rightarrow> Inl st
           | Inr (None, err', self') \<Rightarrow> Inr (False, err', self')
           | Inr (Some r, err', self') \<Rightarrow>
               (case chk of
                  UndefVar w \<Rightarrow> Inr (False, set_error (IExprError GEBR_IEXPR_ERROR_UNDEF_VAR w) err', self')
                | _ \<Rightarrow> Inr (True, err', self'))))"

definition gebr_arith_expr_reset :: "arith_expr \<Rightarrow> arith_expr" where
  "gebr_arith_expr_reset self = self\<lparr>defined_vars := {}\<rparr>"

section \<open>Properties\<close>

text \<open>A line that is read in full: not the stamp, at least one character before its newline, and a colon when it is an error.\<close>

definition bc_line_ok :: "string \<Rightarrow> bool" where
  "bc_line_ok l \<longleftrightarrow> l \<noteq> EVAL_COOKIE \<and> 2 \<le> length l \<and>
     (prefix ''(standard_in) '' l \<or> prefix ''Runtime error (func'' l \<longrightarrow> has_char l (CHR '':''))"

definition asked :: "string \<Rightarrow> bc_item list \<Rightarrow> arith_expr \<Rightarrow> arith_expr" where
  "asked e ls self = self\<lparr>bc_in := bc_in self @ [e @ [NL, CHR 0x22] @ EVAL_COOKIE @ [CHR 0x22, NL]], bc_out := ls\<rparr>"

lemma read_stamp: "read_answer (BcLine EVAL_COOKIE # ls) buf n err = AnswerDone buf n err ls"
  by simp

declare read_answer.simps(3) [simp del]

lemma flush_to_stamp:
  "EVAL_COOKIE \<notin> set ls \<Longrightarrow> flush_answer (map BcLine ls @ BcLine EVAL_COOKIE # rest) = Some rest"
  by (induction ls) auto

lemma flush_without_stamp: "BcLine EVAL_COOKIE \<notin> set ls \<Longrightarrow> flush_answer ls = None"
  by (induction ls) auto

lemma bc_line_not_cookie: "list_all bc_line_ok ls \<Longrightarrow> EVAL_COOKIE \<notin> set ls"
  by (auto simp: list_all_iff bc_line_ok_def)

lemma set_error_Some [simp]: "set_error e err \<noteq> None"
  by (cases err) simp_all

lemma read_line:
  assumes "bc_line_ok l"
  shows "(\<exists>k. read_answer (BcLine l # ls) buf n err = error_answer k l err ls \<and> has_char l (CHR '':'')) \<or>
         (\<exists>buf2 n2. read_answer (BcLine l # ls) buf n err = read_answer ls buf2 n2 err)"
proof (cases "prefix ''(standard_in) '' l \<or> prefix ''Runtime error (func'' l")
  case True
  then have "read_answer (BcLine l # ls) buf n err = error_answer
      (if prefix ''(standard_in) '' l then GEBR_IEXPR_ERROR_SYNTAX else GEBR_IEXPR_ERROR_RUNTIME) l err ls"
    using assms by (auto simp: read_answer.simps(3) bc_line_ok_def)
  then show ?thesis using assms True by (auto simp: bc_line_ok_def)
next
  case False
  then have "read_answer (BcLine l # ls) buf n err =
      (if prefix ''Runtime warning (func'' l then read_answer ls buf n err
       else if l ! (length l - 2) = CHR 0x5C then read_answer ls (buf @ take (length l - 2) l) n err
       else read_answer ls (buf @ l) (n + 1) err)"
    using assms by (simp add: read_answer.simps(3) bc_line_ok_def)
  then show ?thesis by metis
qed

lemma read_answer_ok:
  assumes "list_all bc_line_ok ls"
  shows "(\<exists>buf' n'. read_answer (map BcLine ls @ BcLine EVAL_COOKIE # rest) buf n err = AnswerDone buf' n' err rest) \<or>
         (\<exists>err' ls'. read_answer (map BcLine ls @ BcLine EVAL_COOKIE # rest) buf n err = AnswerError err' ls' \<and>
            err' \<noteq> None \<and> flush_answer ls' = Some rest)"
  using assms
proof (induction ls arbitrary: buf n)
  case Nil
  then show ?case by (simp add: read_stamp)
next
  case (Cons l ls)
  let ?rest = "map BcLine ls @ BcLine EVAL_COOKIE # rest"
  have e: "\<exists>err'. error_answer k l err ?rest = AnswerError err' ?rest \<and> err' \<noteq> None"
    if "has_char l (CHR '':'')" for k
    using that set_error_Some by (fastforce simp: error_answer_def colon_message_def simp del: not_None_eq)
  consider (message) k where "read_answer (BcLine l # ?rest) buf n err = error_answer k l err ?rest"
      "has_char l (CHR '':'')"
    | (line) buf2 n2 where "read_answer (BcLine l # ?rest) buf n err = read_answer ?rest buf2 n2 err"
    using read_line [of l ?rest buf n err] Cons.prems by auto
  then show ?case
  proof cases
    case message
    with e [of k] flush_to_stamp [OF bc_line_not_cookie [of ls]] Cons.prems show ?thesis by auto
  next
    case line
    with Cons.IH [of buf2 n2] Cons.prems show ?thesis by simp
  qed
qed

text \<open>
  An evaluation reads exactly its own answer: whatever its result, the next evaluation starts
  behind the stamp of this one. It returns a value and no error, or no value and an error.
\<close>

theorem evaluation_resynchronises:
  assumes "g_strstrip e \<noteq> []" "list_all bc_line_ok ls"
    and "bc_out self = map BcLine ls @ BcLine EVAL_COOKIE # rest"
  shows "\<exists>r err. gebr_arith_expr_eval_internal (None, None) e None self = Inr (r, err, asked e rest self) \<and>
           (r = None \<longleftrightarrow> err \<noteq> None)"
  using assms(1,3) read_answer_ok [OF assms(2), of rest "[]" 0 None]
  by (elim disjE exE conjE) (auto simp: gebr_arith_expr_eval_internal_def Let_def asked_def)

definition calculator :: "bc_item list \<Rightarrow> arith_expr" where
  "calculator ls = \<lparr>defined_vars = {}, bc_in = [], bc_out = ls, initialized = True\<rparr>"

theorem evaluation_resynchronises_witness:
  "\<exists>r err. gebr_arith_expr_eval_internal (None, None) ''2+'' None
       (calculator (map BcLine [''(standard_in) 2: parse error'' @ [NL]] @ BcLine EVAL_COOKIE # [BcLine ''5'']))
     = Inr (r, err, asked ''2+'' [BcLine ''5'']
         (calculator (map BcLine [''(standard_in) 2: parse error'' @ [NL]] @ BcLine EVAL_COOKIE # [BcLine ''5'']))) \<and>
     (r = None \<longleftrightarrow> err \<noteq> None)"
  by (rule evaluation_resynchronises; (simp only: calculator_def arith_expr.select_convs)?; code_simp)

text \<open>A line of a number: none of the three texts that \<open>bc\<close> uses for messages, nor the stamp.\<close>

definition number_line :: "string \<Rightarrow> bool" where
  "number_line l \<longleftrightarrow> l \<noteq> [] \<and> last l \<noteq> CHR 0x5C \<and> hd l \<noteq> CHR ''('' \<and> hd l \<noteq> CHR ''R'' \<and> hd l \<noteq> CHR ''G''"

lemma number_line_item:
  assumes "number_line l" "c = CHR 0x5C \<or> c = NL"
  shows "l @ c # t \<noteq> EVAL_COOKIE \<and> \<not> prefix ''(standard_in) '' (l @ c # t) \<and>
         \<not> prefix ''Runtime error (func'' (l @ c # t) \<and> \<not> prefix ''Runtime warning (func'' (l @ c # t)"
  using assms by (cases l) (auto simp: number_line_def EVAL_COOKIE_def)

lemma read_number_end:
  assumes "number_line l"
  shows "read_answer (BcLine (l @ [NL]) # ls) buf n err = read_answer ls (buf @ l @ [NL]) (n + 1) err"
proof -
  have "(l @ [NL]) ! (length (l @ [NL]) - 2) = last l"
    using assms by (cases l rule: rev_cases) (auto simp: number_line_def nth_append)
  moreover have "\<not> length (l @ [NL]) < 2" "last l \<noteq> CHR 0x5C"
    using assms by (cases l; simp add: number_line_def)+
  ultimately show ?thesis using number_line_item [of l NL "[]"] assms by (simp add: read_answer.simps(3))
qed

lemma read_number_chunk:
  assumes "number_line l"
  shows "read_answer (BcLine (l @ [CHR 0x5C, NL]) # ls) buf n err = read_answer ls (buf @ l) n err"
  using number_line_item [of l "CHR 0x5C" "[NL]"] assms by (simp add: nth_append read_answer.simps(3))

lemma read_number:
  assumes "list_all number_line ds" "number_line d"
  shows "read_answer (map BcLine (map (\<lambda>x. x @ [CHR 0x5C, NL]) ds @ [d @ [NL], EVAL_COOKIE]) @ rest) buf n err =
         AnswerDone (buf @ concat ds @ d @ [NL]) (n + 1) err rest"
  using assms
proof (induction ds arbitrary: buf)
  case Nil
  then show ?case by (simp add: read_number_end read_stamp)
next
  case (Cons x ds)
  then show ?case by (simp add: read_number_chunk)
qed

text \<open>
  A long number, which \<open>bc\<close> breaks into lines that end with a backslash, is put together again:
  the value is the concatenation of the pieces, without the line breaks.
\<close>

theorem long_number_reassembled:
  assumes "g_strstrip e \<noteq> []" "list_all number_line ds" "number_line d"
    and "bc_out self = map BcLine (map (\<lambda>x. x @ [CHR 0x5C, NL]) ds @ [d @ [NL], EVAL_COOKIE]) @ rest"
  shows "gebr_arith_expr_eval_internal (None, None) e None self =
         Inr (Some (concat ds @ d), None, asked e rest self)"
  using assms(1,4) read_number [OF assms(2,3), of rest "[]" 0 None]
  by (simp add: gebr_arith_expr_eval_internal_def Let_def asked_def butlast_append)

definition two_lines :: "bc_item list" where
  "two_lines = map BcLine (map (\<lambda>x. x @ [CHR 0x5C, NL]) [''12''] @ [''34'' @ [NL], EVAL_COOKIE]) @ []"

theorem long_number_witness:
  "gebr_arith_expr_eval_internal (None, None) ''x'' None (calculator two_lines) =
   Inr (Some (concat [''12''] @ ''34''), None, asked ''x'' [] (calculator two_lines))"
  by (rule long_number_reassembled) (code_simp, code_simp, code_simp, simp add: calculator_def two_lines_def)

lemma check_vars_fine: "check_vars defs ws = VarsFine \<longleftrightarrow> list_all lower_name ws \<and> set ws \<subseteq> defs"
  by (induction ws) auto

lemma check_vars_lower: "check_vars defs ws = InvalidVar w \<Longrightarrow> w \<in> set ws \<and> \<not> lower_name w"
  by (induction ws) (auto split: if_splits)

lemma eval_keeps_vars:
  "gebr_arith_expr_eval_internal wr e err self = Inr (r, err', self') \<Longrightarrow> defined_vars self' = defined_vars self"
  by (auto simp: gebr_arith_expr_eval_internal_def Let_def split: if_splits prod.splits option.splits answer.splits)

text \<open>
  An expression that is reported valid was evaluated to a value, uses only variables that are
  written in lower case and defined, and holds neither a semicolon nor a quote, so it cannot send a second
  statement or a forged stamp to \<open>bc\<close>; checking it defines no variable.
\<close>

theorem valid_expression_uses_defined:
  assumes "gebr_arith_expr_is_valid wr e err self = Inr (True, err', self')"
  shows "set (gebr_arith_expr_extract_vars e) \<subseteq> defined_vars self \<inter> {w. lower_name w} \<and>
         \<not> has_char e (CHR '';'') \<and> \<not> has_char e (CHR 0x22) \<and> defined_vars self' = defined_vars self \<and>
         (\<exists>r. gebr_arith_expr_eval_internal wr e err self = Inr (Some r, err', self'))"
proof -
  have fine: "check_vars (defined_vars self) (gebr_arith_expr_extract_vars e) = VarsFine"
    using assms by (auto simp: gebr_arith_expr_is_valid_def Let_def split: var_check.splits sum.splits prod.splits option.splits)
  then obtain r where r: "gebr_arith_expr_eval id wr e err self = Inr (Some r, err', self')"
    using assms by (auto simp: gebr_arith_expr_is_valid_def split: sum.splits prod.splits option.splits)
  then have i: "gebr_arith_expr_eval_internal wr e err self = Inr (Some r, err', self')"
    by (cases "gebr_arith_expr_eval_internal wr e err self")
      (auto simp: gebr_arith_expr_eval_def split: if_splits)
  then show ?thesis
    using r fine eval_keeps_vars [OF i]
    by (auto simp: check_vars_fine list_all_iff gebr_arith_expr_eval_def split: if_splits)
qed

definition valid_calculator :: arith_expr where
  "valid_calculator = (calculator two_lines)\<lparr>defined_vars := {''x''}\<rparr>"

theorem valid_expression_witness:
  "set (gebr_arith_expr_extract_vars ''x+1'') \<subseteq> {''x''}"
proof -
  have v: "gebr_arith_expr_extract_vars ''x+1'' = [''x'']" by code_simp
  have "gebr_arith_expr_eval_internal (None, None) ''x+1'' None valid_calculator =
      Inr (Some (concat [''12''] @ ''34''), None, asked ''x+1'' [] valid_calculator)"
    by (rule long_number_reassembled)
      (code_simp, code_simp, code_simp, simp add: valid_calculator_def calculator_def two_lines_def)
  then have "gebr_arith_expr_is_valid (None, None) ''x+1'' None valid_calculator =
      Inr (True, None, asked ''x+1'' [] valid_calculator)"
    by (simp add: gebr_arith_expr_is_valid_def gebr_arith_expr_eval_def v has_char_def lower_name_def
        is_lower_def code_def valid_calculator_def calculator_def)
  from valid_expression_uses_defined [OF this] show ?thesis
    by (simp add: valid_calculator_def calculator_def)
qed

text \<open>
  An assignment whose value makes \<open>bc\<close> print something other than 0 is refused with an error, and
  the variable stays undefined, but the call still returns \<open>TRUE\<close>.
\<close>

theorem refused_assignment_returns_true:
  assumes "initialized self" "ty \<in> {GEBR_GEOXML_PARAMETER_TYPE_FLOAT, GEBR_GEOXML_PARAMETER_TYPE_INT}"
    and "set (gebr_arith_expr_extract_vars v) \<subseteq> defined_vars self \<inter> {w. lower_name w}"
    and "number_line r" "r \<noteq> ''0''"
    and "bc_out self = BcLine (r @ [NL]) # BcLine EVAL_COOKIE # rest"
  shows "let asgn = name @ ''='' @ v @ '';0'' in
         gebr_arith_expr_set_var (None, None) name ty v None self =
           Inr (True, Some (IExprError GEBR_IEXPR_ERROR_SYNTAX asgn), asked asgn rest self)"
proof -
  let ?asgn = "name @ ''='' @ v @ '';0''"
  have "check_vars (defined_vars self) (gebr_arith_expr_extract_vars v) = VarsFine"
    using assms(3) by (auto simp: check_vars_fine list_all_iff)
  moreover have "g_strstrip ?asgn \<noteq> []"
    by (auto simp: g_strstrip_all_space is_space_def code_def)
  then have "gebr_arith_expr_eval_internal (None, None) ?asgn None self =
      Inr (Some (concat [] @ r), None, asked ?asgn rest self)"
    by (rule long_number_reassembled) (simp_all add: assms(4,6))
  ultimately show ?thesis
    using assms(1,2,5) by (auto simp: gebr_arith_expr_set_var_def Let_def)
qed

theorem refused_assignment_witness:
  "let asgn = ''n'' @ ''='' @ ''1;3#'' @ '';0''; self = calculator [BcLine (''3'' @ [NL]), BcLine EVAL_COOKIE] in
   gebr_arith_expr_set_var (None, None) ''n'' GEBR_GEOXML_PARAMETER_TYPE_INT ''1;3#'' None self =
     Inr (True, Some (IExprError GEBR_IEXPR_ERROR_SYNTAX asgn), asked asgn [] self)"
proof -
  have "gebr_arith_expr_extract_vars ''1;3#'' = []" by code_simp
  then show ?thesis
    unfolding Let_def
    by (intro refused_assignment_returns_true [unfolded Let_def]) (simp_all add: calculator_def number_line_def)
qed

text \<open>When the stream ends after an error line and before the stamp, the flushing loop never ends.\<close>

theorem dead_process_hangs:
  assumes "g_strstrip e \<noteq> []" "prefix ''Runtime error (func'' l" "has_char l (CHR '':'')"
    and "bc_out self = BcLine l # ls" "BcLine EVAL_COOKIE \<notin> set ls"
  shows "gebr_arith_expr_eval_internal (None, None) e err self = Inl Hang"
proof -
  have "l \<noteq> EVAL_COOKIE" "\<not> prefix ''(standard_in) '' l"
    using assms(2) by (auto simp: prefix_def EVAL_COOKIE_def)
  then have "read_answer (BcLine l # ls) [] 0 err =
      AnswerError (set_error (IExprError GEBR_IEXPR_ERROR_RUNTIME (butlast (dropWhile (\<lambda>c. c \<noteq> CHR '':'') l))) err) ls"
    using assms(2,3) by (simp add: read_answer.simps(3) error_answer_def colon_message_def)
  then show ?thesis
    using assms(1,4) flush_without_stamp [OF assms(5)] by (simp add: gebr_arith_expr_eval_internal_def Let_def)
qed

end
