(* ===== verification/Validate.thy ===== *)
theory Validate
  imports Utils
begin

text \<open>
  Validation of the texts of a menu, after \<open>libgebr/validate.c\<close>: the table of cases, the checks, the
  automatic changes, and the loop that applies the changes until every check that has one is passed.

  Texts are UTF-8 bytes. What the code asks GLib about Unicode is a parameter: whether the first
  character is a lower case letter (\<open>g_unichar_islower\<close> of \<open>g_utf8_get_char_validated\<close>), the number of its bytes,
  and \<open>g_utf8_strup\<close> of them. The regular expressions are written out as the functions they are,
  on the ASCII classes of the C locale; the texts are valid UTF-8, as \<open>GRegex\<close> needs. \<open>_\<close> translates nothing.
\<close>

section \<open>Flags and cases\<close>

text \<open>The bits of \<open>gint flags\<close>; a value of flags is the set of its bits.\<close>

datatype check_flag = CHECK_EMPTY | CHECK_CAPIT | CHECK_NOBLK | CHECK_MTBLK | CHECK_NOPNT
  | CHECK_EMAIL | CHECK_FILEN | CHECK_LABEL_HOTKEY | CHECK_URL | CHECK_TABS

datatype case_name = CASE_AUTHOR | CASE_CATEGORY | CASE_DATE | CASE_DESCRIPTION | CASE_FILENAME
  | CASE_HELP | CASE_TITLE | CASE_EMAIL | CASE_PROGRAM_BINARY | CASE_PROGRAM_DESCRIPTION
  | CASE_PROGRAM_TITLE | CASE_PROGRAM_URL | CASE_PROGRAM_VERSION | CASE_PARAMETER_KEYWORD
  | CASE_PARAMETER_LABEL

record validate_case =
  case_name :: case_name
  case_flags :: "check_flag set"
  validcase_msg :: string

definition validate_cases :: "validate_case list" where
  "validate_cases =
    [\<lparr>case_name = CASE_FILENAME, case_flags = {CHECK_NOBLK, CHECK_MTBLK, CHECK_FILEN},
      validcase_msg = ''File names must be a valid path.''\<rparr>,
     \<lparr>case_name = CASE_TITLE,
      case_flags = {CHECK_EMPTY, CHECK_CAPIT, CHECK_NOBLK, CHECK_MTBLK, CHECK_NOPNT, CHECK_TABS},
      validcase_msg = ''Titles should be capitalized and have no punctuation characters at the end.''\<rparr>,
     \<lparr>case_name = CASE_DESCRIPTION,
      case_flags = {CHECK_EMPTY, CHECK_CAPIT, CHECK_NOBLK, CHECK_MTBLK, CHECK_NOPNT, CHECK_TABS},
      validcase_msg = ''Description should be capitalized and have no punctuation characters at the end.''\<rparr>,
     \<lparr>case_name = CASE_AUTHOR,
      case_flags = {CHECK_EMPTY, CHECK_CAPIT, CHECK_NOBLK, CHECK_MTBLK, CHECK_NOPNT, CHECK_TABS},
      validcase_msg = ''Author should be capitalized and have no punctuation characters at the end.''\<rparr>,
     \<lparr>case_name = CASE_DATE, case_flags = {CHECK_EMPTY}, validcase_msg = ''Date should not be empty.''\<rparr>,
     \<lparr>case_name = CASE_HELP, case_flags = {CHECK_EMPTY}, validcase_msg = ''Help should not be empty.''\<rparr>,
     \<lparr>case_name = CASE_CATEGORY,
      case_flags = {CHECK_EMPTY, CHECK_CAPIT, CHECK_NOBLK, CHECK_MTBLK, CHECK_NOPNT, CHECK_TABS},
      validcase_msg = ''Categories should be capitalized and have no punctuation characters at the end.''\<rparr>,
     \<lparr>case_name = CASE_EMAIL, case_flags = {CHECK_EMAIL}, validcase_msg = ''Invalid email address.''\<rparr>,
     \<lparr>case_name = CASE_PROGRAM_TITLE,
      case_flags = {CHECK_EMPTY, CHECK_CAPIT, CHECK_NOBLK, CHECK_MTBLK, CHECK_NOPNT, CHECK_TABS},
      validcase_msg = ''Program titles should be capitalized and have no punctuation characters at the end.''\<rparr>,
     \<lparr>case_name = CASE_PROGRAM_DESCRIPTION,
      case_flags = {CHECK_EMPTY, CHECK_CAPIT, CHECK_NOBLK, CHECK_MTBLK, CHECK_NOPNT, CHECK_TABS},
      validcase_msg = ''Program description should be capitalized and have no punctuation characters at the end.''\<rparr>,
     \<lparr>case_name = CASE_PROGRAM_BINARY, case_flags = {CHECK_EMPTY},
      validcase_msg = ''Binaries should not be empty.''\<rparr>,
     \<lparr>case_name = CASE_PROGRAM_VERSION,
      case_flags = {CHECK_EMPTY, CHECK_NOBLK, CHECK_NOPNT, CHECK_MTBLK, CHECK_TABS},
      validcase_msg = ''Program version should be filled in.''\<rparr>,
     \<lparr>case_name = CASE_PROGRAM_URL, case_flags = {CHECK_EMPTY, CHECK_URL},
      validcase_msg = ''Program url should start with a protocol.''\<rparr>,
     \<lparr>case_name = CASE_PARAMETER_LABEL,
      case_flags = {CHECK_EMPTY, CHECK_CAPIT, CHECK_NOBLK, CHECK_MTBLK, CHECK_NOPNT, CHECK_LABEL_HOTKEY, CHECK_TABS},
      validcase_msg = ''Parameter label should be capitalized and have no punctuation characters at the end. Also, be careful with colliding shortcuts.''\<rparr>,
     \<lparr>case_name = CASE_PARAMETER_KEYWORD, case_flags = {CHECK_EMPTY},
      validcase_msg = ''Parameter keyword should not be empty.''\<rparr>]"

definition gebr_validate_get_validate_case :: "case_name \<Rightarrow> validate_case option" where
  "gebr_validate_get_validate_case n = List.find (\<lambda>c. case_name c = n) validate_cases"

definition gebr_validate_case_get_message :: "validate_case \<Rightarrow> string" where
  "gebr_validate_case_get_message c = validcase_msg c"

section \<open>Checks\<close>

record unicode =
  lower_first :: "string \<Rightarrow> bool"
  first_len :: "string \<Rightarrow> nat"
  strup :: "string \<Rightarrow> string"

definition gebr_validate_check_is_not_empty :: "string \<Rightarrow> bool" where
  "gebr_validate_check_is_not_empty s \<longleftrightarrow> length s \<noteq> 0"

definition gebr_validate_check_no_lower_case :: "unicode \<Rightarrow> string \<Rightarrow> bool" where
  "gebr_validate_check_no_lower_case U s \<longleftrightarrow>
     (if \<not> gebr_validate_check_is_not_empty s then True else \<not> lower_first U s)"

text \<open>No tab; no two consecutive blanks.\<close>

definition gebr_validate_check_tabs :: "string \<Rightarrow> bool" where
  "gebr_validate_check_tabs s \<longleftrightarrow> \<not> has_char s (CHR 0x09)"

definition gebr_validate_check_no_multiple_blanks :: "string \<Rightarrow> bool" where
  "gebr_validate_check_no_multiple_blanks s \<longleftrightarrow> strstr s ''  '' = None"

definition boundary_blank :: "char \<Rightarrow> bool" where
  "boundary_blank c \<longleftrightarrow> c = CHR '' '' \<or> c = CHR 0x09"

definition gebr_validate_check_no_blanks_at_boundaries :: "string \<Rightarrow> bool" where
  "gebr_validate_check_no_blanks_at_boundaries s \<longleftrightarrow>
     (if s = [] then True else \<not> (boundary_blank (hd s) \<or> boundary_blank (last s)))"

definition end_punct :: "char \<Rightarrow> bool" where
  "end_punct c \<longleftrightarrow> c \<noteq> CHR '')'' \<and> is_punct c"

definition gebr_validate_check_no_punctuation_at_end :: "string \<Rightarrow> bool" where
  "gebr_validate_check_no_punctuation_at_end s \<longleftrightarrow> (if s = [] then True else \<not> end_punct (last s))"

text \<open>\<open>g_path_get_basename\<close>.\<close>

definition g_path_get_basename :: "string \<Rightarrow> string" where
  "g_path_get_basename s =
     (if s = [] then ''.''
      else let r = dropWhile (\<lambda>c. c = CHR ''/'') (rev s) in
           if r = [] then ''/'' else rev (takeWhile (\<lambda>c. c \<noteq> CHR ''/'') r))"

definition gebr_validate_check_menu_filename :: "string \<Rightarrow> bool" where
  "gebr_validate_check_menu_filename s \<longleftrightarrow>
     (if g_path_get_basename s \<noteq> s then False else suffix ''.mnu'' s)"

text \<open>
  The pattern of an address, without case: a local part, an at sign, and a domain whose last dot
  stands before its last character. No part of the pattern matches a second at sign.
\<close>

definition local_char :: "char \<Rightarrow> bool" where
  "local_char c \<longleftrightarrow> is_alnum c \<or> c \<in> {CHR ''_'', CHR ''.'', CHR ''-''}"

definition domain_char :: "char \<Rightarrow> bool" where
  "domain_char c \<longleftrightarrow> is_alnum c \<or> c \<in> {CHR ''.'', CHR ''-''}"

definition gebr_validate_check_is_email :: "string \<Rightarrow> bool" where
  "gebr_validate_check_is_email s \<longleftrightarrow>
     (if s \<noteq> []
      then let l = takeWhile (\<lambda>c. c \<noteq> CHR ''@'') s; d = drop (length l + 1) s in
           has_char s (CHR ''@'') \<and> l \<noteq> [] \<and> list_all local_char l \<and>
           list_all domain_char d \<and> has_char d (CHR ''.'') \<and> last d \<noteq> CHR ''.''
      else True)"

definition gebr_validate_check_is_url :: "string \<Rightarrow> bool" where
  "gebr_validate_check_is_url s \<longleftrightarrow>
     prefix ''http://'' s \<or> prefix ''mailto:'' s \<or> prefix ''file://'' s \<or> prefix ''ftp://'' s"

section \<open>Changes\<close>

definition gebr_validate_change_first_to_upper :: "unicode \<Rightarrow> string \<Rightarrow> string" where
  "gebr_validate_change_first_to_upper U s =
     (let n = first_len U s in strup U (take n s) @ drop n s)"

text \<open>Every longest run of at least \<open>k\<close> characters of a class becomes one blank.\<close>

function squeeze :: "(char \<Rightarrow> bool) \<Rightarrow> nat \<Rightarrow> string \<Rightarrow> string" where
  "squeeze P k [] = []"
| "squeeze P k (c # s) =
     (if P c
      then (let run = c # takeWhile P s in if k \<le> length run then '' '' else run) @ squeeze P k (dropWhile P s)
      else c # squeeze P k s)"
  by pat_completeness auto
termination
  by (relation "measure (\<lambda>(P, k, s). length s)") (simp_all add: less_Suc_eq_le length_dropWhile_le)

definition gebr_validate_change_tabs :: "string \<Rightarrow> string" where
  "gebr_validate_change_tabs s = squeeze (\<lambda>c. c = CHR 0x09) 1 s"

definition gebr_validate_change_multiple_blanks :: "string \<Rightarrow> string" where
  "gebr_validate_change_multiple_blanks s = squeeze is_space 2 s"

definition gebr_validate_change_no_blanks_at_boundaries :: "string \<Rightarrow> string" where
  "gebr_validate_change_no_blanks_at_boundaries s = g_strstrip s"

text \<open>
  The loop goes down from the last character; when every character is punctuation it reads the byte
  before the string: \<open>None\<close>. It is called on texts that are not empty only.
\<close>

definition gebr_validate_change_no_punctuation_at_end :: "string \<Rightarrow> cstr" where
  "gebr_validate_change_no_punctuation_at_end s =
     (let r = dropWhile end_punct (rev s) in if r = [] then None else Some (rev r))"

definition gebr_validate_change_url :: "string \<Rightarrow> string" where
  "gebr_validate_change_url s =
     (if gebr_validate_check_is_email s then ''mailto:'' @ s
      else if prefix ''ftp.'' s then ''ftp://'' @ s
      else if prefix ''/'' s then ''file://'' @ s
      else ''http://'' @ s)"

section \<open>Cases\<close>

definition gebr_validate_case_check_value_aux ::
    "unicode \<Rightarrow> check_flag set \<Rightarrow> string \<Rightarrow> check_flag set \<Rightarrow> check_flag set" where
  "gebr_validate_case_check_value_aux U flags v failed =
     (let check = (\<lambda>f ok failed. if f \<in> flags \<and> \<not> ok then insert f failed else failed) in
      (check CHECK_TABS (gebr_validate_check_tabs v)
      (check CHECK_URL (gebr_validate_check_is_url v)
      (check CHECK_FILEN (gebr_validate_check_menu_filename v)
      (check CHECK_EMAIL (gebr_validate_check_is_email v)
      (check CHECK_NOPNT (gebr_validate_check_no_punctuation_at_end v)
      (check CHECK_MTBLK (gebr_validate_check_no_multiple_blanks v)
      (check CHECK_NOBLK (gebr_validate_check_no_blanks_at_boundaries v)
      (check CHECK_CAPIT (gebr_validate_check_no_lower_case U v)
      (check CHECK_EMPTY (gebr_validate_check_is_not_empty v) failed))))))))))"

definition can_fix :: "validate_case \<Rightarrow> string \<Rightarrow> bool" where
  "can_fix c v \<longleftrightarrow> \<not> (length v = 0 \<or> CHECK_EMAIL \<in> case_flags c \<or> CHECK_FILEN \<in> case_flags c)"

text \<open>The failed checks, and \<open>can_fix\<close>.\<close>

definition gebr_validate_case_check_value :: "unicode \<Rightarrow> validate_case \<Rightarrow> string \<Rightarrow> check_flag set \<times> bool" where
  "gebr_validate_case_check_value U c v =
     (if case_name c = CASE_CATEGORY
      then fold (\<lambda>cat failed. gebr_validate_case_check_value_aux U (case_flags c) cat failed) (g_strsplit v ''|'' 0) {}
      else gebr_validate_case_check_value_aux U (case_flags c) v {},
      can_fix c v)"

text \<open>
  One pass: each check with a change, in the order of the code, on the text that the changes before
  it left. \<open>fix_when\<close> is one of the six blocks; \<open>None\<close> is the read before the string.
\<close>

definition fix_when :: "bool \<Rightarrow> (string \<Rightarrow> bool) \<Rightarrow> (string \<Rightarrow> cstr) \<Rightarrow> string \<times> bool \<Rightarrow> (string \<times> bool) option" where
  "fix_when flag ok chg x =
     (if flag \<and> \<not> ok (fst x) then map_option (\<lambda>s. (s, True)) (chg (fst x)) else Some x)"

definition gebr_validate_case_fix_aux :: "unicode \<Rightarrow> check_flag set \<Rightarrow> string \<Rightarrow> (string \<times> bool) option" where
  "gebr_validate_case_fix_aux U flags v =
     Option.bind (fix_when (CHECK_CAPIT \<in> flags) (gebr_validate_check_no_lower_case U)
       (\<lambda>s. Some (gebr_validate_change_first_to_upper U s)) (v, False)) (\<lambda>x.
     Option.bind (fix_when (CHECK_NOBLK \<in> flags) gebr_validate_check_no_blanks_at_boundaries
       (\<lambda>s. Some (gebr_validate_change_no_blanks_at_boundaries s)) x) (\<lambda>x.
     Option.bind (fix_when (CHECK_MTBLK \<in> flags) gebr_validate_check_no_multiple_blanks
       (\<lambda>s. Some (gebr_validate_change_multiple_blanks s)) x) (\<lambda>x.
     Option.bind (fix_when (CHECK_NOPNT \<in> flags) gebr_validate_check_no_punctuation_at_end
       gebr_validate_change_no_punctuation_at_end x) (\<lambda>x.
     Option.bind (fix_when (CHECK_URL \<in> flags) gebr_validate_check_is_url
       (\<lambda>s. Some (gebr_validate_change_url s)) x) (\<lambda>x.
     fix_when (CHECK_TABS \<in> flags) gebr_validate_check_tabs
       (\<lambda>s. Some (gebr_validate_change_tabs s)) x)))))"

text \<open>The passes are repeated while one of them changes something: \<open>None\<close> also when that never stops.\<close>

partial_function (option) gebr_validate_case_fix_aux_iter :: "unicode \<Rightarrow> check_flag set \<Rightarrow> string \<Rightarrow> cstr" where
  "gebr_validate_case_fix_aux_iter U flags v =
     Option.bind (gebr_validate_case_fix_aux U flags v)
       (\<lambda>x. if snd x then gebr_validate_case_fix_aux_iter U flags (fst x) else Some (fst x))"

fun fix_categories :: "(string \<Rightarrow> cstr) \<Rightarrow> string list \<Rightarrow> cstr" where
  "fix_categories fx [] = Some []"
| "fix_categories fx (cat # cats) =
     Option.bind (fx cat) (\<lambda>f. map_option (\<lambda>r. f @ (if cats \<noteq> [] then ''|'' else []) @ r) (fix_categories fx cats))"

text \<open>\<open>Some None\<close> is the answer NULL: there is no automatic change.\<close>

definition gebr_validate_case_fix :: "unicode \<Rightarrow> validate_case \<Rightarrow> string \<Rightarrow> cstr option" where
  "gebr_validate_case_fix U c v =
     (if \<not> snd (gebr_validate_case_check_value U c v) then Some None
      else map_option Some
        (if case_name c = CASE_CATEGORY
         then fix_categories (gebr_validate_case_fix_aux_iter U (case_flags c)) (g_strsplit v ''|'' 0)
         else gebr_validate_case_fix_aux_iter U (case_flags c) v))"

section \<open>Messages\<close>

definition gebr_validate_case_automatic_fixes_msg :: "unicode \<Rightarrow> validate_case \<Rightarrow> string \<Rightarrow> string \<times> bool" where
  "gebr_validate_case_automatic_fixes_msg U c v =
     (let (failed, fixable) = gebr_validate_case_check_value U c v in
      if \<not> fixable then (''<b>No automatic fix available</b>'', fixable)
      else (''<b>Click on the icon to fix:</b>'' @
        (if CHECK_CAPIT \<in> failed then NL # '' - Capitalize first letter''
         else if CHECK_NOBLK \<in> failed then NL # '' - Remove spaces at the beginning/end''
         else if CHECK_MTBLK \<in> failed then NL # '' - Remove multiples spaces''
         else if CHECK_NOPNT \<in> failed then NL # '' - Remove final punctuation character''
         else if CHECK_URL \<in> failed then NL # '' - Add URL scheme''
         else if CHECK_TABS \<in> failed then NL # '' - Replace tabs by space''
         else []), fixable))"

definition gebr_validate_flags_failed_msg :: "check_flag set \<Rightarrow> cstr" where
  "gebr_validate_flags_failed_msg failed =
     (if failed = {} then None
      else Some (''<b>Error(s) found:</b>'' @ concat (map (\<lambda>(f, msg). if f \<in> failed then NL # msg else [])
        [(CHECK_EMPTY, '' - The field is not filled in''),
         (CHECK_CAPIT, '' - First letter should be capitalized''),
         (CHECK_NOBLK, '' - There are spaces at the beginning/end''),
         (CHECK_MTBLK, '' - There are multiples spaces''),
         (CHECK_NOPNT, '' - This field should not have a final punctuation''),
         (CHECK_EMAIL, '' - Invalid email address''),
         (CHECK_FILEN, '' - Invalid menu filename''),
         (CHECK_LABEL_HOTKEY, '' - Duplicated hotkey''),
         (CHECK_URL, '' - URL scheme is missing''),
         (CHECK_TABS, '' - There are tabs'')])))"

section \<open>The loop ends\<close>

text \<open>
  What the passes consume: tabs count twice, since they may become a blank, other blanks and punctuation
  once. A text is \<open>solid\<close> when something else is in it.
\<close>

definition weight :: "char \<Rightarrow> nat" where
  "weight c = (if c = CHR 0x09 then 2 else if is_space c \<or> end_punct c then 1 else 0)"

definition text_weight :: "string \<Rightarrow> nat" where
  "text_weight s = sum_list (map weight s)"

definition solid :: "string \<Rightarrow> bool" where
  "solid s \<longleftrightarrow> list_ex (\<lambda>c. weight c = 0) s"

lemma text_weight_simps [simp]:
  "text_weight [] = 0" "text_weight (c # s) = weight c + text_weight s"
  "text_weight (a @ b) = text_weight a + text_weight b" "text_weight (rev s) = text_weight s"
  by (simp_all add: text_weight_def rev_map [symmetric] sum_list_rev)

lemma solid_simps [simp]:
  "\<not> solid []" "solid (c # s) \<longleftrightarrow> weight c = 0 \<or> solid s" "solid (a @ b) \<longleftrightarrow> solid a \<or> solid b"
  "solid (rev s) \<longleftrightarrow> solid s"
  by (auto simp: solid_def list_ex_iff)

lemma weight_space [simp]: "weight (CHR '' '') = 1" "weight (CHR 0x09) = 2"
  by (simp_all add: weight_def is_space_def code_def)

lemma weight_blank: "is_space c \<Longrightarrow> 1 \<le> weight c"
  by (simp add: weight_def)

lemma weight_run: "\<forall>c \<in> set r. 1 \<le> weight c \<Longrightarrow> length r \<le> text_weight r \<and> \<not> solid r"
proof (induction r)
  case (Cons c r)
  then have "1 \<le> weight c" "length r \<le> text_weight r" "\<not> solid r" by auto
  then show ?case by simp
qed simp

lemma weight_split: "text_weight s = text_weight (takeWhile P s) + text_weight (dropWhile P s)"
  by (metis takeWhile_dropWhile_id text_weight_simps(3))

lemma solid_split: "solid s \<longleftrightarrow> solid (takeWhile P s) \<or> solid (dropWhile P s)"
  by (metis takeWhile_dropWhile_id solid_simps(3))

lemma run_weight:
  assumes "\<And>c. P c \<Longrightarrow> 1 \<le> weight c" "P c"
  shows "Suc (length (takeWhile P s)) \<le> text_weight (c # takeWhile P s) \<and> \<not> solid (c # takeWhile P s)"
proof -
  have "\<forall>x \<in> set (c # takeWhile P s). 1 \<le> weight x"
    using assms by (auto dest!: set_takeWhileD simp del: One_nat_def)
  from weight_run [OF this] show ?thesis by simp
qed

lemma squeeze_weight:
  assumes "\<And>c. P c \<Longrightarrow> 1 \<le> weight c"
  shows "text_weight (squeeze P k s) \<le> text_weight s \<and> (solid s \<longrightarrow> solid (squeeze P k s))"
  using assms
proof (induction P k s rule: squeeze.induct)
  case (2 P k c s)
  show ?case
  proof (cases "P c")
    case True
    then show ?thesis
      using 2 run_weight [of P c s] True weight_split [of s P] solid_split [of s P]
      by (auto simp: Let_def)
  qed (use 2 in auto)
qed simp

lemma squeeze_tabs:
  assumes "CHR 0x09 \<in> set s"
  shows "text_weight (squeeze (\<lambda>c. c = CHR 0x09) 1 s) < text_weight s"
  using assms
proof (induction "\<lambda>c. c = CHR 0x09" "1 :: nat" s rule: squeeze.induct)
  case (2 c s)
  let ?P = "\<lambda>c. c = CHR 0x09"
  show ?case
  proof (cases "c = CHR 0x09")
    case True
    then show ?thesis
      using squeeze_weight [of ?P 1 "dropWhile ?P s"] weight_split [of s ?P] by (simp add: Let_def)
  qed (use 2 in auto)
qed simp

lemma squeeze_blanks:
  assumes "s = a @ ''  '' @ b"
  shows "text_weight (squeeze is_space 2 s) < text_weight s"
  using assms
proof (induction is_space "2 :: nat" s arbitrary: a rule: squeeze.induct)
  case (2 c s)
  have sp: "is_space (CHR '' '')" by (simp add: is_space_def code_def)
  show ?case
  proof (cases "is_space c")
    case True
    have le: "text_weight (squeeze is_space 2 (dropWhile is_space s)) \<le> text_weight (dropWhile is_space s)"
      using squeeze_weight weight_blank by blast
    show ?thesis
    proof (cases "takeWhile is_space s")
      case Nil
      then have d: "dropWhile is_space s = s" by (metis takeWhile_dropWhile_id append_Nil)
      obtain a' where "a = c # a'"
        using 2(3) sp Nil by (cases a) auto
      then show ?thesis using 2(1) [OF True, of a'] 2(3) d True Nil by (simp add: Let_def)
    next
      case (Cons x r)
      then show ?thesis
        using le run_weight [of is_space c s] weight_blank weight_split [of s is_space] True
        by (simp add: Let_def)
    qed
  next
    case False
    then obtain a' where "a = c # a'" using 2(3) sp by (cases a) auto
    then show ?thesis using 2(2) [OF False, of a'] 2(3) False by simp
  qed
qed simp

lemma dropWhile_weight: "text_weight (dropWhile P s) \<le> text_weight s"
  using weight_split [of s P] by simp

lemma dropWhile_solid:
  assumes "\<And>c. P c \<Longrightarrow> 1 \<le> weight c"
  shows "solid (dropWhile P s) = solid s"
proof -
  have "\<not> solid (takeWhile P s)" using weight_run [of "takeWhile P s"] assms by (auto dest: set_takeWhileD)
  then show ?thesis using solid_split [of s P] by simp
qed

lemma dropWhile_shrinks:
  assumes "\<And>c. P c \<Longrightarrow> 1 \<le> weight c" "s \<noteq> []" "P (hd s)"
  shows "text_weight (dropWhile P s) < text_weight s"
proof -
  obtain c t where s: "s = c # t" "P c" using assms(2,3) by (cases s) auto
  then have "1 \<le> weight c" using assms(1) by simp
  then show ?thesis using s dropWhile_weight [of P t] by simp
qed

lemma solid_nonempty: "solid s \<Longrightarrow> s \<noteq> []"
  by auto

lemma strip_change:
  assumes "solid s" "boundary_blank (hd s) \<or> boundary_blank (last s)"
  shows "solid (g_strstrip s) \<and> text_weight (g_strstrip s) < text_weight s"
proof -
  have blank: "boundary_blank c \<Longrightarrow> is_space c" for c by (auto simp: boundary_blank_def is_space_def code_def)
  let ?t = "dropWhile is_space s"
  have t: "solid ?t" using assms(1) dropWhile_solid [OF weight_blank] by blast
  note ne = solid_nonempty [OF assms(1)]
  have le: "text_weight (g_strstrip s) \<le> text_weight ?t"
    using dropWhile_weight [of is_space "rev ?t"] by (simp add: g_strstrip_def g_strchomp_def g_strchug_def)
  have sol: "solid (g_strstrip s)"
    using t dropWhile_solid [of is_space "rev ?t", OF weight_blank] by (simp add: g_strstrip_def g_strchomp_def g_strchug_def)
  show ?thesis
  proof (cases "is_space (hd s)")
    case True
    have "text_weight ?t < text_weight s"
      using dropWhile_shrinks [of is_space s] weight_blank True assms(1) by (cases s) auto
    then show ?thesis using sol le by simp
  next
    case False
    then have id: "?t = s" by (cases s) auto
    have "is_space (last s)" using False assms(2) blank by blast
    then have "text_weight (dropWhile is_space (rev s)) < text_weight (rev s)"
      using ne by (intro dropWhile_shrinks weight_blank) (auto simp: hd_rev)
    then show ?thesis using sol id by (simp add: g_strstrip_def g_strchomp_def g_strchug_def)
  qed
qed

lemma punct_change:
  assumes "solid s" "end_punct (last s)"
  shows "\<exists>t. gebr_validate_change_no_punctuation_at_end s = Some t \<and> solid t \<and> set t \<subseteq> set s \<and>
     text_weight t < text_weight s"
proof -
  have w: "end_punct c \<Longrightarrow> 1 \<le> weight c" for c by (simp add: weight_def)
  have s: "s \<noteq> []" using assms(1) by auto
  have "solid (dropWhile end_punct (rev s))" using dropWhile_solid [of end_punct "rev s"] w assms(1) by simp
  moreover from solid_nonempty [OF this]
  have "gebr_validate_change_no_punctuation_at_end s = Some (rev (dropWhile end_punct (rev s)))"
    by (simp only: gebr_validate_change_no_punctuation_at_end_def Let_def if_False)
  moreover have "text_weight (dropWhile end_punct (rev s)) < text_weight (rev s)"
    using s assms(2) by (intro dropWhile_shrinks w) (auto simp: hd_rev)
  moreover have "set (dropWhile end_punct (rev s)) \<subseteq> set s" by (auto dest: set_dropWhileD)
  ultimately show ?thesis by simp
qed

text \<open>
  What the parameter must do: the upper case of a lower case first character is not empty, holds
  neither blanks nor punctuation, and is not a lower case letter itself.
\<close>

definition has_upper_case :: "unicode \<Rightarrow> bool" where
  "has_upper_case U \<longleftrightarrow>
     (\<forall>s. lower_first U s \<longrightarrow>
        (let u = strup U (take (first_len U s) s) in
         u \<noteq> [] \<and> text_weight u = 0 \<and> \<not> lower_first U (u @ drop (first_len U s) s)))"

definition fix_measure :: "unicode \<Rightarrow> string \<Rightarrow> nat" where
  "fix_measure U s = 2 * text_weight s + (if lower_first U s then 1 else 0)"

text \<open>Categories are separated by bars: a change must not write one.\<close>

definition no_new_bar :: "string \<Rightarrow> string \<Rightarrow> bool" where
  "no_new_bar s t \<longleftrightarrow> (CHR ''|'' \<in> set t \<longrightarrow> CHR ''|'' \<in> set s)"

lemma no_new_bar_drop: "no_new_bar s (drop n s)"
  by (auto simp: no_new_bar_def dest: in_set_dropD)

lemma weightless_no_bar: "text_weight u = 0 \<Longrightarrow> CHR ''|'' \<notin> set u"
proof (induction u)
  case (Cons c u)
  have "weight (CHR ''|'') = 1" by (simp add: weight_def end_punct_def char_class_defs)
  with Cons show ?case by auto
qed simp

lemma squeeze_set: "set (squeeze P k s) \<subseteq> insert (CHR '' '') (set s)"
proof (induction P k s rule: squeeze.induct)
  case (2 P k c s)
  then show ?case
    using set_takeWhileD [of _ P s] set_dropWhileD [of _ P s] by (auto simp: Let_def)
qed simp

lemma squeeze_no_bar: "no_new_bar s (squeeze P k s)"
  using squeeze_set [of P k s] by (auto simp: no_new_bar_def)

lemma strip_no_bar: "no_new_bar s (g_strstrip s)"
  by (auto simp: no_new_bar_def g_strstrip_def g_strchomp_def g_strchug_def dest!: set_dropWhileD)

lemma capital_change:
  assumes "has_upper_case U" "lower_first U s"
  shows "solid (gebr_validate_change_first_to_upper U s) \<and> no_new_bar s (gebr_validate_change_first_to_upper U s) \<and>
         fix_measure U (gebr_validate_change_first_to_upper U s) < fix_measure U s"
proof -
  let ?n = "first_len U s"
  obtain c u where u: "strup U (take ?n s) = c # u" "text_weight (c # u) = 0" "\<not> lower_first U (c # u @ drop ?n s)"
    using assms unfolding has_upper_case_def Let_def by (metis append_Cons list.exhaust)
  have "text_weight (drop ?n s) \<le> text_weight s"
    by (metis append_take_drop_id le_add2 text_weight_simps(3))
  moreover have "no_new_bar s (c # u @ drop ?n s)"
    using no_new_bar_drop [of s ?n] weightless_no_bar [OF u(2)] by (auto simp: no_new_bar_def)
  ultimately show ?thesis
    using u assms(2) by (simp add: gebr_validate_change_first_to_upper_def Let_def fix_measure_def)
qed

lemma less_measure: "text_weight t < text_weight s \<Longrightarrow> fix_measure U t < fix_measure U s"
  by (simp add: fix_measure_def)

text \<open>One block of a pass, under a change that keeps the text solid, lowers the measure and writes no bar.\<close>

definition good_change :: "unicode \<Rightarrow> (string \<Rightarrow> bool) \<Rightarrow> (string \<Rightarrow> cstr) \<Rightarrow> bool" where
  "good_change U ok chg \<longleftrightarrow>
     (\<forall>s. solid s \<and> \<not> ok s \<longrightarrow> (\<exists>t. chg s = Some t \<and> solid t \<and> no_new_bar s t \<and> fix_measure U t < fix_measure U s))"

definition pass_from :: "unicode \<Rightarrow> string \<Rightarrow> string \<times> bool \<Rightarrow> bool" where
  "pass_from U s x \<longleftrightarrow> solid (fst x) \<and> no_new_bar s (fst x) \<and> (if snd x then fix_measure U (fst x) < fix_measure U s else fst x = s)"

lemma fix_when_step:
  assumes "good_change U ok chg" "pass_from U s x"
  shows "\<exists>y. fix_when f ok chg x = Some y \<and> pass_from U s y \<and> (\<not> snd y \<longrightarrow> \<not> snd x \<and> (f \<longrightarrow> ok s))"
proof (cases "f \<and> \<not> ok (fst x)")
  case True
  with assms obtain t where t: "chg (fst x) = Some t" "solid t" "no_new_bar (fst x) t" "fix_measure U t < fix_measure U (fst x)"
    by (auto simp: good_change_def pass_from_def)
  then show ?thesis using True assms(2) by (auto simp: fix_when_def pass_from_def no_new_bar_def split: if_splits)
next
  case False
  then have "fix_when f ok chg x = Some x" by (simp only: fix_when_def if_False)
  moreover have "fst x = s" if "\<not> snd x" using that assms(2) by (simp add: pass_from_def)
  ultimately show ?thesis using False assms(2) by blast
qed

lemma good_changes:
  "has_upper_case U \<Longrightarrow> good_change U (gebr_validate_check_no_lower_case U) (\<lambda>s. Some (gebr_validate_change_first_to_upper U s))"
  "good_change U gebr_validate_check_no_blanks_at_boundaries (\<lambda>s. Some (gebr_validate_change_no_blanks_at_boundaries s))"
  "good_change U gebr_validate_check_no_multiple_blanks (\<lambda>s. Some (gebr_validate_change_multiple_blanks s))"
  "good_change U gebr_validate_check_no_punctuation_at_end gebr_validate_change_no_punctuation_at_end"
  "good_change U gebr_validate_check_tabs (\<lambda>s. Some (gebr_validate_change_tabs s))"
proof -
  show "has_upper_case U \<Longrightarrow> good_change U (gebr_validate_check_no_lower_case U) (\<lambda>s. Some (gebr_validate_change_first_to_upper U s))"
    using capital_change by (auto simp: good_change_def gebr_validate_check_no_lower_case_def)
  show "good_change U gebr_validate_check_no_blanks_at_boundaries (\<lambda>s. Some (gebr_validate_change_no_blanks_at_boundaries s))"
    using strip_change strip_no_bar less_measure
    by (auto simp: good_change_def gebr_validate_check_no_blanks_at_boundaries_def
        gebr_validate_change_no_blanks_at_boundaries_def)
  have "solid t \<and> text_weight (squeeze is_space 2 t) < text_weight t \<and> solid (squeeze is_space 2 t)"
    if "solid t" "strstr t ''  '' \<noteq> None" for t
  proof -
    note prems = that
    then obtain i where "strstr t ''  '' = Some i" by auto
    then obtain a b where "t = a @ ''  '' @ b" using strstr_split by metis
    then show ?thesis using squeeze_blanks [of t a b] squeeze_weight [of is_space 2 t] weight_blank prems by blast
  qed
  then show "good_change U gebr_validate_check_no_multiple_blanks (\<lambda>s. Some (gebr_validate_change_multiple_blanks s))"
    using less_measure squeeze_no_bar by (auto simp: good_change_def gebr_validate_check_no_multiple_blanks_def
        gebr_validate_change_multiple_blanks_def simp del: not_None_eq)
  show "good_change U gebr_validate_check_no_punctuation_at_end gebr_validate_change_no_punctuation_at_end"
    using punct_change less_measure
    by (fastforce simp: good_change_def gebr_validate_check_no_punctuation_at_end_def no_new_bar_def)
  have "text_weight (squeeze (\<lambda>c. c = CHR 0x09) 1 t) < text_weight t \<and> solid (squeeze (\<lambda>c. c = CHR 0x09) 1 t)"
    if "solid t" "has_char t (CHR 0x09)" for t
    using squeeze_tabs [of t] squeeze_weight [of "\<lambda>c. c = CHR 0x09" 1 t] that by (auto simp: has_char_def)
  then show "good_change U gebr_validate_check_tabs (\<lambda>s. Some (gebr_validate_change_tabs s))"
    using less_measure squeeze_no_bar by (auto simp: good_change_def gebr_validate_check_tabs_def gebr_validate_change_tabs_def)
qed

lemma insert_when_empty: "(if b then insert f X else X) = {} \<longleftrightarrow> \<not> b \<and> X = {}"
  by simp

lemma checks_passed:
  "gebr_validate_case_check_value_aux U flags v {} = {} \<longleftrightarrow>
     (CHECK_EMPTY \<in> flags \<longrightarrow> gebr_validate_check_is_not_empty v) \<and>
     (CHECK_CAPIT \<in> flags \<longrightarrow> gebr_validate_check_no_lower_case U v) \<and>
     (CHECK_NOBLK \<in> flags \<longrightarrow> gebr_validate_check_no_blanks_at_boundaries v) \<and>
     (CHECK_MTBLK \<in> flags \<longrightarrow> gebr_validate_check_no_multiple_blanks v) \<and>
     (CHECK_NOPNT \<in> flags \<longrightarrow> gebr_validate_check_no_punctuation_at_end v) \<and>
     (CHECK_EMAIL \<in> flags \<longrightarrow> gebr_validate_check_is_email v) \<and>
     (CHECK_FILEN \<in> flags \<longrightarrow> gebr_validate_check_menu_filename v) \<and>
     (CHECK_URL \<in> flags \<longrightarrow> gebr_validate_check_is_url v) \<and>
     (CHECK_TABS \<in> flags \<longrightarrow> gebr_validate_check_tabs v)"
  unfolding gebr_validate_case_check_value_aux_def Let_def insert_when_empty by blast

lemma fix_aux_pass:
  assumes "has_upper_case U" "solid s" "CHECK_URL \<notin> flags"
  shows "\<exists>x. gebr_validate_case_fix_aux U flags s = Some x \<and> pass_from U s x \<and>
     (\<not> snd x \<longrightarrow> gebr_validate_case_check_value_aux U (flags - {CHECK_EMAIL, CHECK_FILEN}) s {} = {})"
proof -
  have p0: "pass_from U s (s, False)" using assms(2) by (simp add: pass_from_def no_new_bar_def)
  obtain x1 where x1: "fix_when (CHECK_CAPIT \<in> flags) (gebr_validate_check_no_lower_case U)
      (\<lambda>s. Some (gebr_validate_change_first_to_upper U s)) (s, False) = Some x1" "pass_from U s x1"
      "\<not> snd x1 \<longrightarrow> (CHECK_CAPIT \<in> flags \<longrightarrow> gebr_validate_check_no_lower_case U s)"
    using fix_when_step [OF good_changes(1) [OF assms(1)] p0] by blast
  obtain x2 where x2: "fix_when (CHECK_NOBLK \<in> flags) gebr_validate_check_no_blanks_at_boundaries
      (\<lambda>s. Some (gebr_validate_change_no_blanks_at_boundaries s)) x1 = Some x2" "pass_from U s x2"
      "\<not> snd x2 \<longrightarrow> \<not> snd x1 \<and> (CHECK_NOBLK \<in> flags \<longrightarrow> gebr_validate_check_no_blanks_at_boundaries s)"
    using fix_when_step [OF good_changes(2) x1(2)] by blast
  obtain x3 where x3: "fix_when (CHECK_MTBLK \<in> flags) gebr_validate_check_no_multiple_blanks
      (\<lambda>s. Some (gebr_validate_change_multiple_blanks s)) x2 = Some x3" "pass_from U s x3"
      "\<not> snd x3 \<longrightarrow> \<not> snd x2 \<and> (CHECK_MTBLK \<in> flags \<longrightarrow> gebr_validate_check_no_multiple_blanks s)"
    using fix_when_step [OF good_changes(3) x2(2)] by blast
  obtain x4 where x4: "fix_when (CHECK_NOPNT \<in> flags) gebr_validate_check_no_punctuation_at_end
      gebr_validate_change_no_punctuation_at_end x3 = Some x4" "pass_from U s x4"
      "\<not> snd x4 \<longrightarrow> \<not> snd x3 \<and> (CHECK_NOPNT \<in> flags \<longrightarrow> gebr_validate_check_no_punctuation_at_end s)"
    using fix_when_step [OF good_changes(4) x3(2)] by blast
  obtain x5 where x5: "fix_when (CHECK_TABS \<in> flags) gebr_validate_check_tabs
      (\<lambda>s. Some (gebr_validate_change_tabs s)) x4 = Some x5" "pass_from U s x5"
      "\<not> snd x5 \<longrightarrow> \<not> snd x4 \<and> (CHECK_TABS \<in> flags \<longrightarrow> gebr_validate_check_tabs s)"
    using fix_when_step [OF good_changes(5) x4(2)] by blast
  have "gebr_validate_case_fix_aux U flags s = Some x5"
    by (simp add: gebr_validate_case_fix_aux_def x1(1) x2(1) x3(1) x4(1) x5(1) assms(3))
      (simp add: fix_when_def x5(1) [unfolded fix_when_def])
  moreover have "gebr_validate_check_is_not_empty s"
    using solid_nonempty [OF assms(2)] by (simp add: gebr_validate_check_is_not_empty_def)
  then have "\<not> snd x5 \<longrightarrow> gebr_validate_case_check_value_aux U (flags - {CHECK_EMAIL, CHECK_FILEN}) s {} = {}"
    using x1(3) x2(3) x3(3) x4(3) x5(3) assms(3) unfolding checks_passed by blast
  ultimately show ?thesis using x5(2) by blast
qed

lemma fix_iter_ends:
  assumes "has_upper_case U" "solid s" "CHECK_URL \<notin> flags"
  shows "\<exists>t. gebr_validate_case_fix_aux_iter U flags s = Some t \<and> solid t \<and> no_new_bar s t \<and>
     gebr_validate_case_check_value_aux U (flags - {CHECK_EMAIL, CHECK_FILEN}) t {} = {}"
  using assms(2)
proof (induction s rule: measure_induct_rule [of "fix_measure U"])
  case (less s)
  obtain x where x: "gebr_validate_case_fix_aux U flags s = Some x" "pass_from U s x"
      "\<not> snd x \<longrightarrow> gebr_validate_case_check_value_aux U (flags - {CHECK_EMAIL, CHECK_FILEN}) s {} = {}"
    using fix_aux_pass [OF assms(1) less.prems assms(3)] by blast
  show ?case
  proof (cases "snd x")
    case True
    with x(2) obtain t where "gebr_validate_case_fix_aux_iter U flags (fst x) = Some t" "solid t"
        "no_new_bar (fst x) t" "gebr_validate_case_check_value_aux U (flags - {CHECK_EMAIL, CHECK_FILEN}) t {} = {}"
      using less.IH [of "fst x"] by (auto simp: pass_from_def)
    with x(2) True show ?thesis
      by (subst gebr_validate_case_fix_aux_iter.simps) (simp add: x(1) pass_from_def no_new_bar_def)
  next
    case False
    with x less.prems show ?thesis
      by (subst gebr_validate_case_fix_aux_iter.simps) (simp add: pass_from_def no_new_bar_def)
  qed
qed

text \<open>The one case with the check of addresses of the net has one change: the scheme.\<close>

lemma url_change_is_url: "gebr_validate_check_is_url (gebr_validate_change_url s)"
  by (simp add: gebr_validate_check_is_url_def gebr_validate_change_url_def)

lemma url_fix_ends:
  assumes "s \<noteq> []"
  shows "\<exists>t. gebr_validate_case_fix_aux_iter U {CHECK_EMPTY, CHECK_URL} s = Some t \<and> t \<noteq> [] \<and>
     gebr_validate_case_check_value_aux U {CHECK_EMPTY, CHECK_URL} t {} = {}"
proof -
  have pass: "gebr_validate_case_fix_aux U {CHECK_EMPTY, CHECK_URL} s =
      Some (if gebr_validate_check_is_url s then (s, False) else (gebr_validate_change_url s, True))" for s
    by (simp add: gebr_validate_case_fix_aux_def fix_when_def)
  have stop: "gebr_validate_case_fix_aux_iter U {CHECK_EMPTY, CHECK_URL} t = Some t"
    if "gebr_validate_check_is_url t" for t
    using that by (subst gebr_validate_case_fix_aux_iter.simps) (simp add: pass)
  have step: "gebr_validate_case_fix_aux_iter U {CHECK_EMPTY, CHECK_URL} s = Some (gebr_validate_change_url s)"
    if "\<not> gebr_validate_check_is_url s"
    using that stop [OF url_change_is_url] by (subst gebr_validate_case_fix_aux_iter.simps) (simp add: pass)
  have "gebr_validate_change_url s \<noteq> []" by (simp add: gebr_validate_change_url_def)
  with stop [of s] step url_change_is_url [of s] assms show ?thesis
    by (cases "gebr_validate_check_is_url s") (auto simp: checks_passed gebr_validate_check_is_not_empty_def)
qed

text \<open>Categories: the parts between bars, each with its own change.\<close>

lemma split_cuts_no_char: "length s \<le> k \<Longrightarrow> x \<in> set (split_cuts k [c] s) \<Longrightarrow> c \<notin> set x"
proof (induction k "[c]" s rule: split_cuts.induct)
  case (2 k s)
  show ?case
  proof (cases "strstr s [c]")
    case None
    then have "c \<notin> set s" using strstr_char [of s c] by simp
    with None show ?thesis using 2 by simp
  next
    case (Some i)
    then obtain a b where s: "s = a @ c # b" "length a = i" "c \<notin> set a"
      using strstr_char [of s c] split_list_first [of c s] strstr_char_first by fastforce
    then show ?thesis using 2 Some by auto
  qed
qed simp

lemma strsplit_no_limit: "g_strsplit s d 0 = g_strsplit s d (- 1)"
  by (simp add: g_strsplit_def)

lemma strsplit_no_char: "x \<in> set (g_strsplit s [c] 0) \<Longrightarrow> c \<notin> set x"
  using split_cuts_no_char [of s "length s" x c] by (simp add: g_strsplit_def split: if_splits)

lemma fix_categories_join:
  "list_all2 (\<lambda>c t. fx c = Some t) cats ts \<Longrightarrow> fix_categories fx cats = Some (g_strjoinv ''|'' ts)"
proof (induction rule: list_all2_induct)
  case (Cons c cats t ts)
  then show ?case by (cases ts; cases cats) auto
qed simp

definition parts :: "validate_case \<Rightarrow> string \<Rightarrow> string list" where
  "parts c v = (if case_name c = CASE_CATEGORY then g_strsplit v ''|'' 0 else [v])"

lemma part_fixed:
  assumes "has_upper_case U" "c \<in> set validate_cases" "solid v" "case_flags c \<inter> {CHECK_EMAIL, CHECK_FILEN} = {}"
  shows "\<exists>t. gebr_validate_case_fix_aux_iter U (case_flags c) v = Some t \<and> t \<noteq> [] \<and>
     (case_name c = CASE_CATEGORY \<longrightarrow> no_new_bar v t) \<and>
     gebr_validate_case_check_value_aux U (case_flags c) t {} = {}"
proof (cases "CHECK_URL \<in> case_flags c")
  case True
  then have "case_flags c = {CHECK_EMPTY, CHECK_URL}" "case_name c \<noteq> CASE_CATEGORY"
    using assms(2) by (auto simp: validate_cases_def)
  then show ?thesis using url_fix_ends [OF solid_nonempty [OF assms(3)]] by simp
next
  case False
  have "case_flags c - {CHECK_EMAIL, CHECK_FILEN} = case_flags c" using assms(4) by auto
  then show ?thesis using fix_iter_ends [OF assms(1,3) False] solid_nonempty by metis
qed

lemma checks_fold_empty:
  "\<forall>t \<in> set ts. gebr_validate_case_check_value_aux U flags t {} = {} \<Longrightarrow>
   fold (\<lambda>cat failed. gebr_validate_case_check_value_aux U flags cat failed) ts {} = {}"
  by (induction ts) auto

lemma categories_fixed:
  assumes "has_upper_case U" "c \<in> set validate_cases" "case_name c = CASE_CATEGORY"
    "list_all solid (g_strsplit v ''|'' 0)" "v \<noteq> []" "case_flags c \<inter> {CHECK_EMAIL, CHECK_FILEN} = {}"
  shows "\<exists>ts. fix_categories (gebr_validate_case_fix_aux_iter U (case_flags c)) (g_strsplit v ''|'' 0) =
       Some (g_strjoinv ''|'' ts) \<and> g_strsplit (g_strjoinv ''|'' ts) ''|'' 0 = ts \<and> g_strjoinv ''|'' ts \<noteq> [] \<and>
     (\<forall>t \<in> set ts. gebr_validate_case_check_value_aux U (case_flags c) t {} = {})"
proof -
  let ?P = "\<lambda>p t. gebr_validate_case_fix_aux_iter U (case_flags c) p = Some t \<and> t \<noteq> [] \<and> CHR ''|'' \<notin> set t \<and>
     gebr_validate_case_check_value_aux U (case_flags c) t {} = {}"
  have "\<exists>t. ?P p t" if "p \<in> set (g_strsplit v ''|'' 0)" for p
    using part_fixed [OF assms(1,2) _ assms(6), of p] that assms(3,4) strsplit_no_char [OF that]
    by (auto simp: list_all_iff no_new_bar_def)
  then obtain f where f: "\<forall>p \<in> set (g_strsplit v ''|'' 0). ?P p (f p)" by metis
  let ?ts = "map f (g_strsplit v ''|'' 0)"
  have ne: "?ts \<noteq> []" using assms(5) by (simp add: g_strsplit_def)
  then have joined: "g_strjoinv ''|'' ?ts \<noteq> []" using f
    by (cases "g_strsplit v ''|'' 0"; cases "tl (g_strsplit v ''|'' 0)") auto
  have "g_strsplit (g_strjoinv ''|'' ?ts) ''|'' 0 = ?ts"
    unfolding strsplit_no_limit using strsplit_join_char [OF _ ne joined] f by (simp add: strsplit_no_limit)
  moreover have "list_all2 (\<lambda>p t. gebr_validate_case_fix_aux_iter U (case_flags c) p = Some t) (g_strsplit v ''|'' 0) ?ts"
    using f by (simp add: list_all2_map2 list_all2_same)
  ultimately show ?thesis using fix_categories_join joined f by (intro exI [of _ ?ts]) simp
qed


text \<open>The alphabet of ASCII, for the examples.\<close>

definition ascii :: unicode where
  "ascii = \<lparr>lower_first = (\<lambda>s. s \<noteq> [] \<and> is_lower (hd s)), first_len = (\<lambda>s. 1),
     strup = map (\<lambda>c. if is_lower c then char_of (code c - 32) else c)\<rparr>"

lemma ascii_upper:
  assumes "is_lower c"
  shows "\<not> is_lower (char_of (code c - 32)) \<and> weight (char_of (code c - 32)) = 0"
proof -
  let ?u = "char_of (code c - 32)"
  have c: "97 \<le> code c" "code c \<le> 122" using assms by (simp_all add: is_lower_def)
  then have "(code c - 32) mod 256 = code c - 32" by (intro mod_less) simp
  then have u: "code ?u = code c - 32" by (simp add: code_def [of "char_of _"])
  with c have "65 \<le> code ?u" "code ?u \<le> 90" by simp_all
  moreover have "?u \<noteq> CHR 0x09"
  proof
    assume "?u = CHR 0x09"
    then have "code ?u = 9" by (simp only: code_def) simp
    with \<open>65 \<le> code ?u\<close> show False by simp
  qed
  ultimately show ?thesis
    by (simp add: weight_def end_punct_def is_space_def is_punct_def is_alnum_def is_alpha_def is_upper_def is_lower_def)
qed

lemma ascii_has_upper_case: "has_upper_case ascii"
  unfolding has_upper_case_def ascii_def Let_def
  using ascii_upper by (auto simp: neq_Nil_conv)

definition title_case :: validate_case where
  "title_case = validate_cases ! 1"

definition category_case :: validate_case where
  "category_case = validate_cases ! 6"


text \<open>
  An empty part between two bars is left as it is, and its text still fails the check that it is not empty,
  although the code says that it can be fixed.
\<close>

lemma kept_pass:
  assumes "gebr_validate_case_check_value_aux U (flags - {CHECK_EMPTY}) t {} = {}"
  shows "gebr_validate_case_fix_aux_iter U flags t = Some t"
proof -
  have no: "(CHECK_CAPIT \<in> flags \<and> \<not> gebr_validate_check_no_lower_case U t) = False"
    "(CHECK_NOBLK \<in> flags \<and> \<not> gebr_validate_check_no_blanks_at_boundaries t) = False"
    "(CHECK_MTBLK \<in> flags \<and> \<not> gebr_validate_check_no_multiple_blanks t) = False"
    "(CHECK_NOPNT \<in> flags \<and> \<not> gebr_validate_check_no_punctuation_at_end t) = False"
    "(CHECK_URL \<in> flags \<and> \<not> gebr_validate_check_is_url t) = False"
    "(CHECK_TABS \<in> flags \<and> \<not> gebr_validate_check_tabs t) = False"
    using assms unfolding checks_passed by blast+
  have "gebr_validate_case_fix_aux U flags t = Some (t, False)"
    by (simp only: gebr_validate_case_fix_aux_def fix_when_def fst_conv no if_False Option.bind.simps)
  then show ?thesis by (subst gebr_validate_case_fix_aux_iter.simps) simp
qed

theorem empty_category_not_fixed:
  assumes "\<not> lower_first U ''A''" "\<not> lower_first U ''B''"
  shows "gebr_validate_case_fix U category_case ''A||B'' = Some (Some ''A||B'') \<and>
    gebr_validate_case_check_value U category_case ''A||B'' = ({CHECK_EMPTY}, True)"
proof -
  have flags: "case_flags category_case = {CHECK_EMPTY, CHECK_CAPIT, CHECK_NOBLK, CHECK_MTBLK, CHECK_NOPNT, CHECK_TABS}"
    "case_name category_case = CASE_CATEGORY"
    by (simp_all add: category_case_def validate_cases_def)
  have clean: "gebr_validate_check_no_blanks_at_boundaries t" "gebr_validate_check_no_multiple_blanks t"
      "gebr_validate_check_no_punctuation_at_end t" "gebr_validate_check_tabs t" "gebr_validate_check_no_lower_case U t"
    if "t = [] \<or> t = ''A'' \<or> t = ''B''" for t
    using that assms
    by (elim disjE; simp add: gebr_validate_check_no_blanks_at_boundaries_def boundary_blank_def
        gebr_validate_check_no_multiple_blanks_def gebr_validate_check_no_punctuation_at_end_def end_punct_def
        gebr_validate_check_tabs_def has_char_def char_class_defs gebr_validate_check_no_lower_case_def
        gebr_validate_check_is_not_empty_def)+
  have keep: "gebr_validate_case_fix_aux_iter U (case_flags category_case) t = Some t"
    if "t = [] \<or> t = ''A'' \<or> t = ''B''" for t
    by (rule kept_pass) (use clean [OF that] in \<open>simp add: checks_passed flags\<close>)
  have split: "g_strsplit ''A||B'' ''|'' 0 = [''A'', [], ''B'']" by (simp add: g_strsplit_def)
  have aux: "gebr_validate_case_check_value_aux U (case_flags category_case) t X =
      (if t = [] then insert CHECK_EMPTY X else X)" if "t = [] \<or> t = ''A'' \<or> t = ''B''" for t X
    using clean [OF that] by (simp add: gebr_validate_case_check_value_aux_def flags Let_def
        gebr_validate_check_is_not_empty_def)
  have check: "gebr_validate_case_check_value U category_case ''A||B'' = ({CHECK_EMPTY}, True)"
    unfolding gebr_validate_case_check_value_def split by (simp add: aux can_fix_def flags(2)) (simp add: flags(1))
  moreover have "fix_categories (gebr_validate_case_fix_aux_iter U (case_flags category_case)) [''A'', [], ''B''] =
      Some ''A||B''" by (simp add: keep)
  ultimately show ?thesis by (simp only: gebr_validate_case_fix_def split flags(2) snd_conv) simp
qed

text \<open>
  A text that only lacks a capital, in an alphabet where the upper case of its first letter is
  that letter itself (as for some letters of Unicode), makes the automatic change run for ever.
\<close>

theorem caseless_letter_diverges:
  assumes "lower_first U v" "strup U (take (first_len U v) v) = take (first_len U v) v" "v \<noteq> []"
    and "CHECK_CAPIT \<in> flags" "gebr_validate_case_check_value_aux U (flags - {CHECK_CAPIT}) v {} = {}"
  shows "gebr_validate_case_fix_aux_iter U flags v = None"
proof -
  have "gebr_validate_change_first_to_upper U v = v"
    using assms(2) by (simp add: gebr_validate_change_first_to_upper_def Let_def)
  then have capital: "fix_when (CHECK_CAPIT \<in> flags) (gebr_validate_check_no_lower_case U)
      (\<lambda>s. Some (gebr_validate_change_first_to_upper U s)) (v, False) = Some (v, True)"
    using assms(1,3,4)
    by (simp add: fix_when_def gebr_validate_check_no_lower_case_def gebr_validate_check_is_not_empty_def)
  have rest: "fix_when (f \<in> flags) ok chg (v, True) = Some (v, True)"
    if "f \<in> flags \<longrightarrow> ok v" for f ok chg
    using that by (auto simp: fix_when_def)
  have "CHECK_NOBLK \<in> flags \<longrightarrow> gebr_validate_check_no_blanks_at_boundaries v"
    "CHECK_MTBLK \<in> flags \<longrightarrow> gebr_validate_check_no_multiple_blanks v"
    "CHECK_NOPNT \<in> flags \<longrightarrow> gebr_validate_check_no_punctuation_at_end v"
    "CHECK_URL \<in> flags \<longrightarrow> gebr_validate_check_is_url v"
    "CHECK_TABS \<in> flags \<longrightarrow> gebr_validate_check_tabs v"
    using assms(5) unfolding checks_passed by auto
  then have pass: "gebr_validate_case_fix_aux U flags v = Some (v, True)"
    by (simp only: gebr_validate_case_fix_aux_def capital rest Option.bind.simps option.simps)
  have "gebr_validate_case_fix_aux_iter U' fs w = Some r \<Longrightarrow> \<not> (U' = U \<and> fs = flags \<and> w = v)" for U' fs w r
  proof (erule gebr_validate_case_fix_aux_iter.raw_induct
      [where P = "\<lambda>U' fs w r. \<not> (U' = U \<and> fs = flags \<and> w = v)", rotated])
    fix iter :: "unicode \<Rightarrow> check_flag set \<Rightarrow> string \<Rightarrow> cstr" and U' fs w r
    assume IH: "\<And>U' fs w r. iter U' fs w = Some r \<Longrightarrow> \<not> (U' = U \<and> fs = flags \<and> w = v)"
      and eq: "Option.bind (gebr_validate_case_fix_aux U' fs w) (\<lambda>x. if snd x then iter U' fs (fst x) else Some (fst x)) = Some r"
    show "\<not> (U' = U \<and> fs = flags \<and> w = v)"
    proof
      assume "U' = U \<and> fs = flags \<and> w = v"
      then have "iter U flags v = Some r" using eq pass by simp
      with IH [of U flags v r] show False by simp
    qed
  qed
  then show ?thesis by (cases "gebr_validate_case_fix_aux_iter U flags v") auto
qed

text \<open>The letter kra, U+0138, is a lower case letter without an upper case.\<close>

definition kra :: unicode where
  "kra = \<lparr>lower_first = (\<lambda>s. prefix [CHR 0xC4, CHR 0xB8] s), first_len = (\<lambda>s. 2), strup = id\<rparr>"

theorem caseless_letter_witness:
  "gebr_validate_case_fix_aux_iter kra (case_flags title_case) ([CHR 0xC4, CHR 0xB8] @ ''a'') = None"
  by (rule caseless_letter_diverges)
    (simp_all add: kra_def title_case_def validate_cases_def checks_passed gebr_validate_check_is_not_empty_def
      gebr_validate_check_no_lower_case_def gebr_validate_check_no_blanks_at_boundaries_def boundary_blank_def
      gebr_validate_check_no_multiple_blanks_def gebr_validate_check_no_punctuation_at_end_def end_punct_def
      gebr_validate_check_tabs_def has_char_def char_class_defs)

text \<open>A text of punctuation alone makes the removal of the final punctuation read before the string.\<close>

theorem punctuation_only_read_before:
  assumes "v \<noteq> []" "list_all end_punct v"
  shows "gebr_validate_change_no_punctuation_at_end v = None \<and> \<not> gebr_validate_check_no_punctuation_at_end v"
proof -
  have "dropWhile end_punct (rev v) = []" "end_punct (last v)" using assms by (auto simp: list_all_iff)
  then show ?thesis
    using assms(1) by (simp add: gebr_validate_change_no_punctuation_at_end_def gebr_validate_check_no_punctuation_at_end_def)
qed

end
