(* ===== verification/Http_Msg.thy ===== *)
theory Http_Msg
  imports Utils
begin

text \<open>
  The HTTP messages of the client protocol, after \<open>libgebr/comm/gebr-comm-http-msg.c\<close>: the
  incremental parser, which is called with each chunk of bytes that a socket receives, and the serializer.

  A \<open>GString\<close> is its bytes, with a 0 byte where one was received; where the code uses the C string of
  a buffer, \<open>c_str\<close> cuts it at the first 0. The table of headers is a map whose values may be NULL; the order in which a hash
  table is iterated is the parameter \<open>keys_of\<close>. The parser returns \<open>None\<close> where it reads
  through a NULL pointer or never returns.
\<close>

section \<open>Messages\<close>

datatype http_type = GEBR_COMM_HTTP_TYPE_UNKNOWN | GEBR_COMM_HTTP_TYPE_REQUEST | GEBR_COMM_HTTP_TYPE_RESPONSE

datatype http_method = GEBR_COMM_HTTP_METHOD_UNKNOWN | GEBR_COMM_HTTP_METHOD_GET
  | GEBR_COMM_HTTP_METHOD_PUT | GEBR_COMM_HTTP_METHOD_POST | GEBR_COMM_HTTP_METHOD_DELETE

record http_msg =
  http_type :: http_type
  http_method :: http_method
  status_code :: "32 word"
  url :: string
  headers :: "string \<Rightarrow> cstr option"
  content :: string
  raw :: string
  parsed :: bool
  parsed_headers :: bool

definition gebr_comm_http_msg_new :: "http_type \<Rightarrow> http_method \<Rightarrow> http_msg" where
  "gebr_comm_http_msg_new ty me =
     \<lparr>http_type = ty, http_method = me, status_code = 0, url = [], headers = Map.empty, content = [],
      raw = [], parsed = False, parsed_headers = False\<rparr>"

fun method_enum_to_string :: "http_method \<Rightarrow> cstr" where
  "method_enum_to_string GEBR_COMM_HTTP_METHOD_UNKNOWN = None"
| "method_enum_to_string GEBR_COMM_HTTP_METHOD_GET = Some ''GET''"
| "method_enum_to_string GEBR_COMM_HTTP_METHOD_PUT = Some ''PUT''"
| "method_enum_to_string GEBR_COMM_HTTP_METHOD_POST = Some ''POST''"
| "method_enum_to_string GEBR_COMM_HTTP_METHOD_DELETE = Some ''DELETE''"

definition c_str :: "string \<Rightarrow> string" where
  "c_str s = takeWhile (\<lambda>c. c \<noteq> CHR 0x00) s"

section \<open>Parsing\<close>

definition ascii_down :: "string \<Rightarrow> string" where
  "ascii_down s = map (\<lambda>c. if is_upper c then char_of (code c + 32) else c) s"

text \<open>One line of the headers: a line without a colon gives a key with the value NULL.\<close>

definition header_line :: "string \<Rightarrow> (string \<Rightarrow> cstr option) \<Rightarrow> string \<Rightarrow> cstr option" where
  "header_line ln dict =
     (case g_strsplit ln '':'' 2 of
        [] \<Rightarrow> dict
      | k # vs \<Rightarrow> if k = [] then dict else dict(ascii_down k \<mapsto> (case vs of [] \<Rightarrow> None | v # _ \<Rightarrow> Some v)))"

definition gebr_g_hash_table_fill_with_headers :: "(string \<Rightarrow> cstr option) \<Rightarrow> string \<Rightarrow> string \<Rightarrow> cstr option" where
  "gebr_g_hash_table_fill_with_headers dict hs = fold header_line (g_strsplit hs [NL] 0) dict"

text \<open>\<open>split[1]\<close> is NULL in a first line without a blank, and is then read: \<open>None\<close>.\<close>

definition gebr_comm_http_fieldfy :: "http_msg \<Rightarrow> http_msg option" where
  "gebr_comm_http_fieldfy msg =
     (let first_line = takeWhile (\<lambda>c. c \<noteq> NL) (raw msg);
          words = g_strsplit first_line '' '' 0;
          with_first =
            (case http_type msg of
               GEBR_COMM_HTTP_TYPE_RESPONSE \<Rightarrow>
                 if length words < 2 then None else Some (msg\<lparr>status_code := word_of_int (atoi (words ! 1))\<rparr>)
             | GEBR_COMM_HTTP_TYPE_REQUEST \<Rightarrow>
                 if length words < 2 then None else Some (msg\<lparr>url := words ! 1\<rparr>)
             | GEBR_COMM_HTTP_TYPE_UNKNOWN \<Rightarrow> Some msg)
      in map_option (\<lambda>m.
           if has_char (raw msg) NL
           then m\<lparr>headers := gebr_g_hash_table_fill_with_headers (headers m)
                    (drop (length first_line + 1) (raw msg))\<rparr>
           else m) with_first)"

text \<open>\<open>atol\<close> on 64 bits; \<open>g_hash_table_lookup\<close> of a key that is absent or has the value NULL.\<close>

definition atol :: "string \<Rightarrow> int" where
  "atol s = max (- (2 ^ 63)) (min (2 ^ 63 - 1) (strtol10 s))"

definition header_value :: "string \<Rightarrow> http_msg \<Rightarrow> cstr" where
  "header_value k msg = Option.bind (headers msg k) id"

definition remaining_content :: "string \<Rightarrow> http_msg \<Rightarrow> nat" where
  "remaining_content len msg = unat (word_of_int (atol len) - word_of_nat (length (content msg)) :: 64 word)"

definition content_step :: "http_msg \<Rightarrow> string \<Rightarrow> http_msg" where
  "content_step msg data =
     (case header_value ''content-length'' msg of
        None \<Rightarrow> msg
      | Some len \<Rightarrow>
          (let remaining = remaining_content len msg in
           if remaining \<le> length data
           then msg\<lparr>content := content msg @ take remaining data, raw := raw msg @ take remaining data, parsed := True\<rparr>
           else msg\<lparr>content := content msg @ c_str data, raw := raw msg @ c_str data\<rparr>))"

text \<open>
  \<open>bytes\<close> counts two characters for the end of the headers, also where it was found as the four
  characters of two CR LF.
\<close>

definition header_end :: "string \<Rightarrow> nat option" where
  "header_end s = (case strstr s [NL, NL] of Some e \<Rightarrow> Some e | None \<Rightarrow> strstr s [CHR 0x0D, NL, CHR 0x0D, NL])"

definition header_step :: "http_msg \<Rightarrow> string \<Rightarrow> http_msg option" where
  "header_step msg data =
     (case header_end (c_str (raw msg) @ c_str data) of
        None \<Rightarrow> Some (msg\<lparr>raw := raw msg @ c_str data\<rparr>)
      | Some e \<Rightarrow>
          (let bytes = int e - int (length (raw msg)) + 2;
               msg1 = msg\<lparr>parsed_headers := True,
                          raw := (if 0 \<le> bytes then raw msg @ c_str (take (nat bytes) data) else raw msg)\<rparr>
           in map_option (\<lambda>m. if header_value ''content-length'' m = None then m\<lparr>parsed := True\<rparr> else m)
                (gebr_comm_http_fieldfy msg1)))"

definition parse_step :: "http_msg \<Rightarrow> string \<Rightarrow> (http_msg \<times> string) option" where
  "parse_step msg data =
     map_option (\<lambda>m. (m, drop (length (raw m) - length (raw msg)) data))
       (if parsed_headers msg then Some (content_step msg data) else header_step msg data)"

partial_function (option) parse_data :: "http_msg \<Rightarrow> string \<Rightarrow> (http_msg \<times> string) option" where
  "parse_data msg data =
     (if parsed msg \<or> data = [] then Some (msg, data)
      else Option.bind (parse_step msg data) (\<lambda>x. parse_data (fst x) (snd x)))"

text \<open>
  A first chunk that is not the start of a message is refused (NULL) and stays in the buffer of the caller; for the
  methods POST and DELETE no message is made and the NULL pointer is read.
\<close>

definition gebr_comm_http_msg_new_parsing :: "http_msg option \<Rightarrow> string \<Rightarrow> (http_msg option \<times> string) option" where
  "gebr_comm_http_msg_new_parsing partial data =
     (let go = (\<lambda>msg. map_option (map_prod Some id) (parse_data msg data)) in
      case partial of
        Some msg \<Rightarrow> go msg
      | None \<Rightarrow>
          if prefix ''HTTP/1.1 '' data
          then go (gebr_comm_http_msg_new GEBR_COMM_HTTP_TYPE_RESPONSE GEBR_COMM_HTTP_METHOD_UNKNOWN)
          else if prefix ''GET '' data
          then go (gebr_comm_http_msg_new GEBR_COMM_HTTP_TYPE_REQUEST GEBR_COMM_HTTP_METHOD_GET)
          else if prefix ''PUT '' data
          then go (gebr_comm_http_msg_new GEBR_COMM_HTTP_TYPE_REQUEST GEBR_COMM_HTTP_METHOD_PUT)
          else if prefix ''POST '' data \<or> prefix ''DELETE '' data then None
          else Some (None, data))"

section \<open>Serializing\<close>

definition print_header :: "http_msg \<Rightarrow> string \<Rightarrow> string" where
  "print_header msg k =
     k @ '':'' @ (case headers msg k of Some (Some v) \<Rightarrow> v | _ \<Rightarrow> ''(null)'') @ [NL]"

definition gebr_comm_http_msg_serialize :: "((string \<Rightarrow> cstr option) \<Rightarrow> string list) \<Rightarrow> http_msg \<Rightarrow> http_msg" where
  "gebr_comm_http_msg_serialize keys_of msg =
     (let first =
            (case http_type msg of
               GEBR_COMM_HTTP_TYPE_REQUEST \<Rightarrow>
                 nonempty_or ''(null)'' (method_enum_to_string (http_method msg)) @ '' '' @ url msg @ [NL]
             | GEBR_COMM_HTTP_TYPE_RESPONSE \<Rightarrow> ''HTTP/1.1 '' @ show_nat (unat (status_code msg)) @ '' OK'' @ [NL]
             | GEBR_COMM_HTTP_TYPE_UNKNOWN \<Rightarrow> raw msg);
          msg1 = (if content msg \<noteq> []
                  then msg\<lparr>headers := (headers msg)(''content-length'' \<mapsto> Some (show_nat (length (content msg))))\<rparr>
                  else msg)
      in msg1\<lparr>raw := first @ concat (map (print_header msg1) (keys_of (headers msg1))) @ [NL] @ content msg1,
              parsed := True, parsed_headers := True\<rparr>)"

definition new_with :: "http_msg \<Rightarrow> (string \<Rightarrow> cstr option) option \<Rightarrow> cstr \<Rightarrow> http_msg" where
  "new_with msg hs body =
     (let msg1 = (case body of
            Some b \<Rightarrow> if b \<noteq> [] then msg\<lparr>content := b,
                headers := (headers msg)(''content-length'' \<mapsto> Some (show_nat (length b)))\<rparr> else msg
          | None \<Rightarrow> msg)
      in (case hs of None \<Rightarrow> msg1 | Some h \<Rightarrow> msg1\<lparr>headers := headers msg1 ++ h\<rparr>))"

definition gebr_comm_http_msg_new_request ::
    "((string \<Rightarrow> cstr option) \<Rightarrow> string list) \<Rightarrow> http_method \<Rightarrow> string \<Rightarrow> (string \<Rightarrow> cstr option) option \<Rightarrow> cstr \<Rightarrow> http_msg" where
  "gebr_comm_http_msg_new_request keys_of me u hs body =
     gebr_comm_http_msg_serialize keys_of
       (new_with ((gebr_comm_http_msg_new GEBR_COMM_HTTP_TYPE_REQUEST me)\<lparr>url := u\<rparr>) hs body)"

definition gebr_comm_http_msg_new_response ::
    "((string \<Rightarrow> cstr option) \<Rightarrow> string list) \<Rightarrow> 32 word \<Rightarrow> (string \<Rightarrow> cstr option) option \<Rightarrow> cstr \<Rightarrow> http_msg" where
  "gebr_comm_http_msg_new_response keys_of status hs body =
     gebr_comm_http_msg_serialize keys_of
       (new_with ((gebr_comm_http_msg_new GEBR_COMM_HTTP_TYPE_RESPONSE GEBR_COMM_HTTP_METHOD_UNKNOWN)
          \<lparr>status_code := status\<rparr>) hs body)"

section \<open>Chunks\<close>

definition plain :: "string \<Rightarrow> bool" where
  "plain s \<longleftrightarrow> CHR 0x00 \<notin> set s \<and> CHR 0x0D \<notin> set s"

lemma plain_append [simp]: "plain (a @ b) \<longleftrightarrow> plain a \<and> plain b"
  by (auto simp: plain_def)

lemma plain_part: "plain s \<Longrightarrow> plain (take n s) \<and> plain (drop n s)"
  by (auto simp: plain_def dest: in_set_takeD in_set_dropD)

lemma c_str_plain [simp]: "plain s \<Longrightarrow> c_str s = s"
  by (auto simp: plain_def c_str_def takeWhile_eq_all_conv)

lemma header_end_plain: "plain s \<Longrightarrow> header_end s = strstr s [NL, NL]"
proof -
  assume "plain s"
  then have "strstr s [CHR 0x0D, NL, CHR 0x0D, NL] = None"
    unfolding strstr_None_iff by (auto simp: plain_def)
  then show ?thesis by (simp add: header_end_def split: option.split)
qed

lemma parse_data_stop: "parsed m \<or> data = [] \<Longrightarrow> parse_data m data = Some (m, data)"
  by (subst parse_data.simps) simp

lemma parse_data_go:
  "\<not> parsed m \<Longrightarrow> data \<noteq> [] \<Longrightarrow> parse_data m data = Option.bind (parse_step m data) (\<lambda>x. parse_data (fst x) (snd x))"
  by (subst parse_data.simps) simp

text \<open>Reading the content takes one step.\<close>

definition with_content :: "string \<Rightarrow> bool \<Rightarrow> http_msg \<Rightarrow> http_msg" where
  "with_content s p m = m\<lparr>content := content m @ s, raw := raw m @ s, parsed := p\<rparr>"

lemma parse_content:
  assumes "parsed_headers m" "\<not> parsed m" "header_value ''content-length'' m = Some len" "plain data" "data \<noteq> []"
  shows "parse_data m data =
    (let n = remaining_content len m in
     if n \<le> length data then Some (with_content (take n data) True m, drop n data)
     else Some (with_content data False m, []))"
proof -
  have "parse_step m data =
    (let n = remaining_content len m in
     if n \<le> length data then Some (with_content (take n data) True m, drop n data)
     else Some (with_content data False m, []))"
    using assms by (simp add: parse_step_def content_step_def with_content_def Let_def)
  then show ?thesis
    using assms by (simp add: parse_data_go Let_def parse_data_stop with_content_def)
qed

lemma header_value_content [simp]: "header_value k (with_content s p m) = header_value k m"
  by (simp add: header_value_def with_content_def)

lemma remaining_after:
  assumes "length s < remaining_content len m"
  shows "remaining_content len (with_content s p m) = remaining_content len m - length s"
proof -
  let ?x = "word_of_int (atol len) - word_of_nat (length (content m)) :: 64 word"
  have "length s < unat ?x" using assms by (simp add: remaining_content_def)
  moreover have "unat ?x < 2 ^ 64" by (rule order.strict_trans2 [OF unsigned_less]) simp
  ultimately have "length s < unat ?x" "unat (word_of_nat (length s) :: 64 word) = length s"
    by (simp_all add: unsigned_of_nat take_bit_nat_eq_self)
  then have "unat (?x - word_of_nat (length s)) = unat ?x - length s"
    by (simp add: unat_sub word_le_nat_alt)
  then show ?thesis by (simp add: remaining_content_def with_content_def algebra_simps)
qed

lemma content_chunks:
  assumes "parsed m \<or> parsed_headers m \<and> header_value ''content-length'' m \<noteq> None" "plain (a @ b)"
  shows "parse_data m (a @ b) = Option.bind (parse_data m a) (\<lambda>x. parse_data (fst x) (snd x @ b))"
proof (cases "parsed m \<or> a = []")
  case True
  then show ?thesis by (auto simp: parse_data_stop)
next
  case False
  then obtain len where m: "parsed_headers m" "\<not> parsed m" "header_value ''content-length'' m = Some len" "a \<noteq> []"
    using assms(1) by auto
  let ?n = "remaining_content len m"
  show ?thesis
  proof (cases "?n \<le> length a")
    case True
    then show ?thesis
      using m assms(2) parse_content [OF m(1-3), of "a @ b"] parse_content [OF m(1-3), of a]
      by (simp add: Let_def parse_data_stop with_content_def)
  next
    case False
    let ?m = "with_content a False m"
    have r: "remaining_content len ?m = ?n - length a" using remaining_after False by simp
    have a: "parse_data m a = Some (?m, [])"
      using m assms(2) False parse_content [OF m(1-3), of a] by (simp add: Let_def)
    show ?thesis
    proof (cases "b = []")
      case True
      then show ?thesis using a by (simp add: parse_data_stop)
    next
      case b: False
      have h: "parsed_headers ?m" "\<not> parsed ?m" "header_value ''content-length'' ?m = Some len"
        using m by simp_all (simp_all add: with_content_def)
      show ?thesis
        using m assms(2) b False a r parse_content [OF m(1-3), of "a @ b"] parse_content [OF h, of b]
        by (auto simp: Let_def with_content_def)
    qed
  qed
qed

lemma strstr_append: "strstr s d = Some i \<Longrightarrow> strstr (s @ t) d = Some i"
proof (induction s d arbitrary: i rule: strstr.induct)
  case (1 d)
  then show ?case by (cases t) (auto split: if_splits)
next
  case (2 c s d)
  show ?case
  proof (cases "prefix d (c # s)")
    case True
    then have "prefix d ((c # s) @ t)" by (rule prefix_prefix)
    then show ?thesis using True 2(2) by simp
  next
    case False
    then obtain j where j: "strstr s d = Some j" "i = Suc j" using 2(2) by auto
    then have "length d \<le> length (c # s)" using strstr_bound [OF j(1)] by simp
    then have "\<not> prefix d ((c # s) @ t)"
      using False prefix_length_prefix [of d "(c # s) @ t" "c # s"] by auto
    then show ?thesis using 2(1) [OF False j(1)] j(2) by simp
  qed
qed

text \<open>The end of the headers that was not in the first part reaches into the second.\<close>

lemma strstr_beyond:
  assumes "strstr s d = None" "strstr (s @ t) d = Some i"
  shows "length s < i + length d"
proof (rule ccontr)
  assume "\<not> length s < i + length d"
  then have "take (i + length d) (s @ t) = take (i + length d) s" by simp
  moreover have "s @ t = take i (s @ t) @ d @ drop (i + length d) (s @ t)" using strstr_split [OF assms(2)] by simp
  then have "take (i + length d) (s @ t) = take i (s @ t) @ d"
    using strstr_bound [OF assms(2)] by (metis (no_types, lifting) add_leD1 append_assoc append_eq_conv_conj length_append length_take min_absorb2)
  ultimately have "s = take i (s @ t) @ d @ drop (i + length d) s" by (metis append_assoc append_take_drop_id)
  with assms(1) show False unfolding strstr_None_iff by metis
qed

text \<open>The headers are complete: what the message becomes when \<open>p\<close> holds its bytes up to there.\<close>

definition with_headers :: "http_msg \<Rightarrow> string \<Rightarrow> http_msg option" where
  "with_headers msg p =
     map_option (\<lambda>m. if header_value ''content-length'' m = None then m\<lparr>parsed := True\<rparr> else m)
       (gebr_comm_http_fieldfy (msg\<lparr>parsed_headers := True, raw := p\<rparr>))"

lemma fieldfy_fields:
  "gebr_comm_http_fieldfy m = Some m' \<Longrightarrow> raw m' = raw m \<and> parsed m' = parsed m \<and> parsed_headers m' = parsed_headers m"
  by (auto simp: gebr_comm_http_fieldfy_def Let_def split: http_type.splits if_splits)

lemma with_headers_fields:
  assumes "with_headers m p = Some m'" "\<not> parsed m"
  shows "raw m' = p \<and> parsed_headers m' \<and> (parsed m' \<or> header_value ''content-length'' m' \<noteq> None)"
  using assms fieldfy_fields [of "m\<lparr>parsed_headers := True, raw := p\<rparr>"]
  by (auto simp: with_headers_def header_value_def split: if_splits)

definition reading_headers :: "http_msg \<Rightarrow> bool" where
  "reading_headers m \<longleftrightarrow> \<not> parsed m \<and> \<not> parsed_headers m \<and> strstr (raw m) [NL, NL] = None"

lemma parse_header_more:
  assumes "reading_headers m" "plain (raw m @ a)" "strstr (raw m @ a) [NL, NL] = None"
  shows "parse_data m a = Some (m\<lparr>raw := raw m @ a\<rparr>, [])"
proof (cases "a = []")
  case False
  have "parse_step m a = Some (m\<lparr>raw := raw m @ a\<rparr>, [])"
    using assms header_end_plain [OF assms(2)] by (simp add: parse_step_def header_step_def reading_headers_def)
  then show ?thesis using False assms(1) by (simp add: parse_data_go parse_data_stop reading_headers_def)
qed (simp add: parse_data_stop)

lemma parse_header_end:
  assumes "reading_headers m" "plain (raw m @ a)" "strstr (raw m @ a) [NL, NL] = Some e"
  shows "parse_data m a = Option.bind (with_headers m (take (e + 2) (raw m @ a)))
           (\<lambda>m'. parse_data m' (drop (e + 2) (raw m @ a)))"
proof -
  let ?n = "e + 2 - length (raw m)"
  have lt: "length (raw m) < e + 2"
    using strstr_beyond [of "raw m" "[NL, NL]" a e] assms by (simp add: reading_headers_def)
  then have a: "a \<noteq> []" using assms by (auto simp: reading_headers_def)
  have le: "e + 2 \<le> length (raw m) + length a" using strstr_bound [OF assms(3)] by simp
  have b: "int e - int (length (raw m)) + 2 = int ?n" using lt by simp
  have t: "take (e + 2) (raw m @ a) = raw m @ take ?n a" "drop (e + 2) (raw m @ a) = drop ?n a"
    using lt by simp_all
  have p: "plain (take ?n a)" "plain (raw m)" "plain a" using assms(2) plain_part by auto
  have "header_step m a = with_headers m (raw m @ take ?n a)"
    unfolding header_step_def with_headers_def Let_def
    by (simp only: c_str_plain [OF p(2)] c_str_plain [OF p(3)] header_end_plain [OF assms(2)] assms(3) option.case b)
      (simp del: add_2_eq_Suc add_2_eq_Suc' add: p(1))
  then have st: "parse_step m a = map_option (\<lambda>m'. (m', drop (length (raw m') - length (raw m)) a))
      (with_headers m (raw m @ take ?n a))"
    using assms(1) by (simp add: parse_step_def reading_headers_def)
  show ?thesis
  proof (cases "with_headers m (raw m @ take ?n a)")
    case None
    then show ?thesis using st a assms(1) unfolding t by (simp add: parse_data_go reading_headers_def)
  next
    case (Some m')
    have "raw m' = raw m @ take ?n a"
      using with_headers_fields [OF Some] assms(1) by (simp add: reading_headers_def)
    then have "length (raw m') - length (raw m) = ?n" using le by simp
    then have "parse_step m a = Some (m', drop ?n a)" using st Some by simp
    then show ?thesis using a assms(1) Some unfolding t by (simp add: parse_data_go reading_headers_def)
  qed
qed

lemma header_chunks:
  assumes "reading_headers m" "plain (raw m @ a @ b)"
  shows "parse_data m (a @ b) = Option.bind (parse_data m a) (\<lambda>x. parse_data (fst x) (snd x @ b))"
proof (cases "strstr (raw m @ a) [NL, NL]")
  case (Some e)
  let ?p = "take (e + 2) (raw m @ a)" and ?r = "drop (e + 2) (raw m @ a)"
  have le: "e + 2 \<le> length (raw m @ a)" using strstr_bound [OF Some] by simp
  have ab: "strstr (raw m @ (a @ b)) [NL, NL] = Some e" using strstr_append [OF Some, of b] by simp
  have t: "take (e + 2) (raw m @ a @ b) = ?p" "drop (e + 2) (raw m @ a @ b) = ?r @ b"
    using le by (simp_all add: drop_append take_append)
  have "parse_data m (a @ b) = Option.bind (with_headers m ?p) (\<lambda>m'. parse_data m' (?r @ b))"
    using parse_header_end [OF assms(1) assms(2) ab] by (simp only: t)
  moreover have "parse_data m' (?r @ b) = Option.bind (parse_data m' ?r) (\<lambda>x. parse_data (fst x) (snd x @ b))"
    if "with_headers m ?p = Some m'" for m'
  proof (rule content_chunks)
    show "parsed m' \<or> parsed_headers m' \<and> header_value ''content-length'' m' \<noteq> None"
      using with_headers_fields [OF that] assms(1) by (auto simp: reading_headers_def)
    show "plain (?r @ b)" using assms(2) plain_part [of "raw m @ a"] by simp
  qed
  moreover have "parse_data m a = Option.bind (with_headers m ?p) (\<lambda>m'. parse_data m' ?r)"
    using parse_header_end [OF assms(1) _ Some] assms(2) by simp
  ultimately show ?thesis by (cases "with_headers m ?p") auto
next
  case None
  let ?m = "m\<lparr>raw := raw m @ a\<rparr>"
  have m: "reading_headers ?m" using assms(1) None by (simp add: reading_headers_def)
  have w: "with_headers ?m p = with_headers m p" for p by (simp add: with_headers_def)
  have a: "parse_data m a = Some (?m, [])" using parse_header_more [OF assms(1) _ None] assms(2) by simp
  have "parse_data ?m b = parse_data m (a @ b)"
  proof (cases "strstr (raw m @ a @ b) [NL, NL]")
    case None
    then show ?thesis using parse_header_more [OF m, of b] parse_header_more [OF assms(1), of "a @ b"] assms(2)
      by simp
  next
    case (Some e)
    then show ?thesis using parse_header_end [OF m, of b e] parse_header_end [OF assms(1), of "a @ b" e] assms(2) w
      by simp
  qed
  with a show ?thesis by simp
qed

definition method_words :: "string list" where
  "method_words = [''HTTP/1.1 '', ''GET '', ''PUT '']"

lemma new_reading: "reading_headers (gebr_comm_http_msg_new ty me)" "raw (gebr_comm_http_msg_new ty me) = []"
  by (simp_all add: reading_headers_def gebr_comm_http_msg_new_def)

text \<open>
  Once the first chunk holds the whole method word, it does not matter how the bytes of a message
  without CR and NUL are cut: the first part followed by the rest gives the message, the error and the unread
  bytes that both parts give together.
\<close>

theorem http_fragmentation:
  assumes "list_ex (\<lambda>w. prefix w a) method_words" "plain (a @ b)"
  shows "gebr_comm_http_msg_new_parsing None (a @ b) =
         Option.bind (gebr_comm_http_msg_new_parsing None a)
           (\<lambda>(msg, rest). gebr_comm_http_msg_new_parsing msg (rest @ b))"
proof -
  have ab: "prefix w (a @ b) = prefix w a" if "w \<in> set method_words" for w
  proof -
    obtain v where v: "v \<in> set method_words" "prefix v a" using assms(1) by (auto simp: list_ex_iff)
    show ?thesis using that v by (auto simp: method_words_def prefix_def append_eq_Cons_conv Cons_eq_append_conv)
  qed
  have go: "map_option (map_prod Some id) (parse_data (gebr_comm_http_msg_new ty me) (a @ b)) =
      Option.bind (map_option (map_prod Some id) (parse_data (gebr_comm_http_msg_new ty me) a))
        (\<lambda>(msg, rest). gebr_comm_http_msg_new_parsing msg (rest @ b))" for ty me
    using header_chunks [OF new_reading(1) [of ty me], of a b] assms(2)
    by (cases "parse_data (gebr_comm_http_msg_new ty me) a")
      (auto simp: new_reading(2) gebr_comm_http_msg_new_parsing_def)
  have "prefix ''HTTP/1.1 '' (a @ b) = prefix ''HTTP/1.1 '' a" "prefix ''GET '' (a @ b) = prefix ''GET '' a"
    "prefix ''PUT '' (a @ b) = prefix ''PUT '' a"
    by (rule ab; simp add: method_words_def)+
  then show ?thesis
    using assms(1) go
    by (auto simp: gebr_comm_http_msg_new_parsing_def [of None] method_words_def)
qed

theorem http_fragmentation_witness:
  "gebr_comm_http_msg_new_parsing None (''GET /l'' @ ''ines'' @ [NL, NL]) =
   Option.bind (gebr_comm_http_msg_new_parsing None ''GET /l'')
     (\<lambda>(msg, rest). gebr_comm_http_msg_new_parsing msg (rest @ ''ines'' @ [NL, NL]))"
  by (rule http_fragmentation) (simp_all add: method_words_def plain_def)

section \<open>Round trip\<close>

definition good_header :: "(string \<Rightarrow> cstr option) \<Rightarrow> string \<Rightarrow> bool" where
  "good_header h k \<longleftrightarrow>
     (case h k of
        Some (Some v) \<Rightarrow> k \<noteq> [] \<and> CHR '':'' \<notin> set k \<and> NL \<notin> set k \<and> ascii_down k = k \<and> plain k \<and> NL \<notin> set v \<and> plain v
      | _ \<Rightarrow> False)"

definition header_text :: "(string \<Rightarrow> cstr option) \<Rightarrow> string \<Rightarrow> string" where
  "header_text h k = k @ '':'' @ the (the (h k))"

lemma good_header_text:
  assumes "good_header h k"
  shows "header_text h k \<noteq> []" "NL \<notin> set (header_text h k)" "plain (header_text h k)"
    "header_line (header_text h k) d = d(k \<mapsto> the (h k))"
proof -
  obtain v where v: "h k = Some (Some v)" "k \<noteq> []" "CHR '':'' \<notin> set k" "NL \<notin> set k" "ascii_down k = k" "plain k"
      "NL \<notin> set v" "plain v"
    using assms by (auto simp: good_header_def split: option.splits)
  then show "header_text h k \<noteq> []" "NL \<notin> set (header_text h k)" "plain (header_text h k)"
    by (auto simp: header_text_def plain_def)
  have "split_cuts (Suc 0) '':'' (k @ CHR '':'' # v) = [k, v]"
    using join_char_decomp [OF v(3), of 0 v] by simp
  then show "header_line (header_text h k) d = d(k \<mapsto> the (h k))"
    using v by (simp add: header_line_def g_strsplit_def header_text_def)
qed

lemma fold_headers:
  assumes "list_all (good_header h) ks"
  shows "fold header_line (map (header_text h) ks) d = d ++ (h |` set ks)"
  using assms
proof (induction ks arbitrary: d)
  case (Cons k ks)
  then obtain v where "h k = Some v" by (auto simp: good_header_def split: option.splits)
  moreover have "d(k \<mapsto> v) ++ (h |` set ks) = d ++ (h |` set (k # ks))" if "h k = Some v" for v
    using that by (auto simp: map_add_def restrict_map_def fun_eq_iff split: option.splits)
  ultimately show ?case using Cons good_header_text(4) [of h k d] by simp
qed simp

text \<open>The end of the headers is the first empty line.\<close>

lemma header_end_lines:
  assumes "list_all (\<lambda>l. l \<noteq> [] \<and> NL \<notin> set l) ls" "ls \<noteq> []"
  shows "strstr (g_strjoinv [NL] ls @ NL # NL # t) [NL, NL] = Some (length (g_strjoinv [NL] ls))"
  using assms
proof (induction ls)
  case (Cons l ls)
  have skip: "strstr (l @ s) [NL, NL] = map_option (\<lambda>i. length l + i) (strstr s [NL, NL])" if "NL \<notin> set l" for l s
  proof (cases "strstr s [NL, NL]")
    case None
    then show ?thesis using that by (induction l) auto
  next
    case (Some i)
    then show ?thesis using that by (induction l) auto
  qed
  show ?case
  proof (cases ls)
    case Nil
    then show ?thesis using Cons.prems skip [of l] by simp
  next
    case (Cons x xs)
    have "g_strjoinv [NL] ls \<noteq> [] \<and> hd (g_strjoinv [NL] ls) \<noteq> NL"
      using \<open>list_all _ (l # ls)\<close> Cons by (cases xs; cases x) auto
    then obtain c r where cr: "g_strjoinv [NL] ls = c # r" "c \<noteq> NL" by (cases "g_strjoinv [NL] ls") auto
    then show ?thesis
      using Cons.IH \<open>list_all _ (l # ls)\<close> Cons skip [of l] by (simp add: g_strjoinv_Cons)
  qed
qed simp

lemma strsplit_all: "g_strsplit s d 0 = g_strsplit s d (- 1)"
  by (simp add: g_strsplit_def)

lemma split_headers:
  assumes "list_all (\<lambda>l. NL \<notin> set l) ls"
  shows "g_strsplit (concat (map (\<lambda>l. l @ [NL]) ls) @ [NL]) [NL] 0 = ls @ [[], []]"
proof -
  have j: "g_strjoinv [NL] (ls @ [[], []]) = concat (map (\<lambda>l. l @ [NL]) ls) @ [NL]"
    by (induction ls) (simp_all add: g_strjoinv_Cons)
  have "g_strsplit (g_strjoinv [NL] (ls @ [[], []])) [NL] (- 1) = ls @ [[], []]"
    by (rule strsplit_join_char) (use assms in \<open>auto simp: j list_all_iff\<close>)
  then show ?thesis unfolding strsplit_all j [symmetric] .
qed

lemma join_with_first:
  "first @ NL # concat (map (\<lambda>l. l @ [NL]) ls) @ s = g_strjoinv [NL] (first # ls) @ NL # s"
  by (induction ls arbitrary: first) (simp_all add: g_strjoinv_Cons)

text \<open>The headers of a request with the headers \<open>h\<close> and the content \<open>b\<close>, and its bytes before the content.\<close>

definition request_headers :: "(string \<Rightarrow> cstr option) \<Rightarrow> string \<Rightarrow> string \<Rightarrow> cstr option" where
  "request_headers h b =
     (if b = [] then h else h(''content-length'' \<mapsto> Some (show_nat (length b))))"

definition request_head :: "string \<Rightarrow> string \<Rightarrow> (string \<Rightarrow> cstr option) \<Rightarrow> string list \<Rightarrow> string" where
  "request_head w u h ks = w @ '' '' @ u @ [NL] @ concat (map (\<lambda>l. l @ [NL]) (map (header_text h) ks)) @ [NL]"

lemma print_good_header: "good_header (headers m) k \<Longrightarrow> print_header m k = header_text (headers m) k @ [NL]"
  by (auto simp: print_header_def header_text_def good_header_def split: option.splits)

lemma new_with_headers:
  assumes "h ''content-length'' = None" "headers m = Map.empty" "content m = []"
  shows "headers (new_with m (Some h) (Some b)) = request_headers h b \<and> content (new_with m (Some h) (Some b)) = b \<and>
    http_type (new_with m (Some h) (Some b)) = http_type m \<and> http_method (new_with m (Some h) (Some b)) = http_method m \<and>
    url (new_with m (Some h) (Some b)) = url m"
proof -
  have "(Map.empty(''content-length'' \<mapsto> x)) ++ h = h(''content-length'' \<mapsto> x)" for x
    using assms(1) by (auto simp: map_add_def fun_eq_iff split: option.split)
  then show ?thesis using assms(2,3) by (simp add: new_with_def request_headers_def)
qed

lemma request_fields:
  assumes "method_enum_to_string me = Some w" "h ''content-length'' = None"
    and "list_all (good_header (request_headers h b)) (keys_of (request_headers h b))"
  shows "let q = gebr_comm_http_msg_new_request keys_of me u (Some h) (Some b) in
    http_method q = me \<and> url q = u \<and> headers q = request_headers h b \<and> content q = b \<and>
    raw q = request_head w u (request_headers h b) (keys_of (request_headers h b)) @ b"
proof -
  let ?m0 = "(gebr_comm_http_msg_new GEBR_COMM_HTTP_TYPE_REQUEST me)\<lparr>url := u\<rparr>"
  let ?n = "new_with ?m0 (Some h) (Some b)" and ?h = "request_headers h b"
  have n: "headers ?n = ?h" "content ?n = b" "http_type ?n = GEBR_COMM_HTTP_TYPE_REQUEST" "http_method ?n = me" "url ?n = u"
    using new_with_headers [of h ?m0 b] assms(2) by (simp_all add: gebr_comm_http_msg_new_def)
  let ?n1 = "if content ?n \<noteq> [] then ?n\<lparr>headers := (headers ?n)(''content-length'' \<mapsto> Some (show_nat (length (content ?n))))\<rparr> else ?n"
  have n1: "headers ?n1 = ?h" "content ?n1 = b" "http_method ?n1 = me" "url ?n1 = u"
    using n by (auto simp: request_headers_def)
  have "concat (map (print_header ?n1) (keys_of ?h)) = concat (map (\<lambda>l. l @ [NL]) (map (header_text ?h) (keys_of ?h)))"
    using assms(3) print_good_header [of ?n1] unfolding n1(1) by (auto simp: list_all_iff intro!: arg_cong [of _ _ concat])
  then show ?thesis
    using n n1 assms(1)
    unfolding gebr_comm_http_msg_new_request_def gebr_comm_http_msg_serialize_def Let_def
    by (simp add: request_head_def nonempty_or_def)
qed

lemma good_header_upd:
  "good_header h k \<Longrightarrow> good_header (h(''content-length'' \<mapsto> Some (show_nat n))) k"
  using show_nat_no_char [of NL n] show_nat_no_char [of "CHR 0x00" n] show_nat_no_char [of "CHR 0x0D" n]
  by (auto simp: good_header_def plain_def is_digit_def code_def split: option.splits)

lemma good_content_length:
  "good_header (h(''content-length'' \<mapsto> Some (show_nat n))) ''content-length''"
proof -
  have "ascii_down ''content-length'' = ''content-length''" by code_simp
  then show ?thesis
    using show_nat_no_char [of NL n] show_nat_no_char [of "CHR 0x00" n] show_nat_no_char [of "CHR 0x0D" n]
    by (auto simp: good_header_def plain_def is_digit_def code_def)
qed

lemma request_headers_good:
  assumes "\<forall>k \<in> dom h. good_header h k"
  shows "\<forall>k \<in> dom (request_headers h b). good_header (request_headers h b) k"
  using assms good_header_upd good_content_length by (auto simp: request_headers_def)

lemma request_head_parts:
  assumes "list_all (good_header h) ks" "plain w" "plain u" "NL \<notin> set w" "NL \<notin> set u" "w \<noteq> []"
  defines "P \<equiv> request_head w u h ks"
  shows "plain P" "takeWhile (\<lambda>c. c \<noteq> NL) P = w @ '' '' @ u"
    "strstr (P @ b) [NL, NL] = Some (length P - 2)" "2 \<le> length P"
    "drop (length (w @ '' '' @ u) + 1) P = concat (map (\<lambda>l. l @ [NL]) (map (header_text h) ks)) @ [NL]"
proof -
  let ?ls = "map (header_text h) ks"
  have ls: "list_all (\<lambda>l. l \<noteq> [] \<and> NL \<notin> set l \<and> plain l) ?ls"
    using assms(1) good_header_text by (auto simp: list_all_iff)
  have "plain (concat (map (\<lambda>l. l @ [NL]) ?ls))" using ls by (induction ks) (auto simp: plain_def)
  then show "plain P" using assms(2,3) by (simp add: P_def request_head_def) (simp add: plain_def)
  have first: "NL \<notin> set (w @ '' '' @ u)" using assms(4,5) by simp
  have P: "P = (w @ '' '' @ u) @ NL # concat (map (\<lambda>l. l @ [NL]) ?ls) @ [NL]"
    by (simp add: P_def request_head_def)
  show "takeWhile (\<lambda>c. c \<noteq> NL) P = w @ '' '' @ u"
    unfolding P using first by (subst takeWhile_all_stop) auto
  show "drop (length (w @ '' '' @ u) + 1) P = concat (map (\<lambda>l. l @ [NL]) ?ls) @ [NL]"
    unfolding P by simp
  have j: "P @ b = g_strjoinv [NL] ((w @ '' '' @ u) # ?ls) @ NL # NL # b" for b
    unfolding P using join_with_first [of "w @ '' '' @ u" ?ls "NL # b"] by simp
  have len: "length P = length (g_strjoinv [NL] ((w @ '' '' @ u) # ?ls)) + 2" using j [of "[]"] by simp
  have "list_all (\<lambda>l. l \<noteq> [] \<and> NL \<notin> set l) ((w @ '' '' @ u) # ?ls)"
    using ls first assms(6) by (auto simp: list_all_iff)
  from header_end_lines [OF this] show "strstr (P @ b) [NL, NL] = Some (length P - 2)"
    unfolding j len by simp
  show "2 \<le> length P" unfolding len by simp
qed

lemma fieldfy_request:
  assumes "list_all (good_header h) ks" "set ks = dom h" "plain w" "plain u" "NL \<notin> set w" "NL \<notin> set u" "w \<noteq> []"
    and "CHR '' '' \<notin> set w" "CHR '' '' \<notin> set u"
    and "raw m = request_head w u h ks" "http_type m = GEBR_COMM_HTTP_TYPE_REQUEST" "headers m = Map.empty"
  shows "gebr_comm_http_fieldfy m = Some (m\<lparr>url := u, headers := h\<rparr>)"
proof -
  note P = request_head_parts [OF assms(1,3-7)]
  have "g_strsplit (g_strjoinv '' '' [w, u]) '' '' (- 1) = [w, u]"
    by (rule strsplit_join_char) (use assms(8,9) in auto)
  then have sp: "g_strsplit (w @ '' '' @ u) '' '' 0 = [w, u]" unfolding strsplit_all by simp
  have "list_all (\<lambda>l. NL \<notin> set l) (map (header_text h) ks)"
    using assms(1) good_header_text(2) by (auto simp: list_all_iff)
  from split_headers [OF this]
  have "gebr_g_hash_table_fill_with_headers Map.empty (concat (map (\<lambda>l. l @ [NL]) (map (header_text h) ks)) @ [NL]) =
      fold header_line (map (header_text h) ks) Map.empty"
    by (simp add: gebr_g_hash_table_fill_with_headers_def header_line_def g_strsplit_def)
  also have "\<dots> = h"
    using fold_headers [OF assms(1), of Map.empty] assms(2) by (auto simp: restrict_map_def fun_eq_iff dom_def)
  finally have hs: "gebr_g_hash_table_fill_with_headers Map.empty
      (drop (length (w @ '' '' @ u) + 1) (request_head w u h ks)) = h" unfolding P(5) .
  have nl: "has_char (request_head w u h ks) NL" by (simp add: request_head_def has_char_def)
  show ?thesis
    using sp hs nl unfolding gebr_comm_http_fieldfy_def Let_def assms(10-12) P(2)
    by (simp add: assms(11,12))
qed

lemma content_length_value:
  assumes "h ''content-length'' = None"
  shows "Option.bind (request_headers h b ''content-length'') id =
    (if b = [] then None else Some (show_nat (length b)))"
  using assms by (simp add: request_headers_def)

lemma atol_show_nat: "n < 2 ^ 63 \<Longrightarrow> atol (show_nat n) = int n"
  by (simp add: atol_def strtol10_show_nat')

text \<open>The two steps of the parser on a request that arrives in one piece: its head, and the content that it announces.\<close>

lemma parse_whole_head:
  assumes "with_headers m P = Some m'" "plain P" "plain b" "strstr (P @ b) [NL, NL] = Some (length P - 2)" "2 \<le> length P"
    and "m = gebr_comm_http_msg_new ty me"
  shows "parse_data m (P @ b) = parse_data m' b"
proof -
  have t: "take (length P - 2 + 2) (P @ b) = P" "drop (length P - 2 + 2) (P @ b) = b" using assms(5) by simp_all
  have "parse_data m (P @ b) = Option.bind (with_headers m (take (length P - 2 + 2) (P @ b)))
      (\<lambda>m'. parse_data m' (drop (length P - 2 + 2) (P @ b)))"
    using parse_header_end [of m "P @ b" "length P - 2"] new_reading(1) assms(2-4,6) by (simp add: new_reading(2))
  then show ?thesis unfolding t assms(1) by simp
qed

lemma parse_announced_content:
  assumes "headers m = request_headers h b" "h ''content-length'' = None" "parsed_headers m" "content m = []" "\<not> parsed m"
    and "plain b" "length b < 2 ^ 63" "b \<noteq> []"
  shows "parse_data m b = Some (with_content b True m, [])"
proof -
  have "remaining_content (show_nat (length b)) m = length b"
    using assms(4,7) by (simp add: remaining_content_def atol_show_nat unsigned_of_nat take_bit_nat_eq_self)
  then show ?thesis
    using parse_content [of m "show_nat (length b)" b] content_length_value [of h b] assms by (simp add: header_value_def)
qed

text \<open>
  C36: a GET or PUT request that the serializer writes is read back by the parser in one piece: the same
  method, URL, headers and content, complete, and with no byte left; the URL and the headers hold no
  separators, and the keys are in lower case.
\<close>

theorem http_round_trip:
  assumes "me = GEBR_COMM_HTTP_METHOD_GET \<or> me = GEBR_COMM_HTTP_METHOD_PUT"
    and "plain u" "NL \<notin> set u" "CHR '' '' \<notin> set u"
    and "h ''content-length'' = None" "\<forall>k \<in> dom h. good_header h k" "plain b" "length b < 2 ^ 63"
    and "set (keys_of (request_headers h b)) = dom (request_headers h b)"
  shows "let q = gebr_comm_http_msg_new_request keys_of me u (Some h) (Some b) in
    \<exists>m. gebr_comm_http_msg_new_parsing None (raw q) = Some (Some m, []) \<and> http_method m = me \<and> url m = u \<and>
        headers m = headers q \<and> content m = b \<and> raw m = raw q \<and> parsed m"
proof -
  let ?h = "request_headers h b" and ?q = "gebr_comm_http_msg_new_request keys_of me u (Some h) (Some b)"
  let ?ks = "keys_of ?h" and ?m0 = "gebr_comm_http_msg_new GEBR_COMM_HTTP_TYPE_REQUEST me"
  obtain w where w: "method_enum_to_string me = Some w" "w = ''GET'' \<or> w = ''PUT''" using assms(1) by auto
  have wp: "plain w" "NL \<notin> set w" "w \<noteq> []" "CHR '' '' \<notin> set w" using w(2) by (auto simp: plain_def)
  have ks: "list_all (good_header ?h) ?ks"
    using request_headers_good [OF assms(6)] assms(9) by (simp add: list_all_iff)
  let ?P = "request_head w u ?h ?ks"
  note P = request_head_parts [OF ks wp(1) assms(2) wp(2) assms(3) wp(3)]
  have q: "headers ?q = ?h" "raw ?q = ?P @ b"
    using request_fields [of me w h b keys_of u] w(1) assms(5) ks by (simp_all add: Let_def)
  have start: "gebr_comm_http_msg_new_parsing None (raw ?q) = map_option (map_prod Some id) (parse_data ?m0 (raw ?q))"
    using w assms(1) unfolding q(2) gebr_comm_http_msg_new_parsing_def
    by (auto simp: request_head_def)
  let ?m1 = "?m0\<lparr>parsed_headers := True, raw := ?P, url := u, headers := ?h\<rparr>"
  let ?m2 = "if b = [] then ?m1\<lparr>parsed := True\<rparr> else ?m1"
  have "gebr_comm_http_fieldfy (?m0\<lparr>parsed_headers := True, raw := ?P\<rparr>) =
      Some ((?m0\<lparr>parsed_headers := True, raw := ?P\<rparr>)\<lparr>url := u, headers := ?h\<rparr>)"
    by (rule fieldfy_request [OF ks assms(9) wp(1) assms(2) wp(2) assms(3) wp(3,4) assms(4)])
      (simp_all add: gebr_comm_http_msg_new_def)
  then have wh: "with_headers ?m0 ?P = Some ?m2"
    using content_length_value [of h b] assms(5) by (simp add: with_headers_def header_value_def)
  have "parse_data ?m0 (?P @ b) = parse_data ?m2 b"
    using wh P(1) assms(7) P(3,4) refl by (rule parse_whole_head)
  moreover have "parse_data ?m2 b = Some (if b = [] then ?m2 else with_content b True ?m2, [])"
  proof (cases "b = []")
    case False
    then show ?thesis
      using parse_announced_content [of ?m2 h b] assms(5,7,8) by (simp add: gebr_comm_http_msg_new_def)
  qed (simp add: parse_data_stop)
  ultimately show ?thesis
    unfolding Let_def start [unfolded q(2)] q
    by (intro exI [of _ "if b = [] then ?m2 else with_content b True ?m2"])
      (auto simp: with_content_def gebr_comm_http_msg_new_def)
qed

text \<open>An order of the keys that serves tables over a few known keys, for the examples.\<close>

definition known_keys :: "(string \<Rightarrow> cstr option) \<Rightarrow> string list" where
  "known_keys h = filter (\<lambda>k. h k \<noteq> None) [''content-length'', ''x'']"

theorem http_round_trip_witness:
  "let q = gebr_comm_http_msg_new_request known_keys GEBR_COMM_HTTP_METHOD_PUT ''/run'' (Some [''x'' \<mapsto> Some ''1'']) (Some ''{}'') in
    \<exists>m. gebr_comm_http_msg_new_parsing None (raw q) = Some (Some m, []) \<and> http_method m = GEBR_COMM_HTTP_METHOD_PUT \<and>
        url m = ''/run'' \<and> headers m = headers q \<and> content m = ''{}'' \<and> raw m = raw q \<and> parsed m"
  by (rule http_round_trip)
    (auto simp: plain_def good_header_def known_keys_def request_headers_def ascii_down_def is_upper_def code_def)

text \<open>The parser reads a NULL pointer for the method POST, and never returns on a chunk that starts with a 0 byte.\<close>

theorem http_post_crashes: "gebr_comm_http_msg_new_parsing None (''POST '' @ s) = None"
  by (simp add: gebr_comm_http_msg_new_parsing_def)

end
