(* ===== verification/Validator_Graph.thy ===== *)
theory Validator_Graph
  imports Arith_Expr Utils_Path Complex_Main
begin

text \<open>
  The variables of a flow and the references among them, after the first part of
  \<open>libgebr/gebr-validator.c\<close>: the table of variables, the lookup of a variable through the scopes, the
  check of the references of an expression, and the translation of a text with bracketed variables to \<open>bc\<close>.

  A variable is defined in the dictionaries of up to three documents: the flow, its line and its
  project, which are the scopes 0, 1 and 2. Parameters and documents are references into
  a heap, which keeps of a document what the validator asks of it. Weights are exact rational numbers.
\<close>

section \<open>State\<close>

type_synonym param_ref = nat
type_synonym doc_ref = nat
type_synonym var_ref = nat

text \<open>
  A parameter: \<open>p_values\<close> are its values, \<open>p_sep\<close> is the separator when it holds a list, and \<open>p_for\<close> tells
  that its program is a loop control.
\<close>

record param =
  p_name :: string
  p_type :: parameter_type
  p_values :: "string list"
  p_sep :: cstr
  p_required :: bool
  p_label :: string
  p_doc :: doc_ref
  p_dict :: bool
  p_for :: bool

record document =
  d_type :: nat
  d_dict :: "param_ref list"
  d_paths :: pvector

text \<open>\<open>HashData\<close>: for each scope the parameter, its weight, the names it uses and its error.\<close>

record hash_data =
  h_name :: string
  h_param :: "nat \<Rightarrow> param_ref option"
  h_weight :: "nat \<Rightarrow> rat"
  h_dep :: "nat \<Rightarrow> string list"
  h_error :: "nat \<Rightarrow> gerror option"

type_synonym vtable = "string \<Rightarrow> hash_data option"

text \<open>
  The validator with the heap it works on. \<open>doc_queue\<close> holds for each scope the stack of pointers to document
  variables (\<open>doc_vars\<close>), which their owner may set; \<open>cache_docs\<close> is the static array.
\<close>

record validator =
  arith :: arith_expr
  doc_queue :: "nat \<Rightarrow> var_ref list"
  vtab :: vtable
  cached_scope :: nat
  cache_docs :: "nat \<Rightarrow> doc_ref option"
  doc_vars :: "var_ref \<Rightarrow> doc_ref option"
  documents :: "doc_ref \<Rightarrow> document"
  params :: "param_ref \<Rightarrow> param"
  next_param :: param_ref

abbreviation FLOW :: nat where "FLOW \<equiv> 0"
abbreviation LINE :: nat where "LINE \<equiv> 1"
abbreviation PROJECT :: nat where "PROJECT \<equiv> 2"
abbreviation DOC_UNKNOWN :: nat where "DOC_UNKNOWN \<equiv> 3"

definition G_MAXDOUBLE :: rat where
  "G_MAXDOUBLE = (2 - 1 / 2 ^ 52) * 2 ^ 1023"

definition var_name :: "param_ref \<Rightarrow> validator \<Rightarrow> string" where
  "var_name p v = p_name (params v p)"

definition var_value :: "param_ref \<Rightarrow> validator \<Rightarrow> string" where
  "var_value p v = (case p_values (params v p) of [] \<Rightarrow> [] | x # _ \<Rightarrow> x)"

definition param_scope :: "validator \<Rightarrow> param_ref \<Rightarrow> nat" where
  "param_scope v p = d_type (documents v (p_doc (params v p)))"

definition param_type :: "validator \<Rightarrow> param_ref \<Rightarrow> parameter_type" where
  "param_type v p = p_type (params v p)"

definition hash_data_new_from_xml :: "param_ref \<Rightarrow> validator \<Rightarrow> hash_data" where
  "hash_data_new_from_xml p v =
     \<lparr>h_name = var_name p v, h_param = (\<lambda>_. None)(param_scope v p := Some p),
      h_weight = (\<lambda>_. 0)(param_scope v p := G_MAXDOUBLE), h_dep = (\<lambda>_. []), h_error = (\<lambda>_. None)\<rparr>"

section \<open>Lookup\<close>

definition get_document :: "validator \<Rightarrow> nat \<Rightarrow> var_ref option" where
  "get_document v s = (case doc_queue v s of [] \<Rightarrow> None | r # _ \<Rightarrow> Some r)"

text \<open>The document that the variable on top of the stack holds, if there is one.\<close>

definition current_doc :: "validator \<Rightarrow> nat \<Rightarrow> doc_ref option" where
  "current_doc v s = Option.bind (get_document v s) (doc_vars v)"

text \<open>The first parameter from a scope upwards.\<close>

fun first_param :: "(nat \<Rightarrow> param_ref option) \<Rightarrow> nat list \<Rightarrow> param_ref option" where
  "first_param f [] = None"
| "first_param f (s # ss) = (case f s of None \<Rightarrow> first_param f ss | Some p \<Rightarrow> Some p)"

definition get_param :: "vtable \<Rightarrow> string \<Rightarrow> nat \<Rightarrow> param_ref option" where
  "get_param tab name scope =
     (case tab name of None \<Rightarrow> None | Some d \<Rightarrow> first_param (h_param d) [scope..<3])"

text \<open>
  The parameter a reference stands for: of two variables of one scope, the one that refers must
  not come before the one that is referred to; otherwise the next scopes are searched.
\<close>

definition get_dep_param ::
    "vtable \<Rightarrow> (param_ref \<Rightarrow> nat) \<Rightarrow> cstr \<Rightarrow> nat \<Rightarrow> string \<Rightarrow> param_ref option" where
  "get_dep_param tab scope_of my_name my_scope dep =
     (case (get_param tab dep my_scope, my_name) of
        (None, _) \<Rightarrow> None
      | (Some p, None) \<Rightarrow> Some p
      | (Some p, Some me) \<Rightarrow>
          (case (tab me, tab dep) of
             (Some my_data, Some dep_data) \<Rightarrow>
               if my_scope = scope_of p \<and> h_weight dep_data (scope_of p) > h_weight my_data my_scope
               then get_param tab dep (my_scope + 1)
               else Some p
           | _ \<Rightarrow> None))"

definition is_number_type :: "parameter_type \<Rightarrow> bool" where
  "is_number_type ty \<longleftrightarrow> ty = GEBR_GEOXML_PARAMETER_TYPE_FLOAT \<or> ty = GEBR_GEOXML_PARAMETER_TYPE_INT"

definition iexpr :: "iexpr_error \<Rightarrow> string \<Rightarrow> gerror" where
  "iexpr k msg = IExprError k msg"

text \<open>
  \<open>get_error_indirect\<close>: \<open>Some None\<close> where the code returns \<open>TRUE\<close>, \<open>Some (Some e)\<close> where it returns
  \<open>FALSE\<close> with the error \<open>e\<close>, and \<open>None\<close> where the recursion never ends.
\<close>

partial_function (option) get_error_indirect ::
    "vtable \<Rightarrow> (param_ref \<Rightarrow> nat) \<Rightarrow> (param_ref \<Rightarrow> parameter_type) \<Rightarrow> string list \<Rightarrow> cstr \<Rightarrow> parameter_type \<Rightarrow> nat \<Rightarrow>
     gerror option option" where
  "get_error_indirect tab scope_of type_of deps my_name my_type my_scope =
     (case deps of
        [] \<Rightarrow> Some None
      | dep # rest \<Rightarrow>
          if my_name = Some dep then Some (Some (iexpr GEBR_IEXPR_ERROR_BAD_REFERENCE dep))
          else
            (case tab dep of
               None \<Rightarrow> Some (Some (iexpr GEBR_IEXPR_ERROR_UNDEF_REFERENCE dep))
             | Some d \<Rightarrow>
                 (case get_dep_param tab scope_of my_name my_scope dep of
                    None \<Rightarrow> Some (Some (iexpr GEBR_IEXPR_ERROR_UNDEF_REFERENCE dep))
                  | Some p \<Rightarrow>
                      if is_number_type my_type \<and> type_of p = GEBR_GEOXML_PARAMETER_TYPE_STRING
                      then Some (Some (iexpr GEBR_IEXPR_ERROR_TYPE_MISMATCH dep))
                      else Option.bind
                        (if h_error d (scope_of p) = None
                         then get_error_indirect tab scope_of type_of (h_dep d (scope_of p)) (Some dep) (type_of p) (scope_of p)
                         else Some None)
                        (\<lambda>e. if h_error d (scope_of p) \<noteq> None \<or> e \<noteq> None
                             then Some (Some (iexpr GEBR_IEXPR_ERROR_BAD_REFERENCE dep))
                             else get_error_indirect tab scope_of type_of rest my_name my_type my_scope))))"

section \<open>The check of the references ends\<close>

text \<open>
  The table is well typed when a parameter stands in the scope of its document, and ordered when no
  two variables of one scope have the same weight.
\<close>

definition table_typed :: "vtable \<Rightarrow> (param_ref \<Rightarrow> nat) \<Rightarrow> bool" where
  "table_typed tab scope_of \<longleftrightarrow>
     finite (dom tab) \<and> (\<forall>x d s p. tab x = Some d \<and> h_param d s = Some p \<longrightarrow> scope_of p = s)"

definition defined_in :: "vtable \<Rightarrow> nat \<Rightarrow> string \<Rightarrow> bool" where
  "defined_in tab s x \<longleftrightarrow> (\<exists>d p. tab x = Some d \<and> h_param d s = Some p)"

definition weight_of :: "vtable \<Rightarrow> nat \<Rightarrow> string \<Rightarrow> rat" where
  "weight_of tab s x = h_weight (the (tab x)) s"

definition weights_distinct :: "vtable \<Rightarrow> bool" where
  "weights_distinct tab \<longleftrightarrow> (\<forall>s. inj_on (weight_of tab s) {x. defined_in tab s x})"

lemma first_param_SomeD:
  "first_param f ss = Some p \<Longrightarrow> \<exists>s \<in> set ss. f s = Some p"
  by (induction ss) (auto split: option.splits)

lemma get_param_SomeD:
  assumes "table_typed tab scope_of" "get_param tab x s = Some p"
  shows "\<exists>d. tab x = Some d \<and> h_param d (scope_of p) = Some p \<and> s \<le> scope_of p \<and> scope_of p < 3"
proof -
  obtain d where d: "tab x = Some d" "first_param (h_param d) [s..<3] = Some p"
    using assms(2) by (auto simp: get_param_def split: option.splits)
  then obtain i where "i \<in> set [s..<3]" "h_param d i = Some p" using first_param_SomeD by blast
  moreover from this have "scope_of p = i" using assms(1) d(1) by (auto simp: table_typed_def)
  ultimately show ?thesis using d(1) by auto
qed

lemma get_dep_param_SomeD:
  assumes "table_typed tab scope_of" "get_dep_param tab scope_of me s x = Some p"
  shows "\<exists>d. tab x = Some d \<and> h_param d (scope_of p) = Some p \<and> s \<le> scope_of p \<and> scope_of p < 3 \<and>
     (\<forall>m md. me = Some m \<and> tab m = Some md \<and> scope_of p = s \<longrightarrow> h_weight d s \<le> h_weight md s)"
proof (cases "\<exists>m. me = Some m")
  case False
  then have "get_param tab x s = Some p"
    using assms(2) by (auto simp: get_dep_param_def split: option.splits)
  with get_param_SomeD [OF assms(1)] False show ?thesis by fastforce
next
  case True
  then obtain m q md xd where q: "me = Some m" "get_param tab x s = Some q" "tab m = Some md" "tab x = Some xd"
      "(if s = scope_of q \<and> h_weight xd (scope_of q) > h_weight md s then get_param tab x (s + 1) else Some q) = Some p"
    using assms(2) by (auto simp: get_dep_param_def split: option.splits)
  show ?thesis
  proof (cases "s = scope_of q \<and> h_weight xd (scope_of q) > h_weight md s")
    case True
    have "get_param tab x (s + 1) = Some p" using q(5) unfolding if_P [OF True] .
    from get_param_SomeD [OF assms(1) this] show ?thesis by fastforce
  next
    case False
    then have "q = p" using q(5) by (simp split: if_splits)
    moreover have "h_weight xd s \<le> h_weight md s" if "scope_of q = s" using False that by auto
    ultimately show ?thesis using get_param_SomeD [OF assms(1) q(2)] q(1,3,4) by auto
  qed
qed

text \<open>The place of a variable in the order in which references may go: scopes upwards, weights downwards.\<close>

definition place :: "vtable \<Rightarrow> nat \<Rightarrow> string \<Rightarrow> nat" where
  "place tab s x = (3 - s) * (card (dom tab) + 1) +
     card {y. defined_in tab s y \<and> weight_of tab s y < weight_of tab s x}"

lemma lighter_subset: "{y. defined_in tab s y \<and> weight_of tab s y < w} \<subseteq> dom tab"
  by (auto simp: defined_in_def)

lemma place_decreases:
  assumes typed: "table_typed tab scope_of" and dist: "weights_distinct tab" and m: "defined_in tab s m"
    and p: "get_dep_param tab scope_of (Some m) s x = Some p" and "x \<noteq> m"
  shows "defined_in tab (scope_of p) x \<and> place tab (scope_of p) x < place tab s m"
proof -
  let ?t = "scope_of p" and ?N = "card (dom tab)"
  have fin: "finite (dom tab)" using typed by (simp add: table_typed_def)
  obtain d where d: "tab x = Some d" "h_param d ?t = Some p" "s \<le> ?t" "?t < 3"
      "\<And>md. tab m = Some md \<Longrightarrow> ?t = s \<Longrightarrow> h_weight d s \<le> h_weight md s"
    using get_dep_param_SomeD [OF typed p] by auto
  have x: "defined_in tab ?t x" using d by (auto simp: defined_in_def)
  have bound: "card {y. defined_in tab ?t y \<and> weight_of tab ?t y < weight_of tab ?t x} \<le> ?N"
    by (rule card_mono [OF fin lighter_subset])
  show ?thesis
  proof (cases "?t = s")
    case False
    then have "Suc (3 - ?t) \<le> 3 - s" using d(3,4) by simp
    from mult_le_mono1 [OF this, of "?N + 1"]
    have "(3 - ?t) * (?N + 1) + (?N + 1) \<le> (3 - s) * (?N + 1)" by simp
    then show ?thesis using x bound by (simp add: place_def)
  next
    case True
    obtain md where md: "tab m = Some md" using m by (auto simp: defined_in_def)
    have "weight_of tab s x \<noteq> weight_of tab s m"
      using dist m x True \<open>x \<noteq> m\<close> by (auto simp: weights_distinct_def inj_on_def)
    moreover have "weight_of tab s x \<le> weight_of tab s m" using d(1,5) md True by (simp add: weight_of_def)
    ultimately have lt: "weight_of tab s x < weight_of tab s m" by simp
    have "{y. defined_in tab s y \<and> weight_of tab s y < weight_of tab s x} \<subset>
        {y. defined_in tab s y \<and> weight_of tab s y < weight_of tab s m}"
      using lt x True by (auto intro: less_trans)
    then have "card {y. defined_in tab s y \<and> weight_of tab s y < weight_of tab s x} <
        card {y. defined_in tab s y \<and> weight_of tab s y < weight_of tab s m}"
      by (rule psubset_card_mono [rotated]) (rule finite_subset [OF lighter_subset fin])
    then show ?thesis using x True by (simp add: place_def)
  qed
qed

text \<open>One step of the check, for a list that is not empty.\<close>

lemma error_indirect_Cons:
  "get_error_indirect tab scope_of type_of (dep # rest) me ty s =
     (if me = Some dep then Some (Some (iexpr GEBR_IEXPR_ERROR_BAD_REFERENCE dep))
      else case tab dep of
        None \<Rightarrow> Some (Some (iexpr GEBR_IEXPR_ERROR_UNDEF_REFERENCE dep))
      | Some d \<Rightarrow>
          (case get_dep_param tab scope_of me s dep of
             None \<Rightarrow> Some (Some (iexpr GEBR_IEXPR_ERROR_UNDEF_REFERENCE dep))
           | Some p \<Rightarrow>
               if is_number_type ty \<and> type_of p = GEBR_GEOXML_PARAMETER_TYPE_STRING
               then Some (Some (iexpr GEBR_IEXPR_ERROR_TYPE_MISMATCH dep))
               else Option.bind
                 (if h_error d (scope_of p) = None
                  then get_error_indirect tab scope_of type_of (h_dep d (scope_of p)) (Some dep) (type_of p) (scope_of p)
                  else Some None)
                 (\<lambda>e. if h_error d (scope_of p) \<noteq> None \<or> e \<noteq> None
                      then Some (Some (iexpr GEBR_IEXPR_ERROR_BAD_REFERENCE dep))
                      else get_error_indirect tab scope_of type_of rest me ty s)))"
  by (subst get_error_indirect.simps) simp

lemma error_indirect_Nil [simp]: "get_error_indirect tab scope_of type_of [] me ty s = Some None"
  by (subst get_error_indirect.simps) simp

text \<open>If the check of the references of each variable that is reached ends, so does that of a list.\<close>

lemma error_indirect_list:
  assumes "\<And>x p d. me \<noteq> Some x \<Longrightarrow> tab x = Some d \<Longrightarrow> get_dep_param tab scope_of me s x = Some p \<Longrightarrow>
      get_error_indirect tab scope_of type_of (h_dep d (scope_of p)) (Some x) (type_of p) (scope_of p) \<noteq> None"
  shows "get_error_indirect tab scope_of type_of deps me ty s \<noteq> None"
proof (induction deps)
  case (Cons x deps)
  show ?case
  proof (cases "me = Some x \<or> tab x = None \<or> get_dep_param tab scope_of me s x = None")
    case True
    then show ?thesis by (auto simp: error_indirect_Cons split: option.split)
  next
    case False
    then obtain d p where dp: "tab x = Some d" "get_dep_param tab scope_of me s x = Some p" "me \<noteq> Some x" by auto
    then obtain e where "get_error_indirect tab scope_of type_of (h_dep d (scope_of p)) (Some x) (type_of p) (scope_of p) = Some e"
      using assms by blast
    then show ?thesis using dp Cons by (auto simp: error_indirect_Cons)
  qed
qed simp

lemma error_indirect_ends:
  assumes "table_typed tab scope_of" "weights_distinct tab" "defined_in tab s m"
  shows "get_error_indirect tab scope_of type_of deps (Some m) ty s \<noteq> None"
  using assms(3)
proof (induction "place tab s m" arbitrary: s m deps ty rule: less_induct)
  case less
  show ?case
  proof (rule error_indirect_list)
    fix x p d
    assume a: "Some m \<noteq> Some x" "tab x = Some d" "get_dep_param tab scope_of (Some m) s x = Some p"
    from place_decreases [OF assms(1,2) less.prems a(3)] a(1) less.hyps
    show "get_error_indirect tab scope_of type_of (h_dep d (scope_of p)) (Some x) (type_of p) (scope_of p) \<noteq> None"
      by auto
  qed
qed

text \<open>
  The check of the references of an expression ends, whatever refers to what, when the variables
  of each scope have different weights.
\<close>

lemma references_end:
  assumes "table_typed tab scope_of" "weights_distinct tab"
  shows "\<exists>e. get_error_indirect tab scope_of type_of deps me ty s = Some e"
proof -
  have "get_error_indirect tab scope_of type_of deps me ty s \<noteq> None"
  proof (rule error_indirect_list)
    fix x p d
    assume a: "tab x = Some d" "get_dep_param tab scope_of me s x = Some p"
    then have "defined_in tab (scope_of p) x"
      using get_dep_param_SomeD [OF assms(1) a(2)] by (auto simp: defined_in_def)
    from error_indirect_ends [OF assms this]
    show "get_error_indirect tab scope_of type_of (h_dep d (scope_of p)) (Some x) (type_of p) (scope_of p) \<noteq> None" .
  qed
  then show ?thesis by blast
qed

text \<open>What a reference must be: of another variable that is found, without error, not a text in a number.\<close>

definition good_reference ::
    "vtable \<Rightarrow> (param_ref \<Rightarrow> nat) \<Rightarrow> (param_ref \<Rightarrow> parameter_type) \<Rightarrow> cstr \<Rightarrow> parameter_type \<Rightarrow> nat \<Rightarrow> string \<Rightarrow> param_ref \<Rightarrow> bool" where
  "good_reference tab scope_of type_of me ty s x p \<longleftrightarrow>
     me \<noteq> Some x \<and> get_dep_param tab scope_of me s x = Some p \<and>
     \<not> (is_number_type ty \<and> type_of p = GEBR_GEOXML_PARAMETER_TYPE_STRING) \<and>
     (\<exists>d. tab x = Some d \<and> h_error d (scope_of p) = None)"

text \<open>
  The lists of names reached from a list, each with the variable that uses them (its name, type and
  scope).
\<close>

inductive reaches ::
    "vtable \<Rightarrow> (param_ref \<Rightarrow> nat) \<Rightarrow> (param_ref \<Rightarrow> parameter_type) \<Rightarrow>
     string list \<Rightarrow> cstr \<Rightarrow> parameter_type \<Rightarrow> nat \<Rightarrow> string list \<Rightarrow> cstr \<Rightarrow> parameter_type \<Rightarrow> nat \<Rightarrow> bool"
  for tab scope_of type_of where
  reaches_refl: "reaches tab scope_of type_of deps me ty s deps me ty s"
| reaches_step: "reaches tab scope_of type_of deps me ty s (h_dep d (scope_of p)) (Some x) (type_of p) (scope_of p)"
    if "reaches tab scope_of type_of deps me ty s deps' me' ty' s'" "x \<in> set deps'"
      "get_dep_param tab scope_of me' s' x = Some p" "tab x = Some d"

lemma checked_references:
  "get_error_indirect tab scope_of type_of deps me ty s = Some None \<Longrightarrow> x \<in> set deps \<Longrightarrow>
   \<exists>p d. good_reference tab scope_of type_of me ty s x p \<and> tab x = Some d \<and>
     get_error_indirect tab scope_of type_of (h_dep d (scope_of p)) (Some x) (type_of p) (scope_of p) = Some None"
proof (induction deps)
  case (Cons y deps)
  then obtain d p where dp: "me \<noteq> Some y" "tab y = Some d" "get_dep_param tab scope_of me s y = Some p"
      "\<not> (is_number_type ty \<and> type_of p = GEBR_GEOXML_PARAMETER_TYPE_STRING)"
    by (auto simp: error_indirect_Cons split: if_splits option.splits)
  then have "h_error d (scope_of p) = None \<and>
      get_error_indirect tab scope_of type_of (h_dep d (scope_of p)) (Some y) (type_of p) (scope_of p) = Some None \<and>
      get_error_indirect tab scope_of type_of deps me ty s = Some None"
    using Cons.prems(1)
    by (auto simp: error_indirect_Cons bind_eq_Some_conv split: if_splits)
  then show ?case using Cons dp by (auto simp: good_reference_def)
qed simp

text \<open>
  When the check of the references of an expression succeeds, every variable it uses, directly
  or through other variables, is defined, is found in the scope it may be used from, has no error of its own
  and does not refer to itself; and no number uses a text.
\<close>

theorem reference_check_sound:
  assumes "get_error_indirect tab scope_of type_of deps me ty s = Some None"
    and "reaches tab scope_of type_of deps me ty s deps' me' ty' s'" "x \<in> set deps'"
  shows "\<exists>p. good_reference tab scope_of type_of me' ty' s' x p"
proof -
  have "get_error_indirect tab scope_of type_of deps' me' ty' s' = Some None"
    using assms(2,1)
  proof (induction rule: reaches.induct)
    case (reaches_step deps me ty s deps' me' ty' s' x p d)
    from checked_references [OF reaches_step.IH [OF reaches_step.prems] reaches_step.hyps(2)] reaches_step.hyps(3,4)
    show ?case by (auto simp: good_reference_def)
  qed
  then show ?thesis using checked_references assms(3) by meson
qed

text \<open>Two variables of the flow, the second of which uses the first, for the examples.\<close>

definition two_vars :: vtable where
  "two_vars = [''a'' \<mapsto> \<lparr>h_name = ''a'', h_param = [0 \<mapsto> 10], h_weight = (\<lambda>_. 1), h_dep = (\<lambda>_. []), h_error = (\<lambda>_. None)\<rparr>,
               ''b'' \<mapsto> \<lparr>h_name = ''b'', h_param = [0 \<mapsto> 11], h_weight = (\<lambda>_. 2), h_dep = (\<lambda>_. [''a'']), h_error = (\<lambda>_. None)\<rparr>]"

lemma two_vars_typed: "table_typed two_vars (\<lambda>_. 0)"
  by (auto simp: table_typed_def two_vars_def split: if_splits)

lemma two_vars_distinct: "weights_distinct two_vars"
  by (auto simp: weights_distinct_def inj_on_def weight_of_def defined_in_def two_vars_def split: if_splits)

lemma two_vars_eval:
  "get_error_indirect two_vars (\<lambda>_. 0) (\<lambda>_. GEBR_GEOXML_PARAMETER_TYPE_FLOAT) [''a''] (Some ''b'')
     GEBR_GEOXML_PARAMETER_TYPE_FLOAT 0 = Some None"
  by (simp add: error_indirect_Cons get_dep_param_def get_param_def two_vars_def numeral_eq_Suc)

theorem reference_check_sound_witness:
  "\<exists>p. good_reference two_vars (\<lambda>_. 0) (\<lambda>_. GEBR_GEOXML_PARAMETER_TYPE_FLOAT) (Some ''b'')
     GEBR_GEOXML_PARAMETER_TYPE_FLOAT 0 ''a'' p"
  by (rule reference_check_sound [OF two_vars_eval reaches_refl]) simp

end
