(* ===== verification/Validator_Text.thy ===== *)
theory Validator_Text
  imports Validator_Graph
begin

text \<open>
  The texts of \<open>libgebr/gebr-validator.c\<close>: a text with bracketed variables is translated to a statement
  of \<open>bc\<close> that prints it, and the output of that statement is cleaned of the character that
  \<open>bc\<close> prints after each variable.
\<close>

section \<open>Translation\<close>

datatype tr_state = TR_INIT | TR_START | TR_TEXT | TR_VAR

datatype unmatched = UnmatchedRight | UnmatchedLeft

abbreviation QUOTE :: char where "QUOTE \<equiv> CHR 0x22"
abbreviation BACKSLASH :: char where "BACKSLASH \<equiv> CHR 0x5C"

fun tr_rank :: "tr_state \<Rightarrow> nat" where
  "tr_rank TR_INIT = 1"
| "tr_rank TR_START = 1"
| "tr_rank _ = 0"

text \<open>
  The loop: the state, the rest of the text, the statement so far and the names so far. \<open>var_text\<close> is
  what is written for a variable. In \<open>TR_VAR\<close> the whole name is read in one round.
\<close>

function tr_loop ::
    "(string \<Rightarrow> string) \<Rightarrow> tr_state \<Rightarrow> string \<Rightarrow> string \<Rightarrow> string list \<Rightarrow> unmatched + string \<times> string list" where
  "tr_loop var_text st [] acc deps =
     (case st of
        TR_TEXT \<Rightarrow> Inr (acc @ [QUOTE, CHR '',''], deps)
      | TR_VAR \<Rightarrow> Inl UnmatchedLeft
      | _ \<Rightarrow> Inr (acc, deps))"
| "tr_loop var_text st (c # s) acc deps =
     (case st of
        TR_VAR \<Rightarrow>
          (let name = takeWhile (\<lambda>x. x \<noteq> CHR '']'' \<and> x \<noteq> CHR ''['') (c # s);
               r = drop (length name) (c # s)
           in if r = [] then Inl UnmatchedRight
              else if hd r = CHR ''['' then Inl UnmatchedLeft
              else tr_loop var_text TR_START (tl r) (acc @ var_text name) (deps @ [name]))
      | TR_TEXT \<Rightarrow>
          if c = QUOTE then tr_loop var_text TR_TEXT s (acc @ [BACKSLASH, CHR ''q'']) deps
          else if c = BACKSLASH then tr_loop var_text TR_TEXT s (acc @ [BACKSLASH, BACKSLASH]) deps
          else if c = CHR ''['' then
            (if s = [] \<or> hd s \<noteq> CHR ''[''
             then tr_loop var_text TR_VAR s (acc @ [QUOTE, CHR '','']) deps
             else tr_loop var_text TR_TEXT (tl s) (acc @ ''['') deps)
          else if c = CHR '']'' then
            (if s = [] \<or> hd s \<noteq> CHR '']'' then Inl UnmatchedRight
             else tr_loop var_text TR_TEXT (tl s) (acc @ '']'') deps)
          else tr_loop var_text TR_TEXT s (acc @ [c]) deps
      | _ \<Rightarrow>
          (let acc1 = (if st = TR_INIT then acc @ ''print '' else acc) in
           if c = CHR ''['' \<and> (s = [] \<or> hd s \<noteq> CHR ''['') then tr_loop var_text TR_VAR s acc1 deps
           else tr_loop var_text TR_TEXT (c # s) (acc1 @ [QUOTE]) deps))"
  by pat_completeness auto
termination
  by (relation "measure (\<lambda>(vt, st, s, acc, deps). 2 * length s + tr_rank st)")
    (auto simp: length_dropWhile_le less_Suc_eq_le split: if_splits)

text \<open>A variable without a parameter has the unknown type and scope, as the queries of NULL answer.\<close>

definition var_reference :: "validator \<Rightarrow> cstr \<Rightarrow> nat \<Rightarrow> string \<Rightarrow> string" where
  "var_reference v my_name my_scope name =
     (let (scope, ty) =
        (case get_dep_param (vtab v) (param_scope v) my_name my_scope name of
           None \<Rightarrow> (DOC_UNKNOWN, GEBR_GEOXML_PARAMETER_TYPE_UNKNOWN)
         | Some p \<Rightarrow> (param_scope v p, param_type v p))
      in if ty = GEBR_GEOXML_PARAMETER_TYPE_STRING
         then ''str('' @ name @ ''['' @ show_nat scope @ '']),'' @ [QUOTE, BACKSLASH, CHR ''b'', QUOTE, CHR '','']
         else name @ ''['' @ show_nat scope @ ''],'')"

definition translate_with :: "(string \<Rightarrow> string) \<Rightarrow> string \<Rightarrow> gerror + string \<times> string list" where
  "translate_with var_text e =
     (case tr_loop var_text TR_INIT e [] [] of
        Inl UnmatchedRight \<Rightarrow> Inl (iexpr GEBR_IEXPR_ERROR_SYNTAX ''unmatched right bracket'')
      | Inl UnmatchedLeft \<Rightarrow> Inl (iexpr GEBR_IEXPR_ERROR_SYNTAX ''unmatched left bracket'')
      | Inr (acc, deps) \<Rightarrow> Inr (acc @ [QUOTE, BACKSLASH, CHR ''n'', QUOTE], deps))"

text \<open>The two uses of \<open>translate_string_expr\<close>: for the names, and for the statement of \<open>bc\<close>.\<close>

definition string_expr_deps :: "string \<Rightarrow> gerror + string list" where
  "string_expr_deps e = map_sum id snd (translate_with (\<lambda>_. []) e)"

definition translate_string_expr :: "validator \<Rightarrow> string \<Rightarrow> cstr \<Rightarrow> nat \<Rightarrow> gerror + string" where
  "translate_string_expr v e my_name my_scope = map_sum id fst (translate_with (var_reference v my_name my_scope) e)"

section \<open>Cleaning\<close>

abbreviation BS :: char where "BS \<equiv> CHR 0x08"

definition c_strlen :: "string \<Rightarrow> nat" where
  "c_strlen buf = length (takeWhile (\<lambda>c. c \<noteq> CHR 0x00) buf)"

text \<open>
  The loop of \<open>clean_string\<close> over the bytes of a buffer with its final 0: the index \<open>i\<close> and the number \<open>b\<close>
  of erasures so far. \<open>None\<close> where a byte outside the buffer is used.
\<close>

function clean_loop :: "nat \<Rightarrow> nat \<Rightarrow> string \<Rightarrow> (nat \<times> nat \<times> string) option" where
  "clean_loop i b buf =
     (if i < c_strlen buf
      then if length buf \<le> i + b then None
           else let b1 = (if buf ! (i + b) = BS then b + 1 else b)
                in if i < b1 \<or> length buf \<le> i + b1 then None
                   else clean_loop (i + 1) b1 (buf[i - b1 := buf ! (i + b1)])
      else Some (i, b, buf))"
  by pat_completeness auto
termination
proof (relation "measure (\<lambda>(i, b, buf). length buf - i)")
  fix i b b1 :: nat and buf :: string
  assume "i < c_strlen buf"
  moreover have "c_strlen buf \<le> length buf" by (simp add: c_strlen_def length_takeWhile_le)
  ultimately show "((i + 1, b1, buf[i - b1 := buf ! (i + b1)]), i, b, buf) \<in> measure (\<lambda>(i, b, buf). length buf - i)"
    by simp
qed simp

declare clean_loop.simps [simp del]

definition clean_string :: "string \<Rightarrow> cstr" where
  "clean_string s =
     Option.bind (clean_loop 0 0 (s @ [CHR 0x00]))
       (\<lambda>(i, b, buf). if i < b \<or> length buf \<le> i - b then None
                      else Some (takeWhile (\<lambda>c. c \<noteq> CHR 0x00) (buf[i - b := CHR 0x00])))"

section \<open>What cleaning does\<close>

text \<open>Reading from the left, each backspace erases the character before it.\<close>

fun erase :: "string \<Rightarrow> string \<Rightarrow> string" where
  "erase out [] = out"
| "erase out (c # s) = erase (if c = BS then butlast out else out @ [c]) s"

fun erasable :: "bool \<Rightarrow> string \<Rightarrow> bool" where
  "erasable ok [] = True"
| "erasable ok (c # s) = (c \<noteq> CHR 0x00 \<and> (if c = BS then ok \<and> erasable False s else erasable True s))"

lemma c_strlen_simps:
  "CHR 0x00 \<notin> set a \<Longrightarrow> c_strlen (a @ b) = length a + c_strlen b"
  "c_strlen (CHR 0x00 # b) = 0" "c \<noteq> CHR 0x00 \<Longrightarrow> c_strlen (c # b) = Suc (c_strlen b)"
  by (induction a) (auto simp: c_strlen_def)

lemma clean_step:
  assumes "i < c_strlen buf" "i + b < length buf"
    and "b1 = (if buf ! (i + b) = BS then b + 1 else b)" "b1 \<le> i" "i + b1 < length buf"
  shows "clean_loop i b buf = clean_loop (i + 1) b1 (buf[i - b1 := buf ! (i + b1)])"
  using assms by (subst clean_loop.simps) (auto simp: Let_def)

definition cleaned :: "(nat \<times> nat \<times> string) option \<Rightarrow> cstr" where
  "cleaned r = Option.bind r (\<lambda>(i, b, buf). if i < b \<or> length buf \<le> i - b then None
     else Some (takeWhile (\<lambda>c. c \<noteq> CHR 0x00) (buf[i - b := CHR 0x00])))"

lemma cleaned_end:
  assumes "CHR 0x00 \<notin> set out" "i = length out + b"
  shows "cleaned (clean_loop i b (out @ CHR 0x00 # t)) = Some out"
    "cleaned (clean_loop (Suc i) b (out @ CHR 0x00 # x # t)) = Some out"
proof -
  have len: "c_strlen (out @ CHR 0x00 # t) = length out" for t
    using assms(1) by (simp add: c_strlen_simps)
  have tw: "takeWhile (\<lambda>c. c \<noteq> CHR 0x00) (out @ CHR 0x00 # t) = out" for t
    using assms(1) by (induction out) auto
  show "cleaned (clean_loop i b (out @ CHR 0x00 # t)) = Some out"
    using assms(2) len tw by (subst clean_loop.simps) (simp add: cleaned_def)
  show "cleaned (clean_loop (Suc i) b (out @ CHR 0x00 # x # t)) = Some out"
    using assms(2) len tw by (subst clean_loop.simps) (simp add: cleaned_def Suc_diff_le list_update_append)
qed

text \<open>
  The buffer is the output, the \<open>2 * b\<close> bytes between the two indices, and the rest of the input with
  the final 0.
\<close>

lemma clean_loop_erases:
  assumes "length junk = 2 * b" "i = length out + b" "CHR 0x00 \<notin> set out" "CHR 0x00 \<notin> set junk"
    and "erasable ok s" "ok \<longrightarrow> out \<noteq> []"
  shows "cleaned (clean_loop i b (out @ junk @ s @ [CHR 0x00])) = Some (erase out s)"
  using assms
proof (induction s arbitrary: i b out junk ok rule: length_induct)
  case (1 s)
  let ?buf = "out @ junk @ s @ [CHR 0x00]"
  have at: "?buf ! (i + b) = hd (s @ [CHR 0x00])" and len: "i + b + length s + 1 = length ?buf"
    using "1.prems"(1,2) by (cases s; simp add: nth_append)+
  show ?case
  proof (cases s)
    case Nil
    show ?thesis
    proof (cases junk)
      case Nil
      then show ?thesis using cleaned_end(1) [of out i b "[]"] "1.prems" \<open>s = []\<close> by simp
    next
      case (Cons j js)
      have "c_strlen ?buf = length out + length junk"
        using "1.prems"(3,4) c_strlen_simps(1) [of "out @ junk" "[CHR 0x00]"] c_strlen_simps(2) Nil by simp
      then have "clean_loop i b ?buf = clean_loop (i + 1) b (?buf[i - b := ?buf ! (i + b)])"
        using "1.prems"(1,2) at len Nil Cons by (intro clean_step) auto
      moreover have "?buf[i - b := ?buf ! (i + b)] = out @ CHR 0x00 # js @ [CHR 0x00]"
        using at "1.prems"(2) Nil Cons by (simp add: list_update_append)
      moreover obtain y ys where "js @ [CHR 0x00] = y # ys" by (cases js) auto
      ultimately show ?thesis using cleaned_end(2) [of out i b y ys] "1.prems"(2,3) Nil by simp
    qed
  next
    case (Cons c t)
    have lt: "i < c_strlen ?buf"
      using "1.prems" Cons c_strlen_simps(1) [of "out @ junk" "c # t @ [CHR 0x00]"] c_strlen_simps(3) [of c] by simp
    show ?thesis
    proof (cases "c = BS")
      case False
      have "clean_loop i b ?buf = clean_loop (i + 1) b (?buf[i - b := ?buf ! (i + b)])"
        using lt at len "1.prems"(2) Cons False by (intro clean_step) auto
      also have "?buf[i - b := ?buf ! (i + b)] = (out @ [c]) @ tl (junk @ [c]) @ t @ [CHR 0x00]"
        using at "1.prems"(2) Cons by (cases junk) (simp_all add: list_update_append)
      also have "cleaned (clean_loop (i + 1) b \<dots>) = Some (erase (out @ [c]) t)"
      proof (rule "1.IH" [rule_format])
        show "length t < length s" using Cons by simp
        show "length (tl (junk @ [c])) = 2 * b" using "1.prems"(1) by simp
        show "CHR 0x00 \<notin> set (tl (junk @ [c]))"
          using "1.prems"(4,5) Cons by (cases junk) (auto split: if_splits)
        show "erasable True t" "CHR 0x00 \<notin> set (out @ [c])" using "1.prems"(3,5) Cons False by auto
      qed (use "1.prems"(2) in auto)
      finally show ?thesis using Cons False by simp
    next
      case True
      then obtain o' z where out: "out = o' @ [z]" using "1.prems"(5,6) Cons by (cases out rule: rev_cases) auto
      have ix: "i - (b + 1) = length o'" using "1.prems"(2) out by simp
      have at1: "?buf ! (i + (b + 1)) = hd (t @ [CHR 0x00])"
        using "1.prems"(1,2) Cons by (cases t) (simp_all add: nth_append)
      have "clean_loop i b ?buf = clean_loop (i + 1) (b + 1) (?buf[i - (b + 1) := ?buf ! (i + (b + 1))])"
        using lt at len "1.prems"(2) Cons True out by (intro clean_step) auto
      also have "?buf[i - (b + 1) := ?buf ! (i + (b + 1))] =
          o' @ hd (t @ [CHR 0x00]) # junk @ BS # t @ [CHR 0x00]"
        unfolding at1 ix using Cons True out by (simp add: list_update_append)
      finally have step: "clean_loop i b ?buf = clean_loop (i + 1) (b + 1) (o' @ hd (t @ [CHR 0x00]) # junk @ BS # t @ [CHR 0x00])" .
      show ?thesis
      proof (cases t)
        case Nil
        obtain y ys where "junk @ BS # t @ [CHR 0x00] = y # ys" by (cases junk) auto
        then show ?thesis
          using step cleaned_end(2) [of o' i "b + 1" y ys] "1.prems"(2,3) Nil \<open>s = c # t\<close> True out by simp
      next
        case t: (Cons x u)
        have x: "x \<noteq> BS" "x \<noteq> CHR 0x00" "erasable True u"
          using "1.prems"(5) Cons True t by (auto split: if_splits)
        have "cleaned (clean_loop (i + 1) (b + 1) ((o' @ [x]) @ (junk @ [BS, x]) @ u @ [CHR 0x00])) = Some (erase (o' @ [x]) u)"
        proof (rule "1.IH" [rule_format])
          show "length u < length s" using Cons t by simp
          show "length (junk @ [BS, x]) = 2 * (b + 1)" using "1.prems"(1) by simp
          show "CHR 0x00 \<notin> set (junk @ [BS, x])" "CHR 0x00 \<notin> set (o' @ [x])" using "1.prems"(3,4) x out by auto
        qed (use "1.prems"(2) x out in auto)
        then show ?thesis using step Cons True t x out by simp
      qed
    qed
  qed
qed

text \<open>
  C39: the loop that cleans the output of \<open>bc\<close> in place, with one index that reads and one that writes,
  does what reading the text and erasing the character before each backspace does, without
  leaving the buffer, when each backspace stands behind a character that is not one.
\<close>

theorem clean_string_refines_erase:
  assumes "erasable False s"
  shows "clean_string s = Some (erase [] s)"
  using clean_loop_erases [of "[]" 0 0 "[]" False s] assms by (simp add: clean_string_def cleaned_def)

theorem clean_string_witness: "clean_string (''ab0'' @ [BS] @ ''c0'' @ [BS]) = Some ''abc''"
  using clean_string_refines_erase [of "''ab0'' @ [BS] @ ''c0'' @ [BS]"] by simp

section \<open>The names of a text\<close>

lemma print_pieces_Cons [simp]: "print_pieces (p # ps) = print_piece p @ print_pieces ps" "print_pieces [] = []"
  by (simp_all add: print_pieces_def)

lemma tr_var:
  assumes "list_all plain_char n"
  shows "tr_loop vt TR_VAR (n @ CHR '']'' # s) acc deps = tr_loop vt TR_START s (acc @ vt n) (deps @ [n])"
proof -
  have split: "takeWhile (\<lambda>x. x \<noteq> CHR '']'' \<and> x \<noteq> CHR ''['') (m @ CHR '']'' # s) = m"
    "dropWhile (\<lambda>x. x \<noteq> CHR '']'' \<and> x \<noteq> CHR ''['') (m @ CHR '']'' # s) = CHR '']'' # s"
    if "list_all plain_char m" for m
    using that by (induction m) (auto simp: plain_char_def)
  show ?thesis
    using assms by (cases n) (simp_all add: split plain_char_def Let_def)
qed

lemma tr_open:
  assumes "s \<noteq> []" "hd s \<noteq> CHR ''[''" "st = TR_INIT \<or> st = TR_START"
  shows "\<exists>acc1. tr_loop vt st (CHR ''['' # s) acc deps = tr_loop vt TR_VAR s acc1 deps"
  using assms by (auto simp: Let_def)

lemma tr_skip:
  assumes "c \<noteq> CHR ''['' \<or> s \<noteq> [] \<and> hd s = CHR ''[''" "st = TR_INIT \<or> st = TR_START"
  shows "\<exists>acc1. tr_loop vt st (c # s) acc deps = tr_loop vt TR_TEXT (c # s) acc1 deps"
proof -
  have "\<not> (c = CHR ''['' \<and> (s = [] \<or> hd s \<noteq> CHR ''[''))" using assms(1) by blast
  note not_open = if_not_P [OF this]
  have "tr_loop vt TR_INIT (c # s) acc deps = tr_loop vt TR_TEXT (c # s) ((acc @ ''print '') @ [QUOTE]) deps"
    by (subst tr_loop.simps(2)) (simp only: tr_state.case Let_def not_open simp_thms if_True)
  moreover have "tr_loop vt TR_START (c # s) acc deps = tr_loop vt TR_TEXT (c # s) (acc @ [QUOTE]) deps"
    by (subst tr_loop.simps(2)) (simp only: tr_state.case tr_state.distinct Let_def not_open simp_thms if_False)
  ultimately show ?thesis using assms(2) by blast
qed

text \<open>The state at a piece does not change the names that are found.\<close>

lemma tr_pieces:
  assumes "list_all good_piece ps" "st \<noteq> TR_VAR"
  shows "\<exists>out. tr_loop vt st (print_pieces ps) acc deps = Inr (out, deps @ text_vars ps)"
  using assms
proof (induction ps arbitrary: st acc deps)
  case Nil
  then show ?case by (cases st) auto
next
  case (Cons p ps)
  have tx: "\<exists>out. tr_loop vt TR_TEXT (print_pieces (p # ps)) acc deps = Inr (out, deps @ text_vars (p # ps))" for acc
  proof (cases p)
    case (Variable n)
    then obtain c m where n: "n = c # m" "c \<noteq> CHR ''[''" using Cons.prems(1) by (cases n) (auto simp: plain_char_def)
    have "tr_loop vt TR_TEXT (print_pieces (p # ps)) acc deps =
        tr_loop vt TR_VAR (n @ CHR '']'' # print_pieces ps) (acc @ [QUOTE, CHR '','']) deps"
      using Variable n(2) by (simp add: n(1))
    also have "\<dots> = tr_loop vt TR_START (print_pieces ps) (acc @ [QUOTE, CHR '',''] @ vt n) (deps @ [n])"
      using Cons.prems(1) Variable tr_var [of n] by simp
    finally show ?thesis
      using Cons.IH [of TR_START "acc @ [QUOTE, CHR '',''] @ vt n" "deps @ [n]"] Cons.prems(1) Variable by auto
  qed (use Cons in \<open>auto simp: plain_char_def\<close>)
  have other: "\<exists>out. tr_loop vt st (print_pieces (p # ps)) acc deps = Inr (out, deps @ text_vars (p # ps))"
    if "st = TR_INIT \<or> st = TR_START"
  proof (cases "\<exists>n. p = Variable n")
    case True
    then obtain n c m where n: "p = Variable n" "n = c # m" "c \<noteq> CHR ''[''"
      using Cons.prems(1) by (auto simp: plain_char_def neq_Nil_conv)
    obtain acc1 where "tr_loop vt st (print_pieces (p # ps)) acc deps =
        tr_loop vt TR_VAR (n @ CHR '']'' # print_pieces ps) acc1 deps"
      using tr_open [OF _ _ \<open>st = TR_INIT \<or> st = TR_START\<close>, of "n @ CHR '']'' # print_pieces ps" vt acc deps] n
      by (auto simp del: tr_loop.simps)
    also have "\<dots> = tr_loop vt TR_START (print_pieces ps) (acc1 @ vt n) (deps @ [n])"
      using Cons.prems(1) n(1) tr_var [of n] by simp
    finally show ?thesis
      using Cons.IH [of TR_START "acc1 @ vt n" "deps @ [n]"] Cons.prems(1) n(1) by auto
  next
    case False
    obtain c s where cs: "print_pieces (p # ps) = c # s" "c \<noteq> CHR ''['' \<or> s \<noteq> [] \<and> hd s = CHR ''[''"
      using False Cons.prems(1) by (cases p) (auto simp: plain_char_def)
    have "\<exists>acc1. tr_loop vt st (c # s) acc deps = tr_loop vt TR_TEXT (c # s) acc1 deps"
      using tr_skip [OF cs(2) \<open>st = TR_INIT \<or> st = TR_START\<close>] .
    then show ?thesis using tx unfolding cs(1) by metis
  qed
  show ?case using tx other Cons.prems(2) by (cases st) auto
qed

text \<open>
  The two scanners of bracketed variables agree: on a text that the scanner of \<open>gebr-expr.c\<close>
  accepts, the translation of the validator finds the same names in the same order.
\<close>

theorem translation_finds_variables:
  assumes "no_nul str" "gebr_str_expr_extract_vars str = (GEBR_EXPR_ERROR_NONE, vs)"
  shows "string_expr_deps str = Inr vs"
proof -
  have "gebr_str_expr_extract_vars str = scan_text str"
    using scan_result [of 0 str str "[]" "[]"] assms(1)
    by (simp add: gebr_str_expr_extract_vars_def scan_start_def starting_def prod_eq_iff)
  then have "scan_text str = (GEBR_EXPR_ERROR_NONE, vs)" using assms(2) by simp
  then obtain ps where ps: "list_all good_piece ps" "str = print_pieces ps" "vs = text_vars ps"
    using scan_text_pieces by metis
  obtain out where "tr_loop (\<lambda>_. []) TR_INIT str [] [] = Inr (out, vs)"
    using tr_pieces [OF ps(1), of TR_INIT "\<lambda>_. []" "[]" "[]"] ps(2,3) by auto
  then show ?thesis by (simp add: string_expr_deps_def translate_with_def)
qed

theorem translation_finds_variables_witness: "string_expr_deps ''a[[[xy]'' = Inr [''xy'']"
proof -
  have "no_nul ''a[[[xy]''" by (simp add: no_nul_def)
  moreover from this have "gebr_str_expr_extract_vars ''a[[[xy]'' = (GEBR_EXPR_ERROR_NONE, [''xy''])"
    using scan_result [of 0 "''a[[[xy]''" "''a[[[xy]''" "[]" "[]"]
    by (simp add: gebr_str_expr_extract_vars_def scan_start_def starting_def prod_eq_iff plain_char_def Let_def)
  ultimately show ?thesis by (rule translation_finds_variables)
qed

end
