(* ===== verification/Validator_Eval.thy ===== *)
theory Validator_Eval
  imports Validator_Text
begin

text \<open>
  Evaluation in \<open>libgebr/gebr-validator.c\<close>: an expression is checked against the table of variables, the
  variables of the documents are defined in the process \<open>bc\<close> when it does not hold them yet, and the
  answer of \<open>bc\<close> is returned. The sequence of the calls on \<open>bc\<close> is that of the code.

  Writing to \<open>bc\<close> succeeds. \<open>strtod\<close> is \<open>g_ascii_strtod\<close>. The definition of the variables calls the
  evaluation of the loop's expressions, which defines the variables of the line; \<open>upd\<close> is the recursive
  call \<open>gebr_validator_update_vars\<close>, which is tied at the end with a bound for the depth of the recursion.
\<close>

section \<open>Results\<close>

text \<open>A call returns a value and the new state, or is stuck. Errors are values.\<close>

type_synonym 'a checked = "stuck + 'a \<times> validator"

type_synonym updater = "nat \<Rightarrow> bool \<Rightarrow> validator \<Rightarrow> bool checked"

definition vthen :: "'a checked \<Rightarrow> ('a \<Rightarrow> validator \<Rightarrow> 'b checked) \<Rightarrow> 'b checked" where
  "vthen m f = (case m of Inl st \<Rightarrow> Inl st | Inr (a, v) \<Rightarrow> f a v)"

lemma vthen_simps [simp]: "vthen (Inl st) f = Inl st" "vthen (Inr (a, v)) f = f a v"
  by (simp_all add: vthen_def)

lemma vthen_Inr_conv: "vthen m f = Inr r \<longleftrightarrow> (\<exists>a v. m = Inr (a, v) \<and> f a v = Inr r)"
  by (auto simp: vthen_def split: sum.splits)

definition bc_eval :: "string \<Rightarrow> gerror option \<Rightarrow> validator \<Rightarrow> (cstr \<times> gerror option) checked" where
  "bc_eval e err v =
     map_sum id (\<lambda>(r, err', a). ((r, err'), v\<lparr>arith := a\<rparr>))
       (gebr_arith_expr_eval_internal (None, None) e err (arith v))"

definition references_error ::
    "string list \<Rightarrow> cstr \<Rightarrow> parameter_type \<Rightarrow> nat \<Rightarrow> validator \<Rightarrow> gerror option checked" where
  "references_error deps me ty s v =
     (case get_error_indirect (vtab v) (param_scope v) (param_type v) deps me ty s of
        None \<Rightarrow> Inl Hang
      | Some e \<Rightarrow> Inr (e, v))"

definition upd_data :: "string \<Rightarrow> (hash_data \<Rightarrow> hash_data) \<Rightarrow> validator \<Rightarrow> validator" where
  "upd_data x f v = (case vtab v x of None \<Rightarrow> v | Some d \<Rightarrow> v\<lparr>vtab := (vtab v)(x \<mapsto> f d)\<rparr>)"

text \<open>\<open>set_error\<close> of the validator.\<close>

definition set_var_error :: "cstr \<Rightarrow> nat \<Rightarrow> gerror option \<Rightarrow> validator \<Rightarrow> validator" where
  "set_var_error name s e v =
     (case name of
        None \<Rightarrow> v
      | Some x \<Rightarrow> upd_data x (\<lambda>d. d\<lparr>h_error := (h_error d)(s := e)\<rparr>) v)"

definition set_dep :: "(string \<times> nat) option \<Rightarrow> string list \<Rightarrow> validator \<Rightarrow> validator" where
  "set_dep dst ds v =
     (case dst of
        None \<Rightarrow> v
      | Some (x, s) \<Rightarrow> upd_data x (\<lambda>d. d\<lparr>h_dep := (h_dep d)(s := ds)\<rparr>) v)"

text \<open>The codes from \<open>EMPTY_EXPR\<close> to \<open>SYNTAX\<close> are kept with the variable.\<close>

fun cached_code :: "gerror \<Rightarrow> bool" where
  "cached_code (IExprError k m) \<longleftrightarrow>
     k \<in> {GEBR_IEXPR_ERROR_EMPTY_EXPR, GEBR_IEXPR_ERROR_INVAL_PATH, GEBR_IEXPR_ERROR_TOOBIG,
          GEBR_IEXPR_ERROR_RUNTIME, GEBR_IEXPR_ERROR_SYNTAX}"
| "cached_code (IOError m) \<longleftrightarrow> False"

definition cache_error :: "cstr \<Rightarrow> nat \<Rightarrow> gerror \<Rightarrow> validator \<Rightarrow> validator" where
  "cache_error name s e = set_var_error name s (if cached_code e then Some e else None)"

text \<open>\<open>get_validator_by_type\<close> answers the arithmetic evaluator for these types, and \<open>NULL\<close> for the others.\<close>

definition get_validator_by_type :: "parameter_type \<Rightarrow> bool" where
  "get_validator_by_type ty \<longleftrightarrow>
     ty = GEBR_GEOXML_PARAMETER_TYPE_RANGE \<or> ty = GEBR_GEOXML_PARAMETER_TYPE_INT \<or>
     ty = GEBR_GEOXML_PARAMETER_TYPE_FLOAT"

definition text_type :: "parameter_type \<Rightarrow> bool" where
  "text_type ty \<longleftrightarrow> ty = GEBR_GEOXML_PARAMETER_TYPE_STRING \<or> ty = GEBR_GEOXML_PARAMETER_TYPE_FILE"

section \<open>Checking an expression\<close>

definition MAX_RESULT_LENGTH :: nat where "MAX_RESULT_LENGTH = 68"

text \<open>
  A number: its references, its characters, and its value. A named one is assigned to its
  variable in \<open>bc\<close>.
\<close>

definition check_number ::
    "cstr \<Rightarrow> string \<Rightarrow> parameter_type \<Rightarrow> nat \<Rightarrow> string list \<Rightarrow> validator \<Rightarrow> (bool \<times> gerror option) checked" where
  "check_number name e ty s vars v =
     vthen (references_error vars name ty s v) (\<lambda>err v.
       if err \<noteq> None then Inr ((False, err), v)
       else if has_char e (CHR '';'') then Inr ((False, Some (iexpr GEBR_IEXPR_ERROR_SYNTAX '';'')), v)
       else if has_char e QUOTE then Inr ((False, Some (iexpr GEBR_IEXPR_ERROR_SYNTAX [QUOTE])), v)
       else
         let (stmt, v) =
           (case name of
              None \<Rightarrow> (e, v)
            | Some x \<Rightarrow> (x @ ''=('' @ e @ '');'' @ x, v\<lparr>cached_scope := DOC_UNKNOWN\<rparr>))
         in vthen (bc_eval stmt None v) (\<lambda>(r, err) v.
              case r of
                None \<Rightarrow> Inr ((False, err), v)
              | Some x \<Rightarrow>
                  if length x > MAX_RESULT_LENGTH
                  then Inr ((False, set_error (iexpr GEBR_IEXPR_ERROR_TOOBIG []) err), v)
                  else Inr ((True, err), v)))"

text \<open>A text: its brackets, its references, and for a file the path it evaluates to.\<close>

definition check_text ::
    "(string \<Rightarrow> validator \<Rightarrow> gerror option checked) \<Rightarrow> cstr \<Rightarrow> string \<Rightarrow> parameter_type \<Rightarrow> nat \<Rightarrow> string list \<Rightarrow>
     validator \<Rightarrow> (bool \<times> gerror option) checked" where
  "check_text path_check name e ty s vars v =
     vthen (references_error vars name ty s v) (\<lambda>err v.
       if err \<noteq> None then Inr ((False, err), v)
       else if ty = GEBR_GEOXML_PARAMETER_TYPE_FILE
       then vthen (path_check e v) (\<lambda>err v. Inr ((err = None, err), v))
       else Inr ((True, None), v))"

text \<open>
  \<open>define_validate_and_extract_vars\<close> over the check of a path. The names go to \<open>dst\<close>, which is emptied
  first, so that the check of the references already sees it empty.
\<close>

definition check_expression ::
    "(string \<Rightarrow> validator \<Rightarrow> gerror option checked) \<Rightarrow> cstr \<Rightarrow> string \<Rightarrow> parameter_type \<Rightarrow> nat \<Rightarrow>
     (string \<times> nat) option \<Rightarrow> validator \<Rightarrow> (bool \<times> gerror option) checked" where
  "check_expression path_check name e ty s dst v =
     (let v = set_dep dst [] v; blank = (g_strstrip e = []) in
      if e = [] then Inr ((True, None), v)
      else if text_type ty then
        if blank then Inr ((True, None), v)
        else
          (case string_expr_deps e of
             Inl err \<Rightarrow> Inr ((False, Some err), v)
           | Inr vars \<Rightarrow>
               vthen (check_text path_check name e ty s vars v) (\<lambda>r v. Inr (r, set_dep dst vars v)))
      else if get_validator_by_type ty then
        if blank then Inr ((False, Some (iexpr GEBR_IEXPR_ERROR_EMPTY_EXPR [])), v)
        else
          (let vars = gebr_arith_expr_extract_vars e in
           vthen (check_number name e ty s vars v) (\<lambda>r v. Inr (r, set_dep dst vars v)))
      else Inr ((True, None), v))"

section \<open>Evaluating an expression\<close>

text \<open>
  Whether the value depends on the loop: the references are checked with \<open>iter\<close> taken out of the table. A
  text that cannot be translated has no names.
\<close>

definition gebr_validator_use_iter :: "string \<Rightarrow> parameter_type \<Rightarrow> nat \<Rightarrow> validator \<Rightarrow> bool checked" where
  "gebr_validator_use_iter e ty s v =
     (if s > FLOW then Inr (False, v)
      else
        (case vtab v ''iter'' of
           None \<Rightarrow> Inr (False, v)
         | Some d \<Rightarrow>
             if h_param d FLOW = None then Inr (False, v)
             else
               (let deps = (if get_validator_by_type ty then gebr_arith_expr_extract_vars e
                            else (case string_expr_deps e of Inl _ \<Rightarrow> [] | Inr ds \<Rightarrow> ds))
                in vthen (references_error deps None ty s
                     (v\<lparr>vtab := (vtab v)(''iter'' \<mapsto> d\<lparr>h_param := (h_param d)(FLOW := None)\<rparr>)\<rparr>))
                     (\<lambda>err _. Inr (err \<noteq> None, v)))))"

definition ITER_INI_EXPR :: string where "ITER_INI_EXPR = '';iter=bc_reset(0);''"

definition ITER_END_EXPR :: string where "ITER_END_EXPR = '';iter=bc_reset(1);''"

definition interval_text :: "bool \<Rightarrow> string \<Rightarrow> string \<Rightarrow> string" where
  "interval_text number a b =
     (if number then ''['' @ a @ '', ..., '' @ b @ '']''
      else ''['' @ [QUOTE] @ a @ [QUOTE] @ '', ..., '' @ [QUOTE] @ b @ [QUOTE] @ '']'')"

text \<open>The way out of an evaluation that failed: the error is dereferenced.\<close>

definition evaluation_failed :: "cstr \<Rightarrow> nat \<Rightarrow> gerror option \<Rightarrow> validator \<Rightarrow> (cstr \<times> gerror option) checked" where
  "evaluation_failed name s err v =
     (case err of None \<Rightarrow> Inl Crash | Some e \<Rightarrow> Inr ((None, Some e), cache_error name s e v))"

text \<open>The value is asked for. \<open>None\<close> is \<open>FALSE\<close>; a text that cannot be translated leaves a \<open>NULL\<close> statement.\<close>

definition gebr_validator_evaluate_internal ::
    "cstr \<Rightarrow> string \<Rightarrow> parameter_type \<Rightarrow> nat \<Rightarrow> bool \<Rightarrow> validator \<Rightarrow> (cstr \<times> gerror option) checked" where
  "gebr_validator_evaluate_internal name e ty s show_interval v =
     (if \<not> (get_validator_by_type ty \<or> text_type ty) then Inr ((None, None), v)
      else
        vthen (if show_interval then gebr_validator_use_iter e ty s v else Inr (False, v)) (\<lambda>use_iter v.
          case (if get_validator_by_type ty then Inr e else translate_string_expr v e None s) of
            Inl _ \<Rightarrow> Inl Crash
          | Inr stmt \<Rightarrow>
              vthen (bc_eval stmt None v) (\<lambda>(ini, err) v.
                case ini of
                  None \<Rightarrow> evaluation_failed name s err v
                | Some a \<Rightarrow>
                    vthen
                      (if use_iter
                       then vthen (bc_eval (ITER_END_EXPR @ stmt @ ITER_INI_EXPR) err v) (\<lambda>(fin, err) v.
                              case fin of
                                None \<Rightarrow> evaluation_failed name s err v
                              | Some b \<Rightarrow> Inr ((Some (interval_text (get_validator_by_type ty) a b), err), v))
                       else Inr ((Some a, err), v))
                      (\<lambda>(res, err) v.
                         case res of
                           None \<Rightarrow> Inr ((None, err), v)
                         | Some x \<Rightarrow>
                             if get_validator_by_type ty then Inr ((Some x, None), set_var_error name s None v)
                             else
                               (case clean_string x of
                                  None \<Rightarrow> Inl Crash
                                | Some y \<Rightarrow> Inr ((Some y, None), set_var_error name s None v))))))"

text \<open>
  \<open>gebr_validator_evaluate_interval\<close> over the check of a path. \<open>track\<close> tells that the caller wants the error. An
  error that the check left although it succeeded stays.
\<close>

definition evaluate_with ::
    "(string \<Rightarrow> validator \<Rightarrow> gerror option checked) \<Rightarrow> updater \<Rightarrow> string \<Rightarrow> parameter_type \<Rightarrow> nat \<Rightarrow> bool \<Rightarrow> bool \<Rightarrow>
     validator \<Rightarrow> (cstr \<times> gerror option) checked" where
  "evaluate_with path_check upd e ty s show_interval track v =
     (if e = [] then Inr ((Some [], None), v)
      else
        vthen (upd s track v) (\<lambda>ok v.
          if \<not> ok then Inr ((None, None), v)
          else
            vthen (check_expression path_check None e ty s None v) (\<lambda>(ok, err) v.
              if \<not> ok then Inr ((None, err), v)
              else
                vthen (gebr_validator_evaluate_internal None e ty s show_interval v) (\<lambda>(r, err') v.
                  Inr ((r, if err = None then err' else err), v)))))"

text \<open>
  The path of a file, when there is a line. The expression is evaluated as a text, which asks for no
  path; when that fails, the result is read although it was never written.
\<close>

definition validate_path_expression :: "updater \<Rightarrow> string \<Rightarrow> validator \<Rightarrow> gerror option checked" where
  "validate_path_expression upd e v =
     (case current_doc v LINE of
        None \<Rightarrow> Inr (None, v)
      | Some d \<Rightarrow>
          vthen (evaluate_with (\<lambda>_ v. Inr (None, v)) upd e GEBR_GEOXML_PARAMETER_TYPE_STRING FLOW False False v)
            (\<lambda>(r, _) v'.
              case r of
                None \<Rightarrow> Inl Crash
              | Some x \<Rightarrow>
                  (case gebr_validate_path (Some x) (d_paths (documents v d)) of
                     Inl _ \<Rightarrow> Inr (Some (iexpr GEBR_IEXPR_ERROR_INVAL_PATH []), v')
                   | Inr _ \<Rightarrow> Inr (None, v'))))"

definition define_validate_and_extract_vars ::
    "updater \<Rightarrow> cstr \<Rightarrow> string \<Rightarrow> parameter_type \<Rightarrow> nat \<Rightarrow> (string \<times> nat) option \<Rightarrow> validator \<Rightarrow>
     (bool \<times> gerror option) checked" where
  "define_validate_and_extract_vars upd = check_expression (validate_path_expression upd)"

definition gebr_validator_evaluate_interval ::
    "updater \<Rightarrow> string \<Rightarrow> parameter_type \<Rightarrow> nat \<Rightarrow> bool \<Rightarrow> bool \<Rightarrow> validator \<Rightarrow> (cstr \<times> gerror option) checked" where
  "gebr_validator_evaluate_interval upd = evaluate_with (validate_path_expression upd) upd"

definition gebr_validator_evaluate ::
    "updater \<Rightarrow> string \<Rightarrow> parameter_type \<Rightarrow> nat \<Rightarrow> bool \<Rightarrow> validator \<Rightarrow> (cstr \<times> gerror option) checked" where
  "gebr_validator_evaluate upd e ty s = gebr_validator_evaluate_interval upd e ty s True"

definition gebr_validator_validate_expr_on_scope ::
    "updater \<Rightarrow> string \<Rightarrow> parameter_type \<Rightarrow> nat \<Rightarrow> validator \<Rightarrow> (bool \<times> gerror option) checked" where
  "gebr_validator_validate_expr_on_scope upd e ty s = define_validate_and_extract_vars upd None e ty s None"

definition gebr_validator_validate_expr ::
    "updater \<Rightarrow> string \<Rightarrow> parameter_type \<Rightarrow> validator \<Rightarrow> (bool \<times> gerror option) checked" where
  "gebr_validator_validate_expr upd e ty = gebr_validator_validate_expr_on_scope upd e ty FLOW"

end
