(* ===== verification/Validator_Vars.thy ===== *)
theory Validator_Vars
  imports Validator_Eval
begin

text \<open>
  The variables of the documents in \<open>bc\<close>, after \<open>libgebr/gebr-validator.c\<close>: the check of one parameter, the
  check of the variable \<open>iter\<close> of a loop, the program for \<open>bc\<close> that defines all variables of a
  scope, and the evaluation and validation of parameters.
\<close>

section \<open>One parameter\<close>

definition validate_and_extract_param ::
    "updater \<Rightarrow> param_ref \<Rightarrow> (string \<times> nat) option \<Rightarrow> validator \<Rightarrow> (bool \<times> gerror option) checked" where
  "validate_and_extract_param upd p dst v =
     (let name = var_name p v; val = var_value p v; s = param_scope v p in
      if p_required (params v p) \<and> val = []
      then (let e = iexpr GEBR_IEXPR_ERROR_EMPTY_EXPR []
            in Inr ((False, Some e), set_var_error (Some name) s (Some e) v))
      else
        vthen (define_validate_and_extract_vars upd (Some name) val (param_type v p) s dst v) (\<lambda>(ok, err) v.
          if ok then Inr ((True, None), set_var_error (Some name) s None v)
          else
            (case err of
               None \<Rightarrow> Inl Crash
             | Some e \<Rightarrow> Inr ((False, Some e), cache_error (Some name) s e v))))"

text \<open>\<open>atoi\<close> of the C library: the value of \<open>strtol\<close>, which stays in 64 bits, cut to 32 bits.\<close>

definition c_atoi :: "string \<Rightarrow> int" where
  "c_atoi s = sint (word_of_int (max (- (2 ^ 63)) (min (2 ^ 63 - 1) (strtol10 s))) :: 32 word)"

definition gebr_validator_validate_control_parameter ::
    "(string \<Rightarrow> rat) \<Rightarrow> updater \<Rightarrow> cstr \<Rightarrow> string \<Rightarrow> validator \<Rightarrow> (bool \<times> gerror option) checked" where
  "gebr_validator_validate_control_parameter strtod upd name e v =
     vthen (gebr_validator_evaluate upd e GEBR_GEOXML_PARAMETER_TYPE_FLOAT LINE True v) (\<lambda>(r, err) v.
       case r of
         None \<Rightarrow> Inr ((False, err), v)
       | Some x \<Rightarrow>
           if name = Some ''niter'' then
             if e = [] then Inr ((False, Some (iexpr GEBR_IEXPR_ERROR_EMPTY_EXPR [])), v)
             else if strtod x > of_int (c_atoi x) then Inr ((False, Some (iexpr GEBR_IEXPR_ERROR_SYNTAX [])), v)
             else if c_atoi x \<le> 0 then Inr ((False, Some (iexpr GEBR_IEXPR_ERROR_SYNTAX [])), v)
             else Inr ((True, None), v)
           else Inr ((True, None), v))"

text \<open>The values of \<open>iter\<close> after the first one: the number of the value that fails, and its error.\<close>

fun check_controls ::
    "(string \<Rightarrow> rat) \<Rightarrow> updater \<Rightarrow> nat \<Rightarrow> string list \<Rightarrow> validator \<Rightarrow> (nat \<times> gerror) option checked" where
  "check_controls strtod upd i [] v = Inr (None, v)"
| "check_controls strtod upd i (x # xs) v =
     vthen (gebr_validator_validate_control_parameter strtod upd (if i < 2 then None else Some ''niter'') x v)
       (\<lambda>(ok, err) v.
          if ok then check_controls strtod upd (i + 1) xs v
          else Inr (map_option (\<lambda>e. (i, e)) err, v))"

definition iter_labels :: "string list" where
  "iter_labels = [''Initial value'', ''Step'', ''Total number of steps'']"

fun label_error :: "string \<Rightarrow> gerror \<Rightarrow> gerror" where
  "label_error l (IExprError k m) = IExprError k (m @ '' on '' @ [QUOTE] @ l @ [QUOTE])"
| "label_error l (IOError m) = IOError (m @ '' on '' @ [QUOTE] @ l @ [QUOTE])"

text \<open>\<open>None\<close> of the error with the answer \<open>False\<close>: there is no variable \<open>iter\<close>. A fourth checked value has no label.\<close>

definition gebr_validator_validate_iter ::
    "(string \<Rightarrow> rat) \<Rightarrow> updater \<Rightarrow> param_ref \<Rightarrow> validator \<Rightarrow> (bool \<times> gerror option) checked" where
  "gebr_validator_validate_iter strtod upd p v =
     (case vtab v ''iter'' of
        None \<Rightarrow> Inr ((False, None), v)
      | Some _ \<Rightarrow>
          vthen (define_validate_and_extract_vars upd None (var_value p v) (param_type v p) LINE (Some (''iter'', FLOW)) v)
            (\<lambda>_ v. vthen (check_controls strtod upd 0 (drop 1 (p_values (params v p))) v) (\<lambda>bad v.
              case bad of
                None \<Rightarrow> Inr ((True, None), v)
              | Some (i, e) \<Rightarrow>
                  if length iter_labels \<le> i then Inl Crash
                  else
                    (let e' = label_error (iter_labels ! i) e in
                     Inr ((False, Some e'),
                          if cached_code e' then set_var_error (Some ''iter'') FLOW (Some e') v else v)))))"

section \<open>The definitions of the variables\<close>

text \<open>What is written for \<open>bc\<close>: the body of \<open>bc_reset\<close>, that of \<open>str\<close>, and the number of the last text.\<close>

type_synonym bc_program = "string \<times> string \<times> nat"

definition assign_line :: "string \<Rightarrow> nat \<Rightarrow> string \<Rightarrow> string" where
  "assign_line name s rhs = name @ ''='' @ name @ ''['' @ show_nat s @ '']='' @ rhs @ [NL]"

text \<open>The numbers after \<open>iter\<close> in the flow are checked again.\<close>

fun recheck_numbers :: "updater \<Rightarrow> param_ref list \<Rightarrow> validator \<Rightarrow> unit checked" where
  "recheck_numbers upd [] v = Inr ((), v)"
| "recheck_numbers upd (p # ps) v =
     (if param_type v p = GEBR_GEOXML_PARAMETER_TYPE_STRING then recheck_numbers upd ps v
      else vthen (validate_and_extract_param upd p None v) (\<lambda>_ v. recheck_numbers upd ps v))"

text \<open>Whether the first variable of the flow is \<open>iter\<close>, with the checks that are made then.\<close>

definition check_loop :: "(string \<Rightarrow> rat) \<Rightarrow> updater \<Rightarrow> nat \<Rightarrow> validator \<Rightarrow> bool checked" where
  "check_loop strtod upd scope v =
     (if scope \<noteq> FLOW then Inr (False, v)
      else
        (case current_doc v FLOW of
           None \<Rightarrow> Inr (False, v)
         | Some d \<Rightarrow>
             (case d_dict (documents v d) of
                [] \<Rightarrow> Inr (False, v)
              | p # ps \<Rightarrow>
                  if var_name p v \<noteq> ''iter'' then Inr (False, v)
                  else
                    vthen (gebr_validator_validate_iter strtod upd p v) (\<lambda>(ok, _) v.
                      if \<not> ok then Inr (True, v)
                      else
                        vthen (validate_and_extract_param upd p None v) (\<lambda>(ok, _) v.
                          if ok then vthen (recheck_numbers upd ps v) (\<lambda>_ v. Inr (True, v))
                          else Inr (True, v))))))"

text \<open>The last part for a variable: a text whose references are fine gets the next number.\<close>

definition define_string ::
    "nat \<Rightarrow> param_ref \<Rightarrow> string \<Rightarrow> parameter_type \<Rightarrow> bc_program \<Rightarrow> validator \<Rightarrow> bc_program checked" where
  "define_string s p name ty prog v =
     (case vtab v name of
        None \<Rightarrow> Inl Crash
      | Some d \<Rightarrow>
          if h_error d s \<noteq> None then Inr (prog, v)
          else
            vthen (references_error (h_dep d s) (Some name) ty s v) (\<lambda>err v.
              if err \<noteq> None \<or> ty \<noteq> GEBR_GEOXML_PARAMETER_TYPE_STRING then Inr (prog, v)
              else
                (case translate_string_expr v (var_value p v) (Some name) s of
                   Inl _ \<Rightarrow> Inl Crash
                 | Inr t \<Rightarrow>
                     if length t < 5 then Inl Crash
                     else
                       (let (vars, strs, nth) = prog
                        in Inr ((vars @ assign_line name s (show_nat (nth + 1)),
                                 strs @ '' else if (n=='' @ show_nat (nth + 1) @ '') '' @ take (length t - 5) t,
                                 nth + 1), v)))))"

text \<open>One round of the inner loop.\<close>

definition define_param ::
    "updater \<Rightarrow> bool \<Rightarrow> nat \<Rightarrow> param_ref \<Rightarrow> bc_program \<Rightarrow> validator \<Rightarrow> bc_program checked" where
  "define_param upd has_iter s p prog v =
     (let name = var_name p v; ty = param_type v p; val = var_value p v in
      case vtab v name of
        None \<Rightarrow> Inr (prog, v)
      | Some d \<Rightarrow>
          if has_iter \<and> h_error d s \<noteq> None then Inr (prog, v)
          else
            vthen (references_error (h_dep d s) (Some name) ty s v) (\<lambda>err v.
              if err \<noteq> None then Inr (prog, v)
              else if ty = GEBR_GEOXML_PARAMETER_TYPE_STRING then define_string s p name ty prog v
              else
                (let (vars, strs, nth) = prog in
                 if name = ''iter'' then
                   vthen (define_validate_and_extract_vars upd (Some name) (val @ ''*0'') ty s None v)
                     (\<lambda>_ v. Inr ((vars @ assign_line name s (val @ ''*iter''), strs, nth), v))
                 else
                   vthen (validate_and_extract_param upd p None v) (\<lambda>(ok, _) v.
                     define_string s p name ty
                       (if ok then vars @ assign_line name s (''('' @ val @ '')'') else vars, strs, nth) v))))"

fun define_params ::
    "updater \<Rightarrow> bool \<Rightarrow> nat \<Rightarrow> param_ref list \<Rightarrow> bc_program \<Rightarrow> validator \<Rightarrow> bc_program checked" where
  "define_params upd has_iter s [] prog v = Inr (prog, v)"
| "define_params upd has_iter s (p # ps) prog v =
     vthen (define_param upd has_iter s p prog v) (\<lambda>prog v. define_params upd has_iter s ps prog v)"

fun define_scopes ::
    "updater \<Rightarrow> bool \<Rightarrow> nat list \<Rightarrow> bc_program \<Rightarrow> validator \<Rightarrow> bc_program checked" where
  "define_scopes upd has_iter [] prog v = Inr (prog, v)"
| "define_scopes upd has_iter (s # ss) prog v =
     (case current_doc v s of
        None \<Rightarrow> define_scopes upd has_iter ss prog v
      | Some d \<Rightarrow>
          vthen (define_params upd has_iter s (d_dict (documents v d)) prog v)
            (\<lambda>prog v. define_scopes upd has_iter ss prog v))"

definition program_start :: bc_program where
  "program_start = (''define bc_reset(iter) {'' @ [NL], ''define str(n) { if (n==0) '' @ [QUOTE, QUOTE], 0)"

definition program_text :: "bc_program \<Rightarrow> string" where
  "program_text prog =
     (let (vars, strs, nth) = prog
      in strs @ '' }'' @ [NL] @ vars @ ''return iter };0'' @ [NL] @ ITER_INI_EXPR)"

text \<open>An error that the caller asked for makes the assertion fail, which aborts.\<close>

definition update_vars_body ::
    "(string \<Rightarrow> rat) \<Rightarrow> updater \<Rightarrow> nat \<Rightarrow> bool \<Rightarrow> validator \<Rightarrow> bool checked" where
  "update_vars_body strtod upd scope track v =
     (if cached_scope v = scope then Inr (True, v)
      else
        vthen (check_loop strtod upd scope v) (\<lambda>has_iter v.
          vthen (define_scopes upd has_iter (rev [scope..<3]) program_start v) (\<lambda>prog v.
            vthen (bc_eval (program_text prog) None v) (\<lambda>(r, err) v.
              if track \<and> err \<noteq> None then Inl Crash
              else Inr (r \<noteq> None, v\<lparr>cached_scope := scope\<rparr>)))))"

text \<open>The recursion with a bound for its depth.\<close>

fun gebr_validator_update_vars :: "(string \<Rightarrow> rat) \<Rightarrow> nat \<Rightarrow> nat \<Rightarrow> bool \<Rightarrow> validator \<Rightarrow> bool checked" where
  "gebr_validator_update_vars strtod 0 scope track v = Inl Hang"
| "gebr_validator_update_vars strtod (Suc n) scope track v =
     update_vars_body strtod (gebr_validator_update_vars strtod n) scope track v"

section \<open>Parameters\<close>

text \<open>The value of a variable; a number is fetched by its name.\<close>

definition gebr_validator_evaluate_param ::
    "(string \<Rightarrow> rat) \<Rightarrow> updater \<Rightarrow> param_ref \<Rightarrow> bool \<Rightarrow> validator \<Rightarrow> (cstr \<times> gerror option) checked" where
  "gebr_validator_evaluate_param strtod upd p track v =
     (let ty = param_type v p; s = param_scope v p; name = var_name p v in
      if \<not> p_dict (params v p) then Inr ((None, None), v)
      else
        (case vtab v name of
           None \<Rightarrow> Inr ((None, None), v)
         | Some d \<Rightarrow>
             vthen (references_error (h_dep d s) (Some name) ty s v) (\<lambda>err v.
               if err \<noteq> None then Inr ((None, err), v)
               else
                 vthen (if name = ''iter'' then gebr_validator_validate_iter strtod upd p v else Inr ((True, None), v))
                   (\<lambda>(ok, err) v.
                      if \<not> ok then Inr ((None, err), v)
                      else
                        vthen (upd s track v) (\<lambda>ok v.
                          if \<not> ok then Inr ((None, None), v)
                          else
                            (case vtab v name of
                               None \<Rightarrow> Inl Crash
                             | Some d \<Rightarrow>
                                 if h_error d s \<noteq> None then Inr ((None, h_error d s), v)
                                 else gebr_validator_evaluate_internal (Some name)
                                   (if get_validator_by_type ty then name else var_value p v) ty s True v))))))"

fun validate_values :: "updater \<Rightarrow> parameter_type \<Rightarrow> string list \<Rightarrow> validator \<Rightarrow> (bool \<times> gerror option) checked" where
  "validate_values upd ty [] v = Inr ((True, None), v)"
| "validate_values upd ty (x # xs) v =
     vthen (gebr_validator_validate_expr upd x ty v) (\<lambda>(ok, err) v.
       if ok then
         vthen (validate_values upd ty xs v) (\<lambda>(ok, err') v. Inr ((ok, if err = None then err' else err), v))
       else Inr ((False, err), v))"

definition has_value :: "param \<Rightarrow> bool" where
  "has_value pa \<longleftrightarrow>
     (case p_sep pa of
        None \<Rightarrow> p_values pa \<noteq> [] \<and> hd (p_values pa) \<noteq> []
      | Some sep \<Rightarrow> g_strjoinv sep (p_values pa) \<noteq> [])"

definition gebr_validator_validate_param ::
    "(string \<Rightarrow> rat) \<Rightarrow> updater \<Rightarrow> param_ref \<Rightarrow> validator \<Rightarrow> (bool \<times> gerror option) checked" where
  "gebr_validator_validate_param strtod upd p v =
     (let ty = param_type v p; s = param_scope v p; name = var_name p v; pa = params v p in
      if p_dict pa then
        vthen (upd s False v) (\<lambda>_ v.
          case vtab v name of
            None \<Rightarrow> Inl Crash
          | Some d \<Rightarrow>
              vthen (references_error (h_dep d s) (Some name) ty s v) (\<lambda>err v.
                if err \<noteq> None then Inr ((False, err), v)
                else Inr ((h_error d s = None, h_error d s), v)))
      else if \<not> has_value pa then
        Inr ((\<not> p_required pa, if p_required pa then Some (iexpr GEBR_IEXPR_ERROR_EMPTY_EXPR []) else None), v)
      else if p_for pa then
        gebr_validator_validate_control_parameter strtod upd (Some name) (var_value p v) v
      else vthen (upd FLOW False v) (\<lambda>_ v. validate_values upd ty (p_values pa) v))"

end
