(* ===== verification/Validator_Edit.thy ===== *)
theory Validator_Edit
  imports Validator_Vars
begin

text \<open>
  The operations of \<open>libgebr/gebr-validator.c\<close> that change the table of variables: insertion, removal, renaming,
  a new value, moves within and between documents, and the change of the documents themselves.
  Each recomputes what the later checks rely on: the weights, which follow the order of a
  dictionary, the names an expression uses and the error of a variable.
\<close>

section \<open>Entries\<close>

text \<open>An entry without a parameter in any scope goes away.\<close>

definition hash_data_remove :: "string \<Rightarrow> nat \<Rightarrow> validator \<Rightarrow> bool \<times> validator" where
  "hash_data_remove name s v =
     (case vtab v name of
        None \<Rightarrow> (False, v)
      | Some d \<Rightarrow>
          if h_param d s = None then (False, v)
          else
            (let tab = (vtab v)(name \<mapsto> d\<lparr>h_param := (h_param d)(s := None), h_weight := (h_weight d)(s := G_MAXDOUBLE),
                                           h_dep := (h_dep d)(s := []), h_error := (h_error d)(s := None)\<rparr>)
             in (True, v\<lparr>vtab := if get_param tab name FLOW = None then tab(name := None) else tab\<rparr>)))"

text \<open>The neighbours of a parameter in its dictionary.\<close>

fun prev_in :: "'a \<Rightarrow> 'a list \<Rightarrow> 'a option" where
  "prev_in p (q # r # xs) = (if r = p then Some q else prev_in p (r # xs))"
| "prev_in p _ = None"

fun next_in :: "'a \<Rightarrow> 'a list \<Rightarrow> 'a option" where
  "next_in p (q # r # xs) = (if q = p then Some r else next_in p (r # xs))"
| "next_in p _ = None"

definition dictionary :: "param_ref \<Rightarrow> validator \<Rightarrow> param_ref list" where
  "dictionary p v = d_dict (documents v (p_doc (params v p)))"

definition get_weight :: "param_ref \<Rightarrow> validator \<Rightarrow> rat" where
  "get_weight p v =
     (case vtab v (var_name p v) of
        None \<Rightarrow> - 1
      | Some d \<Rightarrow> if h_param d (param_scope v p) = None then - 1 else h_weight d (param_scope v p))"

definition compute_weight :: "param_ref option \<Rightarrow> param_ref option \<Rightarrow> validator \<Rightarrow> rat" where
  "compute_weight before aft v =
     (let b = (case before of None \<Rightarrow> 0 | Some q \<Rightarrow> get_weight q v) in
      if b = - 1 then 1
      else
        (case aft of
           None \<Rightarrow> b + 1
         | Some q \<Rightarrow> if get_weight q v = - 1 then b + 1 else (get_weight q v + b) / 2))"

section \<open>Values\<close>

definition set_param :: "param_ref \<Rightarrow> (param \<Rightarrow> param) \<Rightarrow> validator \<Rightarrow> validator" where
  "set_param p f v = v\<lparr>params := (params v)(p := f (params v p))\<rparr>"

fun set_first_value :: "string \<Rightarrow> string list \<Rightarrow> string list" where
  "set_first_value x [] = []"
| "set_first_value x (y # ys) = x # ys"

definition gebr_validator_change_value ::
    "(string \<Rightarrow> rat) \<Rightarrow> updater \<Rightarrow> param_ref \<Rightarrow> string \<Rightarrow> validator \<Rightarrow> (bool \<times> gerror option) checked" where
  "gebr_validator_change_value strtod upd p x v =
     (let name = var_name p v; s = param_scope v p in
      if p_required (params v p) \<and> x = []
      then (let e = iexpr GEBR_IEXPR_ERROR_EMPTY_EXPR []
            in Inr ((False, Some e), set_var_error (Some name) s (Some e) v))
      else
        (let v = (set_param p (\<lambda>pa. pa\<lparr>p_values := set_first_value x (p_values pa)\<rparr>) v)\<lparr>cached_scope := DOC_UNKNOWN\<rparr> in
         if name = ''iter'' then
           vthen (gebr_validator_validate_iter strtod upd p v) (\<lambda>(ok, err) v.
             Inr (if ok then (True, None) else (False, err), v))
         else if vtab v name = None then Inr ((False, None), v)
         else validate_and_extract_param upd p (Some (name, s)) v))"

text \<open>The entry of a parameter with its weight between those of its neighbours.\<close>

definition place_param :: "param_ref \<Rightarrow> validator \<Rightarrow> validator" where
  "place_param p v =
     (let name = var_name p v; s = param_scope v p;
          d = (case vtab v name of
                 None \<Rightarrow> hash_data_new_from_xml p v
               | Some d \<Rightarrow> if h_param d s = None then d\<lparr>h_param := (h_param d)(s := Some p)\<rparr> else d);
          v = v\<lparr>vtab := (vtab v)(name \<mapsto> d)\<rparr>;
          w = compute_weight (prev_in p (dictionary p v)) (next_in p (dictionary p v)) v
      in v\<lparr>vtab := (vtab v)(name \<mapsto> d\<lparr>h_weight := (h_weight d)(s := w)\<rparr>)\<rparr>)"

definition gebr_validator_insert ::
    "(string \<Rightarrow> rat) \<Rightarrow> updater \<Rightarrow> param_ref \<Rightarrow> validator \<Rightarrow> (bool \<times> gerror option) checked" where
  "gebr_validator_insert strtod upd p v =
     (if var_name p v = [] then Inr ((False, None), v)
      else
        (let v = place_param p v
         in gebr_validator_change_value strtod upd p (var_value p v) v))"

definition set_dict :: "doc_ref \<Rightarrow> (param_ref list \<Rightarrow> param_ref list) \<Rightarrow> validator \<Rightarrow> validator" where
  "set_dict d f v =
     v\<lparr>documents := (documents v)(d := (documents v d)\<lparr>d_dict := f (d_dict (documents v d))\<rparr>)\<rparr>"

definition gebr_validator_remove :: "param_ref \<Rightarrow> validator \<Rightarrow> bool \<times> validator" where
  "gebr_validator_remove p v =
     (let (removed, v) = hash_data_remove (var_name p v) (param_scope v p) (v\<lparr>cached_scope := DOC_UNKNOWN\<rparr>)
      in (removed, if removed then set_dict (p_doc (params v p)) (remove1 p) v else v))"

definition gebr_validator_rename :: "param_ref \<Rightarrow> string \<Rightarrow> validator \<Rightarrow> bool \<times> validator" where
  "gebr_validator_rename p new_name v =
     (let v = v\<lparr>cached_scope := DOC_UNKNOWN\<rparr>; name = var_name p v; s = param_scope v p in
      if name = new_name then (True, v)
      else
        (case vtab v name of
           None \<Rightarrow> (False, v)
         | Some d \<Rightarrow>
             (let v = set_param p (\<lambda>pa. pa\<lparr>p_name := new_name\<rparr>) v;
                  old = d\<lparr>h_param := (h_param d)(s := None), h_weight := (h_weight d)(s := G_MAXDOUBLE),
                          h_dep := (h_dep d)(s := []), h_error := (h_error d)(s := None)\<rparr>;
                  taken = (\<lambda>n. n\<lparr>h_weight := (h_weight n)(s := h_weight d s),
                                 h_dep := (h_dep n)(s := h_dep d s), h_error := (h_error n)(s := h_error d s)\<rparr>)
              in case vtab v new_name of
                   None \<Rightarrow>
                     (True, v\<lparr>vtab := (vtab v)(name \<mapsto> old, new_name \<mapsto> taken (hash_data_new_from_xml p v))\<rparr>)
                 | Some n \<Rightarrow>
                     if h_param n s \<noteq> None then (False, v)
                     else (True, v\<lparr>vtab := (vtab v)(name \<mapsto> old,
                       new_name \<mapsto> taken (n\<lparr>h_param := (h_param n)(s := h_param d s)\<rparr>))\<rparr>))))"

section \<open>Moves\<close>

text \<open>\<open>gebr_geoxml_sequence_move_after\<close> on a dictionary; without a pivot the parameter goes to the front.\<close>

fun insert_behind :: "'a \<Rightarrow> 'a \<Rightarrow> 'a list \<Rightarrow> 'a list" where
  "insert_behind q p [] = []"
| "insert_behind q p (x # xs) = (if x = q then x # p # xs else x # insert_behind q p xs)"

definition move_behind :: "param_ref option \<Rightarrow> param_ref \<Rightarrow> param_ref list \<Rightarrow> param_ref list" where
  "move_behind pivot p ds =
     (case pivot of
        None \<Rightarrow> p # remove1 p ds
      | Some q \<Rightarrow> if p = q \<or> q \<notin> set ds then ds else insert_behind q p (remove1 p ds))"

text \<open>
  \<open>gebr_geoxml_document_set_dict_keyword\<close>: a new required parameter at the end of a dictionary, or \<open>NULL\<close> for another
  type than a text or a number.
\<close>

definition set_dict_keyword :: "doc_ref \<Rightarrow> parameter_type \<Rightarrow> string \<Rightarrow> string \<Rightarrow> string \<Rightarrow> validator \<Rightarrow>
    (param_ref \<times> validator) option" where
  "set_dict_keyword d ty name val label v =
     (if ty = GEBR_GEOXML_PARAMETER_TYPE_STRING \<or> ty = GEBR_GEOXML_PARAMETER_TYPE_FLOAT \<or>
         ty = GEBR_GEOXML_PARAMETER_TYPE_INT
      then
        (let p = next_param v;
             pa = \<lparr>p_name = name, p_type = ty, p_values = [val], p_sep = None, p_required = True, p_label = label,
                   p_doc = d, p_dict = True, p_for = False\<rparr>
         in Some (p, set_dict d (\<lambda>ds. ds @ [p]) (v\<lparr>params := (params v)(p := pa), next_param := p + 1\<rparr>)))
      else None)"

text \<open>
  The copy, whether the move was made, and its error. Where no copy can be made, as there is no
  document in the other scope, the operations on \<open>NULL\<close> do nothing, but the source is still removed.
\<close>

definition move_copy ::
    "(string \<Rightarrow> rat) \<Rightarrow> updater \<Rightarrow> param_ref \<Rightarrow> nat \<Rightarrow> validator \<Rightarrow> param_ref option checked" where
  "move_copy strtod upd src t2 v =
     (if param_scope v src = t2 then Inr (Some src, v)
      else
        (case Option.bind (current_doc v t2)
            (\<lambda>doc. set_dict_keyword doc (param_type v src) (var_name src v) (var_value src v) (p_label (params v src)) v) of
           None \<Rightarrow> Inr (None, v)
         | Some (q, v) \<Rightarrow> vthen (gebr_validator_insert strtod upd q v) (\<lambda>_ v. Inr (Some q, v))))"

definition move_source :: "string \<Rightarrow> nat \<Rightarrow> nat \<Rightarrow> param_ref \<Rightarrow> validator \<Rightarrow> validator" where
  "move_source name t1 t2 src v =
     (let v = snd (hash_data_remove name t1 v)
      in if t1 \<noteq> t2 then set_dict (p_doc (params v src)) (remove1 src) v else v)"

definition place_copy ::
    "(string \<Rightarrow> rat) \<Rightarrow> updater \<Rightarrow> param_ref option \<Rightarrow> param_ref option \<Rightarrow> validator \<Rightarrow>
     (param_ref option \<times> bool \<times> gerror option) checked" where
  "place_copy strtod upd pivot copy v =
     (case copy of
        None \<Rightarrow> Inr ((None, True, None), v)
      | Some q \<Rightarrow>
          vthen (gebr_validator_insert strtod upd q (set_dict (p_doc (params v q)) (move_behind pivot q) v))
            (\<lambda>(_, err) v. Inr ((Some q, err = None, err), v)))"

definition gebr_validator_move ::
    "(string \<Rightarrow> rat) \<Rightarrow> updater \<Rightarrow> param_ref \<Rightarrow> param_ref option \<Rightarrow> nat \<Rightarrow> validator \<Rightarrow>
     (param_ref option \<times> bool \<times> gerror option) checked" where
  "gebr_validator_move strtod upd src pivot t2 v =
     (let name = var_name src v; t1 = param_scope v src in
      case vtab v name of
        None \<Rightarrow> Inr ((None, False, None), v)
      | Some d \<Rightarrow>
          if get_document v t2 = None then Inr ((None, False, None), v)
          else if h_param d t1 \<noteq> Some src then Inl Crash
          else if t1 \<noteq> t2 \<and> h_param d t2 \<noteq> None
          then Inr ((None, False, Some (iexpr GEBR_IEXPR_ERROR_BAD_MOVE name)), v)
          else
            vthen (move_copy strtod upd src t2 v) (\<lambda>copy v.
              place_copy strtod upd pivot copy (move_source name t1 t2 src v)))"

section \<open>Documents\<close>

fun insert_params :: "(string \<Rightarrow> rat) \<Rightarrow> updater \<Rightarrow> param_ref list \<Rightarrow> validator \<Rightarrow> unit checked" where
  "insert_params strtod upd [] v = Inr ((), v)"
| "insert_params strtod upd (p # ps) v =
     vthen (gebr_validator_insert strtod upd p v) (\<lambda>_ v. insert_params strtod upd ps v)"

fun remove_names :: "nat \<Rightarrow> string list \<Rightarrow> validator \<Rightarrow> validator" where
  "remove_names s [] v = v"
| "remove_names s (x # xs) v = remove_names s xs (snd (hash_data_remove x s v))"

fun clean_scopes :: "nat list \<Rightarrow> validator \<Rightarrow> validator" where
  "clean_scopes [] v = v"
| "clean_scopes (s # ss) v =
     (case cache_docs v s of
        None \<Rightarrow> clean_scopes ss v
      | Some d \<Rightarrow>
          if get_document v s \<noteq> None \<and> current_doc v s = Some d then clean_scopes ss v
          else if s = PROJECT then v\<lparr>vtab := Map.empty, cache_docs := (\<lambda>_. None)\<rparr>
          else
            (let v = remove_names s (map (\<lambda>p. var_name p v) (d_dict (documents v d))) v
             in clean_scopes ss (v\<lparr>cache_docs := (cache_docs v)(s := None)\<rparr>)))"

definition gebr_validator_clean_cache :: "validator \<Rightarrow> validator" where
  "gebr_validator_clean_cache v = clean_scopes [PROJECT, LINE, FLOW] v"

fun update_scopes :: "(string \<Rightarrow> rat) \<Rightarrow> updater \<Rightarrow> bool \<Rightarrow> nat list \<Rightarrow> validator \<Rightarrow> unit checked" where
  "update_scopes strtod upd force [] v = Inr ((), v)"
| "update_scopes strtod upd force (s # ss) v =
     (case current_doc v s of
        None \<Rightarrow> update_scopes strtod upd force ss v
      | Some d \<Rightarrow>
          if \<not> force \<and> cache_docs v s = Some d then update_scopes strtod upd force ss v
          else
            vthen (insert_params strtod upd (d_dict (documents v d)) v) (\<lambda>_ v.
              update_scopes strtod upd force ss (v\<lparr>cache_docs := (cache_docs v)(s := Some d)\<rparr>)))"

definition gebr_validator_update :: "(string \<Rightarrow> rat) \<Rightarrow> updater \<Rightarrow> validator \<Rightarrow> unit checked" where
  "gebr_validator_update strtod upd v =
     update_scopes strtod upd False [PROJECT, LINE, FLOW] (gebr_validator_clean_cache v)"

definition gebr_validator_force_update :: "(string \<Rightarrow> rat) \<Rightarrow> updater \<Rightarrow> validator \<Rightarrow> unit checked" where
  "gebr_validator_force_update strtod upd v =
     update_scopes strtod upd True [PROJECT, LINE, FLOW] (v\<lparr>vtab := Map.empty\<rparr>)"

definition gebr_validator_push_document ::
    "(string \<Rightarrow> rat) \<Rightarrow> updater \<Rightarrow> var_ref \<Rightarrow> nat \<Rightarrow> validator \<Rightarrow> unit checked" where
  "gebr_validator_push_document strtod upd r s v =
     gebr_validator_update strtod upd (v\<lparr>doc_queue := (doc_queue v)(s := r # doc_queue v s)\<rparr>)"

text \<open>The argument \<open>force\<close> is not used.\<close>

definition gebr_validator_set_document ::
    "(string \<Rightarrow> rat) \<Rightarrow> updater \<Rightarrow> var_ref \<Rightarrow> nat \<Rightarrow> bool \<Rightarrow> validator \<Rightarrow> unit checked" where
  "gebr_validator_set_document strtod upd r s force v = gebr_validator_push_document strtod upd r s v"

definition gebr_validator_pop_document ::
    "(string \<Rightarrow> rat) \<Rightarrow> updater \<Rightarrow> nat \<Rightarrow> validator \<Rightarrow> var_ref option checked" where
  "gebr_validator_pop_document strtod upd s v =
     vthen (gebr_validator_update strtod upd (v\<lparr>doc_queue := (doc_queue v)(s := tl (doc_queue v s))\<rparr>))
       (\<lambda>_ v'. Inr (get_document v s, v'))"

definition gebr_validator_is_var_in_scope :: "string \<Rightarrow> nat \<Rightarrow> validator \<Rightarrow> bool" where
  "gebr_validator_is_var_in_scope name s v \<longleftrightarrow>
     s < DOC_UNKNOWN \<and> (case vtab v name of None \<Rightarrow> False | Some d \<Rightarrow> h_param d s \<noteq> None)"

definition gebr_validator_get_documents :: "validator \<Rightarrow> doc_ref option \<times> doc_ref option \<times> doc_ref option" where
  "gebr_validator_get_documents v = (current_doc v FLOW, current_doc v LINE, current_doc v PROJECT)"

definition gebr_validator_new ::
    "(string \<Rightarrow> rat) \<Rightarrow> updater \<Rightarrow> arith_expr \<Rightarrow> var_ref \<Rightarrow> var_ref \<Rightarrow> var_ref \<Rightarrow> validator \<Rightarrow> unit checked" where
  "gebr_validator_new strtod upd a flow line proj heap =
     vthen (bc_eval ''scale=5'' None
         (heap\<lparr>arith := a, doc_queue := (\<lambda>_. [])(0 := [flow], 1 := [line], 2 := [proj]), vtab := Map.empty\<rparr>))
       (\<lambda>_ v. gebr_validator_update strtod upd (v\<lparr>cached_scope := DOC_UNKNOWN\<rparr>))"

end
