(* ===== verification/Validator_Shape.thy ===== *)
theory Validator_Shape
  imports Validator_Edit
begin

text \<open>
  What evaluation leaves alone. Evaluating and validating expressions changes the process \<open>bc\<close>, the
  scope it holds, the names and the errors of variables, and nothing else; the edits keep the table
  of variables well typed.
\<close>

section \<open>What evaluation keeps\<close>

definition table_part :: "validator \<Rightarrow> string \<Rightarrow> ((nat \<Rightarrow> param_ref option) \<times> (nat \<Rightarrow> rat)) option" where
  "table_part v x = map_option (\<lambda>d. (h_param d, h_weight d)) (vtab v x)"

definition same_shape :: "validator \<Rightarrow> validator \<Rightarrow> bool" where
  "same_shape v v' \<longleftrightarrow>
     documents v' = documents v \<and> params v' = params v \<and> doc_queue v' = doc_queue v \<and> doc_vars v' = doc_vars v \<and>
     cache_docs v' = cache_docs v \<and> next_param v' = next_param v \<and> table_part v' = table_part v"

definition keeps :: "validator \<Rightarrow> 'a checked \<Rightarrow> bool" where
  "keeps v m \<longleftrightarrow> (\<forall>a v'. m = Inr (a, v') \<longrightarrow> same_shape v v')"

named_theorems keeps_laws

lemma same_shape_refl [simp]: "same_shape v v"
  by (simp add: same_shape_def)

lemma same_shape_trans: "same_shape u v \<Longrightarrow> same_shape v w \<Longrightarrow> same_shape u w"
  by (simp add: same_shape_def)

lemma keepsD: "keeps v m \<Longrightarrow> m = Inr (a, v') \<Longrightarrow> same_shape v v'"
  by (simp add: keeps_def)

lemma keeps_Inl [keeps_laws]: "keeps v (Inl st)"
  by (simp add: keeps_def)

lemma keeps_Inr [keeps_laws]: "same_shape v v' \<Longrightarrow> keeps v (Inr (a, v'))"
  by (simp add: keeps_def)

text \<open>Each law is relative to the state \<open>u\<close> at the start of the call.\<close>

lemma keeps_vthen [keeps_laws]: "keeps u m \<Longrightarrow> (\<And>a v. same_shape u v \<Longrightarrow> keeps u (f a v)) \<Longrightarrow> keeps u (vthen m f)"
  unfolding keeps_def vthen_def by (auto split: sum.splits)

lemma table_part_fields [simp]:
  "table_part (v\<lparr>arith := a\<rparr>) = table_part v" "table_part (v\<lparr>cached_scope := s\<rparr>) = table_part v"
  by (simp_all add: table_part_def fun_eq_iff)

lemma same_shape_fields [simp]:
  "same_shape u (v\<lparr>arith := a\<rparr>) = same_shape u v" "same_shape u (v\<lparr>cached_scope := s\<rparr>) = same_shape u v"
  by (simp_all add: same_shape_def)

lemma same_shape_upd_data:
  assumes "\<And>d. h_param (f d) = h_param d \<and> h_weight (f d) = h_weight d"
  shows "same_shape u (upd_data x f v) = same_shape u v"
proof -
  have "table_part (upd_data x f v) = table_part v"
    using assms by (auto simp: upd_data_def table_part_def fun_eq_iff split: option.splits)
  then show ?thesis by (simp add: same_shape_def upd_data_def split: option.splits)
qed

lemma same_shape_set_var_error [simp]: "same_shape u (set_var_error name s e v) = same_shape u v"
  by (cases name) (simp_all add: set_var_error_def same_shape_upd_data)

lemma same_shape_cache_error [simp]: "same_shape u (cache_error name s e v) = same_shape u v"
  by (simp add: cache_error_def)

lemma same_shape_set_dep [simp]: "same_shape u (set_dep dst ds v) = same_shape u v"
  by (cases dst) (auto simp: set_dep_def same_shape_upd_data)

lemma bc_eval_keeps [keeps_laws]: "same_shape u v \<Longrightarrow> keeps u (bc_eval e err v)"
  by (auto simp: keeps_def bc_eval_def map_sum_def split: sum.splits prod.splits)

lemma references_error_state: "references_error deps me ty s v = Inr (e, v') \<Longrightarrow> v' = v"
  by (auto simp: references_error_def split: option.splits)

lemma references_error_keeps [keeps_laws]: "same_shape u v \<Longrightarrow> keeps u (references_error deps me ty s v)"
  using references_error_state by (fastforce simp: keeps_def)

lemma keeps_prod [keeps_laws]: "(\<And>a b. p = (a, b) \<Longrightarrow> keeps u (f a b v)) \<Longrightarrow> keeps u (case_prod f p v)"
  by (cases p) simp

lemma keeps_if [keeps_laws]: "(b \<Longrightarrow> keeps u m) \<Longrightarrow> (\<not> b \<Longrightarrow> keeps u m') \<Longrightarrow> keeps u (if b then m else m')"
  by simp

lemma keeps_option [keeps_laws]:
  "keeps u m \<Longrightarrow> (\<And>x. o1 = Some x \<Longrightarrow> keeps u (f x)) \<Longrightarrow> keeps u (case o1 of None \<Rightarrow> m | Some x \<Rightarrow> f x)"
  by (cases o1) simp_all

lemma keeps_sum [keeps_laws]:
  "(\<And>x. r = Inl x \<Longrightarrow> keeps u (g x)) \<Longrightarrow> (\<And>x. r = Inr x \<Longrightarrow> keeps u (f x)) \<Longrightarrow>
   keeps u (case r of Inl x \<Rightarrow> g x | Inr x \<Rightarrow> f x)"
  by (cases r) simp_all

lemma keeps_let_prod [keeps_laws]: "(\<And>a b. p = (a, b) \<Longrightarrow> keeps u (f a b)) \<Longrightarrow> keeps u (case_prod f p)"
  by (cases p) simp

lemma check_number_keeps [keeps_laws]: "same_shape u v \<Longrightarrow> keeps u (check_number name e ty s vars v)"
  unfolding check_number_def Let_def by (intro keeps_laws) (auto split: option.splits)

lemma check_text_keeps [keeps_laws]:
  "(\<And>e v. same_shape u v \<Longrightarrow> keeps u (pc e v)) \<Longrightarrow> same_shape u v \<Longrightarrow> keeps u (check_text pc name e ty s vars v)"
  unfolding check_text_def by (intro keeps_laws) auto

lemma check_expression_keeps [keeps_laws]:
  assumes "\<And>e v. same_shape u v \<Longrightarrow> keeps u (pc e v)" "same_shape u v"
  shows "keeps u (check_expression pc name e ty s dst v)"
  unfolding check_expression_def Let_def
  by (intro keeps_laws assms(1)) (simp_all add: assms(2))

lemma use_iter_keeps [keeps_laws]: "same_shape u v \<Longrightarrow> keeps u (gebr_validator_use_iter e ty s v)"
  by (auto simp: keeps_def gebr_validator_use_iter_def Let_def vthen_Inr_conv split: option.splits if_splits)

lemma evaluation_failed_keeps [keeps_laws]: "same_shape u v \<Longrightarrow> keeps u (evaluation_failed name s err v)"
  unfolding evaluation_failed_def by (intro keeps_laws) simp

lemma evaluate_internal_keeps [keeps_laws]:
  "same_shape u v \<Longrightarrow> keeps u (gebr_validator_evaluate_internal name e ty s i v)"
  unfolding gebr_validator_evaluate_internal_def by (intro keeps_laws) simp_all

section \<open>The contract of the definition of variables\<close>

text \<open>What the functions that evaluate rely on when they define the variables first.\<close>

locale var_updater =
  fixes upd :: updater
  assumes upd_keeps: "same_shape u v \<Longrightarrow> keeps u (upd s t v)"
begin

lemma evaluate_with_keeps:
  assumes "\<And>e v. same_shape u v \<Longrightarrow> keeps u (pc e v)" "same_shape u v"
  shows "keeps u (evaluate_with pc upd e ty s i t v)"
  unfolding evaluate_with_def
  by (intro keeps_laws upd_keeps assms(1)) (simp_all add: assms(2))

lemma path_keeps: "same_shape u v \<Longrightarrow> keeps u (validate_path_expression upd e v)"
  unfolding validate_path_expression_def by (intro keeps_laws evaluate_with_keeps) simp_all

lemma define_validate_keeps: "same_shape u v \<Longrightarrow> keeps u (define_validate_and_extract_vars upd name e ty s dst v)"
  unfolding define_validate_and_extract_vars_def by (intro check_expression_keeps path_keeps)

lemma evaluate_interval_keeps: "same_shape u v \<Longrightarrow> keeps u (gebr_validator_evaluate_interval upd e ty s i t v)"
  unfolding gebr_validator_evaluate_interval_def by (intro evaluate_with_keeps path_keeps)

lemma extract_param_keeps: "same_shape u v \<Longrightarrow> keeps u (validate_and_extract_param upd p dst v)"
  unfolding validate_and_extract_param_def Let_def
  by (intro keeps_laws define_validate_keeps) simp_all

lemma control_parameter_keeps: "same_shape u v \<Longrightarrow> keeps u (gebr_validator_validate_control_parameter strtod upd name e v)"
  unfolding gebr_validator_validate_control_parameter_def gebr_validator_evaluate_def
  by (intro keeps_laws evaluate_interval_keeps) simp_all

lemma check_controls_keeps: "same_shape u v \<Longrightarrow> keeps u (check_controls strtod upd i xs v)"
proof (induction xs arbitrary: i v)
  case (Cons x xs)
  show ?case unfolding check_controls.simps
    by (intro keeps_laws control_parameter_keeps Cons)
qed (simp add: keeps_laws)

lemma validate_iter_keeps: "same_shape u v \<Longrightarrow> keeps u (gebr_validator_validate_iter strtod upd p v)"
  unfolding gebr_validator_validate_iter_def Let_def
  by (intro keeps_laws define_validate_keeps check_controls_keeps) simp_all

lemma recheck_keeps: "same_shape u v \<Longrightarrow> keeps u (recheck_numbers upd ps v)"
proof (induction ps arbitrary: v)
  case (Cons p ps)
  show ?case unfolding recheck_numbers.simps
    by (intro keeps_laws extract_param_keeps Cons)
qed (simp add: keeps_laws)

lemma keeps_list [keeps_laws]:
  "keeps u m \<Longrightarrow> (\<And>x xs. l = x # xs \<Longrightarrow> keeps u (f x xs)) \<Longrightarrow> keeps u (case l of [] \<Rightarrow> m | x # xs \<Rightarrow> f x xs)"
  by (cases l) simp_all

lemma check_loop_keeps: "same_shape u v \<Longrightarrow> keeps u (check_loop strtod upd s v)"
  unfolding check_loop_def
  by (intro keeps_laws validate_iter_keeps extract_param_keeps recheck_keeps)

lemma define_string_keeps: "same_shape u v \<Longrightarrow> keeps u (define_string s p name ty prog v)"
  unfolding define_string_def Let_def by (intro keeps_laws)

lemma define_param_keeps: "same_shape u v \<Longrightarrow> keeps u (define_param upd hi s p prog v)"
  unfolding define_param_def Let_def
  by (intro keeps_laws define_string_keeps define_validate_keeps extract_param_keeps)

lemma define_params_keeps: "same_shape u v \<Longrightarrow> keeps u (define_params upd hi s ps prog v)"
proof (induction ps arbitrary: prog v)
  case (Cons p ps)
  show ?case unfolding define_params.simps
    by (intro keeps_laws define_param_keeps Cons)
qed (simp add: keeps_laws)

lemma define_scopes_keeps: "same_shape u v \<Longrightarrow> keeps u (define_scopes upd hi ss prog v)"
proof (induction ss arbitrary: prog v)
  case (Cons s ss)
  show ?case unfolding define_scopes.simps
    by (intro keeps_laws define_params_keeps Cons)
qed (simp add: keeps_laws)

lemma body_keeps: "same_shape u v \<Longrightarrow> keeps u (update_vars_body strtod upd s t v)"
  unfolding update_vars_body_def
  by (intro keeps_laws check_loop_keeps define_scopes_keeps) simp_all

end

text \<open>The definition of variables meets the contract, for each depth of the recursion.\<close>

lemma update_vars_keeps: "same_shape u v \<Longrightarrow> keeps u (gebr_validator_update_vars strtod n s t v)"
proof (induction n arbitrary: u s t v)
  case 0
  then show ?case by (simp add: keeps_laws)
next
  case (Suc n)
  have "var_updater (gebr_validator_update_vars strtod n)" by unfold_locales (rule Suc.IH)
  then show ?case using Suc.prems by (simp add: var_updater.body_keeps)
qed

interpretation vars: var_updater "gebr_validator_update_vars strtod n" for strtod n
  by unfold_locales (rule update_vars_keeps)

end
