(* ===== verification/Validator_Typed.thy ===== *)
theory Validator_Typed
  imports Validator_Shape
begin

text \<open>
  The edits of the table of variables keep it well typed: an entry of a scope is a parameter of that
  name whose document has that scope. The relation \<open>validator_step\<close> ranges over the operations of the
  validator and over what the owner of the documents does between them.
\<close>

section \<open>The slots of the table\<close>

definition slot :: "validator \<Rightarrow> string \<Rightarrow> nat \<Rightarrow> param_ref option" where
  "slot v x s = (case vtab v x of None \<Rightarrow> None | Some d \<Rightarrow> h_param d s)"

definition typed :: "validator \<Rightarrow> bool" where
  "typed v \<longleftrightarrow>
     finite (dom (vtab v)) \<and>
     (\<forall>x s p. slot v x s = Some p \<longrightarrow> var_name p v = x \<and> param_scope v p = s \<and> p < next_param v) \<and>
     (\<forall>d. \<forall>p \<in> set (d_dict (documents v d)). p < next_param v)"

lemma typedI:
  assumes "finite (dom (vtab v))"
    and "\<And>x s p. slot v x s = Some p \<Longrightarrow> var_name p v = x \<and> param_scope v p = s \<and> p < next_param v"
    and "\<And>d p. p \<in> set (d_dict (documents v d)) \<Longrightarrow> p < next_param v"
  shows "typed v"
  using assms by (simp add: typed_def)

lemma typedD:
  assumes "typed v"
  shows "finite (dom (vtab v))"
    and "slot v x s = Some p \<Longrightarrow> var_name p v = x \<and> param_scope v p = s \<and> p < next_param v"
    and "q \<in> set (d_dict (documents v d)) \<Longrightarrow> q < next_param v"
  using assms by (auto simp: typed_def)

lemma slot_table_part: "slot v x s = (case table_part v x of None \<Rightarrow> None | Some (f, _) \<Rightarrow> f s)"
  by (simp add: slot_def table_part_def split: option.splits)

lemma dom_table_part: "dom (table_part v) = dom (vtab v)"
  by (auto simp: table_part_def dom_def)

lemma same_shape_slot:
  assumes "same_shape v v'"
  shows "slot v' = slot v" "dom (vtab v') = dom (vtab v)" "var_name p v' = var_name p v" "param_scope v' p = param_scope v p"
  using assms by (auto simp: same_shape_def slot_table_part fun_eq_iff var_name_def param_scope_def simp flip: dom_table_part)

lemma typed_same_shape: "typed v \<Longrightarrow> same_shape v v' \<Longrightarrow> typed v'"
  by (rule typedI) (auto simp: same_shape_slot typedD, auto simp: same_shape_def typedD)

lemma typed_keeps: "typed v \<Longrightarrow> keeps v m \<Longrightarrow> m = Inr (a, v') \<Longrightarrow> typed v'"
  by (blast intro: typed_same_shape dest: keepsD)

lemma typed_cached_scope [simp]: "typed (v\<lparr>cached_scope := s\<rparr>) = typed v"
  by (auto simp: typed_def slot_def var_name_def param_scope_def)

lemma typed_cache_docs [simp]: "typed (v\<lparr>cache_docs := f\<rparr>) = typed v"
  by (auto simp: typed_def slot_def var_name_def param_scope_def)

lemma typed_doc_queue [simp]: "typed (v\<lparr>doc_queue := f\<rparr>) = typed v"
  by (auto simp: typed_def slot_def var_name_def param_scope_def)

lemma typed_doc_vars [simp]: "typed (v\<lparr>doc_vars := f\<rparr>) = typed v"
  by (auto simp: typed_def slot_def var_name_def param_scope_def)

text \<open>The table that the checks of references work on.\<close>

lemma typed_table: "typed v \<Longrightarrow> table_typed (vtab v) (param_scope v)"
  by (auto simp: typed_def table_typed_def slot_def split: option.splits)

section \<open>The edits\<close>

lemma slot_update:
  "slot (v\<lparr>vtab := (vtab v)(x \<mapsto> d)\<rparr>) y s = (if y = x then h_param d s else slot v y s)"
  by (simp add: slot_def)

lemma typed_entry:
  assumes "typed v" and "\<And>s p. h_param d s = Some p \<Longrightarrow> var_name p v = x \<and> param_scope v p = s \<and> p < next_param v"
  shows "typed (v\<lparr>vtab := (vtab v)(x \<mapsto> d)\<rparr>)"
  using assms by (auto simp: typed_def slot_update var_name_def param_scope_def split: if_splits)

lemma typed_drop: "typed v \<Longrightarrow> typed (v\<lparr>vtab := (vtab v)(x := None)\<rparr>)"
  by (auto simp: typed_def slot_def var_name_def param_scope_def)

lemma typed_empty: "typed v \<Longrightarrow> typed (v\<lparr>vtab := Map.empty\<rparr>)"
  by (auto simp: typed_def slot_def var_name_def param_scope_def)

lemma entry_typed: "typed v \<Longrightarrow> vtab v x = Some d \<Longrightarrow> h_param d s = Some p \<Longrightarrow>
    var_name p v = x \<and> param_scope v p = s \<and> p < next_param v"
  using typedD(2) [of v x s p] by (simp add: slot_def)

lemma remove_typed:
  assumes "typed v"
  shows "typed (snd (hash_data_remove x s v))"
proof (cases "\<exists>d. vtab v x = Some d \<and> h_param d s \<noteq> None")
  case True
  then obtain d where d: "vtab v x = Some d" "h_param d s \<noteq> None" by blast
  let ?d = "d\<lparr>h_param := (h_param d)(s := None), h_weight := (h_weight d)(s := G_MAXDOUBLE),
              h_dep := (h_dep d)(s := []), h_error := (h_error d)(s := None)\<rparr>"
  have "typed (v\<lparr>vtab := (vtab v)(x \<mapsto> ?d)\<rparr>)"
    by (rule typed_entry [OF assms]) (auto dest: entry_typed [OF assms d(1)] split: if_splits)
  from this typed_drop [OF this, of x] show ?thesis
    using d by (auto simp: hash_data_remove_def Let_def)
next
  case False
  then show ?thesis using assms by (auto simp: hash_data_remove_def split: option.splits)
qed

lemma remove_names_typed: "typed v \<Longrightarrow> typed (remove_names s xs v)"
  by (induction xs arbitrary: v) (auto intro: remove_typed)

lemma clean_scopes_typed: "typed v \<Longrightarrow> typed (clean_scopes ss v)"
proof (induction ss arbitrary: v)
  case (Cons s ss)
  then show ?case
    using typed_empty remove_names_typed by (auto simp: Let_def split: option.splits)
qed simp

lemma set_values_typed:
  "typed v \<Longrightarrow> typed (set_param p (\<lambda>pa. pa\<lparr>p_values := f (p_values pa)\<rparr>) v)"
  by (auto simp: typed_def slot_def var_name_def param_scope_def set_param_def)

lemma place_typed:
  assumes "typed v" "p < next_param v"
  shows "typed (place_param p v)"
  unfolding place_param_def Let_def using assms
  by (auto intro!: typed_entry simp: fun_upd_upd hash_data_new_from_xml_def dest: entry_typed split: option.splits if_splits)

lemma set_dict_typed:
  assumes "typed v" "\<And>p ds. p \<in> set (f ds) \<Longrightarrow> p \<in> set ds \<or> p < next_param v"
  shows "typed (set_dict d f v)"
  using assms by (fastforce simp: typed_def slot_def var_name_def param_scope_def set_dict_def split: if_splits)

lemma set_insert_behind: "set (insert_behind q p ds) \<subseteq> insert p (set ds)"
  by (induction ds) auto

lemma set_move_behind: "set (move_behind pivot p ds) \<subseteq> insert p (set ds)"
proof (cases pivot)
  case None
  then show ?thesis using set_remove1_subset [of p ds] by (auto simp: move_behind_def)
next
  case (Some q)
  then show ?thesis
    using set_insert_behind [of q p "remove1 p ds"] set_remove1_subset [of p ds] by (auto simp: move_behind_def)
qed

lemma set_dict_keyword_typed:
  assumes "typed v" "set_dict_keyword d ty name val label v = Some (q, v')"
  shows "typed v' \<and> q < next_param v'"
proof -
  let ?pa = "\<lparr>p_name = name, p_type = ty, p_values = [val], p_sep = None, p_required = True, p_label = label,
      p_doc = d, p_dict = True, p_for = False\<rparr>"
  let ?w = "v\<lparr>params := (params v)(next_param v := ?pa), next_param := next_param v + 1\<rparr>"
  have "typed ?w"
  proof (rule typedI)
    fix x s p assume "slot ?w x s = Some p"
    then have "slot v x s = Some p" by (simp add: slot_def)
    from typedD(2) [OF assms(1) this] show "var_name p ?w = x \<and> param_scope ?w p = s \<and> p < next_param ?w"
      by (auto simp: var_name_def param_scope_def)
  next
    fix e p assume "p \<in> set (d_dict (documents ?w e))"
    then show "p < next_param ?w" using typedD(3) [OF assms(1), of p e] by simp
  qed (simp add: typedD(1) [OF assms(1)])
  then have "typed (set_dict d (\<lambda>ds. ds @ [next_param v]) ?w)" by (rule set_dict_typed) auto
  then show ?thesis
    using assms(2) by (auto simp: set_dict_keyword_def Let_def set_dict_def split: if_splits)
qed

lemma slot_rename:
  assumes "vtab v (var_name p v) = Some d" "h_param d (param_scope v p) = Some p" "slot v new (param_scope v p) = None"
    "var_name p v \<noteq> new"
  shows "slot (snd (gebr_validator_rename p new v)) y t =
    (if y = new \<and> t = param_scope v p then Some p
     else if y = var_name p v \<and> t = param_scope v p then None else slot v y t)"
  using assms
  by (auto simp: gebr_validator_rename_def Let_def slot_def set_param_def hash_data_new_from_xml_def
      var_name_def param_scope_def split: option.splits if_splits)

lemma rename_typed:
  assumes typed: "typed v" and p: "slot v (var_name p v) (param_scope v p) = Some p"
    and new: "slot v new (param_scope v p) = None"
  shows "typed (snd (gebr_validator_rename p new v))"
proof (cases "var_name p v = new")
  case True
  then show ?thesis using typed by (simp add: gebr_validator_rename_def Let_def var_name_def)
next
  case False
  let ?v = "snd (gebr_validator_rename p new v)"
  obtain d where d: "vtab v (var_name p v) = Some d" "h_param d (param_scope v p) = Some p"
    using p by (auto simp: slot_def split: option.splits)
  have heap: "documents ?v = documents v" "next_param ?v = next_param v"
    and pars: "params ?v = (params v)(p := (params v p)\<lparr>p_name := new\<rparr>)"
    and fin: "finite (dom (vtab ?v))"
    using False d new typedD(1) [OF typed]
    by (auto simp: gebr_validator_rename_def Let_def set_param_def var_name_def param_scope_def slot_def split: option.splits)
  show ?thesis
  proof (rule typedI)
    fix x s q assume q: "slot ?v x s = Some q"
    show "var_name q ?v = x \<and> param_scope ?v q = s \<and> q < next_param ?v"
    proof (cases "x = new \<and> s = param_scope v p")
      case True
      then have "q = p" using q slot_rename [OF d new False] by simp
      then show ?thesis using True typedD(2) [OF typed p] heap pars by (simp add: var_name_def param_scope_def)
    next
      case not_new: False
      then have "slot v x s = Some q \<and> \<not> (x = var_name p v \<and> s = param_scope v p)"
        using q slot_rename [OF d new False, of x s] by (auto split: if_splits)
      moreover from this have "var_name q v = x \<and> param_scope v q = s \<and> q < next_param v" using typedD(2) [OF typed] by blast
      ultimately have "q \<noteq> p" "var_name q v = x \<and> param_scope v q = s \<and> q < next_param v" by auto
      then show ?thesis using heap pars by (simp add: var_name_def param_scope_def)
    qed
  qed (use fin heap typedD(3) [OF typed] in auto)
qed


section \<open>Operations that evaluate\<close>

abbreviation vars_updater :: "(string \<Rightarrow> rat) \<Rightarrow> nat \<Rightarrow> updater" where
  "vars_updater strtod n \<equiv> gebr_validator_update_vars strtod n"

text \<open>After the edit of one value the rest of an operation keeps the shape of its state.\<close>

lemma change_value_shape:
  assumes "gebr_validator_change_value strtod (vars_updater strtod n) p x v = Inr (r, v')"
  shows "same_shape v v' \<or> same_shape (set_param p (\<lambda>pa. pa\<lparr>p_values := set_first_value x (p_values pa)\<rparr>) v) v'"
proof (cases "p_required (params v p) \<and> x = []")
  case True
  then show ?thesis using assms by (auto simp: gebr_validator_change_value_def Let_def)
next
  case False
  let ?u = "set_param p (\<lambda>pa. pa\<lparr>p_values := set_first_value x (p_values pa)\<rparr>) v"
  let ?w = "?u\<lparr>cached_scope := DOC_UNKNOWN\<rparr>"
  have "keeps ?u (if var_name p v = ''iter''
     then vthen (gebr_validator_validate_iter strtod (vars_updater strtod n) p ?w) (\<lambda>(ok, err) v. Inr (if ok then (True, None) else (False, err), v))
     else if vtab ?w (var_name p v) = None then Inr ((False, None), ?w)
     else validate_and_extract_param (vars_updater strtod n) p (Some (var_name p v, param_scope v p)) ?w)"
    by (intro keeps_laws vars.validate_iter_keeps vars.extract_param_keeps) simp_all
  from keepsD [OF this, of r v'] show ?thesis
    using assms False by (simp add: gebr_validator_change_value_def Let_def del: if_split)
qed

lemma change_value_typed:
  assumes "typed v" "gebr_validator_change_value strtod (vars_updater strtod n) p x v = Inr (r, v')"
  shows "typed v'"
  using change_value_shape [OF assms(2)] assms(1) set_values_typed typed_same_shape by blast

lemma insert_typed:
  assumes "typed v" "p < next_param v" "gebr_validator_insert strtod (vars_updater strtod n) p v = Inr (r, v')"
  shows "typed v'"
  using assms change_value_typed [OF place_typed [OF assms(1,2)]]
  by (auto simp: gebr_validator_insert_def Let_def split: if_splits)

text \<open>What the edits leave of the heap of parameters.\<close>

lemma next_param_edits [simp]:
  "next_param (set_param p f v) = next_param v" "next_param (snd (hash_data_remove x s v)) = next_param v"
  "next_param (set_dict d g v) = next_param v" "next_param (place_param p v) = next_param v"
  "next_param (set_var_error name s e v) = next_param v"
  by (simp_all add: set_param_def hash_data_remove_def set_dict_def place_param_def Let_def set_var_error_def upd_data_def
      split: option.splits)

lemma next_param_keeps: "keeps w m \<Longrightarrow> m = Inr (a, v') \<Longrightarrow> next_param v' = next_param w"
  by (auto simp: keeps_def same_shape_def)

lemma insert_next_param:
  assumes "gebr_validator_insert strtod (vars_updater strtod n) p v = Inr (r, v')"
  shows "next_param v' = next_param v"
  using assms change_value_shape
  by (fastforce simp: gebr_validator_insert_def Let_def same_shape_def split: if_splits)


lemma insert_kept:
  assumes "gebr_validator_insert strtod (vars_updater strtod n) p v = Inr (r, v')" "typed v" "p < next_param v"
  shows "typed v' \<and> next_param v' = next_param v \<and> p < next_param v'"
  using insert_typed [OF assms(2,3,1)] insert_next_param [OF assms(1)] assms(3) by simp

lemma move_copy_typed:
  assumes "typed v" "src < next_param v" "move_copy strtod (vars_updater strtod n) src t2 v = Inr (copy, w)"
  shows "typed w \<and> (\<forall>q. copy = Some q \<longrightarrow> q < next_param w)"
  using assms
  by (auto simp: move_copy_def bind_eq_Some_conv vthen_Inr_conv split: if_splits option.splits
      dest!: set_dict_keyword_typed [OF assms(1)] dest: insert_kept)

lemma move_source_typed:
  assumes "typed v"
  shows "typed (move_source name t1 t2 src v) \<and> next_param (move_source name t1 t2 src v) = next_param v"
  using remove_typed [OF assms] set_remove1_subset
  by (fastforce simp: move_source_def Let_def intro: set_dict_typed)

lemma place_copy_typed:
  assumes "typed v" "\<forall>q. copy = Some q \<longrightarrow> q < next_param v"
    "place_copy strtod (vars_updater strtod n) pivot copy v = Inr (r, v')"
  shows "typed v'"
proof (cases copy)
  case None
  then show ?thesis using assms by (simp add: place_copy_def)
next
  case (Some q)
  have "typed (set_dict (p_doc (params v q)) (move_behind pivot q) v)"
    using assms(1,2) Some set_move_behind by (intro set_dict_typed) auto
  then show ?thesis
    using assms(2,3) Some by (auto simp: place_copy_def vthen_Inr_conv dest: insert_kept)
qed

lemma move_typed:
  assumes "typed v" "src < next_param v"
    "gebr_validator_move strtod (vars_updater strtod n) src pivot t2 v = Inr (r, v')"
  shows "typed v'"
proof -
  have "typed v'" if m: "move_copy strtod (vars_updater strtod n) src t2 v = Inr (copy, w)"
      "place_copy strtod (vars_updater strtod n) pivot copy (move_source name t1 t2 src w) = Inr (r, v')" for copy w name t1
    using move_copy_typed [OF assms(1,2) m(1)] move_source_typed [of w] place_copy_typed [OF _ _ m(2)] by simp
  then show ?thesis
    using assms(1,3) by (auto simp: gebr_validator_move_def Let_def vthen_Inr_conv split: option.splits if_splits)
qed

lemma insert_params_typed:
  "typed v \<Longrightarrow> \<forall>p \<in> set ps. p < next_param v \<Longrightarrow> insert_params strtod (vars_updater strtod n) ps v = Inr (r, v') \<Longrightarrow> typed v'"
proof (induction ps arbitrary: v)
  case (Cons p ps)
  then obtain a w where w: "gebr_validator_insert strtod (vars_updater strtod n) p v = Inr (a, w)"
      "insert_params strtod (vars_updater strtod n) ps w = Inr (r, v')"
    by (auto simp: vthen_Inr_conv)
  then show ?case using Cons insert_kept [OF w(1)] by auto
qed simp

lemma update_scopes_typed:
  "typed v \<Longrightarrow> update_scopes strtod (vars_updater strtod n) f ss v = Inr (r, v') \<Longrightarrow> typed v'"
proof (induction ss arbitrary: v)
  case (Cons s ss)
  have "typed w" if "insert_params strtod (vars_updater strtod n) (d_dict (documents v d)) v = Inr (a, w)" for a w d
    using insert_params_typed [OF Cons.prems(1) _ that] typedD(3) [OF Cons.prems(1)] by auto
  note ins = this
  show ?case
  proof (cases "\<exists>d. current_doc v s = Some d \<and> \<not> (\<not> f \<and> cache_docs v s = Some d)")
    case True
    then obtain d w where "insert_params strtod (vars_updater strtod n) (d_dict (documents v d)) v = Inr ((), w)"
        "update_scopes strtod (vars_updater strtod n) f ss (w\<lparr>cache_docs := (cache_docs w)(s := Some d)\<rparr>) = Inr (r, v')"
      using Cons.prems(2) by (auto simp: vthen_Inr_conv split: if_splits)
    then show ?thesis using Cons.IH [of "w\<lparr>cache_docs := (cache_docs w)(s := Some d)\<rparr>"] ins by simp
  next
    case False
    then show ?thesis using Cons by (auto split: option.splits if_splits)
  qed
qed simp

section \<open>Runs\<close>

text \<open>
  The operations of the validator, when they return, and what its owner does: setting the variables
  that hold the documents, and adding a parameter to a dictionary. A variable that is renamed is
  in the table and its new name is free, which the editor of dictionaries checks first.
\<close>

inductive validator_step :: "(string \<Rightarrow> rat) \<Rightarrow> nat \<Rightarrow> validator \<Rightarrow> validator \<Rightarrow> bool" for strtod n where
  step_insert: "p < next_param v \<Longrightarrow> gebr_validator_insert strtod (vars_updater strtod n) p v = Inr (r, v') \<Longrightarrow>
    validator_step strtod n v v'"
| step_remove: "validator_step strtod n v (snd (gebr_validator_remove p v))"
| step_rename: "slot v (var_name p v) (param_scope v p) = Some p \<Longrightarrow> slot v new (param_scope v p) = None \<Longrightarrow>
    validator_step strtod n v (snd (gebr_validator_rename p new v))"
| step_value: "gebr_validator_change_value strtod (vars_updater strtod n) p x v = Inr (r, v') \<Longrightarrow> validator_step strtod n v v'"
| step_move: "src < next_param v \<Longrightarrow> gebr_validator_move strtod (vars_updater strtod n) src pivot t v = Inr (m, v') \<Longrightarrow>
    validator_step strtod n v v'"
| step_update: "gebr_validator_update strtod (vars_updater strtod n) v = Inr (u, v') \<Longrightarrow> validator_step strtod n v v'"
| step_force: "gebr_validator_force_update strtod (vars_updater strtod n) v = Inr (u, v') \<Longrightarrow> validator_step strtod n v v'"
| step_push: "gebr_validator_push_document strtod (vars_updater strtod n) q t v = Inr (u, v') \<Longrightarrow> validator_step strtod n v v'"
| step_pop: "gebr_validator_pop_document strtod (vars_updater strtod n) t v = Inr (o1, v') \<Longrightarrow> validator_step strtod n v v'"
| step_vars: "vars_updater strtod n t tr v = Inr (b, v') \<Longrightarrow> validator_step strtod n v v'"
| step_expr: "gebr_validator_validate_expr (vars_updater strtod n) e ty v = Inr (r, v') \<Longrightarrow> validator_step strtod n v v'"
| step_evaluate: "gebr_validator_evaluate (vars_updater strtod n) e ty t tr v = Inr (x, v') \<Longrightarrow> validator_step strtod n v v'"
| step_param: "gebr_validator_validate_param strtod (vars_updater strtod n) p v = Inr (r, v') \<Longrightarrow> validator_step strtod n v v'"
| step_evaluate_param:
    "gebr_validator_evaluate_param strtod (vars_updater strtod n) p tr v = Inr (x, v') \<Longrightarrow> validator_step strtod n v v'"
| owner_sets: "validator_step strtod n v (v\<lparr>doc_vars := f\<rparr>)"
| owner_adds: "set_dict_keyword d ty name val label v = Some (p, v') \<Longrightarrow> validator_step strtod n v v'"

context var_updater
begin

lemma validate_expr_keeps: "same_shape u v \<Longrightarrow> keeps u (gebr_validator_validate_expr upd e ty v)"
  unfolding gebr_validator_validate_expr_def gebr_validator_validate_expr_on_scope_def
  by (rule define_validate_keeps)

lemma validate_values_keeps: "same_shape u v \<Longrightarrow> keeps u (validate_values upd ty xs v)"
proof (induction xs arbitrary: v)
  case (Cons x xs)
  show ?case unfolding validate_values.simps by (intro keeps_laws validate_expr_keeps Cons)
qed (simp add: keeps_laws)

lemma validate_param_keeps: "same_shape u v \<Longrightarrow> keeps u (gebr_validator_validate_param strtod upd p v)"
  unfolding gebr_validator_validate_param_def Let_def
  by (intro keeps_laws upd_keeps control_parameter_keeps validate_values_keeps)

lemma evaluate_param_keeps: "same_shape u v \<Longrightarrow> keeps u (gebr_validator_evaluate_param strtod upd p t v)"
  unfolding gebr_validator_evaluate_param_def Let_def
  by (intro keeps_laws upd_keeps validate_iter_keeps)

lemma evaluate_keeps: "same_shape u v \<Longrightarrow> keeps u (gebr_validator_evaluate upd e ty s t v)"
  unfolding gebr_validator_evaluate_def by (rule evaluate_interval_keeps)

end

lemma update_typed: "typed v \<Longrightarrow> gebr_validator_update strtod (vars_updater strtod n) v = Inr (r, v') \<Longrightarrow> typed v'"
  unfolding gebr_validator_update_def gebr_validator_clean_cache_def
  by (rule update_scopes_typed [OF clean_scopes_typed])

lemma step_typed: "validator_step strtod n v v' \<Longrightarrow> typed v \<Longrightarrow> typed v'"
proof (induction rule: validator_step.induct)
  case (step_remove v p)
  have "typed (snd (hash_data_remove (var_name p v) (param_scope v p) (v\<lparr>cached_scope := DOC_UNKNOWN\<rparr>)))"
    using step_remove by (intro remove_typed) simp
  then show ?case using set_remove1_subset
    by (fastforce simp: gebr_validator_remove_def Let_def split: prod.splits intro: set_dict_typed)
next
  case (step_push q t v u v')
  show ?case by (rule update_typed [OF _ step_push(1) [unfolded gebr_validator_push_document_def]]) (simp add: step_push)
next
  case (step_pop t v o1 v')
  then obtain u where "gebr_validator_update strtod (vars_updater strtod n) (v\<lparr>doc_queue := (doc_queue v)(t := tl (doc_queue v t))\<rparr>) = Inr (u, v')"
    by (auto simp: gebr_validator_pop_document_def vthen_Inr_conv)
  from update_typed [OF _ this] show ?case by (simp add: step_pop)
next
  case (step_force v u v')
  then show ?case using update_scopes_typed typed_empty unfolding gebr_validator_force_update_def by blast
next
  case (step_vars t tr v b v')
  then show ?case using typed_keeps [OF _ update_vars_keeps [OF same_shape_refl]] by blast
next
  case (step_expr e ty v r v')
  then show ?case using typed_keeps [OF _ vars.validate_expr_keeps [OF same_shape_refl]] by blast
next
  case (step_evaluate e ty t tr v x v')
  then show ?case using typed_keeps [OF _ vars.evaluate_keeps [OF same_shape_refl]] by blast
next
  case (step_param p v r v')
  then show ?case using typed_keeps [OF _ vars.validate_param_keeps [OF same_shape_refl]] by blast
next
  case (step_evaluate_param p tr v x v')
  then show ?case using typed_keeps [OF _ vars.evaluate_param_keeps [OF same_shape_refl]] by blast
qed (auto intro: insert_typed rename_typed change_value_typed move_typed update_typed dest: set_dict_keyword_typed)

text \<open>
  C38: whatever the operations of the validator do, an entry of its table in a scope is always a parameter
  whose document has that scope, so that the checks of references find what they expect.
\<close>

theorem validator_table_typed:
  assumes "(validator_step strtod n)\<^sup>*\<^sup>* v v'" "typed v"
  shows "table_typed (vtab v') (param_scope v')"
proof -
  have "typed v'" using assms by (induction rule: rtranclp_induct) (auto dest: step_typed)
  then show ?thesis by (rule typed_table)
qed

text \<open>One flow without variables, and the process without output.\<close>

definition blank_validator :: validator where
  "blank_validator = \<lparr>arith = \<lparr>defined_vars = {}, bc_in = [], bc_out = [], initialized = True\<rparr>,
     doc_queue = (\<lambda>s. [s]), vtab = Map.empty, cached_scope = DOC_UNKNOWN, cache_docs = (\<lambda>_. None),
     doc_vars = [0 \<mapsto> 0], documents = (\<lambda>_. \<lparr>d_type = 0, d_dict = [], d_paths = []\<rparr>),
     params = (\<lambda>_. \<lparr>p_name = [], p_type = GEBR_GEOXML_PARAMETER_TYPE_STRING, p_values = [], p_sep = None, p_required = False,
       p_label = [], p_doc = 0, p_dict = True, p_for = False\<rparr>), next_param = 0\<rparr>"

definition text_added :: validator where
  "text_added = snd (the (set_dict_keyword 0 GEBR_GEOXML_PARAMETER_TYPE_STRING ''x'' ''abc'' [] blank_validator))"

lemma text_inserted:
  "\<exists>r v'. gebr_validator_insert (\<lambda>_. 0) (vars_updater (\<lambda>_. 0) 2) 0 text_added = Inr (r, v') \<and>
     slot v' ''x'' 0 = Some 0"
  by (simp add: gebr_validator_insert_def place_param_def gebr_validator_change_value_def Let_def var_name_def
      text_added_def set_dict_keyword_def blank_validator_def set_dict_def set_param_def param_scope_def
      hash_data_new_from_xml_def validate_and_extract_param_def var_value_def param_type_def text_type_def
      define_validate_and_extract_vars_def check_expression_def set_dep_def upd_data_def check_text_def
      references_error_def g_strstrip_all_space is_space_def code_def string_expr_deps_def translate_with_def
      set_var_error_def slot_def ex_bool_eq)

theorem validator_table_typed_witness:
  "\<exists>v'. slot v' ''x'' 0 = Some 0 \<and> table_typed (vtab v') (param_scope v')"
proof -
  obtain r v' where ins: "gebr_validator_insert (\<lambda>_. 0) (vars_updater (\<lambda>_. 0) 2) 0 text_added = Inr (r, v')" "slot v' ''x'' 0 = Some 0"
    using text_inserted by blast
  have "set_dict_keyword 0 GEBR_GEOXML_PARAMETER_TYPE_STRING ''x'' ''abc'' [] blank_validator = Some (0, text_added)"
    by (simp add: text_added_def set_dict_keyword_def blank_validator_def Let_def)
  from owner_adds [OF this, of "\<lambda>_. 0" 2] step_insert [OF _ ins(1)]
  have "(validator_step (\<lambda>_. 0) 2)\<^sup>*\<^sup>* blank_validator v'"
    by (auto simp: text_added_def set_dict_keyword_def blank_validator_def Let_def set_dict_def)
  moreover have "typed blank_validator" by (simp add: typed_def blank_validator_def slot_def)
  ultimately show ?thesis using validator_table_typed ins(2) by blast
qed

end
