(* ===== verification/Validator_Order.thy ===== *)
theory Validator_Order
  imports Validator_Typed
begin

text \<open>
  The weights of the validator. The references inside one dictionary go upwards only, and the table decides
  that by weights. The weights of the variables of a document increase along its dictionary, whether
  it was read as a whole or a variable was inserted in the middle; so the checks of references end.
\<close>

section \<open>Entries with their weights\<close>

definition entry :: "validator \<Rightarrow> string \<Rightarrow> nat \<Rightarrow> (param_ref \<times> rat) option" where
  "entry v x s = (case table_part v x of None \<Rightarrow> None | Some (f, w) \<Rightarrow> map_option (\<lambda>p. (p, w s)) (f s))"

lemma slot_entry: "slot v x s = map_option fst (entry v x s)"
  by (simp add: slot_table_part entry_def option.map_comp comp_def option.map_ident split: option.splits)

lemma get_weight_entry:
  "get_weight p v = (case entry v (var_name p v) (param_scope v p) of None \<Rightarrow> - 1 | Some (q, w) \<Rightarrow> w)"
  by (auto simp: get_weight_def entry_def table_part_def split: option.splits)

lemma same_shape_entry: "same_shape v v' \<Longrightarrow> entry v' = entry v"
  by (simp add: same_shape_def entry_def fun_eq_iff)

text \<open>The heap apart from the values of the parameters.\<close>

definition same_names :: "validator \<Rightarrow> validator \<Rightarrow> bool" where
  "same_names v v' \<longleftrightarrow>
     documents v' = documents v \<and> doc_queue v' = doc_queue v \<and> doc_vars v' = doc_vars v \<and>
     (\<forall>p. p_name (params v' p) = p_name (params v p) \<and> p_doc (params v' p) = p_doc (params v p) \<and>
        p_type (params v' p) = p_type (params v p))"

lemma same_names_refl [simp]: "same_names v v"
  by (simp add: same_names_def)

lemma same_names_trans: "same_names u v \<Longrightarrow> same_names v w \<Longrightarrow> same_names u w"
  by (simp add: same_names_def)

lemma same_shape_names: "same_shape v v' \<Longrightarrow> same_names v v'"
  by (simp add: same_shape_def same_names_def)

lemma same_names_eqs:
  assumes "same_names v v'"
  shows "var_name p v' = var_name p v" "param_scope v' p = param_scope v p" "dictionary p v' = dictionary p v"
    "current_doc v' s = current_doc v s" "documents v' = documents v" "p_doc (params v' p) = p_doc (params v p)"
    "param_type v' p = param_type v p"
  using assms
  by (simp_all add: same_names_def var_name_def param_scope_def dictionary_def current_doc_def get_document_def param_type_def)

lemma entry_place:
  "entry (place_param p v) x t =
     (if x = var_name p v \<and> t = param_scope v p
      then Some (case slot v x t of None \<Rightarrow> p | Some q \<Rightarrow> q,
        compute_weight (prev_in p (dictionary p v)) (next_in p (dictionary p v))
          (v\<lparr>vtab := (vtab v)(var_name p v \<mapsto> (case vtab v (var_name p v) of
               None \<Rightarrow> hash_data_new_from_xml p v
             | Some d \<Rightarrow> if h_param d (param_scope v p) = None then d\<lparr>h_param := (h_param d)(param_scope v p := Some p)\<rparr> else d))\<rparr>))
      else entry v x t)"
  by (auto simp: place_param_def Let_def entry_def table_part_def slot_def hash_data_new_from_xml_def dictionary_def
      split: option.splits)

lemma place_names: "same_names v (place_param p v)"
  by (simp add: place_param_def Let_def same_names_def)

lemma compute_weight_cong:
  assumes "\<And>q. b = Some q \<Longrightarrow> get_weight q v' = get_weight q v" "\<And>q. a = Some q \<Longrightarrow> get_weight q v' = get_weight q v"
  shows "compute_weight b a v' = compute_weight b a v"
  using assms by (auto simp: compute_weight_def Let_def split: option.splits)

text \<open>The weight of a parameter whose neighbours have other names.\<close>

lemma get_weight_place:
  assumes "\<And>q. prev_in p (dictionary p v) = Some q \<or> next_in p (dictionary p v) = Some q \<Longrightarrow> var_name q v \<noteq> var_name p v"
  shows "get_weight q (place_param p v) =
    (if var_name q v = var_name p v \<and> param_scope v q = param_scope v p
     then compute_weight (prev_in p (dictionary p v)) (next_in p (dictionary p v)) v else get_weight q v)"
proof -
  have "compute_weight (prev_in p (dictionary p v)) (next_in p (dictionary p v)) (v\<lparr>vtab := (vtab v)(var_name p v \<mapsto> d)\<rparr>) =
      compute_weight (prev_in p (dictionary p v)) (next_in p (dictionary p v)) v" for d
    by (rule compute_weight_cong)
      (use assms in \<open>auto simp: get_weight_def var_name_def param_scope_def split: option.splits\<close>)
  then show ?thesis
    by (simp add: get_weight_entry entry_place same_names_eqs [OF place_names])
qed

lemma insert_effect:
  assumes "gebr_validator_insert strtod (vars_updater strtod n) p v = Inr (r, v')" "var_name p v \<noteq> []"
  shows "entry v' = entry (place_param p v)" "same_names v v'"
proof -
  let ?w = "place_param p v"
  let ?u = "set_param p (\<lambda>pa. pa\<lparr>p_values := set_first_value (var_value p ?w) (p_values pa)\<rparr>) ?w"
  have u: "entry ?u = entry ?w" "same_names ?w ?u"
    by (auto simp: entry_def table_part_def set_param_def fun_eq_iff same_names_def)
  have "same_shape ?w v' \<or> same_shape ?u v'"
    using assms change_value_shape by (simp add: gebr_validator_insert_def Let_def)
  then show "entry v' = entry ?w" using u(1) same_shape_entry by auto
  have "same_names ?w v'"
    using \<open>same_shape ?w v' \<or> same_shape ?u v'\<close> same_shape_names same_names_trans [OF u(2)] by blast
  then show "same_names v v'" by (rule same_names_trans [OF place_names])
qed

section \<open>Insertion keeps the order\<close>

text \<open>All parameters are in the table, with positive weights that increase.\<close>

definition ordered :: "param_ref list \<Rightarrow> validator \<Rightarrow> bool" where
  "ordered ds v \<longleftrightarrow> sorted_wrt (<) (0 # map (\<lambda>p. get_weight p v) ds)"

lemma prev_in_None: "p \<notin> set ys \<Longrightarrow> prev_in p (q # ys) = None"
  by (induction ys arbitrary: q) auto

lemma neighbours:
  assumes "p \<notin> set xs" "p \<notin> set ys"
  shows "prev_in p (xs @ p # ys) = (if xs = [] then None else Some (last xs))"
    "next_in p (xs @ p # ys) = (case ys of [] \<Rightarrow> None | y # _ \<Rightarrow> Some y)"
proof -
  show "prev_in p (xs @ p # ys) = (if xs = [] then None else Some (last xs))"
    using assms(1)
  proof (induction xs)
    case (Cons x xs)
    then show ?case by (cases xs) auto
  qed (simp add: prev_in_None [OF assms(2)])
  show "next_in p (xs @ p # ys) = (case ys of [] \<Rightarrow> None | y # _ \<Rightarrow> Some y)"
    using assms(1)
  proof (induction xs)
    case (Cons x xs)
    then show ?case by (cases xs) auto
  qed (cases ys, auto)
qed

lemma sorted_insert:
  fixes w :: rat
  assumes "sorted_wrt (<) (z # xs @ ys)" "last (z # xs) < w" "ys \<noteq> [] \<Longrightarrow> w < hd ys"
  shows "sorted_wrt (<) (z # xs @ w # ys)"
  using assms
proof (induction xs arbitrary: z)
  case Nil
  then show ?case by (cases ys) (auto intro: less_trans)
next
  case (Cons x xs)
  have "sorted_wrt (<) (x # xs @ w # ys)" using Cons by (auto split: if_splits)
  moreover have "z < x" using Cons.prems(1) by simp
  ultimately show ?case by (auto intro: less_trans)
qed

lemma compute_weight_eq:
  assumes "\<And>q. q \<in> set xs \<Longrightarrow> 0 < get_weight q v"
  shows "compute_weight (if xs = [] then None else Some (last xs)) (case ys of [] \<Rightarrow> None | y # _ \<Rightarrow> Some y) v =
    (case ys of
       [] \<Rightarrow> last (0 # map (\<lambda>q. get_weight q v) xs) + 1
     | y # _ \<Rightarrow>
         if get_weight y v = - 1 then last (0 # map (\<lambda>q. get_weight q v) xs) + 1
         else (get_weight y v + last (0 # map (\<lambda>q. get_weight q v) xs)) / 2)"
proof (cases "xs = []")
  case True
  then show ?thesis by (cases ys) (simp_all add: compute_weight_def)
next
  case False
  then have "0 < get_weight (last xs) v" using assms by simp
  then have "get_weight (last xs) v \<noteq> - 1" by simp
  then show ?thesis using False by (cases ys) (simp_all add: compute_weight_def last_map)
qed

text \<open>
  Inserting a variable between the variables of its document keeps the weights increasing along the dictionary.
\<close>

theorem insert_keeps_order:
  assumes "ordered (xs @ ys) v" "dictionary p v = xs @ p # ys"
    and "distinct (map (\<lambda>q. var_name q v) (xs @ p # ys))" "var_name p v \<noteq> []"
    and "gebr_validator_insert strtod (gebr_validator_update_vars strtod n) p v = Inr (r, v')"
  shows "ordered (xs @ p # ys) v'"
proof -
  let ?w = "\<lambda>q. get_weight q v"
  have p: "p \<notin> set xs" "p \<notin> set ys" using assms(3) by auto
  have other: "var_name q v \<noteq> var_name p v" if "q \<in> set (xs @ ys)" for q
    using assms(3) that by (auto simp: image_iff)
  note nb = neighbours [OF p]
  have "var_name q v \<noteq> var_name p v" if "prev_in p (dictionary p v) = Some q \<or> next_in p (dictionary p v) = Some q" for q
    using that unfolding assms(2) nb by (intro other) (auto split: if_splits list.splits)
  note place = get_weight_place [OF this]
  have new: "get_weight q v' = (if var_name q v = var_name p v \<and> param_scope v q = param_scope v p
      then compute_weight (prev_in p (dictionary p v)) (next_in p (dictionary p v)) v else ?w q)" for q
    using place [of q] insert_effect [OF assms(5,4)]
    by (simp add: get_weight_entry same_names_eqs same_names_eqs [OF place_names])
  have pos: "0 < ?w q" if "q \<in> set (xs @ ys)" for q
    using assms(1) that by (auto simp: ordered_def)
  have less: "last (0 # map ?w xs) < compute_weight (prev_in p (dictionary p v)) (next_in p (dictionary p v)) v \<and>
      (ys \<noteq> [] \<longrightarrow> compute_weight (prev_in p (dictionary p v)) (next_in p (dictionary p v)) v < ?w (hd ys))"
  proof -
    let ?b = "last (0 # map ?w xs)"
    have b: "0 \<le> ?b" using pos by (cases xs rule: rev_cases) (auto simp: less_imp_le)
    have lt: "?b < ?w y" if "ys = y # ys'" for y ys'
      using assms(1) that by (cases xs rule: rev_cases) (auto simp: ordered_def sorted_wrt_append)
    have cw: "compute_weight (prev_in p (dictionary p v)) (next_in p (dictionary p v)) v =
        (case ys of [] \<Rightarrow> ?b + 1 | y # _ \<Rightarrow> if ?w y = - 1 then ?b + 1 else (?w y + ?b) / 2)"
      unfolding assms(2) nb by (rule compute_weight_eq) (simp add: pos)
    show ?thesis unfolding cw
    proof (cases ys)
      case (Cons y ys')
      with b lt [of y ys'] show "?b < (case ys of [] \<Rightarrow> ?b + 1 | y # _ \<Rightarrow> if ?w y = - 1 then ?b + 1 else (?w y + ?b) / 2) \<and>
          (ys \<noteq> [] \<longrightarrow> (case ys of [] \<Rightarrow> ?b + 1 | y # _ \<Rightarrow> if ?w y = - 1 then ?b + 1 else (?w y + ?b) / 2) < ?w (hd ys))"
        by (simp del: last.simps)
    qed (simp del: last.simps)
  qed
  have "map (\<lambda>q. get_weight q v') (xs @ p # ys) =
      map ?w xs @ compute_weight (prev_in p (dictionary p v)) (next_in p (dictionary p v)) v # map ?w ys"
    using other by (auto simp: new)
  moreover have "sorted_wrt (<) (0 # map ?w xs @ map ?w ys)" using assms(1) by (simp add: ordered_def)
  from sorted_insert [OF this, of "compute_weight (prev_in p (dictionary p v)) (next_in p (dictionary p v)) v"] less
  have "sorted_wrt (<) (0 # map ?w xs @ compute_weight (prev_in p (dictionary p v)) (next_in p (dictionary p v)) v # map ?w ys)"
    by (simp add: hd_map)
  ultimately show ?thesis by (simp only: ordered_def)
qed

section \<open>Reading the documents\<close>

text \<open>
  The documents that are open are of their scope, and their variables have names, which differ.
\<close>

definition opened :: "validator \<Rightarrow> nat \<Rightarrow> doc_ref \<Rightarrow> bool" where
  "opened v s d \<longleftrightarrow>
     d_type (documents v d) = s \<and> distinct (map (\<lambda>p. var_name p v) (d_dict (documents v d))) \<and>
     (\<forall>p \<in> set (d_dict (documents v d)). p_doc (params v p) = d \<and> var_name p v \<noteq> [])"

definition well_opened :: "validator \<Rightarrow> bool" where
  "well_opened v \<longleftrightarrow> (\<forall>s d. current_doc v s = Some d \<longrightarrow> opened v s d)"

lemma opened_same_names: "same_names v v' \<Longrightarrow> opened v' s d = opened v s d"
  by (simp add: opened_def same_names_eqs cong: ball_cong)

lemma well_opened_same_names: "same_names v v' \<Longrightarrow> well_opened v' = well_opened v"
  by (simp add: well_opened_def opened_same_names same_names_eqs)

text \<open>The first \<open>xs\<close> of the variables of a scope are in the table, in their order, and nothing else of that scope.\<close>

definition filled :: "validator \<Rightarrow> nat \<Rightarrow> param_ref list \<Rightarrow> bool" where
  "filled v s xs \<longleftrightarrow> ordered xs v \<and> (\<forall>x. entry v x s \<noteq> None \<longrightarrow> x \<in> (\<lambda>p. var_name p v) ` set xs)"

lemma insert_next:
  assumes op: "opened v s d" and dict: "d_dict (documents v d) = xs @ p # ys" and fill: "filled v s xs"
    and ins: "gebr_validator_insert strtod (vars_updater strtod n) p v = Inr (r, v')"
  shows "filled v' s (xs @ [p])" "t \<noteq> s \<Longrightarrow> entry v' x t = entry v x t" "same_names v v'"
proof -
  have p: "p_doc (params v p) = d" "var_name p v \<noteq> []" "param_scope v p = s" "dictionary p v = xs @ p # ys"
    using op dict by (auto simp: opened_def param_scope_def dictionary_def)
  have scope: "param_scope v q = s" if "q \<in> set (xs @ p # ys)" for q
    using op dict that by (auto simp: opened_def param_scope_def)
  have dist: "distinct (map (\<lambda>q. var_name q v) (xs @ p # ys))" using op dict by (simp add: opened_def)
  note eff = insert_effect [OF ins p(2)]
  show names: "same_names v v'" by (rule eff(2))
  show other: "t \<noteq> s \<Longrightarrow> entry v' x t = entry v x t" for x t
    using eff(1) p(3) by (simp add: entry_place)
  have fresh: "get_weight y v = - 1" if "y \<in> set ys" for y
  proof -
    have "var_name y v \<notin> (\<lambda>q. var_name q v) ` set xs" using dist that by auto
    then have "entry v (var_name y v) s = None" using fill unfolding filled_def by blast
    then show ?thesis using scope that by (simp add: get_weight_entry)
  qed
  have nm: "p \<notin> set xs" "p \<notin> set ys" using dist by auto
  note nb = neighbours [OF nm]
  have "var_name q v \<noteq> var_name p v" if "prev_in p (dictionary p v) = Some q \<or> next_in p (dictionary p v) = Some q" for q
  proof -
    have "q \<in> set (xs @ ys)" using that unfolding p(4) nb by (auto split: if_splits list.splits)
    then show ?thesis using dist by (auto simp: image_iff)
  qed
  note place = get_weight_place [OF this]
  have new: "get_weight q v' = (if var_name q v = var_name p v \<and> param_scope v q = s
      then compute_weight (prev_in p (dictionary p v)) (next_in p (dictionary p v)) v else get_weight q v)" for q
    using place [of q] eff p(3) by (simp add: get_weight_entry same_names_eqs same_names_eqs [OF place_names])
  have pos: "0 < get_weight q v" if "q \<in> set xs" for q
    using fill that by (auto simp: filled_def ordered_def)
  let ?l = "last (0 # map (\<lambda>q. get_weight q v) xs)"
  have "compute_weight (prev_in p (dictionary p v)) (next_in p (dictionary p v)) v =
      (case ys of [] \<Rightarrow> ?l + 1 | y # _ \<Rightarrow> if get_weight y v = - 1 then ?l + 1 else (get_weight y v + ?l) / 2)"
    unfolding p(4) nb by (rule compute_weight_eq) (rule pos)
  also have "\<dots> = ?l + 1" by (cases ys) (simp_all add: fresh del: last.simps)
  finally have "compute_weight (prev_in p (dictionary p v)) (next_in p (dictionary p v)) v = ?l + 1" .
  then have "get_weight p v' = ?l + 1" using p(3) by (simp add: new del: last.simps)
  moreover have "map (\<lambda>q. get_weight q v') xs = map (\<lambda>q. get_weight q v) xs"
    using dist by (auto simp: new image_iff)
  ultimately have eq: "map (\<lambda>q. get_weight q v') (xs @ [p]) = map (\<lambda>q. get_weight q v) xs @ [?l + 1]"
    by simp
  have "sorted_wrt (<) (0 # map (\<lambda>q. get_weight q v) xs)" using fill by (simp add: filled_def ordered_def)
  then have "sorted_wrt (<) (0 # map (\<lambda>q. get_weight q v) xs @ [?l + 1])"
    using sorted_insert [of 0 "map (\<lambda>q. get_weight q v) xs" "[]" "?l + 1"] by (simp del: last.simps)
  then have "ordered (xs @ [p]) v'" by (simp only: ordered_def eq)
  moreover have "x \<in> (\<lambda>q. var_name q v') ` set (xs @ [p])" if "entry v' x s \<noteq> None" for x
    using that eff(1) p(3) fill by (auto simp: entry_place filled_def same_names_eqs [OF names] split: if_splits)
  ultimately show "filled v' s (xs @ [p])" by (simp add: filled_def)
qed

lemma insert_params_fill:
  assumes "opened v s d" "d_dict (documents v d) = xs @ ps" "filled v s xs"
    "insert_params strtod (vars_updater strtod n) ps v = Inr (r, v')"
  shows "filled v' s (xs @ ps) \<and> (\<forall>x t. t \<noteq> s \<longrightarrow> entry v' x t = entry v x t) \<and> same_names v v'"
  using assms
proof (induction ps arbitrary: xs v)
  case Nil
  then show ?case by simp
next
  case (Cons p ps)
  then obtain a w where w: "gebr_validator_insert strtod (vars_updater strtod n) p v = Inr (a, w)"
      "insert_params strtod (vars_updater strtod n) ps w = Inr (r, v')"
    by (auto simp: vthen_Inr_conv)
  note ins = insert_next [OF Cons.prems(1-3) w(1)]
  have "filled v' s ((xs @ [p]) @ ps) \<and> (\<forall>x t. t \<noteq> s \<longrightarrow> entry v' x t = entry w x t) \<and> same_names w v'"
    using Cons.prems(1,2) ins by (intro Cons.IH w) (simp_all add: opened_same_names same_names_eqs)
  then show ?case using ins same_names_trans by auto
qed

lemma filled_eq:
  assumes "\<And>x. entry v' x s = entry v x s" "same_names v v'" "\<And>p. p \<in> set xs \<Longrightarrow> param_scope v p = s"
  shows "filled v' s xs = filled v s xs"
proof -
  have "map (\<lambda>p. get_weight p v') xs = map (\<lambda>p. get_weight p v) xs"
    using assms by (simp add: get_weight_entry same_names_eqs)
  then show ?thesis
    unfolding filled_def ordered_def assms(1) by (simp only: same_names_eqs [OF assms(2)])
qed

text \<open>Every scope that has been read is filled, and nothing stands in the others.\<close>

definition scope_list :: "validator \<Rightarrow> nat \<Rightarrow> param_ref list" where
  "scope_list v s = (case current_doc v s of None \<Rightarrow> [] | Some d \<Rightarrow> d_dict (documents v d))"

lemma scope_list_scope: "well_opened v \<Longrightarrow> p \<in> set (scope_list v s) \<Longrightarrow> param_scope v p = s"
  by (cases "current_doc v s") (auto simp: scope_list_def well_opened_def opened_def param_scope_def)

lemma same_names_scope_list: "same_names v v' \<Longrightarrow> scope_list v' s = scope_list v s"
  by (cases "current_doc v s") (simp_all add: scope_list_def same_names_eqs)

lemma entry_cache_docs [simp]: "entry (v\<lparr>cache_docs := f\<rparr>) = entry v" "same_names v (v'\<lparr>cache_docs := f\<rparr>) = same_names v v'"
  by (auto simp: entry_def table_part_def fun_eq_iff same_names_def)

lemma update_scopes_fill:
  assumes "well_opened v" "\<And>s x. s \<in> set ss \<Longrightarrow> entry v x s = None" "distinct ss"
    "update_scopes strtod (vars_updater strtod n) True ss v = Inr (r, v')"
  shows "same_names v v' \<and> (\<forall>s \<in> set ss. filled v' s (scope_list v s)) \<and> (\<forall>s x. s \<notin> set ss \<longrightarrow> entry v' x s = entry v x s)"
  using assms
proof (induction ss arbitrary: v)
  case Nil
  then show ?case by simp
next
  case (Cons s ss)
  have empty: "filled v s []" using Cons.prems(2) by (simp add: filled_def ordered_def)
  obtain w where w: "update_scopes strtod (vars_updater strtod n) True ss w = Inr (r, v')" "same_names v w"
      "filled w s (scope_list v s)" "\<And>x t. t \<noteq> s \<Longrightarrow> entry w x t = entry v x t"
  proof (cases "current_doc v s")
    case None
    show ?thesis
      by (rule that [of v]) (use None Cons.prems(4) empty in \<open>simp_all add: scope_list_def\<close>)
  next
    case (Some d)
    then obtain u where u: "insert_params strtod (vars_updater strtod n) (d_dict (documents v d)) v = Inr ((), u)"
        "update_scopes strtod (vars_updater strtod n) True ss (u\<lparr>cache_docs := (cache_docs u)(s := Some d)\<rparr>) = Inr (r, v')"
      using Cons.prems(4) by (auto simp: vthen_Inr_conv)
    have "opened v s d" using Cons.prems(1) Some by (simp add: well_opened_def)
    from insert_params_fill [OF this, of "[]", simplified, OF refl empty u(1)]
    have k: "filled u s (d_dict (documents v d))" "\<forall>x t. t \<noteq> s \<longrightarrow> entry u x t = entry v x t" "same_names v u" by auto
    show ?thesis
      by (rule that [OF u(2)])
        (use k Some in \<open>simp_all add: scope_list_def filled_eq [of "u\<lparr>cache_docs := f\<rparr>" s u for f]\<close>,
         simp add: filled_def ordered_def get_weight_entry var_name_def param_scope_def)
  qed
  have "same_names w v' \<and> (\<forall>t \<in> set ss. filled v' t (scope_list w t)) \<and> (\<forall>t x. t \<notin> set ss \<longrightarrow> entry v' x t = entry w x t)"
  proof (rule Cons.IH [OF _ _ _ w(1)])
    show "entry w x t = None" if "t \<in> set ss" for t x
      using Cons.prems(2,3) w(4) [of t x] that by (cases "t = s") auto
  qed (use Cons.prems w in \<open>auto simp: well_opened_same_names\<close>)
  moreover from this have "filled v' s (scope_list v s)"
    using Cons.prems(1,3) w(2,3) scope_list_scope [OF Cons.prems(1)]
    by (subst filled_eq [of v' s w]) (auto simp: same_names_eqs)
  ultimately show ?case
    using w(2,4) same_names_trans by (auto simp: same_names_scope_list)
qed

lemma defined_entry: "defined_in (vtab v) s x \<longleftrightarrow> entry v x s \<noteq> None"
  by (auto simp: defined_in_def entry_def table_part_def split: option.splits)

lemma filled_distinct:
  assumes "filled v s xs" "\<And>p. p \<in> set xs \<Longrightarrow> param_scope v p = s"
  shows "inj_on (weight_of (vtab v) s) {x. defined_in (vtab v) s x}"
proof (rule inj_onI)
  have weight: "\<exists>p \<in> set xs. x = var_name p v \<and> weight_of (vtab v) s x = get_weight p v" if "defined_in (vtab v) s x" for x
  proof -
    have e: "entry v x s \<noteq> None" using that by (simp add: defined_entry)
    then obtain p where p: "p \<in> set xs" "x = var_name p v" using assms(1) by (auto simp: filled_def)
    moreover have "weight_of (vtab v) s x = get_weight p v"
      using that p assms(2) by (auto simp: defined_in_def weight_of_def get_weight_def)
    ultimately show ?thesis by blast
  qed
  fix x y assume xy: "x \<in> {x. defined_in (vtab v) s x}" "y \<in> {x. defined_in (vtab v) s x}"
    "weight_of (vtab v) s x = weight_of (vtab v) s y"
  obtain p q where pq: "p \<in> set xs" "q \<in> set xs" "x = var_name p v" "y = var_name q v" "get_weight p v = get_weight q v"
    using weight [of x] weight [of y] xy by auto
  have "distinct (map (\<lambda>p. get_weight p v) xs)"
    using assms(1) by (auto simp: filled_def ordered_def strict_sorted_iff)
  then show "x = y" using pq by (auto simp: distinct_map inj_on_def)
qed

lemma filled_defined:
  assumes "filled v s xs" "\<And>p. p \<in> set xs \<Longrightarrow> param_scope v p = s"
  shows "{x. defined_in (vtab v) s x} = (\<lambda>p. var_name p v) ` set xs"
proof
  show "{x. defined_in (vtab v) s x} \<subseteq> (\<lambda>p. var_name p v) ` set xs"
    using assms(1) by (auto simp: defined_entry filled_def)
  show "(\<lambda>p. var_name p v) ` set xs \<subseteq> {x. defined_in (vtab v) s x}"
  proof clarsimp
    fix p assume p: "p \<in> set xs"
    then have "0 < get_weight p v" using assms(1) by (auto simp: filled_def ordered_def)
    then show "defined_in (vtab v) s (var_name p v)"
      using assms(2) [OF p] by (auto simp: get_weight_entry defined_entry split: option.splits)
  qed
qed

text \<open>
  C37: once the documents were read anew, the table has in every scope the variables of the dictionary of the
  open document and no others, and their weights are positive and increase along the dictionary. So no two variables of
  a scope have the same weight, and from then on the check of the references of any expression ends, whatever the
  variables refer to, also where they refer to each other in a circle.
\<close>

theorem reread_orders_variables:
  assumes "typed v" "well_opened v"
    and "gebr_validator_force_update strtod (gebr_validator_update_vars strtod n) v = Inr (r, v')"
  shows "(\<forall>t \<in> {PROJECT, LINE, FLOW}. {x. defined_in (vtab v') t x} = (\<lambda>p. var_name p v) ` set (scope_list v t) \<and>
      sorted_wrt (<) (0 # map (\<lambda>p. get_weight p v') (scope_list v t))) \<and>
    weights_distinct (vtab v') \<and>
    (\<exists>e. get_error_indirect (vtab v') (param_scope v') (param_type v') deps me ty s = Some e)"
proof -
  let ?w = "v\<lparr>vtab := Map.empty\<rparr>"
  have names: "same_names v ?w" by (simp add: same_names_def)
  have up: "update_scopes strtod (vars_updater strtod n) True [PROJECT, LINE, FLOW] ?w = Inr (r, v')"
    using assms(3) by (simp only: gebr_validator_force_update_def)
  have empty: "entry ?w x t = None" for x t by (simp add: entry_def table_part_def)
  have "well_opened ?w" using assms(2) well_opened_same_names [OF names] by simp
  from update_scopes_fill [OF this _ _ up] empty
  have fill: "same_names ?w v'" "\<forall>t \<in> {PROJECT, LINE, FLOW}. filled v' t (scope_list ?w t)"
      "\<forall>t x. t \<notin> {PROJECT, LINE, FLOW} \<longrightarrow> entry v' x t = None"
    by auto
  have lists: "scope_list ?w t = scope_list v t" for t by (rule same_names_scope_list [OF names])
  have scope: "param_scope v' p = t" if "p \<in> set (scope_list ?w t)" for p t
    using scope_list_scope [OF \<open>well_opened ?w\<close> that] same_names_eqs(2) [OF fill(1)] by simp
  have "inj_on (weight_of (vtab v') t) {x. defined_in (vtab v') t x}" for t
  proof (cases "t \<in> {PROJECT, LINE, FLOW}")
    case True
    then show ?thesis using filled_distinct [of v' t "scope_list ?w t"] fill(2) scope by blast
  next
    case False
    then have "{x. defined_in (vtab v') t x} = {}"
      using fill(3) by (simp add: defined_entry)
    then show ?thesis by simp
  qed
  then have distinct: "weights_distinct (vtab v')" by (simp add: weights_distinct_def)
  moreover have "\<exists>e. get_error_indirect (vtab v') (param_scope v') (param_type v') deps me ty s = Some e"
    using references_end typed_table update_scopes_typed [OF typed_empty [OF assms(1)] up] distinct by simp
  moreover have "{x. defined_in (vtab v') t x} = (\<lambda>p. var_name p v) ` set (scope_list v t) \<and>
      sorted_wrt (<) (0 # map (\<lambda>p. get_weight p v') (scope_list v t))" if "t \<in> {PROJECT, LINE, FLOW}" for t
  proof
    have f: "filled v' t (scope_list v t)" using fill(2) that unfolding lists by blast
    have "var_name p v' = var_name p v" for p using same_names_eqs(1) [OF fill(1)] same_names_eqs(1) [OF names] by simp
    then show "{x. defined_in (vtab v') t x} = (\<lambda>p. var_name p v) ` set (scope_list v t)"
      using filled_defined [OF f] scope lists by simp
    show "sorted_wrt (<) (0 # map (\<lambda>p. get_weight p v') (scope_list v t))"
      using f by (simp add: filled_def ordered_def)
  qed
  ultimately show ?thesis by blast
qed

section \<open>Examples\<close>

lemma text_dict: "dictionary 0 text_added = [0]" "var_name 0 text_added = ''x''" "vtab text_added = Map.empty"
  "current_doc text_added s = (if s = 0 then Some 0 else None)" "d_dict (documents text_added 0) = [0]"
  by (simp_all add: text_added_def set_dict_keyword_def blank_validator_def Let_def set_dict_def dictionary_def var_name_def
      current_doc_def get_document_def)

theorem insert_keeps_order_witness: "\<exists>v'. ordered [0] v'"
proof -
  obtain r v' where "gebr_validator_insert (\<lambda>_. 0) (gebr_validator_update_vars (\<lambda>_. 0) 2) 0 text_added = Inr (r, v')"
    using text_inserted by blast
  from insert_keeps_order [of "[]" "[]", OF _ _ _ _ this] show ?thesis
    by (auto simp: text_dict ordered_def)
qed

lemma text_typed: "typed text_added"
  by (auto simp: typed_def text_added_def set_dict_keyword_def blank_validator_def Let_def set_dict_def slot_def)

lemma text_opened: "well_opened text_added"
  by (auto simp: well_opened_def opened_def text_dict split: if_splits)
    (simp_all add: text_added_def set_dict_keyword_def blank_validator_def Let_def set_dict_def)

theorem reread_orders_variables_witness:
  "\<exists>v' e. gebr_validator_force_update (\<lambda>_. 0) (vars_updater (\<lambda>_. 0) 2) text_added = Inr ((), v') \<and>
     {x. defined_in (vtab v') FLOW x} = {''x''} \<and> 0 < get_weight 0 v' \<and>
     get_error_indirect (vtab v') (param_scope v') (param_type v') [''x'', ''y''] None GEBR_GEOXML_PARAMETER_TYPE_STRING FLOW = Some e"
proof -
  obtain r v' where "gebr_validator_insert (\<lambda>_. 0) (vars_updater (\<lambda>_. 0) 2) 0 text_added = Inr (r, v')"
    using text_inserted by blast
  moreover have same: "text_added\<lparr>vtab := Map.empty\<rparr> = text_added" using text_dict(3) by simp
  ultimately have up: "gebr_validator_force_update (\<lambda>_. 0) (vars_updater (\<lambda>_. 0) 2) text_added =
      Inr ((), v'\<lparr>cache_docs := (cache_docs v')(0 := Some 0)\<rparr>)"
    unfolding gebr_validator_force_update_def same by (simp add: text_dict)
  have "scope_list text_added FLOW = [0]" by (simp add: scope_list_def text_dict)
  with reread_orders_variables [OF text_typed text_opened up, of "[''x'', ''y'']" None GEBR_GEOXML_PARAMETER_TYPE_STRING FLOW] up
  show ?thesis by (auto simp: text_dict(2))
qed

end
