(* ===== verification/Validator_Depth.thy ===== *)
theory Validator_Depth
  imports Validator_Order
begin

text \<open>
  The depth of the recursion of \<open>gebr_validator_update_vars\<close>. Defining the variables of a flow with a loop
  evaluates the expressions of the loop, which defines the variables of the line, where there is no
  loop; a dictionary holds numbers and texts and no paths, whose check would evaluate again. So two levels are
  enough.
\<close>

definition no_files :: "validator \<Rightarrow> bool" where
  "no_files v \<longleftrightarrow> (\<forall>s. \<forall>p \<in> set (scope_list v s). param_type v p \<noteq> GEBR_GEOXML_PARAMETER_TYPE_FILE)"

lemma no_filesD: "no_files v \<Longrightarrow> \<forall>p \<in> set (scope_list v s). param_type v p \<noteq> GEBR_GEOXML_PARAMETER_TYPE_FILE"
  by (simp add: no_files_def)

lemma scope_list_doc: "current_doc v s = Some d \<Longrightarrow> scope_list v s = d_dict (documents v d)"
  by (simp add: scope_list_def)

lemma no_files_shape:
  assumes "same_shape v v'"
  shows "no_files v' = no_files v"
proof -
  note eqs = same_names_eqs [OF same_shape_names [OF assms]]
  show ?thesis unfolding no_files_def same_names_scope_list [OF same_shape_names [OF assms]] eqs(7) ..
qed

lemma vthen_cong: "m = m' \<Longrightarrow> (\<And>a v. m = Inr (a, v) \<Longrightarrow> f a v = f' a v) \<Longrightarrow> vthen m f = vthen m' f'"
  by (auto simp: vthen_def split: sum.splits)

text \<open>Two continuations that agree on the states that keep the shape.\<close>

lemma vthen_keeps_cong:
  assumes "m = m'" "keeps u m" "\<And>a v. same_shape u v \<Longrightarrow> f a v = f' a v"
  shows "vthen m f = vthen m' f'"
  using assms by (intro vthen_cong) (auto dest: keepsD)

lemma check_expression_no_file:
  assumes "ty \<noteq> GEBR_GEOXML_PARAMETER_TYPE_FILE"
  shows "check_expression pc name e ty s dst v = check_expression pc' name e ty s dst v"
proof -
  have eq: "check_text pc name e ty s vars v = check_text pc' name e ty s vars v" for vars v
    unfolding check_text_def if_not_P [OF assms] ..
  show ?thesis unfolding check_expression_def eq ..
qed

lemma evaluate_with_no_file:
  assumes "ty \<noteq> GEBR_GEOXML_PARAMETER_TYPE_FILE" "u1 s t v = u2 s t v"
  shows "evaluate_with pc u1 e ty s i t v = evaluate_with pc' u2 e ty s i t v"
  unfolding evaluate_with_def assms(2) check_expression_no_file [OF assms(1), of pc _ _ _ _ _ pc'] ..

lemma define_validate_no_file:
  "ty \<noteq> GEBR_GEOXML_PARAMETER_TYPE_FILE \<Longrightarrow>
   define_validate_and_extract_vars u1 name e ty s dst v = define_validate_and_extract_vars u2 name e ty s dst v"
  unfolding define_validate_and_extract_vars_def by (rule check_expression_no_file)

lemma extract_param_no_file:
  "param_type v p \<noteq> GEBR_GEOXML_PARAMETER_TYPE_FILE \<Longrightarrow>
   validate_and_extract_param u1 p dst v = validate_and_extract_param u2 p dst v"
  by (simp add: validate_and_extract_param_def Let_def define_validate_no_file [of _ u1 _ _ _ _ _ u2])

lemma param_type_shape: "same_shape u v \<Longrightarrow> param_type v p = param_type u p"
  by (simp add: same_shape_def param_type_def)

definition agree_on_line :: "updater \<Rightarrow> updater \<Rightarrow> bool" where
  "agree_on_line u1 u2 \<longleftrightarrow> (\<forall>t v. no_files v \<longrightarrow> u1 LINE t v = u2 LINE t v)"

lemma agree_on_lineD: "agree_on_line u1 u2 \<Longrightarrow> no_files v \<Longrightarrow> u1 LINE t v = u2 LINE t v"
  by (simp add: agree_on_line_def)

context var_updater
begin

lemma recheck_cong:
  assumes "\<forall>p \<in> set ps. param_type u p \<noteq> GEBR_GEOXML_PARAMETER_TYPE_FILE" "same_shape u v"
  shows "recheck_numbers upd ps v = recheck_numbers upd2 ps v"
  using assms
proof (induction ps arbitrary: v)
  case (Cons p ps)
  have "vthen (validate_and_extract_param upd p None v) (\<lambda>_ v. recheck_numbers upd ps v) =
      vthen (validate_and_extract_param upd2 p None v) (\<lambda>_ v. recheck_numbers upd2 ps v)"
    using Cons
    by (intro vthen_keeps_cong [where u = u] extract_param_no_file extract_param_keeps) (auto simp: param_type_shape)
  then show ?case using Cons by simp
qed simp

lemma define_param_cong:
  assumes "param_type v p \<noteq> GEBR_GEOXML_PARAMETER_TYPE_FILE"
  shows "define_param upd hi s p prog v = define_param upd2 hi s p prog v"
proof -
  note eqs = define_validate_no_file [OF assms, of upd _ _ _ _ _ upd2] extract_param_no_file [of v p upd None upd2, OF assms]
  show ?thesis
    unfolding define_param_def Let_def
    by (cases "vtab v (var_name p v)"; cases prog) (auto simp: eqs intro!: vthen_cong dest!: references_error_state)
qed

lemma define_params_cong:
  assumes "\<forall>p \<in> set ps. param_type u p \<noteq> GEBR_GEOXML_PARAMETER_TYPE_FILE" "same_shape u v"
  shows "define_params upd hi s ps prog v = define_params upd2 hi s ps prog v"
  using assms
proof (induction ps arbitrary: prog v)
  case (Cons p ps)
  show ?case unfolding define_params.simps
    using Cons by (intro vthen_keeps_cong [where u = u] define_param_cong define_param_keeps) (auto simp: param_type_shape)
qed simp

lemma define_scopes_cong:
  assumes "no_files v"
  shows "define_scopes upd hi ss prog v = define_scopes upd2 hi ss prog v"
  using assms
proof (induction ss arbitrary: prog v)
  case (Cons s ss)
  have IH: "define_scopes upd hi ss prog w = define_scopes upd2 hi ss prog w" if "same_shape v w" for prog w
    using Cons no_files_shape [OF that] by simp
  show ?case
  proof (cases "current_doc v s")
    case None
    then show ?thesis using Cons by simp
  next
    case (Some d)
    then have "\<forall>p \<in> set (d_dict (documents v d)). param_type v p \<noteq> GEBR_GEOXML_PARAMETER_TYPE_FILE"
      using no_filesD [OF Cons.prems, of s] scope_list_doc by metis
    then show ?thesis using Some
      by (auto intro!: vthen_keeps_cong [where u = v] define_params_cong [where u = v] define_params_keeps IH)
  qed
qed simp

text \<open>A loop is checked with the variables of the line only.\<close>

lemma controls_cong:
  assumes "agree_on_line upd upd2" "no_files v"
  shows "check_controls strtod upd i xs v = check_controls strtod upd2 i xs v"
  using assms(2)
proof (induction xs arbitrary: i v)
  case (Cons x xs)
  have ev: "gebr_validator_evaluate upd e GEBR_GEOXML_PARAMETER_TYPE_FLOAT LINE True v =
      gebr_validator_evaluate upd2 e GEBR_GEOXML_PARAMETER_TYPE_FLOAT LINE True v" for e
    unfolding gebr_validator_evaluate_def gebr_validator_evaluate_interval_def
    by (intro evaluate_with_no_file agree_on_lineD [OF assms(1)] Cons.prems) simp
  then have cp: "gebr_validator_validate_control_parameter strtod upd name e v =
      gebr_validator_validate_control_parameter strtod upd2 name e v" for name e
    by (simp add: gebr_validator_validate_control_parameter_def)
  show ?case unfolding check_controls.simps
    by (rule vthen_keeps_cong [where u = v, OF cp control_parameter_keeps [OF same_shape_refl]])
      (use Cons no_files_shape in \<open>auto split: prod.splits\<close>)
qed simp

lemma iter_cong:
  assumes "agree_on_line upd upd2" "no_files v"
    "param_type v p \<noteq> GEBR_GEOXML_PARAMETER_TYPE_FILE"
  shows "gebr_validator_validate_iter strtod upd p v = gebr_validator_validate_iter strtod upd2 p v"
proof -
  have "vthen (define_validate_and_extract_vars upd None e (param_type v p) LINE dst v)
        (\<lambda>_ w. vthen (check_controls strtod upd 0 (xs w) w) g) =
      vthen (define_validate_and_extract_vars upd2 None e (param_type v p) LINE dst v)
        (\<lambda>_ w. vthen (check_controls strtod upd2 0 (xs w) w) g)"
    for e dst xs and g :: "(nat \<times> gerror) option \<Rightarrow> validator \<Rightarrow> (bool \<times> gerror option) checked"
  proof (rule vthen_keeps_cong [where u = v])
    fix w assume "same_shape v w"
    then have "no_files w" using assms(2) no_files_shape by blast
    then have "check_controls strtod upd 0 (xs w) w = check_controls strtod upd2 0 (xs w) w" by (rule controls_cong [OF assms(1)])
    then show "vthen (check_controls strtod upd 0 (xs w) w) g = vthen (check_controls strtod upd2 0 (xs w) w) g" by (rule arg_cong)
  qed (use assms(3) in \<open>auto intro!: define_validate_no_file define_validate_keeps\<close>)
  note eq = this
  show ?thesis
  proof (cases "vtab v ''iter''")
    case (Some d)
    show ?thesis unfolding gebr_validator_validate_iter_def Some option.case
      by (rule eq)
  qed (simp add: gebr_validator_validate_iter_def)
qed

lemma check_loop_cong:
  assumes "s = FLOW \<Longrightarrow> agree_on_line upd upd2" "no_files v"
  shows "check_loop strtod upd s v = check_loop strtod upd2 s v"
proof (cases "s = FLOW \<and> (\<exists>d p ps. current_doc v FLOW = Some d \<and> d_dict (documents v d) = p # ps)")
  case False
  then show ?thesis by (auto simp: check_loop_def split: option.splits list.splits)
next
  case True
  then obtain d p ps where d: "s = FLOW" "current_doc v FLOW = Some d" "d_dict (documents v d) = p # ps" by blast
  then have nf: "\<forall>q \<in> set (p # ps). param_type v q \<noteq> GEBR_GEOXML_PARAMETER_TYPE_FILE"
    using no_filesD [OF assms(2), of FLOW] scope_list_doc by metis
  have rest: "vthen (recheck_numbers upd ps w) g = vthen (recheck_numbers upd2 ps w) g" if "same_shape v w" for w and g :: "unit \<Rightarrow> validator \<Rightarrow> bool checked"
    using nf that by (intro arg_cong [where f = "\<lambda>m. vthen m g"] recheck_cong) auto
  have inner: "vthen (validate_and_extract_param upd p None w) (\<lambda>(ok, _) v.
        if ok then vthen (recheck_numbers upd ps v) (\<lambda>_ v. Inr (True, v)) else Inr (True, v)) =
      vthen (validate_and_extract_param upd2 p None w) (\<lambda>(ok, _) v.
        if ok then vthen (recheck_numbers upd2 ps v) (\<lambda>_ v. Inr (True, v)) else Inr (True, v))" if "same_shape v w" for w
    using nf that
    by (intro vthen_keeps_cong [where u = v, OF extract_param_no_file extract_param_keeps])
      (auto simp: param_type_shape rest split: prod.splits)
  have "vthen (gebr_validator_validate_iter strtod upd p v) (\<lambda>(ok, _) w. if \<not> ok then Inr (True, w)
        else vthen (validate_and_extract_param upd p None w) (\<lambda>(ok, _) v.
          if ok then vthen (recheck_numbers upd ps v) (\<lambda>_ v. Inr (True, v)) else Inr (True, v))) =
      vthen (gebr_validator_validate_iter strtod upd2 p v) (\<lambda>(ok, _) w. if \<not> ok then Inr (True, w)
        else vthen (validate_and_extract_param upd2 p None w) (\<lambda>(ok, _) v.
          if ok then vthen (recheck_numbers upd2 ps v) (\<lambda>_ v. Inr (True, v)) else Inr (True, v)))"
  proof (rule vthen_keeps_cong [where u = v, OF iter_cong validate_iter_keeps])
    show "agree_on_line upd upd2" by (rule assms(1) [OF d(1)])
  qed (use assms(2) nf in \<open>auto simp: inner split: prod.splits\<close>)
  then show ?thesis unfolding check_loop_def d(1,2) using d(3) by simp
qed

lemma body_cong:
  assumes "s = FLOW \<Longrightarrow> agree_on_line upd upd2" "no_files v"
  shows "update_vars_body strtod upd s t v = update_vars_body strtod upd2 s t v"
proof -
  have "vthen (check_loop strtod upd s v) (\<lambda>hi v. vthen (define_scopes upd hi ss prog v) g) =
      vthen (check_loop strtod upd2 s v) (\<lambda>hi v. vthen (define_scopes upd2 hi ss prog v) g)"
    for ss prog and g :: "bc_program \<Rightarrow> validator \<Rightarrow> bool checked"
  proof (rule vthen_keeps_cong [where u = v, OF check_loop_cong [OF assms] check_loop_keeps])
    fix hi w assume "same_shape v w"
    then have "no_files w" using assms(2) no_files_shape by blast
    from define_scopes_cong [OF this, of hi ss prog upd2]
    show "vthen (define_scopes upd hi ss prog w) g = vthen (define_scopes upd2 hi ss prog w) g" by (rule arg_cong)
  qed simp_all
  then show ?thesis unfolding update_vars_body_def by simp
qed

end

text \<open>
  Defining the variables of a scope needs no more than two levels of recursion, so that it never runs out
  of the bound, when the dictionaries hold no paths.
\<close>

theorem update_vars_depth:
  assumes "no_files v"
  shows "gebr_validator_update_vars strtod (Suc (Suc n)) s t v = gebr_validator_update_vars strtod 2 s t v"
proof -
  have one: "update_vars_body strtod (gebr_validator_update_vars strtod m) LINE t v =
      update_vars_body strtod (gebr_validator_update_vars strtod 0) LINE t v" if "no_files v" for m t v
    by (rule vars.body_cong [OF _ that]) simp
  have "agree_on_line (gebr_validator_update_vars strtod (Suc n)) (gebr_validator_update_vars strtod (Suc 0))"
    unfolding agree_on_line_def gebr_validator_update_vars.simps(2) using one by blast
  then have "update_vars_body strtod (gebr_validator_update_vars strtod (Suc n)) s t v =
      update_vars_body strtod (gebr_validator_update_vars strtod (Suc 0)) s t v"
    by (rule vars.body_cong [OF _ assms])
  then show ?thesis by (simp only: numeral_2_eq_2 gebr_validator_update_vars.simps(2))
qed

theorem update_vars_depth_witness:
  "gebr_validator_update_vars (\<lambda>_. 0) (Suc (Suc 7)) 0 True text_added = gebr_validator_update_vars (\<lambda>_. 0) 2 0 True text_added"
  by (rule update_vars_depth)
    (auto simp: no_files_def scope_list_def text_dict param_type_def text_added_def set_dict_keyword_def blank_validator_def
      Let_def set_dict_def current_doc_def get_document_def split: if_splits)

section \<open>A move to a scope without a document\<close>

lemma slot_removed:
  "slot v x s = Some p \<Longrightarrow> slot (snd (hash_data_remove x s v)) x s = None"
  by (auto simp: hash_data_remove_def slot_def Let_def split: option.splits)

text \<open>
  Moving a variable to a scope whose document variable is set but empty reports success and
  loses the variable: it is taken out of the table and of its dictionary, and there is no copy.
\<close>

theorem move_without_document_loses:
  assumes "slot v (var_name src v) (param_scope v src) = Some src" "slot v (var_name src v) t = None"
    and "get_document v t \<noteq> None" "current_doc v t = None" "distinct (dictionary src v)"
  shows "\<exists>v'. gebr_validator_move strtod upd src pivot t v = Inr ((None, True, None), v') \<and>
    slot v' (var_name src v) (param_scope v src) = None \<and> src \<notin> set (dictionary src v')"
proof -
  let ?v = "move_source (var_name src v) (param_scope v src) t src v"
  let ?w = "snd (hash_data_remove (var_name src v) (param_scope v src) v)"
  have t: "param_scope v src \<noteq> t" using assms(1,2) by auto
  have heap: "documents ?w = documents v" "params ?w = params v"
    by (auto simp: hash_data_remove_def Let_def split: option.splits)
  have "gebr_validator_move strtod upd src pivot t v = Inr ((None, True, None), ?v)"
    using assms t
    by (auto simp: gebr_validator_move_def Let_def slot_def move_copy_def place_copy_def split: option.splits)
  moreover have "slot ?v (var_name src v) (param_scope v src) = None"
    using slot_removed [OF assms(1)] t by (simp add: move_source_def Let_def set_dict_def slot_def)
  moreover have "src \<notin> set (dictionary src ?v)"
    using assms(5) t heap by (simp add: move_source_def Let_def set_dict_def dictionary_def)
  ultimately show ?thesis by blast
qed

theorem move_without_document_witness:
  "\<exists>v'. gebr_validator_move (\<lambda>_. 0) (vars_updater (\<lambda>_. 0) 2) 0 None 1 (place_param 0 text_added) = Inr ((None, True, None), v') \<and>
    slot v' ''x'' 0 = None \<and> 0 \<notin> set (dictionary 0 v')"
proof -
  let ?v = "place_param 0 text_added"
  have v: "var_name 0 ?v = ''x''" "param_scope ?v 0 = 0" "slot ?v ''x'' 0 = Some 0" "slot ?v ''x'' 1 = None"
    "get_document ?v 1 = Some 1" "current_doc ?v 1 = None" "dictionary 0 ?v = [0]"
    by (simp_all add: place_param_def text_added_def set_dict_keyword_def blank_validator_def Let_def set_dict_def slot_def
        var_name_def param_scope_def hash_data_new_from_xml_def get_document_def current_doc_def dictionary_def)
  then show ?thesis
    using move_without_document_loses [of ?v 0 1 "\<lambda>_. 0" "vars_updater (\<lambda>_. 0) 2" None] by simp
qed

end
