(* ===== verification/Decimals.thy ===== *)
theory Decimals
  imports Complex_Main Prelude
begin

text \<open>
  Numbers with a fraction as C writes and reads them: \<open>%f\<close> of \<open>printf\<close> and \<open>strtod\<close>. A \<open>gdouble\<close> is an exact rational
  number here: what the machine loses in binary is not in the model, what the six decimals of \<open>%f\<close> lose is. \<open>strtod\<close>
  reads decimal texts with an optional exponent; hexadecimal numbers, infinities and
  texts that are no number at all do not come from \<open>bc\<close> nor from \<open>printf\<close>.
\<close>

section \<open>Six decimals\<close>

text \<open>To the nearest integer, and to the even one of two that are equally near.\<close>

definition round_even :: "rat \<Rightarrow> int" where
  "round_even x =
     (let k = \<lfloor>x\<rfloor>; d = x - of_int k in if d < 1 / 2 \<or> (d = 1 / 2 \<and> even k) then k else k + 1)"

fun fixed_digits :: "nat \<Rightarrow> nat \<Rightarrow> string" where
  "fixed_digits 0 n = []"
| "fixed_digits (Suc k) n = fixed_digits k (n div 10) @ [digit_char (n mod 10)]"

definition show_f :: "rat \<Rightarrow> string" where
  "show_f r =
     (let m = nat (round_even (\<bar>r\<bar> * 10 ^ 6)) in
      (if r < 0 then ''-'' else []) @ show_nat (m div 10 ^ 6) @ ''.'' @ fixed_digits 6 m)"

section \<open>Reading\<close>

text \<open>The exponent, when the text goes on with one.\<close>

definition read_exponent :: "string \<Rightarrow> int" where
  "read_exponent s =
     (case s of
        [] \<Rightarrow> 0
      | c # r \<Rightarrow>
          if (c = CHR ''e'' \<or> c = CHR ''E'') \<and> r \<noteq> [] \<and>
             (is_digit (hd r) \<or> (hd r = CHR ''+'' \<or> hd r = CHR ''-'') \<and> tl r \<noteq> [] \<and> is_digit (hd (tl r)))
          then strtol10 r else 0)"

definition read_magnitude :: "string \<Rightarrow> rat" where
  "read_magnitude s =
     (let a = takeWhile is_digit s; r = dropWhile is_digit s;
          dot = (r \<noteq> [] \<and> hd r = CHR ''.'');
          b = (if dot then takeWhile is_digit (tl r) else []);
          rest = (if dot then dropWhile is_digit (tl r) else r)
      in if a @ b = [] then 0
         else of_nat (fst (read_digits 0 (a @ b))) / 10 ^ length b * power_int 10 (read_exponent rest))"

definition g_strtod :: "string \<Rightarrow> rat" where
  "g_strtod s =
     (case dropWhile is_space s of
        [] \<Rightarrow> 0
      | c # r \<Rightarrow>
          if c = CHR ''-'' then - read_magnitude r
          else if c = CHR ''+'' then read_magnitude r
          else read_magnitude (c # r))"

section \<open>What is read back\<close>

lemma round_even_near: "\<bar>of_int (round_even x) - x\<bar> \<le> 1 / 2"
proof -
  have "of_int \<lfloor>x\<rfloor> \<le> x" "x < of_int \<lfloor>x\<rfloor> + 1" by linarith+
  then show ?thesis by (auto simp: round_even_def Let_def abs_le_iff)
qed

lemma round_even_int [simp]: "round_even (of_int k) = k"
  by (simp add: round_even_def)

lemma round_even_nonneg: "0 \<le> x \<Longrightarrow> 0 \<le> round_even x"
  by (simp add: round_even_def Let_def)

lemma fixed_digits_digits: "\<forall>c \<in> set (fixed_digits k n). is_digit c"
  by (induction k arbitrary: n) auto

lemma length_fixed_digits [simp]: "length (fixed_digits k n) = k"
  by (induction k arbitrary: n) auto

lemma read_fixed_digits: "fst (read_digits a (fixed_digits k n)) = a * 10 ^ k + n mod 10 ^ k"
proof (induction k arbitrary: n)
  case (Suc k)
  have "fst (read_digits a (fixed_digits (Suc k) n)) = 10 * (a * 10 ^ k + n div 10 mod 10 ^ k) + n mod 10"
    using read_digits_snoc [OF fixed_digits_digits [of k "n div 10"], of "digit_char (n mod 10)" a]
    by (simp add: Suc.IH code_digit_char)
  then show ?case by (simp add: mod_mult2_eq algebra_simps)
qed simp

text \<open>The number that \<open>%f\<close> writes.\<close>

definition six_places :: "rat \<Rightarrow> rat" where
  "six_places r = (if r < 0 then - 1 else 1) * (of_int (round_even (\<bar>r\<bar> * 10 ^ 6)) / 10 ^ 6)"

lemma show_f_ne [simp]: "show_f r \<noteq> []"
  by (simp add: show_f_def Let_def)

lemma read_point:
  assumes "\<forall>c \<in> set b. is_digit c"
  shows "read_magnitude (show_nat p @ CHR ''.'' # b) = of_nat (fst (read_digits 0 (show_nat p @ b))) / 10 ^ length b"
proof -
  have stop: "\<not> is_digit (CHR ''.'')" by (simp add: is_digit_def code_def)
  have a: "takeWhile is_digit (show_nat p @ CHR ''.'' # b) = show_nat p"
    "dropWhile is_digit (show_nat p @ CHR ''.'' # b) = CHR ''.'' # b"
    using stop show_nat_digits by (simp_all add: takeWhile_append dropWhile_append)
  have b: "takeWhile is_digit b = b" "dropWhile is_digit b = []"
    using assms by (simp_all add: takeWhile_eq_all_conv dropWhile_eq_Nil_conv)
  show ?thesis by (simp add: read_magnitude_def a b Let_def read_exponent_def)
qed

lemma read_fixed_point:
  "read_magnitude (show_nat (m div 10 ^ 6) @ ''.'' @ fixed_digits 6 m) = of_nat m / 10 ^ 6"
proof -
  let ?a = "show_nat (m div 10 ^ 6)" and ?b = "fixed_digits 6 m"
  have "fst (read_digits 0 (?a @ ?b)) = m div 10 ^ 6 * 10 ^ 6 + m mod 10 ^ 6"
    by (subst read_digits_append) (simp_all only: show_nat_digits fst_read_show_nat read_fixed_digits ball_simps, blast intro: show_nat_digits)
  then have "fst (read_digits 0 (?a @ ?b)) = m" by (simp only: div_mult_mod_eq)
  then show ?thesis
    using read_point [OF fixed_digits_digits, of "m div 10 ^ 6" 6 m] by (simp only: append_Cons append_Nil length_fixed_digits)
qed

lemma read_show_f: "g_strtod (show_f r) = six_places r"
proof -
  let ?m = "nat (round_even (\<bar>r\<bar> * 10 ^ 6))"
  let ?t = "show_nat (?m div 10 ^ 6) @ ''.'' @ fixed_digits 6 ?m"
  have m: "(of_nat ?m :: rat) = of_int (round_even (\<bar>r\<bar> * 10 ^ 6))"
    by (rule of_nat_nat, rule round_even_nonneg) simp
  have minus: "\<not> is_space (CHR ''-'')" by (simp add: is_space_def code_def)
  obtain c u where cu: "?t = c # u" "is_digit c"
    using hd_show_nat [of "?m div 10 ^ 6"] by (cases "show_nat (?m div 10 ^ 6)") auto
  show ?thesis
  proof (cases "r < 0")
    case True
    then have "show_f r = CHR ''-'' # ?t" by (simp add: show_f_def Let_def)
    then have "g_strtod (show_f r) = - read_magnitude ?t" using minus by (simp add: g_strtod_def)
    then show ?thesis using True m by (simp only: read_fixed_point six_places_def) simp
  next
    case False
    then have "show_f r = ?t" by (simp add: show_f_def Let_def)
    then have "g_strtod (show_f r) = read_magnitude ?t"
      using cu digit_not_space digit_not_sign by (simp add: g_strtod_def)
    then show ?thesis using False m by (simp only: read_fixed_point six_places_def) simp
  qed
qed

lemma six_places_near: "\<bar>six_places r - r\<bar> \<le> 1 / 2000000"
proof -
  let ?k = "of_int (round_even (\<bar>r\<bar> * 10 ^ 6)) :: rat"
  have near: "\<bar>?k - \<bar>r\<bar> * 10 ^ 6\<bar> \<le> 1 / 2" by (rule round_even_near)
  then have "\<bar>?k / 10 ^ 6 - \<bar>r\<bar>\<bar> \<le> 1 / 2000000" by (simp add: abs_le_iff field_simps)
  then show ?thesis by (cases "r < 0") (simp_all only: six_places_def if_True if_False abs_le_iff, linarith+)
qed

lemma six_places_exact:
  assumes "r * 10 ^ 6 \<in> \<int>"
  shows "six_places r = r"
proof -
  have "\<bar>r\<bar> * 10 ^ 6 \<in> \<int>" using assms by (auto simp: abs_if)
  then obtain k where k: "\<bar>r\<bar> * 10 ^ 6 = of_int k" by (auto elim: Ints_cases)
  then have "\<bar>r\<bar> = of_int k / 10 ^ 6" by (simp add: field_simps)
  then show ?thesis unfolding six_places_def k by (auto simp: abs_if split: if_splits)
qed

end
