(* ===== verification/Geoxml_Flow.thy ===== *)
theory Geoxml_Flow
  imports Validator_Vars Decimals
begin

text \<open>
  Flows and their programs, after \<open>libgebr/geoxml/flow.c\<close> and \<open>program.c\<close>: the programs with their attributes,
  the program that controls the loop, the variable \<open>iter\<close>, revisions, and the division of a loop
  among several machines.

  The elements and attributes of the XML document are the members of records. Strings that the code compares
  stay strings. A number of the C type \<open>gdouble\<close> is an exact rational or real number, written
  with \<open>%f\<close> and read with \<open>g_strtod\<close> as in \<open>Decimals\<close>. The validator is the state of \<open>Validator_Eval\<close>; \<open>upd\<close> is its routine that
  writes the variables to \<open>bc\<close>.
\<close>

section \<open>Programs\<close>

datatype program_status =
    GEBR_GEOXML_PROGRAM_STATUS_CONFIGURED | GEBR_GEOXML_PROGRAM_STATUS_UNCONFIGURED
  | GEBR_GEOXML_PROGRAM_STATUS_DISABLED

datatype program_control =
    GEBR_GEOXML_PROGRAM_CONTROL_UNKNOWN | GEBR_GEOXML_PROGRAM_CONTROL_ORDINARY
  | GEBR_GEOXML_PROGRAM_CONTROL_FOR

text \<open>
  A parameter of a program: the data that the validator reads, its default value, and whether it is the selected one
  of its group (or the group has no selection).
\<close>

record prog_param =
  pp_param :: param
  pp_default :: string
  pp_selected :: bool

text \<open>\<open>pr_mpi_np\<close>: the keyword and the value of the number of processes, when there is a tag \<open>mpi\<close>.\<close>

record prog =
  pr_title :: string
  pr_stdin :: string
  pr_stdout :: string
  pr_stderr :: string
  pr_status :: string
  pr_control :: string
  pr_mpi :: string
  pr_mpi_np :: "(string \<times> string) option"
  pr_error :: "gerror option"
  pr_help :: string
  pr_params :: "prog_param list"

definition yes_no :: "bool \<Rightarrow> string" where
  "yes_no b = (if b then ''yes'' else ''no'')"

definition gebr_geoxml_program_set_stdin :: "bool \<Rightarrow> prog \<Rightarrow> prog" where
  "gebr_geoxml_program_set_stdin b p = p\<lparr>pr_stdin := yes_no b\<rparr>"

definition gebr_geoxml_program_set_stdout :: "bool \<Rightarrow> prog \<Rightarrow> prog" where
  "gebr_geoxml_program_set_stdout b p = p\<lparr>pr_stdout := yes_no b\<rparr>"

definition gebr_geoxml_program_set_stderr :: "bool \<Rightarrow> prog \<Rightarrow> prog" where
  "gebr_geoxml_program_set_stderr b p = p\<lparr>pr_stderr := yes_no b\<rparr>"

definition gebr_geoxml_program_get_stdin :: "prog \<Rightarrow> bool" where
  "gebr_geoxml_program_get_stdin p \<longleftrightarrow> pr_stdin p = ''yes''"

definition gebr_geoxml_program_get_stdout :: "prog \<Rightarrow> bool" where
  "gebr_geoxml_program_get_stdout p \<longleftrightarrow> pr_stdout p = ''yes''"

definition gebr_geoxml_program_get_stderr :: "prog \<Rightarrow> bool" where
  "gebr_geoxml_program_get_stderr p \<longleftrightarrow> pr_stderr p = ''yes''"

fun gebr_geoxml_program_set_status :: "program_status \<Rightarrow> prog \<Rightarrow> prog" where
  "gebr_geoxml_program_set_status GEBR_GEOXML_PROGRAM_STATUS_UNCONFIGURED p = p\<lparr>pr_status := ''configured''\<rparr>"
| "gebr_geoxml_program_set_status GEBR_GEOXML_PROGRAM_STATUS_CONFIGURED p = p\<lparr>pr_status := ''configured''\<rparr>"
| "gebr_geoxml_program_set_status GEBR_GEOXML_PROGRAM_STATUS_DISABLED p = p\<lparr>pr_status := ''disabled''\<rparr>"

text \<open>A status that is neither is reported on the console and counts as disabled.\<close>

definition gebr_geoxml_program_get_status :: "prog \<Rightarrow> program_status" where
  "gebr_geoxml_program_get_status p =
     (if pr_status p = ''unconfigured'' \<or> pr_status p = ''configured''
      then GEBR_GEOXML_PROGRAM_STATUS_CONFIGURED
      else GEBR_GEOXML_PROGRAM_STATUS_DISABLED)"

definition gebr_geoxml_program_get_control :: "prog \<Rightarrow> program_control" where
  "gebr_geoxml_program_get_control p =
     (if pr_control p = ''for'' then GEBR_GEOXML_PROGRAM_CONTROL_FOR
      else if pr_control p = [] then GEBR_GEOXML_PROGRAM_CONTROL_ORDINARY
      else GEBR_GEOXML_PROGRAM_CONTROL_UNKNOWN)"

text \<open>The attribute \<open>errorid\<close> keeps the code of the error; here the error itself.\<close>

definition gebr_geoxml_program_set_error_id :: "gerror option \<Rightarrow> prog \<Rightarrow> prog" where
  "gebr_geoxml_program_set_error_id e p = p\<lparr>pr_error := e\<rparr>"

definition gebr_geoxml_program_get_error_id :: "prog \<Rightarrow> bool" where
  "gebr_geoxml_program_get_error_id p \<longleftrightarrow> pr_error p \<noteq> None"

section \<open>The bounds of a loop\<close>

definition pp_value :: "prog_param \<Rightarrow> string" where
  "pp_value a = (case p_values (pp_param a) of [] \<Rightarrow> [] | x # _ \<Rightarrow> x)"

definition pp_value_or_default :: "prog_param \<Rightarrow> string" where
  "pp_value_or_default a = (if pp_value a = [] then pp_default a else pp_value a)"

text \<open>
  The members of the array: the initial value, the step and the number of iterations, each with its value and
  label. A member whose keyword does not occur is never written (\<open>None\<close>); the last occurrence counts.
\<close>

type_synonym bounds = "(string \<times> string) option \<times> (string \<times> string) option \<times> (string \<times> string) option"

fun gebr_geoxml_program_control_get_info :: "prog_param list \<Rightarrow> bounds \<Rightarrow> bounds" where
  "gebr_geoxml_program_control_get_info [] b = b"
| "gebr_geoxml_program_control_get_info (a # ps) (ini, step, n) =
     gebr_geoxml_program_control_get_info ps
       (let key = p_name (pp_param a); x = Some (pp_value_or_default a, p_label (pp_param a)) in
        if key = ''niter'' then (ini, step, x)
        else if key = ''step'' then (ini, x, n)
        else if key = ''ini_value'' then (x, step, n)
        else (ini, step, n))"

definition loop_bounds :: "prog \<Rightarrow> bounds" where
  "loop_bounds p = gebr_geoxml_program_control_get_info (pr_params p) (None, None, None)"

text \<open>The labels of the initial value, the step and the number; nothing is written unless the program is a loop.\<close>

definition gebr_geoxml_program_control_get_labels :: "prog \<Rightarrow> cstr \<times> cstr \<times> cstr" where
  "gebr_geoxml_program_control_get_labels p =
     (if gebr_geoxml_program_get_control p \<noteq> GEBR_GEOXML_PROGRAM_CONTROL_FOR then (None, None, None)
      else (let (ini, step, n) = loop_bounds p in (map_option snd ini, map_option snd step, map_option snd n)))"

text \<open>
  The number of iterations, and through the pointers the step and the initial value. \<open>None\<close> is \<open>NULL\<close>, or a
  pointer that was never written; in both cases its use is undefined.
\<close>

definition gebr_geoxml_program_control_get_n :: "prog \<Rightarrow> cstr \<times> cstr \<times> cstr" where
  "gebr_geoxml_program_control_get_n p =
     (if gebr_geoxml_program_get_control p \<noteq> GEBR_GEOXML_PROGRAM_CONTROL_FOR then (None, None, None)
      else (let (ini, step, n) = loop_bounds p in (map_option fst n, map_option fst step, map_option fst ini)))"

definition set_pp_value :: "string \<Rightarrow> prog_param \<Rightarrow> prog_param" where
  "set_pp_value x a =
     a\<lparr>pp_param := (pp_param a)\<lparr>p_values := (case p_values (pp_param a) of [] \<Rightarrow> [] | _ # ys \<Rightarrow> x # ys)\<rparr>\<rparr>"

definition set_bound :: "string \<Rightarrow> string \<Rightarrow> string \<Rightarrow> prog_param \<Rightarrow> prog_param" where
  "set_bound step ini n a =
     (if p_name (pp_param a) = ''niter'' then set_pp_value n a
      else if p_name (pp_param a) = ''step'' then set_pp_value step a
      else if p_name (pp_param a) = ''ini_value'' then set_pp_value ini a
      else a)"

definition gebr_geoxml_program_control_set_n :: "string \<Rightarrow> string \<Rightarrow> string \<Rightarrow> prog \<Rightarrow> prog" where
  "gebr_geoxml_program_control_set_n step ini n p =
     (if gebr_geoxml_program_get_control p \<noteq> GEBR_GEOXML_PROGRAM_CONTROL_FOR then p
      else p\<lparr>pr_params := List.map (set_bound step ini n) (pr_params p)\<rparr>)"

text \<open>Evaluation with a result that the caller reads without a look at the return value.\<close>

definition evaluate_unchecked :: "updater \<Rightarrow> cstr \<Rightarrow> parameter_type \<Rightarrow> nat \<Rightarrow> validator \<Rightarrow> string checked" where
  "evaluate_unchecked upd e ty s v =
     (case e of
        None \<Rightarrow> Inl Crash
      | Some x \<Rightarrow>
          vthen (gebr_validator_evaluate upd x ty s False v) (\<lambda>(r, _) v.
            case r of None \<Rightarrow> Inl Crash | Some y \<Rightarrow> Inr (y, v)))"

text \<open>The number of iterations; 0 when it does not evaluate.\<close>

definition gebr_geoxml_program_control_get_eval_n :: "updater \<Rightarrow> prog \<Rightarrow> validator \<Rightarrow> int checked" where
  "gebr_geoxml_program_control_get_eval_n upd p v =
     (case fst (gebr_geoxml_program_control_get_n p) of
        None \<Rightarrow> Inl Crash
      | Some n \<Rightarrow>
          vthen (gebr_validator_evaluate upd n GEBR_GEOXML_PARAMETER_TYPE_INT LINE False v) (\<lambda>(r, _) v.
            Inr (case r of None \<Rightarrow> 0 | Some x \<Rightarrow> c_atoi x, v)))"

section \<open>Parallel programs\<close>

definition mpi_keywords :: "(string \<times> string) list" where
  "mpi_keywords = [(''openmpi'', ''-np ''), (''mpich2'', ''-n '')]"

definition get_mpi_keywords_for_flavor :: "string \<Rightarrow> cstr" where
  "get_mpi_keywords_for_flavor flavor = map_of mpi_keywords flavor"

text \<open>The tag gets the keyword of its flavor once; a tag that exists is left as it is.\<close>

definition gebr_geoxml_program_mpi_add_tags :: "string \<Rightarrow> prog \<Rightarrow> prog option" where
  "gebr_geoxml_program_mpi_add_tags mpi p =
     (if pr_mpi_np p \<noteq> None then Some p
      else map_option (\<lambda>k. p\<lparr>pr_mpi_np := Some (k, [])\<rparr>) (get_mpi_keywords_for_flavor mpi))"

definition gebr_geoxml_program_mpi_remove_tags :: "prog \<Rightarrow> prog" where
  "gebr_geoxml_program_mpi_remove_tags p = p\<lparr>pr_mpi_np := None\<rparr>"

definition gebr_geoxml_program_set_mpi :: "string \<Rightarrow> prog \<Rightarrow> prog option" where
  "gebr_geoxml_program_set_mpi mpi p =
     (let p = p\<lparr>pr_mpi := mpi\<rparr> in
      if mpi = [] then Some (gebr_geoxml_program_mpi_remove_tags p)
      else gebr_geoxml_program_mpi_add_tags mpi p)"

text \<open>
  The value of the number of processes: \<open>None\<close> is a read of \<open>NULL\<close> (an unknown flavor), \<open>Some None\<close> is
  \<open>NULL\<close> (the tag is missing or has another keyword).
\<close>

definition gebr_geoxml_program_mpi_get_n_process :: "prog \<Rightarrow> cstr option" where
  "gebr_geoxml_program_mpi_get_n_process p =
     (case get_mpi_keywords_for_flavor (pr_mpi p) of
        None \<Rightarrow> None
      | Some k \<Rightarrow>
          Some (case pr_mpi_np p of None \<Rightarrow> None | Some (key, x) \<Rightarrow> if key = k then Some x else None))"

definition gebr_geoxml_program_mpi_set_n_process :: "int \<Rightarrow> prog \<Rightarrow> prog option" where
  "gebr_geoxml_program_mpi_set_n_process n p =
     (case get_mpi_keywords_for_flavor (pr_mpi p) of
        None \<Rightarrow> None
      | Some k \<Rightarrow>
          Some (case pr_mpi_np p of
                  None \<Rightarrow> p
                | Some (key, x) \<Rightarrow> if key = k then p\<lparr>pr_mpi_np := Some (key, show_int n)\<rparr> else p))"

datatype mpi_type = GEBR_GEOXML_PROGRAM_MPI_TYPE_OPENMPI | GEBR_GEOXML_PROGRAM_MPI_TYPE_MPICH2

text \<open>\<open>g_strcmp0\<close> is 0 where the strings are equal, so the tests are the wrong way round; \<open>None\<close> is -1.\<close>

definition gebr_geoxml_program_mpi_type_str_to_enum :: "string \<Rightarrow> mpi_type option" where
  "gebr_geoxml_program_mpi_type_str_to_enum s =
     (if s \<noteq> ''openmpi'' then Some GEBR_GEOXML_PROGRAM_MPI_TYPE_OPENMPI
      else if s \<noteq> ''mpich2'' then Some GEBR_GEOXML_PROGRAM_MPI_TYPE_MPICH2
      else None)"

fun gebr_geoxml_program_mpi_type_enum_to_str :: "mpi_type option \<Rightarrow> string" where
  "gebr_geoxml_program_mpi_type_enum_to_str (Some GEBR_GEOXML_PROGRAM_MPI_TYPE_OPENMPI) = ''openmpi''"
| "gebr_geoxml_program_mpi_type_enum_to_str (Some GEBR_GEOXML_PROGRAM_MPI_TYPE_MPICH2) = ''mpich2''"
| "gebr_geoxml_program_mpi_type_enum_to_str None = []"

section \<open>Flows\<close>

record revision =
  rv_flow :: string
  rv_date :: string
  rv_comment :: string
  rv_id :: string

text \<open>\<open>fl_dict\<close> are the parameters of the dictionary; \<open>fl_doc\<close> is the document the validator knows it by.\<close>

record xflow =
  fl_progs :: "prog list"
  fl_input :: string
  fl_output :: string
  fl_errfile :: string
  fl_output_append :: string
  fl_error_append :: string
  fl_dict :: "param list"
  fl_revisions :: "revision list"
  fl_parent :: string
  fl_categories :: "string list"
  fl_help :: string
  fl_doc :: doc_ref

definition gebr_geoxml_flow_append_program :: "xflow \<Rightarrow> xflow" where
  "gebr_geoxml_flow_append_program f =
     f\<lparr>fl_progs := fl_progs f @
        [\<lparr>pr_title = [], pr_stdin = ''no'', pr_stdout = ''no'', pr_stderr = ''no'', pr_status = ''configured'',
          pr_control = [], pr_mpi = [], pr_mpi_np = None, pr_error = None, pr_help = [], pr_params = []\<rparr>]\<rparr>"

definition gebr_geoxml_flow_get_control_program :: "xflow \<Rightarrow> prog option" where
  "gebr_geoxml_flow_get_control_program f =
     find (\<lambda>p. gebr_geoxml_program_get_control p \<noteq> GEBR_GEOXML_PROGRAM_CONTROL_ORDINARY \<and>
               gebr_geoxml_program_get_control p \<noteq> GEBR_GEOXML_PROGRAM_CONTROL_UNKNOWN) (fl_progs f)"

definition gebr_geoxml_flow_has_control_program :: "xflow \<Rightarrow> bool" where
  "gebr_geoxml_flow_has_control_program f \<longleftrightarrow> gebr_geoxml_flow_get_control_program f \<noteq> None"

definition gebr_geoxml_flow_get_first_mpi_program :: "xflow \<Rightarrow> prog option" where
  "gebr_geoxml_flow_get_first_mpi_program f =
     find (\<lambda>p. length (pr_mpi p) > 0 \<and>
               gebr_geoxml_program_get_status p = GEBR_GEOXML_PROGRAM_STATUS_CONFIGURED) (fl_progs f)"

fun collect_flavors :: "prog list \<Rightarrow> string list \<Rightarrow> string list" where
  "collect_flavors [] acc = acc"
| "collect_flavors (p # ps) acc =
     collect_flavors ps (if pr_mpi p = [] \<or> pr_mpi p \<in> set acc then acc else pr_mpi p # acc)"

definition gebr_geoxml_flow_get_mpi_flavors :: "xflow \<Rightarrow> string list" where
  "gebr_geoxml_flow_get_mpi_flavors f = collect_flavors (fl_progs f) []"

definition gebr_geoxml_flow_append_category :: "string \<Rightarrow> xflow \<Rightarrow> xflow" where
  "gebr_geoxml_flow_append_category name f =
     (if name \<in> set (fl_categories f) then f else f\<lparr>fl_categories := fl_categories f @ [name]\<rparr>)"

definition gebr_geoxml_flow_io_set_output_append :: "bool \<Rightarrow> xflow \<Rightarrow> xflow" where
  "gebr_geoxml_flow_io_set_output_append b f = f\<lparr>fl_output_append := yes_no b\<rparr>"

definition gebr_geoxml_flow_io_get_output_append :: "xflow \<Rightarrow> bool" where
  "gebr_geoxml_flow_io_get_output_append f \<longleftrightarrow> fl_output_append f = ''yes''"

definition gebr_geoxml_flow_io_set_error_append :: "bool \<Rightarrow> xflow \<Rightarrow> xflow" where
  "gebr_geoxml_flow_io_set_error_append b f = f\<lparr>fl_error_append := yes_no b\<rparr>"

text \<open>Unlike for the output, everything but \<open>no\<close> is a yes.\<close>

definition gebr_geoxml_flow_io_get_error_append :: "xflow \<Rightarrow> bool" where
  "gebr_geoxml_flow_io_get_error_append f \<longleftrightarrow> fl_error_append f \<noteq> ''no''"

section \<open>The first input and the last output\<close>

fun first_input :: "string \<Rightarrow> prog list \<Rightarrow> string" where
  "first_input io [] = []"
| "first_input io (p # ps) =
     (if gebr_geoxml_program_get_control p = GEBR_GEOXML_PROGRAM_CONTROL_FOR then first_input io ps
      else if gebr_geoxml_program_get_status p = GEBR_GEOXML_PROGRAM_STATUS_DISABLED then first_input io ps
      else if gebr_geoxml_program_get_stdin p then io else [])"

definition gebr_geoxml_flow_io_get_input_real :: "xflow \<Rightarrow> string" where
  "gebr_geoxml_flow_io_get_input_real f = first_input (fl_input f) (fl_progs f)"

fun last_output :: "string \<Rightarrow> prog list \<Rightarrow> string" where
  "last_output io [] = []"
| "last_output io (p # ps) =
     (if gebr_geoxml_program_get_control p = GEBR_GEOXML_PROGRAM_CONTROL_FOR then last_output io ps
      else if gebr_geoxml_program_get_status p = GEBR_GEOXML_PROGRAM_STATUS_DISABLED then last_output io ps
      else if gebr_geoxml_program_get_stdout p then io else [])"

definition gebr_geoxml_flow_io_get_output_real :: "xflow \<Rightarrow> string" where
  "gebr_geoxml_flow_io_get_output_real f = last_output (fl_output f) (rev (fl_progs f))"


section \<open>The variable of the loop\<close>

fun overwrite :: "string list \<Rightarrow> string list \<Rightarrow> string list" where
  "overwrite (x # xs) (_ # ys) = x # overwrite xs ys"
| "overwrite _ ys = ys"

text \<open>
  The four values of \<open>iter\<close> are the last value of the loop, the initial value, the step and the number of
  iterations. Without a loop, or with a loop that lacks a parameter, an unset string is printed: \<open>None\<close>.
\<close>

definition iter_values :: "string \<Rightarrow> string \<Rightarrow> string \<Rightarrow> string list" where
  "iter_values ini step n = [''('' @ ini @ '')+('' @ step @ '')*(('' @ n @ '')-1)'', ini, step, n]"

definition gebr_geoxml_flow_update_iter_dict_value :: "xflow \<Rightarrow> xflow option" where
  "gebr_geoxml_flow_update_iter_dict_value f =
     (case fl_dict f of
        [] \<Rightarrow> Some f
      | it # ds \<Rightarrow>
          if p_name it \<noteq> ''iter'' then Some f
          else
            (case gebr_geoxml_flow_get_control_program f of
               None \<Rightarrow> None
             | Some p \<Rightarrow>
                 (case gebr_geoxml_program_control_get_n p of
                    (Some n, Some step, Some ini) \<Rightarrow>
                      Some (f\<lparr>fl_dict := it\<lparr>p_values := overwrite (iter_values ini step n) (p_values it)\<rparr> # ds\<rparr>)
                  | _ \<Rightarrow> None)))"

definition iter_param :: "doc_ref \<Rightarrow> param" where
  "iter_param d =
     \<lparr>p_name = ''iter'', p_type = GEBR_GEOXML_PARAMETER_TYPE_FLOAT, p_values = [[], [], [], []],
      p_sep = Some ''|'', p_required = False, p_label = ''Loop iteration counter'', p_doc = d,
      p_dict = True, p_for = False\<rparr>"

definition first_is_iter :: "xflow \<Rightarrow> bool" where
  "first_is_iter f \<longleftrightarrow> (case fl_dict f of [] \<Rightarrow> False | it # _ \<Rightarrow> p_name it = ''iter'')"

definition gebr_geoxml_flow_insert_iter_dict :: "xflow \<Rightarrow> (bool \<times> xflow) option" where
  "gebr_geoxml_flow_insert_iter_dict f =
     (if first_is_iter f then Some (False, f)
      else map_option (Pair True)
             (gebr_geoxml_flow_update_iter_dict_value (f\<lparr>fl_dict := iter_param (fl_doc f) # fl_dict f\<rparr>)))"

definition gebr_geoxml_flow_remove_iter_dict :: "xflow \<Rightarrow> xflow" where
  "gebr_geoxml_flow_remove_iter_dict f = (if first_is_iter f then f\<lparr>fl_dict := tl (fl_dict f)\<rparr> else f)"

text \<open>The programs and the categories of another flow; its loop brings the variable with it.\<close>

definition gebr_geoxml_flow_add_flow :: "xflow \<Rightarrow> xflow \<Rightarrow> xflow option" where
  "gebr_geoxml_flow_add_flow f g =
     (let f' = fold gebr_geoxml_flow_append_category (fl_categories g)
                 (f\<lparr>fl_progs := fl_progs f @ fl_progs g\<rparr>) in
      case gebr_geoxml_flow_get_control_program g of
        None \<Rightarrow> Some f'
      | Some loop \<Rightarrow>
          if gebr_geoxml_flow_has_control_program f then Some f'
          else if gebr_geoxml_program_get_status loop = GEBR_GEOXML_PROGRAM_STATUS_DISABLED then Some f'
          else map_option snd (gebr_geoxml_flow_insert_iter_dict f'))"

section \<open>Revisions\<close>

text \<open>A new revision is the first one. Its text is the flow without revisions; \<open>xml\<close> writes a document.\<close>

definition gebr_geoxml_flow_append_revision ::
    "(xflow \<Rightarrow> string) \<Rightarrow> string \<Rightarrow> string \<Rightarrow> string \<Rightarrow> xflow \<Rightarrow> revision \<times> xflow" where
  "gebr_geoxml_flow_append_revision xml date new_id comment f =
     (let r = \<lparr>rv_flow = xml (f\<lparr>fl_revisions := []\<rparr>), rv_date = date, rv_comment = comment, rv_id = new_id\<rparr>
      in (r, f\<lparr>fl_revisions := r # fl_revisions f\<rparr>))"

fun revision_index_from :: "int \<Rightarrow> string \<Rightarrow> revision list \<Rightarrow> int" where
  "revision_index_from i x [] = - 1"
| "revision_index_from i x (r # rs) = (if rv_id r = x then i else revision_index_from (i + 1) x rs)"

definition gebr_geoxml_flow_get_revision_index_by_id :: "string \<Rightarrow> xflow \<Rightarrow> int" where
  "gebr_geoxml_flow_get_revision_index_by_id x f = revision_index_from 0 x (fl_revisions f)"

definition gebr_geoxml_flow_get_revision_by_id :: "string \<Rightarrow> xflow \<Rightarrow> revision option" where
  "gebr_geoxml_flow_get_revision_by_id x f = find (\<lambda>r. rv_id r = x) (fl_revisions f)"

text \<open>The date, in the format \<open>loc\<close> of the locale, the comment and the id of the revision the flow was made from.\<close>

definition gebr_geoxml_flow_get_parent_revision ::
    "(string \<Rightarrow> string) \<Rightarrow> xflow \<Rightarrow> (string \<times> string \<times> string) option" where
  "gebr_geoxml_flow_get_parent_revision loc f =
     (let i = gebr_geoxml_flow_get_revision_index_by_id (fl_parent f) f in
      if i = - 1 then None
      else (let r = fl_revisions f ! nat i in Some (loc (rv_date r), rv_comment r, rv_id r)))"

text \<open>The parent that is nobody's child; \<open>hash\<close> lists the table of parents and children in its order.\<close>

definition gebr_geoxml_flow_revisions_get_root_id :: "(string \<times> string list) list \<Rightarrow> cstr" where
  "gebr_geoxml_flow_revisions_get_root_id hash =
     find (\<lambda>p. p \<notin> set (concat (List.map snd hash))) (List.map fst hash)"

section \<open>Parallel loops\<close>

text \<open>Whether the last configured program writes to the output.\<close>

fun last_has_stdout :: "prog list \<Rightarrow> bool \<Rightarrow> bool" where
  "last_has_stdout [] b = b"
| "last_has_stdout (p # ps) b =
     last_has_stdout ps
       (if gebr_geoxml_program_get_control p \<noteq> GEBR_GEOXML_PROGRAM_CONTROL_ORDINARY then b
        else if gebr_geoxml_program_get_status p = GEBR_GEOXML_PROGRAM_STATUS_CONFIGURED
        then gebr_geoxml_program_get_stdout p else b)"

text \<open>The iterations may run at the same time unless they all write to the same file.\<close>

definition gebr_geoxml_flow_is_parallelizable :: "xflow \<Rightarrow> validator \<Rightarrow> bool checked" where
  "gebr_geoxml_flow_is_parallelizable f v =
     (case gebr_geoxml_flow_get_control_program f of
        None \<Rightarrow> Inr (False, v)
      | Some p \<Rightarrow>
          if gebr_geoxml_program_get_status p \<noteq> GEBR_GEOXML_PROGRAM_STATUS_CONFIGURED then Inr (False, v)
          else if fl_output f = [] then Inr (True, v)
          else if \<not> last_has_stdout (fl_progs f) False then Inr (True, v)
          else gebr_validator_use_iter (fl_output f) GEBR_GEOXML_PARAMETER_TYPE_STRING FLOW v)"

definition gebr_geoxml_flow_is_single_core :: "xflow \<Rightarrow> validator \<Rightarrow> bool checked" where
  "gebr_geoxml_flow_is_single_core f v =
     vthen (gebr_geoxml_flow_is_parallelizable f v) (\<lambda>b v.
       Inr (if b then False else gebr_geoxml_flow_get_first_mpi_program f = None, v))"

text \<open>The conversion of a number to \<open>gint\<close> cuts towards 0.\<close>

definition c_trunc :: "real \<Rightarrow> int" where
  "c_trunc r = (if r < 0 then - \<lfloor>- r\<rfloor> else \<lfloor>r\<rfloor>)"

text \<open>
  What the shares leave of the total goes one by one to the machines from \<open>k\<close> downwards and again from the
  last one; a write outside the array is \<open>None\<close>.
\<close>

fun spread :: "nat \<Rightarrow> int \<Rightarrow> int list \<Rightarrow> int list option" where
  "spread 0 k ds = Some ds"
| "spread (Suc m) k ds =
     (if k < 0 \<or> k \<ge> int (length ds) then None
      else spread m (if k = 0 then int (length ds) - 1 else k - 1) (ds[nat k := ds ! nat k + 1]))"

text \<open>
  The shares of \<open>total\<close> iterations, and the weights that are written back. For \<open>total\<close> 0 these are not
  numbers in the code; no caller reads them.
\<close>

definition gebr_geoxml_flow_calculate_proportional_n :: "int \<Rightarrow> real list \<Rightarrow> (int list \<times> real list) option" where
  "gebr_geoxml_flow_calculate_proportional_n tot ws =
     (let ds = List.map (\<lambda>w. c_trunc (of_int tot * w)) ws;
          k = (if tot \<le> int (length ws) then tot - 1 else int (length ws) - 1)
      in map_option (\<lambda>ds. (ds, List.map (\<lambda>d. of_int d / of_int tot) ds))
           (spread (nat (tot - sum_list ds)) k ds))"

definition gebr_geoxml_flow_calulate_weights :: "real list \<Rightarrow> real \<Rightarrow> real list" where
  "gebr_geoxml_flow_calulate_weights scores acc = List.map (\<lambda>s. s / acc) scores"

definition set_loop :: "string \<Rightarrow> string \<Rightarrow> string \<Rightarrow> prog \<Rightarrow> prog list \<Rightarrow> prog list" where
  "set_loop step ini n loop ps =
     (let i = length (takeWhile (\<lambda>p. gebr_geoxml_program_get_control p \<noteq> GEBR_GEOXML_PROGRAM_CONTROL_FOR) ps)
      in ps[i := gebr_geoxml_program_control_set_n step ini n loop])"

text \<open>One copy of the flow for each share; the first share that is not positive ends the division.\<close>

fun divide_loop :: "xflow \<Rightarrow> prog \<Rightarrow> string \<Rightarrow> rat \<Rightarrow> rat \<Rightarrow> int list \<Rightarrow> xflow list" where
  "divide_loop f loop eval_step step ini [] = []"
| "divide_loop f loop eval_step step ini (d # ds) =
     (if d \<le> 0 then []
      else f\<lparr>fl_progs := set_loop eval_step (show_f ini) (show_int d) loop (fl_progs f)\<rparr>
             # divide_loop f loop eval_step step (of_int d * step + ini) ds)"

definition gebr_geoxml_flow_divide_flows :: "updater \<Rightarrow> xflow \<Rightarrow> int list \<Rightarrow> validator \<Rightarrow> xflow list checked" where
  "gebr_geoxml_flow_divide_flows upd f ds v =
     vthen (gebr_geoxml_flow_is_parallelizable f v) (\<lambda>par v.
       if \<not> par then Inr ([f], v)
       else
         (case gebr_geoxml_flow_get_control_program f of
            None \<Rightarrow> Inl Crash
          | Some loop \<Rightarrow>
              (let (_, step, ini) = gebr_geoxml_program_control_get_n loop in
               vthen (evaluate_unchecked upd step GEBR_GEOXML_PARAMETER_TYPE_INT LINE v) (\<lambda>s v.
               vthen (evaluate_unchecked upd ini GEBR_GEOXML_PARAMETER_TYPE_INT LINE v) (\<lambda>i v.
                 Inr (divide_loop f loop s (g_strtod s) (g_strtod i) ds, v))))))"

end
