(* ===== verification/Comm_Runner.thy ===== *)
theory Comm_Runner
  imports Geoxml_Flow Validator_Edit Comm_Server Http_Msg "HOL-Library.AList"
begin

text \<open>
  Running a flow on several machines (\<open>libgebr/comm/gebr-comm-runner.c\<close>): the machines are asked for
  their load, each core gets a score, the iterations of the loop are distributed over the best cores, and every
  machine gets its part of the flow; a flow with a parallel program goes to one machine.

  The machines are behind the interface \<open>GebrCommDaemon\<close>: a record of functions on a world \<open>'w\<close>, as the
  table of function pointers in \<open>libgebr/comm/gebr-comm-daemon.h\<close>. Its contract is the locale \<open>comm_daemon\<close>.
  Numbers of type \<open>gdouble\<close> are exact reals.
\<close>

section \<open>State\<close>

type_synonym dref = nat

text \<open>\<open>di_on_server\<close> is an operation on the server that \<open>get_server\<close> returns.\<close>

record 'w daemon_iface =
  di_server :: "dref \<Rightarrow> 'w \<Rightarrow> server"
  di_on_server :: "dref \<Rightarrow> (server \<Rightarrow> server) \<Rightarrow> 'w \<Rightarrow> 'w"
  di_n_running_jobs :: "dref \<Rightarrow> 'w \<Rightarrow> int"
  di_hostname :: "dref \<Rightarrow> 'w \<Rightarrow> string"
  di_add_task :: "dref \<Rightarrow> 'w \<Rightarrow> 'w"
  di_can_execute :: "dref \<Rightarrow> 'w \<Rightarrow> bool"
  di_flavors :: "dref \<Rightarrow> 'w \<Rightarrow> cstr"

text \<open>
  What the code takes from outside: number conversions, the scan of the three loads (\<open>None\<close> when
  fewer than three are read), the text of a document, and the orders of two hash tables.
\<close>

record run_env =
  re_strtod :: "string \<Rightarrow> rat"
  re_fmt_real :: "real \<Rightarrow> string"
  re_atof :: "string \<Rightarrow> real"
  re_scan :: "string \<Rightarrow> (real \<times> real \<times> real) option"
  re_upd :: updater
  re_xml :: "xflow \<Rightarrow> string"
  re_order :: "string list \<Rightarrow> string list"
  re_keys :: "(string \<Rightarrow> cstr option) \<Rightarrow> string list"

type_synonym server_score = "dref \<times> real"

text \<open>\<open>rn_ran\<close> counts the calls of \<open>ran_func\<close>, \<open>rn_idle\<close> those that wait for the main loop.\<close>

record runner =
  rn_id :: cstr
  rn_flow :: xflow
  rn_servers :: "dref list"
  rn_run_servers :: "dref list"
  rn_weights :: "int list"
  rn_numprocs :: "int list"
  rn_distributed_n :: "int list"
  rn_requests :: int
  rn_responses :: int
  rn_cores_scores :: "server_score list"
  rn_total :: int
  rn_ncores :: cstr
  rn_gid :: cstr
  rn_parent_rid :: cstr
  rn_speed :: string
  rn_nice :: cstr
  rn_group :: cstr
  rn_servers_list :: cstr
  rn_paths :: cstr
  rn_mpi_owner :: cstr
  rn_mpi_flavor :: cstr
  rn_account :: cstr
  rn_has_ran_func :: bool
  rn_ran :: nat
  rn_idle :: nat

definition gebr_comm_runner_new ::
    "xflow \<Rightarrow> dref list \<Rightarrow> dref list \<Rightarrow> cstr \<Rightarrow> cstr \<Rightarrow> cstr \<Rightarrow> string \<Rightarrow> cstr \<Rightarrow> cstr \<Rightarrow> cstr \<Rightarrow> runner" where
  "gebr_comm_runner_new f submit run job_id gid parent_rid speed nice grp paths =
     \<lparr>rn_id = job_id, rn_flow = f, rn_servers = submit, rn_run_servers = run, rn_weights = [], rn_numprocs = [],
      rn_distributed_n = [], rn_requests = 0, rn_responses = 0, rn_cores_scores = [], rn_total = 0,
      rn_ncores = None, rn_gid = gid, rn_parent_rid = parent_rid, rn_speed = speed, rn_nice = nice,
      rn_group = grp, rn_servers_list = None, rn_paths = paths, rn_mpi_owner = Some [], rn_mpi_flavor = Some [],
      rn_account = None, rn_has_ran_func = False, rn_ran = 0, rn_idle = 0\<rparr>"

definition gebr_comm_runner_set_ran_func :: "runner \<Rightarrow> runner" where
  "gebr_comm_runner_set_ran_func r = r\<lparr>rn_has_ran_func := True\<rparr>"

section \<open>The flow that is sent\<close>

text \<open>A parameter that is not (yet) one of the heap is validated as if it was there.\<close>

definition validate_copy :: "(string \<Rightarrow> rat) \<Rightarrow> updater \<Rightarrow> param \<Rightarrow> validator \<Rightarrow> (bool \<times> gerror option) checked" where
  "validate_copy strtod upd pa v =
     gebr_validator_validate_param strtod upd (next_param v) (v\<lparr>params := (params v)(next_param v := pa)\<rparr>)"

fun strip_dict :: "(string \<Rightarrow> rat) \<Rightarrow> updater \<Rightarrow> param list \<Rightarrow> validator \<Rightarrow> param list checked" where
  "strip_dict strtod upd [] v = Inr ([], v)"
| "strip_dict strtod upd (pa # ps) v =
     vthen (validate_copy strtod upd pa v) (\<lambda>(ok, _) v.
     vthen (strip_dict strtod upd ps v) (\<lambda>qs v. Inr (if ok then pa # qs else qs, v)))"

definition dict_separator :: "doc_ref \<Rightarrow> param" where
  "dict_separator d =
     \<lparr>p_name = [], p_type = GEBR_GEOXML_PARAMETER_TYPE_GROUP, p_values = [], p_sep = None, p_required = False,
      p_label = [], p_doc = d, p_dict = True, p_for = False\<rparr>"

definition dict_copy :: "doc_ref \<Rightarrow> param_ref \<Rightarrow> validator \<Rightarrow> param" where
  "dict_copy d q v =
     \<lparr>p_name = var_name q v, p_type = param_type v q, p_values = [var_value q v], p_sep = None,
      p_required = False, p_label = p_label (params v q), p_doc = d, p_dict = True, p_for = False\<rparr>"

fun copy_dict :: "(string \<Rightarrow> rat) \<Rightarrow> updater \<Rightarrow> doc_ref \<Rightarrow> param_ref list \<Rightarrow> validator \<Rightarrow> param list checked" where
  "copy_dict strtod upd d [] v = Inr ([], v)"
| "copy_dict strtod upd d (q # qs) v =
     vthen (gebr_validator_validate_param strtod upd q v) (\<lambda>(ok, _) v.
     vthen (copy_dict strtod upd d qs v) (\<lambda>cs v'. Inr (if ok then dict_copy d q v # cs else cs, v')))"

text \<open>The list of documents ends with the first \<open>NULL\<close>.\<close>

fun gebr_geoxml_document_merge_dicts ::
    "(string \<Rightarrow> rat) \<Rightarrow> updater \<Rightarrow> xflow \<Rightarrow> doc_ref option list \<Rightarrow> validator \<Rightarrow> xflow checked" where
  "gebr_geoxml_document_merge_dicts strtod upd f (Some d # ds) v =
     vthen (copy_dict strtod upd (fl_doc f) (d_dict (documents v d)) v) (\<lambda>cs v.
       gebr_geoxml_document_merge_dicts strtod upd
         (f\<lparr>fl_dict := fl_dict f @ dict_separator (fl_doc f) # cs\<rparr>) ds v)"
| "gebr_geoxml_document_merge_dicts strtod upd f _ v = Inr (f, v)"

definition strip_flow :: "run_env \<Rightarrow> xflow \<Rightarrow> validator \<Rightarrow> string checked" where
  "strip_flow env f v =
     (let f = f\<lparr>fl_help := [], fl_progs := List.map (\<lambda>p. p\<lparr>pr_help := []\<rparr>) (fl_progs f), fl_revisions := []\<rparr> in
      vthen (strip_dict (re_strtod env) (re_upd env) (fl_dict f) v) (\<lambda>ds v.
        (let (_, line, proj) = gebr_validator_get_documents v in
         vthen (gebr_geoxml_document_merge_dicts (re_strtod env) (re_upd env) (f\<lparr>fl_dict := ds\<rparr>) [line, proj] v)
           (\<lambda>f v. Inr (re_xml env f, v)))))"

section \<open>Scores\<close>

text \<open>The coefficients of the parabola through three points.\<close>

definition create_2ndDegreePoly_model ::
    "real \<times> real \<Rightarrow> real \<times> real \<Rightarrow> real \<times> real \<Rightarrow> real \<times> real \<times> real" where
  "create_2ndDegreePoly_model p0 p1 p2 =
     (let (x0, y0) = p0; (x1, y1) = p1; (x2, y2) = p2;
          s0 = x0 * x0; s1 = x1 * x1; s2 = x2 * x2;
          m = (x1 - x0) * (x2 - x0) * (x2 - x1);
          ma = y2 * (x1 - x0) + y1 * (x0 - x2) + y0 * (x2 - x1);
          mb = y2 * (s0 - s1) + y1 * (s2 - s0) + y0 * (s1 - s2);
          mc = y2 * (x0 * s1 - x1 * s0) + y1 * (x2 * s0 - x0 * s2) + y0 * (x1 * s2 - x2 * s1)
      in (ma / m, mb / m, mc / m))"

definition predict_current_load :: "real \<times> real \<Rightarrow> real \<times> real \<Rightarrow> real \<times> real \<Rightarrow> real \<Rightarrow> real" where
  "predict_current_load p0 p1 p2 delay =
     (let (a, b, c) = create_2ndDegreePoly_model p0 p1 p2; prediction = a * delay * delay + b * delay + c
      in if 0 > prediction then 0 else prediction)"

text \<open>The load of one core and what is left of \<open>rest\<close>.\<close>

definition core_load :: "real \<Rightarrow> real \<Rightarrow> real \<times> real" where
  "core_load base rest =
     (if rest > 1 then (base + 1, rest - 1) else if rest > 0 then (base + rest, 0) else (base, rest))"

fun score_loop :: "dref \<Rightarrow> real \<Rightarrow> real \<Rightarrow> nat \<Rightarrow> real \<Rightarrow> int \<Rightarrow> server_score list \<Rightarrow> server_score list" where
  "score_loop d clock base 0 rest running acc = acc"
| "score_loop d clock base (Suc n) rest running acc =
     (let (sc, rest') = core_load base rest;
          n_jobs = (if running > 0 then 1 else 0 :: nat);
          running' = (if running > 0 then running - 1 else running)
      in score_loop d clock base n rest' running' ((d, clock / (sc + 1) * (9 / 10) ^ n_jobs) # acc))"

definition predicted_load :: "real \<times> real \<times> real \<Rightarrow> real" where
  "predicted_load l = (let (l1, l5, l15) = l in predict_current_load (- 15, l15) (- 5, l5) (- 1, l1) 1)"

text \<open>The scores of the cores of a machine, from the text of its load averages; \<open>None\<close> reads unset numbers.\<close>

definition calculate_server_score ::
    "run_env \<Rightarrow> dref \<Rightarrow> string \<Rightarrow> int \<Rightarrow> real \<Rightarrow> int \<Rightarrow> server_score list option" where
  "calculate_server_score env d load nc clock running =
     map_option (\<lambda>l.
       let current = predicted_load l; base = of_int \<lfloor>current / of_int nc\<rfloor>
       in score_loop d clock base (nat nc) (current - base) running [])
     (re_scan env load)"

section \<open>Distribution\<close>

text \<open>The conversion of \<open>round\<close>: halves go away from 0.\<close>

definition c_round :: "real \<Rightarrow> int" where
  "c_round x = (if x < 0 then - \<lfloor>1 / 2 - x\<rfloor> else \<lfloor>x + 1 / 2\<rfloor>)"

definition gebr_calculate_number_of_processors :: "int \<Rightarrow> real \<Rightarrow> int" where
  "gebr_calculate_number_of_processors n aggressive = max (c_round (of_int n * aggressive / 5)) 1"

text \<open>
  The shares of the first \<open>p\<close> cores, which are counted again from the first one when there are not so
  many. A negative number of cores is an allocation that aborts.
\<close>

definition distribute_tasks_to_cores :: "server_score list \<Rightarrow> int \<Rightarrow> int \<Rightarrow> int list option" where
  "distribute_tasks_to_cores cs p nsteps =
     (let n = min p (int (length cs)); score = (\<lambda>i. snd (cs ! (i mod length cs))) in
      if p < 0 \<or> (p > 0 \<and> cs = []) then None
      else
        (let s = sum_list (List.map score [0..<nat p]);
             ws = fold (\<lambda>i ws. ws[i mod nat n := score i / s]) [0..<nat p] (replicate (nat n) 0)
         in map_option fst (gebr_geoxml_flow_calculate_proportional_n nsteps ws)))"

record exec_info =
  ei_daemon :: dref
  ei_weight :: real
  ei_np :: int
  ei_nsteps :: int

type_synonym exec_map = "(string \<times> exec_info) list"

definition exec_map_of :: "(dref \<Rightarrow> string) \<Rightarrow> dref list \<Rightarrow> exec_map" where
  "exec_map_of host ds =
     fold (\<lambda>d. AList.update (host d) \<lparr>ei_daemon = d, ei_weight = 0, ei_np = 0, ei_nsteps = 0\<rparr>) ds []"

text \<open>Each core adds its share to its machine; a machine that is not in the table is a read of \<open>NULL\<close>.\<close>

fun add_shares :: "(dref \<Rightarrow> string) \<Rightarrow> int \<Rightarrow> server_score list \<Rightarrow> int list \<Rightarrow> exec_map \<Rightarrow> exec_map option" where
  "add_shares host nsteps ((d, sc) # cs) (k # ks) m =
     (case map_of m (host d) of
        None \<Rightarrow> None
      | Some e \<Rightarrow>
          add_shares host nsteps cs ks
            (AList.update (host d)
              (e\<lparr>ei_np := ei_np e + 1, ei_weight := ei_weight e + of_int k / of_int nsteps,
                 ei_nsteps := ei_nsteps e + k\<rparr>) m))"
| "add_shares host nsteps _ _ m = Some m"

text \<open>The processes beyond the number of cores are shared evenly; machines without a process are dropped.\<close>

fun share_rest :: "int \<Rightarrow> int \<Rightarrow> exec_info list \<Rightarrow> exec_info list" where
  "share_rest base rest [] = []"
| "share_rest base rest (e # es) =
     (let np = ei_np e + base + (if rest > 0 then 1 else 0);
          es' = share_rest base (if rest > 0 then rest - 1 else rest) es
      in if np = 0 then es' else e\<lparr>ei_np := np\<rparr> # es')"

definition get_values :: "(string list \<Rightarrow> string list) \<Rightarrow> exec_map \<Rightarrow> exec_info list" where
  "get_values order m = List.map (\<lambda>k. the (map_of m k)) (order (List.map fst m))"

text \<open>The table and the cores that are used, for a number of processes and of steps.\<close>

definition plan_servers ::
    "(string list \<Rightarrow> string list) \<Rightarrow> (dref \<Rightarrow> string) \<Rightarrow> dref list \<Rightarrow> server_score list \<Rightarrow> int \<Rightarrow> int \<Rightarrow>
     exec_info list option" where
  "plan_servers order host servers cs total_procs nsteps =
     Option.bind (distribute_tasks_to_cores cs total_procs nsteps) (\<lambda>ks.
     Option.bind (add_shares host nsteps (take (nat total_procs) cs) ks (exec_map_of host servers)) (\<lambda>m.
       (let vs = get_values order m; n_servers = int (length vs);
            tmp = total_procs - int (length (take (nat total_procs) cs)) in
        if n_servers = 0 then None
        else (let base = c_div tmp n_servers in Some (share_rest base (tmp - base * n_servers) vs)))))"

definition eval_nsteps :: "run_env \<Rightarrow> xflow \<Rightarrow> validator \<Rightarrow> int checked" where
  "eval_nsteps env f v =
     (case gebr_geoxml_flow_get_control_program f of
        None \<Rightarrow> Inr (1, v)
      | Some loop \<Rightarrow>
          vthen (gebr_geoxml_flow_is_parallelizable f v) (\<lambda>par v.
            if par then gebr_geoxml_program_control_get_eval_n (re_upd env) loop v else Inr (1, v)))"

definition calculate_servers_scores_and_num_procs ::
    "run_env \<Rightarrow> (dref \<Rightarrow> string) \<Rightarrow> runner \<Rightarrow> validator \<Rightarrow> (exec_info list \<times> runner) checked" where
  "calculate_servers_scores_and_num_procs env host r v =
     vthen (eval_nsteps env (rn_flow r) v) (\<lambda>nsteps v.
       (let cs = rn_cores_scores r;
            total_procs =
              min (gebr_calculate_number_of_processors (int (length cs)) (re_atof env (rn_speed r))) nsteps
        in case plan_servers (re_order env) host (rn_servers r) cs total_procs nsteps of
             None \<Rightarrow> Inl Crash
           | Some vs \<Rightarrow> Inr ((vs, r\<lparr>rn_cores_scores := take (nat total_procs) cs\<rparr>), v)))"

section \<open>Sorting\<close>

text \<open>\<open>g_list_sort\<close> of GLib: a merge sort that takes the left one of two that are not in the wrong order.\<close>

fun merge_lists :: "('a \<Rightarrow> 'a \<Rightarrow> int) \<Rightarrow> 'a list \<Rightarrow> 'a list \<Rightarrow> 'a list" where
  "merge_lists cmp (x # xs) (y # ys) =
     (if cmp x y \<le> 0 then x # merge_lists cmp xs (y # ys) else y # merge_lists cmp (x # xs) ys)"
| "merge_lists cmp [] ys = ys"
| "merge_lists cmp xs [] = xs"

function g_list_sort :: "('a \<Rightarrow> 'a \<Rightarrow> int) \<Rightarrow> 'a list \<Rightarrow> 'a list" where
  "g_list_sort cmp xs =
     (if length xs < 2 then xs
      else merge_lists cmp (g_list_sort cmp (take (length xs div 2) xs)) (g_list_sort cmp (drop (length xs div 2) xs)))"
  by pat_completeness auto
termination by (relation "measure (length \<circ> snd)") auto

declare g_list_sort.simps [simp del]

definition daemon_exec_info_comp_func :: "exec_info \<Rightarrow> exec_info \<Rightarrow> int" where
  "daemon_exec_info_comp_func d1 d2 = c_trunc (ei_weight d2 - ei_weight d1)"

text \<open>When all weights are 0 the quotients are not numbers in the code.\<close>

definition normalize_and_sort_servers :: "exec_info list \<Rightarrow> exec_info list" where
  "normalize_and_sort_servers vs =
     (let s = sum_list (List.map ei_weight vs)
      in g_list_sort daemon_exec_info_comp_func (List.map (\<lambda>e. e\<lparr>ei_weight := ei_weight e / s\<rparr>) vs))"

definition server_score_comp_func :: "server_score \<Rightarrow> server_score \<Rightarrow> int" where
  "server_score_comp_func a b = (let d = snd b - snd a in if d < 0 then - 1 else if d > 0 then 1 else 0)"

definition set_servers_execution_info ::
    "run_env \<Rightarrow> (dref \<Rightarrow> string) \<Rightarrow> runner \<Rightarrow> validator \<Rightarrow> runner checked" where
  "set_servers_execution_info env host r v =
     vthen (calculate_servers_scores_and_num_procs env host r v) (\<lambda>(vs, r) v.
       (let vs = normalize_and_sort_servers vs in
        Inr (r\<lparr>rn_servers := List.map ei_daemon vs, rn_weights := List.map ei_nsteps vs,
               rn_numprocs := List.map ei_np vs, rn_distributed_n := List.map ei_nsteps vs\<rparr>, v)))"


section \<open>Running\<close>

text \<open>A run changes the runner, the world of the machines, and the validator.\<close>

type_synonym 'w run = "(runner \<times> 'w) checked"

definition send_run ::
    "'w daemon_iface \<Rightarrow> dref \<Rightarrow> string \<Rightarrow> string \<Rightarrow> string \<Rightarrow> string \<Rightarrow> runner \<Rightarrow> 'w \<Rightarrow> 'w" where
  "send_run I d part nprocs xml mpi_servers r w =
     di_on_server I d
       (gebr_comm_protocol_socket_oldmsg_send run_def
         [rn_gid r, rn_id r, Some part, Some nprocs, rn_nice r, Some xml, rn_paths r,
          Some (case rn_account r of None \<Rightarrow> [] | Some a \<Rightarrow> a), Some mpi_servers]) w"

definition call_ran_func :: "runner \<Rightarrow> runner" where
  "call_ran_func r = (if rn_has_ran_func r then r\<lparr>rn_ran := rn_ran r + 1\<rparr> else r)"

text \<open>
  The flows go to the machines in their order; \<open>k\<close> counts them, \<open>acc\<close> is the list of machines and shares. More
  flows than machines, or than shares, is a read outside the list.
\<close>

fun run_flows ::
    "run_env \<Rightarrow> 'w daemon_iface \<Rightarrow> runner \<Rightarrow> nat \<Rightarrow> xflow list \<Rightarrow> dref list \<Rightarrow> string \<Rightarrow> 'w \<Rightarrow> validator \<Rightarrow>
     (nat \<times> string \<times> 'w) checked" where
  "run_flows env I r k [] ds acc w v = Inr ((k, acc, w), v)"
| "run_flows env I r k (f # fs) [] acc w v = Inl Crash"
| "run_flows env I r k (f # fs) (d # ds) acc w v =
     vthen (strip_flow env f v) (\<lambda>xml v.
       if k \<ge> length (rn_weights r) \<or> k \<ge> length (rn_numprocs r) then Inl Crash
       else
         (let host = di_hostname I d w;
              w = di_add_task I d w;
              acc = acc @ host @ '','' @ show_int (rn_weights r ! k) @ '','';
              w = send_run I d (show_nat (k + 1)) (show_int (rn_numprocs r ! k)) xml [] r w
          in run_flows env I r (k + 1) fs ds acc w v))"

definition divide_and_run_flows :: "run_env \<Rightarrow> 'w daemon_iface \<Rightarrow> runner \<Rightarrow> 'w \<Rightarrow> validator \<Rightarrow> 'w run" where
  "divide_and_run_flows env I r w v =
     vthen (gebr_geoxml_flow_is_parallelizable (rn_flow r) v) (\<lambda>par v.
     vthen (gebr_geoxml_flow_divide_flows (re_upd env) (rn_flow r) (rn_distributed_n r) v) (\<lambda>flows v.
       (let r = r\<lparr>rn_ncores := Some (if par then show_int (sum_list (rn_numprocs r)) else ''1'')\<rparr> in
        vthen (run_flows env I r 0 flows (rn_servers r) [] w v) (\<lambda>(k, acc, w) v.
          Inr ((call_ran_func (r\<lparr>rn_total := int k, rn_servers_list := Some (butlast acc)\<rparr>), w), v)))))"

section \<open>Parallel programs\<close>

definition mpi_program_get_np :: "updater \<Rightarrow> prog \<Rightarrow> validator \<Rightarrow> int checked" where
  "mpi_program_get_np upd p v =
     (if pr_mpi p = [] then Inr (0, v)
      else
        (case gebr_geoxml_program_mpi_get_n_process p of
           Some (Some procs) \<Rightarrow>
             vthen (gebr_validator_evaluate upd procs GEBR_GEOXML_PARAMETER_TYPE_INT FLOW False v)
               (\<lambda>(x, _) v. Inr (case x of None \<Rightarrow> 0 | Some n \<Rightarrow> c_atoi n, v))
         | _ \<Rightarrow> Inl Crash))"

definition daemon_has_mpi_flavor :: "cstr \<Rightarrow> string \<Rightarrow> bool" where
  "daemon_has_mpi_flavor flavors flavor \<longleftrightarrow>
     (case flavors of None \<Rightarrow> False | Some fs \<Rightarrow> strstr fs flavor \<noteq> None)"

text \<open>The first machine that is the executor gets one process for all programs that are not parallel.\<close>

fun add_executor :: "string \<Rightarrow> string list \<Rightarrow> int list \<Rightarrow> int list" where
  "add_executor x (h # hs) (c # cs) = (if h = x then (c + 1) # cs else c # add_executor x hs cs)"
| "add_executor x _ cs = cs"

fun add_even :: "int \<Rightarrow> int \<Rightarrow> bool list \<Rightarrow> int list \<Rightarrow> int list" where
  "add_even base left (b # bs) (c # cs) =
     (if \<not> b then c # add_even base left bs cs
      else if left > 0 then (c + base + 1) # add_even base (left - 1) bs cs
      else (c + base) # add_even base left bs cs)"
| "add_even base left _ cs = cs"

definition c_mod :: "int \<Rightarrow> int \<Rightarrow> int" where
  "c_mod a b = a - c_div a b * b"

text \<open>The hosts and the flavors are those of the machines; the flag tells that the executor has its process.\<close>

definition mpi_program_contrib ::
    "updater \<Rightarrow> string list \<Rightarrow> cstr list \<Rightarrow> string \<Rightarrow> prog \<Rightarrow> int list \<Rightarrow> bool \<Rightarrow> validator \<Rightarrow>
     (int list \<times> bool) checked" where
  "mpi_program_contrib upd hosts flavors executor p contrib added v =
     (if pr_mpi p = []
      then Inr (if added then (contrib, added) else (add_executor executor hosts contrib, executor \<in> set hosts), v)
      else
        (let has = List.map (\<lambda>fl. daemon_has_mpi_flavor fl (pr_mpi p)) flavors;
             n = int (length (filter id has)) in
         vthen (mpi_program_get_np upd p v) (\<lambda>np v.
           Inr ((add_even (c_div np n) (c_mod np n) has contrib, added), v))))"

fun contrib_loop ::
    "updater \<Rightarrow> string list \<Rightarrow> cstr list \<Rightarrow> string \<Rightarrow> prog list \<Rightarrow> int list \<Rightarrow> bool \<Rightarrow> int \<Rightarrow> validator \<Rightarrow>
     (int list \<times> int) checked" where
  "contrib_loop upd hosts flavors executor [] contrib added n_loop v = Inr ((contrib, n_loop), v)"
| "contrib_loop upd hosts flavors executor (p # ps) contrib added n_loop v =
     (if gebr_geoxml_program_get_control p \<noteq> GEBR_GEOXML_PROGRAM_CONTROL_FOR
      then vthen (mpi_program_contrib upd hosts flavors executor p contrib added v) (\<lambda>(contrib, added) v.
             contrib_loop upd hosts flavors executor ps contrib added n_loop v)
      else
        (case fst (gebr_geoxml_program_control_get_n p) of
           None \<Rightarrow> Inl Crash
         | Some n \<Rightarrow> contrib_loop upd hosts flavors executor ps contrib added (c_atoi n) v))"

definition calculate_weights_for_mpi ::
    "updater \<Rightarrow> 'w daemon_iface \<Rightarrow> runner \<Rightarrow> 'w \<Rightarrow> validator \<Rightarrow> real list checked" where
  "calculate_weights_for_mpi upd I r w v =
     (case rn_servers r of
        [] \<Rightarrow> Inl Crash
      | d # _ \<Rightarrow>
          vthen (contrib_loop upd (List.map (\<lambda>d. di_hostname I d w) (rn_run_servers r))
                   (List.map (\<lambda>d. di_flavors I d w) (rn_run_servers r)) (di_hostname I d w)
                   (fl_progs (rn_flow r)) (replicate (length (rn_run_servers r)) 0) False 1 v)
            (\<lambda>(contrib, n) v. Inr (List.map (\<lambda>c. of_int c * of_int n) contrib, v)))"

text \<open>A flavor that occurs inside one that is already listed is left out.\<close>

fun flavors_loop :: "prog list \<Rightarrow> string \<Rightarrow> string" where
  "flavors_loop [] acc = acc"
| "flavors_loop (p # ps) acc =
     flavors_loop ps (if pr_mpi p = [] \<or> strstr acc (pr_mpi p) \<noteq> None then acc else acc @ '','' @ pr_mpi p)"

definition get_mpi_flavors_for_flow :: "runner \<Rightarrow> string" where
  "get_mpi_flavors_for_flow r = tl (flavors_loop (fl_progs (rn_flow r)) [])"

fun max_np :: "updater \<Rightarrow> prog list \<Rightarrow> int \<Rightarrow> validator \<Rightarrow> int checked" where
  "max_np upd [] m v = Inr (m, v)"
| "max_np upd (p # ps) m v = vthen (mpi_program_get_np upd p v) (\<lambda>np v. max_np upd ps (max m np) v)"

definition set_max_np_for_mpi :: "updater \<Rightarrow> runner \<Rightarrow> validator \<Rightarrow> runner checked" where
  "set_max_np_for_mpi upd r v =
     vthen (max_np upd (fl_progs (rn_flow r)) 0 v) (\<lambda>m v. Inr (r\<lparr>rn_ncores := Some (show_int m)\<rparr>, v))"

text \<open>The machines with their flavors, and with their weights; the leading separator is erased.\<close>

definition mpi_servers_text :: "'w daemon_iface \<Rightarrow> dref list \<Rightarrow> 'w \<Rightarrow> string" where
  "mpi_servers_text I ds w =
     tl (concat (List.map (\<lambda>d. '';'' @ address (di_server I d w) @ '','' @
                               (case di_flavors I d w of None \<Rightarrow> [] | Some fs \<Rightarrow> fs)) ds))"

definition mpi_weights_text :: "(real \<Rightarrow> string) \<Rightarrow> 'w daemon_iface \<Rightarrow> dref list \<Rightarrow> real list \<Rightarrow> 'w \<Rightarrow> string" where
  "mpi_weights_text fmt I ds ws w =
     tl (concat (List.map (\<lambda>(d, x). '','' @ address (di_server I d w) @ '','' @ fmt x) (zip ds ws)))"

definition mpi_run_flow :: "run_env \<Rightarrow> 'w daemon_iface \<Rightarrow> runner \<Rightarrow> 'w \<Rightarrow> validator \<Rightarrow> 'w run" where
  "mpi_run_flow env I r w v =
     vthen (strip_flow env (rn_flow r) v) (\<lambda>xml v.
     vthen (calculate_weights_for_mpi (re_upd env) I r w v) (\<lambda>ws v.
     vthen (set_max_np_for_mpi (re_upd env) r v) (\<lambda>r v.
       case rn_servers r of
         [] \<Rightarrow> Inl Crash
       | d # _ \<Rightarrow>
           (let r = r\<lparr>rn_total := 1, rn_mpi_owner := Some (address (di_server I d w)),
                      rn_mpi_flavor := Some (get_mpi_flavors_for_flow r),
                      rn_servers_list := Some (mpi_weights_text (re_fmt_real env) I (rn_run_servers r) ws w),
                      rn_idle := rn_idle r + 1\<rparr>
            in Inr ((r, send_run I d ''1'' ''1'' xml (mpi_servers_text I (rn_run_servers r) w) r w), v)))))"

definition idle_run :: "runner \<Rightarrow> runner" where
  "idle_run r = (if rn_idle r = 0 then r else call_ran_func (r\<lparr>rn_idle := rn_idle r - 1\<rparr>))"

section \<open>Requests\<close>

text \<open>
  The number of iterations is evaluated and thrown away; the variable for it is freed also when the
  evaluation failed and it was never written.
\<close>

definition discard_eval_n :: "updater \<Rightarrow> xflow \<Rightarrow> validator \<Rightarrow> unit checked" where
  "discard_eval_n upd f v =
     (case gebr_geoxml_flow_get_control_program f of
        None \<Rightarrow> Inr ((), v)
      | Some loop \<Rightarrow>
          vthen (evaluate_unchecked upd (fst (gebr_geoxml_program_control_get_n loop))
                   GEBR_GEOXML_PARAMETER_TYPE_FLOAT LINE v) (\<lambda>_ v. Inr ((), v)))"

definition run_flow :: "run_env \<Rightarrow> 'w daemon_iface \<Rightarrow> runner \<Rightarrow> 'w \<Rightarrow> validator \<Rightarrow> 'w run" where
  "run_flow env I r w v =
     vthen (set_servers_execution_info env (\<lambda>d. di_hostname I d w)
              (r\<lparr>rn_cores_scores := g_list_sort server_score_comp_func (rn_cores_scores r)\<rparr>) v) (\<lambda>r v.
       if gebr_geoxml_flow_get_first_mpi_program (rn_flow r) \<noteq> None then mpi_run_flow env I r w v
       else divide_and_run_flows env I r w v)"

text \<open>The answer of a machine: the text of its load.\<close>

definition on_response_received ::
    "run_env \<Rightarrow> 'w daemon_iface \<Rightarrow> dref \<Rightarrow> string \<Rightarrow> runner \<Rightarrow> 'w \<Rightarrow> validator \<Rightarrow> 'w run" where
  "on_response_received env I d load r w v =
     vthen (discard_eval_n (re_upd env) (rn_flow r) v) (\<lambda>_ v.
       (let s = di_server I d w in
        case calculate_server_score env d load (ncores s) (clock_cpu s) (di_n_running_jobs I d w) of
          None \<Rightarrow> Inl Crash
        | Some sc \<Rightarrow>
            (let r = r\<lparr>rn_cores_scores := rn_cores_scores r @ sc, rn_responses := rn_responses r + 1\<rparr> in
             if rn_responses r = rn_requests r then run_flow env I r w v else Inr ((r, w), v))))"

definition sys_load_request :: "run_env \<Rightarrow> http_msg" where
  "sys_load_request env =
     gebr_comm_http_msg_new_request (re_keys env) GEBR_COMM_HTTP_METHOD_GET ''/sys-load''
       (Some (Map.empty(''content-type'' \<mapsto> Some ''application/json''))) (Some [])"

text \<open>Machines that cannot execute or cannot be asked are dropped.\<close>

fun request_loads ::
    "run_env \<Rightarrow> 'w daemon_iface \<Rightarrow> dref list \<Rightarrow> 'w \<Rightarrow> dref list \<times> 'w" where
  "request_loads env I [] w = ([], w)"
| "request_loads env I (d # ds) w =
     (if \<not> di_can_execute I d w \<or> \<not> socket_connected (di_server I d w) then request_loads env I ds w
      else
        (let (asked, w) =
           request_loads env I ds (di_on_server I d (act (SocketWrite (raw (sys_load_request env)))) w)
         in (d # asked, w)))"

definition gebr_comm_runner_run_async ::
    "run_env \<Rightarrow> 'w daemon_iface \<Rightarrow> runner \<Rightarrow> 'w \<Rightarrow> bool \<times> runner \<times> 'w" where
  "gebr_comm_runner_run_async env I r w =
     (let (asked, w) = request_loads env I (rn_servers r) w
      in (asked \<noteq> [], r\<lparr>rn_servers := asked, rn_requests := int (length asked), rn_responses := 0\<rparr>, w))"

end
