(* ===== verification/Flow_Divide.thy ===== *)
theory Flow_Divide
  imports Geoxml_Flow Validator_Typed
begin

text \<open>
  Facts about the loop of a flow: the shares that \<open>gebr_geoxml_flow_calculate_proportional_n\<close> gives to the machines,
  and the iterations that the parts of a divided flow run.
\<close>

section \<open>Reading back the bounds of a loop\<close>

lemma find_control_iff:
  "gebr_geoxml_program_get_control p \<noteq> GEBR_GEOXML_PROGRAM_CONTROL_ORDINARY \<and>
   gebr_geoxml_program_get_control p \<noteq> GEBR_GEOXML_PROGRAM_CONTROL_UNKNOWN \<longleftrightarrow>
   gebr_geoxml_program_get_control p = GEBR_GEOXML_PROGRAM_CONTROL_FOR"
  by (simp add: gebr_geoxml_program_get_control_def)

lemma control_program_eq:
  "gebr_geoxml_flow_get_control_program f =
     find (\<lambda>p. gebr_geoxml_program_get_control p = GEBR_GEOXML_PROGRAM_CONTROL_FOR) (fl_progs f)"
  unfolding gebr_geoxml_flow_get_control_program_def find_control_iff ..

lemma find_update_first:
  assumes "find P xs = Some x" "P y"
  shows "find P (xs[length (takeWhile (\<lambda>z. \<not> P z) xs) := y]) = Some y"
  using assms by (induction xs) (auto split: if_splits)

lemma set_n_control [simp]:
  "gebr_geoxml_program_get_control (gebr_geoxml_program_control_set_n s i n p) = gebr_geoxml_program_get_control p"
  by (simp add: gebr_geoxml_program_control_set_n_def gebr_geoxml_program_get_control_def)

lemma set_loop_control_program:
  assumes "gebr_geoxml_flow_get_control_program f = Some loop"
  shows "gebr_geoxml_flow_get_control_program (f\<lparr>fl_progs := set_loop s i n loop (fl_progs f)\<rparr>) =
    Some (gebr_geoxml_program_control_set_n s i n loop)"
proof -
  have "gebr_geoxml_program_get_control loop = GEBR_GEOXML_PROGRAM_CONTROL_FOR"
    using assms by (auto simp: control_program_eq find_Some_iff)
  then show ?thesis
    using assms find_update_first [of _ "fl_progs f" loop "gebr_geoxml_program_control_set_n s i n loop"]
    by (simp add: control_program_eq set_loop_def)
qed

text \<open>Every parameter of the loop has a value, and its three bounds are there.\<close>

definition keywords_of :: "prog_param list \<Rightarrow> string set" where
  "keywords_of ps = (\<lambda>a. p_name (pp_param a)) ` set ps"

lemma keywords_of_simps [simp]:
  "keywords_of [] = {}" "keywords_of (a # ps) = insert (p_name (pp_param a)) (keywords_of ps)"
  by (simp_all add: keywords_of_def)

definition loop_ready :: "prog \<Rightarrow> bool" where
  "loop_ready p \<longleftrightarrow>
     list_all (\<lambda>a. p_values (pp_param a) \<noteq> []) (pr_params p) \<and>
     {''niter'', ''step'', ''ini_value''} \<subseteq> keywords_of (pr_params p)"

definition bound_values :: "string \<Rightarrow> string \<Rightarrow> string \<Rightarrow> prog_param \<Rightarrow> bool" where
  "bound_values s i n a \<longleftrightarrow>
     (p_name (pp_param a) = ''niter'' \<longrightarrow> pp_value_or_default a = n) \<and>
     (p_name (pp_param a) = ''step'' \<longrightarrow> pp_value_or_default a = s) \<and>
     (p_name (pp_param a) = ''ini_value'' \<longrightarrow> pp_value_or_default a = i)"

lemma info_of_uniform:
  assumes "list_all (bound_values s i n) ps"
    and "gebr_geoxml_program_control_get_info ps (b0, b1, b2) = (c0, c1, c2)"
  shows "map_option fst c0 = (if ''ini_value'' \<in> keywords_of ps then Some i else map_option fst b0) \<and>
     map_option fst c1 = (if ''step'' \<in> keywords_of ps then Some s else map_option fst b1) \<and>
     map_option fst c2 = (if ''niter'' \<in> keywords_of ps then Some n else map_option fst b2)"
  using assms
proof (induction ps arbitrary: b0 b1 b2)
  case (Cons a ps)
  let ?x = "Some (pp_value_or_default a, p_label (pp_param a))"
  consider (n) "p_name (pp_param a) = ''niter''" | (s) "p_name (pp_param a) = ''step''"
    | (i) "p_name (pp_param a) = ''ini_value''" | (other) "p_name (pp_param a) \<notin> {''niter'', ''step'', ''ini_value''}"
    by auto
  then show ?case
  proof cases
    case n then show ?thesis using Cons.IH [of b0 b1 ?x] Cons.prems by (simp add: bound_values_def)
  next
    case s then show ?thesis using Cons.IH [of b0 ?x b2] Cons.prems by (simp add: bound_values_def)
  next
    case i then show ?thesis using Cons.IH [of ?x b1 b2] Cons.prems by (simp add: bound_values_def)
  next
    case other then show ?thesis using Cons.IH [of b0 b1 b2] Cons.prems by auto
  qed
qed simp

lemma set_pp_value_read:
  assumes "p_values (pp_param a) \<noteq> []" "x \<noteq> []"
  shows "pp_value_or_default (set_pp_value x a) = x" "p_name (pp_param (set_pp_value x a)) = p_name (pp_param a)"
  using assms by (auto simp: pp_value_or_default_def pp_value_def set_pp_value_def split: list.splits)

lemma set_bound_name [simp]: "p_name (pp_param (set_bound s i n a)) = p_name (pp_param a)"
  by (simp add: set_bound_def set_pp_value_def)

lemma get_n_set_n:
  assumes "loop_ready p" "gebr_geoxml_program_get_control p = GEBR_GEOXML_PROGRAM_CONTROL_FOR"
    and "s \<noteq> []" "i \<noteq> []" "n \<noteq> []"
  shows "gebr_geoxml_program_control_get_n (gebr_geoxml_program_control_set_n s i n p) = (Some n, Some s, Some i)"
proof -
  let ?ps = "map (set_bound s i n) (pr_params p)"
  have "list_all (bound_values s i n) ?ps"
    using assms by (auto simp: loop_ready_def list_all_iff set_bound_def set_pp_value_read bound_values_def)
  note info = info_of_uniform [OF this]
  have k: "keywords_of ?ps = keywords_of (pr_params p)" by (simp add: keywords_of_def image_image)
  obtain c0 c1 c2 where c: "gebr_geoxml_program_control_get_info ?ps (None, None, None) = (c0, c1, c2)"
    by (cases "gebr_geoxml_program_control_get_info ?ps (None, None, None)")
  have "map_option fst c0 = Some i" "map_option fst c1 = Some s" "map_option fst c2 = Some n"
    using info [OF c] assms(1) unfolding k loop_ready_def by auto
  moreover have "loop_bounds (gebr_geoxml_program_control_set_n s i n p) = (c0, c1, c2)"
    using assms(2) c by (simp add: loop_bounds_def gebr_geoxml_program_control_set_n_def)
  ultimately show ?thesis
    using assms(2) by (simp add: gebr_geoxml_program_control_get_n_def del: map_option_eq_Some)
qed

section \<open>The iterations of a divided flow\<close>

text \<open>The values that the variable of the loop takes.\<close>

definition loop_values :: "xflow \<Rightarrow> rat list" where
  "loop_values f =
     (case gebr_geoxml_flow_get_control_program f of
        None \<Rightarrow> []
      | Some p \<Rightarrow>
          (case gebr_geoxml_program_control_get_n p of
             (Some n, Some step, Some ini) \<Rightarrow>
               List.map (\<lambda>j. g_strtod ini + of_nat j * g_strtod step) [0..<nat (c_atoi n)]
           | _ \<Rightarrow> []))"

text \<open>The values that the undivided loop takes: \<open>n\<close> steps of \<open>s\<close> from \<open>i\<close>.\<close>

definition exact_values :: "rat \<Rightarrow> rat \<Rightarrow> nat \<Rightarrow> rat list" where
  "exact_values i s n = List.map (\<lambda>j. i + of_nat j * s) [0..<n]"

lemma c_atoi_show_int:
  assumes "0 \<le> i" "i < 2 ^ 31"
  shows "c_atoi (show_int i) = i"
  using assms by (simp add: c_atoi_def strtol10_show_int sint_word_ariths signed_take_bit_int_eq_self_iff sint_sbintrunc'
      min_def max_def signed_take_bit_int_eq_self)

lemma upt_append_map:
  "map f [0..<m] @ map (\<lambda>j. f (m + j)) [0..<n] = map f [0..<m + n]"
  by (rule nth_equalityI) (auto simp: nth_append)

lemma exact_values_append: "exact_values i s m @ exact_values (of_nat m * s + i) s n = exact_values i s (m + n)"
  using upt_append_map [of "\<lambda>j. i + of_nat j * s" m n]
  by (simp add: exact_values_def algebra_simps)

lemma exact_values_shift: "list_all2 (\<lambda>x y. \<bar>x - y\<bar> \<le> 1 / 2000000) (exact_values (six_places i) s n) (exact_values i s n)"
  using six_places_near [of i] by (simp add: exact_values_def list_all2_map1 list_all2_map2 list_all2_same)

lemma taken_sum_nonneg: "0 \<le> sum_list (takeWhile (\<lambda>d. 0 < d) (ds :: int list))"
  by (rule sum_list_nonneg) (auto dest: set_takeWhileD)

lemma exact_values_split:
  assumes "0 < d"
  shows "exact_values i s (nat d) @ exact_values (of_int d * s + i) s (nat (sum_list (takeWhile (\<lambda>d. 0 < d) ds))) =
    exact_values i s (nat (sum_list (takeWhile (\<lambda>d. 0 < d) (d # ds))))"
proof -
  have d: "of_int d = (of_nat (nat d) :: rat)" using assms by (simp add: of_nat_nat)
  show ?thesis unfolding d exact_values_append using assms taken_sum_nonneg [of ds] by (simp add: nat_add_distrib)
qed

lemma part_values:
  assumes "gebr_geoxml_flow_get_control_program f = Some loop" "loop_ready loop" "s \<noteq> []" "0 < d" "d < 2 ^ 31"
  shows "loop_values (f\<lparr>fl_progs := set_loop s (show_f i) (show_int d) loop (fl_progs f)\<rparr>) =
     exact_values (six_places i) (g_strtod s) (nat d)"
proof -
  have "gebr_geoxml_program_get_control loop = GEBR_GEOXML_PROGRAM_CONTROL_FOR"
    using assms(1) by (auto simp: control_program_eq find_Some_iff)
  moreover have "show_int d \<noteq> []" by (simp add: show_int_def)
  ultimately show ?thesis
    using assms by (simp add: loop_values_def set_loop_control_program [OF assms(1)] get_n_set_n c_atoi_show_int
        read_show_f exact_values_def)
qed

text \<open>Each part starts at a number of six decimals: near where it should, and there when six decimals are enough.\<close>

lemma divide_loop_values:
  assumes "gebr_geoxml_flow_get_control_program f = Some loop" "loop_ready loop" "s \<noteq> []" "\<forall>d\<in>set ds. d < 2 ^ 31"
  shows "list_all2 (\<lambda>x y. \<bar>x - y\<bar> \<le> 1 / 2000000)
     (concat (map loop_values (divide_loop f loop s (g_strtod s) i ds)))
     (exact_values i (g_strtod s) (nat (sum_list (takeWhile (\<lambda>d. 0 < d) ds))))"
  using assms(4)
proof (induction ds arbitrary: i)
  case (Cons d ds)
  show ?case
  proof (cases "d \<le> 0")
    case False
    then have "0 < d" by simp
    have part: "list_all2 (\<lambda>x y. \<bar>x - y\<bar> \<le> 1 / 2000000)
        (loop_values (f\<lparr>fl_progs := set_loop s (show_f i) (show_int d) loop (fl_progs f)\<rparr>))
        (exact_values i (g_strtod s) (nat d))"
      using False Cons.prems part_values [OF assms(1-3), of d i] exact_values_shift by simp
    have "\<forall>d\<in>set ds. d < 2 ^ 31" using Cons.prems by simp
    from list_all2_appendI [OF part Cons.IH [OF this, of "of_int d * g_strtod s + i"]] False show ?thesis
      unfolding exact_values_split [OF \<open>0 < d\<close>] by (simp del: takeWhile.simps)
  qed (simp add: exact_values_def)
qed (simp add: exact_values_def)

lemma divide_loop_exact:
  assumes "gebr_geoxml_flow_get_control_program f = Some loop" "loop_ready loop" "s \<noteq> []" "\<forall>d\<in>set ds. d < 2 ^ 31"
    and "i * 10 ^ 6 \<in> \<int>" "g_strtod s * 10 ^ 6 \<in> \<int>"
  shows "concat (map loop_values (divide_loop f loop s (g_strtod s) i ds)) =
     exact_values i (g_strtod s) (nat (sum_list (takeWhile (\<lambda>d. 0 < d) ds)))"
  using assms(4,5)
proof (induction ds arbitrary: i)
  case (Cons d ds)
  show ?case
  proof (cases "d \<le> 0")
    case False
    then have "0 < d" by simp
    have "(of_int d * g_strtod s + i) * 10 ^ 6 = of_int d * (g_strtod s * 10 ^ 6) + i * 10 ^ 6" by (simp add: algebra_simps)
    also have "\<dots> \<in> \<int>" by (rule Ints_add [OF Ints_mult [OF Ints_of_int assms(6)] Cons.prems(2)])
    finally have "concat (map loop_values (divide_loop f loop s (g_strtod s) (of_int d * g_strtod s + i) ds)) =
        exact_values (of_int d * g_strtod s + i) (g_strtod s) (nat (sum_list (takeWhile (\<lambda>d. 0 < d) ds)))"
      using Cons.IH Cons.prems(1) by simp
    moreover have "loop_values (f\<lparr>fl_progs := set_loop s (show_f i) (show_int d) loop (fl_progs f)\<rparr>) =
        exact_values i (g_strtod s) (nat d)"
      using False Cons.prems part_values [OF assms(1-3), of d i] six_places_exact [OF Cons.prems(2)] by simp
    ultimately show ?thesis
      unfolding exact_values_split [OF \<open>0 < d\<close>, symmetric] using False by simp
  qed (simp add: exact_values_def)
qed (simp add: exact_values_def)

section \<open>Proportional shares\<close>

lemma mod_pred:
  fixes x n :: int
  assumes "0 < n"
  shows "(x - 1) mod n = (if x mod n = 0 then n - 1 else x mod n - 1)"
proof -
  have "(x - 1) mod n = (x mod n - 1) mod n" by (simp add: mod_diff_left_eq)
  moreover have "0 \<le> x mod n" "x mod n < n" using assms by simp_all
  moreover have "- 1 mod n = n - 1" using assms zmod_minus1 by simp
  ultimately show ?thesis using mod_pos_pos_trivial [of "x mod n - 1" n] by (cases "x mod n = 0") auto
qed

text \<open>With at most as many steps as machines, each machine gets at most one more.\<close>

lemma spread_once:
  assumes "0 \<le> k" "k < int (length ds)" "m \<le> length ds"
  shows "\<exists>ds'. spread m k ds = Some ds' \<and> length ds' = length ds \<and>
     (\<forall>i<length ds. ds' ! i = ds ! i + (if (k - int i) mod int (length ds) < int m then 1 else 0))"
  using assms
proof (induction m arbitrary: k ds)
  case 0
  then have "0 < int (length ds)" by linarith
  then have "\<not> (k - int i) mod int (length ds) < int 0" for i by (simp add: not_less)
  then show ?case by simp
next
  case (Suc m)
  let ?n = "int (length ds)" and ?ds = "ds[nat k := ds ! nat k + 1]"
  let ?k = "if k = 0 then ?n - 1 else k - 1"
  have "0 \<le> ?k" "?k < int (length ?ds)" "m \<le> length ?ds" using Suc.prems by auto
  from Suc.IH [OF this] obtain ds' where ds': "spread m ?k ?ds = Some ds'" "length ds' = length ds"
    "\<forall>i<length ds. ds' ! i = ?ds ! i + (if (?k - int i) mod ?n < int m then 1 else 0)" by auto
  have "ds' ! i = ds ! i + (if (k - int i) mod ?n < int (Suc m) then 1 else 0)" if i: "i < length ds" for i
  proof -
    have n: "0 < ?n" using i by linarith
    have "(?k - int i) mod ?n = (k - int i - 1) mod ?n"
    proof (cases "k = 0")
      case True
      have "?n - 1 - int i = (- int i - 1) + ?n" by simp
      then have "(?n - 1 - int i) mod ?n = (- int i - 1) mod ?n" by (simp only: mod_add_self2)
      then show ?thesis using True by simp
    next
      case False
      then show ?thesis by (simp add: algebra_simps)
    qed
    then have k': "(?k - int i) mod ?n = (if (k - int i) mod ?n = 0 then ?n - 1 else (k - int i) mod ?n - 1)"
      using mod_pred [OF n] by simp
    have "(k - int i) mod ?n = 0 \<longleftrightarrow> i = nat k"
    proof
      assume "(k - int i) mod ?n = 0"
      then have "?n dvd k - int i" by (simp add: dvd_eq_mod_eq_0)
      moreover have "\<bar>k - int i\<bar> < ?n" using i Suc.prems by auto
      ultimately have "k - int i = 0" using dvd_imp_le_int [of "k - int i" ?n] by linarith
      then show "i = nat k" by simp
    qed (use Suc.prems in simp)
    moreover have "0 \<le> (k - int i) mod ?n" using n by simp
    ultimately show ?thesis using ds'(3) i Suc.prems k' by auto
  qed
  then show ?case using ds' Suc.prems by (auto simp: not_le)
qed

lemma sum_list_increment:
  fixes ds :: "int list"
  shows "i < length ds \<Longrightarrow> sum_list (ds[i := ds ! i + 1]) = sum_list ds + 1"
  by (induction ds arbitrary: i) (auto split: nat.splits)

lemma spread_sum:
  assumes "spread m k ds = Some ds'"
  shows "sum_list ds' = sum_list ds + int m"
  using assms
proof (induction m arbitrary: k ds)
  case (Suc m)
  then have k: "nat k < length ds" by (auto split: if_splits)
  have "sum_list (ds[nat k := ds ! nat k + 1]) = sum_list ds + 1"
    using k by (rule sum_list_increment)
  then show ?case using Suc by (auto split: if_splits)
qed simp

lemma sum_list_floor:
  fixes xs :: "real list"
  shows "of_int (sum_list (map floor xs)) \<le> sum_list xs \<and>
     sum_list xs \<le> of_int (sum_list (map floor xs)) + of_nat (length xs)"
proof (induction xs)
  case (Cons x xs)
  have "of_int \<lfloor>x\<rfloor> \<le> x" "x \<le> of_int \<lfloor>x\<rfloor> + 1" by linarith+
  with Cons show ?case by (intro conjI) (simp_all, linarith+)
qed simp

lemma map_trunc:
  assumes "0 \<le> tot" "\<forall>w\<in>set ws. 0 \<le> w"
  shows "map (\<lambda>w. c_trunc (of_int tot * w)) ws = map floor (map (\<lambda>w. of_int tot * w) ws)"
proof -
  have "c_trunc (of_int tot * w) = \<lfloor>of_int tot * w\<rfloor>" if "w \<in> set ws" for w
  proof -
    have "0 \<le> of_int tot * w" using assms that by simp
    then show ?thesis by (simp add: c_trunc_def)
  qed
  then show ?thesis by simp
qed

lemma near_floor:
  fixes x :: real
  assumes "d = \<lfloor>x\<rfloor> \<or> d = \<lfloor>x\<rfloor> + 1"
  shows "\<bar>of_int d - x\<bar> \<le> 1"
proof -
  have "d \<le> \<lfloor>x\<rfloor> + 1" "\<lfloor>x\<rfloor> \<le> d" using assms by auto
  then show ?thesis by linarith
qed

text \<open>
  C23: the shares of a loop are as many as the machines, they add up to the number of iterations, and each
  differs from the exact share of its machine by at most one iteration.
\<close>

theorem proportional_shares:
  assumes "0 < tot" "ws \<noteq> []" "\<forall>w\<in>set ws. 0 \<le> w" "sum_list ws = 1"
  shows "\<exists>ds. gebr_geoxml_flow_calculate_proportional_n tot ws = Some (ds, map (\<lambda>d. of_int d / of_int tot) ds) \<and>
     length ds = length ws \<and> sum_list ds = tot \<and>
     (\<forall>i<length ws. \<bar>of_int (ds ! i) - of_int tot * ws ! i\<bar> \<le> 1)"
proof -
  let ?xs = "map (\<lambda>w. of_int tot * w) ws"
  let ?ds = "map floor ?xs" and ?k = "if tot \<le> int (length ws) then tot - 1 else int (length ws) - 1"
  have ds: "map (\<lambda>w. c_trunc (of_int tot * w)) ws = ?ds"
    using assms(1,3) by (intro map_trunc) auto
  have "sum_list ?xs = of_int tot" using assms(4) by (simp add: sum_list_const_mult)
  then have le: "sum_list ?ds \<le> tot" "tot \<le> sum_list ?ds + int (length ws)"
    using sum_list_floor [of ?xs] by simp_all
  have "0 \<le> ?k" "?k < int (length ?ds)" "nat (tot - sum_list ?ds) \<le> length ?ds" using assms(1,2) le by auto
  from spread_once [OF this] obtain ds' where ds': "spread (nat (tot - sum_list ?ds)) ?k ?ds = Some ds'"
    "length ds' = length ws" "\<forall>i<length ws. ds' ! i = ?ds ! i \<or> ds' ! i = ?ds ! i + 1"
    by (fastforce split: if_splits)
  have "sum_list ds' = tot" using spread_sum [OF ds'(1)] le by simp
  moreover have "\<bar>of_int (ds' ! i) - of_int tot * ws ! i\<bar> \<le> 1" if "i < length ws" for i
  proof -
    have "ds' ! i = \<lfloor>of_int tot * ws ! i\<rfloor> \<or> ds' ! i = \<lfloor>of_int tot * ws ! i\<rfloor> + 1" using ds'(3) that by auto
    then show ?thesis by (rule near_floor)
  qed
  ultimately show ?thesis
    using ds' by (auto simp: gebr_geoxml_flow_calculate_proportional_n_def ds Let_def)
qed

theorem proportional_shares_witness:
  "\<exists>ds. gebr_geoxml_flow_calculate_proportional_n 4 [9 / 10, 1 / 20, 1 / 20] = Some (ds, map (\<lambda>d. of_int d / of_int 4) ds) \<and>
     length ds = 3 \<and> sum_list ds = 4"
  using proportional_shares [of 4 "[9 / 10, 1 / 20, 1 / 20]"] by auto


section \<open>Divided flows\<close>

text \<open>
  C21: the parts of a divided loop run, one after the other, as many iterations as the shares add up to before the
  first share that is not positive, in the order of the undivided loop. Every part starts at a number that is written with six
  decimals: the values of the iterations are those of the undivided loop when its start and its step have at most six
  decimals, and otherwise differ from them by at most half a millionth.
\<close>

theorem divided_flow_iterations:
  assumes "gebr_geoxml_flow_is_parallelizable f v = Inr (True, v1)"
    and "gebr_geoxml_flow_get_control_program f = Some loop" "loop_ready loop"
    and "gebr_geoxml_program_control_get_n loop = (n, step, ini)"
    and "evaluate_unchecked upd step GEBR_GEOXML_PARAMETER_TYPE_INT LINE v1 = Inr (s, v2)" "s \<noteq> []"
    and "evaluate_unchecked upd ini GEBR_GEOXML_PARAMETER_TYPE_INT LINE v2 = Inr (i, v3)"
    and "\<forall>d\<in>set ds. d < 2 ^ 31"
  shows "\<exists>fs. gebr_geoxml_flow_divide_flows upd f ds v = Inr (fs, v3) \<and>
     (let xs = concat (map loop_values fs);
          ys = exact_values (g_strtod i) (g_strtod s) (nat (sum_list (takeWhile (\<lambda>d. 0 < d) ds)))
      in list_all2 (\<lambda>x y. \<bar>x - y\<bar> \<le> 1 / 2000000) xs ys \<and>
         (g_strtod i * 10 ^ 6 \<in> \<int> \<and> g_strtod s * 10 ^ 6 \<in> \<int> \<longrightarrow> xs = ys))"
  using divide_loop_values [of f loop s ds "g_strtod i"] divide_loop_exact [of f loop s ds "g_strtod i"] assms
  by (simp add: gebr_geoxml_flow_divide_flows_def Let_def)

definition loop_param :: "string \<Rightarrow> string \<Rightarrow> prog_param" where
  "loop_param k x =
     \<lparr>pp_param = \<lparr>p_name = k, p_type = GEBR_GEOXML_PARAMETER_TYPE_FLOAT, p_values = [x], p_sep = None,
        p_required = True, p_label = k, p_doc = 0, p_dict = False, p_for = True\<rparr>,
      pp_default = [], pp_selected = True\<rparr>"

definition loop_program :: prog where
  "loop_program =
     \<lparr>pr_title = ''loop'', pr_stdin = ''no'', pr_stdout = ''no'', pr_stderr = ''no'', pr_status = ''configured'',
      pr_control = ''for'', pr_mpi = [], pr_mpi_np = None, pr_error = None, pr_help = [],
      pr_params = [loop_param ''niter'' ''4'', loop_param ''step'' ''2'', loop_param ''ini_value'' ''7'']\<rparr>"

definition loop_flow :: xflow where
  "loop_flow =
     \<lparr>fl_progs = [loop_program], fl_input = [], fl_output = [], fl_errfile = [], fl_output_append = [],
      fl_error_append = [], fl_dict = [], fl_revisions = [], fl_parent = [], fl_categories = [], fl_help = [], fl_doc = 0\<rparr>"

text \<open>A validator whose process answers four evaluations: each text is evaluated twice.\<close>

definition answers :: "string list \<Rightarrow> validator \<Rightarrow> validator" where
  "answers xs v = v\<lparr>arith := (arith v)\<lparr>bc_out := concat (List.map (\<lambda>x. [BcLine (x @ [NL]), BcLine EVAL_COOKIE]) xs)\<rparr>\<rparr>"



lemma digit_answered:
  assumes "x = ''2'' \<or> x = ''7''"
  shows "\<exists>b. gebr_arith_expr_eval_internal (None, None) x err
      (a\<lparr>bc_out := BcLine (x @ [NL]) # BcLine EVAL_COOKIE # ls\<rparr>) = Inr (Some x, err, a\<lparr>bc_in := b, bc_out := ls\<rparr>)"
proof -
  have "read_answer (BcLine (x @ [NL]) # BcLine EVAL_COOKIE # ls) [] 0 err = AnswerDone (x @ [NL]) 1 err ls"
    using assms by (elim disjE) (simp_all add: read_answer.simps EVAL_COOKIE_def)
  moreover have "g_strstrip x \<noteq> []"
    using assms by (elim disjE) (simp_all add: g_strstrip_def g_strchug_def g_strchomp_def is_space_def code_def)
  ultimately have "gebr_arith_expr_eval_internal (None, None) x err
      (a\<lparr>bc_out := BcLine (x @ [NL]) # BcLine EVAL_COOKIE # ls\<rparr>) = Inr (Some x, err,
      a\<lparr>bc_in := bc_in a @ [x @ [NL, CHR 0x22] @ EVAL_COOKIE @ [CHR 0x22, NL]], bc_out := ls\<rparr>)"
    by (simp add: gebr_arith_expr_eval_internal_def Let_def del: read_answer.simps)
  then show ?thesis by blast
qed

lemma digit_value:
  assumes "x = ''2'' \<or> x = ''7''" "vtab v ''iter'' = None"
  shows "\<exists>v'. gebr_validator_evaluate (\<lambda>_ _ v. Inr (True, v)) x GEBR_GEOXML_PARAMETER_TYPE_INT s False
      (answers (x # x # xs) v) = Inr ((Some x, None), answers xs v') \<and> vtab v' ''iter'' = None"
proof -
  have x: "x \<noteq> []" "g_strstrip x \<noteq> []" "gebr_arith_expr_extract_vars x = []" "\<not> has_char x (CHR '';'')"
    "\<not> has_char x QUOTE" "length x \<le> MAX_RESULT_LENGTH"
    using assms(1) by (elim disjE; simp add: g_strstrip_def g_strchug_def g_strchomp_def is_space_def code_def
        gebr_arith_expr_extract_vars_def is_alpha_def is_lower_def is_upper_def has_char_def MAX_RESULT_LENGTH_def)+
  have e: "\<exists>v''. bc_eval x None (answers (x # ys) v) = Inr ((Some x, None), answers ys v'') \<and> vtab v'' ''iter'' = None"
    if "vtab v ''iter'' = None" for ys v
  proof -
    let ?ls = "concat (map (\<lambda>x. [BcLine (x @ [NL]), BcLine EVAL_COOKIE]) ys)"
    obtain b where "gebr_arith_expr_eval_internal (None, None) x None
        ((arith v)\<lparr>bc_out := BcLine (x @ [NL]) # BcLine EVAL_COOKIE # ?ls\<rparr>) =
      Inr (Some x, None, (arith v)\<lparr>bc_in := b, bc_out := ?ls\<rparr>)"
      using digit_answered [OF assms(1)] by blast
    then have "bc_eval x None (answers (x # ys) v) =
        Inr ((Some x, None), answers ys (v\<lparr>arith := (arith v)\<lparr>bc_in := b\<rparr>\<rparr>))"
      by (simp add: bc_eval_def answers_def)
    then show ?thesis using that by fastforce
  qed
  obtain v1 where v1: "bc_eval x None (answers (x # x # xs) v) = Inr ((Some x, None), answers (x # xs) v1)"
    "vtab v1 ''iter'' = None" using e assms(2) by blast
  obtain v2 where v2: "bc_eval x None (answers (x # xs) v1) = Inr ((Some x, None), answers xs v2)"
    "vtab v2 ''iter'' = None" using e v1(2) by blast
  have "check_number None x GEBR_GEOXML_PARAMETER_TYPE_INT s [] (answers (x # x # xs) v) =
      Inr ((True, None), answers (x # xs) v1)"
    using x v1(1) by (simp add: check_number_def references_error_def)
  then have "check_expression (validate_path_expression upd) None x GEBR_GEOXML_PARAMETER_TYPE_INT s None
      (answers (x # x # xs) v) = Inr ((True, None), answers (x # xs) v1)" for upd
    using x by (simp add: check_expression_def set_dep_def text_type_def get_validator_by_type_def Let_def)
  moreover have "vtab (answers (x # xs) v1) ''iter'' = None" using v1(2) by (simp add: answers_def)
  then have "gebr_validator_evaluate_internal None x GEBR_GEOXML_PARAMETER_TYPE_INT s True (answers (x # xs) v1) =
      Inr ((Some x, None), answers xs v2)"
    using v2(1) by (simp add: gebr_validator_evaluate_internal_def get_validator_by_type_def gebr_validator_use_iter_def
        set_var_error_def)
  ultimately show ?thesis
    using x(1) v2(2) by (auto simp: gebr_validator_evaluate_def gebr_validator_evaluate_interval_def evaluate_with_def)
qed

lemma digit_evaluated:
  assumes "x = ''2'' \<or> x = ''7''" "vtab v ''iter'' = None"
  shows "\<exists>v'. evaluate_unchecked (\<lambda>_ _ v. Inr (True, v)) (Some x) GEBR_GEOXML_PARAMETER_TYPE_INT LINE
      (answers (x # x # xs) v) = Inr (x, answers xs v') \<and> vtab v' ''iter'' = None"
  using digit_value [OF assms, of LINE xs] by (auto simp: evaluate_unchecked_def)

lemma blank_no_iter: "vtab blank_validator ''iter'' = None"
  by (simp add: blank_validator_def)

lemma loop_flow_ready:
  "gebr_geoxml_flow_get_control_program loop_flow = Some loop_program" "loop_ready loop_program"
  "gebr_geoxml_program_control_get_n loop_program = (Some ''4'', Some ''2'', Some ''7'')"
  "gebr_geoxml_flow_is_parallelizable loop_flow v = Inr (True, v)"
  by (simp_all add: gebr_geoxml_flow_get_control_program_def loop_flow_def loop_program_def loop_param_def
      gebr_geoxml_program_get_control_def loop_ready_def gebr_geoxml_program_control_get_n_def loop_bounds_def
      pp_value_or_default_def pp_value_def gebr_geoxml_flow_is_parallelizable_def gebr_geoxml_program_get_status_def)

lemma read_two_seven: "g_strtod ''2'' = 2" "g_strtod ''7'' = 7"
  by (simp_all add: g_strtod_def read_magnitude_def read_exponent_def is_space_def code_def is_digit_def Let_def)

lemma four_read: "c_atoi ''4'' = 4"
  by (simp add: c_atoi_def strtol10_def is_space_def code_def is_digit_def)

theorem divided_flow_witness:
  "\<exists>fs v'. gebr_geoxml_flow_divide_flows (\<lambda>_ _ v. Inr (True, v)) loop_flow [1, 3]
       (answers [''2'', ''2'', ''7'', ''7''] blank_validator) = Inr (fs, v') \<and>
     concat (map (loop_values) fs) = [7, 9, 11, 13]"
proof -
  obtain v2 where v2: "evaluate_unchecked (\<lambda>_ _ v. Inr (True, v)) (Some ''2'') GEBR_GEOXML_PARAMETER_TYPE_INT LINE
      (answers [''2'', ''2'', ''7'', ''7''] blank_validator) = Inr (''2'', answers [''7'', ''7''] v2)" "vtab v2 ''iter'' = None"
    using digit_evaluated [of "''2''" blank_validator "[''7'', ''7'']"] blank_no_iter by auto
  obtain v3 where v3: "evaluate_unchecked (\<lambda>_ _ v. Inr (True, v)) (Some ''7'') GEBR_GEOXML_PARAMETER_TYPE_INT LINE
      (answers [''7'', ''7''] v2) = Inr (''7'', answers [] v3)"
    using digit_evaluated [of "''7''" v2 "[]"] v2(2) by auto
  have six: "(2 :: rat) * 10 ^ 6 \<in> \<int>" "(7 :: rat) * 10 ^ 6 \<in> \<int>" by simp_all
  from divided_flow_iterations [OF loop_flow_ready(4,1-3) v2(1) _ v3, of "[1, 3]"] six show ?thesis
    by (auto simp: Let_def read_two_seven exact_values_def upt_rec numeral_eq_Suc)
qed

text \<open>
  Four iterations among three machines, the first of which is much faster: the shares 3, 0 and 1 add up to
  four, but the division stops at the second machine and the last iteration is never run.
\<close>

theorem zero_share_drops_iterations:
  "\<exists>ds ws fs v'. gebr_geoxml_flow_calculate_proportional_n 4 [9 / 10, 1 / 20, 1 / 20] = Some (ds, ws) \<and> sum_list ds = 4 \<and>
     gebr_geoxml_flow_divide_flows (\<lambda>_ _ v. Inr (True, v)) loop_flow ds
       (answers [''2'', ''2'', ''7'', ''7''] blank_validator) = Inr (fs, v') \<and>
     loop_values loop_flow = [7, 9, 11, 13] \<and> concat (map (loop_values) fs) = [7, 9, 11]"
proof -
  obtain v2 where v2: "evaluate_unchecked (\<lambda>_ _ v. Inr (True, v)) (Some ''2'') GEBR_GEOXML_PARAMETER_TYPE_INT LINE
      (answers [''2'', ''2'', ''7'', ''7''] blank_validator) = Inr (''2'', answers [''7'', ''7''] v2)" "vtab v2 ''iter'' = None"
    using digit_evaluated [of "''2''" blank_validator "[''7'', ''7'']"] blank_no_iter by auto
  obtain v3 where v3: "evaluate_unchecked (\<lambda>_ _ v. Inr (True, v)) (Some ''7'') GEBR_GEOXML_PARAMETER_TYPE_INT LINE
      (answers [''7'', ''7''] v2) = Inr (''7'', answers [] v3)"
    using digit_evaluated [of "''7''" v2 "[]"] v2(2) by auto
  have ds: "gebr_geoxml_flow_calculate_proportional_n 4 [9 / 10, 1 / 20, 1 / 20] = Some ([3, 0, 1], [3 / 4, 0, 1 / 4])"
    by (simp add: gebr_geoxml_flow_calculate_proportional_n_def c_trunc_def numeral_eq_Suc)
  let ?fs = "divide_loop loop_flow loop_program ''2'' (g_strtod ''2'') (g_strtod ''7'') [3, 0, 1]"
  have "gebr_geoxml_flow_divide_flows (\<lambda>_ _ v. Inr (True, v)) loop_flow [3, 0, 1]
       (answers [''2'', ''2'', ''7'', ''7''] blank_validator) = Inr (?fs, answers [] v3)"
    using v2 v3 by (simp add: gebr_geoxml_flow_divide_flows_def loop_flow_ready)
  moreover have "concat (map (loop_values) ?fs) =
      exact_values (g_strtod ''7'') (g_strtod ''2'') (nat (sum_list (takeWhile (\<lambda>d. 0 < d) [3, 0, 1])))"
    by (rule divide_loop_exact) (use loop_flow_ready read_two_seven in auto)
  then have "concat (map (loop_values) ?fs) = [7, 9, 11]"
    by (simp add: exact_values_def read_two_seven upt_rec numeral_eq_Suc)
  moreover have "loop_values loop_flow = [7, 9, 11, 13]"
    by (simp add: loop_values_def loop_flow_ready read_two_seven four_read upt_rec numeral_eq_Suc)
  ultimately show ?thesis using ds by fastforce
qed

end
