(* ===== verification/Runner_Plan.thy ===== *)
theory Runner_Plan
  imports Comm_Runner Flow_Divide "HOL-Library.Multiset"
begin

text \<open>
  Facts about the distribution of a run over machines: the fit of the load, the order of cores and machines,
  the completeness of the plan, and the shares of a parallel program.
\<close>

section \<open>Load and scores\<close>

text \<open>The parabola goes through its three points.\<close>

theorem model_interpolates:
  assumes "x0 \<noteq> x1" "x0 \<noteq> x2" "x1 \<noteq> x2" "(x, y) \<in> {(x0, y0), (x1, y1), (x2, y2)}"
  shows "(case create_2ndDegreePoly_model (x0, y0) (x1, y1) (x2, y2) of (a, b, c) \<Rightarrow> a * x * x + b * x + c) = y"
proof -
  let ?m = "(x1 - x0) * (x2 - x0) * (x2 - x1)"
  have m: "?m \<noteq> 0" using assms by simp
  have "a / ?m * x * x + b / ?m * x + c / ?m = (a * x * x + b * x + c) / ?m" for a b c
    by (simp add: add_divide_distrib)
  then show ?thesis
    using assms(4) m by (auto simp: create_2ndDegreePoly_model_def Let_def nonzero_divide_eq_eq) (simp_all add: algebra_simps)
qed

theorem model_interpolates_witness:
  "(case create_2ndDegreePoly_model (- 15, 1) (- 5, 2) (- 1, 4) of (a, b, c) \<Rightarrow> a * (- 5) * (- 5) + b * (- 5) + c) = 2"
  by (rule model_interpolates) simp_all

section \<open>Sorting\<close>

lemma merge_lists_mset [simp]: "mset (merge_lists cmp xs ys) = mset xs + mset ys"
  by (induction cmp xs ys rule: merge_lists.induct) auto

lemma g_list_sort_mset [simp]: "mset (g_list_sort cmp xs) = mset xs"
proof (induction cmp xs rule: g_list_sort.induct)
  case (1 cmp xs)
  then show ?case
    by (subst g_list_sort.simps) (simp add: mset_append [symmetric] del: mset_append)
qed

lemma g_list_sort_set [simp]: "set (g_list_sort cmp xs) = set xs"
  by (metis g_list_sort_mset set_mset_mset)

lemma merge_lists_append:
  "\<forall>x\<in>set xs. \<forall>y\<in>set ys. cmp x y \<le> 0 \<Longrightarrow> merge_lists cmp xs ys = xs @ ys"
  by (induction cmp xs ys rule: merge_lists.induct) auto

lemma g_list_sort_id:
  assumes "\<forall>x\<in>set xs. \<forall>y\<in>set xs. cmp x y \<le> 0"
  shows "g_list_sort cmp xs = xs"
  using assms
proof (induction cmp xs rule: g_list_sort.induct)
  case (1 cmp xs)
  show ?case
  proof (cases "length xs < 2")
    case False
    let ?a = "take (length xs div 2) xs" and ?b = "drop (length xs div 2) xs"
    have "set ?a \<subseteq> set xs" "set ?b \<subseteq> set xs" by (auto dest: in_set_takeD in_set_dropD)
    then have "g_list_sort cmp ?a = ?a" "g_list_sort cmp ?b = ?b"
      using "1.IH" "1.prems" False by (auto simp: subset_iff)
    moreover have "merge_lists cmp ?a ?b = ?a @ ?b"
      using "1.prems" by (intro merge_lists_append) (auto dest: in_set_takeD in_set_dropD)
    ultimately show ?thesis using False by (subst g_list_sort.simps) simp
  qed (subst g_list_sort.simps, simp)
qed

lemma merge_lists_set [simp]: "set (merge_lists cmp xs ys) = set xs \<union> set ys"
  by (metis merge_lists_mset set_mset_mset set_mset_union)

lemma merge_lists_sorted:
  assumes "\<And>x y. cmp x y \<le> 0 \<longleftrightarrow> R x y" "\<And>x y. \<not> R x y \<Longrightarrow> R y x" "transp R"
  shows "sorted_wrt R xs \<Longrightarrow> sorted_wrt R ys \<Longrightarrow> sorted_wrt R (merge_lists cmp xs ys)"
  using assms(1)
  by (induction cmp xs ys rule: merge_lists.induct) (auto intro: assms(2) transpD [OF assms(3)])

lemma g_list_sort_sorted:
  assumes "\<And>x y. cmp x y \<le> 0 \<longleftrightarrow> R x y" "\<And>x y. \<not> R x y \<Longrightarrow> R y x" "transp R"
  shows "sorted_wrt R (g_list_sort cmp xs)"
  using assms(1)
proof (induction cmp xs rule: g_list_sort.induct)
  case (1 cmp xs)
  show ?case
  proof (cases "length xs < 2")
    case True
    then show ?thesis by (subst g_list_sort.simps) (cases xs, auto)
  next
    case False
    note merged = merge_lists_sorted [of cmp R, OF "1.prems" assms(2,3)]
    show ?thesis using False "1.IH" "1.prems" by (subst g_list_sort.simps) (simp add: merged)
  qed
qed

text \<open>The cores are sorted by falling score, and none is lost or made up.\<close>

theorem cores_sorted_by_score:
  "sorted_wrt (\<lambda>a b. snd b \<le> snd a) (g_list_sort server_score_comp_func cs) \<and>
   mset (g_list_sort server_score_comp_func cs) = mset cs"
  by (auto simp: server_score_comp_func_def Let_def transp_def intro!: g_list_sort_sorted split: if_splits)

text \<open>
  The machines are not sorted by weight. The comparison cuts the difference of two weights, which are between
  0 and 1, to an integer: unless one machine has all the weight, every comparison gives 0.
\<close>

theorem servers_not_sorted:
  assumes "\<forall>e\<in>set vs. 0 \<le> ei_weight e \<and> ei_weight e < sum_list (map ei_weight vs)"
  shows "map ei_daemon (normalize_and_sort_servers vs) = map ei_daemon vs"
proof -
  let ?s = "sum_list (map ei_weight vs)" and ?n = "\<lambda>e. e\<lparr>ei_weight := ei_weight e / sum_list (map ei_weight vs)\<rparr>"
  have "daemon_exec_info_comp_func (?n x) (?n y) \<le> 0" if "x \<in> set vs" "y \<in> set vs" for x y
  proof -
    have "0 \<le> ei_weight x" "ei_weight y < ?s" "0 < ?s" using assms that by force+
    then have "ei_weight y / ?s - ei_weight x / ?s < 1" by (simp add: diff_divide_distrib [symmetric])
    then have "\<lfloor>ei_weight y / ?s - ei_weight x / ?s\<rfloor> \<le> 0" by linarith
    moreover have "0 \<le> \<lfloor>- (ei_weight y / ?s - ei_weight x / ?s)\<rfloor>" if "ei_weight y / ?s - ei_weight x / ?s < 0"
      using that by linarith
    ultimately show ?thesis by (simp add: daemon_exec_info_comp_func_def c_trunc_def)
  qed
  then have "normalize_and_sort_servers vs = map ?n vs"
    by (auto simp: normalize_and_sort_servers_def Let_def intro!: g_list_sort_id)
  then show ?thesis by (simp add: o_def)
qed

theorem servers_not_sorted_witness:
  "map ei_daemon (normalize_and_sort_servers
     [\<lparr>ei_daemon = 0, ei_weight = 1 / 4, ei_np = 1, ei_nsteps = 1\<rparr>, \<lparr>ei_daemon = 1, ei_weight = 3 / 4, ei_np = 1, ei_nsteps = 3\<rparr>])
   = [0, 1]"
  by (subst servers_not_sorted) simp_all


section \<open>The plan is complete\<close>

text \<open>Sums over an association list and over its values.\<close>

definition total_of :: "('b \<Rightarrow> int) \<Rightarrow> ('a \<times> 'b) list \<Rightarrow> int" where
  "total_of g m = sum_list (map (\<lambda>(k, e). g e) m)"

lemma total_of_update:
  assumes "distinct (map fst m)" "map_of m k = Some e"
  shows "total_of g (AList.update k e' m) = total_of g m - g e + g e'"
  using assms by (induction m) (auto simp: total_of_def split: if_splits)

lemma total_of_insert: "map_of m k = None \<Longrightarrow> total_of g (AList.update k e' m) = total_of g m + g e'"
  by (induction m) (auto simp: total_of_def split: if_splits)

definition fresh_info :: "exec_info \<Rightarrow> bool" where
  "fresh_info e \<longleftrightarrow> ei_np e = 0 \<and> ei_nsteps e = 0"

lemma update_set: "set (AList.update k e m) \<subseteq> insert (k, e) (set m)"
  by (induction m) auto

definition fresh_map :: "exec_map \<Rightarrow> bool" where
  "fresh_map m \<longleftrightarrow> distinct (map fst m) \<and> (\<forall>(k, e)\<in>set m. fresh_info e)"

lemma fresh_update: "fresh_map m \<Longrightarrow> fresh_info e \<Longrightarrow> fresh_map (AList.update k e m)"
  using update_set [of k e m] by (fastforce simp: fresh_map_def distinct_update)

lemma fresh_total: "fresh_map m \<Longrightarrow> total_of ei_nsteps m = 0 \<and> total_of ei_np m = 0"
  by (induction m) (auto simp: fresh_map_def fresh_info_def total_of_def)

lemma exec_map_fresh: "fresh_map (exec_map_of host ds)"
proof -
  have "fresh_map m \<Longrightarrow>
    fresh_map (fold (\<lambda>d. AList.update (host d) \<lparr>ei_daemon = d, ei_weight = 0, ei_np = 0, ei_nsteps = 0\<rparr>) ds m)" for m
    by (induction ds arbitrary: m) (simp_all add: fresh_update fresh_info_def)
  from this [of "[]"] show ?thesis by (simp add: exec_map_of_def, simp add: fresh_map_def)
qed

text \<open>A machine has a share only if it has a process; nothing is negative.\<close>

definition busy_info :: "exec_info \<Rightarrow> bool" where
  "busy_info e \<longleftrightarrow> 0 \<le> ei_np e \<and> 0 \<le> ei_nsteps e \<and> (ei_np e = 0 \<longrightarrow> ei_nsteps e = 0)"

lemma add_shares_total:
  assumes "add_shares host n cs ks m = Some m'" "length cs = length ks" "distinct (map fst m)"
    and "\<forall>k\<in>set ks. 0 \<le> k" "\<forall>(k, e)\<in>set m. busy_info e"
  shows "distinct (map fst m') \<and> (\<forall>(k, e)\<in>set m'. busy_info e) \<and>
     total_of ei_nsteps m' = total_of ei_nsteps m + sum_list ks \<and>
     total_of ei_np m' = total_of ei_np m + int (length cs)"
  using assms
proof (induction cs arbitrary: ks m)
  case (Cons c cs)
  obtain d sc where c: "c = (d, sc)" by (cases c)
  obtain k ks' where ks: "ks = k # ks'" using Cons.prems(2) by (cases ks) auto
  obtain e where e: "map_of m (host d) = Some e" using Cons.prems(1) c ks by (auto split: option.splits)
  let ?e = "e\<lparr>ei_np := ei_np e + 1, ei_weight := ei_weight e + of_int k / of_int n, ei_nsteps := ei_nsteps e + k\<rparr>"
  have "busy_info e" using e Cons.prems(5) by (auto dest: map_of_SomeD)
  then have "busy_info ?e" using Cons.prems(4) ks by (auto simp: busy_info_def)
  then have "\<forall>(k, e)\<in>set (AList.update (host d) ?e m). busy_info e" using update_set Cons.prems(5) by fastforce
  then show ?case
    using Cons.IH [of ks' "AList.update (host d) ?e m"] Cons.prems c ks e
    by (simp add: distinct_update total_of_update)
qed (simp add: total_of_def)

lemma values_total:
  assumes "distinct (map fst m)" "\<And>xs. mset (order xs) = mset xs"
  shows "sum_list (map g (get_values order m)) = total_of g m" "set (get_values order m) = snd ` set m"
    "length (get_values order m) = length m"
proof -
  have "map (\<lambda>k. the (map_of m k)) (map fst m) = map snd m"
    using assms(1) by (auto simp: o_def intro!: map_cong)
  moreover have "mset (get_values order m) = mset (map (\<lambda>k. the (map_of m k)) (map fst m))"
    unfolding get_values_def mset_map [of _ "order (map fst m)"] assms(2) mset_map [of _ "map fst m"] ..
  ultimately have m: "mset (get_values order m) = mset (map snd m)" by (simp only:)
  have "mset (map g (get_values order m)) = mset (map g (map snd m))" unfolding mset_map [of g] m ..
  then have "sum_list (map g (get_values order m)) = sum_list (map g (map snd m))"
    unfolding sum_mset_sum_list [symmetric] by (rule arg_cong)
  then show "sum_list (map g (get_values order m)) = total_of g m"
    by (simp add: total_of_def case_prod_unfold o_def)
  show "set (get_values order m) = snd ` set m" using arg_cong [OF m, of set_mset] by simp
  show "length (get_values order m) = length m" using arg_cong [OF m, of size] by simp
qed

lemma share_rest_totals:
  assumes "\<forall>e\<in>set es. busy_info e" "0 \<le> base" "0 \<le> rest" "rest \<le> int (length es)"
  shows "sum_list (map ei_nsteps (share_rest base rest es)) = sum_list (map ei_nsteps es) \<and>
     sum_list (map ei_np (share_rest base rest es)) = sum_list (map ei_np es) + base * int (length es) + rest \<and>
     (\<forall>e\<in>set (share_rest base rest es). 0 < ei_np e \<and> 0 \<le> ei_nsteps e)"
  using assms
proof (induction es arbitrary: rest)
  case (Cons e es)
  let ?rest = "if rest > 0 then rest - 1 else rest"
  have "?rest \<le> int (length es)" "0 \<le> ?rest" using Cons.prems by auto
  then have "sum_list (map ei_nsteps (share_rest base ?rest es)) = sum_list (map ei_nsteps es) \<and>
     sum_list (map ei_np (share_rest base ?rest es)) = sum_list (map ei_np es) + base * int (length es) + ?rest \<and>
     (\<forall>e\<in>set (share_rest base ?rest es). 0 < ei_np e \<and> 0 \<le> ei_nsteps e)"
    using Cons.IH [of ?rest] Cons.prems by auto
  moreover have "busy_info e" using Cons.prems by simp
  ultimately show ?case using Cons.prems(2,3) by (auto simp: busy_info_def Let_def algebra_simps)
qed simp

text \<open>The weights of the cores.\<close>

lemma fold_cycle:
  assumes "0 < n" "\<forall>i<m. h i = h (i mod n)"
  shows "fold (\<lambda>i ws. ws[i mod n := h i]) [0..<m] (replicate n x) = map (\<lambda>j. if j < m then h j else x) [0..<n]"
  using assms(2)
proof (induction m)
  case 0
  then show ?case by (simp add: map_replicate_const)
next
  case (Suc m)
  let ?ws = "map (\<lambda>j. if j < m then h j else x) [0..<n]"
  have "h m = h (m mod n)" using Suc.prems by blast
  moreover have "m mod n \<le> m" by simp
  moreover have "j \<noteq> m mod n \<Longrightarrow> j < n \<Longrightarrow> (j < m) = (j < Suc m)" for j by (auto simp: less_Suc_eq)
  ultimately have "?ws[m mod n := h m] = map (\<lambda>j. if j < Suc m then h j else x) [0..<n]"
    by (intro nth_equalityI) (auto simp: nth_list_update)
  then show ?case using Suc by simp
qed

lemma sum_weights:
  assumes "n \<le> p" "\<forall>i<p. 0 \<le> h i" "0 < sum_list (map h [0..<p])"
  shows "sum_list (map (\<lambda>j. h j / sum_list (map h [0..<p])) [0..<n]) \<le> (1 :: real)"
proof -
  have "sum_list (map h [0..<p]) = sum_list (map h [0..<n]) + sum_list (map h [n..<p])"
    using assms(1) upt_add_eq_append [of 0 n "p - n"] by simp
  moreover have "0 \<le> sum_list (map h [n..<p])" using assms(2) by (intro sum_list_nonneg) auto
  ultimately have "sum_list (map h [0..<n]) \<le> sum_list (map h [0..<p])" by simp
  moreover have "sum_list (map (\<lambda>j. h j / s) [0..<n]) = sum_list (map h [0..<n]) / s" for s
    by (induction n) (simp_all add: add_divide_distrib)
  ultimately show ?thesis using assms(3) by simp
qed

lemma proportional_total:
  assumes "gebr_geoxml_flow_calculate_proportional_n tot ws = Some (ds, xs)"
    and "0 \<le> tot" "\<forall>w\<in>set ws. 0 \<le> w" "sum_list ws \<le> 1"
  shows "sum_list ds = tot" "length ds = length ws" "\<forall>d\<in>set ds. 0 \<le> d"
proof -
  let ?ys = "map (\<lambda>w. of_int tot * w) ws"
  have pos: "0 \<le> of_int tot * w" if "w \<in> set ws" for w using assms(2,3) that by simp
  note c = map_trunc [OF assms(2,3)]
  have "sum_list ?ys = of_int tot * sum_list ws" by (simp add: sum_list_const_mult)
  also have "\<dots> \<le> of_int tot" using assms(2,4) by (simp add: mult_left_le)
  finally have le: "sum_list (map floor ?ys) \<le> tot" using sum_list_floor [of ?ys] by linarith
  obtain k where k: "spread (nat (tot - sum_list (map floor ?ys))) k (map floor ?ys) = Some ds"
    using assms(1) unfolding gebr_geoxml_flow_calculate_proportional_n_def c Let_def by (auto split: if_splits)
  show "sum_list ds = tot" using spread_sum [OF k] le by simp
  have sp: "spread m k ds = Some ds' \<Longrightarrow> \<forall>d\<in>set ds. 0 \<le> d \<Longrightarrow> length ds' = length ds \<and> (\<forall>d\<in>set ds'. 0 \<le> d)" for m k ds ds'
  proof (induction m arbitrary: k ds)
    case (Suc m)
    have "nat k < length ds" using Suc.prems(1) by (auto split: if_splits)
    then have "\<forall>d\<in>set (ds[nat k := ds ! nat k + 1]). 0 \<le> d"
      using Suc.prems(2) set_update_subset_insert [of ds "nat k"] by (fastforce dest: nth_mem)
    then show ?case using Suc.IH [of _ "ds[nat k := ds ! nat k + 1]"] Suc.prems(1) by (auto split: if_splits)
  qed simp
  have "\<forall>d\<in>set (map floor ?ys). 0 \<le> d" using pos by auto
  from sp [OF k this] show "length ds = length ws" "\<forall>d\<in>set ds. 0 \<le> d" by simp_all
qed

lemma distribute_total:
  assumes "distribute_tasks_to_cores cs p nsteps = Some ks" "0 < p" "0 \<le> nsteps" "\<forall>c\<in>set cs. 0 < snd c"
  shows "sum_list ks = nsteps" "length ks = min (nat p) (length cs)" "\<forall>k\<in>set ks. 0 \<le> k"
proof -
  let ?score = "\<lambda>i. snd (cs ! (i mod length cs))" and ?n = "min (nat p) (length cs)"
  let ?s = "sum_list (map ?score [0..<nat p])"
  have cs: "cs \<noteq> []" using assms(1,2) by (auto simp: distribute_tasks_to_cores_def Let_def split: if_splits)
  have pos: "0 < ?score i" for i using assms(4) cs by simp
  have n: "nat (min p (int (length cs))) = ?n" "0 < ?n" using assms(2) cs by auto
  have "?score i / ?s = ?score (i mod ?n) / ?s" if "i < nat p" for i
    using that by (cases "nat p \<le> length cs") (simp_all add: min_def)
  then have "fold (\<lambda>i ws. ws[i mod ?n := ?score i / ?s]) [0..<nat p] (replicate ?n 0) =
    map (\<lambda>j. if j < nat p then ?score j / ?s else 0) [0..<?n]"
    by (intro fold_cycle n(2)) blast
  also have "\<dots> = map (\<lambda>j. ?score j / ?s) [0..<?n]" by simp
  finally have ws: "map_option fst (gebr_geoxml_flow_calculate_proportional_n nsteps (map (\<lambda>j. ?score j / ?s) [0..<?n])) = Some ks"
    using assms(1,2) cs by (simp add: distribute_tasks_to_cores_def Let_def n(1))
  then obtain xs where "gebr_geoxml_flow_calculate_proportional_n nsteps (map (\<lambda>j. ?score j / ?s) [0..<?n]) = Some (ks, xs)"
    by auto
  note total = proportional_total [OF this assms(3)]
  have w: "\<forall>w\<in>set (map (\<lambda>j. ?score j / ?s) [0..<?n]). 0 \<le> w"
  proof -
    have "0 \<le> ?s" using pos by (intro sum_list_nonneg) (auto intro: less_imp_le)
    then have "0 \<le> ?score j / ?s" for j using pos [of j] by (intro divide_nonneg_nonneg) simp_all
    then show ?thesis unfolding list.set_map by blast
  qed
  have "0 < ?s"
  proof -
    obtain q where "nat p = Suc q" using assms(2) by (cases "nat p") auto
    moreover have "0 \<le> sum_list (map ?score [0..<q])" using pos by (intro sum_list_nonneg) (auto intro: less_imp_le)
    ultimately show ?thesis using pos [of q] by simp
  qed
  moreover from this have "sum_list (map (\<lambda>j. ?score j / ?s) [0..<?n]) \<le> 1"
    using pos by (intro sum_weights) (auto intro: less_imp_le)
  ultimately show "sum_list ks = nsteps" "length ks = ?n" "\<forall>k\<in>set ks. 0 \<le> k"
    using total [OF w] by simp_all
qed

text \<open>
  C22: a plan gives away exactly the iterations of the loop and exactly the processes that were asked for,
  whatever the order of the table of machines, and every machine in it has a process.
\<close>

theorem plan_is_complete:
  assumes "plan_servers order host servers cs p nsteps = Some es" "0 < p" "0 \<le> nsteps"
    and "\<forall>c\<in>set cs. 0 < snd c" "\<And>xs. mset (order xs) = mset xs"
  shows "sum_list (map ei_nsteps es) = nsteps \<and> sum_list (map ei_np es) = p \<and>
     (\<forall>e\<in>set es. 0 < ei_np e \<and> 0 \<le> ei_nsteps e)"
proof -
  let ?cs = "take (nat p) cs" and ?m0 = "exec_map_of host servers"
  obtain ks where ks: "distribute_tasks_to_cores cs p nsteps = Some ks"
    using assms(1) by (auto simp: plan_servers_def bind_eq_Some_conv)
  obtain m where m: "add_shares host nsteps ?cs ks ?m0 = Some m"
    using assms(1) ks by (auto simp: plan_servers_def bind_eq_Some_conv)
  let ?vs = "get_values order m" and ?tmp = "p - int (length ?cs)"
  let ?n = "int (length ?vs)" and ?base = "c_div ?tmp (int (length ?vs))"
  have es: "?n \<noteq> 0" "es = share_rest ?base (?tmp - ?base * ?n) ?vs"
    using assms(1) ks m by (auto simp: plan_servers_def Let_def split: if_splits)
  note d = distribute_total [OF ks assms(2,3,4)]
  have "fresh_map ?m0" by (rule exec_map_fresh)
  then have m0: "distinct (map fst ?m0)" "\<forall>(k, e)\<in>set ?m0. busy_info e" "total_of ei_nsteps ?m0 = 0" "total_of ei_np ?m0 = 0"
    using fresh_total [of ?m0] by (auto simp: fresh_map_def fresh_info_def busy_info_def)
  have len: "length ?cs = length ks" using d(2) by simp
  note added = add_shares_total [OF m len m0(1) d(3) m0(2)]
  then have dm: "distinct (map fst m)" by blast
  note vs = values_total [OF dm assms(5)]
  have busy: "\<forall>e\<in>set ?vs. busy_info e" using added by (auto simp: vs(2))
  have tmp: "0 \<le> ?tmp" using assms(2) by simp
  then have base: "?base = ?tmp div ?n" using es(1) by (auto simp: c_div_def sgn_if)
  then have rest: "?tmp - ?base * ?n = ?tmp mod ?n" by (simp add: minus_div_mult_eq_mod)
  have "0 < ?n" using es(1) by simp
  then have "0 \<le> ?base" "0 \<le> ?tmp mod ?n" using tmp base by (simp_all add: pos_imp_zdiv_nonneg_iff)
  moreover have "?tmp mod ?n \<le> int (length ?vs)" using pos_mod_bound [OF \<open>0 < ?n\<close>] by (rule less_imp_le)
  ultimately have rest_ok: "0 \<le> ?base" "0 \<le> ?tmp mod ?n" "?tmp mod ?n \<le> int (length ?vs)" .
  note rested = share_rest_totals [OF busy rest_ok, folded rest, folded es(2)]
  have "sum_list (map ei_nsteps es) = nsteps" using rested added m0(3) d(1) vs(1) [of ei_nsteps] by linarith
  moreover have "sum_list (map ei_np es) = p" using rested added m0(4) vs(1) [of ei_np] by linarith
  ultimately show ?thesis using rested by blast
qed

theorem plan_is_complete_witness:
  "\<exists>es. plan_servers rev (\<lambda>d. if d = 0 then ''a'' else ''b'') [0, 1] [(0, 3), (1, 1)] 2 4 = Some es \<and>
     sum_list (map ei_nsteps es) = 4 \<and> sum_list (map ei_np es) = 2"
proof -
  have "gebr_geoxml_flow_calculate_proportional_n 4 [3 / 4, 1 / 4] = Some ([3, 1], [3 / 4, 1 / 4])"
    by (simp add: gebr_geoxml_flow_calculate_proportional_n_def c_trunc_def)
  then have "distribute_tasks_to_cores [(0, 3), (1, 1)] 2 4 = Some [3, 1]"
    by (simp add: distribute_tasks_to_cores_def upt_rec numeral_2_eq_2)
  then obtain es where es: "plan_servers rev (\<lambda>d. if d = 0 then ''a'' else ''b'') [0, 1] [(0, 3), (1, 1)] 2 4 = Some es"
    by (simp add: plan_servers_def exec_map_of_def get_values_def c_div_def Let_def)
  then show ?thesis using plan_is_complete [OF es] by simp
qed

end
