(* ===== verification/Runner_Maestro.thy ===== *)
theory Runner_Maestro
  imports Runner_Plan Gebrm_Daemon
begin

text \<open>
  The run as a whole: what it sends, when it starts, and the maestro's daemons as the machines of a runner. The
  locale \<open>comm_daemon\<close> is the contract of the interface \<open>GebrCommDaemon\<close>; it is interpreted on the functions
  \<open>gebrm_daemon_iface_*\<close> of \<open>maestro/gebrm-daemon.c\<close>.
\<close>

section \<open>Shares of parallel programs\<close>

lemma add_even_sum:
  assumes "length bs = length cs" "0 \<le> left" "left \<le> int (length (filter id bs))"
  shows "sum_list (add_even base left bs cs) = sum_list cs + base * int (length (filter id bs)) + left"
  using assms
proof (induction bs arbitrary: cs left)
  case (Cons b bs)
  obtain c cs' where cs: "cs = c # cs'" using Cons.prems(1) by (cases cs) auto
  show ?case
    using Cons.IH [of cs' left] Cons.IH [of cs' "left - 1"] Cons.prems cs by (auto simp: algebra_simps)
qed simp

lemma add_even_other:
  assumes "i < length bs" "\<not> bs ! i"
  shows "add_even base left bs cs ! i = cs ! i"
  using assms
proof (induction bs arbitrary: cs left i)
  case (Cons b bs)
  then show ?case by (cases cs; cases i) auto
qed simp

text \<open>
  The processes of a parallel program are given completely to the machines that have its flavor, and a
  machine without the flavor gets none.
\<close>

theorem mpi_contributions_complete:
  assumes "mpi_program_contrib upd hosts flavors executor p contrib added v = Inr ((contrib', added'), v')"
    and "pr_mpi p \<noteq> []" "mpi_program_get_np upd p v = Inr (np, v'')" "0 \<le> np" "length flavors = length contrib"
    and "\<exists>fl\<in>set flavors. daemon_has_mpi_flavor fl (pr_mpi p)"
  shows "sum_list contrib' = sum_list contrib + np \<and>
     (\<forall>i<length flavors. \<not> daemon_has_mpi_flavor (flavors ! i) (pr_mpi p) \<longrightarrow> contrib' ! i = contrib ! i)"
proof -
  let ?has = "map (\<lambda>fl. daemon_has_mpi_flavor fl (pr_mpi p)) flavors"
  let ?n = "int (length (filter id ?has))"
  have c: "contrib' = add_even (c_div np ?n) (c_mod np ?n) ?has contrib"
    using assms(1-3) by (simp add: mpi_program_contrib_def Let_def)
  have n: "0 < ?n" using assms(6) by (auto simp: filter_empty_conv)
  then have d: "c_div np ?n = np div ?n" using assms(4) by (auto simp: c_div_def sgn_if)
  have m: "c_mod np ?n = np mod ?n" unfolding c_mod_def d by (rule minus_div_mult_eq_mod)
  have "sum_list contrib' = sum_list contrib + (np div ?n) * ?n + np mod ?n"
    unfolding c d m using n assms(5) pos_mod_bound [OF n, of np] by (intro add_even_sum) (simp_all add: less_imp_le)
  moreover have "\<forall>i<length flavors. \<not> daemon_has_mpi_flavor (flavors ! i) (pr_mpi p) \<longrightarrow> contrib' ! i = contrib ! i"
    unfolding c by (simp add: add_even_other)
  ultimately show ?thesis by simp
qed

section \<open>The start of a run\<close>

text \<open>The answers of the machines, in the order of their arrival.\<close>

fun receive_all ::
    "run_env \<Rightarrow> 'w daemon_iface \<Rightarrow> (dref \<times> string) list \<Rightarrow> runner \<Rightarrow> 'w \<Rightarrow> validator \<Rightarrow> 'w run" where
  "receive_all env I [] r w v = Inr ((r, w), v)"
| "receive_all env I ((d, load) # xs) r w v =
     vthen (on_response_received env I d load r w v) (\<lambda>(r, w) v. receive_all env I xs r w v)"

text \<open>What a runner that waits for answers keeps.\<close>

definition still_waits :: "runner \<Rightarrow> runner \<Rightarrow> bool" where
  "still_waits r r' \<longleftrightarrow>
     rn_ran r' = rn_ran r \<and> rn_idle r' = rn_idle r \<and> rn_has_ran_func r' = rn_has_ran_func r \<and>
     rn_requests r' = rn_requests r \<and> rn_flow r' = rn_flow r"

lemma response_cases:
  assumes "on_response_received env I d load r w v = Inr ((r', w'), v')"
  shows "if rn_responses r + 1 \<noteq> rn_requests r then still_waits r r' \<and> rn_responses r' = rn_responses r + 1 \<and> w' = w
    else \<exists>r1 v1. still_waits r r1 \<and> run_flow env I r1 w v1 = Inr ((r', w'), v')"
proof -
  obtain sc v1 where r: "(let r = r\<lparr>rn_cores_scores := rn_cores_scores r @ sc, rn_responses := rn_responses r + 1\<rparr> in
      if rn_responses r = rn_requests r then run_flow env I r w v1 else Inr ((r, w), v1)) = Inr ((r', w'), v')"
    using assms by (auto simp: on_response_received_def vthen_Inr_conv Let_def split: option.splits)
  show ?thesis
  proof (cases "rn_responses r + 1 = rn_requests r")
    case True
    let ?r = "r\<lparr>rn_cores_scores := rn_cores_scores r @ sc, rn_responses := rn_responses r + 1\<rparr>"
    have "still_waits r ?r" "run_flow env I ?r w v1 = Inr ((r', w'), v')"
      using r True by (simp_all add: still_waits_def Let_def)
    then show ?thesis using True by auto
  qed (use r in \<open>auto simp: Let_def still_waits_def\<close>)
qed

lemma receive_all_cases:
  assumes "receive_all env I xs r w v = Inr ((r', w'), v')" "rn_responses r + int (length xs) \<le> rn_requests r"
  shows "if rn_responses r + int (length xs) < rn_requests r \<or> xs = [] then still_waits r r' \<and> w' = w
    else \<exists>r1 v1. still_waits r r1 \<and> run_flow env I r1 w v1 = Inr ((r', w'), v')"
  using assms
proof (induction xs arbitrary: r w v)
  case (Cons x xs)
  obtain d load where x: "x = (d, load)" by (cases x)
  obtain r1 w1 v1 where one: "on_response_received env I d load r w v = Inr ((r1, w1), v1)"
    "receive_all env I xs r1 w1 v1 = Inr ((r', w'), v')"
    using Cons.prems(1) x by (auto simp: vthen_Inr_conv)
  show ?case
  proof (cases "rn_responses r + 1 = rn_requests r")
    case True
    then have "xs = []" using Cons.prems(2) by (cases xs) auto
    then show ?thesis using response_cases [OF one(1)] one(2) True by auto
  next
    case False
    then have r1: "still_waits r r1" "rn_responses r1 = rn_responses r + 1" "w1 = w"
      using response_cases [OF one(1)] by simp_all
    have "rn_responses r1 + int (length xs) \<le> rn_requests r1" using r1 Cons.prems(2) by (simp add: still_waits_def)
    from Cons.IH [OF one(2) this] r1 False Cons.prems(2) show ?thesis
      by (auto simp: still_waits_def split: if_splits)
  qed
qed (simp add: still_waits_def)

section \<open>The interface\<close>

locale comm_daemon =
  fixes I :: "'w daemon_iface"
  assumes running_add_task:
      "di_n_running_jobs I e (di_add_task I d w) = di_n_running_jobs I e w + (if e = d then 1 else 0)"
    and server_add_task: "di_server I e (di_add_task I d w) = di_server I e w"
    and hostname_add_task: "di_hostname I e (di_add_task I d w) = di_hostname I e w"
    and running_on_server: "di_n_running_jobs I e (di_on_server I d f w) = di_n_running_jobs I e w"
    and server_on_server:
      "di_server I e (di_on_server I d f w) = (if e = d then f (di_server I d w) else di_server I e w)"
    and hostname_on_server:
      "protocol (f (di_server I d w)) = protocol (di_server I d w) \<Longrightarrow>
       di_hostname I e (di_on_server I d f w) = di_hostname I e w"
begin

lemma send_run_laws:
  "di_n_running_jobs I e (send_run I d part n xml ms r w) = di_n_running_jobs I e w"
  "di_hostname I e (send_run I d part n xml ms r w) = di_hostname I e w"
  "socket_connected (di_server I e (send_run I d part n xml ms r w)) = socket_connected (di_server I e w)"
  "length (actions (di_server I e (send_run I d part n xml ms r w))) =
     length (actions (di_server I e w)) + (if e = d \<and> socket_connected (di_server I d w) then 1 else 0)"
  by (simp_all add: send_run_def running_on_server server_on_server hostname_on_server
      gebr_comm_protocol_socket_oldmsg_send_def act_def)

text \<open>Each flow goes to one machine, which counts one task more and is sent one message.\<close>

lemma run_flows_charges:
  assumes "run_flows env I r k fs ds acc w v = Inr ((k', acc', w'), v')"
  shows "k' = k + length fs \<and> length fs \<le> length ds \<and>
     di_n_running_jobs I e w' = di_n_running_jobs I e w + int (count_list (take (length fs) ds) e) \<and>
     length (actions (di_server I e w')) = length (actions (di_server I e w)) +
       (if socket_connected (di_server I e w) then count_list (take (length fs) ds) e else 0)"
  using assms
proof (induction fs arbitrary: k ds acc w v)
  case (Cons f fs)
  obtain d ds' where ds: "ds = d # ds'" using Cons.prems by (cases ds) auto
  obtain xml v1 acc1 where next_flow: "run_flows env I r (k + 1) fs ds' acc1
      (send_run I d (show_nat (k + 1)) (show_int (rn_numprocs r ! k)) xml [] r (di_add_task I d w)) v1 = Inr ((k', acc', w'), v')"
    using Cons.prems ds by (auto simp: vthen_Inr_conv Let_def split: if_splits)
  show ?case
    using Cons.IH [OF next_flow] ds by (simp add: send_run_laws running_add_task server_add_task)
qed simp

text \<open>The whole division: \<open>k\<close> flows go to the first \<open>k\<close> machines.\<close>

lemma divide_charges:
  assumes "divide_and_run_flows env I r w v = Inr ((r', w'), v')"
  shows "\<exists>k \<le> length (rn_servers r). rn_total r' = int k \<and>
     di_n_running_jobs I e w' = di_n_running_jobs I e w + int (count_list (take k (rn_servers r)) e) \<and>
     length (actions (di_server I e w')) = length (actions (di_server I e w)) +
       (if socket_connected (di_server I e w) then count_list (take k (rn_servers r)) e else 0)"
    and "rn_servers r' = rn_servers r" "rn_idle r' = rn_idle r" "rn_ran r' = rn_ran r + (if rn_has_ran_func r then 1 else 0)"
proof -
  obtain par v1 fs v2 r1 k acc v3 where run: "run_flows env I r1 0 fs (rn_servers r) [] w v2 = Inr ((k, acc, w'), v3)"
    "r' = call_ran_func (r1\<lparr>rn_total := int k, rn_servers_list := Some (butlast acc)\<rparr>)"
    "r1 = r\<lparr>rn_ncores := Some (if par then show_int (sum_list (rn_numprocs r)) else ''1'')\<rparr>"
    using assms by (auto simp: divide_and_run_flows_def vthen_Inr_conv Let_def)
  have "rn_total r' = int k" using run(2) by (simp add: call_ran_func_def)
  then show "\<exists>k \<le> length (rn_servers r). rn_total r' = int k \<and>
     di_n_running_jobs I e w' = di_n_running_jobs I e w + int (count_list (take k (rn_servers r)) e) \<and>
     length (actions (di_server I e w')) = length (actions (di_server I e w)) +
       (if socket_connected (di_server I e w) then count_list (take k (rn_servers r)) e else 0)"
    using run_flows_charges [OF run(1)] by auto
  show "rn_servers r' = rn_servers r" "rn_idle r' = rn_idle r" "rn_ran r' = rn_ran r + (if rn_has_ran_func r then 1 else 0)"
    using run(2,3) by (simp_all add: call_ran_func_def)
qed

text \<open>A parallel program goes to the first machine, which is told the others; the owner is called by the main loop.\<close>

lemma mpi_charges:
  assumes "mpi_run_flow env I r w v = Inr ((r', w'), v')"
  shows "\<exists>d ds. rn_servers r' = d # ds \<and> rn_total r' = 1 \<and> rn_ran r' = rn_ran r \<and> rn_idle r' = rn_idle r + 1 \<and>
     (\<forall>e. length (actions (di_server I e w')) = length (actions (di_server I e w)) +
        (if e = d \<and> socket_connected (di_server I d w) then 1 else 0))"
  using assms
  by (cases "rn_servers r") (auto simp: mpi_run_flow_def set_max_np_for_mpi_def vthen_Inr_conv Let_def send_run_laws)

lemma run_flow_charges:
  assumes "run_flow env I r w v = Inr ((r', w'), v')" "rn_has_ran_func r"
  shows "\<exists>k \<le> length (rn_servers r'). rn_total r' = int k \<and>
     length (actions (di_server I e w')) = length (actions (di_server I e w)) +
       (if socket_connected (di_server I e w) then count_list (take k (rn_servers r')) e else 0) \<and>
     (if gebr_geoxml_flow_get_first_mpi_program (rn_flow r) \<noteq> None
      then k = 1 \<and> rn_ran r' = rn_ran r \<and> rn_idle r' = rn_idle r + 1
      else rn_ran r' = rn_ran r + 1 \<and> rn_idle r' = rn_idle r \<and>
        di_n_running_jobs I e w' = di_n_running_jobs I e w + int (count_list (take k (rn_servers r')) e))"
proof -
  obtain r1 v1 where r1: "set_servers_execution_info env (\<lambda>d. di_hostname I d w)
      (r\<lparr>rn_cores_scores := g_list_sort server_score_comp_func (rn_cores_scores r)\<rparr>) v = Inr (r1, v1)"
    "(if gebr_geoxml_flow_get_first_mpi_program (rn_flow r1) \<noteq> None then mpi_run_flow env I r1 w v1
      else divide_and_run_flows env I r1 w v1) = Inr ((r', w'), v')"
    using assms(1) by (auto simp: run_flow_def vthen_Inr_conv)
  have s: "rn_ran r1 = rn_ran r" "rn_idle r1 = rn_idle r" "rn_has_ran_func r1" "rn_flow r1 = rn_flow r"
    using r1(1) assms(2) by (auto simp: set_servers_execution_info_def calculate_servers_scores_and_num_procs_def vthen_Inr_conv
      Let_def split: option.splits)
  show ?thesis
  proof (cases "gebr_geoxml_flow_get_first_mpi_program (rn_flow r) \<noteq> None")
    case True
    then have "mpi_run_flow env I r1 w v1 = Inr ((r', w'), v')" using r1(2) s(4) by simp
    from mpi_charges [OF this] True show ?thesis
      by (intro exI [of _ 1]) (auto simp: s)
  next
    case False
    then have d: "divide_and_run_flows env I r1 w v1 = Inr ((r', w'), v')" using r1(2) s(4) by simp
    from divide_charges(1) [OF d, of e] divide_charges(2-4) [OF d] False show ?thesis by (auto simp: s)
  qed
qed

end

section \<open>The maestro\<close>

definition gebrm_daemon_init_iface :: "maestro daemon_iface" where
  "gebrm_daemon_init_iface =
     \<lparr>di_server = (\<lambda>d w. conns w d), di_on_server = upd_conn,
      di_n_running_jobs = (\<lambda>d w. uncompleted_tasks w d), di_hostname = (\<lambda>d w. hostname (protocol (conns w d))),
      di_add_task = gebrm_daemon_iface_add_task, di_can_execute = gebrm_daemon_iface_can_execute,
      di_flavors = (\<lambda>d w. mpi_flavors (daemons w d))\<rparr>"

interpretation maestro_daemon: comm_daemon gebrm_daemon_init_iface
  by unfold_locales (auto simp: gebrm_daemon_init_iface_def gebrm_daemon_iface_add_task_def upd_conn_def)

text \<open>
  C24: once a run has asked its machines for their loads, nothing is sent to any machine and no task is counted while
  answers are missing. With the last answer the run is handed over, once: the flow is divided, one part and one more
  counted task for each of the first machines of the plan, and the owner is told, or, for a flow with a parallel program,
  it is sent as a whole to the first machine and the owner will be told by the main loop. A machine whose connection is lost by then is
  sent nothing.
\<close>

theorem answered_run_starts_once:
  assumes "gebr_comm_runner_run_async env gebrm_daemon_init_iface r w = (started, r1, w1)" "rn_has_ran_func r"
    and "receive_all env gebrm_daemon_init_iface xs r1 w2 v = Inr ((r2, w3), v')" "int (length xs) \<le> rn_requests r1"
  shows "if int (length xs) < rn_requests r1 \<or> xs = [] then w3 = w2 \<and> rn_ran r2 = rn_ran r \<and> rn_idle r2 = rn_idle r
    else (\<exists>k \<le> length (rn_servers r2). rn_total r2 = int k \<and>
       length (actions (conns w3 d)) = length (actions (conns w2 d)) +
         (if socket_connected (conns w2 d) then count_list (take k (rn_servers r2)) d else 0) \<and>
       (if gebr_geoxml_flow_get_first_mpi_program (rn_flow r) \<noteq> None
        then k = 1 \<and> rn_ran r2 = rn_ran r \<and> rn_idle r2 = rn_idle r + 1
        else rn_ran r2 = rn_ran r + 1 \<and> rn_idle r2 = rn_idle r \<and>
          uncompleted_tasks w3 d = uncompleted_tasks w2 d + int (count_list (take k (rn_servers r2)) d)))"
proof -
  have r1: "still_waits (r\<lparr>rn_requests := rn_requests r1\<rparr>) r1" "rn_responses r1 = 0"
    using assms(1) by (auto simp: gebr_comm_runner_run_async_def still_waits_def split: prod.splits)
  have "rn_responses r1 + int (length xs) \<le> rn_requests r1" using assms(4) r1(2) by simp
  note all = receive_all_cases [OF assms(3) this]
  show ?thesis
  proof (cases "int (length xs) < rn_requests r1 \<or> xs = []")
    case True
    then show ?thesis using all r1 by (auto simp: still_waits_def)
  next
    case False
    then obtain r' v1 where run: "still_waits r1 r'" "run_flow env gebrm_daemon_init_iface r' w2 v1 = Inr ((r2, w3), v')"
      using all r1(2) by auto
    have "rn_has_ran_func r'" using assms(2) r1 run(1) by (simp add: still_waits_def)
    have iface: "di_server gebrm_daemon_init_iface d u = conns u d" "di_n_running_jobs gebrm_daemon_init_iface d u = uncompleted_tasks u d" for u
      by (simp_all add: gebrm_daemon_init_iface_def)
    have eqs: "rn_ran r' = rn_ran r" "rn_idle r' = rn_idle r" "rn_flow r' = rn_flow r"
      using r1 run(1) by (simp_all add: still_waits_def)
    show ?thesis
      unfolding if_not_P [OF False]
      by (rule maestro_daemon.run_flow_charges [OF run(2) \<open>rn_has_ran_func r'\<close>, of d, unfolded iface eqs])
  qed
qed

text \<open>
  When a run is divided, each of the first machines of the plan counts one more task and, if it is
  connected, is sent one message; no other machine is touched.
\<close>

theorem divided_run_charges_daemons:
  assumes "divide_and_run_flows env gebrm_daemon_init_iface r w v = Inr ((r', w'), v')"
  shows "\<exists>k \<le> length (rn_servers r). rn_total r' = int k \<and>
     uncompleted_tasks w' d = uncompleted_tasks w d + int (count_list (take k (rn_servers r)) d) \<and>
     length (actions (conns w' d)) = length (actions (conns w d)) +
       (if socket_connected (conns w d) then count_list (take k (rn_servers r)) d else 0)"
  using maestro_daemon.divide_charges(1) [OF assms, of d] by (simp add: gebrm_daemon_init_iface_def)

section \<open>A run of one flow on one machine\<close>

definition plain_program :: prog where
  "plain_program =
     \<lparr>pr_title = ''p'', pr_stdin = ''no'', pr_stdout = ''no'', pr_stderr = ''no'', pr_status = ''configured'',
      pr_control = [], pr_mpi = [], pr_mpi_np = None, pr_error = None, pr_help = [], pr_params = []\<rparr>"

definition plain_flow :: xflow where
  "plain_flow = loop_flow\<lparr>fl_progs := [plain_program]\<rparr>"

definition idle_env :: run_env where
  "idle_env =
     \<lparr>re_strtod = g_strtod, re_fmt_real = (\<lambda>_. ''1''), re_atof = (\<lambda>_. 5),
      re_scan = (\<lambda>_. Some (0, 0, 0)), re_upd = (\<lambda>_ _ v. Inr (True, v)), re_xml = (\<lambda>_. ''xml''), re_order = id,
      re_keys = (\<lambda>_. [])\<rparr>"

definition logged_world :: maestro where
  "logged_world = upd_conn 0
     (\<lambda>s. s\<lparr>state := SERVER_STATE_LOGGED, socket_connected := True, ncores := 1, clock_cpu := 1\<rparr>) daemon_world"

definition plain_runner :: runner where
  "plain_runner =
     gebr_comm_runner_set_ran_func
       (gebr_comm_runner_new plain_flow [0] [0] (Some ''1'') None None ''5'' None None None)"

lemma plain_flow_sequential:
  "gebr_geoxml_flow_get_control_program plain_flow = None" "gebr_geoxml_flow_is_parallelizable plain_flow v = Inr (False, v)"
  "gebr_geoxml_flow_get_first_mpi_program plain_flow = None"
  by (simp_all add: gebr_geoxml_flow_get_control_program_def plain_flow_def plain_program_def loop_flow_def
      gebr_geoxml_program_get_control_def gebr_geoxml_flow_is_parallelizable_def gebr_geoxml_flow_get_first_mpi_program_def)

lemma plain_flow_stripped: "strip_flow idle_env plain_flow blank_validator = Inr (''xml'', blank_validator)"
  by (simp add: strip_flow_def plain_flow_def loop_flow_def idle_env_def gebr_validator_get_documents_def
      current_doc_def get_document_def blank_validator_def Let_def)

definition planned_runner :: runner where
  "planned_runner = plain_runner\<lparr>rn_weights := [1], rn_numprocs := [1], rn_distributed_n := [1]\<rparr>"

lemma planned_runner_sel:
  "rn_flow planned_runner = plain_flow" "rn_servers planned_runner = [0]" "rn_weights planned_runner = [1]"
  "rn_numprocs planned_runner = [1]" "rn_distributed_n planned_runner = [1]" "rn_has_ran_func planned_runner"
  by (simp_all add: planned_runner_def plain_runner_def gebr_comm_runner_set_ran_func_def gebr_comm_runner_new_def)

theorem divided_run_charges_witness:
  "\<exists>r' w' v'. divide_and_run_flows idle_env gebrm_daemon_init_iface planned_runner logged_world blank_validator = Inr ((r', w'), v') \<and>
     (\<exists>k \<le> 1. rn_total r' = int k \<and>
        uncompleted_tasks w' 0 = uncompleted_tasks logged_world 0 + int (count_list (take k [0 :: nat]) 0))"
proof -
  obtain r' w' v' where run:
    "divide_and_run_flows idle_env gebrm_daemon_init_iface planned_runner logged_world blank_validator = Inr ((r', w'), v')"
    by (simp add: divide_and_run_flows_def planned_runner_sel plain_flow_sequential gebr_geoxml_flow_divide_flows_def
        plain_flow_stripped Let_def)
  from divided_run_charges_daemons [OF run, of 0] run show ?thesis by (auto simp: planned_runner_sel)
qed

definition asked_runner :: runner where
  "asked_runner = plain_runner\<lparr>rn_servers := [0], rn_requests := 1, rn_responses := 0\<rparr>"

lemma plain_asked:
  "\<exists>w1. gebr_comm_runner_run_async idle_env gebrm_daemon_init_iface plain_runner logged_world = (True, asked_runner, w1)"
  by (simp add: gebr_comm_runner_run_async_def asked_runner_def plain_runner_def gebr_comm_runner_set_ran_func_def
      gebr_comm_runner_new_def gebrm_daemon_init_iface_def gebrm_daemon_iface_can_execute_def logged_world_def
      daemon_world_def job_world.extend_def gebrm_daemon_init_def)

lemma one_core_plan:
  assumes "x \<noteq> 0"
  shows "plan_servers id host [0] [(0, x)] 1 1 = Some [\<lparr>ei_daemon = 0, ei_weight = 1, ei_np = 1, ei_nsteps = 1\<rparr>]"
proof -
  have "gebr_geoxml_flow_calculate_proportional_n 1 [1] = Some ([1], [1])"
    by (simp add: gebr_geoxml_flow_calculate_proportional_n_def c_trunc_def)
  then have "distribute_tasks_to_cores [(0, x)] 1 1 = Some [1]"
    using assms by (simp add: distribute_tasks_to_cores_def)
  then show ?thesis by (simp add: plan_servers_def exec_map_of_def get_values_def c_div_def Let_def)
qed

lemma asked_runner_answered:
  "\<exists>r2 w2 v'. on_response_received idle_env gebrm_daemon_init_iface 0 ''0'' asked_runner logged_world blank_validator =
     Inr ((r2, w2), v')"
proof -
  have load: "predicted_load (0, 0, 0) = 0"
    by (simp add: predicted_load_def predict_current_load_def create_2ndDegreePoly_model_def)
  obtain x where x: "x \<noteq> 0" "calculate_server_score idle_env 0 ''0'' 1 1 (uncompleted_tasks logged_world 0) = Some [(0, x)]"
  proof
    show "calculate_server_score idle_env 0 ''0'' 1 1 (uncompleted_tasks logged_world 0) =
      Some [(0, (9 / 10) ^ (if uncompleted_tasks logged_world 0 > 0 then 1 else 0))]"
      by (simp add: calculate_server_score_def idle_env_def load core_load_def Let_def)
  qed simp
  let ?r = "asked_runner\<lparr>rn_cores_scores := [(0, x)], rn_responses := 1\<rparr>"
  have r: "rn_flow asked_runner = plain_flow" "rn_servers asked_runner = [0]" "rn_requests asked_runner = 1"
    "rn_responses asked_runner = 0" "rn_cores_scores asked_runner = []" "rn_speed asked_runner = ''5''" "rn_has_ran_func asked_runner"
    by (simp_all add: asked_runner_def plain_runner_def gebr_comm_runner_set_ran_func_def gebr_comm_runner_new_def)
  have p: "min (gebr_calculate_number_of_processors 1 (re_atof idle_env ''5'')) 1 = 1" "re_order idle_env = id"
    by (simp_all add: gebr_calculate_number_of_processors_def c_round_def idle_env_def)
  have one: "g_list_sort cmp [y] = [y]" for cmp and y :: 'y by (subst g_list_sort.simps) simp
  have "set_servers_execution_info idle_env host r' blank_validator =
     Inr (r'\<lparr>rn_cores_scores := [(0, x)], rn_servers := [0], rn_weights := [1], rn_numprocs := [1], rn_distributed_n := [1]\<rparr>,
       blank_validator)"
    if "rn_flow r' = plain_flow" "rn_servers r' = [0]" "rn_cores_scores r' = [(0, x)]" "rn_speed r' = ''5''" for host r'
    using x(1) that by (simp add: set_servers_execution_info_def calculate_servers_scores_and_num_procs_def eval_nsteps_def p
        plain_flow_sequential one_core_plan normalize_and_sort_servers_def one)
  then have "\<exists>r2 w2 v'. run_flow idle_env gebrm_daemon_init_iface ?r logged_world blank_validator = Inr ((r2, w2), v')"
    by (simp add: run_flow_def one r plain_flow_sequential divide_and_run_flows_def gebr_geoxml_flow_divide_flows_def
        plain_flow_stripped Let_def)
  moreover have "ncores (conns logged_world 0) = 1" "clock_cpu (conns logged_world 0) = 1"
    by (simp_all add: logged_world_def)
  ultimately show ?thesis
    using x(2) by (simp add: on_response_received_def discard_eval_n_def r plain_flow_sequential gebrm_daemon_init_iface_def Let_def)
qed

theorem answered_run_witness:
  "\<exists>w1 r2 w3 v'. gebr_comm_runner_run_async idle_env gebrm_daemon_init_iface plain_runner logged_world = (True, asked_runner, w1) \<and>
     receive_all idle_env gebrm_daemon_init_iface [(0, ''0'')] asked_runner logged_world blank_validator = Inr ((r2, w3), v') \<and>
     rn_ran plain_runner = 0 \<and> rn_ran r2 = 1 \<and> (\<exists>k. rn_total r2 = int k \<and>
     length (actions (conns w3 0)) = length (actions (conns logged_world 0)) + count_list (take k (rn_servers r2)) 0)"
proof -
  obtain w1 where w1: "gebr_comm_runner_run_async idle_env gebrm_daemon_init_iface plain_runner logged_world = (True, asked_runner, w1)"
    using plain_asked by blast
  obtain r2 w3 v' where r2: "on_response_received idle_env gebrm_daemon_init_iface 0 ''0'' asked_runner logged_world blank_validator =
     Inr ((r2, w3), v')" using asked_runner_answered by blast
  then have all: "receive_all idle_env gebrm_daemon_init_iface [(0, ''0'')] asked_runner logged_world blank_validator = Inr ((r2, w3), v')"
    by simp
  have "rn_has_ran_func plain_runner" "rn_flow plain_runner = plain_flow" "rn_ran plain_runner = 0" "rn_requests asked_runner = 1"
    "socket_connected (conns logged_world 0)"
    by (simp_all add: asked_runner_def plain_runner_def gebr_comm_runner_set_ran_func_def gebr_comm_runner_new_def logged_world_def upd_conn_def)
  then show ?thesis
    using answered_run_starts_once [OF w1 _ all, of 0] w1 all by (auto simp: plain_flow_sequential)
qed

definition mpi_program :: prog where
  "mpi_program = plain_program\<lparr>pr_mpi := ''mpich2'', pr_mpi_np := Some (''-n '', ''7'')\<rparr>"

definition seven_answers :: validator where
  "seven_answers = answers [''7'', ''7''] blank_validator"

lemma seven_np: "\<exists>v'. mpi_program_get_np (\<lambda>_ _ v. Inr (True, v)) mpi_program seven_answers = Inr (7, v')"
proof -
  obtain v' where "gebr_validator_evaluate (\<lambda>_ _ v. Inr (True, v)) ''7'' GEBR_GEOXML_PARAMETER_TYPE_INT FLOW False seven_answers =
      Inr ((Some ''7'', None), v')"
    unfolding seven_answers_def using digit_value [of "''7''" blank_validator FLOW "[]"] blank_no_iter by auto
  moreover have "c_atoi ''7'' = 7" by (simp add: c_atoi_def strtol10_def is_space_def code_def is_digit_def)
  ultimately show ?thesis
    by (simp add: mpi_program_get_np_def mpi_program_def gebr_geoxml_program_mpi_get_n_process_def
        get_mpi_keywords_for_flavor_def mpi_keywords_def)
qed

theorem mpi_contributions_witness:
  "\<exists>cs a v'. mpi_program_contrib (\<lambda>_ _ v. Inr (True, v)) [''a'', ''b''] [Some ''openmpi'', Some ''mpich2''] ''a'' mpi_program [1, 0]
       True (seven_answers) = Inr ((cs, a), v') \<and> sum_list cs = 8 \<and> cs ! 0 = 1"
proof -
  obtain v' where np: "mpi_program_get_np (\<lambda>_ _ v. Inr (True, v)) mpi_program (seven_answers) = Inr (7, v')"
    using seven_np by blast
  have has: "\<not> daemon_has_mpi_flavor (Some ''openmpi'') (pr_mpi mpi_program)" "daemon_has_mpi_flavor (Some ''mpich2'') (pr_mpi mpi_program)"
    by (simp_all add: daemon_has_mpi_flavor_def mpi_program_def)
  have p: "pr_mpi mpi_program \<noteq> []" by (simp add: mpi_program_def)
  obtain cs a where run: "mpi_program_contrib (\<lambda>_ _ v. Inr (True, v)) [''a'', ''b''] [Some ''openmpi'', Some ''mpich2''] ''a'' mpi_program
      [1, 0] True (seven_answers) = Inr ((cs, a), v')"
    using np p by (simp add: mpi_program_contrib_def Let_def)
  from mpi_contributions_complete [OF run p np] run has show ?thesis by auto
qed

end
