(* ===== verification/Geoxml_Valid.thy ===== *)
theory Geoxml_Valid
  imports Flow_Divide Validator_Edit
begin

text \<open>
  Validity of programs and flows: \<open>gebr_geoxml_program_is_valid\<close> (\<open>libgebr/geoxml/program.c\<close>) and
  \<open>gebr_geoxml_flow_validate\<close>, \<open>gebr_geoxml_flow_revalidate\<close> (\<open>libgebr/geoxml/flow.c\<close>). A flow is valid when its
  enabled programs form a pipe: each one reads what the one before it writes, and the files at both ends are good.
\<close>

section \<open>Programs\<close>

text \<open>
  A parameter that its group has not selected is skipped; the first error ends the visit. A parameter of a program is
  validated as one that is not in the heap yet.
\<close>

fun validate_program_parameters ::
    "(string \<Rightarrow> rat) \<Rightarrow> updater \<Rightarrow> prog_param list \<Rightarrow> validator \<Rightarrow> gerror option checked" where
  "validate_program_parameters strtod upd [] v = Inr (None, v)"
| "validate_program_parameters strtod upd (a # ps) v =
     vthen
       (if pp_selected a
        then gebr_validator_validate_param strtod upd (next_param v)
               (v\<lparr>params := (params v)(next_param v := pp_param a)\<rparr>)
        else Inr ((True, None), v))
       (\<lambda>(_, err) v. if err \<noteq> None then Inr (err, v) else validate_program_parameters strtod upd ps v)"

text \<open>The parameters of the group that holds the number of processes.\<close>

definition gebr_geoxml_program_mpi_get_parameters :: "prog \<Rightarrow> prog_param list" where
  "gebr_geoxml_program_mpi_get_parameters p =
     (case pr_mpi_np p of
        None \<Rightarrow> []
      | Some (k, x) \<Rightarrow>
          [\<lparr>pp_param =
              \<lparr>p_name = k, p_type = GEBR_GEOXML_PARAMETER_TYPE_INT, p_values = [x], p_sep = None, p_required = False,
               p_label = ''Number of process to start'', p_doc = 0, p_dict = False,
               p_for = (gebr_geoxml_program_get_control p = GEBR_GEOXML_PROGRAM_CONTROL_FOR)\<rparr>,
            pp_default = [], pp_selected = True\<rparr>])"

text \<open>
  The visit of the parameters goes on with those of the second group when it has ended in the first; an error that is
  there is not replaced by a later one.
\<close>

definition gebr_geoxml_program_foreach_parameter ::
    "(string \<Rightarrow> rat) \<Rightarrow> updater \<Rightarrow> prog \<Rightarrow> validator \<Rightarrow> gerror option checked" where
  "gebr_geoxml_program_foreach_parameter strtod upd p v =
     vthen (validate_program_parameters strtod upd (pr_params p) v) (\<lambda>err v.
     vthen (validate_program_parameters strtod upd (gebr_geoxml_program_mpi_get_parameters p) v) (\<lambda>err' v.
       Inr (if err = None then err' else err, v)))"

text \<open>The result, the error, and the program with its attribute \<open>errorid\<close>.\<close>

definition gebr_geoxml_program_is_valid ::
    "(string \<Rightarrow> rat) \<Rightarrow> updater \<Rightarrow> prog \<Rightarrow> validator \<Rightarrow> (bool \<times> gerror option \<times> prog) checked" where
  "gebr_geoxml_program_is_valid strtod upd p v =
     vthen (gebr_geoxml_program_foreach_parameter strtod upd p v) (\<lambda>err v.
       Inr ((err = None, err, gebr_geoxml_program_set_error_id err p), v))"

fun revalidate_programs :: "(string \<Rightarrow> rat) \<Rightarrow> updater \<Rightarrow> prog list \<Rightarrow> validator \<Rightarrow> prog list checked" where
  "revalidate_programs strtod upd [] v = Inr ([], v)"
| "revalidate_programs strtod upd (p # ps) v =
     vthen
       (if gebr_geoxml_program_get_status p = GEBR_GEOXML_PROGRAM_STATUS_DISABLED then Inr (p, v)
        else vthen (gebr_geoxml_program_is_valid strtod upd p v) (\<lambda>(_, _, p) v. Inr (p, v)))
       (\<lambda>p v. vthen (revalidate_programs strtod upd ps v) (\<lambda>ps v. Inr (p # ps, v)))"

definition gebr_geoxml_flow_revalidate :: "(string \<Rightarrow> rat) \<Rightarrow> updater \<Rightarrow> xflow \<Rightarrow> validator \<Rightarrow> xflow checked" where
  "gebr_geoxml_flow_revalidate strtod upd f v =
     vthen (revalidate_programs strtod upd (fl_progs f) v) (\<lambda>ps v. Inr (f\<lparr>fl_progs := ps\<rparr>, v))"

section \<open>Flows\<close>

datatype flow_error =
    GEBR_GEOXML_FLOW_ERROR_NO_INPUT | GEBR_GEOXML_FLOW_ERROR_NO_OUTPUT | GEBR_GEOXML_FLOW_ERROR_NO_INFILE
  | GEBR_GEOXML_FLOW_ERROR_INVALID_INFILE | GEBR_GEOXML_FLOW_ERROR_NO_VALID_PROGRAMS
  | GEBR_GEOXML_FLOW_ERROR_INVALID_OUTFILE | GEBR_GEOXML_FLOW_ERROR_INVALID_ERRORFILE
  | GEBR_GEOXML_FLOW_ERROR_LOOP_ONLY | GEBR_GEOXML_FLOW_ERROR_PROGRAM

type_synonym flow_gerror = "flow_error \<times> string"

definition quoted :: "string \<Rightarrow> string" where
  "quoted s = CHR 0x27 # s @ [CHR 0x27]"

definition check_for_valid_programs :: "xflow \<Rightarrow> flow_gerror option" where
  "check_for_valid_programs f =
     (if length (fl_progs f) = 1 \<and> gebr_geoxml_flow_has_control_program f
      then Some (GEBR_GEOXML_FLOW_ERROR_NO_VALID_PROGRAMS, ''No configured or enabled programs found.'')
      else None)"

text \<open>The value of one of the three files; \<open>None\<close> where it cannot be evaluated.\<close>

definition evaluate_file :: "updater \<Rightarrow> string \<Rightarrow> validator \<Rightarrow> cstr checked" where
  "evaluate_file upd e v =
     vthen (gebr_validator_use_iter e GEBR_GEOXML_PARAMETER_TYPE_STRING FLOW v) (\<lambda>it v.
     vthen
       (if it then gebr_validator_evaluate_interval upd e GEBR_GEOXML_PARAMETER_TYPE_STRING FLOW False False v
        else gebr_validator_evaluate upd e GEBR_GEOXML_PARAMETER_TYPE_STRING FLOW False v)
       (\<lambda>(r, _) v. Inr (r, v)))"

text \<open>
  The visit of the programs: how many have an error, whether none was seen yet, whether the last one
  writes to its output, and the last one. \<open>input\<close> is the evaluated input.
\<close>

record visit =
  vi_first :: bool
  vi_stdout :: bool
  vi_errors :: nat
  vi_last :: "prog option"

definition visit_start :: visit where
  "visit_start = \<lparr>vi_first = True, vi_stdout = False, vi_errors = 0, vi_last = None\<rparr>"

definition input_error :: "cstr \<Rightarrow> pvector \<Rightarrow> prog \<Rightarrow> flow_gerror option" where
  "input_error input pv p =
     (if input = None \<or> input = Some []
      then Some (GEBR_GEOXML_FLOW_ERROR_NO_INFILE,
             ''The first program '' @ quoted (pr_title p) @ '' expects an input file.'')
      else if gebr_validate_path input pv \<noteq> Inr ()
      then Some (GEBR_GEOXML_FLOW_ERROR_INVALID_INFILE,
             ''Invalid input file specified for the program '' @ quoted (pr_title p) @ ''.'')
      else None)"

definition chain_error :: "visit \<Rightarrow> prog \<Rightarrow> flow_gerror option" where
  "chain_error s p =
     (let prev = (case vi_last s of None \<Rightarrow> ''(null)'' | Some q \<Rightarrow> pr_title q) in
      if \<not> vi_stdout s \<and> gebr_geoxml_program_get_stdin p
      then Some (GEBR_GEOXML_FLOW_ERROR_NO_INPUT,
             ''The program '' @ quoted (pr_title p) @
             '' expects an input which is not being generated by the previous program '' @ quoted prev @ ''.'')
      else if vi_stdout s \<and> \<not> gebr_geoxml_program_get_stdin p
      then Some (GEBR_GEOXML_FLOW_ERROR_NO_OUTPUT,
             ''The program '' @ quoted prev @
             '' is sending output which is being ignored by the next program '' @ quoted (pr_title p) @ ''.'')
      else None)"

fun visit_programs :: "cstr \<Rightarrow> pvector \<Rightarrow> prog list \<Rightarrow> visit \<Rightarrow> flow_gerror + visit" where
  "visit_programs input pv [] s = Inr s"
| "visit_programs input pv (p # ps) s =
     (let st = gebr_geoxml_program_get_status p in
      if st = GEBR_GEOXML_PROGRAM_STATUS_UNCONFIGURED
      then Inl (GEBR_GEOXML_FLOW_ERROR_NO_VALID_PROGRAMS, ''There are unconfigured programs.'')
      else if st = GEBR_GEOXML_PROGRAM_STATUS_DISABLED then visit_programs input pv ps s
      else if gebr_geoxml_program_get_error_id p
      then visit_programs input pv ps (s\<lparr>vi_errors := vi_errors s + 1\<rparr>)
      else if gebr_geoxml_program_get_control p = GEBR_GEOXML_PROGRAM_CONTROL_FOR then visit_programs input pv ps s
      else
        (case (if vi_first s \<and> gebr_geoxml_program_get_stdin p then input_error input pv p else chain_error s p) of
           Some e \<Rightarrow> Inl e
         | None \<Rightarrow>
             visit_programs input pv ps
               (s\<lparr>vi_first := False, vi_stdout := gebr_geoxml_program_get_stdout p, vi_last := Some p\<rparr>)))"

definition errors_found :: "nat \<Rightarrow> flow_gerror" where
  "errors_found n =
     (GEBR_GEOXML_FLOW_ERROR_PROGRAM,
      if n = 1 then ''There is one program with error.''
      else ''This flow is broken because there are '' @ show_nat n @ '' programs with error.'')"

text \<open>The output or error file of the last program, when it writes one.\<close>

definition end_file_error :: "flow_gerror \<Rightarrow> bool \<Rightarrow> cstr \<Rightarrow> pvector \<Rightarrow> flow_gerror option" where
  "end_file_error e writes file pv =
     (if writes \<and> file = None then Some e
      else if writes \<and> gebr_validate_path file pv \<noteq> Inr () then Some e
      else None)"

definition line_paths :: "validator \<Rightarrow> pvector" where
  "line_paths v = (case fst (snd (gebr_validator_get_documents v)) of None \<Rightarrow> [] | Some d \<Rightarrow> d_paths (documents v d))"

definition gebr_geoxml_flow_validate :: "updater \<Rightarrow> xflow \<Rightarrow> validator \<Rightarrow> flow_gerror option checked" where
  "gebr_geoxml_flow_validate upd f v =
     (let pv = line_paths v in
      case check_for_valid_programs f of
        Some e \<Rightarrow> Inr (Some e, v)
      | None \<Rightarrow>
          vthen (evaluate_file upd (fl_input f) v) (\<lambda>input v.
            case visit_programs input pv (fl_progs f) visit_start of
              Inl e \<Rightarrow> Inr (Some e, v)
            | Inr s \<Rightarrow>
                if vi_errors s > 0 then Inr (Some (errors_found (vi_errors s)), v)
                else
                  (case vi_last s of
                     None \<Rightarrow> Inr (Some (GEBR_GEOXML_FLOW_ERROR_NO_VALID_PROGRAMS, ''No enabled programs found.''), v)
                   | Some p \<Rightarrow>
                       vthen (evaluate_file upd (fl_output f) v) (\<lambda>file v.
                         case end_file_error (GEBR_GEOXML_FLOW_ERROR_INVALID_OUTFILE,
                                ''Invalid output file specified for the program '' @ quoted (pr_title p) @ ''.'')
                                (gebr_geoxml_program_get_stdout p) file pv of
                           Some e \<Rightarrow> Inr (Some e, v)
                         | None \<Rightarrow>
                             vthen (evaluate_file upd (fl_errfile f) v) (\<lambda>file v.
                               Inr (end_file_error (GEBR_GEOXML_FLOW_ERROR_INVALID_ERRORFILE,
                                 ''Invalid error file specified for the Program '' @ quoted (pr_title p) @ ''.'')
                                 (gebr_geoxml_program_get_stderr p) file pv, v))))))"

section \<open>A valid flow is a pipe\<close>

text \<open>The programs that take part: enabled, without error, and not the loop.\<close>

definition takes_part :: "prog \<Rightarrow> bool" where
  "takes_part p \<longleftrightarrow>
     gebr_geoxml_program_get_status p \<noteq> GEBR_GEOXML_PROGRAM_STATUS_DISABLED \<and> \<not> gebr_geoxml_program_get_error_id p \<and>
     gebr_geoxml_program_get_control p \<noteq> GEBR_GEOXML_PROGRAM_CONTROL_FOR"

text \<open>Each program reads exactly if the one before it writes; \<open>b\<close> tells whether there is something to read.\<close>

fun is_pipe :: "bool \<Rightarrow> prog list \<Rightarrow> bool" where
  "is_pipe b [] \<longleftrightarrow> True"
| "is_pipe b (p # ps) \<longleftrightarrow> gebr_geoxml_program_get_stdin p = b \<and> is_pipe (gebr_geoxml_program_get_stdout p) ps"

lemma status_two: "gebr_geoxml_program_get_status p \<noteq> GEBR_GEOXML_PROGRAM_STATUS_UNCONFIGURED"
  by (simp add: gebr_geoxml_program_get_status_def)

definition faulty :: "prog \<Rightarrow> bool" where
  "faulty p \<longleftrightarrow> gebr_geoxml_program_get_status p \<noteq> GEBR_GEOXML_PROGRAM_STATUS_DISABLED \<and> gebr_geoxml_program_get_error_id p"

lemma visit_cons:
  "visit_programs input pv (p # ps) s =
     (if faulty p then visit_programs input pv ps (s\<lparr>vi_errors := vi_errors s + 1\<rparr>)
      else if \<not> takes_part p then visit_programs input pv ps s
      else
        (case (if vi_first s \<and> gebr_geoxml_program_get_stdin p then input_error input pv p else chain_error s p) of
           Some e \<Rightarrow> Inl e
         | None \<Rightarrow>
             visit_programs input pv ps
               (s\<lparr>vi_first := False, vi_stdout := gebr_geoxml_program_get_stdout p, vi_last := Some p\<rparr>)))"
  using status_two [of p] by (auto simp: faulty_def takes_part_def Let_def)

lemma takes_part_not_faulty: "takes_part p \<Longrightarrow> \<not> faulty p"
  by (simp add: takes_part_def faulty_def)

text \<open>What the visit has checked when it succeeds, from a state where programs were seen.\<close>

lemma visit_pipe_tail:
  assumes "\<not> vi_first s"
  shows "visit_programs input pv ps s = Inr s' \<longleftrightarrow>
     is_pipe (vi_stdout s) (filter takes_part ps) \<and> \<not> vi_first s' \<and>
     vi_errors s' = vi_errors s + length (filter faulty ps) \<and>
     vi_last s' = (if filter takes_part ps = [] then vi_last s else Some (last (filter takes_part ps))) \<and>
     vi_stdout s' = (if filter takes_part ps = [] then vi_stdout s
                     else gebr_geoxml_program_get_stdout (last (filter takes_part ps)))"
  using assms
proof (induction ps arbitrary: s)
  case (Cons p ps)
  let ?s = "s\<lparr>vi_first := False, vi_stdout := gebr_geoxml_program_get_stdout p, vi_last := Some p\<rparr>"
  consider (faulty) "faulty p" "\<not> takes_part p" | (out) "\<not> faulty p" "\<not> takes_part p" | (part) "takes_part p" "\<not> faulty p"
    using takes_part_not_faulty by blast
  then show ?case
  proof cases
    case faulty
    then show ?thesis using Cons by (simp add: visit_cons del: visit_programs.simps)
  next
    case out
    then show ?thesis using Cons by (simp add: visit_cons del: visit_programs.simps)
  next
    case part
    then show ?thesis using Cons.prems Cons.IH [of ?s]
      by (auto simp: visit_cons chain_error_def Let_def simp del: visit_programs.simps)
  qed
qed (auto intro: visit.equality)

definition input_ok :: "bool \<Rightarrow> cstr \<Rightarrow> pvector \<Rightarrow> bool" where
  "input_ok reads file pv \<longleftrightarrow> \<not> reads \<or> file \<noteq> None \<and> file \<noteq> Some [] \<and> gebr_validate_path file pv = Inr ()"

definition output_ok :: "bool \<Rightarrow> cstr \<Rightarrow> pvector \<Rightarrow> bool" where
  "output_ok writes file pv \<longleftrightarrow> \<not> writes \<or> file \<noteq> None \<and> gebr_validate_path file pv = Inr ()"

lemma input_error_none: "input_error input pv p = None \<longleftrightarrow> input_ok True input pv"
  by (auto simp: input_error_def input_ok_def)

lemma end_file_error_none: "end_file_error e writes file pv = None \<longleftrightarrow> output_ok writes file pv"
  by (auto simp: end_file_error_def output_ok_def)

text \<open>What the visit from the first program on has checked when it succeeds.\<close>

lemma visit_pipe:
  assumes "vi_first s" "\<not> vi_stdout s"
  shows "(\<exists>s'. visit_programs input pv ps s = Inr s' \<and> vi_errors s' = n \<and> vi_last s' = Some q) \<longleftrightarrow>
     (case filter takes_part ps of
        [] \<Rightarrow> vi_errors s + length (filter faulty ps) = n \<and> vi_last s = Some q
      | p # qs \<Rightarrow>
          input_ok (gebr_geoxml_program_get_stdin p) input pv \<and> is_pipe (gebr_geoxml_program_get_stdout p) qs \<and>
          vi_errors s + length (filter faulty ps) = n \<and> q = last (p # qs))"
  using assms
proof (induction ps arbitrary: s)
  case (Cons p ps)
  let ?s = "s\<lparr>vi_first := False, vi_stdout := gebr_geoxml_program_get_stdout p, vi_last := Some p\<rparr>"
  let ?p = "filter takes_part ps"
  consider (faulty) "faulty p" "\<not> takes_part p" | (out) "\<not> faulty p" "\<not> takes_part p" | (part) "takes_part p" "\<not> faulty p"
    using takes_part_not_faulty by blast
  then show ?case
  proof cases
    case faulty
    then show ?thesis
      using Cons.prems Cons.IH [of "s\<lparr>vi_errors := vi_errors s + 1\<rparr>"]
      by (simp add: visit_cons cong: list.case_cong del: visit_programs.simps)
  next
    case out
    then show ?thesis using Cons by (simp add: visit_cons cong: list.case_cong del: visit_programs.simps)
  next
    case part
    have last: "last (p # ?p) = (if ?p = [] then p else last ?p)"
      by simp
    have tail: "(\<exists>s'. visit_programs input pv ps ?s = Inr s' \<and> vi_errors s' = n \<and> vi_last s' = Some q) \<longleftrightarrow>
        is_pipe (gebr_geoxml_program_get_stdout p) ?p \<and> vi_errors s + length (filter faulty ps) = n \<and> q = last (p # ?p)"
    proof -
      have *: "visit_programs input pv ps ?s = Inr s' \<longleftrightarrow>
          is_pipe (gebr_geoxml_program_get_stdout p) ?p \<and> \<not> vi_first s' \<and>
          vi_errors s' = vi_errors s + length (filter faulty ps) \<and> vi_last s' = Some (last (p # ?p)) \<and>
          vi_stdout s' = (if ?p = [] then gebr_geoxml_program_get_stdout p
                          else gebr_geoxml_program_get_stdout (last ?p))" for s'
        using visit_pipe_tail [of ?s input pv ps s'] by (auto simp: last)
      show ?thesis
      proof
        assume "is_pipe (gebr_geoxml_program_get_stdout p) ?p \<and>
          vi_errors s + length (filter faulty ps) = n \<and> q = last (p # ?p)"
        then show "\<exists>s'. visit_programs input pv ps ?s = Inr s' \<and> vi_errors s' = n \<and> vi_last s' = Some q"
          by (intro exI [of _ "\<lparr>vi_first = False, vi_stdout = (if ?p = [] then gebr_geoxml_program_get_stdout p
                else gebr_geoxml_program_get_stdout (last ?p)), vi_errors = n, vi_last = Some q\<rparr>"])
            (auto simp: *)
      qed (auto simp: *)
    qed
    show ?thesis
    proof (cases "gebr_geoxml_program_get_stdin p")
      case True
      have "visit_programs input pv (p # ps) s =
          (case input_error input pv p of Some e \<Rightarrow> Inl e | None \<Rightarrow> visit_programs input pv ps ?s)"
        using part True Cons.prems by (simp add: visit_cons del: visit_programs.simps)
      then show ?thesis
        using True part tail input_error_none [of input pv p]
        by (cases "input_error input pv p") auto
    next
      case False
      have "visit_programs input pv (p # ps) s = visit_programs input pv ps ?s"
        using part False Cons.prems by (simp add: visit_cons chain_error_def Let_def del: visit_programs.simps)
      then show ?thesis
        using False part tail by (auto simp: input_ok_def)
    qed
  qed
qed auto


text \<open>The condition that the programs of a flow satisfy, for the last of those that take part and the evaluated input.\<close>

definition pipe_from :: "cstr \<Rightarrow> pvector \<Rightarrow> prog list \<Rightarrow> prog \<Rightarrow> bool" where
  "pipe_from input pv ps q \<longleftrightarrow>
     filter faulty ps = [] \<and>
     (case filter takes_part ps of
        [] \<Rightarrow> False
      | p # qs \<Rightarrow>
          input_ok (gebr_geoxml_program_get_stdin p) input pv \<and>
          is_pipe (gebr_geoxml_program_get_stdout p) qs \<and> q = last (p # qs))"

lemma visit_accepts:
  "(\<exists>s. visit_programs input pv ps visit_start = Inr s \<and> vi_errors s = 0 \<and> vi_last s = Some q) \<longleftrightarrow>
   pipe_from input pv ps q"
  using visit_pipe [of visit_start input pv ps 0 q]
  by (auto simp: visit_start_def pipe_from_def split: list.splits)

lemma visit_verdict:
  "(case visit_programs input pv ps visit_start of
      Inl e \<Rightarrow> Inr (Some e, v)
    | Inr s \<Rightarrow>
        if vi_errors s > 0 then Inr (Some (errors_found (vi_errors s)), v)
        else (case vi_last s of None \<Rightarrow> Inr (Some e0, v) | Some p \<Rightarrow> k p)) = Inr (None, v') \<longleftrightarrow>
   (\<exists>q. pipe_from input pv ps q \<and> k q = Inr (None, v'))"
  using visit_accepts [of input pv ps]
  by (auto split: sum.splits option.splits if_splits) metis

lemma flow_validate_conv:
  "gebr_geoxml_flow_validate upd f v = Inr (None, v3) \<longleftrightarrow>
   check_for_valid_programs f = None \<and>
   (\<exists>input v1 q out v2 err.
      evaluate_file upd (fl_input f) v = Inr (input, v1) \<and>
      pipe_from input (line_paths v) (fl_progs f) q \<and>
      evaluate_file upd (fl_output f) v1 = Inr (out, v2) \<and>
      output_ok (gebr_geoxml_program_get_stdout q) out (line_paths v) \<and>
      evaluate_file upd (fl_errfile f) v2 = Inr (err, v3) \<and>
      output_ok (gebr_geoxml_program_get_stderr q) err (line_paths v))"
proof (cases "check_for_valid_programs f")
  case None
  have ends: "(case end_file_error e w g pv of None \<Rightarrow> k | Some e \<Rightarrow> Inr (Some e, v)) = Inr (None, v3) \<longleftrightarrow>
      output_ok w g pv \<and> k = Inr (None, v3)" for e w g pv k and v :: validator
    using end_file_error_none [of e w g pv] by (auto split: option.splits)
  show ?thesis
    unfolding gebr_geoxml_flow_validate_def None Let_def option.case
    by (simp only: vthen_Inr_conv visit_verdict ends) (simp add: end_file_error_none)
qed (simp add: gebr_geoxml_flow_validate_def)

text \<open>
  C20: A flow is valid exactly when it is a pipe that can run: besides a loop it has programs that are enabled, none of
  the enabled ones has an error, the first of them finds its input file if it reads one, each of
  the others reads exactly when the one before it writes, and the files for the output and the errors of the last one are
  evaluated to usable paths if it writes them.
\<close>
theorem valid_flow_is_pipe:
  "gebr_geoxml_flow_validate upd f v = Inr (None, v3) \<longleftrightarrow>
   check_for_valid_programs f = None \<and>
   (\<exists>input v1 q out v2 err.
      evaluate_file upd (fl_input f) v = Inr (input, v1) \<and>
      pipe_from input (line_paths v) (fl_progs f) q \<and>
      evaluate_file upd (fl_output f) v1 = Inr (out, v2) \<and>
      output_ok (gebr_geoxml_program_get_stdout q) out (line_paths v) \<and>
      evaluate_file upd (fl_errfile f) v2 = Inr (err, v3) \<and>
      output_ok (gebr_geoxml_program_get_stderr q) err (line_paths v))"
  by (rule flow_validate_conv)

end
