(* ===== verification/Gebrd_Quote.thy ===== *)
theory Gebrd_Quote
  imports Prelude
begin

text \<open>
  Texts of the command lines that the daemon of a machine builds: escaping and quoting (\<open>gebrd/gebrd-job.c\<close> and
  GLib's \<open>g_shell_quote\<close>), and the command of a parallel program
  (\<open>gebrd/gebrd-mpi-implementations.c\<close>, \<open>gebrd-mpi-interface.c\<close>). The reader of words of a shell states what quoting is for.
\<close>

section \<open>Words of a shell\<close>

text \<open>
  The words of a command line as \<open>g_shell_parse_argv\<close> and a shell without expansions read them: the value of the
  first word and the rest, or \<open>None\<close> where a quotation is not closed. Blanks outside quotations end a word.
\<close>

datatype quoting = Unquoted | Escaped | Single | Double | Double_Escaped

definition is_blank :: "char \<Rightarrow> bool" where
  "is_blank c \<longleftrightarrow> c = CHR '' '' \<or> c = CHR 0x09 \<or> c = NL"

definition kept_escape :: "char \<Rightarrow> bool" where
  "kept_escape c \<longleftrightarrow> c = CHR ''$'' \<or> c = CHR 0x60 \<or> c = CHR 0x22 \<or> c = CHR 0x5C \<or> c = NL"

definition read_char :: "char \<Rightarrow> (string \<times> string) option \<Rightarrow> (string \<times> string) option" where
  "read_char c r = (case r of None \<Rightarrow> None | Some (w, t) \<Rightarrow> Some (c # w, t))"

fun sh_word :: "quoting \<Rightarrow> string \<Rightarrow> (string \<times> string) option" where
  "sh_word q [] = (if q = Unquoted then Some ([], []) else None)"
| "sh_word Unquoted (c # s) =
     (if is_blank c then Some ([], c # s)
      else if c = CHR 0x27 then sh_word Single s
      else if c = CHR 0x22 then sh_word Double s
      else if c = CHR 0x5C then sh_word Escaped s
      else read_char c (sh_word Unquoted s))"
| "sh_word Escaped (c # s) = read_char c (sh_word Unquoted s)"
| "sh_word Single (c # s) = (if c = CHR 0x27 then sh_word Unquoted s else read_char c (sh_word Single s))"
| "sh_word Double (c # s) =
     (if c = CHR 0x22 then sh_word Unquoted s
      else if c = CHR 0x5C then sh_word Double_Escaped s
      else read_char c (sh_word Double s))"
| "sh_word Double_Escaped (c # s) =
     (if kept_escape c then read_char c (sh_word Double s)
      else read_char (CHR 0x5C) (read_char c (sh_word Double s)))"

lemma read_char_Some [simp]:
  "read_char c r = Some (w, t) \<longleftrightarrow> (\<exists>w'. w = c # w' \<and> r = Some (w', t))"
  by (auto simp: read_char_def split: option.splits)

lemma read_char_apply [simp]: "read_char c None = None" "read_char c (Some (w, t)) = Some (c # w, t)"
  by (simp_all add: read_char_def)

lemma sh_word_shorter: "sh_word q s = Some (w, r) \<Longrightarrow> length r \<le> length s"
  by (induction q s arbitrary: w rule: sh_word.induct) (fastforce split: if_splits)+

lemma sh_word_first:
  assumes "sh_word Unquoted (c # s) = Some (w, r)" "\<not> is_blank c"
  shows "length r \<le> length s"
  using assms by (auto split: if_splits dest: sh_word_shorter)

text \<open>All words.\<close>

function sh_words :: "string \<Rightarrow> string list option" where
  "sh_words s =
     (case dropWhile is_blank s of
        [] \<Rightarrow> Some []
      | c # t \<Rightarrow>
          (case sh_word Unquoted (c # t) of
             None \<Rightarrow> None
           | Some (w, r) \<Rightarrow> map_option ((#) w) (sh_words r)))"
  by auto
termination
proof (relation "measure length", goal_cases)
  case (2 s c t p w r)
  have "\<not> is_blank c"
    using hd_dropWhile [of is_blank s] 2(1) by force
  then have "length r < length (c # t)"
    using sh_word_first [of c t w r] 2(2,3) by (simp add: less_Suc_eq_le)
  also have "\<dots> \<le> length s"
    using length_dropWhile_le [of is_blank s] 2(1) by simp
  finally show ?case by simp
qed simp

declare sh_words.simps [simp del]


section \<open>Escaping\<close>

fun escape_quote_and_slash :: "string \<Rightarrow> string" where
  "escape_quote_and_slash [] = []"
| "escape_quote_and_slash (c # s) =
     (if c = CHR 0x5C \<or> c = CHR 0x22 then CHR 0x5C # c # escape_quote_and_slash s
      else c # escape_quote_and_slash s)"

definition replace_quotes :: "string \<Rightarrow> string" where
  "replace_quotes s = map (\<lambda>c. if c = CHR 0x27 then CHR 0x22 else c) s"

text \<open>GLib: single quotes around the text, and a single quote inside it as the four characters \<open>'\''\<close>.\<close>

definition quote_char :: "char \<Rightarrow> string" where
  "quote_char c = (if c = CHR 0x27 then [CHR 0x27, CHR 0x5C, CHR 0x27, CHR 0x27] else [c])"

definition g_shell_quote :: "string \<Rightarrow> string" where
  "g_shell_quote s = CHR 0x27 # concat (map quote_char s) @ [CHR 0x27]"

text \<open>What is read behind a quotation that was closed is appended to its text.\<close>

definition read_text :: "string \<Rightarrow> (string \<times> string) option \<Rightarrow> (string \<times> string) option" where
  "read_text s r = foldr read_char s r"

lemma read_text_simps [simp]:
  "read_text [] r = r" "read_text (c # s) r = read_char c (read_text s r)"
  by (simp_all add: read_text_def)

lemma read_text_Some [simp]: "read_text s None = None" "read_text s (Some (w, t)) = Some (s @ w, t)"
  by (induction s) simp_all

lemma escaped_read:
  "sh_word Double (escape_quote_and_slash s @ CHR 0x22 # r) = read_text s (sh_word Unquoted r)"
  by (induction s) (auto simp: kept_escape_def)

lemma quoted_chars_read:
  "sh_word Single (concat (map quote_char s) @ CHR 0x27 # r) = read_text s (sh_word Unquoted r)"
  by (induction s) (auto simp: quote_char_def is_blank_def)

lemma shell_quote_read: "sh_word Unquoted (g_shell_quote s @ r) = read_text s (sh_word Unquoted r)"
  by (simp add: g_shell_quote_def is_blank_def quoted_chars_read)

lemma replace_quotes_single: "CHR 0x27 \<notin> set (replace_quotes s)"
  by (auto simp: replace_quotes_def)

text \<open>A word without special characters.\<close>

definition bare_char :: "char \<Rightarrow> bool" where
  "bare_char c \<longleftrightarrow> \<not> is_blank c \<and> c \<noteq> CHR 0x27 \<and> c \<noteq> CHR 0x22 \<and> c \<noteq> CHR 0x5C"

lemma plain_read: "list_all bare_char s \<Longrightarrow> sh_word Unquoted (s @ r) = read_text s (sh_word Unquoted r)"
  by (induction s) (auto simp: bare_char_def)

lemma sh_words_end: "list_all is_blank s \<Longrightarrow> sh_words s = Some []"
  by (subst sh_words.simps) (simp add: list_all_iff dropWhile_eq_Nil_conv [THEN iffD2])

lemma sh_words_blank: "is_blank c \<Longrightarrow> sh_words (c # s) = sh_words s"
  by (subst (1 2) sh_words.simps) simp

lemma sh_words_step:
  assumes "sh_word Unquoted (c # s) = Some (w, r)" "\<not> is_blank c"
  shows "sh_words (c # s) = map_option ((#) w) (sh_words r)"
  using assms by (subst sh_words.simps) simp

lemma sh_words_word:
  assumes "list_all bare_char w" "w \<noteq> []"
  shows "sh_words (w @ CHR '' '' # s) = map_option ((#) w) (sh_words s)"
proof -
  obtain c t where w: "w = c # t" using assms(2) by (cases w) auto
  have "\<not> is_blank c" using assms(1) w by (simp add: bare_char_def)
  moreover have "sh_word Unquoted (w @ CHR '' '' # s) = Some (w, CHR '' '' # s)"
    using assms(1) by (simp add: plain_read is_blank_def)
  ultimately show ?thesis using sh_words_step [of c "t @ CHR '' '' # s"] w by (simp add: sh_words_blank is_blank_def)
qed

lemma sh_words_quote: "sh_words (g_shell_quote s) = Some [s]"
proof -
  have "sh_word Unquoted (g_shell_quote s) = Some (s, [])"
    using shell_quote_read [of s "[]"] by simp
  then show ?thesis
    using sh_words_step [of "CHR 0x27" "concat (map quote_char s) @ [CHR 0x27]" s "[]"]
    by (simp add: g_shell_quote_def is_blank_def sh_words_end)
qed


section \<open>Parallel programs\<close>

record mpi_config =
  mc_name :: string
  mc_mpirun :: string
  mc_libpath :: string
  mc_init_cmd :: string
  mc_end_cmd :: string

text \<open>The two implementations of \<open>GebrdMpiInterface\<close>, with the parameters of the command.\<close>

datatype mpi_interface =
    GebrdOpenMpi mpi_config string string
  | GebrdMpich2 mpi_config "string list" string

definition gebrd_open_mpi_new :: "string \<Rightarrow> mpi_config \<Rightarrow> string list \<Rightarrow> mpi_interface" where
  "gebrd_open_mpi_new par config hosts = GebrdOpenMpi config (drop 1 (concat (map (\<lambda>s. CHR '','' # s) hosts))) par"

definition gebrd_mpich2_new :: "string \<Rightarrow> mpi_config \<Rightarrow> string list \<Rightarrow> mpi_interface" where
  "gebrd_mpich2_new par config hosts = GebrdMpich2 config hosts par"

definition tmp_file :: string where
  "tmp_file = ''$_gebr_tmp''"

definition library_path :: "mpi_config \<Rightarrow> string" where
  "library_path config =
     (if mc_libpath config = [] then []
      else ''LD_LIBRARY_PATH='' @ mc_libpath config @ '':$LD_LIBRARY_PATH'')"

definition gebrd_open_mpi_build_command :: "mpi_config \<Rightarrow> string \<Rightarrow> string \<Rightarrow> string \<Rightarrow> string" where
  "gebrd_open_mpi_build_command config hosts par cmd =
     ''LD_LIBRARY_PATH='' @ library_path config @ '':$LD_LIBRARY_PATH '' @ mc_mpirun config @ '' --host '' @ hosts @
     '' '' @ par @ '' '' @ cmd"

text \<open>\<open>tmp\<close> is the template \<open>mpd.hostsXXXXXX\<close> in the directory of the daemon.\<close>

definition gebrd_mpich2_initialize :: "string \<Rightarrow> string list \<Rightarrow> string" where
  "gebrd_mpich2_initialize tmp hosts =
     ''( _gebr_tmp=`mktemp '' @ tmp @ ''` && echo '' @ [CHR 0x27] @ concat (map (\<lambda>s. s @ [NL]) hosts) @ [CHR 0x27] @
     '' >> '' @ tmp_file"

definition gebrd_mpich2_build_command :: "mpi_config \<Rightarrow> string \<Rightarrow> string \<Rightarrow> string" where
  "gebrd_mpich2_build_command config par cmd =
     library_path config @ '' '' @ mc_mpirun config @ '' -f '' @ tmp_file @ '' '' @ par @ '' '' @ cmd"

definition gebrd_mpich2_finalize :: string where
  "gebrd_mpich2_finalize = ''rm '' @ tmp_file @ '' )''"

fun gebrd_mpi_interface_build_comand :: "string \<Rightarrow> mpi_interface \<Rightarrow> string \<Rightarrow> string" where
  "gebrd_mpi_interface_build_comand tmp (GebrdOpenMpi config hosts par) cmd =
     gebrd_open_mpi_build_command config hosts par cmd"
| "gebrd_mpi_interface_build_comand tmp (GebrdMpich2 config hosts par) cmd =
     gebrd_mpich2_initialize tmp hosts @ ''; '' @ gebrd_mpich2_build_command config par cmd @ ''; '' @
     gebrd_mpich2_finalize"

definition gebrd_get_mpi_config_by_name :: "mpi_config list \<Rightarrow> string \<Rightarrow> mpi_config option" where
  "gebrd_get_mpi_config_by_name flavors name = find (\<lambda>c. mc_name c = name) flavors"

text \<open>The configuration that is found first is the one that was added last.\<close>

definition check_and_add_mpi_flavor ::
    "(string \<Rightarrow> bool) \<Rightarrow> string \<Rightarrow> string \<Rightarrow> string \<Rightarrow> string \<Rightarrow> string \<Rightarrow> mpi_config list \<Rightarrow> bool \<times> mpi_config list" where
  "check_and_add_mpi_flavor in_path name bin libpath init_cmd end_cmd flavors =
     (if \<not> in_path bin then (False, flavors)
      else (True, \<lparr>mc_name = name, mc_mpirun = bin, mc_libpath = libpath, mc_init_cmd = init_cmd, mc_end_cmd = end_cmd\<rparr> # flavors))"

definition default_flavors :: "(string \<times> string) list" where
  "default_flavors = [(''openmpi'', ''/usr/bin/mpirun.openmpi''), (''mpich2'', ''/usr/bin/mpiexec.hydra'')]"

definition mpi_fallback :: "(string \<Rightarrow> bool) \<Rightarrow> mpi_config list \<Rightarrow> mpi_config list" where
  "mpi_fallback in_path flavors =
     fold (\<lambda>(name, bin) flavors.
        if gebrd_get_mpi_config_by_name flavors name = None
        then snd (check_and_add_mpi_flavor in_path name bin [] [] [] flavors) else flavors)
       default_flavors flavors"

definition job_get_mpi_impl :: "mpi_config list \<Rightarrow> string \<Rightarrow> string \<Rightarrow> (string \<Rightarrow> string list) \<Rightarrow> mpi_interface option" where
  "job_get_mpi_impl flavors name par mpi_servers =
     (case gebrd_get_mpi_config_by_name flavors name of
        None \<Rightarrow> None
      | Some config \<Rightarrow>
          if name = ''openmpi'' then Some (gebrd_open_mpi_new par config (mpi_servers name))
          else if name = ''mpich2'' then Some (gebrd_mpich2_new par config (mpi_servers name))
          else None)"

end
