(* ===== verification/Gebrd_Cmdline.thy ===== *)
theory Gebrd_Cmdline
  imports Gebrd_Quote Geoxml_Valid
begin

text \<open>
  The command line of a job, as the daemon of a machine builds it from a flow (\<open>gebrd/gebrd-job.c\<close>): the parameters
  of each program, the numeric expressions that \<open>bc\<close> evaluates into the array \<open>V\<close>, the variables, redirections, the
  pipe of programs and the loop around it. Texts of the translations are those of the sources.
\<close>

section \<open>Data\<close>

text \<open>A parameter with the properties that only the command line needs.\<close>

record cmd_param = param +
  cp_min :: string
  cp_max :: string
  cp_digits :: string

text \<open>A group has instances; an instance may have a selected parameter.\<close>

datatype cmd_item =
    Item cmd_param
  | Group "cmd_instance list"
and cmd_instance =
    Instance "cmd_item option" "cmd_item list"

record cmd_prog =
  cp_prog :: prog
  cp_binary :: string
  cp_items :: "cmd_item list"
  cp_mpi_items :: "cmd_item list option"

text \<open>
  What comes from elsewhere: the routine that writes the variables to \<open>bc\<close>, \<open>strtod\<close> and whether it reads a whole
  text, the messages of errors, the flavors of MPI that the machine has, and the template of the file of hosts.
\<close>

record cmd_env =
  ce_upd :: updater
  ce_strtod :: "string \<Rightarrow> rat"
  ce_numeral :: "string \<Rightarrow> bool"
  ce_message :: "gerror \<Rightarrow> string"
  ce_flavors :: "mpi_config list"
  ce_tmp :: string

text \<open>The command that grows, the expressions for \<open>bc\<close>, the issues, and the number of expressions.\<close>

record parse =
  ps_cmd :: string
  ps_expr :: string
  ps_issues :: string
  ps_count :: nat

definition put :: "string \<Rightarrow> parse \<Rightarrow> parse" where
  "put x s = s\<lparr>ps_cmd := ps_cmd s @ x\<rparr>"

text \<open>\<open>job_issue\<close> while the job is built: its status is still the initial one, and nobody is told.\<close>

definition issue :: "string \<Rightarrow> parse \<Rightarrow> parse" where
  "issue x s = s\<lparr>ps_issues := ps_issues s @ x\<rparr>"

text \<open>The message of an error is passed as a format; a directive in it reads arguments that are not there.\<close>

fun plain_format :: "string \<Rightarrow> cstr" where
  "plain_format [] = Some []"
| "plain_format (c # s) =
     (if c \<noteq> CHR ''%'' then map_option ((#) c) (plain_format s)
      else (case s of d # t \<Rightarrow> if d = CHR ''%'' then map_option ((#) d) (plain_format t) else None | [] \<Rightarrow> None))"

type_synonym parsing = "(bool \<times> parse) checked"

definition pthen :: "parsing \<Rightarrow> (parse \<Rightarrow> validator \<Rightarrow> parsing) \<Rightarrow> parsing" where
  "pthen m k = vthen m (\<lambda>(ok, s) v. if ok then k s v else Inr ((False, s), v))"

definition refuse :: "string \<Rightarrow> parse \<Rightarrow> validator \<Rightarrow> parsing" where
  "refuse x s v = Inr ((False, issue x s), v)"

section \<open>Parameters\<close>

definition gebr_geoxml_program_parameter_get_string_value :: "'a param_scheme \<Rightarrow> string" where
  "gebr_geoxml_program_parameter_get_string_value pa =
     (case p_sep pa of
        None \<Rightarrow> (case p_values pa of [] \<Rightarrow> [] | x # _ \<Rightarrow> x)
      | Some sep \<Rightarrow> g_strjoinv sep (p_values pa))"

definition missing_parameter :: "cmd_param \<Rightarrow> prog \<Rightarrow> string" where
  "missing_parameter pa p =
     ''Required parameter '' @ quoted (p_label pa) @ '' of program '' @ quoted (pr_title p) @ '' not provided.'' @ [NL]"

definition separated :: "bool \<Rightarrow> cstr \<Rightarrow> string \<Rightarrow> string" where
  "separated first sep x = (if first then x else (case sep of None \<Rightarrow> x | Some d \<Rightarrow> d @ x))"

text \<open>
  The values of a text: the result of the evaluation is written as it is, though it is escaped before. It is read
  also where the evaluation ended without result and without error.
\<close>

fun parse_texts :: "cmd_env \<Rightarrow> cstr \<Rightarrow> bool \<Rightarrow> string list \<Rightarrow> parse \<Rightarrow> validator \<Rightarrow> parsing" where
  "parse_texts env sep first [] s v = Inr ((True, s), v)"
| "parse_texts env sep first (x # xs) s v =
     vthen (gebr_validator_evaluate_interval (ce_upd env) (g_strstrip x) GEBR_GEOXML_PARAMETER_TYPE_STRING FLOW False True v)
       (\<lambda>(r, err) v.
          case err of
            None \<Rightarrow>
              (case r of
                 None \<Rightarrow> Inl Crash
               | Some t \<Rightarrow> parse_texts env sep False xs (put (separated first sep t) s) v)
          | Some e \<Rightarrow>
              (case plain_format (ce_message env e) of
                 None \<Rightarrow> Inl Crash
               | Some m \<Rightarrow> Inr ((False, issue m s), v)))"

definition rounded :: "cmd_param \<Rightarrow> string \<Rightarrow> string" where
  "rounded pa x =
     (if p_type pa = GEBR_GEOXML_PARAMETER_TYPE_RANGE \<and> cp_digits pa = ''0'' \<or> p_type pa = GEBR_GEOXML_PARAMETER_TYPE_INT
      then ''round('' @ x @ '')'' else x)"

text \<open>With an upper bound only, the expression is the maximum of the bound and the value.\<close>

definition bounded :: "string \<Rightarrow> string \<Rightarrow> string \<Rightarrow> string" where
  "bounded vmin vmax x =
     (if vmin \<noteq> [] \<and> vmax \<noteq> [] then ''min('' @ vmax @ '',max('' @ vmin @ '','' @ x @ ''))''
      else if vmin \<noteq> [] then ''max('' @ vmin @ '','' @ x @ '')''
      else if vmax \<noteq> [] then ''max('' @ vmax @ '','' @ x @ '')''
      else x)"

definition element :: "nat \<Rightarrow> string" where
  "element k = ''V['' @ show_nat k @ '']''"

definition expression_line :: "cmd_param \<Rightarrow> nat \<Rightarrow> string \<Rightarrow> string" where
  "expression_line pa k x =
     [CHR 0x09] @ bounded (cp_min pa) (cp_max pa) (rounded pa x) @ '' # '' @ element k @ '': '' @
     replace_quotes (p_label pa) @ [NL]"

text \<open>The values of a number: a literal is written as it is, an expression becomes an element of \<open>V\<close>.\<close>

fun parse_numbers :: "cmd_env \<Rightarrow> nat \<Rightarrow> cmd_param \<Rightarrow> bool \<Rightarrow> string list \<Rightarrow> parse \<Rightarrow> parse" where
  "parse_numbers env n_vars pa first [] s = s"
| "parse_numbers env n_vars pa first (x # xs) s =
     (let e = g_strstrip x; k = ps_count s + n_vars in
      parse_numbers env n_vars pa False xs
        (if ce_numeral env e then put (separated first (p_sep pa) e) s
         else put (separated first (p_sep pa) (''${'' @ element k @ ''}''))
                (s\<lparr>ps_expr := ps_expr s @ expression_line pa k e, ps_count := ps_count s + 1\<rparr>)))"

definition parse_leaf :: "cmd_env \<Rightarrow> nat \<Rightarrow> prog \<Rightarrow> cmd_param \<Rightarrow> parse \<Rightarrow> validator \<Rightarrow> parsing" where
  "parse_leaf env n_vars p pa s v =
     (let value = gebr_geoxml_program_parameter_get_string_value pa;
          missing = (if p_required pa then refuse (missing_parameter pa p) s v else Inr ((True, s), v));
          opened = put (p_name pa @ [CHR 0x22]) s
      in case p_type pa of
           GEBR_GEOXML_PARAMETER_TYPE_FILE \<Rightarrow>
             if value = [] then missing
             else pthen (parse_texts env (p_sep pa) True (p_values pa) opened v) (\<lambda>s v. Inr ((True, put (CHR 0x22 # '' '') s), v))
         | GEBR_GEOXML_PARAMETER_TYPE_STRING \<Rightarrow>
             if value = [] then missing
             else pthen (parse_texts env (p_sep pa) True (p_values pa) opened v) (\<lambda>s v. Inr ((True, put (CHR 0x22 # '' '') s), v))
         | GEBR_GEOXML_PARAMETER_TYPE_INT \<Rightarrow>
             if value = [] then missing
             else Inr ((True, put (CHR 0x22 # '' '') (parse_numbers env n_vars pa True (p_values pa) opened)), v)
         | GEBR_GEOXML_PARAMETER_TYPE_RANGE \<Rightarrow>
             if value = [] then missing
             else Inr ((True, put (CHR 0x22 # '' '') (parse_numbers env n_vars pa True (p_values pa) opened)), v)
         | GEBR_GEOXML_PARAMETER_TYPE_FLOAT \<Rightarrow>
             if value = [] then missing
             else Inr ((True, put (CHR 0x22 # '' '') (parse_numbers env n_vars pa True (p_values pa) opened)), v)
         | GEBR_GEOXML_PARAMETER_TYPE_ENUM \<Rightarrow>
             if value = [] then missing
             else Inr ((True, put (p_name pa @ g_shell_quote value @ '' '') s), v)
         | GEBR_GEOXML_PARAMETER_TYPE_FLAG \<Rightarrow>
             Inr ((True, if (case p_values pa of x # _ \<Rightarrow> x = ''on'' | [] \<Rightarrow> False) then put (p_name pa @ '' '') s else s), v)
         | _ \<Rightarrow> refuse (''Unknown parameter type.'' @ [NL]) s v)"

fun job_parse_parameter :: "cmd_env \<Rightarrow> nat \<Rightarrow> prog \<Rightarrow> cmd_item \<Rightarrow> parse \<Rightarrow> validator \<Rightarrow> parsing"
  and job_parse_parameters :: "cmd_env \<Rightarrow> nat \<Rightarrow> prog \<Rightarrow> cmd_item list \<Rightarrow> parse \<Rightarrow> validator \<Rightarrow> parsing"
  and parse_instances :: "cmd_env \<Rightarrow> nat \<Rightarrow> prog \<Rightarrow> cmd_instance list \<Rightarrow> parse \<Rightarrow> validator \<Rightarrow> parsing" where
  "job_parse_parameter env n_vars p (Item pa) s v = parse_leaf env n_vars p pa s v"
| "job_parse_parameter env n_vars p (Group is) s v = parse_instances env n_vars p is s v"
| "job_parse_parameters env n_vars p [] s v = Inr ((True, s), v)"
| "job_parse_parameters env n_vars p (i # is) s v =
     pthen (job_parse_parameter env n_vars p i s v) (job_parse_parameters env n_vars p is)"
| "parse_instances env n_vars p [] s v = Inr ((True, s), v)"
| "parse_instances env n_vars p (Instance (Some i) xs # is) s v =
     pthen (job_parse_parameter env n_vars p i s v) (parse_instances env n_vars p is)"
| "parse_instances env n_vars p (Instance None xs # is) s v =
     pthen (job_parse_parameters env n_vars p xs s v) (parse_instances env n_vars p is)"


section \<open>Variables\<close>

text \<open>
  The variables of the loop: the number of iterations as text, and the value of the first variable of the flow. The
  result of an evaluation that fails is read although it was never written.
\<close>

definition set_iter_value :: "doc_ref \<Rightarrow> string \<Rightarrow> validator \<Rightarrow> validator" where
  "set_iter_value d x v =
     (case d_dict (documents v d) of
        [] \<Rightarrow> v
      | p # _ \<Rightarrow> set_param p (\<lambda>pa. pa\<lparr>p_values := set_first_value x (p_values pa)\<rparr>) v)"

definition loop_count :: "cmd_env \<Rightarrow> doc_ref \<Rightarrow> prog \<Rightarrow> nat \<Rightarrow> parse \<Rightarrow> validator \<Rightarrow> (string \<times> nat \<times> parse) checked" where
  "loop_count env d p issues s v =
     (case gebr_geoxml_program_control_get_n p of
        (Some n, Some step, Some ini) \<Rightarrow>
          vthen (gebr_validator_evaluate (ce_upd env) n GEBR_GEOXML_PARAMETER_TYPE_FLOAT LINE True v) (\<lambda>(r, err) v.
            let (issues, s) =
                  (case err of
                     None \<Rightarrow> (issues, s)
                   | Some e \<Rightarrow>
                       (issues + 1,
                        issue (show_nat (issues + 1) @ '') '' @ ce_message env e @ '' '' @ quoted (pr_title p) @ ''.'' @ [NL]) s))
            in case r of
                 None \<Rightarrow> Inl Crash
               | Some x \<Rightarrow>
                   Inr ((show_int (c_atoi x), issues, s),
                     set_iter_value d
                       (''('' @ ini @ '') + ('' @ step @ '') * '' @ [CHR 0x27, CHR 0x22] @ ''$counter'' @ [CHR 0x22, CHR 0x27]) v))
      | _ \<Rightarrow> Inl Crash)"

text \<open>The numbers and texts of one document: the lines for \<open>bc\<close>, the lines for the shell, the next element of \<open>V\<close>.\<close>

definition variable_line ::  "string \<Rightarrow> string \<Rightarrow> nat \<Rightarrow> string \<Rightarrow> string" where
  "variable_line name x j label =
     [CHR 0x09] @ name @ '' = ('' @ x @ '') ; '' @ name @ [CHR 0x09] @ ''# '' @ element j @ '': '' @ replace_quotes label @ [NL]"

definition text_line ::  "string \<Rightarrow> cstr \<Rightarrow> string \<Rightarrow> string" where
  "text_line name r label =
     name @ [CHR ''='', CHR 0x22] @ (case r of None \<Rightarrow> ''(null)'' | Some x \<Rightarrow> x) @ [CHR 0x22, CHR 0x09] @ ''# '' @
     replace_quotes label @ [NL]"

fun define_dict :: "cmd_env \<Rightarrow> param_ref list \<Rightarrow> string \<Rightarrow> string \<Rightarrow> nat \<Rightarrow> validator \<Rightarrow> (string \<times> string \<times> nat) checked" where
  "define_dict env [] bc sh j v = Inr ((bc, sh, j), v)"
| "define_dict env (p # ps) bc sh j v =
     (let name = var_name p v; x = var_value p v; label = p_label (params v p) in
      if param_type v p \<in> {GEBR_GEOXML_PARAMETER_TYPE_FLOAT, GEBR_GEOXML_PARAMETER_TYPE_INT}
      then
        vthen (gebr_validator_change_value (ce_strtod env) (ce_upd env) p (''${V[['' @ show_nat j @ '']]}'')
                (set_param p (\<lambda>pa. pa\<lparr>p_type := GEBR_GEOXML_PARAMETER_TYPE_STRING\<rparr>) v))
          (\<lambda>_ v. define_dict env ps (bc @ variable_line name x j label) sh (j + 1) v)
      else if param_type v p = GEBR_GEOXML_PARAMETER_TYPE_STRING
      then
        vthen (gebr_validator_evaluate_interval (ce_upd env) x GEBR_GEOXML_PARAMETER_TYPE_STRING (param_scope v p) False False v)
          (\<lambda>(r, _) v.
             vthen (gebr_validator_change_value (ce_strtod env) (ce_upd env) p (''${'' @ name @ ''}'') v)
               (\<lambda>_ v. define_dict env ps bc (sh @ text_line name r label) j v))
      else define_dict env ps bc sh j v)"

fun define_dicts :: "cmd_env \<Rightarrow> doc_ref list \<Rightarrow> string \<Rightarrow> string \<Rightarrow> nat \<Rightarrow> validator \<Rightarrow> (string \<times> string \<times> nat) checked" where
  "define_dicts env [] bc sh j v = Inr ((bc, sh, j), v)"
| "define_dicts env (d # ds) bc sh j v =
     vthen (define_dict env (d_dict (documents v d)) bc sh j v) (\<lambda>(bc, sh, j) v. define_dicts env ds bc sh j v)"

text \<open>
  The documents are those of project, line and flow. The result: the number of iterations when there is a
  loop, the lines for the shell, the number of variables in \<open>V\<close>, and the number of issues.
\<close>

definition define_bc_variables ::
    "cmd_env \<Rightarrow> xflow \<Rightarrow> doc_ref \<times> doc_ref \<times> doc_ref \<Rightarrow> nat \<Rightarrow> parse \<Rightarrow> validator \<Rightarrow>
     (cstr \<times> string \<times> nat \<times> nat \<times> parse) checked" where
  "define_bc_variables env f docs issues s v =
     (let (proj, line, flow) = docs in
      vthen
        (case gebr_geoxml_flow_get_control_program f of
           None \<Rightarrow> Inr ((None, issues, s), v)
         | Some p \<Rightarrow>
             if gebr_geoxml_program_get_control p = GEBR_GEOXML_PROGRAM_CONTROL_FOR \<and>
                gebr_geoxml_program_get_status p = GEBR_GEOXML_PROGRAM_STATUS_CONFIGURED
             then vthen (loop_count env flow p issues s v) (\<lambda>(n, issues, s) v. Inr ((Some n, issues, s), v))
             else Inr ((None, issues, s), v))
        (\<lambda>(n, issues, s) v.
           vthen (define_dicts env [proj, line, flow] (ps_expr s) [] 0 v) (\<lambda>(bc, sh, j) v.
             Inr ((n, sh, j, issues, s\<lparr>ps_expr := bc\<rparr>), v))))"

definition bc_prologue :: string where
  "bc_prologue =
     [NL] @ ''# Dictionary'' @ [NL] @ ''V=($(echo '' @ [CHR 0x27] @ ''scale=5'' @ [NL, CHR 0x09] @
     ''define min(a,b){ if(a<b) {return a;} else {return b;}}'' @ [NL, CHR 0x09] @
     ''define max(a,b){ if(a>b) {return a;} else {return b;}}'' @ [NL, CHR 0x09] @
     ''define round(x){ auto s; s = scale; if(x>0) x+=0.5 else x-=0.5; scale = 0; x/=1; scale = s; return (x);}'' @ [NL]"

definition assemble_bc_cmd_line :: "string \<Rightarrow> string" where
  "assemble_bc_cmd_line e = (if e = [] then [] else bc_prologue @ e @ [CHR 0x27] @ '' | bc -l ))'' @ [NL])"


section \<open>The pipe of programs\<close>

text \<open>
  The job that is assembled: the flow and its programs with the data of their command lines, the documents of
  project, line and flow, and what came with the request.
\<close>

record job_spec =
  js_flow :: xflow
  js_progs :: "cmd_prog list"
  js_docs :: "doc_ref \<times> doc_ref \<times> doc_ref"
  js_numproc :: int
  js_niceness :: int
  js_paths :: string
  js_mpi_servers :: "string \<Rightarrow> string list"

text \<open>A step of the assembly: its result, or \<open>None\<close> when the flow cannot be run.\<close>

type_synonym 'a assembly = "('a option \<times> parse) checked"

definition athen :: "'a assembly \<Rightarrow> ('a \<Rightarrow> parse \<Rightarrow> validator \<Rightarrow> 'b assembly) \<Rightarrow> 'b assembly" where
  "athen m k = vthen m (\<lambda>(r, s) v. case r of None \<Rightarrow> Inr ((None, s), v) | Some a \<Rightarrow> k a s v)"

definition accepted :: "parsing \<Rightarrow> unit assembly" where
  "accepted m = vthen m (\<lambda>(ok, s) v. Inr ((if ok then Some () else None, s), v))"

definition give_up :: "string \<Rightarrow> parse \<Rightarrow> validator \<Rightarrow> 'a assembly" where
  "give_up x s v = Inr ((None, issue x s), v)"

definition configured :: "cmd_prog \<Rightarrow> bool" where
  "configured p \<longleftrightarrow> gebr_geoxml_program_get_status (cp_prog p) = GEBR_GEOXML_PROGRAM_STATUS_CONFIGURED"

definition is_loop :: "cmd_prog \<Rightarrow> bool" where
  "is_loop p \<longleftrightarrow> gebr_geoxml_program_get_control (cp_prog p) = GEBR_GEOXML_PROGRAM_CONTROL_FOR"

definition skipped :: "nat \<Rightarrow> cmd_prog \<Rightarrow> string" where
  "skipped k p =
     show_nat k @ '') Skipping disabled/not configured program '' @ quoted (pr_title (cp_prog p)) @ ''.'' @ [NL]"

fun skip_unconfigured :: "cmd_prog list \<Rightarrow> nat \<Rightarrow> parse \<Rightarrow> cmd_prog list \<times> nat \<times> parse" where
  "skip_unconfigured [] k s = ([], k, s)"
| "skip_unconfigured (p # ps) k s =
     (if configured p then (p # ps, k, s) else skip_unconfigured ps (k + 1) (issue (skipped (k + 1) p) s))"

text \<open>The parameters for MPI are collected apart; what their visit returns is not looked at.\<close>

definition program_mpi ::
    "cmd_env \<Rightarrow> job_spec \<Rightarrow> nat \<Rightarrow> cmd_prog \<Rightarrow> parse \<Rightarrow> validator \<Rightarrow> mpi_interface option assembly" where
  "program_mpi env J n_vars p s v =
     (case cp_mpi_items p of
        None \<Rightarrow> Inr ((Some None, s), v)
      | Some is \<Rightarrow>
          vthen (job_parse_parameters env n_vars (cp_prog p) is (s\<lparr>ps_cmd := []\<rparr>) v) (\<lambda>(_, t) v.
            Inr ((Some (job_get_mpi_impl (ce_flavors env) (pr_mpi (cp_prog p)) (ps_cmd t) (js_mpi_servers J)),
                  t\<lparr>ps_cmd := ps_cmd s\<rparr>), v)))"

definition call_program :: "cmd_env \<Rightarrow> mpi_interface option \<Rightarrow> string \<Rightarrow> string" where
  "call_program env mpi binary =
     (case mpi of
        None \<Rightarrow> ''$exec '' @ binary @ '' ''
      | Some m \<Rightarrow> gebrd_mpi_interface_build_comand (ce_tmp env) m binary @ '' '')"

definition job_add_program_parameters ::
    "cmd_env \<Rightarrow> nat \<Rightarrow> cmd_prog \<Rightarrow> parse \<Rightarrow> validator \<Rightarrow> unit assembly" where
  "job_add_program_parameters env n_vars p s v =
     accepted (job_parse_parameters env n_vars (cp_prog p) (cp_items p) s v)"

definition file_error :: "string \<Rightarrow> gerror \<Rightarrow> string" where
  "file_error kind e =
     (case e of
        IExprError GEBR_IEXPR_ERROR_SYNTAX _ \<Rightarrow> ''Syntax error in '' @ kind @ '' file expression''
      | IExprError GEBR_IEXPR_ERROR_INVAL_VAR _ \<Rightarrow> ''Syntax error in '' @ kind @ '' file expression''
      | IExprError GEBR_IEXPR_ERROR_UNDEF_VAR _ \<Rightarrow> ''Undefined variable in '' @ kind @ '' file expression''
      | _ \<Rightarrow> [])"

text \<open>The escaped path of one of the three files.\<close>

definition file_path :: "cmd_env \<Rightarrow> string \<Rightarrow> string \<Rightarrow> parse \<Rightarrow> validator \<Rightarrow> string assembly" where
  "file_path env kind e s v =
     vthen (gebr_validator_evaluate_interval (ce_upd env) e GEBR_GEOXML_PARAMETER_TYPE_STRING FLOW False True v)
       (\<lambda>(r, err) v.
          case err of
            Some e \<Rightarrow> give_up (file_error kind e) s v
          | None \<Rightarrow> (case r of None \<Rightarrow> Inl Crash | Some t \<Rightarrow> Inr ((Some (escape_quote_and_slash t), s), v)))"

definition gebr_output_use_var_iter :: "string \<Rightarrow> validator \<Rightarrow> bool checked" where
  "gebr_output_use_var_iter e = gebr_validator_use_iter e GEBR_GEOXML_PARAMETER_TYPE_STRING FLOW"

definition in_quotes :: "string \<Rightarrow> string" where
  "in_quotes x = CHR 0x22 # x @ [CHR 0x22]"

definition redirect_input :: "cmd_env \<Rightarrow> xflow \<Rightarrow> cmd_prog \<Rightarrow> parse \<Rightarrow> validator \<Rightarrow> unit assembly" where
  "redirect_input env f p s v =
     (if \<not> gebr_geoxml_program_get_stdin (cp_prog p) then Inr ((Some (), s), v)
      else if fl_input f = [] then give_up (''No input file selected.'' @ [NL]) s v
      else athen (file_path env ''input'' (fl_input f) s v) (\<lambda>x s v.
             Inr ((Some (), put (''<'' @ in_quotes x @ '' '') s), v)))"

text \<open>The path, and whether it uses the variable of the loop; no path where nothing is redirected.\<close>

definition redirect_output ::
    "cmd_env \<Rightarrow> string \<Rightarrow> string \<Rightarrow> string \<Rightarrow> bool \<Rightarrow> bool \<Rightarrow> parse \<Rightarrow> validator \<Rightarrow> (cstr \<times> bool) assembly" where
  "redirect_output env kind op e appending control s v =
     athen (file_path env kind e s v) (\<lambda>x s v.
     vthen (gebr_output_use_var_iter e v) (\<lambda>it v.
       Inr ((Some (Some x, it),
             put ((if appending \<or> control \<and> \<not> it then op @ ''>'' else op) @ '' '' @ in_quotes x @ '' '') s), v)))"

definition broken_flow :: "cmd_prog \<Rightarrow> string \<Rightarrow> string" where
  "broken_flow p why = ''Broken flow before '' @ pr_title (cp_prog p) @ '' ('' @ why @ '').'' @ [NL]"

text \<open>The programs after the first one: whether there is a loop and whether the last program writes.\<close>

fun other_programs ::
    "cmd_env \<Rightarrow> job_spec \<Rightarrow> nat \<Rightarrow> cmd_prog list \<Rightarrow> nat \<Rightarrow> bool \<Rightarrow> bool \<Rightarrow> parse \<Rightarrow> validator \<Rightarrow> (bool \<times> bool) assembly" where
  "other_programs env J n_vars [] k control out s v = Inr ((Some (control, out), s), v)"
| "other_programs env J n_vars (p # ps) k control out s v =
     (if \<not> configured p then other_programs env J n_vars ps (k + 1) control out (issue (skipped (k + 1) p) s) v
      else if is_loop p then other_programs env J n_vars ps k True out s v
      else
        athen (program_mpi env J n_vars p s v) (\<lambda>mpi s v.
          let reads = gebr_geoxml_program_get_stdin (cp_prog p) in
          if \<not> out \<and> reads then give_up (broken_flow p ''no input'') s v
          else if out \<and> \<not> reads then give_up (broken_flow p ''unexpected output'') s v
          else
            athen (job_add_program_parameters env n_vars p
                     (put ((if reads then ''|'' else '';'') @ '' '' @ call_program env mpi (cp_binary p)) s) v)
              (\<lambda>_ s v. other_programs env J n_vars ps k control (gebr_geoxml_program_get_stdout (cp_prog p)) s v)))"


section \<open>The command line\<close>

text \<open>What is known when all programs are written.\<close>

record written =
  wr_loop :: bool
  wr_count :: cstr
  wr_shell :: string
  wr_stdout :: bool
  wr_out :: "cstr \<times> bool"
  wr_err :: "cstr \<times> bool"

definition or_null :: "cstr \<Rightarrow> string" where
  "or_null x = (case x of None \<Rightarrow> ''(null)'' | Some y \<Rightarrow> y)"

text \<open>The first iteration empties a file that the others append to.\<close>

definition empty_file :: "cstr \<Rightarrow> string" where
  "empty_file x = [NL, CHR 0x09] @ ''test $counter -eq 0 && > '' @ in_quotes (or_null x) @ [NL]"

definition niceness_lines :: "int \<Rightarrow> string" where
  "niceness_lines nice = ''NICE='' @ show_int nice @ [NL] @ ''exec='' @ in_quotes (''nice -n $NICE'') @ [NL]"

definition parallel_prefix :: "int \<Rightarrow> int \<Rightarrow> string \<Rightarrow> string \<Rightarrow> string \<Rightarrow> string" where
  "parallel_prefix numproc nice n bc sh =
     [NL] @ ''# Setting the number of cores '' @ [NL] @ ''PROC='' @ show_int numproc @ [NL] @
     [NL] @ ''# Setting the niceness of the process '' @ [NL] @ niceness_lines nice @
     ''for (( _outter=0; _outter < '' @ n @ ''; _outter+=$PROC ))'' @ [NL] @ ''do'' @ [NL] @
     ''  (for (( counter=$_outter; counter < $_outter+$PROC && counter < '' @ n @ ''; counter++ ))'' @ [NL] @
     ''  do'' @ [NL] @ ''    '' @ bc @ [NL] @ sh @ '' '' @ [NL] @ ''# Command Line'' @ [NL]"

definition serial_prefix :: "int \<Rightarrow> string \<Rightarrow> string \<Rightarrow> string \<Rightarrow> string" where
  "serial_prefix nice n bc sh =
     [NL] @ ''# Setting the number of cores '' @ [NL] @ niceness_lines nice @
     ''for (( counter=0; counter<'' @ n @ ''; counter++ ))'' @ [NL] @ ''do'' @ [NL] @ bc @ [NL] @ sh @ '' '' @ [NL] @
     ''# Command Line '' @ [NL]"

definition plain_prefix :: "int \<Rightarrow> string \<Rightarrow> string \<Rightarrow> string" where
  "plain_prefix nice bc sh =
     [NL] @ ''# Setting the niceness of the process '' @ [NL] @ niceness_lines nice @ bc @ [NL] @ sh @ '' '' @ [NL] @
     ''# Command Line '' @ [NL]"

definition wrap_command :: "job_spec \<Rightarrow> bool \<Rightarrow> written \<Rightarrow> string \<Rightarrow> string \<Rightarrow> string" where
  "wrap_command J par w bc cmd =
     (let f = js_flow J; bc = assemble_bc_cmd_line bc in
      case (wr_loop w, wr_count w) of
        (True, Some n) \<Rightarrow>
          (let cmd = (if par then CHR ''('' # cmd @ '' ) &'' @ [NL] else cmd);
               cmd = (if \<not> gebr_geoxml_flow_io_get_output_append f \<and> \<not> snd (wr_out w) \<and> fl_output f \<noteq> [] \<and> wr_stdout w
                      then empty_file (fst (wr_out w)) @ cmd else cmd);
               cmd = (if \<not> gebr_geoxml_flow_io_get_error_append f \<and> \<not> snd (wr_err w) \<and> fl_errfile f \<noteq> []
                      then empty_file (fst (wr_err w)) @ cmd else cmd)
           in (if par then parallel_prefix (js_numproc J) (js_niceness J) n bc (wr_shell w)
               else serial_prefix (js_niceness J) n bc (wr_shell w)) @ cmd @
              (if par then [NL] @ ''  done'' @ [NL] @ ''  wait)'' @ [NL] else []) @ [NL] @ ''done'')
      | _ \<Rightarrow> plain_prefix (js_niceness J) bc (wr_shell w) @ cmd)"

definition make_directories :: "string \<Rightarrow> string" where
  "make_directories paths =
     ''# Creating directories '' @ [NL] @
     concat (map (\<lambda>d. ''mkdir -p '' @ in_quotes (escape_quote_and_slash d) @ [NL]) (filter (\<lambda>d. d \<noteq> []) (g_strsplit paths '','' 0)))"

text \<open>The first program and its redirections: the number of issues so far is \<open>k\<close>.\<close>

definition first_program ::
    "cmd_env \<Rightarrow> job_spec \<Rightarrow> nat \<Rightarrow> cmd_prog \<Rightarrow> bool \<Rightarrow> parse \<Rightarrow> validator \<Rightarrow> (cstr \<times> bool) assembly" where
  "first_program env J n_vars p control s v =
     athen (program_mpi env J n_vars p s v) (\<lambda>mpi s v.
       if pr_mpi (cp_prog p) \<noteq> [] \<and> mpi = None
       then give_up (''Requested MPI ('' @ pr_mpi (cp_prog p) @ '') is not supported by this server.'' @ [NL]) s v
       else
         athen (job_add_program_parameters env n_vars p (put (call_program env mpi (cp_binary p)) s) v) (\<lambda>_ s v.
         athen (redirect_input env (js_flow J) p s v) (\<lambda>_ s v.
           if fl_errfile (js_flow J) \<noteq> [] \<and> gebr_geoxml_program_get_stderr (cp_prog p)
           then redirect_output env ''error'' ''2>'' (fl_errfile (js_flow J))
                  (gebr_geoxml_flow_io_get_error_append (js_flow J)) control s v
           else Inr ((Some (None, False), s), v))))"

text \<open>All programs, from the first one that is configured and is not the loop.\<close>

definition assemble_programs ::
    "cmd_env \<Rightarrow> job_spec \<Rightarrow> cmd_prog \<Rightarrow> cmd_prog list \<Rightarrow> nat \<Rightarrow> bool \<Rightarrow> parse \<Rightarrow> validator \<Rightarrow> written assembly" where
  "assemble_programs env J p ps k control s v =
     vthen (define_bc_variables env (js_flow J) (js_docs J) k s v) (\<lambda>(n, sh, n_vars, k, s) v.
     athen (first_program env J n_vars p control s v) (\<lambda>err s v.
     athen (other_programs env J n_vars ps k control (gebr_geoxml_program_get_stdout (cp_prog p)) s v)
       (\<lambda>(control, out) s v.
          athen
            (if out \<and> fl_output (js_flow J) \<noteq> []
             then redirect_output env ''output'' ''>'' (fl_output (js_flow J))
                    (gebr_geoxml_flow_io_get_output_append (js_flow J)) control s v
             else Inr ((Some (None, False), s), v))
            (\<lambda>outp s v.
               Inr ((Some \<lparr>wr_loop = control, wr_count = n, wr_shell = sh, wr_stdout = out, wr_out = outp,
                           wr_err = err\<rparr>, s), v)))))"

text \<open>
  The first program that runs, with the ones behind it, the number of issues, and whether the loop was in front of it.
\<close>

definition find_first_program ::
    "cmd_prog list \<Rightarrow> parse \<Rightarrow> validator \<Rightarrow> (cmd_prog \<times> cmd_prog list \<times> nat \<times> bool) assembly" where
  "find_first_program ps s v =
     (if ps = [] then give_up (''Empty flow.'' @ [NL]) s v
      else
        (case skip_unconfigured ps 0 s of
           ([], _, s) \<Rightarrow> give_up (''No configured programs.'' @ [NL]) s v
         | (p # ps, k, s) \<Rightarrow>
             if \<not> is_loop p then Inr ((Some (p, ps, k, False), s), v)
             else
               (case skip_unconfigured ps k s of
                  ([], _, s) \<Rightarrow> give_up (''No configured programs.'' @ [NL]) s v
                | (p # ps, k, s) \<Rightarrow> Inr ((Some (p, ps, k, True), s), v))))"

text \<open>The result: the command line (empty for a flow that cannot be run) and the issues.\<close>

definition job_assembly_cmdline :: "cmd_env \<Rightarrow> job_spec \<Rightarrow> string \<Rightarrow> validator \<Rightarrow> (cstr \<times> string) checked" where
  "job_assembly_cmdline env J issues v =
     vthen (gebr_geoxml_flow_is_parallelizable (js_flow J) v) (\<lambda>par v.
     vthen
       (athen (find_first_program (js_progs J) \<lparr>ps_cmd = [], ps_expr = [], ps_issues = issues, ps_count = 0\<rparr> v)
          (\<lambda>(p, ps, k, control) s v. assemble_programs env J p ps k control s v))
       (\<lambda>(r, s) v.
          Inr ((map_option (\<lambda>w. make_directories (js_paths J) @ wrap_command J par w (ps_expr s) (ps_cmd s)) r, ps_issues s), v)))"

end
