(* ===== verification/Gebrd_Pipe.thy ===== *)
theory Gebrd_Pipe
  imports Gebrd_Cmdline
begin

text \<open>
  What the command lines of \<open>Gebrd_Cmdline\<close> do: the programs of a job that is accepted form a pipe, as the client's
  check of a flow asks; the expressions are numbered as the elements of the array \<open>V\<close> that they become; paths and
  texts in quotations are read back by the shell.
\<close>

section \<open>Accepted flows are pipes\<close>

lemma athen_Some:
  "athen m k = Inr ((Some b, t), v') \<longleftrightarrow> (\<exists>a s v. m = Inr ((Some a, s), v) \<and> k a s v = Inr ((Some b, t), v'))"
  by (auto simp: athen_def vthen_Inr_conv split: option.splits)

lemma athen_SomeE:
  assumes "athen m k = Inr ((Some b, t), v')"
  obtains a s v where "m = Inr ((Some a, s), v)" "k a s v = Inr ((Some b, t), v')"
  using assms by (auto simp: athen_Some)

lemma vthen_InrE:
  assumes "vthen m f = Inr r"
  obtains a v where "m = Inr (a, v)" "f a v = Inr r"
  using assms by (auto simp: vthen_Inr_conv)

lemma give_up_None [simp]: "give_up x s v \<noteq> Inr ((Some a, t), v')"
  by (simp add: give_up_def)

definition runs :: "cmd_prog list \<Rightarrow> cmd_prog list" where
  "runs ps = filter (\<lambda>p. configured p \<and> \<not> is_loop p) ps"

definition running :: "cmd_prog list \<Rightarrow> prog list" where
  "running ps = map cp_prog (runs ps)"

definition loops :: "cmd_prog list \<Rightarrow> cmd_prog list" where
  "loops ps = filter (\<lambda>p. configured p \<and> is_loop p) ps"

lemma runs_simps [simp]:
  "runs [] = []" "configured p \<Longrightarrow> \<not> is_loop p \<Longrightarrow> runs (p # ps) = p # runs ps"
  "\<not> configured p \<Longrightarrow> runs (p # ps) = runs ps" "is_loop p \<Longrightarrow> runs (p # ps) = runs ps"
  by (simp_all add: runs_def)

lemma running_simps [simp]:
  "running [] = []" "configured p \<Longrightarrow> \<not> is_loop p \<Longrightarrow> running (p # ps) = cp_prog p # running ps"
  "\<not> configured p \<Longrightarrow> running (p # ps) = running ps" "is_loop p \<Longrightarrow> running (p # ps) = running ps"
  by (simp_all add: running_def)

lemma loops_simps [simp]:
  "loops [] = []" "configured p \<Longrightarrow> is_loop p \<Longrightarrow> loops (p # ps) = p # loops ps"
  "\<not> configured p \<Longrightarrow> loops (p # ps) = loops ps" "\<not> is_loop p \<Longrightarrow> loops (p # ps) = loops ps"
  by (simp_all add: loops_def)

lemma other_programs_pipe:
  assumes "other_programs env J n_vars ps k control out s v = Inr ((Some (control', out'), t), v')"
  shows "is_pipe out (running ps) \<and> (control' \<longleftrightarrow> control \<or> loops ps \<noteq> []) \<and>
     out' = (if running ps = [] then out else gebr_geoxml_program_get_stdout (last (running ps)))"
  using assms
proof (induction ps arbitrary: k control out s v)
  case (Cons p ps)
  consider "\<not> configured p" | "configured p" "is_loop p" | "configured p" "\<not> is_loop p" by blast
  then show ?case
  proof cases
    case 1
    then show ?thesis using Cons.prems by (simp split del: if_split) (drule Cons.IH, simp)
  next
    case 2
    then show ?thesis using Cons.prems by (simp split del: if_split) (drule Cons.IH, simp)
  next
    case 3
    then show ?thesis
      using Cons.prems by (auto simp: athen_Some Let_def split: if_splits dest!: Cons.IH)
  qed
qed simp

lemma skip_unconfigured_spec:
  assumes "skip_unconfigured ps k s = (qs, k', t)"
  shows "runs qs = runs ps \<and> loops qs = loops ps \<and> (qs \<noteq> [] \<longrightarrow> configured (hd qs))"
  using assms by (induction ps k s rule: skip_unconfigured.induct) (auto split: if_splits)

lemma find_first_program_spec:
  assumes "find_first_program ps s v = Inr ((Some (p, qs, k, control), t), v')" "length (loops ps) \<le> 1"
  shows "runs ps = p # runs qs \<and> control = (loops ps \<noteq> [] \<and> loops qs = [])"
proof -
  obtain ps1 k1 s1 where 1: "skip_unconfigured ps 0 s = (ps1, k1, s1)" by (cases "skip_unconfigured ps 0 s")
  note s1 = skip_unconfigured_spec [OF 1]
  obtain p1 qs1 where ps1: "ps1 = p1 # qs1"
    using assms(1) 1 by (cases ps1) (auto simp: find_first_program_def split: if_splits)
  show ?thesis
  proof (cases "is_loop p1")
    case False
    then show ?thesis
      using assms(1) 1 ps1 s1 by (auto simp: find_first_program_def split: if_splits)
  next
    case True
    obtain ps2 k2 s2 where 2: "skip_unconfigured qs1 k1 s1 = (ps2, k2, s2)" by (cases "skip_unconfigured qs1 k1 s1")
    note s2 = skip_unconfigured_spec [OF 2]
    have "loops ps = p1 # loops qs1" using s1 ps1 True by auto
    then have none: "loops qs1 = []" using assms(2) by auto
    obtain p2 qs2 where ps2: "ps2 = p2 # qs2" "p = p2" "qs = qs2" "control"
      using assms(1) 1 2 ps1 True by (cases ps2) (auto simp: find_first_program_def split: if_splits)
    then have "\<not> is_loop p2" using s2 none by (cases "is_loop p2") auto
    then show ?thesis using s1 s2 ps1 ps2 True none \<open>loops ps = _\<close> by auto
  qed
qed


lemma assemble_programs_accepts:
  assumes "assemble_programs env J p ps k control s v = Inr ((Some w, t), v')"
  shows "\<exists>n sh n_vars k1 s1 v1 err s2 v2 control' out s3 v3.
     define_bc_variables env (js_flow J) (js_docs J) k s v = Inr ((n, sh, n_vars, k1, s1), v1) \<and>
     first_program env J n_vars p control s1 v1 = Inr ((Some err, s2), v2) \<and>
     other_programs env J n_vars ps k1 control (gebr_geoxml_program_get_stdout (cp_prog p)) s2 v2 =
       Inr ((Some (control', out), s3), v3) \<and>
     (\<exists>outp.
        (if out \<and> fl_output (js_flow J) \<noteq> []
         then redirect_output env ''output'' ''>'' (fl_output (js_flow J))
                (gebr_geoxml_flow_io_get_output_append (js_flow J)) control' s3 v3
         else Inr ((Some (None, False), s3), v3)) = Inr ((Some outp, t), v'))"
proof -
  obtain x v1 where x: "define_bc_variables env (js_flow J) (js_docs J) k s v = Inr (x, v1)"
    and rest: "(case x of (n, sh, n_vars, k, s) \<Rightarrow> \<lambda>v.
      athen (first_program env J n_vars p control s v) (\<lambda>err s v.
      athen (other_programs env J n_vars ps k control (gebr_geoxml_program_get_stdout (cp_prog p)) s v)
       (\<lambda>(control, out) s v.
          athen
            (if out \<and> fl_output (js_flow J) \<noteq> []
             then redirect_output env ''output'' ''>'' (fl_output (js_flow J))
                    (gebr_geoxml_flow_io_get_output_append (js_flow J)) control s v
             else Inr ((Some (None, False), s), v))
            (\<lambda>outp s v.
               Inr ((Some \<lparr>wr_loop = control, wr_count = n, wr_shell = sh, wr_stdout = out, wr_out = outp,
                           wr_err = err\<rparr>, s), v))))) v1 = Inr ((Some w, t), v')"
    using assms unfolding assemble_programs_def by (rule vthen_InrE)
  obtain n sh n_vars k1 s1 where tuple: "x = (n, sh, n_vars, k1, s1)" by (rule prod_cases5)
  have 1: "define_bc_variables env (js_flow J) (js_docs J) k s v = Inr ((n, sh, n_vars, k1, s1), v1)"
    and 2: "athen (first_program env J n_vars p control s1 v1) (\<lambda>err s v.
      athen (other_programs env J n_vars ps k1 control (gebr_geoxml_program_get_stdout (cp_prog p)) s v)
       (\<lambda>(control, out) s v.
          athen
            (if out \<and> fl_output (js_flow J) \<noteq> []
             then redirect_output env ''output'' ''>'' (fl_output (js_flow J))
                    (gebr_geoxml_flow_io_get_output_append (js_flow J)) control s v
             else Inr ((Some (None, False), s), v))
            (\<lambda>outp s v.
               Inr ((Some \<lparr>wr_loop = control, wr_count = n, wr_shell = sh, wr_stdout = out, wr_out = outp,
                           wr_err = err\<rparr>, s), v)))) = Inr ((Some w, t), v')"
    using x rest tuple by simp_all
  obtain err s2 v2 where 3: "first_program env J n_vars p control s1 v1 = Inr ((Some err, s2), v2)"
    and 4: "athen (other_programs env J n_vars ps k1 control (gebr_geoxml_program_get_stdout (cp_prog p)) s2 v2)
       (\<lambda>(control, out) s v.
          athen
            (if out \<and> fl_output (js_flow J) \<noteq> []
             then redirect_output env ''output'' ''>'' (fl_output (js_flow J))
                    (gebr_geoxml_flow_io_get_output_append (js_flow J)) control s v
             else Inr ((Some (None, False), s), v))
            (\<lambda>outp s v.
               Inr ((Some \<lparr>wr_loop = control, wr_count = n, wr_shell = sh, wr_stdout = out, wr_out = outp,
                           wr_err = err\<rparr>, s), v))) = Inr ((Some w, t), v')"
    using 2 by (rule athen_SomeE)
  obtain c s3 v3 where 5:
    "other_programs env J n_vars ps k1 control (gebr_geoxml_program_get_stdout (cp_prog p)) s2 v2 = Inr ((Some c, s3), v3)"
    and 6: "(case c of (control, out) \<Rightarrow> \<lambda>s v.
          athen
            (if out \<and> fl_output (js_flow J) \<noteq> []
             then redirect_output env ''output'' ''>'' (fl_output (js_flow J))
                    (gebr_geoxml_flow_io_get_output_append (js_flow J)) control s v
             else Inr ((Some (None, False), s), v))
            (\<lambda>outp s v.
               Inr ((Some \<lparr>wr_loop = control, wr_count = n, wr_shell = sh, wr_stdout = out, wr_out = outp,
                           wr_err = err\<rparr>, s), v))) s3 v3 = Inr ((Some w, t), v')"
    using 4 by (rule athen_SomeE)
  obtain control' out where c: "c = (control', out)" by fastforce
  have "\<exists>outp.
        (if out \<and> fl_output (js_flow J) \<noteq> []
         then redirect_output env ''output'' ''>'' (fl_output (js_flow J))
                (gebr_geoxml_flow_io_get_output_append (js_flow J)) control' s3 v3
         else Inr ((Some (None, False), s3), v3)) = Inr ((Some outp, t), v')"
    using 6 [unfolded c case_prod_conv] by (rule athen_SomeE) blast
  then show ?thesis using 1 3 5 c by blast
qed

lemma job_assembly_accepts:
  assumes "job_assembly_cmdline env J iss v = Inr ((Some cmd, iss'), v')"
  shows "\<exists>p ps k control s v1 w t par.
     find_first_program (js_progs J) \<lparr>ps_cmd = [], ps_expr = [], ps_issues = iss, ps_count = 0\<rparr> v1 =
       Inr ((Some (p, ps, k, control), s), v1) \<and>
     assemble_programs env J p ps k control s v1 = Inr ((Some w, t), v') \<and>
     cmd = make_directories (js_paths J) @ wrap_command J par w (ps_expr t) (ps_cmd t)"
proof -
  have same: "v1' = v1" if "find_first_program ps s v1 = Inr (r, v1')" for ps s v1 v1' r
    using that by (auto simp: find_first_program_def give_up_def split: if_splits list.splits prod.splits)
  obtain par v1 where
    "vthen (athen (find_first_program (js_progs J) \<lparr>ps_cmd = [], ps_expr = [], ps_issues = iss, ps_count = 0\<rparr> v1)
          (\<lambda>(p, ps, k, control) s v. assemble_programs env J p ps k control s v))
       (\<lambda>(r, s) v.
          Inr ((map_option (\<lambda>w. make_directories (js_paths J) @ wrap_command J par w (ps_expr s) (ps_cmd s)) r, ps_issues s), v))
       = Inr ((Some cmd, iss'), v')"
    using assms unfolding job_assembly_cmdline_def by (rule vthen_InrE)
  then obtain w t where
    "athen (find_first_program (js_progs J) \<lparr>ps_cmd = [], ps_expr = [], ps_issues = iss, ps_count = 0\<rparr> v1)
       (\<lambda>(p, ps, k, control) s v. assemble_programs env J p ps k control s v) = Inr ((Some w, t), v')"
    and cmd: "cmd = make_directories (js_paths J) @ wrap_command J par w (ps_expr t) (ps_cmd t)"
    by (rule vthen_InrE) auto
  from this(1) obtain x s v2 where x: "find_first_program (js_progs J) \<lparr>ps_cmd = [], ps_expr = [], ps_issues = iss, ps_count = 0\<rparr> v1 =
      Inr ((Some x, s), v2)"
    "(case x of (p, ps, k, control) \<Rightarrow> \<lambda>s v. assemble_programs env J p ps k control s v) s v2 = Inr ((Some w, t), v')"
    by (rule athen_SomeE)
  obtain p ps k control where tuple: "x = (p, ps, k, control)" by (rule prod_cases4)
  have "assemble_programs env J p ps k control s v1 = Inr ((Some w, t), v')"
    using x(2) tuple same [OF x(1)] by simp
  then show ?thesis using x(1) same [OF x(1)] tuple cmd by blast
qed

text \<open>
  C15: when the daemon of a machine accepts a flow with at most one loop, its programs that are enabled form a
  pipe: there is a first one, each of the others reads exactly when the one before it writes, and a first
  one that reads has an input file.
\<close>
theorem accepted_flow_is_pipe:
  assumes "job_assembly_cmdline env J iss v = Inr ((Some cmd, iss'), v')" "length (loops (js_progs J)) \<le> 1"
  shows "\<exists>p ps. running (js_progs J) = p # ps \<and> is_pipe (gebr_geoxml_program_get_stdout p) ps \<and>
     (gebr_geoxml_program_get_stdin p \<longrightarrow> fl_input (js_flow J) \<noteq> [])"
proof -
  obtain p ps k control s v1 w t where
    first: "find_first_program (js_progs J) \<lparr>ps_cmd = [], ps_expr = [], ps_issues = iss, ps_count = 0\<rparr> v1 =
      Inr ((Some (p, ps, k, control), s), v1)"
    and progs: "assemble_programs env J p ps k control s v1 = Inr ((Some w, t), v')"
    using job_assembly_accepts [OF assms(1)] by blast
  obtain n_vars k1 s1 v2 err s2 v3 control' out s3 v4 where
    prog: "first_program env J n_vars p control s1 v2 = Inr ((Some err, s2), v3)"
    and others: "other_programs env J n_vars ps k1 control (gebr_geoxml_program_get_stdout (cp_prog p)) s2 v3 =
      Inr ((Some (control', out), s3), v4)"
    using assemble_programs_accepts [OF progs] by blast
  have "gebr_geoxml_program_get_stdin (cp_prog p) \<longrightarrow> fl_input (js_flow J) \<noteq> []"
    using prog by (auto simp: first_program_def athen_Some redirect_input_def split: if_splits)
  then show ?thesis
    using find_first_program_spec [OF first assms(2)] other_programs_pipe [OF others] by (auto simp: running_def)
qed


section \<open>Expressions are numbered\<close>

text \<open>Lines that are given consecutive numbers.\<close>

definition numbered_lines :: "nat \<Rightarrow> (nat \<Rightarrow> string) list \<Rightarrow> string" where
  "numbered_lines k fs = concat (map (\<lambda>(i, f). f i) (enumerate k fs))"

lemma numbered_lines_simps [simp]:
  "numbered_lines k [] = []" "numbered_lines k (f # fs) = f k @ numbered_lines (Suc k) fs"
  by (simp_all add: numbered_lines_def)

lemma numbered_lines_append:
  "numbered_lines k (fs @ gs) = numbered_lines k fs @ numbered_lines (k + length fs) gs"
  by (induction fs arbitrary: k) simp_all

text \<open>
  The command of a job, in pieces: text that stands in it as it is, and the expressions of numbers. A \<open>Ref\<close> is an
  expression that the command asks the shell for; a \<open>Hidden\<close> one belongs to a parameter for MPI, whose text
  goes through the call that the flavor of MPI makes.
\<close>

datatype piece = Txt string | Ref cmd_param string | Hidden cmd_param string

fun render_cmd :: "nat \<Rightarrow> piece list \<Rightarrow> string" where
  "render_cmd k [] = []"
| "render_cmd k (Txt x # ps) = x @ render_cmd k ps"
| "render_cmd k (Ref pa x # ps) = ''${'' @ element k @ ''}'' @ render_cmd (Suc k) ps"
| "render_cmd k (Hidden pa x # ps) = render_cmd (Suc k) ps"

fun exprs_of :: "piece list \<Rightarrow> (cmd_param \<times> string) list" where
  "exprs_of [] = []"
| "exprs_of (Txt x # ps) = exprs_of ps"
| "exprs_of (Ref pa x # ps) = (pa, x) # exprs_of ps"
| "exprs_of (Hidden pa x # ps) = (pa, x) # exprs_of ps"

fun shown :: "piece list \<Rightarrow> (cmd_param \<times> string) list" where
  "shown [] = []"
| "shown (Txt x # ps) = shown ps"
| "shown (Ref pa x # ps) = (pa, x) # shown ps"
| "shown (Hidden pa x # ps) = shown ps"

fun hidden :: "piece list \<Rightarrow> (cmd_param \<times> string) list" where
  "hidden [] = []"
| "hidden (Txt x # ps) = hidden ps"
| "hidden (Ref pa x # ps) = hidden ps"
| "hidden (Hidden pa x # ps) = (pa, x) # hidden ps"

text \<open>The line of an expression, and of a variable with its name, value and label, for a given element of \<open>V\<close>.\<close>

definition expr_line :: "cmd_param \<times> string \<Rightarrow> nat \<Rightarrow> string" where
  "expr_line e k = expression_line (fst e) k (snd e)"

definition var_line :: "string \<times> string \<times> string \<Rightarrow> nat \<Rightarrow> string" where
  "var_line x j = variable_line (fst x) (fst (snd x)) j (snd (snd x))"

text \<open>
  The expressions that a program should ask for: the values of its numbers that are no literals, parameter after parameter.
  In a group each instance is visited, and in an instance only the selected parameter, if there is a selection.
\<close>

fun item_params :: "cmd_item \<Rightarrow> cmd_param list"
  and items_params :: "cmd_item list \<Rightarrow> cmd_param list"
  and instances_params :: "cmd_instance list \<Rightarrow> cmd_param list" where
  "item_params (Item pa) = [pa]"
| "item_params (Group is) = instances_params is"
| "items_params [] = []"
| "items_params (i # is) = item_params i @ items_params is"
| "instances_params [] = []"
| "instances_params (Instance (Some i) xs # is) = item_params i @ instances_params is"
| "instances_params (Instance None xs # is) = items_params xs @ instances_params is"

definition number_exprs :: "cmd_env \<Rightarrow> cmd_param \<Rightarrow> string list \<Rightarrow> (cmd_param \<times> string) list" where
  "number_exprs env pa xs = map (Pair pa) (filter (\<lambda>e. \<not> ce_numeral env e) (map g_strstrip xs))"

definition leaf_exprs :: "cmd_env \<Rightarrow> cmd_param \<Rightarrow> (cmd_param \<times> string) list" where
  "leaf_exprs env pa =
     (if p_type pa \<in> {GEBR_GEOXML_PARAMETER_TYPE_INT, GEBR_GEOXML_PARAMETER_TYPE_RANGE, GEBR_GEOXML_PARAMETER_TYPE_FLOAT} \<and>
         gebr_geoxml_program_parameter_get_string_value pa \<noteq> []
      then number_exprs env pa (p_values pa) else [])"

definition params_exprs :: "cmd_env \<Rightarrow> cmd_param list \<Rightarrow> (cmd_param \<times> string) list" where
  "params_exprs env ps = concat (map (leaf_exprs env) ps)"

definition program_exprs :: "cmd_env \<Rightarrow> cmd_prog \<Rightarrow> (cmd_param \<times> string) list" where
  "program_exprs env p = params_exprs env (items_params (cp_items p))"

definition mpi_exprs :: "cmd_env \<Rightarrow> cmd_prog \<Rightarrow> (cmd_param \<times> string) list" where
  "mpi_exprs env p = (case cp_mpi_items p of None \<Rightarrow> [] | Some is \<Rightarrow> params_exprs env (items_params is))"

lemma params_exprs_append [simp]: "params_exprs env (ps @ qs) = params_exprs env ps @ params_exprs env qs"
  by (simp add: params_exprs_def)

lemma pieces_append [simp]:
  "exprs_of (ps @ qs) = exprs_of ps @ exprs_of qs" "shown (ps @ qs) = shown ps @ shown qs"
  "hidden (ps @ qs) = hidden ps @ hidden qs"
  by (induction ps rule: exprs_of.induct) simp_all

lemma render_append: "render_cmd k (ps @ qs) = render_cmd k ps @ render_cmd (k + length (exprs_of ps)) qs"
  by (induction k ps rule: render_cmd.induct) simp_all

lemma hidden_pieces:
  "exprs_of (map (\<lambda>(pa, x). Hidden pa x) es) = es" "shown (map (\<lambda>(pa, x). Hidden pa x) es) = []"
  "hidden (map (\<lambda>(pa, x). Hidden pa x) es) = es" "render_cmd k (map (\<lambda>(pa, x). Hidden pa x) es) = []"
  by (induction es arbitrary: k) auto

lemma exprs_set: "set (exprs_of ps) = set (shown ps) \<union> set (hidden ps)"
  by (induction ps rule: exprs_of.induct) auto

text \<open>A step of the assembly writes pieces, and for each of their expressions the line of the same number.\<close>

definition writes :: "nat \<Rightarrow> (cmd_param \<times> string) set \<Rightarrow> parse \<Rightarrow> parse \<Rightarrow> (cmd_param \<times> string) list \<Rightarrow> bool" where
  "writes n H s t xs \<longleftrightarrow>
     (\<exists>ps. shown ps = xs \<and> set (hidden ps) \<subseteq> H \<and> ps_cmd t = ps_cmd s @ render_cmd (n + ps_count s) ps \<and>
        ps_expr t = ps_expr s @ numbered_lines (n + ps_count s) (map expr_line (exprs_of ps)) \<and>
        ps_count t = ps_count s + length (exprs_of ps))"

lemma writesI:
  assumes "ps_cmd t = ps_cmd s @ render_cmd (n + ps_count s) ps" "set (hidden ps) \<subseteq> H"
    and "ps_expr t = ps_expr s @ numbered_lines (n + ps_count s) (map expr_line (exprs_of ps))"
    and "ps_count t = ps_count s + length (exprs_of ps)"
  shows "writes n H s t (shown ps)"
  using assms unfolding writes_def by blast

lemma writes_trans: "writes n H s t xs \<Longrightarrow> writes n H t u ys \<Longrightarrow> writes n H s u (xs @ ys)"
  unfolding writes_def
proof (elim exE conjE, goal_cases)
  case (1 ps qs)
  then show ?case
    by (intro exI [of _ "ps @ qs"]) (simp add: numbered_lines_append render_append add.assoc)
qed

lemma writes_silent: "writes n H s t [] \<Longrightarrow> writes n H t u xs \<Longrightarrow> writes n H s u xs"
  using writes_trans by fastforce

lemma writes_done: "writes n H s t xs \<Longrightarrow> writes n H t u [] \<Longrightarrow> writes n H s u xs"
  using writes_trans by fastforce

lemma writes_put: "writes n H s (put x s) []"
  using writesI [of "put x s" s n "[Txt x]" H] by (simp add: put_def)

lemma writes_issue [simp]: "writes n H s (issue x t) xs = writes n H s t xs" "writes n H (issue x s) t xs = writes n H s t xs"
  by (simp_all add: writes_def issue_def)

lemma writes_refl [simp]: "writes n H s s []"
  using writesI [of s s n "[]" H] by simp

lemma writes_then_put: "writes n H s t xs \<Longrightarrow> writes n H s (put x t) xs"
  using writes_trans [OF _ writes_put, of n H s t xs x] by simp

lemma writes_after_put: "writes n H (put x s) t xs \<Longrightarrow> writes n H s t xs"
  using writes_trans [OF writes_put] by fastforce

definition ref_step :: "nat \<Rightarrow> cmd_param \<Rightarrow> bool \<Rightarrow> string \<Rightarrow> parse \<Rightarrow> parse" where
  "ref_step n pa first x s =
     put (separated first (p_sep pa) (''${'' @ element (ps_count s + n) @ ''}''))
       (s\<lparr>ps_expr := ps_expr s @ expression_line pa (ps_count s + n) x, ps_count := ps_count s + 1\<rparr>)"

lemma writes_ref: "writes n H s (ref_step n pa first x s) [(pa, x)]"
proof -
  have "writes n H s (ref_step n pa first x s) (shown [Txt (separated first (p_sep pa) []), Ref pa x])"
    by (rule writesI)
      (simp_all add: ref_step_def put_def expr_line_def add.commute separated_def split: option.splits)
  then show ?thesis by simp
qed

lemma parse_texts_writes:
  "parse_texts env sep first xs s v = Inr ((ok, t), v') \<Longrightarrow> writes n H s t []"
proof (induction xs arbitrary: first s v)
  case (Cons x xs)
  obtain r err v1 where 1: "gebr_validator_evaluate_interval (ce_upd env) (g_strstrip x) GEBR_GEOXML_PARAMETER_TYPE_STRING
      FLOW False True v = Inr ((r, err), v1)"
    using Cons.prems by (auto simp: vthen_Inr_conv)
  show ?case
  proof (cases err)
    case None
    then obtain y where "r = Some y" using Cons.prems 1 by (cases r) simp_all
    then show ?thesis
      using Cons.prems 1 None Cons.IH [of False "put (separated first sep y) s" v1] by (auto intro: writes_after_put)
  next
    case (Some e)
    then show ?thesis using Cons.prems 1 by (cases "plain_format (ce_message env e)") auto
  qed
qed simp

lemma parse_numbers_writes: "writes n H s (parse_numbers env n pa first xs s) (number_exprs env pa xs)"
proof (induction xs arbitrary: first s)
  case Nil
  show ?case by (simp add: number_exprs_def)
next
  case (Cons x xs)
  show ?case
  proof (cases "ce_numeral env (g_strstrip x)")
    case True
    then show ?thesis
      using writes_after_put [OF Cons [of "put (separated first (p_sep pa) (g_strstrip x)) s" False]]
      by (simp add: Let_def number_exprs_def)
  next
    case False
    then show ?thesis
      using writes_trans [OF writes_ref [of n H s pa first "g_strstrip x"] Cons [of _ False]]
      by (simp add: Let_def number_exprs_def ref_step_def)
  qed
qed

text \<open>A visit that succeeds writes all expressions; one that fails writes some of them.\<close>

definition wrote ::
    "nat \<Rightarrow> (cmd_param \<times> string) set \<Rightarrow> parse \<Rightarrow> parse \<Rightarrow> bool \<Rightarrow> (cmd_param \<times> string) list \<Rightarrow> bool" where
  "wrote n H s t ok xs \<longleftrightarrow> (\<exists>ys. writes n H s t ys \<and> set ys \<subseteq> set xs \<and> (ok \<longrightarrow> ys = xs))"

lemma wrote_all: "writes n H s t xs \<Longrightarrow> wrote n H s t ok xs"
  unfolding wrote_def by blast

lemma wrote_none: "writes n H s t [] \<Longrightarrow> wrote n H s t False xs"
  unfolding wrote_def by auto

lemma leaf_texts_wrote:
  assumes "pthen (parse_texts env sep True xs (put x s) v) (\<lambda>s v. Inr ((True, put y s), v)) = Inr ((ok, t), v')"
  shows "writes n H s t []"
proof -
  obtain c u w where m: "parse_texts env sep True xs (put x s) v = Inr ((c, u), w)"
    using assms by (auto simp: pthen_def vthen_Inr_conv)
  have "writes n H s u []" by (rule writes_after_put [OF parse_texts_writes [OF m]])
  then show ?thesis using assms m by (cases c) (auto simp: pthen_def intro: writes_then_put)
qed

lemma parse_leaf_wrote:
  assumes "parse_leaf env n p pa s v = Inr ((ok, t), v')"
  shows "wrote n H s t ok (leaf_exprs env pa)"
proof -
  let ?text = "gebr_geoxml_program_parameter_get_string_value pa"
  have numbers: "writes n H s (put y (parse_numbers env n pa True (p_values pa) (put x s))) (number_exprs env pa (p_values pa))" for x y
    by (intro writes_then_put writes_after_put [OF parse_numbers_writes])
  show ?thesis
  proof (cases "?text = []")
    case True
    then have "leaf_exprs env pa = []" by (simp add: leaf_exprs_def)
    moreover have "writes n H s t []"
      using assms True unfolding parse_leaf_def Let_def
      by (cases "p_type pa") (auto simp: refuse_def split: if_splits intro: writes_put)
    ultimately show ?thesis by (simp add: wrote_all)
  next
    case False
    show ?thesis
      using assms False unfolding parse_leaf_def Let_def
      by (cases "p_type pa")
        (auto simp: refuse_def leaf_exprs_def split: if_splits
          intro: wrote_all writes_put numbers leaf_texts_wrote)
  qed
qed

lemma pthen_wrote:
  assumes "pthen m k = Inr ((ok, t), v')" "\<And>c u w. m = Inr ((c, u), w) \<Longrightarrow> wrote n H s u c xs"
    and "\<And>u w. k u w = Inr ((ok, t), v') \<Longrightarrow> wrote n H u t ok ys"
  shows "wrote n H s t ok (xs @ ys)"
proof -
  obtain c u w where m: "m = Inr ((c, u), w)" using assms(1) by (auto simp: pthen_def vthen_Inr_conv)
  then obtain zs where zs: "writes n H s u zs" "set zs \<subseteq> set xs" "c \<longrightarrow> zs = xs"
    using assms(2) unfolding wrote_def by blast
  show ?thesis
  proof (cases c)
    case True
    then have "k u w = Inr ((ok, t), v')" using assms(1) m by (simp add: pthen_def)
    then obtain zs' where zs': "writes n H u t zs'" "set zs' \<subseteq> set ys" "ok \<longrightarrow> zs' = ys"
      using assms(3) unfolding wrote_def by blast
    show ?thesis unfolding wrote_def
      by (intro exI [of _ "xs @ zs'"]) (use zs zs' True in \<open>auto dest: writes_trans\<close>)
  next
    case False
    then have "ok = False" "t = u" using assms(1) m by (auto simp: pthen_def)
    then show ?thesis using zs unfolding wrote_def by auto
  qed
qed

lemma job_parse_wrote:
  "job_parse_parameter env n p i s v = Inr ((ok, t), v') \<Longrightarrow> wrote n H s t ok (params_exprs env (item_params i))"
  "job_parse_parameters env n p is s v = Inr ((ok, t), v') \<Longrightarrow> wrote n H s t ok (params_exprs env (items_params is))"
  "parse_instances env n p js s v = Inr ((ok, t), v') \<Longrightarrow> wrote n H s t ok (params_exprs env (instances_params js))"
proof (induction env n p i s v and env n p "is" s v and env n p js s v
    arbitrary: ok t v' and ok t v' and ok t v'
    rule: job_parse_parameter_job_parse_parameters_parse_instances.induct)
  case (1 env n_vars p pa s v)
  then show ?case using parse_leaf_wrote by (simp add: params_exprs_def)
qed (auto simp: wrote_all params_exprs_def intro: pthen_wrote [unfolded params_exprs_def])

lemma file_path_same: "file_path env kind e s v = Inr ((r, t), v') \<Longrightarrow> writes n H s t []"
  by (auto simp: file_path_def vthen_Inr_conv give_up_def split: option.splits)

lemma redirect_output_writes:
  assumes "redirect_output env kind op e ap c s v = Inr ((Some r, t), v')"
  shows "writes n H s t []"
proof -
  obtain x u w where 1: "file_path env kind e s v = Inr ((Some x, u), w)"
    and 2: "vthen (gebr_output_use_var_iter e w) (\<lambda>it v.
       Inr ((Some (Some x, it), put ((if ap \<or> c \<and> \<not> it then op @ ''>'' else op) @ '' '' @ in_quotes x @ '' '') u), v)) =
       Inr ((Some r, t), v')"
    using assms unfolding redirect_output_def by (rule athen_SomeE)
  show ?thesis using 2 by (rule vthen_InrE) (auto intro: writes_then_put file_path_same [OF 1])
qed

lemma redirect_input_writes:
  assumes "redirect_input env f p s v = Inr ((Some r, t), v')"
  shows "writes n H s t []"
proof (cases "gebr_geoxml_program_get_stdin (cp_prog p) \<and> fl_input f \<noteq> []")
  case True
  then have "athen (file_path env ''input'' (fl_input f) s v) (\<lambda>x s v.
       Inr ((Some (), put (''<'' @ in_quotes x @ '' '') s), v)) = Inr ((Some r, t), v')"
    using assms by (simp add: redirect_input_def)
  then obtain x u w where 1: "file_path env ''input'' (fl_input f) s v = Inr ((Some x, u), w)"
    and 2: "Inr ((Some (), put (''<'' @ in_quotes x @ '' '') u), w) = (Inr ((Some r, t), v') :: stuck + _)"
    by (rule athen_SomeE)
  show ?thesis using 2 file_path_same [OF 1] by (auto intro: writes_then_put)
qed (use assms in \<open>auto simp: redirect_input_def split: if_splits\<close>)

text \<open>The text of the parameters for MPI is put aside: their expressions are hidden.\<close>

lemma writes_hidden:
  assumes "writes n {} (s\<lparr>ps_cmd := []\<rparr>) t xs" "set xs \<subseteq> H"
  shows "writes n H s (t\<lparr>ps_cmd := ps_cmd s\<rparr>) []"
proof -
  obtain ps where ps: "shown ps = xs" "hidden ps = []"
      "ps_expr t = ps_expr s @ numbered_lines (n + ps_count s) (map expr_line (exprs_of ps))"
      "ps_count t = ps_count s + length (exprs_of ps)"
    using assms(1) by (auto simp: writes_def)
  then have "set (exprs_of ps) \<subseteq> H" using assms(2) by (simp add: exprs_set)
  then have "writes n H s (t\<lparr>ps_cmd := ps_cmd s\<rparr>) (shown (map (\<lambda>(pa, x). Hidden pa x) (exprs_of ps)))"
    using ps by (intro writesI) (simp_all add: hidden_pieces)
  then show ?thesis by (simp add: hidden_pieces)
qed

lemma program_mpi_writes:
  assumes "program_mpi env J n p s v = Inr ((Some r, t), v')" "set (mpi_exprs env p) \<subseteq> H"
  shows "writes n H s t []"
proof (cases "cp_mpi_items p")
  case (Some ms)
  then obtain ok u where 1: "job_parse_parameters env n (cp_prog p) ms (s\<lparr>ps_cmd := []\<rparr>) v = Inr ((ok, u), v')"
    and t: "t = u\<lparr>ps_cmd := ps_cmd s\<rparr>"
    using assms(1) by (auto simp: program_mpi_def vthen_Inr_conv)
  obtain xs where xs: "writes n {} (s\<lparr>ps_cmd := []\<rparr>) u xs" "set xs \<subseteq> set (mpi_exprs env p)"
    using job_parse_wrote(2) [OF 1] Some by (auto simp: wrote_def mpi_exprs_def)
  show ?thesis unfolding t by (rule writes_hidden [OF xs(1) subset_trans [OF xs(2) assms(2)]])
qed (use assms(1) in \<open>simp add: program_mpi_def\<close>)

lemma job_add_writes:
  assumes "job_add_program_parameters env n p s v = Inr ((Some r, t), v')"
  shows "writes n H s t (program_exprs env p)"
proof -
  have "job_parse_parameters env n (cp_prog p) (cp_items p) s v = Inr ((True, t), v')"
    using assms by (auto simp: job_add_program_parameters_def accepted_def vthen_Inr_conv split: if_splits)
  from job_parse_wrote(2) [OF this] show ?thesis by (auto simp: wrote_def program_exprs_def)
qed

lemma first_program_writes:
  assumes "first_program env J n p c s v = Inr ((Some r, t), v')" "set (mpi_exprs env p) \<subseteq> H"
  shows "writes n H s t (program_exprs env p)"
proof -
  obtain mpi s1 v1 where 1: "program_mpi env J n p s v = Inr ((Some mpi, s1), v1)"
    and rest: "\<not> (pr_mpi (cp_prog p) \<noteq> [] \<and> mpi = None)"
      "athen (job_add_program_parameters env n p (put (call_program env mpi (cp_binary p)) s1) v1) (\<lambda>_ s v.
         athen (redirect_input env (js_flow J) p s v) (\<lambda>_ s v.
           if fl_errfile (js_flow J) \<noteq> [] \<and> gebr_geoxml_program_get_stderr (cp_prog p)
           then redirect_output env ''error'' ''2>'' (fl_errfile (js_flow J))
                  (gebr_geoxml_flow_io_get_error_append (js_flow J)) c s v
           else Inr ((Some (None, False), s), v))) = Inr ((Some r, t), v')"
    using assms(1) unfolding first_program_def by (rule athen_SomeE) (auto split: if_splits)
  obtain x2 s2 v2 where 2: "job_add_program_parameters env n p (put (call_program env mpi (cp_binary p)) s1) v1 =
      Inr ((Some x2, s2), v2)"
    and rest2: "athen (redirect_input env (js_flow J) p s2 v2) (\<lambda>_ s v.
           if fl_errfile (js_flow J) \<noteq> [] \<and> gebr_geoxml_program_get_stderr (cp_prog p)
           then redirect_output env ''error'' ''2>'' (fl_errfile (js_flow J))
                  (gebr_geoxml_flow_io_get_error_append (js_flow J)) c s v
           else Inr ((Some (None, False), s), v)) = Inr ((Some r, t), v')"
    using rest(2) by (rule athen_SomeE)
  obtain x3 s3 v3 where 3: "redirect_input env (js_flow J) p s2 v2 = Inr ((Some x3, s3), v3)"
    and 4: "(if fl_errfile (js_flow J) \<noteq> [] \<and> gebr_geoxml_program_get_stderr (cp_prog p)
           then redirect_output env ''error'' ''2>'' (fl_errfile (js_flow J))
                  (gebr_geoxml_flow_io_get_error_append (js_flow J)) c s3 v3
           else Inr ((Some (None, False), s3), v3)) = Inr ((Some r, t), v')"
    using rest2 by (rule athen_SomeE)
  have "writes n H s s1 []" by (rule program_mpi_writes [OF 1 assms(2)])
  moreover have "writes n H s1 s2 (program_exprs env p)" by (rule writes_after_put [OF job_add_writes [OF 2]])
  moreover have "writes n H s2 s3 []" by (rule redirect_input_writes [OF 3])
  moreover have "writes n H s3 t []" using 4 by (auto split: if_splits intro: redirect_output_writes)
  ultimately show ?thesis by (blast intro: writes_silent writes_done)
qed

lemma other_programs_writes:
  assumes "other_programs env J n ps k c out s v = Inr ((Some r, t), v')" "\<forall>p \<in> set (runs ps). set (mpi_exprs env p) \<subseteq> H"
  shows "writes n H s t (concat (map (program_exprs env) (runs ps)))"
  using assms
proof (induction ps arbitrary: k c out s v)
  case (Cons p ps)
  consider "\<not> configured p" | "configured p" "is_loop p" | "configured p" "\<not> is_loop p" by blast
  then show ?case
  proof cases
    case 1
    then show ?thesis using Cons.prems Cons.IH [of "k + 1" c out "issue (skipped (k + 1) p) s" v] by simp
  next
    case 2
    then show ?thesis using Cons.prems Cons.IH by simp
  next
    case 3
    have "athen (program_mpi env J n p s v) (\<lambda>mpi s v.
          let reads = gebr_geoxml_program_get_stdin (cp_prog p) in
          if \<not> out \<and> reads then give_up (broken_flow p ''no input'') s v
          else if out \<and> \<not> reads then give_up (broken_flow p ''unexpected output'') s v
          else
            athen (job_add_program_parameters env n p
                     (put ((if reads then ''|'' else '';'') @ '' '' @ call_program env mpi (cp_binary p)) s) v)
              (\<lambda>_ s v. other_programs env J n ps k c (gebr_geoxml_program_get_stdout (cp_prog p)) s v)) = Inr ((Some r, t), v')"
      using Cons.prems 3 by simp
    then obtain mpi s1 v1 y where 1: "program_mpi env J n p s v = Inr ((Some mpi, s1), v1)"
      and rest: "athen (job_add_program_parameters env n p (put y s1) v1)
        (\<lambda>_ s v. other_programs env J n ps k c (gebr_geoxml_program_get_stdout (cp_prog p)) s v) = Inr ((Some r, t), v')"
      by (rule athen_SomeE) (auto simp: Let_def split: if_splits)
    obtain x2 s2 v2 where 2: "job_add_program_parameters env n p (put y s1) v1 = Inr ((Some x2, s2), v2)"
      and 4: "other_programs env J n ps k c (gebr_geoxml_program_get_stdout (cp_prog p)) s2 v2 = Inr ((Some r, t), v')"
      using rest by (rule athen_SomeE)
    have "writes n H s s1 []" using program_mpi_writes [OF 1] Cons.prems(2) 3 by simp
    moreover have "writes n H s1 s2 (program_exprs env p)" by (rule writes_after_put [OF job_add_writes [OF 2]])
    moreover have "writes n H s2 t (concat (map (program_exprs env) (runs ps)))"
      using Cons.IH [OF 4] Cons.prems(2) 3 by simp
    ultimately have "writes n H s t (program_exprs env p @ concat (map (program_exprs env) (runs ps)))"
      by (blast intro: writes_silent writes_trans)
    then show ?thesis using 3 by simp
  qed
qed simp

definition lines_between :: "string \<Rightarrow> nat \<Rightarrow> string \<Rightarrow> nat \<Rightarrow> bool" where
  "lines_between bc j bc' j' \<longleftrightarrow> (\<exists>vs. bc' = bc @ numbered_lines j (map var_line vs) \<and> j' = j + length vs)"

lemma lines_between_refl [simp]: "lines_between bc j bc j"
  by (simp add: lines_between_def)

lemma lines_between_trans: "lines_between a i b j \<Longrightarrow> lines_between b j c k \<Longrightarrow> lines_between a i c k"
  unfolding lines_between_def
proof (elim exE conjE, goal_cases)
  case (1 vs ws)
  then show ?case by (intro exI [of _ "vs @ ws"]) (simp add: numbered_lines_append)
qed

lemma lines_between_number: "lines_between bc j (bc @ variable_line name x j label) (j + 1)"
  unfolding lines_between_def
  by (intro exI [of _ "[(name, x, label)]"]) (simp add: var_line_def)

lemma define_dict_lines:
  "define_dict env ps bc sh j v = Inr ((bc', sh', j'), v') \<Longrightarrow> lines_between bc j bc' j'"
proof (induction ps arbitrary: bc sh j v)
  case (Cons p ps)
  let ?x = "var_value p v" and ?name = "var_name p v" and ?label = "p_label (params v p)"
  consider (number) "param_type v p \<in> {GEBR_GEOXML_PARAMETER_TYPE_FLOAT, GEBR_GEOXML_PARAMETER_TYPE_INT}"
    | (texts) "param_type v p = GEBR_GEOXML_PARAMETER_TYPE_STRING"
    | (other) "param_type v p \<notin> {GEBR_GEOXML_PARAMETER_TYPE_FLOAT, GEBR_GEOXML_PARAMETER_TYPE_INT,
        GEBR_GEOXML_PARAMETER_TYPE_STRING}" by blast
  then show ?case
  proof cases
    case number
    then obtain v1 where "define_dict env ps (bc @ variable_line ?name ?x j ?label) sh (j + 1) v1 = Inr ((bc', sh', j'), v')"
      using Cons.prems by (auto simp: Let_def vthen_Inr_conv)
    then show ?thesis using Cons.IH lines_between_number lines_between_trans by blast
  next
    case texts
    then obtain r v1 where "define_dict env ps bc (sh @ text_line ?name r ?label) j v1 = Inr ((bc', sh', j'), v')"
      using Cons.prems by (auto simp: Let_def vthen_Inr_conv)
    then show ?thesis by (rule Cons.IH)
  next
    case other
    then show ?thesis using Cons.prems Cons.IH by (auto simp: Let_def)
  qed
qed simp

lemma define_dicts_lines:
  "define_dicts env ds bc sh j v = Inr ((bc', sh', j'), v') \<Longrightarrow> lines_between bc j bc' j'"
proof (induction ds arbitrary: bc sh j v)
  case (Cons d ds)
  obtain bc1 sh1 j1 v1 where 1: "define_dict env (d_dict (documents v d)) bc sh j v = Inr ((bc1, sh1, j1), v1)"
    and 2: "define_dicts env ds bc1 sh1 j1 v1 = Inr ((bc', sh', j'), v')"
    using Cons.prems by (auto simp: vthen_Inr_conv)
  show ?case using define_dict_lines [OF 1] Cons.IH [OF 2] by (rule lines_between_trans)
qed simp

lemma loop_count_expr:
  "loop_count env d p k s v = Inr ((n, k', t), v') \<Longrightarrow> ps_expr t = ps_expr s \<and> ps_count t = ps_count s \<and> ps_cmd t = ps_cmd s"
  by (auto simp: loop_count_def vthen_Inr_conv issue_def split: option.splits prod.splits)

lemma define_bc_lines:
  assumes "define_bc_variables env f docs k s v = Inr ((n, sh, j, k', t), v')"
  shows "lines_between (ps_expr s) 0 (ps_expr t) j \<and> ps_count t = ps_count s \<and> ps_cmd t = ps_cmd s"
proof -
  obtain proj line flow where docs: "docs = (proj, line, flow)" by (cases docs)
  obtain x v1 where 1: "(case gebr_geoxml_flow_get_control_program f of
           None \<Rightarrow> Inr ((None, k, s), v)
         | Some p \<Rightarrow>
             if gebr_geoxml_program_get_control p = GEBR_GEOXML_PROGRAM_CONTROL_FOR \<and>
                gebr_geoxml_program_get_status p = GEBR_GEOXML_PROGRAM_STATUS_CONFIGURED
             then vthen (loop_count env flow p k s v) (\<lambda>(n, issues, s) v. Inr ((Some n, issues, s), v))
             else Inr ((None, k, s), v)) = Inr (x, v1)"
    and 2: "(case x of (n, issues, s) \<Rightarrow> \<lambda>v.
           vthen (define_dicts env [proj, line, flow] (ps_expr s) [] 0 v) (\<lambda>(bc, sh, j) v.
             Inr ((n, sh, j, issues, s\<lparr>ps_expr := bc\<rparr>), v))) v1 = Inr ((n, sh, j, k', t), v')"
    using assms unfolding define_bc_variables_def docs Let_def case_prod_conv by (rule vthen_InrE)
  obtain n1 k1 s1 where x: "x = (n1, k1, s1)" by (rule prod_cases3)
  have s1: "ps_expr s1 = ps_expr s \<and> ps_count s1 = ps_count s \<and> ps_cmd s1 = ps_cmd s"
    using 1 x by (auto simp: vthen_Inr_conv split: option.splits if_splits dest: loop_count_expr)
  obtain y v2 where 3: "define_dicts env [proj, line, flow] (ps_expr s1) [] 0 v1 = Inr (y, v2)"
    and 4: "(case y of (bc, sh, j) \<Rightarrow> \<lambda>v. Inr ((n1, sh, j, k1, s1\<lparr>ps_expr := bc\<rparr>), v)) v2 =
      (Inr ((n, sh, j, k', t), v') :: stuck + _)"
    using 2 unfolding x case_prod_conv by (rule vthen_InrE)
  obtain bc1 sh1 j1 where y: "y = (bc1, sh1, j1)" by (rule prod_cases3)
  have "lines_between (ps_expr s1) 0 bc1 j1" using 3 unfolding y by (rule define_dicts_lines)
  moreover have "j = j1" "ps_expr t = bc1" "ps_count t = ps_count s1" "ps_cmd t = ps_cmd s1" using 4 y by auto
  ultimately show ?thesis using s1 by simp
qed

lemma assembled_lines:
  assumes "assemble_programs env J p ps k c s v = Inr ((Some w, t), v')" "ps_expr s = []" "ps_count s = 0" "ps_cmd s = []"
    and "set (mpi_exprs env p) \<subseteq> H" "\<forall>q \<in> set (runs ps). set (mpi_exprs env q) \<subseteq> H"
  shows "\<exists>vs qs. ps_expr t = numbered_lines 0 (map var_line vs @ map expr_line (exprs_of qs)) \<and>
     ps_cmd t = render_cmd (length vs) qs \<and> set (hidden qs) \<subseteq> H \<and>
     shown qs = program_exprs env p @ concat (map (program_exprs env) (runs ps))"
proof -
  obtain n sh n_vars k1 s1 v1 err s2 v2 c' out s3 v3 outp where
    1: "define_bc_variables env (js_flow J) (js_docs J) k s v = Inr ((n, sh, n_vars, k1, s1), v1)"
    and 2: "first_program env J n_vars p c s1 v1 = Inr ((Some err, s2), v2)"
    and 3: "other_programs env J n_vars ps k1 c (gebr_geoxml_program_get_stdout (cp_prog p)) s2 v2 =
      Inr ((Some (c', out), s3), v3)"
    and 4: "(if out \<and> fl_output (js_flow J) \<noteq> []
         then redirect_output env ''output'' ''>'' (fl_output (js_flow J))
                (gebr_geoxml_flow_io_get_output_append (js_flow J)) c' s3 v3
         else Inr ((Some (None, False), s3), v3)) = Inr ((Some outp, t), v')"
    using assemble_programs_accepts [OF assms(1)] by blast
  obtain vs where vs: "ps_expr s1 = numbered_lines 0 (map var_line vs)" "n_vars = length vs" "ps_count s1 = 0" "ps_cmd s1 = []"
    using define_bc_lines [OF 1] assms(2-4) by (auto simp: lines_between_def)
  have "writes n_vars H s3 t []" using 4 by (auto split: if_splits intro: redirect_output_writes)
  with writes_trans [OF other_programs_writes [OF 3 assms(6)]]
  have "writes n_vars H s2 t (concat (map (program_exprs env) (runs ps)))" by fastforce
  from writes_trans [OF first_program_writes [OF 2 assms(5)] this]
  obtain qs where "shown qs = program_exprs env p @ concat (map (program_exprs env) (runs ps))" "set (hidden qs) \<subseteq> H"
      "ps_cmd t = render_cmd n_vars qs"
      "ps_expr t = ps_expr s1 @ numbered_lines n_vars (map expr_line (exprs_of qs))"
    using vs(3,4) by (auto simp: writes_def)
  then show ?thesis using vs by (intro exI [of _ vs] exI [of _ qs]) (simp add: numbered_lines_append)
qed

text \<open>
  C17: in an accepted command line every expression of a program stands where its value is asked for. The lines for
  \<open>bc\<close> are those of the variables, numbered from 0, and then one for each expression; the command asks the shell, in the
  order of the programs and of their parameters, for exactly the values that are not literals, and the number in
  \<open>${V[k]}\<close> is the number of the line of that same expression. The lines in between that the command does not ask for
  belong to parameters for MPI.
\<close>
theorem expressions_numbered:
  assumes "job_assembly_cmdline env J iss v = Inr ((Some cmd, iss'), v')" "length (loops (js_progs J)) \<le> 1"
  shows "\<exists>vs ps par w.
     cmd = make_directories (js_paths J) @
       wrap_command J par w (numbered_lines 0 (map var_line vs @ map expr_line (exprs_of ps))) (render_cmd (length vs) ps) \<and>
     shown ps = concat (map (program_exprs env) (runs (js_progs J))) \<and>
     set (hidden ps) \<subseteq> (\<Union>p \<in> set (runs (js_progs J)). set (mpi_exprs env p))"
proof -
  obtain p ps k c s v1 w t par where
    first: "find_first_program (js_progs J) \<lparr>ps_cmd = [], ps_expr = [], ps_issues = iss, ps_count = 0\<rparr> v1 =
      Inr ((Some (p, ps, k, c), s), v1)"
    and progs: "assemble_programs env J p ps k c s v1 = Inr ((Some w, t), v')"
    and cmd: "cmd = make_directories (js_paths J) @ wrap_command J par w (ps_expr t) (ps_cmd t)"
    using job_assembly_accepts [OF assms(1)] by blast
  have skip: "ps_expr t = ps_expr s \<and> ps_count t = ps_count s \<and> ps_cmd t = ps_cmd s"
    if "skip_unconfigured ps k s = (qs, k', t)" for ps k s qs k' t
    using that by (induction ps k s rule: skip_unconfigured.induct) (auto simp: issue_def split: if_splits)
  have s: "ps_expr s = []" "ps_count s = 0" "ps_cmd s = []"
    using first by (auto simp: find_first_program_def split: if_splits prod.splits list.splits dest!: skip)
  let ?H = "\<Union>p \<in> set (runs (js_progs J)). set (mpi_exprs env p)"
  have run: "runs (js_progs J) = p # runs ps" using find_first_program_spec [OF first assms(2)] by simp
  then have "set (mpi_exprs env p) \<subseteq> ?H" "\<forall>q \<in> set (runs ps). set (mpi_exprs env q) \<subseteq> ?H" by auto
  from assembled_lines [OF progs s this] obtain vs qs where
    "ps_expr t = numbered_lines 0 (map var_line vs @ map expr_line (exprs_of qs))" "ps_cmd t = render_cmd (length vs) qs"
    "set (hidden qs) \<subseteq> ?H" "shown qs = program_exprs env p @ concat (map (program_exprs env) (runs ps))"
    by blast
  then show ?thesis using cmd run by (intro exI [of _ vs] exI [of _ qs] exI [of _ par] exI [of _ w]) simp
qed


section \<open>A job of two programs\<close>

definition demo_param :: cmd_param where
  "demo_param =
     \<lparr>p_name = ''n='', p_type = GEBR_GEOXML_PARAMETER_TYPE_INT, p_values = [''2*3''], p_sep = None, p_required = True,
      p_label = ''Samples'', p_doc = 0, p_dict = False, p_for = False, cp_min = [], cp_max = ''9'', cp_digits = []\<rparr>"

definition demo_program :: "string \<Rightarrow> bool \<Rightarrow> bool \<Rightarrow> cmd_item list \<Rightarrow> cmd_prog" where
  "demo_program name reads outs is =
     \<lparr>cp_prog = \<lparr>pr_title = name, pr_stdin = yes_no reads, pr_stdout = yes_no outs, pr_stderr = ''no'',
        pr_status = ''configured'', pr_control = [], pr_mpi = [], pr_mpi_np = None, pr_error = None, pr_help = [],
        pr_params = []\<rparr>,
      cp_binary = name, cp_items = is, cp_mpi_items = None\<rparr>"

definition demo_progs :: "cmd_prog list" where
  "demo_progs = [demo_program ''spike'' False True [Item demo_param], demo_program ''plot'' True False []]"

definition demo_job :: "cmd_prog list \<Rightarrow> job_spec" where
  "demo_job ps =
     \<lparr>js_flow = \<lparr>fl_progs = map cp_prog ps, fl_input = [], fl_output = [], fl_errfile = [], fl_output_append = [],
        fl_error_append = [], fl_dict = [], fl_revisions = [], fl_parent = [], fl_categories = [], fl_help = [], fl_doc = 0\<rparr>,
      js_progs = ps, js_docs = (0, 0, 0), js_numproc = 1, js_niceness = 0, js_paths = [], js_mpi_servers = (\<lambda>_. [])\<rparr>"

definition demo_env :: cmd_env where
  "demo_env =
     \<lparr>ce_upd = (\<lambda>_ _ v. Inr (True, v)), ce_strtod = (\<lambda>_. 0), ce_numeral = (\<lambda>_. False), ce_message = (\<lambda>_. []),
      ce_flavors = [], ce_tmp = []\<rparr>"

definition blank_parse :: parse where
  "blank_parse = \<lparr>ps_cmd = [], ps_expr = [], ps_issues = [], ps_count = 0\<rparr>"

definition demo_cmd :: string where
  "demo_cmd =
     ''# Creating directories '' @ [NL, NL] @ ''# Setting the niceness of the process '' @ [NL] @ ''NICE=0'' @ [NL] @
     ''exec='' @ in_quotes ''nice -n $NICE'' @ [NL] @
     assemble_bc_cmd_line ([CHR 0x09] @ ''max(9,round(2*3)) # V[0]: Samples'' @ [NL]) @ [NL] @ '' '' @ [NL] @
     ''# Command Line '' @ [NL] @ ''$exec spike n='' @ in_quotes ''${V[0]}'' @ '' | $exec plot ''"

lemma show_nat_0 [simp]: "show_nat 0 = ''0''"
  by code_simp

lemma demo_assembled:
  "\<exists>v'. job_assembly_cmdline demo_env (demo_job demo_progs) [] blank_validator = Inr ((Some demo_cmd, []), v')"
  by (simp add: job_assembly_cmdline_def demo_job_def demo_progs_def demo_program_def demo_param_def demo_env_def demo_cmd_def
      gebr_geoxml_flow_is_parallelizable_def gebr_geoxml_flow_get_control_program_def gebr_geoxml_program_get_control_def
      gebr_geoxml_program_get_status_def athen_def find_first_program_def configured_def is_loop_def assemble_programs_def
      define_bc_variables_def blank_validator_def first_program_def program_mpi_def job_add_program_parameters_def accepted_def
      parse_leaf_def gebr_geoxml_program_parameter_get_string_value_def pthen_def put_def separated_def expression_line_def
      rounded_def bounded_def element_def replace_quotes_def call_program_def redirect_input_def yes_no_def
      gebr_geoxml_program_get_stdin_def gebr_geoxml_program_get_stdout_def gebr_geoxml_program_get_stderr_def wrap_command_def
      Let_def make_directories_def g_strsplit_def plain_prefix_def niceness_lines_def show_int_def in_quotes_def assemble_bc_cmd_line_def bc_prologue_def g_strstrip_def g_strchomp_def g_strchug_def
      is_space_def code_def)


theorem accepted_flow_is_pipe_witness:
  "\<exists>p ps. running demo_progs = p # ps \<and> is_pipe (gebr_geoxml_program_get_stdout p) ps"
proof -
  obtain v' where v': "job_assembly_cmdline demo_env (demo_job demo_progs) [] blank_validator = Inr ((Some demo_cmd, []), v')"
    using demo_assembled by blast
  have "length (loops (js_progs (demo_job demo_progs))) \<le> 1"
    by (simp add: demo_job_def demo_progs_def demo_program_def loops_def is_loop_def gebr_geoxml_program_get_control_def)
  from accepted_flow_is_pipe [OF v' this] show ?thesis by (auto simp: demo_job_def)
qed

theorem expressions_numbered_witness:
  "\<exists>vs ps par w. demo_cmd = make_directories [] @
       wrap_command (demo_job demo_progs) par w
         (numbered_lines 0 (map var_line vs @ map expr_line (exprs_of ps))) (render_cmd (length vs) ps) \<and>
     shown ps = [(demo_param, ''2*3'')] \<and> hidden ps = []"
proof -
  obtain v' where v': "job_assembly_cmdline demo_env (demo_job demo_progs) [] blank_validator = Inr ((Some demo_cmd, []), v')"
    using demo_assembled by blast
  have run: "runs (js_progs (demo_job demo_progs)) = demo_progs" "js_paths (demo_job demo_progs) = []"
    by (simp_all add: demo_job_def demo_progs_def demo_program_def runs_def configured_def is_loop_def
        gebr_geoxml_program_get_control_def gebr_geoxml_program_get_status_def)
  have exprs: "concat (map (program_exprs demo_env) demo_progs) = [(demo_param, ''2*3'')]"
    by (simp add: demo_progs_def demo_program_def program_exprs_def params_exprs_def leaf_exprs_def number_exprs_def
        demo_param_def demo_env_def gebr_geoxml_program_parameter_get_string_value_def
        g_strstrip_def g_strchomp_def g_strchug_def is_space_def code_def)
  have "mpi_exprs demo_env p = []" if "p \<in> set demo_progs" for p
    using that by (auto simp: demo_progs_def demo_program_def mpi_exprs_def)
  then have none: "(\<Union>p \<in> set demo_progs. set (mpi_exprs demo_env p)) = {}" by auto
  have "length (loops (js_progs (demo_job demo_progs))) \<le> 1"
    by (simp add: demo_job_def demo_progs_def demo_program_def loops_def is_loop_def gebr_geoxml_program_get_control_def)
  from expressions_numbered [OF v' this] show ?thesis unfolding run exprs none by simp
qed

section \<open>Quotations\<close>

lemma in_quotes_read:
  "sh_word Unquoted (in_quotes (escape_quote_and_slash x) @ r) = read_text x (sh_word Unquoted r)"
  by (simp add: in_quotes_def is_blank_def escaped_read)

lemma end_of_word: "is_blank c \<Longrightarrow> sh_word Unquoted (c # r) = Some ([], c # r)"
  by simp

text \<open>The words of the lines that make the directories, one list for each line.\<close>

definition directory_lines :: "string \<Rightarrow> string list" where
  "directory_lines paths =
     map (\<lambda>d. ''mkdir -p '' @ in_quotes (escape_quote_and_slash d)) (filter (\<lambda>d. d \<noteq> []) (g_strsplit paths '','' 0))"

lemma make_directories_lines:
  "make_directories paths = concat (map (\<lambda>l. l @ [NL]) (''# Creating directories '' # directory_lines paths))"
  by (simp add: make_directories_def directory_lines_def comp_def)

lemma quoted_word_alone: "sh_words (in_quotes (escape_quote_and_slash x)) = Some [x]"
proof -
  have "sh_word Unquoted (in_quotes (escape_quote_and_slash x)) = Some (x, [])"
    using in_quotes_read [of x "[]"] by simp
  then show ?thesis
    using sh_words_step [of "CHR 0x22" "escape_quote_and_slash x @ [CHR 0x22]" x "[]"]
    by (simp add: in_quotes_def is_blank_def sh_words_end)
qed

text \<open>
  Every directory that is asked for is made under its own name, whatever characters its path has: the shell
  reads each of the lines as \<open>mkdir -p\<close> with the path as one word (its expansions of \<open>$\<close> and back quotes apart, which the
  code does not escape).
\<close>
theorem directories_made:
  "map sh_words (directory_lines paths) =
     map (\<lambda>d. Some [''mkdir'', ''-p'', d]) (filter (\<lambda>d. d \<noteq> []) (g_strsplit paths '','' 0))"
proof -
  have "sh_words (''mkdir -p '' @ in_quotes (escape_quote_and_slash d)) = Some [''mkdir'', ''-p'', d]" for d
    using sh_words_word [of "''mkdir''" "''-p '' @ in_quotes (escape_quote_and_slash d)"]
      sh_words_word [of "''-p''" "in_quotes (escape_quote_and_slash d)"]
    by (simp add: quoted_word_alone bare_char_def is_blank_def)
  then show ?thesis by (simp add: directory_lines_def comp_def)
qed


text \<open>A text with a double quote, which \<open>bc\<close> prints unchanged.\<close>

definition quoted_text :: string where
  "quoted_text = [CHR ''a'', CHR 0x22, CHR ''b'']"

definition text_world :: validator where
  "text_world = blank_validator\<lparr>arith := (arith blank_validator)\<lparr>bc_out := [BcLine (quoted_text @ [NL]), BcLine EVAL_COOKIE]\<rparr>\<rparr>"

lemma quoted_text_facts:
  "quoted_text \<noteq> []" "g_strstrip quoted_text = quoted_text" "clean_string quoted_text = Some quoted_text"
proof -
  show "clean_string quoted_text = Some quoted_text"
    by (simp add: clean_string_def quoted_text_def clean_loop.simps c_strlen_def Let_def)
qed (simp_all add: quoted_text_def g_strstrip_def g_strchug_def g_strchomp_def is_space_def code_def)

lemma quoted_text_evaluated:
  "\<exists>v'. gebr_validator_evaluate_interval (\<lambda>_ _ v. Inr (True, v)) quoted_text GEBR_GEOXML_PARAMETER_TYPE_STRING FLOW False True
     text_world = Inr ((Some quoted_text, None), v')"
proof -
  have "check_expression p None quoted_text GEBR_GEOXML_PARAMETER_TYPE_STRING FLOW None v = Inr ((True, None), v)" for p v
    using quoted_text_facts
    by (simp add: check_expression_def set_dep_def text_type_def string_expr_deps_def translate_with_def quoted_text_def
        check_text_def references_error_def Let_def)
  moreover have "\<exists>st. translate_string_expr v quoted_text None FLOW = Inr st \<and> g_strstrip st \<noteq> []" for v
    by (simp add: translate_string_expr_def translate_with_def quoted_text_def g_strstrip_all_space is_space_def code_def Let_def)
  moreover have "\<exists>v'. bc_eval st None text_world = Inr ((Some quoted_text, None), v')" if "g_strstrip st \<noteq> []" for st
    using that by (simp add: bc_eval_def text_world_def gebr_arith_expr_eval_internal_def Let_def read_answer.simps EVAL_COOKIE_def
        quoted_text_def)
  ultimately have check: "\<And>p v. check_expression p None quoted_text GEBR_GEOXML_PARAMETER_TYPE_STRING FLOW None v = Inr ((True, None), v)"
    and st: "\<exists>st. translate_string_expr text_world quoted_text None FLOW = Inr st \<and> g_strstrip st \<noteq> []"
    and bc: "\<And>st. g_strstrip st \<noteq> [] \<Longrightarrow> \<exists>v'. bc_eval st None text_world = Inr ((Some quoted_text, None), v')"
    by simp_all
  obtain st v1 where "translate_string_expr text_world quoted_text None FLOW = Inr st"
    "bc_eval st None text_world = Inr ((Some quoted_text, None), v1)"
    using st bc by blast
  then show ?thesis
    using quoted_text_facts check
    by (simp add: gebr_validator_evaluate_interval_def evaluate_with_def gebr_validator_evaluate_internal_def
        get_validator_by_type_def text_type_def set_var_error_def)
qed

text \<open>
  The value of a text parameter is written between double quotes as it is: one double quote in it leaves the
  quotation open, and the shell refuses the command line, while the escaped value, which is computed and thrown away,
  would be read back as the value.
\<close>
theorem text_breaks_quotes:
  assumes "gebr_validator_evaluate_interval (ce_upd env) (g_strstrip x) GEBR_GEOXML_PARAMETER_TYPE_STRING FLOW False True v =
      Inr ((Some val, None), v')"
    and "val = a @ CHR 0x22 # b" "list_all bare_char (p_name pa @ a @ b)"
    and "p_type pa = GEBR_GEOXML_PARAMETER_TYPE_STRING" "p_values pa = [x]" "p_sep pa = None" "x \<noteq> []"
  shows "\<exists>t. parse_leaf env n p pa s v = Inr ((True, t), v') \<and>
     ps_cmd t = ps_cmd s @ p_name pa @ in_quotes val @ '' '' \<and>
     sh_word Unquoted (p_name pa @ in_quotes val @ '' '') = None \<and>
     sh_word Unquoted (p_name pa @ in_quotes (escape_quote_and_slash val) @ '' '') = Some (p_name pa @ val, '' '')"
proof -
  have bare: "list_all bare_char (p_name pa)" "list_all bare_char a" "list_all bare_char b" using assms(3) by simp_all
  have inside: "sh_word Double (a @ r) = read_text a (sh_word Double r)" if "list_all bare_char a" for a r
    using that by (induction a) (auto simp: bare_char_def)
  have "sh_word Unquoted (in_quotes val @ '' '') = None"
    using assms(2) bare
    by (simp add: in_quotes_def is_blank_def inside plain_read)
  moreover have "parse_leaf env n p pa s v =
      Inr ((True, put [CHR 0x22, CHR '' ''] (put val (put (p_name pa @ [CHR 0x22]) s))), v')"
    using assms by (simp add: parse_leaf_def Let_def gebr_geoxml_program_parameter_get_string_value_def pthen_def separated_def)
  ultimately show ?thesis
    using bare(1) in_quotes_read [of val "'' ''"] by (simp add: put_def in_quotes_def plain_read end_of_word is_blank_def)
qed

definition text_param :: cmd_param where
  "text_param = demo_param\<lparr>p_type := GEBR_GEOXML_PARAMETER_TYPE_STRING, p_values := [quoted_text]\<rparr>"

theorem text_breaks_quotes_witness:
  "\<exists>t v'. parse_leaf demo_env 0 (cp_prog (demo_program [] False True [])) text_param blank_parse text_world = Inr ((True, t), v') \<and>
     ps_cmd t = ''n='' @ in_quotes quoted_text @ '' '' \<and>
     sh_word Unquoted (''n='' @ in_quotes quoted_text @ '' '') = None"
proof -
  obtain v' where v': "gebr_validator_evaluate_interval (ce_upd demo_env) (g_strstrip quoted_text)
      GEBR_GEOXML_PARAMETER_TYPE_STRING FLOW False True text_world = Inr ((Some quoted_text, None), v')"
    using quoted_text_evaluated quoted_text_facts(2) by (auto simp: demo_env_def)
  from text_breaks_quotes [OF v', of "''a''" "''b''" text_param 0 "cp_prog (demo_program [] False True [])" blank_parse] quoted_text_facts(1) show ?thesis
    by (auto simp: blank_parse_def text_param_def demo_param_def quoted_text_def bare_char_def is_blank_def)
qed


section \<open>The check of the client\<close>

lemma takes_part_running:
  assumes "filter faulty (map cp_prog ps) = []"
  shows "filter takes_part (map cp_prog ps) = running ps"
  using assms
proof (induction ps)
  case (Cons p ps)
  have "takes_part (cp_prog p) \<longleftrightarrow> configured p \<and> \<not> is_loop p"
    using Cons.prems status_two [of "cp_prog p"]
    by (cases "gebr_geoxml_program_get_status (cp_prog p)")
      (auto simp: takes_part_def faulty_def configured_def is_loop_def split: if_splits)
  then show ?case using Cons by (auto simp: running_def split: if_splits)
qed simp

lemma skip_unconfigured_first:
  assumes "running ps \<noteq> []" "skip_unconfigured ps k s = (qs, k', t)"
  shows "qs \<noteq> []"
  using assms by (induction ps k s rule: skip_unconfigured.induct) (auto split: if_splits)

lemma find_first_program_found:
  assumes "running ps \<noteq> []"
  shows "\<exists>x t. find_first_program ps s v = Inr ((Some x, t), v)"
proof -
  obtain qs k t where 1: "skip_unconfigured ps 0 s = (qs, k, t)" by (cases "skip_unconfigured ps 0 s")
  obtain p qs1 where qs: "qs = p # qs1" using skip_unconfigured_first [OF assms 1] by (cases qs) auto
  obtain rs k2 t2 where 2: "skip_unconfigured qs1 k t = (rs, k2, t2)" by (cases "skip_unconfigured qs1 k t")
  have "running qs1 \<noteq> []" if "is_loop p"
    using skip_unconfigured_spec [OF 1] assms qs that by (auto simp: running_def)
  then have "is_loop p \<longrightarrow> rs \<noteq> []" using skip_unconfigured_first [OF _ 2] by blast
  then show ?thesis
    using assms 1 2 qs by (cases ps; cases rs) (auto simp: find_first_program_def)
qed

text \<open>
  A parameter that the daemon may refuse to write: one that must have a value and has none, a text or file, whose
  value is evaluated, or one whose type is none of those that the code knows.
\<close>

definition may_refuse :: "cmd_param \<Rightarrow> bool" where
  "may_refuse pa \<longleftrightarrow>
     (if p_type pa \<in> {GEBR_GEOXML_PARAMETER_TYPE_FILE, GEBR_GEOXML_PARAMETER_TYPE_STRING}
      then gebr_geoxml_program_parameter_get_string_value pa \<noteq> [] \<or> p_required pa
      else if p_type pa \<in> {GEBR_GEOXML_PARAMETER_TYPE_INT, GEBR_GEOXML_PARAMETER_TYPE_RANGE,
             GEBR_GEOXML_PARAMETER_TYPE_FLOAT, GEBR_GEOXML_PARAMETER_TYPE_ENUM}
      then gebr_geoxml_program_parameter_get_string_value pa = [] \<and> p_required pa
      else p_type pa \<noteq> GEBR_GEOXML_PARAMETER_TYPE_FLAG)"

lemma leaf_refused:
  assumes "parse_leaf env n p pa s v = Inr ((False, t), v')"
  shows "may_refuse pa"
  using assms unfolding parse_leaf_def Let_def may_refuse_def
  by (cases "p_type pa") (auto split: if_splits)

lemma parameter_refused:
  "job_parse_parameter env n p i s v = Inr ((False, t), v') \<Longrightarrow> \<exists>pa \<in> set (item_params i). may_refuse pa"
  "job_parse_parameters env n p is s v = Inr ((False, t), v') \<Longrightarrow> \<exists>pa \<in> set (items_params is). may_refuse pa"
  "parse_instances env n p js s v = Inr ((False, t), v') \<Longrightarrow> \<exists>pa \<in> set (instances_params js). may_refuse pa"
proof (induction env n p i s v and env n p "is" s v and env n p js s v
    arbitrary: t v' and t v' and t v'
    rule: job_parse_parameter_job_parse_parameters_parse_instances.induct)
  case (1 env n_vars p pa s v)
  then show ?case by (auto intro: leaf_refused)
qed (fastforce simp: pthen_def vthen_Inr_conv split: if_splits)+

text \<open>The assembly ends in the parameters of a program, one of which may be refused.\<close>

definition stopped_at :: "cmd_env \<Rightarrow> nat \<Rightarrow> cmd_prog \<Rightarrow> parse \<Rightarrow> validator \<Rightarrow> bool" where
  "stopped_at env n q t v' \<longleftrightarrow>
     (\<exists>s v. job_add_program_parameters env n q s v = Inr ((None, t), v')) \<and>
     (\<exists>pa \<in> set (items_params (cp_items q)). may_refuse pa)"

lemma add_stopped:
  assumes "job_add_program_parameters env n q s v = Inr ((None, t), v')"
  shows "stopped_at env n q t v'"
proof -
  have "job_parse_parameters env n (cp_prog q) (cp_items q) s v = Inr ((False, t), v')"
    using assms by (auto simp: job_add_program_parameters_def accepted_def vthen_Inr_conv split: if_splits)
  from parameter_refused(2) [OF this] show ?thesis using assms unfolding stopped_at_def by blast
qed

lemma other_programs_stopped:
  assumes "is_pipe out (running ps)" "other_programs env J n ps k c out s v = Inr ((None, t), v')"
  shows "\<exists>q \<in> set (runs ps). stopped_at env n q t v'"
  using assms
proof (induction ps arbitrary: k c out s v)
  case (Cons p ps)
  consider "\<not> configured p" | "configured p" "is_loop p" | "configured p" "\<not> is_loop p" by blast
  then show ?case
  proof cases
    case 1
    then show ?thesis using Cons.prems Cons.IH [of out "k + 1" c "issue (skipped (k + 1) p) s" v] by simp
  next
    case 2
    then show ?thesis using Cons.prems Cons.IH by simp
  next
    case 3
    let ?out = "gebr_geoxml_program_get_stdout (cp_prog p)"
    have chain: "gebr_geoxml_program_get_stdin (cp_prog p) = out" "is_pipe ?out (running ps)"
      using Cons.prems(1) 3 by simp_all
    obtain x s1 v1 where "program_mpi env J n p s v = Inr ((x, s1), v1)"
      using Cons.prems(2) 3 by (auto simp: athen_def vthen_Inr_conv)
    moreover from this obtain mpi where "x = Some mpi"
      by (auto simp: program_mpi_def vthen_Inr_conv split: option.splits)
    ultimately have 1: "program_mpi env J n p s v = Inr ((Some mpi, s1), v1)" by simp
    have "athen (job_add_program_parameters env n p
           (put ((if out then ''|'' else '';'') @ '' '' @ call_program env mpi (cp_binary p)) s1) v1)
         (\<lambda>_ s v. other_programs env J n ps k c ?out s v) = Inr ((None, t), v')"
      using Cons.prems(2) 3 1 chain(1) by (simp add: athen_def Let_def)
    then obtain x s2 v2 where 2: "job_add_program_parameters env n p
        (put ((if out then ''|'' else '';'') @ '' '' @ call_program env mpi (cp_binary p)) s1) v1 = Inr ((x, s2), v2)"
      and rest: "case x of None \<Rightarrow> t = s2 \<and> v' = v2 | Some _ \<Rightarrow> other_programs env J n ps k c ?out s2 v2 = Inr ((None, t), v')"
      unfolding athen_def by (rule vthen_InrE) (auto split: option.splits)
    show ?thesis
    proof (cases x)
      case None
      then have "stopped_at env n p t v'" using 2 rest by (auto intro: add_stopped)
      then show ?thesis using 3 by simp
    next
      case (Some u)
      then show ?thesis using rest Cons.IH [of ?out k c s2 v2] chain(2) 3 by auto
    qed
  qed
qed auto

lemma evaluate_no_file: "evaluate_file upd [] v = Inr (r, v') \<Longrightarrow> r = Some []"
  by (auto simp: evaluate_file_def vthen_Inr_conv gebr_validator_evaluate_def gebr_validator_evaluate_interval_def
      evaluate_with_def split: if_splits)

text \<open>
  C16: the daemon's view of a flow agrees with the check of the client: for a flow that the client has found valid,
  with at most one loop, the daemon finds a first program, which has an input file if it reads, and however far the
  assembly of the others gets, it is never given up as a break of the pipe: where it is given up, that is in the
  parameters of a program that runs, and this program has a parameter that may be refused, which is a required one without
  value, a text or file (whose value is evaluated again), or one of a type that the code does not know.
\<close>
theorem valid_flow_not_broken:
  assumes "gebr_geoxml_flow_validate upd (js_flow J) v0 = Inr (None, v1)"
    and "fl_progs (js_flow J) = map cp_prog (js_progs J)" "length (loops (js_progs J)) \<le> 1"
  shows "\<exists>p ps k c t. find_first_program (js_progs J) s v = Inr ((Some (p, ps, k, c), t), v) \<and>
     runs (js_progs J) = p # runs ps \<and> (\<not> gebr_geoxml_program_get_stdin (cp_prog p) \<or> fl_input (js_flow J) \<noteq> []) \<and>
     (\<forall>env n k' s' w t' w'.
        other_programs env J n ps k' c (gebr_geoxml_program_get_stdout (cp_prog p)) s' w = Inr ((None, t'), w') \<longrightarrow>
        (\<exists>q \<in> set (runs ps). stopped_at env n q t' w'))"
proof -
  obtain input q v2 where pipe: "pipe_from input (line_paths v0) (map cp_prog (js_progs J)) q"
    and input: "evaluate_file upd (fl_input (js_flow J)) v0 = Inr (input, v2)"
    using assms(1) unfolding flow_validate_conv assms(2) by blast
  then have "filter faulty (map cp_prog (js_progs J)) = []" by (simp add: pipe_from_def)
  then have run: "filter takes_part (map cp_prog (js_progs J)) = running (js_progs J)" by (rule takes_part_running)
  then have "running (js_progs J) \<noteq> []" using pipe by (auto simp: pipe_from_def)
  then obtain p ps k c t where first: "find_first_program (js_progs J) s v = Inr ((Some (p, ps, k, c), t), v)"
    using find_first_program_found [of "js_progs J" s v] by auto
  have runs: "runs (js_progs J) = p # runs ps"
    using find_first_program_spec [OF first assms(3)] by simp
  then have "running (js_progs J) = cp_prog p # running ps" by (simp add: running_def)
  then have ok: "input_ok (gebr_geoxml_program_get_stdin (cp_prog p)) input (line_paths v0)"
    "is_pipe (gebr_geoxml_program_get_stdout (cp_prog p)) (running ps)"
    using pipe run by (simp_all add: pipe_from_def)
  have "\<not> gebr_geoxml_program_get_stdin (cp_prog p) \<or> fl_input (js_flow J) \<noteq> []"
    using ok(1) input evaluate_no_file by (fastforce simp: input_ok_def)
  then show ?thesis using first runs other_programs_stopped [OF ok(2)] by blast
qed

definition bare_progs :: "cmd_prog list" where
  "bare_progs = [demo_program ''spike'' False True [], demo_program ''plot'' True False []]"

lemma no_file_evaluated: "evaluate_file (\<lambda>_ _ v. Inr (True, v)) [] blank_validator = Inr (Some [], blank_validator)"
  by (simp add: evaluate_file_def gebr_validator_use_iter_def blank_validator_def gebr_validator_evaluate_def
      gebr_validator_evaluate_interval_def evaluate_with_def)

lemma bare_job_valid:
  "gebr_geoxml_flow_validate (\<lambda>_ _ v. Inr (True, v)) (js_flow (demo_job bare_progs)) blank_validator = Inr (None, blank_validator)"
  by (simp add: gebr_geoxml_flow_validate_def demo_job_def bare_progs_def demo_program_def check_for_valid_programs_def
      no_file_evaluated visit_start_def gebr_geoxml_program_get_status_def gebr_geoxml_program_get_error_id_def
      gebr_geoxml_program_get_control_def gebr_geoxml_program_get_stdin_def gebr_geoxml_program_get_stdout_def yes_no_def
      chain_error_def end_file_error_def gebr_geoxml_program_get_stderr_def Let_def)

theorem valid_flow_not_broken_witness:
  "\<exists>p ps k c t. find_first_program bare_progs blank_parse blank_validator = Inr ((Some (p, ps, k, c), t), blank_validator) \<and>
     runs ps = [demo_program ''plot'' True False []] \<and>
     (\<forall>env n k' s' w. \<nexists>t' w'.
        other_programs env (demo_job bare_progs) n ps k' c (gebr_geoxml_program_get_stdout (cp_prog p)) s' w = Inr ((None, t'), w'))"
proof -
  have "fl_progs (js_flow (demo_job bare_progs)) = map cp_prog (js_progs (demo_job bare_progs))"
    "length (loops (js_progs (demo_job bare_progs))) \<le> 1"
    by (simp_all add: demo_job_def bare_progs_def demo_program_def loops_def is_loop_def gebr_geoxml_program_get_control_def)
  note found = valid_flow_not_broken [OF bare_job_valid this, of blank_parse blank_validator]
  have job: "js_progs (demo_job bare_progs) = bare_progs" by (simp add: demo_job_def)
  have "runs bare_progs = bare_progs"
    by (simp add: bare_progs_def demo_program_def runs_def configured_def is_loop_def
        gebr_geoxml_program_get_control_def gebr_geoxml_program_get_status_def)
  then have "runs ps = [demo_program ''plot'' True False []]" if "runs bare_progs = p # runs ps" for p ps
    using that by (simp add: bare_progs_def)
  moreover have "\<not> stopped_at env n (demo_program ''plot'' True False []) t w" for env n t w
    by (simp add: stopped_at_def demo_program_def)
  ultimately show ?thesis using found unfolding job by fastforce
qed

end
