(* ===== verification/Geoxml_Dict.thy ===== *)
theory Geoxml_Dict
  imports Comm_Runner Validator_Typed
begin

text \<open>
  The dictionaries that travel with a flow (\<open>libgebr/geoxml/document.c\<close>): the client appends the variables of line
  and project to those of the flow, each list behind a parameter of the type of a group
  (\<open>gebr_geoxml_document_merge_dicts\<close>, in \<open>Comm_Runner\<close>); the daemon of a machine takes them apart again
  (\<open>gebr_geoxml_document_split_dict\<close>).
\<close>

section \<open>Taking apart\<close>

text \<open>
  The walk over the variables: the documents that are left, the one that is filled, and where the cut is made, which
  is at the first separator, or at the one for which there is no document. The result tells whether there were enough.
\<close>

fun split_walk ::
    "nat \<Rightarrow> doc_ref list \<Rightarrow> doc_ref option \<Rightarrow> nat option \<Rightarrow> param_ref list \<Rightarrow> validator \<Rightarrow> bool \<times> nat option \<times> validator" where
  "split_walk i ds cur mark [] v = (True, mark, v)"
| "split_walk i ds cur mark (q # qs) v =
     (if param_type v q = GEBR_GEOXML_PARAMETER_TYPE_GROUP then
        (case ds of
           [] \<Rightarrow> (False, Some i, v)
         | d # ds \<Rightarrow> split_walk (i + 1) ds (Some d) (if mark = None then Some i else mark) qs v)
      else
        (case cur of
           None \<Rightarrow> split_walk (i + 1) ds cur mark qs v
         | Some d \<Rightarrow>
             split_walk (i + 1) ds cur mark qs
               (case set_dict_keyword d (param_type v q) (var_name q v) (var_value q v) (p_label (params v q)) v of
                  None \<Rightarrow> v
                | Some (_, v) \<Rightarrow> v)))"

definition gebr_geoxml_document_split_dict :: "doc_ref \<Rightarrow> doc_ref list \<Rightarrow> validator \<Rightarrow> bool \<times> validator" where
  "gebr_geoxml_document_split_dict d ds v =
     (let (ok, mark, v) = split_walk 0 ds None None (d_dict (documents v d)) v
      in (ok, case mark of None \<Rightarrow> v | Some i \<Rightarrow> set_dict d (take i) v))"

section \<open>Loading\<close>

text \<open>A dictionary that was read from a file: its variables in the heap.\<close>

definition load_dict :: "doc_ref \<Rightarrow> param list \<Rightarrow> validator \<Rightarrow> validator" where
  "load_dict d pas v =
     (let n = next_param v; refs = [n ..< n + length pas] in
      set_dict d (\<lambda>_. refs)
        (v\<lparr>params := (\<lambda>q. if n \<le> q \<and> q < n + length pas then (pas ! (q - n))\<lparr>p_doc := d\<rparr> else params v q),
           next_param := n + length pas\<rparr>))"

section \<open>Round trip\<close>

text \<open>What is read from a variable when the daemon defines it.\<close>

type_synonym variable = "string \<times> parameter_type \<times> string \<times> string"

definition variable_of :: "param \<Rightarrow> variable" where
  "variable_of pa = (p_name pa, p_type pa, case p_values pa of [] \<Rightarrow> [] | x # _ \<Rightarrow> x, p_label pa)"

definition variables :: "doc_ref \<Rightarrow> validator \<Rightarrow> variable list" where
  "variables d v = map (\<lambda>q. variable_of (params v q)) (d_dict (documents v d))"

definition is_variable :: "param \<Rightarrow> bool" where
  "is_variable pa \<longleftrightarrow>
     p_type pa = GEBR_GEOXML_PARAMETER_TYPE_STRING \<or> p_type pa = GEBR_GEOXML_PARAMETER_TYPE_FLOAT \<or>
     p_type pa = GEBR_GEOXML_PARAMETER_TYPE_INT"

lemma split_walk_own:
  assumes "\<forall>q\<in>set qs. is_variable (params v q)"
  shows "split_walk i ds None mark (qs @ rs) v = split_walk (i + length qs) ds None mark rs v"
  using assms by (induction qs arbitrary: i) (auto simp: is_variable_def param_type_def)

text \<open>What the copies into a document keep: all parameters that are there, and the other documents.\<close>

definition appended :: "doc_ref \<Rightarrow> variable list \<Rightarrow> validator \<Rightarrow> validator \<Rightarrow> bool" where
  "appended d xs v v' \<longleftrightarrow>
     next_param v \<le> next_param v' \<and> (\<forall>q < next_param v. params v' q = params v q) \<and>
     (\<forall>e. e \<noteq> d \<longrightarrow> documents v' e = documents v e) \<and>
     (\<exists>refs. d_dict (documents v' d) = d_dict (documents v d) @ refs \<and> (\<forall>q\<in>set refs. q < next_param v') \<and>
        map (\<lambda>q. variable_of (params v' q)) refs = xs)"

lemma appended_nil: "appended d [] v v"
  by (simp add: appended_def)

lemma appended_trans:
  assumes "appended d xs u v" "appended d ys v w"
  shows "appended d (xs @ ys) u w"
proof -
  obtain r1 where r1: "d_dict (documents v d) = d_dict (documents u d) @ r1" "\<forall>q\<in>set r1. q < next_param v"
    "map (\<lambda>q. variable_of (params v q)) r1 = xs" using assms(1) by (auto simp: appended_def)
  obtain r2 where r2: "d_dict (documents w d) = d_dict (documents v d) @ r2" "\<forall>q\<in>set r2. q < next_param w"
    "map (\<lambda>q. variable_of (params w q)) r2 = ys" using assms(2) by (auto simp: appended_def)
  have "map (\<lambda>q. variable_of (params w q)) r1 = xs"
    using r1(2,3) assms(2) by (auto simp: appended_def)
  then show ?thesis
    using assms r1 r2 unfolding appended_def by (intro conjI exI [of _ "r1 @ r2"]) auto
qed

lemma keyword_appended:
  assumes "is_variable (params v q)"
  shows "\<exists>r v'. set_dict_keyword d (param_type v q) (var_name q v) (var_value q v) (p_label (params v q)) v = Some (r, v') \<and>
     appended d [variable_of (params v q)] v v'"
proof -
  let ?pa = "\<lparr>p_name = var_name q v, p_type = param_type v q, p_values = [var_value q v], p_sep = None, p_required = True,
      p_label = p_label (params v q), p_doc = d, p_dict = True, p_for = False\<rparr>"
  let ?v = "set_dict d (\<lambda>ds. ds @ [next_param v]) (v\<lparr>params := (params v)(next_param v := ?pa), next_param := next_param v + 1\<rparr>)"
  have "set_dict_keyword d (param_type v q) (var_name q v) (var_value q v) (p_label (params v q)) v = Some (next_param v, ?v)"
    using assms by (simp add: set_dict_keyword_def is_variable_def param_type_def Let_def)
  moreover have "appended d [variable_of (params v q)] v ?v"
    by (simp add: appended_def set_dict_def variable_of_def var_name_def var_value_def param_type_def)
  ultimately show ?thesis by blast
qed

lemma split_walk_copied:
  assumes "\<forall>q\<in>set qs. q < next_param v \<and> is_variable (params v q)"
  shows "\<exists>v'. split_walk i ds (Some d) mark (qs @ rs) v = split_walk (i + length qs) ds (Some d) mark rs v' \<and>
     appended d (map (\<lambda>q. variable_of (params v q)) qs) v v'"
  using assms
proof (induction qs arbitrary: i v)
  case Nil
  then show ?case using appended_nil by auto
next
  case (Cons q qs)
  obtain r v1 where 1: "set_dict_keyword d (param_type v q) (var_name q v) (var_value q v) (p_label (params v q)) v = Some (r, v1)"
    "appended d [variable_of (params v q)] v v1"
    using keyword_appended [of v q d] Cons.prems by auto
  have same: "\<forall>p\<in>set qs. p < next_param v1 \<and> params v1 p = params v p"
    using 1(2) Cons.prems by (auto simp: appended_def)
  then obtain v2 where 2: "split_walk (i + 1) ds (Some d) mark (qs @ rs) v1 = split_walk (i + 1 + length qs) ds (Some d) mark rs v2"
    "appended d (map (\<lambda>q. variable_of (params v1 q)) qs) v1 v2"
    using Cons.IH [of v1 "i + 1"] Cons.prems by auto
  have "map (\<lambda>q. variable_of (params v1 q)) qs = map (\<lambda>q. variable_of (params v q)) qs" using same by simp
  with appended_trans [OF 1(2) 2(2)] have "appended d (map (\<lambda>q. variable_of (params v q)) (q # qs)) v v2" by simp
  moreover have "split_walk i ds (Some d) mark ((q # qs) @ rs) v = split_walk (i + length (q # qs)) ds (Some d) mark rs v2"
    using 1(1) 2(1) Cons.prems by (auto simp: is_variable_def param_type_def)
  ultimately show ?case by blast
qed


lemma appended_variables:
  assumes "appended d xs v v'" "\<forall>q\<in>set (d_dict (documents v e)). q < next_param v"
  shows "variables e v' = variables e v @ (if e = d then xs else [])"
proof -
  have "variable_of (params v' q) = variable_of (params v q)" if "q \<in> set (d_dict (documents v e))" for q
    using assms that by (auto simp: appended_def)
  then show ?thesis using assms(1) by (cases "e = d") (auto simp: appended_def variables_def)
qed

lemma split_dict_parts:
  assumes "d_dict (documents v d) = own @ s1 # ls @ s2 # ps" "d \<noteq> l" "d \<noteq> p" "l \<noteq> p"
    and "\<forall>q\<in>set (own @ ls @ ps). is_variable (params v q)" "\<forall>q\<in>set (d_dict (documents v d)). q < next_param v"
    and "p_type (params v s1) = GEBR_GEOXML_PARAMETER_TYPE_GROUP" "p_type (params v s2) = GEBR_GEOXML_PARAMETER_TYPE_GROUP"
    and "d_dict (documents v l) = []" "d_dict (documents v p) = []"
  shows "\<exists>v'. gebr_geoxml_document_split_dict d [l, p] v = (True, v') \<and>
     variables d v' = map (\<lambda>q. variable_of (params v q)) own \<and>
     variables l v' = map (\<lambda>q. variable_of (params v q)) ls \<and> variables p v' = map (\<lambda>q. variable_of (params v q)) ps"
proof -
  have bound: "q < next_param v" if "q \<in> {s1, s2} \<union> set (own @ ls @ ps)" for q
    using assms(1,6) that by auto
  obtain v1 where v1: "split_walk (length own + 1) [p] (Some l) (Some (length own)) (ls @ s2 # ps) v =
      split_walk (length own + 1 + length ls) [p] (Some l) (Some (length own)) (s2 # ps) v1"
    "appended l (map (\<lambda>q. variable_of (params v q)) ls) v v1"
    using split_walk_copied [of ls v "length own + 1" "[p]" l "Some (length own)" "s2 # ps"] assms(5) bound by auto
  have same: "params v1 q = params v q" "q < next_param v1" if "q \<in> {s1, s2} \<union> set (own @ ls @ ps)" for q
    using v1(2) bound [OF that] by (auto simp: appended_def)
  obtain v2 where v2: "split_walk (length own + 1 + length ls + 1) [] (Some p) (Some (length own)) (ps @ []) v1 =
      split_walk (length own + 1 + length ls + 1 + length ps) [] (Some p) (Some (length own)) [] v2"
    "appended p (map (\<lambda>q. variable_of (params v1 q)) ps) v1 v2"
    using split_walk_copied [of ps v1 _ "[]" p "Some (length own)" "[]"] assms(5) same by fastforce
  have walk: "split_walk 0 [l, p] None None (own @ s1 # ls @ s2 # ps) v = (True, Some (length own), v2)"
  proof -
    have "split_walk 0 [l, p] None None (own @ s1 # ls @ s2 # ps) v =
        split_walk (length own + 1) [p] (Some l) (Some (length own)) (ls @ s2 # ps) v"
      using split_walk_own [of own v 0 "[l, p]" None "s1 # ls @ s2 # ps"] assms(5,7) by (simp add: param_type_def)
    also have "\<dots> = split_walk (length own + 1 + length ls + 1) [] (Some p) (Some (length own)) (ps @ []) v1"
      using v1(1) same(1) [of s2] assms(8) by (simp add: param_type_def)
    finally show ?thesis using v2(1) by simp
  qed
  let ?v = "set_dict d (take (length own)) v2"
  have d2: "d_dict (documents v2 d) = own @ s1 # ls @ s2 # ps"
    using v1(2) v2(2) assms(1-4) by (simp add: appended_def)
  have params: "params v2 q = params v q" if "q \<in> set (own @ ls @ ps)" for q
    using v2(2) same [of q] that by (auto simp: appended_def)
  have "variables d ?v = map (\<lambda>q. variable_of (params v q)) own"
    using params by (simp add: variables_def set_dict_def d2)
  moreover have "variables l ?v = map (\<lambda>q. variable_of (params v q)) ls"
  proof -
    have "variables l v1 = map (\<lambda>q. variable_of (params v q)) ls"
      using appended_variables [OF v1(2), of l] assms(9) by (simp add: variables_def)
    moreover have "\<forall>q\<in>set (d_dict (documents v1 l)). q < next_param v1"
      using v1(2) assms(9) by (auto simp: appended_def)
    ultimately have "variables l v2 = map (\<lambda>q. variable_of (params v q)) ls"
      using appended_variables [OF v2(2), of l] assms(4) by simp
    then show ?thesis using assms(2) by (simp add: variables_def set_dict_def)
  qed
  moreover have "variables p ?v = map (\<lambda>q. variable_of (params v q)) ps"
  proof -
    have empty: "d_dict (documents v1 p) = []" using v1(2) assms(4,10) by (simp add: appended_def)
    have "variables p v2 = map (\<lambda>q. variable_of (params v1 q)) ps"
      using appended_variables [OF v2(2), of p] empty by (simp add: variables_def)
    moreover have "map (\<lambda>q. variable_of (params v1 q)) ps = map (\<lambda>q. variable_of (params v q)) ps"
      using same(1) by simp
    ultimately show ?thesis using assms(3) by (simp add: variables_def set_dict_def)
  qed
  moreover have "gebr_geoxml_document_split_dict d [l, p] v = (True, ?v)"
    using walk by (simp add: gebr_geoxml_document_split_dict_def assms(1))
  ultimately show ?thesis by blast
qed

lemma load_dict_read:
  assumes "w = load_dict d pas v"
  shows "d_dict (documents w d) = [next_param v ..< next_param v + length pas]"
    "next_param w = next_param v + length pas" "e \<noteq> d \<Longrightarrow> documents w e = documents v e"
    "i < length pas \<Longrightarrow> params w (next_param v + i) = (pas ! i)\<lparr>p_doc := d\<rparr>"
  using assms by (simp_all add: load_dict_def Let_def set_dict_def)

lemma variable_of_doc [simp]: "variable_of (pa\<lparr>p_doc := d\<rparr>) = variable_of pa" "is_variable (pa\<lparr>p_doc := d\<rparr>) = is_variable pa"
  by (simp_all add: variable_of_def is_variable_def)

lemma map_parts:
  assumes "map F refs = A @ x # B @ y # C"
  obtains ra s1 rb s2 rc where "refs = ra @ s1 # rb @ s2 # rc" "map F ra = A" "F s1 = x" "map F rb = B" "F s2 = y" "map F rc = C"
proof -
  obtain ra r1 where 1: "refs = ra @ r1" "map F ra = A" "map F r1 = x # B @ y # C"
    using assms by (auto simp: map_eq_append_conv)
  obtain s1 r2 where 2: "r1 = s1 # r2" "F s1 = x" "map F r2 = B @ y # C"
    using 1(3) by (auto simp: map_eq_Cons_conv)
  obtain rb r3 where 3: "r2 = rb @ r3" "map F rb = B" "map F r3 = y # C"
    using 2(3) by (auto simp: map_eq_append_conv)
  obtain s2 rc where 4: "r3 = s2 # rc" "F s2 = y" "map F rc = C"
    using 3(3) by (auto simp: map_eq_Cons_conv)
  show ?thesis using 1 2 3 4 by (intro that [of ra s1 rb s2 rc]) simp_all
qed

lemma copied_no_separator: "copy_dict strtod upd d qs v = Inr (cs, v') \<Longrightarrow> dict_separator e \<notin> set cs"
proof (induction qs arbitrary: v cs)
  case (Cons q qs)
  then show ?case by (fastforce simp: vthen_Inr_conv dict_copy_def dict_separator_def split: if_splits)
qed simp

text \<open>
  The variables of flow, line and project arrive as they were sent: the daemon that loads the merged dictionary and
  takes it apart has in its three documents, in their order, the names, types, values and labels of the
  variables of the flow and of the valid variables of line and project.
\<close>
theorem dictionaries_round_trip:
  assumes "gebr_geoxml_document_merge_dicts strtod upd f [Some l, Some p] v = Inr (f', v')"
    and "list_all (\<lambda>pa. is_variable pa \<or> pa = dict_separator (fl_doc f)) (fl_dict f')"
    and "list_all is_variable (fl_dict f)"
    and "a \<noteq> b" "a \<noteq> c" "b \<noteq> c" "d_dict (documents w b) = []" "d_dict (documents w c) = []"
  shows "\<exists>ls ps u w'. copy_dict strtod upd (fl_doc f) (d_dict (documents v l)) v = Inr (ls, u) \<and>
     copy_dict strtod upd (fl_doc f) (d_dict (documents u p)) u = Inr (ps, v') \<and>
     gebr_geoxml_document_split_dict a [b, c] (load_dict a (fl_dict f') w) = (True, w') \<and>
     variables a w' = map variable_of (fl_dict f) \<and> variables b w' = map variable_of ls \<and>
     variables c w' = map variable_of ps"
proof -
  obtain ls u ps where ls: "copy_dict strtod upd (fl_doc f) (d_dict (documents v l)) v = Inr (ls, u)"
    and ps: "copy_dict strtod upd (fl_doc f) (d_dict (documents u p)) u = Inr (ps, v')"
    and f': "fl_dict f' = fl_dict f @ dict_separator (fl_doc f) # ls @ dict_separator (fl_doc f) # ps"
    using assms(1) by (auto simp: vthen_Inr_conv)
  let ?g = "\<lambda>pa :: param. pa\<lparr>p_doc := a\<rparr>" and ?v = "load_dict a (fl_dict f') w"
  have copies: "list_all is_variable ls" "list_all is_variable ps"
    using assms(2) copied_no_separator [OF ls] copied_no_separator [OF ps] by (auto simp: f' list_all_iff)
  have refs: "map (params ?v) (d_dict (documents ?v a)) = map ?g (fl_dict f')"
    by (rule nth_equalityI) (simp_all add: load_dict_read [OF refl])
  obtain own s1 lr s2 pr where parts: "d_dict (documents ?v a) = own @ s1 # lr @ s2 # pr"
    "map (params ?v) own = map ?g (fl_dict f)" "params ?v s1 = ?g (dict_separator (fl_doc f))"
    "map (params ?v) lr = map ?g ls" "params ?v s2 = ?g (dict_separator (fl_doc f))" "map (params ?v) pr = map ?g ps"
    using refs unfolding f' map_append list.map by (rule map_parts)
  have own: "map (\<lambda>q. variable_of (params ?v q)) rs = map variable_of qs \<and> (\<forall>q\<in>set rs. is_variable (params ?v q))"
    if "map (params ?v) rs = map ?g qs" "list_all is_variable qs" for rs qs
  proof -
    have "map variable_of (map (params ?v) rs) = map variable_of qs" "list_all is_variable (map (params ?v) rs)"
      using that by (simp_all add: comp_def list_all_iff)
    then show ?thesis by (simp add: comp_def list_all_iff)
  qed
  note o = own [OF parts(2) assms(3)] own [OF parts(4) copies(1)] own [OF parts(6) copies(2)]
  have "d_dict (documents ?v b) = []" "d_dict (documents ?v c) = []"
    using load_dict_read(3) [OF refl, of b a] load_dict_read(3) [OF refl, of c a] assms(4,5,7,8) by simp_all
  moreover have "\<forall>q\<in>set (d_dict (documents ?v a)). q < next_param ?v"
    using load_dict_read(1,2) [OF refl, of a "fl_dict f'" w] by simp
  moreover have "p_type (params ?v s1) = GEBR_GEOXML_PARAMETER_TYPE_GROUP" "p_type (params ?v s2) = GEBR_GEOXML_PARAMETER_TYPE_GROUP"
    unfolding parts(3,5) by (simp_all add: dict_separator_def)
  moreover have "\<forall>q\<in>set (own @ lr @ pr). is_variable (params ?v q)" using o by auto
  ultimately obtain w' where "gebr_geoxml_document_split_dict a [b, c] ?v = (True, w')"
    "variables a w' = map (\<lambda>q. variable_of (params ?v q)) own" "variables b w' = map (\<lambda>q. variable_of (params ?v q)) lr"
    "variables c w' = map (\<lambda>q. variable_of (params ?v q)) pr"
    using split_dict_parts [OF parts(1) assms(4-6)] by blast
  then show ?thesis using ls ps o by auto
qed


definition named_variable :: param where
  "named_variable =
     \<lparr>p_name = ''dt'', p_type = GEBR_GEOXML_PARAMETER_TYPE_FLOAT, p_values = [''0.004''], p_sep = None, p_required = True,
      p_label = ''Sampling'', p_doc = 0, p_dict = True, p_for = False\<rparr>"

definition named_flow :: xflow where
  "named_flow =
     \<lparr>fl_progs = [], fl_input = [], fl_output = [], fl_errfile = [], fl_output_append = [], fl_error_append = [],
      fl_dict = [named_variable], fl_revisions = [], fl_parent = [], fl_categories = [], fl_help = [], fl_doc = 0\<rparr>"

theorem dictionaries_round_trip_witness:
  "\<exists>(f' :: xflow) w'. fl_dict f' = [named_variable, dict_separator 0, dict_separator 0] \<and>
     gebr_geoxml_document_split_dict 0 [1, 2] (load_dict 0 (fl_dict f') blank_validator) = (True, w') \<and>
     variables 0 w' = [(''dt'', GEBR_GEOXML_PARAMETER_TYPE_FLOAT, ''0.004'', ''Sampling'')] \<and> variables 1 w' = []"
proof -
  let ?f = "named_flow\<lparr>fl_dict := [named_variable, dict_separator 0, dict_separator 0]\<rparr>"
  have merged: "gebr_geoxml_document_merge_dicts (\<lambda>_. 0) (\<lambda>_ _ v. Inr (True, v)) named_flow [Some 1, Some 2] blank_validator =
      Inr (?f, blank_validator)"
    by (simp add: named_flow_def blank_validator_def)
  have "list_all (\<lambda>pa. is_variable pa \<or> pa = dict_separator (fl_doc named_flow)) (fl_dict ?f)"
    "list_all is_variable (fl_dict named_flow)"
    by (simp_all add: named_flow_def named_variable_def is_variable_def)
  moreover have "d_dict (documents blank_validator e) = []" for e by (simp add: blank_validator_def)
  ultimately obtain ls u w' where "copy_dict (\<lambda>_. 0) (\<lambda>_ _ v. Inr (True, v)) (fl_doc named_flow)
      (d_dict (documents blank_validator 1)) blank_validator = Inr (ls, u)"
    "gebr_geoxml_document_split_dict 0 [1, 2] (load_dict 0 (fl_dict ?f) blank_validator) = (True, w')"
    "variables 0 w' = map variable_of (fl_dict named_flow)" "variables 1 w' = map variable_of ls"
    using dictionaries_round_trip [OF merged, of 0 1 2 blank_validator] by auto
  moreover from this(1) have "ls = []" by (simp add: blank_validator_def)
  ultimately show ?thesis
    by (intro exI [of _ ?f] exI [of _ w']) (simp add: named_flow_def named_variable_def variable_of_def)
qed

end
