(* ===== verification/Gebrd_Job.thy ===== *)
theory Gebrd_Job
  imports Gebrd_Pipe Geoxml_Dict Comm_Job Comm_Protocol Utils
begin

text \<open>
  The jobs of the daemon of a machine (\<open>gebrd/gebrd-job.c\<close>): how a request becomes a job and a process, the status of a
  job, its output, and the messages that the maestro gets, for the machine alone and for a MOAB cluster.
\<close>

section \<open>State\<close>

type_synonym gjob_ref = nat

text \<open>\<open>GebrdJob\<close>, with the members of \<open>GebrCommJob\<close> that the daemon uses.\<close>

record gjob =
  gj_jid :: string
  gj_run_id :: string
  gj_gid :: string
  gj_frac :: string
  gj_title :: string
  gj_issues :: string
  gj_cmd :: string
  gj_moab_jid :: string
  gj_queue_id :: string
  gj_account :: string
  gj_output :: string
  gj_start_date :: string
  gj_finish_date :: string
  gj_status :: comm_job_status
  gj_critical :: bool
  gj_user_finished :: bool
  gj_children :: "gjob_ref list"
  gj_tail :: bool
  gj_buf :: "bool \<Rightarrow> string"
  gj_timeout :: "bool \<Rightarrow> int"
  gj_progs :: "cmd_prog list option"

text \<open>
  What is asked of processes, and what is sent to the maestro: a message, or the answer to one. \<open>Start\<close> is a process that
  was forked for a command line, \<open>NoStart\<close> one that could not be forked. \<open>Authorize\<close> is a run of \<open>xauth\<close>, \<open>Drop\<close> frees the
  connection.
\<close>

datatype gebrd_event =
    Start gjob_ref string
  | NoStart gjob_ref string
  | CloseStdin gjob_ref
  | Terminate gjob_ref
  | KillProcess gjob_ref
  | Tail gjob_ref string
  | StopTail gjob_ref
  | Poll gjob_ref
  | Free gjob_ref
  | Send message_def "string list"
  | Return message_def "cstr list"
  | Authorize string string
  | Drop
  | Quit

text \<open>
  The daemon: the list of the user's jobs, the objects, the displays by group, the flavors of MPI, the validator with
  the documents it reads (\<open>gebrd->flow\<close>, \<open>line\<close>, \<open>proj\<close>), and the events.
\<close>

record gebrd =
  gd_jobs :: "gjob_ref list"
  gd_objs :: "gjob_ref \<Rightarrow> gjob"
  gd_next :: gjob_ref
  gd_displays :: "string \<Rightarrow> cstr"
  gd_flavors :: "mpi_config list"
  gd_valid :: validator
  gd_next_doc :: doc_ref
  gd_events :: "gebrd_event list"

text \<open>The result of a command that is run to its end: failure to start, or its output and its errors.\<close>

datatype spawned = SpawnFailed | Spawned string string

text \<open>
  What comes from elsewhere: the time, the kind of the machine, the file of X authority, the programs that are found,
  the results of the MOAB commands, the conversion of a text that is not UTF-8 and the one to the encoding of file names
  (\<open>g_filename_from_utf8\<close>; \<open>None\<close> is NULL), the jobs for whose processes \<open>fork\<close> succeeds, the loader of flows (with
  the code of its error as a message), and the parts of \<open>cmd_env\<close>.
\<close>

record gebrd_env =
  ge_now :: string
  ge_moab :: bool
  ge_xauth :: string
  ge_in_path :: "string \<Rightarrow> bool"
  ge_spawn :: "string \<Rightarrow> spawned"
  ge_utf8 :: "string \<Rightarrow> bool"
  ge_to_utf8 :: "string \<Rightarrow> cstr"
  ge_filename :: "string \<Rightarrow> cstr"
  ge_forks :: "gjob_ref \<Rightarrow> bool"
  ge_load :: "string \<Rightarrow> string + string \<times> xflow \<times> cmd_prog list \<times> param list"
  ge_cmd :: cmd_env

definition event :: "gebrd_event \<Rightarrow> gebrd \<Rightarrow> gebrd" where
  "event e w = w\<lparr>gd_events := gd_events w @ [e]\<rparr>"

definition upd_job :: "gjob_ref \<Rightarrow> (gjob \<Rightarrow> gjob) \<Rightarrow> gebrd \<Rightarrow> gebrd" where
  "upd_job j f w = w\<lparr>gd_objs := (gd_objs w)(j := f (gd_objs w j))\<rparr>"

section \<open>Status\<close>

definition job_find :: "string \<Rightarrow> gebrd \<Rightarrow> gjob_ref option" where
  "job_find rid w = find (\<lambda>j. gj_run_id (gd_objs w j) = rid) (gd_jobs w)"

definition gebrd_job_get_parent :: "gjob_ref \<Rightarrow> gebrd \<Rightarrow> gjob_ref option" where
  "gebrd_job_get_parent j w =
     (if gj_queue_id (gd_objs w j) = [] then None else job_find (gj_queue_id (gd_objs w j)) w)"

definition final :: "comm_job_status \<Rightarrow> bool" where
  "final s \<longleftrightarrow> s = JOB_STATUS_FINISHED \<or> s = JOB_STATUS_CANCELED \<or> s = JOB_STATUS_FAILED"

text \<open>
  The children of a job are started or handed to its parent when it ends. \<open>run\<close> is \<open>job_run_flow\<close>, which itself
  changes the status; \<open>None\<close> is a crash, or too little fuel below.
\<close>

definition gebrd_job_append_with ::
    "(gjob_ref \<Rightarrow> gebrd \<Rightarrow> gebrd option) \<Rightarrow> gjob_ref \<Rightarrow> gjob_ref \<Rightarrow> gebrd \<Rightarrow> gebrd option" where
  "gebrd_job_append_with run p c w =
     (if final (gj_status (gd_objs w p)) then run c w
      else Some (upd_job p (\<lambda>g. g\<lparr>gj_children := c # gj_children g\<rparr>) w))"

fun each_child :: "(gjob_ref \<Rightarrow> gebrd \<Rightarrow> gebrd option) \<Rightarrow> gjob_ref list \<Rightarrow> gebrd \<Rightarrow> gebrd option" where
  "each_child f [] w = Some w"
| "each_child f (c # cs) w = Option.bind (f c w) (each_child f cs)"

definition job_status_set_with ::
    "(gjob_ref \<Rightarrow> gebrd \<Rightarrow> gebrd option) \<Rightarrow> gjob_ref \<Rightarrow> comm_job_status \<Rightarrow> gebrd \<Rightarrow> gebrd option" where
  "job_status_set_with run j st w =
     (if gj_status (gd_objs w j) = st \<or> st = JOB_STATUS_REQUEUED \<or> st = JOB_STATUS_ISSUED then Some w
      else
        (let w = upd_job j (\<lambda>g. g\<lparr>gj_status := st\<rparr>) w in
         if final st
         then map_option (upd_job j (\<lambda>g. g\<lparr>gj_children := []\<rparr>))
           (each_child
              (case gebrd_job_get_parent j w of None \<Rightarrow> run | Some p \<Rightarrow> gebrd_job_append_with run p)
              (gj_children (gd_objs w j)) w)
         else Some w))"

text \<open>The array \<open>enum_to_string\<close> of this file.\<close>

fun status_enum_to_string :: "comm_job_status \<Rightarrow> string" where
  "status_enum_to_string JOB_STATUS_INITIAL = ''unknown''"
| "status_enum_to_string JOB_STATUS_QUEUED = ''queued''"
| "status_enum_to_string JOB_STATUS_FAILED = ''failed''"
| "status_enum_to_string JOB_STATUS_RUNNING = ''running''"
| "status_enum_to_string JOB_STATUS_FINISHED = ''finished''"
| "status_enum_to_string JOB_STATUS_CANCELED = ''canceled''"
| "status_enum_to_string JOB_STATUS_REQUEUED = ''requeued''"
| "status_enum_to_string JOB_STATUS_ISSUED = ''issued''"

text \<open>The parameter is used as a format.\<close>

definition job_status_notify_with ::
    "(gjob_ref \<Rightarrow> gebrd \<Rightarrow> gebrd option) \<Rightarrow> gjob_ref \<Rightarrow> comm_job_status \<Rightarrow> string \<Rightarrow> gebrd \<Rightarrow> gebrd option" where
  "job_status_notify_with run j st par w =
     Option.bind (plain_format par) (\<lambda>par.
     map_option
       (\<lambda>w. let g = gd_objs w j in event (Send sta_def [gj_jid g, status_enum_to_string st, par, gj_run_id g, gj_frac g]) w)
       (job_status_set_with run j st w))"

text \<open>An issue is told to the maestro once the job has been started; its text is used as a format then.\<close>

definition job_issue_with :: "(gjob_ref \<Rightarrow> gebrd \<Rightarrow> gebrd option) \<Rightarrow> gjob_ref \<Rightarrow> string \<Rightarrow> gebrd \<Rightarrow> gebrd option" where
  "job_issue_with run j msg w =
     (let w = upd_job j (\<lambda>g. g\<lparr>gj_issues := gj_issues g @ msg\<rparr>) w in
      if gj_status (gd_objs w j) \<noteq> JOB_STATUS_INITIAL then job_status_notify_with run j JOB_STATUS_ISSUED msg w
      else Some w)"

section \<open>Starting\<close>

definition bash_command :: "string \<Rightarrow> string" where
  "bash_command script = ''bash -l -c '' @ g_shell_quote script"

text \<open>
  The script for \<open>bash\<close>: the command line in the encoding of file names. When the conversion fails, NULL is appended to
  the variables of the display, which appends nothing; without a display NULL is quoted and printed: \<open>None\<close>, no meaning.
\<close>

definition job_script :: "gebrd_env \<Rightarrow> gjob \<Rightarrow> gebrd \<Rightarrow> cstr" where
  "job_script env g w =
     (let localized = ge_filename env (gj_cmd g) in
      case gd_displays w (gj_gid g) of
        None \<Rightarrow> localized
      | Some display \<Rightarrow>
          Some (''export DISPLAY='' @ display @ ''; export XAUTHORITY='' @ ge_xauth env @ ''; '' @ nonempty_or [] localized))"

text \<open>\<open>sscanf\<close> with \<open>%u\<close>.\<close>

definition scan_unsigned :: "string \<Rightarrow> nat" where
  "scan_unsigned s = nat (strtol10 s mod 2 ^ 32)"

definition submit_command :: "gjob \<Rightarrow> string \<Rightarrow> string" where
  "submit_command g cmd =
     bash_command (''echo '' @ g_shell_quote cmd @ '' | msub -A '' @ [CHR 0x27] @ gj_account g @ [CHR 0x27] @ '' -q '' @
       [CHR 0x27] @ gj_queue_id g @ [CHR 0x27] @ '' -k oe -j oe'')"

definition tail_command :: "string \<Rightarrow> string" where
  "tail_command mjid =
     ''bash -c '' @ in_quotes (''touch $HOME/STDIN.o'' @ mjid @ ''; tail -f $HOME/STDIN.o'' @ mjid)"

text \<open>The issue with which a submission to MOAB fails, or the identifier that MOAB gave.\<close>

definition submit :: "gebrd_env \<Rightarrow> gjob \<Rightarrow> string \<Rightarrow> string + string" where
  "submit env g cmd =
     (if \<not> ge_in_path env ''msub'' then Inl (''Cannot submit job to MOAB server (msub command is not available).'' @ [NL])
      else
        (case ge_spawn env (submit_command g cmd) of
           SpawnFailed \<Rightarrow> Inl (''Cannot submit job to MOAB server.'' @ [NL])
         | Spawned out err \<Rightarrow>
             if err \<noteq> [] then Inl (''Cannot submit job to MOAB server: '' @ err @ ''.'' @ [NL])
             else if scan_unsigned out = 0 then Inl (''Cannot get MOAB job id.'' @ [NL])
             else Inr (show_nat (scan_unsigned out))))"

definition job_failed_with :: "(gjob_ref \<Rightarrow> gebrd \<Rightarrow> gebrd option) \<Rightarrow> gebrd_env \<Rightarrow> gjob_ref \<Rightarrow> gebrd \<Rightarrow> gebrd option" where
  "job_failed_with run env j w = job_status_notify_with run j JOB_STATUS_FAILED (ge_now env) w"

text \<open>
  \<open>gebr_comm_process_start\<close>: \<open>fork\<close> succeeds or not; the callers do not ask. A process that does not run has no input
  that could be closed (\<open>gebr_comm_process_close_stdin\<close>). For a flow that was accepted there is a first program.
\<close>

definition start_process :: "gebrd_env \<Rightarrow> gjob_ref \<Rightarrow> gebrd_event \<Rightarrow> gebrd_event \<Rightarrow> gebrd \<Rightarrow> gebrd" where
  "start_process env j ok no w = event (if ge_forks env j then ok else no) w"

definition close_input :: "gebrd_env \<Rightarrow> gjob_ref \<Rightarrow> gjob \<Rightarrow> gebrd \<Rightarrow> gebrd" where
  "close_input env j g w =
     (case gj_progs g of
        Some (p # _) \<Rightarrow>
          if gebr_geoxml_program_get_stdin (cp_prog p) \<or> \<not> ge_forks env j then w else event (CloseStdin j) w
      | _ \<Rightarrow> w)"

text \<open>\<open>job_run_flow\<close> over the routine that starts the children of a job that ends.\<close>

definition run_flow_with :: "(gjob_ref \<Rightarrow> gebrd \<Rightarrow> gebrd option) \<Rightarrow> gebrd_env \<Rightarrow> gjob_ref \<Rightarrow> gebrd \<Rightarrow> gebrd option" where
  "run_flow_with run env j w =
     (let g = gd_objs w j in
      if gj_critical g then job_failed_with run env j w
      else
        (case job_script env g w of
           None \<Rightarrow> None
         | Some script \<Rightarrow>
             (let cmd = bash_command script in
              if ge_moab env then
                (case submit env g cmd of
                   Inl msg \<Rightarrow> Option.bind (job_issue_with run j msg w) (job_failed_with run env j)
                 | Inr mjid \<Rightarrow>
                     Some (event (Poll j) (start_process env j (Tail j (tail_command mjid)) (NoStart j (tail_command mjid))
                       (upd_job j (\<lambda>g. g\<lparr>gj_moab_jid := mjid, gj_tail := True\<rparr>) w))))
              else
                map_option
                  (\<lambda>w. close_input env j g (start_process env j (Start j cmd) (NoStart j cmd) w))
                  (job_status_notify_with run j JOB_STATUS_RUNNING (ge_now env)
                    (upd_job j (\<lambda>g. g\<lparr>gj_start_date := ge_now env\<rparr>) w)))))"

text \<open>The depth of the recursion is bounded by \<open>n\<close>: a job whose start fails ends, and starts its children.\<close>

fun job_run_flow :: "nat \<Rightarrow> gebrd_env \<Rightarrow> gjob_ref \<Rightarrow> gebrd \<Rightarrow> gebrd option" where
  "job_run_flow 0 env j w = None"
| "job_run_flow (Suc n) env j w = run_flow_with (job_run_flow n env) env j w"

definition job_status_set :: "nat \<Rightarrow> gebrd_env \<Rightarrow> gjob_ref \<Rightarrow> comm_job_status \<Rightarrow> gebrd \<Rightarrow> gebrd option" where
  "job_status_set n env = job_status_set_with (job_run_flow n env)"

definition gebrd_job_append :: "nat \<Rightarrow> gebrd_env \<Rightarrow> gjob_ref \<Rightarrow> gjob_ref \<Rightarrow> gebrd \<Rightarrow> gebrd option" where
  "gebrd_job_append n env = gebrd_job_append_with (job_run_flow n env)"

definition job_status_notify :: "nat \<Rightarrow> gebrd_env \<Rightarrow> gjob_ref \<Rightarrow> comm_job_status \<Rightarrow> string \<Rightarrow> gebrd \<Rightarrow> gebrd option" where
  "job_status_notify n env = job_status_notify_with (job_run_flow n env)"

definition job_issue :: "nat \<Rightarrow> gebrd_env \<Rightarrow> gjob_ref \<Rightarrow> string \<Rightarrow> gebrd \<Rightarrow> gebrd option" where
  "job_issue n env = job_issue_with (job_run_flow n env)"


section \<open>Output\<close>

definition job_send_clients_output :: "gjob_ref \<Rightarrow> string \<Rightarrow> gebrd \<Rightarrow> gebrd" where
  "job_send_clients_output j out w =
     (let g = gd_objs w j in
      if gj_jid g = [] then w else event (Send out_def [gj_jid g, out, gj_run_id g, gj_frac g]) w)"

text \<open>A text that cannot be converted to UTF-8 is replaced by the empty text.\<close>

definition job_process_add_output :: "gebrd_env \<Rightarrow> gjob_ref \<Rightarrow> string \<Rightarrow> gebrd \<Rightarrow> gebrd" where
  "job_process_add_output env j out w =
     (let out = (if ge_utf8 env out then out else (case ge_to_utf8 env out of None \<Rightarrow> [] | Some x \<Rightarrow> x))
      in job_send_clients_output j out (upd_job j (\<lambda>g. g\<lparr>gj_output := gj_output g @ out\<rparr>) w))"

text \<open>\<open>b\<close> tells the buffer (of the errors or of the output), \<open>now\<close> is the time in seconds; the timeout is 0.\<close>

definition append_output_and_send :: "gebrd_env \<Rightarrow> int \<Rightarrow> gjob_ref \<Rightarrow> string \<Rightarrow> bool \<Rightarrow> gebrd \<Rightarrow> gebrd" where
  "append_output_and_send env now j out b w =
     (let w = upd_job j (\<lambda>g. g\<lparr>gj_buf := (gj_buf g)(b := gj_buf g b @ out)\<rparr>) w; g = gd_objs w j in
      if now - gj_timeout g b \<ge> 0
      then upd_job j (\<lambda>g. g\<lparr>gj_buf := (gj_buf g)(b := []), gj_timeout := (gj_timeout g)(b := now)\<rparr>)
             (job_process_add_output env j (gj_buf g b) w)
      else w)"

section \<open>Ends\<close>

text \<open>\<open>rest\<close> is what the file of the output of a MOAB job still has.\<close>

definition job_status_notify_finished :: "nat \<Rightarrow> gebrd_env \<Rightarrow> cstr \<Rightarrow> gjob_ref \<Rightarrow> gebrd \<Rightarrow> gebrd option" where
  "job_status_notify_finished n env rest j w =
     (let st = (if gj_user_finished (gd_objs w j) then JOB_STATUS_CANCELED else JOB_STATUS_FINISHED) in
      if gj_status (gd_objs w j) = st then Some w
      else
        (let w = (if \<not> ge_moab env then w
                  else
                    (let w = (if gj_tail (gd_objs w j) then event (StopTail j) (upd_job j (\<lambda>g. g\<lparr>gj_tail := False\<rparr>) w) else w)
                     in case rest of
                          None \<Rightarrow> w
                        | Some x \<Rightarrow> if x = [] then w else job_process_add_output env j x w));
             w = upd_job j (\<lambda>g. g\<lparr>gj_finish_date := ge_now env\<rparr>) w
         in job_status_notify n env j st (ge_now env) w))"

text \<open>The wait status holds the exit code in its second byte, and the number of a signal in its first.\<close>

definition wexitstatus :: "nat \<Rightarrow> nat" where
  "wexitstatus status = status div 256 mod 256"

definition job_process_finished :: "nat \<Rightarrow> gebrd_env \<Rightarrow> nat \<Rightarrow> gjob_ref \<Rightarrow> gebrd \<Rightarrow> gebrd option" where
  "job_process_finished n env status j w =
     (if wexitstatus status = 0 then job_status_notify_finished n env None j w
      else job_status_notify n env j JOB_STATUS_FAILED (ge_now env) w)"

text \<open>The answer of \<open>checkjob\<close>: the command fails, there is no XML, it is an error, it is of another form, or data.\<close>

datatype checkjob =
    CheckFailed
  | CheckNoXml
  | CheckError string cstr
  | CheckMalformed
  | CheckData string string string string

definition check_error :: "checkjob \<Rightarrow> cstr" where
  "check_error a =
     (case a of
        CheckFailed \<Rightarrow> Some (''Moab'' @ [CHR 0x27] @ ''s job status could not be retrieved.'' @ [NL])
      | CheckMalformed \<Rightarrow> Some (''Moab'' @ [CHR 0x27] @ ''s job status could not be retrieved.'' @ [NL])
      | CheckError num (Some val) \<Rightarrow>
          Some (''Moab'' @ [CHR 0x27] @ ''s job status could not be returned with error code '' @ num @ '' ('' @ val @ '').'' @ [NL])
      | _ \<Rightarrow> None)"

definition completion_error :: "string \<Rightarrow> string \<Rightarrow> string" where
  "completion_error compl nodes =
     (if atoi compl < 0
      then ''Moab'' @ [CHR 0x27] @ ''s job returned status code '' @ show_int (atoi compl) @ '' allocatted on nodes '' @
           quoted nodes @ ''.'' @ [NL]
      else ''Process exited with status code '' @ show_int (atoi compl) @ ''.'' @ [NL])"

text \<open>Whether the polling goes on.\<close>

definition job_moab_checkjob_pooling ::
    "nat \<Rightarrow> gebrd_env \<Rightarrow> checkjob \<Rightarrow> cstr \<Rightarrow> gjob_ref \<Rightarrow> gebrd \<Rightarrow> (bool \<times> gebrd) option" where
  "job_moab_checkjob_pooling n env a rest j w =
     (let failed = (\<lambda>w. map_option (Pair False) (job_status_notify n env j JOB_STATUS_FAILED (ge_now env) w)) in
      case a of
        CheckData queue compl nodes estate \<Rightarrow>
          Option.bind
            (if gj_queue_id (gd_objs w j) \<noteq> queue
             then job_status_notify n env j JOB_STATUS_REQUEUED queue (upd_job j (\<lambda>g. g\<lparr>gj_queue_id := queue\<rparr>) w)
             else Some w)
            (\<lambda>w.
               if compl \<noteq> [] then Option.bind (job_issue n env j (completion_error compl nodes) w) failed
               else if estate = ''Completed'' then map_option (Pair False) (job_status_notify_finished n env rest j w)
               else if estate = ''Running'' \<and> gj_status (gd_objs w j) \<noteq> JOB_STATUS_RUNNING
               then map_option (Pair True)
                      (job_status_notify n env j JOB_STATUS_RUNNING (ge_now env)
                        (upd_job j (\<lambda>g. g\<lparr>gj_start_date := ge_now env\<rparr>) w))
               else Some (True, w))
      | _ \<Rightarrow>
          Option.bind (case check_error a of None \<Rightarrow> Some w | Some msg \<Rightarrow> job_issue n env j msg w) failed)"

section \<open>Requests of the maestro\<close>

definition job_free :: "gjob_ref \<Rightarrow> gebrd \<Rightarrow> gebrd" where
  "job_free j w = event (Free j) (w\<lparr>gd_jobs := remove1 j (gd_jobs w)\<rparr>)"

definition job_clear :: "gjob_ref \<Rightarrow> gebrd \<Rightarrow> gebrd" where
  "job_clear j w =
     (if gj_status (gd_objs w j) = JOB_STATUS_RUNNING \<or> gj_status (gd_objs w j) = JOB_STATUS_QUEUED then w else job_free j w)"

definition job_send_signal_on_moab :: "nat \<Rightarrow> gebrd_env \<Rightarrow> string \<Rightarrow> gjob_ref \<Rightarrow> gebrd \<Rightarrow> gebrd option" where
  "job_send_signal_on_moab n env sig j w =
     (let failed = job_issue n env j (''Cannot cancel job at MOAB server.'' @ [NL]) w in
      case ge_spawn env (''mjobctl -M signal='' @ sig @ '' '' @ gj_moab_jid (gd_objs w j)) of
        SpawnFailed \<Rightarrow> failed
      | Spawned out err \<Rightarrow>
          if err \<noteq> [] then failed
          else Some (if gj_status (gd_objs w j) \<noteq> JOB_STATUS_QUEUED then upd_job j (\<lambda>g. g\<lparr>gj_user_finished := True\<rparr>) w else w))"

definition stop_job :: "nat \<Rightarrow> gebrd_env \<Rightarrow> gebrd_event \<Rightarrow> string \<Rightarrow> gjob_ref \<Rightarrow> gebrd \<Rightarrow> gebrd option" where
  "stop_job n env e sig j w =
     (if ge_moab env then job_send_signal_on_moab n env sig j w
      else if gj_status (gd_objs w j) = JOB_STATUS_QUEUED
      then job_status_notify n env j JOB_STATUS_CANCELED (ge_now env) (upd_job j (\<lambda>g. g\<lparr>gj_finish_date := ge_now env\<rparr>) w)
      else Some (event e (upd_job j (\<lambda>g. g\<lparr>gj_user_finished := True\<rparr>) w)))"

definition job_end :: "nat \<Rightarrow> gebrd_env \<Rightarrow> gjob_ref \<Rightarrow> gebrd \<Rightarrow> gebrd option" where
  "job_end n env j = stop_job n env (Terminate j) ''SIGTERM'' j"

definition job_kill :: "nat \<Rightarrow> gebrd_env \<Rightarrow> gjob_ref \<Rightarrow> gebrd \<Rightarrow> gebrd option" where
  "job_kill n env j = stop_job n env (KillProcess j) ''SIGKILL'' j"

definition job_notify :: "gjob_ref \<Rightarrow> gebrd \<Rightarrow> gebrd" where
  "job_notify j w =
     (let g = gd_objs w j in event (Send tsk_def [gj_run_id g, gj_frac g, gj_issues g, gj_cmd g, gj_moab_jid g]) w)"

definition job_list :: "gebrd \<Rightarrow> gebrd" where
  "job_list w = fold job_notify (gd_jobs w) w"

definition job_has_running_jobs :: "gebrd \<Rightarrow> bool" where
  "job_has_running_jobs w \<longleftrightarrow> list_ex (\<lambda>j. gj_status (gd_objs w j) = JOB_STATUS_RUNNING) (gd_jobs w)"

section \<open>New jobs\<close>

text \<open>
  The machines of each flavor of MPI. An empty entry, as between two semicolons, is a vector without elements behind
  whose end the loop reads: \<open>None\<close>.
\<close>

fun add_host :: "string \<Rightarrow> string list \<Rightarrow> (string \<Rightarrow> string list) \<Rightarrow> string \<Rightarrow> string list" where
  "add_host host [] m = m"
| "add_host host (fl # fls) m = add_host host fls (m(fl := m fl @ [host]))"

fun add_hosts :: "string list \<Rightarrow> (string \<Rightarrow> string list) \<Rightarrow> (string \<Rightarrow> string list) option" where
  "add_hosts [] m = Some m"
| "add_hosts (e # es) m =
     (case g_strsplit e '','' (-1) of [] \<Rightarrow> None | host # fls \<Rightarrow> add_hosts es (add_host host fls m))"

definition parse_mpi_servers :: "string \<Rightarrow> (string \<Rightarrow> string list) option" where
  "parse_mpi_servers s = add_hosts (g_strsplit s '';'' (-1)) (\<lambda>_. [])"

text \<open>The arguments of the message, and the identifier that \<open>gebr_comm_job\<close> generates.\<close>

record run_request =
  rq_gid :: string
  rq_id :: string
  rq_frac :: string
  rq_numproc :: string
  rq_nice :: string
  rq_flow :: string
  rq_paths :: string
  rq_account :: string
  rq_mpi :: string

definition new_gjob :: "string \<Rightarrow> run_request \<Rightarrow> gjob" where
  "new_gjob jid rq =
     \<lparr>gj_jid = jid, gj_run_id = rq_id rq, gj_gid = rq_gid rq, gj_frac = rq_frac rq, gj_title = [], gj_issues = [], gj_cmd = [],
      gj_moab_jid = [], gj_queue_id = [], gj_account = rq_account rq, gj_output = [], gj_start_date = [], gj_finish_date = [],
      gj_status = JOB_STATUS_INITIAL, gj_critical = False, gj_user_finished = False, gj_children = [], gj_tail = False,
      gj_buf = (\<lambda>_. []), gj_timeout = (\<lambda>_. 0), gj_progs = None\<rparr>"

definition append_job :: "string \<Rightarrow> run_request \<Rightarrow> gebrd \<Rightarrow> gjob_ref \<times> gebrd" where
  "append_job jid rq w =
     (let j = gd_next w in
      (j, w\<lparr>gd_objs := (gd_objs w)(j := new_gjob jid rq), gd_next := j + 1, gd_jobs := gd_jobs w @ [j]\<rparr>))"

text \<open>The documents that the validator reads: the flow, with its dictionary, and a new line and project.\<close>

definition open_documents :: "doc_ref \<Rightarrow> param list \<Rightarrow> validator \<Rightarrow> validator" where
  "open_documents d dict v =
     (let v = v\<lparr>documents := (documents v)(d := \<lparr>d_type = FLOW, d_dict = [], d_paths = []\<rparr>,
                                          d + 1 := \<lparr>d_type = LINE, d_dict = [], d_paths = []\<rparr>,
                                          d + 2 := \<lparr>d_type = PROJECT, d_dict = [], d_paths = []\<rparr>),
                doc_vars := (doc_vars v)(0 \<mapsto> d, 1 \<mapsto> d + 1, 2 \<mapsto> d + 2)\<rparr>
      in snd (gebr_geoxml_document_split_dict d [d + 1, d + 2] (load_dict d dict v)))"

definition job_spec_of :: "run_request \<Rightarrow> (string \<Rightarrow> string list) \<Rightarrow> xflow \<Rightarrow> cmd_prog list \<Rightarrow> doc_ref \<Rightarrow> job_spec" where
  "job_spec_of rq m f ps d =
     \<lparr>js_flow = f, js_progs = ps, js_docs = (d + 2, d + 1, d), js_numproc = c_atoi (rq_numproc rq),
      js_niceness = (if rq_nice rq = ''0'' then 0 else 19), js_paths = rq_paths rq, js_mpi_servers = m\<rparr>"

text \<open>\<open>None\<close> is a crash.\<close>

definition job_new :: "gebrd_env \<Rightarrow> string \<Rightarrow> run_request \<Rightarrow> gebrd \<Rightarrow> (gjob_ref \<times> gebrd) option" where
  "job_new env jid rq w =
     Option.bind (parse_mpi_servers (rq_mpi rq)) (\<lambda>m.
       let (j, w) = append_job jid rq w; ce = ge_cmd env in
       case ge_load env (rq_flow rq) of
         Inl msg \<Rightarrow>
           map_option
             (\<lambda>msg. (j, upd_job j (\<lambda>g. g\<lparr>gj_issues := gj_issues g @ msg, gj_critical := True\<rparr>)
                (w\<lparr>gd_valid := (gd_valid w)\<lparr>doc_vars := (doc_vars (gd_valid w))(0 := None)\<rparr>\<rparr>)))
             (plain_format msg)
       | Inr (title, f, ps, dict) \<Rightarrow>
           (let d = gd_next_doc w; v = open_documents d dict (gd_valid w) in
            case vthen (gebr_validator_update (ce_strtod ce) (ce_upd ce) v) (\<lambda>_.
                   job_assembly_cmdline (ce\<lparr>ce_flavors := gd_flavors w\<rparr>) (job_spec_of rq m f ps d) []) of
              Inl _ \<Rightarrow> None
            | Inr ((cmd, iss), v) \<Rightarrow>
                Some (j, upd_job j
                  (\<lambda>g. g\<lparr>gj_title := title, gj_issues := iss, gj_cmd := (case cmd of None \<Rightarrow> [] | Some x \<Rightarrow> x),
                         gj_critical := (cmd = None), gj_progs := Some ps\<rparr>)
                  (w\<lparr>gd_valid := v, gd_next_doc := d + 3\<rparr>))))"

text \<open>The message \<open>run\<close>: on a machine alone the maestro hears of the task before it starts, on a cluster behind.\<close>

definition client_run :: "nat \<Rightarrow> gebrd_env \<Rightarrow> string \<Rightarrow> run_request \<Rightarrow> gebrd \<Rightarrow> gebrd option" where
  "client_run n env jid rq w =
     Option.bind (job_new env jid rq w) (\<lambda>(j, w).
       if ge_moab env then map_option (job_notify j) (job_run_flow n env j w)
       else job_run_flow n env j (job_notify j w))"

text \<open>\<open>gebrd_quit\<close>: every job that is still listed fails, whatever its status.\<close>

definition gebrd_quit :: "nat \<Rightarrow> gebrd_env \<Rightarrow> gebrd \<Rightarrow> gebrd option" where
  "gebrd_quit n env w =
     map_option (event Quit) (each_child (\<lambda>j. job_status_notify n env j JOB_STATUS_FAILED (ge_now env)) (gd_jobs w) w)"

definition on_job :: "string \<Rightarrow> (gjob_ref \<Rightarrow> gebrd \<Rightarrow> gebrd option) \<Rightarrow> gebrd \<Rightarrow> gebrd option" where
  "on_job rid f w = (case job_find rid w of None \<Rightarrow> Some w | Some j \<Rightarrow> f j w)"

end

