(* ===== verification/Gebrd_Life.thy ===== *)
theory Gebrd_Life
  imports Gebrd_Job Gebrm_Task
begin

text \<open>
  What the jobs of a daemon go through: no job ever has children, so that the recursion of \<open>job_run_flow\<close> ends at once; a
  process is started with the assembled script as one argument; on a machine alone the job of a running
  process is kept until the process ends, and every end is told to the maestro.
\<close>

section \<open>Jobs without children\<close>

definition childless :: "gebrd \<Rightarrow> bool" where
  "childless w \<longleftrightarrow> (\<forall>j. gj_children (gd_objs w j) = [])"

definition with_status :: "gjob_ref \<Rightarrow> comm_job_status \<Rightarrow> gebrd \<Rightarrow> gebrd" where
  "with_status j st w =
     (if gj_status (gd_objs w j) = st \<or> st = JOB_STATUS_REQUEUED \<or> st = JOB_STATUS_ISSUED then w
      else upd_job j (\<lambda>g. g\<lparr>gj_status := st\<rparr>) w)"

definition reported :: "gjob_ref \<Rightarrow> comm_job_status \<Rightarrow> string \<Rightarrow> gebrd \<Rightarrow> gebrd" where
  "reported j st par w =
     (let g = gd_objs w j in event (Send sta_def [gj_jid g, status_enum_to_string st, par, gj_run_id g, gj_frac g]) w)"

lemma upd_job_read [simp]:
  "gd_objs (upd_job j f w) = (gd_objs w)(j := f (gd_objs w j))" "gd_jobs (upd_job j f w) = gd_jobs w"
  "gd_next (upd_job j f w) = gd_next w" "gd_displays (upd_job j f w) = gd_displays w"
  "gd_events (upd_job j f w) = gd_events w" "gd_flavors (upd_job j f w) = gd_flavors w"
  by (simp_all add: upd_job_def)

lemma event_read [simp]:
  "gd_objs (event e w) = gd_objs w" "gd_jobs (event e w) = gd_jobs w" "gd_next (event e w) = gd_next w"
  "gd_displays (event e w) = gd_displays w" "gd_events (event e w) = gd_events w @ [e]" "gd_flavors (event e w) = gd_flavors w"
  by (simp_all add: event_def)

lemma no_children_update: "gj_children g = [] \<Longrightarrow> g\<lparr>gj_status := st, gj_children := []\<rparr> = g\<lparr>gj_status := st\<rparr>" for g :: gjob
  by (cases g) simp

lemma status_set_childless:
  assumes "gj_children (gd_objs w j) = []"
  shows "job_status_set_with run j st w = Some (with_status j st w)"
  using assms by (auto simp: job_status_set_with_def with_status_def Let_def upd_job_def no_children_update)

lemma notify_childless:
  assumes "gj_children (gd_objs w j) = []" "plain_format par = Some x"
  shows "job_status_notify_with run j st par w = Some (reported j st x (with_status j st w))"
  using assms by (simp add: job_status_notify_with_def status_set_childless reported_def)

lemma notify_conv:
  assumes "gj_children (gd_objs w j) = []"
  shows "job_status_notify_with run j st par w = map_option (\<lambda>x. reported j st x (with_status j st w)) (plain_format par)"
  using notify_childless [OF assms] by (cases "plain_format par") (simp_all add: job_status_notify_with_def)

lemma with_status_read [simp]:
  "gd_jobs (with_status j st w) = gd_jobs w" "gd_next (with_status j st w) = gd_next w"
  "gd_events (with_status j st w) = gd_events w" "gd_displays (with_status j st w) = gd_displays w"
  "k \<noteq> j \<Longrightarrow> gd_objs (with_status j st w) k = gd_objs w k"
  "gj_children (gd_objs (with_status j st w) k) = gj_children (gd_objs w k)"
  "gj_run_id (gd_objs (with_status j st w) k) = gj_run_id (gd_objs w k)"
  "gj_frac (gd_objs (with_status j st w) k) = gj_frac (gd_objs w k)"
  "gj_jid (gd_objs (with_status j st w) k) = gj_jid (gd_objs w k)"
  "gj_progs (gd_objs (with_status j st w) k) = gj_progs (gd_objs w k)"
  by (simp_all add: with_status_def)

lemma reported_read [simp]:
  "gd_objs (reported j st par w) = gd_objs w" "gd_jobs (reported j st par w) = gd_jobs w"
  "gd_next (reported j st par w) = gd_next w" "gd_displays (reported j st par w) = gd_displays w"
  by (simp_all add: reported_def Let_def)

lemma childless_with_status [simp]:
  "childless (with_status j st w) = childless w" "childless (reported j st par w) = childless w"
  "childless (event e w) = childless w"
  by (simp_all add: childless_def)

section \<open>Starting a job\<close>

lemma bash_command_words: "sh_words (bash_command script) = Some [''bash'', ''-l'', ''-c'', script]"
  using sh_words_word [of "''bash''" "''-l -c '' @ g_shell_quote script"]
    sh_words_word [of "''-l''" "''-c '' @ g_shell_quote script"] sh_words_word [of "''-c''" "g_shell_quote script"]
  by (simp add: bash_command_def sh_words_quote bare_char_def is_blank_def)

section \<open>A machine alone\<close>

text \<open>What a request to run changes, but for the new job itself.\<close>

lemma job_new_shape:
  assumes "job_new env jid rq w = Some (j, w')"
  shows "j = gd_next w \<and> gd_next w' = gd_next w + 1 \<and> gd_jobs w' = gd_jobs w @ [j] \<and> gd_events w' = gd_events w \<and>
     (\<forall>k. k \<noteq> j \<longrightarrow> gd_objs w' k = gd_objs w k) \<and> gj_children (gd_objs w' j) = [] \<and>
     gj_status (gd_objs w' j) = JOB_STATUS_INITIAL \<and> gj_run_id (gd_objs w' j) = rq_id rq \<and> gj_frac (gd_objs w' j) = rq_frac rq \<and>
     gj_jid (gd_objs w' j) = jid"
proof -
  obtain m where m: "parse_mpi_servers (rq_mpi rq) = Some m" using assms by (auto simp: job_new_def bind_eq_Some_conv)
  show ?thesis
  proof (cases "ge_load env (rq_flow rq)")
    case (Inl msg)
    then show ?thesis using assms m by (auto simp: job_new_def append_job_def Let_def new_gjob_def)
  next
    case (Inr y)
    obtain title f ps dict where y: "y = (title, f, ps, dict)" by (rule prod_cases4)
    let ?r = "vthen (gebr_validator_update (ce_strtod (ge_cmd env)) (ce_upd (ge_cmd env))
        (open_documents (gd_next_doc w) dict (gd_valid w)))
      (\<lambda>_. job_assembly_cmdline ((ge_cmd env)\<lparr>ce_flavors := gd_flavors w\<rparr>) (job_spec_of rq m f ps (gd_next_doc w)) [])"
    show ?thesis
    proof (cases ?r)
      case (Inl st)
      then show ?thesis using assms m Inr y by (simp add: job_new_def append_job_def Let_def)
    next
      case (Inr z)
      obtain cmd iss v where z: "z = ((cmd, iss), v)" by (cases z) auto
      show ?thesis
        using assms m \<open>ge_load env (rq_flow rq) = Inr y\<close> y Inr z
        by (auto simp: job_new_def append_job_def Let_def new_gjob_def)
    qed
  qed
qed

lemma run_flow_failed:
  assumes "childless w" "gj_critical (gd_objs w j)" "job_run_flow (Suc n) env j w = Some w'"
  shows "\<exists>now. plain_format (ge_now env) = Some now \<and> w' = reported j JOB_STATUS_FAILED now (with_status j JOB_STATUS_FAILED w)"
proof -
  have c: "gj_children (gd_objs w j) = []" using assms(1) by (simp add: childless_def)
  show ?thesis
    using assms(2,3) by (auto simp: run_flow_with_def job_failed_with_def notify_conv [OF c])
qed

lemma close_input_read [simp]:
  "gd_objs (close_input env j g w) = gd_objs w" "gd_jobs (close_input env j g w) = gd_jobs w"
  "gd_next (close_input env j g w) = gd_next w" "childless (close_input env j g w) = childless w"
  by (simp_all add: close_input_def childless_def split: option.splits list.splits)

lemma start_process_read [simp]:
  "gd_objs (start_process env j ok no w) = gd_objs w" "gd_jobs (start_process env j ok no w) = gd_jobs w"
  "gd_next (start_process env j ok no w) = gd_next w" "childless (start_process env j ok no w) = childless w"
  "gd_events (start_process env j ok no w) = gd_events w @ [if ge_forks env j then ok else no]"
  by (simp_all add: start_process_def childless_def)

lemma run_flow_conv:
  assumes "childless w" "\<not> gj_critical (gd_objs w j)" "\<not> ge_moab env"
  shows "job_run_flow (Suc n) env j w =
     Option.bind (job_script env (gd_objs w j) w) (\<lambda>script.
       map_option (\<lambda>now. close_input env j (gd_objs w j)
           (start_process env j (Start j (bash_command script)) (NoStart j (bash_command script))
             (reported j JOB_STATUS_RUNNING now (with_status j JOB_STATUS_RUNNING (upd_job j (\<lambda>g. g\<lparr>gj_start_date := ge_now env\<rparr>) w)))))
         (plain_format (ge_now env)))"
proof -
  have c: "gj_children (gd_objs (upd_job j (\<lambda>g. g\<lparr>gj_start_date := ge_now env\<rparr>) w) j) = []"
    using assms(1) by (simp add: childless_def)
  show ?thesis
    using assms(2,3) by (simp add: run_flow_with_def Let_def notify_conv [OF c] option.map_comp o_def split: option.split)
qed

lemma job_notify_read [simp]:
  "gd_objs (job_notify j w) = gd_objs w" "gd_jobs (job_notify j w) = gd_jobs w" "gd_next (job_notify j w) = gd_next w"
  "childless (job_notify j w) = childless w"
  by (simp_all add: job_notify_def Let_def)

lemma fold_notify_read: "gd_objs (fold job_notify js w) = gd_objs w \<and> gd_jobs (fold job_notify js w) = gd_jobs w \<and>
     gd_next (fold job_notify js w) = gd_next w"
  by (induction js arbitrary: w) simp_all

lemma add_output_read [simp]:
  "gd_jobs (job_process_add_output env j x w) = gd_jobs w" "gd_next (job_process_add_output env j x w) = gd_next w"
  "gj_status (gd_objs (job_process_add_output env j x w) k) = gj_status (gd_objs w k)"
  "gj_children (gd_objs (job_process_add_output env j x w) k) = gj_children (gd_objs w k)"
  by (simp_all add: job_process_add_output_def job_send_clients_output_def Let_def)

text \<open>The end of a process: the final status is set and told.\<close>

definition end_status :: "nat \<Rightarrow> gjob \<Rightarrow> comm_job_status" where
  "end_status st g =
     (if wexitstatus st \<noteq> 0 then JOB_STATUS_FAILED else if gj_user_finished g then JOB_STATUS_CANCELED else JOB_STATUS_FINISHED)"

lemma process_finished:
  assumes "childless w" "\<not> ge_moab env" "gj_status (gd_objs w j) = JOB_STATUS_RUNNING"
    and "job_process_finished n env st j w = Some w'"
  shows "\<exists>now w1. plain_format (ge_now env) = Some now \<and>
     w1 = (if wexitstatus st = 0 then upd_job j (\<lambda>g. g\<lparr>gj_finish_date := ge_now env\<rparr>) w else w) \<and>
     w' = reported j (end_status st (gd_objs w j)) now (with_status j (end_status st (gd_objs w j)) w1)"
proof (cases "wexitstatus st = 0")
  case True
  have c: "gj_children (gd_objs (upd_job j (\<lambda>g. g\<lparr>gj_finish_date := ge_now env\<rparr>) w) j) = []"
    using assms(1) by (simp add: childless_def)
  show ?thesis
    using assms(2-4) True
    by (auto simp: job_process_finished_def job_status_notify_finished_def Let_def job_status_notify_def notify_conv [OF c]
        end_status_def)
next
  case False
  have c: "gj_children (gd_objs w j) = []" using assms(1) by (simp add: childless_def)
  show ?thesis
    using assms(2-4) False
    by (auto simp: job_process_finished_def job_status_notify_def notify_conv [OF c] end_status_def)
qed

section \<open>Properties\<close>

text \<open>
  C18: a job that can run, whose command line has a form in the encoding of file names, is started on a machine alone
  with that form of the command line, after the variables of the display when there is one: the maestro is told that it is
  running, and the command that the process is given is read as \<open>bash -l -c\<close> with the whole script as one argument,
  whatever characters it has. The maestro is told the same, and the job has the status running, when no process could be
  forked.
\<close>
theorem started_job_runs_script:
  fixes w j env
  defines "g \<equiv> gd_objs w j"
  assumes "childless w" "\<not> gj_critical g" "\<not> ge_moab env" "plain_format (ge_now env) = Some now"
    and "ge_filename env (gj_cmd g) = Some line"
  shows "\<exists>w' cmd rest. job_run_flow (Suc n) env j w = Some w' \<and> gj_status (gd_objs w' j) = JOB_STATUS_RUNNING \<and>
     gd_events w' = gd_events w @
       Send sta_def [gj_jid g, ''running'', now, gj_run_id g, gj_frac g] # (if ge_forks env j then Start j cmd else NoStart j cmd) # rest \<and>
     (rest = [] \<or> ge_forks env j \<and> rest = [CloseStdin j]) \<and>
     sh_words cmd = Some [''bash'', ''-l'', ''-c'',
       (case gd_displays w (gj_gid g) of
          None \<Rightarrow> line
        | Some display \<Rightarrow> ''export DISPLAY='' @ display @ ''; export XAUTHORITY='' @ ge_xauth env @ ''; '' @ line)]"
proof -
  let ?script = "case gd_displays w (gj_gid g) of
          None \<Rightarrow> line
        | Some display \<Rightarrow> ''export DISPLAY='' @ display @ ''; export XAUTHORITY='' @ ge_xauth env @ ''; '' @ line"
  have "job_script env g w = Some ?script"
    using assms(6) by (simp add: job_script_def Let_def nonempty_or_def split: option.split)
  then show ?thesis
    using run_flow_conv [OF assms(2) _ assms(4), of j n] assms(3,5) bash_command_words [of ?script]
    unfolding g_def
    by (auto simp: close_input_def reported_def with_status_def start_process_def Let_def split: option.splits list.splits)
qed

text \<open>
  A command line that has no form in the encoding of file names is lost: with a display the script ends behind the
  variables, and the job is told to be running although nothing of its flow is run.
\<close>
theorem unwritable_script_lost:
  fixes w j env
  defines "g \<equiv> gd_objs w j"
  assumes "childless w" "\<not> gj_critical g" "\<not> ge_moab env" "plain_format (ge_now env) = Some now"
    and "ge_filename env (gj_cmd g) = None" "gd_displays w (gj_gid g) = Some display" "ge_forks env j"
  shows "\<exists>w' cmd. job_run_flow (Suc n) env j w = Some w' \<and> gj_status (gd_objs w' j) = JOB_STATUS_RUNNING \<and>
     Start j cmd \<in> set (gd_events w') \<and>
     sh_words cmd = Some [''bash'', ''-l'', ''-c'', ''export DISPLAY='' @ display @ ''; export XAUTHORITY='' @ ge_xauth env @ ''; '']"
proof -
  let ?script = "''export DISPLAY='' @ display @ ''; export XAUTHORITY='' @ ge_xauth env @ ''; ''"
  have "job_script env g w = Some ?script"
    using assms(6,7) by (simp add: job_script_def Let_def nonempty_or_def)
  then show ?thesis
    using run_flow_conv [OF assms(2) _ assms(4), of j n] assms(3,5,8) bash_command_words [of ?script]
    unfolding g_def
    by (auto simp: close_input_def reported_def with_status_def start_process_def Let_def split: option.splits list.splits)
qed

text \<open>A job that runs a flow of two programs.\<close>

definition demo_request :: run_request where
  "demo_request =
     \<lparr>rq_gid = ''g'', rq_id = ''r1'', rq_frac = ''1'', rq_numproc = ''1'', rq_nice = ''0'', rq_flow = ''flow'', rq_paths = [],
      rq_account = [], rq_mpi = ''host,openmpi''\<rparr>"

definition demo_gebrd_env :: gebrd_env where
  "demo_gebrd_env =
     \<lparr>ge_now = ''today'', ge_moab = False, ge_xauth = ''.Xauthority'', ge_in_path = (\<lambda>_. False), ge_spawn = (\<lambda>_. SpawnFailed),
      ge_utf8 = (\<lambda>_. True), ge_to_utf8 = Some, ge_filename = Some, ge_forks = (\<lambda>_. True),
      ge_load = (\<lambda>_. Inr (''demo'', js_flow (demo_job bare_progs), bare_progs, [])), ge_cmd = demo_env\<rparr>"

definition demo_gebrd :: gebrd where
  "demo_gebrd =
     \<lparr>gd_jobs = [], gd_objs = (\<lambda>_. new_gjob [] demo_request), gd_next = 0, gd_displays = (\<lambda>_. None), gd_flavors = [],
      gd_valid = blank_validator, gd_next_doc = 1, gd_events = []\<rparr>"

lemma demo_childless: "childless demo_gebrd"
  by (simp add: childless_def demo_gebrd_def new_gjob_def)

text \<open>The job of the request, assembled and with a display.\<close>

definition demo_ready :: gebrd where
  "demo_ready = (upd_job 0 (\<lambda>g. g\<lparr>gj_cmd := ''echo '' @ [CHR 0x27] @ ''a b'' @ [CHR 0x27]\<rparr>) demo_gebrd)\<lparr>gd_displays := [''g'' \<mapsto> ''n0:10'']\<rparr>"

lemma demo_ready_facts:
  "childless demo_ready" "\<not> gj_critical (gd_objs demo_ready 0)" "\<not> ge_moab demo_gebrd_env" "plain_format (ge_now demo_gebrd_env) = Some ''today''"
  "ge_filename demo_gebrd_env x = Some x" "gd_displays demo_ready (gj_gid (gd_objs demo_ready 0)) = Some ''n0:10''"
  "gj_cmd (gd_objs demo_ready 0) = ''echo '' @ [CHR 0x27] @ ''a b'' @ [CHR 0x27]"
  by (simp_all add: demo_ready_def demo_gebrd_def childless_def new_gjob_def demo_gebrd_env_def demo_request_def)

theorem started_job_runs_script_witness:
  "\<exists>w' cmd. job_run_flow (Suc 0) demo_gebrd_env 0 demo_ready = Some w' \<and> Start 0 cmd \<in> set (gd_events w') \<and>
     sh_words cmd = Some [''bash'', ''-l'', ''-c'',
       ''export DISPLAY=n0:10; export XAUTHORITY=.Xauthority; echo '' @ [CHR 0x27] @ ''a b'' @ [CHR 0x27]]"
proof -
  have "ge_forks demo_gebrd_env 0" "ge_xauth demo_gebrd_env = ''.Xauthority''" by (simp_all add: demo_gebrd_env_def)
  then show ?thesis
    using started_job_runs_script [OF demo_ready_facts(1-4) demo_ready_facts(5), of 0]
    by (auto simp: demo_ready_facts(6,7))
qed

theorem unwritable_script_lost_witness:
  "\<exists>w' cmd. job_run_flow (Suc 0) (demo_gebrd_env\<lparr>ge_filename := (\<lambda>_. None)\<rparr>) 0 demo_ready = Some w' \<and> Start 0 cmd \<in> set (gd_events w') \<and>
     gj_status (gd_objs w' 0) = JOB_STATUS_RUNNING"
proof -
  let ?env = "demo_gebrd_env\<lparr>ge_filename := (\<lambda>_. None)\<rparr>"
  have "\<not> ge_moab ?env" "plain_format (ge_now ?env) = Some ''today''" "ge_filename ?env x = None" "ge_forks ?env 0" for x
    by (simp_all add: demo_gebrd_env_def)
  from unwritable_script_lost [OF demo_ready_facts(1,2) this(1-3) demo_ready_facts(6) this(4), of 0] show ?thesis by blast
qed

text \<open>
  The end of the process of a running job on a machine alone is told to the maestro, in one message: failed when
  the exit code is not 0, else canceled when the user had asked for the end, else finished, a text from which the
  maestro reads the same status; the job keeps it, and no other job changes.
\<close>
theorem process_end_told:
  assumes "childless w" "\<not> ge_moab env" "gj_status (gd_objs w j) = JOB_STATUS_RUNNING" "plain_format (ge_now env) = Some now"
  shows "\<exists>w' s. job_process_finished n env st j w = Some w' \<and>
     gd_events w' = gd_events w @ [Send sta_def [gj_jid (gd_objs w j), s, now, gj_run_id (gd_objs w j), gj_frac (gd_objs w j)]] \<and>
     gebrm_task_translate_status s = end_status st (gd_objs w j) \<and> gj_status (gd_objs w' j) = end_status st (gd_objs w j) \<and>
     gd_jobs w' = gd_jobs w \<and> (\<forall>k. k \<noteq> j \<longrightarrow> gd_objs w' k = gd_objs w k)"
proof -
  have "job_process_finished n env st j w \<noteq> None"
    using assms by (simp add: job_process_finished_def job_status_notify_finished_def job_status_notify_def Let_def
        notify_childless childless_def)
  then obtain w' where w': "job_process_finished n env st j w = Some w'" by blast
  have "gebrm_task_translate_status (status_enum_to_string x) = x" for x
    by (cases x) (simp_all add: gebrm_task_translate_status_def)
  then show ?thesis
    using process_finished [OF assms(1-3) w'] w' assms(4) by (auto simp: reported_def with_status_def end_status_def Let_def)
qed

text \<open>
  A process that is ended by a signal that nobody asked for has the exit code 0 in its wait status, so that the job
  that crashed is told as finished.
\<close>
theorem killed_process_finished:
  assumes "childless w" "\<not> ge_moab env" "gj_status (gd_objs w j) = JOB_STATUS_RUNNING" "plain_format (ge_now env) = Some now"
    and "\<not> gj_user_finished (gd_objs w j)" "signal < 256"
  shows "\<exists>w'. job_process_finished n env signal j w = Some w' \<and> gj_status (gd_objs w' j) = JOB_STATUS_FINISHED \<and>
     gd_events w' = gd_events w @
       [Send sta_def [gj_jid (gd_objs w j), ''finished'', now, gj_run_id (gd_objs w j), gj_frac (gd_objs w j)]]"
proof -
  let ?w = "upd_job j (\<lambda>g. g\<lparr>gj_finish_date := ge_now env\<rparr>) w"
  have "job_process_finished n env signal j w = Some (reported j JOB_STATUS_FINISHED now (with_status j JOB_STATUS_FINISHED ?w))"
    using assms by (simp add: job_process_finished_def job_status_notify_finished_def job_status_notify_def Let_def
        notify_childless childless_def wexitstatus_def)
  then show ?thesis using assms(3) by (simp add: reported_def with_status_def Let_def)
qed

section \<open>A life\<close>

lemma demo_updated:
  "\<exists>v'. gebr_validator_update st u (open_documents 1 [] blank_validator) = Inr ((), v') \<and> (\<forall>d. d_dict (documents v' d) = [])"
  by (simp add: gebr_validator_update_def open_documents_def gebr_validator_clean_cache_def load_dict_def
      gebr_geoxml_document_split_dict_def set_dict_def blank_validator_def current_doc_def get_document_def Let_def)

lemma demo_bare_assembled:
  "(\<forall>d. d_dict (documents v d) = []) \<Longrightarrow> \<exists>cmd. job_assembly_cmdline (demo_env\<lparr>ce_flavors := []\<rparr>)
      (job_spec_of demo_request m (js_flow (demo_job bare_progs)) bare_progs 1) [] v = Inr ((Some cmd, []), v)"
  by (simp add: job_assembly_cmdline_def job_spec_of_def demo_request_def demo_job_def bare_progs_def demo_program_def demo_env_def
      gebr_geoxml_flow_is_parallelizable_def gebr_geoxml_flow_get_control_program_def gebr_geoxml_program_get_control_def
      gebr_geoxml_program_get_status_def athen_def find_first_program_def configured_def is_loop_def assemble_programs_def
      define_bc_variables_def first_program_def program_mpi_def job_add_program_parameters_def accepted_def
      pthen_def put_def call_program_def redirect_input_def yes_no_def
      gebr_geoxml_program_get_stdin_def gebr_geoxml_program_get_stdout_def gebr_geoxml_program_get_stderr_def wrap_command_def
      Let_def make_directories_def g_strsplit_def plain_prefix_def)

text \<open>The request is run, the process writes and ends.\<close>

lemma demo_run:
  "\<exists>w x y cmd tl. client_run (Suc 0) demo_gebrd_env ''1'' demo_request demo_gebrd = Some w \<and> gd_jobs w = [0] \<and>
     gd_events w = Send tsk_def x # Send sta_def y # Start 0 cmd # tl \<and> (tl = [] \<or> tl = [CloseStdin 0])"
proof -
  let ?v = "open_documents 1 [] blank_validator"
  obtain v' where v': "gebr_validator_update (\<lambda>_. 0) (\<lambda>_ _ v. Inr (True, v)) ?v = Inr ((), v')"
      "\<forall>d. d_dict (documents v' d) = []"
    using demo_updated by blast
  obtain m where m: "parse_mpi_servers ''host,openmpi'' = Some m"
    by (simp add: parse_mpi_servers_def g_strsplit_def)
  obtain cmd where cmd: "job_assembly_cmdline (demo_env\<lparr>ce_flavors := []\<rparr>)
      (job_spec_of demo_request m (js_flow (demo_job bare_progs)) bare_progs 1) [] v' = Inr ((Some cmd, []), v')"
    using demo_bare_assembled [OF v'(2)] by blast
  have upd: "gebr_validator_update (ce_strtod demo_env) (ce_upd demo_env) ?v = Inr ((), v')"
    using v'(1) by (simp add: demo_env_def)
  obtain w where w: "job_new demo_gebrd_env ''1'' demo_request demo_gebrd = Some (0, w)" "\<not> gj_critical (gd_objs w 0)"
    using m cmd upd
    by (auto simp: job_new_def append_job_def Let_def demo_gebrd_env_def demo_gebrd_def demo_request_def)
  have shape: "gd_jobs w = [0]" "gd_events w = []" "\<And>k. k \<noteq> 0 \<Longrightarrow> gd_objs w k = gd_objs demo_gebrd k" "gj_children (gd_objs w 0) = []"
    using job_new_shape [OF w(1)] by (simp_all add: demo_gebrd_def)
  have "childless (job_notify 0 w)"
    using shape(3,4) demo_childless unfolding childless_def job_notify_read by metis
  moreover obtain script where script: "job_script demo_gebrd_env (gd_objs w 0) (job_notify 0 w) = Some script"
    by (cases "gd_displays (job_notify 0 w) (gj_gid (gd_objs w 0))") (auto simp: job_script_def demo_gebrd_env_def Let_def)
  ultimately have "client_run (Suc 0) demo_gebrd_env ''1'' demo_request demo_gebrd =
      Some (close_input demo_gebrd_env 0 (gd_objs w 0) (event (Start 0 (bash_command script))
        (reported 0 JOB_STATUS_RUNNING ''today'' (with_status 0 JOB_STATUS_RUNNING
          (upd_job 0 (\<lambda>g. g\<lparr>gj_start_date := ''today''\<rparr>) (job_notify 0 w))))))"
    using run_flow_conv [of "job_notify 0 w" 0 demo_gebrd_env 0] w
    by (simp add: client_run_def demo_gebrd_env_def start_process_def)
  then show ?thesis
    using shape(1,2) by (auto simp: reported_def job_notify_def close_input_def Let_def split: option.split list.split)
qed

text \<open>The job, running.\<close>

definition demo_running :: gebrd where
  "demo_running = upd_job 0 (\<lambda>g. g\<lparr>gj_status := JOB_STATUS_RUNNING\<rparr>) (demo_gebrd\<lparr>gd_jobs := [0], gd_next := 1\<rparr>)"

lemma demo_running_facts:
  "childless demo_running" "gj_status (gd_objs demo_running 0) = JOB_STATUS_RUNNING"
  "\<not> gj_user_finished (gd_objs demo_running 0)" "\<not> ge_moab demo_gebrd_env" "plain_format (ge_now demo_gebrd_env) = Some ''today''"
  by (simp_all add: demo_running_def demo_gebrd_def childless_def new_gjob_def demo_gebrd_env_def)

theorem process_end_told_witness:
  "\<exists>w'. job_process_finished 1 demo_gebrd_env 256 0 demo_running = Some w' \<and> gj_status (gd_objs w' 0) = JOB_STATUS_FAILED"
  using process_end_told [OF demo_running_facts(1,4,2,5), of 1 256] by (auto simp: end_status_def wexitstatus_def)

theorem killed_process_finished_witness:
  "\<exists>w'. job_process_finished 1 demo_gebrd_env 11 0 demo_running = Some w' \<and> gj_status (gd_objs w' 0) = JOB_STATUS_FINISHED"
  using killed_process_finished [OF demo_running_facts(1,4,2,5,3), of 11 1] by auto

end
