(* ===== verification/Gebrd_Moab.thy ===== *)
theory Gebrd_Moab
  imports Gebrd_Life
begin

text \<open>
  The daemon at its edges: the depth of \<open>job_run_flow\<close>, the end of the daemon itself, jobs of a MOAB cluster, and the
  list of machines for MPI, which the maestro writes and the daemon reads.
\<close>

section \<open>Depth\<close>

lemma issue_conv:
  assumes "gj_children (gd_objs w j) = []"
  shows "job_issue_with run j msg w =
     (let w = upd_job j (\<lambda>g. g\<lparr>gj_issues := gj_issues g @ msg\<rparr>) w in
      if gj_status (gd_objs w j) \<noteq> JOB_STATUS_INITIAL
      then map_option (\<lambda>x. reported j JOB_STATUS_ISSUED x (with_status j JOB_STATUS_ISSUED w)) (plain_format msg) else Some w)"
  using assms by (simp add: job_issue_with_def Let_def notify_conv)

lemma issue_childless:
  assumes "childless w" "job_issue_with run j msg w = Some w'"
  shows "childless w'"
proof -
  have "childless (upd_job j (\<lambda>g. g\<lparr>gj_issues := gj_issues g @ msg\<rparr>) w)" using assms(1) by (simp add: childless_def)
  then show ?thesis
    using assms issue_conv [of w j run msg] by (auto simp: childless_def Let_def split: if_splits)
qed

lemma failed_same:
  assumes "childless w"
  shows "job_failed_with run env j w = job_failed_with run' env j w"
  using assms by (simp add: job_failed_with_def notify_conv childless_def)

lemma submit_failed_same:
  assumes "childless w"
  shows "Option.bind (job_issue_with run j msg w) (job_failed_with run env j) =
    Option.bind (job_issue_with run' j msg w) (job_failed_with run' env j)"
proof -
  have "job_issue_with run j msg w = job_issue_with run' j msg w"
    using assms by (simp add: issue_conv childless_def)
  moreover have "job_failed_with run env j w' = job_failed_with run' env j w'" if "job_issue_with run' j msg w = Some w'" for w'
    using failed_same [OF issue_childless [OF assms that]] .
  ultimately show ?thesis by (cases "job_issue_with run' j msg w") simp_all
qed

lemma failed_childless:
  assumes "childless w" "job_failed_with run env j w = Some w'"
  shows "childless w'"
  using assms by (auto simp: job_failed_with_def notify_conv childless_def)

lemma run_flow_same:
  assumes "childless w"
  shows "job_run_flow (Suc n) env j w = job_run_flow (Suc 0) env j w"
proof (cases "ge_moab env \<or> gj_critical (gd_objs w j)")
  case True
  then show ?thesis
    using failed_same [OF assms, of "job_run_flow n env" env j "job_run_flow 0 env"]
      submit_failed_same [OF assms, of "job_run_flow n env" j _ env "job_run_flow 0 env"]
    by (auto simp: run_flow_with_def Let_def split: sum.splits option.splits)
next
  case False
  then show ?thesis using assms by (simp add: run_flow_conv del: job_run_flow.simps)
qed

lemma run_flow_childless:
  assumes "childless w" "job_run_flow (Suc n) env j w = Some w'"
  shows "childless w'"
proof (cases "ge_moab env \<or> gj_critical (gd_objs w j)")
  case True
  have "childless (event e (start_process env j e' e'' (upd_job j (\<lambda>g. g\<lparr>gj_moab_jid := m, gj_tail := True\<rparr>) w)))" for e e' e'' m
    using assms(1) by (simp add: childless_def)
  then show ?thesis
    using True assms
    by (auto simp: run_flow_with_def Let_def bind_eq_Some_conv split: sum.splits if_splits option.splits
        dest: issue_childless [OF assms(1)] failed_childless [rotated])
next
  case False
  then show ?thesis using assms by (auto simp: run_flow_conv bind_eq_Some_conv simp del: job_run_flow.simps) (simp add: childless_def)
qed

text \<open>
  No job of a daemon has children, so that the mutual recursion of \<open>job_run_flow\<close> over the children of a job that
  fails ends at its first level, whatever bound is given, and starting a job leaves every job without children.
\<close>
theorem run_flow_one_level:
  assumes "childless w"
  shows "job_run_flow (Suc n) env j w = job_run_flow (Suc 0) env j w \<and>
     (case job_run_flow (Suc n) env j w of None \<Rightarrow> True | Some w' \<Rightarrow> childless w')"
  using run_flow_same [OF assms, of n env j] run_flow_childless [OF assms, of n env j]
  by (auto split: option.splits simp del: job_run_flow.simps)

theorem run_flow_one_level_witness:
  "job_run_flow (Suc 7) demo_gebrd_env 0 demo_gebrd = job_run_flow (Suc 0) demo_gebrd_env 0 demo_gebrd"
  using run_flow_one_level [OF demo_childless, of 7 demo_gebrd_env 0] by (simp del: job_run_flow.simps)

section \<open>The end of the daemon\<close>

definition told_failed :: "string \<Rightarrow> gebrd \<Rightarrow> gjob_ref \<Rightarrow> gebrd_event" where
  "told_failed now w j = (let g = gd_objs w j in Send sta_def [gj_jid g, ''failed'', now, gj_run_id g, gj_frac g])"

lemma each_failed:
  assumes "childless w" "plain_format (ge_now env) = Some now"
  shows "\<exists>w'. each_child (\<lambda>j. job_status_notify n env j JOB_STATUS_FAILED (ge_now env)) js w = Some w' \<and> childless w' \<and>
     gd_events w' = gd_events w @ map (told_failed now w) js \<and> (\<forall>j\<in>set js. gj_status (gd_objs w' j) = JOB_STATUS_FAILED) \<and>
     (\<forall>j. gj_status (gd_objs w j) = JOB_STATUS_FAILED \<longrightarrow> gj_status (gd_objs w' j) = JOB_STATUS_FAILED)"
  using assms(1)
proof (induction js arbitrary: w)
  case Nil
  then show ?case by simp
next
  case (Cons j js)
  let ?w = "reported j JOB_STATUS_FAILED now (with_status j JOB_STATUS_FAILED w)"
  have step: "job_status_notify n env j JOB_STATUS_FAILED (ge_now env) w = Some ?w"
    using Cons.prems assms(2) by (simp add: job_status_notify_def notify_childless childless_def)
  have "childless ?w" using Cons.prems by simp
  from Cons.IH [OF this] obtain w' where w':
    "each_child (\<lambda>j. job_status_notify n env j JOB_STATUS_FAILED (ge_now env)) js ?w = Some w'" "childless w'"
    "gd_events w' = gd_events ?w @ map (told_failed now ?w) js" "\<forall>j\<in>set js. gj_status (gd_objs w' j) = JOB_STATUS_FAILED"
    "\<forall>j. gj_status (gd_objs ?w j) = JOB_STATUS_FAILED \<longrightarrow> gj_status (gd_objs w' j) = JOB_STATUS_FAILED" by blast
  have "told_failed now ?w = told_failed now w" by (rule ext) (simp add: told_failed_def Let_def)
  moreover have "gd_events ?w = gd_events w @ [told_failed now w j]" by (simp add: reported_def told_failed_def Let_def)
  moreover have "gj_status (gd_objs ?w j) = JOB_STATUS_FAILED" by (simp add: with_status_def)
  moreover have "gj_status (gd_objs ?w k) = JOB_STATUS_FAILED" if "gj_status (gd_objs w k) = JOB_STATUS_FAILED" for k
    using that by (simp add: with_status_def)
  ultimately show ?case using step w' by auto
qed

text \<open>
  When the daemon quits, the maestro is told that every job of the list has failed, one message for each job in the
  order of the list and before the daemon ends, also for the jobs that had finished.
\<close>
theorem quit_fails_all_jobs:
  assumes "childless w" "plain_format (ge_now env) = Some now"
  shows "\<exists>w'. gebrd_quit n env w = Some w' \<and> gd_events w' = gd_events w @ map (told_failed now w) (gd_jobs w) @ [Quit] \<and>
     list_all (\<lambda>j. gj_status (gd_objs w' j) = JOB_STATUS_FAILED) (gd_jobs w)"
  using each_failed [OF assms, of n "gd_jobs w"] by (auto simp: gebrd_quit_def list_all_iff)

definition demo_finished :: gebrd where
  "demo_finished = upd_job 0 (\<lambda>g. g\<lparr>gj_status := JOB_STATUS_FINISHED\<rparr>) demo_running"

theorem quit_fails_all_jobs_witness:
  "\<exists>w'. gebrd_quit 1 demo_gebrd_env demo_finished = Some w' \<and> gj_status (gd_objs demo_finished 0) = JOB_STATUS_FINISHED \<and>
     gj_status (gd_objs w' 0) = JOB_STATUS_FAILED"
proof -
  have c: "childless demo_finished" using demo_running_facts(1) by (simp add: demo_finished_def childless_def)
  show ?thesis
    using quit_fails_all_jobs [OF c demo_running_facts(5), of 1]
    by (auto simp: demo_finished_def demo_running_def demo_gebrd_def)
qed

section \<open>A job of a cluster\<close>

text \<open>
  A job that MOAB accepted keeps the status that it was made with, initial, while its state is asked for again and
  again; a request to clear it then frees it although it runs, and the pending poll keeps its address.
\<close>
theorem clear_frees_polled_job:
  assumes "ge_moab env" "\<not> gj_critical (gd_objs w j)" "gj_status (gd_objs w j) = JOB_STATUS_INITIAL"
    and "job_script env (gd_objs w j) w = Some script" "submit env (gd_objs w j) (bash_command script) = Inr mjid"
    and "distinct (gd_jobs w)" "ge_forks env j"
  shows "\<exists>w'. job_run_flow (Suc n) env j w = Some w' \<and> gj_moab_jid (gd_objs w' j) = mjid \<and>
     gd_events (job_clear j w') = gd_events w @ [Tail j (tail_command mjid), Poll j, Free j] \<and>
     j \<notin> set (gd_jobs (job_clear j w'))"
  using assms by (simp add: run_flow_with_def Let_def start_process_def job_clear_def job_free_def)

definition moab_env :: gebrd_env where
  "moab_env = demo_gebrd_env\<lparr>ge_moab := True, ge_in_path := (\<lambda>_. True), ge_spawn := (\<lambda>_. Spawned ''42'' [])\<rparr>"

theorem clear_frees_polled_job_witness:
  "\<exists>w'. job_run_flow 1 moab_env 0 (demo_gebrd\<lparr>gd_jobs := [0], gd_next := 1\<rparr>) = Some w' \<and>
     0 \<notin> set (gd_jobs (job_clear 0 w'))"
proof -
  have "scan_unsigned ''42'' = 42" "show_nat 42 = ''42''" by code_simp+
  then have "submit moab_env g c = Inr ''42''" for g c by (simp add: submit_def moab_env_def)
  then show ?thesis
    using clear_frees_polled_job [of moab_env "demo_gebrd\<lparr>gd_jobs := [0], gd_next := 1\<rparr>" 0 "[]" "''42''" 0]
    by (auto simp: moab_env_def demo_gebrd_env_def demo_gebrd_def new_gjob_def job_script_def simp del: job_run_flow.simps)
qed


section \<open>The machines for MPI\<close>

lemma add_host_map:
  assumes "distinct fls"
  shows "add_host h fls m fl = m fl @ (if fl \<in> set fls then [h] else [])"
  using assms by (induction fls arbitrary: m) auto

lemma add_hosts_map:
  assumes "\<forall>(h, fls) \<in> set es. distinct fls \<and> CHR '','' \<notin> set h \<and> fls \<noteq> [] \<and> (\<forall>x\<in>set fls. CHR '','' \<notin> set x)"
  shows "\<exists>m'. add_hosts (map (\<lambda>(h, fls). g_strjoinv '','' (h # fls)) es) m = Some m' \<and>
     (\<forall>fl. m' fl = m fl @ map fst (filter (\<lambda>(h, fls). fl \<in> set fls) es))"
  using assms
proof (induction es arbitrary: m)
  case Nil
  then show ?case by simp
next
  case (Cons e es)
  obtain h fls where e: "e = (h, fls)" by force
  have "g_strsplit (g_strjoinv '','' (h # fls)) '','' (-1) = h # fls"
    using Cons.prems e by (intro strsplit_join_char) (auto simp: g_strjoinv_Cons)
  moreover have "distinct fls" using Cons.prems e by simp
  moreover obtain m' where "add_hosts (map (\<lambda>(h, fls). g_strjoinv '','' (h # fls)) es) (add_host h fls m) = Some m'"
      "\<forall>fl. m' fl = add_host h fls m fl @ map fst (filter (\<lambda>(h, fls). fl \<in> set fls) es)"
    using Cons.IH [of "add_host h fls m"] Cons.prems by auto
  ultimately show ?case using e by (simp add: add_host_map)
qed

text \<open>The flavors of a machine as its entry has them: the empty list is read back as one empty name.\<close>

definition entry_flavors :: "string list \<Rightarrow> string list" where
  "entry_flavors fs = (if fs = [] then [[]] else fs)"

lemma entry_text: "h @ CHR '','' # g_strjoinv '','' fs = g_strjoinv '','' (h # entry_flavors fs)"
  by (simp add: entry_flavors_def g_strjoinv_Cons)

lemma tail_of_entries: "tl (concat (map (\<lambda>d. CHR '';'' # f d) ds)) = g_strjoinv '';'' (map f ds)"
proof (induction ds)
  case (Cons d ds)
  then show ?case by (cases ds) (simp_all add: g_strjoinv_Cons)
qed simp

lemma join_free: "c \<notin> set d \<Longrightarrow> \<forall>x\<in>set xs. c \<notin> set x \<Longrightarrow> c \<notin> set (g_strjoinv d xs)"
  by (induction d xs rule: g_strjoinv.induct) auto

text \<open>A name that can stand in the list.\<close>

definition list_name :: "string \<Rightarrow> bool" where
  "list_name s \<longleftrightarrow> CHR '','' \<notin> set s \<and> CHR '';'' \<notin> set s"

text \<open>
  The list of machines that the maestro writes for an MPI run is read back by the daemon: for every flavor the
  daemon gets the addresses of the machines that offer it, in the order of the maestro.
\<close>
theorem mpi_hosts_round_trip:
  assumes "\<forall>d\<in>set ds. list_name (address (di_server I d w)) \<and> di_flavors I d w = Some (g_strjoinv '','' (fs d)) \<and>
     distinct (fs d) \<and> list_all list_name (fs d)"
  shows "\<exists>m. parse_mpi_servers (mpi_servers_text I ds w) = Some m \<and>
     (\<forall>fl. fl \<noteq> [] \<longrightarrow> m fl = map (\<lambda>d. address (di_server I d w)) (filter (\<lambda>d. fl \<in> set (fs d)) ds))"
proof -
  let ?h = "\<lambda>d. address (di_server I d w)"
  let ?es = "map (\<lambda>d. (?h d, entry_flavors (fs d))) ds"
  let ?texts = "map (\<lambda>(h, fls). g_strjoinv '','' (h # fls)) ?es"
  have "mpi_servers_text I ds w = tl (concat (map (\<lambda>d. CHR '';'' # g_strjoinv '','' (?h d # entry_flavors (fs d))) ds))"
    unfolding mpi_servers_text_def using assms
    by (intro arg_cong [where f = tl] arg_cong [where f = concat] map_cong) (simp_all add: entry_text)
  then have joined: "mpi_servers_text I ds w = g_strjoinv '';'' ?texts" by (simp add: tail_of_entries o_def)
  have entry_free: "CHR '';'' \<notin> set (g_strjoinv '','' (?h d # entry_flavors (fs d)))" if "d \<in> set ds" for d
    using assms that by (intro join_free) (auto simp: list_name_def list_all_iff entry_flavors_def)
  have split: "g_strsplit (g_strjoinv '';'' ?texts) '';'' (-1) = ?texts"
  proof (cases ds)
    case Nil
    then show ?thesis by (simp add: g_strsplit_def)
  next
    case (Cons d ds')
    show ?thesis
    proof (rule strsplit_join_char)
      show "\<forall>x\<in>set ?texts. CHR '';'' \<notin> set x"
        using entry_free by auto
      show "?texts \<noteq> []" using Cons by simp
      show "g_strjoinv '';'' ?texts \<noteq> []"
        using Cons by (cases ds') (simp_all add: g_strjoinv_Cons entry_flavors_def)
    qed
  qed
  have "\<forall>(h, fls) \<in> set ?es. distinct fls \<and> CHR '','' \<notin> set h \<and> fls \<noteq> [] \<and> (\<forall>x\<in>set fls. CHR '','' \<notin> set x)"
    using assms by (auto simp: list_name_def list_all_iff entry_flavors_def)
  moreover have read: "parse_mpi_servers (mpi_servers_text I ds w) = add_hosts ?texts (\<lambda>_. [])"
    unfolding parse_mpi_servers_def joined split ..
  ultimately have "\<exists>m. add_hosts ?texts (\<lambda>_. []) = Some m \<and> (\<forall>fl. m fl = map fst (filter (\<lambda>(h, fls). fl \<in> set fls) ?es))"
    using add_hosts_map [of ?es "\<lambda>_. []"] by simp
  then obtain m where m:
    "parse_mpi_servers (mpi_servers_text I ds w) = Some m" "\<forall>fl. m fl = map fst (filter (\<lambda>(h, fls). fl \<in> set fls) ?es)"
    unfolding read by blast
  have "fl \<in> set (entry_flavors (fs d)) \<longleftrightarrow> fl \<in> set (fs d)" if "fl \<noteq> []" for fl d
    using that by (simp add: entry_flavors_def)
  then have "m fl = map ?h (filter (\<lambda>d. fl \<in> set (fs d)) ds)" if "fl \<noteq> []" for fl
    using m(2) that by (simp add: filter_map o_def)
  with m(1) show ?thesis by blast
qed


text \<open>Two machines, of which one offers MPI.\<close>

definition two_machines :: "(dref \<Rightarrow> server) daemon_iface" where
  "two_machines =
     \<lparr>di_server = (\<lambda>d w. w d), di_on_server = (\<lambda>d f w. w(d := f (w d))), di_n_running_jobs = (\<lambda>d w. 0),
      di_hostname = (\<lambda>d w. address (w d)), di_add_task = (\<lambda>d w. w), di_can_execute = (\<lambda>d w. True),
      di_flavors = (\<lambda>d w. Some (g_strjoinv '','' (if d = 0 then [''mpich2'', ''openmpi''] else [])))\<rparr>"

definition two_servers :: "dref \<Rightarrow> server" where
  "two_servers d = (gebr_comm_server_new [] [] None)\<lparr>address := (if d = 0 then ''n0'' else ''n1'')\<rparr>"

theorem mpi_hosts_round_trip_witness:
  "\<exists>m. parse_mpi_servers (mpi_servers_text two_machines [1, 0] two_servers) = Some m \<and> m ''openmpi'' = [''n0'']"
proof -
  have "\<forall>d\<in>set [1, 0 :: nat]. list_name (address (di_server two_machines d two_servers)) \<and>
      di_flavors two_machines d two_servers = Some (g_strjoinv '','' (if d = 0 then [''mpich2'', ''openmpi''] else [])) \<and>
      distinct (if d = 0 then [''mpich2'', ''openmpi''] else []) \<and> list_all list_name (if d = 0 then [''mpich2'', ''openmpi''] else [])"
    by (simp add: two_machines_def two_servers_def list_name_def)
  from mpi_hosts_round_trip [OF this] show ?thesis by (auto simp: two_machines_def two_servers_def)
qed

end
