(* ===== verification/Gebrd_Info.thy ===== *)
theory Gebrd_Info
  imports Prelude
begin

text \<open>
  What a daemon reads of its machine (\<open>gebrd/gebrd-sysinfo.c\<close>): the properties of the processors and of the
  memory, from the text of the files that the kernel offers.
\<close>

section \<open>Lines and properties\<close>

text \<open>\<open>getline\<close>: a line with its end.\<close>

fun get_lines :: "string \<Rightarrow> string list" where
  "get_lines [] = []"
| "get_lines (c # s) =
     (if c = NL then [NL] # get_lines s
      else case get_lines s of
             [] \<Rightarrow> [[c]]
           | l # ls \<Rightarrow> (c # l) # ls)"

text \<open>A line with a colon is a name and a value.\<close>

definition property_of :: "string \<Rightarrow> (string \<times> string) option" where
  "property_of l =
     (case strstr l '':'' of
        None \<Rightarrow> None
      | Some i \<Rightarrow> Some (g_strstrip (take i l), g_strstrip (drop (i + 1) l)))"

definition add_property :: "string \<Rightarrow> (string \<rightharpoonup> string) \<Rightarrow> (string \<rightharpoonup> string)" where
  "add_property l m = (case property_of l of None \<Rightarrow> m | Some (k, x) \<Rightarrow> m(k \<mapsto> x))"

section \<open>Processors\<close>

text \<open>The tables of the processors, the last one first: a table begins with the first line and behind an empty line.\<close>

type_synonym cpu_info = "(string \<rightharpoonup> string) list"

fun read_cores :: "bool \<Rightarrow> string list \<Rightarrow> cpu_info \<Rightarrow> cpu_info" where
  "read_cores new [] cores = cores"
| "read_cores new (l # ls) cores =
     (let cores = (if new then Map.empty # cores else cores)
      in read_cores (hd l = NL) ls (case cores of [] \<Rightarrow> [] | m # ms \<Rightarrow> add_property l m # ms))"

definition gebrd_cpu_info_new_from_file :: "cstr \<Rightarrow> cpu_info option" where
  "gebrd_cpu_info_new_from_file contents = map_option (\<lambda>x. read_cores True (get_lines x) []) contents"

definition gebrd_cpu_info_get :: "cpu_info \<Rightarrow> nat \<Rightarrow> string \<Rightarrow> cstr" where
  "gebrd_cpu_info_get info k prop = (if k < length info then (info ! k) prop else None)"

definition gebrd_cpu_info_n_procs :: "cpu_info \<Rightarrow> nat" where
  "gebrd_cpu_info_n_procs info = length info"

text \<open>\<open>freq\<close> is the content of the file with the highest frequency, in kHz, where it can be read.\<close>

definition gebrd_cpu_info_get_clock :: "cstr \<Rightarrow> cpu_info \<Rightarrow> cstr" where
  "gebrd_cpu_info_get_clock freq info =
     (case freq of
        Some x \<Rightarrow>
          if x \<noteq> [] then Some (show_int (sgn (atoi x) * (\<bar>atoi x\<bar> div 1000))) else gebrd_cpu_info_get info 0 ''cpu MHz''
      | None \<Rightarrow> gebrd_cpu_info_get info 0 ''cpu MHz'')"

section \<open>Memory\<close>

definition gebrd_mem_info_new_from_file :: "cstr \<Rightarrow> (string \<rightharpoonup> string) option" where
  "gebrd_mem_info_new_from_file contents = map_option (\<lambda>x. fold add_property (get_lines x) Map.empty) contents"

definition gebrd_mem_info_get :: "(string \<rightharpoonup> string) \<Rightarrow> string \<Rightarrow> cstr" where
  "gebrd_mem_info_get info prop = info prop"

section \<open>One table for each processor\<close>

text \<open>The text of a file with one block for each processor.\<close>

definition line_of :: "string \<times> string \<Rightarrow> string" where
  "line_of kx = fst kx @ '': '' @ snd kx @ [NL]"

definition block :: "(string \<times> string) list \<Rightarrow> string" where
  "block kxs = concat (map line_of kxs) @ [NL]"

definition plain_entry :: "string \<times> string \<Rightarrow> bool" where
  "plain_entry kx \<longleftrightarrow>
     (let (k, x) = kx in k \<noteq> [] \<and> CHR '':'' \<notin> set k \<and> NL \<notin> set k \<and> NL \<notin> set x \<and> g_strstrip k = k \<and> g_strstrip x = x)"

lemma get_lines_line: "NL \<notin> set l \<Longrightarrow> get_lines (l @ NL # s) = (l @ [NL]) # get_lines s"
  by (induction l) (auto split: list.splits)

lemma strip_line: "g_strstrip x = x \<Longrightarrow> g_strstrip (CHR '' '' # x @ [NL]) = x"
proof (cases "\<forall>c\<in>set x. is_space c")
  case True
  assume "g_strstrip x = x"
  then have "x = []" using True g_strstrip_all_space [of x] by simp
  then show ?thesis by (simp add: g_strstrip_def g_strchug_def g_strchomp_def is_space_def code_def)
next
  case False
  assume x: "g_strstrip x = x"
  have "is_space (CHR '' '')" "is_space NL" by (simp_all add: is_space_def code_def)
  then have "g_strstrip (CHR '' '' # x @ [NL]) = g_strstrip x"
    using False by (auto simp: g_strstrip_def g_strchug_def g_strchomp_def dropWhile_append)
  then show ?thesis using x by simp
qed

lemma property_of_line:
  assumes "plain_entry (k, x)"
  shows "property_of (line_of (k, x)) = Some (k, x)"
proof -
  have "strstr (k @ CHR '':'' # CHR '' '' # x @ [NL]) '':'' = Some (length k)"
    using assms by (intro strstr_char_first) (simp add: plain_entry_def)
  then show ?thesis
    using assms strip_line [of x] by (simp add: property_of_def line_of_def plain_entry_def)
qed

lemma get_lines_block:
  assumes "list_all plain_entry kxs"
  shows "get_lines (block kxs @ s) = map line_of kxs @ [NL] # get_lines s"
  using assms
proof (induction kxs)
  case Nil
  then show ?case by (simp add: block_def)
next
  case (Cons e kxs)
  obtain k x where e: "e = (k, x)" by force
  have "NL \<notin> set (k @ CHR '':'' # CHR '' '' # x)"
    using Cons.prems e by (auto simp: plain_entry_def)
  from get_lines_line [OF this] Cons show ?case
    by (simp add: block_def e line_of_def)
qed

lemma line_of_starts: "plain_entry e \<Longrightarrow> hd (line_of e) \<noteq> NL"
  by (cases e) (auto simp: plain_entry_def line_of_def neq_Nil_conv)

definition put_entry :: "string \<times> string \<Rightarrow> (string \<rightharpoonup> string) \<Rightarrow> (string \<rightharpoonup> string)" where
  "put_entry kx m = m(fst kx \<mapsto> snd kx)"

lemma put_entry_pair [simp]: "put_entry (k, x) m = m(k \<mapsto> x)"
  by (simp add: put_entry_def)

lemma read_cores_block:
  assumes "list_all plain_entry kxs"
  shows "read_cores False (map line_of kxs @ ls) (m # ms) = read_cores False ls (fold put_entry kxs m # ms)"
  using assms
proof (induction kxs arbitrary: m)
  case Nil
  then show ?case by simp
next
  case (Cons e kxs)
  obtain k x where e: "e = (k, x)" by force
  show ?case
    using Cons line_of_starts [of e] by (simp add: add_property_def e property_of_line)
qed

definition table :: "(string \<times> string) list \<Rightarrow> (string \<rightharpoonup> string)" where
  "table kxs = fold put_entry kxs Map.empty"

lemma no_property: "property_of [NL] = None"
  by (simp add: property_of_def)

lemma read_cores_one:
  assumes "list_all plain_entry kxs"
  shows "read_cores True (map line_of kxs @ [NL] # ls) cores = read_cores True ls (table kxs # cores)"
proof (cases kxs)
  case Nil
  then show ?thesis by (simp add: table_def add_property_def no_property)
next
  case (Cons e es)
  obtain k x where e: "e = (k, x)" by force
  show ?thesis
    using assms read_cores_block [of es "[NL] # ls"] line_of_starts [of e]
    by (simp add: Cons table_def add_property_def no_property property_of_line e)
qed

lemma read_cores_blocks:
  assumes "\<forall>b\<in>set bs. list_all plain_entry b"
  shows "read_cores True (get_lines (concat (map block bs))) cores = rev (map table bs) @ cores"
  using assms
proof (induction bs arbitrary: cores)
  case (Cons b bs)
  then show ?case by (simp add: get_lines_block read_cores_one)
qed simp

text \<open>
  From a file with one block of properties for each processor the daemon counts the blocks, and reads the
  properties of its processor 0 from the last block.
\<close>
theorem processors_counted:
  assumes "\<forall>b\<in>set bs. list_all plain_entry b"
  shows "\<exists>info. gebrd_cpu_info_new_from_file (Some (concat (map block bs))) = Some info \<and>
     gebrd_cpu_info_n_procs info = length bs \<and>
     (bs \<noteq> [] \<longrightarrow> gebrd_cpu_info_get info 0 prop = table (last bs) prop)"
  using read_cores_blocks [OF assms, of "[]"]
  by (auto simp: gebrd_cpu_info_new_from_file_def gebrd_cpu_info_n_procs_def gebrd_cpu_info_get_def hd_conv_nth [symmetric]
      hd_map hd_rev last_map simp flip: rev_map)

theorem processors_counted_witness:
  "\<exists>info. gebrd_cpu_info_new_from_file (Some (concat (map block [[(''cpu MHz'', ''800'')], [(''cpu MHz'', ''3200'')]]))) = Some info \<and>
     gebrd_cpu_info_n_procs info = 2 \<and> gebrd_cpu_info_get info 0 ''cpu MHz'' = Some ''3200''"
proof -
  have "\<forall>b\<in>set [[(''cpu MHz'', ''800'')], [(''cpu MHz'', ''3200'')]]. list_all plain_entry b"
    by (simp add: plain_entry_def g_strstrip_def g_strchomp_def g_strchug_def is_space_def code_def)
  from processors_counted [OF this, of "''cpu MHz''"] show ?thesis by (auto simp: table_def)
qed

end
