(* ===== verification/Geoxml_Line.thy ===== *)
theory Geoxml_Line
  imports Utils
begin

text \<open>
  Lines and their paths (\<open>libgebr/geoxml/line.c\<close>), and the list of paths that the client sends and the daemon reads
  (\<open>parse_comma_separated_string\<close> of \<open>gebrd/gebrd-client.c\<close>).
\<close>

section \<open>Lines\<close>

text \<open>The elements of the document: the paths with their names, the sources of the flows, the maestro.\<close>

record xline =
  ln_paths :: "(string \<times> string) list"
  ln_flows :: "string list"
  ln_nfs_id :: string
  ln_nfs_label :: string

definition gebr_geoxml_line_new :: xline where
  "gebr_geoxml_line_new = \<lparr>ln_paths = [], ln_flows = [], ln_nfs_id = [], ln_nfs_label = []\<rparr>"

definition gebr_geoxml_line_append_flow :: "string \<Rightarrow> xline \<Rightarrow> xline" where
  "gebr_geoxml_line_append_flow source l = l\<lparr>ln_flows := ln_flows l @ [source]\<rparr>"

definition gebr_geoxml_line_get_flow :: "nat \<Rightarrow> xline \<Rightarrow> string option" where
  "gebr_geoxml_line_get_flow i l = (if i < length (ln_flows l) then Some (ln_flows l ! i) else None)"

definition gebr_geoxml_line_get_flows_number :: "xline \<Rightarrow> nat" where
  "gebr_geoxml_line_get_flows_number l = length (ln_flows l)"

definition gebr_geoxml_line_set_flow_source :: "nat \<Rightarrow> string \<Rightarrow> xline \<Rightarrow> xline" where
  "gebr_geoxml_line_set_flow_source i source l = l\<lparr>ln_flows := (ln_flows l)[i := source]\<rparr>"

definition gebr_geoxml_line_get_maestro :: "xline \<Rightarrow> string" where
  "gebr_geoxml_line_get_maestro l = ln_nfs_id l"

definition gebr_geoxml_line_get_maestro_label :: "xline \<Rightarrow> string" where
  "gebr_geoxml_line_get_maestro_label l = ln_nfs_label l"

definition gebr_geoxml_line_set_maestro :: "string \<Rightarrow> xline \<Rightarrow> xline" where
  "gebr_geoxml_line_set_maestro nfsid l = l\<lparr>ln_nfs_id := nfsid\<rparr>"

section \<open>Paths\<close>

definition gebr_geoxml_line_append_path :: "string \<Rightarrow> cstr \<Rightarrow> xline \<Rightarrow> xline" where
  "gebr_geoxml_line_append_path name path l =
     (case path of None \<Rightarrow> l | Some p \<Rightarrow> l\<lparr>ln_paths := ln_paths l @ [(name, p)]\<rparr>)"

definition gebr_geoxml_line_get_path :: "nat \<Rightarrow> xline \<Rightarrow> (string \<times> string) option" where
  "gebr_geoxml_line_get_path i l = (if i < length (ln_paths l) then Some (ln_paths l ! i) else None)"

definition gebr_geoxml_line_get_paths_number :: "xline \<Rightarrow> nat" where
  "gebr_geoxml_line_get_paths_number l = length (ln_paths l)"

text \<open>The first path with the name, as its index.\<close>

fun path_index :: "string \<Rightarrow> (string \<times> string) list \<Rightarrow> nat option" where
  "path_index name [] = None"
| "path_index name (np # nps) = (if fst np = name then Some 0 else map_option Suc (path_index name nps))"

definition gebr_geoxml_line_get_path_sequence_by_name :: "string \<Rightarrow> xline \<Rightarrow> nat option" where
  "gebr_geoxml_line_get_path_sequence_by_name name l = path_index name (ln_paths l)"

definition set_path :: "nat \<Rightarrow> string \<Rightarrow> xline \<Rightarrow> xline" where
  "set_path i value l = l\<lparr>ln_paths := (ln_paths l)[i := (fst (ln_paths l ! i), value)]\<rparr>"

definition gebr_geoxml_line_set_path_by_name :: "string \<Rightarrow> string \<Rightarrow> xline \<Rightarrow> xline" where
  "gebr_geoxml_line_set_path_by_name name value l =
     (case gebr_geoxml_line_get_path_sequence_by_name name l of
        None \<Rightarrow> gebr_geoxml_line_append_path name (Some value) l
      | Some i \<Rightarrow> set_path i value l)"

definition gebr_geoxml_line_get_path_by_name :: "string \<Rightarrow> xline \<Rightarrow> cstr" where
  "gebr_geoxml_line_get_path_by_name name l =
     map_option (\<lambda>i. snd (ln_paths l ! i)) (gebr_geoxml_line_get_path_sequence_by_name name l)"

definition gebr_geoxml_line_get_import_path :: "xline \<Rightarrow> string" where
  "gebr_geoxml_line_get_import_path l = nonempty_or [] (gebr_geoxml_line_get_path_by_name ''IMPORT'' l)"

text \<open>The value of a path that is there is set to its name.\<close>

definition gebr_geoxml_line_set_import_path :: "string \<Rightarrow> xline \<Rightarrow> xline" where
  "gebr_geoxml_line_set_import_path import_path l =
     (case path_index ''IMPORT'' (ln_paths l) of
        None \<Rightarrow> gebr_geoxml_line_append_path ''IMPORT'' (Some import_path) l
      | Some i \<Rightarrow> set_path i ''IMPORT'' l)"

definition base_dirs :: "(string \<times> string) list" where
  "base_dirs = [(''BASE'', []), (''DATA'', ''data''), (''EXPORT'', ''export''), (''TMP'', ''tmp''), (''TABLE'', ''table''),
     (''MISC'', ''misc'')]"

text \<open>GLib: the two names with one separator between them; an empty name is ignored.\<close>

definition g_build_filename :: "string \<Rightarrow> string \<Rightarrow> string" where
  "g_build_filename a b =
     (if a = [] then b else if b = [] then a
      else rev (dropWhile (\<lambda>c. c = CHR ''/'') (rev a)) @ ''/'' @ dropWhile (\<lambda>c. c = CHR ''/'') b)"

definition base_path :: "cstr \<Rightarrow> string \<Rightarrow> string \<Rightarrow> string" where
  "base_path home base dir = gebr_path_set_to home (g_build_filename base dir) True"

definition gebr_geoxml_line_set_base_path :: "cstr \<Rightarrow> string \<Rightarrow> xline \<Rightarrow> xline" where
  "gebr_geoxml_line_set_base_path home base l =
     l\<lparr>ln_paths := filter (\<lambda>np. fst np = ''HOME'') (ln_paths l) @ map (\<lambda>(name, dir). (name, base_path home base dir)) base_dirs\<rparr>"

definition gebr_geoxml_line_get_paths :: "cstr \<Rightarrow> xline \<Rightarrow> (string \<times> string) list" where
  "gebr_geoxml_line_get_paths home l = map (\<lambda>(name, path). (gebr_path_set_to home path False, name)) (ln_paths l)"

section \<open>Lists of paths\<close>

definition gebr_geoxml_escape_path :: "string \<Rightarrow> string" where
  "gebr_geoxml_escape_path path = g_strjoinv '',,'' (g_strsplit path '','' (-1))"

definition joined_paths :: "string list \<Rightarrow> string" where
  "joined_paths ps = tl (concat (map (\<lambda>p. CHR '','' # gebr_geoxml_escape_path p) ps))"

definition gebr_geoxml_get_paths_for_base :: "cstr \<Rightarrow> string \<Rightarrow> string" where
  "gebr_geoxml_get_paths_for_base home base = joined_paths (map (\<lambda>(name, dir). base_path home base dir) base_dirs)"

text \<open>A path ends at a single comma, or with the last character when that is not part of a double comma.\<close>

fun parse_paths :: "cstr \<Rightarrow> string \<Rightarrow> string \<Rightarrow> string list" where
  "parse_paths home path [] = []"
| "parse_paths home path [c] =
     [fst (gebr_path_resolve_home_variable home (if c = CHR '','' then path else path @ [c]))]"
| "parse_paths home path (c # d # s) =
     (if c = CHR '','' \<and> d = CHR '','' then parse_paths home (path @ '','') s
      else if c = CHR '','' then fst (gebr_path_resolve_home_variable home path) # parse_paths home [] (d # s)
      else parse_paths home (path @ [c]) (d # s))"

definition parse_comma_separated_string :: "cstr \<Rightarrow> string \<Rightarrow> string list" where
  "parse_comma_separated_string home s = parse_paths home [] s"

section \<open>The paths of a line\<close>

lemma path_index_Some: "path_index name nps = Some i \<Longrightarrow> i < length nps \<and> fst (nps ! i) = name"
  by (induction nps arbitrary: i) (auto split: if_splits)

lemma path_index_append:
  "path_index name (xs @ ys) =
     (case path_index name xs of Some i \<Rightarrow> Some i | None \<Rightarrow> map_option (\<lambda>i. length xs + i) (path_index name ys))"
  by (induction xs; cases "path_index name ys") (auto split: option.splits)

lemma path_index_names: "map fst xs = map fst ys \<Longrightarrow> path_index name xs = path_index name ys"
proof (induction xs arbitrary: ys)
  case (Cons x xs)
  then show ?case by (cases ys) auto
qed simp

lemma names_set: "map fst (nps[i := (fst (nps ! i), value)]) = map fst nps"
  by (simp add: map_update) (metis length_map list_update_beyond list_update_id linorder_not_less nth_map)

lemmas path_index_set = path_index_names [OF names_set]

text \<open>
  Setting a path by name and reading it back gives the value, whether the name was there or not, and the
  other names keep their paths.
\<close>
theorem path_by_name:
  "gebr_geoxml_line_get_path_by_name name (gebr_geoxml_line_set_path_by_name name value l) = Some value \<and>
   (name' = name \<or>
    gebr_geoxml_line_get_path_by_name name' (gebr_geoxml_line_set_path_by_name name value l) =
      gebr_geoxml_line_get_path_by_name name' l)"
proof (cases "path_index name (ln_paths l)")
  case None
  then show ?thesis
    using path_index_Some [of name' "ln_paths l"]
    by (auto simp: gebr_geoxml_line_get_path_by_name_def gebr_geoxml_line_set_path_by_name_def nth_append
        gebr_geoxml_line_get_path_sequence_by_name_def gebr_geoxml_line_append_path_def path_index_append split: option.splits)
next
  case (Some i)
  note i = path_index_Some [OF Some]
  have "j \<noteq> i" if "path_index name' (ln_paths l) = Some j" "name' \<noteq> name" for j
    using that i path_index_Some [OF that(1)] by auto
  then have "name' \<noteq> name \<Longrightarrow> path_index name' (ln_paths l) = Some j \<Longrightarrow> (ln_paths l)[i := x] ! j = ln_paths l ! j" for j x
    by simp
  then have "name' = name \<or> map_option (\<lambda>j. snd ((ln_paths l)[i := x] ! j)) (path_index name' (ln_paths l)) =
      map_option (\<lambda>j. snd (ln_paths l ! j)) (path_index name' (ln_paths l))" for x
    by (cases "path_index name' (ln_paths l)"; cases "name' = name") simp_all
  then show ?thesis
    using Some i path_index_set [of name "ln_paths l" i "value"] path_index_set [of name' "ln_paths l" i "value"]
    by (auto simp: gebr_geoxml_line_get_path_by_name_def gebr_geoxml_line_set_path_by_name_def
        gebr_geoxml_line_get_path_sequence_by_name_def set_path_def split: option.splits)
qed

text \<open>A path of that name is set to the text IMPORT, whatever is to be set.\<close>

theorem import_path_lost:
  assumes "gebr_geoxml_line_get_path_by_name ''IMPORT'' l = Some old"
  shows "gebr_geoxml_line_get_import_path (gebr_geoxml_line_set_import_path p l) = ''IMPORT''"
proof -
  obtain i where i: "path_index ''IMPORT'' (ln_paths l) = Some i"
    using assms by (auto simp: gebr_geoxml_line_get_path_by_name_def gebr_geoxml_line_get_path_sequence_by_name_def)
  show ?thesis
    using i path_index_Some [OF i] path_index_set [of "''IMPORT''" "ln_paths l" i "''IMPORT''"]
    by (simp add: gebr_geoxml_line_get_import_path_def gebr_geoxml_line_set_import_path_def set_path_def
        gebr_geoxml_line_get_path_by_name_def gebr_geoxml_line_get_path_sequence_by_name_def nonempty_or_def)
qed

section \<open>Round trip\<close>

text \<open>A path with its commas doubled.\<close>

definition doubled :: "string \<Rightarrow> string" where
  "doubled p = concat (map (\<lambda>c. if c = CHR '','' then '',,'' else [c]) p)"

lemma doubled_simps [simp]:
  "doubled [] = []" "doubled (c # p) = (if c = CHR '','' then CHR '','' # CHR '','' # doubled p else c # doubled p)"
  by (simp_all add: doubled_def)

lemma doubled_append [simp]: "doubled (a @ b) = doubled a @ doubled b"
  by (simp add: doubled_def)

lemma doubled_plain: "CHR '','' \<notin> set p \<Longrightarrow> doubled p = p"
  by (induction p) auto

lemma join_split_doubled: "length s \<le> k \<Longrightarrow> g_strjoinv '',,'' (split_cuts k '','' s) = doubled s"
proof (induction k arbitrary: s)
  case 0
  then show ?case by simp
next
  case (Suc k)
  show ?case
  proof (cases "CHR '','' \<in> set s")
    case True
    then obtain a b where s: "s = a @ CHR '','' # b" "CHR '','' \<notin> set a" by (meson split_list_first)
    then have "g_strjoinv '',,'' (split_cuts k '','' b) = doubled b" using Suc by simp
    then show ?thesis
      using s join_char_decomp [OF s(2), of k b] by (simp add: g_strjoinv_Cons doubled_plain del: split_cuts.simps)
  next
    case False
    then have "strstr s '','' = None" by (simp add: strstr_char)
    then show ?thesis using False by (simp add: doubled_plain)
  qed
qed

lemma escape_doubled: "gebr_geoxml_escape_path p = doubled p"
  using join_split_doubled [of p "length p"] by (simp add: gebr_geoxml_escape_path_def g_strsplit_def)

abbreviation resolved :: "cstr \<Rightarrow> string \<Rightarrow> string" where
  "resolved home p \<equiv> fst (gebr_path_resolve_home_variable home p)"

lemma parse_path_then:
  assumes "d \<noteq> CHR '',''"
  shows "parse_paths home acc (doubled p @ CHR '','' # d # s) = resolved home (acc @ p) # parse_paths home [] (d # s)"
proof (induction p arbitrary: acc)
  case Nil
  then show ?case using assms by simp
next
  case (Cons c p)
  show ?case
  proof (cases "c = CHR '',''")
    case True
    then show ?thesis using Cons by simp
  next
    case False
    obtain e t where "doubled p @ CHR '','' # d # s = e # t" by (cases "doubled p") auto
    then show ?thesis using Cons [of "acc @ [c]"] False by simp
  qed
qed

lemma parse_last_path:
  assumes "p \<noteq> []" "last p \<noteq> CHR '',''"
  shows "parse_paths home acc (doubled p) = [resolved home (acc @ p)]"
  using assms
proof (induction p arbitrary: acc)
  case (Cons c p)
  show ?case
  proof (cases "p = []")
    case True
    then show ?thesis using Cons by simp
  next
    case False
    then have IH: "parse_paths home (acc @ [c]) (doubled p) = [resolved home (acc @ c # p)]"
      using Cons.IH [of "acc @ [c]"] Cons.prems by simp
    have "doubled p \<noteq> []" using False by (cases p) auto
    then obtain e t where "doubled p = e # t" by (cases "doubled p") auto
    then show ?thesis using IH False by (cases "c = CHR '',''") simp_all
  qed
qed simp

lemma joined_Cons:
  "ps \<noteq> [] \<Longrightarrow> joined_paths (p # ps) = doubled p @ CHR '','' # joined_paths ps"
  by (cases ps) (simp_all add: joined_paths_def escape_doubled)

text \<open>Paths that can be told apart: none is empty, none but the first begins with a comma, the last does not end with one.\<close>

fun separable :: "string list \<Rightarrow> bool" where
  "separable [] = True"
| "separable [p] = (p \<noteq> [] \<and> last p \<noteq> CHR '','')"
| "separable (p # q # ps) = (p \<noteq> [] \<and> q \<noteq> [] \<and> hd q \<noteq> CHR '','' \<and> separable (q # ps))"

lemma joined_starts: "q \<noteq> [] \<Longrightarrow> hd q \<noteq> CHR '','' \<Longrightarrow> \<exists>t. joined_paths (q # ps) = hd q # t"
  by (cases q; cases ps) (auto simp: joined_paths_def escape_doubled)

text \<open>
  The list of paths that is sent with each comma of a path doubled is read back as the same paths, with the home
  directory put in for its variable, when the paths can be told apart.
\<close>
theorem paths_round_trip:
  assumes "separable ps"
  shows "parse_comma_separated_string home (joined_paths ps) = map (resolved home) ps"
proof -
  have "parse_paths home [] (joined_paths ps) = map (resolved home) ps"
    using assms
  proof (induction ps rule: separable.induct)
    case 1
    then show ?case by (simp add: joined_paths_def)
  next
    case (2 p)
    then show ?case using parse_last_path [of p home "[]"] by (simp add: joined_paths_def escape_doubled)
  next
    case (3 p q ps)
    obtain t where "joined_paths (q # ps) = hd q # t" using 3 joined_starts [of q ps] by auto
    then show ?case using 3 parse_path_then [of "hd q" home "[]" p t] by (simp add: joined_Cons)
  qed
  then show ?thesis by (simp add: parse_comma_separated_string_def)
qed

theorem paths_round_trip_witness:
  "parse_comma_separated_string (Some ''/home/u'') (joined_paths [''/a,b'', ''$HOME/c'']) = [''/a,b'', ''/home/u/c'']"
  using paths_round_trip [of "[''/a,b'', ''$HOME/c'']" "Some ''/home/u''"]
  by (simp add: gebr_path_resolve_home_variable_def gebr_g_string_starts_with_def gebr_g_string_replace_first_ref_def)

text \<open>A last path that ends with a comma is not read.\<close>

theorem last_comma_loses_path:
  "parse_comma_separated_string home (joined_paths [p @ '','']) = []"
proof -
  have "parse_paths home acc (doubled p @ '',,'') = []" for acc
  proof (induction p arbitrary: acc)
    case (Cons c p)
    obtain e t where "doubled p @ '',,'' = e # t" by (cases "doubled p") auto
    then show ?case using Cons by (cases "c = CHR '',''") simp_all
  qed simp
  then show ?thesis by (simp add: parse_comma_separated_string_def joined_paths_def escape_doubled)
qed

end
