(* ===== verification/Gebrd_Client.thy ===== *)
theory Gebrd_Client
  imports Gebrd_Moab Gebrd_Info Geoxml_Line
begin

text \<open>
  The messages of the maestro to a daemon (\<open>client_old_parse_messages\<close> of \<open>gebrd/gebrd-client.c\<close>): login, displays,
  requests for jobs and directories, and the end of the daemon.
\<close>

section \<open>State\<close>

text \<open>
  What comes from elsewhere: the acceptance of a cookie, the version, the names and files of the machine, the
  identifiers of new jobs, the credentials of MOAB.
\<close>

record client_env =
  cn_gebrd :: gebrd_env
  cn_jid :: "gjob_ref \<Rightarrow> string"
  cn_accepts :: "string \<Rightarrow> bool"
  cn_version :: string
  cn_host :: string
  cn_fs_lock :: string
  cn_daemon_id :: string
  cn_home :: string
  cn_accounts :: string
  cn_cpuinfo :: cstr
  cn_meminfo :: cstr
  cn_freq :: cstr
  cn_has_gebrm :: bool

text \<open>The file system, with a state of its own.\<close>

record 'f fs_ops =
  fo_is_dir :: "string \<Rightarrow> 'f \<Rightarrow> bool"
  fo_mkdir :: "string \<Rightarrow> 'f \<Rightarrow> bool \<times> 'f"
  fo_writable :: "string \<Rightarrow> 'f \<Rightarrow> bool"
  fo_rename :: "string \<Rightarrow> string \<Rightarrow> 'f \<Rightarrow> bool \<times> 'f"
  fo_rmdir :: "string \<Rightarrow> 'f \<Rightarrow> bool \<times> 'f"

text \<open>The daemon with its connection.\<close>

record 'f daemon_client =
  dc_gebrd :: gebrd
  dc_queue :: "message list"
  dc_logged :: bool
  dc_hostname :: string
  dc_cookie :: cstr
  dc_files :: 'f

text \<open>
  A message ends in behaviour without a meaning, in an error (the daemon quits), in the next message, or at once.
\<close>

datatype 'a handled = Undefined | Rejected 'a | Handled 'a | Left 'a

definition with_args :: "nat \<Rightarrow> message \<Rightarrow> (string list \<Rightarrow> 'f daemon_client \<Rightarrow> 'f daemon_client handled) \<Rightarrow> 'f daemon_client \<Rightarrow> 'f daemon_client handled" where
  "with_args k m f c =
     (case gebr_comm_protocol_split_new (argument m) k of
        Inr as \<Rightarrow> f as c
      | Inl SplitRejected \<Rightarrow> Rejected c
      | Inl SplitUndefined \<Rightarrow> Undefined)"

definition on_gebrd :: "(gebrd \<Rightarrow> gebrd option) \<Rightarrow> 'f daemon_client \<Rightarrow> 'f daemon_client handled" where
  "on_gebrd f c = (case f (dc_gebrd c) of None \<Rightarrow> Undefined | Some w \<Rightarrow> Handled (c\<lparr>dc_gebrd := w\<rparr>))"

definition tell :: "gebrd_event \<Rightarrow> 'f daemon_client \<Rightarrow> 'f daemon_client" where
  "tell e c = c\<lparr>dc_gebrd := event e (dc_gebrd c)\<rparr>"

section \<open>Login\<close>

text \<open>\<open>get_mpi_flavors\<close> puts each name in front; the last comma is erased.\<close>

definition get_mpi_flavors :: "mpi_config \<Rightarrow> string \<Rightarrow> string" where
  "get_mpi_flavors config fs = mc_name config @ CHR '','' # fs"

definition flavors_text :: "mpi_config list \<Rightarrow> string" where
  "flavors_text configs = butlast (fold get_mpi_flavors configs [])"

definition ini_answer :: "client_env \<Rightarrow> gebrd \<Rightarrow> cstr list option" where
  "ini_answer env w =
     (case (gebrd_cpu_info_new_from_file (cn_cpuinfo env), gebrd_mem_info_new_from_file (cn_meminfo env)) of
        (Some cpu, Some mem) \<Rightarrow>
          Some [Some (cn_host env), Some (if ge_moab (cn_gebrd env) then ''moab'' else ''regular''),
            Some (if ge_moab (cn_gebrd env) then cn_accounts env else []), gebrd_cpu_info_get cpu 0 ''model name'',
            gebrd_mem_info_get mem ''MemTotal'', Some (cn_fs_lock env), Some (show_nat (gebrd_cpu_info_n_procs cpu)),
            gebrd_cpu_info_get_clock (cn_freq env) cpu, Some (cn_daemon_id env), Some (cn_home env),
            Some (flavors_text (gd_flavors w)), Some (if cn_has_gebrm env then ''1'' else ''0'')]
      | _ \<Rightarrow> None)"

definition handle_ini :: "client_env \<Rightarrow> string list \<Rightarrow> 'f daemon_client \<Rightarrow> 'f daemon_client handled" where
  "handle_ini env as c =
     (if \<not> cn_accepts env (as ! 2) then Rejected (tell (Send err_def [''cookie'', as ! 2]) c)
      else if as ! 0 \<noteq> cn_version env then Rejected (tell (Send err_def [''protocol'', cn_version env]) c)
      else
        (case ini_answer env (dc_gebrd c) of
           None \<Rightarrow> Undefined
         | Some answer \<Rightarrow>
             Handled (tell (Return ini_def answer) (c\<lparr>dc_logged := True, dc_hostname := as ! 1, dc_cookie := Some (as ! 2)\<rparr>))))"

text \<open>The display of a client, whose number is printed as a signed 32 bit number; \<open>xauth\<close> runs when there is a cookie.\<close>

definition handle_gid :: "client_env \<Rightarrow> string list \<Rightarrow> 'f daemon_client \<Rightarrow> 'f daemon_client handled" where
  "handle_gid env as c =
     (let port = show_int (sint (word_of_int (atoi (as ! 3) - 6000) :: 32 word)); w = dc_gebrd c;
          c = c\<lparr>dc_gebrd := w\<lparr>gd_displays := (gd_displays w)(as ! 0 := Some (as ! 2 @ '':'' @ port))\<rparr>\<rparr>
      in Handled (if as ! 1 \<noteq> [] \<and> \<not> ge_moab (cn_gebrd env) then tell (Authorize ('':'' @ port) (as ! 1)) c else c))"

section \<open>Directories\<close>

text \<open>
  Creating: the flags for an error and for a directory that was there, and the files. An error ends the loop.
\<close>

fun create_paths :: "'f fs_ops \<Rightarrow> string list \<Rightarrow> bool \<Rightarrow> 'f \<Rightarrow> (bool \<times> bool) \<times> 'f" where
  "create_paths fo [] exists w = ((False, exists), w)"
| "create_paths fo (p # ps) exists w =
     (let (failed, exists, w) =
            (if fo_is_dir fo p w then (False, True, w)
             else if p \<noteq> [] then (let (ok, w) = fo_mkdir fo p w in (\<not> ok, exists, w))
             else (False, exists, w))
      in if failed \<or> \<not> fo_writable fo p w then ((True, exists), w) else create_paths fo ps exists w)"

text \<open>Deleting: the status of the last directory counts.\<close>

fun delete_paths :: "'f fs_ops \<Rightarrow> string list \<Rightarrow> int \<Rightarrow> 'f \<Rightarrow> int \<times> 'f" where
  "delete_paths fo [] status w = (status, w)"
| "delete_paths fo (p # ps) status w =
     (let (ok, w) = fo_rmdir fo p w in delete_paths fo ps (if ok then 0 else 2) w)"

text \<open>The status: 0 is success, 1 a directory that was there, 2 an error.\<close>

definition path_status :: "'f fs_ops \<Rightarrow> client_env \<Rightarrow> string list \<Rightarrow> 'f \<Rightarrow> int \<times> 'f" where
  "path_status fo env as w =
     (let paths = parse_comma_separated_string (Some (cn_home env)) (as ! 0) in
      case gebr_comm_protocol_path_str_to_enum (Some (as ! 2)) of
        PATH_CREATE \<Rightarrow>
          (let ((failed, exists), w) = create_paths fo paths False w in (if failed then 2 else if exists then 1 else 0, w))
      | PATH_RENAME \<Rightarrow>
          (let exists = fo_is_dir fo (as ! 0) w; (ok, w) = fo_rename fo (as ! 1) (as ! 0) w
           in (if \<not> exists \<and> ok then 0 else if exists \<and> \<not> ok then 1 else if \<not> exists then 2 else -1, w))
      | PATH_DELETE \<Rightarrow> delete_paths fo paths (-1) w)"

definition handle_path :: "'f fs_ops \<Rightarrow> client_env \<Rightarrow> string list \<Rightarrow> 'f daemon_client \<Rightarrow> 'f daemon_client handled" where
  "handle_path fo env as c =
     (let (status, w) = path_status fo env as (dc_files c)
      in Handled (tell (Return path_def [Some (cn_host env), Some (show_int status)]) (c\<lparr>dc_files := w\<rparr>)))"

section \<open>Jobs\<close>

definition request_of :: "string list \<Rightarrow> run_request" where
  "request_of as =
     \<lparr>rq_gid = as ! 0, rq_id = as ! 1, rq_frac = as ! 2, rq_numproc = as ! 3, rq_nice = as ! 4, rq_flow = as ! 5,
      rq_paths = as ! 6, rq_account = as ! 7, rq_mpi = as ! 8\<rparr>"

definition handle_run :: "nat \<Rightarrow> client_env \<Rightarrow> string list \<Rightarrow> 'f daemon_client \<Rightarrow> 'f daemon_client handled" where
  "handle_run n env as c =
     on_gebrd (\<lambda>w. client_run n (cn_gebrd env) (cn_jid env (gd_next w)) (request_of as) w) c"

section \<open>The messages\<close>

definition handle_client_message ::
    "nat \<Rightarrow> client_env \<Rightarrow> 'f fs_ops \<Rightarrow> message \<Rightarrow> 'f daemon_client \<Rightarrow> 'f daemon_client handled" where
  "handle_client_message n env fo m c =
     (if hash m = code_hash ini_def then with_args 3 m (handle_ini env) c
      else if hash m = code_hash gid_def then with_args 4 m (handle_gid env) c
      else if \<not> dc_logged c then Rejected c
      else if hash m = code_hash qut_def then Left (tell Drop c)
      else if hash m = code_hash lst_def then on_gebrd (\<lambda>w. Some (job_list w)) c
      else if hash m = code_hash run_def then with_args 9 m (handle_run n env) c
      else if hash m = code_hash rnq_def \<or> hash m = code_hash flw_def then Handled c
      else if hash m = code_hash clr_def
      then with_args 1 m (\<lambda>as. on_gebrd (on_job (as ! 0) (\<lambda>j w. Some (job_clear j w)))) c
      else if hash m = code_hash end_def
      then with_args 1 m (\<lambda>as. on_gebrd (on_job (as ! 0) (job_end n (cn_gebrd env)))) c
      else if hash m = code_hash kil_def
      then with_args 1 m (\<lambda>as. on_gebrd (on_job (as ! 0) (job_kill n (cn_gebrd env)))) c
      else if hash m = code_hash path_def then with_args 3 m (handle_path fo env) c
      else if hash m = code_hash harakiri_def then on_gebrd (gebrd_quit n (cn_gebrd env)) c
      else Rejected c)"

definition take_message :: "'f daemon_client \<Rightarrow> 'f daemon_client" where
  "take_message c = c\<lparr>dc_queue := butlast (dc_queue c)\<rparr>"

definition client_disconnected :: "nat \<Rightarrow> client_env \<Rightarrow> 'f daemon_client \<Rightarrow> 'f daemon_client option" where
  "client_disconnected n env c = map_option (\<lambda>w. c\<lparr>dc_gebrd := w\<rparr>) (gebrd_quit n (cn_gebrd env) (dc_gebrd c))"

text \<open>The messages, the oldest first. None of them puts a message into the queue.\<close>

fun client_loop :: "nat \<Rightarrow> client_env \<Rightarrow> 'f fs_ops \<Rightarrow> message list \<Rightarrow> 'f daemon_client \<Rightarrow> 'f daemon_client option" where
  "client_loop n env fo [] c = Some c"
| "client_loop n env fo (m # ms) c =
     (case handle_client_message n env fo m c of
        Undefined \<Rightarrow> None
      | Rejected c \<Rightarrow> client_disconnected n env (take_message c)
      | Handled c \<Rightarrow> client_loop n env fo ms (take_message c)
      | Left c \<Rightarrow> Some c)"

definition client_old_parse_messages :: "nat \<Rightarrow> client_env \<Rightarrow> 'f fs_ops \<Rightarrow> 'f daemon_client \<Rightarrow> 'f daemon_client option" where
  "client_old_parse_messages n env fo c = client_loop n env fo (rev (dc_queue c)) c"

end
