(* ===== verification/Gebrd_Login.thy ===== *)
theory Gebrd_Login
  imports Gebrd_Client
begin

text \<open>
  What a daemon does for whom: nothing is run before a login that was accepted, a request that a runner sends is run
  with its arguments, and the flavors of MPI are told to the maestro.
\<close>

section \<open>Before the login\<close>

text \<open>
  What can be heard of messages without a login: texts to the maestro, the end of the daemon, and \<open>xauth\<close> for a display
  (the message GID is handled before the login is asked for).
\<close>

definition outsider_event :: "client_env \<Rightarrow> message list \<Rightarrow> gebrd_event \<Rightarrow> bool" where
  "outsider_event env ms e \<longleftrightarrow>
     (\<exists>d as. e = Send d as) \<or> e = Quit \<or>
     (\<exists>m\<in>set ms. \<exists>as display. hash m = code_hash gid_def \<and> gebr_comm_protocol_split_new (argument m) 4 = Inr as \<and>
        as ! 1 \<noteq> [] \<and> e = Authorize display (as ! 1))"

text \<open>The daemon quits: messages are sent, the list of jobs stays.\<close>

definition quiet :: "(gebrd_event \<Rightarrow> bool) \<Rightarrow> gebrd \<Rightarrow> gebrd \<Rightarrow> bool" where
  "quiet P w w' \<longleftrightarrow>
     gd_jobs w' = gd_jobs w \<and> (childless w \<longrightarrow> childless w') \<and>
     (\<exists>es. gd_events w' = gd_events w @ es \<and> list_all P es \<and> (Quit \<notin> set es \<longrightarrow> gd_objs w' = gd_objs w))"

lemma quiet_refl: "quiet P w w"
  by (simp add: quiet_def)

lemma quiet_trans: "quiet P w w' \<Longrightarrow> quiet P w' w'' \<Longrightarrow> quiet P w w''"
  by (auto simp: quiet_def)

lemma quiet_event: "P e \<Longrightarrow> quiet P w (event e w)"
  by (simp add: quiet_def)

definition told_only :: "(gebrd_event \<Rightarrow> bool) \<Rightarrow> gebrd \<Rightarrow> gebrd \<Rightarrow> bool" where
  "told_only P w w' \<longleftrightarrow> gd_jobs w' = gd_jobs w \<and> childless w' \<and> (\<exists>es. gd_events w' = gd_events w @ es \<and> list_all P es)"

lemma each_failed_told:
  assumes "childless w" "each_child (\<lambda>j. job_status_notify n env j st par) js w = Some w'" "\<And>d as. P (Send d as)"
  shows "told_only P w w'"
  using assms(1,2)
proof (induction js arbitrary: w)
  case Nil
  then show ?case by (simp add: told_only_def)
next
  case (Cons j js)
  have c: "gj_children (gd_objs w j) = []" using Cons.prems(1) by (simp add: childless_def)
  obtain w1 where w1: "job_status_notify n env j st par w = Some w1"
      "each_child (\<lambda>j. job_status_notify n env j st par) js w1 = Some w'"
    using Cons.prems(2) by (auto simp: bind_eq_Some_conv)
  from w1(1) obtain x where "w1 = reported j st x (with_status j st w)"
    by (auto simp: job_status_notify_def notify_conv [OF c])
  then have 1: "told_only P w w1" using Cons.prems(1) assms(3) by (simp add: told_only_def reported_def Let_def)
  then have "childless w1" by (simp add: told_only_def)
  then have "told_only P w1 w'" by (rule Cons.IH [OF _ w1(2)])
  then show ?case using 1 by (auto simp: told_only_def)
qed

lemma quiet_quit:
  assumes "childless w" "gebrd_quit n env w = Some w'" "\<And>d as. P (Send d as)" "P Quit"
  shows "quiet P w w'"
proof -
  obtain w1 where w1: "each_child (\<lambda>j. job_status_notify n env j JOB_STATUS_FAILED (ge_now env)) (gd_jobs w) w = Some w1" "w' = event Quit w1"
    using assms(2) by (auto simp: gebrd_quit_def)
  from each_failed_told [OF assms(1) w1(1), of P] assms(3) show ?thesis
    using assms(4) by (auto simp: told_only_def quiet_def w1(2))
qed

text \<open>A login that the daemon accepts.\<close>

definition good_login :: "client_env \<Rightarrow> message \<Rightarrow> bool" where
  "good_login env m \<longleftrightarrow>
     hash m = code_hash ini_def \<and>
     (\<exists>as. gebr_comm_protocol_split_new (argument m) 3 = Inr as \<and> cn_accepts env (as ! 2) \<and> as ! 0 = cn_version env)"

lemma split_delivered:
  assumes "list_all (\<lambda>a. arg_fits (nonempty_or [] a)) args" "length args = k"
  shows "gebr_comm_protocol_split_new (argument (delivered d r (build_args args))) k = Inr (map (nonempty_or []) args)"
  using split_loop_build_args [OF assms(1)] assms(2) by (simp add: gebr_comm_protocol_split_new_def)

lemma gid_not_ini: "code_hash gid_def \<noteq> code_hash ini_def"
  by (simp add: message_defs gebr_comm_message_def_create_def g_str_hash_def signed_code_def code_def)

lemma tell_read [simp]:
  "dc_gebrd (tell e c) = event e (dc_gebrd c)" "dc_logged (tell e c) = dc_logged c" "dc_queue (tell e c) = dc_queue c"
  by (simp_all add: tell_def)

definition outside :: "(gebrd_event \<Rightarrow> bool) \<Rightarrow> 'f daemon_client \<Rightarrow> 'f daemon_client \<Rightarrow> bool" where
  "outside P c c' \<longleftrightarrow> quiet P (dc_gebrd c) (dc_gebrd c') \<and> \<not> dc_logged c' \<and> dc_files c' = dc_files c"

lemma tell_files [simp]: "dc_files (tell e c) = dc_files c"
  by (simp add: tell_def)

lemma bad_login_outside:
  assumes "\<not> dc_logged c" "\<not> (cn_accepts env (as ! 2) \<and> as ! 0 = cn_version env)" "\<And>d as. P (Send d as)"
  shows "\<exists>c'. handle_ini env as c = Rejected c' \<and> outside P c c'"
  using assms by (auto simp: handle_ini_def outside_def quiet_event)

lemma gid_outside:
  assumes "\<not> dc_logged c" "\<And>display. as ! 1 \<noteq> [] \<Longrightarrow> P (Authorize display (as ! 1))"
  shows "\<exists>c'. handle_gid env as c = Handled c' \<and> outside P c c'"
  using assms by (auto simp: handle_gid_def Let_def outside_def quiet_def childless_def tell_def)

lemma message_outside:
  assumes "\<not> dc_logged c" "\<not> good_login env m" "handle_client_message n env fo m c \<noteq> Undefined"
    and P: "\<And>e. outsider_event env [m] e \<Longrightarrow> P e"
  shows "\<exists>c'. (handle_client_message n env fo m c = Handled c' \<or> handle_client_message n env fo m c = Rejected c') \<and> outside P c c'"
proof -
  have same: "outside P c c" using assms(1) by (simp add: outside_def quiet_refl)
  consider "hash m = code_hash ini_def" | "hash m = code_hash gid_def" | "hash m \<noteq> code_hash ini_def" "hash m \<noteq> code_hash gid_def"
    by blast
  then show ?thesis
  proof cases
    case 1
    have send: "P (Send d as)" for d as by (rule P) (simp add: outsider_event_def)
    show ?thesis
    proof (cases "gebr_comm_protocol_split_new (argument m) 3")
      case (Inl e)
      then show ?thesis using 1 same assms(3) by (cases e) (auto simp: handle_client_message_def with_args_def)
    next
      case (Inr as)
      then have "\<not> (cn_accepts env (as ! 2) \<and> as ! 0 = cn_version env)" using assms(2) 1 by (auto simp: good_login_def)
      from bad_login_outside [OF assms(1) this, of P] send show ?thesis
        using 1 Inr by (auto simp: handle_client_message_def with_args_def)
    qed
  next
    case 2
    show ?thesis
    proof (cases "gebr_comm_protocol_split_new (argument m) 4")
      case (Inl e)
      then show ?thesis using 2 gid_not_ini same assms(3) by (cases e) (auto simp: handle_client_message_def with_args_def)
    next
      case (Inr as)
      then have "P (Authorize display (as ! 1))" if "as ! 1 \<noteq> []" for display
        by (intro P) (use 2 that in \<open>auto simp: outsider_event_def\<close>)
      from gid_outside [OF assms(1), of as P, OF this] show ?thesis
        using 2 Inr gid_not_ini by (auto simp: handle_client_message_def with_args_def)
    qed
  next
    case 3
    then show ?thesis using assms(1) same by (simp add: handle_client_message_def)
  qed
qed

lemma take_read [simp]: "dc_gebrd (take_message c) = dc_gebrd c" "dc_logged (take_message c) = dc_logged c"
  "dc_files (take_message c) = dc_files c"
  by (simp_all add: take_message_def)

lemma loop_outside:
  assumes "client_loop n env fo ms c = Some c'" "\<not> dc_logged c" "childless (dc_gebrd c)" "\<forall>m\<in>set ms. \<not> good_login env m"
    and P: "\<And>e. outsider_event env ms e \<Longrightarrow> P e"
  shows "outside P c c'"
  using assms
proof (induction ms arbitrary: c)
  case Nil
  then show ?case by (simp add: outside_def quiet_refl)
next
  case (Cons m ms)
  have "handle_client_message n env fo m c \<noteq> Undefined" using Cons.prems(1) by auto
  moreover have "P e" if "outsider_event env [m] e" for e
    using Cons.prems(5) [of e] that by (auto simp: outsider_event_def)
  ultimately obtain c1 where c1: "handle_client_message n env fo m c = Handled c1 \<or> handle_client_message n env fo m c = Rejected c1"
      "outside P c c1"
    using message_outside [OF Cons.prems(2), of env m n fo P] Cons.prems(4) by (metis list.set_intros(1))
  have kids: "childless (dc_gebrd c1)" using c1(2) Cons.prems(3) by (simp add: outside_def quiet_def)
  from c1(1) show ?case
  proof
    assume h: "handle_client_message n env fo m c = Handled c1"
    have "outside P (take_message c1) c'"
    proof (rule Cons.IH)
      show "P e" if "outsider_event env ms e" for e
        using Cons.prems(5) [of e] that by (auto simp: outsider_event_def)
    qed (use h Cons.prems c1(2) kids in \<open>auto simp: outside_def\<close>)
    then show ?thesis using c1(2) by (auto simp: outside_def intro: quiet_trans)
  next
    assume "handle_client_message n env fo m c = Rejected c1"
    then obtain w where w: "gebrd_quit n (cn_gebrd env) (dc_gebrd c1) = Some w" "c' = (take_message c1)\<lparr>dc_gebrd := w\<rparr>"
      using Cons.prems(1) by (auto simp: client_disconnected_def)
    have "P (Send d as)" "P Quit" for d as by (rule Cons.prems(5), simp add: outsider_event_def)+
    then show ?thesis
      using quiet_quit [OF kids w(1), of P] w(2) c1(2) by (auto simp: outside_def intro: quiet_trans)
  qed
qed

text \<open>
  C26: nothing of a job is run, ended or freed, and no directory is made, renamed or removed, for a client that has not
  logged in: whatever messages it sends, as long as none of them is a login with an accepted cookie and the right
  version, what the daemon does is to send texts to the maestro, to quit, and to run \<open>xauth\<close> with the cookie of a message
  GID, which is handled before the login is asked for. The list of jobs stays, the jobs are the same unless the daemon
  quits, and the client stays outside.
\<close>
theorem nothing_runs_before_login:
  assumes "client_old_parse_messages n env fo c = Some c'" "\<not> dc_logged c" "childless (dc_gebrd c)"
    and "list_all (\<lambda>m. \<not> good_login env m) (dc_queue c)"
  shows "\<not> dc_logged c' \<and> dc_files c' = dc_files c \<and> gd_jobs (dc_gebrd c') = gd_jobs (dc_gebrd c) \<and>
     (\<exists>es. gd_events (dc_gebrd c') = gd_events (dc_gebrd c) @ es \<and> list_all (outsider_event env (dc_queue c)) es \<and>
        (Quit \<notin> set es \<longrightarrow> gd_objs (dc_gebrd c') = gd_objs (dc_gebrd c)))"
proof -
  have "outside (outsider_event env (dc_queue c)) c c'"
    using loop_outside [OF _ assms(2,3), of n env fo "rev (dc_queue c)"] assms(1,4)
    by (simp add: client_old_parse_messages_def list_all_iff outsider_event_def)
  then show ?thesis by (auto simp: outside_def quiet_def)
qed

section \<open>A request to run\<close>

text \<open>What a runner sends to a machine: the arguments of \<open>send_run\<close>.\<close>

definition run_args :: "runner \<Rightarrow> string \<Rightarrow> string \<Rightarrow> string \<Rightarrow> string \<Rightarrow> cstr list" where
  "run_args r part nprocs xml mpi =
     [rn_gid r, rn_id r, Some part, Some nprocs, rn_nice r, Some xml, rn_paths r, Some (nonempty_or [] (rn_account r)), Some mpi]"

lemma send_run_args:
  "send_run I d part nprocs xml mpi r w =
     di_on_server I d (gebr_comm_protocol_socket_oldmsg_send run_def (run_args r part nprocs xml mpi)) w"
  by (simp add: send_run_def run_args_def nonempty_or_def)

lemma run_hash:
  "code_hash run_def \<noteq> code_hash ini_def" "code_hash run_def \<noteq> code_hash gid_def" "code_hash run_def \<noteq> code_hash qut_def"
  "code_hash run_def \<noteq> code_hash lst_def"
  by (simp_all add: message_defs gebr_comm_message_def_create_def g_str_hash_def signed_code_def code_def)

text \<open>
  C25: what a runner writes for a machine is, at the daemon, a request with the group, the identifier, the part, the
  number of processes, the priority, the flow, the paths, the account and the machines for MPI in their places, and the
  daemon runs it: a missing text is the empty text, and the message leaves the queue.
\<close>
theorem run_request_received:
  assumes "dc_logged c" "idle p" "messages p = []"
    and "list_all (\<lambda>a. arg_fits (nonempty_or [] a)) (run_args r part nprocs xml mpi)"
    and "length (build_args (run_args r part nprocs xml mpi)) < 2 ^ 63" "socket_connected s"
  shows "\<exists>bytes p'. actions (gebr_comm_protocol_socket_oldmsg_send run_def (run_args r part nprocs xml mpi) s) =
       actions s @ [SocketWrite bytes] \<and>
     gebr_comm_protocol_receive_data False p bytes = Some (True, p', [], False) \<and>
     client_old_parse_messages n env fo (c\<lparr>dc_queue := messages p'\<rparr>) =
       map_option (\<lambda>w. c\<lparr>dc_gebrd := w, dc_queue := []\<rparr>)
         (client_run n (cn_gebrd env) (cn_jid env (gd_next (dc_gebrd c)))
            \<lparr>rq_gid = nonempty_or [] (rn_gid r), rq_id = nonempty_or [] (rn_id r), rq_frac = part, rq_numproc = nprocs,
             rq_nice = nonempty_or [] (rn_nice r), rq_flow = xml, rq_paths = nonempty_or [] (rn_paths r),
             rq_account = nonempty_or [] (rn_account r), rq_mpi = mpi\<rparr> (dc_gebrd c))"
proof -
  let ?args = "run_args r part nprocs xml mpi"
  let ?m = "delivered run_def False (build_args ?args)"
  have known: "known_def run_def" by (simp add: known_def_def gebr_comm_protocol_init_def)
  have sent: "actions (gebr_comm_protocol_socket_oldmsg_send run_def ?args s) =
      actions s @ [SocketWrite (gebr_comm_protocol_build_any_messagev run_def False ?args)]"
    using assms(6) by (simp add: gebr_comm_protocol_socket_oldmsg_send_def act_def gebr_comm_protocol_build_messagev_def)
  have received: "gebr_comm_protocol_receive_data False p (gebr_comm_protocol_build_any_messagev run_def False ?args) =
      Some (True, p\<lparr>messages := [?m], message := gebr_comm_message_new\<rparr>, [], False)"
    using receive_message [OF known assms(2,5), of False "[]"] assms(3) by simp
  have split: "gebr_comm_protocol_split_new (argument ?m) 9 = Inr (map (nonempty_or []) ?args)"
    by (rule split_delivered [OF assms(4)]) (simp add: run_args_def)
  have request: "request_of (map (nonempty_or []) ?args) =
      \<lparr>rq_gid = nonempty_or [] (rn_gid r), rq_id = nonempty_or [] (rn_id r), rq_frac = part, rq_numproc = nprocs,
       rq_nice = nonempty_or [] (rn_nice r), rq_flow = xml, rq_paths = nonempty_or [] (rn_paths r),
       rq_account = nonempty_or [] (rn_account r), rq_mpi = mpi\<rparr>"
    by (simp add: request_of_def run_args_def nonempty_or_def)
  have code_is_run: "hash ?m = code_hash run_def" by (simp add: delivered_def head_message_def)
  have "client_old_parse_messages n env fo (c\<lparr>dc_queue := [?m]\<rparr>) =
      map_option (\<lambda>w. c\<lparr>dc_gebrd := w, dc_queue := []\<rparr>)
        (client_run n (cn_gebrd env) (cn_jid env (gd_next (dc_gebrd c))) (request_of (map (nonempty_or []) ?args)) (dc_gebrd c))"
    using assms(1) run_hash split
    by (auto simp: client_old_parse_messages_def handle_client_message_def with_args_def code_is_run handle_run_def
        on_gebrd_def take_message_def split: option.splits)
  with sent received request show ?thesis by simp
qed

section \<open>The flavors of a machine\<close>

lemma flavors_fold: "fold get_mpi_flavors configs fs = concat (map (\<lambda>c. mc_name c @ '','') (rev configs)) @ fs"
  by (induction configs arbitrary: fs) (simp_all add: get_mpi_flavors_def)

lemma concat_comma: "butlast (concat (map (\<lambda>x. f x @ [c]) xs)) = g_strjoinv [c] (map f xs)"
proof (induction xs)
  case (Cons x xs)
  then show ?case by (cases xs) (auto simp: g_strjoinv_Cons butlast_append)
qed simp

text \<open>
  A daemon that lets a client in answers with the names of its flavors of MPI separated by commas, the last one of the
  configuration first, in the place from which the maestro takes the flavors of the machine.
\<close>
theorem login_tells_flavors:
  assumes "handle_ini env as c = Handled c'"
  shows "\<exists>answer. gd_events (dc_gebrd c') = gd_events (dc_gebrd c) @ [Return ini_def answer] \<and> length answer = 12 \<and>
     answer ! 10 = Some (g_strjoinv '','' (map mc_name (rev (gd_flavors (dc_gebrd c))))) \<and> dc_logged c'"
  using assms concat_comma [of mc_name "CHR '',''" "rev (gd_flavors (dc_gebrd c))"]
  by (auto simp: handle_ini_def ini_answer_def flavors_text_def flavors_fold split: if_splits option.splits)


section \<open>A daemon and its clients\<close>

definition demo_client_env :: client_env where
  "demo_client_env =
     \<lparr>cn_gebrd = demo_gebrd_env, cn_jid = (\<lambda>_. ''1''), cn_accepts = (\<lambda>k. k = ''key''), cn_version = ''7'', cn_host = ''n0'',
      cn_fs_lock = ''fs'', cn_daemon_id = ''d0'', cn_home = ''/home/u'', cn_accounts = [],
      cn_cpuinfo = Some (block [(''cpu MHz'', ''3200'')]), cn_meminfo = Some [], cn_freq = None, cn_has_gebrm = False\<rparr>"

definition demo_client :: "unit daemon_client" where
  "demo_client =
     \<lparr>dc_gebrd = demo_gebrd\<lparr>gd_flavors := [\<lparr>mc_name = ''openmpi'', mc_mpirun = [], mc_libpath = [], mc_init_cmd = [], mc_end_cmd = []\<rparr>]\<rparr>,
      dc_queue = [], dc_logged = False, dc_hostname = [], dc_cookie = None, dc_files = ()\<rparr>"

definition no_files :: "unit fs_ops" where
  "no_files =
     \<lparr>fo_is_dir = (\<lambda>_ _. False), fo_mkdir = (\<lambda>_ w. (True, w)), fo_writable = (\<lambda>_ _. True), fo_rename = (\<lambda>_ _ w. (True, w)),
      fo_rmdir = (\<lambda>_ w. (True, w))\<rparr>"

text \<open>A request to run comes before the login: the daemon quits. Of a message GID \<open>xauth\<close> is run.\<close>

definition early_client :: "unit daemon_client" where
  "early_client = demo_client\<lparr>dc_queue := [delivered run_def False [], delivered gid_def False (build_args (map Some [''g'', ''c'', ''n1'', ''6010'']))]\<rparr>"

theorem nothing_runs_before_login_witness:
  "\<exists>c' es. client_old_parse_messages 1 demo_client_env no_files early_client = Some c' \<and> gd_jobs (dc_gebrd c') = [] \<and>
     gd_events (dc_gebrd c') = es \<and> list_all (outsider_event demo_client_env (dc_queue early_client)) es \<and> es \<noteq> []"
proof -
  let ?args = "map Some [''g'', ''c'', ''n1'', ''6010'']"
  have code: "hash (delivered run_def False []) = code_hash run_def" "hash (delivered gid_def False as) = code_hash gid_def" for as
    by (simp_all add: delivered_def head_message_def)
  have split: "gebr_comm_protocol_split_new (argument (delivered gid_def False (build_args ?args))) 4 = Inr [''g'', ''c'', ''n1'', ''6010'']"
    using split_delivered [of ?args 4 gid_def False] by (simp add: arg_fits_def nonempty_or_def)
  have bad: "list_all (\<lambda>m. \<not> good_login demo_client_env m) (dc_queue early_client)"
    using run_hash(1) gid_not_ini by (simp add: early_client_def good_login_def code)
  have out: "\<not> dc_logged early_client" by (simp add: early_client_def demo_client_def)
  have kids: "childless (dc_gebrd early_client)"
    using demo_childless by (simp add: early_client_def demo_client_def childless_def)
  obtain c1 where c1: "handle_gid demo_client_env [''g'', ''c'', ''n1'', ''6010''] early_client = Handled c1" "outside (\<lambda>_. True) early_client c1"
    using gid_outside [OF out, of _ "\<lambda>_. True"] by blast
  have "gd_jobs (dc_gebrd c1) = []" "\<not> dc_logged c1"
    using c1(2) by (simp_all add: outside_def quiet_def early_client_def demo_client_def demo_gebrd_def)
  then obtain w where w: "gebrd_quit 1 (cn_gebrd demo_client_env) (dc_gebrd c1) = Some w" "gd_events w \<noteq> []"
    by (simp add: gebrd_quit_def)
  have "client_old_parse_messages 1 demo_client_env no_files early_client =
      client_loop 1 demo_client_env no_files [delivered gid_def False (build_args ?args), delivered run_def False []] early_client"
    by (simp add: client_old_parse_messages_def early_client_def)
  also have "\<dots> = client_loop 1 demo_client_env no_files [delivered run_def False []] (take_message c1)"
    using c1(1) gid_not_ini split by (simp only: client_loop.simps handle_client_message_def with_args_def code if_False if_True simp_thms sum.case handled.case)
  also have "\<dots> = Some ((take_message (take_message c1))\<lparr>dc_gebrd := w\<rparr>)"
    using run_hash w(1) \<open>\<not> dc_logged c1\<close> by (simp add: handle_client_message_def code client_disconnected_def)
  finally obtain c' where c': "client_old_parse_messages 1 demo_client_env no_files early_client = Some c'" "gd_events (dc_gebrd c') \<noteq> []"
    using w(2) by simp
  from nothing_runs_before_login [OF c'(1) out kids bad] c' show ?thesis
    by (auto simp: early_client_def demo_client_def demo_gebrd_def)
qed

theorem login_tells_flavors_witness:
  "\<exists>c' answer. handle_ini demo_client_env [''7'', ''n1'', ''key''] demo_client = Handled c' \<and>
     gd_events (dc_gebrd c') = [Return ini_def answer] \<and> answer ! 10 = Some ''openmpi''"
proof -
  obtain c' where "handle_ini demo_client_env [''7'', ''n1'', ''key''] demo_client = Handled c'"
    by (simp add: handle_ini_def demo_client_env_def ini_answer_def gebrd_cpu_info_new_from_file_def gebrd_mem_info_new_from_file_def)
  from login_tells_flavors [OF this] this show ?thesis
    by (auto simp: demo_client_def demo_gebrd_def)
qed

definition demo_runner :: runner where
  "demo_runner = gebr_comm_runner_new named_flow [0] [0] (Some ''1'') None None ''5'' None None None"

definition open_server :: server where
  "open_server = (gebr_comm_server_new [] ''n0'' None)\<lparr>socket_connected := True\<rparr>"

theorem run_request_received_witness:
  "\<exists>bytes p'. actions (gebr_comm_protocol_socket_oldmsg_send run_def (run_args demo_runner ''1'' ''2'' ''xml'' []) open_server) =
       actions open_server @ [SocketWrite bytes] \<and>
     gebr_comm_protocol_receive_data False gebr_comm_protocol_new bytes = Some (True, p', [], False)"
proof -
  have "list_all (\<lambda>a. arg_fits (nonempty_or [] a)) (run_args demo_runner ''1'' ''2'' ''xml'' [])"
      "length (build_args (run_args demo_runner ''1'' ''2'' ''xml'' [])) < 2 ^ 63"
    by (simp_all add: run_args_def demo_runner_def gebr_comm_runner_new_def arg_fits_def nonempty_or_def build_arg_def show_nat.simps)
  moreover have "dc_logged (demo_client\<lparr>dc_logged := True\<rparr>)" "messages gebr_comm_protocol_new = []"
      "socket_connected open_server"
    by (simp_all add: gebr_comm_protocol_new_def gebr_comm_protocol_reset_def open_server_def)
  ultimately show ?thesis
    using run_request_received [OF _ new_idle, of "demo_client\<lparr>dc_logged := True\<rparr>" demo_runner "''1''" "''2''" "''xml''" "[]"
        open_server] by blast
qed

end
