(* ===== verification/Gebrd_Running.thy ===== *)
theory Gebrd_Running
  imports Gebrd_Login
begin

text \<open>
  The jobs of a daemon on a machine alone and their processes: whatever messages arrive, the jobs that run are those with
  a process and those whose process could not be forked, until the daemon quits.
\<close>

section \<open>Processes\<close>

text \<open>A process that is started, and one that is killed with its job that is freed.\<close>

fun process_event :: "gebrd_event \<Rightarrow> gjob_ref set \<Rightarrow> gjob_ref set" where
  "process_event (Start j cmd) R = insert j R"
| "process_event (Free j) R = R - {j}"
| "process_event _ R = R"

definition lost :: "gebrd \<Rightarrow> gjob_ref set" where
  "lost w = {j \<in> set (gd_jobs w). \<exists>cmd. NoStart j cmd \<in> set (gd_events w)}"

definition good :: "gjob_ref set \<Rightarrow> gebrd \<Rightarrow> bool" where
  "good R w \<longleftrightarrow>
     childless w \<and> distinct (gd_jobs w) \<and> (\<forall>j\<in>set (gd_jobs w). j < gd_next w) \<and>
     (\<forall>j cmd. NoStart j cmd \<in> set (gd_events w) \<longrightarrow> j < gd_next w) \<and>
     {j \<in> set (gd_jobs w). gj_status (gd_objs w j) = JOB_STATUS_RUNNING} = R \<union> lost w \<and> R \<inter> lost w = {} \<and>
     (\<forall>j\<in>set (gd_jobs w). gj_status (gd_objs w j) \<noteq> JOB_STATUS_QUEUED)"

lemma goodD:
  assumes "good R w"
  shows "childless w" "distinct (gd_jobs w)" "\<And>j. j \<in> set (gd_jobs w) \<Longrightarrow> j < gd_next w"
    "\<And>j cmd. NoStart j cmd \<in> set (gd_events w) \<Longrightarrow> j < gd_next w"
    "{j \<in> set (gd_jobs w). gj_status (gd_objs w j) = JOB_STATUS_RUNNING} = R \<union> lost w" "R \<inter> lost w = {}"
    "\<And>j. j \<in> set (gd_jobs w) \<Longrightarrow> gj_status (gd_objs w j) \<noteq> JOB_STATUS_QUEUED"
  using assms unfolding good_def by blast+

lemma good_process: "good R w \<Longrightarrow> j \<in> R \<Longrightarrow> j \<in> set (gd_jobs w) \<and> gj_status (gd_objs w j) = JOB_STATUS_RUNNING \<and> j \<notin> lost w"
  using goodD(5,6) [of R w] by blast

text \<open>A change of the daemon that keeps the processes in step, or ends with the end of the daemon.\<close>

definition in_step :: "gebrd \<Rightarrow> gebrd \<Rightarrow> bool" where
  "in_step w w' \<longleftrightarrow> (childless w \<longrightarrow> childless w' \<and>
     (\<exists>es. gd_events w' = gd_events w @ es \<and>
        (\<forall>R. good R w \<longrightarrow> Quit \<in> set es \<or> good (fold process_event es R) w')))"

lemma in_step_refl: "in_step w w"
  by (simp add: in_step_def)

lemma in_step_trans:
  assumes "in_step w w'" "in_step w' w''"
  shows "in_step w w''"
  unfolding in_step_def
proof
  assume c: "childless w"
  obtain es where es: "childless w'" "gd_events w' = gd_events w @ es" "\<forall>R. good R w \<longrightarrow> Quit \<in> set es \<or> good (fold process_event es R) w'"
    using assms(1) c unfolding in_step_def by blast
  obtain fs where fs: "childless w''" "gd_events w'' = gd_events w' @ fs" "\<forall>R. good R w' \<longrightarrow> Quit \<in> set fs \<or> good (fold process_event fs R) w''"
    using assms(2) es(1) unfolding in_step_def by blast
  have "\<forall>R. good R w \<longrightarrow> Quit \<in> set (es @ fs) \<or> good (fold process_event (es @ fs) R) w''"
    using es(3) fs(3) by auto
  then show "childless w'' \<and> (\<exists>es. gd_events w'' = gd_events w @ es \<and>
      (\<forall>R. good R w \<longrightarrow> Quit \<in> set es \<or> good (fold process_event es R) w''))"
    using fs(1) es(2) fs(2) by (metis append_assoc)
qed

lemma in_stepI:
  assumes "childless w \<Longrightarrow> gd_events w' = gd_events w @ es" "childless w \<Longrightarrow> childless w'"
    and "\<And>R. good R w \<Longrightarrow> good (fold process_event es R) w'"
  shows "in_step w w'"
  using assms by (auto simp: in_step_def)

text \<open>What neither starts nor frees.\<close>

definition aside :: "gebrd_event \<Rightarrow> bool" where
  "aside e \<longleftrightarrow> (\<forall>j cmd. e \<noteq> Start j cmd \<and> e \<noteq> NoStart j cmd \<and> e \<noteq> Free j)"

lemma aside_fold: "list_all aside es \<Longrightarrow> fold process_event es R = R"
proof (induction es arbitrary: R)
  case (Cons e es)
  then show ?case by (cases e) (auto simp: aside_def)
qed simp

lemma aside_lost:
  assumes "gd_events w' = gd_events w @ es" "list_all aside es" "gd_jobs w' = gd_jobs w"
  shows "lost w' = lost w" "NoStart j cmd \<in> set (gd_events w') \<longleftrightarrow> NoStart j cmd \<in> set (gd_events w)"
  using assms by (auto simp: lost_def list_all_iff aside_def)

lemma same_in_step:
  assumes "gd_events w' = gd_events w @ es" "list_all aside es" "gd_jobs w' = gd_jobs w" "gd_next w' = gd_next w"
    and "\<And>k. gj_status (gd_objs w' k) = gj_status (gd_objs w k) \<and> gj_children (gd_objs w' k) = gj_children (gd_objs w k)"
  shows "in_step w w'"
proof (rule in_stepI [of _ _ es])
  show "childless w \<Longrightarrow> childless w'" using assms(5) by (simp add: childless_def)
  fix R assume "good R w"
  then show "good (fold process_event es R) w'"
    unfolding good_def aside_fold [OF assms(2)] aside_lost [OF assms(1-3)] by (simp add: assms(3-5) childless_def)
qed (rule assms(1))

lemma event_in_step: "aside e \<Longrightarrow> in_step w (event e w)"
  by (rule same_in_step [of _ _ "[e]"]) simp_all

section \<open>Requests\<close>

text \<open>A request to run adds one job, which is failed, has a process, or could not get one.\<close>

lemma added_good:
  assumes "good R w" "gd_jobs w' = gd_jobs w @ [gd_next w]" "gd_next w' = gd_next w + 1" "gd_events w' = gd_events w @ es"
    and old: "\<And>k. k \<noteq> gd_next w \<Longrightarrow> gd_objs w' k = gd_objs w k" and "gj_children (gd_objs w' (gd_next w)) = []"
    and es: "es = fs @ gs @ hs" "list_all aside fs" "list_all aside hs"
    and new: "gj_status (gd_objs w' (gd_next w)) = JOB_STATUS_FAILED \<and> gs = [] \<or>
      gj_status (gd_objs w' (gd_next w)) = JOB_STATUS_RUNNING \<and> (gs = [Start (gd_next w) cmd] \<or> gs = [NoStart (gd_next w) cmd])"
  shows "good (fold process_event es R) w'"
proof -
  let ?j = "gd_next w"
  note ok = goodD [OF assms(1)]
  have j: "?j \<notin> set (gd_jobs w)" using ok(3) by blast
  have nostart: "NoStart k x \<in> set (gd_events w') \<longleftrightarrow> NoStart k x \<in> set (gd_events w) \<or> NoStart k x \<in> set gs" for k x
    using es by (auto simp: assms(4) list_all_iff aside_def)
  have lost: "lost w' = lost w \<union> {k. k = ?j \<and> gs = [NoStart ?j cmd]}"
    using new ok(4) by (auto simp: lost_def nostart assms(2))
  have procs: "fold process_event es R = R \<union> {k. k = ?j \<and> gs = [Start ?j cmd]}"
    using new by (auto simp: es aside_fold)
  have same: "gd_objs w' k = gd_objs w k" if "k \<in> set (gd_jobs w)" for k using old [of k] j that by metis
  have running: "{k \<in> set (gd_jobs w'). gj_status (gd_objs w' k) = JOB_STATUS_RUNNING} =
      {k \<in> set (gd_jobs w). gj_status (gd_objs w k) = JOB_STATUS_RUNNING} \<union> {k. k = ?j \<and> gj_status (gd_objs w' k) = JOB_STATUS_RUNNING}"
    using same by (auto simp: assms(2))
  have jR: "?j \<notin> R" "?j \<notin> lost w" using j good_process [OF assms(1)] by (auto simp: lost_def)
  show ?thesis
    unfolding good_def procs
  proof (intro conjI)
    show "childless w'" using old assms(6) ok(1) unfolding childless_def by metis
    show "{k \<in> set (gd_jobs w'). gj_status (gd_objs w' k) = JOB_STATUS_RUNNING} =
        R \<union> {k. k = ?j \<and> gs = [Start ?j cmd]} \<union> lost w'"
      unfolding running lost ok(5) using new by auto
    show "(R \<union> {k. k = ?j \<and> gs = [Start ?j cmd]}) \<inter> lost w' = {}" unfolding lost using ok(6) jR by auto
    show "\<forall>k\<in>set (gd_jobs w'). gj_status (gd_objs w' k) \<noteq> JOB_STATUS_QUEUED"
      using same ok(7) new by (auto simp: assms(2))
    show "\<forall>k x. NoStart k x \<in> set (gd_events w') \<longrightarrow> k < gd_next w'"
      using ok(4) new by (auto simp: nostart assms(3) less_Suc_eq)
  qed (use ok(2,3) j assms(2,3) in \<open>auto simp: less_Suc_eq\<close>)
qed

lemma notify_aside: "gd_events (job_notify j w) = gd_events w @ [Send tsk_def [gj_run_id (gd_objs w j), gj_frac (gd_objs w j),
    gj_issues (gd_objs w j), gj_cmd (gd_objs w j), gj_moab_jid (gd_objs w j)]]"
  by (simp add: job_notify_def Let_def)

lemma close_input_aside: "\<exists>hs. gd_events (close_input env j g w) = gd_events w @ hs \<and> list_all aside hs"
proof (cases "gd_events (close_input env j g w) = gd_events w")
  case True
  then show ?thesis by (intro exI [of _ "[]"]) simp
next
  case False
  then have "gd_events (close_input env j g w) = gd_events w @ [CloseStdin j]"
    by (auto simp: close_input_def split: option.splits list.splits if_splits)
  then show ?thesis by (intro exI [of _ "[CloseStdin j]"]) (simp add: aside_def)
qed

lemma run_in_step:
  assumes "\<not> ge_moab env" "client_run (Suc n) env jid rq w = Some w'"
  shows "in_step w w'"
proof (cases "childless w")
  case True
  obtain j w1 where new: "job_new env jid rq w = Some (j, w1)" and run: "job_run_flow (Suc n) env j (job_notify j w1) = Some w'"
    using assms by (auto simp: client_run_def bind_eq_Some_conv)
  have shape: "j = gd_next w" "gd_next w1 = gd_next w + 1" "gd_jobs w1 = gd_jobs w @ [j]" "gd_events w1 = gd_events w"
    "\<And>k. k \<noteq> j \<Longrightarrow> gd_objs w1 k = gd_objs w k" "gj_children (gd_objs w1 j) = []"
    using job_new_shape [OF new] by (elim conjE; metis)+
  have kids: "childless (job_notify j w1)"
    using shape(5,6) True unfolding childless_def job_notify_read by metis
  show ?thesis
  proof (cases "gj_critical (gd_objs w1 j)")
    case True
    then obtain now where w': "w' = reported j JOB_STATUS_FAILED now (with_status j JOB_STATUS_FAILED (job_notify j w1))"
      using run_flow_failed [OF kids _ run] by auto
    then obtain a b x y where ev: "gd_events w' = gd_events w @ ([Send a x, Send b y] @ [] @ [])"
      using shape(4) by (simp add: reported_def Let_def notify_aside)
    show ?thesis
    proof (rule in_stepI [OF ev])
      show "childless w'" using kids w' by simp
      fix R assume "good R w"
      then show "good (fold process_event ([Send a x, Send b y] @ [] @ []) R) w'"
        by (rule added_good [OF _ _ _ ev _ _ refl])
          (use shape in \<open>auto simp: w' with_status_def aside_def\<close>)
    qed
  next
    case False
    then obtain now script where w': "w' = close_input env j (gd_objs (job_notify j w1) j)
         (start_process env j (Start j (bash_command script)) (NoStart j (bash_command script))
         (reported j JOB_STATUS_RUNNING now
           (with_status j JOB_STATUS_RUNNING (upd_job j (\<lambda>g. g\<lparr>gj_start_date := ge_now env\<rparr>) (job_notify j w1)))))"
      using run run_flow_conv [OF kids _ assms(1)] by (auto simp: bind_eq_Some_conv)
    let ?gs = "[if ge_forks env j then Start j (bash_command script) else NoStart j (bash_command script)]"
    obtain hs where hs: "gd_events w' = gd_events (start_process env j (Start j (bash_command script)) (NoStart j (bash_command script))
         (reported j JOB_STATUS_RUNNING now
           (with_status j JOB_STATUS_RUNNING (upd_job j (\<lambda>g. g\<lparr>gj_start_date := ge_now env\<rparr>) (job_notify j w1))))) @ hs" "list_all aside hs"
      using close_input_aside w' by metis
    then obtain a b x y where ev: "gd_events w' = gd_events w @ ([Send a x, Send b y] @ ?gs @ hs)"
      using shape(4) by (simp add: reported_def Let_def notify_aside)
    have obj: "gd_objs w' = (gd_objs w1)(j := (gd_objs w1 j)\<lparr>gj_start_date := ge_now env, gj_status := JOB_STATUS_RUNNING\<rparr>)"
      unfolding w' by (auto simp: with_status_def)
    show ?thesis
    proof (rule in_stepI [OF ev])
      show "childless w'" using kids shape(6) unfolding childless_def job_notify_read obj by auto
      fix R assume "good R w"
      then show "good (fold process_event ([Send a x, Send b y] @ ?gs @ hs) R) w'"
      proof (rule added_good [OF _ _ _ ev _ _ refl _ hs(2)])
        show "gd_jobs w' = gd_jobs w @ [gd_next w]" "gd_next w' = gd_next w + 1" using shape by (simp_all add: w')
      qed (use shape(1,5,6) in \<open>auto simp: obj aside_def\<close>)
    qed
  qed
qed (simp add: in_step_def)

lemma clear_in_step:
  assumes "on_job who (\<lambda>j w. Some (job_clear j w)) w = Some w'"
  shows "in_step w w'"
proof -
  have "in_step w (job_free j w)" if "gj_status (gd_objs w j) \<noteq> JOB_STATUS_RUNNING" for j
  proof (rule in_stepI [of _ _ "[Free j]"])
    fix R assume good: "good R w"
    note ok = goodD [OF good]
    have j: "j \<notin> R \<union> lost w" using that unfolding ok(5) [symmetric] by simp
    have lost: "lost (job_free j w) = lost w"
      using j ok(2) by (auto simp: lost_def job_free_def)
    have "good R (job_free j w)"
      unfolding good_def lost
    proof (intro conjI)
      have "{k \<in> set (gd_jobs (job_free j w)). gj_status (gd_objs (job_free j w) k) = JOB_STATUS_RUNNING} =
          {k \<in> set (gd_jobs w). gj_status (gd_objs w k) = JOB_STATUS_RUNNING}"
        using that ok(2) by (auto simp: job_free_def)
      then show "{k \<in> set (gd_jobs (job_free j w)). gj_status (gd_objs (job_free j w) k) = JOB_STATUS_RUNNING} = R \<union> lost w"
        using ok(5) by simp
    qed (use ok in \<open>auto simp: job_free_def childless_def dest: notin_set_remove1\<close>)
    then show "good (fold process_event [Free j] R) (job_free j w)" using j by simp
  qed (simp_all add: job_free_def childless_def)
  then show ?thesis
    using assms by (auto simp: on_job_def job_clear_def in_step_refl split: option.splits if_splits)
qed

text \<open>A request to end a job only signals its process: on a machine alone no job waits in a queue.\<close>

lemma stop_in_step:
  assumes "\<not> ge_moab env" "on_job who (\<lambda>j. stop_job n env (e j) sig j) w = Some w'" "\<And>j. aside (e j)"
  shows "in_step w w'"
proof (cases "job_find who w")
  case None
  then show ?thesis using assms(2) by (simp add: on_job_def in_step_refl)
next
  case (Some j)
  then have j: "j \<in> set (gd_jobs w)" by (auto simp: job_find_def find_Some_iff in_set_conv_nth)
  have run: "stop_job n env (e j) sig j w = Some w'" using assms(2) Some by (simp add: on_job_def)
  show ?thesis
  proof (cases "gj_status (gd_objs w j) = JOB_STATUS_QUEUED")
    case False
    then have "w' = event (e j) (upd_job j (\<lambda>g. g\<lparr>gj_user_finished := True\<rparr>) w)" using run assms(1) by (simp add: stop_job_def)
    then show ?thesis using assms(3) [of j] by (intro same_in_step [of _ _ "[e j]"]) simp_all
  next
    case True
    show ?thesis
    proof (cases "childless w")
      case kids: True
      have c: "gj_children (gd_objs (upd_job j (\<lambda>g. g\<lparr>gj_finish_date := ge_now env\<rparr>) w) j) = []"
        using kids by (simp add: childless_def)
      from run True assms(1) obtain x where w': "w' = reported j JOB_STATUS_CANCELED x
          (with_status j JOB_STATUS_CANCELED (upd_job j (\<lambda>g. g\<lparr>gj_finish_date := ge_now env\<rparr>) w))"
        by (auto simp: stop_job_def job_status_notify_def notify_conv [OF c])
      have "\<not> good R w" for R using goodD(7) [OF _ j] True by blast
      then show ?thesis using kids by (auto simp: w' in_step_def reported_def Let_def childless_def)
    qed (simp add: in_step_def)
  qed
qed

lemma list_in_step: "in_step w (job_list w)"
proof -
  have "in_step w (job_notify j w)" for j w
    by (rule same_in_step [OF notify_aside]) (simp_all add: aside_def)
  then have "in_step w (fold job_notify js w)" for js
    by (induction js arbitrary: w) (auto intro: in_step_refl in_step_trans)
  then show ?thesis by (simp add: job_list_def)
qed

lemma quit_in_step:
  assumes "gebrd_quit n env w = Some w'"
  shows "in_step w w'"
proof (cases "childless w")
  case True
  obtain w1 where w1: "each_child (\<lambda>j. job_status_notify n env j JOB_STATUS_FAILED (ge_now env)) (gd_jobs w) w = Some w1" "w' = event Quit w1"
    using assms by (auto simp: gebrd_quit_def)
  from each_failed_told [OF True w1(1), of "\<lambda>_. True"] show ?thesis
    by (auto simp: told_only_def in_step_def w1(2))
qed (simp add: in_step_def)

section \<open>Messages\<close>

definition next_state :: "'f daemon_client handled \<Rightarrow> 'f daemon_client option" where
  "next_state r = (case r of Undefined \<Rightarrow> None | Rejected c \<Rightarrow> Some c | Handled c \<Rightarrow> Some c | Left c \<Rightarrow> Some c)"

lemma next_args:
  assumes "next_state (with_args k m f c) = Some c'" "\<And>as. next_state (f as c) = Some c' \<Longrightarrow> in_step (dc_gebrd c) (dc_gebrd c')"
  shows "in_step (dc_gebrd c) (dc_gebrd c')"
  using assms by (auto simp: with_args_def next_state_def in_step_refl split: sum.splits split_error.splits)

lemma next_gebrd:
  assumes "next_state (on_gebrd f c) = Some c'" "\<And>w'. f (dc_gebrd c) = Some w' \<Longrightarrow> in_step (dc_gebrd c) w'"
  shows "in_step (dc_gebrd c) (dc_gebrd c')"
  using assms by (auto simp: on_gebrd_def next_state_def split: option.splits)

lemma next_tell: "aside e \<Longrightarrow> in_step (dc_gebrd c) (dc_gebrd (tell e c))"
  by (simp add: event_in_step)

lemma ini_in_step: "next_state (handle_ini env as c) = Some c' \<Longrightarrow> in_step (dc_gebrd c) (dc_gebrd c')"
  by (auto simp: handle_ini_def next_state_def aside_def intro!: event_in_step split: if_splits option.splits)

lemma gid_in_step: "next_state (handle_gid env as c) = Some c' \<Longrightarrow> in_step (dc_gebrd c) (dc_gebrd c')"
proof -
  have "in_step w (w\<lparr>gd_displays := d\<rparr>)" "in_step w (event (Authorize p k) (w\<lparr>gd_displays := d\<rparr>))" for w d p k
    by (rule same_in_step [of _ _ "[]"], simp_all, rule same_in_step [of _ _ "[Authorize p k]"], simp_all add: aside_def)
  then show "next_state (handle_gid env as c) = Some c' \<Longrightarrow> in_step (dc_gebrd c) (dc_gebrd c')"
    by (auto simp: handle_gid_def next_state_def Let_def split: if_splits)
qed

lemma path_in_step: "next_state (handle_path fo env as c) = Some c' \<Longrightarrow> in_step (dc_gebrd c) (dc_gebrd c')"
  by (auto simp: handle_path_def next_state_def aside_def split_beta intro!: event_in_step)

lemma message_in_step:
  assumes "\<not> ge_moab (cn_gebrd env)" "next_state (handle_client_message (Suc n) env fo m c) = Some c'"
  shows "in_step (dc_gebrd c) (dc_gebrd c')"
proof -
  have "next_state (Rejected c) = Some c' \<Longrightarrow> in_step (dc_gebrd c) (dc_gebrd c')"
    "next_state (Handled c) = Some c' \<Longrightarrow> in_step (dc_gebrd c) (dc_gebrd c')"
    "next_state (Left (tell Drop c)) = Some c' \<Longrightarrow> in_step (dc_gebrd c) (dc_gebrd c')"
    by (auto simp: next_state_def intro: in_step_refl) (rule event_in_step, simp add: aside_def)
  moreover have "in_step w w'" if "on_job who (job_end (Suc n) (cn_gebrd env)) w = Some w'" for who w w'
    using stop_in_step [OF assms(1), of who "Suc n" Terminate] that by (simp add: job_end_def [abs_def] aside_def)
  moreover have "in_step w w'" if "on_job who (job_kill (Suc n) (cn_gebrd env)) w = Some w'" for who w w'
    using stop_in_step [OF assms(1), of who "Suc n" KillProcess] that by (simp add: job_kill_def [abs_def] aside_def)
  ultimately show ?thesis
    using assms(2) unfolding handle_client_message_def
    by (auto split: if_splits elim!: next_args next_gebrd simp: handle_run_def
        intro: ini_in_step gid_in_step path_in_step list_in_step clear_in_step quit_in_step run_in_step [OF assms(1)])
qed

lemma loop_in_step:
  assumes "\<not> ge_moab (cn_gebrd env)" "client_loop (Suc n) env fo ms c = Some c'"
  shows "in_step (dc_gebrd c) (dc_gebrd c')"
  using assms(2)
proof (induction ms arbitrary: c)
  case Nil
  then show ?case by (simp add: in_step_refl)
next
  case (Cons m ms)
  have msg: "in_step (dc_gebrd c) (dc_gebrd d)" if "next_state (handle_client_message (Suc n) env fo m c) = Some d" for d
    using message_in_step [OF assms(1) that] .
  show ?case
  proof (cases "handle_client_message (Suc n) env fo m c")
    case (Rejected d)
    then obtain w where "gebrd_quit (Suc n) (cn_gebrd env) (dc_gebrd d) = Some w" "dc_gebrd c' = w"
      using Cons.prems by (auto simp: client_disconnected_def)
    then show ?thesis using msg [of d] Rejected quit_in_step by (auto simp: next_state_def intro: in_step_trans)
  next
    case (Handled d)
    then show ?thesis using Cons.IH [of "take_message d"] Cons.prems msg [of d] by (auto simp: next_state_def intro: in_step_trans)
  qed (use Cons.prems msg in \<open>auto simp: next_state_def\<close>)
qed

section \<open>Steps\<close>

text \<open>
  What happens to a daemon: messages arrive in any number and are parsed, a process writes, a process ends, and the
  connection is lost. The environment may be another one in every step. The set holds the jobs whose process runs.
\<close>

definition new_events :: "gebrd \<Rightarrow> gebrd \<Rightarrow> gebrd_event list" where
  "new_events w w' = drop (length (gd_events w)) (gd_events w')"

inductive daemon_step :: "gjob_ref set \<times> 'f daemon_client \<Rightarrow> gjob_ref set \<times> 'f daemon_client \<Rightarrow> bool" where
  Messages: "\<not> ge_moab (cn_gebrd env) \<Longrightarrow> client_old_parse_messages (Suc n) env fo (c\<lparr>dc_queue := ms\<rparr>) = Some c' \<Longrightarrow>
    daemon_step (R, c) (fold process_event (new_events (dc_gebrd c) (dc_gebrd c')) R, c')"
| Output: "j \<in> R \<Longrightarrow> daemon_step (R, c) (R, c\<lparr>dc_gebrd := append_output_and_send env now j x b (dc_gebrd c)\<rparr>)"
| End: "\<not> ge_moab env \<Longrightarrow> j \<in> R \<Longrightarrow> job_process_finished (Suc n) env st j (dc_gebrd c) = Some w' \<Longrightarrow>
    daemon_step (R, c) (R - {j}, c\<lparr>dc_gebrd := w'\<rparr>)"
| Closed: "client_disconnected (Suc n) env c = Some c' \<Longrightarrow> daemon_step (R, c) (R, c')"

definition daemon_ok :: "gjob_ref set \<times> 'f daemon_client \<Rightarrow> bool" where
  "daemon_ok s \<longleftrightarrow> childless (dc_gebrd (snd s)) \<and> (Quit \<in> set (gd_events (dc_gebrd (snd s))) \<or> good (fst s) (dc_gebrd (snd s)))"

lemma in_step_ok:
  assumes "in_step (dc_gebrd c) (dc_gebrd c')" "daemon_ok (R, c)"
  shows "daemon_ok (fold process_event (new_events (dc_gebrd c) (dc_gebrd c')) R, c')"
  using assms by (auto simp: in_step_def daemon_ok_def new_events_def)

lemma output_events: "\<exists>es. gd_events (append_output_and_send env now j x b w) = gd_events w @ es \<and> list_all aside es"
proof (cases "gd_events (append_output_and_send env now j x b w) = gd_events w")
  case True
  then show ?thesis by (intro exI [of _ "[]"]) simp
next
  case False
  then obtain y where "gd_events (append_output_and_send env now j x b w) = gd_events w @ [Send out_def y]"
    by (auto simp: append_output_and_send_def job_process_add_output_def job_send_clients_output_def Let_def split: if_splits)
  then show ?thesis by (intro exI [of _ "[Send out_def y]"]) (simp add: aside_def)
qed

lemma output_in_step: "in_step w (append_output_and_send env now j x b w)"
proof -
  obtain es where es: "gd_events (append_output_and_send env now j x b w) = gd_events w @ es" "list_all aside es"
    using output_events by blast
  show ?thesis
    by (rule same_in_step [OF es]) (simp_all add: append_output_and_send_def Let_def)
qed

lemma process_end_events:
  assumes "childless w" "\<not> ge_moab env" "job_process_finished n env st j w = Some w'"
  shows "childless w' \<and> (\<exists>es. gd_events w' = gd_events w @ es)"
proof -
  have c: "gj_children (gd_objs (upd_job j (\<lambda>g. g\<lparr>gj_finish_date := ge_now env\<rparr>) w) j) = []" "gj_children (gd_objs w j) = []"
    using assms(1) by (simp_all add: childless_def)
  have kids: "childless (upd_job j (\<lambda>g. g\<lparr>gj_finish_date := ge_now env\<rparr>) w)" using assms(1) by (simp add: childless_def)
  show ?thesis
    using assms kids
    by (auto simp: job_process_finished_def job_status_notify_finished_def Let_def job_status_notify_def notify_conv [OF c(1)]
        notify_conv [OF c(2)] reported_def split: if_splits)
qed

lemma process_end_good:
  assumes "good R w" "j \<in> R" "\<not> ge_moab env" "job_process_finished n env st j w = Some w'"
  shows "good (R - {j}) w'"
proof -
  note ok = goodD [OF assms(1)] and j = good_process [OF assms(1,2)]
  obtain now w1 where w: "w1 = (if wexitstatus st = 0 then upd_job j (\<lambda>g. g\<lparr>gj_finish_date := ge_now env\<rparr>) w else w)"
    "w' = reported j (end_status st (gd_objs w j)) now (with_status j (end_status st (gd_objs w j)) w1)"
    using process_finished [OF ok(1) assms(3) _ assms(4)] j by blast
  have final: "final (gj_status (gd_objs w' j))" using w j by (auto simp: with_status_def end_status_def final_def)
  have same: "gd_jobs w' = gd_jobs w" "gd_next w' = gd_next w" "\<And>k. k \<noteq> j \<Longrightarrow> gd_objs w' k = gd_objs w k"
      "gj_children (gd_objs w' j) = []"
    using w ok(1) by (simp_all add: childless_def)
  obtain x where ev: "gd_events w' = gd_events w @ [Send sta_def x]" using w by (simp add: reported_def Let_def)
  have aside: "list_all aside [Send sta_def x]" by (simp add: aside_def)
  have running: "{k \<in> set (gd_jobs w'). gj_status (gd_objs w' k) = JOB_STATUS_RUNNING} =
      {k \<in> set (gd_jobs w). gj_status (gd_objs w k) = JOB_STATUS_RUNNING} - {j}" (is "?A' = ?A - {j}")
  proof (rule set_eqI)
    fix k show "k \<in> ?A' \<longleftrightarrow> k \<in> ?A - {j}"
      using final same(1) same(3) [of k] by (cases "k = j") (auto simp: final_def)
  qed
  show ?thesis
    unfolding good_def aside_lost [OF ev aside same(1)] running ok(5)
  proof (intro conjI)
    show "childless w'" using same(3,4) ok(1) unfolding childless_def by metis
    show "\<forall>k\<in>set (gd_jobs w'). gj_status (gd_objs w' k) \<noteq> JOB_STATUS_QUEUED"
    proof
      fix k assume "k \<in> set (gd_jobs w')"
      then show "gj_status (gd_objs w' k) \<noteq> JOB_STATUS_QUEUED"
        using same(1) same(3) [of k] final ok(7) [of k] by (cases "k = j") (auto simp: final_def)
    qed
  qed (use ok j same(1,2) in auto)
qed

lemma daemon_step_ok:
  assumes "daemon_step s t" "daemon_ok s"
  shows "daemon_ok t"
  using assms
proof cases
  case (Messages env n fo ms c c' R)
  then have "in_step (dc_gebrd c) (dc_gebrd c')"
    using loop_in_step [of env n fo "rev ms" "c\<lparr>dc_queue := ms\<rparr>" c'] by (simp add: client_old_parse_messages_def)
  from in_step_ok [OF this] Messages assms(2) show ?thesis by simp
next
  case (Output j R c env now x b)
  obtain es where es: "gd_events (append_output_and_send env now j x b (dc_gebrd c)) = gd_events (dc_gebrd c) @ es" "list_all aside es"
    using output_events by blast
  have "new_events (dc_gebrd c) (append_output_and_send env now j x b (dc_gebrd c)) = es" by (simp add: new_events_def es)
  with in_step_ok [of c "c\<lparr>dc_gebrd := append_output_and_send env now j x b (dc_gebrd c)\<rparr>" R] Output assms(2) output_in_step
  show ?thesis by (simp add: aside_fold [OF es(2)])
next
  case (End env j R n st c w')
  then show ?thesis
    using assms(2) process_end_events [of "dc_gebrd c" env "Suc n" st j w'] process_end_good [of R "dc_gebrd c" j env "Suc n" st w']
    by (auto simp: daemon_ok_def)
next
  case (Closed n env c c' R)
  then obtain w where w: "gebrd_quit (Suc n) (cn_gebrd env) (dc_gebrd c) = Some w" "dc_gebrd c' = w"
    by (auto simp: client_disconnected_def)
  obtain v where "w = event Quit v" using w(1) by (auto simp: gebrd_quit_def)
  then have "Quit \<in> set (gd_events w)" by simp
  moreover have "childless w" using quit_in_step [OF w(1)] assms(2) Closed by (simp add: in_step_def daemon_ok_def)
  ultimately show ?thesis using Closed w(2) by (simp add: daemon_ok_def)
qed


text \<open>A message to run: the flow of the example runs.\<close>

definition run_message :: message where
  "run_message = delivered run_def False (build_args (map Some [''g'', ''r1'', ''1'', ''1'', ''0'', ''flow'', [], [], ''host,openmpi'']))"

definition demo_server :: "unit daemon_client" where
  "demo_server = demo_client\<lparr>dc_gebrd := demo_gebrd, dc_logged := True\<rparr>"


end
