(* ===== verification/Gebrm_Client.thy ===== *)
theory Gebrm_Client
  imports Prelude "HOL-Library.Multiset"
begin

text \<open>
  The maestro's view of a client (\<open>maestro/gebrm-client.c\<close>): its identification, display, forwards of the display
  and the ids that its jobs had before they were submitted. The socket is known by the number of the client.
\<close>

text \<open>A forward is the number of its object with the address of its machine; the closed ones are recorded.\<close>

record client_obj =
  cl_id :: cstr
  cl_cookie :: cstr
  cl_gebr_cookie :: cstr
  cl_forwards :: "(nat \<times> string) list"
  cl_closed :: "nat list"
  cl_job_ids :: "string \<Rightarrow> string option"
  cl_x11_port :: int
  cl_x11_host :: cstr
  cl_sent_nfsid :: bool

definition gebrm_client_init :: client_obj where
  "gebrm_client_init =
     \<lparr>cl_id = None, cl_cookie = None, cl_gebr_cookie = None, cl_forwards = [], cl_closed = [], cl_job_ids = Map.empty,
      cl_x11_port = 0, cl_x11_host = None, cl_sent_nfsid = False\<rparr>"

definition gebrm_client_set_id :: "string \<Rightarrow> client_obj \<Rightarrow> client_obj" where
  "gebrm_client_set_id i c = (if cl_id c = None then c\<lparr>cl_id := Some i\<rparr> else c)"

definition gebrm_client_set_magic_cookie :: "cstr \<Rightarrow> client_obj \<Rightarrow> client_obj" where
  "gebrm_client_set_magic_cookie k c = c\<lparr>cl_cookie := k\<rparr>"

definition gebrm_client_set_gebr_cookie :: "cstr \<Rightarrow> client_obj \<Rightarrow> client_obj" where
  "gebrm_client_set_gebr_cookie k c = c\<lparr>cl_gebr_cookie := k\<rparr>"

definition gebrm_client_add_forward :: "nat \<times> string \<Rightarrow> client_obj \<Rightarrow> client_obj" where
  "gebrm_client_add_forward f c = c\<lparr>cl_forwards := f # cl_forwards c\<rparr>"

definition close_and_free_client_forward :: "nat \<times> string \<Rightarrow> client_obj \<Rightarrow> client_obj" where
  "close_and_free_client_forward f c = c\<lparr>cl_closed := cl_closed c @ [fst f]\<rparr>"

text \<open>Only the first forward of the machine is closed.\<close>

definition gebrm_client_kill_forward_by_address :: "cstr \<Rightarrow> client_obj \<Rightarrow> client_obj" where
  "gebrm_client_kill_forward_by_address addr c =
     (case find (\<lambda>f. addr = Some (snd f)) (cl_forwards c) of
        None \<Rightarrow> c
      | Some f \<Rightarrow> (close_and_free_client_forward f c)\<lparr>cl_forwards := remove1 f (cl_forwards c)\<rparr>)"

definition gebrm_client_remove_forwards :: "client_obj \<Rightarrow> client_obj" where
  "gebrm_client_remove_forwards c = (fold close_and_free_client_forward (cl_forwards c) c)\<lparr>cl_forwards := []\<rparr>"

definition gebrm_client_add_temp_id :: "string \<Rightarrow> string \<Rightarrow> client_obj \<Rightarrow> client_obj" where
  "gebrm_client_add_temp_id temp_id job_id c = c\<lparr>cl_job_ids := (cl_job_ids c)(temp_id \<mapsto> job_id)\<rparr>"

definition gebrm_client_get_job_id_from_temp :: "client_obj \<Rightarrow> string \<Rightarrow> cstr" where
  "gebrm_client_get_job_id_from_temp c temp_id = cl_job_ids c temp_id"

definition gebrm_client_set_display :: "int \<Rightarrow> cstr \<Rightarrow> client_obj \<Rightarrow> client_obj" where
  "gebrm_client_set_display p h c = c\<lparr>cl_x11_port := p, cl_x11_host := h\<rparr>"

definition gebrm_client_set_sent_nfsid :: "bool \<Rightarrow> client_obj \<Rightarrow> client_obj" where
  "gebrm_client_set_sent_nfsid b c = c\<lparr>cl_sent_nfsid := b\<rparr>"

text \<open>Every forward is closed once, when its machine is disconnected or when the client leaves.\<close>

lemma fold_close_forwards: "fold close_and_free_client_forward fs c = c\<lparr>cl_closed := cl_closed c @ map fst fs\<rparr>"
  by (induction fs arbitrary: c) (simp_all add: close_and_free_client_forward_def)

lemma forwards_closed_once:
  "mset (cl_closed (gebrm_client_remove_forwards (gebrm_client_kill_forward_by_address addr c))) =
     mset (cl_closed c) + mset (map fst (cl_forwards c))"
proof (cases "find (\<lambda>f. addr = Some (snd f)) (cl_forwards c)")
  case None
  then show ?thesis
    by (simp add: gebrm_client_kill_forward_by_address_def gebrm_client_remove_forwards_def fold_close_forwards)
next
  case (Some f)
  then have "f \<in> set (cl_forwards c)" by (auto simp: find_Some_iff)
  then have "mset (map fst (cl_forwards c)) = add_mset (fst f) (mset (map fst (remove1 f (cl_forwards c))))"
    by (metis image_mset_add_mset insert_DiffM mset_map mset_remove1 set_mset_mset)
  with Some show ?thesis
    by (simp add: gebrm_client_kill_forward_by_address_def gebrm_client_remove_forwards_def fold_close_forwards
        close_and_free_client_forward_def)
qed

end
