(* ===== verification/Key_File.thy ===== *)
theory Key_File
  imports Prelude "HOL-Library.AList"
begin

text \<open>
  The settings of the maestro: key files of GLib as lists of groups, the settings of domains
  (\<open>libgebr/gebr-maestro-settings.c\<close>), and the file of machines with their tags (the \<open>gebrm_config_*\<close> functions of
  \<open>maestro/gebrm-app.c\<close>). The text of a key file is the business of GLib: a file is the key file it holds.
\<close>

section \<open>Key files\<close>

type_synonym keyfile = "(string \<times> (string \<times> string) list) list"

definition g_key_file_has_group :: "string \<Rightarrow> keyfile \<Rightarrow> bool" where
  "g_key_file_has_group grp kf \<longleftrightarrow> map_of kf grp \<noteq> None"

definition g_key_file_get_string :: "keyfile \<Rightarrow> string \<Rightarrow> string \<Rightarrow> cstr" where
  "g_key_file_get_string kf grp key = Option.bind (map_of kf grp) (\<lambda>keys. map_of keys key)"

text \<open>A group name is not empty and has no bracket and no control character; a NULL value is refused.\<close>

definition g_key_file_is_group_name :: "string \<Rightarrow> bool" where
  "g_key_file_is_group_name grp \<longleftrightarrow>
     grp \<noteq> [] \<and> (\<forall>c \<in> set grp. c \<noteq> CHR ''['' \<and> c \<noteq> CHR '']'' \<and> 32 \<le> code c \<and> code c \<noteq> 127)"

definition g_key_file_set_string :: "string \<Rightarrow> string \<Rightarrow> cstr \<Rightarrow> keyfile \<Rightarrow> keyfile" where
  "g_key_file_set_string grp key val kf =
     (case val of
        None \<Rightarrow> kf
      | Some x \<Rightarrow>
          if g_key_file_is_group_name grp
          then AList.update grp (AList.update key x (case map_of kf grp of None \<Rightarrow> [] | Some keys \<Rightarrow> keys)) kf
          else kf)"

definition g_key_file_remove_group :: "string \<Rightarrow> keyfile \<Rightarrow> bool \<times> keyfile" where
  "g_key_file_remove_group grp kf = (g_key_file_has_group grp kf, AList.delete grp kf)"

definition g_key_file_get_groups :: "keyfile \<Rightarrow> string list" where
  "g_key_file_get_groups kf = map fst kf"

definition g_key_file_get_start_group :: "keyfile \<Rightarrow> cstr" where
  "g_key_file_get_start_group kf = (case kf of [] \<Rightarrow> None | (grp, _) # _ \<Rightarrow> Some grp)"

text \<open>\<open>gebr_g_key_file_load_string_key\<close> of \<open>libgebr/utils.c\<close>: an empty value counts as missing.\<close>

definition gebr_g_key_file_load_string_key :: "keyfile \<Rightarrow> string \<Rightarrow> string \<Rightarrow> string \<Rightarrow> string" where
  "gebr_g_key_file_load_string_key kf grp key default_value =
     (let tmp = g_key_file_get_string kf grp key
      in if tmp = None \<or> tmp = Some [] then default_value else the tmp)"

lemma has_group_set [simp]:
  "g_key_file_has_group g (g_key_file_set_string grp key val kf) \<longleftrightarrow>
     g_key_file_has_group g kf \<or> g = grp \<and> val \<noteq> None \<and> g_key_file_is_group_name grp"
  by (auto simp: g_key_file_set_string_def g_key_file_has_group_def update_conv split: option.splits)

lemma get_string_set:
  "g_key_file_is_group_name grp \<Longrightarrow>
   g_key_file_get_string (g_key_file_set_string grp key (Some x) kf) g k =
     (if g = grp \<and> k = key then Some x else g_key_file_get_string kf g k)"
  by (auto simp: g_key_file_set_string_def g_key_file_get_string_def update_conv split: option.splits)

lemma get_string_set_other [simp]:
  "g \<noteq> grp \<or> k \<noteq> key \<Longrightarrow> g_key_file_get_string (g_key_file_set_string grp key val kf) g k = g_key_file_get_string kf g k"
  by (auto simp: g_key_file_set_string_def g_key_file_get_string_def update_conv split: option.splits)

lemma get_string_remove [simp]:
  "g_key_file_get_string (snd (g_key_file_remove_group grp kf)) g k =
     (if g = grp then None else g_key_file_get_string kf g k)"
  by (simp add: g_key_file_remove_group_def g_key_file_get_string_def delete_conv restrict_map_def)

section \<open>The settings of domains\<close>

text \<open>
  The files \<open>maestro.conf\<close> and \<open>servers.conf\<close> of the user and the one of the administrator, \<open>None\<close> when there is
  none, and the key file in memory. \<open>conf_writable\<close>: the user's files can be written.
\<close>

record conf =
  conf_maestro :: "keyfile option"
  conf_servers :: "keyfile option"
  conf_admin :: "keyfile option"
  conf_writable :: bool
  maestro_key :: keyfile

definition load_file :: "keyfile option \<Rightarrow> keyfile" where
  "load_file f = (case f of None \<Rightarrow> [] | Some kf \<Rightarrow> kf)"

definition gebr_maestro_settings_new :: "conf \<Rightarrow> conf" where
  "gebr_maestro_settings_new cf = cf\<lparr>maestro_key := load_file (conf_maestro cf)\<rparr>"

definition gebr_maestro_settings_update :: "conf \<Rightarrow> conf" where
  "gebr_maestro_settings_update cf = cf\<lparr>maestro_key := load_file (conf_maestro cf)\<rparr>"

definition gebr_maestro_settings_save :: "conf \<Rightarrow> conf" where
  "gebr_maestro_settings_save cf = (if conf_writable cf then cf\<lparr>conf_maestro := Some (maestro_key cf)\<rparr> else cf)"

definition gebr_maestro_settings_append_address :: "string \<Rightarrow> string \<Rightarrow> conf \<Rightarrow> conf" where
  "gebr_maestro_settings_append_address domain addr cf =
     (if addr = [] then cf
      else let maestro = gebr_g_key_file_load_string_key (maestro_key cf) domain ''maestro'' [];
               has_addr = (addr \<in> set (g_strsplit maestro '','' (- 1)));
               buf = (if has_addr then maestro
                      else (if length maestro > 1 then maestro @ '','' else maestro) @ addr)
           in gebr_maestro_settings_save
                (cf\<lparr>maestro_key := g_key_file_set_string domain ''maestro'' (Some buf) (maestro_key cf)\<rparr>))"

definition gebr_maestro_settings_prepend_address :: "string \<Rightarrow> string \<Rightarrow> conf \<Rightarrow> conf" where
  "gebr_maestro_settings_prepend_address domain addr cf =
     (if addr = [] then cf
      else let maestro = gebr_g_key_file_load_string_key (maestro_key cf) domain ''maestro'' [];
               buf = addr @ concat (map (\<lambda>a. CHR '','' # a) (filter (\<lambda>a. a \<noteq> addr) (g_strsplit maestro '','' (- 1))))
           in gebr_maestro_settings_save
                (cf\<lparr>maestro_key := g_key_file_set_string domain ''maestro'' (Some buf) (maestro_key cf)\<rparr>))"

definition gebr_maestro_settings_set_domain :: "string \<Rightarrow> cstr \<Rightarrow> string \<Rightarrow> conf \<Rightarrow> conf" where
  "gebr_maestro_settings_set_domain domain label addr cf =
     gebr_maestro_settings_append_address domain addr
       (cf\<lparr>maestro_key := g_key_file_set_string domain ''label'' label (maestro_key cf)\<rparr>)"

definition gebr_maestro_settings_change_label :: "string \<Rightarrow> cstr \<Rightarrow> conf \<Rightarrow> conf" where
  "gebr_maestro_settings_change_label domain label cf =
     (if g_key_file_has_group domain (maestro_key cf)
      then cf\<lparr>maestro_key := g_key_file_set_string domain ''label'' label (maestro_key cf)\<rparr> else cf)"

definition gebr_maestro_settings_get_addrs :: "conf \<Rightarrow> string \<Rightarrow> string" where
  "gebr_maestro_settings_get_addrs cf domain = gebr_g_key_file_load_string_key (maestro_key cf) domain ''maestro'' []"

text \<open>
  \<open>addrs[index]\<close> of the NULL-terminated vector; beyond the terminator (\<open>None\<close>) memory that is not the vector's is
  read.
\<close>

definition gebr_maestro_settings_get_addr_for_domain :: "conf \<Rightarrow> string \<Rightarrow> nat \<Rightarrow> cstr option" where
  "gebr_maestro_settings_get_addr_for_domain cf domain index =
     (let addrs = g_strsplit (gebr_maestro_settings_get_addrs cf domain) '','' (- 1)
      in if index < length addrs then Some (Some (addrs ! index))
         else if index = length addrs then Some None else None)"

text \<open>The loop over the groups: \<open>pos\<close> counts up to and including the domain.\<close>

fun nfs_position :: "string list \<Rightarrow> string \<Rightarrow> nat \<Rightarrow> nat" where
  "nfs_position [] nfsid pos = pos"
| "nfs_position (g # gs) nfsid pos = (if g = nfsid then pos + 1 else nfs_position gs nfsid (pos + 1))"

definition gebr_maestro_settings_generate_nfs_label :: "conf \<Rightarrow> cstr \<Rightarrow> string" where
  "gebr_maestro_settings_generate_nfs_label cf nfsid =
     (let pos = (if nfsid \<noteq> None \<and> nfsid \<noteq> Some []
                 then nfs_position (g_key_file_get_groups (maestro_key cf)) (the nfsid) 1 else 1)
      in ''G'' @ [CHR 0xC3, CHR 0xAA] @ ''BR Domain '' @ show_nat pos)"

definition gebr_maestro_settings_get_label_for_domain :: "conf \<Rightarrow> string \<Rightarrow> bool \<Rightarrow> string" where
  "gebr_maestro_settings_get_label_for_domain cf domain use_default =
     gebr_g_key_file_load_string_key (maestro_key cf) domain ''label''
       (if use_default then gebr_maestro_settings_generate_nfs_label cf (Some domain) else [])"

definition gebr_maestro_settings_get_ids :: "conf \<Rightarrow> string list" where
  "gebr_maestro_settings_get_ids cf = g_key_file_get_groups (maestro_key cf)"

definition gebr_maestro_settings_get_nodes :: "conf \<Rightarrow> string \<Rightarrow> string" where
  "gebr_maestro_settings_get_nodes cf domain = gebr_g_key_file_load_string_key (maestro_key cf) domain ''nodes'' []"

definition write_servers :: "keyfile \<Rightarrow> conf \<Rightarrow> bool \<times> conf" where
  "write_servers kf cf = (conf_writable cf, if conf_writable cf then cf\<lparr>conf_servers := Some kf\<rparr> else cf)"

definition gebr_maestro_settings_add_node :: "string \<Rightarrow> cstr \<Rightarrow> cstr \<Rightarrow> conf \<Rightarrow> conf" where
  "gebr_maestro_settings_add_node node tags ac cf =
     (let servers = load_file (conf_servers cf)
      in if g_key_file_has_group node servers then cf
         else snd (write_servers (g_key_file_set_string node ''autoconnect'' ac
                     (g_key_file_set_string node ''tags'' tags servers)) cf))"

text \<open>
  The two results that a caller asks for by giving the address of a variable; the text of \<open>autoconnect\<close> is read
  and dropped, so the caller's variable keeps its value \<open>ac\<close> unless it is set to NULL.
\<close>

definition gebr_maestro_settings_get_node_info :: "conf \<Rightarrow> string \<Rightarrow> cstr \<Rightarrow> cstr \<times> cstr" where
  "gebr_maestro_settings_get_node_info cf node ac =
     (let servers = load_file (conf_servers cf)
      in (g_key_file_get_string servers node ''tags'',
          if g_key_file_get_string servers node ''autoconnect'' = None then None else ac))"

definition gebr_maestro_settings_clean_old_maestros :: "conf \<Rightarrow> conf" where
  "gebr_maestro_settings_clean_old_maestros cf =
     (if \<not> g_key_file_has_group ''maestro'' (maestro_key cf) then cf
      else case g_key_file_remove_group ''maestro'' (maestro_key cf) of
        (True, kf) \<Rightarrow> gebr_maestro_settings_save (cf\<lparr>maestro_key := kf\<rparr>)
      | (False, kf) \<Rightarrow> cf)"

definition gebrm_app_get_nfsid :: "conf \<Rightarrow> cstr" where
  "gebrm_app_get_nfsid cf = g_key_file_get_start_group (maestro_key cf)"

section \<open>The file of machines\<close>

text \<open>
  The result of a change of tags: \<open>TagsCrash\<close> when the machine has no tags, whose NULL text is split into NULL and
  read; otherwise whether the file was changed, with the new tags.
\<close>

datatype tag_change = TagsCrash | TagsKept | TagsNow string

definition gebrm_config_update_tags_on_server :: "string \<Rightarrow> cstr \<Rightarrow> conf \<Rightarrow> bool \<times> conf" where
  "gebrm_config_update_tags_on_server server tags cf =
     (case conf_servers cf of
        None \<Rightarrow> (False, cf)
      | Some kf \<Rightarrow> (True, snd (write_servers (g_key_file_set_string server ''tags'' tags kf) cf)))"

definition gebrm_config_insert_tag_on_server :: "string \<Rightarrow> string \<Rightarrow> conf \<Rightarrow> tag_change \<times> conf" where
  "gebrm_config_insert_tag_on_server server tag cf =
     (case conf_servers cf of
        None \<Rightarrow> (TagsKept, cf)
      | Some kf \<Rightarrow>
          (case g_key_file_get_string kf server ''tags'' of
             None \<Rightarrow> (TagsCrash, cf)
           | Some tmp \<Rightarrow>
               let ts = g_strsplit tmp '','' (- 1); joined = g_strjoinv '','' ts;
                   str = (if joined \<noteq> [] then joined @ '','' @ tag else tag)
               in if tag \<in> set ts then (TagsKept, cf)
                  else (TagsNow str, snd (write_servers (g_key_file_set_string server ''tags'' (Some str) kf) cf))))"

definition gebrm_config_remove_tag_of_server :: "string \<Rightarrow> string \<Rightarrow> conf \<Rightarrow> tag_change \<times> conf" where
  "gebrm_config_remove_tag_of_server server tag cf =
     (case conf_servers cf of
        None \<Rightarrow> (TagsKept, cf)
      | Some kf \<Rightarrow>
          (case g_key_file_get_string kf server ''tags'' of
             None \<Rightarrow> (TagsCrash, cf)
           | Some tmp \<Rightarrow>
               let ts = g_strsplit tmp '','' (- 1);
                   buf = concat (map (\<lambda>t. t @ '','') (filter (\<lambda>t. t \<noteq> tag) ts));
                   str = (if buf = [] then [] else butlast buf)
               in if tag \<notin> set ts then (TagsKept, cf)
                  else (TagsNow str, snd (write_servers (g_key_file_set_string server ''tags'' (Some str) kf) cf))))"

definition gebrm_config_set_autoconnect :: "string \<Rightarrow> cstr \<Rightarrow> conf \<Rightarrow> bool \<times> conf" where
  "gebrm_config_set_autoconnect server ac cf =
     (case conf_servers cf of
        None \<Rightarrow> (False, cf)
      | Some kf \<Rightarrow> write_servers (g_key_file_set_string server ''autoconnect'' ac kf) cf)"

definition gebrm_config_save_server :: "string \<Rightarrow> cstr \<Rightarrow> cstr \<Rightarrow> conf \<Rightarrow> conf" where
  "gebrm_config_save_server addr tags ac cf =
     (let servers = load_file (conf_servers cf)
      in if g_key_file_has_group addr servers then cf
         else snd (write_servers (g_key_file_set_string addr ''autoconnect'' ac
                     (g_key_file_set_string addr ''tags'' tags servers)) cf))"

definition gebrm_config_delete_server :: "string \<Rightarrow> conf \<Rightarrow> conf" where
  "gebrm_config_delete_server server cf =
     snd (write_servers (snd (g_key_file_remove_group server (load_file (conf_servers cf)))) cf)"

section \<open>Tags and addresses\<close>

text \<open>The names that a list separated by commas can hold.\<close>

definition comma_names :: "string list \<Rightarrow> bool" where
  "comma_names xs \<longleftrightarrow> (\<forall>x \<in> set xs. x \<noteq> [] \<and> CHR '','' \<notin> set x)"

lemma strsplit_Nil [simp]: "g_strsplit [] d n = []"
  by (simp add: g_strsplit_def)

lemma join_nonempty: "comma_names xs \<Longrightarrow> g_strjoinv d xs = [] \<longleftrightarrow> xs = []"
  by (cases xs; cases "tl xs") (auto simp: comma_names_def g_strjoinv_Cons)

lemma split_names: "comma_names xs \<Longrightarrow> g_strsplit (g_strjoinv '','' xs) '','' (- 1) = xs"
proof (cases "xs = []")
  case True
  then show ?thesis by (simp add: g_strsplit_def)
next
  case False
  assume "comma_names xs"
  then show ?thesis using False join_nonempty [of xs "'',''"]
    by (intro strsplit_join_char) (auto simp: comma_names_def)
qed

lemma join_snoc: "xs \<noteq> [] \<Longrightarrow> g_strjoinv d (xs @ [x]) = g_strjoinv d xs @ d @ x"
proof (induction xs)
  case (Cons y ys)
  then show ?case by (cases ys) (auto simp: g_strjoinv_Cons)
qed simp

lemma concat_commas: "butlast (concat (map (\<lambda>t. t @ '','') xs)) = g_strjoinv '','' xs"
proof (induction xs)
  case (Cons x xs)
  then show ?case by (cases xs) (auto simp: g_strjoinv_Cons butlast_append)
qed simp

lemma tag_inserted:
  assumes "conf_servers cf = Some kf" "g_key_file_get_string kf server ''tags'' = Some (g_strjoinv '','' xs)"
    and "comma_names xs" "tag \<notin> set xs"
  shows "gebrm_config_insert_tag_on_server server tag cf =
     (TagsNow (g_strjoinv '','' (xs @ [tag])),
      snd (write_servers (g_key_file_set_string server ''tags'' (Some (g_strjoinv '','' (xs @ [tag]))) kf) cf))"
  using assms join_nonempty [OF assms(3), of "'',''"]
  by (cases "xs = []") (simp_all add: gebrm_config_insert_tag_on_server_def split_names join_snoc Let_def)

lemma tag_removed:
  assumes "conf_servers cf = Some kf" "g_key_file_get_string kf server ''tags'' = Some (g_strjoinv '','' xs)"
    and "comma_names xs" "tag \<in> set xs"
  shows "gebrm_config_remove_tag_of_server server tag cf =
     (TagsNow (g_strjoinv '','' (filter (\<lambda>t. t \<noteq> tag) xs)),
      snd (write_servers (g_key_file_set_string server ''tags'' (Some (g_strjoinv '','' (filter (\<lambda>t. t \<noteq> tag) xs))) kf) cf))"
proof -
  have blank: "(if b = [] then [] else butlast b) = butlast b" for b :: string by simp
  show ?thesis
    unfolding gebrm_config_remove_tag_of_server_def Let_def assms(1,2) option.case split_names [OF assms(3)] blank concat_commas
    using assms(4) by (simp only: not_not simp_thms if_False)
qed

text \<open>
  A tag that is inserted and removed again leaves the tags of its machine, and everything else in the file, as
  they were.
\<close>

theorem tag_round_trip:
  assumes "conf_servers cf = Some kf" "conf_writable cf" "g_key_file_is_group_name server"
    and "g_key_file_get_string kf server ''tags'' = Some (g_strjoinv '','' xs)"
    and "comma_names (tag # xs)" "tag \<notin> set xs"
  shows "\<exists>cf1 cf2 kf2. gebrm_config_insert_tag_on_server server tag cf = (TagsNow (g_strjoinv '','' (xs @ [tag])), cf1) \<and>
     gebrm_config_remove_tag_of_server server tag cf1 = (TagsNow (g_strjoinv '','' xs), cf2) \<and>
     conf_servers cf2 = Some kf2 \<and> (\<forall>g k. g_key_file_get_string kf2 g k = g_key_file_get_string kf g k)"
proof -
  have names: "comma_names xs" "comma_names (xs @ [tag])" using assms(5) by (auto simp: comma_names_def)
  let ?kf1 = "g_key_file_set_string server ''tags'' (Some (g_strjoinv '','' (xs @ [tag]))) kf"
  let ?kf2 = "g_key_file_set_string server ''tags'' (Some (g_strjoinv '','' xs)) ?kf1"
  have ins: "gebrm_config_insert_tag_on_server server tag cf =
      (TagsNow (g_strjoinv '','' (xs @ [tag])), cf\<lparr>conf_servers := Some ?kf1\<rparr>)"
    using tag_inserted [OF assms(1,4) names(1) assms(6)] assms(2) by (simp add: write_servers_def)
  have "filter (\<lambda>t. t \<noteq> tag) (xs @ [tag]) = xs" using assms(6) by (auto intro: filter_True)
  moreover have "g_key_file_get_string ?kf1 server ''tags'' = Some (g_strjoinv '','' (xs @ [tag]))"
    using assms(3) by (simp add: get_string_set)
  ultimately have rem: "gebrm_config_remove_tag_of_server server tag (cf\<lparr>conf_servers := Some ?kf1\<rparr>) =
      (TagsNow (g_strjoinv '','' xs), cf\<lparr>conf_servers := Some ?kf2\<rparr>)"
    using tag_removed [of "cf\<lparr>conf_servers := Some ?kf1\<rparr>" ?kf1 server "xs @ [tag]" tag] names(2) assms(2)
    by (simp add: write_servers_def)
  have "g_key_file_get_string ?kf2 g k = g_key_file_get_string kf g k" for g k
    using assms(3,4) by (auto simp: get_string_set)
  then show ?thesis by (simp add: ins rem)
qed

definition two_machines_conf :: conf where
  "two_machines_conf =
     \<lparr>conf_maestro = None, conf_servers = Some [(''host'', [(''tags'', ''fast,big''), (''autoconnect'', ''on'')])],
      conf_admin = None, conf_writable = True, maestro_key = []\<rparr>"

theorem tag_round_trip_witness:
  "\<exists>cf1 cf2. gebrm_config_insert_tag_on_server ''host'' ''new'' two_machines_conf = (TagsNow ''fast,big,new'', cf1) \<and>
     gebrm_config_remove_tag_of_server ''host'' ''new'' cf1 = (TagsNow ''fast,big'', cf2)"
proof -
  let ?kf = "[(''host'', [(''tags'', ''fast,big''), (''autoconnect'', ''on'')])]"
  have c: "conf_servers two_machines_conf = Some ?kf" "conf_writable two_machines_conf"
    by (simp_all add: two_machines_conf_def)
  have g: "g_key_file_is_group_name ''host''" by (simp add: g_key_file_is_group_name_def code_def)
  have t: "g_key_file_get_string ?kf ''host'' ''tags'' = Some (g_strjoinv '','' [''fast'', ''big''])"
    by (simp add: g_key_file_get_string_def)
  have n: "comma_names [''new'', ''fast'', ''big'']" by (simp add: comma_names_def)
  from tag_round_trip [OF c g t n] show ?thesis by simp blast
qed

text \<open>The tags of a machine that has none are a NULL text.\<close>

lemma tags_of_unknown_machine:
  "conf_servers cf = Some kf \<Longrightarrow> g_key_file_get_string kf server ''tags'' = None \<Longrightarrow>
   fst (gebrm_config_insert_tag_on_server server tag cf) = TagsCrash \<and>
   fst (gebrm_config_remove_tag_of_server server tag cf) = TagsCrash"
  by (simp add: gebrm_config_insert_tag_on_server_def gebrm_config_remove_tag_of_server_def)

text \<open>The addresses of the maestros of a domain: a new one comes last, a known one changes nothing.\<close>

lemma get_addrs_set:
  "g_key_file_is_group_name domain \<Longrightarrow>
   gebr_maestro_settings_get_addrs
     (gebr_maestro_settings_save (cf\<lparr>maestro_key := g_key_file_set_string domain ''maestro'' (Some b) kf\<rparr>)) domain = b"
  by (simp add: gebr_maestro_settings_get_addrs_def gebr_maestro_settings_save_def gebr_g_key_file_load_string_key_def
      get_string_set Let_def)

lemma address_appended:
  assumes "gebr_maestro_settings_get_addrs cf domain = g_strjoinv '','' xs" "comma_names (addr # xs)"
    and "length (g_strjoinv '','' xs) \<noteq> 1" "g_key_file_is_group_name domain"
  shows "gebr_maestro_settings_get_addrs (gebr_maestro_settings_append_address domain addr cf) domain =
     g_strjoinv '','' (if addr \<in> set xs then xs else xs @ [addr])"
proof -
  have names: "comma_names xs" "addr \<noteq> []" using assms(2) by (auto simp: comma_names_def)
  have "g_strjoinv '','' xs = [] \<or> 1 < length (g_strjoinv '','' xs)"
    using assms(3) by (cases "g_strjoinv '','' xs"; cases "tl (g_strjoinv '','' xs)") auto
  then show ?thesis
    using assms(1) names join_nonempty [OF names(1), of "'',''"] split_names [OF names(1)] assms(4)
    unfolding gebr_maestro_settings_append_address_def gebr_maestro_settings_get_addrs_def [of cf, symmetric] Let_def
    by (auto simp: get_addrs_set join_snoc)
qed

lemma address_prepended:
  assumes "gebr_maestro_settings_get_addrs cf domain = g_strjoinv '','' xs" "comma_names (addr # xs)"
    and "g_key_file_is_group_name domain"
  shows "gebr_maestro_settings_get_addrs (gebr_maestro_settings_prepend_address domain addr cf) domain =
     g_strjoinv '','' (addr # filter (\<lambda>a. a \<noteq> addr) xs)"
proof -
  have names: "comma_names xs" "addr \<noteq> []" using assms(2) by (auto simp: comma_names_def)
  have "addr @ concat (map (\<lambda>a. CHR '','' # a) ys) = g_strjoinv '','' (addr # ys)" for ys
  proof (induction ys arbitrary: addr)
    case (Cons y ys)
    show ?case using Cons.IH [of y] by (simp add: g_strjoinv_Cons)
  qed simp
  then show ?thesis
    using assms(1,3) names split_names [OF names(1)]
    unfolding gebr_maestro_settings_prepend_address_def gebr_maestro_settings_get_addrs_def [of cf, symmetric] Let_def
    by (simp add: get_addrs_set)
qed

text \<open>A list of one character takes the next address without a comma.\<close>

lemma short_address_runs_on:
  "gebr_maestro_settings_get_addrs cf domain = ''a'' \<Longrightarrow> g_key_file_is_group_name domain \<Longrightarrow>
   gebr_maestro_settings_get_addrs (gebr_maestro_settings_append_address domain ''b'' cf) domain = ''ab''"
  unfolding gebr_maestro_settings_append_address_def gebr_maestro_settings_get_addrs_def [of cf, symmetric] Let_def
  by (simp add: g_strsplit_def get_addrs_set)

text \<open>The caller never learns whether a machine connects automatically.\<close>

lemma node_info_loses_autoconnect: "snd (gebr_maestro_settings_get_node_info cf node None) = None"
  by (simp add: gebr_maestro_settings_get_node_info_def Let_def)

text \<open>The label made for the last domain of the file is the one made for a domain that is not in it.\<close>

lemma nfs_labels_clash:
  assumes "distinct (gs @ [d])" "g \<notin> set (gs @ [d])"
  shows "nfs_position (gs @ [d]) d n = nfs_position (gs @ [d]) g n"
  using assms by (induction gs arbitrary: n) auto

end
