(* ===== verification/Comm_Uri.thy ===== *)
theory Comm_Uri
  imports Prelude "HOL-Library.AList" "HOL-Library.Multiset"
begin

text \<open>
  The addresses of HTTP requests (\<open>libgebr/comm/gebr-comm-uri.c\<close>): a prefix and a table of parameters, written
  with escaped values and read back. Texts are strings of bytes.
\<close>

section \<open>Escapes of GLib\<close>

text \<open>
  \<open>g_uri_escape_string (s, NULL, TRUE)\<close>: unreserved characters and valid UTF-8 characters stay, any other byte is
  written as \<open>%XX\<close>. \<open>utf8\<close> is the length of the valid multi-byte character at the front of a text, 0 when there is
  none.
\<close>

definition hex_digit :: "nat \<Rightarrow> char" where
  "hex_digit d = (if d < 10 then char_of (48 + d) else char_of (55 + d))"

definition hex_value :: "char \<Rightarrow> nat option" where
  "hex_value c =
     (if is_digit c then Some (code c - 48)
      else if 65 \<le> code c \<and> code c \<le> 70 then Some (code c - 55)
      else if 97 \<le> code c \<and> code c \<le> 102 then Some (code c - 87)
      else None)"

definition unreserved :: "char \<Rightarrow> bool" where
  "unreserved c \<longleftrightarrow> is_alnum c \<or> c \<in> set ''-._~''"

function g_uri_escape_string :: "(string \<Rightarrow> nat) \<Rightarrow> string \<Rightarrow> string" where
  "g_uri_escape_string utf8 [] = []"
| "g_uri_escape_string utf8 (c # s) =
     (if 128 \<le> code c \<and> 0 < utf8 (c # s)
      then take (utf8 (c # s)) (c # s) @ g_uri_escape_string utf8 (drop (utf8 (c # s)) (c # s))
      else if unreserved c then c # g_uri_escape_string utf8 s
      else [CHR ''%'', hex_digit (code c div 16), hex_digit (code c mod 16)] @ g_uri_escape_string utf8 s)"
  by pat_completeness auto
termination by (relation "measure (\<lambda>(utf8, s). length s)") auto

declare g_uri_escape_string.simps(2) [simp del]

text \<open>\<open>g_uri_unescape_string (s, NULL)\<close>: NULL for an escape that is not complete or is the byte 0.\<close>

fun g_uri_unescape_string :: "string \<Rightarrow> cstr" where
  "g_uri_unescape_string [] = Some []"
| "g_uri_unescape_string (c # s) =
     (if c = CHR ''%'' then
        (case s of
           h # l # r \<Rightarrow>
             (case (hex_value h, hex_value l) of
                (Some a, Some b) \<Rightarrow>
                  if 16 * a + b = 0 then None
                  else map_option (Cons (char_of (16 * a + b))) (g_uri_unescape_string r)
              | _ \<Rightarrow> None)
         | _ \<Rightarrow> None)
      else map_option (Cons c) (g_uri_unescape_string s))"

lemma hex_value_digit [simp]: "d < 16 \<Longrightarrow> hex_value (hex_digit d) = Some d"
  by (auto simp: hex_value_def hex_digit_def is_digit_def code_def)

lemma char_of_code: "char_of (code c) = c"
  by (simp add: code_def)

lemma code_less: "code c < 256"
proof -
  have "of_char c mod 256 = (of_char c :: nat)" by simp
  then show ?thesis unfolding code_def by (metis mod_less_divisor zero_less_numeral)
qed

text \<open>What the library documents of UTF-8: the bytes of a multi-byte character are at least 128.\<close>

definition utf8_bytes :: "(string \<Rightarrow> nat) \<Rightarrow> bool" where
  "utf8_bytes utf8 \<longleftrightarrow> (\<forall>s. \<forall>c \<in> set (take (utf8 s) s). 128 \<le> code c)"

lemma unescape_plain:
  "\<forall>c \<in> set a. 128 \<le> code c \<Longrightarrow>
   g_uri_unescape_string (a @ s) = map_option ((@) a) (g_uri_unescape_string s)"
proof (induction a)
  case Nil
  then show ?case by (cases "g_uri_unescape_string s") simp_all
next
  case (Cons c a)
  then have "c \<noteq> CHR ''%''" by (auto simp: code_def)
  with Cons show ?case by (simp add: option.map_comp comp_def)
qed

lemma uri_escape_round_trip:
  assumes "utf8_bytes utf8" "\<forall>c \<in> set s. code c \<noteq> 0"
  shows "g_uri_unescape_string (g_uri_escape_string utf8 s) = Some s"
  using assms(2)
proof (induction s rule: length_induct)
  case (1 s)
  show ?case
  proof (cases s)
    case (Cons c t)
    have t: "g_uri_unescape_string (g_uri_escape_string utf8 t) = Some t" using 1 Cons by simp
    show ?thesis
    proof (cases "128 \<le> code c \<and> 0 < utf8 (c # t)")
      case True
      let ?n = "utf8 (c # t)"
      have "\<forall>b \<in> set (take ?n (c # t)). 128 \<le> code b" using assms(1) unfolding utf8_bytes_def by blast
      moreover have "g_uri_unescape_string (g_uri_escape_string utf8 (drop ?n (c # t))) = Some (drop ?n (c # t))"
      proof (rule 1(1) [rule_format])
        show "length (drop ?n (c # t)) < length s" using Cons True by simp
        show "code b \<noteq> 0" if "b \<in> set (drop ?n (c # t))" for b
          using 1(2) Cons in_set_dropD [OF that] by auto
      qed
      ultimately show ?thesis
        using True unfolding Cons g_uri_escape_string.simps(2)
        by (simp only: if_P unescape_plain option.map append_take_drop_id simp_thms)
    next
      case False
      have "c \<noteq> CHR ''%''" if "unreserved c" using that by (auto simp: unreserved_def char_class_defs)
      moreover have "16 * (code c div 16) + code c mod 16 \<noteq> 0" using 1(2) Cons by simp
      moreover have "code c div 16 < 16" using code_less [of c] by linarith
      ultimately show ?thesis
        using False t by (simp add: Cons g_uri_escape_string.simps(2) char_of_code)
    qed
  qed simp
qed

text \<open>An escaped text holds none of the marks of an address.\<close>

lemma hex_digit_marks: "d < 16 \<Longrightarrow> hex_digit d \<notin> {CHR '';'', CHR ''='', CHR ''?'', CHR ''&''}"
proof -
  assume "d < 16"
  then have "is_digit (hex_digit d) \<or> 65 \<le> code (hex_digit d) \<and> code (hex_digit d) \<le> 70"
    by (auto simp: hex_digit_def is_digit_def code_def)
  then show ?thesis by (auto simp: is_digit_def code_def)
qed

lemma escape_marks:
  assumes "utf8_bytes utf8" "m \<in> {CHR '';'', CHR ''='', CHR ''?'', CHR ''&''}"
  shows "m \<notin> set (g_uri_escape_string utf8 s)"
proof (induction s rule: length_induct)
  case (1 s)
  show ?case
  proof (cases s)
    case (Cons c t)
    have t: "m \<notin> set (g_uri_escape_string utf8 t)" using 1 Cons by simp
    show ?thesis
    proof (cases "128 \<le> code c \<and> 0 < utf8 (c # t)")
      case True
      let ?n = "utf8 (c # t)"
      have "\<forall>b \<in> set (take ?n (c # t)). 128 \<le> code b" using assms(1) unfolding utf8_bytes_def by blast
      moreover have "code m < 128" using assms(2) by (auto simp: code_def)
      ultimately have "m \<notin> set (take ?n (c # t))" by (metis not_less)
      moreover have "m \<notin> set (g_uri_escape_string utf8 (drop ?n (c # t)))"
        using 1 [rule_format, of "drop ?n (c # t)"] Cons True by simp
      ultimately show ?thesis
        using True unfolding Cons g_uri_escape_string.simps(2) by (simp only: if_P set_append Un_iff simp_thms)
    next
      case False
      have "code c div 16 < 16" using code_less [of c] by linarith
      then have "m \<noteq> hex_digit (code c div 16)" "m \<noteq> hex_digit (code c mod 16)" "m \<noteq> CHR ''%''"
        using hex_digit_marks assms(2) by (metis, metis mod_less_divisor zero_less_numeral, auto)
      moreover have "\<not> unreserved m" using assms(2) by (auto simp: unreserved_def char_class_defs)
      ultimately show ?thesis using False t by (auto simp: Cons g_uri_escape_string.simps(2))
    qed
  qed simp
qed

section \<open>Addresses\<close>

text \<open>The table of parameters; a value may be NULL.\<close>

record uri =
  uri_prefix :: cstr
  uri_params :: "(string \<times> cstr) list"

definition gebr_comm_uri_new :: uri where
  "gebr_comm_uri_new = \<lparr>uri_prefix = None, uri_params = []\<rparr>"

definition gebr_comm_uri_set_prefix :: "cstr \<Rightarrow> uri \<Rightarrow> uri" where
  "gebr_comm_uri_set_prefix p u = u\<lparr>uri_prefix := p\<rparr>"

definition gebr_comm_uri_get_prefix :: "uri \<Rightarrow> cstr" where
  "gebr_comm_uri_get_prefix u = uri_prefix u"

definition gebr_comm_uri_add_param :: "string \<Rightarrow> cstr \<Rightarrow> uri \<Rightarrow> uri" where
  "gebr_comm_uri_add_param k v u = u\<lparr>uri_params := AList.update k v (uri_params u)\<rparr>"

definition gebr_comm_uri_get_param :: "uri \<Rightarrow> string \<Rightarrow> cstr" where
  "gebr_comm_uri_get_param u k = (case map_of (uri_params u) k of None \<Rightarrow> None | Some v \<Rightarrow> v)"

text \<open>
  \<open>None\<close>: a NULL value is printed with \<open>%s\<close>, or the last character of an empty buffer is read. \<open>order\<close> is the
  order in which the hash table is traversed.
\<close>

fun concatenate_uri :: "(string \<Rightarrow> nat) \<Rightarrow> (string \<times> cstr) list \<Rightarrow> string \<Rightarrow> string option" where
  "concatenate_uri utf8 [] buffer = Some buffer"
| "concatenate_uri utf8 ((k, v) # ps) buffer =
     (case v of
        None \<Rightarrow> None
      | Some x \<Rightarrow> concatenate_uri utf8 ps (buffer @ k @ ''='' @ g_uri_escape_string utf8 x @ '';''))"

definition gebr_comm_uri_to_string ::
    "(string \<Rightarrow> nat) \<Rightarrow> ((string \<times> cstr) list \<Rightarrow> (string \<times> cstr) list) \<Rightarrow> uri \<Rightarrow> string option" where
  "gebr_comm_uri_to_string utf8 order u =
     (let p = (case uri_prefix u of None \<Rightarrow> [] | Some x \<Rightarrow> x);
          buffer = (if uri_params u \<noteq> [] then p @ ''?'' else p)
      in case concatenate_uri utf8 (order (uri_params u)) buffer of
           None \<Rightarrow> None
         | Some b \<Rightarrow> if b = [] then None else if last b = CHR '';'' then Some (butlast b) else Some b)"

text \<open>The parameters of an address; \<open>None\<close>: a part without \<open>=\<close>, whose NULL position is written to.\<close>

fun parse_params :: "string list \<Rightarrow> uri \<Rightarrow> uri option" where
  "parse_params [] u = Some u"
| "parse_params (p # ps) u =
     (case strstr p ''='' of
        None \<Rightarrow> None
      | Some i \<Rightarrow> parse_params ps (gebr_comm_uri_add_param (take i p) (g_uri_unescape_string (drop (i + 1) p)) u))"

definition gebr_comm_uri_parse :: "string \<Rightarrow> uri \<Rightarrow> uri option" where
  "gebr_comm_uri_parse url u =
     (case strstr url ''?'' of
        None \<Rightarrow> Some (gebr_comm_uri_set_prefix (Some url) u)
      | Some i \<Rightarrow>
          parse_params (g_strsplit (drop (i + 1) url) '';'' (- 1)) (gebr_comm_uri_set_prefix (Some (take i url)) u))"

section \<open>Round trip\<close>

text \<open>An address that can be written: the keys are plain, the values are texts.\<close>

definition sendable :: "uri \<Rightarrow> bool" where
  "sendable u \<longleftrightarrow>
     (\<exists>p. uri_prefix u = Some p \<and> CHR ''?'' \<notin> set p) \<and> distinct (map fst (uri_params u)) \<and> uri_params u \<noteq> [] \<and>
     (\<forall>(k, v) \<in> set (uri_params u). CHR '';'' \<notin> set k \<and> CHR ''='' \<notin> set k \<and> (\<exists>x. v = Some x \<and> (\<forall>c \<in> set x. code c \<noteq> 0)))"

definition param_text :: "(string \<Rightarrow> nat) \<Rightarrow> string \<times> cstr \<Rightarrow> string" where
  "param_text utf8 kv = fst kv @ ''='' @ g_uri_escape_string utf8 (the (snd kv))"

lemma concatenate_texts:
  "\<forall>(k, v) \<in> set ps. v \<noteq> None \<Longrightarrow>
   concatenate_uri utf8 ps b = Some (b @ concat (map (\<lambda>kv. param_text utf8 kv @ '';'') ps))"
  by (induction utf8 ps b rule: concatenate_uri.induct) (auto simp: param_text_def)

lemma concat_semicolons: "ps \<noteq> [] \<Longrightarrow> concat (map (\<lambda>x. f x @ [c]) ps) = g_strjoinv [c] (map f ps) @ [c]"
proof (induction ps)
  case (Cons x ps)
  then show ?case by (cases ps) (auto simp: g_strjoinv_Cons)
qed simp

lemma update_new: "k \<notin> fst ` set ps \<Longrightarrow> AList.update k v ps = ps @ [(k, v)]"
  by (induction ps) auto

lemma parse_param_texts:
  assumes "utf8_bytes utf8" "distinct (map fst ps)" "\<forall>k \<in> fst ` set ps. k \<notin> fst ` set (uri_params u)"
    and "\<forall>(k, v) \<in> set ps. CHR ''='' \<notin> set k \<and> (\<exists>x. v = Some x \<and> (\<forall>c \<in> set x. code c \<noteq> 0))"
  shows "parse_params (map (param_text utf8) ps) u = Some (u\<lparr>uri_params := uri_params u @ ps\<rparr>)"
  using assms(2-)
proof (induction ps arbitrary: u)
  case (Cons kv ps)
  obtain k x where kv: "kv = (k, Some x)" "CHR ''='' \<notin> set k" "\<forall>c \<in> set x. code c \<noteq> 0"
    using Cons.prems(3) by auto
  have "AList.update k (Some x) (uri_params u) = uri_params u @ [(k, Some x)]"
    using Cons.prems(2) kv(1) by (intro update_new) simp
  then have u: "gebr_comm_uri_add_param k (Some x) u = u\<lparr>uri_params := uri_params u @ [(k, Some x)]\<rparr>"
    by (simp add: gebr_comm_uri_add_param_def)
  have "strstr (param_text utf8 kv) ''='' = Some (length k)"
    using kv(2) by (simp add: param_text_def kv(1) strstr_char_first)
  moreover have "drop (length k + 1) (param_text utf8 kv) = g_uri_escape_string utf8 x" "take (length k) (param_text utf8 kv) = k"
    by (simp_all add: param_text_def kv(1))
  moreover have "g_uri_unescape_string (g_uri_escape_string utf8 x) = Some x"
    using assms(1) kv(3) by (rule uri_escape_round_trip)
  moreover have "parse_params (map (param_text utf8) ps) (u\<lparr>uri_params := uri_params u @ [(k, Some x)]\<rparr>) =
      Some (u\<lparr>uri_params := (uri_params u @ [(k, Some x)]) @ ps\<rparr>)"
    using Cons.IH [of "u\<lparr>uri_params := uri_params u @ [(k, Some x)]\<rparr>"] Cons.prems kv(1) by auto
  ultimately show ?case by (simp add: u kv(1))
qed simp

lemma uri_read_back:
  assumes "utf8_bytes utf8" "sendable u" "mset (order (uri_params u)) = mset (uri_params u)"
  shows "\<exists>url u'. gebr_comm_uri_to_string utf8 order u = Some url \<and> gebr_comm_uri_parse url gebr_comm_uri_new = Some u' \<and>
     gebr_comm_uri_get_prefix u' = gebr_comm_uri_get_prefix u \<and>
     (\<forall>k. gebr_comm_uri_get_param u' k = gebr_comm_uri_get_param u k)"
proof -
  obtain p where p: "uri_prefix u = Some p" "CHR ''?'' \<notin> set p" using assms(2) unfolding sendable_def by blast
  let ?ps = "order (uri_params u)" and ?f = "param_text utf8"
  have set_eq: "set ?ps = set (uri_params u)" using assms(3) by (rule mset_eq_setD)
  have ne: "?ps \<noteq> []" "uri_params u \<noteq> []" using assms(2) set_eq unfolding sendable_def by auto
  have dist: "distinct (map fst ?ps)"
    using assms(2,3) unfolding sendable_def by (metis mset_eq_imp_distinct_iff mset_map)
  have vals: "\<forall>(k, v) \<in> set ?ps. CHR '';'' \<notin> set k \<and> CHR ''='' \<notin> set k \<and> (\<exists>x. v = Some x \<and> (\<forall>c \<in> set x. code c \<noteq> 0))"
    unfolding set_eq using assms(2) unfolding sendable_def by blast
  have "\<forall>(k, v) \<in> set ?ps. v \<noteq> None" using vals by fastforce
  then have "concatenate_uri utf8 ?ps (p @ ''?'') = Some ((p @ ''?'' @ g_strjoinv '';'' (map ?f ?ps)) @ '';'')"
    by (simp add: concatenate_texts concat_semicolons [OF ne(1)])
  then have url: "gebr_comm_uri_to_string utf8 order u = Some (p @ CHR ''?'' # g_strjoinv '';'' (map ?f ?ps))"
    using ne by (simp add: gebr_comm_uri_to_string_def p Let_def flip: append_Cons append_assoc)
  have marks: "\<forall>t \<in> set (map ?f ?ps). CHR '';'' \<notin> set t"
    using vals by (auto simp: param_text_def escape_marks [OF assms(1)])
  have "g_strjoinv '';'' (map ?f ?ps) \<noteq> []"
  proof (cases ?ps)
    case (Cons kv ps)
    then show ?thesis by (cases ps) (simp_all add: param_text_def)
  qed (use ne in simp)
  then have split: "g_strsplit (g_strjoinv '';'' (map ?f ?ps)) '';'' (- 1) = map ?f ?ps"
    using marks ne by (intro strsplit_join_char) auto
  then have parsed: "gebr_comm_uri_parse (p @ CHR ''?'' # g_strjoinv '';'' (map ?f ?ps)) gebr_comm_uri_new =
      Some \<lparr>uri_prefix = Some p, uri_params = ?ps\<rparr>"
  proof -
    have "\<forall>(k, v) \<in> set ?ps. CHR ''='' \<notin> set k \<and> (\<exists>x. v = Some x \<and> (\<forall>c \<in> set x. code c \<noteq> 0))" using vals by fast
    from parse_param_texts [OF assms(1) dist _ this, of "\<lparr>uri_prefix = Some p, uri_params = []\<rparr>"] show ?thesis
      using split p(2)
      by (simp add: gebr_comm_uri_parse_def strstr_char_first gebr_comm_uri_set_prefix_def gebr_comm_uri_new_def)
  qed
  have "map_of ?ps = map_of (uri_params u)" 
    using dist assms(2) set_eq unfolding sendable_def by (simp add: map_of_inject_set)
  with url parsed p(1) show ?thesis by (simp add: gebr_comm_uri_get_prefix_def gebr_comm_uri_get_param_def)
qed

text \<open>
  C14: the address of a request is read back as it was built: a text is always produced, its prefix is the prefix
  given and every parameter has the value that was added, whatever the values hold.
\<close>

theorem uri_round_trip:
  assumes "utf8_bytes utf8" "sendable u" "mset (order (uri_params u)) = mset (uri_params u)"
  shows "\<exists>url u'. gebr_comm_uri_to_string utf8 order u = Some url \<and> gebr_comm_uri_parse url gebr_comm_uri_new = Some u' \<and>
     gebr_comm_uri_get_prefix u' = gebr_comm_uri_get_prefix u \<and>
     (\<forall>k. gebr_comm_uri_get_param u' k = gebr_comm_uri_get_param u k)"
  using assms by (rule uri_read_back)

definition run_uri :: uri where
  "run_uri =
     gebr_comm_uri_add_param ''name'' (Some '' =;?'')
       (gebr_comm_uri_add_param ''speed'' (Some ''5.0'')
         (gebr_comm_uri_set_prefix (Some ''/run'') gebr_comm_uri_new))"

lemma run_uri_params: "uri_params run_uri = [(''speed'', Some ''5.0''), (''name'', Some '' =;?'')]" "uri_prefix run_uri = Some ''/run''"
  by (simp_all add: run_uri_def gebr_comm_uri_add_param_def gebr_comm_uri_set_prefix_def gebr_comm_uri_new_def)

theorem uri_round_trip_witness:
  "\<exists>url u'. gebr_comm_uri_to_string (\<lambda>_. 0) rev run_uri = Some url \<and> gebr_comm_uri_parse url gebr_comm_uri_new = Some u' \<and>
     gebr_comm_uri_get_param u' ''name'' = Some '' =;?''"
proof -
  have "sendable run_uri" by (simp add: sendable_def run_uri_params code_def)
  from uri_round_trip [OF _ this, of "\<lambda>_. 0" rev] show ?thesis
    by (simp add: utf8_bytes_def) (auto simp: gebr_comm_uri_get_param_def run_uri_params)
qed

text \<open>A part without the mark of a value is not refused: the position of the mark is NULL and written to.\<close>

lemma parse_without_mark: "gebr_comm_uri_parse ''/kill?id'' gebr_comm_uri_new = None"
  by (simp add: gebr_comm_uri_parse_def g_strsplit_def)

end
