(* ===== verification/Gebr_Auth.thy ===== *)
theory Gebr_Auth
  imports Prelude
begin

text \<open>
  The cookies that allow a client to log in (\<open>libgebr/gebr-auth.c\<close>): a file of lines, to which the process that
  starts the maestro or daemon adds a cookie and from which each cookie is taken once.
\<close>

text \<open>The file, missing or with its lines.\<close>

type_synonym auth_file = "string list option"

text \<open>\<open>GEBR_AUTH_COOKIE_LENGTH\<close> and \<open>scanf(''%64s'')\<close> on what can be read from the standard input.\<close>

definition GEBR_AUTH_COOKIE_LENGTH :: nat where
  "GEBR_AUTH_COOKIE_LENGTH = 64"

definition scan_cookie :: "string \<Rightarrow> cstr" where
  "scan_cookie input =
     (let word = takeWhile (\<lambda>c. \<not> is_space c) (dropWhile is_space input)
      in if word = [] then None else Some (take GEBR_AUTH_COOKIE_LENGTH word))"

definition gebr_auth_read_cookie :: "string \<Rightarrow> auth_file \<Rightarrow> auth_file" where
  "gebr_auth_read_cookie input file =
     (case scan_cookie input of
        None \<Rightarrow> file
      | Some key \<Rightarrow> Some ((case file of None \<Rightarrow> [] | Some ls \<Rightarrow> ls) @ [key]))"

definition gebr_auth_remove_cookie :: "string \<Rightarrow> auth_file \<Rightarrow> auth_file" where
  "gebr_auth_remove_cookie key file = map_option (\<lambda>ls. filter (\<lambda>l. l \<noteq> key) (map g_strstrip ls)) file"

definition gebr_auth_accepts :: "string \<Rightarrow> auth_file \<Rightarrow> bool \<times> auth_file" where
  "gebr_auth_accepts key file =
     (case file of
        None \<Rightarrow> (False, None)
      | Some ls \<Rightarrow>
          if list_ex (\<lambda>l. g_strstrip l = key) ls then (True, gebr_auth_remove_cookie key file) else (False, file))"

lemma dropWhile_ends: "dropWhile P (rev (dropWhile P (rev xs))) = rev (dropWhile P (rev (dropWhile P xs)))"
proof (induction xs)
  case (Cons x xs)
  show ?case
  proof (cases "\<forall>y \<in> set xs. P y")
    case True
    then have "dropWhile P (rev xs) = []" "dropWhile P xs = []" by simp_all
    then show ?thesis by (cases "P x") (simp_all add: dropWhile_append del: dropWhile_eq_Nil_conv)
  next
    case False
    then have "dropWhile P (rev xs @ [x]) = dropWhile P (rev xs) @ [x]" by (auto simp: dropWhile_append)
    then show ?thesis using Cons False by (cases "P x") simp_all
  qed
qed simp

lemma dropWhile_idem [simp]: "dropWhile P (dropWhile P xs) = dropWhile P xs"
  by (induction xs) auto

lemma strstrip_idem [simp]: "g_strstrip (g_strstrip s) = g_strstrip s"
  by (simp add: g_strstrip_def g_strchug_def g_strchomp_def dropWhile_ends)

text \<open>A cookie is accepted at most once, and the acceptance of one does not affect the others.\<close>

lemma cookie_accepted_once:
  assumes "gebr_auth_accepts key file = (True, file')"
  shows "fst (gebr_auth_accepts key file') = False" "k \<noteq> key \<Longrightarrow> fst (gebr_auth_accepts k file') = fst (gebr_auth_accepts k file)"
proof -
  obtain ls where f: "file = Some ls" "file' = Some (filter (\<lambda>l. l \<noteq> key) (map g_strstrip ls))"
    using assms by (auto simp: gebr_auth_accepts_def gebr_auth_remove_cookie_def split: if_splits option.splits)
  show "fst (gebr_auth_accepts key file') = False" by (auto simp: f gebr_auth_accepts_def list_ex_iff)
  show "k \<noteq> key \<Longrightarrow> fst (gebr_auth_accepts k file') = fst (gebr_auth_accepts k file)"
    by (auto simp: f gebr_auth_accepts_def list_ex_iff)
qed

lemma cookie_read_accepted:
  assumes "input = pre @ key @ post" "\<forall>c \<in> set pre. is_space c" "\<forall>c \<in> set key. \<not> is_space c" "key \<noteq> []"
    and "post = [] \<or> is_space (hd post)" "length key \<le> GEBR_AUTH_COOKIE_LENGTH"
  shows "fst (gebr_auth_accepts key (gebr_auth_read_cookie input file))"
proof -
  have "dropWhile is_space input = key @ post"
    using assms(1-4) by (cases key) (simp_all add: dropWhile_append)
  moreover have "takeWhile (\<lambda>c. \<not> is_space c) (key @ post) = key"
    using assms(3,5) by (cases post) (simp_all add: takeWhile_append)
  ultimately have "scan_cookie input = Some key" using assms(4,6) by (simp add: scan_cookie_def)
  moreover have "g_strstrip key = key"
  proof -
    have "dropWhile is_space key = key" using assms(3,4) by (cases key) simp_all
    moreover have "dropWhile is_space (rev key) = rev key" using assms(3,4) by (cases "rev key") simp_all
    ultimately show ?thesis by (simp add: g_strstrip_def g_strchug_def g_strchomp_def)
  qed
  ultimately show ?thesis by (simp add: gebr_auth_read_cookie_def gebr_auth_accepts_def)
qed

end
