(* ===== verification/Gebrm_App.thy ===== *)
theory Gebrm_App
  imports Runner_Maestro Gebrm_Client Key_File Comm_Uri Geoxml_Dict Gebr_Auth
begin

text \<open>
  The application of the maestro (\<open>maestro/gebrm-app.c\<close>), the object that owns the daemons, the clients, the jobs
  and the queues of runs: its state, what it sends to clients, and the machines that are chosen for a run.
\<close>

section \<open>State\<close>

text \<open>\<open>AppUndefined\<close> is C behaviour without a meaning; \<open>AppFuel\<close> the end of the fuel of a recursion.\<close>

datatype app_error = AppFuel | AppUndefined

type_synonym 'a outcome = "app_error + 'a"

definition and_then :: "'a outcome \<Rightarrow> ('a \<Rightarrow> 'b outcome) \<Rightarrow> 'b outcome" where
  "and_then x f = (case x of Inl e \<Rightarrow> Inl e | Inr y \<Rightarrow> f y)"

lemma and_then_Inr_conv: "and_then x f = Inr z \<longleftrightarrow> (\<exists>y. x = Inr y \<and> f y = Inr z)"
  by (cases x) (simp_all add: and_then_def)

lemma and_then_simps [simp]: "and_then (Inr y) f = f y" "and_then (Inl e) f = Inl e"
  by (simp_all add: and_then_def)

text \<open>A runner with the data of its callback (\<open>AppAndJob\<close>) and its validator.\<close>

record app_runner =
  ar_runner :: runner
  ar_job :: job_ref
  ar_valid :: validator

record xauth_data =
  xa_daemon :: daemon_ref
  xa_client :: client_ref
  xa_port :: int
  xa_host :: cstr

text \<open>
  \<open>ap_children\<close> is the data \<open>children\<close> of a job object (\<open>RunnerAndJob\<close>); \<open>ap_runners\<close> are the runners that were
  not freed. The table of jobs is \<open>job_table\<close> of the world. The numbers of the next objects follow, then
  the cookies of clients, the sources of the main loop that wait for a time-out, and the providers of X11 ports that
  were started, with the data of their callback (\<open>GidInfo\<close>) and the display.
\<close>

record app =
  ap_w :: maestro
  ap_daemons :: "daemon_ref list"
  ap_connections :: "client_ref list"
  ap_clients :: "client_ref \<Rightarrow> client_obj"
  ap_nfsid :: cstr
  ap_home :: cstr
  ap_conf :: conf
  ap_connect_all :: bool
  ap_respect_ac :: bool
  ap_def_queue :: "job_ref list"
  ap_run_queue :: "nat list"
  ap_xauth_queue :: "xauth_data list"
  ap_jobs_counter :: "string \<Rightarrow> int option"
  ap_children :: "job_ref \<Rightarrow> (nat \<times> job_ref) list"
  ap_runners :: "nat \<Rightarrow> app_runner option"
  ap_next_job :: job_ref
  ap_next_runner :: nat
  ap_next_daemon :: daemon_ref
  ap_next_client :: client_ref
  ap_auth :: auth_file
  ap_timers :: "int list"
  ap_next_source :: int
  ap_providers :: "(daemon_ref \<times> client_ref \<times> int \<times> cstr) list"

definition upd_w :: "(maestro \<Rightarrow> maestro) \<Rightarrow> app \<Rightarrow> app" where
  "upd_w f a = a\<lparr>ap_w := f (ap_w a)\<rparr>"

lemma upd_w_sel [simp]:
  "ap_w (upd_w f a) = f (ap_w a)" "ap_daemons (upd_w f a) = ap_daemons a" "ap_connections (upd_w f a) = ap_connections a"
  "ap_clients (upd_w f a) = ap_clients a" "ap_def_queue (upd_w f a) = ap_def_queue a" "ap_run_queue (upd_w f a) = ap_run_queue a"
  "ap_jobs_counter (upd_w f a) = ap_jobs_counter a" "ap_children (upd_w f a) = ap_children a" "ap_runners (upd_w f a) = ap_runners a"
  "ap_next_job (upd_w f a) = ap_next_job a" "ap_next_runner (upd_w f a) = ap_next_runner a" "ap_conf (upd_w f a) = ap_conf a"
  by (simp_all add: upd_w_def)

text \<open>
  What comes from elsewhere: the runner's environment, the time, the dates of ISO 8601, the order of the table of
  jobs, the names of host and user, the documents that are read from the text of a request (JSON and XML), the version of
  the program, conversions of real numbers, the random cookies of new connections, and commands of ssh.
\<close>

record loaded =
  ld_flow :: xflow
  ld_title :: string
  ld_description :: string
  ld_line :: doc_ref
  ld_project :: doc_ref
  ld_heap :: validator
  ld_arith :: arith_expr

record app_env =
  ae_run :: run_env
  ae_now :: string
  ae_date :: "cstr \<Rightarrow> timeval"
  ae_job_ids :: "(string \<Rightarrow> job_ref option) \<Rightarrow> string list"
  ae_host :: string
  ae_user :: string
  ae_load :: "string \<Rightarrow> loaded"
  ae_version :: string
  ae_lf :: "real \<Rightarrow> string"
  ae_strtod :: "string \<Rightarrow> real"
  ae_cookie :: "daemon_ref \<Rightarrow> string"
  ae_atof :: "string \<Rightarrow> real"
  ae_append_key :: "server \<Rightarrow> string"
  ae_ssh :: "bool \<Rightarrow> string"
  ae_current :: int

text \<open>\<open>gebrm_app_init\<close>; the settings are read later, by \<open>gebrm_app_run\<close>. The first source is the one that empties the xauth queue.\<close>

definition gebrm_app_init :: "maestro \<Rightarrow> conf \<Rightarrow> app" where
  "gebrm_app_init w cf =
     \<lparr>ap_w = w, ap_daemons = [], ap_connections = [], ap_clients = (\<lambda>_. gebrm_client_init), ap_nfsid = None,
      ap_home = None, ap_conf = cf, ap_connect_all = False, ap_respect_ac = True, ap_def_queue = [], ap_run_queue = [],
      ap_xauth_queue = [], ap_jobs_counter = Map.empty, ap_children = (\<lambda>_. []), ap_runners = Map.empty,
      ap_next_job = 0, ap_next_runner = 0, ap_next_daemon = 0, ap_next_client = 0,
      ap_auth = None, ap_timers = [], ap_next_source = 2, ap_providers = []\<rparr>"

section \<open>Messages to clients\<close>

definition client_send :: "client_ref \<Rightarrow> message_def \<Rightarrow> cstr list \<Rightarrow> app \<Rightarrow> app" where
  "client_send c m args = upd_w (emit (ClientSend c m args))"

text \<open>\<open>gebr_comm_protocol_socket_return_message\<close>\<close>

definition client_return :: "client_ref \<Rightarrow> message_def \<Rightarrow> cstr list \<Rightarrow> app \<Rightarrow> app" where
  "client_return c m args = upd_w (emit (ClientReturn c m args))"

text \<open>The loops over \<open>app->priv->connections\<close> that send one message.\<close>

definition send_to_clients :: "message_def \<Rightarrow> cstr list \<Rightarrow> app \<Rightarrow> app" where
  "send_to_clients m args a = fold (\<lambda>c. client_send c m args) (ap_connections a) a"

definition emit_all :: "daemon_event list \<Rightarrow> maestro \<Rightarrow> maestro" where
  "emit_all es w = w\<lparr>daemon_trace := daemon_trace w @ es\<rparr>"

lemma emit_all_simps [simp]:
  "emit_all [] w = w" "emit e w = emit_all [e] w" "emit_all es (emit_all fs w) = emit_all (fs @ es) w"
  by (simp_all add: emit_all_def emit_def)

lemma emit_all_sel [simp]:
  "jobs (emit_all es w) = jobs w" "tasks (emit_all es w) = tasks w" "trace (emit_all es w) = trace w"
  "daemons (emit_all es w) = daemons w" "conns (emit_all es w) = conns w" "job_table (emit_all es w) = job_table w"
  "daemon_trace (emit_all es w) = daemon_trace w @ es" "uncompleted_tasks (emit_all es w) = uncompleted_tasks w"
  "next_job_id (emit_all es w) = next_job_id w"
  by (simp_all add: emit_all_def)

lemma send_to_clients_eq:
  "send_to_clients m args a = upd_w (emit_all (map (\<lambda>c. ClientSend c m args) (ap_connections a))) a"
proof -
  have "fold (\<lambda>c. client_send c m args) cs b = upd_w (emit_all (map (\<lambda>c. ClientSend c m args) cs)) b" for cs b
    by (induction cs arbitrary: b) (simp_all add: client_send_def upd_w_def)
  then show ?thesis by (simp add: send_to_clients_def)
qed

text \<open>The answers to the questions of \<open>gebrm-job.c\<close> that are members of the job.\<close>

definition text_or_empty :: "cstr \<Rightarrow> cstr" where
  "text_or_empty s = (if s = None then Some [] else s)"

text \<open>The 26 arguments of the definition of a job, with a description and snapshot given by the caller.\<close>

definition job_fields :: "app_env \<Rightarrow> job_ref \<Rightarrow> cstr \<Rightarrow> cstr \<Rightarrow> maestro \<Rightarrow> cstr list" where
  "job_fields env j snap_title snap_id w =
     (let jb = jobs w j; i = info jb; (infile, outfile, logfile) = gebrm_job_get_io jb
      in [info_id i, info_temp_id i, info_flow_id i, nprocs jb, servers jb, info_hostname i, info_title i,
          info_job_counter i, text_or_empty (info_description i), snap_title, snap_id, gebrm_job_get_queue jb,
          info_nice i, infile, outfile, logfile, info_submit_date i, Some (gebrm_job_get_server_group jb),
          info_group_type i, info_speed i, Some (gebr_comm_job_get_string_from_status (gebrm_job_get_status jb)),
          text_or_empty (gebrm_job_get_start_date (ae_date env) j w),
          text_or_empty (gebrm_job_get_finish_date (ae_date env) j w),
          run_type jb, mpi_owner jb, mpi_flavor jb])"

definition send_job_def_to_clients :: "app_env \<Rightarrow> job_ref \<Rightarrow> app \<Rightarrow> app" where
  "send_job_def_to_clients env j a =
     (let i = info (jobs (ap_w a) j)
      in send_to_clients job_def
           (job_fields env j (text_or_empty (info_snapshot_title i)) (text_or_empty (info_snapshot_id i)) (ap_w a)) a)"

text \<open>Everything about a job for one client: its definition, the outputs and commands of its tasks, its issues.\<close>

definition send_messages_of_jobs :: "app_env \<Rightarrow> cstr \<Rightarrow> job_ref \<Rightarrow> client_ref \<Rightarrow> app \<Rightarrow> app" where
  "send_messages_of_jobs env i j c a =
     (let w = ap_w a; ts = job_tasks (jobs w j); iss = gebrm_job_get_issues j w;
          frac_of = (\<lambda>t. Some (show_int (gebrm_task_get_fraction t w)));
          a = client_send c job_def
                (i # tl (job_fields env j (info_snapshot_title (info (jobs w j))) (info_snapshot_id (info (jobs w j))) w)) a;
          a = fold (\<lambda>t. client_send c out_def [i, frac_of t, Some (task_output (tasks w t))]) ts a;
          a = fold (\<lambda>t. client_send c cmd_def [i, frac_of t, Some (cmd_line (tasks w t))]) ts a
      in if iss \<noteq> None \<and> iss \<noteq> Some [] then client_send c iss_def [i, iss] a else a)"

text \<open>The callbacks of the signals \<open>issued\<close>, \<open>cmd-line-received\<close> and \<open>output\<close> of a job.\<close>

definition gebrm_app_job_controller_on_issued :: "job_ref \<Rightarrow> cstr \<Rightarrow> app \<Rightarrow> app" where
  "gebrm_app_job_controller_on_issued j iss a =
     send_to_clients iss_def [info_id (info (jobs (ap_w a) j)), iss] a"

definition gebrm_app_job_controller_on_cmd_line_received :: "job_ref \<Rightarrow> task_ref \<Rightarrow> string \<Rightarrow> app \<Rightarrow> app" where
  "gebrm_app_job_controller_on_cmd_line_received j t cmd a =
     send_to_clients cmd_def
       [info_id (info (jobs (ap_w a) j)), Some (show_int (gebrm_task_get_fraction t (ap_w a))), Some cmd] a"

definition gebrm_app_job_controller_on_output :: "job_ref \<Rightarrow> task_ref \<Rightarrow> string \<Rightarrow> app \<Rightarrow> app" where
  "gebrm_app_job_controller_on_output j t output a =
     send_to_clients out_def
       [info_id (info (jobs (ap_w a) j)), Some (show_int (gebrm_task_get_fraction t (ap_w a))), Some output] a"

section \<open>Machines of a run\<close>

definition gebrm_get_daemon_for_address :: "cstr \<Rightarrow> app \<Rightarrow> daemon_ref option" where
  "gebrm_get_daemon_for_address addr a =
     find (\<lambda>d. addr = Some (gebrm_daemon_get_address d (ap_w a))) (ap_daemons a)"

text \<open>A single machine is taken whether it is connected or not.\<close>

definition get_comm_servers_list :: "string \<Rightarrow> cstr \<Rightarrow> app \<Rightarrow> daemon_ref list" where
  "get_comm_servers_list grp group_type a =
     (let w = ap_w a; is_logged = (\<lambda>d. gebr_comm_server_is_logged (conns w d)) in
      if group_type = Some ''daemon'' then
        (case find (\<lambda>d. gebrm_daemon_get_address d w = grp) (ap_daemons a) of None \<Rightarrow> [] | Some d \<Rightarrow> [d])
      else if grp = [] then rev (filter is_logged (ap_daemons a))
      else rev (filter (\<lambda>d. gebrm_daemon_has_group grp (daemons w d) \<and> is_logged d) (ap_daemons a)))"

definition get_comm_servers_min_subset :: "daemon_ref list \<Rightarrow> string list \<Rightarrow> maestro \<Rightarrow> daemon_ref list" where
  "get_comm_servers_min_subset ds flavors w =
     (if flavors = [] then ds
      else rev (filter (\<lambda>d. list_all (\<lambda>f. gebrm_daemon_accepts_mpi f (daemons w d)) flavors) ds))"

definition get_comm_servers_max_subset :: "daemon_ref list \<Rightarrow> string list \<Rightarrow> maestro \<Rightarrow> daemon_ref list" where
  "get_comm_servers_max_subset ds flavors w =
     (if flavors = [] then ds
      else rev (filter (\<lambda>d. list_ex (\<lambda>f. gebrm_daemon_accepts_mpi f (daemons w d)) flavors) ds))"

lemma min_subset_max: "set (get_comm_servers_min_subset ds fs w) \<subseteq> set (get_comm_servers_max_subset ds fs w)"
  by (cases fs) (auto simp: get_comm_servers_min_subset_def get_comm_servers_max_subset_def)

definition gebrm_app_increment_jobs_counter :: "string \<Rightarrow> app \<Rightarrow> int \<times> app" where
  "gebrm_app_increment_jobs_counter flow_id a =
     (let n = (case ap_jobs_counter a flow_id of None \<Rightarrow> 1 | Some k \<Rightarrow> k + 1)
      in (n, a\<lparr>ap_jobs_counter := (ap_jobs_counter a)(flow_id \<mapsto> n)\<rparr>))"

definition gebrm_app_job_controller_add :: "job_ref \<Rightarrow> app \<Rightarrow> app" where
  "gebrm_app_job_controller_add j a =
     upd_w (\<lambda>w. w\<lparr>job_table := (job_table w)(the (info_id (info (jobs w j))) \<mapsto> j)\<rparr>) a"

end
