(* ===== verification/Gebrm_Queue.thy ===== *)
theory Gebrm_Queue
  imports Gebrm_App Validator_Edit
begin

text \<open>
  Runs of the maestro (\<open>maestro/gebrm-app.c\<close>): a request for a run makes a job and a runner, runners wait in a queue
  for the answers of the machines of the one before, and jobs wait for the end of the job they depend on.
\<close>

section \<open>Runners\<close>

text \<open>\<open>gebr_comm_runner_run_async\<close> on a runner of the application; a freed runner has no meaning.\<close>

definition run_async :: "app_env \<Rightarrow> nat \<Rightarrow> app \<Rightarrow> (bool \<times> app) outcome" where
  "run_async env r a =
     (case ap_runners a r of
        None \<Rightarrow> Inl AppUndefined
      | Some ar \<Rightarrow>
          (let (started, rn, w) = gebr_comm_runner_run_async (ae_run env) gebrm_daemon_init_iface (ar_runner ar) (ap_w a)
           in Inr (started, a\<lparr>ap_w := w, ap_runners := (ap_runners a)(r \<mapsto> ar\<lparr>ar_runner := rn\<rparr>)\<rparr>)))"

section \<open>The end of a job\<close>

text \<open>The runners of the children are started; the job of one that cannot start is killed by \<open>kill\<close>.\<close>

fun start_children :: "app_env \<Rightarrow> (job_ref \<Rightarrow> app \<Rightarrow> app outcome) \<Rightarrow> (nat \<times> job_ref) list \<Rightarrow> app \<Rightarrow> app outcome" where
  "start_children env kill [] a = Inr a"
| "start_children env kill ((r, c) # cs) a =
     and_then (run_async env r a) (\<lambda>(started, a).
       and_then (if started then Inr a else kill c a) (start_children env kill cs))"

definition tell_client_status :: "app_env \<Rightarrow> job_ref \<Rightarrow> comm_job_status \<Rightarrow> comm_job_status \<Rightarrow> cstr \<Rightarrow> client_ref \<Rightarrow> app \<Rightarrow> app" where
  "tell_client_status env j old new par c a =
     (let a = client_send c sta_def
                [info_id (info (jobs (ap_w a) j)), Some (gebr_comm_job_get_string_from_status new), par] a
      in if old = JOB_STATUS_INITIAL \<and> new = JOB_STATUS_RUNNING
         then (fold (send_job_def_to_clients env) (ap_def_queue a) a)\<lparr>ap_def_queue := []\<rparr> else a)"

text \<open>
  \<open>gebrm_app_job_controller_on_status_change\<close>, which calls itself through \<open>gebrm_job_kill_immediately\<close> on the
  children that cannot start; the fuel bounds the depth of the tree of children.
\<close>

primrec gebrm_app_job_controller_on_status_change ::
    "nat \<Rightarrow> app_env \<Rightarrow> job_ref \<Rightarrow> comm_job_status \<Rightarrow> comm_job_status \<Rightarrow> cstr \<Rightarrow> app \<Rightarrow> app outcome" where
  "gebrm_app_job_controller_on_status_change 0 env j old new par a = Inl AppFuel"
| "gebrm_app_job_controller_on_status_change (Suc n) env j old new par a =
     (let a = (if new = JOB_STATUS_FAILED then upd_w (gebrm_job_kill_tasks j) a else a);
          kill = (\<lambda>c a. gebrm_app_job_controller_on_status_change n env c (status (jobs (ap_w a) c)) JOB_STATUS_CANCELED
                    (Some (ae_now env)) (upd_w (gebrm_job_kill_immediately (ae_now env) c) a))
      in and_then
           (if new = JOB_STATUS_FINISHED \<or> new = JOB_STATUS_FAILED \<or> new = JOB_STATUS_CANCELED
            then and_then (start_children env kill (ap_children a j) a)
                   (\<lambda>a. Inr (a\<lparr>ap_children := (ap_children a)(j := [])\<rparr>))
            else Inr a)
           (\<lambda>a. Inr (fold (tell_client_status env j old new par) (ap_connections a) a)))"

text \<open>\<open>gebrm_job_kill_immediately\<close> and \<open>gebrm_job_unqueue\<close> with the callback of their signal.\<close>

definition kill_immediately :: "nat \<Rightarrow> app_env \<Rightarrow> job_ref \<Rightarrow> app \<Rightarrow> app outcome" where
  "kill_immediately n env j a =
     gebrm_app_job_controller_on_status_change n env j (status (jobs (ap_w a) j)) JOB_STATUS_CANCELED
       (Some (ae_now env)) (upd_w (gebrm_job_kill_immediately (ae_now env) j) a)"

definition unqueue :: "nat \<Rightarrow> app_env \<Rightarrow> job_ref \<Rightarrow> app \<Rightarrow> app outcome" where
  "unqueue n env j a =
     (if status (jobs (ap_w a) j) \<noteq> JOB_STATUS_QUEUED then Inr a
      else gebrm_app_job_controller_on_status_change n env j JOB_STATUS_QUEUED JOB_STATUS_CANCELED
             (Some (ae_now env)) (upd_w (gebrm_job_unqueue (ae_now env) j) a))"

section \<open>The answer of the machines\<close>

definition set_run_results :: "job_ref \<Rightarrow> runner \<Rightarrow> app \<Rightarrow> app" where
  "set_run_results j rn =
     upd_w (\<lambda>w. set_job j
       (gebrm_job_set_nprocs (rn_ncores rn) (gebrm_job_set_servers_list (rn_servers_list rn)
         (gebrm_job_set_total_tasks (rn_total rn) (gebrm_job_set_mpi_flavor (rn_mpi_flavor rn)
           (gebrm_job_set_mpi_owner (rn_mpi_owner rn) (jobs w j)))))) w)"

text \<open>
  The callback of a run that was handed over. \<open>g_queue_pop_head\<close> of an empty queue is harmless; the job of the next
  run is looked up by the id of its runner.
\<close>

definition start_next :: "nat \<Rightarrow> app_env \<Rightarrow> app \<Rightarrow> app outcome" where
  "start_next n env a =
     (case ap_run_queue a of
        [] \<Rightarrow> Inr a
      | r # _ \<Rightarrow>
          and_then (run_async env r a) (\<lambda>(started, a).
            if started then Inr a
            else (case Option.bind (Option.bind (ap_runners a r) (\<lambda>ar. rn_id (ar_runner ar)))
                         (\<lambda>i. gebrm_app_job_controller_find i (ap_w a)) of
                    None \<Rightarrow> Inl AppUndefined
                  | Some j \<Rightarrow> kill_immediately n env j a)))"

definition on_execution_response :: "nat \<Rightarrow> app_env \<Rightarrow> nat \<Rightarrow> app \<Rightarrow> app outcome" where
  "on_execution_response n env r a =
     (case ap_runners a r of
        None \<Rightarrow> Inl AppUndefined
      | Some ar \<Rightarrow>
          (let j = ar_job ar;
               a = set_run_results j (ar_runner ar) a;
               a = send_job_def_to_clients env j (a\<lparr>ap_def_queue := tl (ap_def_queue a)\<rparr>)
           in and_then (start_next n env (a\<lparr>ap_run_queue := tl (ap_run_queue a)\<rparr>))
                (\<lambda>a. Inr (a\<lparr>ap_runners := (ap_runners a)(r := None)\<rparr>))))"

text \<open>
  The answer of one machine, and the idle callback of a parallel program. The callback runs when the runner calls its
  \<open>ran_func\<close>, after which the runner does nothing more.
\<close>

definition ran :: "nat \<Rightarrow> app_env \<Rightarrow> nat \<Rightarrow> app_runner \<Rightarrow> runner \<Rightarrow> app \<Rightarrow> app outcome" where
  "ran n env r ar rn a =
     (let a = a\<lparr>ap_runners := (ap_runners a)(r \<mapsto> ar\<lparr>ar_runner := rn\<rparr>)\<rparr>
      in if rn_ran rn = rn_ran (ar_runner ar) then Inr a else on_execution_response n env r a)"

definition machine_answered :: "nat \<Rightarrow> app_env \<Rightarrow> nat \<Rightarrow> daemon_ref \<Rightarrow> string \<Rightarrow> app \<Rightarrow> app outcome" where
  "machine_answered n env r d load a =
     (case ap_runners a r of
        None \<Rightarrow> Inl AppUndefined
      | Some ar \<Rightarrow>
          (case on_response_received (ae_run env) gebrm_daemon_init_iface d load (ar_runner ar) (ap_w a) (ar_valid ar) of
             Inl _ \<Rightarrow> Inl AppUndefined
           | Inr ((rn, w), v) \<Rightarrow> ran n env r (ar\<lparr>ar_valid := v\<rparr>) rn (a\<lparr>ap_w := w\<rparr>)))"

definition idle_ran :: "nat \<Rightarrow> app_env \<Rightarrow> nat \<Rightarrow> app \<Rightarrow> app outcome" where
  "idle_ran n env r a =
     (case ap_runners a r of
        None \<Rightarrow> Inl AppUndefined
      | Some ar \<Rightarrow> ran n env r ar (idle_run (ar_runner ar)) a)"

section \<open>A request for a run\<close>

text \<open>The documents of the request and the validator on them; the variables of the documents are 0, 1 and 2.\<close>

definition open_flow :: "app_env \<Rightarrow> string \<Rightarrow> (loaded \<times> validator) outcome" where
  "open_flow env body =
     (let l = ae_load env body; f = fl_doc (ld_flow l);
          v = snd (gebr_geoxml_document_split_dict f [ld_line l, ld_project l] (ld_heap l));
          v = v\<lparr>doc_vars := (doc_vars v)(0 \<mapsto> f, 1 \<mapsto> ld_line l, 2 \<mapsto> ld_project l)\<rparr>
      in case gebr_validator_new (re_strtod (ae_run env)) (re_upd (ae_run env)) (ld_arith l) 0 1 2 v of
           Inl _ \<Rightarrow> Inl AppUndefined
         | Inr (_, v) \<Rightarrow> Inr (l, v))"

definition run_info :: "app_env \<Rightarrow> uri \<Rightarrow> cstr \<Rightarrow> loaded \<Rightarrow> int \<Rightarrow> job_info" where
  "run_info env u parent_id l job_counter =
     (let par = gebr_comm_uri_get_param u in
      no_info\<lparr>info_title := Some (ld_title l), info_description := Some (ld_description l),
        info_temp_id := par ''temp_id'', info_flow_id := par ''flow_id'', info_flow_title := par ''flow_title'',
        info_hostname := par ''host'', info_parent_id := parent_id, info_nice := par ''nice'',
        info_input := Some (gebr_geoxml_flow_io_get_input_real (ld_flow l)),
        info_output := Some (gebr_geoxml_flow_io_get_output_real (ld_flow l)),
        info_error := Some (fl_errfile (ld_flow l)),
        info_snapshot_title := par ''snapshot_title'', info_snapshot_id := par ''snapshot_id'',
        info_job_counter := Some (show_int job_counter),
        info_group := (if par ''server-hostname'' \<noteq> None then par ''server-hostname'' else par ''name''),
        info_group_type := par ''group_type'', info_speed := par ''speed'', info_submit_date := Some (ae_now env)\<rparr>)"

text \<open>A job of the next number, with the details and the kind of run; the client knows it by its temporary id.\<close>

definition new_job :: "client_ref \<Rightarrow> string \<Rightarrow> job_info \<Rightarrow> string \<Rightarrow> app \<Rightarrow> job_ref \<times> app" where
  "new_job c temp_id i rtype a =
     (let j = ap_next_job a;
          a = (upd_w (gebrm_job_new j) a)\<lparr>ap_next_job := j + 1\<rparr>;
          a = a\<lparr>ap_clients := (ap_clients a)(c := gebrm_client_add_temp_id temp_id
                  (the (info_id (info (jobs (ap_w a) j)))) (ap_clients a c))\<rparr>;
          a = gebrm_app_job_controller_add j (upd_w (\<lambda>w. set_job j (gebrm_job_init_details (jobs w j) i) w) a)
      in (j, upd_w (\<lambda>w. set_job j (gebrm_job_set_run_type (Some rtype) (jobs w j)) w) a))"

text \<open>
  The text of the issue when no machine has all flavors. The text is freed in the loop over the clients that sends
  it, so with two clients it is read and freed again.
\<close>

definition printed :: "cstr \<Rightarrow> string" where
  "printed s = (case s of None \<Rightarrow> ''(null)'' | Some t \<Rightarrow> t)"

definition mpi_issue :: "string list \<Rightarrow> string \<Rightarrow> cstr \<Rightarrow> cstr \<Rightarrow> string" where
  "mpi_issue flavors grp group_type host =
     (let tmp = drop 5 (concat (map (\<lambda>f. '' and '' @ ''<b>'' @ f @ ''</b>'') flavors)) in
      if grp = [] then
        ''There is no processing node that supports '' @ tmp @ '' in domain <b>'' @ printed host @ ''</b>''
      else if group_type \<noteq> Some ''daemon'' then
        ''There is no processing node that supports '' @ tmp @ '' in group <b>'' @ grp @ ''</b>''
      else ''The processing node <b>'' @ grp @ ''</b> does not support '' @ tmp)"

definition refuse_run :: "app_env \<Rightarrow> job_ref \<Rightarrow> string \<Rightarrow> app \<Rightarrow> app outcome" where
  "refuse_run env j msg a =
     (let a = upd_w (\<lambda>w. gebrm_job_set_status j JOB_STATUS_FAILED w) a; i = info_id (info (jobs (ap_w a) j)) in
      case ap_connections a of
        [] \<Rightarrow> Inr a
      | [c] \<Rightarrow> Inr (client_send c iss_def [i, Some msg] (send_messages_of_jobs env i j c a))
      | _ \<Rightarrow> Inl AppUndefined)"

text \<open>\<open>g_queue_insert_after\<close> at the first place of \<open>x\<close>.\<close>

fun insert_after :: "'a \<Rightarrow> 'a \<Rightarrow> 'a list \<Rightarrow> 'a list" where
  "insert_after x y [] = []"
| "insert_after x y (z # zs) = (if z = x then z # y # zs else z # insert_after x y zs)"

text \<open>A run without a parent that it has to wait for: it is put on the queue whether it could be started or not.\<close>

definition start_or_wait :: "nat \<Rightarrow> app_env \<Rightarrow> job_ref \<Rightarrow> nat \<Rightarrow> app \<Rightarrow> app outcome" where
  "start_or_wait n env j r a =
     (let a = a\<lparr>ap_def_queue := j # ap_def_queue a\<rparr> in
      and_then
        (if ap_run_queue a = []
         then and_then (run_async env r a) (\<lambda>(started, a). if started then Inr a else kill_immediately n env j a)
         else Inr a)
        (\<lambda>a. Inr (a\<lparr>ap_run_queue := ap_run_queue a @ [r]\<rparr>)))"

text \<open>
  The new runner is started at once, waits in the queue of runs, or waits for the end of the parent of its job. A
  NULL \<open>parent_id\<close> is hashed.
\<close>

definition queue_run :: "nat \<Rightarrow> app_env \<Rightarrow> job_ref \<Rightarrow> nat \<Rightarrow> cstr \<Rightarrow> app \<Rightarrow> app outcome" where
  "queue_run n env j r parent_id a =
     (case parent_id of
        None \<Rightarrow> Inl AppUndefined
      | Some p \<Rightarrow>
          (case gebrm_app_job_controller_find p (ap_w a) of
             Some q \<Rightarrow>
               if status (jobs (ap_w a) q) = JOB_STATUS_QUEUED \<or> status (jobs (ap_w a) q) = JOB_STATUS_RUNNING \<or>
                  status (jobs (ap_w a) q) = JOB_STATUS_INITIAL
               then
                 (let a = a\<lparr>ap_def_queue := insert_after q j (ap_def_queue a),
                            ap_children := (ap_children a)(q := (r, j) # ap_children a q)\<rparr>
                  in Inr (if ap_def_queue a = [] then send_job_def_to_clients env j a else a))
               else start_or_wait n env j r a
           | None \<Rightarrow> start_or_wait n env j r a))"

definition new_runner :: "job_ref \<Rightarrow> runner \<Rightarrow> validator \<Rightarrow> app \<Rightarrow> nat \<times> app" where
  "new_runner j rn v a =
     (let r = ap_next_runner a
      in (r, a\<lparr>ap_runners := (ap_runners a)(r \<mapsto> \<lparr>ar_runner = gebr_comm_runner_set_ran_func rn, ar_job = j, ar_valid = v\<rparr>),
               ap_next_runner := r + 1\<rparr>))"

text \<open>The parent of a run: the id that the client gives, or the one that its temporary id stands for.\<close>

definition run_parent :: "client_ref \<Rightarrow> uri \<Rightarrow> app \<Rightarrow> cstr" where
  "run_parent c u a =
     (case gebr_comm_uri_get_param u ''temp_parent'' of
        None \<Rightarrow> gebr_comm_uri_get_param u ''parent_id''
      | Some t \<Rightarrow> gebrm_client_get_job_id_from_temp (ap_clients a c) t)"

text \<open>
  \<open>gebrm_app_handle_run\<close>. The parameters that every client sends are needed: a NULL \<open>flow_id\<close> or \<open>temp_id\<close> is hashed,
  a NULL \<open>name\<close> is compared and dereferenced, a NULL \<open>speed\<close> is read as a number when the machines have answered.
\<close>

definition gebrm_app_handle_run :: "nat \<Rightarrow> app_env \<Rightarrow> string \<Rightarrow> client_ref \<Rightarrow> uri \<Rightarrow> app \<Rightarrow> app outcome" where
  "gebrm_app_handle_run n env body c u a =
     (let par = gebr_comm_uri_get_param u;
          parent_id = run_parent c u a
      in case (par ''flow_id'', par ''temp_id'', par ''name'', par ''speed'') of
           (Some flow_id, Some temp_id, Some name, Some speed) \<Rightarrow>
             and_then (open_flow env body) (\<lambda>(l, v).
               (let (counter, a) = gebrm_app_increment_jobs_counter flow_id a;
                    i = run_info env u parent_id l counter;
                    flavors = gebr_geoxml_flow_get_mpi_flavors (ld_flow l);
                    (j, a) = new_job c temp_id i (if flavors \<noteq> [] then ''mpi'' else ''normal'') a;
                    ds = get_comm_servers_list name (par ''group_type'') a;
                    min_ds = get_comm_servers_min_subset ds flavors (ap_w a);
                    max_ds = get_comm_servers_max_subset ds flavors (ap_w a)
                in if min_ds = []
                   then refuse_run env j (mpi_issue flavors (the (info_group i)) (par ''group_type'') (info_hostname i)) a
                   else
                     (let (r, a) = new_runner j
                        (gebr_comm_runner_new (ld_flow l) min_ds max_ds (info_id (info (jobs (ap_w a) j))) (par ''gid'')
                          parent_id speed (par ''nice'') (Some name) (par ''paths'')) v a
                      in queue_run n env j r parent_id a)))
         | _ \<Rightarrow> Inl AppUndefined)"

section \<open>Requests on jobs\<close>

text \<open>
  \<open>/kill\<close>. The children of a queued job should go to its parent, but the loop removes and frees the link it stands on
  before it reads the next one.
\<close>

definition kill_request :: "nat \<Rightarrow> app_env \<Rightarrow> string \<Rightarrow> app \<Rightarrow> app outcome" where
  "kill_request n env i a =
     (case gebrm_app_job_controller_find i (ap_w a) of
        None \<Rightarrow> Inr a
      | Some j \<Rightarrow>
          if status (jobs (ap_w a) j) \<noteq> JOB_STATUS_QUEUED then Inr (upd_w (gebrm_job_kill j) a)
          else (case gebrm_job_get_queue (jobs (ap_w a) j) of
             None \<Rightarrow> Inl AppUndefined
           | Some p \<Rightarrow>
               if ap_children a j \<noteq> [] then Inl AppUndefined
               else unqueue n env j
                 (case gebrm_app_job_controller_find p (ap_w a) of
                    None \<Rightarrow> a
                  | Some q \<Rightarrow> a\<lparr>ap_children := (ap_children a)(q :=
                      (case find (\<lambda>rj. snd rj = j) (ap_children a q) of
                         None \<Rightarrow> ap_children a q | Some rj \<Rightarrow> remove1 rj (ap_children a q)))\<rparr>)))"

text \<open>\<open>/close\<close>: the answer of \<open>gebrm_job_close\<close>, whether the job can be closed at all, is not read.\<close>

definition close_request :: "string \<Rightarrow> app \<Rightarrow> app" where
  "close_request i a =
     (case gebrm_app_job_controller_find i (ap_w a) of
        None \<Rightarrow> a
      | Some j \<Rightarrow>
          send_to_clients jcl_def [Some i]
            (upd_w (\<lambda>w. let w = snd (gebrm_job_close (\<lambda>d. gebr_comm_server_is_logged (conns w d)) j w)
                        in w\<lparr>job_table := (job_table w)(i := None)\<rparr>) a))"

end
