(* ===== verification/Gebrm_Connect.thy ===== *)
theory Gebrm_Connect
  imports Gebrm_Queue
begin

text \<open>
  The machines of the maestro (\<open>maestro/gebrm-app.c\<close>): the application listens to the connections of its daemons,
  connects one after the other, refuses daemons of another domain or that run twice, and keeps the list of machines.
  The handler of a change of state runs inside the operation of the connection that caused it, and may connect other
  machines; here it is the callback of the connection, with the application as its data.
\<close>

section \<open>Messages about machines\<close>

definition send_server_status_message ::
    "app_env \<Rightarrow> client_ref \<Rightarrow> daemon_ref \<Rightarrow> cstr \<Rightarrow> server_state \<Rightarrow> app \<Rightarrow> app" where
  "send_server_status_message env c d ac st a =
     (let s = conns (ap_w a) d;
          clk = ae_lf env (clock_cpu s);
          mem = (case memory s of None \<Rightarrow> ''0'' | Some m \<Rightarrow> m)
      in upd_w (gebrm_daemon_send_error_message d c)
           (client_send c ssta_def
             [Some (hostname (protocol s)), Some (address s), Some (gebr_comm_server_state_to_string st), ac,
              Some (show_int (ncores s)), Some (if ae_strtod env clk > 0 then clk else []), model_name s,
              Some (if ae_strtod env mem > 0 then mem else [])] a))"

definition send_groups_definitions :: "client_ref \<Rightarrow> daemon_ref \<Rightarrow> app \<Rightarrow> app" where
  "send_groups_definitions c d a =
     client_send c agrp_def [Some (gebrm_daemon_get_address d (ap_w a)), Some (gebrm_daemon_get_tags (daemons (ap_w a) d))] a"

definition gebrm_app_send_mpi_flavors :: "client_ref \<Rightarrow> daemon_ref \<Rightarrow> app \<Rightarrow> app" where
  "gebrm_app_send_mpi_flavors c d a =
     client_send c mpi_def [Some (gebrm_daemon_get_address d (ap_w a)), mpi_flavors (daemons (ap_w a) d)] a"

definition gebrm_app_send_home_dir :: "client_ref \<Rightarrow> cstr \<Rightarrow> app \<Rightarrow> app" where
  "gebrm_app_send_home_dir c h a = client_send c home_def [h] (a\<lparr>ap_home := h\<rparr>)"

text \<open>A NULL domain has no addresses and no label.\<close>

definition gebrm_app_send_nfsid :: "client_ref \<Rightarrow> cstr \<Rightarrow> app \<Rightarrow> app" where
  "gebrm_app_send_nfsid c n a =
     (let hosts = (case n of None \<Rightarrow> [] | Some k \<Rightarrow> gebr_maestro_settings_get_addrs (ap_conf a) k);
          label = (case n of None \<Rightarrow> [] | Some k \<Rightarrow> gebr_maestro_settings_get_label_for_domain (ap_conf a) k False);
          a = client_send c nfsid_def [n, Some hosts, Some label] a
      in a\<lparr>ap_clients := (ap_clients a)(c := gebrm_client_set_sent_nfsid True (ap_clients a c))\<rparr>)"

section \<open>Changes of state\<close>

definition upd_dm :: "daemon_ref \<Rightarrow> (daemon \<Rightarrow> daemon) \<Rightarrow> app \<Rightarrow> app" where
  "upd_dm d f = upd_w (upd_daemon d f)"

definition verify_connect_all :: "app \<Rightarrow> app" where
  "verify_connect_all a =
     (if list_ex (\<lambda>d. gebrm_daemon_get_state d (ap_w a) \<noteq> SERVER_STATE_LOGGED \<and> \<not> is_canceled (daemons (ap_w a) d))
           (ap_daemons a)
      then a else a\<lparr>ap_connect_all := False\<rparr>)"

text \<open>A machine is connected once for every client; only the first call finds it disconnected.\<close>

fun connect_for_clients :: "(daemon_ref \<Rightarrow> client_ref \<Rightarrow> app \<Rightarrow> app outcome) \<Rightarrow> daemon_ref \<Rightarrow> client_ref list \<Rightarrow> app \<Rightarrow> app outcome" where
  "connect_for_clients connect d [] a = Inr a"
| "connect_for_clients connect d (c # cs) a = and_then (connect d c a) (connect_for_clients connect d cs)"

fun continue_connections ::
    "(daemon_ref \<Rightarrow> client_ref \<Rightarrow> app \<Rightarrow> app outcome) \<Rightarrow> bool \<Rightarrow> daemon_ref list \<Rightarrow> app \<Rightarrow> app outcome" where
  "continue_connections connect from_append_key [] a = Inr a"
| "continue_connections connect from_append_key (d # ds) a =
     (let w = ap_w a in
      if \<not> from_append_key \<and> gebrm_daemon_get_state d w = SERVER_STATE_LOGGED \<and> use_public_key (conns w d) then Inr a
      else if gebrm_daemon_get_state d w \<noteq> SERVER_STATE_LOGGED \<and>
              (autoconnect (daemons w d) = Some ''on'' \<or> \<not> ap_respect_ac a) \<and> \<not> is_canceled (daemons w d)
      then and_then (connect_for_clients connect d (ap_connections a) a)
             (\<lambda>a. if \<not> from_append_key then Inr a else continue_connections connect from_append_key ds a)
      else continue_connections connect from_append_key ds a)"

definition gebrm_app_continue_connections_of_daemons ::
    "(daemon_ref \<Rightarrow> client_ref \<Rightarrow> app \<Rightarrow> app outcome) \<Rightarrow> bool \<Rightarrow> app \<Rightarrow> app outcome" where
  "gebrm_app_continue_connections_of_daemons connect from_append_key a =
     continue_connections connect from_append_key (ap_daemons a) a"

text \<open>The time-out of a machine: \<open>g_source_remove\<close> and \<open>g_timeout_add\<close>.\<close>

definition stop_timer :: "daemon_ref \<Rightarrow> app \<Rightarrow> app" where
  "stop_timer d a =
     (let t = timeout (daemons (ap_w a) d) in
      if t = - 1 then a
      else upd_dm d (gebrm_daemon_set_timeout (- 1)) (a\<lparr>ap_timers := remove1 t (ap_timers a)\<rparr>))"

definition start_timer :: "daemon_ref \<Rightarrow> app \<Rightarrow> app" where
  "start_timer d a =
     (let t = ap_next_source a
      in upd_dm d (gebrm_daemon_set_timeout t) (a\<lparr>ap_timers := ap_timers a @ [t], ap_next_source := t + 1\<rparr>))"

definition go_on :: "(daemon_ref \<Rightarrow> client_ref \<Rightarrow> app \<Rightarrow> app outcome) \<Rightarrow> app \<Rightarrow> app outcome" where
  "go_on connect a =
     and_then (gebrm_app_continue_connections_of_daemons connect False a) (\<lambda>a. Inr (verify_connect_all a))"

text \<open>A machine that has displays to tell: the loop frees the link of the queue it stands on.\<close>

definition disconnected_change :: "(daemon_ref \<Rightarrow> client_ref \<Rightarrow> app \<Rightarrow> app outcome) \<Rightarrow> daemon_ref \<Rightarrow> app \<Rightarrow> app outcome" where
  "disconnected_change connect d a =
     (if list_ex (\<lambda>x. xa_daemon x = d) (ap_xauth_queue a) then Inl AppUndefined
      else
        (let a = (if error_type (daemons (ap_w a) d) \<noteq> None
                  then upd_dm d (gebrm_daemon_set_canceled True) (stop_timer d a) else a)
         in and_then (if is_canceled (daemons (ap_w a) d) \<and> ap_connect_all a then go_on connect a else Inr a)
              (\<lambda>a. if error_type (daemons (ap_w a) d) = None \<and> reconnect (daemons (ap_w a) d)
                    then connect_for_clients (\<lambda>d c a. connect d c (upd_dm d (gebrm_daemon_set_reconnect False) a)) d
                           (ap_connections a) a
                    else Inr a)))"

definition handle_state_change ::
    "(daemon_ref \<Rightarrow> client_ref \<Rightarrow> app \<Rightarrow> app outcome) \<Rightarrow> app_env \<Rightarrow> daemon_ref \<Rightarrow> server_state \<Rightarrow> app \<Rightarrow> app outcome" where
  "handle_state_change connect env d st a =
     and_then
       (case st of
          SERVER_STATE_DISCONNECTED \<Rightarrow> disconnected_change connect d a
        | SERVER_STATE_RUN \<Rightarrow>
            Inr (if ap_connect_all a then start_timer d (upd_dm d (gebrm_daemon_set_canceled True) a) else a)
        | SERVER_STATE_LOGGED \<Rightarrow>
            (let a = upd_dm d (gebrm_daemon_set_canceled False) (stop_timer d a)
             in if ap_connect_all a then go_on connect a else Inr a)
        | _ \<Rightarrow> Inr a)
       (\<lambda>a. Inr (fold (\<lambda>c. send_server_status_message env c d (autoconnect (daemons (ap_w a) d)) st) (ap_connections a) a))"

text \<open>The callback of the connection of a machine: that of \<open>gebrm-daemon.c\<close>, whose signal the application handles.\<close>

definition app_state_changed ::
    "(daemon_ref \<Rightarrow> server_state \<Rightarrow> app \<Rightarrow> app outcome) \<Rightarrow> daemon_ref \<Rightarrow> app outcome server_user \<Rightarrow> app outcome server_user" where
  "app_state_changed handler d su =
     (case snd su of
        Inl e \<Rightarrow> su
      | Inr a \<Rightarrow>
          (let (s, w) = gebrm_server_op_state_changed d (fst su, ap_w a) in
           case handler d (state s) (a\<lparr>ap_w := upd_conn d (\<lambda>_. s) w\<rparr>) of
             Inl e \<Rightarrow> (s, Inl e)
           | Inr a \<Rightarrow> (conns (ap_w a) d, Inr a)))"

definition app_with_conn ::
    "daemon_ref \<Rightarrow> (app outcome server_user \<Rightarrow> app outcome server_user) \<Rightarrow> app \<Rightarrow> app outcome" where
  "app_with_conn d f a =
     (let (s, x) = f (conns (ap_w a) d, Inr a) in and_then x (\<lambda>a. Inr (upd_w (upd_conn d (\<lambda>_. s)) a)))"

definition connect_with ::
    "(daemon_ref \<Rightarrow> server_state \<Rightarrow> app \<Rightarrow> app outcome) \<Rightarrow> daemon_ref \<Rightarrow> client_ref \<Rightarrow> app \<Rightarrow> app outcome" where
  "connect_with handler d c a =
     app_with_conn d (gebr_comm_server_connect (app_state_changed handler d) False False)
       (upd_dm d (\<lambda>dm. dm\<lparr>client := Some c\<rparr>) a)"

text \<open>\<open>gebrm_app_daemon_on_state_change\<close>; the fuel is the depth of connections made in a handler.\<close>

primrec on_state_change_fuel :: "nat \<Rightarrow> app_env \<Rightarrow> daemon_ref \<Rightarrow> server_state \<Rightarrow> app \<Rightarrow> app outcome" where
  "on_state_change_fuel 0 env d st a = Inl AppFuel"
| "on_state_change_fuel (Suc n) env d st a = handle_state_change (connect_with (on_state_change_fuel n env)) env d st a"

definition gebrm_app_daemon_on_state_change :: "app_env \<Rightarrow> daemon_ref \<Rightarrow> server_state \<Rightarrow> app \<Rightarrow> app outcome" where
  "gebrm_app_daemon_on_state_change = on_state_change_fuel 2"

definition state_changed :: "app_env \<Rightarrow> daemon_ref \<Rightarrow> app outcome server_user \<Rightarrow> app outcome server_user" where
  "state_changed env d = app_state_changed (gebrm_app_daemon_on_state_change env) d"

text \<open>\<open>gebrm_daemon_connect\<close>, \<open>gebrm_daemon_disconnect\<close> and \<open>gebrm_daemon_invalid_password\<close> with the handlers of their signals.\<close>

definition app_connect :: "app_env \<Rightarrow> daemon_ref \<Rightarrow> client_ref \<Rightarrow> app \<Rightarrow> app outcome" where
  "app_connect env = connect_with (gebrm_app_daemon_on_state_change env)"

definition app_disconnect :: "app_env \<Rightarrow> daemon_ref \<Rightarrow> app \<Rightarrow> app outcome" where
  "app_disconnect env d a =
     app_with_conn d (gebr_comm_server_disconnect (state_changed env d))
       (upd_w (upd_conn d (gebr_comm_protocol_socket_oldmsg_send harakiri_def []))
         (upd_dm d (\<lambda>dm. dm\<lparr>nfsid := None, daemon_id := None\<rparr>) a))"

definition app_invalid_password :: "app_env \<Rightarrow> daemon_ref \<Rightarrow> app \<Rightarrow> app outcome" where
  "app_invalid_password env d a =
     app_disconnect env d
       (upd_dm d (gebrm_daemon_set_canceled True
           \<circ> gebrm_daemon_set_error_msg (Some ''Please, type the password to connect.'')
           \<circ> gebrm_daemon_set_error_type (Some ''error:ssh''))
         (upd_w (upd_conn d gebr_comm_server_invalid_password) a))"

text \<open>The time-out of the machine that is being connected; its source is removed since the callback returns FALSE.\<close>

definition time_out_daemon :: "app_env \<Rightarrow> int \<Rightarrow> app \<Rightarrow> app outcome" where
  "time_out_daemon env t a =
     and_then (go_on (app_connect env) a) (\<lambda>a. Inr (a\<lparr>ap_timers := remove1 t (ap_timers a)\<rparr>))"

definition on_daemon_append_key :: "app_env \<Rightarrow> app \<Rightarrow> app outcome" where
  "on_daemon_append_key env a =
     (if ap_connect_all a then gebrm_app_continue_connections_of_daemons (app_connect env) True a else Inr a)"

section \<open>Displays\<close>

definition queue_client_info :: "daemon_ref \<Rightarrow> client_ref \<Rightarrow> cstr \<Rightarrow> int \<Rightarrow> app \<Rightarrow> app" where
  "queue_client_info d c host p a =
     a\<lparr>ap_xauth_queue := ap_xauth_queue a @ [\<lparr>xa_daemon = d, xa_client = c, xa_port = p, xa_host = host\<rparr>]\<rparr>"

definition process_xauth_queue :: "app \<Rightarrow> app" where
  "process_xauth_queue a =
     (case ap_xauth_queue a of
        [] \<Rightarrow> a
      | x # xs \<Rightarrow>
          (let cl = ap_clients a (xa_client x)
           in upd_w (gebrm_daemon_send_client_info (xa_daemon x) (cl_id cl) (cl_cookie cl) (xa_host x) (xa_port x))
                (a\<lparr>ap_xauth_queue := xs\<rparr>)))"

text \<open>A provider of an X11 port for a machine and a client, and its answer: the port and the forward \<open>f\<close> to the machine.\<close>

definition start_x11 :: "daemon_ref \<Rightarrow> client_ref \<Rightarrow> int \<Rightarrow> cstr \<Rightarrow> app \<Rightarrow> app" where
  "start_x11 d c p host a = a\<lparr>ap_providers := ap_providers a @ [(d, c, p, host)]\<rparr>"

definition app_x11_port_defined :: "daemon_ref \<times> client_ref \<times> int \<times> cstr \<Rightarrow> int \<Rightarrow> nat \<Rightarrow> app \<Rightarrow> app" where
  "app_x11_port_defined prov p f a =
     (let (d, c, _, host) = prov;
          a = queue_client_info d c host p (a\<lparr>ap_providers := remove1 prov (ap_providers a)\<rparr>)
      in a\<lparr>ap_clients := (ap_clients a)(c :=
             gebrm_client_add_forward (f, gebrm_daemon_get_address d (ap_w a)) (ap_clients a c))\<rparr>)"

section \<open>The list of machines\<close>

definition gebrm_add_server_to_list :: "app_env \<Rightarrow> cstr \<Rightarrow> cstr \<Rightarrow> app \<Rightarrow> daemon_ref \<times> app" where
  "gebrm_add_server_to_list env addr tg a =
     (case gebrm_get_daemon_for_address addr a of
        Some d \<Rightarrow> (d, a)
      | None \<Rightarrow>
          (let d = ap_next_daemon a;
               a = upd_w (gebrm_daemon_new (ae_host env) (ae_cookie env d) (case addr of None \<Rightarrow> [] | Some x \<Rightarrow> x) d)
                     (a\<lparr>ap_next_daemon := d + 1\<rparr>);
               a = (case tg of None \<Rightarrow> a | Some t \<Rightarrow> upd_dm d (fold gebrm_daemon_add_tag (g_strsplit t '','' (- 1))) a)
           in (d, a\<lparr>ap_daemons := d # ap_daemons a\<rparr>)))"

text \<open>An unknown machine is only warned about and its tags, if any, are then changed.\<close>

definition gebrm_update_tags_on_list_of_servers :: "cstr \<Rightarrow> cstr \<Rightarrow> app \<Rightarrow> app outcome" where
  "gebrm_update_tags_on_list_of_servers addr tg a =
     (case tg of
        None \<Rightarrow> Inr a
      | Some t \<Rightarrow>
          (case gebrm_get_daemon_for_address addr a of
             None \<Rightarrow> Inl AppUndefined
           | Some d \<Rightarrow> Inr (upd_dm d (\<lambda>dm. snd (gebrm_daemon_update_tags (Some (g_strsplit t '','' (- 1))) dm)) a)))"

definition gebrm_remove_server_from_list :: "app_env \<Rightarrow> cstr \<Rightarrow> app \<Rightarrow> app outcome" where
  "gebrm_remove_server_from_list env addr a =
     (case gebrm_get_daemon_for_address addr a of
        None \<Rightarrow> Inr a
      | Some d \<Rightarrow> app_disconnect env d (a\<lparr>ap_daemons := remove1 d (ap_daemons a)\<rparr>))"

definition remove_daemon :: "app_env \<Rightarrow> cstr \<Rightarrow> app \<Rightarrow> app outcome" where
  "remove_daemon env addr a =
     and_then (gebrm_remove_server_from_list env addr a) (\<lambda>a.
       let cf = ap_conf a;
           a = a\<lparr>ap_conf := (case addr of None \<Rightarrow> snd (write_servers (load_file (conf_servers cf)) cf)
                                     | Some x \<Rightarrow> gebrm_config_delete_server x cf)\<rparr>
       in Inr (fold (\<lambda>c a. client_send c srm_def [addr] (client_send c agrp_def [addr, Some []] a)) (ap_connections a) a))"

section \<open>Daemons that log in\<close>

definition has_duplicated_daemons :: "cstr \<Rightarrow> app \<Rightarrow> bool" where
  "has_duplicated_daemons i a \<longleftrightarrow>
     list_ex (\<lambda>d. daemon_id (daemons (ap_w a) d) = None \<and>
        (error_type (daemons (ap_w a) d) = None \<or> error_type (daemons (ap_w a) d) = Some ''connection-refused''))
       (ap_daemons a) \<and>
     list_ex (\<lambda>d. daemon_id (daemons (ap_w a) d) = i) (ap_daemons a)"

text \<open>The error that a daemon is refused with; the first daemon decides the domain.\<close>

definition init_error :: "daemon_ref \<Rightarrow> cstr \<Rightarrow> cstr \<Rightarrow> app \<Rightarrow> string option" where
  "init_error d et em a =
     (if et = Some ''connection-refused''
      then Some (if has_duplicated_daemons em a then ''error:id'' else ''error:connection-refused'')
      else if et = Some ''protocol'' then Some ''error:protocol''
      else if et = Some ''cookie'' then Some ''error:cookie''
      else if ap_nfsid a \<noteq> None \<and> ap_nfsid a \<noteq> nfsid (daemons (ap_w a) d) then Some ''error:nfs''
      else None)"

definition set_error :: "daemon_ref \<Rightarrow> cstr \<Rightarrow> cstr \<Rightarrow> app \<Rightarrow> app" where
  "set_error d e m = upd_dm d (gebrm_daemon_set_error_msg m \<circ> gebrm_daemon_set_error_type e)"

definition refuse_daemon :: "app_env \<Rightarrow> daemon_ref \<Rightarrow> string \<Rightarrow> cstr \<Rightarrow> app \<Rightarrow> app outcome" where
  "refuse_daemon env d e em a =
     (let a = set_error d (Some e) em a;
          a = fold (\<lambda>c. upd_w (gebrm_daemon_send_error_message d c)) (ap_connections a) a
      in and_then (app_disconnect env d a) (\<lambda>a.
           if e = ''error:id'' then remove_daemon env (Some (gebrm_daemon_get_address d (ap_w a))) a else Inr a))"

text \<open>What a client is told about a daemon that logged in; its display is to be forwarded to the machine.\<close>

definition tell_client_daemon :: "app_env \<Rightarrow> daemon_ref \<Rightarrow> bool \<Rightarrow> server_state \<Rightarrow> client_ref \<Rightarrow> app \<Rightarrow> app" where
  "tell_client_daemon env d home_defined st c a =
     (let dm = daemons (ap_w a) d;
          a = (if home_defined then a else gebrm_app_send_home_dir c (home dm) a);
          a = (if cl_sent_nfsid (ap_clients a c) then a else gebrm_app_send_nfsid c (nfsid dm) a);
          a = send_server_status_message env c d (autoconnect dm) st a;
          a = start_x11 d c (cl_x11_port (ap_clients a c)) (cl_x11_host (ap_clients a c)) a
      in gebrm_app_send_mpi_flavors c d a)"

text \<open>The settings of the domain; all of them need its name.\<close>

definition note_daemon :: "app_env \<Rightarrow> daemon_ref \<Rightarrow> bool \<Rightarrow> app \<Rightarrow> app" where
  "note_daemon env d hg a =
     (let dm = daemons (ap_w a) d; addr = gebrm_daemon_get_address d (ap_w a);
          cf = gebr_maestro_settings_add_node addr (Some (gebrm_daemon_get_tags dm)) (autoconnect dm) (ap_conf a)
      in a\<lparr>ap_conf := (case nfsid dm of
             Some n \<Rightarrow> if hg then gebr_maestro_settings_append_address n (ae_user env @ ''@'' @ addr) cf else cf
           | None \<Rightarrow> cf)\<rparr>)"

definition note_domain :: "app_env \<Rightarrow> cstr \<Rightarrow> app \<Rightarrow> app" where
  "note_domain env n a =
     (case n of
        None \<Rightarrow> a
      | Some k \<Rightarrow> a\<lparr>ap_conf := gebr_maestro_settings_set_domain k
            (Some (gebr_maestro_settings_get_label_for_domain (ap_conf a) k False))
            (ae_user env @ ''@'' @ ae_host env) (ap_conf a)\<rparr>)"

definition accept_daemon :: "app_env \<Rightarrow> daemon_ref \<Rightarrow> cstr \<Rightarrow> bool \<Rightarrow> app \<Rightarrow> app" where
  "accept_daemon env d em hg a =
     (let n = nfsid (daemons (ap_w a) d);
          send_nfs = (ap_nfsid a = None);
          a = (if send_nfs then a\<lparr>ap_nfsid := n\<rparr> else a);
          a = set_error d None em (note_daemon env d hg a);
          st = gebrm_daemon_get_state d (ap_w a);
          home_defined = (ap_home a \<noteq> None);
          a = (if send_nfs then note_domain env n a else a)
      in fold (tell_client_daemon env d home_defined st) (ap_connections a) a)"

definition on_daemon_init :: "app_env \<Rightarrow> daemon_ref \<Rightarrow> cstr \<Rightarrow> cstr \<Rightarrow> bool \<Rightarrow> app \<Rightarrow> app outcome" where
  "on_daemon_init env d et em hg a =
     (case init_error d et em a of
        Some e \<Rightarrow> refuse_daemon env d e em a
      | None \<Rightarrow> Inr (accept_daemon env d em hg a))"

definition on_daemon_ret_path :: "string \<Rightarrow> string \<Rightarrow> app \<Rightarrow> app" where
  "on_daemon_ret_path addr st a =
     fold (\<lambda>c. client_return c path_def [Some addr, Some st]) (ap_connections a) a"

section \<open>Connecting all machines\<close>

text \<open>Every machine may be connected again, and the first one that is eligible is connected.\<close>

fun connect_first :: "app_env \<Rightarrow> client_ref \<Rightarrow> bool \<Rightarrow> daemon_ref list \<Rightarrow> bool \<Rightarrow> app \<Rightarrow> (bool \<times> app) outcome" where
  "connect_first env c respect_ac [] begun a = Inr (begun, a)"
| "connect_first env c respect_ac (d # ds) begun a =
     (let a = upd_dm d (gebrm_daemon_set_canceled False) a in
      if \<not> begun \<and> gebrm_daemon_get_state d (ap_w a) = SERVER_STATE_DISCONNECTED \<and>
         (autoconnect (daemons (ap_w a) d) = Some ''on'' \<or> \<not> respect_ac)
      then and_then (app_connect env d c a) (connect_first env c respect_ac ds True)
      else connect_first env c respect_ac ds begun a)"

definition save_server :: "daemon_ref \<Rightarrow> app \<Rightarrow> app" where
  "save_server d a =
     a\<lparr>ap_conf := gebrm_config_save_server (gebrm_daemon_get_address d (ap_w a))
         (Some (gebrm_daemon_get_tags (daemons (ap_w a) d))) (autoconnect (daemons (ap_w a) d)) (ap_conf a)\<rparr>"

definition connect_all_daemons :: "app_env \<Rightarrow> client_ref \<Rightarrow> cstr \<Rightarrow> int \<Rightarrow> app \<Rightarrow> app outcome" where
  "connect_all_daemons env c addr respect_ac a =
     and_then (connect_first env c (respect_ac \<noteq> 0) (ap_daemons a) False
                 (a\<lparr>ap_connect_all := True, ap_respect_ac := (respect_ac \<noteq> 0)\<rparr>)) (\<lambda>(begun, a).
       and_then
         (case addr of
            None \<Rightarrow> Inr a
          | Some x \<Rightarrow>
              (let (d, a) = gebrm_add_server_to_list env (Some x) None a in
               if respect_ac = 0 \<or> autoconnect (daemons (ap_w a) d) = Some ''on''
               then and_then (app_connect env d c a) (\<lambda>a. Inr (save_server d a)) else Inr a))
         (\<lambda>a. Inr (if begun then a else a\<lparr>ap_connect_all := False\<rparr>)))"

end
