(* ===== verification/Gebrm_Requests.thy ===== *)
theory Gebrm_Requests
  imports Gebrm_Connect Http_Msg
begin

text \<open>
  The clients of the maestro (\<open>maestro/gebrm-app.c\<close>): new connections, the messages by which a client logs in and
  describes itself, and the requests for machines, jobs and tags. A parameter that is missing is NULL.
\<close>

section \<open>Requests on machines\<close>

text \<open>A NULL name of a group is refused by the key files as an empty one is.\<close>

definition or_empty :: "cstr \<Rightarrow> string" where
  "or_empty s = (case s of None \<Rightarrow> [] | Some x \<Rightarrow> x)"

text \<open>\<open>/server\<close>: \<open>atoi\<close> of a missing \<open>respect-ac\<close> reads NULL.\<close>

definition server_request :: "app_env \<Rightarrow> client_ref \<Rightarrow> uri \<Rightarrow> app \<Rightarrow> app outcome" where
  "server_request env c u a =
     (let addr = gebr_comm_uri_get_param u ''address'';
          ac = (case addr of None \<Rightarrow> None | Some x \<Rightarrow> snd (gebr_maestro_settings_get_node_info (ap_conf a) x None))
      in case gebr_comm_uri_get_param u ''respect-ac'' of
           None \<Rightarrow> Inl AppUndefined
         | Some r \<Rightarrow>
             if atoi r = 0 \<or> ac = Some ''on''
             then (let (d, a) = gebrm_add_server_to_list env (map_option (gebr_apply_pattern_on_address (ae_host env)) addr) None a
                   in and_then (app_connect env d c a) (\<lambda>a. Inr (save_server d a)))
             else Inr a)"

definition password_request :: "app_env \<Rightarrow> client_ref \<Rightarrow> uri \<Rightarrow> app \<Rightarrow> app outcome" where
  "password_request env c u a =
     (case gebrm_get_daemon_for_address (gebr_comm_uri_get_param u ''address'') a of
        None \<Rightarrow> Inr a
      | Some d \<Rightarrow>
          (let use_key = (gebr_comm_uri_get_param u ''haskey'' = Some ''yes'');
               pass = gebr_comm_uri_get_param u ''pass'';
               a = upd_w (upd_conn d (gebr_comm_server_set_use_public_key use_key)) a
           in if pass \<noteq> None then Inr (upd_w (gebrm_daemon_set_password d pass) a)
              else and_then (app_invalid_password env d a) (\<lambda>a. Inr (upd_w (gebrm_daemon_send_error_message d c) a))))"

definition connect_daemons_request :: "app_env \<Rightarrow> client_ref \<Rightarrow> uri \<Rightarrow> app \<Rightarrow> app outcome" where
  "connect_daemons_request env c u a =
     (case gebr_comm_uri_get_param u ''respect-ac'' of
        None \<Rightarrow> Inl AppUndefined
      | Some r \<Rightarrow> connect_all_daemons env c (gebr_comm_uri_get_param u ''address'') (atoi r) a)"

definition ssh_answer_request :: "uri \<Rightarrow> app \<Rightarrow> app" where
  "ssh_answer_request u a =
     (case gebrm_get_daemon_for_address (gebr_comm_uri_get_param u ''address'') a of
        None \<Rightarrow> a
      | Some d \<Rightarrow> upd_w (gebrm_daemon_answer_question d (gebr_comm_uri_get_param u ''response'')) a)"

text \<open>
  The jobs of a machine are killed before it is disconnected or stopped. \<open>ae_job_ids\<close> orders the table of tasks; the
  machine runs nothing new while its jobs are killed.
\<close>

fun kill_jobs :: "nat \<Rightarrow> app_env \<Rightarrow> string list \<Rightarrow> app \<Rightarrow> app outcome" where
  "kill_jobs n env [] a = Inr a"
| "kill_jobs n env (i # is) a =
     and_then
       (case job_table (ap_w a) i of
          None \<Rightarrow> Inr a
        | Some j \<Rightarrow> if gebrm_job_can_kill j (ap_w a) then kill_immediately n env j a else Inr a)
       (kill_jobs n env is)"

definition jobs_of_tasks :: "app_env \<Rightarrow> daemon_ref \<Rightarrow> maestro \<Rightarrow> string list" where
  "jobs_of_tasks env d w =
     (let ts = daemon_tasks (daemons w d)
      in concat (map (\<lambda>k. case ts k of None \<Rightarrow> [] | Some t \<Rightarrow> [rid (tasks w t)]) (ae_job_ids env ts)))"

definition kill_jobs_of :: "nat \<Rightarrow> app_env \<Rightarrow> daemon_ref \<Rightarrow> app \<Rightarrow> app outcome" where
  "kill_jobs_of n env d a =
     (let a = upd_dm d (gebrm_daemon_set_disconnecting True) a in
      and_then (kill_jobs n env (gebrm_daemon_get_list_of_jobs (jobs_of_tasks env d (ap_w a))) a)
        (\<lambda>a. Inr (upd_dm d (gebrm_daemon_set_disconnecting False) a)))"

definition disconnect_request :: "nat \<Rightarrow> app_env \<Rightarrow> client_ref \<Rightarrow> uri \<Rightarrow> app \<Rightarrow> app outcome" where
  "disconnect_request n env c u a =
     (let addr = gebr_comm_uri_get_param u ''address''; confirm = gebr_comm_uri_get_param u ''confirm'' in
      case gebrm_get_daemon_for_address addr a of
        None \<Rightarrow> Inr a
      | Some d \<Rightarrow>
          (let idle = (uncompleted_tasks (ap_w a) d \<le> 0) in
           if confirm = Some ''remove'' \<and> idle then Inr (client_send c cfrm_def [addr, Some ''remove-immediately''] a)
           else if confirm = Some ''yes'' \<or> idle then
             and_then (kill_jobs_of n env d a) (\<lambda>a.
               and_then (app_disconnect env d a) (\<lambda>a.
                 Inr (a\<lparr>ap_clients := (ap_clients a)(c := gebrm_client_kill_forward_by_address addr (ap_clients a c))\<rparr>)))
           else if confirm = Some ''remove'' then Inr (client_send c cfrm_def [addr, Some ''remove''] a)
           else Inr (client_send c cfrm_def [addr, Some ''disconnect''] a)))"

text \<open>\<open>/stop\<close> goes on with all machines of the address.\<close>

fun stop_machines :: "nat \<Rightarrow> app_env \<Rightarrow> client_ref \<Rightarrow> cstr \<Rightarrow> cstr \<Rightarrow> daemon_ref list \<Rightarrow> app \<Rightarrow> app outcome" where
  "stop_machines n env c addr confirm [] a = Inr a"
| "stop_machines n env c addr confirm (d # ds) a =
     and_then
       (if addr \<noteq> Some (gebrm_daemon_get_address d (ap_w a)) then Inr a
        else if confirm = Some ''yes'' \<or> uncompleted_tasks (ap_w a) d \<le> 0 then
          and_then (kill_jobs_of n env d a) (\<lambda>a.
            let a = upd_w (upd_conn d (gebr_comm_server_kill (ae_user env) (ae_host env) (ae_ssh env))) a;
                a = set_error d (Some ''error:stop'') None a
            in Inr (send_server_status_message env c d (autoconnect (daemons (ap_w a) d)) SERVER_STATE_DISCONNECTED a))
        else Inr (client_send c cfrm_def [addr, Some ''stop''] a))
       (stop_machines n env c addr confirm ds)"

definition stop_request :: "nat \<Rightarrow> app_env \<Rightarrow> client_ref \<Rightarrow> uri \<Rightarrow> app \<Rightarrow> app outcome" where
  "stop_request n env c u a =
     stop_machines n env c (gebr_comm_uri_get_param u ''address'') (gebr_comm_uri_get_param u ''confirm'') (ap_daemons a) a"

section \<open>Tags and automatic connection\<close>

definition tags_request :: "uri \<Rightarrow> app \<Rightarrow> app outcome" where
  "tags_request u a =
     (let server = gebr_comm_uri_get_param u ''server''; tg = gebr_comm_uri_get_param u ''tags'' in
      case gebrm_config_update_tags_on_server (or_empty server) tg (ap_conf a) of
        (False, cf) \<Rightarrow> Inr (a\<lparr>ap_conf := cf\<rparr>)
      | (True, cf) \<Rightarrow> gebrm_update_tags_on_list_of_servers server tg
                        (send_to_clients agrp_def [server, tg] (a\<lparr>ap_conf := cf\<rparr>)))"

definition tag_changed :: "cstr \<Rightarrow> tag_change \<times> conf \<Rightarrow> app \<Rightarrow> app outcome" where
  "tag_changed server change a =
     (case change of
        (TagsCrash, cf) \<Rightarrow> Inl AppUndefined
      | (TagsKept, cf) \<Rightarrow> Inr (a\<lparr>ap_conf := cf\<rparr>)
      | (TagsNow tg, cf) \<Rightarrow> gebrm_update_tags_on_list_of_servers server (Some tg)
                             (send_to_clients agrp_def [server, Some tg] (a\<lparr>ap_conf := cf\<rparr>)))"

text \<open>A request without the tag, which no client sends, is left undefined.\<close>

definition tag_insert_request :: "uri \<Rightarrow> app \<Rightarrow> app outcome" where
  "tag_insert_request u a =
     (let server = gebr_comm_uri_get_param u ''server'' in
      case gebr_comm_uri_get_param u ''tag'' of
        None \<Rightarrow> Inl AppUndefined
      | Some t \<Rightarrow> tag_changed server (gebrm_config_insert_tag_on_server (or_empty server) t (ap_conf a)) a)"

definition tag_remove_request :: "uri \<Rightarrow> app \<Rightarrow> app outcome" where
  "tag_remove_request u a =
     (let server = gebr_comm_uri_get_param u ''server'' in
      case gebr_comm_uri_get_param u ''tag'' of
        None \<Rightarrow> Inl AppUndefined
      | Some t \<Rightarrow> tag_changed server (gebrm_config_remove_tag_of_server (or_empty server) t (ap_conf a)) a)"

definition autoconnect_request :: "uri \<Rightarrow> app \<Rightarrow> app" where
  "autoconnect_request u a =
     (let server = gebr_comm_uri_get_param u ''server''; is_ac = gebr_comm_uri_get_param u ''ac'';
          a = (case gebrm_get_daemon_for_address server a of
                 None \<Rightarrow> a | Some d \<Rightarrow> upd_dm d (gebrm_daemon_set_autoconnect is_ac) a)
      in case gebrm_config_set_autoconnect (or_empty server) is_ac (ap_conf a) of
           (False, cf) \<Rightarrow> a\<lparr>ap_conf := cf\<rparr>
         | (True, cf) \<Rightarrow> send_to_clients ac_def [server, is_ac] (a\<lparr>ap_conf := cf\<rparr>))"

section \<open>The dispatcher\<close>

text \<open>The id of \<open>/kill\<close> and \<open>/close\<close> is hashed.\<close>

definition put_request :: "nat \<Rightarrow> app_env \<Rightarrow> client_ref \<Rightarrow> string \<Rightarrow> uri \<Rightarrow> app \<Rightarrow> app outcome" where
  "put_request n env c body u a =
     (let p = gebr_comm_uri_get_prefix u; i = gebr_comm_uri_get_param u ''id'' in
      if p = Some ''/server'' then server_request env c u a
      else if p = Some ''/set-password'' then password_request env c u a
      else if p = Some ''/connect-daemons'' then connect_daemons_request env c u a
      else if p = Some ''/ssh-answer'' then Inr (ssh_answer_request u a)
      else if p = Some ''/disconnect'' then disconnect_request n env c u a
      else if p = Some ''/stop'' then stop_request n env c u a
      else if p = Some ''/remove'' then remove_daemon env (gebr_comm_uri_get_param u ''address'') a
      else if p = Some ''/close'' then (case i of None \<Rightarrow> Inl AppUndefined | Some x \<Rightarrow> Inr (close_request x a))
      else if p = Some ''/kill'' then (case i of None \<Rightarrow> Inl AppUndefined | Some x \<Rightarrow> kill_request n env x a)
      else if p = Some ''/run'' then gebrm_app_handle_run n env body c u a
      else if p = Some ''/server-tags'' then tags_request u a
      else if p = Some ''/tag-insert'' then tag_insert_request u a
      else if p = Some ''/tag-remove'' then tag_remove_request u a
      else if p = Some ''/autoconnect'' then Inr (autoconnect_request u a)
      else Inr a)"

definition on_client_request :: "nat \<Rightarrow> app_env \<Rightarrow> client_ref \<Rightarrow> http_msg \<Rightarrow> app \<Rightarrow> app outcome" where
  "on_client_request n env c req a =
     (case gebr_comm_uri_parse (url req) gebr_comm_uri_new of
        None \<Rightarrow> Inl AppUndefined
      | Some u \<Rightarrow>
          if http_method req = GEBR_COMM_HTTP_METHOD_PUT then put_request n env c (content req) u a else Inr a)"

section \<open>Clients\<close>

definition on_client_disconnect :: "client_ref \<Rightarrow> app \<Rightarrow> app outcome" where
  "on_client_disconnect c a =
     (let a = a\<lparr>ap_connections := remove1 c (ap_connections a),
                ap_clients := (ap_clients a)(c := gebrm_client_remove_forwards (ap_clients a c))\<rparr>
      in if list_ex (\<lambda>x. xa_client x = c) (ap_xauth_queue a) then Inl AppUndefined else Inr a)"

text \<open>The new client hears of the home directory, when no client did, and of every job.\<close>

definition on_new_connection :: "app_env \<Rightarrow> app \<Rightarrow> app" where
  "on_new_connection env a =
     (let c = ap_next_client a;
          a = a\<lparr>ap_next_client := c + 1, ap_clients := (ap_clients a)(c := gebrm_client_init),
                ap_connections := c # ap_connections a\<rparr>;
          a = (if ap_home a = None \<and> ap_daemons a \<noteq> []
               then gebrm_app_send_home_dir c (home (daemons (ap_w a) (hd (ap_daemons a)))) a else a);
          a = a\<lparr>ap_conf := gebr_maestro_settings_update (ap_conf a)\<rparr>;
          jt = job_table (ap_w a)
      in fold (\<lambda>i a. case jt i of None \<Rightarrow> a | Some j \<Rightarrow> send_messages_of_jobs env (Some i) j c a) (ae_job_ids env jt) a)"

section \<open>The machines of the settings\<close>

fun load_groups :: "app_env \<Rightarrow> keyfile \<Rightarrow> string list \<Rightarrow> app \<Rightarrow> app" where
  "load_groups env kf [] a = a"
| "load_groups env kf (g # gs) a =
     (let (d, a) = gebrm_add_server_to_list env (Some g) (g_key_file_get_string kf g ''tags'') a
      in load_groups env kf gs (upd_dm d (gebrm_daemon_set_autoconnect (g_key_file_get_string kf g ''autoconnect'')) a))"

definition load_servers_from_key_file :: "app_env \<Rightarrow> keyfile \<Rightarrow> app \<Rightarrow> app" where
  "load_servers_from_key_file env kf a = load_groups env kf (g_key_file_get_groups kf) a"

text \<open>The machines of the administrator are taken over when the user has no file.\<close>

definition gebrm_config_load_admin_servers :: "app_env \<Rightarrow> app \<Rightarrow> app" where
  "gebrm_config_load_admin_servers env a =
     (case conf_admin (ap_conf a) of
        None \<Rightarrow> a
      | Some kf \<Rightarrow>
          if conf_servers (ap_conf a) \<noteq> None then a
          else (let a = load_servers_from_key_file env kf a in a\<lparr>ap_conf := snd (write_servers kf (ap_conf a))\<rparr>))"

definition gebrm_config_load_servers :: "app_env \<Rightarrow> app \<Rightarrow> app" where
  "gebrm_config_load_servers env a =
     (case conf_servers (ap_conf a) of None \<Rightarrow> a | Some kf \<Rightarrow> load_servers_from_key_file env kf a)"

definition gebrm_app_create_possible_daemon_list :: "app_env \<Rightarrow> app \<Rightarrow> app" where
  "gebrm_app_create_possible_daemon_list env a =
     snd (gebrm_add_server_to_list env (Some (ae_host env)) (Some [])
       (gebrm_config_load_servers env (gebrm_config_load_admin_servers env a)))"

section \<open>Messages of clients\<close>

definition gebr_compute_diff_clock_to_me :: "app_env \<Rightarrow> string \<Rightarrow> int" where
  "gebr_compute_diff_clock_to_me env stamp = tv_sec (ae_date env (Some stamp)) - ae_current env"

definition tell_daemon_state :: "app_env \<Rightarrow> client_ref \<Rightarrow> daemon_ref \<Rightarrow> app \<Rightarrow> app" where
  "tell_daemon_state env c d a =
     (let st = (if gebrm_daemon_get_state d (ap_w a) = SERVER_STATE_LOGGED then SERVER_STATE_LOGGED
                else SERVER_STATE_DISCONNECTED);
          a = send_groups_definitions c d (send_server_status_message env c d (autoconnect (daemons (ap_w a) d)) st a)
      in if st = SERVER_STATE_LOGGED then gebrm_app_send_mpi_flavors c d a else a)"

text \<open>The login of a client; \<open>as\<close> are the arguments of INI. A cookie is used up even when the version does not fit.\<close>

definition client_accepted :: "app_env \<Rightarrow> client_ref \<Rightarrow> string list \<Rightarrow> app \<Rightarrow> app" where
  "client_accepted env c as a =
     (let a = a\<lparr>ap_clients := (ap_clients a)(c :=
                gebrm_client_set_gebr_cookie (Some (as ! 7)) (gebrm_client_set_magic_cookie (Some (as ! 2))
                  (gebrm_client_set_id (as ! 3) (ap_clients a c))))\<rparr>;
          a = (case gebrm_app_get_nfsid (ap_conf a) of
                 None \<Rightarrow> a
               | Some n \<Rightarrow> if atoi (as ! 5) = 0 then a
                   else a\<lparr>ap_conf := gebr_maestro_settings_append_address n (ae_user env @ ''@'' @ as ! 0) (ap_conf a)\<rparr>);
          a = gebrm_app_create_possible_daemon_list env a;
          a = client_return c ini_def [Some (show_int (gebr_compute_diff_clock_to_me env (as ! 4)))] a;
          a = fold (tell_daemon_state env c) (ap_daemons a) a;
          a = (if ap_nfsid a = None then a else gebrm_app_send_nfsid c (ap_nfsid a) a)
      in if ap_home a = None then a else gebrm_app_send_home_dir c (ap_home a) a)"

text \<open>False: the message is refused, and the client is disconnected.\<close>

definition client_ini :: "app_env \<Rightarrow> client_ref \<Rightarrow> string list \<Rightarrow> app \<Rightarrow> bool \<times> app" where
  "client_ini env c as a =
     (let (ok, auth) = gebr_auth_accepts (as ! 7) (ap_auth a);
          a = a\<lparr>ap_auth := auth\<rparr>;
          err = (\<lambda>t m. client_send c err_def [Some (ae_host env), Some ''maestro'', Some t, Some m] a)
      in if \<not> ok then (False, err ''error:cookie'' (as ! 7))
         else if as ! 1 \<noteq> ae_version env then (False, err ''error:protocol'' (ae_version env))
         else (True, client_accepted env c as a))"

definition client_path :: "string list \<Rightarrow> app \<Rightarrow> app" where
  "client_path as a =
     (case find (\<lambda>d. gebrm_daemon_get_state d (ap_w a) = SERVER_STATE_LOGGED) (ap_daemons a) of
        None \<Rightarrow> a
      | Some d \<Rightarrow> upd_w (upd_conn d (gebr_comm_protocol_socket_oldmsg_send path_def (map Some (take 3 as)))) a)"

definition client_display :: "client_ref \<Rightarrow> string list \<Rightarrow> app \<Rightarrow> app" where
  "client_display c as a =
     (let p = atoi (as ! 0); h = Some (as ! 1);
          a = a\<lparr>ap_clients := (ap_clients a)(c := gebrm_client_set_display p h (ap_clients a c))\<rparr>
      in fold (\<lambda>d a. if gebrm_daemon_get_state d (ap_w a) \<noteq> SERVER_STATE_LOGGED then a else start_x11 d c p h a)
           (ap_daemons a) a)"

definition client_label :: "string list \<Rightarrow> app \<Rightarrow> app" where
  "client_label as a =
     a\<lparr>ap_conf := gebr_maestro_settings_save (gebr_maestro_settings_change_label (as ! 0) (Some (as ! 2)) (ap_conf a))\<rparr>"

definition gebr_message_args :: "Comm_Protocol.message \<Rightarrow> nat \<Rightarrow> (string list \<Rightarrow> app \<Rightarrow> bool \<times> app) \<Rightarrow> app \<Rightarrow> (bool \<times> app) outcome" where
  "gebr_message_args m n f a =
     (case split_args (argument m) n of
        Inl MsgError \<Rightarrow> Inr (False, a)
      | Inl MsgCrash \<Rightarrow> Inl AppUndefined
      | Inr as \<Rightarrow> Inr (f as a))"

definition handle_gebr_message :: "app_env \<Rightarrow> client_ref \<Rightarrow> Comm_Protocol.message \<Rightarrow> app \<Rightarrow> (bool \<times> app) outcome" where
  "handle_gebr_message env c m a =
     (if hash m = code_hash ini_def then gebr_message_args m 8 (client_ini env c) a
      else if hash m = code_hash path_def then gebr_message_args m 3 (\<lambda>as a. (True, client_path as a)) a
      else if hash m = code_hash nfsid_def then gebr_message_args m 3 (\<lambda>as a. (True, client_label as a)) a
      else if hash m = code_hash dsp_def then gebr_message_args m 2 (\<lambda>as a. (True, client_display c as a)) a
      else if hash m = code_hash sftp_def then Inr (True, client_return c sftp_def [Some ''22''] a)
      else Inr (True, a))"

text \<open>
  \<open>on_client_parse_messages\<close> on the queue of the client's protocol, oldest message first. A refused message closes
  the socket, whose signal is handled at once; the messages behind it are not read.
\<close>

fun on_client_parse_messages :: "app_env \<Rightarrow> client_ref \<Rightarrow> Comm_Protocol.message list \<Rightarrow> app \<Rightarrow> app outcome" where
  "on_client_parse_messages env c [] a = Inr a"
| "on_client_parse_messages env c (m # ms) a =
     and_then (handle_gebr_message env c m a) (\<lambda>(ok, a).
       if ok then on_client_parse_messages env c ms a else on_client_disconnect c a)"

end
