(* ===== verification/Gebrm_Maestro.thy ===== *)
theory Gebrm_Maestro
  imports Gebrm_Requests
begin

text \<open>
  The whole maestro: the messages of daemons with the handlers of \<open>maestro/gebrm-app.c\<close> that listen to daemons and
  jobs, the answers of sockets and ssh, and the step relation of everything that can happen to the application.
\<close>

section \<open>Signals of jobs\<close>

text \<open>The callbacks that \<open>gebrm_app_handle_run\<close> connects to a job.\<close>

fun job_signal :: "nat \<Rightarrow> app_env \<Rightarrow> maestro_event \<Rightarrow> app \<Rightarrow> app outcome" where
  "job_signal n env (JobStatusChange j old new par) a = gebrm_app_job_controller_on_status_change n env j old new par a"
| "job_signal n env (JobIssued j iss) a = Inr (gebrm_app_job_controller_on_issued j iss a)"
| "job_signal n env (JobCmdLine j t cmd) a = Inr (gebrm_app_job_controller_on_cmd_line_received j t cmd a)"
| "job_signal n env (JobOutput j t out) a = Inr (gebrm_app_job_controller_on_output j t out a)"
| "job_signal n env (JobDisconnect j) a = Inr a"
| "job_signal n env (DaemonSend d m args) a = Inr a"

fun job_signals :: "nat \<Rightarrow> app_env \<Rightarrow> maestro_event list \<Rightarrow> app \<Rightarrow> app outcome" where
  "job_signals n env [] a = Inr a"
| "job_signals n env (e # es) a = and_then (job_signal n env e a) (job_signals n env es)"

text \<open>
  The signals that an operation on jobs emitted. Their handlers run when the operation is done: nothing of it follows
  the only signal whose handler changes the application, that of a change of status.
\<close>

definition with_signals :: "nat \<Rightarrow> app_env \<Rightarrow> maestro \<Rightarrow> app \<Rightarrow> app outcome" where
  "with_signals n env w a = job_signals n env (drop (length (trace (ap_w a))) (trace w)) (a\<lparr>ap_w := w\<rparr>)"

section \<open>Messages of daemons\<close>

definition message_env :: "app_env \<Rightarrow> environment" where
  "message_env env = \<lparr>e_now = ae_now env, e_atof = ae_atof env, e_append_key_command = ae_append_key env\<rparr>"

text \<open>What a daemon that logged in tells about itself.\<close>

definition describe_daemon :: "environment \<Rightarrow> daemon_ref \<Rightarrow> string list \<Rightarrow> maestro \<Rightarrow> maestro" where
  "describe_daemon env d as w =
     (let w = upd_daemon d (\<lambda>dm. dm\<lparr>is_initialized := True\<rparr>) w;
          w = upd_conn d (\<lambda>s. s\<lparr>protocol := (protocol s)\<lparr>hostname := as ! 0\<rparr>, model_name := Some (as ! 3),
                 memory := Some (as ! 4), ncores := atoi (as ! 6), clock_cpu := e_atof env (as ! 7)\<rparr>) w;
          w = upd_daemon d (gebrm_daemon_set_mpi_flavors (Some (as ! 10))
                 \<circ> gebrm_daemon_set_has_gebrm (atoi (as ! 11) \<noteq> 0)
                 \<circ> gebrm_daemon_set_home_dir (as ! 9)
                 \<circ> gebrm_daemon_set_id (as ! 8)
                 \<circ> gebrm_daemon_set_nfsid (as ! 5)) w
      in if use_public_key (conns w d) then upd_conn d (\<lambda>s. act (SshRun (e_append_key_command env s)) s) w else w)"

lemma daemon_ini_described:
  "daemon_ini env d as w =
     (let w' = describe_daemon env d as (with_conn d (gebr_comm_server_set_logged (gebrm_server_op_state_changed d)) w)
      in emit (DaemonInit d None None (has_gebrm (daemons w' d))) w')"
  by (simp add: daemon_ini_def describe_daemon_def Let_def)

definition app_ini :: "app_env \<Rightarrow> daemon_ref \<Rightarrow> string list \<Rightarrow> app \<Rightarrow> app outcome" where
  "app_ini env d as a =
     and_then (app_with_conn d (gebr_comm_server_set_logged (state_changed env d)) a) (\<lambda>a.
       let a = upd_w (describe_daemon (message_env env) d as) a
       in on_daemon_init env d None None (has_gebrm (daemons (ap_w a) d)) a)"

definition refusable :: "app outcome \<Rightarrow> (bool \<times> app) outcome" where
  "refusable x = map_sum id (Pair True) x"

definition daemon_args ::
    "Comm_Protocol.message \<Rightarrow> nat \<Rightarrow> (string list \<Rightarrow> app \<Rightarrow> app outcome) \<Rightarrow> app \<Rightarrow> (bool \<times> app) outcome" where
  "daemon_args m n f a =
     (case split_args (argument m) n of
        Inl MsgError \<Rightarrow> Inr (False, a)
      | Inl MsgCrash \<Rightarrow> Inl AppUndefined
      | Inr as \<Rightarrow> refusable (f as a))"

text \<open>One message, with the handlers of the signals \<open>daemon-init\<close>, \<open>ret-path\<close>, \<open>task-define\<close> and those of jobs.\<close>

definition app_handle_message :: "nat \<Rightarrow> app_env \<Rightarrow> daemon_ref \<Rightarrow> Comm_Protocol.message \<Rightarrow> app \<Rightarrow> (bool \<times> app) outcome" where
  "app_handle_message n env d m a =
     (if hash m = code_hash ret_def \<and> ret_hash m = Some (code_hash ini_def) then daemon_args m 12 (app_ini env d) a
      else if hash m = code_hash ret_def \<and> ret_hash m = Some (code_hash path_def)
      then daemon_args m 2 (\<lambda>as a. Inr (on_daemon_ret_path (as ! 0) (as ! 1) a)) a
      else if hash m = code_hash err_def
      then daemon_args m 2 (\<lambda>as a. if is_initialized (daemons (ap_w a) d) then Inr a
                                   else on_daemon_init env d (Some (as ! 0)) (Some (as ! 1)) False a) a
      else case handle_message (message_env env) d m (ap_w a) of
        Inl MsgError \<Rightarrow> Inr (False, a)
      | Inl MsgCrash \<Rightarrow> Inl AppUndefined
      | Inr w \<Rightarrow> refusable (with_signals n env w a))"

text \<open>A daemon that was removed from the list, and that no display holds, was freed.\<close>

definition freed :: "daemon_ref \<Rightarrow> app \<Rightarrow> bool" where
  "freed d a \<longleftrightarrow> d \<notin> set (ap_daemons a) \<and> \<not> list_ex (\<lambda>x. xa_daemon x = d) (ap_xauth_queue a)"

text \<open>
  \<open>gebrm_server_op_parse_messages\<close>. A duplicated daemon is removed by its own message, and its state is read after
  that.
\<close>

fun app_parse_loop :: "nat \<Rightarrow> app_env \<Rightarrow> daemon_ref \<Rightarrow> nat \<Rightarrow> app \<Rightarrow> app outcome" where
  "app_parse_loop n env d 0 a = Inr a"
| "app_parse_loop n env d (Suc k) a =
     (if messages (protocol (conns (ap_w a) d)) = [] then Inr a
      else and_then (app_handle_message n env d (last (messages (protocol (conns (ap_w a) d)))) a) (\<lambda>(ok, a).
        if \<not> ok then app_with_conn d (gebr_comm_server_disconnect (state_changed env d)) (upd_w (drop_message d) a)
        else if freed d a then Inl AppUndefined
        else if gebrm_daemon_get_state d (ap_w a) = SERVER_STATE_DISCONNECTED then Inr a
        else app_parse_loop n env d k (upd_w (drop_message d) a)))"

definition app_parse_messages :: "nat \<Rightarrow> app_env \<Rightarrow> daemon_ref \<Rightarrow> app \<Rightarrow> app outcome" where
  "app_parse_messages n env d a = app_parse_loop n env d (length (messages (protocol (conns (ap_w a) d)))) a"

end
