(* ===== verification/Gebrm_Runs.thy ===== *)
theory Gebrm_Runs
  imports Gebrm_Queue
begin

text \<open>
  What the queues of runs keep: which runners are alive, which were asked to start, and what happens to the runs that
  wait for a job when it ends.
\<close>

section \<open>Runners\<close>

lemma request_loads_conns:
  "request_loads env gebrm_daemon_init_iface ds w = (ds0, w') \<Longrightarrow> \<exists>cs. w' = w\<lparr>conns := cs\<rparr>"
proof (induction ds arbitrary: w ds0 w')
  case Nil
  then show ?case by (intro exI [of _ "conns w"]) simp
next
  case (Cons d ds)
  show ?case
  proof (cases "\<not> di_can_execute gebrm_daemon_init_iface d w \<or> \<not> socket_connected (di_server gebrm_daemon_init_iface d w)")
    case True
    then show ?thesis using Cons by simp
  next
    case False
    let ?w1 = "upd_conn d (act (SocketWrite (raw (sys_load_request env)))) w"
    obtain ds1 where one: "request_loads env gebrm_daemon_init_iface ds ?w1 = (ds1, w')"
      using Cons.prems False by (auto simp: gebrm_daemon_init_iface_def split: prod.splits)
    from Cons.IH [OF this] obtain cs where "w' = ?w1\<lparr>conns := cs\<rparr>" ..
    then show ?thesis by (intro exI [of _ cs]) (simp add: upd_conn_def)
  qed
qed

text \<open>Asking a runner changes its own record and the connections, and nothing else.\<close>

definition run_asked :: "app \<Rightarrow> nat \<Rightarrow> bool" where
  "run_asked a r \<longleftrightarrow> (\<exists>ar. ap_runners a r = Some ar \<and> 0 < rn_requests (ar_runner ar))"

lemma run_async_result:
  assumes "run_async env r a = Inr (started, a')"
  obtains ar rn cs where "ap_runners a r = Some ar"
    "a' = a\<lparr>ap_w := (ap_w a)\<lparr>conns := cs\<rparr>, ap_runners := (ap_runners a)(r \<mapsto> ar\<lparr>ar_runner := rn\<rparr>)\<rparr>"
    "started \<longleftrightarrow> 0 < rn_requests rn" "rn_id rn = rn_id (ar_runner ar)" "rn_responses rn = 0"
    "rn_requests rn = int (length (rn_servers rn))"
proof -
  obtain ar where ar: "ap_runners a r = Some ar" using assms by (cases "ap_runners a r") (auto simp: run_async_def)
  obtain ds w where req: "request_loads (ae_run env) gebrm_daemon_init_iface (rn_servers (ar_runner ar)) (ap_w a) = (ds, w)"
    by fastforce
  obtain cs where w: "w = (ap_w a)\<lparr>conns := cs\<rparr>" using request_loads_conns [OF req] ..
  let ?rn = "(ar_runner ar)\<lparr>rn_servers := ds, rn_requests := int (length ds), rn_responses := 0\<rparr>"
  have "started = (ds \<noteq> [])" "a' = a\<lparr>ap_w := w, ap_runners := (ap_runners a)(r \<mapsto> ar\<lparr>ar_runner := ?rn\<rparr>)\<rparr>"
    using assms by (simp_all add: run_async_def ar gebr_comm_runner_run_async_def req)
  then show thesis using that [of ar ?rn cs] ar w by simp
qed

lemma run_async_returns: "ap_runners a r \<noteq> None \<Longrightarrow> \<exists>s a'. run_async env r a = Inr (s, a')"
  by (cases "ap_runners a r") (simp_all add: run_async_def split: prod.split)

text \<open>A relation that every operation on jobs, runners and connections keeps: what it leaves alone.\<close>

definition run_key :: "app \<Rightarrow> nat \<Rightarrow> (job_ref \<times> cstr) option" where
  "run_key a r = map_option (\<lambda>ar. (ar_job ar, rn_id (ar_runner ar))) (ap_runners a r)"

lemma run_key_alive: "run_key a r = None \<longleftrightarrow> ap_runners a r = None"
  by (simp add: run_key_def)

definition app_frame :: "app \<Rightarrow> app \<Rightarrow> bool" where
  "app_frame a a' \<longleftrightarrow>
     ap_run_queue a' = ap_run_queue a \<and> ap_next_runner a' = ap_next_runner a \<and> ap_next_job a' = ap_next_job a \<and>
     ap_connections a' = ap_connections a \<and> ap_clients a' = ap_clients a \<and> ap_daemons a' = ap_daemons a \<and>
     job_table (ap_w a') = job_table (ap_w a) \<and> next_job_id (ap_w a') = next_job_id (ap_w a) \<and> run_key a' = run_key a \<and>
     (\<forall>j. status (jobs (ap_w a) j) = JOB_STATUS_CANCELED \<longrightarrow> status (jobs (ap_w a') j) = JOB_STATUS_CANCELED)"

lemma app_frame_refl [simp]: "app_frame a a"
  by (simp add: app_frame_def)

lemma app_frame_trans [trans]: "app_frame a b \<Longrightarrow> app_frame b c \<Longrightarrow> app_frame a c"
  by (simp add: app_frame_def)

lemma run_async_frame: "run_async env r a = Inr (s, a') \<Longrightarrow> app_frame a a'"
  by (elim run_async_result) (simp add: app_frame_def run_key_def fun_eq_iff)

lemma send_frame [simp]: "app_frame a (send_to_clients m args a)" "app_frame a (client_send c m args a)"
  by (simp_all add: app_frame_def send_to_clients_eq client_send_def run_key_def fun_eq_iff)

section \<open>The end of a job\<close>

text \<open>
  Every child is a later job than its parent, its runner is alive, and no runner waits twice. \<open>waiting a k\<close> are the
  runners that wait for a job with at least the number \<open>k\<close>.
\<close>

definition wf_children :: "app \<Rightarrow> bool" where
  "wf_children a \<longleftrightarrow>
     (\<forall>j r c. (r, c) \<in> set (ap_children a j) \<longrightarrow> j < c \<and> c < ap_next_job a \<and> ap_runners a r \<noteq> None) \<and>
     (\<forall>i j r. r \<in> fst ` set (ap_children a i) \<longrightarrow> r \<in> fst ` set (ap_children a j) \<longrightarrow> i = j) \<and>
     (\<forall>j. distinct (map fst (ap_children a j)))"

definition waiting :: "app \<Rightarrow> job_ref \<Rightarrow> nat set" where
  "waiting a k = {r. \<exists>i\<ge>k. r \<in> fst ` set (ap_children a i)}"

definition ended :: "job_ref \<Rightarrow> app \<Rightarrow> app \<Rightarrow> bool" where
  "ended j a a' \<longleftrightarrow>
     app_frame a a' \<and> (\<forall>i. ap_children a' i = ap_children a i \<or> j \<le> i \<and> ap_children a' i = []) \<and>
     (\<forall>r. r \<notin> waiting a j \<longrightarrow> ap_runners a' r = ap_runners a r)"

lemma ended_waiting: "ended j a a' \<Longrightarrow> waiting a' k \<subseteq> waiting a k"
proof
  fix r assume e: "ended j a a'" and "r \<in> waiting a' k"
  then obtain i where i: "k \<le> i" "r \<in> fst ` set (ap_children a' i)" unfolding waiting_def by blast
  then have "ap_children a' i = ap_children a i" using e unfolding ended_def by (metis empty_iff empty_set image_is_empty)
  then show "r \<in> waiting a k" using i unfolding waiting_def by auto
qed

lemma waiting_mono: "j \<le> k \<Longrightarrow> waiting a k \<subseteq> waiting a j"
  unfolding waiting_def using order_trans by blast

lemma ended_mono:
  assumes "ended k a a'" "j \<le> k"
  shows "ended j a a'"
  unfolding ended_def
proof (intro conjI allI impI)
  show "app_frame a a'" using assms(1) by (simp add: ended_def)
  show "ap_children a' i = ap_children a i \<or> j \<le> i \<and> ap_children a' i = []" for i
    using assms unfolding ended_def by (meson order_trans)
  show "ap_runners a' r = ap_runners a r" if "r \<notin> waiting a j" for r
    using that assms waiting_mono [OF assms(2)] unfolding ended_def by blast
qed

lemma ended_trans:
  assumes "ended j a b" "ended j b c"
  shows "ended j a c"
  unfolding ended_def
proof (intro conjI allI impI)
  show "app_frame a c" using assms app_frame_trans unfolding ended_def by blast
  show "ap_children c i = ap_children a i \<or> j \<le> i \<and> ap_children c i = []" for i
    using assms unfolding ended_def by metis
  show "ap_runners c r = ap_runners a r" if "r \<notin> waiting a j" for r
    using that assms ended_waiting [OF assms(1)] unfolding ended_def by (metis subsetD)
qed

lemma ended_wf:
  assumes "ended j a a'" "wf_children a"
  shows "wf_children a'"
proof -
  have ch: "ap_children a' i = ap_children a i \<or> ap_children a' i = []" for i using assms(1) by (auto simp: ended_def)
  have fr: "ap_next_job a' = ap_next_job a" "ap_runners a' r \<noteq> None \<longleftrightarrow> ap_runners a r \<noteq> None" for r
    using assms(1) run_key_alive [of a' r] run_key_alive [of a r] by (simp_all add: ended_def app_frame_def)
  show ?thesis unfolding wf_children_def
  proof (intro conjI allI impI)
    fix i r c assume "(r, c) \<in> set (ap_children a' i)"
    then have "(r, c) \<in> set (ap_children a i)" using ch [of i] by auto
    then show "i < c" "c < ap_next_job a'" "ap_runners a' r \<noteq> None"
      using assms(2) unfolding fr wf_children_def by blast+
  next
    fix i k r assume "r \<in> fst ` set (ap_children a' i)" "r \<in> fst ` set (ap_children a' k)"
    then have "r \<in> fst ` set (ap_children a i)" "r \<in> fst ` set (ap_children a k)" using ch [of i] ch [of k] by auto
    then show "i = k" using assms(2) unfolding wf_children_def by blast
  next
    fix i show "distinct (map fst (ap_children a' i))"
      using assms(2) ch [of i] unfolding wf_children_def by (metis distinct.simps(1) list.map(1))
  qed
qed

lemma ended_frame: "ended j a a' \<Longrightarrow> app_frame a a'"
  by (simp add: ended_def)

lemma run_async_ended:
  assumes "run_async env r a = Inr (s, a')" "r \<in> waiting a j"
  shows "ended j a a'"
proof -
  have "app_frame a a'" using assms(1) by (rule run_async_frame)
  moreover have "ap_children a' = ap_children a \<and> (\<forall>q. q \<noteq> r \<longrightarrow> ap_runners a' q = ap_runners a q)"
    using assms(1) by (elim run_async_result) simp
  ultimately show ?thesis using assms(2) by (auto simp: ended_def)
qed

lemma run_async_asked: "run_async env r a = Inr (s, a') \<Longrightarrow> run_asked a' r \<longleftrightarrow> s"
  by (elim run_async_result) (simp add: run_asked_def)

lemma run_asked_same: "ap_runners a' r = ap_runners a r \<Longrightarrow> run_asked a' r \<longleftrightarrow> run_asked a r"
  by (simp add: run_asked_def)

definition settled :: "app \<Rightarrow> nat \<times> job_ref \<Rightarrow> bool" where
  "settled a rc \<longleftrightarrow> run_asked a (fst rc) \<or> status (jobs (ap_w a) (snd rc)) = JOB_STATUS_CANCELED"

text \<open>The runners that wait were not asked yet; \<open>X\<close> are jobs whose children are being started.\<close>

definition unasked_but :: "job_ref set \<Rightarrow> app \<Rightarrow> bool" where
  "unasked_but X a \<longleftrightarrow> (\<forall>i. i \<notin> X \<longrightarrow> (\<forall>r \<in> fst ` set (ap_children a i). \<not> run_asked a r))"

lemma unasked_but_same:
  "unasked_but X a \<Longrightarrow> ap_children a' = ap_children a \<Longrightarrow> ap_runners a' = ap_runners a \<Longrightarrow> unasked_but X a'"
  by (simp add: unasked_but_def run_asked_def)

lemma start_children_returns:
  assumes kill: "\<And>c b. j < c \<Longrightarrow> c < ap_next_job b \<Longrightarrow> ap_next_job b = ap_next_job a \<Longrightarrow> wf_children b \<Longrightarrow>
      \<exists>b'. kill c b = Inr b' \<and> ended c b b' \<and> status (jobs (ap_w b') c) = JOB_STATUS_CANCELED \<and>
        (\<forall>X. unasked_but X b \<longrightarrow> unasked_but X b')"
    and "wf_children a" "set cs \<subseteq> set (ap_children a j)" "distinct (map fst cs)"
  shows "\<exists>a'. start_children env kill cs a = Inr a' \<and> ended j a a' \<and> ap_children a' j = ap_children a j \<and>
    (\<forall>r. r \<notin> fst ` set cs \<longrightarrow> r \<notin> waiting a (Suc j) \<longrightarrow> ap_runners a' r = ap_runners a r) \<and> (\<forall>rc \<in> set cs. settled a' rc) \<and>
    (\<forall>X. j \<in> X \<longrightarrow> unasked_but X a \<longrightarrow> unasked_but X a')"
  using assms
proof (induction cs arbitrary: a)
  case Nil
  then show ?case by (simp add: ended_def)
next
  case (Cons rc cs)
  obtain r c where rc: "rc = (r, c)" by (cases rc)
  have here: "(r, c) \<in> set (ap_children a j)" using Cons.prems(3) rc by simp
  then have r: "j < c" "c < ap_next_job a" "ap_runners a r \<noteq> None"
    using Cons.prems(2) unfolding wf_children_def by blast+
  have "r \<in> fst ` set (ap_children a j)" using here by force
  then have r_wait: "r \<in> waiting a j" unfolding waiting_def by blast
  have r_once: "r \<notin> waiting a (Suc j)"
  proof
    assume "r \<in> waiting a (Suc j)"
    then obtain i where i: "Suc j \<le> i" "r \<in> fst ` set (ap_children a i)" unfolding waiting_def by blast
    have "r \<in> fst ` set (ap_children a j)" using here by force
    then have "j = i" using i(2) Cons.prems(2) unfolding wf_children_def by blast
    then show False using i(1) by simp
  qed
  obtain s a1 where one: "run_async env r a = Inr (s, a1)" using run_async_returns [OF r(3)] by blast
  have e1: "ended j a a1" "wf_children a1" "ap_children a1 = ap_children a"
    "\<forall>q. q \<noteq> r \<longrightarrow> ap_runners a1 q = ap_runners a q"
    using run_async_ended [OF one r_wait] ended_wf [OF run_async_ended [OF one r_wait] Cons.prems(2)]
    by (simp_all, (use one in \<open>elim run_async_result, simp\<close>)+)
  have next1: "ap_next_job a1 = ap_next_job a" using ended_frame [OF e1(1)] by (simp add: app_frame_def)
  have un1: "unasked_but X a1" if "j \<in> X" "unasked_but X a" for X
    unfolding unasked_but_def
  proof (intro allI impI ballI)
    fix i q assume i: "i \<notin> X" "q \<in> fst ` set (ap_children a1 i)"
    have "r \<in> fst ` set (ap_children a j)" using here by force
    then have "q \<noteq> r" using i that(1) e1(3) Cons.prems(2) unfolding wf_children_def by metis
    then have "run_asked a1 q \<longleftrightarrow> run_asked a q" using e1(4) by (simp add: run_asked_def)
    then show "\<not> run_asked a1 q" using i that(2) e1(3) unfolding unasked_but_def by metis
  qed
  obtain a2 where two: "(if s then Inr a1 else kill c a1) = Inr a2" "ended (Suc j) a1 a2" "settled a2 (r, c)"
      "\<forall>X. unasked_but X a1 \<longrightarrow> unasked_but X a2"
  proof (cases s)
    case True
    then show thesis using that [of a1] run_async_asked [OF one] by (simp add: settled_def ended_def)
  next
    case False
    obtain b where "kill c a1 = Inr b" "ended c a1 b" "status (jobs (ap_w b) c) = JOB_STATUS_CANCELED"
      "\<forall>X. unasked_but X a1 \<longrightarrow> unasked_but X b"
      using Cons.prems(1) [of c a1] r next1 e1(2) by auto
    then show thesis using False that [of b] ended_mono [of c a1 b "Suc j"] r(1) by (simp add: settled_def)
  qed
  have e2: "ended j a1 a2" "wf_children a2" "ap_next_job a2 = ap_next_job a" "ap_children a2 j = ap_children a j"
  proof -
    show "ended j a1 a2" using two(2) by (rule ended_mono) simp
    show "wf_children a2" using two(2) e1(2) by (rule ended_wf)
    show "ap_next_job a2 = ap_next_job a" using ended_frame [OF two(2)] next1 by (simp add: app_frame_def)
    have "ap_children a2 j = ap_children a1 j" using two(2) unfolding ended_def by (metis Suc_n_not_le_n)
    then show "ap_children a2 j = ap_children a j" by (simp add: e1(3))
  qed
  have "\<exists>a'. start_children env kill cs a2 = Inr a' \<and> ended j a2 a' \<and> ap_children a' j = ap_children a2 j \<and>
      (\<forall>r. r \<notin> fst ` set cs \<longrightarrow> r \<notin> waiting a2 (Suc j) \<longrightarrow> ap_runners a' r = ap_runners a2 r) \<and> (\<forall>rc \<in> set cs. settled a' rc) \<and>
      (\<forall>X. j \<in> X \<longrightarrow> unasked_but X a2 \<longrightarrow> unasked_but X a')"
  proof (rule Cons.IH)
    show "wf_children a2" by (rule e2)
    show "set cs \<subseteq> set (ap_children a2 j)" "distinct (map fst cs)" using Cons.prems(3,4) e2(4) by auto
  qed (use Cons.prems(1) e2(3) in simp)
  then obtain a' where rest: "start_children env kill cs a2 = Inr a'" "ended j a2 a'" "ap_children a' j = ap_children a2 j"
    "\<forall>r. r \<notin> fst ` set cs \<longrightarrow> r \<notin> waiting a2 (Suc j) \<longrightarrow> ap_runners a' r = ap_runners a2 r" "\<forall>rc \<in> set cs. settled a' rc" "\<forall>X. j \<in> X \<longrightarrow> unasked_but X a2 \<longrightarrow> unasked_but X a'"
    by blast
  have w12: "waiting a2 (Suc j) \<subseteq> waiting a (Suc j)"
    using ended_waiting [OF two(2), of "Suc j"] e1(3) by (simp add: waiting_def)
  have w1: "waiting a1 (Suc j) = waiting a (Suc j)" using e1(3) by (simp add: waiting_def)
  have others: "ap_runners a' q = ap_runners a q"
    if "q \<notin> fst ` set (rc # cs)" "q \<notin> waiting a (Suc j)" for q
    using that rest(4) two(2) e1(4) w12 w1 rc unfolding ended_def by auto
  have "settled a' (r, c)"
  proof -
    have "r \<notin> fst ` set cs" using Cons.prems(4) rc by simp
    then have "ap_runners a' r = ap_runners a2 r" using rest(4) r_once w12 by blast
    then show ?thesis using two(3) ended_frame [OF rest(2)] run_asked_same [of a' r a2]
      by (auto simp: settled_def app_frame_def)
  qed
  then have "\<forall>rc \<in> set (rc # cs). settled a' rc" using rest(5) rc by simp
  moreover have "start_children env kill (rc # cs) a = Inr a'" using one two(1) rest(1) rc by simp
  moreover have "ended j a a'" using e1(1) e2(1) rest(2) by (blast intro: ended_trans)
  moreover have "ap_children a' j = ap_children a j" using rest(3) e2(4) by simp
  moreover have "\<forall>X. j \<in> X \<longrightarrow> unasked_but X a \<longrightarrow> unasked_but X a'" using un1 two(4) rest(6) by blast
  ultimately show ?case using others by blast
qed

lemma kill_tasks_sel [simp]:
  "jobs (gebrm_job_kill_tasks j w) = jobs w" "job_world.more (gebrm_job_kill_tasks j w) = job_world.more w"
  unfolding gebrm_job_kill_tasks_def by (rule fold_kill_jobs, rule more_fold, rule more_simps(6))

lemma kill_immediately_more [simp]:
  "job_world.more (gebrm_job_kill_immediately now j w) = job_world.more w"
  by (simp add: gebrm_job_kill_immediately_def gebrm_job_kill_def Let_def)

lemma kill_immediately_jobs [simp]:
  "jobs (gebrm_job_kill_immediately now j w) = (jobs w)(j := (jobs w j)\<lparr>status := JOB_STATUS_CANCELED\<rparr>)"
  by (simp add: gebrm_job_kill_immediately_def Let_def)

lemma next_id_sel [simp]:
  "next_job_id (log_event e w) = next_job_id w" "next_job_id (set_job j jb w) = next_job_id w"
  "next_job_id (set_job_status j s w) = next_job_id w" "next_job_id (gebrm_task_kill t w) = next_job_id w"
  by (simp_all add: log_event_def set_job_def set_job_status_def gebrm_task_kill_def)

lemma next_id_kill [simp]:
  "next_job_id (gebrm_job_kill_tasks j w) = next_job_id w"
  "next_job_id (gebrm_job_kill_immediately now j w) = next_job_id w"
proof -
  have "next_job_id (fold gebrm_task_kill ts v) = next_job_id v" for ts and v :: "'b job_world_scheme"
    by (induction ts arbitrary: v) simp_all
  then show tasks: "next_job_id (gebrm_job_kill_tasks j w) = next_job_id w" for w :: "'a job_world_scheme"
    by (simp add: gebrm_job_kill_tasks_def)
  show "next_job_id (gebrm_job_kill_immediately now j w) = next_job_id w"
    by (simp add: gebrm_job_kill_immediately_def gebrm_job_kill_def tasks Let_def)
qed

lemma upd_w_ended:
  assumes "job_table (f (ap_w a)) = job_table (ap_w a)" "next_job_id (f (ap_w a)) = next_job_id (ap_w a)"
    and "\<And>j. status (jobs (ap_w a) j) = JOB_STATUS_CANCELED \<Longrightarrow> status (jobs (f (ap_w a)) j) = JOB_STATUS_CANCELED"
  shows "ended j a (upd_w f a)"
  using assms by (simp add: ended_def app_frame_def run_key_def fun_eq_iff)

lemma send_ended [intro]: "ended j a (send_to_clients m args a)" "ended j a (client_send c m args a)"
  unfolding send_to_clients_eq client_send_def by (rule upd_w_ended, simp, simp, simp)+

lemma send_job_def_ended [intro]: "ended j a (send_job_def_to_clients env i a)"
  unfolding send_job_def_to_clients_def Let_def by (rule send_ended)

lemma ended_refl [simp]: "ended j a a"
  by (simp add: ended_def)

lemma ended_fold: "(\<And>x b. ended j b (f x b)) \<Longrightarrow> ended j a (fold f xs a)"
proof (induction xs arbitrary: a)
  case (Cons x xs)
  then show ?case using ended_trans [of j a "f x a" "fold f xs (f x a)"] by simp
qed simp

text \<open>What a client sees of a change does not touch the runs.\<close>

lemma tell_ended [intro]: "ended j a (tell_client_status env i old new par c a)"
proof -
  have q: "ended j b (b\<lparr>ap_def_queue := q\<rparr>)" for b q by (simp add: ended_def app_frame_def run_key_def fun_eq_iff)
  have "ended j b (fold (send_job_def_to_clients env) xs b)" for xs b
    by (rule ended_fold) (rule send_job_def_ended)
  then have flush: "ended j b ((fold (send_job_def_to_clients env) xs b)\<lparr>ap_def_queue := []\<rparr>)" for xs b
    using q by (rule ended_trans)
  show ?thesis
    unfolding tell_client_status_def Let_def
    by (split if_split, intro conjI impI ended_trans [OF send_ended(2) flush] send_ended(2))
qed

lemma send_same [simp]:
  "ap_children (send_to_clients m args a) = ap_children a" "ap_runners (send_to_clients m args a) = ap_runners a"
  "ap_children (client_send c m args a) = ap_children a" "ap_runners (client_send c m args a) = ap_runners a"
  "jobs (ap_w (send_to_clients m args a)) = jobs (ap_w a)" "jobs (ap_w (client_send c m args a)) = jobs (ap_w a)"
  by (simp_all add: send_to_clients_eq client_send_def)

lemma send_job_def_same [simp]:
  "ap_children (send_job_def_to_clients env i a) = ap_children a" "ap_runners (send_job_def_to_clients env i a) = ap_runners a"
  "jobs (ap_w (send_job_def_to_clients env i a)) = jobs (ap_w a)"
  by (simp_all add: send_job_def_to_clients_def Let_def)

lemma fold_same: "(\<And>x b. h (f x b) = h b) \<Longrightarrow> h (fold f xs a) = h a"
  by (induction xs arbitrary: a) simp_all

lemma tell_same [simp]:
  "ap_children (tell_client_status env i old new par c a) = ap_children a"
  "ap_runners (tell_client_status env i old new par c a) = ap_runners a"
  "jobs (ap_w (tell_client_status env i old new par c a)) = jobs (ap_w a)"
  unfolding tell_client_status_def Let_def
  by (simp_all add: fold_same [of ap_children] fold_same [of ap_runners] fold_same [of "\<lambda>a. jobs (ap_w a)"])

definition stops :: "comm_job_status \<Rightarrow> bool" where
  "stops s \<longleftrightarrow> s = JOB_STATUS_FINISHED \<or> s = JOB_STATUS_FAILED \<or> s = JOB_STATUS_CANCELED"

lemma status_change_returns:
  assumes "wf_children a" "j < ap_next_job a" "ap_next_job a - j \<le> n"
  shows "\<exists>a'. gebrm_app_job_controller_on_status_change n env j old new par a = Inr a' \<and> ended j a a' \<and>
    (stops new \<longrightarrow> ap_children a' j = [] \<and> (\<forall>rc \<in> set (ap_children a j). settled a' rc)) \<and>
    (\<forall>X. unasked_but X a \<longrightarrow> unasked_but X a')"
  using assms
proof (induction n arbitrary: a j old new par)
  case 0
  then show ?case by simp
next
  case (Suc n)
  let ?on = "gebrm_app_job_controller_on_status_change"
  let ?kill = "\<lambda>c a. ?on n env c (status (jobs (ap_w a) c)) JOB_STATUS_CANCELED (Some (ae_now env))
      (upd_w (gebrm_job_kill_immediately (ae_now env) c) a)"
  let ?b = "if new = JOB_STATUS_FAILED then upd_w (gebrm_job_kill_tasks j) a else a"
  let ?tell = "fold (tell_client_status env j old new par)"
  have b: "ended j a ?b" "ap_children ?b = ap_children a" "ap_next_job ?b = ap_next_job a"
    using more_eq_sel [OF kill_tasks_sel(2) [of j "ap_w a"]] by (simp_all add: upd_w_ended)
  have wf_b: "wf_children ?b" using b(1) Suc.prems(1) by (rule ended_wf)
  have tell: "ended j c (?tell (ap_connections c) c)" "ap_children (?tell (ap_connections c) c) = ap_children c"
    "settled (?tell (ap_connections c) c) rc = settled c rc"
      "ap_runners (?tell (ap_connections c) c) = ap_runners c" for c rc
    by (rule ended_fold, rule tell_ended, rule fold_same, simp)
      (simp_all add: settled_def run_asked_def fold_same [of ap_runners] fold_same [of "\<lambda>a. jobs (ap_w a)"])
  have unb: "unasked_but X ?b" if "unasked_but X a" for X using that b(2) by (rule unasked_but_same) simp
  show ?case
  proof (cases "stops new")
    case False
    then have "?on (Suc n) env j old new par a = Inr (?tell (ap_connections ?b) ?b)"
      by (simp add: stops_def Let_def)
    moreover have "unasked_but X (?tell (ap_connections ?b) ?b)" if "unasked_but X a" for X
      using unb [OF that] tell(2,4) by (rule unasked_but_same)
    ultimately show ?thesis using b(1) tell(1) False by (blast intro: ended_trans)
  next
    case True
    have kill: "\<exists>d. ?kill c b = Inr d \<and> ended c b d \<and> status (jobs (ap_w d) c) = JOB_STATUS_CANCELED \<and>
        (\<forall>X. unasked_but X b \<longrightarrow> unasked_but X d)"
      if "j < c" "c < ap_next_job b" "ap_next_job b = ap_next_job ?b" "wf_children b" for c b
    proof -
      let ?k = "upd_w (gebrm_job_kill_immediately (ae_now env) c) b"
      have k: "ended c b ?k" using more_eq_sel [OF kill_immediately_more [of "ae_now env" c "ap_w b"]] by (simp add: upd_w_ended)
      have "wf_children ?k" using k that(4) by (rule ended_wf)
      moreover have "ap_next_job ?k - c \<le> n" "c < ap_next_job ?k" using that Suc.prems(3) b(3) by simp_all
      ultimately obtain d where d: "?kill c b = Inr d" "ended c ?k d" "\<forall>X. unasked_but X ?k \<longrightarrow> unasked_but X d"
        using Suc.IH [of ?k c] by blast
      have un: "unasked_but X ?k" if "unasked_but X b" for X using that by (rule unasked_but_same) simp_all
      have "status (jobs (ap_w ?k) c) = JOB_STATUS_CANCELED" by simp
      then have "status (jobs (ap_w d) c) = JOB_STATUS_CANCELED" using d(2) unfolding ended_def app_frame_def by blast
      with d un ended_trans [OF k d(2)] show ?thesis by blast
    qed
    have "\<exists>c. start_children env ?kill (ap_children ?b j) ?b = Inr c \<and> ended j ?b c \<and> ap_children c j = ap_children ?b j \<and>
        (\<forall>r. r \<notin> fst ` set (ap_children ?b j) \<longrightarrow> r \<notin> waiting ?b (Suc j) \<longrightarrow> ap_runners c r = ap_runners ?b r) \<and>
        (\<forall>rc \<in> set (ap_children ?b j). settled c rc) \<and> (\<forall>X. j \<in> X \<longrightarrow> unasked_but X ?b \<longrightarrow> unasked_but X c)"
    proof (rule start_children_returns [OF kill wf_b])
      show "distinct (map fst (ap_children ?b j))" using wf_b unfolding wf_children_def by blast
    qed (assumption | rule subset_refl)+
    then obtain c where c: "start_children env ?kill (ap_children ?b j) ?b = Inr c" "ended j ?b c"
      "\<forall>rc \<in> set (ap_children ?b j). settled c rc" "\<forall>X. j \<in> X \<longrightarrow> unasked_but X ?b \<longrightarrow> unasked_but X c" by blast
    let ?d = "c\<lparr>ap_children := (ap_children c)(j := [])\<rparr>"
    have d: "ended j c ?d" by (simp add: ended_def app_frame_def run_key_def fun_eq_iff)
    have run: "?on (Suc n) env j old new par a = Inr (?tell (ap_connections ?d) ?d)"
      using True c(1) unfolding stops_def by (simp add: Let_def)
    have "ended j a (?tell (ap_connections ?d) ?d)"
      using b(1) c(2) d tell(1) by (blast intro: ended_trans)
    moreover have "ap_children (?tell (ap_connections ?d) ?d) j = []" by (simp only: tell(2)) simp
    moreover have "settled ?d rc = settled c rc" for rc by (simp add: settled_def run_asked_def)
    then have "\<forall>rc \<in> set (ap_children a j). settled (?tell (ap_connections ?d) ?d) rc"
      using c(3) b(2) by (simp only: tell(3))
    moreover have "unasked_but X (?tell (ap_connections ?d) ?d)" if "unasked_but X a" for X
    proof -
      have "unasked_but (insert j X) ?b" using unb [OF that] unfolding unasked_but_def by blast
      then have "unasked_but (insert j X) c" using c(4) by blast
      then have "unasked_but X ?d" by (auto simp: unasked_but_def run_asked_def)
      then show ?thesis using tell(2,4) by (rule unasked_but_same)
    qed
    ultimately show ?thesis using run by blast
  qed
qed

end
