(* ===== verification/Gebrm_Machines.thy ===== *)
theory Gebrm_Machines
  imports Gebrm_Maestro Gebrm_Runs
begin

text \<open>
  What the operations on connections keep of the application. The locale is the contract of a relation on the data of
  the user of a connection that its callback respects; every operation of the connection then respects it.
\<close>

section \<open>Relations kept by connections\<close>

locale user_relation =
  fixes changed :: "'c server_user \<Rightarrow> 'c server_user" and rel :: "'c \<Rightarrow> 'c \<Rightarrow> bool"
  assumes rel_refl: "rel c c"
    and rel_trans: "rel b c \<Longrightarrow> rel c e \<Longrightarrow> rel b e"
    and rel_callback: "rel (snd su) (snd (changed su))"
begin

lemma rel_change_state: "rel (snd su) (snd (gebr_comm_server_change_state changed st su))"
  using rel_callback by (force simp: gebr_comm_server_change_state_def Let_def rel_refl)

lemma rel_on_server: "snd (on_server f su) = snd su"
  by (simp add: on_server_def)

lemma rel_disconnected_state: "rel (snd su) (snd (gebr_comm_server_disconnected_state changed e msg su))"
  using rel_change_state unfolding gebr_comm_server_disconnected_state_def by (metis rel_on_server)

lemma rel_free_for_reuse: "rel (snd su) (snd (gebr_comm_server_free_for_reuse changed su))"
  using rel_change_state unfolding gebr_comm_server_free_for_reuse_def rel_on_server by (metis rel_on_server)

lemma rel_socket_disconnected: "rel (snd su) (snd (gebr_comm_server_socket_disconnected changed su))"
  using rel_free_for_reuse unfolding gebr_comm_server_socket_disconnected_def by (metis rel_on_server)

lemma rel_connect: "rel (snd su) (snd (gebr_comm_server_connect changed m fi su))"
  using rel_change_state by (simp add: gebr_comm_server_connect_def rel_on_server rel_refl)

lemma rel_disconnect: "rel (snd su) (snd (gebr_comm_server_disconnect changed su))"
proof -
  have "rel (snd su) (snd (gebr_comm_server_socket_disconnected changed (on_server (act SocketDisconnect) su)))"
    using rel_socket_disconnected [of "on_server (act SocketDisconnect) su"] by (simp only: rel_on_server)
  then show ?thesis using rel_change_state by (simp add: gebr_comm_server_disconnect_def)
qed

lemma rel_set_logged: "rel (snd su) (snd (gebr_comm_server_set_logged changed su))"
  using rel_change_state unfolding gebr_comm_server_set_logged_def by (metis rel_on_server)

lemma rel_ssh_error: "rel (snd su) (snd (on_comm_ssh_error changed ec msg su))"
proof (cases ec)
  case ERROR_REDIRECT
  let ?v = "gebr_comm_server_change_state changed SERVER_STATE_REDIRECT su"
  have "rel (snd ?v) (snd (gebr_comm_server_connect changed True False (on_server (\<lambda>s. s\<lparr>address := msg\<rparr>) ?v)))"
    using rel_connect [of "on_server (\<lambda>s. s\<lparr>address := msg\<rparr>) ?v"] by (simp only: rel_on_server)
  then show ?thesis using ERROR_REDIRECT rel_trans [OF rel_change_state] by (simp add: on_comm_ssh_error_def)
qed (simp_all add: on_comm_ssh_error_def rel_refl rel_on_server rel_disconnected_state)

lemma rel_socket_connected: "rel (snd su) (snd (gebr_comm_server_socket_connected changed f su))"
  using rel_change_state unfolding gebr_comm_server_socket_connected_def rel_on_server by (metis rel_on_server)

lemma rel_socket_error: "rel (snd su) (snd (gebr_comm_server_socket_error changed e su))"
  by (cases e) (simp_all add: gebr_comm_server_socket_error_def rel_refl rel_disconnected_state)

end

section \<open>What concerns runs and clients\<close>

definition run_frame :: "app \<Rightarrow> app \<Rightarrow> bool" where
  "run_frame a b \<longleftrightarrow>
     ap_connections b = ap_connections a \<and> ap_children b = ap_children a \<and> ap_runners b = ap_runners a \<and>
     ap_run_queue b = ap_run_queue a \<and> ap_def_queue b = ap_def_queue a \<and> ap_next_job b = ap_next_job a \<and>
     ap_next_runner b = ap_next_runner a \<and> ap_next_client b = ap_next_client a \<and>
     job_table (ap_w b) = job_table (ap_w a) \<and> next_job_id (ap_w b) = next_job_id (ap_w a) \<and>
     jobs (ap_w b) = jobs (ap_w a) \<and> tasks (ap_w b) = tasks (ap_w a)"

lemma run_frame_refl [simp]: "run_frame a a"
  by (simp add: run_frame_def)

lemma run_frame_trans [trans]: "run_frame a b \<Longrightarrow> run_frame b c \<Longrightarrow> run_frame a c"
  by (simp add: run_frame_def)

definition outcome_rel :: "(app \<Rightarrow> app \<Rightarrow> bool) \<Rightarrow> app outcome \<Rightarrow> app outcome \<Rightarrow> bool" where
  "outcome_rel R x y \<longleftrightarrow> (\<forall>b. y = Inr b \<longrightarrow> (\<exists>a. x = Inr a \<and> R a b))"

lemma outcome_relD: "outcome_rel R (Inr a) (Inr b) \<Longrightarrow> R a b"
  by (simp add: outcome_rel_def)

lemma emit_world [simp]:
  "job_table (emit e w) = job_table w" "next_job_id (emit e w) = next_job_id w" "jobs (emit e w) = jobs w" "trace (emit e w) = trace w"
  by (simp_all add: emit_def)

lemma upd_world [simp]:
  "job_table (upd_daemon d f w) = job_table w" "next_job_id (upd_daemon d f w) = next_job_id w" "jobs (upd_daemon d f w) = jobs w"
  "job_table (upd_conn d g w) = job_table w" "next_job_id (upd_conn d g w) = next_job_id w" "jobs (upd_conn d g w) = jobs w"
  "trace (upd_daemon d f w) = trace w" "trace (upd_conn d g w) = trace w"
  by (simp_all add: upd_daemon_def upd_conn_def)

lemma run_frame_upd_w:
  assumes "job_table (f (ap_w a)) = job_table (ap_w a)" "next_job_id (f (ap_w a)) = next_job_id (ap_w a)"
    "jobs (f (ap_w a)) = jobs (ap_w a)" "tasks (f (ap_w a)) = tasks (ap_w a)"
  shows "run_frame a (upd_w f a)"
  using assms by (simp add: run_frame_def upd_w_def)

lemma client_send_frame [simp]: "run_frame a (client_send c m args a)" "run_frame a (client_return c m args a)"
  unfolding client_send_def client_return_def by (intro run_frame_upd_w; simp)+

lemma upd_dm_frame [simp]: "run_frame a (upd_dm d f a)"
  unfolding upd_dm_def by (intro run_frame_upd_w) simp_all

lemma upd_conn_frame [simp]: "run_frame a (upd_w (upd_conn d f) a)"
  by (intro run_frame_upd_w) simp_all

lemma error_message_world [simp]:
  "job_table (gebrm_daemon_send_error_message d c w) = job_table w" "next_job_id (gebrm_daemon_send_error_message d c w) = next_job_id w"
  "jobs (gebrm_daemon_send_error_message d c w) = jobs w" "tasks (gebrm_daemon_send_error_message d c w) = tasks w"
  "conns (gebrm_daemon_send_error_message d c w) = conns w" "daemons (gebrm_daemon_send_error_message d c w) = daemons w"
  by (simp_all add: gebrm_daemon_send_error_message_def Let_def)

lemma error_message_frame [simp]: "run_frame a (upd_w (gebrm_daemon_send_error_message d c) a)"
  by (intro run_frame_upd_w) simp_all

lemma status_message_frame [simp]: "run_frame a (send_server_status_message env c d ac st a)"
  unfolding send_server_status_message_def Let_def by (rule run_frame_trans [OF client_send_frame(1) error_message_frame])

lemma run_frame_fold: "(\<And>x b. run_frame b (f x b)) \<Longrightarrow> run_frame a (fold f xs a)"
  by (induction xs arbitrary: a) (auto intro: run_frame_trans)

lemma stop_timer_frame [simp]: "run_frame a (stop_timer d a)"
proof -
  have "run_frame a (a\<lparr>ap_timers := x\<rparr>)" for x by (simp add: run_frame_def)
  then show ?thesis using run_frame_trans [OF _ upd_dm_frame] by (simp add: stop_timer_def Let_def)
qed

lemma start_timer_frame [simp]: "run_frame a (start_timer d a)"
proof -
  have "run_frame a (a\<lparr>ap_timers := x, ap_next_source := y\<rparr>)" for x y by (simp add: run_frame_def)
  then show ?thesis unfolding start_timer_def Let_def by (rule run_frame_trans [OF _ upd_dm_frame])
qed

lemma verify_frame [simp]: "run_frame a (verify_connect_all a)"
  by (simp add: verify_connect_all_def run_frame_def)

definition keeps_runs :: "(daemon_ref \<Rightarrow> client_ref \<Rightarrow> app \<Rightarrow> app outcome) \<Rightarrow> bool" where
  "keeps_runs connect \<longleftrightarrow> (\<forall>d c a b. connect d c a = Inr b \<longrightarrow> run_frame a b)"

lemma connect_for_clients_frame:
  assumes "keeps_runs connect"
  shows "connect_for_clients connect d cs a = Inr b \<Longrightarrow> run_frame a b"
proof (induction cs arbitrary: a)
  case (Cons c cs)
  then obtain y where "connect d c a = Inr y" "connect_for_clients connect d cs y = Inr b" by (auto simp: and_then_Inr_conv)
  with Cons.IH assms show ?case unfolding keeps_runs_def by (blast intro: run_frame_trans)
qed simp

lemma continue_frame:
  assumes "keeps_runs connect"
  shows "continue_connections connect k ds a = Inr b \<Longrightarrow> run_frame a b"
proof (induction ds arbitrary: a)
  case (Cons d ds)
  then show ?case
    using connect_for_clients_frame [OF assms]
    by (auto simp: and_then_Inr_conv Let_def split: if_splits) (blast intro: run_frame_trans)+
qed simp

lemma go_on_frame:
  assumes "keeps_runs connect" "go_on connect a = Inr b"
  shows "run_frame a b"
  using assms(2) continue_frame [OF assms(1)] run_frame_trans [OF _ verify_frame]
  by (auto simp: go_on_def gebrm_app_continue_connections_of_daemons_def and_then_Inr_conv)

lemma disconnected_frame:
  assumes c: "keeps_runs connect" and "disconnected_change connect d a = Inr b"
  shows "run_frame a b"
proof -
  define a1 where "a1 = (if error_type (daemons (ap_w a) d) \<noteq> None
    then upd_dm d (gebrm_daemon_set_canceled True) (stop_timer d a) else a)"
  have 1: "run_frame a a1" using run_frame_trans [OF stop_timer_frame upd_dm_frame] by (simp add: a1_def)
  obtain a2 where 2: "(if is_canceled (daemons (ap_w a1) d) \<and> ap_connect_all a1 then go_on connect a1 else Inr a1) = Inr a2"
    "(if error_type (daemons (ap_w a2) d) = None \<and> reconnect (daemons (ap_w a2) d)
      then connect_for_clients (\<lambda>d c a. connect d c (upd_dm d (gebrm_daemon_set_reconnect False) a)) d (ap_connections a2) a2
      else Inr a2) = Inr b"
    using assms(2) unfolding disconnected_change_def a1_def [symmetric] Let_def by (auto simp: and_then_Inr_conv split: if_splits)
  have "run_frame a1 a2" using 2(1) go_on_frame [OF c] by (auto split: if_splits)
  moreover have "keeps_runs (\<lambda>d c a. connect d c (upd_dm d (gebrm_daemon_set_reconnect False) a))"
    using c run_frame_trans [OF upd_dm_frame] unfolding keeps_runs_def by blast
  then have "run_frame a2 b" using 2(2) connect_for_clients_frame by (auto split: if_splits)
  ultimately show ?thesis using 1 run_frame_trans by blast
qed

lemma handle_frame:
  assumes c: "keeps_runs connect" and "handle_state_change connect env d st a = Inr b"
  shows "run_frame a b"
proof -
  obtain a1 where a1: "(case st of
          SERVER_STATE_DISCONNECTED \<Rightarrow> disconnected_change connect d a
        | SERVER_STATE_RUN \<Rightarrow>
            Inr (if ap_connect_all a then start_timer d (upd_dm d (gebrm_daemon_set_canceled True) a) else a)
        | SERVER_STATE_LOGGED \<Rightarrow>
            (let a = upd_dm d (gebrm_daemon_set_canceled False) (stop_timer d a)
             in if ap_connect_all a then go_on connect a else Inr a)
        | _ \<Rightarrow> Inr a) = Inr a1"
    "b = fold (\<lambda>c. send_server_status_message env c d (autoconnect (daemons (ap_w a1) d)) st) (ap_connections a1) a1"
    using assms(2) unfolding handle_state_change_def by (auto simp: and_then_Inr_conv)
  have "run_frame a a1"
  proof (cases st)
    case SERVER_STATE_LOGGED
    then show ?thesis
      using a1(1) go_on_frame [OF c] run_frame_trans [OF stop_timer_frame upd_dm_frame]
      by (auto simp: Let_def split: if_splits) (blast intro: run_frame_trans)
  qed (use a1(1) disconnected_frame [OF c] run_frame_trans [OF upd_dm_frame start_timer_frame] in \<open>auto split: if_splits\<close>)
  moreover have "run_frame a1 b" unfolding a1(2) by (rule run_frame_fold) simp
  ultimately show ?thesis by (rule run_frame_trans)
qed

lemma op_state_world [simp]:
  "job_table (snd (gebrm_server_op_state_changed d su)) = job_table (snd su)"
  "next_job_id (snd (gebrm_server_op_state_changed d su)) = next_job_id (snd su)"
  "jobs (snd (gebrm_server_op_state_changed d su)) = jobs (snd su)" "tasks (snd (gebrm_server_op_state_changed d su)) = tasks (snd su)"
  "conns (snd (gebrm_server_op_state_changed d su)) = conns (snd su)"
  "state (fst (gebrm_server_op_state_changed d su)) = state (fst su)"
  by (simp_all add: gebrm_server_op_state_changed_def Let_def gebr_comm_server_set_last_error_def split: prod.split)

lemma callback_frame:
  assumes "\<And>st a b. H d st a = Inr b \<Longrightarrow> run_frame a b"
  shows "outcome_rel run_frame (snd su) (snd (app_state_changed H d su))"
proof (cases "snd su")
  case (Inr a)
  obtain s w where sw: "gebrm_server_op_state_changed d (fst su, ap_w a) = (s, w)" by fastforce
  let ?b = "a\<lparr>ap_w := upd_conn d (\<lambda>_. s) w\<rparr>"
  have "run_frame a ?b" using op_state_world [of d "(fst su, ap_w a)"] sw by (simp add: run_frame_def)
  then show ?thesis
    using assms [of "state s" ?b] Inr sw by (auto simp: outcome_rel_def app_state_changed_def split: sum.splits intro: run_frame_trans)
qed (simp add: outcome_rel_def app_state_changed_def)

lemma user_frame:
  assumes "\<And>st a b. H d st a = Inr b \<Longrightarrow> run_frame a b"
  shows "user_relation (app_state_changed H d) (outcome_rel run_frame)"
proof
  show "outcome_rel run_frame (snd su) (snd (app_state_changed H d su))" for su using assms by (rule callback_frame)
qed (simp add: outcome_rel_def, unfold outcome_rel_def, blast intro: run_frame_trans)

text \<open>An operation of the connection of a machine, as an operation of the application.\<close>

lemma app_with_conn_rel:
  assumes "app_with_conn d f a = Inr b" "\<And>su. outcome_rel run_frame (snd su) (snd (f su))"
  shows "run_frame a b"
proof -
  obtain s c where f: "f (conns (ap_w a) d, Inr a) = (s, Inr c)" "b = upd_w (upd_conn d (\<lambda>_. s)) c"
    using assms(1) unfolding app_with_conn_def by (auto simp: and_then_Inr_conv split: prod.splits)
  have "run_frame a c" using assms(2) [of "(conns (ap_w a) d, Inr a)"] f(1) by (simp add: outcome_rel_def)
  then show ?thesis unfolding f(2) by (rule run_frame_trans) simp
qed

lemma connect_with_frame:
  assumes "\<And>d st a b. H d st a = Inr b \<Longrightarrow> run_frame a b"
  shows "keeps_runs (connect_with H)"
  unfolding keeps_runs_def
proof (intro allI impI)
  fix d c a b assume run: "connect_with H d c a = Inr b"
  have "user_relation (app_state_changed H d) (outcome_rel run_frame)" using assms by (rule user_frame)
  from app_with_conn_rel [OF run [unfolded connect_with_def] user_relation.rel_connect [OF this]]
  show "run_frame a b" by (rule run_frame_trans [OF upd_dm_frame])
qed

lemma on_state_change_frame: "on_state_change_fuel n env d st a = Inr b \<Longrightarrow> run_frame a b"
proof (induction n arbitrary: d st a b)
  case (Suc n)
  have "keeps_runs (connect_with (on_state_change_fuel n env))" by (rule connect_with_frame) (rule Suc.IH)
  from handle_frame [OF this] Suc.prems show ?case by simp
qed simp

interpretation app_runs: user_relation "state_changed env d" "outcome_rel run_frame" for env d
  unfolding state_changed_def by (rule user_frame) (simp add: gebrm_app_daemon_on_state_change_def on_state_change_frame)

lemma app_connect_keeps: "keeps_runs (app_connect env)"
  unfolding app_connect_def gebrm_app_daemon_on_state_change_def by (rule connect_with_frame) (rule on_state_change_frame)

lemma app_connect_frame: "app_connect env d c a = Inr b \<Longrightarrow> run_frame a b"
  using app_connect_keeps by (simp add: keeps_runs_def)

lemma app_disconnect_frame: "app_disconnect env d a = Inr b \<Longrightarrow> run_frame a b"
  unfolding app_disconnect_def
  by (drule app_with_conn_rel [OF _ app_runs.rel_disconnect])
    (rule run_frame_trans [OF upd_dm_frame], rule run_frame_trans [OF upd_conn_frame])

lemma time_out_frame: "time_out_daemon env t a = Inr b \<Longrightarrow> run_frame a b"
  unfolding time_out_daemon_def
  by (auto simp: and_then_Inr_conv dest!: go_on_frame [OF app_connect_keeps]) (simp add: run_frame_def)

lemma append_key_frame: "on_daemon_append_key env a = Inr b \<Longrightarrow> run_frame a b"
  by (auto simp: on_daemon_append_key_def gebrm_app_continue_connections_of_daemons_def split: if_splits
      dest: continue_frame [OF app_connect_keeps])

end
