(* ===== verification/Gebrm_Launch.thy ===== *)
theory Gebrm_Launch
  imports Gebrm_Machines
begin

text \<open>
  Launching machines: a connection that is asked for always begins, one level of nested handlers is enough, and no
  operation on a machine touches the connection of another one but by launching it.
\<close>

section \<open>One launch\<close>

lemma op_state_run:
  "gebrm_server_op_state_changed d (s\<lparr>state := SERVER_STATE_RUN\<rparr>, w) =
     (s\<lparr>state := SERVER_STATE_RUN\<rparr>, emit (StateChangeSignal d SERVER_STATE_RUN) w)"
  by (simp add: gebrm_server_op_state_changed_def)

text \<open>The application after the handler of the state RUN.\<close>

definition run_state :: "app_env \<Rightarrow> daemon_ref \<Rightarrow> app \<Rightarrow> app" where
  "run_state env d a =
     (let a = (if ap_connect_all a then start_timer d (upd_dm d (gebrm_daemon_set_canceled True) a) else a)
      in fold (\<lambda>c. send_server_status_message env c d (autoconnect (daemons (ap_w a) d)) SERVER_STATE_RUN) (ap_connections a) a)"

lemma on_state_run: "on_state_change_fuel (Suc n) env d SERVER_STATE_RUN a = Inr (run_state env d a)"
  by (simp add: handle_state_change_def run_state_def Let_def)

definition launchable :: "daemon_ref \<Rightarrow> app \<Rightarrow> bool" where
  "launchable d a \<longleftrightarrow> state (conns (ap_w a) d) = SERVER_STATE_DISCONNECTED \<or> state (conns (ap_w a) d) = SERVER_STATE_REDIRECT"

text \<open>The connection of a machine that is launched.\<close>

definition launched_conn :: "server \<Rightarrow> server" where
  "launched_conn s =
     act (StartProvider PORT_TYPE_DAEMON (address s) False (check_host s) (gebr_cookie s))
       ((act (StateChange (state s) SERVER_STATE_RUN) s)\<lparr>state := SERVER_STATE_RUN, is_maestro := False\<rparr>)"

definition launch :: "app_env \<Rightarrow> daemon_ref \<Rightarrow> client_ref \<Rightarrow> app \<Rightarrow> app" where
  "launch env d c a =
     (let a = upd_dm d (\<lambda>dm. dm\<lparr>client := Some c\<rparr>) a; s = conns (ap_w a) d in
      if \<not> launchable d a then a
      else upd_w (upd_conn d (\<lambda>_. launched_conn s))
             (run_state env d (upd_w (emit (StateChangeSignal d SERVER_STATE_RUN)) 
               (upd_w (upd_conn d (\<lambda>_. (act (StateChange (state s) SERVER_STATE_RUN) s)\<lparr>state := SERVER_STATE_RUN\<rparr>)) a))))"

lemma upd_conn_idle: "upd_w (upd_conn d (\<lambda>_. conns (ap_w a) d)) a = a"
  by (simp add: upd_w_def upd_conn_def)

lemma send_status_conns [simp]:
  "conns (ap_w (send_server_status_message env c d ac st a)) = conns (ap_w a)"
  "daemons (ap_w (send_server_status_message env c d ac st a)) = daemons (ap_w a)"
  by (simp_all add: send_server_status_message_def Let_def client_send_def)

lemma fold_send_status [simp]:
  "conns (ap_w (fold (\<lambda>c. send_server_status_message env c d ac st) cs a)) = conns (ap_w a)"
  "daemons (ap_w (fold (\<lambda>c. send_server_status_message env c d ac st) cs a)) = daemons (ap_w a)"
  by (induction cs arbitrary: a) simp_all

lemma upd_dm_sel [simp]:
  "conns (ap_w (upd_dm d f a)) = conns (ap_w a)" "daemons (ap_w (upd_dm d f a)) = (daemons (ap_w a))(d := f (daemons (ap_w a) d))"
  "ap_connections (upd_dm d f a) = ap_connections a" "ap_daemons (upd_dm d f a) = ap_daemons a"
  by (simp_all add: upd_dm_def)

lemma stop_timer_conns [simp]: "conns (ap_w (stop_timer d a)) = conns (ap_w a)" "conns (ap_w (start_timer d a)) = conns (ap_w a)"
  by (simp_all add: stop_timer_def start_timer_def Let_def)

lemma run_state_conns [simp]: "conns (ap_w (run_state env d a)) = conns (ap_w a)"
  by (simp add: run_state_def Let_def)

lemma app_callback_run:
  assumes "\<And>b. H d SERVER_STATE_RUN b = Inr (run_state env d b)"
  shows "app_state_changed H d (s\<lparr>state := SERVER_STATE_RUN\<rparr>, Inr a) =
     (s\<lparr>state := SERVER_STATE_RUN\<rparr>,
      Inr (run_state env d (upd_w (emit (StateChangeSignal d SERVER_STATE_RUN)) (upd_w (upd_conn d (\<lambda>_. s\<lparr>state := SERVER_STATE_RUN\<rparr>)) a))))"
proof -
  have "a\<lparr>ap_w := upd_conn d (\<lambda>_. t) (emit e (ap_w a))\<rparr> = upd_w (emit e) (upd_w (upd_conn d (\<lambda>_. t)) a)" for t e
    by (simp add: upd_w_def upd_conn_def emit_all_def)
  then show ?thesis
    by (simp add: app_state_changed_def op_state_run assms)
qed

lemma comm_connect_run:
  assumes "\<And>b. H d SERVER_STATE_RUN b = Inr (run_state env d b)"
    and "state s = SERVER_STATE_DISCONNECTED \<or> state s = SERVER_STATE_REDIRECT"
  shows "gebr_comm_server_connect (app_state_changed H d) False False (s, Inr a) =
    (launched_conn s, Inr (run_state env d (upd_w (emit (StateChangeSignal d SERVER_STATE_RUN))
       (upd_w (upd_conn d (\<lambda>_. (act (StateChange (state s) SERVER_STATE_RUN) s)\<lparr>state := SERVER_STATE_RUN\<rparr>)) a))))"
proof -
  have "state s \<noteq> SERVER_STATE_RUN" using assms(2) by auto
  then have "gebr_comm_server_change_state (app_state_changed H d) SERVER_STATE_RUN (s, Inr a) =
      app_state_changed H d ((act (StateChange (state s) SERVER_STATE_RUN) s)\<lparr>state := SERVER_STATE_RUN\<rparr>, Inr a)"
    by (simp add: gebr_comm_server_change_state_def Let_def)
  then show ?thesis
    using assms(2) by (auto simp add: gebr_comm_server_connect_def app_callback_run [where H = H and d = d and env = env, OF assms(1)]
        on_server_def launched_conn_def act_def)
qed

lemma connect_launches:
  assumes "\<And>b. H d SERVER_STATE_RUN b = Inr (run_state env d b)"
  shows "connect_with H d c a = Inr (launch env d c a)"
proof -
  define b where "b = upd_dm d (\<lambda>dm. dm\<lparr>client := Some c\<rparr>) a"
  show ?thesis
  proof (cases "launchable d b")
    case False
    then show ?thesis
      by (simp add: connect_with_def app_with_conn_def gebr_comm_server_connect_def launch_def launchable_def upd_conn_idle Let_def
          flip: b_def)
  next
    case True
    then show ?thesis
      using comm_connect_run [where H = H and d = d and env = env and s = "conns (ap_w b) d" and a = b, OF assms]
      by (simp only: launchable_def) (auto simp add: connect_with_def app_with_conn_def launch_def launchable_def Let_def simp flip: b_def)
  qed
qed

lemma app_connect_launches [simp]: "app_connect env d c a = Inr (launch env d c a)"
  unfolding app_connect_def gebrm_app_daemon_on_state_change_def numeral_2_eq_2
  by (rule connect_launches) (rule on_state_run)

lemma connect_fuel: "connect_with (on_state_change_fuel (Suc n) env) = (\<lambda>d c a. Inr (launch env d c a))"
  by (intro ext connect_launches on_state_run)

section \<open>Many launches\<close>

definition launch_all :: "app_env \<Rightarrow> daemon_ref \<Rightarrow> app \<Rightarrow> app" where
  "launch_all env d a = fold (launch env d) (ap_connections a) a"

lemma connect_for_clients_launches [simp]: "connect_for_clients (\<lambda>d c a. Inr (launch env d c a)) d cs a = Inr (fold (launch env d) cs a)"
  by (induction cs arbitrary: a) simp_all

text \<open>What \<open>go_on\<close> and the rest do when connections always begin.\<close>

definition waits :: "daemon_ref \<Rightarrow> app \<Rightarrow> bool" where
  "waits d a \<longleftrightarrow> gebrm_daemon_get_state d (ap_w a) \<noteq> SERVER_STATE_LOGGED \<and>
     (autoconnect (daemons (ap_w a) d) = Some ''on'' \<or> \<not> ap_respect_ac a) \<and> \<not> is_canceled (daemons (ap_w a) d)"

fun continue_app :: "app_env \<Rightarrow> bool \<Rightarrow> daemon_ref list \<Rightarrow> app \<Rightarrow> app" where
  "continue_app env k [] a = a"
| "continue_app env k (d # ds) a =
     (if \<not> k \<and> gebrm_daemon_get_state d (ap_w a) = SERVER_STATE_LOGGED \<and> use_public_key (conns (ap_w a) d) then a
      else if waits d a then (if \<not> k then launch_all env d a else continue_app env k ds (launch_all env d a))
      else continue_app env k ds a)"

lemma continue_launches [simp]:
  "continue_connections (\<lambda>d c a. Inr (launch env d c a)) k ds a = Inr (continue_app env k ds a)"
  by (induction ds arbitrary: a) (auto simp: Let_def waits_def launch_all_def)

definition go_on_app :: "app_env \<Rightarrow> app \<Rightarrow> app" where
  "go_on_app env a = verify_connect_all (continue_app env False (ap_daemons a) a)"

lemma go_on_launches [simp]: "go_on (\<lambda>d c a. Inr (launch env d c a)) a = Inr (go_on_app env a)"
  by (simp add: go_on_def go_on_app_def gebrm_app_continue_connections_of_daemons_def)

lemma reconnect_returns:
  "\<exists>b. connect_for_clients (\<lambda>d c a. Inr (launch env d c (upd_dm d f a))) d cs a = Inr b"
  by (induction cs arbitrary: a) simp_all

text \<open>Two levels suffice, and the handler ends unless displays wait for a machine that is disconnected.\<close>

lemma two_levels: "on_state_change_fuel (Suc (Suc n)) env d st a = handle_state_change (\<lambda>d c a. Inr (launch env d c a)) env d st a"
  by (simp only: on_state_change_fuel.simps(2) connect_fuel)

lemma handler_undefined:
  "handle_state_change (\<lambda>d c a. Inr (launch env d c a)) env d st a = Inl AppUndefined \<longleftrightarrow>
     st = SERVER_STATE_DISCONNECTED \<and> (\<exists>x \<in> set (ap_xauth_queue a). xa_daemon x = d)"
  "handle_state_change (\<lambda>d c a. Inr (launch env d c a)) env d st a \<noteq> Inl AppFuel"
proof -
  let ?c = "\<lambda>d c a. Inr (launch env d c a)"
  have "\<exists>b. disconnected_change ?c d a = Inr b" if "\<not> list_ex (\<lambda>x. xa_daemon x = d) (ap_xauth_queue a)"
    using that reconnect_returns [of env _ d] by (auto simp: disconnected_change_def Let_def split: if_splits)
  then show "handle_state_change ?c env d st a = Inl AppUndefined \<longleftrightarrow>
      st = SERVER_STATE_DISCONNECTED \<and> (\<exists>x \<in> set (ap_xauth_queue a). xa_daemon x = d)" "handle_state_change ?c env d st a \<noteq> Inl AppFuel"
    by (cases st; auto simp: handle_state_change_def Let_def list_ex_iff disconnected_change_def [of _ d a] split: if_splits)+
qed

lemma handler_conv: "gebrm_app_daemon_on_state_change env d st a = handle_state_change (\<lambda>d c a. Inr (launch env d c a)) env d st a"
  unfolding gebrm_app_daemon_on_state_change_def numeral_2_eq_2 by (rule two_levels)


section \<open>Other machines\<close>

lemma launch_conns:
  "conns (ap_w (launch env d c a)) =
     (conns (ap_w a))(d := if launchable d a then launched_conn (conns (ap_w a) d) else conns (ap_w a) d)"
  by (auto simp: launch_def Let_def launchable_def fun_eq_iff)

lemma launched_state [simp]: "state (launched_conn s) = SERVER_STATE_RUN"
  by (simp add: launched_conn_def act_def)

lemma launch_all_conns:
  "conns (ap_w (launch_all env d a)) =
     (conns (ap_w a))(d := if launchable d a \<and> ap_connections a \<noteq> [] then launched_conn (conns (ap_w a) d) else conns (ap_w a) d)"
proof -
  have run: "\<not> launchable d b \<Longrightarrow> conns (ap_w (fold (launch env d) cs b)) = conns (ap_w b)" for cs b
  proof (induction cs arbitrary: b)
    case (Cons c cs)
    then have "\<not> launchable d (launch env d c b)" "conns (ap_w (launch env d c b)) = conns (ap_w b)"
      by (simp_all add: launchable_def launch_conns)
    with Cons.IH show ?case by simp
  qed simp
  show ?thesis
  proof (cases "ap_connections a")
    case (Cons c cs)
    have "\<not> launchable d (launch env d c a)" by (auto simp: launchable_def launch_conns)
    from run [OF this, of cs] show ?thesis by (simp add: launch_all_def Cons launch_conns)
  qed (simp add: launch_all_def)
qed

text \<open>A round of \<open>continue_connections\<close> launches one machine at most, and only one that waits for it.\<close>

definition one_launched :: "daemon_ref list \<Rightarrow> app \<Rightarrow> app \<Rightarrow> bool" where
  "one_launched ds a b \<longleftrightarrow> conns (ap_w b) = conns (ap_w a) \<or>
     (\<exists>d \<in> set ds. waits d a \<and> launchable d a \<and>
        conns (ap_w b) = (conns (ap_w a))(d := launched_conn (conns (ap_w a) d)))"

lemma continue_one: "one_launched ds a (continue_app env False ds a)"
proof (induction ds)
  case (Cons d ds)
  consider (stop) "gebrm_daemon_get_state d (ap_w a) = SERVER_STATE_LOGGED \<and> use_public_key (conns (ap_w a) d)"
    | (go) "\<not> (gebrm_daemon_get_state d (ap_w a) = SERVER_STATE_LOGGED \<and> use_public_key (conns (ap_w a) d))" "waits d a"
    | (skip) "\<not> (gebrm_daemon_get_state d (ap_w a) = SERVER_STATE_LOGGED \<and> use_public_key (conns (ap_w a) d))" "\<not> waits d a"
    by blast
  then show ?case
  proof cases
    case go
    then have "continue_app env False (d # ds) a = launch_all env d a" by (subst continue_app.simps) auto
    then show ?thesis
      using go(2) by (cases "launchable d a \<and> ap_connections a \<noteq> []") (simp_all add: one_launched_def launch_all_conns fun_upd_triv del: continue_app.simps)
  next
    case skip
    then have "continue_app env False (d # ds) a = continue_app env False ds a" by (subst continue_app.simps) auto
    then show ?thesis using Cons by (simp add: one_launched_def del: continue_app.simps) blast
  qed (simp add: one_launched_def)
qed (simp add: one_launched_def)

lemma verify_conns [simp]: "conns (ap_w (verify_connect_all a)) = conns (ap_w a)"
  by (simp add: verify_connect_all_def)

lemma go_on_one: "one_launched (ap_daemons a) a (go_on_app env a)"
  using continue_one [of "ap_daemons a" a env] by (simp add: go_on_app_def one_launched_def)

end
