(* ===== verification/Gebrm_Domain.thy ===== *)
theory Gebrm_Domain
  imports Gebrm_Launch
begin

text \<open>
  Which machines the maestro works with: they are launched one at a time, daemons of another domain are refused, busy
  machines are not disconnected without a confirmation, and the faults of the list of machines.
\<close>

section \<open>One at a time\<close>

lemma timer_daemons [simp]:
  "daemons (ap_w (stop_timer d a)) = (daemons (ap_w a))(d := (daemons (ap_w a) d)\<lparr>timeout := - 1\<rparr>)"
  "daemons (ap_w (start_timer d a)) = (daemons (ap_w a))(d := (daemons (ap_w a) d)\<lparr>timeout := ap_next_source a\<rparr>)"
  by (auto simp: stop_timer_def start_timer_def gebrm_daemon_set_timeout_def fun_eq_iff Let_def)

lemma timer_app [simp]:
  "ap_connect_all (stop_timer d a) = ap_connect_all a" "ap_connections (stop_timer d a) = ap_connections a"
  "ap_daemons (stop_timer d a) = ap_daemons a" "ap_connect_all (upd_dm d f a) = ap_connect_all a" "ap_xauth_queue (upd_dm d f a) = ap_xauth_queue a"
  "ap_nfsid (upd_dm d f a) = ap_nfsid a" "ap_conf (upd_dm d f a) = ap_conf a" "ap_xauth_queue (stop_timer d a) = ap_xauth_queue a"
  "ap_nfsid (stop_timer d a) = ap_nfsid a" "ap_conf (stop_timer d a) = ap_conf a" "ap_respect_ac (stop_timer d a) = ap_respect_ac a"
  "ap_respect_ac (upd_dm d f a) = ap_respect_ac a"
  "ap_connect_all (start_timer d a) = ap_connect_all a" "ap_connections (start_timer d a) = ap_connections a"
  "ap_daemons (start_timer d a) = ap_daemons a" "ap_xauth_queue (start_timer d a) = ap_xauth_queue a"
  "ap_nfsid (start_timer d a) = ap_nfsid a" "ap_conf (start_timer d a) = ap_conf a" "ap_respect_ac (start_timer d a) = ap_respect_ac a"
  by (simp_all add: stop_timer_def start_timer_def upd_dm_def Let_def upd_w_def)

text \<open>What a launch leaves alone beside the connection.\<close>

definition machine_frame :: "app \<Rightarrow> app \<Rightarrow> bool" where
  "machine_frame a b \<longleftrightarrow>
     ap_daemons b = ap_daemons a \<and> ap_connections b = ap_connections a \<and> ap_nfsid b = ap_nfsid a \<and> ap_conf b = ap_conf a \<and>
     ap_xauth_queue b = ap_xauth_queue a \<and> ap_respect_ac b = ap_respect_ac a \<and>
     (\<forall>k. reconnect (daemons (ap_w b) k) = reconnect (daemons (ap_w a) k) \<and>
          error_type (daemons (ap_w b) k) = error_type (daemons (ap_w a) k) \<and>
          nfsid (daemons (ap_w b) k) = nfsid (daemons (ap_w a) k) \<and>
          (is_canceled (daemons (ap_w a) k) \<longrightarrow> is_canceled (daemons (ap_w b) k)))"

lemma machine_frame_refl [simp]: "machine_frame a a"
  by (simp add: machine_frame_def)

lemma machine_frame_trans [trans]: "machine_frame a b \<Longrightarrow> machine_frame b c \<Longrightarrow> machine_frame a c"
  by (simp add: machine_frame_def)

lemma send_status_app [simp]:
  "ap_daemons (send_server_status_message env c d ac st a) = ap_daemons a"
  "ap_connections (send_server_status_message env c d ac st a) = ap_connections a"
  "ap_nfsid (send_server_status_message env c d ac st a) = ap_nfsid a" "ap_conf (send_server_status_message env c d ac st a) = ap_conf a"
  "ap_xauth_queue (send_server_status_message env c d ac st a) = ap_xauth_queue a"
  "ap_respect_ac (send_server_status_message env c d ac st a) = ap_respect_ac a"
  "ap_connect_all (send_server_status_message env c d ac st a) = ap_connect_all a"
  by (simp_all add: send_server_status_message_def Let_def client_send_def upd_w_def)

lemma fold_status_frame: "machine_frame a (fold (\<lambda>c. send_server_status_message env c d ac st) cs a)"
proof (induction cs arbitrary: a)
  case (Cons c cs)
  have "machine_frame a (send_server_status_message env c d ac st a)" by (simp add: machine_frame_def)
  then show ?case using Cons.IH by (auto intro: machine_frame_trans)
qed simp

lemma upd_dm_machine:
  assumes "reconnect (f dm) = reconnect dm" "error_type (f dm) = error_type dm" "nfsid (f dm) = nfsid dm"
    "is_canceled dm \<longrightarrow> is_canceled (f dm)" "dm = daemons (ap_w a) d"
  shows "machine_frame a (upd_dm d f a)"
  using assms by (simp add: machine_frame_def)

lemma start_timer_machine [simp]: "machine_frame a (start_timer d a)" "machine_frame a (stop_timer d a)"
  by (simp_all add: machine_frame_def)

lemma upd_conn_machine [simp]: "machine_frame a (upd_w (upd_conn d f) a)" "machine_frame a (upd_w (emit e) a)"
  by (simp_all add: machine_frame_def upd_w_def)

lemma run_state_machine [simp]: "machine_frame a (run_state env d a)"
proof -
  have "machine_frame a (upd_dm d (gebrm_daemon_set_canceled True) a)"
    by (rule upd_dm_machine) (simp_all add: gebrm_daemon_set_canceled_def)
  then have "machine_frame a (if ap_connect_all a then start_timer d (upd_dm d (gebrm_daemon_set_canceled True) a) else a)"
    using machine_frame_trans [OF _ start_timer_machine(1)] by simp
  then show ?thesis unfolding run_state_def Let_def by (rule machine_frame_trans [OF _ fold_status_frame])
qed

lemma launch_machine [simp]: "machine_frame a (launch env d c a)"
proof -
  let ?a = "upd_dm d (\<lambda>dm. dm\<lparr>client := Some c\<rparr>) a"
  have "machine_frame a ?a" by (rule upd_dm_machine) simp_all
  moreover have "machine_frame ?a (launch env d c a)"
    unfolding launch_def Let_def using machine_frame_trans [OF machine_frame_trans [OF machine_frame_trans
        [OF upd_conn_machine(1) upd_conn_machine(2)] run_state_machine] upd_conn_machine(1)] by simp
  ultimately show ?thesis by (rule machine_frame_trans)
qed

lemma launch_all_machine [simp]: "machine_frame a (launch_all env d a)"
proof -
  have "machine_frame a (fold (launch env d) cs a)" for cs
    by (induction cs arbitrary: a) (auto intro: machine_frame_trans [OF launch_machine])
  then show ?thesis by (simp add: launch_all_def)
qed

lemma continue_machine [simp]: "machine_frame a (continue_app env k ds a)"
proof (induction ds arbitrary: a)
  case (Cons d ds)
  have "machine_frame a (continue_app env k ds (launch_all env d a))" using Cons by (rule machine_frame_trans [OF launch_all_machine])
  with Cons show ?case by (cases k) simp_all
qed simp

lemma verify_machine [simp]: "machine_frame a (verify_connect_all a)"
  by (simp add: verify_connect_all_def machine_frame_def)

lemma go_on_machine [simp]: "machine_frame a (go_on_app env a)"
  unfolding go_on_app_def by (rule machine_frame_trans [OF continue_machine verify_machine])

lemma go_on_same: "one_launched (ap_daemons a) a b \<Longrightarrow>
    \<exists>e. (\<forall>k. k \<noteq> e \<longrightarrow> conns (ap_w b) k = conns (ap_w a) k) \<and>
       (conns (ap_w b) e = conns (ap_w a) e \<or> e \<in> set (ap_daemons a) \<and> waits e a \<and> conns (ap_w b) e = launched_conn (conns (ap_w a) e))"
  by (auto simp: one_launched_def)

lemma fold_status_app [simp]:
  "conns (ap_w (fold (\<lambda>c. send_server_status_message env c d ac st) cs a)) = conns (ap_w a)"
  by (induction cs arbitrary: a) simp_all

text \<open>What the handler of a change of state does to connections, when no machine is to be reconnected.\<close>

lemma handler_conns:
  assumes "gebrm_app_daemon_on_state_change env d st a = Inr b" "\<not> reconnect (daemons (ap_w a) d)"
  shows "conns (ap_w b) = conns (ap_w a) \<or>
    (\<exists>a'. conns (ap_w a') = conns (ap_w a) \<and> ap_daemons a' = ap_daemons a \<and> ap_respect_ac a' = ap_respect_ac a \<and>
       (\<forall>k. k \<noteq> d \<longrightarrow> daemons (ap_w a') k = daemons (ap_w a) k) \<and>
       (st = SERVER_STATE_DISCONNECTED \<longrightarrow> is_canceled (daemons (ap_w a') d)) \<and>
       conns (ap_w b) = conns (ap_w (go_on_app env a')))"
proof -
  let ?c = "\<lambda>d c a. Inr (launch env d c a)"
  note run = assms(1) [unfolded handler_conv handle_state_change_def]
  show ?thesis
  proof (cases st)
    case SERVER_STATE_DISCONNECTED
    define a1 where "a1 = (if error_type (daemons (ap_w a) d) \<noteq> None
      then upd_dm d (gebrm_daemon_set_canceled True) (stop_timer d a) else a)"
    have a1: "conns (ap_w a1) = conns (ap_w a)" "ap_daemons a1 = ap_daemons a" "ap_respect_ac a1 = ap_respect_ac a"
      "k \<noteq> d \<Longrightarrow> daemons (ap_w a1) k = daemons (ap_w a) k" "\<not> reconnect (daemons (ap_w a1) d)" for k
      using assms(2) by (simp_all add: a1_def gebrm_daemon_set_canceled_def)
    show ?thesis
    proof (cases "is_canceled (daemons (ap_w a1) d) \<and> ap_connect_all a1")
      case True
      have "\<not> reconnect (daemons (ap_w (go_on_app env a1)) d)" using a1(5) go_on_machine [of a1 env] unfolding machine_frame_def by blast
      then have "disconnected_change ?c d a = Inr x \<Longrightarrow> x = go_on_app env a1" for x
        using True unfolding disconnected_change_def a1_def [symmetric] by (auto simp: Let_def split: if_splits)
      then have "conns (ap_w b) = conns (ap_w (go_on_app env a1))" using run SERVER_STATE_DISCONNECTED by (auto simp: and_then_Inr_conv)
      then show ?thesis using True a1 by blast
    next
      case False
      then have "disconnected_change ?c d a = Inr x \<Longrightarrow> x = a1" for x
        using a1(5) unfolding disconnected_change_def a1_def [symmetric] by (auto simp: Let_def split: if_splits)
      then show ?thesis using run SERVER_STATE_DISCONNECTED a1(1) by (auto simp: and_then_Inr_conv)
    qed
  next
    case SERVER_STATE_LOGGED
    let ?a = "upd_dm d (gebrm_daemon_set_canceled False) (stop_timer d a)"
    have "ap_connect_all ?a \<Longrightarrow> conns (ap_w b) = conns (ap_w (go_on_app env ?a))" "\<not> ap_connect_all ?a \<Longrightarrow> conns (ap_w b) = conns (ap_w a)"
      using run SERVER_STATE_LOGGED by (auto simp: and_then_Inr_conv Let_def split: if_splits)
    then show ?thesis using SERVER_STATE_LOGGED by (cases "ap_connect_all ?a") (auto intro!: exI [of _ ?a])
  qed (use run in \<open>auto simp: and_then_Inr_conv split: if_splits\<close>)
qed

lemma one_machine_launched:
  assumes "gebrm_app_daemon_on_state_change env d st a = Inr b" "st = state (conns (ap_w a) d)" "\<not> reconnect (daemons (ap_w a) d)"
  shows "\<exists>e. e \<noteq> d \<and> (\<forall>k. k \<noteq> e \<longrightarrow> conns (ap_w b) k = conns (ap_w a) k) \<and>
    (conns (ap_w b) e = conns (ap_w a) e \<or>
     e \<in> set (ap_daemons a) \<and> waits e a \<and> launchable e a \<and> conns (ap_w b) e = launched_conn (conns (ap_w a) e))"
  using handler_conns [OF assms(1,3)]
proof (elim disjE exE conjE)
  assume "conns (ap_w b) = conns (ap_w a)"
  then show ?thesis by (intro exI [of _ "Suc d"]) simp
next
  fix a' assume a': "conns (ap_w a') = conns (ap_w a)" "ap_daemons a' = ap_daemons a" "ap_respect_ac a' = ap_respect_ac a"
    "\<forall>k. k \<noteq> d \<longrightarrow> daemons (ap_w a') k = daemons (ap_w a) k"
    "st = SERVER_STATE_DISCONNECTED \<longrightarrow> is_canceled (daemons (ap_w a') d)" "conns (ap_w b) = conns (ap_w (go_on_app env a'))"
  from go_on_one [of a' env] consider "conns (ap_w b) = conns (ap_w a)"
    | e where "e \<in> set (ap_daemons a)" "waits e a'" "launchable e a'" "conns (ap_w b) = (conns (ap_w a))(e := launched_conn (conns (ap_w a) e))"
    unfolding one_launched_def a'(1,2) a'(6) [symmetric] by blast
  then show ?thesis
  proof cases
    case 2
    have "e \<noteq> d"
    proof
      assume "e = d"
      then have "st = SERVER_STATE_DISCONNECTED \<or> st = SERVER_STATE_REDIRECT" "\<not> is_canceled (daemons (ap_w a') d)"
        using 2(2,3) assms(2) a'(1) by (simp_all add: launchable_def waits_def)
      then have "st = SERVER_STATE_REDIRECT" using a'(5) by auto
      then have "conns (ap_w b) = conns (ap_w a)" using assms(1) by (auto simp: handler_conv handle_state_change_def)
      then have "launched_conn (conns (ap_w a) d) = conns (ap_w a) d" using 2(4) \<open>e = d\<close> by (metis fun_upd_same)
      then have "state (conns (ap_w a) d) = SERVER_STATE_RUN" by (metis launched_state)
      then show False using assms(2) \<open>st = SERVER_STATE_REDIRECT\<close> by simp
    qed
    then have "waits e a" "launchable e a"
      using 2(2,3) a' by (simp_all add: waits_def launchable_def gebrm_daemon_get_state_def)
    then show ?thesis using 2(1,4) \<open>e \<noteq> d\<close> by (intro exI [of _ e]) simp
  qed (auto intro!: exI [of _ "Suc d"])
qed

section \<open>Disconnection\<close>

text \<open>The state of a connection after \<open>gebr_comm_server_disconnect\<close>, for a callback that leaves it alone.\<close>

lemma app_callback_state:
  assumes "snd su = Inr a" "state (fst su) = SERVER_STATE_DISCONNECTED" "\<not> reconnect (daemons (ap_w a) d)"
    and "snd (state_changed env d su) = Inr b"
  shows "state (fst (state_changed env d su)) = SERVER_STATE_DISCONNECTED"
proof -
  obtain s w where sw: "gebrm_server_op_state_changed d (fst su, ap_w a) = (s, w)" by fastforce
  let ?b = "a\<lparr>ap_w := upd_conn d (\<lambda>_. s) w\<rparr>"
  have s: "state s = SERVER_STATE_DISCONNECTED" using op_state_world(6) [of d "(fst su, ap_w a)"] sw assms(2) by simp
  have r: "\<not> reconnect (daemons w d)"
    using sw assms(2,3) by (auto simp: gebrm_server_op_state_changed_def Let_def gebrm_daemon_set_error_msg_def
        gebrm_daemon_set_error_type_def upd_daemon_def emit_all_def split: if_splits)
  obtain c where c: "gebrm_app_daemon_on_state_change env d (state s) ?b = Inr c" "state_changed env d su = (conns (ap_w c) d, Inr c)"
    using assms(1,4) sw unfolding state_changed_def app_state_changed_def by (auto split: sum.splits)
  from one_machine_launched [OF c(1)] s r have "conns (ap_w c) d = s" by auto
  then show ?thesis using c(2) s by simp
qed

definition domain_frame :: "app \<Rightarrow> app \<Rightarrow> bool" where
  "domain_frame a b \<longleftrightarrow>
     ap_daemons b = ap_daemons a \<and> ap_connections b = ap_connections a \<and> ap_nfsid b = ap_nfsid a \<and> ap_conf b = ap_conf a \<and>
     ap_xauth_queue b = ap_xauth_queue a \<and>
     (\<forall>k. (reconnect (daemons (ap_w b) k) \<longrightarrow> reconnect (daemons (ap_w a) k)) \<and>
          nfsid (daemons (ap_w b) k) = nfsid (daemons (ap_w a) k))"

lemma domain_frame_refl [simp]: "domain_frame a a"
  by (simp add: domain_frame_def)

lemma domain_frame_trans [trans]: "domain_frame a b \<Longrightarrow> domain_frame b c \<Longrightarrow> domain_frame a c"
  by (simp add: domain_frame_def)

lemma machine_domain: "machine_frame a b \<Longrightarrow> domain_frame a b"
  by (simp add: machine_frame_def domain_frame_def)

lemma upd_dm_domain:
  assumes "\<And>dm. reconnect (f dm) \<Longrightarrow> reconnect dm" "\<And>dm. nfsid (f dm) = nfsid dm"
  shows "domain_frame a (upd_dm d f a)"
  using assms by (simp add: domain_frame_def)

lemma reconnect_domain:
  assumes "connect_for_clients (\<lambda>d c a. Inr (launch env d c (upd_dm d (gebrm_daemon_set_reconnect False) a))) d cs a = Inr b"
  shows "domain_frame a b"
  using assms
proof (induction cs arbitrary: a)
  case (Cons c cs)
  have "domain_frame a (launch env d c (upd_dm d (gebrm_daemon_set_reconnect False) a))"
    by (rule domain_frame_trans [OF upd_dm_domain machine_domain [OF launch_machine]]) (simp_all add: gebrm_daemon_set_reconnect_def)
  moreover have "domain_frame (launch env d c (upd_dm d (gebrm_daemon_set_reconnect False) a)) b"
    using Cons by simp
  ultimately show ?case by (rule domain_frame_trans)
qed simp

lemma disconnected_domain:
  assumes "disconnected_change (\<lambda>d c a. Inr (launch env d c a)) d a = Inr b"
  shows "domain_frame a b"
proof -
  define a1 where "a1 = (if error_type (daemons (ap_w a) d) \<noteq> None
    then upd_dm d (gebrm_daemon_set_canceled True) (stop_timer d a) else a)"
  have "domain_frame (stop_timer d a) (upd_dm d (gebrm_daemon_set_canceled True) (stop_timer d a))"
    by (rule upd_dm_domain) (simp_all add: gebrm_daemon_set_canceled_def)
  from domain_frame_trans [OF machine_domain [OF start_timer_machine(2)] this] have 1: "domain_frame a a1" by (simp add: a1_def)
  define a2 where "a2 = (if is_canceled (daemons (ap_w a1) d) \<and> ap_connect_all a1 then go_on_app env a1 else a1)"
  have 2: "domain_frame a1 a2" by (simp add: a2_def machine_domain)
  have "(if error_type (daemons (ap_w a2) d) = None \<and> reconnect (daemons (ap_w a2) d)
      then connect_for_clients (\<lambda>d c a. Inr (launch env d c (upd_dm d (gebrm_daemon_set_reconnect False) a))) d (ap_connections a2) a2
      else Inr a2) = Inr b"
    using assms unfolding disconnected_change_def a1_def [symmetric] Let_def
    by (cases "is_canceled (daemons (ap_w a1) d) \<and> ap_connect_all a1") (auto simp: a2_def split: if_splits)
  then have "domain_frame a2 b" using reconnect_domain by (auto split: if_splits)
  with 1 2 show ?thesis by (blast intro: domain_frame_trans)
qed

lemma handler_domain:
  assumes "gebrm_app_daemon_on_state_change env d st a = Inr b"
  shows "domain_frame a b"
proof -
  note run = assms [unfolded handler_conv handle_state_change_def]
  have st: "domain_frame x (fold (\<lambda>c. send_server_status_message env c d ac st) cs x)" for x ac cs
    by (rule machine_domain) (rule fold_status_frame)
  show ?thesis
  proof (cases st)
    case SERVER_STATE_DISCONNECTED
    have "\<exists>x. disconnected_change (\<lambda>d c a. Inr (launch env d c a)) d a = Inr x \<and>
      b = fold (\<lambda>c. send_server_status_message env c d (autoconnect (daemons (ap_w x) d)) st) (ap_connections x) x"
      using run unfolding SERVER_STATE_DISCONNECTED and_then_Inr_conv server_state.case sum.inject by blast
    then obtain x where x: "disconnected_change (\<lambda>d c a. Inr (launch env d c a)) d a = Inr x"
      "b = fold (\<lambda>c. send_server_status_message env c d (autoconnect (daemons (ap_w x) d)) st) (ap_connections x) x" by blast
    show ?thesis unfolding x(2) by (rule domain_frame_trans [OF disconnected_domain [OF x(1)] st])
  next
    case SERVER_STATE_RUN
    have "domain_frame a (upd_dm d (gebrm_daemon_set_canceled True) a)"
      by (rule upd_dm_domain) (simp_all add: gebrm_daemon_set_canceled_def)
    then have t: "domain_frame a (start_timer d (upd_dm d (gebrm_daemon_set_canceled True) a))"
      using machine_domain [OF start_timer_machine(1)] domain_frame_trans by blast
    define x where "x = (if ap_connect_all a then start_timer d (upd_dm d (gebrm_daemon_set_canceled True) a) else a)"
    have "domain_frame a x" using t by (simp add: x_def)
    moreover have "b = fold (\<lambda>c. send_server_status_message env c d (autoconnect (daemons (ap_w x) d)) st) (ap_connections x) x"
      using run SERVER_STATE_RUN by (simp add: x_def)
    ultimately show ?thesis by (simp only:) (rule domain_frame_trans [OF _ st])
  next
    case SERVER_STATE_LOGGED
    let ?a = "upd_dm d (gebrm_daemon_set_canceled False) (stop_timer d a)"
    have "domain_frame (stop_timer d a) ?a" by (rule upd_dm_domain) (simp_all add: gebrm_daemon_set_canceled_def)
    then have "domain_frame a ?a" using machine_domain [OF start_timer_machine(2)] domain_frame_trans by blast
    moreover have "domain_frame ?a (go_on_app env ?a)" by (simp add: machine_domain)
    moreover define x where "x = (if ap_connect_all ?a then go_on_app env ?a else ?a)"
    ultimately have "domain_frame a x" using domain_frame_trans by (cases "ap_connect_all ?a") auto
    moreover have "b = fold (\<lambda>c. send_server_status_message env c d (autoconnect (daemons (ap_w x) d)) st) (ap_connections x) x"
      using run SERVER_STATE_LOGGED by (simp add: x_def Let_def split: if_splits)
    ultimately show ?thesis by (simp only:) (rule domain_frame_trans [OF _ st])
  qed (use run st in \<open>auto simp: and_then_Inr_conv\<close>)
qed

lemma op_state_daemons:
  "nfsid (daemons (snd (gebrm_server_op_state_changed d su)) k) = nfsid (daemons (snd su) k)"
  "reconnect (daemons (snd (gebrm_server_op_state_changed d su)) k) = reconnect (daemons (snd su) k)"
  by (simp_all add: gebrm_server_op_state_changed_def Let_def gebrm_daemon_set_error_msg_def gebrm_daemon_set_error_type_def
      upd_daemon_def emit_all_def split: prod.split)

interpretation app_domain: user_relation "state_changed env d" "outcome_rel domain_frame" for env d
proof
  fix su
  show "outcome_rel domain_frame (snd su) (snd (state_changed env d su))"
  proof (cases "snd su")
    case (Inr a)
    obtain s w where sw: "gebrm_server_op_state_changed d (fst su, ap_w a) = (s, w)" by fastforce
    let ?b = "a\<lparr>ap_w := upd_conn d (\<lambda>_. s) w\<rparr>"
    have "domain_frame a ?b" using op_state_daemons [of d "(fst su, ap_w a)"] sw by (simp add: domain_frame_def)
    then show ?thesis
      using handler_domain [of env d "state s" ?b] Inr sw
      by (auto simp: outcome_rel_def state_changed_def app_state_changed_def split: sum.splits dest: domain_frame_trans)
  qed (simp add: outcome_rel_def state_changed_def app_state_changed_def)
qed (simp add: outcome_rel_def, unfold outcome_rel_def, blast intro: domain_frame_trans)

lemma change_to_disconnected:
  assumes "gebr_comm_server_change_state (state_changed env d) SERVER_STATE_DISCONNECTED su = (s, Inr b)"
    "snd su = Inr a" "\<not> reconnect (daemons (ap_w a) d)"
  shows "state s = SERVER_STATE_DISCONNECTED"
proof (cases "state (fst su) = SERVER_STATE_DISCONNECTED")
  case True
  then show ?thesis using assms(1) by (simp add: gebr_comm_server_change_state_def)
next
  case False
  then obtain s1 where s1: "state_changed env d (s1, Inr a) = (s, Inr b)" "state s1 = SERVER_STATE_DISCONNECTED"
    using assms(1,2) by (auto simp: gebr_comm_server_change_state_def Let_def)
  then show ?thesis using app_callback_state [of "(s1, Inr a)" a d env b] assms(3) by simp
qed

lemma server_disconnect_state:
  assumes "gebr_comm_server_disconnect (state_changed env d) (s0, Inr a) = (s, Inr b)" "\<not> reconnect (daemons (ap_w a) d)"
  shows "state s = SERVER_STATE_DISCONNECTED"
proof (cases "state s0 = SERVER_STATE_CONNECT \<or> state s0 = SERVER_STATE_LOGGED")
  case False
  then show ?thesis using assms change_to_disconnected [of env d "(s0, Inr a)" s b a] by (simp add: gebr_comm_server_disconnect_def)
next
  case True
  then obtain s1 where "gebr_comm_server_free_for_reuse (state_changed env d) (s1, Inr a) = (s, Inr b)"
    using assms(1) by (auto simp: gebr_comm_server_disconnect_def gebr_comm_server_socket_disconnected_def on_server_def)
  then obtain s2 s3 where "gebr_comm_server_change_state (state_changed env d) SERVER_STATE_DISCONNECTED (s2, Inr a) = (s3, Inr b)"
    "state s = state s3"
    unfolding gebr_comm_server_free_for_reuse_def on_server_def by (auto simp: prod_eq_iff)
  then show ?thesis using change_to_disconnected [of env d "(s2, Inr a)" s3 b a] assms(2) by simp
qed

text \<open>A disconnected machine: its state, the other members of the application, and that it always ends.\<close>

lemma app_disconnect_result:
  assumes "app_disconnect env d a = Inr b" "\<not> reconnect (daemons (ap_w a) d)"
  shows "state (conns (ap_w b) d) = SERVER_STATE_DISCONNECTED" "nfsid (daemons (ap_w b) d) = None" "ap_nfsid b = ap_nfsid a"
    "ap_conf b = ap_conf a" "ap_daemons b = ap_daemons a" "ap_connections b = ap_connections a"
proof -
  define a1 where "a1 = upd_w (upd_conn d (gebr_comm_protocol_socket_oldmsg_send harakiri_def []))
    (upd_dm d (\<lambda>dm. dm\<lparr>nfsid := None, daemon_id := None\<rparr>) a)"
  obtain s c where run: "gebr_comm_server_disconnect (state_changed env d) (conns (ap_w a1) d, Inr a1) = (s, Inr c)"
    "b = upd_w (upd_conn d (\<lambda>_. s)) c"
    using assms(1) unfolding app_disconnect_def a1_def [symmetric] app_with_conn_def by (auto simp: and_then_Inr_conv split: prod.splits)
  have a1: "\<not> reconnect (daemons (ap_w a1) d)" "nfsid (daemons (ap_w a1) d) = None" "ap_nfsid a1 = ap_nfsid a"
    "ap_conf a1 = ap_conf a" "ap_daemons a1 = ap_daemons a" "ap_connections a1 = ap_connections a"
    using assms(2) by (simp_all add: a1_def upd_dm_def upd_w_def)
  have "outcome_rel domain_frame (Inr a1) (Inr c)"
    using app_domain.rel_disconnect [of "(conns (ap_w a1) d, Inr a1)" env d] run(1) by simp
  then have f: "domain_frame a1 c" by (rule outcome_relD)
  show "state (conns (ap_w b) d) = SERVER_STATE_DISCONNECTED" using server_disconnect_state [OF run(1) a1(1)] by (simp add: run(2))
  show "nfsid (daemons (ap_w b) d) = None" "ap_nfsid b = ap_nfsid a" "ap_conf b = ap_conf a" "ap_daemons b = ap_daemons a"
    "ap_connections b = ap_connections a"
    using f a1(2-) by (simp_all add: run(2) domain_frame_def upd_w_def)
qed

lemma callback_returns:
  assumes "\<forall>x \<in> set (ap_xauth_queue a). xa_daemon x \<noteq> d"
  shows "\<exists>s b. state_changed env d (s0, Inr a) = (s, Inr b)"
proof -
  obtain s w where sw: "gebrm_server_op_state_changed d (s0, ap_w a) = (s, w)" by fastforce
  let ?b = "a\<lparr>ap_w := upd_conn d (\<lambda>_. s) w\<rparr>"
  obtain c where "gebrm_app_daemon_on_state_change env d (state s) ?b = Inr c"
    using handler_undefined [of env d "state s" ?b] assms unfolding handler_conv
    by (cases "handle_state_change (\<lambda>d c a. Inr (launch env d c a)) env d (state s) ?b";
        cases "projl (handle_state_change (\<lambda>d c a. Inr (launch env d c a)) env d (state s) ?b)") auto
  then show ?thesis using sw by (simp add: state_changed_def app_state_changed_def)
qed

lemma app_disconnect_returns:
  assumes "\<forall>x \<in> set (ap_xauth_queue a). xa_daemon x \<noteq> d"
  shows "\<exists>b. app_disconnect env d a = Inr b"
proof -
  define a1 where "a1 = upd_w (upd_conn d (gebr_comm_protocol_socket_oldmsg_send harakiri_def []))
    (upd_dm d (\<lambda>dm. dm\<lparr>nfsid := None, daemon_id := None\<rparr>) a)"
  have q: "\<forall>x \<in> set (ap_xauth_queue a1). xa_daemon x \<noteq> d" using assms by (simp add: a1_def upd_dm_def upd_w_def)
  have c: "\<exists>s b. gebr_comm_server_change_state (state_changed env d) SERVER_STATE_DISCONNECTED (s0, Inr a1) = (s, Inr b)" for s0
    using callback_returns [OF q] by (auto simp: gebr_comm_server_change_state_def Let_def)
  have "\<exists>s b. gebr_comm_server_disconnect (state_changed env d) (conns (ap_w a1) d, Inr a1) = (s, Inr b)"
    unfolding gebr_comm_server_disconnect_def gebr_comm_server_socket_disconnected_def gebr_comm_server_free_for_reuse_def on_server_def
    using c by (auto simp: split_beta) (metis snd_conv)+
  then show ?thesis unfolding app_disconnect_def a1_def [symmetric] app_with_conn_def by auto
qed

end
