(* ===== verification/Gebrm_Steps.thy ===== *)
theory Gebrm_Steps
  imports Gebrm_Runs
begin

text \<open>
  The life of the queue of runs: the invariant of the application over requests for runs, answers of machines and
  changes of jobs, the order in which runs start, and the run that blocks all others.
\<close>

section \<open>The invariant\<close>

text \<open>
  The runners that live know their job by an id of the table, ids are the numbers given so far, and the numbers of
  future objects are free.
\<close>

definition known_runs :: "app \<Rightarrow> bool" where
  "known_runs a \<longleftrightarrow>
     (\<forall>r j i. run_key a r = Some (j, i) \<longrightarrow>
        r < ap_next_runner a \<and> j < ap_next_job a \<and> (\<exists>k. i = Some k \<and> job_table (ap_w a) k = Some j)) \<and>
     (\<forall>k j. job_table (ap_w a) k = Some j \<longrightarrow>
        j < ap_next_job a \<and> (\<exists>m. 0 \<le> m \<and> m < next_job_id (ap_w a) \<and> k = show_int m)) \<and>
     0 \<le> next_job_id (ap_w a)"

text \<open>
  The queue holds every runner once, all of them alive and none of them waiting for a job; only the first one can have
  been asked to start, and no runner that waits for a job was asked.
\<close>

definition wf_app :: "app \<Rightarrow> bool" where
  "wf_app a \<longleftrightarrow>
     wf_children a \<and> unasked_but {} a \<and> known_runs a \<and> distinct (ap_run_queue a) \<and>
     (\<forall>r \<in> set (ap_run_queue a). ap_runners a r \<noteq> None \<and> r \<notin> waiting a 0) \<and>
     (\<forall>r \<in> set (tl (ap_run_queue a)). \<not> run_asked a r)"

lemma wf_app_sel:
  assumes "wf_app a"
  shows "wf_children a" "unasked_but {} a" "known_runs a" "distinct (ap_run_queue a)"
    "r \<in> set (ap_run_queue a) \<Longrightarrow> ap_runners a r \<noteq> None" "r \<in> set (ap_run_queue a) \<Longrightarrow> r \<notin> waiting a 0"
    "r \<in> set (tl (ap_run_queue a)) \<Longrightarrow> \<not> run_asked a r"
  using assms by (simp_all add: wf_app_def)

lemma waiting_unasked: "unasked_but {} a \<Longrightarrow> r \<in> waiting a 0 \<Longrightarrow> \<not> run_asked a r"
  unfolding unasked_but_def waiting_def by blast

text \<open>What the invariant reads.\<close>

lemma wf_app_cong:
  assumes "wf_app a" "ap_children b = ap_children a" "ap_runners b = ap_runners a" "ap_run_queue b = ap_run_queue a"
    "ap_next_job b = ap_next_job a" "ap_next_runner b = ap_next_runner a" "job_table (ap_w b) = job_table (ap_w a)"
    "next_job_id (ap_w b) = next_job_id (ap_w a)"
  shows "wf_app b"
proof -
  have "run_key b = run_key a" using assms(3) by (simp add: run_key_def fun_eq_iff)
  moreover have "run_asked b = run_asked a" using assms(3) by (simp add: run_asked_def fun_eq_iff)
  ultimately have eqs: "wf_children b = wf_children a" "unasked_but {} b = unasked_but {} a" "known_runs b = known_runs a"
    "waiting b 0 = waiting a 0"
    unfolding wf_children_def unasked_but_def known_runs_def waiting_def assms(2-) by simp_all
  show ?thesis
    using assms(1) unfolding wf_app_def eqs assms(3,4) \<open>run_asked b = run_asked a\<close> .
qed

lemma wf_app_ended:
  assumes "wf_app a" "ended j a a'" "unasked_but {} a'"
  shows "wf_app a'"
proof -
  note s = wf_app_sel [OF assms(1)]
  have fr: "ap_run_queue a' = ap_run_queue a" "ap_next_runner a' = ap_next_runner a" "ap_next_job a' = ap_next_job a"
    "job_table (ap_w a') = job_table (ap_w a)" "next_job_id (ap_w a') = next_job_id (ap_w a)" "run_key a' = run_key a"
    using ended_frame [OF assms(2)] by (simp_all add: app_frame_def)
  have same: "ap_runners a' r = ap_runners a r" if "r \<in> set (ap_run_queue a)" for r
  proof -
    have "r \<notin> waiting a j" using s(6) [OF that] waiting_mono [of 0 j a] by blast
    then show ?thesis using assms(2) unfolding ended_def by blast
  qed
  have "known_runs a'" using s(3) unfolding known_runs_def fr by simp
  moreover have "\<not> run_asked a' r" if "r \<in> set (tl (ap_run_queue a))" for r
    using s(7) [OF that] same [OF list.set_sel(2) [OF _ that]] that
    by (cases "ap_run_queue a") (auto simp: run_asked_def)
  moreover have "ap_runners a' r \<noteq> None" "r \<notin> waiting a' 0" if "r \<in> set (ap_run_queue a)" for r
    using s(5,6) [OF that] same [OF that] ended_waiting [OF assms(2), of 0] by (simp, blast)
  ultimately show ?thesis
    using ended_wf [OF assms(2) s(1)] assms(3) s(4) unfolding wf_app_def fr by blast
qed

text \<open>A change of a job with enough fuel keeps the invariant.\<close>

lemma status_change_wf:
  assumes "gebrm_app_job_controller_on_status_change n env j old new par a = Inr a'" "wf_app a" "j < ap_next_job a"
    and "ap_next_job a \<le> n"
  shows "wf_app a'" "ended j a a'"
proof -
  have "ap_next_job a - j \<le> n" using assms(4) by simp
  from status_change_returns [OF wf_app_sel(1) [OF assms(2)] assms(3) this, of env old new par]
  have "ended j a a' \<and> unasked_but {} a'" using assms(1) wf_app_sel(2) [OF assms(2)] by auto
  then show "wf_app a'" "ended j a a'" using wf_app_ended [OF assms(2)] by blast+
qed

lemma kill_immediately_table: "job_table (gebrm_job_kill_immediately now j w) = job_table w"
  using more_eq_sel [OF kill_immediately_more [of now j w]] by blast

lemma kill_immediately_wf:
  assumes "kill_immediately n env j a = Inr a'" "wf_app a" "j < ap_next_job a" "ap_next_job a \<le> n"
  shows "wf_app a' \<and> ap_run_queue a' = ap_run_queue a \<and> ap_next_job a' = ap_next_job a \<and> (\<forall>r. r \<notin> waiting a 0 \<longrightarrow> ap_runners a' r = ap_runners a r) \<and>
    waiting a' 0 \<subseteq> waiting a 0 \<and> status (jobs (ap_w a') j) = JOB_STATUS_CANCELED"
proof -
  let ?k = "upd_w (gebrm_job_kill_immediately (ae_now env) j) a"
  have run: "gebrm_app_job_controller_on_status_change n env j (status (jobs (ap_w a) j)) JOB_STATUS_CANCELED
      (Some (ae_now env)) ?k = Inr a'" using assms(1) by (simp add: kill_immediately_def)
  have "wf_app ?k"
    using assms(2) by (rule wf_app_cong) (simp_all add: kill_immediately_table)
  from status_change_wf [OF run this] assms(3,4) have r: "wf_app a'" "ended j ?k a'" by simp_all
  have w: "waiting ?k 0 = waiting a 0" by (simp add: waiting_def)
  have "ap_runners a' r = ap_runners a r" if "r \<notin> waiting a 0" for r
    using that r(2) w waiting_mono [of 0 j ?k] unfolding ended_def by auto
  moreover have "status (jobs (ap_w ?k) j) = JOB_STATUS_CANCELED" by simp
  then have "status (jobs (ap_w a') j) = JOB_STATUS_CANCELED"
    using ended_frame [OF r(2)] unfolding app_frame_def by blast
  ultimately show ?thesis using r(1) ended_frame [OF r(2)] ended_waiting [OF r(2), of 0] w by (simp add: app_frame_def)
qed

lemma kill_immediately_returns:
  assumes "wf_app a" "j < ap_next_job a" "ap_next_job a \<le> n"
  shows "\<exists>a'. kill_immediately n env j a = Inr a'"
proof -
  let ?k = "upd_w (gebrm_job_kill_immediately (ae_now env) j) a"
  have "wf_app ?k"
    using assms(1) by (rule wf_app_cong) (simp_all add: kill_immediately_table)
  from status_change_returns [OF wf_app_sel(1) [OF this], of j n] assms(2,3) show ?thesis
    unfolding kill_immediately_def by fastforce
qed

section \<open>Answers\<close>

text \<open>What a runner changes of the world: the connections and the numbers of uncompleted tasks.\<close>

definition run_world :: "maestro \<Rightarrow> maestro \<Rightarrow> bool" where
  "run_world w w' \<longleftrightarrow> (\<exists>cs us. w' = w\<lparr>conns := cs, uncompleted_tasks := us\<rparr>)"

lemma run_worldI: "w' = w\<lparr>conns := cs, uncompleted_tasks := us\<rparr> \<Longrightarrow> run_world w w'"
  unfolding run_world_def by (rule exI, rule exI)

lemma run_world_refl [simp]: "run_world w w"
  by (rule run_worldI [where cs = "conns w" and us = "uncompleted_tasks w"]) simp

lemma run_world_trans: "run_world u v \<Longrightarrow> run_world v w \<Longrightarrow> run_world u w"
proof -
  assume "run_world u v" "run_world v w"
  then obtain cs us cs' us' where "v = u\<lparr>conns := cs, uncompleted_tasks := us\<rparr>" "w = v\<lparr>conns := cs', uncompleted_tasks := us'\<rparr>"
    unfolding run_world_def by blast
  then have "w = u\<lparr>conns := cs', uncompleted_tasks := us'\<rparr>" by simp
  then show ?thesis by (rule run_worldI)
qed

lemma run_world_sel:
  "run_world w w' \<Longrightarrow> job_table w' = job_table w \<and> next_job_id w' = next_job_id w \<and> jobs w' = jobs w"
  by (auto simp: run_world_def)

lemma iface_world:
  "run_world w (di_on_server gebrm_daemon_init_iface d f w)" "run_world w (di_add_task gebrm_daemon_init_iface d w)"
  by (rule run_worldI [where cs = "(conns w)(d := f (conns w d))" and us = "uncompleted_tasks w"],
      simp add: gebrm_daemon_init_iface_def upd_conn_def,
      rule run_worldI [where cs = "conns w" and us = "(uncompleted_tasks w)(d := uncompleted_tasks w d + 1)"],
      simp add: gebrm_daemon_init_iface_def gebrm_daemon_iface_add_task_def)

lemma send_run_world: "run_world w (send_run gebrm_daemon_init_iface d part np xml ms r w)"
  unfolding send_run_def by (rule iface_world)

lemma run_flows_world:
  assumes "run_flows env gebrm_daemon_init_iface r k fs ds acc w v = Inr ((k', acc', w'), v')"
  shows "run_world w w'"
  using assms
proof (induction fs arbitrary: k ds acc w v)
  case (Cons f fs)
  obtain d ds' where ds: "ds = d # ds'" using Cons.prems by (cases ds) auto
  obtain xml v1 acc1 where next_flow: "run_flows env gebrm_daemon_init_iface r (k + 1) fs ds' acc1
      (send_run gebrm_daemon_init_iface d (show_nat (k + 1)) (show_int (rn_numprocs r ! k)) xml [] r
        (di_add_task gebrm_daemon_init_iface d w)) v1 = Inr ((k', acc', w'), v')"
    using Cons.prems ds by (auto simp: vthen_Inr_conv Let_def split: if_splits)
  show ?case
    using Cons.IH [OF next_flow] iface_world(2) send_run_world run_world_trans by meson
qed simp

lemma run_flow_world:
  assumes "run_flow env gebrm_daemon_init_iface r w v = Inr ((r', w'), v')"
  shows "run_world w w' \<and> rn_id r' = rn_id r"
proof -
  obtain r1 v1 where r1: "set_servers_execution_info env (\<lambda>d. di_hostname gebrm_daemon_init_iface d w)
      (r\<lparr>rn_cores_scores := g_list_sort server_score_comp_func (rn_cores_scores r)\<rparr>) v = Inr (r1, v1)"
    "(if gebr_geoxml_flow_get_first_mpi_program (rn_flow r1) \<noteq> None then mpi_run_flow env gebrm_daemon_init_iface r1 w v1
      else divide_and_run_flows env gebrm_daemon_init_iface r1 w v1) = Inr ((r', w'), v')"
    using assms by (auto simp: run_flow_def vthen_Inr_conv)
  have i: "rn_id r1 = rn_id r"
    using r1(1) by (auto simp: set_servers_execution_info_def calculate_servers_scores_and_num_procs_def vthen_Inr_conv
        Let_def split: option.splits)
  show ?thesis
  proof (cases "gebr_geoxml_flow_get_first_mpi_program (rn_flow r1) \<noteq> None")
    case True
    then have "mpi_run_flow env gebrm_daemon_init_iface r1 w v1 = Inr ((r', w'), v')" using r1(2) by simp
    then show ?thesis
      by (cases "rn_servers r1") (auto simp: mpi_run_flow_def set_max_np_for_mpi_def vthen_Inr_conv Let_def i send_run_world)
  next
    case False
    then have "divide_and_run_flows env gebrm_daemon_init_iface r1 w v1 = Inr ((r', w'), v')" using r1(2) by simp
    then obtain par v2 fs v3 r2 k acc v4 where run: "run_flows env gebrm_daemon_init_iface r2 0 fs (rn_servers r1) [] w v3 = Inr ((k, acc, w'), v4)"
      "r' = call_ran_func (r2\<lparr>rn_total := int k, rn_servers_list := Some (butlast acc)\<rparr>)" "rn_id r2 = rn_id r1"
      by (auto simp: divide_and_run_flows_def vthen_Inr_conv Let_def)
    then show ?thesis using run_flows_world [OF run(1)] i by (simp add: call_ran_func_def)
  qed
qed

lemma response_world:
  assumes "on_response_received env gebrm_daemon_init_iface d load r w v = Inr ((r', w'), v')"
  shows "run_world w w' \<and> rn_id r' = rn_id r"
proof -
  obtain sc v1 where r: "(let r = r\<lparr>rn_cores_scores := rn_cores_scores r @ sc, rn_responses := rn_responses r + 1\<rparr> in
      if rn_responses r = rn_requests r then run_flow env gebrm_daemon_init_iface r w v1 else Inr ((r, w), v1)) = Inr ((r', w'), v')"
    using assms by (auto simp: on_response_received_def vthen_Inr_conv Let_def split: option.splits)
  then show ?thesis
    using run_flow_world [of env "r\<lparr>rn_cores_scores := rn_cores_scores r @ sc, rn_responses := rn_responses r + 1\<rparr>" w v1 r' w' v']
    by (cases "rn_responses r + 1 = rn_requests r") (simp add: Let_def, auto simp: Let_def)
qed

text \<open>Asking the first runner, or one that is not in the queue, keeps the invariant.\<close>

lemma run_async_wf:
  assumes "run_async env r a = Inr (s, a')" "wf_app a" "r \<notin> set (tl (ap_run_queue a))" "r \<notin> waiting a 0"
  shows "wf_app a'" "waiting a' k = waiting a k" "ap_run_queue a' = ap_run_queue a" "ap_next_job a' = ap_next_job a"
    "run_key a' = run_key a" "job_table (ap_w a') = job_table (ap_w a)" "\<forall>q. q \<noteq> r \<longrightarrow> ap_runners a' q = ap_runners a q"
proof -
  have fr: "app_frame a a'" using assms(1) by (rule run_async_frame)
  have ch: "ap_children a' = ap_children a" and ru: "\<forall>q. q \<noteq> r \<longrightarrow> ap_runners a' q = ap_runners a q"
    using assms(1) by (elim run_async_result, simp)+
  show w: "waiting a' k = waiting a k" for k using ch by (simp add: waiting_def)
  show fq: "ap_run_queue a' = ap_run_queue a" "ap_next_job a' = ap_next_job a" "run_key a' = run_key a"
    "job_table (ap_w a') = job_table (ap_w a)" "\<forall>q. q \<noteq> r \<longrightarrow> ap_runners a' q = ap_runners a q"
    using fr ru by (simp_all add: app_frame_def)
  have as: "run_asked a' q \<longleftrightarrow> run_asked a q" if "q \<noteq> r" for q using ru that by (simp add: run_asked_def)
  have alive: "ap_runners a' q \<noteq> None \<longleftrightarrow> ap_runners a q \<noteq> None" for q
    using fq(3) run_key_alive [of a' q] run_key_alive [of a q] by simp
  note inv = wf_app_sel [OF assms(2)]
  have "wf_children a'" using inv(1) unfolding wf_children_def ch fq alive .
  moreover have "unasked_but {} a'"
    unfolding unasked_but_def ch
  proof (intro allI impI ballI)
    fix i q assume q: "q \<in> fst ` set (ap_children a i)"
    then have "q \<noteq> r" using assms(4) unfolding waiting_def by blast
    then show "\<not> run_asked a' q" using inv(2) q as unfolding unasked_but_def by blast
  qed
  moreover have "known_runs a'"
    using inv(3) fr unfolding known_runs_def app_frame_def by simp
  moreover have "\<not> run_asked a' q" if "q \<in> set (tl (ap_run_queue a))" for q
    using inv(7) [OF that] as assms(3) that by metis
  ultimately show "wf_app a'" using inv(4-6) unfolding wf_app_def fq w alive by blast
qed

lemma run_of_key: "ap_runners a r = Some ar \<Longrightarrow> run_key a r = Some (ar_job ar, rn_id (ar_runner ar))"
  by (simp add: run_key_def)

text \<open>The start of the next run always comes to an end: its runner is alive and its job is in the table.\<close>

lemma start_next_wf:
  assumes "wf_app a" "ap_next_job a \<le> n"
  shows "\<exists>a'. start_next n env a = Inr a' \<and> wf_app a' \<and> ap_run_queue a' = ap_run_queue a \<and> ap_next_job a' = ap_next_job a \<and>
     waiting a' 0 \<subseteq> waiting a 0 \<and>
     (\<forall>q. q \<notin> waiting a 0 \<longrightarrow> q \<notin> set (ap_run_queue a) \<longrightarrow> ap_runners a' q = ap_runners a q) \<and>
     (\<forall>r rs. ap_run_queue a = r # rs \<longrightarrow> run_asked a' r \<or> (\<exists>j i. run_key a r = Some (j, i) \<and> status (jobs (ap_w a') j) = JOB_STATUS_CANCELED))"
proof (cases "ap_run_queue a")
  case Nil
  then show ?thesis using assms by (simp add: start_next_def)
next
  case (Cons r rs)
  have r: "r \<in> set (ap_run_queue a)" using Cons by simp
  obtain ar where ar: "ap_runners a r = Some ar" using wf_app_sel(5) [OF assms(1) r] by blast
  have out: "r \<notin> set (tl (ap_run_queue a))" "r \<notin> waiting a 0"
    using wf_app_sel(4,6) [OF assms(1)] r Cons by simp_all
  have "\<exists>s a1. run_async env r a = Inr (s, a1)" by (rule run_async_returns) (simp add: ar)
  then obtain s a1 where one: "run_async env r a = Inr (s, a1)" by blast
  note w1 = run_async_wf [OF one assms(1) out]
  obtain i where i: "rn_id (ar_runner ar) = Some i" "job_table (ap_w a) i = Some (ar_job ar)" "ar_job ar < ap_next_job a"
    using wf_app_sel(3) [OF assms(1)] run_of_key [OF ar] unfolding known_runs_def by blast
  show ?thesis
  proof (cases s)
    case True
    then have "start_next n env a = Inr a1" using Cons one by (simp add: start_next_def)
    moreover have "run_asked a1 r" using run_async_asked [OF one] True by simp
    ultimately show ?thesis using w1 Cons by auto
  next
    case False
    obtain ar1 where ar1: "ap_runners a1 r = Some ar1" "ar_job ar1 = ar_job ar" "rn_id (ar_runner ar1) = Some i"
      using w1(5) run_of_key [OF ar] i(1) by (cases "ap_runners a1 r") (auto simp: run_key_def fun_eq_iff dest: spec [of _ r])
    have found: "gebrm_app_job_controller_find i (ap_w a1) = Some (ar_job ar)"
      using w1(6) i(2) by (simp add: gebrm_app_job_controller_find_def)
    obtain a2 where two: "kill_immediately n env (ar_job ar) a1 = Inr a2"
      using kill_immediately_returns [OF w1(1), of "ar_job ar" n] i(3) w1(4) assms(2) by auto
    have w2: "wf_app a2 \<and> ap_run_queue a2 = ap_run_queue a1 \<and> ap_next_job a2 = ap_next_job a1 \<and>
        (\<forall>q. q \<notin> waiting a1 0 \<longrightarrow> ap_runners a2 q = ap_runners a1 q) \<and>
        waiting a2 0 \<subseteq> waiting a1 0 \<and> status (jobs (ap_w a2) (ar_job ar)) = JOB_STATUS_CANCELED"
      using kill_immediately_wf [OF two w1(1)] i(3) w1(4) assms(2) by simp
    have "start_next n env a = Inr a2"
      using Cons one False two ar1 found by (simp add: start_next_def)
    then show ?thesis using w1 w2 Cons run_of_key [OF ar] by auto
  qed
qed

lemma wf_app_pop:
  assumes "wf_app a"
  shows "wf_app (a\<lparr>ap_run_queue := tl (ap_run_queue a)\<rparr>)"
proof -
  let ?b = "a\<lparr>ap_run_queue := tl (ap_run_queue a)\<rparr>"
  have same: "wf_children ?b = wf_children a" "unasked_but {} ?b = unasked_but {} a" "known_runs ?b = known_runs a"
    "waiting ?b 0 = waiting a 0" "run_asked ?b = run_asked a"
    by (simp_all add: wf_children_def unasked_but_def known_runs_def waiting_def run_asked_def run_key_def fun_eq_iff)
  have tl_sub: "set (tl xs) \<subseteq> set xs" for xs :: "nat list" by (cases xs) auto
  note sub = tl_sub [of "ap_run_queue a"] tl_sub [of "tl (ap_run_queue a)"]
  note inv = wf_app_sel [OF assms]
  show ?thesis
    unfolding wf_app_def same
  proof (intro conjI)
    show "distinct (ap_run_queue ?b)" using inv(4) by (simp add: distinct_tl)
    show "\<forall>r \<in> set (ap_run_queue ?b). ap_runners ?b r \<noteq> None \<and> r \<notin> waiting a 0" using inv(5,6) sub(1) by simp blast
    show "\<forall>r \<in> set (tl (ap_run_queue ?b)). \<not> run_asked a r" using inv(7) sub(2) by simp blast
  qed (use inv in simp_all)
qed

lemma wf_app_free:
  assumes "wf_app a" "r \<notin> set (ap_run_queue a)" "r \<notin> waiting a 0"
  shows "wf_app (a\<lparr>ap_runners := (ap_runners a)(r := None)\<rparr>)"
proof -
  let ?b = "a\<lparr>ap_runners := (ap_runners a)(r := None)\<rparr>"
  note inv = wf_app_sel [OF assms(1)]
  have key: "run_key ?b q = Some x \<Longrightarrow> run_key a q = Some x" for q x by (cases "q = r") (simp_all add: run_key_def)
  have asked: "run_asked ?b q \<Longrightarrow> run_asked a q" for q by (cases "q = r") (simp_all add: run_asked_def)
  have w: "waiting ?b 0 = waiting a 0" by (simp add: waiting_def)
  show ?thesis
    unfolding wf_app_def w
  proof (intro conjI)
    have ch: "ap_children ?b = ap_children a" by simp
    show "wf_children ?b"
      unfolding wf_children_def ch
    proof (intro conjI allI impI)
      fix j q c assume q: "(q, c) \<in> set (ap_children a j)"
      then have "q \<in> fst ` set (ap_children a j)" by force
      then have "q \<noteq> r" using assms(3) unfolding waiting_def by blast
      then show "j < c" "c < ap_next_job ?b" "ap_runners ?b q \<noteq> None"
        using q inv(1) unfolding wf_children_def by auto
    next
      fix i j q assume "q \<in> fst ` set (ap_children a i)" "q \<in> fst ` set (ap_children a j)"
      then show "i = j" using inv(1) unfolding wf_children_def by blast
    next
      show "distinct (map fst (ap_children a j))" for j using inv(1) unfolding wf_children_def by blast
    qed
    show "unasked_but {} ?b" using inv(2) asked unfolding unasked_but_def by auto
    show "known_runs ?b"
      unfolding known_runs_def
    proof (intro conjI allI impI)
      fix q j i assume "run_key ?b q = Some (j, i)"
      then have "run_key a q = Some (j, i)" by (rule key)
      then show "q < ap_next_runner ?b" "j < ap_next_job ?b" "\<exists>k. i = Some k \<and> job_table (ap_w ?b) k = Some j"
        using inv(3) unfolding known_runs_def by simp_all
    qed (use inv(3) in \<open>simp_all add: known_runs_def\<close>)
    show "distinct (ap_run_queue ?b)" using inv(4) by simp
    show "\<forall>q \<in> set (ap_run_queue ?b). ap_runners ?b q \<noteq> None \<and> q \<notin> waiting a 0" using inv(5,6) assms(2) by auto
    show "\<forall>q \<in> set (tl (ap_run_queue ?b)). \<not> run_asked ?b q" using inv(7) asked by auto
  qed
qed

lemma response_wf:
  assumes "wf_app a" "ap_runners a r \<noteq> None" "r \<notin> set (tl (ap_run_queue a))" "r \<notin> waiting a 0" "ap_next_job a \<le> n"
  shows "\<exists>a'. on_execution_response n env r a = Inr a' \<and> wf_app a' \<and> ap_run_queue a' = tl (ap_run_queue a) \<and>
     ap_next_job a' = ap_next_job a \<and> ap_runners a' r = None \<and>
     (\<forall>q rs. tl (ap_run_queue a) = q # rs \<longrightarrow>
        run_asked a' q \<or> (\<exists>j i. run_key a q = Some (j, i) \<and> status (jobs (ap_w a') j) = JOB_STATUS_CANCELED))"
proof -
  obtain ar where ar: "ap_runners a r = Some ar" using assms(2) by blast
  let ?a1 = "set_run_results (ar_job ar) (ar_runner ar) a"
  let ?a2 = "send_job_def_to_clients env (ar_job ar) (?a1\<lparr>ap_def_queue := tl (ap_def_queue ?a1)\<rparr>)"
  let ?a3 = "?a2\<lparr>ap_run_queue := tl (ap_run_queue ?a2)\<rparr>"
  have same: "ap_children ?a2 = ap_children a" "ap_runners ?a2 = ap_runners a" "ap_run_queue ?a2 = ap_run_queue a"
    "ap_next_job ?a2 = ap_next_job a" "ap_next_runner ?a2 = ap_next_runner a" "job_table (ap_w ?a2) = job_table (ap_w a)"
    "next_job_id (ap_w ?a2) = next_job_id (ap_w a)"
    by (simp_all add: send_job_def_to_clients_def send_to_clients_eq set_run_results_def set_job_def Let_def)
  have "wf_app ?a2" using assms(1) by (rule wf_app_cong) (rule same)+
  then have "wf_app ?a3" by (rule wf_app_pop)
  moreover have "ap_next_job ?a3 \<le> n" using assms(5) same(4) by simp
  ultimately obtain a4 where a4: "start_next n env ?a3 = Inr a4" "wf_app a4" "ap_run_queue a4 = tl (ap_run_queue a)"
    "ap_next_job a4 = ap_next_job a" "waiting a4 0 \<subseteq> waiting ?a3 0"
    "\<forall>q rs. tl (ap_run_queue a) = q # rs \<longrightarrow> run_asked a4 q \<or>
       (\<exists>j i. run_key ?a3 q = Some (j, i) \<and> status (jobs (ap_w a4) j) = JOB_STATUS_CANCELED)"
    using start_next_wf [of ?a3 n env] same(3,4) by auto
  let ?a' = "a4\<lparr>ap_runners := (ap_runners a4)(r := None)\<rparr>"
  have w: "waiting ?a3 0 = waiting a 0" "run_key ?a3 = run_key a" using same by (simp_all add: waiting_def run_key_def fun_eq_iff)
  have "wf_app ?a'" using a4(2) by (rule wf_app_free) (use a4(3,5) w assms(3,4) in auto)
  moreover have "run_asked ?a' q = run_asked a4 q" if "tl (ap_run_queue a) = q # rs" for q rs
  proof -
    have "q \<noteq> r" using assms(3) that by auto
    then show ?thesis by (simp add: run_asked_def)
  qed
  moreover have "on_execution_response n env r a = Inr ?a'"
    using a4(1) by (simp add: on_execution_response_def ar Let_def)
  ultimately show ?thesis using a4 w by (intro exI [of _ ?a']) auto
qed

section \<open>Requests\<close>

lemma wf_app_push:
  assumes "wf_app a" "ap_runners a r \<noteq> None" "r \<notin> set (ap_run_queue a)" "r \<notin> waiting a 0"
    and "ap_run_queue a \<noteq> [] \<Longrightarrow> \<not> run_asked a r"
  shows "wf_app (a\<lparr>ap_run_queue := ap_run_queue a @ [r]\<rparr>)"
proof -
  let ?b = "a\<lparr>ap_run_queue := ap_run_queue a @ [r]\<rparr>"
  have same: "wf_children ?b = wf_children a" "unasked_but {} ?b = unasked_but {} a" "known_runs ?b = known_runs a"
    "waiting ?b 0 = waiting a 0" "run_asked ?b = run_asked a"
    by (simp_all add: wf_children_def unasked_but_def known_runs_def waiting_def run_asked_def run_key_def fun_eq_iff)
  note inv = wf_app_sel [OF assms(1)]
  show ?thesis
    unfolding wf_app_def same
  proof (intro conjI)
    show "\<forall>q \<in> set (ap_run_queue ?b). ap_runners ?b q \<noteq> None \<and> q \<notin> waiting a 0" using inv(5,6) assms(2,4) by auto
    show "\<forall>q \<in> set (tl (ap_run_queue ?b)). \<not> run_asked a q"
      using inv(7) assms(5) by (cases "ap_run_queue a") auto
    show "distinct (ap_run_queue ?b)" using inv(4) assms(3) by simp
  qed (use inv in simp_all)
qed

text \<open>A runner that was just made: it lives, waits nowhere and was not asked.\<close>

definition new_run :: "app \<Rightarrow> nat \<Rightarrow> job_ref \<Rightarrow> bool" where
  "new_run a r j \<longleftrightarrow>
     (\<exists>i. run_key a r = Some (j, i)) \<and> r \<notin> set (ap_run_queue a) \<and> r \<notin> waiting a 0 \<and> \<not> run_asked a r \<and> j < ap_next_job a"

lemma start_or_wait_wf:
  assumes "wf_app a" "new_run a r j" "ap_next_job a \<le> n"
  shows "\<exists>a'. start_or_wait n env j r a = Inr a' \<and> wf_app a' \<and> ap_run_queue a' = ap_run_queue a @ [r] \<and>
     (ap_run_queue a = [] \<longrightarrow> run_asked a' r \<or> status (jobs (ap_w a') j) = JOB_STATUS_CANCELED)"
proof -
  let ?b = "a\<lparr>ap_def_queue := j # ap_def_queue a\<rparr>"
  have b: "wf_app ?b" using assms(1) by (rule wf_app_cong) simp_all
  have "ap_runners a r \<noteq> None" using assms(2) run_key_alive [of a r] by (auto simp: new_run_def)
  then have r: "ap_runners ?b r \<noteq> None" "r \<notin> set (ap_run_queue ?b)" "r \<notin> waiting ?b 0" "\<not> run_asked ?b r" "j < ap_next_job ?b"
    using assms(2) by (simp_all add: new_run_def waiting_def run_asked_def)
  show ?thesis
  proof (cases "ap_run_queue a = []")
    case False
    then have "start_or_wait n env j r a = Inr (?b\<lparr>ap_run_queue := ap_run_queue ?b @ [r]\<rparr>)" by (simp add: start_or_wait_def)
    moreover have "wf_app (?b\<lparr>ap_run_queue := ap_run_queue ?b @ [r]\<rparr>)" using b r by (intro wf_app_push) simp_all
    ultimately show ?thesis using False by simp
  next
    case True
    have "\<exists>s c. run_async env r ?b = Inr (s, c)" by (rule run_async_returns) (rule r)
    then obtain s c where one: "run_async env r ?b = Inr (s, c)" by blast
    have "r \<notin> set (tl (ap_run_queue ?b))" using True by simp
    note c = run_async_wf [OF one b this r(3)]
    have key: "ap_runners d r \<noteq> None" if "run_key d = run_key c" for d
      using that c(5) r(1) run_key_alive [of d r] run_key_alive [of ?b r] by metis
    obtain d where d: "(if s then Inr c else kill_immediately n env j c) = Inr d" "wf_app d" "ap_run_queue d = []"
      "ap_runners d r \<noteq> None" "r \<notin> waiting d 0" "run_asked d r \<or> status (jobs (ap_w d) j) = JOB_STATUS_CANCELED"
    proof (cases s)
      case t: True
      then show thesis using that [of c] c key [of c] True r(3) run_async_asked [OF one] by simp
    next
      case False
      obtain d where "kill_immediately n env j c = Inr d"
        using kill_immediately_returns [OF c(1), of j n env] c(4) r(5) assms(3) by auto
      moreover from kill_immediately_wf [OF this c(1)] have "wf_app d \<and> ap_run_queue d = ap_run_queue c \<and>
          (\<forall>q. q \<notin> waiting c 0 \<longrightarrow> ap_runners d q = ap_runners c q) \<and> waiting d 0 \<subseteq> waiting c 0 \<and>
          status (jobs (ap_w d) j) = JOB_STATUS_CANCELED"
        using c(4) r(5) assms(3) by simp
      ultimately show thesis using that [of d] False c(2,3) key [of c] True r(3) by auto
    qed
    have "wf_app (d\<lparr>ap_run_queue := ap_run_queue d @ [r]\<rparr>)" using d by (intro wf_app_push) simp_all
    moreover have "start_or_wait n env j r a = Inr (d\<lparr>ap_run_queue := ap_run_queue d @ [r]\<rparr>)"
      using True one d(1) by (simp add: start_or_wait_def)
    ultimately show ?thesis using d True by (simp add: run_asked_def)
  qed
qed

lemma wf_app_child:
  assumes "wf_app a" "new_run a r j" "q < j"
  shows "wf_app (a\<lparr>ap_def_queue := ds, ap_children := (ap_children a)(q := (r, j) # ap_children a q)\<rparr>)"
proof -
  let ?b = "a\<lparr>ap_def_queue := ds, ap_children := (ap_children a)(q := (r, j) # ap_children a q)\<rparr>"
  note inv = wf_app_sel [OF assms(1)]
  have r: "ap_runners a r \<noteq> None" "r \<notin> set (ap_run_queue a)" "\<not> run_asked a r" "j < ap_next_job a"
    using assms(2) run_key_alive [of a r] by (auto simp: new_run_def)
  have fresh: "r \<notin> fst ` set (ap_children a i)" for i using assms(2) unfolding new_run_def waiting_def by blast
  have ch: "set (ap_children ?b i) = (if i = q then insert (r, j) (set (ap_children a i)) else set (ap_children a i))" for i
    by simp
  have ru: "ap_runners ?b = ap_runners a" "ap_next_job ?b = ap_next_job a" "ap_run_queue ?b = ap_run_queue a"
    "run_asked ?b = run_asked a" "known_runs ?b = known_runs a"
    by (simp_all add: run_asked_def known_runs_def run_key_def fun_eq_iff)
  have in_children: "x \<in> fst ` set (ap_children ?b i) \<longleftrightarrow> x = r \<and> i = q \<or> x \<in> fst ` set (ap_children a i)" for x i
    unfolding ch by (cases "i = q") auto
  have wf: "wf_children ?b"
    unfolding wf_children_def
  proof (intro conjI allI impI)
    fix i x c assume "(x, c) \<in> set (ap_children ?b i)"
    then have "(x, c) \<in> set (ap_children a i) \<or> x = r \<and> c = j \<and> i = q" unfolding ch by (auto split: if_splits)
    then show "i < c" "c < ap_next_job ?b" "ap_runners ?b x \<noteq> None"
      using inv(1) r(1,4) assms(3) unfolding wf_children_def ru by blast+
  next
    fix i k x assume x: "x \<in> fst ` set (ap_children ?b i)" "x \<in> fst ` set (ap_children ?b k)"
    show "i = k"
    proof (cases "x = r")
      case True
      then show ?thesis using x fresh unfolding in_children by blast
    next
      case False
      then have "x \<in> fst ` set (ap_children a i)" "x \<in> fst ` set (ap_children a k)" using x unfolding in_children by blast+
      then show ?thesis using inv(1) unfolding wf_children_def by blast
    qed
  next
    fix i show "distinct (map fst (ap_children ?b i))" using inv(1) fresh by (simp add: wf_children_def)
  qed
  have un: "unasked_but {} ?b"
    unfolding unasked_but_def
  proof (intro allI impI ballI)
    fix i x assume "x \<in> fst ` set (ap_children ?b i)"
    then have "x = r \<or> x \<in> fst ` set (ap_children a i)" unfolding in_children by blast
    then show "\<not> run_asked ?b x" using inv(2) r(3) unfolding unasked_but_def ru by blast
  qed
  have w: "waiting ?b 0 = insert r (waiting a 0)" unfolding waiting_def in_children by auto
  have out: "\<forall>x \<in> set (ap_run_queue a). x \<noteq> r" using r(2) by blast
  show ?thesis
    unfolding wf_app_def ru w using wf un inv(3-7) out by blast
qed

lemma queue_run_wf:
  assumes "wf_app a" "new_run a r j" "ap_next_job a \<le> n"
    and "\<And>p q. parent_id = Some p \<Longrightarrow> job_table (ap_w a) p = Some q \<Longrightarrow> q < j" "parent_id \<noteq> None"
  shows "\<exists>a'. queue_run n env j r parent_id a = Inr a' \<and> wf_app a'"
proof -
  obtain p where p: "parent_id = Some p" using assms(5) by blast
  from start_or_wait_wf [OF assms(1-3), of env] obtain b where b: "start_or_wait n env j r a = Inr b" "wf_app b" by blast
  show ?thesis
  proof (cases "job_table (ap_w a) p")
    case None
    then show ?thesis using b p by (simp add: queue_run_def gebrm_app_job_controller_find_def)
  next
    case (Some q)
    let ?w = "status (jobs (ap_w a) q) = JOB_STATUS_QUEUED \<or> status (jobs (ap_w a) q) = JOB_STATUS_RUNNING \<or>
      status (jobs (ap_w a) q) = JOB_STATUS_INITIAL"
    let ?c = "a\<lparr>ap_def_queue := insert_after q j (ap_def_queue a), ap_children := (ap_children a)(q := (r, j) # ap_children a q)\<rparr>"
    have c: "wf_app ?c" using assms(1,2) assms(4) [OF p Some] by (rule wf_app_child)
    have "wf_app (send_job_def_to_clients env j ?c)"
      using c by (rule wf_app_cong) (simp_all add: send_job_def_to_clients_def send_to_clients_eq Let_def)
    then show ?thesis
      using b c Some p by (cases ?w; cases "insert_after q j (ap_def_queue a) = []") (simp_all add: queue_run_def gebrm_app_job_controller_find_def Let_def)
  qed
qed

definition job_world_after :: "job_ref \<Rightarrow> maestro \<Rightarrow> maestro \<Rightarrow> bool" where
  "job_world_after j w w' \<longleftrightarrow>
     job_table w' = (job_table w)(show_int (next_job_id w) \<mapsto> j) \<and> next_job_id w' = next_job_id w + 1 \<and>
     info_id (info (jobs w' j)) = Some (show_int (next_job_id w))"

lemma init_details_id [simp]:
  "info_id (info jb) = Some k \<Longrightarrow> info_id (info (gebrm_job_init_details jb i)) = Some k"
  by (simp add: gebrm_job_init_details_def Let_def)

lemma new_job_result:
  assumes "new_job c t i rt a = (j, b)"
  shows "j = ap_next_job a" "ap_next_job b = Suc (ap_next_job a)" "ap_children b = ap_children a" "ap_runners b = ap_runners a"
    "ap_run_queue b = ap_run_queue a" "ap_next_runner b = ap_next_runner a" "ap_connections b = ap_connections a"
    "ap_def_queue b = ap_def_queue a" "ap_daemons b = ap_daemons a"
  using assms unfolding new_job_def Let_def gebrm_app_job_controller_add_def
  by (elim Pair_inject, hypsubst, simp add: upd_w_def; fail)+

lemma new_job_world:
  assumes "new_job c t i rt a = (j, b)"
  shows "job_world_after j (ap_w a) (ap_w b)"
  using assms unfolding new_job_def Let_def gebrm_app_job_controller_add_def
  by (elim Pair_inject, hypsubst)
    (simp add: job_world_after_def gebrm_job_new_def gebrm_job_set_run_type_def set_job_def split del: if_split)

lemma new_job_wf:
  assumes "wf_app a" "new_job c t i rt a = (j, b)"
  shows "wf_app b"
proof -
  note r = new_job_result [OF assms(2)]
  note inv = wf_app_sel [OF assms(1)]
  have same: "unasked_but {} b = unasked_but {} a" "waiting b 0 = waiting a 0" "run_asked b = run_asked a" "run_key b = run_key a"
    using r(3,4) by (simp_all add: unasked_but_def waiting_def run_asked_def run_key_def fun_eq_iff)
  have wf: "wf_children b"
    using inv(1) unfolding wf_children_def r(2-4) by (meson less_SucI)
  have fresh: "job_table (ap_w a) (show_int (next_job_id (ap_w a))) = None"
  proof (rule ccontr)
    assume "job_table (ap_w a) (show_int (next_job_id (ap_w a))) \<noteq> None"
    then obtain q where "job_table (ap_w a) (show_int (next_job_id (ap_w a))) = Some q" by blast
    then obtain m where "0 \<le> m" "m < next_job_id (ap_w a)" "show_int (next_job_id (ap_w a)) = show_int m"
      using inv(3) unfolding known_runs_def by blast
    then show False using show_int_inj [of "next_job_id (ap_w a)" m] by blast
  qed
  have tab: "job_table (ap_w b) = (job_table (ap_w a))(show_int (next_job_id (ap_w a)) \<mapsto> j)"
    "next_job_id (ap_w b) = next_job_id (ap_w a) + 1"
    using new_job_world [OF assms(2)] by (simp_all add: job_world_after_def)
  have kept: "job_table (ap_w b) k = Some q" if "job_table (ap_w a) k = Some q" for k q
    using that fresh unfolding tab by auto
  have "known_runs b"
    unfolding known_runs_def same r(2,6)
  proof (intro conjI allI impI)
    fix q jj i assume "run_key a q = Some (jj, i)"
    then have k: "q < ap_next_runner a" "jj < ap_next_job a" "\<exists>k. i = Some k \<and> job_table (ap_w a) k = Some jj"
      using inv(3) unfolding known_runs_def by blast+
    then show "q < ap_next_runner a" "jj < Suc (ap_next_job a)" "\<exists>k. i = Some k \<and> job_table (ap_w b) k = Some jj"
      using kept by (simp, simp, blast)
  next
    fix k jj assume e: "job_table (ap_w b) k = Some jj"
    show "jj < Suc (ap_next_job a)"
      using e inv(3) r(1) unfolding tab known_runs_def by (auto split: if_splits intro: less_SucI)
    show "\<exists>m\<ge>0. m < next_job_id (ap_w b) \<and> k = show_int m"
    proof (cases "k = show_int (next_job_id (ap_w a))")
      case True
      then show ?thesis using inv(3) by (intro exI [of _ "next_job_id (ap_w a)"]) (simp add: tab known_runs_def)
    next
      case False
      then have "job_table (ap_w a) k = Some jj" using e by (simp add: tab)
      then obtain m where "0 \<le> m" "m < next_job_id (ap_w a)" "k = show_int m"
        using inv(3) unfolding known_runs_def by blast
      then show ?thesis by (intro exI [of _ m]) (simp add: tab)
    qed
  qed (use inv(3) in \<open>simp add: tab known_runs_def\<close>)
  then show ?thesis
    using wf inv unfolding wf_app_def same r(4,5) by blast
qed

lemma counter_wf: "wf_app a \<Longrightarrow> wf_app (snd (gebrm_app_increment_jobs_counter f a))"
  by (erule wf_app_cong) (simp_all add: gebrm_app_increment_jobs_counter_def Let_def)

lemma client_send_wf: "wf_app a \<Longrightarrow> wf_app (client_send c m xs a)"
  by (erule wf_app_cong) (simp_all add: client_send_def)

lemma fold_wf: "wf_app a \<Longrightarrow> (\<And>x b. wf_app b \<Longrightarrow> wf_app (f x b)) \<Longrightarrow> wf_app (fold f xs a)"
  by (induction xs arbitrary: a) simp_all

lemma messages_wf: "wf_app a \<Longrightarrow> wf_app (send_messages_of_jobs env i j c a)"
  unfolding send_messages_of_jobs_def Let_def by (auto intro!: client_send_wf fold_wf)

lemma refuse_run_wf:
  assumes "refuse_run env j m a = Inr a'" "wf_app a"
  shows "wf_app a'"
proof -
  have "wf_app (upd_w (\<lambda>w. gebrm_job_set_status j JOB_STATUS_FAILED w) a)"
    using assms(2) by (rule wf_app_cong) (simp_all add: gebrm_job_set_status_def set_job_status_def set_job_def)
  then show ?thesis
    using assms(1) unfolding refuse_run_def Let_def
    by (auto split: list.splits intro!: client_send_wf messages_wf)
qed

lemma new_runner_wf:
  assumes "wf_app a" "new_runner j rn v a = (r, b)" "j < ap_next_job a" "rn_requests rn = 0"
    and "rn_id rn = Some k" "job_table (ap_w a) k = Some j"
  shows "wf_app b" "new_run b r j"
proof -
  note inv = wf_app_sel [OF assms(1)]
  have r: "r = ap_next_runner a" and b: "b = a\<lparr>ap_runners := (ap_runners a)(r \<mapsto>
      \<lparr>ar_runner = gebr_comm_runner_set_ran_func rn, ar_job = j, ar_valid = v\<rparr>), ap_next_runner := r + 1\<rparr>"
    using assms(2) by (auto simp: new_runner_def Let_def)
  have none: "ap_runners a r = None"
  proof (rule ccontr)
    assume "ap_runners a r \<noteq> None"
    then obtain ar where "ap_runners a r = Some ar" by blast
    then show False using inv(3) run_of_key [of a r ar] unfolding known_runs_def r by blast
  qed
  have key: "run_key b q = (if q = r then Some (j, Some k) else run_key a q)" for q
    using assms(5) by (simp add: b run_key_def gebr_comm_runner_set_ran_func_def)
  have asked: "run_asked b q \<longleftrightarrow> run_asked a q" for q
    using none assms(4) by (simp add: b run_asked_def gebr_comm_runner_set_ran_func_def)
  have w: "waiting b 0 = waiting a 0" by (simp add: b waiting_def)
  have alive: "ap_runners a q \<noteq> None \<Longrightarrow> ap_runners b q \<noteq> None" for q by (simp add: b)
  have sel: "ap_children b = ap_children a" "ap_next_job b = ap_next_job a" "ap_run_queue b = ap_run_queue a"
    "ap_w b = ap_w a" "ap_next_runner b = Suc (ap_next_runner a)"
    by (simp_all add: b r)
  have "wf_children b" using inv(1) alive unfolding wf_children_def sel by blast
  moreover have "unasked_but {} b" using inv(2) asked unfolding unasked_but_def sel by blast
  moreover have "known_runs b"
    unfolding known_runs_def sel
  proof (intro conjI allI impI)
    fix q jj i assume "run_key b q = Some (jj, i)"
    then have "q = r \<and> jj = j \<and> i = Some k \<or> run_key a q = Some (jj, i)" unfolding key by (auto split: if_splits)
    moreover have "q < Suc (ap_next_runner a) \<and> jj < ap_next_job a \<and> (\<exists>k. i = Some k \<and> job_table (ap_w a) k = Some jj)"
      if "run_key a q = Some (jj, i)" using that inv(3) unfolding known_runs_def by (meson less_SucI)
    ultimately show "q < Suc (ap_next_runner a)" "jj < ap_next_job a" "\<exists>k. i = Some k \<and> job_table (ap_w a) k = Some jj"
      using assms(3,6) r by auto
  qed (use inv(3) in \<open>simp_all add: known_runs_def\<close>)
  ultimately show "wf_app b" using inv(4-7) asked alive unfolding wf_app_def sel w by blast
  have "r \<notin> waiting a 0"
  proof
    assume "r \<in> waiting a 0"
    then obtain i where "r \<in> fst ` set (ap_children a i)" unfolding waiting_def by blast
    then obtain c where "(r, c) \<in> set (ap_children a i)" by force
    then show False using inv(1) none unfolding wf_children_def by blast
  qed
  moreover have "r \<notin> set (ap_run_queue a)" using inv(5) none by blast
  moreover have "\<not> run_asked a r" using none by (simp add: run_asked_def)
  ultimately show "new_run b r j" using assms(3) unfolding new_run_def w asked sel by (simp add: key)
qed

lemma handle_run_wf:
  assumes "gebrm_app_handle_run n env body c u a = Inr a'" "wf_app a" "ap_next_job a < n"
    and "run_parent c u a \<noteq> Some (show_int (next_job_id (ap_w a)))"
  shows "wf_app a'"
proof -
  let ?par = "gebr_comm_uri_get_param u" and ?p = "run_parent c u a"
  obtain flow_id temp_id name speed where par: "?par ''flow_id'' = Some flow_id" "?par ''temp_id'' = Some temp_id"
    "?par ''name'' = Some name" "?par ''speed'' = Some speed"
    using assms(1) unfolding gebrm_app_handle_run_def Let_def by (auto split: option.splits prod.splits)
  obtain l v where l: "open_flow env body = Inr (l, v)"
    using assms(1) unfolding gebrm_app_handle_run_def Let_def by (auto simp: par and_then_Inr_conv)
  obtain counter a1 where a1: "gebrm_app_increment_jobs_counter flow_id a = (counter, a1)" by fastforce
  let ?i = "run_info env u ?p l counter" and ?fl = "gebr_geoxml_flow_get_mpi_flavors (ld_flow l)"
  obtain j a2 where a2: "new_job c temp_id ?i (if ?fl \<noteq> [] then ''mpi'' else ''normal'') a1 = (j, a2)" by fastforce
  let ?ds = "get_comm_servers_list name (?par ''group_type'') a2"
  let ?min = "get_comm_servers_min_subset ?ds ?fl (ap_w a2)" and ?max = "get_comm_servers_max_subset ?ds ?fl (ap_w a2)"
  let ?rn = "gebr_comm_runner_new (ld_flow l) ?min ?max (info_id (info (jobs (ap_w a2) j))) (?par ''gid'')
    ?p speed (?par ''nice'') (Some name) (?par ''paths'')"
  have run: "(if ?min = [] then refuse_run env j (mpi_issue ?fl (the (info_group ?i)) (?par ''group_type'') (info_hostname ?i)) a2
      else case new_runner j ?rn v a2 of (r, a3) \<Rightarrow> queue_run n env j r ?p a3) = Inr a'"
    using assms(1) unfolding gebrm_app_handle_run_def Let_def by (simp add: par l a1 a2)
  have w1: "wf_app a1" using counter_wf [OF assms(2), of flow_id] a1 by simp
  have a1s: "ap_next_job a1 = ap_next_job a" "ap_w a1 = ap_w a"
    using a1 by (auto simp: gebrm_app_increment_jobs_counter_def Let_def)
  have w2: "wf_app a2" using w1 a2 by (rule new_job_wf)
  note r2 = new_job_result [OF a2] and r2w = new_job_world [OF a2, unfolded job_world_after_def a1s]
  show ?thesis
  proof (cases "?min = []")
    case True
    then show ?thesis using run w2 by (simp add: refuse_run_wf)
  next
    case False
    obtain r a3 where a3: "new_runner j ?rn v a2 = (r, a3)" by fastforce
    have n: "wf_app a3" "new_run a3 r j"
      using new_runner_wf [OF w2 a3, of "show_int (next_job_id (ap_w a))"] r2 r2w a1s
      by (simp_all add: gebr_comm_runner_new_def)
    have a3s: "ap_next_job a3 = Suc (ap_next_job a)" "ap_w a3 = ap_w a2"
      using a3 r2(2) a1s by (auto simp: new_runner_def Let_def)
    have parent: "q < j" if "?p = Some p" "job_table (ap_w a3) p = Some q" for p q
    proof -
      have "job_table (ap_w a) p = Some q" using that assms(4) a3s(2) r2w by (simp split: if_splits)
      then show ?thesis using wf_app_sel(3) [OF assms(2)] r2(1) a1s unfolding known_runs_def by simp
    qed
    have "?p \<noteq> None" using run False a3 by (cases ?p) (simp_all add: queue_run_def)
    then have "\<exists>b. queue_run n env j r ?p a3 = Inr b \<and> wf_app b"
      using n a3s(1) assms(3) parent by (intro queue_run_wf) simp_all
    then show ?thesis using run False a3 by simp
  qed
qed

section \<open>The steps of the application\<close>

text \<open>
  What happens to the runs: a request of a client to run a flow, to kill a job or to close one, the answer of a machine
  that was asked, the idle callback of a parallel program, and a change of a job that its machines reported, whatever they
  did to the jobs and connections. The fuel is the number of jobs. Two requests are left out: a run whose client names as
  the parent the id that its own job will get, and \<open>/close\<close> of a job whose runner still waits or was just asked, which
  takes the job out of the table of a runner that needs it (see \<open>closed_run_lost\<close>).
\<close>

inductive run_step :: "app_env \<Rightarrow> app \<Rightarrow> app \<Rightarrow> bool" for env where
  Request: "gebrm_app_handle_run n env body c u a = Inr a' \<Longrightarrow> ap_next_job a < n \<Longrightarrow>
     run_parent c u a \<noteq> Some (show_int (next_job_id (ap_w a))) \<Longrightarrow> run_step env a a'"
| Answer: "machine_answered n env r d load a = Inr a' \<Longrightarrow> run_asked a r \<Longrightarrow> ap_next_job a \<le> n \<Longrightarrow> run_step env a a'"
| Idle: "idle_ran n env r a = Inr a' \<Longrightarrow> run_asked a r \<Longrightarrow> ap_next_job a \<le> n \<Longrightarrow> run_step env a a'"
| Report: "gebrm_app_job_controller_on_status_change n env j old new par (a\<lparr>ap_w := w\<rparr>) = Inr a' \<Longrightarrow>
     job_table w = job_table (ap_w a) \<Longrightarrow> next_job_id w = next_job_id (ap_w a) \<Longrightarrow> j < ap_next_job a \<Longrightarrow>
     ap_next_job a \<le> n \<Longrightarrow> run_step env a a'"
| Kill: "kill_request n env i a = Inr a' \<Longrightarrow> ap_next_job a \<le> n \<Longrightarrow> run_step env a a'"
| Close: "\<forall>r j. run_key a r \<noteq> Some (j, Some i) \<Longrightarrow> run_step env a (close_request i a)"

inductive run_steps :: "app_env \<Rightarrow> app \<Rightarrow> app \<Rightarrow> bool" for env where
  Refl: "run_steps env a a"
| Step: "run_steps env a b \<Longrightarrow> run_step env b c \<Longrightarrow> run_steps env a c"

lemma asked_out:
  assumes "wf_app a" "run_asked a r"
  shows "r \<notin> set (tl (ap_run_queue a))" "r \<notin> waiting a 0" "ap_runners a r \<noteq> None"
  using assms wf_app_sel(7) waiting_unasked [OF wf_app_sel(2)] by (blast, blast, auto simp: run_asked_def)

text \<open>The record of an asked runner may change at will.\<close>

lemma wf_app_runner:
  assumes "wf_app a" "r \<notin> set (tl (ap_run_queue a))" "r \<notin> waiting a 0" "ap_runners a r = Some ar"
    and "ar_job ar' = ar_job ar" "rn_id (ar_runner ar') = rn_id (ar_runner ar)" "run_world (ap_w a) w"
  shows "wf_app (a\<lparr>ap_w := w, ap_runners := (ap_runners a)(r \<mapsto> ar')\<rparr>)"
proof -
  let ?b = "a\<lparr>ap_w := w, ap_runners := (ap_runners a)(r \<mapsto> ar')\<rparr>"
  note inv = wf_app_sel [OF assms(1)]
  have key: "run_key ?b = run_key a" using assms(4-6) by (simp add: run_key_def fun_eq_iff)
  have as: "q \<noteq> r \<Longrightarrow> run_asked ?b q = run_asked a q" for q by (simp add: run_asked_def)
  have alive: "ap_runners ?b q \<noteq> None \<longleftrightarrow> ap_runners a q \<noteq> None" for q using assms(4) by simp
  have w: "waiting ?b 0 = waiting a 0" by (simp add: waiting_def)
  have sel: "ap_children ?b = ap_children a" "ap_next_job ?b = ap_next_job a" "ap_next_runner ?b = ap_next_runner a"
    "ap_run_queue ?b = ap_run_queue a" "job_table (ap_w ?b) = job_table (ap_w a)" "next_job_id (ap_w ?b) = next_job_id (ap_w a)"
    using run_world_sel [OF assms(7)] by simp_all
  have "wf_children ?b" using inv(1) unfolding wf_children_def alive sel .
  moreover have "unasked_but {} ?b"
    unfolding unasked_but_def sel
  proof (intro allI impI ballI)
    fix i q assume q: "q \<in> fst ` set (ap_children a i)"
    then have "q \<noteq> r" using assms(3) unfolding waiting_def by blast
    then show "\<not> run_asked ?b q" using inv(2) q as unfolding unasked_but_def by blast
  qed
  moreover have "known_runs ?b" using inv(3) unfolding known_runs_def key sel .
  moreover have "\<not> run_asked ?b q" if "q \<in> set (tl (ap_run_queue a))" for q
    using inv(7) [OF that] as assms(2) that by metis
  ultimately show ?thesis using inv(4-6) unfolding wf_app_def sel w alive by blast
qed

lemma ran_wf:
  assumes "ran n env r ar rn a = Inr a'" "wf_app (a\<lparr>ap_runners := (ap_runners a)(r \<mapsto> ar\<lparr>ar_runner := rn\<rparr>)\<rparr>)"
    and "r \<notin> set (tl (ap_run_queue a))" "r \<notin> waiting a 0" "ap_next_job a \<le> n"
  shows "wf_app a'"
proof -
  let ?b = "a\<lparr>ap_runners := (ap_runners a)(r \<mapsto> ar\<lparr>ar_runner := rn\<rparr>)\<rparr>"
  show ?thesis
  proof (cases "rn_ran rn = rn_ran (ar_runner ar)")
    case True
    then show ?thesis using assms(1,2) by (simp add: ran_def)
  next
    case False
    then have "on_execution_response n env r ?b = Inr a'" using assms(1) by (simp add: ran_def)
    moreover have "r \<notin> waiting ?b 0" using assms(4) by (simp add: waiting_def)
    ultimately show ?thesis using response_wf [OF assms(2), of r n env] assms(3,5) by auto
  qed
qed

lemma answer_wf:
  assumes "machine_answered n env r d load a = Inr a'" "run_asked a r" "wf_app a" "ap_next_job a \<le> n"
  shows "wf_app a'"
proof -
  note out = asked_out [OF assms(3,2)]
  obtain ar where ar: "ap_runners a r = Some ar" using out(3) by blast
  obtain rn w v where resp: "on_response_received (ae_run env) gebrm_daemon_init_iface d load (ar_runner ar) (ap_w a) (ar_valid ar) =
      Inr ((rn, w), v)" and run: "ran n env r (ar\<lparr>ar_valid := v\<rparr>) rn (a\<lparr>ap_w := w\<rparr>) = Inr a'"
    using assms(1) unfolding machine_answered_def by (simp add: ar split: sum.splits prod.splits)
  have rw: "run_world (ap_w a) w" "rn_id rn = rn_id (ar_runner ar)" using response_world [OF resp] by simp_all
  have "wf_app (a\<lparr>ap_w := w, ap_runners := (ap_runners a)(r \<mapsto> ar\<lparr>ar_valid := v, ar_runner := rn\<rparr>)\<rparr>)"
    using assms(3) out(1,2) ar _ _ rw(1) by (rule wf_app_runner) (simp_all add: rw(2))
  then show ?thesis
    using ran_wf [OF run] out(1,2) assms(4) by (simp add: waiting_def)
qed

lemma idle_wf:
  assumes "idle_ran n env r a = Inr a'" "run_asked a r" "wf_app a" "ap_next_job a \<le> n"
  shows "wf_app a'"
proof -
  note out = asked_out [OF assms(3,2)]
  obtain ar where ar: "ap_runners a r = Some ar" using out(3) by blast
  have run: "ran n env r ar (idle_run (ar_runner ar)) a = Inr a'" using assms(1) by (simp add: idle_ran_def ar)
  have i: "rn_id (idle_run (ar_runner ar)) = rn_id (ar_runner ar)" by (simp add: idle_run_def call_ran_func_def)
  have "wf_app (a\<lparr>ap_w := ap_w a, ap_runners := (ap_runners a)(r \<mapsto> ar\<lparr>ar_runner := idle_run (ar_runner ar)\<rparr>)\<rparr>)"
    using assms(3) out(1,2) ar _ _ run_world_refl by (rule wf_app_runner) (simp_all add: i)
  then show ?thesis using ran_wf [OF run _ out(1,2) assms(4)] by simp
qed

lemma distinct_map_remove1: "distinct (map f xs) \<Longrightarrow> distinct (map f (remove1 x xs))"
proof (induction xs)
  case (Cons y ys)
  have "f ` set (remove1 x ys) \<subseteq> f ` set ys" using set_remove1_subset by (rule image_mono)
  with Cons show ?case by auto
qed simp

lemma wf_app_forget:
  assumes "wf_app a"
  shows "wf_app (a\<lparr>ap_children := (ap_children a)(q := remove1 rj (ap_children a q))\<rparr>)"
proof -
  let ?b = "a\<lparr>ap_children := (ap_children a)(q := remove1 rj (ap_children a q))\<rparr>"
  note inv = wf_app_sel [OF assms]
  have sub: "set (ap_children ?b i) \<subseteq> set (ap_children a i)" for i 
    using set_remove1_subset [of rj "ap_children a q"] by (cases "i = q") simp_all
  have sub': "fst ` set (ap_children ?b i) \<subseteq> fst ` set (ap_children a i)" for i using sub [of i] by (rule image_mono)
  have sel: "ap_runners ?b = ap_runners a" "ap_next_job ?b = ap_next_job a" "ap_run_queue ?b = ap_run_queue a"
    "run_asked ?b = run_asked a" "known_runs ?b = known_runs a"
    by (simp_all add: run_asked_def known_runs_def run_key_def fun_eq_iff)
  have "wf_children ?b"
    unfolding wf_children_def
  proof (intro conjI allI impI)
    fix j r c assume "(r, c) \<in> set (ap_children ?b j)"
    then have "(r, c) \<in> set (ap_children a j)" using sub by blast
    then show "j < c" "c < ap_next_job ?b" "ap_runners ?b r \<noteq> None" using inv(1) unfolding wf_children_def sel by blast+
  next
    fix i j r assume "r \<in> fst ` set (ap_children ?b i)" "r \<in> fst ` set (ap_children ?b j)"
    then have "r \<in> fst ` set (ap_children a i)" "r \<in> fst ` set (ap_children a j)" using sub' by blast+
    then show "i = j" using inv(1) unfolding wf_children_def by blast
  next
    fix j
    have d: "distinct (map fst (ap_children a j))" using inv(1) unfolding wf_children_def by blast
    show "distinct (map fst (ap_children ?b j))" using distinct_map_remove1 [OF d, of rj] d by (cases "j = q") simp_all
  qed
  moreover have "unasked_but {} ?b" using inv(2) sub' unfolding unasked_but_def sel by blast
  moreover have "waiting ?b 0 \<subseteq> waiting a 0" using sub' unfolding waiting_def by blast
  ultimately show ?thesis using inv(3-7) unfolding wf_app_def sel by blast
qed

lemma kill_request_wf:
  assumes "kill_request n env i a = Inr a'" "wf_app a" "ap_next_job a \<le> n"
  shows "wf_app a'"
proof (cases "gebrm_app_job_controller_find i (ap_w a)")
  case None
  then show ?thesis using assms(1,2) by (simp add: kill_request_def)
next
  case (Some j)
  have j: "j < ap_next_job a"
    using Some wf_app_sel(3) [OF assms(2)] unfolding known_runs_def gebrm_app_job_controller_find_def by blast
  show ?thesis
  proof (cases "status (jobs (ap_w a) j) = JOB_STATUS_QUEUED")
    case False
    have "job_table (gebrm_job_kill j (ap_w a)) = job_table (ap_w a)" "next_job_id (gebrm_job_kill j (ap_w a)) = next_job_id (ap_w a)"
      using more_eq_sel [OF kill_tasks_sel(2) [of j "ap_w a"]] by (simp_all add: gebrm_job_kill_def)
    then have "wf_app (upd_w (gebrm_job_kill j) a)" using assms(2) by (intro wf_app_cong [OF assms(2)]) simp_all
    then show ?thesis using assms(1) Some False by (simp add: kill_request_def)
  next
    case True
    obtain b where b: "unqueue n env j b = Inr a'" "wf_app b" "ap_next_job b = ap_next_job a"
      using assms(1,2) Some True wf_app_forget [OF assms(2)]
      unfolding kill_request_def by (auto split: option.splits if_splits simp: fun_upd_triv)
    let ?k = "upd_w (gebrm_job_unqueue (ae_now env) j) b"
    show ?thesis
    proof (cases "status (jobs (ap_w b) j) = JOB_STATUS_QUEUED")
      case False
      then show ?thesis using b(1,2) by (simp add: unqueue_def)
    next
      case True
      have "wf_app ?k"
        using b(2) by (rule wf_app_cong) (simp_all add: gebrm_job_unqueue_def True log_event_def set_job_status_def set_job_def)
      moreover have "gebrm_app_job_controller_on_status_change n env j JOB_STATUS_QUEUED JOB_STATUS_CANCELED (Some (ae_now env)) ?k = Inr a'"
        using b(1) True by (simp add: unqueue_def)
      ultimately show ?thesis using status_change_wf(1) [of n env j _ _ _ ?k a'] j b(3) assms(3) by simp
    qed
  qed
qed

text \<open>\<open>/close\<close> takes the job out of the table; the runners are not looked at.\<close>

lemma close_table:
  "next_job_id (snd (gebrm_job_close l j w)) = next_job_id w \<and> job_table (snd (gebrm_job_close l j w)) = job_table w"
  for w :: maestro
proof -
  have "next_job_id (fold (\<lambda>t. gebrm_task_close l t r) ts w) = next_job_id w \<and>
      job_world.more (fold (\<lambda>t. gebrm_task_close l t r) ts w) = job_world.more w" for ts r and w :: maestro
    by (induction ts arbitrary: w) (simp_all add: gebrm_task_close_def Let_def log_event_def)
  note f = this
  have "job_table (fold (\<lambda>t. gebrm_task_close l t r) ts w) = job_table w" for ts r
    using f [of r ts w] more_eq_sel by blast
  with f show ?thesis by (simp add: gebrm_job_close_def)
qed

lemma close_request_sel:
  "ap_children (close_request i a) = ap_children a" "ap_runners (close_request i a) = ap_runners a"
  "ap_run_queue (close_request i a) = ap_run_queue a" "ap_next_job (close_request i a) = ap_next_job a"
  "ap_next_runner (close_request i a) = ap_next_runner a" "job_table (ap_w (close_request i a)) = (job_table (ap_w a))(i := None)"
  "next_job_id (ap_w (close_request i a)) = next_job_id (ap_w a)"
  by (auto simp: close_request_def gebrm_app_job_controller_find_def send_to_clients_eq Let_def close_table fun_upd_idem
      split: option.split)

lemma close_request_wf:
  assumes "wf_app a" "\<forall>r j. run_key a r \<noteq> Some (j, Some i)"
  shows "wf_app (close_request i a)"
proof -
  let ?b = "close_request i a"
  note inv = wf_app_sel [OF assms(1)]
  have key: "run_key ?b = run_key a" "run_asked ?b = run_asked a"
    by (simp_all add: run_key_def run_asked_def fun_eq_iff close_request_sel)
  have "\<exists>k. c = Some k \<and> ((job_table (ap_w a))(i := None)) k = Some j" if r: "run_key a r = Some (j, c)" for r j c
  proof -
    obtain k where k: "c = Some k" "job_table (ap_w a) k = Some j" using inv(3) r unfolding known_runs_def by blast
    then have "k \<noteq> i" using assms(2) r by blast
    with k show ?thesis by simp
  qed
  then have "known_runs ?b"
    using inv(3) unfolding known_runs_def key close_request_sel by (simp add: fun_upd_apply)
  moreover have eqs: "wf_children ?b = wf_children a" "unasked_but {} ?b = unasked_but {} a" "waiting ?b 0 = waiting a 0"
    unfolding wf_children_def unasked_but_def waiting_def key close_request_sel by simp_all
  ultimately show ?thesis using inv(1,2,4-7) unfolding wf_app_def eqs close_request_sel key by blast
qed

lemma closed_run_lost:
  assumes "run_key a r = Some (j, Some i)"
  shows "\<not> wf_app (close_request i a)"
proof
  have key: "run_key (close_request i a) r = Some (j, Some i)" using assms by (simp add: run_key_def close_request_sel)
  assume "wf_app (close_request i a)"
  then have "known_runs (close_request i a)" by (rule wf_app_sel(3))
  then have "\<exists>k. Some i = Some k \<and> job_table (ap_w (close_request i a)) k = Some j"
    using key unfolding known_runs_def by blast
  then show False by (simp add: close_request_sel)
qed

end
