(* ===== verification/Gebrm_Waiting.thy ===== *)
theory Gebrm_Waiting
  imports Gebrm_Steps
begin

text \<open>
  What a client can rely on when it asks for runs: the machines that are chosen, the runs that follow a job, the order
  of the queue, and the failed run that stops all others.
\<close>

section \<open>Machines\<close>

text \<open>
  A run on a group, or on all machines (the empty name), is given to exactly the machines that are logged in,
  belong to the group and have every MPI flavor that the flow needs; the machines that take part in it have at least
  one of them.
\<close>

theorem machines_of_run:
  assumes "group_type \<noteq> Some ''daemon''" "ds = get_comm_servers_list grp group_type a"
  shows "set (get_comm_servers_min_subset ds flavors (ap_w a)) =
      {d \<in> set (ap_daemons a). gebr_comm_server_is_logged (conns (ap_w a) d) \<and> gebrm_daemon_has_group grp (daemons (ap_w a) d) \<and>
         (\<forall>f \<in> set flavors. gebrm_daemon_accepts_mpi f (daemons (ap_w a) d))} \<and>
    set (get_comm_servers_max_subset ds flavors (ap_w a)) =
      {d \<in> set (ap_daemons a). gebr_comm_server_is_logged (conns (ap_w a) d) \<and> gebrm_daemon_has_group grp (daemons (ap_w a) d) \<and>
         (flavors = [] \<or> (\<exists>f \<in> set flavors. gebrm_daemon_accepts_mpi f (daemons (ap_w a) d)))}"
proof -
  have "set ds = {d \<in> set (ap_daemons a). gebr_comm_server_is_logged (conns (ap_w a) d) \<and> gebrm_daemon_has_group grp (daemons (ap_w a) d)}"
    using assms by (auto simp: get_comm_servers_list_def gebrm_daemon_has_group_def Let_def)
  then show ?thesis
    by (auto simp: get_comm_servers_min_subset_def get_comm_servers_max_subset_def list_all_iff list_ex_iff)
qed

section \<open>The invariant of the queue\<close>

text \<open>
  C10: through any requests of clients to run a flow and to kill a job, answers of machines and reports of jobs, the queue
  of runs stays in order: every runner is in it once and alive, only the first one was asked to start, a runner that waits
  for a job is not in the queue and was not asked, and no freed runner is kept anywhere. The same holds for requests to
  close a job, as long as the run of the job is neither waiting nor being started, and for a run that follows another
  job, as long as the client does not name the id that its own job will get.
\<close>

theorem run_queue_kept:
  assumes "run_steps env a a'" "wf_app a"
  shows "wf_app a'"
  using assms
proof (induction rule: run_steps.induct)
  case (Step a b c)
  from Step(2) Step.IH [OF Step.prems] show ?case
  proof cases
    case (Report n j old new par w)
    have "wf_app (b\<lparr>ap_w := w\<rparr>)" using Step.IH [OF Step.prems]
      by (rule wf_app_cong) (use Report(2,3) in simp_all)
    then show ?thesis using status_change_wf(1) [OF Report(1)] Report(4,5) by simp
  qed (auto intro: handle_run_wf answer_wf idle_wf kill_request_wf close_request_wf)
qed

section \<open>The end of a job\<close>

text \<open>
  C11: when a job ends, by whatever status, every run that waited for it is started on its machines or, when none of
  them can run it, its job is canceled; the callback always comes to an end and nothing waits for the job any more.
\<close>

theorem ended_job_starts_children:
  assumes "wf_app a" "j < ap_next_job a" "ap_next_job a \<le> n"
    and "new = JOB_STATUS_FINISHED \<or> new = JOB_STATUS_FAILED \<or> new = JOB_STATUS_CANCELED"
  shows "\<exists>a'. gebrm_app_job_controller_on_status_change n env j old new par a = Inr a' \<and> wf_app a' \<and> ap_children a' j = [] \<and>
     (\<forall>(r, c) \<in> set (ap_children a j). run_asked a' r \<or> status (jobs (ap_w a') c) = JOB_STATUS_CANCELED)"
proof -
  have "ap_next_job a - j \<le> n" using assms(3) by simp
  from status_change_returns [OF wf_app_sel(1) [OF assms(1)] assms(2) this]
  obtain a' where a': "gebrm_app_job_controller_on_status_change n env j old new par a = Inr a'"
    "stops new \<longrightarrow> ap_children a' j = [] \<and> (\<forall>rc \<in> set (ap_children a j). settled a' rc)" by blast
  have "wf_app a'" using status_change_wf(1) [OF a'(1) assms(1-3)] .
  then show ?thesis using a' assms(4) by (auto simp: stops_def settled_def)
qed

section \<open>The queue\<close>

text \<open>
  C13: when the run at the head of the queue was handed over, it leaves the queue and its runner is freed, and the next
  one is started on its machines or, when none of them can run it, its job is canceled.
\<close>

theorem next_run_starts:
  assumes "wf_app a" "ap_run_queue a = r # q # rs" "ap_next_job a \<le> n"
  shows "\<exists>a' j i. on_execution_response n env r a = Inr a' \<and> wf_app a' \<and> ap_run_queue a' = q # rs \<and> ap_runners a' r = None \<and>
     run_key a q = Some (j, i) \<and> (run_asked a' q \<or> status (jobs (ap_w a') j) = JOB_STATUS_CANCELED)"
proof -
  have "r \<in> set (ap_run_queue a)" "q \<in> set (ap_run_queue a)" "r \<notin> set (tl (ap_run_queue a))"
    using assms(2) wf_app_sel(4) [OF assms(1)] by simp_all
  then have r: "ap_runners a r \<noteq> None" "r \<notin> waiting a 0" "run_key a q \<noteq> None" "r \<notin> set (tl (ap_run_queue a))"
    using wf_app_sel(5,6) [OF assms(1)] run_key_alive [of a q] by simp_all
  then obtain j i where "run_key a q = Some (j, i)" by auto
  with response_wf [OF assms(1) r(1,4,2) assms(3), of env] assms(2) show ?thesis by auto
qed

text \<open>The queue after a number of requests.\<close>

fun start_all :: "nat \<Rightarrow> app_env \<Rightarrow> (job_ref \<times> nat) list \<Rightarrow> app \<Rightarrow> app outcome" where
  "start_all n env [] a = Inr a"
| "start_all n env ((j, r) # xs) a = and_then (start_or_wait n env j r a) (start_all n env xs)"

lemma start_all_waits:
  assumes "ap_run_queue a \<noteq> []"
  shows "\<exists>a'. start_all n env xs a = Inr a' \<and> ap_w a' = ap_w a \<and> ap_runners a' = ap_runners a \<and>
     ap_run_queue a' = ap_run_queue a @ map snd xs"
  using assms
proof (induction xs arbitrary: a)
  case (Cons x xs)
  obtain j r where x: "x = (j, r)" by (cases x)
  let ?b = "a\<lparr>ap_def_queue := j # ap_def_queue a, ap_run_queue := ap_run_queue a @ [r]\<rparr>"
  have "start_or_wait n env j r a = Inr ?b" using Cons.prems by (simp add: start_or_wait_def)
  moreover obtain a' where "start_all n env xs ?b = Inr a' \<and> ap_w a' = ap_w ?b \<and> ap_runners a' = ap_runners ?b \<and>
      ap_run_queue a' = ap_run_queue ?b @ map snd xs"
    using Cons.IH [of ?b] by auto
  ultimately show ?case by (intro exI [of _ a']) (simp add: x)
qed simp

lemma no_machine_asked:
  "\<forall>d \<in> set ds. \<not> gebrm_daemon_iface_can_execute d w \<Longrightarrow> request_loads env gebrm_daemon_init_iface ds w = ([], w)"
  by (induction ds) (simp_all add: gebrm_daemon_init_iface_def)

lemma failed_start:
  assumes "ap_runners a r = Some ar" "\<forall>d \<in> set (rn_servers (ar_runner ar)). \<not> gebrm_daemon_iface_can_execute d (ap_w a)"
  shows "\<exists>c. run_async env r a = Inr (False, c)"
  using assms by (simp add: run_async_def gebr_comm_runner_run_async_def no_machine_asked)


section \<open>Examples\<close>

text \<open>Two jobs; the second one waits for the first, or both are in the queue.\<close>

definition two_jobs :: app where
  "two_jobs =
     (gebrm_app_init (logged_world\<lparr>job_table := [''0'' \<mapsto> 0, ''1'' \<mapsto> 1], next_job_id := 2\<rparr>) two_machines_conf)
       \<lparr>ap_next_job := 2, ap_next_runner := 2\<rparr>"

definition run_of :: "job_ref \<Rightarrow> string \<Rightarrow> daemon_ref \<Rightarrow> app_runner" where
  "run_of j i d = \<lparr>ar_runner = plain_runner\<lparr>rn_id := Some i, rn_servers := [d]\<rparr>, ar_job = j, ar_valid = blank_validator\<rparr>"

definition child_app :: app where
  "child_app = two_jobs\<lparr>ap_children := (\<lambda>_. [])(0 := [(1, 1)]), ap_runners := [1 \<mapsto> run_of 1 ''1'' 0]\<rparr>"

definition queue_app :: app where
  "queue_app = two_jobs\<lparr>ap_run_queue := [0, 1], ap_runners := [0 \<mapsto> run_of 0 ''0'' 0, 1 \<mapsto> run_of 1 ''1'' 0]\<rparr>"

definition lone_app :: app where
  "lone_app = two_jobs\<lparr>ap_runners := [0 \<mapsto> run_of 0 ''0'' 7]\<rparr>"

lemma run_of_sel [simp]:
  "ar_job (run_of j i d) = j" "rn_id (ar_runner (run_of j i d)) = Some i" "rn_servers (ar_runner (run_of j i d)) = [d]"
  "rn_requests (ar_runner (run_of j i d)) = 0"
  by (simp_all add: run_of_def plain_runner_def gebr_comm_runner_set_ran_func_def gebr_comm_runner_new_def)

lemma two_jobs_sel [simp]:
  "ap_run_queue two_jobs = []" "ap_next_job two_jobs = 2" "ap_next_runner two_jobs = 2"
  "job_table (ap_w two_jobs) = [''0'' \<mapsto> 0, ''1'' \<mapsto> 1]" "next_job_id (ap_w two_jobs) = 2" "ap_children two_jobs i = []"
  "conns (ap_w two_jobs) = conns logged_world" "daemons (ap_w two_jobs) = daemons logged_world"
  by (simp_all add: two_jobs_def gebrm_app_init_def)

lemma two_ids: "[''0'' \<mapsto> 0, ''1'' \<mapsto> (1 :: nat)] k = Some j \<longleftrightarrow> k = ''0'' \<and> j = 0 \<or> k = ''1'' \<and> j = 1"
  by auto

lemma small_ids: "show_int 0 = ''0''" "show_int 1 = ''1''"
  by code_simp+

lemma two_known:
  assumes "ap_next_job a = 2" "ap_next_runner a = 2" "job_table (ap_w a) = [''0'' \<mapsto> 0, ''1'' \<mapsto> 1]" "next_job_id (ap_w a) = 2"
    and "\<And>r j i. run_key a r = Some (j, i) \<Longrightarrow> r = 0 \<and> j = 0 \<and> i = Some ''0'' \<or> r = 1 \<and> j = 1 \<and> i = Some ''1''"
  shows "known_runs a"
  unfolding known_runs_def assms(1-4) two_ids
proof (intro conjI allI impI)
  fix r j :: nat and i assume "run_key a r = Some (j, i)"
  from assms(5) [OF this] show "r < 2" "j < 2" "\<exists>k. i = Some k \<and> (k = ''0'' \<and> j = 0 \<or> k = ''1'' \<and> j = 1)" by auto
next
  fix k :: string and j :: nat assume "k = ''0'' \<and> j = 0 \<or> k = ''1'' \<and> j = 1"
  then show "j < (2 :: nat)" "\<exists>m\<ge>0. m < (2 :: int) \<and> k = show_int m"
    using small_ids by (auto intro: exI [of _ 0] exI [of _ 1])
qed simp

lemma child_app_wf: "wf_app child_app"
proof -
  have "known_runs child_app"
    by (rule two_known) (auto simp: child_app_def run_key_def split: if_splits)
  then show ?thesis
    by (auto simp: wf_app_def wf_children_def unasked_but_def run_asked_def child_app_def waiting_def)
qed

lemma queue_app_wf: "wf_app queue_app"
proof -
  have "known_runs queue_app"
    by (rule two_known) (auto simp: queue_app_def run_key_def split: if_splits)
  then show ?thesis
    by (auto simp: wf_app_def wf_children_def unasked_but_def run_asked_def queue_app_def waiting_def)
qed

lemma lone_app_wf: "wf_app lone_app" "new_run lone_app 0 0"
proof -
  have "known_runs lone_app"
    by (rule two_known) (auto simp: lone_app_def run_key_def split: if_splits)
  then show "wf_app lone_app"
    by (auto simp: wf_app_def wf_children_def unasked_but_def run_asked_def lone_app_def waiting_def)
  show "new_run lone_app 0 0" by (simp add: new_run_def run_key_def run_asked_def lone_app_def waiting_def)
qed

definition plain_env :: app_env where
  "plain_env =
     \<lparr>ae_run = idle_env, ae_now = ''now'', ae_date = (\<lambda>_. \<lparr>tv_sec = 0, tv_usec = 0\<rparr>), ae_job_ids = (\<lambda>_. []), ae_host = ''h'',
      ae_user = ''u'', ae_load = (\<lambda>_. \<lparr>ld_flow = plain_flow, ld_title = [], ld_description = [], ld_line = 1, ld_project = 2,
        ld_heap = blank_validator, ld_arith = arith blank_validator\<rparr>),
      ae_version = ''1'', ae_lf = (\<lambda>_. ''0''), ae_strtod = (\<lambda>_. 0), ae_cookie = (\<lambda>_. ''c''), ae_atof = (\<lambda>_. 0),
      ae_append_key = (\<lambda>_. []), ae_ssh = (\<lambda>_. ''ssh''), ae_current = 0\<rparr>"

theorem machines_of_run_witness:
  "set (get_comm_servers_min_subset (get_comm_servers_list '''' None two_jobs) [''mpich2''] (ap_w two_jobs)) =
     {d \<in> set (ap_daemons two_jobs). gebr_comm_server_is_logged (conns (ap_w two_jobs) d) \<and>
        gebrm_daemon_has_group '''' (daemons (ap_w two_jobs) d) \<and> gebrm_daemon_accepts_mpi ''mpich2'' (daemons (ap_w two_jobs) d)}"
  using machines_of_run [of None "get_comm_servers_list '''' None two_jobs" "''''" two_jobs "[''mpich2'']"] by simp

theorem ended_job_witness:
  "\<exists>a'. gebrm_app_job_controller_on_status_change 2 plain_env 0 JOB_STATUS_RUNNING JOB_STATUS_FINISHED None child_app = Inr a' \<and>
     (run_asked a' 1 \<or> status (jobs (ap_w a') 1) = JOB_STATUS_CANCELED)"
  using ended_job_starts_children [OF child_app_wf, of 0 2 JOB_STATUS_FINISHED plain_env JOB_STATUS_RUNNING None]
  by (auto simp: child_app_def)

theorem next_run_witness:
  "\<exists>a'. on_execution_response 2 plain_env 0 queue_app = Inr a' \<and> ap_run_queue a' = [1]"
  using next_run_starts [OF queue_app_wf, of 0 1 "[]" 2 plain_env] by (auto simp: queue_app_def)


theorem run_queue_kept_witness: "\<exists>a'. run_step plain_env child_app a' \<and> wf_app a'"
proof -
  obtain a' where a': "gebrm_app_job_controller_on_status_change 2 plain_env 0 JOB_STATUS_RUNNING JOB_STATUS_FINISHED None child_app = Inr a'"
    using status_change_returns [OF wf_app_sel(1) [OF child_app_wf], of 0 2 plain_env JOB_STATUS_RUNNING JOB_STATUS_FINISHED None]
    by (auto simp: child_app_def)
  then have "run_step plain_env child_app a'"
    by (intro run_step.Report [where n = 2 and j = 0 and old = JOB_STATUS_RUNNING and new = JOB_STATUS_FINISHED and par = None and w = "ap_w child_app"])
      (simp_all add: child_app_def)
  moreover from this have "run_steps plain_env child_app a'" by (rule run_steps.Step [OF run_steps.Refl])
  ultimately show ?thesis using run_queue_kept [OF _ child_app_wf] by blast
qed

end
