(* ===== verification/Gebrm_Trust.thy ===== *)
theory Gebrm_Trust
  imports Gebrm_Domain Gebrm_Waiting
begin

text \<open>
  Whom the maestro works with and when it asks: daemons of another domain, clients that log in, machines that are busy,
  and the machines that are listed twice.
\<close>

section \<open>Daemons\<close>


text \<open>
  C5: a daemon that logs in from another domain (its file system is not the one of the first daemon) is disconnected
  and forgets its domain; the domain, the settings and the list of machines stay as they were.
\<close>

theorem foreign_daemon_refused:
  assumes "ap_nfsid a = Some n" "nfsid (daemons (ap_w a) d) \<noteq> Some n" "\<not> reconnect (daemons (ap_w a) d)"
    and "\<forall>x \<in> set (ap_xauth_queue a). xa_daemon x \<noteq> d"
  shows "\<exists>b. on_daemon_init env d None em hg a = Inr b \<and> state (conns (ap_w b) d) = SERVER_STATE_DISCONNECTED \<and>
    nfsid (daemons (ap_w b) d) = None \<and> ap_nfsid b = Some n \<and> ap_conf b = ap_conf a \<and> ap_daemons b = ap_daemons a"
proof -
  define a1 where "a1 = fold (\<lambda>c. upd_w (gebrm_daemon_send_error_message d c)) (ap_connections a) (set_error d (Some ''error:nfs'') em a)"
  have keep: "machine_frame x (fold (\<lambda>c. upd_w (gebrm_daemon_send_error_message d c)) cs x)" for cs x
  proof (induction cs arbitrary: x)
    case (Cons c cs)
    have "machine_frame x (upd_w (gebrm_daemon_send_error_message d c) x)" by (simp add: machine_frame_def upd_w_def)
    then show ?case using Cons.IH by (simp add: machine_frame_trans [OF _ Cons.IH])
  qed simp
  have e: "ap_connections (set_error d (Some ''error:nfs'') em a) = ap_connections a"
    "ap_xauth_queue (set_error d (Some ''error:nfs'') em a) = ap_xauth_queue a" "ap_nfsid (set_error d (Some ''error:nfs'') em a) = ap_nfsid a"
    "ap_conf (set_error d (Some ''error:nfs'') em a) = ap_conf a" "ap_daemons (set_error d (Some ''error:nfs'') em a) = ap_daemons a"
    "reconnect (daemons (ap_w (set_error d (Some ''error:nfs'') em a)) d) = reconnect (daemons (ap_w a) d)"
    by (simp_all add: set_error_def gebrm_daemon_set_error_msg_def gebrm_daemon_set_error_type_def)
  have a1: "ap_nfsid a1 = Some n" "ap_conf a1 = ap_conf a" "ap_daemons a1 = ap_daemons a" "\<not> reconnect (daemons (ap_w a1) d)"
    "\<forall>x \<in> set (ap_xauth_queue a1). xa_daemon x \<noteq> d"
    using keep [of "set_error d (Some ''error:nfs'') em a" "ap_connections a"] e assms
    unfolding a1_def [symmetric] machine_frame_def by simp_all
  obtain b where b: "app_disconnect env d a1 = Inr b" using app_disconnect_returns [OF a1(5)] by blast
  have "init_error d None em a = Some ''error:nfs''" using assms(1,2) by (auto simp: init_error_def)
  then have "on_daemon_init env d None em hg a = Inr b"
    using b by (simp add: on_daemon_init_def refuse_daemon_def Let_def e a1_def)
  then show ?thesis using app_disconnect_result [OF b a1(4)] a1(1-3) by auto
qed

text \<open>
  A machine is added to the list again whenever it is named by \<open>localhost\<close>: it is stored under the name of the host
  but looked up by the name that was given. With such a line in the file of machines every client that logs in adds
  one more.
\<close>

theorem localhost_added_again:
  assumes "\<forall>d \<in> set (ap_daemons a). gebrm_daemon_get_address d (ap_w a) \<noteq> ''localhost''" "\<forall>d \<in> set (ap_daemons a). d < ap_next_daemon a"
    and "ae_host env \<noteq> ''localhost''"
    and "gebrm_add_server_to_list env (Some ''localhost'') tg a = (d, b)" "gebrm_add_server_to_list env (Some ''localhost'') tg b = (e, c)"
  shows "d \<noteq> e \<and> ap_daemons c = e # d # ap_daemons a \<and> gebrm_daemon_get_address d (ap_w c) = ae_host env \<and>
    gebrm_daemon_get_address e (ap_w c) = ae_host env"
proof -
  have new: "d' = ap_next_daemon x \<and> ap_daemons y = d' # ap_daemons x \<and> ap_next_daemon y = d' + 1 \<and>
      conns (ap_w y) = (conns (ap_w x))(d' := conns (ap_w y) d') \<and> gebrm_daemon_get_address d' (ap_w y) = ae_host env"
    if "gebrm_add_server_to_list env (Some ''localhost'') tg x = (d', y)"
      "\<forall>d \<in> set (ap_daemons x). gebrm_daemon_get_address d (ap_w x) \<noteq> ''localhost''" for x d' y
  proof -
    have "gebrm_get_daemon_for_address (Some ''localhost'') x = None"
      using that(2) unfolding gebrm_get_daemon_for_address_def by (auto simp: find_None_iff)
    then show ?thesis
      using that(1) by (cases tg) (auto simp: gebrm_add_server_to_list_def Let_def gebrm_daemon_new_def upd_dm_def upd_w_def
          gebrm_daemon_get_address_def gebr_comm_server_new_def gebr_comm_server_set_check_host_def gebr_comm_server_set_cookie_def
          gebr_apply_pattern_on_address_def)
  qed
  note b = new [OF assms(4,1)]
  have "\<forall>k \<in> set (ap_daemons b). gebrm_daemon_get_address k (ap_w b) \<noteq> ''localhost''"
  proof
    fix k assume k: "k \<in> set (ap_daemons b)"
    have "conns (ap_w b) j = conns (ap_w a) j" if "j \<noteq> d" for j using b that by (metis fun_upd_other)
    then have "k \<noteq> d \<Longrightarrow> gebrm_daemon_get_address k (ap_w b) = gebrm_daemon_get_address k (ap_w a)"
      by (simp add: gebrm_daemon_get_address_def)
    then show "gebrm_daemon_get_address k (ap_w b) \<noteq> ''localhost''"
      using k b assms(1,3) by (cases "k = d") auto
  qed
  note c = new [OF assms(5) this]
  have "d \<noteq> e" using b c by simp
  moreover have "conns (ap_w c) d = conns (ap_w b) d" using c \<open>d \<noteq> e\<close> by (metis fun_upd_other)
  ultimately show ?thesis using b c unfolding gebrm_daemon_get_address_def by metis
qed

section \<open>Confirmation\<close>

text \<open>
  C8: a machine with tasks that are not completed is neither disconnected nor stopped before the user confirms. The
  answer to a request to disconnect that names a machine is one question, whether to disconnect it or, for a client that
  means to remove it, whether to remove it; the answer to a request to stop is one question for every machine of the
  address. Nothing else changes, and a request that names no machine changes nothing.
\<close>

theorem busy_machine_asks_first:
  fixes u a
  defines "addr \<equiv> gebr_comm_uri_get_param u ''address''" and "confirm \<equiv> gebr_comm_uri_get_param u ''confirm''"
  defines "named \<equiv> (\<lambda>d. addr = Some (gebrm_daemon_get_address d (ap_w a)))"
  assumes "confirm \<noteq> Some ''yes''" "\<forall>d \<in> set (ap_daemons a). named d \<longrightarrow> uncompleted_tasks (ap_w a) d > 0"
  shows "disconnect_request n env c u a =
      Inr (if \<exists>d \<in> set (ap_daemons a). named d
           then client_send c cfrm_def [addr, Some (if confirm = Some ''remove'' then ''remove'' else ''disconnect'')] a else a) \<and>
    stop_request n env c u a =
      Inr ((client_send c cfrm_def [addr, Some ''stop''] ^^ length (filter named (ap_daemons a))) a)"
proof (rule conjI)
  show "disconnect_request n env c u a =
      Inr (if \<exists>d \<in> set (ap_daemons a). named d
           then client_send c cfrm_def [addr, Some (if confirm = Some ''remove'' then ''remove'' else ''disconnect'')] a else a)"
  proof (cases "gebrm_get_daemon_for_address addr a")
    case (Some d)
    then have d: "d \<in> set (ap_daemons a)" "named d"
      unfolding gebrm_get_daemon_for_address_def named_def by (auto simp: find_Some_iff)
    then have "\<not> uncompleted_tasks (ap_w a) d \<le> 0" using assms(5) by auto
    then show ?thesis using Some d assms(4) by (auto simp: disconnect_request_def Let_def addr_def confirm_def)
  next
    case None
    then have "\<not> (\<exists>d \<in> set (ap_daemons a). named d)"
      unfolding gebrm_get_daemon_for_address_def named_def by (auto simp: find_None_iff)
    then show ?thesis using None by (simp add: disconnect_request_def addr_def)
  qed
  let ?ask = "client_send c cfrm_def [addr, Some ''stop'']"
  have same: "conns (ap_w (?ask b)) = conns (ap_w b)" "uncompleted_tasks (ap_w (?ask b)) = uncompleted_tasks (ap_w b)" for b
    by (simp_all add: client_send_def)
  have "stop_machines n env c addr confirm ds b = Inr ((?ask ^^ length (filter named ds)) b)"
    if "\<forall>d \<in> set ds. named d \<longrightarrow> uncompleted_tasks (ap_w a) d > 0" "conns (ap_w b) = conns (ap_w a)"
      "uncompleted_tasks (ap_w b) = uncompleted_tasks (ap_w a)" for ds b
    using that
  proof (induction ds arbitrary: b)
    case (Cons d ds)
    have n: "named d \<longleftrightarrow> addr = Some (gebrm_daemon_get_address d (ap_w b))"
      using Cons.prems(2) by (simp add: named_def gebrm_daemon_get_address_def)
    show ?case
    proof (cases "named d")
      case True
      then have "\<not> uncompleted_tasks (ap_w b) d \<le> 0" using Cons.prems by auto
      moreover have "stop_machines n env c addr confirm ds (?ask b) = Inr ((?ask ^^ length (filter named ds)) (?ask b))"
        using Cons.prems by (intro Cons.IH) (simp_all only: same list.set_intros, auto)
      ultimately show ?thesis using True n assms(4) by (simp add: funpow_swap1)
    qed (use Cons n in simp)
  qed simp
  from this [OF assms(5) refl refl]
  show "stop_request n env c u a = Inr ((?ask ^^ length (filter named (ap_daemons a))) a)"
    by (simp add: stop_request_def addr_def confirm_def)
qed

text \<open>
  C9: a machine that is disconnected or stopped at the request of a client keeps its jobs, confirmed or not: no job and
  no task changes, since the list of the jobs that are to be killed is always empty.
\<close>

theorem disconnected_machine_keeps_jobs:
  "(disconnect_request n env c u a = Inr b \<longrightarrow> jobs (ap_w b) = jobs (ap_w a) \<and> tasks (ap_w b) = tasks (ap_w a)) \<and>
   (stop_request n env c u a = Inr b \<longrightarrow> jobs (ap_w b) = jobs (ap_w a) \<and> tasks (ap_w b) = tasks (ap_w a))"
proof -
  have kill: "run_frame x y" if "kill_jobs_of n env d x = Inr y" for d x y
    using that run_frame_trans [OF upd_dm_frame upd_dm_frame] by (auto simp: kill_jobs_of_def list_of_jobs_empty)
  have "run_frame a b" if run: "disconnect_request n env c u a = Inr b"
  proof (cases "gebrm_get_daemon_for_address (gebr_comm_uri_get_param u ''address'') a")
    case (Some d)
    have clients: "run_frame x (x\<lparr>ap_clients := cs\<rparr>)" for x cs by (simp add: run_frame_def)
    show ?thesis
      using run Some unfolding disconnect_request_def Let_def
      by (auto simp: and_then_Inr_conv split: if_splits dest!: kill app_disconnect_frame)
        (rule run_frame_trans, assumption, rule run_frame_trans, assumption, rule clients)+
  qed (use run in \<open>simp add: disconnect_request_def\<close>)
  moreover have "run_frame a b" if run: "stop_machines n env c addr confirm ds a = Inr b" for addr confirm ds a
    using run
  proof (induction ds arbitrary: a)
    case (Cons d ds)
    have stop: "run_frame x (send_server_status_message env c d ac st (set_error d t m (upd_w (upd_conn d f) x)))" for x ac st t m f
    proof -
      have "run_frame y (set_error d t m y)" for y unfolding set_error_def by (rule upd_dm_frame)
      then show ?thesis by (rule run_frame_trans [OF run_frame_trans [OF upd_conn_frame] status_message_frame])
    qed
    obtain x where x: "run_frame a x" "stop_machines n env c addr confirm ds x = Inr b"
      using Cons.prems by (auto simp: and_then_Inr_conv Let_def split: if_splits dest!: kill
          intro: run_frame_trans stop client_send_frame run_frame_refl)
    show ?case by (rule run_frame_trans [OF x(1) Cons.IH [OF x(2)]])
  qed simp
  ultimately show ?thesis by (simp add: stop_request_def run_frame_def)
qed

section \<open>Clients\<close>

lemma auth_frames [simp]:
  "ap_auth (upd_w f a) = ap_auth a" "ap_auth (upd_dm d g a) = ap_auth a" "ap_auth (client_send c m args a) = ap_auth a"
  "ap_auth (client_return c m args a) = ap_auth a" "ap_auth (send_groups_definitions c d a) = ap_auth a"
  "ap_auth (gebrm_app_send_mpi_flavors c d a) = ap_auth a" "ap_auth (gebrm_app_send_home_dir c h a) = ap_auth a"
  "ap_auth (gebrm_app_send_nfsid c n a) = ap_auth a" "ap_auth (send_server_status_message env c d ac st a) = ap_auth a"
  by (simp_all add: upd_w_def upd_dm_def client_send_def client_return_def send_groups_definitions_def gebrm_app_send_mpi_flavors_def
      gebrm_app_send_home_dir_def gebrm_app_send_nfsid_def send_server_status_message_def Let_def)

lemma auth_list [simp]: "ap_auth (snd (gebrm_add_server_to_list env addr tg a)) = ap_auth a"
  by (simp add: gebrm_add_server_to_list_def Let_def split: option.split)

lemma auth_load [simp]: "ap_auth (load_servers_from_key_file env kf a) = ap_auth a"
proof -
  have "ap_auth (load_groups env kf gs a) = ap_auth a" for gs
    by (induction gs arbitrary: a) (simp_all add: split_beta Let_def)
  then show ?thesis by (simp add: load_servers_from_key_file_def)
qed

lemma auth_create [simp]: "ap_auth (gebrm_app_create_possible_daemon_list env a) = ap_auth a"
  by (simp add: gebrm_app_create_possible_daemon_list_def gebrm_config_load_servers_def gebrm_config_load_admin_servers_def Let_def
      split: option.split)

lemma auth_accepted [simp]: "ap_auth (client_accepted env c as a) = ap_auth a"
proof -
  have "ap_auth (fold (tell_daemon_state env c) ds x) = ap_auth x" for ds x
    by (induction ds arbitrary: x) (simp_all add: tell_daemon_state_def Let_def)
  then show ?thesis by (simp add: client_accepted_def Let_def split: option.split)
qed

text \<open>
  C1: the log-in message of a client (INI) is accepted exactly when it brings a cookie of the file of cookies and the
  version of the maestro; whatever the message holds besides does not matter. The cookie is used up, also when the
  version does not fit, and the cookies of others stay. A message that is not accepted is answered with one error and
  changes nothing else. (It says nothing of the other messages and of the requests over HTTP, which the maestro answers
  without asking whether the client has logged in.)
\<close>

theorem cookie_lets_client_in:
  fixes env c "as" a
  defines "r \<equiv> client_ini env c as a"
  shows "(fst r \<longleftrightarrow> fst (gebr_auth_accepts (as ! 7) (ap_auth a)) \<and> as ! 1 = ae_version env) \<and>
    \<not> fst (gebr_auth_accepts (as ! 7) (ap_auth (snd r))) \<and>
    (\<forall>k. k \<noteq> as ! 7 \<longrightarrow> fst (gebr_auth_accepts k (ap_auth (snd r))) = fst (gebr_auth_accepts k (ap_auth a))) \<and>
    (\<not> fst r \<longrightarrow> (\<exists>auth t m. snd r = client_send c err_def [Some (ae_host env), Some ''maestro'', Some t, Some m] (a\<lparr>ap_auth := auth\<rparr>)))"
proof -
  obtain ok auth where k: "gebr_auth_accepts (as ! 7) (ap_auth a) = (ok, auth)" by fastforce
  have auth: "ap_auth (snd r) = auth" by (simp add: r_def client_ini_def k Let_def)
  have no: "auth = ap_auth a" if "\<not> ok"
    using k that by (auto simp: gebr_auth_accepts_def split: option.splits if_splits)
  have used: "\<not> fst (gebr_auth_accepts (as ! 7) auth)" "x \<noteq> as ! 7 \<Longrightarrow> fst (gebr_auth_accepts x auth) = fst (gebr_auth_accepts x (ap_auth a))" for x
    using k no cookie_accepted_once [of "as ! 7" "ap_auth a" auth] by (cases ok; simp)+
  have "fst r \<longleftrightarrow> ok \<and> as ! 1 = ae_version env"
    "\<not> fst r \<longrightarrow> (\<exists>auth t m. snd r = client_send c err_def [Some (ae_host env), Some ''maestro'', Some t, Some m] (a\<lparr>ap_auth := auth\<rparr>))"
    by (auto simp: r_def client_ini_def k Let_def)
  then show ?thesis using used unfolding auth by (simp add: k)
qed

section \<open>Examples\<close>

definition idle_app :: app where
  "idle_app = (gebrm_app_init logged_world two_machines_conf)\<lparr>ap_daemons := [0], ap_next_daemon := 1, ap_auth := Some [''key'']\<rparr>"

lemma idle_app_sel [simp]:
  "ap_w idle_app = logged_world" "ap_daemons idle_app = [0]" "ap_connections idle_app = []" "ap_nfsid idle_app = None"
  "ap_xauth_queue idle_app = []" "ap_connect_all idle_app = False" "ap_auth idle_app = Some [''key'']" "ap_next_daemon idle_app = 1"
  by (simp_all add: idle_app_def gebrm_app_init_def)

definition node_uri :: uri where
  "node_uri = gebr_comm_uri_add_param ''address'' (Some ''node'') gebr_comm_uri_new"

lemma node_uri_sel [simp]:
  "gebr_comm_uri_get_param node_uri ''address'' = Some ''node''" "gebr_comm_uri_get_param node_uri ''confirm'' = None"
  by (simp_all add: node_uri_def gebr_comm_uri_get_param_def gebr_comm_uri_add_param_def gebr_comm_uri_new_def)

lemma pattern_on_node: "gebr_apply_pattern_on_address ''h'' ''node'' = ''node''"
  by code_simp

lemma logged_world_sel [simp]:
  "address (conns logged_world d) = ''node''" "state (conns logged_world 0) = SERVER_STATE_LOGGED"
  "daemons logged_world d = gebrm_daemon_init" "uncompleted_tasks logged_world d = 1"
  by (simp_all add: logged_world_def daemon_world_def job_world.extend_def example_world_def upd_conn_def gebr_comm_server_new_def
      pattern_on_node)

lemma new_daemon_sel [simp]: "\<not> reconnect gebrm_daemon_init" "nfsid gebrm_daemon_init = None"
  by (simp_all add: gebrm_daemon_init_def)


theorem foreign_daemon_witness:
  "\<exists>b. on_daemon_init plain_env 0 None None False (idle_app\<lparr>ap_nfsid := Some ''n''\<rparr>) = Inr b \<and>
     state (conns (ap_w b) 0) = SERVER_STATE_DISCONNECTED"
  using foreign_daemon_refused [of "idle_app\<lparr>ap_nfsid := Some ''n''\<rparr>" "''n''" 0 plain_env None False] by auto

theorem localhost_witness:
  "\<exists>d b e c. gebrm_add_server_to_list plain_env (Some ''localhost'') None idle_app = (d, b) \<and>
     gebrm_add_server_to_list plain_env (Some ''localhost'') None b = (e, c) \<and> d \<noteq> e \<and> ap_daemons c = [e, d, 0]"
proof -
  obtain d b where b: "gebrm_add_server_to_list plain_env (Some ''localhost'') None idle_app = (d, b)" by fastforce
  obtain e c where c: "gebrm_add_server_to_list plain_env (Some ''localhost'') None b = (e, c)" by fastforce
  have "ae_host plain_env = ''h''" by (simp add: plain_env_def)
  then have "d \<noteq> e \<and> ap_daemons c = e # d # ap_daemons idle_app"
    using localhost_added_again [of idle_app plain_env None d b e c] b c by (simp add: gebrm_daemon_get_address_def)
  with b c show ?thesis by simp
qed

theorem busy_machine_witness:
  "disconnect_request 1 plain_env 0 node_uri idle_app = Inr (client_send 0 cfrm_def [Some ''node'', Some ''disconnect''] idle_app) \<and>
   stop_request 1 plain_env 0 node_uri idle_app = Inr (client_send 0 cfrm_def [Some ''node'', Some ''stop''] idle_app)"
  using busy_machine_asks_first [of node_uri idle_app 1 plain_env 0] by (simp add: gebrm_daemon_get_address_def)

theorem disconnected_machine_witness:
  "\<exists>b. disconnect_request 1 plain_env 0 (gebr_comm_uri_add_param ''confirm'' (Some ''yes'') node_uri) idle_app = Inr b \<and>
     jobs (ap_w b) = jobs logged_world"
proof -
  let ?u = "gebr_comm_uri_add_param ''confirm'' (Some ''yes'') node_uri"
  have u: "gebr_comm_uri_get_param ?u ''address'' = Some ''node''" "gebr_comm_uri_get_param ?u ''confirm'' = Some ''yes''"
    by (simp_all add: node_uri_def gebr_comm_uri_get_param_def gebr_comm_uri_add_param_def gebr_comm_uri_new_def)
  obtain x where x: "kill_jobs_of 1 plain_env 0 idle_app = Inr x" "ap_xauth_queue x = []"
    by (simp add: kill_jobs_of_def list_of_jobs_empty)
  obtain y where "app_disconnect plain_env 0 x = Inr y" using app_disconnect_returns [of x 0 plain_env] x(2) by auto
  then obtain b where b: "disconnect_request 1 plain_env 0 ?u idle_app = Inr b"
    using x(1) by (simp add: disconnect_request_def u Let_def gebrm_get_daemon_for_address_def gebrm_daemon_get_address_def)
  then show ?thesis using disconnected_machine_keeps_jobs [of 1 plain_env 0 ?u idle_app b] by simp
qed

theorem cookie_witness:
  "let r = client_ini plain_env 0 [''h'', ''1'', ''m'', ''i'', ''0'', ''0'', ''g'', ''key''] idle_app
   in fst r \<and> \<not> fst (gebr_auth_accepts ''key'' (ap_auth (snd r)))"
proof -
  have "fst (gebr_auth_accepts ''key'' (Some [''key'']))" "ae_version plain_env = ''1''" by (code_simp, simp add: plain_env_def)
  then show ?thesis
    using cookie_lets_client_in [of plain_env 0 "[''h'', ''1'', ''m'', ''i'', ''0'', ''0'', ''g'', ''key'']" idle_app]
    by (simp add: Let_def)
qed

end
