(* ===== verification/Gebr_Job.thy ===== *)
theory Gebr_Job
  imports Comm_Job Utils_Text Flow_Divide Comm_Uri
begin

text \<open>
  The jobs of the graphical client (\<open>gebr/gebr-job.c\<close>): the copy of a job of the maestro, with a slot for each machine
  that runs a part of it. A job is a record; what its signals say is returned by the operations that emit them.
\<close>

section \<open>State\<close>

type_synonym cjob_ref = nat

record client_task =
  ct_frac :: int
  ct_server :: string
  ct_cmd_line :: cstr
  ct_percentage :: real
  ct_output :: string

record client_job =
  cj_runid :: cstr
  cj_status :: comm_job_status
  cj_run_type :: cstr
  cj_exec_speed :: real
  cj_flow_id :: cstr
  cj_job_counter :: cstr
  cj_flow_title :: cstr
  cj_title :: cstr
  cj_description :: cstr
  cj_queue :: cstr
  cj_hostname :: cstr
  cj_server_group :: cstr
  cj_server_group_type :: cstr
  cj_input_file :: cstr
  cj_output_file :: cstr
  cj_log_file :: cstr
  cj_submit_date :: cstr
  cj_start_date :: cstr
  cj_finish_date :: cstr
  cj_issues :: cstr
  cj_nice :: cstr
  cj_nprocs :: cstr
  cj_maestro_address :: cstr
  cj_nfs_label :: cstr
  cj_mpi_owner :: cstr
  cj_mpi_flavor :: cstr
  cj_snapshot_title :: cstr
  cj_snapshot_id :: cstr
  cj_server_list :: cstr
  cj_is_fake :: bool
  cj_tasks :: "client_task list"

datatype job_event =
  CjStatus comm_job_status comm_job_status cstr
  | CjIssued cstr
  | CjCmdLine int cstr
  | CjOutput int string
  | CjRemove

definition gebr_job_init :: client_job where
  "gebr_job_init =
     \<lparr>cj_runid = None, cj_status = JOB_STATUS_INITIAL, cj_run_type = None, cj_exec_speed = 0, cj_flow_id = None,
      cj_job_counter = None, cj_flow_title = None, cj_title = None, cj_description = None, cj_queue = None,
      cj_hostname = None, cj_server_group = None, cj_server_group_type = None, cj_input_file = None,
      cj_output_file = None, cj_log_file = None, cj_submit_date = None, cj_start_date = None, cj_finish_date = None,
      cj_issues = None, cj_nice = None, cj_nprocs = None, cj_maestro_address = None, cj_nfs_label = None,
      cj_mpi_owner = None, cj_mpi_flavor = None, cj_snapshot_title = None, cj_snapshot_id = None,
      cj_server_list = None, cj_is_fake = True, cj_tasks = []\<rparr>"

definition gebr_job_new_with_id :: "cstr \<Rightarrow> cstr \<Rightarrow> cstr \<Rightarrow> client_job" where
  "gebr_job_new_with_id rid q run_type =
     gebr_job_init\<lparr>cj_queue := q, cj_runid := rid, cj_run_type := run_type, cj_mpi_flavor := Some [],
       cj_snapshot_id := Some []\<rparr>"

text \<open>A job that was not sent yet has an id of its own: a counter and the id of the session.\<close>

definition gebr_job_new :: "int \<Rightarrow> string \<Rightarrow> cstr \<Rightarrow> cstr \<Rightarrow> client_job" where
  "gebr_job_new i session q run_type = gebr_job_new_with_id (Some (show_int i @ '':'' @ session)) q run_type"

section \<open>Questions\<close>

definition gebr_job_is_stopped :: "client_job \<Rightarrow> bool" where
  "gebr_job_is_stopped j \<longleftrightarrow>
     cj_status j = JOB_STATUS_FINISHED \<or> cj_status j = JOB_STATUS_FAILED \<or> cj_status j = JOB_STATUS_CANCELED"

definition gebr_job_is_queueable :: "client_job \<Rightarrow> bool" where
  "gebr_job_is_queueable j \<longleftrightarrow> cj_status j = JOB_STATUS_QUEUED \<or> cj_status j = JOB_STATUS_RUNNING"

definition gebr_job_can_close :: "client_job \<Rightarrow> bool" where
  "gebr_job_can_close j \<longleftrightarrow>
     cj_status j = JOB_STATUS_FINISHED \<or> cj_status j = JOB_STATUS_FAILED \<or> cj_status j = JOB_STATUS_INITIAL \<or>
     cj_status j = JOB_STATUS_CANCELED"

definition gebr_job_can_kill :: "client_job \<Rightarrow> bool" where
  "gebr_job_can_kill j \<longleftrightarrow> cj_status j = JOB_STATUS_QUEUED \<or> cj_status j = JOB_STATUS_RUNNING"

text \<open>A machine without a share leaves a NULL in the vector, which ends it for most readers.\<close>

definition gebr_job_get_servers :: "client_job \<Rightarrow> cstr list \<times> nat" where
  "gebr_job_get_servers j =
     (let vs = map (\<lambda>t. if ct_percentage t > 0 then Some (ct_server t) else None) (cj_tasks j)
      in (vs @ [None], length (filter (\<lambda>v. v \<noteq> None) vs)))"

fun odd_elements :: "'a list \<Rightarrow> 'a list" where
  "odd_elements (x # y # xs) = y # odd_elements xs"
| "odd_elements _ = []"

definition gebr_job_get_total_procs :: "client_job \<Rightarrow> int" where
  "gebr_job_get_total_procs j =
     (case cj_server_list j of None \<Rightarrow> 0 | Some s \<Rightarrow> sum_list (map c_atoi (odd_elements (g_strsplit s '','' (- 1)))))"

definition gebr_job_get_percentages :: "client_job \<Rightarrow> real list" where
  "gebr_job_get_percentages j = map ct_percentage (cj_tasks j)"

text \<open>A missing command line is printed as glibc prints NULL.\<close>

definition gebr_job_get_command_line :: "client_job \<Rightarrow> string" where
  "gebr_job_get_command_line j =
     concat (map (\<lambda>t. ''Command line (node '' @ ct_server t @ ''):'' @ [NL] @
       (case ct_cmd_line t of None \<Rightarrow> ''(null)'' | Some c \<Rightarrow> c) @ [NL, NL]) (cj_tasks j))"

definition gebr_job_get_output :: "client_job \<Rightarrow> string" where
  "gebr_job_get_output j = concat (map ct_output (cj_tasks j))"

definition gebr_job_has_issues :: "client_job \<Rightarrow> bool" where
  "gebr_job_has_issues j \<longleftrightarrow> (case cj_issues j of None \<Rightarrow> False | Some s \<Rightarrow> s \<noteq> [])"

definition nonblank_file :: "cstr \<Rightarrow> cstr" where
  "nonblank_file f = (if f = Some [] then None else f)"

definition gebr_job_get_io :: "client_job \<Rightarrow> cstr \<times> cstr \<times> cstr" where
  "gebr_job_get_io j = (nonblank_file (cj_input_file j), nonblank_file (cj_output_file j), nonblank_file (cj_log_file j))"

definition gebr_job_get_running_time :: "(cstr \<Rightarrow> timeval) \<Rightarrow> timeval \<Rightarrow> cstr \<Rightarrow> string" where
  "gebr_job_get_running_time parse_date current start_date = gebr_calculate_detailed_relative_time (parse_date start_date) current"

definition gebr_job_get_elapsed_time :: "(cstr \<Rightarrow> timeval) \<Rightarrow> client_job \<Rightarrow> string" where
  "gebr_job_get_elapsed_time parse_date j =
     (let start = (if cj_start_date j = None \<or> cj_start_date j = Some [] then cj_submit_date j else cj_start_date j)
      in gebr_calculate_detailed_relative_time (parse_date start) (parse_date (cj_finish_date j)))"

definition gebr_job_get_server_group :: "client_job \<Rightarrow> string" where
  "gebr_job_get_server_group j = (case cj_server_group j of None \<Rightarrow> [] | Some g \<Rightarrow> g)"

section \<open>Changes\<close>

text \<open>The machines come as pairs of a name and a share; they are set once. A part without machines leaves no table.\<close>

fun task_slots :: "(string \<Rightarrow> real) \<Rightarrow> int \<Rightarrow> string list \<Rightarrow> client_task list" where
  "task_slots strtod n (s # p # xs) =
     \<lparr>ct_frac = n, ct_server = s, ct_cmd_line = None, ct_percentage = strtod p, ct_output = []\<rparr> # task_slots strtod (n + 1) xs"
| "task_slots strtod n _ = []"

definition gebr_job_set_servers :: "(string \<Rightarrow> real) \<Rightarrow> string \<Rightarrow> client_job \<Rightarrow> client_job" where
  "gebr_job_set_servers strtod s j =
     (if cj_tasks j \<noteq> [] then j else j\<lparr>cj_tasks := task_slots strtod 1 (g_strsplit s '','' 0)\<rparr>)"

definition gebr_job_set_server_list :: "cstr \<Rightarrow> client_job \<Rightarrow> client_job" where
  "gebr_job_set_server_list s j =
     (if cj_server_list j = None \<and> s \<noteq> None \<and> s \<noteq> Some [] then j\<lparr>cj_server_list := s\<rparr> else j)"

definition gebr_job_set_runid :: "string \<Rightarrow> client_job \<Rightarrow> client_job" where
  "gebr_job_set_runid i j = j\<lparr>cj_runid := Some i, cj_is_fake := False\<rparr>"

definition gebr_job_set_io :: "cstr \<Rightarrow> cstr \<Rightarrow> cstr \<Rightarrow> client_job \<Rightarrow> client_job" where
  "gebr_job_set_io i out l j = j\<lparr>cj_input_file := i, cj_output_file := out, cj_log_file := l\<rparr>"

definition gebr_job_set_server_group :: "cstr \<Rightarrow> client_job \<Rightarrow> client_job" where
  "gebr_job_set_server_group g j = j\<lparr>cj_server_group := Some (case g of None \<Rightarrow> [] | Some x \<Rightarrow> x)\<rparr>"

definition gebr_job_set_static_status :: "comm_job_status \<Rightarrow> client_job \<Rightarrow> job_event list \<times> client_job" where
  "gebr_job_set_static_status st j = ([CjStatus JOB_STATUS_INITIAL st (Some [])], j\<lparr>cj_status := st\<rparr>)"

text \<open>The parameter of a report that a job runs or ended is its date.\<close>

definition gebr_job_set_status :: "comm_job_status \<Rightarrow> cstr \<Rightarrow> client_job \<Rightarrow> job_event list \<times> client_job" where
  "gebr_job_set_status st par j =
     ([CjStatus (cj_status j) st par],
      (case st of
         JOB_STATUS_RUNNING \<Rightarrow> j\<lparr>cj_status := st, cj_start_date := par, cj_finish_date := par\<rparr>
       | JOB_STATUS_CANCELED \<Rightarrow> j\<lparr>cj_status := st, cj_finish_date := par\<rparr>
       | JOB_STATUS_FAILED \<Rightarrow> j\<lparr>cj_status := st, cj_finish_date := par\<rparr>
       | JOB_STATUS_FINISHED \<Rightarrow> j\<lparr>cj_status := st, cj_finish_date := par\<rparr>
       | _ \<Rightarrow> j\<lparr>cj_status := st\<rparr>))"

text \<open>\<open>None\<close>: the slot is outside the table.\<close>

definition upd_slot :: "int \<Rightarrow> (client_task \<Rightarrow> client_task) \<Rightarrow> client_job \<Rightarrow> client_job option" where
  "upd_slot k f j =
     (if 0 \<le> k \<and> nat k < length (cj_tasks j)
      then Some (j\<lparr>cj_tasks := (cj_tasks j)[nat k := f (cj_tasks j ! nat k)]\<rparr>) else None)"

definition gebr_job_set_cmd_line :: "int \<Rightarrow> string \<Rightarrow> client_job \<Rightarrow> (job_event list \<times> client_job) option" where
  "gebr_job_set_cmd_line k cmd j = map_option (Pair [CjCmdLine k (Some cmd)]) (upd_slot k (\<lambda>t. t\<lparr>ct_cmd_line := Some cmd\<rparr>) j)"

definition gebr_job_append_output :: "int \<Rightarrow> string \<Rightarrow> client_job \<Rightarrow> (job_event list \<times> client_job) option" where
  "gebr_job_append_output k out j =
     map_option (Pair [CjOutput k out]) (upd_slot k (\<lambda>t. t\<lparr>ct_output := ct_output t @ out\<rparr>) j)"

definition gebr_job_set_issues :: "string \<Rightarrow> client_job \<Rightarrow> job_event list \<times> client_job" where
  "gebr_job_set_issues iss j = ([CjIssued (Some iss)], j\<lparr>cj_issues := Some iss\<rparr>)"

definition gebr_job_remove :: "job_event list" where
  "gebr_job_remove = [CjRemove]"

section \<open>Requests\<close>

definition job_uri :: "string \<Rightarrow> client_job \<Rightarrow> uri" where
  "job_uri p j =
     gebr_comm_uri_add_param ''id'' (cj_runid j) (gebr_comm_uri_set_prefix (Some p) gebr_comm_uri_new)"

text \<open>The requests that are sent, if any; a job that was never sent is closed without one.\<close>

definition gebr_job_close :: "client_job \<Rightarrow> bool \<times> uri option" where
  "gebr_job_close j =
     (if \<not> gebr_job_can_close j then (False, None)
      else if cj_is_fake j then (True, None) else (True, Some (job_uri ''/close'' j)))"

definition gebr_job_kill :: "client_job \<Rightarrow> uri option" where
  "gebr_job_kill j = (if gebr_job_can_kill j then Some (job_uri ''/kill'' j) else None)"

section \<open>Slots\<close>

lemma task_slots_length: "length (task_slots f n xs) = length xs div 2"
  by (induction f n xs rule: task_slots.induct) auto

lemma task_slots_frac: "k < length (task_slots f n xs) \<Longrightarrow> ct_frac (task_slots f n xs ! k) = n + int k"
proof (induction f n xs arbitrary: k rule: task_slots.induct)
  case (1 f n s p xs)
  then show ?case by (cases k) auto
qed auto

lemma task_slots_blank:
  "k < length (task_slots f n xs) \<Longrightarrow> ct_output (task_slots f n xs ! k) = [] \<and> ct_cmd_line (task_slots f n xs ! k) = None"
proof (induction f n xs arbitrary: k rule: task_slots.induct)
  case (1 f n s p xs)
  then show ?case by (cases k) auto
qed auto

lemma upd_slot_some:
  "upd_slot k f j = Some j' \<longleftrightarrow>
     0 \<le> k \<and> nat k < length (cj_tasks j) \<and> j' = j\<lparr>cj_tasks := (cj_tasks j)[nat k := f (cj_tasks j ! nat k)]\<rparr>"
  by (auto simp: upd_slot_def)

text \<open>No job can be both closed and killed, and a job that stopped can be closed.\<close>

lemma close_or_kill: "\<not> (gebr_job_can_close j \<and> gebr_job_can_kill j)" "gebr_job_is_stopped j \<Longrightarrow> gebr_job_can_close j"
  by (auto simp: gebr_job_can_close_def gebr_job_can_kill_def gebr_job_is_stopped_def)

end
