(* ===== verification/Gebr_Machine.thy ===== *)
theory Gebr_Machine
  imports Comm_Server Comm_Uri "HOL-Library.Char_ord" "HOL-Library.List_Lexorder"
begin

text \<open>
  The machines of the graphical client (\<open>gebr/gebr-daemon-server.c\<close>): what the maestro told about each of its daemons.
  The machine with an empty address stands for the choice by the maestro.
\<close>

record client_daemon =
  cd_address :: string
  cd_hostname :: cstr
  cd_ac :: bool
  cd_error_msg :: cstr
  cd_error_type :: cstr
  cd_state :: server_state
  cd_tags :: "string list"
  cd_maestro_addr :: string
  cd_mpi_flavors :: cstr
  cd_ncores :: int
  cd_clock :: cstr
  cd_model :: cstr
  cd_memory :: cstr
  cd_timeout :: int

definition gebr_daemon_server_new :: "cstr \<Rightarrow> server_state \<Rightarrow> cstr \<Rightarrow> client_daemon" where
  "gebr_daemon_server_new addr st maestro_addr =
     \<lparr>cd_address = (case addr of None \<Rightarrow> [] | Some a \<Rightarrow> a), cd_hostname = None, cd_ac = True, cd_error_msg = None,
      cd_error_type = None, cd_state = st, cd_tags = [], cd_maestro_addr = (case maestro_addr of None \<Rightarrow> [] | Some a \<Rightarrow> a),
      cd_mpi_flavors = None, cd_ncores = 0, cd_clock = None, cd_model = None, cd_memory = None, cd_timeout = - 1\<rparr>"

definition gebr_daemon_server_is_autochoose :: "client_daemon \<Rightarrow> bool" where
  "gebr_daemon_server_is_autochoose d \<longleftrightarrow> cd_address d = []"

text \<open>The tags are prepended one by one.\<close>

definition gebr_daemon_server_set_tags :: "string list \<Rightarrow> client_daemon \<Rightarrow> client_daemon" where
  "gebr_daemon_server_set_tags tags d = d\<lparr>cd_tags := rev tags\<rparr>"

definition gebr_daemon_server_has_tag :: "cstr \<Rightarrow> client_daemon \<Rightarrow> bool" where
  "gebr_daemon_server_has_tag tag d \<longleftrightarrow>
     (case tag of None \<Rightarrow> True | Some t \<Rightarrow> t = [] \<or> t \<in> set (cd_tags d))"

definition gebr_daemon_server_accepts_mpi :: "string \<Rightarrow> client_daemon \<Rightarrow> bool" where
  "gebr_daemon_server_accepts_mpi flavor d \<longleftrightarrow>
     (case cd_mpi_flavors d of
        None \<Rightarrow> False
      | Some fs \<Rightarrow> gebr_strv_indexof (g_strsplit fs '','' (- 1)) flavor \<noteq> - 1)"

lemma strv_indexof_iff: "strv_indexof_from i xs x \<noteq> - 1 \<longleftrightarrow> x \<in> set xs"
  by (induction xs arbitrary: i) auto

lemma accepts_mpi_iff:
  "gebr_daemon_server_accepts_mpi f d \<longleftrightarrow> (\<exists>fs. cd_mpi_flavors d = Some fs \<and> f \<in> set (g_strsplit fs '','' (- 1)))"
  by (simp add: gebr_daemon_server_accepts_mpi_def gebr_strv_indexof_def strv_indexof_iff split: option.split)

section \<open>Requests on a machine\<close>

text \<open>
  The requests of \<open>gebr-maestro-server.c\<close> that name a machine (the interface \<open>GebrConnectable\<close> and the tags); an address
  that is NULL is sent as such.
\<close>

definition request_uri :: "string \<Rightarrow> (string \<times> cstr) list \<Rightarrow> uri" where
  "request_uri p ps = fold (\<lambda>(k, v). gebr_comm_uri_add_param k v) ps (gebr_comm_uri_set_prefix (Some p) gebr_comm_uri_new)"

definition gebr_maestro_server_connectable_connect :: "string \<Rightarrow> uri" where
  "gebr_maestro_server_connectable_connect addr = request_uri ''/server'' [(''address'', Some addr), (''respect-ac'', Some ''0'')]"

definition gebr_maestro_server_connectable_disconnect :: "string \<Rightarrow> string \<Rightarrow> uri" where
  "gebr_maestro_server_connectable_disconnect addr confirm =
     request_uri ''/disconnect'' [(''address'', Some addr), (''confirm'', Some confirm)]"

definition gebr_maestro_server_remove :: "string \<Rightarrow> uri" where
  "gebr_maestro_server_remove addr = request_uri ''/remove'' [(''address'', Some addr)]"

definition gebr_maestro_server_stop :: "string \<Rightarrow> string \<Rightarrow> uri" where
  "gebr_maestro_server_stop addr confirm = request_uri ''/stop'' [(''address'', Some addr), (''confirm'', Some confirm)]"

definition gebr_daemon_server_connect :: "client_daemon \<Rightarrow> uri" where
  "gebr_daemon_server_connect d = gebr_maestro_server_connectable_connect (cd_address d)"

definition gebr_daemon_server_disconnect :: "client_daemon \<Rightarrow> uri" where
  "gebr_daemon_server_disconnect d = gebr_maestro_server_connectable_disconnect (cd_address d) []"

definition gebr_maestro_server_add_tag_to :: "client_daemon \<Rightarrow> string \<Rightarrow> uri" where
  "gebr_maestro_server_add_tag_to d tag = request_uri ''/tag-insert'' [(''server'', Some (cd_address d)), (''tag'', Some tag)]"

definition gebr_maestro_server_remove_tag_from :: "client_daemon \<Rightarrow> string \<Rightarrow> uri" where
  "gebr_maestro_server_remove_tag_from d tag = request_uri ''/tag-remove'' [(''server'', Some (cd_address d)), (''tag'', Some tag)]"

definition gebr_maestro_server_set_autoconnect :: "client_daemon \<Rightarrow> bool \<Rightarrow> uri" where
  "gebr_maestro_server_set_autoconnect d ac =
     request_uri ''/autoconnect'' [(''server'', Some (cd_address d)), (''ac'', Some (if ac then ''on'' else ''off''))]"

lemma request_params:
  "distinct (map fst ps) \<Longrightarrow> uri_params (request_uri p ps) = ps" "uri_prefix (request_uri p ps) = Some p"
proof -
  have run: "distinct (map fst (uri_params u @ ps)) \<Longrightarrow>
      uri_params (fold (\<lambda>(k, v). gebr_comm_uri_add_param k v) ps u) = uri_params u @ ps" for u
  proof (induction ps arbitrary: u)
    case (Cons x ps)
    obtain k v where x: "x = (k, v)" by fastforce
    have "k \<notin> fst ` set (uri_params u)" using Cons.prems by (auto simp: x)
    then have "uri_params (gebr_comm_uri_add_param k v u) = uri_params u @ [(k, v)]"
      by (simp add: gebr_comm_uri_add_param_def update_new)
    then show ?case using Cons.IH [of "gebr_comm_uri_add_param k v u"] Cons.prems by (simp add: x)
  qed simp
  show "distinct (map fst ps) \<Longrightarrow> uri_params (request_uri p ps) = ps"
    using run [of "gebr_comm_uri_set_prefix (Some p) gebr_comm_uri_new"]
    by (simp add: request_uri_def gebr_comm_uri_set_prefix_def gebr_comm_uri_new_def)
  have "uri_prefix (fold (\<lambda>(k, v). gebr_comm_uri_add_param k v) ps u) = uri_prefix u" for u
    by (induction ps arbitrary: u) (auto simp: gebr_comm_uri_add_param_def)
  then show "uri_prefix (request_uri p ps) = Some p"
    by (simp add: request_uri_def gebr_comm_uri_set_prefix_def)
qed

end
