(* ===== verification/Gebr_Maestro_Server.thy ===== *)
theory Gebr_Maestro_Server
  imports Gebr_Job Gebr_Machine Gebrm_Daemon Key_File
begin

text \<open>
  The connection of the graphical client to its maestro (\<open>gebr/gebr-maestro-server.c\<close>): the jobs, machines and groups that
  the client knows, the messages that change them, and the requests it sends. What its signals say to the widgets, and the
  requests, are a trace of events. The answers of dialogs are parameters.
\<close>

section \<open>State\<close>

type_synonym cdaemon_ref = nat

datatype group_type = MAESTRO_SERVER_TYPE_GROUP | MAESTRO_SERVER_TYPE_DAEMON

datatype mount_status = STATUS_MOUNT_OK | STATUS_MOUNT_NOK | STATUS_MOUNT_PROGRESS

datatype view_event =
  VJob cjob_ref job_event
  | VJobDefine cjob_ref
  | VGroupChanged
  | VDaemonsChanged
  | VStateChange
  | VAcChange bool "cdaemon_ref option"
  | VMpiChanged cdaemon_ref string
  | VDaemonError string string string
  | VMaestroError cstr cstr cstr
  | VConfirm string string
  | VPathError int
  | VMount mount_status
  | VRequest uri
  | VForwardX11
  | VStartSftp int
  | VCloseForward
  | VQuit

record view =
  mv_daemons :: "cdaemon_ref list"
  mv_daemon :: "cdaemon_ref \<Rightarrow> client_daemon"
  mv_next_daemon :: cdaemon_ref
  mv_jobs :: "string \<Rightarrow> cjob_ref option"
  mv_temp_jobs :: "string \<Rightarrow> cjob_ref option"
  mv_job :: "cjob_ref \<Rightarrow> client_job"
  mv_next_job :: cjob_ref
  mv_address :: cstr
  mv_error_type :: cstr
  mv_error_msg :: cstr
  mv_home :: cstr
  mv_nfsid :: cstr
  mv_nfs_label :: cstr
  mv_clocks_diff :: int
  mv_wizard_setup :: bool
  mv_has_connected_daemon :: bool
  mv_mount_location :: cstr
  mv_sftp_forward :: bool
  mv_groups :: "(group_type \<times> string \<times> cstr) list"
  mv_queues :: "cjob_ref option list"
  mv_conf :: conf
  mv_conf_nfsid :: string
  mv_server :: "server option"
  mv_events :: "view_event list"

text \<open>
  What comes from elsewhere: the names of user and host, the id of the session, the cookie of a connection, the domain of
  the client, numbers, the command that installs a key, markup, the answers to passwords and questions, and the order of the table of jobs.
\<close>

record view_env =
  ve_user :: string
  ve_host :: string
  ve_session :: string
  ve_cookie :: string
  ve_nfsid :: cstr
  ve_strtod :: "string \<Rightarrow> real"
  ve_append_key :: "server \<Rightarrow> string"
  ve_escape :: "string \<Rightarrow> string"
  ve_password :: "string \<Rightarrow> string \<Rightarrow> bool \<Rightarrow> bool \<Rightarrow> (cstr \<times> bool) option"
  ve_question :: "string \<Rightarrow> string \<Rightarrow> string \<Rightarrow> bool"
  ve_job_ids :: "(string \<Rightarrow> cjob_ref option) \<Rightarrow> string list"

definition say :: "view_event \<Rightarrow> view \<Rightarrow> view" where
  "say e m = m\<lparr>mv_events := mv_events m @ [e]\<rparr>"

definition say_job :: "cjob_ref \<Rightarrow> job_event list \<Rightarrow> view \<Rightarrow> view" where
  "say_job r es m = m\<lparr>mv_events := mv_events m @ map (VJob r) es\<rparr>"

definition set_cjob :: "cjob_ref \<Rightarrow> client_job \<Rightarrow> view \<Rightarrow> view" where
  "set_cjob r j m = m\<lparr>mv_job := (mv_job m)(r := j)\<rparr>"

definition upd_cd :: "cdaemon_ref \<Rightarrow> (client_daemon \<Rightarrow> client_daemon) \<Rightarrow> view \<Rightarrow> view" where
  "upd_cd d f m = m\<lparr>mv_daemon := (mv_daemon m)(d := f (mv_daemon m d))\<rparr>"

lemma view_sel [simp]:
  "mv_jobs (say e m) = mv_jobs m" "mv_temp_jobs (say e m) = mv_temp_jobs m" "mv_job (say e m) = mv_job m" "mv_queues (say e m) = mv_queues m"
  "mv_next_job (say e m) = mv_next_job m" "mv_daemons (say e m) = mv_daemons m" "mv_daemon (say e m) = mv_daemon m" "mv_address (say e m) = mv_address m"
  "mv_jobs (say_job r es m) = mv_jobs m" "mv_temp_jobs (say_job r es m) = mv_temp_jobs m" "mv_job (say_job r es m) = mv_job m"
  "mv_queues (say_job r es m) = mv_queues m" "mv_next_job (say_job r es m) = mv_next_job m" "mv_address (say_job r es m) = mv_address m"
  "mv_jobs (set_cjob r j m) = mv_jobs m" "mv_temp_jobs (set_cjob r j m) = mv_temp_jobs m" "mv_job (set_cjob r j m) = (mv_job m)(r := j)"
  "mv_queues (set_cjob r j m) = mv_queues m" "mv_next_job (set_cjob r j m) = mv_next_job m" "mv_address (set_cjob r j m) = mv_address m"
  "mv_jobs (upd_cd d f m) = mv_jobs m" "mv_temp_jobs (upd_cd d f m) = mv_temp_jobs m" "mv_job (upd_cd d f m) = mv_job m"
  "mv_queues (upd_cd d f m) = mv_queues m" "mv_next_job (upd_cd d f m) = mv_next_job m" "mv_daemons (upd_cd d f m) = mv_daemons m"
  by (simp_all add: say_def say_job_def set_cjob_def upd_cd_def)

section \<open>Machines and groups\<close>

text \<open>The rows of the model for a group; without one, and without the choice by the maestro, all others.\<close>

definition visible_servers_func :: "bool \<Rightarrow> cstr \<Rightarrow> client_daemon \<Rightarrow> bool" where
  "visible_servers_func include_auto grp d \<longleftrightarrow>
     (if gebr_daemon_server_is_autochoose d then include_auto else gebr_daemon_server_has_tag grp d)"

definition gebr_maestro_server_get_model :: "bool \<Rightarrow> cstr \<Rightarrow> view \<Rightarrow> client_daemon list" where
  "gebr_maestro_server_get_model include_auto grp m =
     (let ds = map (mv_daemon m) (mv_daemons m)
      in if include_auto \<and> (grp = None \<or> grp = Some []) then ds else filter (visible_servers_func include_auto grp) ds)"

text \<open>The tags are sorted by a tree and prepended.\<close>

definition gebr_maestro_server_get_all_tags :: "view \<Rightarrow> string list" where
  "gebr_maestro_server_get_all_tags m =
     rev (sort (remdups (concat (map cd_tags (gebr_maestro_server_get_model False None m)))))"

definition update_groups_store :: "view \<Rightarrow> view" where
  "update_groups_store m =
     m\<lparr>mv_groups :=
         (MAESTRO_SERVER_TYPE_GROUP, [], None) #
         map (\<lambda>t. (MAESTRO_SERVER_TYPE_GROUP, t, None)) (gebr_maestro_server_get_all_tags m) @
         map (\<lambda>d. (MAESTRO_SERVER_TYPE_DAEMON, cd_address d, cd_hostname d)) (gebr_maestro_server_get_model False None m)\<rparr>"

text \<open>The class handlers of the signals \<open>group-changed\<close> and \<open>state-change\<close> fill the groups again.\<close>

definition group_changed :: "view \<Rightarrow> view" where
  "group_changed m = say VGroupChanged (update_groups_store m)"

definition state_change_signal :: "view \<Rightarrow> view" where
  "state_change_signal m = update_groups_store (say VStateChange m)"

definition get_daemon_from_address :: "cstr \<Rightarrow> view \<Rightarrow> cdaemon_ref option" where
  "get_daemon_from_address addr m =
     (case addr of None \<Rightarrow> None | Some a \<Rightarrow> find (\<lambda>d. cd_address (mv_daemon m d) = a) (mv_daemons m))"

definition gebr_maestro_server_add_daemon :: "client_daemon \<Rightarrow> view \<Rightarrow> cdaemon_ref \<times> view" where
  "gebr_maestro_server_add_daemon cd m =
     (let d = mv_next_daemon m
      in (d, m\<lparr>mv_daemon := (mv_daemon m)(d := cd), mv_daemons := d # mv_daemons m, mv_next_daemon := d + 1\<rparr>))"

definition have_logged_daemon :: "view \<Rightarrow> bool" where
  "have_logged_daemon m \<longleftrightarrow> list_ex (\<lambda>d. cd_state d = SERVER_STATE_LOGGED) (gebr_maestro_server_get_model False None m)"

definition gebr_maestro_server_get_ncores_for_group :: "cstr \<Rightarrow> string \<Rightarrow> group_type \<Rightarrow> view \<Rightarrow> int" where
  "gebr_maestro_server_get_ncores_for_group flavor grp ty m =
     (let accepts = (\<lambda>d. case flavor of None \<Rightarrow> True | Some f \<Rightarrow> gebr_daemon_server_accepts_mpi f d) in
      if ty = MAESTRO_SERVER_TYPE_DAEMON then
        (case get_daemon_from_address (Some grp) m of
           None \<Rightarrow> 0
         | Some d \<Rightarrow> if accepts (mv_daemon m d) then cd_ncores (mv_daemon m d) else 0)
      else sum_list (map cd_ncores (filter accepts (gebr_maestro_server_get_model False (Some grp) m))))"

definition gebr_maestro_server_has_servers :: "bool \<Rightarrow> view \<Rightarrow> bool" where
  "gebr_maestro_server_has_servers connected_servers m \<longleftrightarrow>
     list_ex (\<lambda>d. cd_address (mv_daemon m d) \<noteq> [] \<and> (\<not> connected_servers \<or> cd_state (mv_daemon m d) = SERVER_STATE_LOGGED))
       (mv_daemons m)"

definition gebr_maestro_server_reset_daemons_timeout :: "view \<Rightarrow> view" where
  "gebr_maestro_server_reset_daemons_timeout m =
     m\<lparr>mv_daemon := (\<lambda>d. if d \<in> set (mv_daemons m) then (mv_daemon m d)\<lparr>cd_timeout := - 1\<rparr> else mv_daemon m d)\<rparr>"

section \<open>Names\<close>

definition gebr_maestro_server_group_str_to_enum :: "cstr \<Rightarrow> group_type" where
  "gebr_maestro_server_group_str_to_enum s =
     (if s = Some ''daemon'' then MAESTRO_SERVER_TYPE_DAEMON else MAESTRO_SERVER_TYPE_GROUP)"

fun gebr_maestro_server_group_enum_to_str :: "group_type \<Rightarrow> string" where
  "gebr_maestro_server_group_enum_to_str MAESTRO_SERVER_TYPE_GROUP = ''group''"
| "gebr_maestro_server_group_enum_to_str MAESTRO_SERVER_TYPE_DAEMON = ''daemon''"

lemma group_str_round_trip: "gebr_maestro_server_group_str_to_enum (Some (gebr_maestro_server_group_enum_to_str t)) = t"
  by (cases t) (simp_all add: gebr_maestro_server_group_str_to_enum_def)

definition gebr_maestro_server_get_user :: "string \<Rightarrow> cstr \<Rightarrow> string" where
  "gebr_maestro_server_get_user user_name addr =
     (case Option.bind addr (cut_last (CHR ''@'')) of None \<Rightarrow> user_name | Some (u, _) \<Rightarrow> u)"

definition gebr_maestro_server_get_display_address :: "view \<Rightarrow> string" where
  "gebr_maestro_server_get_display_address m =
     (if mv_address m = Some ''127.0.0.1'' then ''Local domain''
      else ''Maestro '' @ (case mv_address m of None \<Rightarrow> ''(null)'' | Some a \<Rightarrow> a))"

definition gebr_maestro_server_get_nfsid :: "view \<Rightarrow> cstr" where
  "gebr_maestro_server_get_nfsid m = (if mv_nfsid m = Some [] then None else mv_nfsid m)"

definition gebr_maestro_server_has_home_dir :: "view \<Rightarrow> bool" where
  "gebr_maestro_server_has_home_dir m \<longleftrightarrow> mv_home m \<noteq> None \<and> mv_home m \<noteq> Some []"

definition gebr_maestro_server_translate_error :: "string \<Rightarrow> string \<Rightarrow> cstr" where
  "gebr_maestro_server_translate_error t msg =
     (if t = ''error:protocol'' then Some (''Domain protocol version mismatch: '' @ msg)
      else if t = ''error:cookie'' then Some (''The cookie '' @ msg @ '' was not found in the list of authorized cookies'')
      else if t = ''error:ssh'' then Some msg else None)"

section \<open>Files of the maestro\<close>

definition mount_sftp :: "int \<Rightarrow> view \<Rightarrow> view" where
  "mount_sftp p m = (if mv_has_connected_daemon m then m else say (VStartSftp p) (m\<lparr>mv_has_connected_daemon := True\<rparr>))"

definition on_sftp_port_defined :: "view_env \<Rightarrow> int \<Rightarrow> view \<Rightarrow> view" where
  "on_sftp_port_defined env p m =
     (let user = gebr_maestro_server_get_user (ve_user env) (mv_address m);
          loc = (if user = [] then ''sftp://localhost:'' else ''sftp://'' @ user @ ''@localhost:'') @ show_int p
      in say (VMount STATUS_MOUNT_PROGRESS) (m\<lparr>mv_sftp_forward := True, mv_mount_location := Some loc\<rparr>))"

text \<open>The answer of the mount; \<open>success\<close> also when it is mounted already.\<close>

definition mount_enclosing_ready_cb :: "bool \<Rightarrow> view \<Rightarrow> view" where
  "mount_enclosing_ready_cb success m =
     (if success then say (VMount STATUS_MOUNT_OK) m
      else (let m = say (VMount STATUS_MOUNT_NOK) (m\<lparr>mv_has_connected_daemon := False, mv_mount_location := None\<rparr>)
            in if mv_sftp_forward m then say VCloseForward (m\<lparr>mv_sftp_forward := False\<rparr>) else m))"

definition gebr_maestro_server_need_mount_gvfs :: "view_env \<Rightarrow> view \<Rightarrow> bool" where
  "gebr_maestro_server_need_mount_gvfs env m \<longleftrightarrow>
     \<not> mv_has_connected_daemon m \<and> (ve_nfsid env = None \<or> ve_nfsid env \<noteq> gebr_maestro_server_get_nfsid m)"

definition unmount_gvfs :: "bool \<Rightarrow> view \<Rightarrow> view" where
  "unmount_gvfs quit m =
     (let quit_now = (\<lambda>m. if quit then say VQuit m else m) in
      if \<not> mv_has_connected_daemon m then quit_now m
      else (let m = (if mv_sftp_forward m then say VCloseForward (m\<lparr>mv_sftp_forward := False\<rparr>) else m);
                m = m\<lparr>mv_has_connected_daemon := False\<rparr>;
                m = (if quit then m else say (VMount STATUS_MOUNT_NOK) m)
            in quit_now (m\<lparr>mv_mount_location := None\<rparr>)))"

section \<open>The connection\<close>

text \<open>The error is also that of the connection when it is about its version or cookie.\<close>

definition gebr_maestro_server_set_error :: "cstr \<Rightarrow> cstr \<Rightarrow> view server_user \<Rightarrow> view server_user" where
  "gebr_maestro_server_set_error t msg su =
     (let (s, m) = su;
          s = (if t = Some ''error:protocol''
               then gebr_comm_server_set_last_error SERVER_ERROR_PROTOCOL_VERSION ''Protocol version mismatch'' s else s);
          s = (if t = Some ''error:cookie''
               then gebr_comm_server_set_last_error SERVER_ERROR_COOKIE
                      ''The received cookie was not found in the list of authorized cookies'' s else s)
      in (s, m\<lparr>mv_error_type := t, mv_error_msg := msg\<rparr>))"

text \<open>
  \<open>state_changed\<close>. A connection that was refused is replaced by a new one, which is connected by \<open>connect\<close> and is the one of
  the maestro from then on (\<open>mv_server\<close>); the old one is left to the operation that changed it.
\<close>

definition changed_with :: "(view \<Rightarrow> view) \<Rightarrow> view server_user \<Rightarrow> view server_user" where
  "changed_with connect su =
     (let s = fst su;
          (s, m) = (case state s of
              SERVER_STATE_DISCONNECTED \<Rightarrow>
                (let m = (snd su)\<lparr>mv_groups := []\<rparr>; err = gebr_comm_server_get_last_error s in
                 if err \<noteq> []
                 then gebr_maestro_server_set_error (Some ''error:ssh'') (Some err)
                        (s, if error s = SERVER_ERROR_CONNECT then connect m else m)
                 else gebr_maestro_server_set_error (Some ''error:none'') None (s, m))
            | SERVER_STATE_CONNECT \<Rightarrow> (s, (snd su)\<lparr>mv_address := Some (address s)\<rparr>)
            | SERVER_STATE_LOGGED \<Rightarrow> gebr_maestro_server_set_error (Some ''error:none'') None su
            | _ \<Rightarrow> su);
          m = (if state s = SERVER_STATE_LOGGED \<or> state s = SERVER_STATE_DISCONNECTED then group_changed m else m)
      in (s, state_change_signal (say (VMaestroError (mv_address m) (mv_error_type m) (mv_error_msg m)) m)))"

text \<open>\<open>gebr_maestro_server_connect\<close>; the callback of the new connection only hears that it runs.\<close>

definition gebr_maestro_server_connect :: "view_env \<Rightarrow> bool \<Rightarrow> view \<Rightarrow> view" where
  "gebr_maestro_server_connect env force_init m =
     (let s = gebr_comm_server_set_cookie (Some (ve_cookie env))
                (gebr_comm_server_new (ve_host env) (case mv_address m of None \<Rightarrow> [] | Some a \<Rightarrow> a) (Some (ve_session env)));
          (s, m) = gebr_comm_server_connect (changed_with (\<lambda>m. m)) True force_init (s, m)
      in m\<lparr>mv_server := Some s\<rparr>)"

definition maestro_state_changed :: "view_env \<Rightarrow> view server_user \<Rightarrow> view server_user" where
  "maestro_state_changed env = changed_with (gebr_maestro_server_connect env True)"

lemma changed_running: "state (fst su) \<noteq> SERVER_STATE_DISCONNECTED \<Longrightarrow> changed_with c su = changed_with c' su"
  by (cases "state (fst su)") (simp_all add: changed_with_def Let_def)

text \<open>An operation on the connection of the maestro; a connection that was replaced meanwhile is forgotten.\<close>

definition on_maestro_server :: "(view server_user \<Rightarrow> view server_user) \<Rightarrow> server \<Rightarrow> view \<Rightarrow> view" where
  "on_maestro_server f s m =
     (let (s', m') = f (s, m\<lparr>mv_server := None\<rparr>)
      in if mv_server m' = None then m'\<lparr>mv_server := Some s'\<rparr> else m')"

definition gebr_maestro_server_disconnect :: "view_env \<Rightarrow> bool \<Rightarrow> server \<Rightarrow> view \<Rightarrow> view" where
  "gebr_maestro_server_disconnect env quit s m =
     unmount_gvfs quit (on_maestro_server (gebr_comm_server_disconnect (maestro_state_changed env)) s m)"

text \<open>\<open>gebr_maestro_server_init\<close> and \<open>gebr_maestro_server_new\<close>; the first row of the queues is the one without a job.\<close>

definition gebr_maestro_server_new :: "conf \<Rightarrow> cstr \<Rightarrow> view" where
  "gebr_maestro_server_new cf addr =
     \<lparr>mv_daemons = [0], mv_daemon = (\<lambda>_. gebr_daemon_server_new None SERVER_STATE_LOGGED None), mv_next_daemon = 1,
      mv_jobs = Map.empty, mv_temp_jobs = Map.empty, mv_job = (\<lambda>_. gebr_job_init), mv_next_job = 0, mv_address = addr,
      mv_error_type = Some ''error:none'', mv_error_msg = None, mv_home = None, mv_nfsid = None, mv_nfs_label = None,
      mv_clocks_diff = 0, mv_wizard_setup = False, mv_has_connected_daemon = False, mv_mount_location = None,
      mv_sftp_forward = False, mv_groups = [], mv_queues = [None], mv_conf = cf, mv_conf_nfsid = [], mv_server = None,
      mv_events = []\<rparr>"

definition gebr_maestro_server_add_temporary_job :: "client_job \<Rightarrow> view \<Rightarrow> cjob_ref \<times> view" where
  "gebr_maestro_server_add_temporary_job j m =
     (let r = mv_next_job m
      in (r, (set_cjob r j m)\<lparr>mv_next_job := r + 1, mv_temp_jobs := (mv_temp_jobs m)(the (cj_runid j) \<mapsto> r)\<rparr>))"

text \<open>A NULL part of the address is written as such.\<close>

definition connect_daemons_uri :: "string \<Rightarrow> bool \<Rightarrow> uri" where
  "connect_daemons_uri addr respect_ac =
     request_uri ''/connect-daemons''
       [(''address'', gebr_get_host_from_address (Some addr)), (''respect-ac'', Some (if respect_ac then ''1'' else ''0''))]"

definition gebr_maestro_server_connect_on_daemons :: "bool \<Rightarrow> view server_user \<Rightarrow> view server_user" where
  "gebr_maestro_server_connect_on_daemons respect_ac su =
     (if mv_error_type (snd su) \<noteq> Some ''error:none'' then su
      else (fst su, say (VRequest (connect_daemons_uri (address (fst su)) respect_ac)) (snd su)))"

definition gebr_maestro_server_append_key_finished :: "view server_user \<Rightarrow> view server_user" where
  "gebr_maestro_server_append_key_finished su =
     (if mv_wizard_setup (snd su) then su else gebr_maestro_server_connect_on_daemons True su)"

definition login_name :: "view_env \<Rightarrow> view \<Rightarrow> cstr \<Rightarrow> string" where
  "login_name env m addr =
     (let shown = (case addr of None \<Rightarrow> ''(null)'' | Some a \<Rightarrow> a) in
      if CHR ''@'' \<in> set shown then shown
      else gebr_maestro_server_get_user (ve_user env) (mv_address m) @ ''@'' @ shown)"

definition on_password_request :: "view_env \<Rightarrow> bool \<Rightarrow> view server_user \<Rightarrow> view server_user" where
  "on_password_request env retry su =
     (let addr = login_name env (snd su) (mv_address (snd su)) in
      case ve_password env (''Connecting to '' @ addr)
             (''Maestro <b>'' @ ve_escape env addr @ ''</b> is asking for your login'' @ [NL] @ ''password.'')
             (accepts_key (fst su)) retry of
        None \<Rightarrow> su
      | Some (pass, use_key) \<Rightarrow> on_server (gebr_comm_server_set_password pass \<circ> gebr_comm_server_set_use_public_key use_key) su)"

definition on_question_request :: "view_env \<Rightarrow> string \<Rightarrow> string \<Rightarrow> view server_user \<Rightarrow> view server_user" where
  "on_question_request env title question su =
     on_server (gebr_comm_server_answer_question
       (ve_question env (gebr_maestro_server_get_display_address (snd su)) title question)) su"

end
