(* ===== verification/Gebr_View.thy ===== *)
theory Gebr_View
  imports Gebr_Maestro_Server
begin

text \<open>
  The messages of the maestro at the client (\<open>parse_messages\<close> of \<open>gebr/gebr-maestro-server.c\<close>). A handler gives \<open>None\<close>
  where the code reads NULL or outside a table; its flag is false when the message is refused and the client disconnects.
\<close>

section \<open>Jobs\<close>

definition update_queues_model :: "cjob_ref \<Rightarrow> view \<Rightarrow> view" where
  "update_queues_model r m =
     (let has_job = (Some r \<in> set (mv_queues m)) in
      case cj_status (mv_job m r) of
        JOB_STATUS_CANCELED \<Rightarrow> m\<lparr>mv_queues := remove1 (Some r) (mv_queues m)\<rparr>
      | JOB_STATUS_FINISHED \<Rightarrow> m\<lparr>mv_queues := remove1 (Some r) (mv_queues m)\<rparr>
      | JOB_STATUS_FAILED \<Rightarrow> m\<lparr>mv_queues := remove1 (Some r) (mv_queues m)\<rparr>
      | JOB_STATUS_RUNNING \<Rightarrow> if has_job then m else m\<lparr>mv_queues := mv_queues m @ [Some r]\<rparr>
      | JOB_STATUS_QUEUED \<Rightarrow> if has_job then m else m\<lparr>mv_queues := mv_queues m @ [Some r]\<rparr>
      | _ \<Rightarrow> m)"

text \<open>The job of a definition: known, sent by this client under a temporary id, or new.\<close>

definition find_or_make_job :: "string list \<Rightarrow> view \<Rightarrow> cjob_ref \<times> bool \<times> bool \<times> view" where
  "find_or_make_job as m =
     (case mv_jobs m (as ! 0) of
        Some r \<Rightarrow> (r, False, False, m)
      | None \<Rightarrow>
          (case mv_temp_jobs m (as ! 1) of
             Some r \<Rightarrow>
               (r, False, True, (set_cjob r (gebr_job_set_runid (as ! 0) (mv_job m r)) m)
                  \<lparr>mv_temp_jobs := (mv_temp_jobs m)(as ! 1 := None), mv_jobs := (mv_jobs m)(as ! 0 \<mapsto> r)\<rparr>)
           | None \<Rightarrow>
               (let r = mv_next_job m in
                (r, True, False, (set_cjob r (gebr_job_new_with_id (Some (as ! 0)) (Some (as ! 11)) (Some (as ! 23))) m)
                   \<lparr>mv_next_job := r + 1\<rparr>))))"

text \<open>What every definition sets, and what only the first one sets.\<close>

definition define_job :: "view_env \<Rightarrow> string list \<Rightarrow> client_job \<Rightarrow> client_job" where
  "define_job env as j =
     (gebr_job_set_io (Some (as ! 13)) (Some (as ! 14)) (Some (as ! 15))
        (gebr_job_set_server_list (Some (as ! 4)) (gebr_job_set_servers (ve_strtod env) (as ! 4) j)))
       \<lparr>cj_submit_date := Some (as ! 16), cj_nprocs := Some (as ! 3), cj_mpi_owner := Some (as ! 24),
        cj_mpi_flavor := Some (as ! 25), cj_flow_id := Some (as ! 2), cj_snapshot_title := Some (as ! 9),
        cj_snapshot_id := Some (as ! 10), cj_description := Some (as ! 8), cj_job_counter := Some (as ! 7)\<rparr>"

definition init_job :: "view_env \<Rightarrow> cstr \<Rightarrow> string list \<Rightarrow> client_job \<Rightarrow> client_job" where
  "init_job env maestro_addr as j =
     (let j = gebr_job_set_server_group (Some (as ! 17))
                (j\<lparr>cj_is_fake := False, cj_maestro_address := maestro_addr, cj_hostname := Some (as ! 5),
                   cj_title := Some (as ! 6), cj_nice := Some (as ! 12)\<rparr>);
          j = j\<lparr>cj_server_group_type := Some (as ! 18), cj_exec_speed := ve_strtod env (as ! 19)\<rparr>;
          j = (if as ! 21 \<noteq> [] then j\<lparr>cj_start_date := Some (as ! 21)\<rparr> else j)
      in if as ! 22 \<noteq> [] then j\<lparr>cj_finish_date := Some (as ! 22)\<rparr> else j)"

definition job_defined :: "view_env \<Rightarrow> string list \<Rightarrow> view \<Rightarrow> view" where
  "job_defined env as m =
     (let (r, init, prev_exist, m) = find_or_make_job as m;
          st = gebr_comm_job_get_status_from_string (Some (as ! 20));
          (es, j) = gebr_job_set_static_status st (define_job env as (mv_job m r));
          m = say_job r es (set_cjob r j m);
          prev_exist = (prev_exist \<or> cj_queue j \<noteq> Some (as ! 11));
          j = j\<lparr>cj_queue := Some (as ! 11)\<rparr>;
          m = set_cjob r j m;
          m = (if init
               then (let (es, j) = gebr_job_set_static_status st (init_job env (mv_address m) as j)
                     in (say_job r es (set_cjob r j m))\<lparr>mv_jobs := (mv_jobs m)(as ! 0 \<mapsto> r)\<rparr>)
               else m);
          m = (if init \<or> prev_exist then say (VJobDefine r) m else m)
      in update_queues_model r m)"

text \<open>A change of the job with the given id; no other client checks that the job is known.\<close>

definition with_job :: "string \<Rightarrow> (client_job \<Rightarrow> (job_event list \<times> client_job) option) \<Rightarrow> view \<Rightarrow> (cjob_ref \<times> view) option" where
  "with_job i f m =
     (case mv_jobs m i of
        None \<Rightarrow> None
      | Some r \<Rightarrow>
          (case f (mv_job m r) of None \<Rightarrow> None | Some (es, j) \<Rightarrow> Some (r, say_job r es (set_cjob r j m))))"

definition job_issued :: "string list \<Rightarrow> view \<Rightarrow> view option" where
  "job_issued as m = map_option snd (with_job (as ! 0) (\<lambda>j. Some (gebr_job_set_issues (as ! 1) j)) m)"

definition job_cmd_line :: "string list \<Rightarrow> view \<Rightarrow> view option" where
  "job_cmd_line as m = map_option snd (with_job (as ! 0) (gebr_job_set_cmd_line (c_atoi (as ! 1) - 1) (as ! 2)) m)"

definition job_output :: "string list \<Rightarrow> view \<Rightarrow> view option" where
  "job_output as m = map_option snd (with_job (as ! 0) (gebr_job_append_output (c_atoi (as ! 1) - 1) (as ! 2)) m)"

definition job_status :: "string list \<Rightarrow> view \<Rightarrow> view option" where
  "job_status as m =
     map_option (\<lambda>(r, m). update_queues_model r m)
       (with_job (as ! 0)
          (\<lambda>j. Some (gebr_job_set_status (gebr_comm_job_get_status_from_string (Some (as ! 1))) (Some (as ! 2)) j)) m)"

text \<open>A signal on NULL is only warned about. The job stays in the table.\<close>

definition job_closed :: "string list \<Rightarrow> view \<Rightarrow> view" where
  "job_closed as m = (case mv_jobs m (as ! 0) of None \<Rightarrow> m | Some r \<Rightarrow> say_job r gebr_job_remove m)"

section \<open>Machines\<close>

definition machine_state :: "string list \<Rightarrow> view \<Rightarrow> view" where
  "machine_state as m =
     (let st = gebr_comm_server_state_from_string (Some (as ! 2));
          (d, m) = (case get_daemon_from_address (Some (as ! 1)) m of
                      None \<Rightarrow> gebr_maestro_server_add_daemon (gebr_daemon_server_new (Some (as ! 1)) st (mv_address m)) m
                    | Some d \<Rightarrow> (d, upd_cd d (\<lambda>c. c\<lparr>cd_state := st\<rparr>) m));
          m = upd_cd d (\<lambda>c. c\<lparr>cd_hostname := Some (as ! 0), cd_ncores := c_atoi (as ! 4), cd_clock := Some (as ! 5),
                              cd_model := Some (as ! 6), cd_memory := Some (as ! 7)\<rparr>) m;
          m = (if mv_has_connected_daemon m \<and> \<not> have_logged_daemon m then unmount_gvfs False m else m)
      in say (VAcChange (as ! 3 = ''on'') (Some d)) (say VDaemonsChanged (group_changed m)))"

text \<open>The row of an unknown machine is read without being set.\<close>

definition machine_tags :: "string list \<Rightarrow> view \<Rightarrow> view option" where
  "machine_tags as m =
     (case get_daemon_from_address (Some (as ! 0)) m of
        None \<Rightarrow> None
      | Some d \<Rightarrow> Some (group_changed (upd_cd d (gebr_daemon_server_set_tags (g_strsplit (as ! 1) '','' (- 1))) m)))"

definition machine_removed :: "string list \<Rightarrow> view \<Rightarrow> view" where
  "machine_removed as m =
     group_changed (say VDaemonsChanged
       (m\<lparr>mv_daemons := filter (\<lambda>d. cd_address (mv_daemon m d) \<noteq> as ! 0) (mv_daemons m)\<rparr>))"

section \<open>Questions\<close>

definition ask_question :: "view_env \<Rightarrow> string list \<Rightarrow> view \<Rightarrow> view" where
  "ask_question env as m =
     say (VRequest (request_uri ''/ssh-answer''
       [(''address'', Some (as ! 0)),
        (''response'', Some (if ve_question env (as ! 0) (as ! 1) (as ! 2) then ''true'' else ''false''))])) m"

definition send_daemon_password_request :: "view_env \<Rightarrow> cdaemon_ref option \<Rightarrow> bool \<Rightarrow> bool \<Rightarrow> view \<Rightarrow> (cstr \<times> bool) option" where
  "send_daemon_password_request env d accepts retry m =
     (let addr = login_name env m (map_option (\<lambda>d. cd_address (mv_daemon m d)) d);
          stopping = (Option.bind d (\<lambda>d. cd_error_type (mv_daemon m d)) = Some ''error:stop'')
      in ve_password env ((if stopping then ''Stopping '' else ''Connecting to '') @ addr)
           (''<b>'' @ ve_escape env addr @ ''</b> is asking for your login'' @ [NL] @ ''password.'') accepts retry)"

definition ask_password :: "view_env \<Rightarrow> string list \<Rightarrow> view \<Rightarrow> view" where
  "ask_password env as m =
     (case send_daemon_password_request env (get_daemon_from_address (Some (as ! 0)) m) (as ! 1 = ''yes'') (as ! 2 = ''yes'') m of
        None \<Rightarrow> m
      | Some (pass, use_key) \<Rightarrow>
          say (VRequest (request_uri ''/set-password''
            ((''address'', Some (as ! 0)) # (if pass = None then [] else [(''pass'', pass)]) @
             [(''haskey'', Some (if use_key then ''yes'' else ''no''))]))) m)"

section \<open>The connection\<close>

definition ini_returned :: "view_env \<Rightarrow> string list \<Rightarrow> view server_user \<Rightarrow> view server_user" where
  "ini_returned env as su =
     (let su = gebr_comm_server_set_logged (maestro_state_changed env) (fst su, (snd su)\<lparr>mv_clocks_diff := c_atoi (as ! 0)\<rparr>);
          su = (if use_public_key (fst su) then on_server (\<lambda>s. act (SshRun (ve_append_key env s)) s) su
                else gebr_maestro_server_connect_on_daemons True su)
      in (fst su, say VForwardX11 (snd su)))"

definition error_reported :: "string list \<Rightarrow> view server_user \<Rightarrow> view server_user" where
  "error_reported as su =
     (if as ! 1 = ''daemon'' then (fst su, say (VDaemonError (as ! 0) (as ! 2) (as ! 3)) (snd su))
      else (let (s, m) = gebr_maestro_server_set_error (Some (as ! 2)) (Some (as ! 3)) su
            in (s, say (VMaestroError (mv_address m) (Some (as ! 2)) (Some (as ! 3))) m)))"

text \<open>\<open>gebr_config_set_current_nfs_info\<close> (\<open>gebr/gebr.c\<close>)\<close>

definition gebr_config_set_current_nfs_info :: "string \<Rightarrow> string \<Rightarrow> string \<Rightarrow> view \<Rightarrow> view" where
  "gebr_config_set_current_nfs_info n hosts label m =
     m\<lparr>mv_conf_nfsid := n,
       mv_conf := gebr_maestro_settings_set_domain n (Some label) []
         (fold (gebr_maestro_settings_append_address n) (g_strsplit hosts '','' (- 1)) (mv_conf m))\<rparr>"

definition gebr_maestro_server_set_nfs_label_for_jobs :: "view_env \<Rightarrow> view \<Rightarrow> view" where
  "gebr_maestro_server_set_nfs_label_for_jobs env m =
     fold (\<lambda>i m. case mv_jobs m i of
             None \<Rightarrow> m | Some r \<Rightarrow> set_cjob r ((mv_job m r)\<lparr>cj_nfs_label := mv_nfs_label m\<rparr>) m)
       (ve_job_ids env (mv_jobs m)) m"

definition domain_known :: "view_env \<Rightarrow> string list \<Rightarrow> view server_user \<Rightarrow> view server_user" where
  "domain_known env as su =
     (let (s, m) = su; n = as ! 0;
          label = (if as ! 2 = [] then gebr_maestro_settings_get_label_for_domain (mv_conf m) n True else as ! 2);
          s = (if as ! 2 = [] then gebr_comm_protocol_socket_oldmsg_send nfsid_def [Some n, Some [], Some label] s else s);
          m = (gebr_config_set_current_nfs_info n (as ! 1) label m)\<lparr>mv_nfs_label := Some label\<rparr>;
          m = (gebr_maestro_server_set_nfs_label_for_jobs env m)\<lparr>mv_nfsid := Some n\<rparr>
      in if gebr_maestro_server_need_mount_gvfs env m \<and> \<not> mv_wizard_setup m
         then (gebr_comm_protocol_socket_oldmsg_send sftp_def [] s, m)
         else (s, say (VMount STATUS_MOUNT_OK) m))"

section \<open>The interpreter\<close>

definition view_args ::
    "Comm_Protocol.message \<Rightarrow> nat \<Rightarrow> (string list \<Rightarrow> view server_user \<Rightarrow> (bool \<times> view server_user) option) \<Rightarrow>
     view server_user \<Rightarrow> (bool \<times> view server_user) option" where
  "view_args m n f su =
     (case split_args (argument m) n of
        Inl MsgError \<Rightarrow> Some (False, su)
      | Inl MsgCrash \<Rightarrow> None
      | Inr as \<Rightarrow> f as su)"

definition on_view :: "(view \<Rightarrow> view) \<Rightarrow> view server_user \<Rightarrow> (bool \<times> view server_user) option" where
  "on_view f su = Some (True, fst su, f (snd su))"

definition on_view_opt :: "(view \<Rightarrow> view option) \<Rightarrow> view server_user \<Rightarrow> (bool \<times> view server_user) option" where
  "on_view_opt f su = map_option (\<lambda>m. (True, fst su, m)) (f (snd su))"

definition handle_return :: "view_env \<Rightarrow> Comm_Protocol.message \<Rightarrow> view server_user \<Rightarrow> (bool \<times> view server_user) option" where
  "handle_return env m =
     (if ret_hash m = Some (code_hash ini_def) then view_args m 1 (\<lambda>as su. Some (True, ini_returned env as su))
      else if ret_hash m = Some (code_hash path_def) then view_args m 2 (\<lambda>as. on_view (say (VPathError (c_atoi (as ! 1)))))
      else if ret_hash m = Some (code_hash sftp_def)
      then view_args m 1 (\<lambda>as. on_view (if c_atoi (as ! 0) \<noteq> 0 then mount_sftp (c_atoi (as ! 0) mod 2 ^ 32)
                                       else say (VMount STATUS_MOUNT_NOK)))
      else (\<lambda>su. Some (True, su)))"

definition handle_maestro_message ::
    "view_env \<Rightarrow> Comm_Protocol.message \<Rightarrow> view server_user \<Rightarrow> (bool \<times> view server_user) option" where
  "handle_maestro_message env m =
     (if hash m = code_hash ret_def then handle_return env m
      else if hash m = code_hash err_def then view_args m 4 (\<lambda>as su. Some (True, error_reported as su))
      else if hash m = code_hash ssta_def then view_args m 8 (\<lambda>as. on_view (machine_state as))
      else if hash m = code_hash job_def then view_args m 26 (\<lambda>as. on_view (job_defined env as))
      else if hash m = code_hash iss_def then view_args m 2 (\<lambda>as. on_view_opt (job_issued as))
      else if hash m = code_hash cmd_def then view_args m 3 (\<lambda>as. on_view_opt (job_cmd_line as))
      else if hash m = code_hash out_def then view_args m 3 (\<lambda>as. on_view_opt (job_output as))
      else if hash m = code_hash sta_def then view_args m 3 (\<lambda>as. on_view_opt (job_status as))
      else if hash m = code_hash jcl_def then view_args m 1 (\<lambda>as. on_view (job_closed as))
      else if hash m = code_hash agrp_def then view_args m 2 (\<lambda>as. on_view_opt (machine_tags as))
      else if hash m = code_hash qst_def then view_args m 3 (\<lambda>as. on_view (ask_question env as))
      else if hash m = code_hash pss_def then view_args m 3 (\<lambda>as. on_view (ask_password env as))
      else if hash m = code_hash ac_def
      then view_args m 2 (\<lambda>as. on_view (\<lambda>v. say (VAcChange (as ! 1 = ''on'') (get_daemon_from_address (Some (as ! 0)) v)) v))
      else if hash m = code_hash mpi_def
      then view_args m 2 (\<lambda>as su. case get_daemon_from_address (Some (as ! 0)) (snd su) of
             None \<Rightarrow> Some (False, su) | Some d \<Rightarrow> on_view (say (VMpiChanged d (as ! 1))) su)
      else if hash m = code_hash srm_def then view_args m 1 (\<lambda>as. on_view (machine_removed as))
      else if hash m = code_hash cfrm_def then view_args m 2 (\<lambda>as. on_view (say (VConfirm (as ! 0) (as ! 1))))
      else if hash m = code_hash home_def then view_args m 1 (\<lambda>as. on_view (\<lambda>v. v\<lparr>mv_home := Some (as ! 0)\<rparr>))
      else if hash m = code_hash nfsid_def then view_args m 3 (\<lambda>as su. Some (True, domain_known env as su))
      else (\<lambda>su. Some (True, su)))"

text \<open>\<open>parse_messages\<close> on the queue of the protocol, oldest message first.\<close>

fun parse_maestro_messages :: "view_env \<Rightarrow> Comm_Protocol.message list \<Rightarrow> view server_user \<Rightarrow> view server_user option" where
  "parse_maestro_messages env [] su = Some su"
| "parse_maestro_messages env (m # ms) su =
     (case handle_maestro_message env m su of
        None \<Rightarrow> None
      | Some (ok, su) \<Rightarrow>
          if ok then parse_maestro_messages env ms su
          else Some (gebr_comm_server_disconnect (maestro_state_changed env) su))"

end
