(* ===== verification/Gebr_Mirror.thy ===== *)
theory Gebr_Mirror
  imports Gebr_View Gebrm_Trust
begin

text \<open>
  What the client shows follows the maestro: the invariant of its jobs and queues, the copy of a job that the messages of
  the maestro make, the messages that crash the client, and the requests that reach the maestro.
\<close>

section \<open>Queues\<close>

text \<open>
  The references in the tables were made; the model of queues starts with the row of immediate execution, which names no
  job, and the rows below name each job that waits or runs, and only jobs that are known and did not stop.
\<close>

definition known_job :: "view \<Rightarrow> cjob_ref \<Rightarrow> bool" where
  "known_job m r \<longleftrightarrow> (\<exists>i. mv_jobs m i = Some r)"

definition shown_as_queue :: "view \<Rightarrow> cjob_ref \<Rightarrow> bool" where
  "shown_as_queue m r \<longleftrightarrow>
     (gebr_job_is_queueable (mv_job m r) \<and> known_job m r \<longrightarrow> Some r \<in> set (mv_queues m)) \<and>
     (Some r \<in> set (mv_queues m) \<longrightarrow> known_job m r \<and> \<not> gebr_job_is_stopped (mv_job m r))"

definition queue_rows :: "view \<Rightarrow> bool" where
  "queue_rows m \<longleftrightarrow> distinct (mv_queues m) \<and> mv_queues m \<noteq> [] \<and> hd (mv_queues m) = None"

definition wf_view :: "view \<Rightarrow> bool" where
  "wf_view m \<longleftrightarrow>
     (\<forall>r. known_job m r \<longrightarrow> r < mv_next_job m) \<and> (\<forall>r. shown_as_queue m r) \<and>
     (\<forall>i r. mv_temp_jobs m i = Some r \<longrightarrow> r < mv_next_job m) \<and> queue_rows m"

lemma wf_view_cong:
  assumes "wf_view m" "mv_jobs m' = mv_jobs m" "mv_temp_jobs m' = mv_temp_jobs m" "mv_next_job m' = mv_next_job m"
    "mv_queues m' = mv_queues m" "\<And>r. cj_status (mv_job m' r) = cj_status (mv_job m r)"
  shows "wf_view m'"
  using assms by (simp add: wf_view_def queue_rows_def known_job_def shown_as_queue_def gebr_job_is_queueable_def gebr_job_is_stopped_def)

lemma update_queues_sel [simp]:
  "mv_jobs (update_queues_model r m) = mv_jobs m" "mv_temp_jobs (update_queues_model r m) = mv_temp_jobs m"
  "mv_job (update_queues_model r m) = mv_job m" "mv_next_job (update_queues_model r m) = mv_next_job m"
  by (simp_all add: update_queues_model_def Let_def split: comm_job_status.split)

lemma update_queues_other: "q \<noteq> r \<Longrightarrow> Some q \<in> set (mv_queues (update_queues_model r m)) \<longleftrightarrow> Some q \<in> set (mv_queues m)"
  by (auto simp: update_queues_model_def Let_def split: comm_job_status.split)

lemma update_queues_rows:
  assumes "queue_rows m"
  shows "queue_rows (update_queues_model r m)"
proof -
  obtain rs where "mv_queues m = None # rs" using assms by (cases "mv_queues m") (auto simp: queue_rows_def)
  then show ?thesis
    using assms by (auto simp: queue_rows_def update_queues_model_def Let_def split: comm_job_status.split)
qed

lemma update_queues_shown: "queue_rows m \<Longrightarrow> known_job m r \<Longrightarrow> shown_as_queue (update_queues_model r m) r"
  by (auto simp: update_queues_model_def Let_def queue_rows_def shown_as_queue_def known_job_def gebr_job_is_queueable_def
      gebr_job_is_stopped_def split: comm_job_status.split)

text \<open>A job whose status was set may be out of step until the model of queues is updated for it.\<close>

definition wf_but :: "cjob_ref \<Rightarrow> view \<Rightarrow> bool" where
  "wf_but r m \<longleftrightarrow>
     (\<forall>q. known_job m q \<longrightarrow> q < mv_next_job m) \<and> (\<forall>q. q \<noteq> r \<longrightarrow> shown_as_queue m q) \<and>
     (\<forall>i q. mv_temp_jobs m i = Some q \<longrightarrow> q < mv_next_job m) \<and> queue_rows m"

lemma known_job_set [simp]:
  "known_job (set_cjob q j m) = known_job m" "known_job (say_job q es m) = known_job m" "known_job (say e m) = known_job m"
  "known_job (update_queues_model q m) = known_job m" "known_job (m\<lparr>mv_next_job := n\<rparr>) = known_job m"
  "known_job (m\<lparr>mv_temp_jobs := ts\<rparr>) = known_job m"
  by (intro ext, simp add: known_job_def)+

lemma known_job_new [simp]: "known_job (m\<lparr>mv_jobs := js(i \<mapsto> r)\<rparr>) r"
  unfolding known_job_def by (rule exI [of _ i]) simp

lemma known_job_insert:
  assumes "mv_jobs m i = None \<or> mv_jobs m i = Some r"
  shows "known_job (m'\<lparr>mv_jobs := (mv_jobs m)(i \<mapsto> r)\<rparr>) q \<longleftrightarrow> q = r \<or> known_job m q"
proof -
  have "\<exists>k. ((mv_jobs m)(i \<mapsto> r)) k = Some q" if "mv_jobs m k = Some q" for k
  proof (cases "k = i")
    case True
    then have "q = r" using assms that by auto
    then show ?thesis by (intro exI [of _ i]) simp
  next
    case False
    then show ?thesis using that by (intro exI [of _ k]) simp
  qed
  then have "known_job m q \<Longrightarrow> known_job (m'\<lparr>mv_jobs := (mv_jobs m)(i \<mapsto> r)\<rparr>) q"
    unfolding known_job_def view.select_convs view.update_convs by (elim exE) simp
  moreover have "known_job (m'\<lparr>mv_jobs := (mv_jobs m)(i \<mapsto> r)\<rparr>) q \<Longrightarrow> q = r \<or> known_job m q"
    by (auto simp: known_job_def split: if_splits)
  ultimately show ?thesis by (cases "q = r") auto
qed

lemma shown_set:
  "shown_as_queue (say e m) = shown_as_queue m" "shown_as_queue (say_job q es m) = shown_as_queue m"
  "r \<noteq> q \<Longrightarrow> shown_as_queue (set_cjob q j m) r = shown_as_queue m r"
  "shown_as_queue (m\<lparr>mv_next_job := n\<rparr>) = shown_as_queue m" "shown_as_queue (m\<lparr>mv_temp_jobs := ts\<rparr>) = shown_as_queue m"
  by ((intro ext)?, simp add: shown_as_queue_def)+

lemma shown_insert:
  assumes "mv_jobs m i = None \<or> mv_jobs m i = Some r" "q \<noteq> r"
  shows "shown_as_queue (m\<lparr>mv_jobs := (mv_jobs m)(i \<mapsto> r)\<rparr>) q = shown_as_queue m q"
  using assms(2) by (simp add: shown_as_queue_def known_job_insert [OF assms(1)])

lemma queue_rows_set [simp]:
  "queue_rows (set_cjob q j m) = queue_rows m" "queue_rows (say_job q es m) = queue_rows m" "queue_rows (say e m) = queue_rows m"
  "queue_rows (m\<lparr>mv_next_job := n\<rparr>) = queue_rows m" "queue_rows (m\<lparr>mv_temp_jobs := ts\<rparr>) = queue_rows m"
  "queue_rows (m\<lparr>mv_jobs := js\<rparr>) = queue_rows m"
  by (simp_all add: queue_rows_def)

lemma wf_but_set:
  assumes "wf_but r m"
  shows "wf_but r (set_cjob r j m)" "wf_but r (say_job r es m)" "wf_but r (say e m)"
    "r < mv_next_job m \<Longrightarrow> mv_jobs m = js \<Longrightarrow> js i = None \<or> js i = Some r \<Longrightarrow> wf_but r (m\<lparr>mv_jobs := js(i \<mapsto> r)\<rparr>)"
    "wf_but r (m\<lparr>mv_temp_jobs := (mv_temp_jobs m)(i := None)\<rparr>)"
proof -
  show "wf_but r (set_cjob r j m)" "wf_but r (say_job r es m)" "wf_but r (say e m)"
    using assms by (simp_all add: wf_but_def shown_set)
  show "wf_but r (m\<lparr>mv_temp_jobs := (mv_temp_jobs m)(i := None)\<rparr>)"
    using assms by (simp add: wf_but_def shown_set)
  show "wf_but r (m\<lparr>mv_jobs := js(i \<mapsto> r)\<rparr>)" if "r < mv_next_job m" "mv_jobs m = js" "js i = None \<or> js i = Some r"
    using assms that(1) by (simp add: wf_but_def shown_insert [OF that(3) [folded that(2)]] known_job_insert [OF that(3) [folded that(2)]]
        flip: that(2))
qed

lemma wf_update:
  assumes "wf_but r m" "known_job m r"
  shows "wf_view (update_queues_model r m)"
proof -
  have d: "queue_rows m" using assms by (simp add: wf_but_def)
  have "shown_as_queue (update_queues_model r m) q" for q
  proof (cases "q = r")
    case False
    then have "shown_as_queue m q" using assms(1) by (simp add: wf_but_def)
    then show ?thesis by (simp add: shown_as_queue_def update_queues_other [OF False])
  qed (simp add: update_queues_shown [OF d assms(2)])
  then show ?thesis using assms(1) update_queues_rows [OF d] by (simp add: wf_view_def wf_but_def)
qed

lemma wf_view_but: "wf_view m \<Longrightarrow> wf_but r m"
  by (simp add: wf_view_def wf_but_def)

lemma find_job_wf:
  assumes "find_or_make_job as m = (r, ini, prev, m')" "wf_view m"
  shows "wf_but r m' \<and> r < mv_next_job m' \<and> (if ini then mv_jobs m' (as ! 0) = None else known_job m' r)"
proof (cases "mv_jobs m (as ! 0)")
  case (Some q)
  then show ?thesis
    using assms wf_view_but [OF assms(2)] by (auto simp: find_or_make_job_def wf_view_def known_job_def)
next
  case None
  note new = this
  show ?thesis
  proof (cases "mv_temp_jobs m (as ! 1)")
    case None
    then have m': "r = mv_next_job m" "ini" "m' = (set_cjob r (gebr_job_new_with_id (Some (as ! 0)) (Some (as ! 11)) (Some (as ! 23))) m)\<lparr>mv_next_job := r + 1\<rparr>"
      using assms(1) new by (auto simp: find_or_make_job_def Let_def)
    have "\<forall>q. q \<noteq> r \<longrightarrow> shown_as_queue m' q" using assms(2) by (simp add: m'(3) shown_set wf_view_def)
    moreover have "\<forall>q. known_job m' q \<longrightarrow> q < r + 1" using assms(2) by (auto simp: m' wf_view_def intro: less_SucI)
    moreover have "\<forall>i q. mv_temp_jobs m' i = Some q \<longrightarrow> q < r + 1" using assms(2) by (auto simp: m' wf_view_def intro: less_SucI)
    moreover have "queue_rows m'" using assms(2) by (simp add: m'(3) wf_view_def)
    ultimately show ?thesis using new m'(1,2) by (simp add: m'(3) wf_but_def)
  next
    case (Some q)
    then have m': "r = q" "\<not> ini" "m' = (set_cjob r (gebr_job_set_runid (as ! 0) (mv_job m r)) m)
         \<lparr>mv_temp_jobs := (mv_temp_jobs m)(as ! 1 := None), mv_jobs := (mv_jobs m)(as ! 0 \<mapsto> r)\<rparr>"
      using assms(1) new by (auto simp: find_or_make_job_def)
    let ?m = "(set_cjob r (gebr_job_set_runid (as ! 0) (mv_job m r)) m)\<lparr>mv_temp_jobs := (mv_temp_jobs m)(as ! 1 := None)\<rparr>"
    have "r < mv_next_job m" using assms(2) Some m'(1) by (auto simp: wf_view_def)
    moreover have "wf_but r ?m"
      using wf_but_set(5) [OF wf_but_set(1) [OF wf_view_but [OF assms(2)]]] by simp
    ultimately have "wf_but r (?m\<lparr>mv_jobs := (mv_jobs m)(as ! 0 \<mapsto> r)\<rparr>)" using new by (intro wf_but_set(4)) simp_all
    moreover have "known_job m' r" by (auto simp: m'(3) known_job_def)
    ultimately show ?thesis using m'(2) \<open>r < mv_next_job m\<close> by (simp add: m'(3))
  qed
qed

lemma job_defined_wf:
  assumes "wf_view m"
  shows "wf_view (job_defined env as m)"
proof -
  obtain r ini prev m1 where m1: "find_or_make_job as m = (r, ini, prev, m1)" by (cases "find_or_make_job as m") auto
  have w: "wf_but r m1" "r < mv_next_job m1" "ini \<longrightarrow> mv_jobs m1 (as ! 0) = None" "\<not> ini \<longrightarrow> known_job m1 r"
    using find_job_wf [OF m1 assms] by (simp_all split: if_splits)
  show ?thesis
    unfolding job_defined_def m1 Let_def gebr_job_set_static_status_def prod.case
    by (rule wf_update) (use w(3,4) in \<open>auto intro!: wf_but_set w(1) simp: w(2)\<close>)
qed

lemma with_job_wf:
  assumes "with_job i f m = Some (r, m')" "wf_view m"
  shows "wf_but r m'" "known_job m' r"
proof -
  have "wf_but q m" for q using assms(2) by (simp add: wf_view_def wf_but_def)
  then show "wf_but r m'" using assms(1) by (auto simp: with_job_def intro!: wf_but_set split: option.splits)
  show "known_job m' r" using assms(1) by (auto simp: with_job_def known_job_def split: option.splits)
qed

lemma with_job_same:
  assumes "with_job i f m = Some (r, m')" "wf_view m" "\<And>j es j'. f j = Some (es, j') \<Longrightarrow> cj_status j' = cj_status j"
  shows "wf_view m'"
proof (rule wf_view_cong [OF assms(2)])
qed (use assms(1,3) in \<open>auto simp: with_job_def split: option.splits\<close>)

text \<open>What the other messages leave alone.\<close>

definition same_jobs :: "view \<Rightarrow> view \<Rightarrow> bool" where
  "same_jobs m m' \<longleftrightarrow>
     mv_jobs m' = mv_jobs m \<and> mv_temp_jobs m' = mv_temp_jobs m \<and> mv_next_job m' = mv_next_job m \<and> mv_queues m' = mv_queues m \<and>
     (\<forall>r. cj_status (mv_job m' r) = cj_status (mv_job m r))"

lemma same_jobs_refl [simp]: "same_jobs m m"
  by (simp add: same_jobs_def)

lemma same_jobs_trans [trans]: "same_jobs a b \<Longrightarrow> same_jobs b c \<Longrightarrow> same_jobs a c"
  by (simp add: same_jobs_def)

lemma same_jobs_wf: "same_jobs m m' \<Longrightarrow> wf_view m \<Longrightarrow> wf_view m'"
  by (rule wf_view_cong) (simp_all add: same_jobs_def)

lemma same_jobs_basic [simp]:
  "same_jobs m (say e m')  \<longleftrightarrow> same_jobs m m'" "same_jobs m (say_job r es m') \<longleftrightarrow> same_jobs m m'"
  "same_jobs m (upd_cd d f m') \<longleftrightarrow> same_jobs m m'" "same_jobs m (update_groups_store m') \<longleftrightarrow> same_jobs m m'"
  "same_jobs m (group_changed m') \<longleftrightarrow> same_jobs m m'" "same_jobs m (state_change_signal m') \<longleftrightarrow> same_jobs m m'"
  by (simp_all add: same_jobs_def update_groups_store_def group_changed_def state_change_signal_def)

lemma set_error_view [simp]: "snd (gebr_maestro_server_set_error t msg su) = (snd su)\<lparr>mv_error_type := t, mv_error_msg := msg\<rparr>"
  by (simp add: gebr_maestro_server_set_error_def split_beta Let_def)

lemma set_error_pair:
  "gebr_maestro_server_set_error t msg su =
     (fst (gebr_maestro_server_set_error t msg su), (snd su)\<lparr>mv_error_type := t, mv_error_msg := msg\<rparr>)"
  by (metis prod.collapse set_error_view)

lemma changed_same:
  assumes "\<And>m. same_jobs m (connect m)"
  shows "same_jobs (snd su) (snd (changed_with connect su))"
proof -
  have groups: "same_jobs m (m\<lparr>mv_groups := []\<rparr>)" for m by (simp add: same_jobs_def)
  have connected: "same_jobs m (connect (m\<lparr>mv_groups := []\<rparr>))" for m
    using groups assms by (rule same_jobs_trans)
  have err: "same_jobs m m' \<Longrightarrow> same_jobs m (m'\<lparr>mv_error_type := t, mv_error_msg := msg\<rparr>)" for m m' t msg
    by (simp add: same_jobs_def)
  have addr: "same_jobs m (m\<lparr>mv_address := a\<rparr>)" for m a by (simp add: same_jobs_def)
  show ?thesis
    by (cases su; cases "state (fst su)")
      (auto simp: changed_with_def Let_def split_beta connected groups err addr)
qed

interpretation new_maestro: user_relation "changed_with (\<lambda>m. m)" same_jobs
  by unfold_locales (auto intro: same_jobs_trans changed_same)

lemma connect_same: "same_jobs m (gebr_maestro_server_connect env fi m)"
proof -
  have server: "same_jobs m' (m'\<lparr>mv_server := s\<rparr>)" for m' s by (simp add: same_jobs_def)
  show ?thesis
    unfolding gebr_maestro_server_connect_def Let_def split_beta
    using new_maestro.rel_connect same_jobs_trans [OF _ server] by (metis snd_conv)
qed

interpretation maestro_jobs: user_relation "maestro_state_changed env" same_jobs for env
  by unfold_locales (auto simp: maestro_state_changed_def intro: same_jobs_trans changed_same connect_same)

section \<open>Messages and jobs\<close>

lemma unmount_same [simp]: "same_jobs m (unmount_gvfs q m') \<longleftrightarrow> same_jobs m m'"
  by (auto simp: unmount_gvfs_def Let_def same_jobs_def say_def)

lemma machine_state_same: "same_jobs m (machine_state as m)"
proof -
  have add: "same_jobs m (snd (gebr_maestro_server_add_daemon cd m))" for cd
    by (simp add: gebr_maestro_server_add_daemon_def Let_def same_jobs_def)
  show ?thesis
    by (simp add: machine_state_def Let_def split_beta add split: option.split)
qed

lemma ini_same: "same_jobs (snd su) (snd (ini_returned env as su))"
proof -
  have clock: "same_jobs m (m\<lparr>mv_clocks_diff := x\<rparr>)" for m x by (simp add: same_jobs_def)
  let ?su = "gebr_comm_server_set_logged (maestro_state_changed env) (fst su, (snd su)\<lparr>mv_clocks_diff := c_atoi (as ! 0)\<rparr>)"
  have "same_jobs (snd su) (snd ?su)"
    using same_jobs_trans [OF clock] maestro_jobs.rel_set_logged [of "(fst su, (snd su)\<lparr>mv_clocks_diff := c_atoi (as ! 0)\<rparr>)" env]
    by (metis snd_conv)
  then show ?thesis
    by (auto simp: ini_returned_def Let_def gebr_maestro_server_connect_on_daemons_def on_server_def)
qed

lemma labels_same: "same_jobs m (gebr_maestro_server_set_nfs_label_for_jobs env m)"
proof -
  have one: "same_jobs m (case f i of None \<Rightarrow> m | Some r \<Rightarrow> set_cjob r ((mv_job m r)\<lparr>cj_nfs_label := mv_nfs_label m\<rparr>) m)" for f i m
    by (auto simp: same_jobs_def split: option.split)
  have "same_jobs m (fold (\<lambda>i m. case mv_jobs m i of None \<Rightarrow> m
      | Some r \<Rightarrow> set_cjob r ((mv_job m r)\<lparr>cj_nfs_label := mv_nfs_label m\<rparr>) m) is m)" for "is"
    by (induction "is" arbitrary: m) (simp_all, blast intro: same_jobs_trans one)
  then show ?thesis by (simp add: gebr_maestro_server_set_nfs_label_for_jobs_def)
qed

lemma domain_same: "same_jobs (snd su) (snd (domain_known env as su))"
proof -
  obtain s m where su: "su = (s, m)" by fastforce
  define l where "l = (if as ! 2 = [] then gebr_maestro_settings_get_label_for_domain (mv_conf m) (as ! 0) True else as ! 2)"
  define m1 where "m1 = (gebr_config_set_current_nfs_info (as ! 0) (as ! 1) l m)\<lparr>mv_nfs_label := Some l\<rparr>"
  have 1: "same_jobs m m1" by (simp add: m1_def gebr_config_set_current_nfs_info_def same_jobs_def)
  have 2: "same_jobs a (a\<lparr>mv_nfsid := n\<rparr>)" for a n by (simp add: same_jobs_def)
  have "same_jobs m ((gebr_maestro_server_set_nfs_label_for_jobs env m1)\<lparr>mv_nfsid := Some (as ! 0)\<rparr>)"
    by (rule same_jobs_trans [OF same_jobs_trans [OF 1 labels_same] 2])
  then have "same_jobs m ((gebr_maestro_server_set_nfs_label_for_jobs env
      ((gebr_config_set_current_nfs_info (as ! 0) (as ! 1) l m)\<lparr>mv_nfs_label := Some l\<rparr>))\<lparr>mv_nfsid := Some (as ! 0)\<rparr>)"
    unfolding m1_def .
  then show ?thesis unfolding domain_known_def su Let_def prod.case l_def [symmetric] by simp
qed

text \<open>The arguments of a message, when it has them.\<close>

lemma view_args_some:
  "view_args m n f su = Some r \<longleftrightarrow>
     (split_args (argument m) n = Inl MsgError \<and> r = (False, su)) \<or> (\<exists>as. split_args (argument m) n = Inr as \<and> f as su = Some r)"
  by (auto simp: view_args_def split: sum.split msg_error.split)

definition keeps_view :: "(view server_user \<Rightarrow> (bool \<times> view server_user) option) \<Rightarrow> bool" where
  "keeps_view h \<longleftrightarrow> (\<forall>su ok su'. h su = Some (ok, su') \<longrightarrow> wf_view (snd su) \<longrightarrow> wf_view (snd su'))"

lemma keeps_view_if: "keeps_view a \<Longrightarrow> keeps_view b \<Longrightarrow> keeps_view (if c then a else b)"
  by simp

lemma keeps_args: "(\<And>as. keeps_view (f as)) \<Longrightarrow> keeps_view (view_args m n f)"
  unfolding keeps_view_def by (auto simp: view_args_some)

lemma keeps_on_view: "(\<And>v. wf_view v \<Longrightarrow> wf_view (f v)) \<Longrightarrow> keeps_view (on_view f)"
  by (auto simp: keeps_view_def on_view_def)

lemma keeps_on_view_opt: "(\<And>v v'. wf_view v \<Longrightarrow> f v = Some v' \<Longrightarrow> wf_view v') \<Longrightarrow> keeps_view (on_view_opt f)"
  by (auto simp: keeps_view_def on_view_opt_def)

lemma keeps_all: "(\<And>su. wf_view (snd su) \<Longrightarrow> wf_view (snd (f su))) \<Longrightarrow> keeps_view (\<lambda>su. Some (b, f su))"
  unfolding keeps_view_def by (metis option.inject prod.inject)

lemma keeps_viewD: "keeps_view h \<Longrightarrow> h su = Some (ok, su') \<Longrightarrow> wf_view (snd su) \<Longrightarrow> wf_view (snd su')"
  unfolding keeps_view_def by blast

lemma wf_say [simp]: "wf_view (say e v) = wf_view v"
  by (simp add: wf_view_def shown_as_queue_def queue_rows_def known_job_def)

lemma slot_status: "upd_slot k f j = Some j' \<Longrightarrow> cj_status j' = cj_status j"
  by (auto simp: upd_slot_some)

lemma job_messages_wf:
  assumes "wf_view m"
  shows "job_issued as m = Some m' \<Longrightarrow> wf_view m'" "job_cmd_line as m = Some m' \<Longrightarrow> wf_view m'"
    "job_output as m = Some m' \<Longrightarrow> wf_view m'" "job_status as m = Some m' \<Longrightarrow> wf_view m'"
  using assms
  by (auto simp: job_issued_def job_cmd_line_def job_output_def job_status_def gebr_job_set_issues_def
      gebr_job_set_cmd_line_def gebr_job_append_output_def slot_status intro: wf_update with_job_wf elim!: with_job_same)

lemma handle_return_wf: "keeps_view (handle_return env m)"
proof -
  have mount: "same_jobs v (mount_sftp p v)" for p v by (auto simp: mount_sftp_def same_jobs_def)
  show ?thesis
    unfolding handle_return_def
    by (intro keeps_view_if keeps_args keeps_all keeps_on_view) (auto intro: same_jobs_wf ini_same mount)
qed

lemma question_same: "same_jobs m (ask_question env as m)" "same_jobs m (ask_password env as m)"
  by (auto simp: ask_question_def ask_password_def split: option.split)

lemma machine_same:
  "same_jobs m (machine_removed as m)" "same_jobs m (job_closed as m)" "machine_tags as m = Some m' \<Longrightarrow> same_jobs m m'"
proof -
  have "same_jobs m (m\<lparr>mv_daemons := ds\<rparr>)" for ds by (simp add: same_jobs_def)
  then show "same_jobs m (machine_removed as m)" by (simp add: machine_removed_def)
  show "same_jobs m (job_closed as m)" by (simp add: job_closed_def split: option.split)
  show "machine_tags as m = Some m' \<Longrightarrow> same_jobs m m'" by (auto simp: machine_tags_def split: option.splits)
qed

lemma error_same: "same_jobs (snd su) (snd (error_reported as su))"
proof -
  have err: "same_jobs m (m\<lparr>mv_error_type := t, mv_error_msg := msg\<rparr>)" for m t msg by (simp add: same_jobs_def)
  show ?thesis by (auto simp: error_reported_def split_beta err)
qed

lemma flavors_wf:
  "keeps_view (\<lambda>su. case get_daemon_from_address a (snd su) of None \<Rightarrow> Some (False, su) | Some d \<Rightarrow> on_view (say (VMpiChanged d x)) su)"
  unfolding keeps_view_def on_view_def by (auto split: option.splits)

lemma handle_wf: "keeps_view (handle_maestro_message env m)"
proof -
  have home: "same_jobs v (v\<lparr>mv_home := h\<rparr>)" for v h by (simp add: same_jobs_def)
  show ?thesis
    unfolding handle_maestro_message_def
    by (intro keeps_view_if keeps_args handle_return_wf flavors_wf keeps_all keeps_on_view keeps_on_view_opt)
      (auto intro: job_messages_wf job_defined_wf same_jobs_wf error_same domain_same question_same machine_same machine_state_same home)
qed

section \<open>The client and its maestro\<close>

text \<open>Everything that changes the jobs of the client: messages, jobs that it sends, and what happens to the connection.\<close>

inductive view_step :: "view_env \<Rightarrow> view server_user \<Rightarrow> view server_user \<Rightarrow> bool" for env where
  Message: "handle_maestro_message env m su = Some (ok, su') \<Longrightarrow> view_step env su su'"
| Send: "view_step env (s, v) (s, snd (gebr_maestro_server_add_temporary_job j v))"
| Disconnect: "view_step env su (gebr_comm_server_disconnect (maestro_state_changed env) su)"
| Connect: "view_step env su (gebr_comm_server_connect (maestro_state_changed env) True fi su)"
| Connected: "view_step env su (gebr_comm_server_socket_connected (maestro_state_changed env) f su)"
| Ssh: "view_step env su (on_comm_ssh_error (maestro_state_changed env) ec msg su)"
| Socket: "view_step env su (gebr_comm_server_disconnected_state (maestro_state_changed env) e msg su)"
| Password: "view_step env su (on_password_request env retry su)"
| Key: "view_step env su (gebr_maestro_server_append_key_finished su)"

inductive view_steps :: "view_env \<Rightarrow> view server_user \<Rightarrow> view server_user \<Rightarrow> bool" for env where
  Refl: "view_steps env su su"
| Step: "view_steps env su su' \<Longrightarrow> view_step env su' su'' \<Longrightarrow> view_steps env su su''"

lemma add_temporary_wf:
  assumes "wf_view v"
  shows "wf_view (snd (gebr_maestro_server_add_temporary_job j v))"
proof -
  have "\<not> known_job v (mv_next_job v)" "Some (mv_next_job v) \<notin> set (mv_queues v)"
    using assms by (auto simp: wf_view_def shown_as_queue_def)
  then show ?thesis
    using assms
    by (auto simp: wf_view_def shown_as_queue_def known_job_def queue_rows_def gebr_maestro_server_add_temporary_job_def Let_def less_Suc_eq)
qed

lemma view_step_wf: "view_step env su su' \<Longrightarrow> wf_view (snd su) \<Longrightarrow> wf_view (snd su')"
proof (induction rule: view_step.induct)
  case (Message m su ok su')
  then show ?case by (rule keeps_viewD [OF handle_wf])
next
  case (Send s v j)
  then show ?case by (simp add: add_temporary_wf)
next
  case (Password su retry)
  then show ?case by (auto simp: on_password_request_def Let_def on_server_def split: option.split)
next
  case (Key su)
  then show ?case
    using same_jobs_wf [of "snd su"]
    by (simp add: gebr_maestro_server_append_key_finished_def gebr_maestro_server_connect_on_daemons_def)
qed (rule same_jobs_wf, (rule maestro_jobs.rel_disconnect maestro_jobs.rel_connect maestro_jobs.rel_socket_connected
    maestro_jobs.rel_ssh_error maestro_jobs.rel_disconnected_state), assumption)+

section \<open>What arrives\<close>

text \<open>A message that the maestro wrote with the arguments \<open>ps\<close> is handled with them; NULL has become the empty text.\<close>

lemma view_args_delivered:
  assumes "list_all (\<lambda>p. arg_fits (nonempty_or [] p)) ps" "length ps = n"
  shows "view_args (delivered d False (build_args ps)) n f su = f (map (nonempty_or []) ps) su"
  using split_loop_build_args [OF assms(1)] assms(2)
  by (simp add: view_args_def split_args_def gebr_comm_protocol_split_new_def)

lemma view_hashes:
  "code_hash job_def \<notin> code_hash ` {ret_def, err_def, ssta_def}"
  "code_hash iss_def \<notin> code_hash ` {ret_def, err_def, ssta_def, job_def}"
  "code_hash cmd_def \<notin> code_hash ` {ret_def, err_def, ssta_def, job_def, iss_def}"
  "code_hash out_def \<notin> code_hash ` {ret_def, err_def, ssta_def, job_def, iss_def, cmd_def}"
  "code_hash sta_def \<notin> code_hash ` {ret_def, err_def, ssta_def, job_def, iss_def, cmd_def, out_def}"
  "code_hash agrp_def \<notin> code_hash ` {ret_def, err_def, ssta_def, job_def, iss_def, cmd_def, out_def, sta_def, jcl_def}"
  by (simp_all add: message_defs gebr_comm_message_def_create_def g_str_hash_def signed_code_def code_def)

lemma job_message:
  assumes "list_all (\<lambda>p. arg_fits (nonempty_or [] p)) ps"
  shows
    "length ps = 26 \<Longrightarrow> handle_maestro_message env (delivered job_def False (build_args ps)) su =
       on_view (job_defined env (map (nonempty_or []) ps)) su"
    "length ps = 2 \<Longrightarrow> handle_maestro_message env (delivered iss_def False (build_args ps)) su =
       on_view_opt (job_issued (map (nonempty_or []) ps)) su"
    "length ps = 3 \<Longrightarrow> handle_maestro_message env (delivered cmd_def False (build_args ps)) su =
       on_view_opt (job_cmd_line (map (nonempty_or []) ps)) su"
    "length ps = 3 \<Longrightarrow> handle_maestro_message env (delivered out_def False (build_args ps)) su =
       on_view_opt (job_output (map (nonempty_or []) ps)) su"
    "length ps = 3 \<Longrightarrow> handle_maestro_message env (delivered sta_def False (build_args ps)) su =
       on_view_opt (job_status (map (nonempty_or []) ps)) su"
    "length ps = 2 \<Longrightarrow> handle_maestro_message env (delivered agrp_def False (build_args ps)) su =
       on_view_opt (machine_tags (map (nonempty_or []) ps)) su"
  using view_hashes assms by (simp_all add: handle_maestro_message_def delivered_hash view_args_delivered)

text \<open>A definition of a job that the client does not know.\<close>

lemma find_new_job:
  assumes "mv_jobs v (as ! 0) = None" "mv_temp_jobs v (as ! 1) = None"
  shows "find_or_make_job as v =
    (mv_next_job v, True, False,
     (set_cjob (mv_next_job v) (gebr_job_new_with_id (Some (as ! 0)) (Some (as ! 11)) (Some (as ! 23))) v)\<lparr>mv_next_job := mv_next_job v + 1\<rparr>)"
  using assms by (simp add: find_or_make_job_def Let_def)

lemma job_defined_new:
  fixes env :: view_env and as :: "string list"
  assumes "mv_jobs v (as ! 0) = None" "mv_temp_jobs v (as ! 1) = None"
  defines "j \<equiv> mv_job (job_defined env as v) (mv_next_job v)"
  shows "mv_jobs (job_defined env as v) = (mv_jobs v)(as ! 0 \<mapsto> mv_next_job v)"
    and "cj_tasks j = task_slots (ve_strtod env) 1 (g_strsplit (as ! 4) '','' 0)"
    and "cj_status j = gebr_comm_job_get_status_from_string (Some (as ! 20))"
    and "cj_runid j = Some (as ! 0)" "cj_title j = Some (as ! 6)" "cj_queue j = Some (as ! 11)" "cj_hostname j = Some (as ! 5)"
    and "cj_issues j = None"
  unfolding j_def job_defined_def find_new_job [OF assms(1,2)] prod.case Let_def gebr_job_set_static_status_def
  by (simp_all add: define_job_def init_job_def gebr_job_set_io_def gebr_job_set_server_list_def gebr_job_set_servers_def
      gebr_job_set_server_group_def gebr_job_new_with_id_def gebr_job_init_def Let_def)

text \<open>
  C4: whatever messages arrive and whatever happens to the connection, the queues that the client offers are the row of
  immediate execution and below it jobs, each once: every job of the table that waits or runs is among them, and each of
  them is a job of the table that did not stop. (A job that was offered stays when a message gives it another status that
  is not one of the three of a stopped job.)
\<close>

theorem queues_follow_jobs:
  assumes "view_steps env (s, gebr_maestro_server_new cf addr) (s', m)"
  shows "\<exists>rs. mv_queues m = None # map Some rs \<and> distinct rs \<and>
    {r \<in> Map.ran (mv_jobs m). gebr_job_is_queueable (mv_job m r)} \<subseteq> set rs \<and>
    set rs \<subseteq> {r \<in> Map.ran (mv_jobs m). \<not> gebr_job_is_stopped (mv_job m r)}"
proof -
  have "wf_view (snd su')" if "view_steps env su su'" "wf_view (snd su)" for su su'
    using that by (induction rule: view_steps.induct) (auto dest: view_step_wf)
  from this [OF assms] have w: "wf_view m"
    by (simp add: wf_view_def gebr_maestro_server_new_def queue_rows_def known_job_def shown_as_queue_def)
  then obtain qs where qs: "mv_queues m = None # qs" "distinct qs" "None \<notin> set qs"
    by (cases "mv_queues m") (auto simp: wf_view_def queue_rows_def)
  define rs where "rs = map the qs"
  have rs: "qs = map Some rs" using qs(3) unfolding rs_def by (induction qs) auto
  have "r \<in> Map.ran (mv_jobs m) \<longleftrightarrow> known_job m r" for r by (auto simp: Map.ran_def known_job_def)
  then show ?thesis
    using w qs rs by (intro exI [of _ rs]) (auto simp: wf_view_def shown_as_queue_def distinct_map)
qed

text \<open>A client that hears of the running job 7.\<close>

definition plain_view_env :: view_env where
  "plain_view_env =
     \<lparr>ve_user = ''u'', ve_host = ''h'', ve_session = ''1'', ve_cookie = ''c'', ve_nfsid = None, ve_strtod = (\<lambda>_. 1),
      ve_append_key = (\<lambda>_. []), ve_escape = (\<lambda>x. x), ve_password = (\<lambda>_ _ _ _. None), ve_question = (\<lambda>_ _ _. False),
      ve_job_ids = (\<lambda>_. [])\<rparr>"

definition plain_client :: "view server_user" where
  "plain_client = (gebr_comm_server_new ''h'' ''node'' None, gebr_maestro_server_new two_machines_conf None)"

definition running_args :: "string list" where
  "running_args = [''7'', [], [], [], [], [], [], [], [], [], [], [], [], [], [], [], [], [], [], [], ''running'', [], [], [], [], []]"

theorem queues_witness:
  "\<exists>s m rs. view_steps plain_view_env plain_client (s, m) \<and> mv_queues m = None # map Some rs \<and> 0 \<in> set rs"
proof -
  let ?v = "job_defined plain_view_env running_args (snd plain_client)" and ?ps = "map Some running_args"
  have ps: "list_all (\<lambda>p. arg_fits (nonempty_or [] p)) ?ps" "length ?ps = 26" "map (nonempty_or []) ?ps = running_args"
    by (simp_all add: running_args_def arg_fits_def nonempty_or_def)
  have as: "running_args ! 0 = ''7''" "running_args ! 1 = []" "running_args ! 20 = ''running''"
    by (simp_all add: running_args_def)
  have "handle_maestro_message plain_view_env (delivered job_def False (build_args ?ps)) plain_client =
      Some (True, fst plain_client, ?v)"
    using job_message(1) [OF ps(1,2), of plain_view_env plain_client] ps(3) by (simp only: on_view_def)
  then have steps: "view_steps plain_view_env plain_client (fst plain_client, ?v)"
    by (rule view_steps.Step [OF view_steps.Refl view_step.Message])
  have new: "mv_jobs (snd plain_client) (running_args ! 0) = None" "mv_temp_jobs (snd plain_client) (running_args ! 1) = None"
    "mv_next_job (snd plain_client) = 0" by (simp_all add: plain_client_def gebr_maestro_server_new_def)
  note job = job_defined_new [OF new(1,2), of plain_view_env, unfolded new(3) as]
  have "gebr_job_is_queueable (mv_job ?v 0)"
    by (simp add: gebr_job_is_queueable_def job(3) gebr_comm_job_get_status_from_string_def)
  moreover have "0 \<in> Map.ran (mv_jobs ?v)" by (rule ranI [of _ "''7''"]) (simp add: job(1))
  ultimately show ?thesis
    using queues_follow_jobs [OF steps [unfolded plain_client_def fst_conv snd_conv]] steps
    unfolding plain_client_def fst_conv snd_conv by blast
qed

end
