(* ===== verification/Gebr_Copy.thy ===== *)
theory Gebr_Copy
  imports Gebr_Mirror
begin

text \<open>
  The copy of a job: what the maestro writes about a job for a client that connects, read by the client, gives a job with the
  status, names, outputs and commands of the maestro's. Reports on jobs that the client does not know crash it.
\<close>

section \<open>What the maestro writes\<close>

definition job_messages :: "app_env \<Rightarrow> string \<Rightarrow> job_ref \<Rightarrow> maestro \<Rightarrow> (message_def \<times> cstr list) list" where
  "job_messages env k j w =
     (let ts = job_tasks (jobs w j); iss = gebrm_job_get_issues j w; i = info (jobs w j)
      in (job_def, Some k # tl (job_fields env j (info_snapshot_title i) (info_snapshot_id i) w)) #
         map (\<lambda>t. (out_def, [Some k, Some (show_int (frac (tasks w t))), Some (task_output (tasks w t))])) ts @
         map (\<lambda>t. (cmd_def, [Some k, Some (show_int (frac (tasks w t))), Some (cmd_line (tasks w t))])) ts @
         (if iss \<noteq> None \<and> iss \<noteq> Some [] then [(iss_def, [Some k, iss])] else []))"

lemma fold_client_send:
  "fold (\<lambda>t. client_send c (d t) (f t)) ts a = upd_w (emit_all (map (\<lambda>t. ClientSend c (d t) (f t)) ts)) a"
  by (induction ts arbitrary: a) (simp_all add: client_send_def upd_w_def)

lemma client_send_trace: "daemon_trace (ap_w (client_send c d ps a)) = daemon_trace (ap_w a) @ [ClientSend c d ps]"
  by (simp add: client_send_def)

lemma send_messages_trace:
  "daemon_trace (ap_w (send_messages_of_jobs env (Some k) j c a)) =
     daemon_trace (ap_w a) @ map (\<lambda>(d, ps). ClientSend c d ps) (job_messages env k j (ap_w a))"
  by (simp add: send_messages_of_jobs_def job_messages_def fold_client_send client_send_trace Let_def gebrm_task_get_fraction_def comp_def)

text \<open>What of a trace reaches the client \<open>c\<close>, as the protocol delivers it.\<close>

definition arriving :: "client_ref \<Rightarrow> daemon_event list \<Rightarrow> Comm_Protocol.message list" where
  "arriving c es =
     concat (map (\<lambda>e. case e of
         ClientSend c' d ps \<Rightarrow> if c' = c then [delivered d False (build_args ps)] else []
       | ClientReturn c' d ps \<Rightarrow> if c' = c then [delivered d True (build_args ps)] else []
       | _ \<Rightarrow> []) es)"

lemma arriving_sent: "arriving c (map (\<lambda>(d, ps). ClientSend c d ps) ms) = map (\<lambda>(d, ps). delivered d False (build_args ps)) ms"
  by (induction ms) (auto simp: arriving_def)

section \<open>The reports\<close>

text \<open>Reports with distinct slots change each slot once.\<close>

definition fill_slots :: "('t \<Rightarrow> nat) \<Rightarrow> ('t \<Rightarrow> 'a \<Rightarrow> 'a) \<Rightarrow> 't list \<Rightarrow> 'a list \<Rightarrow> 'a list" where
  "fill_slots pos f ts xs = fold (\<lambda>t xs. xs[pos t := f t (xs ! pos t)]) ts xs"

lemma fill_slots_length [simp]: "length (fill_slots pos f ts xs) = length xs"
  unfolding fill_slots_def by (induction ts arbitrary: xs) simp_all

lemma fill_slots_other: "i \<notin> pos ` set ts \<Longrightarrow> fill_slots pos f ts xs ! i = xs ! i"
  unfolding fill_slots_def by (induction ts arbitrary: xs) auto

lemma fill_slots_nth:
  assumes "distinct (map pos ts)" "t \<in> set ts" "pos t < length xs"
  shows "fill_slots pos f ts xs ! pos t = f t (xs ! pos t)"
  using assms
proof (induction ts arbitrary: xs)
  case (Cons u ts)
  let ?xs = "xs[pos u := f u (xs ! pos u)]"
  have step: "fill_slots pos f (u # ts) xs = fill_slots pos f ts ?xs" by (simp add: fill_slots_def)
  show ?case
  proof (cases "t = u")
    case True
    then show ?thesis using Cons.prems by (simp add: step fill_slots_other)
  next
    case False
    then have t: "t \<in> set ts" using Cons.prems by simp
    then have "pos t \<noteq> pos u" using Cons.prems by (metis distinct.simps(2) image_eqI list.simps(9) set_map)
    then show ?thesis using Cons t by (simp add: step)
  qed
qed simp

text \<open>Reports of the tasks \<open>ts\<close> that set the slots of a job, whatever they set.\<close>

lemma parse_reports:
  assumes "\<And>t v. t \<in> set ts \<Longrightarrow> mv_jobs v k = Some r \<Longrightarrow> length (cj_tasks (mv_job v r)) = n \<Longrightarrow>
      \<exists>es. handle_maestro_message env (msg t) (s, v) =
        Some (True, s, say_job r es (set_cjob r ((mv_job v r)\<lparr>cj_tasks := (cj_tasks (mv_job v r))
          [pos t := f t (cj_tasks (mv_job v r) ! pos t)]\<rparr>) v))"
    and "mv_jobs v k = Some r" "length (cj_tasks (mv_job v r)) = n"
  shows "\<exists>v'. parse_maestro_messages env (map msg ts @ ms) (s, v) = parse_maestro_messages env ms (s, v') \<and>
    mv_jobs v' = mv_jobs v \<and> mv_job v' r = (mv_job v r)\<lparr>cj_tasks := fill_slots pos f ts (cj_tasks (mv_job v r))\<rparr>"
  using assms
proof (induction ts arbitrary: v)
  case Nil
  then show ?case by (auto simp: fill_slots_def)
next
  case (Cons t ts)
  obtain es where es: "handle_maestro_message env (msg t) (s, v) =
      Some (True, s, say_job r es (set_cjob r ((mv_job v r)\<lparr>cj_tasks := (cj_tasks (mv_job v r))
        [pos t := f t (cj_tasks (mv_job v r) ! pos t)]\<rparr>) v))"
    using Cons.prems(1) [of t v] Cons.prems(2,3) by auto
  let ?v = "say_job r es (set_cjob r ((mv_job v r)\<lparr>cj_tasks := (cj_tasks (mv_job v r))
      [pos t := f t (cj_tasks (mv_job v r) ! pos t)]\<rparr>) v)"
  obtain v' where "parse_maestro_messages env (map msg ts @ ms) (s, ?v) = parse_maestro_messages env ms (s, v')"
      "mv_jobs v' = mv_jobs ?v" "mv_job v' r = (mv_job ?v r)\<lparr>cj_tasks := fill_slots pos f ts (cj_tasks (mv_job ?v r))\<rparr>"
    using Cons.IH [of ?v] Cons.prems by auto
  with es show ?case by (auto simp: fill_slots_def)
qed

definition task_slot :: "maestro \<Rightarrow> task_ref \<Rightarrow> nat" where
  "task_slot w t = nat (frac (tasks w t) - 1)"

lemma task_reports:
  assumes "mv_jobs v k = Some r" "1 \<le> n" "n < 2 ^ 31" "nat (n - 1) < length (cj_tasks (mv_job v r))"
    and "list_all (\<lambda>p. arg_fits (nonempty_or [] p)) [Some k, Some (show_int n), Some x]"
  defines "upd \<equiv> \<lambda>f. (mv_job v r)\<lparr>cj_tasks := (cj_tasks (mv_job v r))[nat (n - 1) := f (cj_tasks (mv_job v r) ! nat (n - 1))]\<rparr>"
  shows "handle_maestro_message env (delivered out_def False (build_args [Some k, Some (show_int n), Some x])) (s, v) =
      Some (True, s, say_job r [CjOutput (n - 1) x] (set_cjob r (upd (\<lambda>ct. ct\<lparr>ct_output := ct_output ct @ x\<rparr>)) v))"
    and "handle_maestro_message env (delivered cmd_def False (build_args [Some k, Some (show_int n), Some x])) (s, v) =
      Some (True, s, say_job r [CjCmdLine (n - 1) (Some x)] (set_cjob r (upd (\<lambda>ct. ct\<lparr>ct_cmd_line := Some x\<rparr>)) v))"
proof -
  have n: "c_atoi (nonempty_or [] (Some (show_int n))) = n" using assms(2,3) by (simp add: nonempty_or_def c_atoi_show_int)
  have texts: "nonempty_or [] (Some k) = k" "nonempty_or [] (Some x) = x" by (simp_all add: nonempty_or_def)
  show "handle_maestro_message env (delivered out_def False (build_args [Some k, Some (show_int n), Some x])) (s, v) =
      Some (True, s, say_job r [CjOutput (n - 1) x] (set_cjob r (upd (\<lambda>ct. ct\<lparr>ct_output := ct_output ct @ x\<rparr>)) v))"
    using assms(1,2,4) n texts unfolding upd_def
    by (subst job_message(4) [OF assms(5)])
      (simp_all add: on_view_opt_def job_output_def with_job_def gebr_job_append_output_def upd_slot_def)
  show "handle_maestro_message env (delivered cmd_def False (build_args [Some k, Some (show_int n), Some x])) (s, v) =
      Some (True, s, say_job r [CjCmdLine (n - 1) (Some x)] (set_cjob r (upd (\<lambda>ct. ct\<lparr>ct_cmd_line := Some x\<rparr>)) v))"
    using assms(1,2,4) n texts unfolding upd_def
    by (subst job_message(3) [OF assms(5)])
      (simp_all add: on_view_opt_def job_cmd_line_def with_job_def gebr_job_set_cmd_line_def upd_slot_def)
qed

section \<open>The copy\<close>

text \<open>The arguments of the definition, as the client reads them.\<close>

definition defined_args :: "app_env \<Rightarrow> string \<Rightarrow> job_ref \<Rightarrow> maestro \<Rightarrow> cstr list" where
  "defined_args env k j w =
     Some k # tl (job_fields env j (info_snapshot_title (info (jobs w j))) (info_snapshot_id (info (jobs w j))) w)"

lemma defined_args_nth:
  fixes env :: app_env and k :: string and j :: job_ref and w :: maestro
  defines "as \<equiv> map (nonempty_or []) (defined_args env k j w)"
  shows "length (defined_args env k j w) = 26" "as ! 0 = k" "as ! 1 = nonempty_or [] (info_temp_id (info (jobs w j)))"
    "as ! 4 = nonempty_or [] (servers (jobs w j))" "as ! 6 = nonempty_or [] (info_title (info (jobs w j)))"
    "as ! 11 = nonempty_or [] (gebrm_job_get_queue (jobs w j))"
    "as ! 20 = gebr_comm_job_get_string_from_status (status (jobs w j))"
  unfolding as_def defined_args_def job_fields_def Let_def gebrm_job_get_io_def prod.case gebrm_job_get_status_def list.sel
  by (simp_all add: nonempty_or_def)

lemma parse_definition:
  fixes env :: app_env and w :: maestro and v :: view
  assumes "list_all (\<lambda>p. arg_fits (nonempty_or [] p)) (defined_args env k j w)"
    and "mv_jobs v k = None" "mv_temp_jobs v (nonempty_or [] (info_temp_id (info (jobs w j)))) = None"
  shows "\<exists>v' r. parse_maestro_messages venv (delivered job_def False (build_args (defined_args env k j w)) # ms) (s, v) =
      parse_maestro_messages venv ms (s, v') \<and> mv_jobs v' k = Some r \<and>
      cj_tasks (mv_job v' r) = task_slots (ve_strtod venv) 1 (g_strsplit (nonempty_or [] (servers (jobs w j))) '','' 0) \<and>
      cj_status (mv_job v' r) = status (jobs w j) \<and> cj_title (mv_job v' r) = Some (nonempty_or [] (info_title (info (jobs w j)))) \<and>
      cj_queue (mv_job v' r) = Some (nonempty_or [] (gebrm_job_get_queue (jobs w j))) \<and> cj_issues (mv_job v' r) = None"
proof -
  let ?as = "map (nonempty_or []) (defined_args env k j w)"
  note nths = defined_args_nth [where env = env and k = k and j = j and w = w]
  have new: "mv_jobs v (?as ! 0) = None" "mv_temp_jobs v (?as ! 1) = None" using assms(2,3) by (simp_all only: nths)
  have "handle_maestro_message venv (delivered job_def False (build_args (defined_args env k j w))) (s, v) =
      Some (True, s, job_defined venv ?as v)"
    using job_message(1) [OF assms(1) nths(1)] by (simp add: on_view_def)
  then have "parse_maestro_messages venv (delivered job_def False (build_args (defined_args env k j w)) # ms) (s, v) =
      parse_maestro_messages venv ms (s, job_defined venv ?as v)" by simp
  then show ?thesis
    using job_defined_new [OF new, of venv] unfolding nths by (auto simp: status_string_inverse)
qed

lemma issues_message:
  assumes "mv_jobs v k = Some r" "list_all (\<lambda>p. arg_fits (nonempty_or [] p)) [Some k, Some x]"
  shows "parse_maestro_messages env [delivered iss_def False (build_args [Some k, Some x])] (s, v) =
    Some (s, say_job r [CjIssued (Some x)] (set_cjob r ((mv_job v r)\<lparr>cj_issues := Some x\<rparr>) v))"
proof -
  have "nonempty_or [] (Some k) = k" "nonempty_or [] (Some x) = x" by (simp_all add: nonempty_or_def)
  then have "handle_maestro_message env (delivered iss_def False (build_args [Some k, Some x])) (s, v) =
      Some (True, s, say_job r [CjIssued (Some x)] (set_cjob r ((mv_job v r)\<lparr>cj_issues := Some x\<rparr>) v))"
    using assms(1)
    by (subst job_message(2) [OF assms(2)]) (simp_all add: on_view_opt_def job_issued_def with_job_def gebr_job_set_issues_def)
  then show ?thesis by simp
qed

text \<open>Both rounds of reports: the outputs of all tasks, then their commands.\<close>

lemma parse_task_messages:
  fixes w :: maestro and v :: view and k :: string
  defines "out \<equiv> \<lambda>t. [Some k, Some (show_int (frac (tasks w t))), Some (task_output (tasks w t))]"
    and "cmd \<equiv> \<lambda>t. [Some k, Some (show_int (frac (tasks w t))), Some (cmd_line (tasks w t))]"
  assumes "mv_jobs v k = Some r"
    and "\<And>t. t \<in> set ts \<Longrightarrow> 1 \<le> frac (tasks w t) \<and> frac (tasks w t) < 2 ^ 31 \<and> task_slot w t < length (cj_tasks (mv_job v r))"
    and "\<And>t. t \<in> set ts \<Longrightarrow> list_all (\<lambda>p. arg_fits (nonempty_or [] p)) (out t) \<and> list_all (\<lambda>p. arg_fits (nonempty_or [] p)) (cmd t)"
  shows "\<exists>v'. parse_maestro_messages env (map (\<lambda>t. delivered out_def False (build_args (out t))) ts @
        map (\<lambda>t. delivered cmd_def False (build_args (cmd t))) ts @ ms) (s, v) = parse_maestro_messages env ms (s, v') \<and>
      mv_jobs v' k = Some r \<and>
      mv_job v' r = (mv_job v r)\<lparr>cj_tasks :=
        fill_slots (task_slot w) (\<lambda>t ct. ct\<lparr>ct_cmd_line := Some (cmd_line (tasks w t))\<rparr>) ts
          (fill_slots (task_slot w) (\<lambda>t ct. ct\<lparr>ct_output := ct_output ct @ task_output (tasks w t)\<rparr>) ts (cj_tasks (mv_job v r)))\<rparr>"
proof -
  let ?n = "length (cj_tasks (mv_job v r))"
  have o: "\<exists>es. handle_maestro_message env (delivered out_def False (build_args (out t))) (s, u) =
        Some (True, s, say_job r es (set_cjob r ((mv_job u r)\<lparr>cj_tasks := (cj_tasks (mv_job u r))[task_slot w t :=
          (cj_tasks (mv_job u r) ! task_slot w t)\<lparr>ct_output := ct_output (cj_tasks (mv_job u r) ! task_slot w t) @ task_output (tasks w t)\<rparr>]\<rparr>) u))"
    and c: "\<exists>es. handle_maestro_message env (delivered cmd_def False (build_args (cmd t))) (s, u) =
        Some (True, s, say_job r es (set_cjob r ((mv_job u r)\<lparr>cj_tasks := (cj_tasks (mv_job u r))[task_slot w t :=
          (cj_tasks (mv_job u r) ! task_slot w t)\<lparr>ct_cmd_line := Some (cmd_line (tasks w t))\<rparr>]\<rparr>) u))"
    if "t \<in> set ts" "mv_jobs u k = Some r" "length (cj_tasks (mv_job u r)) = ?n" for t u
    using task_reports [of u k r "frac (tasks w t)"] assms(4,5) [OF that(1)] that(2,3)
    unfolding task_slot_def out_def cmd_def by (metis, metis)
  obtain v1 where v1: "parse_maestro_messages env (map (\<lambda>t. delivered out_def False (build_args (out t))) ts @
        map (\<lambda>t. delivered cmd_def False (build_args (cmd t))) ts @ ms) (s, v) =
      parse_maestro_messages env (map (\<lambda>t. delivered cmd_def False (build_args (cmd t))) ts @ ms) (s, v1)"
    "mv_jobs v1 = mv_jobs v"
    "mv_job v1 r = (mv_job v r)\<lparr>cj_tasks := fill_slots (task_slot w)
      (\<lambda>t ct. ct\<lparr>ct_output := ct_output ct @ task_output (tasks w t)\<rparr>) ts (cj_tasks (mv_job v r))\<rparr>"
    using parse_reports [where msg = "\<lambda>t. delivered out_def False (build_args (out t))" and pos = "task_slot w"
        and f = "\<lambda>t ct. ct\<lparr>ct_output := ct_output ct @ task_output (tasks w t)\<rparr>", OF o assms(3) refl] by blast
  have v1k: "mv_jobs v1 k = Some r" "length (cj_tasks (mv_job v1 r)) = ?n" using v1 assms(3) by simp_all
  obtain v2 where v2: "parse_maestro_messages env (map (\<lambda>t. delivered cmd_def False (build_args (cmd t))) ts @ ms) (s, v1) =
      parse_maestro_messages env ms (s, v2)" "mv_jobs v2 = mv_jobs v1"
    "mv_job v2 r = (mv_job v1 r)\<lparr>cj_tasks := fill_slots (task_slot w)
      (\<lambda>t ct. ct\<lparr>ct_cmd_line := Some (cmd_line (tasks w t))\<rparr>) ts (cj_tasks (mv_job v1 r))\<rparr>"
    using parse_reports [where msg = "\<lambda>t. delivered cmd_def False (build_args (cmd t))" and pos = "task_slot w"
        and f = "\<lambda>t ct. ct\<lparr>ct_cmd_line := Some (cmd_line (tasks w t))\<rparr>", OF c v1k] by blast
  show ?thesis
  proof (intro exI conjI)
    show "mv_jobs v2 k = Some r" using v2(2) v1k(1) by simp
  qed (simp_all add: v1(1,3) v2(1,3))
qed

lemma job_messages_defined:
  "job_messages env k j w = (job_def, defined_args env k j w) #
     map (\<lambda>t. (out_def, [Some k, Some (show_int (frac (tasks w t))), Some (task_output (tasks w t))])) (job_tasks (jobs w j)) @
     map (\<lambda>t. (cmd_def, [Some k, Some (show_int (frac (tasks w t))), Some (cmd_line (tasks w t))])) (job_tasks (jobs w j)) @
     (if gebrm_job_has_issues j w then [(iss_def, [Some k, Some (the (gebrm_job_get_issues j w))])] else [])"
  by (auto simp: job_messages_def defined_args_def gebrm_job_has_issues_def gebrm_job_get_issues_def Let_def split: list.split)

text \<open>The client learns of the issues too.\<close>

lemma parse_issues:
  assumes "mv_jobs v k = Some r" "cj_issues (mv_job v r) = None"
    and "b \<Longrightarrow> x \<noteq> [] \<and> list_all (\<lambda>p. arg_fits (nonempty_or [] p)) [Some k, Some x]"
  shows "\<exists>v'. parse_maestro_messages env
      (map (\<lambda>(d, ps). delivered d False (build_args ps)) (if b then [(iss_def, [Some k, Some x])] else [])) (s, v) = Some (s, v') \<and>
    mv_jobs v' = mv_jobs v \<and> (\<exists>iss. mv_job v' r = (mv_job v r)\<lparr>cj_issues := iss\<rparr>) \<and>
    gebr_job_has_issues (mv_job v' r) = b"
proof (cases b)
  case True
  let ?v = "say_job r [CjIssued (Some x)] (set_cjob r ((mv_job v r)\<lparr>cj_issues := Some x\<rparr>) v)"
  have p: "parse_maestro_messages env [delivered iss_def False (build_args [Some k, Some x])] (s, v) = Some (s, ?v)"
    using assms(1) conjunct2 [OF assms(3) [OF True]] by (rule issues_message)
  have x: "x \<noteq> []" using assms(3) [OF True] by simp
  have job: "mv_job ?v r = (mv_job v r)\<lparr>cj_issues := Some x\<rparr>" by simp
  have "gebr_job_has_issues (mv_job ?v r)" unfolding job gebr_job_has_issues_def by (simp add: x)
  moreover have "mv_jobs ?v = mv_jobs v" by simp
  ultimately show ?thesis
    unfolding if_P [OF True] list.map prod.case p using job True by blast
next
  case False
  show ?thesis
  proof (intro exI conjI)
    show "mv_job v r = (mv_job v r)\<lparr>cj_issues := None\<rparr>" using assms(2) by simp
  qed (use False assms(2) in \<open>simp_all add: gebr_job_has_issues_def\<close>)
qed

text \<open>Everything about a job, read from the front: the slots are filled twice.\<close>

definition copied_slots :: "view_env \<Rightarrow> job_ref \<Rightarrow> maestro \<Rightarrow> client_task list" where
  "copied_slots venv j w =
     fill_slots (task_slot w) (\<lambda>t ct. ct\<lparr>ct_cmd_line := Some (cmd_line (tasks w t))\<rparr>) (job_tasks (jobs w j))
       (fill_slots (task_slot w) (\<lambda>t ct. ct\<lparr>ct_output := ct_output ct @ task_output (tasks w t)\<rparr>) (job_tasks (jobs w j))
         (task_slots (ve_strtod venv) 1 (g_strsplit (nonempty_or [] (servers (jobs w j))) '','' 0)))"

lemma parse_job_messages:
  fixes w :: maestro and v :: view
  assumes "\<forall>m \<in> set (job_messages env k j w). list_all (\<lambda>p. arg_fits (nonempty_or [] p)) (snd m)"
    and "mv_jobs v k = None" "mv_temp_jobs v (nonempty_or [] (info_temp_id (info (jobs w j)))) = None"
    and slots: "\<And>t. t \<in> set (job_tasks (jobs w j)) \<Longrightarrow> 1 \<le> frac (tasks w t) \<and> frac (tasks w t) < 2 ^ 31 \<and>
      task_slot w t < length (g_strsplit (nonempty_or [] (servers (jobs w j))) '','' 0) div 2"
  shows "\<exists>v' r. parse_maestro_messages venv (map (\<lambda>(d, ps). delivered d False (build_args ps)) (job_messages env k j w)) (s, v) =
      Some (s, v') \<and> mv_jobs v' k = Some r \<and> cj_status (mv_job v' r) = status (jobs w j) \<and>
      cj_title (mv_job v' r) = Some (nonempty_or [] (info_title (info (jobs w j)))) \<and>
      cj_queue (mv_job v' r) = Some (nonempty_or [] (gebrm_job_get_queue (jobs w j))) \<and>
      gebr_job_has_issues (mv_job v' r) = gebrm_job_has_issues j w \<and> cj_tasks (mv_job v' r) = copied_slots venv j w"
proof -
  let ?ts = "job_tasks (jobs w j)" and ?iss = "gebrm_job_has_issues j w" and ?x = "the (gebrm_job_get_issues j w)"
  let ?out = "\<lambda>t. [Some k, Some (show_int (frac (tasks w t))), Some (task_output (tasks w t))]"
  let ?cmd = "\<lambda>t. [Some k, Some (show_int (frac (tasks w t))), Some (cmd_line (tasks w t))]"
  let ?tail = "map (\<lambda>(d, ps). delivered d False (build_args ps)) (if ?iss then [(iss_def, [Some k, Some ?x])] else [])"
  let ?msgs = "map (\<lambda>t. delivered out_def False (build_args (?out t))) ?ts @
    map (\<lambda>t. delivered cmd_def False (build_args (?cmd t))) ?ts @ ?tail"
  have all: "map (\<lambda>(d, ps). delivered d False (build_args ps)) (job_messages env k j w) =
      delivered job_def False (build_args (defined_args env k j w)) # ?msgs"
    by (simp add: job_messages_defined comp_def del: build_args.simps)
  have msgs: "list_all (\<lambda>p. arg_fits (nonempty_or [] p)) (defined_args env k j w)"
    "\<And>t. t \<in> set ?ts \<Longrightarrow> list_all (\<lambda>p. arg_fits (nonempty_or [] p)) (?out t) \<and> list_all (\<lambda>p. arg_fits (nonempty_or [] p)) (?cmd t)"
    "?iss \<Longrightarrow> list_all (\<lambda>p. arg_fits (nonempty_or [] p)) [Some k, Some ?x]"
    using assms(1) by (simp_all add: job_messages_defined ball_Un)
  obtain v1 r where v1: "parse_maestro_messages venv (delivered job_def False (build_args (defined_args env k j w)) # ?msgs) (s, v) =
      parse_maestro_messages venv ?msgs (s, v1)" "mv_jobs v1 k = Some r"
    "cj_tasks (mv_job v1 r) = task_slots (ve_strtod venv) 1 (g_strsplit (nonempty_or [] (servers (jobs w j))) '','' 0)"
    "cj_status (mv_job v1 r) = status (jobs w j)" "cj_title (mv_job v1 r) = Some (nonempty_or [] (info_title (info (jobs w j))))"
    "cj_queue (mv_job v1 r) = Some (nonempty_or [] (gebrm_job_get_queue (jobs w j)))" "cj_issues (mv_job v1 r) = None"
    using parse_definition [OF msgs(1) assms(2,3)] by blast
  obtain v2 where v2: "parse_maestro_messages venv ?msgs (s, v1) = parse_maestro_messages venv ?tail (s, v2)" "mv_jobs v2 k = Some r"
    "mv_job v2 r = (mv_job v1 r)\<lparr>cj_tasks := copied_slots venv j w\<rparr>"
    using parse_task_messages [OF v1(2), of ?ts w] slots msgs(2) unfolding v1(3) task_slots_length copied_slots_def by blast
  have x: "?iss \<Longrightarrow> ?x \<noteq> []" by (auto simp: gebrm_job_has_issues_def gebrm_job_get_issues_def split: list.splits)
  have "cj_issues (mv_job v2 r) = None" using v1(7) v2(3) by simp
  from parse_issues [OF v2(2) this] x msgs(3) obtain v3 iss where v3: "parse_maestro_messages venv ?tail (s, v2) = Some (s, v3)"
    "mv_jobs v3 = mv_jobs v2" "mv_job v3 r = (mv_job v2 r)\<lparr>cj_issues := iss\<rparr>"
    "gebr_job_has_issues (mv_job v3 r) = ?iss" by blast
  show ?thesis
  proof (intro exI conjI)
    show "mv_jobs v3 k = Some r" using v3(2) v2(2) by simp
    show "parse_maestro_messages venv (map (\<lambda>(d, ps). delivered d False (build_args ps)) (job_messages env k j w)) (s, v) = Some (s, v3)"
      unfolding all v1(1) v2(1) v3(1) ..
  qed (use v3(4) in \<open>simp_all add: v3(3) v2(3) v1(4-7)\<close>)
qed

text \<open>
  C2: a client that connects gets a true copy of every job: it reads, without an error, all that the maestro writes about
  a job, and then knows it under its id with the maestro's status, title and queue, with issues exactly when it has some,
  and with the output and the command of each task in the slot of the task's fraction.
\<close>

theorem job_copied:
  assumes "daemon_trace (ap_w (send_messages_of_jobs env (Some k) j c a)) = daemon_trace (ap_w a) @ es"
    and "\<forall>d ps. ClientSend c d ps \<in> set es \<longrightarrow> list_all (\<lambda>p. arg_fits (nonempty_or [] p)) ps"
    and "mv_jobs v k = None" "mv_temp_jobs v (nonempty_or [] (info_temp_id (info (jobs (ap_w a) j)))) = None"
    and "distinct (map (\<lambda>t. frac (tasks (ap_w a) t)) (job_tasks (jobs (ap_w a) j)))"
    and "\<forall>t \<in> set (job_tasks (jobs (ap_w a) j)). 1 \<le> frac (tasks (ap_w a) t) \<and> frac (tasks (ap_w a) t) < 2 ^ 31 \<and>
      frac (tasks (ap_w a) t) \<le> int (length (g_strsplit (nonempty_or [] (servers (jobs (ap_w a) j))) '','' 0) div 2)"
  shows "\<exists>v' r. parse_maestro_messages venv (arriving c es) (s, v) = Some (s, v') \<and> mv_jobs v' k = Some r \<and>
    cj_status (mv_job v' r) = status (jobs (ap_w a) j) \<and>
    cj_title (mv_job v' r) = Some (nonempty_or [] (info_title (info (jobs (ap_w a) j)))) \<and>
    cj_queue (mv_job v' r) = Some (nonempty_or [] (gebrm_job_get_queue (jobs (ap_w a) j))) \<and>
    gebr_job_has_issues (mv_job v' r) = gebrm_job_has_issues j (ap_w a) \<and>
    (\<forall>t \<in> set (job_tasks (jobs (ap_w a) j)). let ct = cj_tasks (mv_job v' r) ! nat (frac (tasks (ap_w a) t) - 1) in
       ct_output ct = task_output (tasks (ap_w a) t) \<and> ct_cmd_line ct = Some (cmd_line (tasks (ap_w a) t)))"
proof -
  let ?w = "ap_w a" and ?n = "length (g_strsplit (nonempty_or [] (servers (jobs (ap_w a) j))) '','' 0) div 2"
  have es: "es = map (\<lambda>(d, ps). ClientSend c d ps) (job_messages env k j ?w)" using assms(1) by (simp add: send_messages_trace)
  have fits: "\<forall>m \<in> set (job_messages env k j ?w). list_all (\<lambda>p. arg_fits (nonempty_or [] p)) (snd m)"
    using assms(2) by (force simp: es)
  have range: "1 \<le> frac (tasks ?w t) \<and> frac (tasks ?w t) < 2 ^ 31 \<and> task_slot ?w t < ?n"
    if "t \<in> set (job_tasks (jobs ?w j))" for t
    using bspec [OF assms(6) that] by (simp add: task_slot_def nat_less_iff)
  have slot: "ct_output (copied_slots venv j ?w ! task_slot ?w t) = task_output (tasks ?w t) \<and>
      ct_cmd_line (copied_slots venv j ?w ! task_slot ?w t) = Some (cmd_line (tasks ?w t))"
    if t: "t \<in> set (job_tasks (jobs ?w j))" for t
  proof -
    have "distinct (map (task_slot ?w) (job_tasks (jobs ?w j)))"
      using assms(5) range by (auto simp: distinct_map inj_on_def task_slot_def) (smt (verit) nat_eq_iff2)
    then show ?thesis
      using t range [OF t] task_slots_blank [of "task_slot ?w t"]
      by (simp add: copied_slots_def fill_slots_nth task_slots_length)
  qed
  from parse_job_messages [OF fits assms(3,4) range, of venv s] show ?thesis
    unfolding es arriving_sent using slot by (auto simp: task_slot_def)
qed

text \<open>The job 3 runs on one machine, and its task has written \<open>hello\<close>.\<close>

definition copy_app :: app where
  "copy_app = gebrm_app_init
     (daemon_world\<lparr>
        tasks := (\<lambda>t. (gebrm_task_init 7 ''3'' 1)\<lparr>tstatus := JOB_STATUS_RUNNING, task_output := ''hello'', cmd_line := ''echo''\<rparr>),
        jobs := (\<lambda>j. gebrm_job_init\<lparr>job_tasks := [0], total := 1, servers := Some ''node,1'', status := JOB_STATUS_RUNNING\<rparr>)\<rparr>)
     two_machines_conf"

lemma copy_app_job:
  "tasks (ap_w copy_app) t = (gebrm_task_init 7 ''3'' 1)\<lparr>tstatus := JOB_STATUS_RUNNING, task_output := ''hello'', cmd_line := ''echo''\<rparr>"
  "jobs (ap_w copy_app) 0 =
     gebrm_job_init\<lparr>job_tasks := [0], total := 1, servers := Some ''node,1'', status := JOB_STATUS_RUNNING\<rparr>"
  by (simp_all add: copy_app_def gebrm_app_init_def)

lemma copy_app_fits:
  "\<forall>m \<in> set (job_messages plain_env ''3'' 0 (ap_w copy_app)). list_all (\<lambda>p. arg_fits (nonempty_or [] p)) (snd m)"
  by (simp add: job_messages_defined copy_app_job gebrm_job_init_def gebrm_task_init_def gebrm_job_has_issues_def defined_args_def
      job_fields_def gebrm_job_get_io_def nonblank_def no_info_def text_or_empty_def gebrm_job_get_queue_def
      gebrm_job_get_server_group_def gebrm_job_get_start_date_def gebrm_job_get_finish_date_def gebrm_job_get_status_def
      nonempty_or_def arg_fits_def gebrm_task_get_start_date_def gebrm_task_get_finish_date_def small_ids Let_def)

theorem job_copied_witness:
  "\<exists>v' r. parse_maestro_messages plain_view_env
       (arriving 5 (map (\<lambda>(d, ps). ClientSend 5 d ps) (job_messages plain_env ''3'' 0 (ap_w copy_app)))) plain_client =
       Some (fst plain_client, v') \<and> mv_jobs v' ''3'' = Some r \<and> cj_status (mv_job v' r) = JOB_STATUS_RUNNING \<and>
     ct_output (cj_tasks (mv_job v' r) ! 0) = ''hello''"
proof -
  let ?es = "map (\<lambda>(d, ps). ClientSend 5 d ps) (job_messages plain_env ''3'' 0 (ap_w copy_app))"
  have f: "\<forall>d ps. ClientSend 5 d ps \<in> set ?es \<longrightarrow> list_all (\<lambda>p. arg_fits (nonempty_or [] p)) ps"
    using copy_app_fits by fastforce
  have new: "mv_jobs (snd plain_client) k = None" "mv_temp_jobs (snd plain_client) k = None" for k
    by (simp_all add: plain_client_def gebr_maestro_server_new_def)
  have "length (g_strsplit (nonempty_or [] (servers (jobs (ap_w copy_app) 0))) '','' 0) div 2 = 1"
    by (simp add: copy_app_job nonempty_or_def g_strsplit_def)
  then have tasks: "distinct (map (\<lambda>t. frac (tasks (ap_w copy_app) t)) (job_tasks (jobs (ap_w copy_app) 0)))"
    "\<forall>t \<in> set (job_tasks (jobs (ap_w copy_app) 0)). 1 \<le> frac (tasks (ap_w copy_app) t) \<and> frac (tasks (ap_w copy_app) t) < 2 ^ 31 \<and>
      frac (tasks (ap_w copy_app) t) \<le> int (length (g_strsplit (nonempty_or [] (servers (jobs (ap_w copy_app) 0))) '','' 0) div 2)"
    by (simp_all add: copy_app_job gebrm_task_init_def)
  have task0: "0 \<in> set (job_tasks (jobs (ap_w copy_app) 0))" "status (jobs (ap_w copy_app) 0) = JOB_STATUS_RUNNING"
    "task_output (tasks (ap_w copy_app) 0) = ''hello''" "nat (frac (tasks (ap_w copy_app) 0) - 1) = 0"
    by (simp_all add: copy_app_job gebrm_task_init_def)
  from job_copied [OF send_messages_trace f new tasks, of plain_view_env "fst plain_client"]
  obtain v' r where "parse_maestro_messages plain_view_env (arriving 5 ?es) plain_client = Some (fst plain_client, v')"
    "mv_jobs v' ''3'' = Some r" "cj_status (mv_job v' r) = status (jobs (ap_w copy_app) 0)"
    "\<forall>t \<in> set (job_tasks (jobs (ap_w copy_app) 0)). let ct = cj_tasks (mv_job v' r) ! nat (frac (tasks (ap_w copy_app) t) - 1) in
       ct_output ct = task_output (tasks (ap_w copy_app) t) \<and> ct_cmd_line ct = Some (cmd_line (tasks (ap_w copy_app) t))"
    unfolding prod.collapse by blast
  with task0 show ?thesis unfolding Let_def by (metis (no_types, lifting))
qed

section \<open>Reports on unknown objects\<close>

text \<open>
  The reports do not look whether the client knows the job: the one that is looked up is NULL, and is read. Tags of a machine
  that is not known are stored with a row that was not set.
\<close>

theorem unknown_report_crashes:
  assumes "mv_jobs v i = None" "list_all (\<lambda>p. arg_fits (nonempty_or [] p)) [Some i, x, y]"
  shows "\<forall>d \<in> {sta_def, out_def, cmd_def}. handle_maestro_message env (delivered d False (build_args [Some i, x, y])) (s, v) = None"
    "handle_maestro_message env (delivered iss_def False (build_args [Some i, x])) (s, v) = None"
    "get_daemon_from_address (Some i) v = None \<Longrightarrow>
      handle_maestro_message env (delivered agrp_def False (build_args [Some i, x])) (s, v) = None"
proof -
  have i: "nonempty_or [] (Some i) = i" by (simp add: nonempty_or_def)
  have two: "list_all (\<lambda>p. arg_fits (nonempty_or [] p)) [Some i, x]" using assms(2) by simp
  note msg = job_message [OF assms(2)] and msg2 = job_message [OF two]
  show "\<forall>d \<in> {sta_def, out_def, cmd_def}. handle_maestro_message env (delivered d False (build_args [Some i, x, y])) (s, v) = None"
    using assms(1) i msg(3-5)
    by (simp add: on_view_opt_def job_status_def job_output_def job_cmd_line_def with_job_def del: build_args.simps)
  show "handle_maestro_message env (delivered iss_def False (build_args [Some i, x])) (s, v) = None"
    using assms(1) i msg2(2) by (simp add: on_view_opt_def job_issued_def with_job_def del: build_args.simps)
  show "get_daemon_from_address (Some i) v = None \<Longrightarrow>
      handle_maestro_message env (delivered agrp_def False (build_args [Some i, x])) (s, v) = None"
    using i msg2(6) by (simp add: on_view_opt_def machine_tags_def del: build_args.simps)
qed

end
