(* ===== verification/Gebr_Asks.thy ===== *)
theory Gebr_Asks
  imports Gebr_Mirror
begin

text \<open>
  The requests of the client at the maestro: the text that is written for a request is read back as the same request, so
  that the maestro does what the client asked for.
\<close>

section \<open>What the maestro reads\<close>

text \<open>A request is handled by its prefix and its parameters.\<close>

lemma put_request_cong:
  assumes "gebr_comm_uri_get_prefix u' = gebr_comm_uri_get_prefix u" "gebr_comm_uri_get_param u' = gebr_comm_uri_get_param u"
  shows "put_request n env c body u' a = put_request n env c body u a"
  unfolding put_request_def server_request_def password_request_def connect_daemons_request_def ssh_answer_request_def
    disconnect_request_def stop_request_def tags_request_def tag_insert_request_def tag_remove_request_def autoconnect_request_def
    gebrm_app_handle_run_def run_parent_def run_info_def assms by (rule refl)

lemma request_read:
  assumes "utf8_bytes utf8" "sendable u" "mset (order (uri_params u)) = mset (uri_params u)"
    and "gebr_comm_uri_to_string utf8 order u = Some (url req)" "http_method req = GEBR_COMM_HTTP_METHOD_PUT"
  shows "on_client_request n env c req a = put_request n env c (content req) u a"
proof -
  obtain u' where u': "gebr_comm_uri_parse (url req) gebr_comm_uri_new = Some u'"
    "gebr_comm_uri_get_prefix u' = gebr_comm_uri_get_prefix u" "gebr_comm_uri_get_param u' = gebr_comm_uri_get_param u"
    using uri_read_back [where order = order, OF assms(1-3)] assms(4) by (auto simp: fun_eq_iff)
  then show ?thesis using assms(5) by (simp add: on_client_request_def put_request_cong [OF u'(2,3)])
qed

lemma job_uri_eq: "job_uri p j = request_uri p [(''id'', cj_runid j)]"
  by (simp add: job_uri_def request_uri_def)

lemma request_sendable:
  assumes "distinct (map fst ps)" "ps \<noteq> []" "CHR ''?'' \<notin> set p"
    and "\<forall>(k, v) \<in> set ps. CHR '';'' \<notin> set k \<and> CHR ''='' \<notin> set k \<and> (\<exists>x. v = Some x \<and> (\<forall>c \<in> set x. code c \<noteq> 0))"
  shows "sendable (request_uri p ps)"
  using assms unfolding sendable_def by (simp add: request_params)

lemma request_get:
  "distinct (map fst ps) \<Longrightarrow> gebr_comm_uri_get_param (request_uri p ps) k = (case map_of ps k of None \<Rightarrow> None | Some v \<Rightarrow> v)"
  "gebr_comm_uri_get_prefix (request_uri p ps) = Some p"
  by (simp_all add: gebr_comm_uri_get_param_def gebr_comm_uri_get_prefix_def request_params)

section \<open>Jobs and machines\<close>

text \<open>
  C3: what the user asks for in the client is what the maestro does: the request that is sent for killing or closing a
  job, for disconnecting, stopping or removing a machine and for a tag, whatever the names hold, makes the maestro run the
  operation with the id, the address and the tag of the object it was asked for.
\<close>

theorem requests_understood:
  assumes "utf8_bytes utf8" "mset (order (uri_params u)) = mset (uri_params u)"
    and "gebr_comm_uri_to_string utf8 order u = Some (url req)" "http_method req = GEBR_COMM_HTTP_METHOD_PUT"
    and "\<forall>x \<in> {i, addr, tag, confirm}. \<forall>c \<in> set x. code c \<noteq> 0" "cj_runid j = Some i" "cd_address d = addr"
  shows "(gebr_job_kill j = Some u \<longrightarrow> on_client_request n env c req a = kill_request n env i a) \<and>
    (snd (gebr_job_close j) = Some u \<longrightarrow> on_client_request n env c req a = Inr (close_request i a)) \<and>
    (u = gebr_daemon_server_disconnect d \<longrightarrow>
       on_client_request n env c req a = disconnect_request n env c u a \<and>
       gebr_comm_uri_get_param u ''address'' = Some addr \<and> gebr_comm_uri_get_param u ''confirm'' = Some []) \<and>
    (u = gebr_maestro_server_stop addr confirm \<longrightarrow>
       on_client_request n env c req a = stop_machines n env c (Some addr) (Some confirm) (ap_daemons a) a) \<and>
    (u = gebr_maestro_server_remove addr \<longrightarrow> on_client_request n env c req a = remove_daemon env (Some addr) a) \<and>
    (u = gebr_maestro_server_add_tag_to d tag \<longrightarrow> on_client_request n env c req a =
       tag_changed (Some addr) (gebrm_config_insert_tag_on_server addr tag (ap_conf a)) a) \<and>
    (u = gebr_maestro_server_remove_tag_from d tag \<longrightarrow> on_client_request n env c req a =
       tag_changed (Some addr) (gebrm_config_remove_tag_of_server addr tag (ap_conf a)) a)"
proof -
  note r = request_read [OF assms(1) _ assms(2-4)]
  note simps = put_request_def Let_def request_get
  have job: "on_client_request n env c req a = put_request n env c (content req) u a" if "u = request_uri p [(''id'', Some i)]" "CHR ''?'' \<notin> set p" for p
    using assms(5) that by (intro r) (auto intro!: request_sendable)
  show ?thesis
  proof (intro conjI impI)
    assume "gebr_job_kill j = Some u"
    then have u: "u = request_uri ''/kill'' [(''id'', Some i)]" using assms(6) by (auto simp: gebr_job_kill_def job_uri_eq split: if_splits)
    show "on_client_request n env c req a = kill_request n env i a" using job [OF u] by (simp add: simps u)
  next
    assume "snd (gebr_job_close j) = Some u"
    then have u: "u = request_uri ''/close'' [(''id'', Some i)]" using assms(6) by (auto simp: gebr_job_close_def job_uri_eq split: if_splits)
    show "on_client_request n env c req a = Inr (close_request i a)" using job [OF u] by (simp add: simps u)
  next
    assume u: "u = gebr_maestro_server_remove addr"
    have "sendable u" using assms(5) by (auto simp: u gebr_maestro_server_remove_def intro!: request_sendable)
    from r [OF this] show "on_client_request n env c req a = remove_daemon env (Some addr) a"
      by (simp add: simps u gebr_maestro_server_remove_def)
  qed (use assms(5,7) in \<open>auto simp: simps gebr_daemon_server_disconnect_def gebr_maestro_server_connectable_disconnect_def
      gebr_maestro_server_stop_def stop_request_def
      gebr_maestro_server_add_tag_to_def gebr_maestro_server_remove_tag_from_def tag_insert_request_def tag_remove_request_def or_empty_def
      intro!: request_sendable trans [OF r]\<close>)
qed

text \<open>A running job 3 that the user kills.\<close>

definition running_cjob :: client_job where
  "running_cjob = (gebr_job_new_with_id (Some ''3'') None None)\<lparr>cj_status := JOB_STATUS_RUNNING\<rparr>"

definition put_msg :: "string \<Rightarrow> http_msg" where
  "put_msg u = (gebr_comm_http_msg_new GEBR_COMM_HTTP_TYPE_REQUEST GEBR_COMM_HTTP_METHOD_PUT)\<lparr>url := u\<rparr>"

theorem requests_understood_witness:
  "\<exists>url. gebr_comm_uri_to_string (\<lambda>_. 0) rev (job_uri ''/kill'' running_cjob) = Some url \<and>
     on_client_request 2 plain_env 0 (put_msg url) idle_app = kill_request 2 plain_env ''3'' idle_app"
proof -
  let ?u = "job_uri ''/kill'' running_cjob"
  have j: "cj_runid running_cjob = Some ''3''" "gebr_job_kill running_cjob = Some ?u"
    by (simp_all add: running_cjob_def gebr_job_new_with_id_def gebr_job_kill_def gebr_job_can_kill_def)
  have "sendable ?u" unfolding job_uri_eq j(1) by (rule request_sendable) (auto simp: code_def)
  then obtain url where url: "gebr_comm_uri_to_string (\<lambda>_. 0) rev ?u = Some url"
    using uri_read_back [where ?utf8.0 = "\<lambda>_. 0" and order = rev and u = ?u] by (auto simp: utf8_bytes_def)
  then show ?thesis
    using requests_understood [where ?utf8.0 = "\<lambda>_. 0" and order = rev and u = ?u and req = "put_msg url" and i = "''3''" and
        addr = "[]" and tag = "[]" and confirm = "[]" and j = running_cjob and
        d = "gebr_daemon_server_new None SERVER_STATE_LOGGED None" and n = 2 and env = plain_env and c = 0 and a = idle_app] j
    by (simp add: utf8_bytes_def put_msg_def gebr_comm_http_msg_new_def code_def gebr_daemon_server_new_def)
qed

end
